(* ===== verification/Py_Prelude.thy ===== *)
theory Py_Prelude
  imports Main "HOL-Library.List_Lexorder" "HOL-Library.Char_ord" "HOL-Library.AList"
begin

text \<open>
  What every component shares: the values Python code passes around (\<open>pyval\<close>, the result of
  a YAML, TOML or JSON load), ordered dictionaries as association lists, the string methods of the
  standard library the sources call, errors as the left side of a sum, and the interface
  \<open>binding_store\<close> that the deployment state and the sharing ledger both provide.

  Strings are character lists whose characters are the code points 0 to 255 (Latin-1); the
  string methods below are exact on that range, except that \<open>lower\<close>, \<open>upper\<close> and
  \<open>casefold\<close> keep a character whose image lies outside it.
\<close>

named_theorems dict_simps \<open>lookups in ordered dictionaries\<close>
named_theorems str_simps \<open>evaluation of the string methods\<close>

section \<open>Values\<close>

text \<open>
  A loaded value. A float is kept as its \<open>repr\<close>; a dictionary keeps insertion order and, as in
  Python, holds a key once. \<open>True == 1\<close> and \<open>1 == 1.0\<close> are not identified.
\<close>

datatype pyval =
    PNone
  | PBool bool
  | PInt int
  | PFloat string
  | PStr string
  | PDate int int int
  | PDatetime int int int string
  | PList "pyval list"
  | PDict "(pyval \<times> pyval) list"

type_synonym pydict = "(pyval \<times> pyval) list"

fun as_dict_val :: "pyval \<Rightarrow> pydict option" where
  "as_dict_val (PDict d) = Some d"
| "as_dict_val _ = None"

fun as_str_val :: "pyval \<Rightarrow> string option" where
  "as_str_val (PStr s) = Some s"
| "as_str_val _ = None"

fun as_list_val :: "pyval \<Rightarrow> pyval list option" where
  "as_list_val (PList xs) = Some xs"
| "as_list_val _ = None"

text \<open>\<open>d.get(key)\<close> for a string key: a missing key is \<open>None\<close>.\<close>

definition dget :: "pydict \<Rightarrow> string \<Rightarrow> pyval option" where
  "dget d k = map_of d (PStr k)"

definition dget_none :: "pydict \<Rightarrow> string \<Rightarrow> pyval" where
  "dget_none d k = (case dget d k of None \<Rightarrow> PNone | Some v \<Rightarrow> v)"

definition dget_str :: "pydict \<Rightarrow> string \<Rightarrow> string option" where
  "dget_str d k = as_str_val (dget_none d k)"

definition dget_dict :: "pydict \<Rightarrow> string \<Rightarrow> pydict option" where
  "dget_dict d k = as_dict_val (dget_none d k)"

text \<open>Python's truth value.\<close>

fun truthy :: "pyval \<Rightarrow> bool" where
  "truthy PNone = False"
| "truthy (PBool b) = b"
| "truthy (PInt i) = (i \<noteq> 0)"
| "truthy (PFloat r) = (r \<noteq> ''0.0'' \<and> r \<noteq> ''-0.0'')"
| "truthy (PStr s) = (s \<noteq> [])"
| "truthy (PDate _ _ _) = True"
| "truthy (PDatetime _ _ _ _) = True"
| "truthy (PList xs) = (xs \<noteq> [])"
| "truthy (PDict d) = (d \<noteq> [])"

text \<open>\<open>a or b\<close>, and a dictionary with keys that are texts.\<close>

definition py_or :: "pyval \<Rightarrow> pyval \<Rightarrow> pyval" where
  "py_or a b = (if truthy a then a else b)"

definition jobj :: "(string \<times> pyval) list \<Rightarrow> pyval" where
  "jobj items = PDict (map (\<lambda>(k, v). (PStr k, v)) items)"

lemma dget_Nil [simp]: "dget [] k = None"
  by (simp add: dget_def)

lemma dget_Cons [simp]: "dget ((k', v) # d) k = (if k' = PStr k then Some v else dget d k)"
  by (simp add: dget_def)

lemma dget_update [simp, dict_simps]:
  "dget (AList.update (PStr k) v d) k' = (if k' = k then Some v else dget d k')"
  by (simp add: dget_def update_conv')

lemma dget_none_None [simp]: "dget d k = None \<Longrightarrow> dget_none d k = PNone"
  by (simp add: dget_none_def)

lemma dget_none_Some [simp]: "dget d k = Some v \<Longrightarrow> dget_none d k = v"
  by (simp add: dget_none_def)

lemma as_str_val_iff [simp]: "as_str_val v = Some s \<longleftrightarrow> v = PStr s"
  by (cases v) auto

lemma as_dict_val_iff [simp]: "as_dict_val v = Some d \<longleftrightarrow> v = PDict d"
  by (cases v) auto

lemma as_list_val_iff [simp]: "as_list_val v = Some d \<longleftrightarrow> v = PList d"
  by (cases v) auto

lemma dget_str_Some: "dget_str d k = Some s \<longleftrightarrow> dget d k = Some (PStr s)"
  by (auto simp: dget_str_def dget_none_def split: option.splits)

lemma dget_dict_Some: "dget_dict d k = Some e \<longleftrightarrow> dget d k = Some (PDict e)"
  by (auto simp: dget_dict_def dget_none_def split: option.splits)

section \<open>Ordered dictionaries\<close>

text \<open>
  \<open>d[k] = v\<close> overwrites in place or appends (\<open>AList.update\<close>), \<open>del d[k]\<close> removes
  (\<open>AList.delete\<close>). \<open>dappend\<close> is \<open>d.setdefault(k, []).append(x)\<close>.
\<close>

definition dappend :: "'k \<Rightarrow> 'v \<Rightarrow> ('k \<times> 'v list) list \<Rightarrow> ('k \<times> 'v list) list" where
  "dappend k x d = AList.update k (case map_of d k of None \<Rightarrow> [x] | Some xs \<Rightarrow> xs @ [x]) d"

definition dget_list :: "('k \<times> 'v list) list \<Rightarrow> 'k \<Rightarrow> 'v list" where
  "dget_list d k = (case map_of d k of None \<Rightarrow> [] | Some xs \<Rightarrow> xs)"

lemma map_of_update [simp, dict_simps]:
  "map_of (AList.update k v d) k' = (if k' = k then Some v else map_of d k')"
  by (simp add: update_conv')

lemma map_of_delete [simp, dict_simps]:
  "map_of (AList.delete k d) k' = (if k' = k then None else map_of d k')"
  by (simp add: delete_conv')

lemma dget_list_dappend [simp, dict_simps]:
  "dget_list (dappend k x d) k' = (if k' = k then dget_list d k @ [x] else dget_list d k')"
  by (simp add: dget_list_def dappend_def split: option.splits)

lemma dget_list_Nil [simp]: "dget_list [] k = []"
  by (simp add: dget_list_def)

lemma keys_dappend: "fst ` set (dappend k x d) = insert k (fst ` set d)"
  by (simp add: dappend_def dom_update)

lemma distinct_dappend: "distinct (map fst d) \<Longrightarrow> distinct (map fst (dappend k x d))"
  by (simp add: dappend_def distinct_update)

lemma update_nonempty [simp]: "AList.update k v d \<noteq> []"
  by (cases d) (auto split: prod.splits)

lemma delete_Nil_iff: "AList.delete k d = [] \<longleftrightarrow> fst ` set d \<subseteq> {k}"
  by (induction d) auto

lemma set_update_subset: "set (AList.update k v d) \<subseteq> insert (k, v) (set d)"
  by (induction d) auto

lemma set_delete_subset: "set (AList.delete k d) \<subseteq> set d"
  by (induction d) auto

section \<open>Errors\<close>

text \<open>A loop whose body may raise: the state at the first error is lost, as the exception would.\<close>

fun rfold :: "('s \<Rightarrow> 'a \<Rightarrow> 'e + 's) \<Rightarrow> 's \<Rightarrow> 'a list \<Rightarrow> 'e + 's" where
  "rfold f s [] = Inr s"
| "rfold f s (x # xs) = (case f s x of Inl e \<Rightarrow> Inl e | Inr s' \<Rightarrow> rfold f s' xs)"

fun rmap :: "('a \<Rightarrow> 'e + 'b) \<Rightarrow> 'a list \<Rightarrow> 'e + 'b list" where
  "rmap f [] = Inr []"
| "rmap f (x # xs) =
     (case f x of Inl e \<Rightarrow> Inl e
      | Inr y \<Rightarrow> (case rmap f xs of Inl e \<Rightarrow> Inl e | Inr ys \<Rightarrow> Inr (y # ys)))"

definition rbind :: "'e + 'a \<Rightarrow> ('a \<Rightarrow> 'e + 'b) \<Rightarrow> 'e + 'b" where
  "rbind m f = (case m of Inl e \<Rightarrow> Inl e | Inr x \<Rightarrow> f x)"

lemma rbind_simps [simp]: "rbind (Inl e) f = Inl e" "rbind (Inr x) f = f x"
  by (simp_all add: rbind_def)

lemma rbind_Inr: "rbind m f = Inr y \<longleftrightarrow> (\<exists>x. m = Inr x \<and> f x = Inr y)"
  by (cases m) auto

lemma rfold_append:
  "rfold f s (xs @ ys) = (case rfold f s xs of Inl e \<Rightarrow> Inl e | Inr s' \<Rightarrow> rfold f s' ys)"
  by (induction xs arbitrary: s) (auto split: sum.splits)

text \<open>An invariant of the body is an invariant of the loop.\<close>

lemma rfold_invariant:
  assumes "rfold f s xs = Inr t" and "I s"
    and "\<And>s x s'. x \<in> set xs \<Longrightarrow> I s \<Longrightarrow> f s x = Inr s' \<Longrightarrow> I s'"
  shows "I t"
  using assms
proof (induction xs arbitrary: s)
  case Nil
  then show ?case by simp
next
  case (Cons x xs)
  then obtain s' where "f s x = Inr s'" and "rfold f s' xs = Inr t"
    by (auto split: sum.splits)
  with Cons.IH [of s'] Cons.prems show ?case by auto
qed

lemma rmap_Inr_length: "rmap f xs = Inr ys \<Longrightarrow> length ys = length xs"
  by (induction xs arbitrary: ys) (auto split: sum.splits)

lemma rmap_Inr_set: "rmap f xs = Inr ys \<Longrightarrow> y \<in> set ys \<Longrightarrow> \<exists>x \<in> set xs. f x = Inr y"
  by (induction xs arbitrary: ys) (auto split: sum.splits)

lemma rmap_Inl_iff: "(\<exists>e. rmap f xs = Inl e) \<longleftrightarrow> (\<exists>x \<in> set xs. \<exists>e. f x = Inl e)"
  by (induction xs) (auto split: sum.splits)

section \<open>Strings\<close>

definition is_py_space :: "char \<Rightarrow> bool" where
  "is_py_space c = (let n = (of_char c :: nat) in
     (9 \<le> n \<and> n \<le> 13) \<or> (28 \<le> n \<and> n \<le> 32) \<or> n = 133 \<or> n = 160)"

definition py_lstrip :: "string \<Rightarrow> string" where
  "py_lstrip s = dropWhile is_py_space s"

definition py_rstrip :: "string \<Rightarrow> string" where
  "py_rstrip s = rev (dropWhile is_py_space (rev s))"

definition py_strip :: "string \<Rightarrow> string" where
  "py_strip s = py_rstrip (py_lstrip s)"

definition lower_char :: "char \<Rightarrow> char" where
  "lower_char c = (let n = (of_char c :: nat) in
     if (65 \<le> n \<and> n \<le> 90) \<or> (192 \<le> n \<and> n \<le> 222 \<and> n \<noteq> 215) then char_of (n + 32) else c)"

definition py_lower :: "string \<Rightarrow> string" where
  "py_lower s = map lower_char s"

definition upper_char :: "char \<Rightarrow> string" where
  "upper_char c = (let n = (of_char c :: nat) in
     if (97 \<le> n \<and> n \<le> 122) \<or> (224 \<le> n \<and> n \<le> 254 \<and> n \<noteq> 247) then [char_of (n - 32)]
     else if n = 223 then ''SS'' else [c])"

definition py_upper :: "string \<Rightarrow> string" where
  "py_upper s = concat (map upper_char s)"

definition casefold :: "string \<Rightarrow> string" where
  "casefold s = concat (map (\<lambda>c. if (of_char c :: nat) = 223 then ''ss'' else [lower_char c]) s)"

fun starts_with :: "string \<Rightarrow> string \<Rightarrow> bool" where
  "starts_with [] s = True"
| "starts_with (p # ps) [] = False"
| "starts_with (p # ps) (c # cs) = (p = c \<and> starts_with ps cs)"

definition ends_with :: "string \<Rightarrow> string \<Rightarrow> bool" where
  "ends_with suf s = starts_with (rev suf) (rev s)"

text \<open>\<open>sub in s\<close>, \<open>s.split(sep)\<close>, \<open>s.partition(sep)\<close> and \<open>s.replace(old, '')\<close>.\<close>

fun contains_str :: "string \<Rightarrow> string \<Rightarrow> bool" where
  "contains_str sub [] = (sub = [])"
| "contains_str sub (c # cs) = (starts_with sub (c # cs) \<or> contains_str sub cs)"

fun split_acc :: "nat \<Rightarrow> string \<Rightarrow> string \<Rightarrow> string \<Rightarrow> string list" where
  "split_acc skip sep acc [] = [rev acc]"
| "split_acc (Suc k) sep acc (c # cs) = split_acc k sep acc cs"
| "split_acc 0 sep acc (c # cs) =
     (if sep \<noteq> [] \<and> starts_with sep (c # cs) then rev acc # split_acc (length sep - 1) sep [] cs
      else split_acc 0 sep (c # acc) cs)"

definition py_split :: "string \<Rightarrow> string \<Rightarrow> string list" where
  "py_split sep s = split_acc 0 sep [] s"

fun partition_acc :: "string \<Rightarrow> string \<Rightarrow> string \<Rightarrow> string \<times> bool \<times> string" where
  "partition_acc sep acc [] = (rev acc, False, [])"
| "partition_acc sep acc (c # cs) =
     (if starts_with sep (c # cs) then (rev acc, True, drop (length sep) (c # cs))
      else partition_acc sep (c # acc) cs)"

definition py_partition :: "string \<Rightarrow> string \<Rightarrow> string \<times> bool \<times> string" where
  "py_partition sep s = partition_acc sep [] s"

fun str_join :: "string \<Rightarrow> string list \<Rightarrow> string" where
  "str_join sep [] = []"
| "str_join sep [x] = x"
| "str_join sep (x # y # zs) = x @ sep @ str_join sep (y # zs)"

definition str_remove :: "string \<Rightarrow> string \<Rightarrow> string" where
  "str_remove old s = concat (py_split old s)"

definition replace_char :: "char \<Rightarrow> char \<Rightarrow> string \<Rightarrow> string" where
  "replace_char a b = map (\<lambda>c. if c = a then b else c)"

text \<open>\<open>dict.fromkeys\<close>: the first of each.\<close>

definition from_keys :: "'a list \<Rightarrow> 'a list" where
  "from_keys xs = rev (remdups (rev xs))"

text \<open>\<open>str.splitlines\<close>: a carriage return and the line feed after it end one line.\<close>

definition is_line_break :: "char \<Rightarrow> bool" where
  "is_line_break c = ((of_char c :: nat) \<in> {10, 11, 12, 13, 28, 29, 30, 133})"

fun splitlines_acc :: "string \<Rightarrow> string \<Rightarrow> string list" where
  "splitlines_acc acc [] = (if acc = [] then [] else [rev acc])"
| "splitlines_acc acc (c # cs) =
     (if is_line_break c
      then rev acc # splitlines_acc []
             (if (of_char c :: nat) = 13 \<and> cs \<noteq> [] \<and> (of_char (hd cs) :: nat) = 10 then tl cs else cs)
      else splitlines_acc (c # acc) cs)"

definition splitlines :: "string \<Rightarrow> string list" where
  "splitlines s = splitlines_acc [] s"

definition is_ascii_digit :: "char \<Rightarrow> bool" where
  "is_ascii_digit c = (let n = (of_char c :: nat) in 48 \<le> n \<and> n \<le> 57)"

definition digit_char :: "nat \<Rightarrow> char" where
  "digit_char d = char_of (if d < 10 then 48 + d else 87 + d)"

fun nat_str :: "nat \<Rightarrow> string" where
  "nat_str n = (if n < 10 then [digit_char n] else nat_str (n div 10) @ [digit_char (n mod 10)])"

declare nat_str.simps [simp del]

definition int_str :: "int \<Rightarrow> string" where
  "int_str i = (if i < 0 then ''-'' @ nat_str (nat (- i)) else nat_str (nat i))"

definition dec_value :: "string \<Rightarrow> nat" where
  "dec_value s = foldl (\<lambda>n c. 10 * n + (of_char c - 48)) 0 s"

text \<open>\<open>int(s)\<close>: whitespace around it, a sign, and digits with single underscores between them.\<close>

definition is_sign :: "char \<Rightarrow> bool" where
  "is_sign c = (c = CHR ''-'' \<or> c = CHR ''+'')"

definition py_int :: "string \<Rightarrow> int option" where
  "py_int s =
     (let t = py_strip s;
          digits = (if t \<noteq> [] \<and> is_sign (hd t) then tl t else t);
          groups = py_split ''_'' digits
      in if list_all (\<lambda>g. g \<noteq> [] \<and> list_all is_ascii_digit g) groups
         then Some ((if t \<noteq> [] \<and> hd t = CHR ''-'' then -1 else 1) * int (dec_value (concat groups)))
         else None)"

definition quoted :: "string \<Rightarrow> string" where
  "quoted s = [CHR 0x27] @ s @ [CHR 0x27]"

text \<open>\<open>repr\<close> and \<open>str\<close> of a loaded value.\<close>

definition hex2 :: "nat \<Rightarrow> string" where
  "hex2 n = [digit_char (n div 16), digit_char (n mod 16)]"

definition repr_char :: "char \<Rightarrow> char \<Rightarrow> string" where
  "repr_char q c = (let n = (of_char c :: nat); bs = CHR 0x5C in
     if c = q \<or> c = bs then [bs, c]
     else if n = 9 then [bs, CHR ''t'']
     else if n = 10 then [bs, CHR ''n'']
     else if n = 13 then [bs, CHR ''r'']
     else if n < 32 \<or> (127 \<le> n \<and> n \<le> 160) \<or> n = 173 then [bs, CHR ''x''] @ hex2 n
     else [c])"

definition str_repr :: "string \<Rightarrow> string" where
  "str_repr s =
     (let q = (if CHR 0x27 \<in> set s \<and> CHR 0x22 \<notin> set s then CHR 0x22 else CHR 0x27)
      in [q] @ concat (map (repr_char q) s) @ [q])"

definition pad :: "nat \<Rightarrow> string \<Rightarrow> string" where
  "pad w s = replicate (w - length s) (CHR ''0'') @ s"

definition iso_date :: "int \<Rightarrow> int \<Rightarrow> int \<Rightarrow> string" where
  "iso_date y m d = pad 4 (int_str y) @ ''-'' @ pad 2 (int_str m) @ ''-'' @ pad 2 (int_str d)"

lemma pyval_size_pair [termination_simp]:
  "(k, v) \<in> set d \<Longrightarrow> size k < size_list (size_prod size size) d"
  "(k, v) \<in> set d \<Longrightarrow> size v < size_list (size_prod size size) d"
  by (induction d) auto

fun py_repr :: "pyval \<Rightarrow> string" where
  "py_repr PNone = ''None''"
| "py_repr (PBool b) = (if b then ''True'' else ''False'')"
| "py_repr (PInt i) = int_str i"
| "py_repr (PFloat r) = r"
| "py_repr (PStr s) = str_repr s"
| "py_repr (PDate y m d) = ''datetime.date('' @ str_join '', '' (map int_str [y, m, d]) @ '')''"
| "py_repr (PDatetime y m d r) =
     ''datetime.datetime('' @ str_join '', '' (map int_str [y, m, d] @ [r]) @ '')''"
| "py_repr (PList xs) = ''['' @ str_join '', '' (map py_repr xs) @ '']''"
| "py_repr (PDict d) =
     ''{'' @ str_join '', '' (map (\<lambda>(k, v). py_repr k @ '': '' @ py_repr v) d) @ ''}''"

fun py_str :: "pyval \<Rightarrow> string" where
  "py_str (PStr s) = s"
| "py_str (PDate y m d) = iso_date y m d"
| "py_str (PDatetime y m d r) = iso_date y m d @ '' '' @ r"
| "py_str v = py_repr v"

section \<open>Lemmas on strings\<close>

lemma starts_with_iff: "starts_with p s \<longleftrightarrow> (\<exists>r. s = p @ r)"
  by (induction p s rule: starts_with.induct) auto

lemma starts_with_append [simp]: "starts_with p (p @ s)"
  by (auto simp: starts_with_iff)

lemma ends_with_iff: "ends_with p s \<longleftrightarrow> (\<exists>r. s = r @ p)"
proof
  assume "ends_with p s"
  then obtain r where "rev s = rev p @ r"
    by (auto simp: ends_with_def starts_with_iff)
  then have "s = rev r @ p"
    by (metis rev_append rev_rev_ident)
  then show "\<exists>r. s = r @ p" ..
qed (auto simp: ends_with_def)

lemma lstrip_hd: "py_lstrip s \<noteq> [] \<Longrightarrow> \<not> is_py_space (hd (py_lstrip s))"
  by (simp add: py_lstrip_def hd_dropWhile)

lemma rstrip_prefix: "\<exists>r. s = py_rstrip s @ r \<and> (\<forall>c \<in> set r. is_py_space c)"
proof -
  have "s = rev (takeWhile is_py_space (rev s) @ dropWhile is_py_space (rev s))"
    by simp
  then have "s = py_rstrip s @ rev (takeWhile is_py_space (rev s))"
    by (simp only: py_rstrip_def rev_append)
  then show ?thesis
    by (intro exI [of _ "rev (takeWhile is_py_space (rev s))"]) (auto dest: set_takeWhileD)
qed

lemma rstrip_last: "py_rstrip s \<noteq> [] \<Longrightarrow> \<not> is_py_space (last (py_rstrip s))"
  by (simp add: py_rstrip_def last_rev hd_dropWhile)

lemma strip_hd: "py_strip s \<noteq> [] \<Longrightarrow> \<not> is_py_space (hd (py_strip s))"
proof -
  assume ne: "py_strip s \<noteq> []"
  obtain r where r: "py_lstrip s = py_strip s @ r"
    using rstrip_prefix [of "py_lstrip s"] by (auto simp: py_strip_def)
  with ne have "hd (py_lstrip s) = hd (py_strip s)" and "py_lstrip s \<noteq> []"
    by auto
  then show ?thesis using lstrip_hd [of s] by simp
qed

lemma strip_last: "py_strip s \<noteq> [] \<Longrightarrow> \<not> is_py_space (last (py_strip s))"
  by (simp add: py_strip_def rstrip_last)

lemma strip_fixed:
  "s = [] \<or> (\<not> is_py_space (hd s) \<and> \<not> is_py_space (last s)) \<Longrightarrow> py_strip s = s"
  by (cases s)
    (auto simp: py_strip_def py_rstrip_def py_lstrip_def dropWhile_eq_self_iff hd_rev simp flip: rev.simps(2))

lemma strip_idem [simp]: "py_strip (py_strip s) = py_strip s"
  using strip_hd [of s] strip_last [of s] by (intro strip_fixed) auto

lemma digit_char_code: "d < 16 \<Longrightarrow> of_char (digit_char d) = (if d < 10 then 48 + d else 87 + d)"
  by (simp add: digit_char_def)

lemma digit_char_not_space: "d < 10 \<Longrightarrow> \<not> is_py_space (digit_char d)"
  by (simp add: is_py_space_def digit_char_code)

lemma nat_str_not_Nil [simp]: "nat_str n \<noteq> []"
  by (subst nat_str.simps) simp

lemma nat_str_digits: "c \<in> set (nat_str n) \<Longrightarrow> is_ascii_digit c"
proof (induction n rule: nat_str.induct)
  case (1 n)
  show ?case
  proof (cases "n < 10")
    case True
    with 1 show ?thesis by (simp add: nat_str.simps [of n] is_ascii_digit_def digit_char_code)
  next
    case False
    with 1 show ?thesis
      by (auto simp: nat_str.simps [of n] is_ascii_digit_def digit_char_code)
  qed
qed

lemma ascii_digit_not_space: "is_ascii_digit c \<Longrightarrow> \<not> is_py_space c"
  by (auto simp: is_ascii_digit_def is_py_space_def Let_def)

lemma nat_str_hd_zero: "hd (nat_str n) = CHR ''0'' \<Longrightarrow> n = 0"
proof (induction n rule: nat_str.induct)
  case (1 n)
  show ?case
  proof (cases "n < 10")
    case True
    with 1 have "(of_char (digit_char n) :: nat) = of_char (CHR ''0'')"
      by (simp add: nat_str.simps [of n])
    with True show ?thesis by (simp add: digit_char_code)
  next
    case False
    with 1 have "n div 10 = 0" by (simp add: nat_str.simps [of n])
    with False show ?thesis by simp
  qed
qed

lemma nat_str_zero [simp]: "nat_str 0 = ''0''"
  by code_simp

lemma dec_value_append [simp]: "dec_value (s @ [c]) = 10 * dec_value s + (of_char c - 48)"
  by (simp add: dec_value_def)

lemma dec_value_nat_str [simp]: "dec_value (nat_str n) = n"
proof (induction n rule: nat_str.induct)
  case (1 n)
  show ?case
  proof (cases "n < 10")
    case True
    then show ?thesis by (simp add: nat_str.simps [of n] dec_value_def digit_char_code)
  next
    case False
    with 1 show ?thesis by (simp add: nat_str.simps [of n] digit_char_code)
  qed
qed

lemma nat_str_inj: "nat_str m = nat_str n \<Longrightarrow> m = n"
  by (metis dec_value_nat_str)

lemma split_acc_no_sep:
  assumes "c \<in> set sep" and "c \<notin> set s"
  shows "split_acc 0 sep acc s = [rev acc @ s]"
  using assms
proof (induction s arbitrary: acc)
  case (Cons x s)
  have "\<not> starts_with sep (x # s)"
  proof
    assume "starts_with sep (x # s)"
    then have "set sep \<subseteq> set (x # s)" 
      unfolding starts_with_iff by (metis set_append sup_ge1)
    with Cons.prems show False by auto
  qed
  with Cons show ?case by simp
qed simp

lemma str_remove_absent: "c \<in> set sep \<Longrightarrow> c \<notin> set s \<Longrightarrow> str_remove sep s = s"
  by (simp add: str_remove_def py_split_def split_acc_no_sep)

lemma py_int_digits:
  assumes "s \<noteq> []" "list_all is_ascii_digit s"
  shows "py_int s = Some (int (dec_value s))"
proof -
  have plain: "\<not> is_py_space c \<and> \<not> is_sign c \<and> c \<noteq> CHR ''_'' \<and> c \<noteq> CHR ''-''" if "c \<in> set s" for c
    using assms(2) that by (auto simp: list_all_iff is_sign_def is_ascii_digit_def is_py_space_def Let_def)
  then have "py_strip s = s" using assms(1) by (intro strip_fixed) simp
  moreover have "py_split ''_'' s = [s]" using plain by (force simp: py_split_def split_acc_no_sep)
  moreover have "\<not> is_sign (hd s)" "hd s \<noteq> CHR ''-''" using plain assms(1) by simp_all
  ultimately show ?thesis using assms by (simp add: py_int_def Let_def)
qed

lemma py_int_nat_str [simp]: "py_int (nat_str n) = Some (int n)"
  using py_int_digits [of "nat_str n"] nat_str_digits nat_str_not_Nil by (simp add: list_all_iff)

lemma concat_split_char: "concat (split_acc 0 [c] acc s) = rev acc @ filter (\<lambda>x. x \<noteq> c) s"
  by (induction s arbitrary: acc) auto

lemma str_remove_char: "str_remove [c] s = filter (\<lambda>x. x \<noteq> c) s"
  by (simp add: str_remove_def py_split_def concat_split_char)

section \<open>The interface of a store of bindings\<close>

text \<open>
  What a client may rely on when it looks a key up, binds it and drops it: the deployment state
  (keys are a platform and a tenant) and the sharing ledger (keys are an object, an integration
  and a target) both provide it. \<open>ok\<close> is the provider's invariant, \<open>admissible\<close>
  the values it takes for a key.
\<close>

locale binding_store =
  fixes lookup :: "'s \<Rightarrow> 'k \<Rightarrow> 'v option"
    and bind_key :: "'s \<Rightarrow> 'k \<Rightarrow> 'v \<Rightarrow> 's"
    and drop_key :: "'s \<Rightarrow> 'k \<Rightarrow> 's"
    and ok :: "'s \<Rightarrow> bool"
    and admissible :: "'k \<Rightarrow> 'v \<Rightarrow> bool"
  assumes lookup_bind: "ok s \<Longrightarrow> admissible k v \<Longrightarrow>
      lookup (bind_key s k v) k' = (if k' = k then Some v else lookup s k')"
    and lookup_drop: "ok s \<Longrightarrow> lookup (drop_key s k) k' = (if k' = k then None else lookup s k')"
    and ok_bind: "ok s \<Longrightarrow> admissible k v \<Longrightarrow> ok (bind_key s k v)"
    and ok_drop: "ok s \<Longrightarrow> ok (drop_key s k)"
begin

lemmas store_specs = lookup_bind lookup_drop ok_bind ok_drop

lemma lookup_bind_twice:
  "ok s \<Longrightarrow> admissible k v \<Longrightarrow> admissible k w \<Longrightarrow>
    lookup (bind_key (bind_key s k v) k w) = lookup (bind_key s k w)"
  by (auto simp: fun_eq_iff store_specs)

lemma lookup_drop_bind:
  "ok s \<Longrightarrow> admissible k v \<Longrightarrow> lookup (drop_key (bind_key s k v) k) = lookup (drop_key s k)"
  by (auto simp: fun_eq_iff store_specs)

lemma ok_delta:
  assumes "ok s" and "\<And>k v. (k, Some v) \<in> set d \<Longrightarrow> admissible k v"
  shows "ok (fold (\<lambda>(k, c) s. case c of None \<Rightarrow> drop_key s k | Some v \<Rightarrow> bind_key s k v) d s)"
  using assms
proof (induction d arbitrary: s)
  case Nil
  then show ?case by simp
next
  case (Cons kc d)
  obtain k c where [simp]: "kc = (k, c)" by (cases kc)
  from Cons show ?case by (cases c) (auto simp: store_specs)
qed

text \<open>
  A sequence of changes, one per key, leaves each named key at its new value and every other key
  alone.
\<close>

lemma lookup_delta:
  assumes "ok s" and "\<And>k v. (k, Some v) \<in> set d \<Longrightarrow> admissible k v" and "distinct (map fst d)"
  shows "lookup (fold (\<lambda>(k, c) s. case c of None \<Rightarrow> drop_key s k | Some v \<Rightarrow> bind_key s k v) d s) k'
      = (case map_of d k' of None \<Rightarrow> lookup s k' | Some c \<Rightarrow> c)"
  using assms
proof (induction d arbitrary: s)
  case Nil
  then show ?case by simp
next
  case (Cons kc d)
  obtain k c where [simp]: "kc = (k, c)" by (cases kc)
  let ?s = "case c of None \<Rightarrow> drop_key s k | Some v \<Rightarrow> bind_key s k v"
  have "ok ?s" using Cons.prems by (cases c) (auto simp: store_specs)
  moreover have "lookup ?s k' = (if k' = k then c else lookup s k')"
    using Cons.prems by (cases c) (auto simp: store_specs)
  moreover have "map_of d k = None"
    using Cons.prems(3) by (simp add: map_of_eq_None_iff)
  ultimately show ?case
    using Cons.IH [of ?s] Cons.prems by (auto split: option.splits)
qed

end

end
