(* ===== verification/Effects.thy ===== *)
theory Effects
  imports Main
begin

text \<open>
  Code that reads and changes a state and may raise: an effect takes the state and gives an exception
  or a result, and the state it leaves. The statements of a Python function are composed with
  \<open>andthen\<close>, a \<open>for\<close> loop is \<open>each\<close>, and \<open>catching\<close> is \<open>try ... except\<close>. What a
  body may do to the state is a relation it \<open>preserves\<close>, and what it gives back a predicate it
  \<open>returns\<close>.
\<close>

type_synonym ('s, 'e, 'a) effect = "'s \<Rightarrow> ('e + 'a) \<times> 's"

definition ret :: "'a \<Rightarrow> ('s, 'e, 'a) effect" where
  "ret x = (\<lambda>s. (Inr x, s))"

definition raise :: "'e \<Rightarrow> ('s, 'e, 'a) effect" where
  "raise e = (\<lambda>s. (Inl e, s))"

definition andthen :: "('s, 'e, 'a) effect \<Rightarrow> ('a \<Rightarrow> ('s, 'e, 'b) effect) \<Rightarrow> ('s, 'e, 'b) effect" where
  "andthen m f = (\<lambda>s. case m s of (Inl e, s') \<Rightarrow> (Inl e, s') | (Inr x, s') \<Rightarrow> f x s')"

fun lift_sum :: "'e + 'a \<Rightarrow> ('s, 'e, 'a) effect" where
  "lift_sum (Inl e) = raise e"
| "lift_sum (Inr x) = ret x"

fun each :: "('a \<Rightarrow> ('s, 'e, 'b) effect) \<Rightarrow> 'a list \<Rightarrow> ('s, 'e, 'b list) effect" where
  "each f [] = ret []"
| "each f (x # xs) = andthen (f x) (\<lambda>y. andthen (each f xs) (\<lambda>ys. ret (y # ys)))"

text \<open>
  \<open>try m except\<close>: the handler sees the exception and says whether it takes it, in the state the
  exception left.
\<close>

definition catching :: "('s, 'e, 'a) effect \<Rightarrow> ('e \<Rightarrow> ('s, 'e, 'a) effect option) \<Rightarrow> ('s, 'e, 'a) effect" where
  "catching m h = (\<lambda>s. case m s of
       (Inl e, s') \<Rightarrow> (case h e of None \<Rightarrow> (Inl e, s') | Some k \<Rightarrow> k s')
     | (Inr x, s') \<Rightarrow> (Inr x, s'))"

text \<open>A statement that only changes the state, and a guard.\<close>

definition update_state :: "('s \<Rightarrow> 's) \<Rightarrow> ('s, 'e, unit) effect" where
  "update_state f = (\<lambda>s. (Inr (), f s))"

section \<open>Running\<close>

named_theorems action_simps \<open>running an action\<close>

lemma ret_run [action_simps]: "ret x s = (Inr x, s)"
  by (simp add: ret_def)

lemma raise_run [action_simps]: "raise e s = (Inl e, s)"
  by (simp add: raise_def)

lemma andthen_run [action_simps]:
  "m s = (Inr x, s') \<Longrightarrow> andthen m f s = f x s'"
  "m s = (Inl e, s') \<Longrightarrow> andthen m f s = (Inl e, s')"
  by (simp_all add: andthen_def)

lemma andthen_ret [simp]: "andthen (ret x) f = f x"
  by (simp add: andthen_def ret_def)

lemma andthen_raise [simp]: "andthen (raise e) f = raise e"
  by (simp add: andthen_def raise_def fun_eq_iff)

lemma andthen_Inr:
  "andthen m f s = (Inr y, t) \<longleftrightarrow> (\<exists>x s'. m s = (Inr x, s') \<and> f x s' = (Inr y, t))"
  by (auto simp: andthen_def split: prod.splits sum.splits)

lemma ret_Inr: "ret x s = (Inr y, t) \<longleftrightarrow> y = x \<and> t = s"
  by (auto simp: ret_def)

lemma raise_Inr: "raise e s = (Inr y, t) \<longleftrightarrow> False"
  by (simp add: raise_def)

lemma lift_sum_Inr: "lift_sum r s = (Inr y, t) \<longleftrightarrow> r = Inr y \<and> t = s"
  by (cases r) (auto simp: ret_def raise_def)

text \<open>What a run that does not raise went through.\<close>

lemmas effect_Inr = andthen_Inr ret_Inr raise_Inr lift_sum_Inr

lemma andthen_Inl:
  "andthen m f s = (Inl e, t) \<longleftrightarrow> m s = (Inl e, t) \<or> (\<exists>x s'. m s = (Inr x, s') \<and> f x s' = (Inl e, t))"
  by (auto simp: andthen_def split: prod.splits sum.splits)

lemma ret_Inl: "ret x s = (Inl e, t) \<longleftrightarrow> False"
  by (simp add: ret_def)

lemma raise_Inl: "raise e s = (Inl e', t) \<longleftrightarrow> e' = e \<and> t = s"
  by (auto simp: raise_def)

lemma lift_sum_Inl: "lift_sum r s = (Inl e, t) \<longleftrightarrow> r = Inl e \<and> t = s"
  by (cases r) (auto simp: ret_def raise_def)

text \<open>What a run that raises went through.\<close>

lemmas effect_Inl = andthen_Inl ret_Inl raise_Inl lift_sum_Inl

lemma catching_Inr:
  "catching m h s = (Inr x, s') \<longleftrightarrow>
     m s = (Inr x, s') \<or> (\<exists>e k t. m s = (Inl e, t) \<and> h e = Some k \<and> k t = (Inr x, s'))"
  by (auto simp: catching_def split: prod.splits sum.splits option.splits)

lemma catching_Inl:
  "catching m h s = (Inl e', s') \<longleftrightarrow>
     (\<exists>e t. m s = (Inl e, t) \<and> (case h e of None \<Rightarrow> e' = e \<and> s' = t | Some k \<Rightarrow> k t = (Inl e', s')))"
  by (auto simp: catching_def split: prod.splits sum.splits option.splits)

lemma update_state_run [action_simps]: "update_state f s = (Inr (), f s)"
  by (simp add: update_state_def)

section \<open>Frames\<close>

text \<open>What an action may do to the state, as a relation that is reflexive and transitive.\<close>

definition preserves :: "('s \<Rightarrow> 's \<Rightarrow> bool) \<Rightarrow> ('s, 'e, 'a) effect \<Rightarrow> bool" where
  "preserves R m = (\<forall>s. R s (snd (m s)))"

locale frame =
  fixes R :: "'s \<Rightarrow> 's \<Rightarrow> bool"
  assumes same: "R s s"
    and steps: "R s t \<Longrightarrow> R t u \<Longrightarrow> R s u"
begin

lemma keeps_ret: "preserves R (ret x)"
  by (simp add: preserves_def ret_def same)

lemma keeps_raise: "preserves R (raise e)"
  by (simp add: preserves_def raise_def same)

lemma keeps_andthen: "preserves R m \<Longrightarrow> (\<And>x. preserves R (f x)) \<Longrightarrow> preserves R (andthen m f)"
proof -
  assume m: "preserves R m" and f: "\<And>x. preserves R (f x)"
  have "R s (snd (andthen m f s))" for s
  proof -
    obtain r t where ms: "m s = (r, t)" by force
    then have "R s t" using m by (metis preserves_def snd_conv)
    then show ?thesis using ms f by (cases r) (auto simp: andthen_def preserves_def intro: steps)
  qed
  then show ?thesis by (simp add: preserves_def)
qed

lemma keeps_each_in: "(\<And>x. x \<in> set xs \<Longrightarrow> preserves R (f x)) \<Longrightarrow> preserves R (each f xs)"
  by (induction xs) (simp_all add: keeps_ret keeps_andthen)

lemma keeps_each: "(\<And>x. preserves R (f x)) \<Longrightarrow> preserves R (each f xs)"
  by (rule keeps_each_in)

lemma keeps_update: "(\<And>s. R s (f s)) \<Longrightarrow> preserves R (update_state f)"
  by (simp add: preserves_def update_state_def)

lemma keeps_catching:
  "preserves R m \<Longrightarrow> (\<And>e k. h e = Some k \<Longrightarrow> preserves R k) \<Longrightarrow> preserves R (catching m h)"
proof -
  assume m: "preserves R m" and h: "\<And>e k. h e = Some k \<Longrightarrow> preserves R k"
  have "R s (snd (catching m h s))" for s
  proof -
    obtain r t where ms: "m s = (r, t)" by force
    then have "R s t" using m by (metis preserves_def snd_conv)
    then show ?thesis using ms h
      by (cases r) (auto simp: catching_def preserves_def intro: steps split: option.splits)
  qed
  then show ?thesis by (simp add: preserves_def)
qed

lemma keeps_run: "preserves R m \<Longrightarrow> m s = (r, t) \<Longrightarrow> R s t"
  unfolding preserves_def by (metis snd_conv)

lemmas frame_rules = keeps_ret keeps_raise keeps_andthen keeps_each keeps_catching

end

section \<open>Results\<close>

text \<open>What a result that is returned satisfies.\<close>

definition returns :: "('s, 'e, 'a) effect \<Rightarrow> ('a \<Rightarrow> bool) \<Rightarrow> bool" where
  "returns m P = (\<forall>s x t. m s = (Inr x, t) \<longrightarrow> P x)"

named_theorems returns_intros \<open>what an action returns\<close>

lemma returns_raise [returns_intros]: "returns (raise e) P"
  by (simp add: returns_def raise_def)

lemma returns_ret [returns_intros]: "P x \<Longrightarrow> returns (ret x) P"
  by (simp add: returns_def ret_def)

lemma returns_andthen: "returns m Q \<Longrightarrow> (\<And>x. Q x \<Longrightarrow> returns (f x) P) \<Longrightarrow> returns (andthen m f) P"
  by (simp add: returns_def andthen_Inr) blast

lemma returns_any: "returns m (\<lambda>_. True)"
  by (simp add: returns_def)

end
