(* ===== verification/Strategies.thy ===== *)
theory Strategies
  imports Py_Prelude
begin

text \<open>
  Deployment strategies: \<open>models/deployment_enums.py\<close>, the tenant and status classes of
  \<open>models/system_config.py\<close> and the CI detection of \<open>deployment/ci.py\<close>. A status maps
  to a strategy; a run names run strategies; \<open>deploys\<close> decides which rules a run acts on.
\<close>

section \<open>Strategies\<close>

datatype StatusStrategy = INERT | RELEASE | PREVIEW | DISABLEMENT | DELETION | UNIVERSAL

datatype DetectionPlatforms =
    DEFENDER_FOR_ENDPOINT | CARBON_BLACK_CLOUD | SPLUNK | SENTINEL | SENTINEL_ONE
  | CROWDSTRIKE | HARFANGLAB | ELASTIC | SYSDIG

definition strategy_names :: "(string \<times> StatusStrategy) list" where
  "strategy_names =
     [(''INERT'', INERT), (''RELEASE'', RELEASE), (''PREVIEW'', PREVIEW),
      (''DISABLEMENT'', DISABLEMENT), (''DELETION'', DELETION), (''UNIVERSAL'', UNIVERSAL)]"

fun strategy_name :: "StatusStrategy \<Rightarrow> string" where
  "strategy_name INERT = ''INERT''"
| "strategy_name RELEASE = ''RELEASE''"
| "strategy_name PREVIEW = ''PREVIEW''"
| "strategy_name DISABLEMENT = ''DISABLEMENT''"
| "strategy_name DELETION = ''DELETION''"
| "strategy_name UNIVERSAL = ''UNIVERSAL''"

text \<open>\<open>StatusStrategy.__members__.get(name)\<close>.\<close>

definition strategy_member :: "string \<Rightarrow> StatusStrategy option" where
  "strategy_member n = map_of strategy_names n"

type_synonym RunStrategies = "StatusStrategy list"

definition deployable_strategies :: RunStrategies where
  "deployable_strategies = [PREVIEW, RELEASE]"

definition retiring_strategies :: "StatusStrategy list" where
  "retiring_strategies = [DISABLEMENT, DELETION]"

definition deploys :: "StatusStrategy \<Rightarrow> StatusStrategy \<Rightarrow> bool" where
  "deploys rule_strategy run_strategy =
     (if rule_strategy = run_strategy \<or> rule_strategy = UNIVERSAL
      then run_strategy \<in> set deployable_strategies
      else run_strategy = RELEASE \<and> rule_strategy \<in> set retiring_strategies)"

definition deployed_by :: "StatusStrategy \<Rightarrow> RunStrategies" where
  "deployed_by rule_strategy = filter (deploys rule_strategy) deployable_strategies"

section \<open>Reading \<open>--strategy\<close>\<close>

definition not_a_run_strategy :: "(string \<times> string) list" where
  "not_a_run_strategy =
     [(''UNIVERSAL'', ''UNIVERSAL is a status strategy that both PREVIEW and RELEASE runs deploy; pass PREVIEW or RELEASE''),
      (''DISABLEMENT'', ''a RELEASE run disables the changed rules whose status maps to DISABLEMENT; pass RELEASE''),
      (''DELETION'', ''a RELEASE run deletes the changed rules whose status maps to DELETION; pass RELEASE''),
      (''INERT'', ''rules whose status maps to INERT are never deployed''),
      (''FULL'', ''deployment plans were removed in 0.17.0; pass --strategy PREVIEW --strategy RELEASE --all to deploy every rule''),
      (''ALWAYS'', ''deployment plans were removed in 0.17.0; a tenant lists the strategies it accepts in '' @ quoted ''strategies''),
      (''MANUAL'', ''deployment plans were removed in 0.17.0; a tenant that only takes the rules naming it sets '' @ quoted ''manual = true''),
      (''DEBUG'', ''deployment plans were removed in 0.17.0; pass PREVIEW or RELEASE'')]"

text \<open>The \<open>ValueError\<close>: its hints, which the message joins with a full stop.\<close>

datatype strategy_error = NotDeployable "string list"

definition strategy_hints ::
  "string \<Rightarrow> (string \<times> StatusStrategy) list \<Rightarrow> string \<Rightarrow> string \<Rightarrow> string list" where
  "strategy_hints source statuses stripped name =
     [source @ '' '' @ str_repr stripped @ '' is not a deployable strategy. Use ''
        @ str_join '' or '' (map strategy_name deployable_strategies)]
     @ (if name = ''STAGING'' \<or> name = ''PRODUCTION''
        then [name @ '' was a deployment plan, removed in 0.17.0: pass ''
                @ (if name = ''STAGING'' then ''PREVIEW'' else ''RELEASE'')]
        else (case map_of not_a_run_strategy name of Some h \<Rightarrow> [h] | None \<Rightarrow> []))
     @ (case map_of statuses name of
          None \<Rightarrow> []
        | Some mapped \<Rightarrow>
            [name @ '' is also a configured status name; it maps to '' @ strategy_name mapped
               @ (let runs = deployed_by mapped in
                  if runs \<noteq> []
                  then '', which a '' @ str_join '' or '' (map strategy_name runs) @ '' run deploys''
                  else '', which no run deploys'')])"

definition parse_part ::
  "string \<Rightarrow> (string \<times> StatusStrategy) list \<Rightarrow> StatusStrategy set \<Rightarrow> string
    \<Rightarrow> strategy_error + StatusStrategy set" where
  "parse_part source statuses chosen part =
     (let name = py_upper (py_strip part) in
      if name = [] then Inr chosen
      else case strategy_member name of
          Some member \<Rightarrow>
            if member \<in> set deployable_strategies then Inr (insert member chosen)
            else Inl (NotDeployable (strategy_hints source statuses (py_strip part) name))
        | None \<Rightarrow> Inl (NotDeployable (strategy_hints source statuses (py_strip part) name)))"

definition parse_strategies ::
  "string \<Rightarrow> (string \<times> StatusStrategy) list \<Rightarrow> string list \<Rightarrow> strategy_error + RunStrategies" where
  "parse_strategies source statuses values =
     (case rfold (parse_part source statuses) {} (concat (map (py_split '','') values)) of
        Inl e \<Rightarrow> Inl e
      | Inr chosen \<Rightarrow> Inr (filter (\<lambda>s. s \<in> chosen) deployable_strategies))"

definition removed_plan_message :: "string option \<Rightarrow> bool \<Rightarrow> string" where
  "removed_plan_message value option =
     (let where = (if option then ''--plan'' else ''DEPLOYMENT_PLAN'');
          key = py_upper (py_strip (case value of None \<Rightarrow> [] | Some v \<Rightarrow> v));
          replacement =
            (case map_of [(''STAGING'', ''--strategy PREVIEW''),
                          (''PRODUCTION'', ''--strategy RELEASE''),
                          (''FULL'', ''--strategy PREVIEW --strategy RELEASE --all'')] key of
               Some r \<Rightarrow> r | None \<Rightarrow> ''--strategy PREVIEW or --strategy RELEASE'');
          unset = (if option then [] else '' Unset DEPLOYMENT_PLAN.'')
      in where @ '' was removed in 0.17.0: a run now says which status strategy it deploys. Use ''
           @ replacement @ ''.'' @ unset @ '' See '' @ quoted ''opentide deploy --help'' @ ''.'')"

section \<open>Statuses and tenants\<close>

text \<open>
  A status's strategy is a member or a string (\<open>StatusStrategy | str\<close>); the constructor
  replaces a string by the member of that name, and raises \<open>KeyError\<close> for any other.
\<close>

datatype strategy_field = StrategyMember StatusStrategy | StrategyStr string | StrategyOther

record DeploymentStatus =
  status_name :: string
  status_strategy :: strategy_field

definition status_post_init :: "DeploymentStatus \<Rightarrow> DeploymentStatus option" where
  "status_post_init s =
     (case status_strategy s of
        StrategyStr n \<Rightarrow> map_option (\<lambda>m. s\<lparr>status_strategy := StrategyMember m\<rparr>) (strategy_member n)
      | _ \<Rightarrow> Some s)"

record Tenant =
  tenant_name :: string
  tenant_description :: string
  tenant_setup :: pyval
  tenant_strategies :: RunStrategies
  tenant_manual :: bool

definition accepts :: "Tenant \<Rightarrow> StatusStrategy \<Rightarrow> RunStrategies \<Rightarrow> bool" where
  "accepts t rule_strategy run =
     list_ex (deploys rule_strategy) (filter (\<lambda>s. s \<in> set (tenant_strategies t)) run)"

section \<open>The CI environment\<close>

text \<open>The environment is a map; \<open>os.getenv(name)\<close> is true for a set, non-empty variable.\<close>

type_synonym environ = "string \<Rightarrow> string option"

definition env_set :: "environ \<Rightarrow> string \<Rightarrow> bool" where
  "env_set env n = (case env n of None \<Rightarrow> False | Some v \<Rightarrow> v \<noteq> [])"

datatype CIPlatforms = AzurePipeline | GitlabCI | GitHubActions | LocalDebug

definition check_ci_environment :: "environ \<Rightarrow> CIPlatforms" where
  "check_ci_environment env =
     (if env_set env ''TF_BUILD'' then AzurePipeline
      else if env_set env ''GITHUB_ACTIONS'' then GitHubActions
      else if env_set env ''CI'' then GitlabCI
      else LocalDebug)"

fun change_request_event :: "CIPlatforms \<Rightarrow> (string \<times> string list) option" where
  "change_request_event AzurePipeline = Some (''BUILD_REASON'', [''PullRequest''])"
| "change_request_event GitHubActions =
     Some (''GITHUB_EVENT_NAME'', [''pull_request'', ''pull_request_target''])"
| "change_request_event GitlabCI = Some (''CI_PIPELINE_SOURCE'', [''merge_request_event''])"
| "change_request_event LocalDebug = None"

definition is_change_request :: "environ \<Rightarrow> CIPlatforms \<Rightarrow> bool" where
  "is_change_request env environment =
     (case change_request_event environment of
        None \<Rightarrow> False
      | Some (name, values) \<Rightarrow> (case env name of None \<Rightarrow> False | Some v \<Rightarrow> v \<in> set values))"

section \<open>The configured statuses\<close>

text \<open>
  \<open>deployment/utils.py\<close>: a status name is looked up in the \<open>[[statuses]]\<close> of the
  configuration. The three exceptions of \<open>check_status\<close> are the error constructors.
\<close>

datatype status_error = UnknownStatusStrategy | UnsupportedStrategyType | UndefinedStatus

fun check_status :: "DeploymentStatus list \<Rightarrow> string \<Rightarrow> status_error + StatusStrategy" where
  "check_status [] status = Inl UndefinedStatus"
| "check_status (s # ss) status =
     (if status_name s = status
      then (case status_strategy s of
              StrategyMember m \<Rightarrow> Inr m
            | StrategyStr n \<Rightarrow>
                (case strategy_member n of None \<Rightarrow> Inl UnknownStatusStrategy | Some m \<Rightarrow> Inr m)
            | StrategyOther \<Rightarrow> Inl UnsupportedStrategyType)
      else check_status ss status)"

text \<open>Only the \<open>ValueError\<close> of an unknown strategy is caught by the loop.\<close>

definition statuses_deployed_by ::
  "DeploymentStatus list \<Rightarrow> RunStrategies \<Rightarrow> status_error + string list" where
  "statuses_deployed_by statuses strategies =
     rfold (\<lambda>names s.
       case check_status statuses (status_name s) of
         Inl UnknownStatusStrategy \<Rightarrow> Inr names
       | Inl e \<Rightarrow> Inl e
       | Inr strategy \<Rightarrow>
           Inr (if list_ex (deploys strategy) strategies then names @ [status_name s] else names))
     [] statuses"

section \<open>What the strategies mean\<close>

lemmas strategy_defs = deploys_def deployable_strategies_def retiring_strategies_def

lemma deploys_cases:
  "deploys r run \<longleftrightarrow>
     (run = PREVIEW \<and> r \<in> {PREVIEW, UNIVERSAL})
   \<or> (run = RELEASE \<and> r \<in> {RELEASE, UNIVERSAL, DISABLEMENT, DELETION})"
  by (cases r; cases run) (simp_all add: strategy_defs)

lemma deploys_deployable: "deploys r run \<Longrightarrow> run \<in> set deployable_strategies"
  by (auto simp: deploys_cases deployable_strategies_def)

lemma deploys_inert [simp]: "\<not> deploys INERT run"
  by (simp add: deploys_cases)

lemma deployed_by_iff: "run \<in> set (deployed_by r) \<longleftrightarrow> deploys r run"
  by (auto simp: deployed_by_def dest: deploys_deployable)

lemma accepts_iff:
  "accepts t r run \<longleftrightarrow> (\<exists>s \<in> set run. s \<in> set (tenant_strategies t) \<and> deploys r s)"
  by (auto simp: accepts_def list_ex_iff)

lemma accepts_mono: "set run \<subseteq> set run' \<Longrightarrow> accepts t r run \<Longrightarrow> accepts t r run'"
  by (auto simp: accepts_iff)

lemma strategy_member_iff: "strategy_member n = Some s \<longleftrightarrow> strategy_name s = n"
  by (cases s) (auto simp: strategy_member_def strategy_names_def)

lemma strategy_name_not_Nil [simp]: "strategy_name m \<noteq> []"
  by (cases m) simp_all

lemma strategy_name_inj [simp]: "strategy_name m = strategy_name m' \<longleftrightarrow> m = m'"
  by (cases m; cases m') simp_all

lemma strategy_member_name [simp]: "strategy_member (strategy_name m) = Some m"
  by (simp add: strategy_member_iff)

definition part_name :: "string \<Rightarrow> string" where
  "part_name part = py_upper (py_strip part)"

lemma parse_part_Inr:
  "parse_part source st chosen part = Inr c \<longleftrightarrow>
     (part_name part = [] \<and> c = chosen)
   \<or> (\<exists>m \<in> set deployable_strategies. part_name part = strategy_name m \<and> c = insert m chosen)"
proof (cases "part_name part = []")
  case True
  then have "part_name part \<noteq> strategy_name m" for m
    by (metis strategy_name_not_Nil)
  with True show ?thesis by (auto simp: parse_part_def part_name_def Let_def)
next
  case False
  show ?thesis
  proof (cases "strategy_member (part_name part)")
    case None
    then have "part_name part \<noteq> strategy_name m" for m
      by (metis option.distinct(1) strategy_member_name)
    with False None show ?thesis by (auto simp: parse_part_def part_name_def Let_def)
  next
    case (Some m)
    then have "part_name part = strategy_name m"
      by (simp add: strategy_member_iff)
    then show ?thesis by (auto simp: parse_part_def Let_def simp flip: part_name_def)
  qed
qed

lemma rfold_parse_part:
  "rfold (parse_part source st) chosen parts = Inr c \<longleftrightarrow>
     (\<forall>p \<in> set parts. part_name p \<in> {[], ''PREVIEW'', ''RELEASE''})
   \<and> c = chosen \<union> {m \<in> set deployable_strategies. strategy_name m \<in> part_name ` set parts}"
proof (induction parts arbitrary: chosen)
  case Nil
  then show ?case by auto
next
  case (Cons p parts)
  show ?case
  proof (cases "parse_part source st chosen p")
    case (Inl e)
    then have "part_name p \<notin> {[], ''PREVIEW'', ''RELEASE''}"
      using parse_part_Inr [of source st chosen p chosen]
        parse_part_Inr [of source st chosen p "insert PREVIEW chosen"]
        parse_part_Inr [of source st chosen p "insert RELEASE chosen"]
      by (auto simp: deployable_strategies_def)
    with Inl show ?thesis by simp
  next
    case (Inr c')
    then consider "part_name p = []" "c' = chosen"
      | m where "m \<in> set deployable_strategies" "part_name p = strategy_name m" "c' = insert m chosen"
      by (auto simp: parse_part_Inr)
    then show ?thesis
    proof cases
      case 1
      then have "strategy_name m \<noteq> part_name p" for m
        by (metis strategy_name_not_Nil)
      with 1 Inr Cons.IH [of chosen] show ?thesis by auto
    next
      case 2
      with Inr Cons.IH [of "insert m chosen"] show ?thesis
        by (auto simp: deployable_strategies_def)
    qed
  qed
qed

section \<open>Properties\<close>

text \<open>
  a PREVIEW run acts on exactly the rules whose status maps to PREVIEW or UNIVERSAL, a
  RELEASE run on exactly RELEASE, UNIVERSAL, DISABLEMENT and DELETION; no other strategy is a run.
  \<close>

theorem deploys_table:
  "deploys r run \<longleftrightarrow>
     (case run of
        PREVIEW \<Rightarrow> r = PREVIEW \<or> r = UNIVERSAL
      | RELEASE \<Rightarrow> r = RELEASE \<or> r = UNIVERSAL \<or> r = DISABLEMENT \<or> r = DELETION
      | _ \<Rightarrow> False)"
  by (cases run) (auto simp: deploys_cases)

text \<open>
  \<open>parse_strategies\<close> accepts exactly the inputs whose comma-separated parts are, after
  stripping and in any case, blank, PREVIEW or RELEASE; the answer lists each named strategy once,
  PREVIEW before RELEASE, whatever the order and repetitions of the input.
  \<close>

theorem parse_strategies_spec:
  "parse_strategies source st values = Inr run \<longleftrightarrow>
     (let names = map part_name (concat (map (py_split '','') values)) in
      (\<forall>n \<in> set names. n \<in> {[], ''PREVIEW'', ''RELEASE''})
    \<and> run = filter (\<lambda>s. strategy_name s \<in> set names) [PREVIEW, RELEASE])"
proof (cases "rfold (parse_part source st) {} (concat (map (py_split '','') values))")
  case (Inl e)
  then have "\<not> (\<forall>p \<in> set (concat (map (py_split '','') values)).
      part_name p \<in> {[], ''PREVIEW'', ''RELEASE''})"
    using rfold_parse_part [of source st "{}" "concat (map (py_split '','') values)"] by auto
  with Inl show ?thesis by (auto simp: parse_strategies_def Let_def)
next
  case (Inr c)
  with rfold_parse_part [of source st "{}" "concat (map (py_split '','') values)" c]
  show ?thesis by (auto simp: parse_strategies_def Let_def deployable_strategies_def)
qed

lemma parse_strategies_spec_witness:
  "parse_strategies ''--strategy'' [] [''RELEASE,PREVIEW'', ''RELEASE''] = Inr [PREVIEW, RELEASE]"
  by (rule parse_strategies_spec [THEN iffD2])
    (simp add: Let_def py_split_def part_name_def py_strip_def py_lstrip_def py_rstrip_def
      is_py_space_def py_upper_def upper_char_def)

end
