(* ===== verification/Deploy_State.thy ===== *)
theory Deploy_State
  imports Py_Prelude
begin

text \<open>
  Deployment state shards, \<open>states/deployment.py\<close>: one JSON file per rule that records, per
  platform and tenant, the id a vendor gave the deployed rule. The directory is an ordered list of
  named nodes; a file is what \<open>json.loads\<close> makes of it (\<open>JsonDoc\<close>) or unreadable
  (\<open>NotJson\<close>). A \<open>DeploymentStateError\<close> is its code; the message texts are not
  modelled. A \<open>wr\<close> argument says whether the operating system lets the write happen.
\<close>

section \<open>Codes and constants\<close>

datatype state_code =
    Deployment_state_shape
  | Deployment_state_uuid_mismatch
  | Deployment_state_platform
  | Deployment_state_ignored
  | Deployment_state_unpersisted
  | Deployment_state_write_failed
  | External_id_shape
  | External_id_in_rule
  | External_id_missing
  | OS_Error

definition schema_id :: string where
  "schema_id = ''deployment.state::1.0''"

definition state_platforms :: "string list" where
  "state_platforms = [''crowdstrike'', ''defender_for_endpoint'', ''sentinel_one'', ''sysdig'']"

definition migrated_platforms :: "string list" where
  "migrated_platforms = [''crowdstrike'', ''defender_for_endpoint'', ''sentinel_one'']"

definition integer_id_platforms :: "string list" where
  "integer_id_platforms = [''defender_for_endpoint'', ''sentinel_one'', ''sysdig'']"

definition legacy_map_keys :: "string list" where
  "legacy_map_keys = [''rule_id'', ''rule_id_bundle'']"

definition legacy_tenant_prefix :: string where
  "legacy_tenant_prefix = ''rule_id::''"

definition root_keys :: "string list" where
  "root_keys = [''object_uuid'', ''platforms'', ''schema'']"

section \<open>Canonical UUIDs\<close>

text \<open>
  \<open>int(s, 16)\<close>: surrounding whitespace, a sign, a \<open>0x\<close> prefix and single underscores
  between digits are accepted.
\<close>

definition hex_digit :: "char \<Rightarrow> nat option" where
  "hex_digit c = (let n = (of_char c :: nat) in
     if 48 \<le> n \<and> n \<le> 57 then Some (n - 48)
     else if 97 \<le> n \<and> n \<le> 102 then Some (n - 87)
     else if 65 \<le> n \<and> n \<le> 70 then Some (n - 55)
     else None)"

fun hex_body :: "nat \<Rightarrow> string \<Rightarrow> nat option" where
  "hex_body n [] = Some n"
| "hex_body n (c # cs) =
     (case hex_digit c of
        Some v \<Rightarrow> hex_body (16 * n + v) cs
      | None \<Rightarrow>
          if c = CHR ''_''
          then (case cs of
                  [] \<Rightarrow> None
                | d # ds \<Rightarrow> (case hex_digit d of
                    None \<Rightarrow> None
                  | Some v \<Rightarrow> hex_body (16 * n + v) ds))
          else None)"

fun hex_number :: "string \<Rightarrow> nat option" where
  "hex_number [] = None"
| "hex_number (c # cs) = (case hex_digit c of None \<Rightarrow> None | Some v \<Rightarrow> hex_body v cs)"

fun drop_sign :: "string \<Rightarrow> bool \<times> string" where
  "drop_sign (c # cs) =
     (if c = CHR ''+'' then (False, cs) else if c = CHR ''-'' then (True, cs) else (False, c # cs))"
| "drop_sign [] = (False, [])"

definition drop_hex_prefix :: "string \<Rightarrow> string" where
  "drop_hex_prefix s =
     (if starts_with ''0x'' s \<or> starts_with ''0X'' s
      then (let r = drop 2 s in if starts_with ''_'' r then drop 1 r else r)
      else s)"

definition int_base16 :: "string \<Rightarrow> int option" where
  "int_base16 s =
     (let (neg, body) = drop_sign (py_strip s) in
      map_option (\<lambda>n. if neg then - int n else int n) (hex_number (drop_hex_prefix body)))"

fun hexw :: "nat \<Rightarrow> nat \<Rightarrow> string" where
  "hexw 0 n = []"
| "hexw (Suc w) n = hexw w (n div 16) @ [digit_char (n mod 16)]"

definition uuid_str :: "nat \<Rightarrow> string" where
  "uuid_str n = (let h = hexw 32 n in
     take 8 h @ ''-'' @ take 4 (drop 8 h) @ ''-'' @ take 4 (drop 12 h) @ ''-''
       @ take 4 (drop 16 h) @ ''-'' @ drop 20 h)"

definition strip_braces :: "string \<Rightarrow> string" where
  "strip_braces s =
     (let b = (\<lambda>c. c = CHR ''{'' \<or> c = CHR ''}'') in rev (dropWhile b (rev (dropWhile b s))))"

text \<open>\<open>uuid.UUID(text)\<close> followed by \<open>str\<close>; \<open>None\<close> is its \<open>ValueError\<close>.\<close>

definition parse_uuid :: "string \<Rightarrow> string option" where
  "parse_uuid text =
     (let hex = str_remove ''-'' (strip_braces (str_remove ''uuid:'' (str_remove ''urn:'' text))) in
      if length hex \<noteq> 32 then None
      else case int_base16 hex of
          None \<Rightarrow> None
        | Some i \<Rightarrow> if 0 \<le> i \<and> i < 2 ^ 128 then Some (uuid_str (nat i)) else None)"

definition canonical_uuid :: "pyval \<Rightarrow> state_code + string" where
  "canonical_uuid value =
     (case parse_uuid (py_strip (py_str value)) of
        None \<Rightarrow> Inl Deployment_state_shape
      | Some u \<Rightarrow> Inr u)"

definition canonical_or_none :: "string \<Rightarrow> string option" where
  "canonical_or_none value =
     (case canonical_uuid (PStr value) of Inl _ \<Rightarrow> None | Inr u \<Rightarrow> Some u)"

definition shard_path :: "pyval \<Rightarrow> state_code + string" where
  "shard_path object_uuid = rbind (canonical_uuid object_uuid) (\<lambda>c. Inr (c @ ''.json''))"

definition tenant_key :: "string \<Rightarrow> string" where
  "tenant_key tenant = py_strip tenant"

section \<open>External id values\<close>

text \<open>\<open>(?:0|[1-9][0-9]*)\<close>, matched in full.\<close>

definition canonical_decimal :: "string \<Rightarrow> bool" where
  "canonical_decimal s =
     (s = ''0'' \<or> (s \<noteq> [] \<and> hd s \<noteq> CHR ''0'' \<and> list_all is_ascii_digit s))"

fun normalise_external_id :: "string \<Rightarrow> pyval \<Rightarrow> state_code + string" where
  "normalise_external_id platform (PInt i) =
     (if i < 0 then Inl External_id_shape else Inr (int_str i))"
| "normalise_external_id platform (PStr s) =
     (if py_strip s = [] then Inl External_id_shape
      else if platform \<in> set integer_id_platforms \<and> \<not> canonical_decimal s then Inl External_id_shape
      else Inr s)"
| "normalise_external_id platform v = Inl External_id_shape"

section \<open>The shard\<close>

datatype json_file = JsonDoc pyval | NotJson

datatype fsnode = FFile json_file | FDir "(string \<times> fsnode) list"

type_synonym dirlist = "(string \<times> fsnode) list"

type_synonym tenant_map = "(string \<times> string) list"

type_synonym platform_map = "(string \<times> tenant_map) list"

record DeploymentState =
  st_path :: string
  st_uuid :: string
  st_platforms :: platform_map
  st_extra :: "(string \<times> pyval) list"
  st_exists :: bool

definition empty_state :: "string \<Rightarrow> string \<Rightarrow> DeploymentState" where
  "empty_state path object_uuid =
     \<lparr>st_path = path, st_uuid = object_uuid, st_platforms = [], st_extra = [], st_exists = False\<rparr>"

text \<open>The stem of a name whose \<open>Path.suffix\<close> is \<open>.json\<close>.\<close>

definition json_stem :: "string \<Rightarrow> string option" where
  "json_stem name =
     (if ends_with ''.json'' name \<and> 5 < length name then Some (take (length name - 5) name) else None)"

definition shard_entries :: "dirlist \<Rightarrow> string list" where
  "shard_entries dir = filter (\<lambda>name. ends_with ''.json'' (py_lower name)) (map fst dir)"

definition names_for :: "dirlist \<Rightarrow> string \<Rightarrow> string list" where
  "names_for dir canonical =
     filter (\<lambda>name. canonical_or_none (take (length name - 5) name) = Some canonical)
       (shard_entries dir)"

definition is_file :: "dirlist \<Rightarrow> string \<Rightarrow> bool" where
  "is_file dir name = (case map_of dir name of Some (FFile _) \<Rightarrow> True | _ \<Rightarrow> False)"

definition exact_entry :: "dirlist \<Rightarrow> string \<Rightarrow> bool" where
  "exact_entry dir name = (name \<in> set (shard_entries dir) \<and> is_file dir name)"

text \<open>The checks of \<open>from_file\<close> on one tenant entry, on one platform and on the document.\<close>

definition key_str :: "pyval \<Rightarrow> string" where
  "key_str k = py_str k"

fun read_tenant :: "string \<Rightarrow> tenant_map \<Rightarrow> pyval \<times> pyval \<Rightarrow> state_code + tenant_map" where
  "read_tenant platform entries (tenant, external_id) =
     (case external_id of
        PStr ext \<Rightarrow>
          (let t = key_str tenant in
           if py_strip t = [] then Inl Deployment_state_shape
           else if t \<noteq> py_strip t then Inl Deployment_state_shape
           else case normalise_external_id platform external_id of
               Inl _ \<Rightarrow> Inl Deployment_state_shape
             | Inr _ \<Rightarrow> Inr (AList.update t ext entries))
      | _ \<Rightarrow> Inl Deployment_state_shape)"

fun read_platform :: "platform_map \<Rightarrow> pyval \<times> pyval \<Rightarrow> state_code + platform_map" where
  "read_platform platforms (platform, tenants) =
     (let p = key_str platform in
      if p \<notin> set state_platforms then Inl Deployment_state_platform
      else case as_dict_val tenants of
          None \<Rightarrow> Inl Deployment_state_shape
        | Some items \<Rightarrow>
            (case rfold (read_tenant p) [] items of
               Inl e \<Rightarrow> Inl e
             | Inr entries \<Rightarrow>
                 Inr (if entries \<noteq> [] then AList.update p entries platforms else platforms)))"

text \<open>The dictionary comprehension that keeps the root keys this version does not know.\<close>

definition extra_items :: "pydict \<Rightarrow> (string \<times> pyval) list" where
  "extra_items payload =
     fold (\<lambda>(k, v) d. if key_str k \<in> set root_keys then d else AList.update (key_str k) v d) payload []"

definition read_payload :: "string \<Rightarrow> string \<Rightarrow> pyval \<Rightarrow> state_code + DeploymentState" where
  "read_payload path stem doc =
     (case as_dict_val doc of
        None \<Rightarrow> Inl Deployment_state_shape
      | Some payload \<Rightarrow>
          if dget_none payload ''schema'' \<noteq> PStr schema_id then Inl Deployment_state_shape
          else case dget_str payload ''object_uuid'' of
              None \<Rightarrow> Inl Deployment_state_shape
            | Some object_uuid \<Rightarrow>
                if object_uuid \<noteq> stem then Inl Deployment_state_uuid_mismatch
                else case dget_dict payload ''platforms'' of
                    None \<Rightarrow> Inl Deployment_state_shape
                  | Some platforms_raw \<Rightarrow>
                      (case rfold read_platform [] platforms_raw of
                         Inl e \<Rightarrow> Inl e
                       | Inr platforms \<Rightarrow> Inr
                           \<lparr>st_path = path, st_uuid = object_uuid, st_platforms = platforms,
                            st_extra = extra_items payload,
                            st_exists = True\<rparr>))"

definition from_file :: "string \<Rightarrow> json_file \<Rightarrow> string option \<Rightarrow> state_code + DeploymentState" where
  "from_file path content expected_uuid =
     (case json_stem path of
        None \<Rightarrow> Inl Deployment_state_uuid_mismatch
      | Some stem \<Rightarrow>
          if canonical_or_none stem \<noteq> Some stem then Inl Deployment_state_uuid_mismatch
          else if (case expected_uuid of None \<Rightarrow> False | Some u \<Rightarrow> stem \<noteq> u)
            then Inl Deployment_state_uuid_mismatch
          else case content of
              NotJson \<Rightarrow> Inl Deployment_state_shape
            | JsonDoc doc \<Rightarrow> read_payload path stem doc)"

definition load_state :: "dirlist \<Rightarrow> pyval \<Rightarrow> state_code + DeploymentState" where
  "load_state dir object_uuid =
     (case canonical_uuid object_uuid of
        Inl e \<Rightarrow> Inl e
      | Inr canonical \<Rightarrow>
          (let path = canonical @ ''.json'' in
           if filter (\<lambda>name. name \<noteq> path) (names_for dir canonical) \<noteq> []
           then Inl Deployment_state_uuid_mismatch
           else if \<not> exact_entry dir path then Inr (empty_state path canonical)
           else case map_of dir path of
               Some (FFile content) \<Rightarrow> from_file path content (Some canonical)
             | _ \<Rightarrow> Inr (empty_state path canonical)))"

text \<open>\<open>get\<close>, \<open>set\<close>, \<open>remove\<close> and \<open>bindings\<close> on the two-level dictionary.\<close>

definition tenants_of :: "platform_map \<Rightarrow> string \<Rightarrow> tenant_map" where
  "tenants_of platforms platform = (case map_of platforms platform of None \<Rightarrow> [] | Some t \<Rightarrow> t)"

definition state_get :: "DeploymentState \<Rightarrow> string \<Rightarrow> string \<Rightarrow> string option" where
  "state_get st platform tenant =
     map_of (tenants_of (st_platforms st) platform) (tenant_key tenant)"

definition put_binding :: "string \<Rightarrow> string \<Rightarrow> string \<Rightarrow> platform_map \<Rightarrow> platform_map" where
  "put_binding platform tenant stored platforms =
     AList.update platform (AList.update tenant stored (tenants_of platforms platform)) platforms"

definition state_set ::
  "DeploymentState \<Rightarrow> string \<Rightarrow> string \<Rightarrow> pyval \<Rightarrow> state_code + (string \<times> DeploymentState)" where
  "state_set st platform tenant external_id =
     (if platform \<notin> set state_platforms then Inl Deployment_state_platform
      else if tenant_key tenant = [] then Inl External_id_shape
      else case normalise_external_id platform external_id of
          Inl e \<Rightarrow> Inl e
        | Inr stored \<Rightarrow>
            Inr (stored,
                 st\<lparr>st_platforms := put_binding platform (tenant_key tenant) stored (st_platforms st)\<rparr>))"

definition drop_binding :: "string \<Rightarrow> string \<Rightarrow> platform_map \<Rightarrow> platform_map" where
  "drop_binding platform tenant platforms =
     (case map_of platforms platform of
        None \<Rightarrow> platforms
      | Some tenants \<Rightarrow>
          if tenants = [] then platforms
          else let rest = AList.delete tenant tenants in
            if rest = [] then AList.delete platform platforms
            else AList.update platform rest platforms)"

definition state_remove ::
  "DeploymentState \<Rightarrow> string \<Rightarrow> string \<Rightarrow> string option \<times> DeploymentState" where
  "state_remove st platform tenant =
     (state_get st platform tenant,
      st\<lparr>st_platforms := drop_binding platform (tenant_key tenant) (st_platforms st)\<rparr>)"

definition bindings :: "DeploymentState \<Rightarrow> (string \<times> string \<times> string) list" where
  "bindings st =
     concat (map (\<lambda>(platform, tenants). map (\<lambda>(tenant, ext). (platform, tenant, ext)) tenants)
       (st_platforms st))"

text \<open>\<open>json.dumps(payload, sort_keys=True)\<close> read back: the payload with sorted keys.\<close>

fun sort_keys :: "pyval \<Rightarrow> pyval" where
  "sort_keys (PList xs) = PList (map sort_keys xs)"
| "sort_keys (PDict d) = PDict (sort_key (\<lambda>(k, v). key_str k) (map (\<lambda>(k, v). (k, sort_keys v)) d))"
| "sort_keys v = v"

definition doc_of :: "(string \<times> pyval) list \<Rightarrow> pyval" where
  "doc_of items = PDict (map (\<lambda>(k, v). (PStr k, v)) items)"

definition tenants_doc :: "tenant_map \<Rightarrow> pyval" where
  "tenants_doc tenants = doc_of (map (\<lambda>(t, ext). (t, PStr ext)) tenants)"

definition platforms_doc :: "platform_map \<Rightarrow> pyval" where
  "platforms_doc platforms = doc_of (map (\<lambda>(p, tenants). (p, tenants_doc tenants)) platforms)"

definition render_items :: "DeploymentState \<Rightarrow> (string \<times> pyval) list" where
  "render_items st =
     AList.update ''platforms'' (platforms_doc (st_platforms st))
       (AList.update ''object_uuid'' (PStr (st_uuid st))
         (AList.update ''schema'' (PStr schema_id) (st_extra st)))"

definition render :: "DeploymentState \<Rightarrow> pyval" where
  "render st = sort_keys (doc_of (render_items st))"

section \<open>Writing a shard\<close>

text \<open>
  \<open>write_durable\<close> writes a temporary file beside the target and renames it over the target.
  \<open>write_durable_steps\<close> lists the directory after each system call, so that a crash is a
  prefix of the list; the temporary file may be incomplete before it is flushed. The directory is the
  one a reader sees: what the two calls of \<open>fsync\<close> make durable is not modelled. Opening the temporary file
  fails when a directory has its name, and the rename when the target is one; a temporary file that is left
  behind by a failure is no shard, so the directory of an error is not kept.
\<close>

definition tmp_name :: "string \<Rightarrow> string" where
  "tmp_name name = ''.'' @ name @ ''.tmp''"

definition write_durable_steps ::
  "'f \<Rightarrow> string \<Rightarrow> 'f \<Rightarrow> (string \<times> 'f) list \<Rightarrow> (string \<times> 'f) list list" where
  "write_durable_steps partial name node dir =
     [dir,
      AList.update (tmp_name name) partial dir,
      AList.update (tmp_name name) node dir,
      AList.delete (tmp_name name) (AList.update name node dir)]"

definition write_durable :: "bool \<Rightarrow> string \<Rightarrow> pyval \<Rightarrow> dirlist \<Rightarrow> state_code + dirlist" where
  "write_durable wr name doc dir =
     (if \<not> wr then Inl OS_Error
      else case (map_of dir (tmp_name name), map_of dir name) of
          (Some (FDir _), _) \<Rightarrow> Inl OS_Error
        | (_, Some (FDir _)) \<Rightarrow> Inl OS_Error
        | _ \<Rightarrow> Inr (last (write_durable_steps (FFile NotJson) name (FFile (JsonDoc doc)) dir)))"

definition save_state ::
  "bool \<Rightarrow> DeploymentState \<Rightarrow> dirlist \<Rightarrow> state_code + (DeploymentState \<times> dirlist)" where
  "save_state wr st dir =
     (if st_platforms st = []
      then (case map_of dir (st_path st) of
              None \<Rightarrow> Inr (st\<lparr>st_exists := False\<rparr>, dir)
            | Some (FDir _) \<Rightarrow> Inl OS_Error
            | Some (FFile _) \<Rightarrow>
                if wr then Inr (st\<lparr>st_exists := False\<rparr>, AList.delete (st_path st) dir)
                else Inl OS_Error)
      else (case write_durable wr (st_path st) (render st) dir of
              Inl e \<Rightarrow> Inl e
            | Inr dir' \<Rightarrow> Inr (st\<lparr>st_exists := True\<rparr>, dir')))"

definition record_external_id ::
  "bool \<Rightarrow> pyval \<Rightarrow> string \<Rightarrow> string \<Rightarrow> pyval \<Rightarrow> dirlist \<Rightarrow> state_code + (string \<times> dirlist)" where
  "record_external_id wr object_uuid platform tenant external_id dir =
     (case load_state dir object_uuid of
        Inl e \<Rightarrow> Inl e
      | Inr st \<Rightarrow>
          (case state_set st platform tenant external_id of
             Inl e \<Rightarrow> Inl e
           | Inr (stored, st') \<Rightarrow>
               (case save_state wr st' dir of
                  Inl e \<Rightarrow> Inl e
                | Inr (_, dir') \<Rightarrow> Inr (stored, dir'))))"

definition forget_external_id ::
  "bool \<Rightarrow> pyval \<Rightarrow> string \<Rightarrow> string \<Rightarrow> dirlist \<Rightarrow> state_code + (string option \<times> dirlist)" where
  "forget_external_id wr object_uuid platform tenant dir =
     (case load_state dir object_uuid of
        Inl e \<Rightarrow> Inl e
      | Inr st \<Rightarrow>
          (case state_remove st platform tenant of
             (None, _) \<Rightarrow> Inr (None, dir)
           | (Some removed, st') \<Rightarrow>
               (case save_state wr st' dir of
                  Inl e \<Rightarrow> Inl e
                | Inr (_, dir') \<Rightarrow> Inr (Some removed, dir'))))"

section \<open>Scanning the directory\<close>

fun rglob :: "string list \<Rightarrow> dirlist \<Rightarrow> (string list \<times> fsnode) list" where
  "rglob pre [] = []"
| "rglob pre ((n, FFile c) # rest) = (pre @ [n], FFile c) # rglob pre rest"
| "rglob pre ((n, FDir sub) # rest) =
     (pre @ [n], FDir sub) # rglob (pre @ [n]) sub @ rglob pre rest"

fun scan_step ::
  "state_code list \<times> (string \<times> string list) list \<Rightarrow> string list \<times> fsnode
    \<Rightarrow> state_code list \<times> (string \<times> string list) list" where
  "scan_step acc (path, FDir sub) = acc"
| "scan_step (errors, by_uuid) (path, FFile content) =
     (let name = last path in
      if \<not> ends_with ''.json'' (py_lower name) then (errors, by_uuid)
      else if length path \<noteq> 1 then (errors @ [Deployment_state_uuid_mismatch], by_uuid)
      else
        let by_uuid' = (case canonical_or_none (take (length name - 5) name) of
                          None \<Rightarrow> by_uuid | Some c \<Rightarrow> dappend c name by_uuid)
        in (case from_file name content None of
              Inl e \<Rightarrow> (errors @ [e], by_uuid')
            | Inr _ \<Rightarrow> (errors, by_uuid')))"

definition scan_deployment_states :: "dirlist option \<Rightarrow> state_code list" where
  "scan_deployment_states root =
     (case root of
        None \<Rightarrow> []
      | Some dir \<Rightarrow>
          (let (errors, by_uuid) = foldl scan_step ([], []) (sort_key fst (rglob [] dir)) in
           errors @ concat (map (\<lambda>(canonical, paths).
               if 1 < length paths \<and> canonical @ ''.json'' \<in> set paths
               then [Deployment_state_uuid_mismatch] else [])
             (sort_key fst by_uuid))))"

section \<open>Legacy keys on the rule\<close>

definition is_legacy_external_id_key :: "pyval \<Rightarrow> bool" where
  "is_legacy_external_id_key key =
     (case as_str_val key of
        None \<Rightarrow> False
      | Some k \<Rightarrow> k \<in> set legacy_map_keys \<or> starts_with legacy_tenant_prefix k)"

definition legacy_external_id_keys :: "pydict \<Rightarrow> (string \<times> string) list" where
  "legacy_external_id_keys rule =
     (case dget_dict rule ''configurations'' of
        None \<Rightarrow> []
      | Some configurations \<Rightarrow>
          concat (map (\<lambda>(platform, block).
            case as_dict_val block of
              None \<Rightarrow> []
            | Some b \<Rightarrow> map (\<lambda>(key, _). (py_str platform, py_str key))
                          (filter (\<lambda>(key, _). is_legacy_external_id_key key) b)) configurations))"

section \<open>Git ignore\<close>

text \<open>
  The ignore manager is dulwich's: \<open>is_ignored\<close> and \<open>find_matching\<close> are parameters,
  and so is the text of the ignore files (\<open>None\<close> for a file that is absent or unreadable).
\<close>

record IgnoreRule =
  ig_pattern :: string
  ig_source :: "string option"
  ig_line :: "nat option"

definition probe_name :: string where
  "probe_name = ''00000000-0000-4000-8000-000000000000.json''"

fun find_line :: "nat \<Rightarrow> string \<Rightarrow> string list \<Rightarrow> nat option" where
  "find_line n pattern [] = None"
| "find_line n pattern (t # ts) =
     (if py_strip t = pattern then Some n else find_line (Suc n) pattern ts)"

definition ignore_candidates :: "string \<Rightarrow> string list" where
  "ignore_candidates probe =
     (let trimmed = rev (dropWhile (\<lambda>c. c = CHR ''/'') (rev probe));
          parts = butlast (py_split ''/'' trimmed)
      in [''.gitignore'']
         @ map (\<lambda>depth. str_join ''/'' (take depth parts @ [''.gitignore''])) [1..<Suc (length parts)]
         @ [''.git/info/exclude''])"

fun locate_in :: "(string \<Rightarrow> string list option) \<Rightarrow> string \<Rightarrow> string list \<Rightarrow> (string \<times> nat) option" where
  "locate_in files pattern [] = None"
| "locate_in files pattern (c # cs) =
     (case files c of
        None \<Rightarrow> locate_in files pattern cs
      | Some lines \<Rightarrow>
          (case find_line 1 pattern lines of
             Some n \<Rightarrow> Some (c, n)
           | None \<Rightarrow> locate_in files pattern cs))"

definition ignore_chain :: "string \<Rightarrow> string list" where
  "ignore_chain prefix =
     [prefix @ ''.opentide/'', prefix @ ''.opentide/states/'',
      prefix @ ''.opentide/states/deployment/'',
      prefix @ ''.opentide/states/deployment/'' @ probe_name]"

fun ignore_search ::
  "(string \<Rightarrow> bool) \<Rightarrow> (string \<Rightarrow> string list) \<Rightarrow> (string \<Rightarrow> string list option) \<Rightarrow> string list
    \<Rightarrow> IgnoreRule" where
  "ignore_search is_ignored find_matching files [] =
     \<lparr>ig_pattern = ''.opentide/states/deployment/'', ig_source = None, ig_line = None\<rparr>"
| "ignore_search is_ignored find_matching files (probe # probes) =
     (let positive = filter (\<lambda>p. \<not> starts_with ''!'' p) (find_matching probe) in
      if \<not> is_ignored probe \<or> positive = []
      then ignore_search is_ignored find_matching files probes
      else let pattern = last positive in
        (case locate_in files pattern (ignore_candidates probe) of
           None \<Rightarrow> \<lparr>ig_pattern = pattern, ig_source = None, ig_line = None\<rparr>
         | Some (src, n) \<Rightarrow> \<lparr>ig_pattern = pattern, ig_source = Some src, ig_line = Some n\<rparr>))"

definition deployment_state_ignore ::
  "(string \<Rightarrow> bool) \<Rightarrow> (string \<Rightarrow> string list) \<Rightarrow> (string \<Rightarrow> string list option) \<Rightarrow> string
    \<Rightarrow> IgnoreRule option" where
  "deployment_state_ignore is_ignored find_matching files prefix =
     (let chain = ignore_chain prefix in
      if \<not> (is_ignored (chain ! 2) \<or> is_ignored (chain ! 3)) then None
      else Some (ignore_search is_ignored find_matching files chain))"

definition describe_rule :: "IgnoreRule \<Rightarrow> string" where
  "describe_rule r =
     (case (ig_source r, ig_line r) of
        (Some src, Some n) \<Rightarrow>
          (if src \<noteq> [] \<and> n \<noteq> 0 then src @ '':'' @ nat_str n @ '': '' else []) @ ig_pattern r
      | _ \<Rightarrow> ig_pattern r)"

definition ignored_message :: "IgnoreRule \<Rightarrow> string" where
  "ignored_message rule =
     ''git ignores .opentide/states/deployment/ ('' @ describe_rule rule @ ''). ''
     @ ''Deployment state shards must be committed, or the next deploy creates a ''
     @ ''second remote rule. Replace that ignore line with .opentide/states/sharing.jsonl ''
     @ ''so only the sharing cache is ignored.''"

section \<open>Lemmas on canonical UUIDs\<close>

lemma length_hexw [simp]: "length (hexw w n) = w"
  by (induction w arbitrary: n) auto

lemma hex_digit_char [simp]: "d < 16 \<Longrightarrow> hex_digit (digit_char d) = Some d"
  by (simp add: hex_digit_def digit_char_code)

lemma hexw_digits: "c \<in> set (hexw w n) \<Longrightarrow> \<exists>d < 16. c = digit_char d"
proof (induction w arbitrary: n)
  case (Suc w)
  then show ?case by (auto intro: exI [of _ "n mod 16"])
qed simp

lemma hex_body_append:
  "(\<And>c. c \<in> set s \<Longrightarrow> hex_digit c \<noteq> None) \<Longrightarrow>
    hex_body n (s @ t) = (case hex_body n s of None \<Rightarrow> None | Some m \<Rightarrow> hex_body m t)"
  by (induction s arbitrary: n) (fastforce split: option.splits)+

lemma hex_body_hexw: "hex_body a (hexw w n) = Some (a * 16 ^ w + n mod 16 ^ w)"
proof (induction w arbitrary: a n)
  case 0
  then show ?case by simp
next
  case (Suc w)
  have "hex_digit c \<noteq> None" if "c \<in> set (hexw w (n div 16))" for c
    using hexw_digits [OF that] by auto
  then have "hex_body a (hexw (Suc w) n) =
      Some (16 * (a * 16 ^ w + n div 16 mod 16 ^ w) + n mod 16)"
    by (simp add: hex_body_append Suc.IH)
  also have "16 * (a * 16 ^ w + n div 16 mod 16 ^ w) + n mod 16 = a * 16 ^ Suc w + n mod 16 ^ Suc w"
    by (simp add: mod_mult2_eq algebra_simps)
  finally show ?case .
qed

lemma hex_number_hexw:
  assumes "0 < w"
  shows "hex_number (hexw w n) = Some (n mod 16 ^ w)"
proof -
  obtain c cs where c: "hexw w n = c # cs"
    using assms by (metis length_hexw length_0_conv neq_Nil_conv not_gr_zero)
  then obtain d where "d < 16" and "c = digit_char d"
    using hexw_digits [of c w n] by auto
  with c have "hex_number (hexw w n) = hex_body 0 (hexw w n)" by simp
  then show ?thesis by (simp add: hex_body_hexw)
qed

lemma digit_char_facts:
  assumes "d < 16"
  shows "\<not> is_py_space (digit_char d)" and "digit_char d \<noteq> CHR ''-''" and "digit_char d \<noteq> CHR '':''"
    and "digit_char d \<noteq> CHR ''+''" and "digit_char d \<noteq> CHR ''x''" and "digit_char d \<noteq> CHR ''X''"
    and "digit_char d \<noteq> CHR ''{''" and "digit_char d \<noteq> CHR ''}''" and "digit_char d \<noteq> CHR ''_''"
proof -
  have code: "(of_char (digit_char d) :: nat) = (if d < 10 then 48 + d else 87 + d)"
    using assms by (rule digit_char_code)
  then have ne: "digit_char d \<noteq> c" if "of_char c \<notin> {48..57::nat} \<union> {97..102}" for c
    using that assms by (auto split: if_splits)
  show "\<not> is_py_space (digit_char d)" using assms by (simp add: is_py_space_def code)
  show "digit_char d \<noteq> CHR ''-''" "digit_char d \<noteq> CHR '':''" "digit_char d \<noteq> CHR ''+''"
    "digit_char d \<noteq> CHR ''x''" "digit_char d \<noteq> CHR ''X''" "digit_char d \<noteq> CHR ''{''"
    "digit_char d \<noteq> CHR ''}''" "digit_char d \<noteq> CHR ''_''"
    by (rule ne; simp)+
qed

lemma uuid_str_chars:
  "c \<in> set (uuid_str n) \<Longrightarrow> c = CHR ''-'' \<or> (\<exists>d < 16. c = digit_char d)"
  unfolding uuid_str_def Let_def
  by (auto dest!: in_set_takeD in_set_dropD hexw_digits)

lemma filter_hexw: "filter (\<lambda>x. x \<noteq> CHR ''-'') (hexw 32 n) = hexw 32 n"
  by (auto simp: filter_id_conv dest!: hexw_digits dest: digit_char_facts(2))

lemma uuid_str_no_dash: "filter (\<lambda>x. x \<noteq> CHR ''-'') (uuid_str n) = hexw 32 n"
proof -
  let ?h = "hexw 32 n"
  have "?h = take 8 ?h @ take 4 (drop 8 ?h) @ take 4 (drop 12 ?h) @ take 4 (drop 16 ?h) @ drop 20 ?h"
  proof -
    have step: "xs = take k xs @ drop k xs" for k and xs :: string by simp
    have d: "drop 4 (drop k ?h) = drop (k + 4) ?h" for k by (simp add: add.commute)
    show ?thesis
      by (subst step [of ?h 8], subst step [of "drop 8 ?h" 4], subst step [of "drop 4 (drop 8 ?h)" 4],
          subst step [of "drop 4 (drop 4 (drop 8 ?h))" 4]) (simp add: d del: append_take_drop_id)
  qed
  then have "filter (\<lambda>x. x \<noteq> CHR ''-'') ?h = filter (\<lambda>x. x \<noteq> CHR ''-'')
      (take 8 ?h @ take 4 (drop 8 ?h) @ take 4 (drop 12 ?h) @ take 4 (drop 16 ?h) @ drop 20 ?h)"
    by (rule arg_cong)
  then show ?thesis by (simp add: uuid_str_def Let_def filter_hexw del: append_take_drop_id)
qed

lemma hexw_ends: "0 < w \<Longrightarrow> \<exists>d e. d < 16 \<and> e < 16 \<and> hd (hexw w n) = digit_char d \<and> last (hexw w n) = digit_char e"
  by (metis hd_in_set hexw_digits last_in_set length_greater_0_conv length_hexw)

lemma uuid_str_ends:
  "\<exists>d e. d < 16 \<and> e < 16 \<and> hd (uuid_str n) = digit_char d \<and> last (uuid_str n) = digit_char e"
proof -
  have "hd (uuid_str n) = hd (hexw 32 n)" and "last (uuid_str n) = last (hexw 32 n)"
    using length_hexw [of 32 n] by (auto simp: uuid_str_def Let_def hd_append simp del: length_hexw)
  with hexw_ends [of 32 n] show ?thesis by simp
qed

lemma uuid_str_not_Nil [simp]: "uuid_str n \<noteq> []"
  by (simp add: uuid_str_def Let_def)

lemma strip_uuid_str [simp]: "py_strip (uuid_str n) = uuid_str n"
  using uuid_str_ends [of n] by (intro strip_fixed) (auto dest: digit_char_facts(1))

lemma strip_braces_uuid_str: "strip_braces (uuid_str n) = uuid_str n"
proof -
  obtain d e where "d < 16" "e < 16" "hd (uuid_str n) = digit_char d" "last (uuid_str n) = digit_char e"
    using uuid_str_ends by blast
  moreover from this have "hd (uuid_str n) \<noteq> CHR ''{''" "hd (uuid_str n) \<noteq> CHR ''}''"
      "last (uuid_str n) \<noteq> CHR ''{''" "last (uuid_str n) \<noteq> CHR ''}''"
    by (simp_all add: digit_char_facts)
  ultimately show ?thesis
    by (simp add: strip_braces_def Let_def dropWhile_eq_self_iff hd_rev dropWhile_eq_self_iff [THEN iffD2])
qed

lemma int_base16_hexw: "n < 2 ^ 128 \<Longrightarrow> int_base16 (hexw 32 n) = Some (int n)"
proof -
  assume n: "n < 2 ^ 128"
  obtain c cs where h: "hexw 32 n = c # cs"
    by (metis length_hexw list.size(3) neq_Nil_conv zero_neq_numeral)
  have dig: "x \<in> set (hexw 32 n) \<Longrightarrow> \<exists>d < 16. x = digit_char d" for x by (rule hexw_digits)
  have "py_strip (hexw 32 n) = hexw 32 n"
    using hexw_ends [of 32 n] by (intro strip_fixed) (auto dest: digit_char_facts(1))
  moreover have "drop_sign (hexw 32 n) = (False, hexw 32 n)"
    using dig [of c] digit_char_facts(2,4) by (auto simp: h)
  moreover have "\<not> starts_with ''0x'' (hexw 32 n)" "\<not> starts_with ''0X'' (hexw 32 n)"
  proof -
    have "CHR ''x'' \<notin> set (hexw 32 n)" "CHR ''X'' \<notin> set (hexw 32 n)"
      using dig digit_char_facts(5,6) by metis+
    then show "\<not> starts_with ''0x'' (hexw 32 n)" "\<not> starts_with ''0X'' (hexw 32 n)"
      by (auto simp: starts_with_iff)
  qed
  moreover have "(16::nat) ^ 32 = 2 ^ 128" by simp
  then have "hex_number (hexw 32 n) = Some n"
    using n by (simp add: hex_number_hexw del: hexw.simps hex_number.simps)
  ultimately show ?thesis
    by (simp add: int_base16_def drop_hex_prefix_def del: hexw.simps)
qed

lemma parse_uuid_str: "n < 2 ^ 128 \<Longrightarrow> parse_uuid (uuid_str n) = Some (uuid_str n)"
proof -
  assume n: "n < 2 ^ 128"
  have "CHR '':'' \<notin> set (uuid_str n)"
  proof
    assume "CHR '':'' \<in> set (uuid_str n)"
    from uuid_str_chars [OF this] have "\<exists>d<16. CHR '':'' = digit_char d" by simp
    then obtain d where "d < 16" and eq: "CHR '':'' = digit_char d" by blast
    from digit_char_facts(3) [OF \<open>d < 16\<close>] show False by (simp only: eq)
  qed
  then have "str_remove ''urn:'' (uuid_str n) = uuid_str n" "str_remove ''uuid:'' (uuid_str n) = uuid_str n"
    by (auto intro: str_remove_absent [where c = "CHR '':''"])
  then show ?thesis
    using n by (simp add: parse_uuid_def strip_braces_uuid_str str_remove_char uuid_str_no_dash
        int_base16_hexw del: hexw.simps)
qed

lemma parse_uuid_range:
  assumes "parse_uuid t = Some u"
  shows "\<exists>i. (0::int) \<le> i \<and> i < 2 ^ 128 \<and> u = uuid_str (nat i)"
proof -
  define hex where "hex = str_remove ''-'' (strip_braces (str_remove ''uuid:'' (str_remove ''urn:'' t)))"
  have "(if length hex \<noteq> 32 then None
      else case int_base16 hex of
          None \<Rightarrow> None
        | Some i \<Rightarrow> if 0 \<le> i \<and> i < 2 ^ 128 then Some (uuid_str (nat i)) else None) = Some u"
    using assms by (simp only: parse_uuid_def Let_def hex_def)
  then obtain i where "int_base16 hex = Some i" "0 \<le> i" "i < 2 ^ 128" "u = uuid_str (nat i)"
    by (auto split: if_splits option.splits simp del: power_numeral)
  then show ?thesis by blast
qed

lemma canonical_uuid_range:
  assumes "canonical_uuid v = Inr u"
  obtains n where "n < 2 ^ 128" and "u = uuid_str n"
proof -
  from assms obtain t where "parse_uuid t = Some u"
    by (auto simp: canonical_uuid_def split: option.splits)
  then obtain i :: int where "0 \<le> i" "i < 2 ^ 128" "u = uuid_str (nat i)"
    using parse_uuid_range by blast
  with that [of "nat i"] show thesis by (simp add: nat_less_iff)
qed

lemma canonical_uuid_of_str: "n < 2 ^ 128 \<Longrightarrow> canonical_uuid (PStr (uuid_str n)) = Inr (uuid_str n)"
  by (simp add: canonical_uuid_def parse_uuid_str)

lemma canonical_uuid_idem: "canonical_uuid v = Inr u \<Longrightarrow> canonical_uuid (PStr u) = Inr u"
  by (metis canonical_uuid_range canonical_uuid_of_str)

lemma canonical_or_none_Some: "canonical_or_none s = Some u \<longleftrightarrow> canonical_uuid (PStr s) = Inr u"
  by (auto simp: canonical_or_none_def split: sum.splits)

section \<open>The invariant of a shard\<close>

definition entry_ok :: "string \<Rightarrow> string \<times> string \<Rightarrow> bool" where
  "entry_ok platform te =
     (fst te \<noteq> [] \<and> py_strip (fst te) = fst te
    \<and> normalise_external_id platform (PStr (snd te)) = Inr (snd te))"

definition tenants_ok :: "string \<Rightarrow> tenant_map \<Rightarrow> bool" where
  "tenants_ok platform tenants = (distinct (map fst tenants) \<and> list_all (entry_ok platform) tenants)"

definition platforms_ok :: "platform_map \<Rightarrow> bool" where
  "platforms_ok platforms =
     (distinct (map fst platforms)
    \<and> list_all (\<lambda>(p, tenants). p \<in> set state_platforms \<and> tenants \<noteq> [] \<and> tenants_ok p tenants)
        platforms)"

definition shard_ok :: "DeploymentState \<Rightarrow> bool" where
  "shard_ok st =
     (platforms_ok (st_platforms st)
    \<and> canonical_or_none (st_uuid st) = Some (st_uuid st)
    \<and> st_path st = st_uuid st @ ''.json''
    \<and> distinct (map fst (st_extra st))
    \<and> set (map fst (st_extra st)) \<inter> set root_keys = {})"

lemma normalise_PStr: "normalise_external_id p (PStr s) = Inr t \<Longrightarrow> t = s"
  by (simp split: if_splits)

lemma canonical_decimal_nat_str: "canonical_decimal (nat_str n)"
proof (cases "n = 0")
  case False
  then have "hd (nat_str n) \<noteq> CHR ''0''" using nat_str_hd_zero by blast
  then show ?thesis
    by (auto simp: canonical_decimal_def list_all_iff nat_str_digits)
qed (simp add: canonical_decimal_def)

lemma strip_digits: "list_all is_ascii_digit s \<Longrightarrow> py_strip s = s"
  by (rule strip_fixed) (cases s, auto simp: list_all_iff dest!: ascii_digit_not_space)

lemma normalise_idem: "normalise_external_id p v = Inr t \<Longrightarrow> normalise_external_id p (PStr t) = Inr t"
proof (cases v)
  case (PInt i)
  moreover assume "normalise_external_id p v = Inr t"
  ultimately have t: "t = nat_str (nat i)" by (auto simp: int_str_def split: if_splits)
  have "py_strip t = t"
    by (rule strip_digits) (auto simp: t list_all_iff nat_str_digits)
  with t show ?thesis by (simp add: canonical_decimal_nat_str)
qed (auto split: if_splits)

declare normalise_external_id.simps [simp del]

lemma tenants_ok_Nil [simp]: "tenants_ok p []"
  by (simp add: tenants_ok_def)

lemma tenants_ok_tenants_of: "platforms_ok ps \<Longrightarrow> tenants_ok p (tenants_of ps p)"
  by (auto simp: platforms_ok_def tenants_of_def list_all_iff split: option.splits dest!: map_of_SomeD)

lemma tenants_ok_update: "tenants_ok p ts \<Longrightarrow> entry_ok p (t, e) \<Longrightarrow> tenants_ok p (AList.update t e ts)"
  using set_update_subset [of t e ts]
  by (auto simp: tenants_ok_def distinct_update list_all_iff)

lemma tenants_ok_delete: "tenants_ok p ts \<Longrightarrow> tenants_ok p (AList.delete t ts)"
  using set_delete_subset [of t ts]
  by (auto simp: tenants_ok_def distinct_delete list_all_iff)

lemma platforms_ok_update:
  "platforms_ok ps \<Longrightarrow> p \<in> set state_platforms \<Longrightarrow> ts \<noteq> [] \<Longrightarrow> tenants_ok p ts
    \<Longrightarrow> platforms_ok (AList.update p ts ps)"
  using set_update_subset [of p ts ps]
  by (auto simp: platforms_ok_def distinct_update list_all_iff)

lemma platforms_ok_delete: "platforms_ok ps \<Longrightarrow> platforms_ok (AList.delete p ps)"
  using set_delete_subset [of p ps]
  by (auto simp: platforms_ok_def distinct_delete list_all_iff)

text \<open>The deployment state provides the interface of a store, keyed by platform and tenant.\<close>

fun lookup_binding :: "platform_map \<Rightarrow> string \<times> string \<Rightarrow> string option" where
  "lookup_binding ps (p, t) = map_of (tenants_of ps p) t"

fun bind_tenant :: "platform_map \<Rightarrow> string \<times> string \<Rightarrow> string \<Rightarrow> platform_map" where
  "bind_tenant ps (p, t) v = put_binding p t v ps"

fun drop_tenant :: "platform_map \<Rightarrow> string \<times> string \<Rightarrow> platform_map" where
  "drop_tenant ps (p, t) = drop_binding p t ps"

fun binding_ok :: "string \<times> string \<Rightarrow> string \<Rightarrow> bool" where
  "binding_ok (p, t) v = (p \<in> set state_platforms \<and> entry_ok p (t, v))"

lemma tenants_of_update: "tenants_of (AList.update p ts ps) q = (if q = p then ts else tenants_of ps q)"
  by (simp add: tenants_of_def)

lemma tenants_of_delete: "tenants_of (AList.delete p ps) q = (if q = p then [] else tenants_of ps q)"
  by (simp add: tenants_of_def)

lemma lookup_put_binding:
  "map_of (tenants_of (put_binding p t v ps) p') t' =
     (if p' = p \<and> t' = t then Some v else map_of (tenants_of ps p') t')"
  by (simp add: put_binding_def tenants_of_update)

lemma lookup_drop_binding:
  "map_of (tenants_of (drop_binding p t ps) p') t' =
     (if p' = p \<and> t' = t then None else map_of (tenants_of ps p') t')"
proof -
  have "AList.delete t ts = [] \<Longrightarrow> map_of ts t'' = None" if "t'' \<noteq> t" for t'' and ts :: tenant_map
    using that by (metis map_of_delete map_of.simps(1))
  then show ?thesis
    by (auto simp: drop_binding_def tenants_of_update tenants_of_delete Let_def tenants_of_def
        split: option.splits)
qed

lemma platforms_ok_put:
  "platforms_ok ps \<Longrightarrow> p \<in> set state_platforms \<Longrightarrow> entry_ok p (t, v) \<Longrightarrow> platforms_ok (put_binding p t v ps)"
  by (simp add: put_binding_def platforms_ok_update tenants_ok_update tenants_ok_tenants_of)

lemma platforms_ok_drop: "platforms_ok ps \<Longrightarrow> platforms_ok (drop_binding p t ps)"
proof (cases "map_of ps p")
  case (Some ts)
  moreover assume ok: "platforms_ok ps"
  ultimately have "p \<in> set state_platforms" and "tenants_ok p ts"
    by (auto simp: platforms_ok_def list_all_iff dest!: map_of_SomeD)
  with ok Some show ?thesis
    by (simp add: drop_binding_def Let_def platforms_ok_delete platforms_ok_update tenants_ok_delete)
qed (simp add: drop_binding_def)

interpretation ds: binding_store lookup_binding bind_tenant drop_tenant platforms_ok binding_ok
  by unfold_locales
    (auto simp: lookup_put_binding lookup_drop_binding platforms_ok_put platforms_ok_drop split: if_splits)

lemma state_get_lookup: "state_get st p t = lookup_binding (st_platforms st) (p, tenant_key t)"
  by (simp add: state_get_def)

lemma state_set_Inr:
  "state_set st p t v = Inr (stored, st') \<longleftrightarrow>
     p \<in> set state_platforms \<and> tenant_key t \<noteq> [] \<and> normalise_external_id p v = Inr stored
   \<and> st' = st\<lparr>st_platforms := bind_tenant (st_platforms st) (p, tenant_key t) stored\<rparr>"
  by (auto simp: state_set_def split: sum.splits)

lemma state_set_admissible:
  "state_set st p t v = Inr (stored, st') \<Longrightarrow> binding_ok (p, tenant_key t) stored"
  by (auto simp: state_set_Inr entry_ok_def tenant_key_def dest: normalise_idem)

lemma state_remove_eq:
  "state_remove st p t =
     (state_get st p t, st\<lparr>st_platforms := drop_tenant (st_platforms st) (p, tenant_key t)\<rparr>)"
  by (simp add: state_remove_def)

lemma shard_ok_set: "shard_ok st \<Longrightarrow> state_set st p t v = Inr (stored, st') \<Longrightarrow> shard_ok st'"
  using state_set_admissible [of st p t v stored st'] ds.ok_bind
  by (auto simp: shard_ok_def state_set_Inr)

lemma shard_ok_remove: "shard_ok st \<Longrightarrow> shard_ok (snd (state_remove st p t))"
  using ds.ok_drop by (auto simp: shard_ok_def state_remove_eq)

lemma shard_ok_empty: "canonical_or_none u = Some u \<Longrightarrow> shard_ok (empty_state (u @ ''.json'') u)"
  by (simp add: shard_ok_def empty_state_def platforms_ok_def)

section \<open>Reading accepts only well-formed shards\<close>

lemma read_tenant_ok:
  "read_tenant p entries te = Inr entries' \<Longrightarrow> tenants_ok p entries \<Longrightarrow> tenants_ok p entries'"
proof -
  assume read: "read_tenant p entries te = Inr entries'" and ok: "tenants_ok p entries"
  obtain tn v where [simp]: "te = (tn, v)" by (cases te)
  from read obtain s x where "v = PStr s" "py_strip (key_str tn) \<noteq> []" "key_str tn = py_strip (key_str tn)"
      "normalise_external_id p v = Inr x" "entries' = AList.update (key_str tn) s entries"
    by (auto simp: Let_def split: pyval.splits if_splits sum.splits)
  with ok show ?thesis
    by (auto intro!: tenants_ok_update simp: entry_ok_def dest: normalise_PStr)
qed

lemma read_platform_ok:
  "read_platform ps pt = Inr ps' \<Longrightarrow> platforms_ok ps \<Longrightarrow> platforms_ok ps'"
proof -
  assume read: "read_platform ps pt = Inr ps'" and ok: "platforms_ok ps"
  obtain p tenants where [simp]: "pt = (p, tenants)" by (cases pt)
  from read obtain items entries where p: "key_str p \<in> set state_platforms"
    and entries: "rfold (read_tenant (key_str p)) [] items = Inr entries"
    and ps': "ps' = (if entries \<noteq> [] then AList.update (key_str p) entries ps else ps)"
    by (auto simp: Let_def split: if_splits sum.splits option.splits)
  have "tenants_ok (key_str p) entries"
    by (rule rfold_invariant [OF entries]) (auto intro: read_tenant_ok simp del: read_tenant.simps)
  with p ps' ok show ?thesis by (simp add: platforms_ok_update)
qed

lemma extra_items_inv:
  "distinct (map fst (fold (\<lambda>(k, v) d. if key_str k \<in> set root_keys then d
      else AList.update (key_str k) v d) xs d0))
   \<and> set (map fst (fold (\<lambda>(k, v) d. if key_str k \<in> set root_keys then d
      else AList.update (key_str k) v d) xs d0)) \<inter> set root_keys = {}"
  if "distinct (map fst d0)" "set (map fst d0) \<inter> set root_keys = {}"
  using that
proof (induction xs arbitrary: d0)
  case (Cons kv xs)
  obtain k v where [simp]: "kv = (k, v)" by (cases kv)
  show ?case
    using Cons.prems Cons.IH [of "AList.update (key_str k) v d0"] Cons.IH [of d0]
    by (auto simp: distinct_update dom_update)
qed simp

lemma platforms_ok_Nil [simp]: "platforms_ok []"
  by (simp add: platforms_ok_def)

lemma read_payload_ok:
  assumes "read_payload path stem doc = Inr st" and "canonical_or_none stem = Some stem"
    and "path = stem @ ''.json''"
  shows "shard_ok st"
proof -
  from assms(1) obtain payload platforms_raw platforms where
    ps: "rfold read_platform [] platforms_raw = Inr platforms"
    and st: "st = \<lparr>st_path = path, st_uuid = stem, st_platforms = platforms,
                   st_extra = extra_items payload, st_exists = True\<rparr>"
    by (auto simp: read_payload_def split: option.splits if_splits sum.splits)
  have "platforms_ok platforms"
    by (rule rfold_invariant [OF ps]) (auto intro: read_platform_ok simp del: read_platform.simps)
  with assms st extra_items_inv [of "[]" payload] show ?thesis
    by (simp add: shard_ok_def extra_items_def)
qed

lemma json_stem_Some: "json_stem name = Some stem \<Longrightarrow> name = stem @ ''.json''"
  by (auto simp: json_stem_def ends_with_iff split: if_splits)

lemma json_stem_append [simp]: "s \<noteq> [] \<Longrightarrow> json_stem (s @ ''.json'') = Some s"
  by (simp add: json_stem_def ends_with_iff)

lemma from_file_ok: "from_file path content expected = Inr st \<Longrightarrow> shard_ok st"
  by (auto simp: from_file_def dest!: json_stem_Some intro: read_payload_ok
      split: option.splits if_splits json_file.splits)

lemma from_file_name: "from_file path content expected = Inr st \<Longrightarrow> st_path st = path"
  by (auto simp: from_file_def read_payload_def split: option.splits if_splits json_file.splits sum.splits)

lemma load_state_ok: "load_state dir v = Inr st \<Longrightarrow> shard_ok st"
  by (auto simp: load_state_def Let_def canonical_or_none_Some shard_ok_empty dest: from_file_ok
      intro!: shard_ok_empty canonical_uuid_idem split: sum.splits if_splits option.splits fsnode.splits)

section \<open>Writing and reading back\<close>

lemma map_of_sort_key [simp]:
  assumes "distinct (map fst d)"
  shows "map_of (sort_key f d) k = map_of d k"
proof -
  have "distinct (map fst (sort_key f d))"
    using assms by (simp add: distinct_map inj_on_def)
  with assms have "map_of (sort_key f d) = map_of d"
    by (subst map_of_inject_set) auto
  then show ?thesis by simp
qed

lemma insort_key_map: "insort_key f (g x) (map g xs) = map g (insort_key (f \<circ> g) x xs)"
  by (induction xs) auto

lemma sort_key_map: "sort_key f (map g xs) = map g (sort_key (f \<circ> g) xs)"
  by (induction xs) (simp_all add: insort_key_map [unfolded comp_def] comp_def)

lemma key_str_PStr [simp]: "key_str (PStr s) = s"
  by (simp add: key_str_def)

lemma sort_keys_doc_of: "sort_keys (doc_of d) = doc_of (sort_key fst (map (\<lambda>(k, v). (k, sort_keys v)) d))"
  by (simp add: doc_of_def sort_key_map comp_def case_prod_unfold)

definition sorted_platforms :: "platform_map \<Rightarrow> platform_map" where
  "sorted_platforms ps = sort_key fst (map (\<lambda>(p, ts). (p, sort_key fst ts)) ps)"

lemma sort_keys_platforms_doc: "sort_keys (platforms_doc ps) = platforms_doc (sorted_platforms ps)"
  by (simp add: platforms_doc_def tenants_doc_def sort_keys_doc_of sorted_platforms_def
      sort_key_map comp_def case_prod_unfold)

lemma distinct_sort_key: "distinct (map fst (sort_key f d)) \<longleftrightarrow> distinct (map fst d)"
  by (simp add: distinct_map)

lemma tenants_ok_sort: "tenants_ok p (sort_key f ts) \<longleftrightarrow> tenants_ok p ts"
  by (simp add: tenants_ok_def distinct_sort_key list_all_iff)

lemma platforms_ok_sorted: "platforms_ok ps \<Longrightarrow> platforms_ok (sorted_platforms ps)"
  by (auto simp: platforms_ok_def sorted_platforms_def distinct_sort_key list_all_iff tenants_ok_sort
      comp_def case_prod_unfold dest!: arg_cong [where f = length])

lemma lookup_sorted_platforms: "platforms_ok ps \<Longrightarrow> lookup_binding (sorted_platforms ps) pt = lookup_binding ps pt"
proof (cases pt)
  case (Pair p t)
  assume ok: "platforms_ok ps"
  then have d: "distinct (map fst ps)" by (simp add: platforms_ok_def)
  have "map_of (map (\<lambda>(p, ts). (p, sort_key fst ts)) ps) p = map_option (sort_key fst) (map_of ps p)"
    by (induction ps) auto
  moreover have "distinct (map fst (map (\<lambda>(p, ts). (p, sort_key fst ts)) ps))"
    using d by (simp add: comp_def case_prod_unfold)
  ultimately have "tenants_of (sorted_platforms ps) p = sort_key fst (tenants_of ps p)"
    by (simp add: tenants_of_def sorted_platforms_def split: option.splits)
  moreover have "distinct (map fst (tenants_of ps p))"
    using tenants_ok_tenants_of [OF ok] by (simp add: tenants_ok_def)
  ultimately show ?thesis by (simp add: Pair)
qed

lemma update_fresh: "k \<notin> fst ` set d \<Longrightarrow> AList.update k v d = d @ [(k, v)]"
  by (induction d) auto

lemma read_tenants_doc:
  "tenants_ok p (acc @ ts) \<Longrightarrow>
     rfold (read_tenant p) acc (map (\<lambda>(k, v). (PStr k, v)) (map (\<lambda>(t, ext). (t, PStr ext)) ts)) = Inr (acc @ ts)"
proof (induction ts arbitrary: acc)
  case (Cons te ts)
  obtain t ext where [simp]: "te = (t, ext)" by (cases te)
  from Cons.prems have "entry_ok p (t, ext)" and "t \<notin> fst ` set acc"
    by (auto simp: tenants_ok_def)
  then have "read_tenant p acc (PStr t, PStr ext) = Inr (acc @ [(t, ext)])"
    by (auto simp: entry_ok_def Let_def update_fresh)
  with Cons.IH [of "acc @ [(t, ext)]"] Cons.prems show ?case by simp
qed simp

lemma read_platforms_doc:
  "platforms_ok (acc @ ps) \<Longrightarrow>
     rfold read_platform acc (map (\<lambda>(k, v). (PStr k, v)) (map (\<lambda>(p, tenants). (p, tenants_doc tenants)) ps))
       = Inr (acc @ ps)"
proof (induction ps arbitrary: acc)
  case (Cons pt ps)
  obtain p ts where [simp]: "pt = (p, ts)" by (cases pt)
  from Cons.prems have "p \<in> set state_platforms" "ts \<noteq> []" "tenants_ok p ts" "p \<notin> fst ` set acc"
    by (auto simp: platforms_ok_def)
  then have "read_platform acc (PStr p, tenants_doc ts) = Inr (acc @ [(p, ts)])"
    using read_tenants_doc [of p "[]" ts]
    by (simp add: Let_def tenants_doc_def doc_of_def update_fresh)
  with Cons.IH [of "acc @ [(p, ts)]"] Cons.prems show ?case by simp
qed simp

lemma map_of_doc: "map_of (map (\<lambda>(k, v). (PStr k, v)) l) (PStr k) = map_of l k"
  by (induction l) auto

lemma map_of_sorted_items:
  "distinct (map fst l) \<Longrightarrow>
     map_of (sort_key fst (map (\<lambda>(k, v). (k, sort_keys v)) l)) k = map_option sort_keys (map_of l k)"
proof -
  assume "distinct (map fst l)"
  then have "distinct (map fst (map (\<lambda>(k, v). (k, sort_keys v)) l))"
    by (simp add: comp_def case_prod_unfold)
  then show ?thesis by (simp add: map_of_map)
qed

lemma map_of_extra_fold:
  "distinct (map fst l) \<Longrightarrow>
     map_of (fold (\<lambda>(k, v) d. if key_str k \<in> set root_keys then d else AList.update (key_str k) v d)
        (map (\<lambda>(k, v). (PStr k, v)) l) d0) k
     = (if k \<in> set root_keys then map_of d0 k
        else case map_of l k of None \<Rightarrow> map_of d0 k | Some v \<Rightarrow> Some v)"
proof (induction l arbitrary: d0)
  case (Cons kv l)
  obtain k' v where [simp]: "kv = (k', v)" by (cases kv)
  from Cons.prems have "map_of l k' = None" by (simp add: map_of_eq_None_iff)
  with Cons show ?case by (auto split: option.splits)
qed simp

lemma map_of_extra_items:
  "distinct (map fst l) \<Longrightarrow>
     map_of (extra_items (map (\<lambda>(k, v). (PStr k, v)) l)) k
     = (if k \<in> set root_keys then None else map_of l k)"
  by (simp add: extra_items_def map_of_extra_fold split: option.splits)

lemma read_render:
  assumes "shard_ok st"
  obtains st' where "from_file (st_path st) (JsonDoc (render st)) (Some (st_uuid st)) = Inr st'"
    and "shard_ok st'"
    and "lookup_binding (st_platforms st') = lookup_binding (st_platforms st)"
    and "\<And>k. map_of (st_extra st') k = map_option sort_keys (map_of (st_extra st) k)"
    and "st_uuid st' = st_uuid st" and "st_path st' = st_path st"
proof -
  let ?u = "st_uuid st"
  from assms have ok: "platforms_ok (st_platforms st)" and u: "canonical_or_none ?u = Some ?u"
    and path: "st_path st = ?u @ ''.json''" and dist: "distinct (map fst (st_extra st))"
    and disj: "set (map fst (st_extra st)) \<inter> set root_keys = {}"
    by (auto simp: shard_ok_def)
  have une: "?u \<noteq> []"
    using u by (auto simp: canonical_or_none_Some elim: canonical_uuid_range)
  define l where "l = sort_key fst (map (\<lambda>(k, v). (k, sort_keys v)) (render_items st))"
  have dri: "distinct (map fst (render_items st))"
    by (simp add: render_items_def distinct_update dist)
  have dl: "distinct (map fst l)"
    by (simp add: l_def distinct_sort_key comp_def case_prod_unfold dri)
  have look: "map_of l k = map_option sort_keys (map_of (render_items st) k)" for k
    unfolding l_def by (rule map_of_sorted_items [OF dri])
  have render: "render st = PDict (map (\<lambda>(k, v). (PStr k, v)) l)"
    unfolding render_def sort_keys_doc_of l_def by (simp only: doc_of_def)
  have get: "dget (map (\<lambda>(k, v). (PStr k, v)) l) k = map_option sort_keys (map_of (render_items st) k)" for k
    by (simp add: dget_def map_of_doc look)
  have plats: "rfold read_platform [] (map (\<lambda>(k, v). (PStr k, v))
      (map (\<lambda>(p, ts). (p, tenants_doc ts)) (sorted_platforms (st_platforms st))))
      = Inr (sorted_platforms (st_platforms st))"
    using read_platforms_doc [of "[]"] platforms_ok_sorted [OF ok] by simp
  define payload where "payload = map (\<lambda>(k, v). (PStr k, v)) l"
  have schema: "dget_none payload ''schema'' = PStr schema_id"
    by (simp add: payload_def get dget_none_def render_items_def)
  have uuid: "dget_str payload ''object_uuid'' = Some ?u"
    by (simp add: dget_str_Some payload_def get render_items_def)
  have "dget payload ''platforms'' = Some (platforms_doc (sorted_platforms (st_platforms st)))"
    by (simp add: payload_def get render_items_def sort_keys_platforms_doc)
  then have plats_doc: "dget_dict payload ''platforms'' = Some (map (\<lambda>(k, v). (PStr k, v))
      (map (\<lambda>(p, ts). (p, tenants_doc ts)) (sorted_platforms (st_platforms st))))"
    by (simp only: dget_dict_Some platforms_doc_def doc_of_def)
  define st' where "st' = \<lparr>st_path = st_path st, st_uuid = ?u,
      st_platforms = sorted_platforms (st_platforms st),
      st_extra = extra_items payload, st_exists = True\<rparr>"
  have "read_payload (st_path st) ?u (PDict payload) = Inr st'"
    by (simp only: read_payload_def as_dict_val.simps option.case schema uuid plats_doc plats sum.case
        simp_thms if_True if_False st'_def)
  then have read: "from_file (st_path st) (JsonDoc (render st)) (Some ?u) = Inr st'"
    by (simp add: from_file_def path une u render payload_def)
  note st'_def = st'_def [unfolded payload_def]
  show thesis
  proof (rule that [OF read])
    show "shard_ok st'" by (rule from_file_ok [OF read])
    show "lookup_binding (st_platforms st') = lookup_binding (st_platforms st)"
      by (simp add: st'_def fun_eq_iff lookup_sorted_platforms ok)
    show "map_of (st_extra st') k = map_option sort_keys (map_of (st_extra st) k)" for k
    proof (cases "k \<in> set root_keys")
      case True
      then have "map_of (st_extra st) k = None"
        using disj by (auto simp: map_of_eq_None_iff)
      with True show ?thesis by (simp add: st'_def map_of_extra_items dl)
    next
      case False
      then have "map_of (render_items st) k = map_of (st_extra st) k"
        by (simp add: render_items_def root_keys_def)
      with False show ?thesis by (simp add: st'_def map_of_extra_items dl look)
    qed
  qed (simp_all add: st'_def)
qed

section \<open>Loading after a write\<close>

lemma map_fst_update: "\<not> P k \<Longrightarrow> filter P (map fst (AList.update k v d)) = filter P (map fst d)"
  by (induction d) auto

lemma map_fst_delete: "\<not> P k \<Longrightarrow> filter P (map fst (AList.delete k d)) = filter P (map fst d)"
  by (induction d) auto

lemma lower_append [simp]: "py_lower (a @ b) = py_lower a @ py_lower b"
  by (simp add: py_lower_def)

lemma lower_json [simp]: "py_lower ''.json'' = ''.json''"
  by (simp add: py_lower_def lower_char_def)

lemma ends_with_append [simp]: "ends_with p (r @ p)"
  by (auto simp: ends_with_iff)

lemma json_name_is_entry: "ends_with ''.json'' (py_lower (s @ ''.json''))"
  by simp

lemma tmp_is_no_entry [simp]: "\<not> ends_with ''.json'' (py_lower (tmp_name n))"
  by (simp add: ends_with_def tmp_name_def py_lower_def lower_char_def)

lemma tmp_name_neq [simp]: "tmp_name n \<noteq> s @ ''.json''"
  using tmp_is_no_entry [of n] json_name_is_entry [of s] by metis

lemma shard_entries_tmp [simp]:
  "shard_entries (AList.update (tmp_name n) x dir) = shard_entries dir"
  "shard_entries (AList.delete (tmp_name n) dir) = shard_entries dir"
  by (simp_all add: shard_entries_def map_fst_update map_fst_delete)

lemma load_state_tmp:
  "load_state (AList.update (tmp_name n) x dir) v = load_state dir v"
  "load_state (AList.delete (tmp_name n) dir) v = load_state dir v"
proof -
  have [simp]: "s @ ''.json'' \<noteq> tmp_name n" for s
    using tmp_name_neq by metis
  show "load_state (AList.update (tmp_name n) x dir) v = load_state dir v"
    "load_state (AList.delete (tmp_name n) dir) v = load_state dir v"
    by (simp_all add: load_state_def names_for_def exact_entry_def is_file_def Let_def split: sum.split)
qed

text \<open>
  A crash at any point of a durable write leaves a directory that every rule reads as before the
  write or as after it.
\<close>

lemma write_steps_atomic:
  "d \<in> set (write_durable_steps partial name node dir) \<Longrightarrow>
     load_state d v = load_state dir v
   \<or> load_state d v = load_state (last (write_durable_steps partial name node dir)) v"
  by (auto simp: write_durable_steps_def load_state_tmp)

definition variant_free :: "string set \<Rightarrow> string \<Rightarrow> bool" where
  "variant_free names canonical =
     (\<forall>name \<in> names. ends_with ''.json'' (py_lower name)
        \<and> canonical_or_none (take (length name - 5) name) = Some canonical
        \<longrightarrow> name = canonical @ ''.json'')"

abbreviation no_variants :: "dirlist \<Rightarrow> string \<Rightarrow> bool" where
  "no_variants dir \<equiv> variant_free (fst ` set dir)"

lemma keys_delete: "fst ` set (AList.delete k d) = fst ` set d - {k}"
  by (induction d) auto

lemma variants_iff:
  "filter (\<lambda>name. name \<noteq> c @ ''.json'') (names_for dir c) = [] \<longleftrightarrow> no_variants dir c"
  by (auto simp: filter_empty_conv names_for_def shard_entries_def variant_free_def)

lemma variant_free_insert:
  "variant_free (insert (s @ ''.json'') N) c \<longleftrightarrow>
     (canonical_or_none s = Some c \<longrightarrow> s = c) \<and> variant_free N c"
  by (auto simp: variant_free_def)

lemma variant_free_tmp [simp]: "variant_free (N - {tmp_name n}) c \<longleftrightarrow> variant_free N c"
  by (auto simp: variant_free_def)

lemma variant_free_mono: "variant_free N c \<Longrightarrow> M \<subseteq> N \<Longrightarrow> variant_free M c"
  by (auto simp: variant_free_def)

lemma load_state_eq:
  "load_state dir v =
     (case canonical_uuid v of
        Inl e \<Rightarrow> Inl e
      | Inr c \<Rightarrow>
          if \<not> no_variants dir c then Inl Deployment_state_uuid_mismatch
          else case map_of dir (c @ ''.json'') of
              Some (FFile content) \<Rightarrow> from_file (c @ ''.json'') content (Some c)
            | _ \<Rightarrow> Inr (empty_state (c @ ''.json'') c))"
proof (cases "canonical_uuid v")
  case (Inr c)
  have "map_of dir (c @ ''.json'') \<noteq> None \<Longrightarrow> c @ ''.json'' \<in> set (shard_entries dir)"
    by (auto simp: shard_entries_def dest: map_of_SomeD intro: rev_image_eqI)
  then show ?thesis
    using variants_iff [of c dir]
    by (auto simp: load_state_def Inr Let_def exact_entry_def is_file_def
        split: option.splits fsnode.splits)
qed (simp add: load_state_def)

lemma write_durable_Inr:
  "write_durable wr name doc dir = Inr dir' \<Longrightarrow>
     dir' = AList.delete (tmp_name name) (AList.update name (FFile (JsonDoc doc)) dir)"
  by (simp add: write_durable_def write_durable_steps_def split: if_splits option.splits fsnode.splits)

lemma load_after_write:
  assumes v: "canonical_uuid v = Inr c" and "no_variants dir c"
    and "shard_ok st" "st_path st = c @ ''.json''" "st_uuid st = c"
    and w: "write_durable wr (c @ ''.json'') (render st) dir = Inr dir'"
  obtains st' where "load_state dir' v = Inr st'" and "shard_ok st'"
    and "lookup_binding (st_platforms st') = lookup_binding (st_platforms st)"
proof -
  obtain st' where st': "from_file (st_path st) (JsonDoc (render st)) (Some (st_uuid st)) = Inr st'"
    "shard_ok st'" "lookup_binding (st_platforms st') = lookup_binding (st_platforms st)"
    using read_render [OF assms(3)] by metis
  have dir': "dir' = AList.delete (tmp_name (c @ ''.json''))
      (AList.update (c @ ''.json'') (FFile (JsonDoc (render st))) dir)"
    using w by (rule write_durable_Inr)
  have "no_variants dir' c"
    using assms(2) by (simp add: dir' keys_delete dom_update variant_free_insert)
  moreover have "c @ ''.json'' \<noteq> tmp_name (c @ ''.json'')"
    using tmp_name_neq by metis
  then have "map_of dir' (c @ ''.json'') = Some (FFile (JsonDoc (render st)))"
    by (simp add: dir')
  moreover have "from_file (c @ ''.json'') (JsonDoc (render st)) (Some c) = Inr st'"
    using st'(1) by (simp only: assms(4,5))
  ultimately have "load_state dir' v = Inr st'"
    by (simp add: load_state_eq v)
  with st'(2,3) that show thesis by blast
qed

lemma load_state_facts:
  assumes "load_state dir v = Inr st"
  obtains c where "canonical_uuid v = Inr c" and "no_variants dir c" and "shard_ok st"
    and "st_path st = c @ ''.json''" and "st_uuid st = c"
    and "st_platforms st \<noteq> [] \<longrightarrow> (\<exists>content. map_of dir (c @ ''.json'') = Some (FFile content))"
proof -
  from assms obtain c where c: "canonical_uuid v = Inr c" and nv: "no_variants dir c"
    by (auto simp: load_state_eq split: sum.splits if_splits)
  have ok: "shard_ok st" by (rule load_state_ok [OF assms])
  have path: "st_path st = c @ ''.json''"
    using assms c by (auto simp: load_state_eq empty_state_def split: if_splits option.splits
        fsnode.splits dest: from_file_name)
  then have uuid: "st_uuid st = c"
    using ok by (simp add: shard_ok_def)
  have "st_platforms st \<noteq> [] \<longrightarrow> (\<exists>content. map_of dir (c @ ''.json'') = Some (FFile content))"
    using assms c by (auto simp: load_state_eq empty_state_def split: if_splits option.splits fsnode.splits)
  with c nv ok path uuid that show thesis by blast
qed

lemma put_binding_not_Nil [simp]: "put_binding p t v ps \<noteq> []"
  by (simp add: put_binding_def)

lemma state_get_cong:
  "lookup_binding (st_platforms st) = lookup_binding (st_platforms st') \<Longrightarrow> state_get st p t = state_get st' p t"
  by (simp add: state_get_lookup)

lemma state_set_get:
  assumes "state_set st p t v = Inr (stored, st')" and "shard_ok st"
  shows "state_get st' p' t' =
    (if p' = p \<and> tenant_key t' = tenant_key t then Some stored else state_get st p' t')"
proof -
  have "platforms_ok (st_platforms st)" using assms(2) by (simp add: shard_ok_def)
  moreover have "binding_ok (p, tenant_key t) stored" by (rule state_set_admissible [OF assms(1)])
  ultimately have "lookup_binding (bind_tenant (st_platforms st) (p, tenant_key t) stored) (p', tenant_key t')
      = (if (p', tenant_key t') = (p, tenant_key t) then Some stored
         else lookup_binding (st_platforms st) (p', tenant_key t'))"
    by (rule ds.lookup_bind)
  with assms(1) show ?thesis by (auto simp: state_set_Inr state_get_lookup)
qed

lemma state_remove_get:
  assumes "shard_ok st"
  shows "state_get (snd (state_remove st p t)) p' t' =
    (if p' = p \<and> tenant_key t' = tenant_key t then None else state_get st p' t')"
  using ds.lookup_drop [of "st_platforms st" "(p, tenant_key t)" "(p', tenant_key t')"] assms
  by (auto simp: shard_ok_def state_remove_eq state_get_lookup)

lemma record_Inr:
  assumes "record_external_id wr v p t ext dir = Inr (stored, dir')"
  obtains st st' where "load_state dir v = Inr st" and "state_set st p t ext = Inr (stored, st')"
    and "write_durable wr (st_path st') (render st') dir = Inr dir'"
proof -
  from assms obtain st st' st'' where "load_state dir v = Inr st"
    and set: "state_set st p t ext = Inr (stored, st')" and save: "save_state wr st' dir = Inr (st'', dir')"
    by (auto simp: record_external_id_def split: sum.splits)
  moreover from set have "st_platforms st' \<noteq> []" by (auto simp: state_set_Inr)
  ultimately show thesis using that by (auto simp: save_state_def split: sum.splits)
qed

lemma record_load:
  assumes "record_external_id wr v p t ext dir = Inr (stored, dir')"
  obtains st st' where "load_state dir v = Inr st" and "load_state dir' v = Inr st'"
    and "normalise_external_id p ext = Inr stored"
    and "\<And>p' t'. state_get st' p' t' =
      (if p' = p \<and> tenant_key t' = tenant_key t then Some stored else state_get st p' t')"
proof -
  from assms obtain st st1 where load: "load_state dir v = Inr st"
    and set: "state_set st p t ext = Inr (stored, st1)"
    and w: "write_durable wr (st_path st1) (render st1) dir = Inr dir'"
    by (rule record_Inr)
  from load obtain c where c: "canonical_uuid v = Inr c" "no_variants dir c" "shard_ok st"
    "st_path st = c @ ''.json''" "st_uuid st = c"
    by (rule load_state_facts)
  from set c have st1: "shard_ok st1" "st_path st1 = c @ ''.json''" "st_uuid st1 = c"
    by (auto intro: shard_ok_set simp: state_set_Inr)
  with w have w': "write_durable wr (c @ ''.json'') (render st1) dir = Inr dir'" by simp
  obtain st' where st': "load_state dir' v = Inr st'"
    "lookup_binding (st_platforms st') = lookup_binding (st_platforms st1)"
    using load_after_write [OF c(1,2) st1 w'] by metis
  show thesis
  proof (rule that [OF load st'(1)])
    show "normalise_external_id p ext = Inr stored" using set by (simp add: state_set_Inr)
    show "state_get st' p' t' =
      (if p' = p \<and> tenant_key t' = tenant_key t then Some stored else state_get st p' t')" for p' t'
      using state_set_get [OF set c(3)] state_get_cong [OF st'(2)] by simp
  qed
qed

text \<open>A write to one rule's shard leaves what every other rule reads alone.\<close>

lemma load_other_write:
  assumes "canonical_uuid v = Inr c" and "canonical_uuid v' = Inr c'" and "c' \<noteq> c"
    and "write_durable wr (c @ ''.json'') doc dir = Inr dir'"
  shows "load_state dir' v' = load_state dir v'"
proof -
  have dir': "dir' = AList.delete (tmp_name (c @ ''.json'')) (AList.update (c @ ''.json'') (FFile (JsonDoc doc)) dir)"
    using assms(4) by (rule write_durable_Inr)
  have "canonical_or_none c \<noteq> Some c'"
    using canonical_uuid_idem [OF assms(1)] assms(3) by (auto simp: canonical_or_none_Some)
  then have "no_variants dir' c' \<longleftrightarrow> no_variants dir c'"
    by (simp add: dir' keys_delete dom_update variant_free_insert)
  moreover have "c' @ ''.json'' \<noteq> tmp_name (c @ ''.json'')" using tmp_name_neq by metis
  then have "map_of dir' (c' @ ''.json'') = map_of dir (c' @ ''.json'')"
    using assms(3) by (simp add: dir')
  ultimately show ?thesis by (simp add: load_state_eq assms(2))
qed

lemma load_after_delete:
  assumes "canonical_uuid v = Inr c" and "no_variants dir c"
  shows "load_state (AList.delete (c @ ''.json'') dir) v = Inr (empty_state (c @ ''.json'') c)"
proof -
  have "no_variants (AList.delete (c @ ''.json'') dir) c"
    by (rule variant_free_mono [OF assms(2)]) (auto simp: keys_delete)
  then show ?thesis by (simp add: load_state_eq assms(1))
qed

lemma forget_load:
  assumes "forget_external_id wr v p t dir = Inr (removed, dir')"
  obtains st st' where "load_state dir v = Inr st" and "load_state dir' v = Inr st'"
    and "removed = state_get st p t"
    and "\<And>p' t'. state_get st' p' t' =
      (if p' = p \<and> tenant_key t' = tenant_key t then None else state_get st p' t')"
proof -
  from assms obtain st where load: "load_state dir v = Inr st"
    by (auto simp: forget_external_id_def split: sum.splits)
  from load obtain c where c: "canonical_uuid v = Inr c" "no_variants dir c" "shard_ok st"
    "st_path st = c @ ''.json''" "st_uuid st = c"
    and is_f: "st_platforms st \<noteq> [] \<longrightarrow> (\<exists>content. map_of dir (c @ ''.json'') = Some (FFile content))"
    by (rule load_state_facts)
  define st1 where "st1 = snd (state_remove st p t)"
  have look: "state_get st1 p' t' =
      (if p' = p \<and> tenant_key t' = tenant_key t then None else state_get st p' t')" for p' t'
    unfolding st1_def by (rule state_remove_get [OF c(3)])
  show thesis
  proof (cases "state_get st p t")
    case None
    with assms load have "removed = None" "dir' = dir"
      by (auto simp: forget_external_id_def state_remove_eq)
    moreover have "state_get st p' t' = (if p' = p \<and> tenant_key t' = tenant_key t then None else state_get st p' t')" for p' t'
      using None by (auto simp: state_get_def)
    ultimately show thesis using that [OF load] load None by metis
  next
    case (Some ext)
    then have ne: "st_platforms st \<noteq> []" by (auto simp: state_get_def tenants_of_def)
    have save: "\<exists>st''. save_state wr st1 dir = Inr (st'', dir')" and rem: "removed = Some ext"
      using assms load Some
      by (auto simp: forget_external_id_def state_remove_eq st1_def split: sum.splits)
    have st1: "shard_ok st1" "st_path st1 = c @ ''.json''" "st_uuid st1 = c"
      using shard_ok_remove [OF c(3)] c by (simp_all add: st1_def state_remove_eq)
    show thesis
    proof (cases "st_platforms st1 = []")
      case True
      with save is_f ne st1 have dir': "dir' = AList.delete (c @ ''.json'') dir"
        by (auto simp: save_state_def split: if_splits)
      have "load_state dir' v = Inr (empty_state (c @ ''.json'') c)"
        unfolding dir' by (rule load_after_delete [OF c(1,2)])
      moreover have "state_get (empty_state (c @ ''.json'') c) p' t' = state_get st1 p' t'" for p' t'
        using True by (simp add: state_get_def empty_state_def tenants_of_def)
      ultimately show thesis using that [OF load] rem Some look by metis
    next
      case False
      with save st1 have w: "write_durable wr (c @ ''.json'') (render st1) dir = Inr dir'"
        by (auto simp: save_state_def split: sum.splits)
      obtain st' where "load_state dir' v = Inr st'"
        "lookup_binding (st_platforms st') = lookup_binding (st_platforms st1)"
        using load_after_write [OF c(1,2) st1 w] by metis
      then show thesis using that [OF load] rem Some look state_get_cong by metis
    qed
  qed
qed

lemma load_other_delete:
  assumes "canonical_uuid v = Inr c" and "canonical_uuid v' = Inr c'" and "c' \<noteq> c"
  shows "load_state (AList.delete (c @ ''.json'') dir) v' = load_state dir v'"
proof -
  have "canonical_or_none c \<noteq> Some c'"
    using canonical_uuid_idem [OF assms(1)] assms(3) by (auto simp: canonical_or_none_Some)
  moreover have "take (length (c @ ''.json'') - 5) (c @ ''.json'') = c" by simp
  ultimately have "no_variants (AList.delete (c @ ''.json'') dir) c' \<longleftrightarrow> no_variants dir c'"
    unfolding variant_free_def keys_delete by (metis Diff_iff singletonD)
  moreover have "map_of (AList.delete (c @ ''.json'') dir) (c' @ ''.json'') = map_of dir (c' @ ''.json'')"
    using assms(3) by simp
  ultimately show ?thesis by (simp add: load_state_eq assms(2))
qed

lemma record_other_load:
  assumes "record_external_id wr v p t ext dir = Inr (stored, dir')" "canonical_uuid v' \<noteq> canonical_uuid v"
  shows "load_state dir' v' = load_state dir v'"
proof -
  from assms(1) obtain st st1 where load: "load_state dir v = Inr st"
    and set: "state_set st p t ext = Inr (stored, st1)"
    and w: "write_durable wr (st_path st1) (render st1) dir = Inr dir'"
    by (rule record_Inr)
  from load obtain c where c: "canonical_uuid v = Inr c" "st_path st1 = c @ ''.json''"
    using set by (elim load_state_facts) (auto simp: state_set_Inr)
  show ?thesis
  proof (cases "canonical_uuid v'")
    case (Inr c')
    with assms(2) c w show ?thesis by (intro load_other_write [OF c(1) Inr]) auto
  qed (simp add: load_state_eq)
qed

lemma forget_other_load:
  assumes "forget_external_id wr v p t dir = Inr (removed, dir')" "canonical_uuid v' \<noteq> canonical_uuid v"
  shows "load_state dir' v' = load_state dir v'"
proof -
  from assms(1) obtain st where load: "load_state dir v = Inr st"
    by (auto simp: forget_external_id_def split: sum.splits)
  from load obtain c where c: "canonical_uuid v = Inr c" "st_path st = c @ ''.json''"
    by (rule load_state_facts)
  define st1 where "st1 = snd (state_remove st p t)"
  have path: "st_path st1 = c @ ''.json''" using c by (simp add: st1_def state_remove_eq)
  from assms(1) load consider "dir' = dir" | st'' where "save_state wr st1 dir = Inr (st'', dir')"
    by (cases "state_remove st p t") (auto simp: forget_external_id_def st1_def split: sum.splits option.splits)
  then consider "dir' = dir" | "dir' = AList.delete (c @ ''.json'') dir"
    | "write_durable wr (c @ ''.json'') (render st1) dir = Inr dir'"
    by cases (auto simp: save_state_def path split: if_splits sum.splits option.splits fsnode.splits)
  then show ?thesis
  proof cases
    case 2
    with assms(2) c load_other_delete [OF c(1)] show ?thesis
      by (cases "canonical_uuid v'") (auto simp: load_state_eq)
  next
    case 3
    with assms(2) c load_other_write [OF c(1) _ _ 3] show ?thesis
      by (cases "canonical_uuid v'") (auto simp: load_state_eq)
  qed simp
qed

section \<open>What a clean scan means\<close>

fun scan_error :: "string list \<times> fsnode \<Rightarrow> state_code list" where
  "scan_error (path, FDir sub) = []"
| "scan_error (path, FFile content) =
     (if \<not> ends_with ''.json'' (py_lower (last path)) then []
      else if length path \<noteq> 1 then [Deployment_state_uuid_mismatch]
      else case from_file (last path) content None of Inl e \<Rightarrow> [e] | Inr _ \<Rightarrow> [])"

lemma scan_step_errors: "fst (scan_step acc item) = fst acc @ scan_error item"
  by (cases acc; cases item; cases "snd item")
    (auto simp: Let_def split: sum.splits option.splits)

lemma foldl_scan_errors: "fst (foldl scan_step acc items) = fst acc @ concat (map scan_error items)"
  by (induction items arbitrary: acc) (simp_all add: scan_step_errors)

lemma rglob_top: "(n, FFile content) \<in> set dir \<Longrightarrow> (pre @ [n], FFile content) \<in> set (rglob pre dir)"
  by (induction pre dir rule: rglob.induct) auto

lemma from_file_None: "from_file path content None = Inr st \<Longrightarrow> json_stem path = Some stem \<Longrightarrow>
    from_file path content (Some stem) = Inr st"
  by (simp add: from_file_def split: if_splits)

lemma scan_clean_file:
  assumes "scan_deployment_states (Some dir) = []" and "(n, FFile content) \<in> set dir"
    and "ends_with ''.json'' (py_lower n)"
  obtains stem st where "json_stem n = Some stem" and "canonical_or_none stem = Some stem"
    and "from_file n content (Some stem) = Inr st"
proof -
  have "concat (map scan_error (sort_key fst (rglob [] dir))) = []"
    using assms(1) foldl_scan_errors [of "([], [])" "sort_key fst (rglob [] dir)"]
    by (auto simp: scan_deployment_states_def Let_def case_prod_unfold)
  then have "scan_error ([n], FFile content) = []"
    using rglob_top [OF assms(2), of "[]"] by auto
  with assms(3) obtain st where st: "from_file n content None = Inr st"
    by (auto split: sum.splits)
  then obtain stem where "json_stem n = Some stem" "canonical_or_none stem = Some stem"
    by (auto simp: from_file_def split: option.splits if_splits)
  with that from_file_None [OF st] show thesis by blast
qed

lemma json_stem_take: "json_stem n = Some stem \<Longrightarrow> take (length n - 5) n = stem"
  by (auto simp: json_stem_def split: if_splits)

lemma scan_clean_loads:
  assumes scan: "scan_deployment_states (Some dir) = []"
    and files: "\<And>n sub. (n, FDir sub) \<in> set dir \<Longrightarrow> \<not> ends_with ''.json'' (py_lower n)"
    and v: "canonical_uuid v = Inr c"
  shows "\<exists>st. load_state dir v = Inr st"
proof -
  have file_of: "\<exists>content. (n, FFile content) \<in> set dir"
    if "n \<in> fst ` set dir" "ends_with ''.json'' (py_lower n)" for n
  proof -
    from that obtain x where "(n, x) \<in> set dir" by auto
    with files that(2) show ?thesis by (cases x) auto
  qed
  have nv: "no_variants dir c"
    unfolding variant_free_def
  proof (intro ballI impI, elim conjE)
    fix n assume n: "n \<in> fst ` set dir" "ends_with ''.json'' (py_lower n)"
      "canonical_or_none (take (length n - 5) n) = Some c"
    then obtain content where "(n, FFile content) \<in> set dir" using file_of by blast
    then obtain stem where "json_stem n = Some stem" "canonical_or_none stem = Some stem"
      using scan n(2) by (metis scan_clean_file)
    with n(3) show "n = c @ ''.json''" by (auto dest: json_stem_take json_stem_Some)
  qed
  show ?thesis
  proof (cases "map_of dir (c @ ''.json'')")
    case None
    then show ?thesis by (simp add: load_state_eq v nv)
  next
    case (Some node)
    then have "c @ ''.json'' \<in> fst ` set dir" by (force dest: map_of_SomeD)
    show ?thesis
    proof (cases node)
      case (FFile content)
      with Some have "(c @ ''.json'', FFile content) \<in> set dir" by (simp add: map_of_SomeD)
      then obtain stem st where "json_stem (c @ ''.json'') = Some stem"
        "from_file (c @ ''.json'') content (Some stem) = Inr st"
        using scan json_name_is_entry by (metis scan_clean_file)
      moreover from this have "stem = c" by (auto dest: json_stem_Some)
      ultimately show ?thesis by (simp add: load_state_eq v nv Some FFile)
    next
      case (FDir sub)
      with Some show ?thesis by (simp add: load_state_eq v nv)
    qed
  qed
qed

section \<open>Properties\<close>

lemma sample_uuid: "canonical_uuid (PStr (uuid_str 7)) = Inr (uuid_str 7)"
  by (rule canonical_uuid_of_str) simp

lemma sample_load: "load_state [] (PStr (uuid_str 7)) = Inr (empty_state (uuid_str 7 @ ''.json'') (uuid_str 7))"
  by (simp add: load_state_eq sample_uuid variant_free_def)

lemma sample_record_for:
  assumes "p \<in> set state_platforms" "normalise_external_id p v = Inr stored"
  obtains dir' where "record_external_id True (PStr (uuid_str 7)) p ''Prod'' v [] = Inr (stored, dir')"
proof -
  have "\<exists>st'. state_set (empty_state (uuid_str 7 @ ''.json'') (uuid_str 7)) p ''Prod'' v = Inr (stored, st')
      \<and> st_platforms st' \<noteq> []"
    using assms by (simp add: state_set_def tenant_key_def py_strip_def py_rstrip_def py_lstrip_def is_py_space_def
        put_binding_def)
  then show thesis
    using that by (auto simp: record_external_id_def sample_load save_state_def write_durable_def)
qed

lemma sample_record:
  obtains dir' where "record_external_id True (PStr (uuid_str 7)) ''crowdstrike'' ''Prod'' (PStr ''ab12'') []
    = Inr (''ab12'', dir')"
proof -
  have "''crowdstrike'' \<in> set state_platforms" "normalise_external_id ''crowdstrike'' (PStr ''ab12'') = Inr ''ab12''"
    by (simp_all add: state_platforms_def normalise_external_id.simps integer_id_platforms_def
        py_strip_def py_rstrip_def py_lstrip_def is_py_space_def)
  from sample_record_for [OF this] that show thesis by blast
qed

text \<open>
  C20: reading a shard never yields an ill-formed one, and \<open>set\<close> and \<open>remove\<close> keep it
  well-formed: platforms known and never empty, tenant names stripped and non-empty, ids in their
  stored form, no key twice, and the file named after the canonical uuid.
\<close>

theorem shard_invariant:
  assumes "load_state dir v = Inr st"
  shows "shard_ok st
    \<and> (\<forall>p t ext stored st'. state_set st p t ext = Inr (stored, st') \<longrightarrow> shard_ok st')
    \<and> (\<forall>p t. shard_ok (snd (state_remove st p t)))"
  using load_state_ok [OF assms] by (auto intro: shard_ok_set shard_ok_remove)

lemma shard_invariant_witness:
  "shard_ok (empty_state (uuid_str 7 @ ''.json'') (uuid_str 7))"
  using shard_invariant [OF sample_load] by blast

text \<open>
  C2: recording an id and reading the shard back: the recorded platform and tenant (up to
  surrounding whitespace) hold the id in its stored form, every other binding of the rule is what it
  was, and every other rule reads as before.
\<close>

theorem record_then_load:
  assumes "record_external_id wr v p t ext dir = Inr (stored, dir')"
  shows "(\<exists>st st'. load_state dir v = Inr st \<and> load_state dir' v = Inr st'
      \<and> normalise_external_id p ext = Inr stored
      \<and> (\<forall>p' t'. state_get st' p' t' =
          (if p' = p \<and> tenant_key t' = tenant_key t then Some stored else state_get st p' t')))
    \<and> (\<forall>v'. canonical_uuid v' \<noteq> canonical_uuid v \<longrightarrow> load_state dir' v' = load_state dir v')"
proof (intro conjI allI impI)
  show "\<exists>st st'. load_state dir v = Inr st \<and> load_state dir' v = Inr st'
      \<and> normalise_external_id p ext = Inr stored
      \<and> (\<forall>p' t'. state_get st' p' t' =
          (if p' = p \<and> tenant_key t' = tenant_key t then Some stored else state_get st p' t'))"
    using record_load [OF assms] by metis
next
  fix v' assume "canonical_uuid v' \<noteq> canonical_uuid v"
  then show "load_state dir' v' = load_state dir v'" by (rule record_other_load [OF assms])
qed

lemma record_then_load_witness:
  "\<exists>dir' st'. record_external_id True (PStr (uuid_str 7)) ''crowdstrike'' ''Prod'' (PStr ''ab12'') []
      = Inr (''ab12'', dir')
    \<and> load_state dir' (PStr (uuid_str 7)) = Inr st' \<and> state_get st' ''crowdstrike'' ''Prod'' = Some ''ab12''"
proof -
  obtain dir' where "record_external_id True (PStr (uuid_str 7)) ''crowdstrike'' ''Prod'' (PStr ''ab12'') []
    = Inr (''ab12'', dir')" by (rule sample_record)
  with record_then_load [OF this] show ?thesis by metis
qed

text \<open>
  forgetting an id answers what the shard held, and a later read of the rule no longer has that
  binding (the shard is deleted with its last one) and has every other binding as before; every other
  rule reads what it read before.
\<close>

theorem forget_then_load:
  assumes "forget_external_id wr v p t dir = Inr (removed, dir')"
  shows "(\<exists>st st'. load_state dir v = Inr st \<and> load_state dir' v = Inr st' \<and> removed = state_get st p t
      \<and> (\<forall>p' t'. state_get st' p' t' =
          (if p' = p \<and> tenant_key t' = tenant_key t then None else state_get st p' t')))
    \<and> (\<forall>v'. canonical_uuid v' \<noteq> canonical_uuid v \<longrightarrow> load_state dir' v' = load_state dir v')"
  using forget_load [OF assms] forget_other_load [OF assms] by metis

lemma forget_then_load_witness:
  "\<exists>st'. load_state [] (PStr (uuid_str 7)) = Inr st' \<and> state_get st' ''sysdig'' ''Prod'' = None"
proof -
  have "forget_external_id True (PStr (uuid_str 7)) ''sysdig'' ''Prod'' [] = Inr (None, [])"
    by (simp add: forget_external_id_def sample_load state_remove_def state_get_def empty_state_def tenants_of_def)
  from forget_then_load [OF this] show ?thesis by auto
qed

text \<open>
  C16: a durable write interrupted after any of its system calls leaves a directory from which every
  rule reads exactly what it read before the write, or exactly what it reads after it. This is about the
  order of the calls as a reader sees them; loss of power before a flush is not modelled.
\<close>

theorem write_crash_atomic:
  assumes "d \<in> set (write_durable_steps partial name node dir)"
  shows "load_state d v = load_state dir v
       \<or> load_state d v = load_state (last (write_durable_steps partial name node dir)) v"
  using assms by (rule write_steps_atomic)

lemma write_crash_atomic_witness:
  "load_state [(tmp_name ''a.json'', FFile NotJson)] (PStr (uuid_str 7)) = load_state [] (PStr (uuid_str 7))
   \<or> load_state [(tmp_name ''a.json'', FFile NotJson)] (PStr (uuid_str 7)) =
       load_state (last (write_durable_steps (FFile NotJson) ''a.json'' (FFile (JsonDoc PNone)) [])) (PStr (uuid_str 7))"
  by (rule write_crash_atomic) (simp add: write_durable_steps_def)

text \<open>
  when the scan of the directory reports nothing (and no directory is named like a shard), every
  rule's shard loads.
\<close>

theorem clean_scan_loads_every_rule:
  assumes "scan_deployment_states (Some dir) = []"
    and "\<And>n sub. (n, FDir sub) \<in> set dir \<Longrightarrow> \<not> ends_with ''.json'' (py_lower n)"
    and "canonical_uuid v = Inr c"
  shows "\<exists>st. load_state dir v = Inr st"
  using assms by (rule scan_clean_loads)

lemma clean_scan_loads_every_rule_witness:
  "\<exists>st. load_state [(''README.md'', FFile NotJson)] (PStr (uuid_str 7)) = Inr st"
proof (rule clean_scan_loads_every_rule)
  show "scan_deployment_states (Some [(''README.md'', FFile NotJson)]) = []"
    by (simp add: scan_deployment_states_def Let_def ends_with_def py_lower_def lower_char_def)
  show "canonical_uuid (PStr (uuid_str 7)) = Inr (uuid_str 7)" by (rule sample_uuid)
qed simp

end
