(* ===== verification/Deploy_Events.thy ===== *)
theory Deploy_Events
  imports Py_Prelude
begin

text \<open>
  \<open>core/deploy_events.py\<close>: how a deployer reports the rule it is sending. The stack of open
  \<open>RuleScope\<close> blocks and what a listener is told are the state; blocks nest, so leaving a
  block pops the top of the stack. Timings are not modelled, and the text of an exception
  (\<open>describe_error\<close>) is given to \<open>scope_exit\<close>.
\<close>

datatype RuleStatus = Deployed | Failed | Skipped | NotAttempted

record RuleResult =
  rr_platform :: string
  rr_tenant :: "string option"
  rr_id :: string
  rr_name :: string
  rr_status :: RuleStatus
  rr_action :: "string option"
  rr_error :: "string option"
  rr_reason :: "string option"

definition max_error_length :: nat where
  "max_error_length = 400"

text \<open>\<open>re.sub(r"\s+", " ", text)\<close>; the flag says whether the previous character was a space.\<close>

fun collapse_spaces :: "bool \<Rightarrow> string \<Rightarrow> string" where
  "collapse_spaces after [] = []"
| "collapse_spaces after (c # cs) =
     (if is_py_space c
      then (if after then collapse_spaces True cs else CHR '' '' # collapse_spaces True cs)
      else c # collapse_spaces False cs)"

text \<open>The ellipsis U+2026 is outside the characters modelled: the control character 0x85 stands for it.\<close>

definition bounded :: "string \<Rightarrow> string" where
  "bounded text =
     (let t = py_strip (collapse_spaces False text) in
      if max_error_length < length t then py_rstrip (take (max_error_length - 1) t) @ [CHR 0x85] else t)"

section \<open>One block\<close>

definition scope_fail :: "string \<Rightarrow> RuleResult \<Rightarrow> RuleResult" where
  "scope_fail error r =
     (if rr_status r \<noteq> Failed then r\<lparr>rr_status := Failed, rr_error := Some (bounded error)\<rparr> else r)"

definition scope_skip :: "string \<Rightarrow> RuleResult \<Rightarrow> RuleResult" where
  "scope_skip reason r =
     (if rr_status r \<noteq> Failed then r\<lparr>rr_status := Skipped, rr_reason := Some reason\<rparr> else r)"

section \<open>The stack of blocks and the listener\<close>

datatype deploy_event = RuleStarted RuleResult | RuleFinished RuleResult

record DeployEvents =
  de_current :: "RuleResult list"
  de_events :: "deploy_event list"

definition no_events :: DeployEvents where
  "no_events = \<lparr>de_current = [], de_events = []\<rparr>"

definition finish :: "RuleResult \<Rightarrow> DeployEvents \<Rightarrow> DeployEvents" where
  "finish r d = d\<lparr>de_events := de_events d @ [RuleFinished r]\<rparr>"

definition scope_enter :: "RuleResult \<Rightarrow> DeployEvents \<Rightarrow> DeployEvents" where
  "scope_enter r d = \<lparr>de_current = de_current d @ [r], de_events = de_events d @ [RuleStarted r]\<rparr>"

definition scope_exit :: "string option \<Rightarrow> DeployEvents \<Rightarrow> DeployEvents" where
  "scope_exit exc d =
     (if de_current d = [] then d
      else let r = last (de_current d);
               r' = (case exc of None \<Rightarrow> r | Some text \<Rightarrow> scope_fail text r)
           in finish r' (d\<lparr>de_current := butlast (de_current d)\<rparr>))"

definition deploying_result ::
  "string \<Rightarrow> string option \<Rightarrow> string \<Rightarrow> string \<Rightarrow> string option \<Rightarrow> RuleResult" where
  "deploying_result platform tenant rule_id name action =
     \<lparr>rr_platform = platform, rr_tenant = tenant, rr_id = rule_id, rr_name = name,
      rr_status = Deployed, rr_action = action, rr_error = None, rr_reason = None\<rparr>"

definition update_top :: "(RuleResult \<Rightarrow> RuleResult) \<Rightarrow> DeployEvents \<Rightarrow> DeployEvents" where
  "update_top f d =
     (if de_current d = [] then d
      else d\<lparr>de_current := butlast (de_current d) @ [f (last (de_current d))]\<rparr>)"

definition note_failure :: "string \<Rightarrow> DeployEvents \<Rightarrow> DeployEvents" where
  "note_failure message = update_top (scope_fail message)"

definition note_skip :: "string \<Rightarrow> DeployEvents \<Rightarrow> DeployEvents" where
  "note_skip reason = update_top (scope_skip reason)"

definition rule_skipped ::
  "string \<Rightarrow> string option \<Rightarrow> string \<Rightarrow> string \<Rightarrow> string \<Rightarrow> DeployEvents \<Rightarrow> DeployEvents" where
  "rule_skipped platform tenant rule_id name reason =
     finish ((deploying_result platform tenant rule_id name None)
       \<lparr>rr_status := Skipped, rr_reason := Some reason\<rparr>)"

definition rule_refused ::
  "string \<Rightarrow> string option \<Rightarrow> string \<Rightarrow> string \<Rightarrow> string \<Rightarrow> DeployEvents \<Rightarrow> DeployEvents" where
  "rule_refused platform tenant rule_id name error =
     finish ((deploying_result platform tenant rule_id name None)
       \<lparr>rr_status := Failed, rr_error := Some (bounded error)\<rparr>)"

text \<open>What a deployer does inside a block: it notes failures and skips, in any order.\<close>

datatype block_note = NoteFailure string | NoteSkip string

fun apply_note :: "block_note \<Rightarrow> DeployEvents \<Rightarrow> DeployEvents" where
  "apply_note (NoteFailure m) = note_failure m"
| "apply_note (NoteSkip m) = note_skip m"

fun note_result :: "block_note \<Rightarrow> RuleResult \<Rightarrow> RuleResult" where
  "note_result (NoteFailure m) = scope_fail m"
| "note_result (NoteSkip m) = scope_skip m"

fun failure_of :: "block_note \<Rightarrow> string option" where
  "failure_of (NoteFailure m) = Some m"
| "failure_of (NoteSkip m) = None"

definition run_block :: "RuleResult \<Rightarrow> block_note list \<Rightarrow> string option \<Rightarrow> DeployEvents \<Rightarrow> DeployEvents" where
  "run_block r msgs exc d = scope_exit exc (fold apply_note msgs (scope_enter r d))"

section \<open>Lemmas\<close>

lemma collapse_length: "length (collapse_spaces b s) \<le> length s"
  by (induction b s rule: collapse_spaces.induct) auto

lemma rstrip_length: "length (py_rstrip s) \<le> length s"
  using rstrip_prefix [of s] by (metis length_append le_add1)

lemma bounded_length: "length (bounded t) \<le> max_error_length"
proof -
  have "length (py_rstrip (take (max_error_length - 1) s)) \<le> max_error_length - 1" for s
    using rstrip_length [of "take (max_error_length - 1) s"] by simp
  then have "Suc (length (py_rstrip (take (max_error_length - 1) s))) \<le> max_error_length" for s
    by (metis Suc_diff_1 Suc_le_mono max_error_length_def zero_less_numeral)
  then show ?thesis by (auto simp: bounded_def Let_def)
qed

lemma fold_notes:
  "fold apply_note msgs (scope_enter r d) =
     \<lparr>de_current = de_current d @ [fold note_result msgs r], de_events = de_events d @ [RuleStarted r]\<rparr>"
proof (induction msgs arbitrary: r)
  case Nil
  then show ?case by (simp add: scope_enter_def)
next
  case (Cons n ns)
  have step: "apply_note n (\<lparr>de_current = c @ [q], de_events = e\<rparr>) = \<lparr>de_current = c @ [note_result n q], de_events = e\<rparr>"
    for c q e by (cases n) (simp_all add: note_failure_def note_skip_def update_top_def)
  have gen: "fold apply_note ms (\<lparr>de_current = c @ [q], de_events = e\<rparr>)
      = \<lparr>de_current = c @ [fold note_result ms q], de_events = e\<rparr>" for ms c q e
  proof (induction ms arbitrary: q)
    case (Cons m ms)
    have "apply_note m (\<lparr>de_current = c @ [q], de_events = e\<rparr>) = \<lparr>de_current = c @ [note_result m q], de_events = e\<rparr>"
      by (cases m) (simp_all add: note_failure_def note_skip_def update_top_def)
    with Cons.IH show ?case by simp
  qed simp
  show ?case by (simp add: scope_enter_def step gen)
qed

lemma fold_notes_failed: "rr_status r = Failed \<Longrightarrow> fold note_result msgs r = r"
proof (induction msgs)
  case (Cons n ns)
  then have "note_result n r = r" by (cases n) (simp_all add: scope_fail_def scope_skip_def)
  with Cons show ?case by simp
qed simp

lemma fold_notes_error:
  "rr_status r \<noteq> Failed \<Longrightarrow> rr_error r = None \<Longrightarrow>
     rr_error (fold note_result msgs r) =
       (case List.map_filter failure_of msgs of [] \<Rightarrow> None | m # _ \<Rightarrow> Some (bounded m))
   \<and> (rr_status (fold note_result msgs r) = Failed \<longleftrightarrow> List.map_filter failure_of msgs \<noteq> [])"
proof (induction msgs arbitrary: r)
  case (Cons n ns)
  show ?case
  proof (cases n)
    case (NoteFailure m)
    with Cons.prems show ?thesis
      by (simp add: scope_fail_def fold_notes_failed List.map_filter_def)
  next
    case (NoteSkip m)
    with Cons.prems Cons.IH [of "scope_skip m r"] show ?thesis
      by (simp add: scope_skip_def List.map_filter_def)
  qed
qed (simp add: List.map_filter_def)

section \<open>Properties\<close>

text \<open>
  a block reports its rule exactly once when it starts and once when it ends, restores the
  stack, and the reported row is failed exactly when a failure was noted inside it or an exception
  left it; the error kept is the first one noted, bounded to 400 characters, whatever was noted later.
\<close>

theorem block_reports_first_failure:
  "\<exists>row. run_block (deploying_result platform tenant rule name action) msgs exc d =
        \<lparr>de_current = de_current d,
         de_events = de_events d @
           [RuleStarted (deploying_result platform tenant rule name action), RuleFinished row]\<rparr>
    \<and> (let failures = List.map_filter failure_of msgs @ (case exc of None \<Rightarrow> [] | Some m \<Rightarrow> [m]) in
         (rr_status row = Failed \<longleftrightarrow> failures \<noteq> [])
       \<and> rr_error row = (case failures of [] \<Rightarrow> None | m # _ \<Rightarrow> Some (bounded m)))
    \<and> length (case rr_error row of None \<Rightarrow> [] | Some e \<Rightarrow> e) \<le> max_error_length"
proof -
  let ?r = "deploying_result platform tenant rule name action"
  let ?f = "fold note_result msgs ?r"
  let ?row = "case exc of None \<Rightarrow> ?f | Some m \<Rightarrow> scope_fail m ?f"
  have run: "run_block ?r msgs exc d =
      \<lparr>de_current = de_current d, de_events = de_events d @ [RuleStarted ?r, RuleFinished ?row]\<rparr>"
    by (simp add: run_block_def fold_notes scope_exit_def finish_def Let_def)
  have facts: "rr_error ?f = (case List.map_filter failure_of msgs of [] \<Rightarrow> None | m # _ \<Rightarrow> Some (bounded m))"
    "rr_status ?f = Failed \<longleftrightarrow> List.map_filter failure_of msgs \<noteq> []"
    using fold_notes_error [of ?r msgs] by (simp_all add: deploying_result_def)
  show ?thesis
    unfolding run using facts
    by (intro exI [of _ ?row] conjI)
      (auto simp: Let_def scope_fail_def bounded_length split: option.splits list.splits)
qed

end
