(* ===== verification/External_Ids.thy ===== *)
theory External_Ids
  imports Deploy_State Strategies Deploy_Events
begin

text \<open>
  \<open>deployment/external_ids.py\<close>: what a deployer does for one rule on one tenant before any HTTP
  call, and the two writes that follow a create and a delete. The world holds the environment
  variables the module reads and sets, the shard directory and what was reported. The text of a
  coded error is a parameter (\<open>text_of\<close>), the object index is a map, the configured statuses
  a list, and \<open>ignore\<close> the answer of \<open>deployment_state_ignore\<close> on the workspace.
\<close>

section \<open>The world\<close>

datatype log_level = LogInfo | LogWarning | LogError | LogDebug

datatype log_entry = LogCode log_level state_code string string string
  | LogIgnored string string string
  | LogRecorded string string string string
  | LogRemoved string string string
  | LogEvent log_level string string

record World =
  w_env :: environ
  w_dir :: dirlist
  w_deploy :: DeployEvents
  w_log :: "log_entry list"

definition error_flag :: string where
  "error_flag = ''DEPLOYMENT_ERROR_RAISED''"

definition warning_flag :: string where
  "warning_flag = ''DEPLOYMENT_WARNING_RAISED''"

definition persist_externally_env :: string where
  "persist_externally_env = ''OPENTIDE_PERSIST_STATE_EXTERNALLY''"

definition set_env :: "string \<Rightarrow> World \<Rightarrow> World" where
  "set_env name w = w\<lparr>w_env := (w_env w)(name \<mapsto> ''1'')\<rparr>"

definition log_line :: "log_entry \<Rightarrow> World \<Rightarrow> World" where
  "log_line l w = w\<lparr>w_log := w_log w @ [l]\<rparr>"

section \<open>Actions\<close>

datatype action_kind = Create | Update | Delete

record ExternalIdAction =
  act_kind :: action_kind
  act_id :: "string option"

definition known_id :: "ExternalIdAction \<Rightarrow> string option" where
  "known_id a = act_id a"

text \<open>A status is a strategy, or the name of a configured status.\<close>

datatype status_arg = StatusIs StatusStrategy | StatusNamed string

fun status_strategy_of :: "DeploymentStatus list \<Rightarrow> status_arg \<Rightarrow> status_error + StatusStrategy" where
  "status_strategy_of statuses (StatusIs s) = Inr s"
| "status_strategy_of statuses (StatusNamed n) = check_status statuses n"

definition raw_rule_document :: "(string \<Rightarrow> pyval option) \<Rightarrow> string \<Rightarrow> pydict option" where
  "raw_rule_document index object_uuid =
     (case index object_uuid of None \<Rightarrow> None | Some body \<Rightarrow> as_dict_val body)"

definition legacy_key_error :: "pydict option \<Rightarrow> state_code option" where
  "legacy_key_error document =
     (let legacy = (case document of None \<Rightarrow> [] | Some d \<Rightarrow> legacy_external_id_keys d) in
      if legacy = [] then None else Some External_id_in_rule)"

section \<open>Reporting\<close>

definition warning_codes :: "state_code list" where
  "warning_codes = [External_id_missing]"

definition report_failure ::
  "(state_code \<Rightarrow> string) \<Rightarrow> state_code \<Rightarrow> string \<Rightarrow> string \<Rightarrow> string \<Rightarrow> bool \<Rightarrow> World \<Rightarrow> World" where
  "report_failure text_of error object_uuid platform tenant quiet w =
     (if error \<in> set warning_codes
      then log_line (LogCode LogWarning error object_uuid platform (py_strip tenant))
             (set_env warning_flag w)
      else
        let w1 = set_env error_flag w;
            w2 = w1\<lparr>w_deploy := note_failure (text_of error) (w_deploy w1)\<rparr>
        in log_line (LogCode (if quiet then LogDebug else LogError) error object_uuid platform
             (py_strip tenant)) w2)"

text \<open>
  \<open>warn_ignored\<close> is the \<open>_warn\<close> of \<open>plan_external_id\<close>; the \<open>quiet\<close> argument
  above is \<open>reported and not is_json_output()\<close>.
\<close>

definition warn_ignored :: "string \<Rightarrow> string \<Rightarrow> string \<Rightarrow> World \<Rightarrow> World" where
  "warn_ignored object_uuid platform tenant w =
     log_line (LogIgnored object_uuid platform tenant) (set_env warning_flag w)"

record RuleRef =
  ref_uuid :: string
  ref_name :: string

definition without_legacy_external_ids ::
  "(state_code \<Rightarrow> string) \<Rightarrow> (string \<Rightarrow> pyval option) \<Rightarrow> 'r RuleRef_scheme list \<Rightarrow> string \<Rightarrow> World
    \<Rightarrow> 'r RuleRef_scheme list \<times> World" where
  "without_legacy_external_ids text_of index rules platform w =
     foldl (\<lambda>(kept, w) rule.
       case legacy_key_error (raw_rule_document index (ref_uuid rule)) of
         None \<Rightarrow> (kept @ [rule], w)
       | Some e \<Rightarrow> (kept, report_failure text_of e (ref_uuid rule) platform [] False w))
     ([], w) rules"

section \<open>Planning\<close>

definition unpersisted_error :: "environ \<Rightarrow> RunStrategies option \<Rightarrow> state_code option" where
  "unpersisted_error env strategies =
     (if env_set env persist_externally_env then None
      else
        let environment = check_ci_environment env in
        if environment = LocalDebug then None
        else
          let run = (case strategies of None \<Rightarrow> [] | Some s \<Rightarrow> s) in
          if RELEASE \<in> set run \<and> \<not> is_change_request env environment then None
          else Some Deployment_state_unpersisted)"

datatype plan_error = StateRefused state_code | StatusRefused status_error

definition plan_external_id ::
  "DeploymentStatus list \<Rightarrow> (string \<Rightarrow> pyval option) \<Rightarrow> IgnoreRule option \<Rightarrow> RunStrategies option
    \<Rightarrow> string \<Rightarrow> string \<Rightarrow> string \<Rightarrow> status_arg \<Rightarrow> pydict option \<Rightarrow> World
    \<Rightarrow> (plan_error + ExternalIdAction) \<times> World" where
  "plan_external_id statuses index ignore strategies object_uuid platform tenant status raw_rule w =
     (let document = (case raw_rule of Some d \<Rightarrow> Some d | None \<Rightarrow> raw_rule_document index object_uuid) in
      case legacy_key_error document of
        Some e \<Rightarrow> (Inl (StateRefused e), w)
      | None \<Rightarrow>
        (case load_state (w_dir w) (PStr object_uuid) of
           Inl e \<Rightarrow> (Inl (StateRefused e), w)
         | Inr state \<Rightarrow>
           (case status_strategy_of statuses status of
              Inl e \<Rightarrow> (Inl (StatusRefused e), w)
            | Inr strategy \<Rightarrow>
              (case state_get state platform tenant of
                 Some external_id \<Rightarrow>
                   (let w' = (if ignore = None then w else warn_ignored object_uuid platform tenant w) in
                    if strategy = DELETION
                    then (Inr \<lparr>act_kind = Delete, act_id = Some external_id\<rparr>, w')
                    else (Inr \<lparr>act_kind = Update, act_id = Some external_id\<rparr>, w'))
               | None \<Rightarrow>
                   if strategy \<in> {DELETION, DISABLEMENT} then (Inl (StateRefused External_id_missing), w)
                   else if ignore \<noteq> None then (Inl (StateRefused Deployment_state_ignored), w)
                   else (case unpersisted_error (w_env w) strategies of
                           Some e \<Rightarrow> (Inl (StateRefused e), w)
                         | None \<Rightarrow> (Inr \<lparr>act_kind = Create, act_id = None\<rparr>, w))))))"

definition record_created ::
  "bool \<Rightarrow> string \<Rightarrow> string \<Rightarrow> string \<Rightarrow> pyval \<Rightarrow> World \<Rightarrow> (state_code + string) \<times> World" where
  "record_created wr object_uuid platform tenant external_id w =
     (case record_external_id wr (PStr object_uuid) platform tenant external_id (w_dir w) of
        Inl _ \<Rightarrow> (Inl Deployment_state_write_failed, w)
      | Inr (stored, dir') \<Rightarrow>
          (Inr stored,
           log_line (LogRecorded object_uuid platform (py_strip tenant) stored) (w\<lparr>w_dir := dir'\<rparr>)))"

definition record_deleted ::
  "bool \<Rightarrow> string \<Rightarrow> string \<Rightarrow> string \<Rightarrow> World \<Rightarrow> (state_code + unit) \<times> World" where
  "record_deleted wr object_uuid platform tenant w =
     (case forget_external_id wr (PStr object_uuid) platform tenant (w_dir w) of
        Inl _ \<Rightarrow> (Inl Deployment_state_write_failed, w)
      | Inr (_, dir') \<Rightarrow>
          (Inr (), log_line (LogRemoved object_uuid platform (py_strip tenant)) (w\<lparr>w_dir := dir'\<rparr>)))"

text \<open>
  Screening one tenant: a coded refusal is reported and the rule dropped; the exception of an
  unknown status ends the loop.
\<close>

definition refuse_rule ::
  "(state_code \<Rightarrow> string) \<Rightarrow> state_code \<Rightarrow> string \<Rightarrow> string \<Rightarrow> 'r RuleRef_scheme \<Rightarrow> World \<Rightarrow> World" where
  "refuse_rule text_of error platform tenant rule w =
     (let w1 = report_failure text_of error (ref_uuid rule) platform tenant False w;
          name = (if ref_name rule \<noteq> [] then ref_name rule else ref_uuid rule)
      in if error \<in> set warning_codes
         then w1\<lparr>w_deploy := rule_skipped platform (Some tenant) (ref_uuid rule) name
                  (text_of error) (w_deploy w1)\<rparr>
         else w1\<lparr>w_deploy := rule_refused platform (Some tenant) (ref_uuid rule) name
                  (text_of error) (w_deploy w1)\<rparr>)"

fun screen_tenant ::
  "(state_code \<Rightarrow> string) \<Rightarrow> DeploymentStatus list \<Rightarrow> (string \<Rightarrow> pyval option) \<Rightarrow> IgnoreRule option
    \<Rightarrow> RunStrategies option \<Rightarrow> string \<Rightarrow> string \<Rightarrow> ('r RuleRef_scheme \<Rightarrow> status_arg) \<Rightarrow> 'r RuleRef_scheme list
    \<Rightarrow> ('r RuleRef_scheme \<times> ExternalIdAction) list \<Rightarrow> World
    \<Rightarrow> (status_error + ('r RuleRef_scheme \<times> ExternalIdAction) list) \<times> World" where
  "screen_tenant text_of statuses index ignore strategies platform tenant status_of [] planned w =
     (Inr planned, w)"
| "screen_tenant text_of statuses index ignore strategies platform tenant status_of (rule # rules) planned w =
     (case plan_external_id statuses index ignore strategies (ref_uuid rule) platform tenant
             (status_of rule) None w of
        (Inl (StateRefused e), w') \<Rightarrow>
          screen_tenant text_of statuses index ignore strategies platform tenant status_of rules planned
            (refuse_rule text_of e platform tenant rule w')
      | (Inl (StatusRefused e), w') \<Rightarrow> (Inl e, w')
      | (Inr action, w') \<Rightarrow>
          screen_tenant text_of statuses index ignore strategies platform tenant status_of rules
            (planned @ [(rule, action)]) w')"

section \<open>Lemmas\<close>

lemma world_simps [simp]:
  "w_dir (log_line l w) = w_dir w" "w_dir (set_env n w) = w_dir w"
  "w_dir (warn_ignored u p t w) = w_dir w" "w_dir (report_failure text_of e u p t q w) = w_dir w"
  "w_dir (refuse_rule text_of e p t r w) = w_dir w"
  "w_env (log_line l w) = w_env w" "w_env (set_env n w) = (w_env w)(n \<mapsto> ''1'')"
  by (simp_all add: log_line_def set_env_def warn_ignored_def report_failure_def refuse_rule_def Let_def)

text \<open>Planning never touches the shards, and sets no variable but the warning flag.\<close>

lemma plan_dir: "w_dir (snd (plan_external_id statuses index ignore strategies u p t status raw w)) = w_dir w"
  by (auto simp: plan_external_id_def Let_def split: option.splits sum.splits)

lemma plan_env:
  "w_env (snd (plan_external_id statuses index ignore strategies u p t status raw w)) = w_env w
 \<or> w_env (snd (plan_external_id statuses index ignore strategies u p t status raw w)) = (w_env w)(warning_flag \<mapsto> ''1'')"
  by (auto simp: plan_external_id_def Let_def warn_ignored_def split: option.splits sum.splits)

lemma persist_env_flags: "persist_externally_env \<noteq> warning_flag" "persist_externally_env \<noteq> error_flag"
  "error_flag \<noteq> warning_flag"
  by (simp_all add: persist_externally_env_def warning_flag_def error_flag_def)

abbreviation the_document ::
  "(string \<Rightarrow> pyval option) \<Rightarrow> string \<Rightarrow> pydict option \<Rightarrow> pydict option" where
  "the_document index u raw \<equiv> (case raw of Some d \<Rightarrow> Some d | None \<Rightarrow> raw_rule_document index u)"

lemma plan_entry:
  assumes "legacy_key_error (the_document index u raw) = None"
    and "load_state (w_dir w) (PStr u) = Inr st" and "state_get st p t = Some ext"
    and "status_strategy_of statuses status = Inr strategy"
  shows "fst (plan_external_id statuses index ignore strategies u p t status raw w) =
    Inr \<lparr>act_kind = (if strategy = DELETION then Delete else Update), act_id = Some ext\<rparr>"
  using assms by (auto simp: plan_external_id_def Let_def)

lemma plan_no_entry:
  assumes "load_state (w_dir w) (PStr u) = Inr st" and "state_get st p t = None"
    and "fst (plan_external_id statuses index ignore strategies u p t status raw w) = Inr a"
  shows "a = \<lparr>act_kind = Create, act_id = None\<rparr>"
  using assms by (auto simp: plan_external_id_def Let_def split: option.splits sum.splits if_splits)

lemma plan_no_entry_exists:
  assumes "load_state (w_dir w) (PStr u) = Inr st" and "state_get st p t = Some ext"
    and "fst (plan_external_id statuses index ignore strategies u p t status raw w) = Inr a"
  shows "act_kind a \<noteq> Create \<and> act_id a = Some ext"
  using assms by (auto simp: plan_external_id_def Let_def split: option.splits sum.splits if_splits)

text \<open>The plan reads the shards and the environment except the two flags.\<close>

definition same_inputs :: "World \<Rightarrow> World \<Rightarrow> bool" where
  "same_inputs w w' \<longleftrightarrow> w_dir w' = w_dir w
     \<and> (\<forall>n. n \<noteq> error_flag \<longrightarrow> n \<noteq> warning_flag \<longrightarrow> w_env w' n = w_env w n)"

lemma same_inputs_refl [simp]: "same_inputs w w"
  by (simp add: same_inputs_def)

lemma same_inputs_trans: "same_inputs w w' \<Longrightarrow> same_inputs w' w'' \<Longrightarrow> same_inputs w w''"
  by (simp add: same_inputs_def)

lemma unpersisted_error_cong:
  assumes "\<And>n. n \<noteq> error_flag \<Longrightarrow> n \<noteq> warning_flag \<Longrightarrow> env' n = env n"
  shows "unpersisted_error env' strategies = unpersisted_error env strategies"
proof -
  have "env' n = env n" if "n \<in> {persist_externally_env, ''TF_BUILD'', ''GITHUB_ACTIONS'', ''CI'',
      ''BUILD_REASON'', ''GITHUB_EVENT_NAME'', ''CI_PIPELINE_SOURCE''}" for n
    using that by (intro assms) (auto simp: persist_externally_env_def error_flag_def warning_flag_def)
  moreover from this have "is_change_request env' e = is_change_request env e" for e
    by (cases e) (simp_all add: is_change_request_def)
  ultimately show ?thesis
    by (simp add: unpersisted_error_def check_ci_environment_def env_set_def)
qed

lemma plan_cong:
  assumes "same_inputs w w'"
  shows "fst (plan_external_id statuses index ignore strategies u p t status raw w')
       = fst (plan_external_id statuses index ignore strategies u p t status raw w)"
proof -
  have "w_dir w' = w_dir w" and "unpersisted_error (w_env w') strategies = unpersisted_error (w_env w) strategies"
    using assms unpersisted_error_cong [of "w_env w'" "w_env w"] by (auto simp: same_inputs_def)
  then show ?thesis
    by (auto simp: plan_external_id_def Let_def split: option.split sum.split)
qed

lemma plan_inputs: "same_inputs w (snd (plan_external_id statuses index ignore strategies u p t status raw w))"
  and plan_error_flag: "w_env (snd (plan_external_id statuses index ignore strategies u p t status raw w)) error_flag
      = w_env w error_flag"
  using plan_dir [of statuses index ignore strategies u p t status raw w]
    plan_env [of statuses index ignore strategies u p t status raw w] persist_env_flags
  by (auto simp: same_inputs_def)

lemma refuse_env:
  "w_env (refuse_rule text_of e p t r w) =
     (w_env w)((if e \<in> set warning_codes then warning_flag else error_flag) \<mapsto> ''1'')"
  by (simp add: refuse_rule_def report_failure_def log_line_def set_env_def Let_def)

lemma refuse_inputs: "same_inputs w (refuse_rule text_of e p t r w)"
  by (simp add: same_inputs_def refuse_env)

definition rule_plan ::
  "DeploymentStatus list \<Rightarrow> (string \<Rightarrow> pyval option) \<Rightarrow> IgnoreRule option \<Rightarrow> RunStrategies option
    \<Rightarrow> string \<Rightarrow> string \<Rightarrow> ('r RuleRef_scheme \<Rightarrow> status_arg) \<Rightarrow> World \<Rightarrow> 'r RuleRef_scheme
    \<Rightarrow> plan_error + ExternalIdAction" where
  "rule_plan statuses index ignore strategies platform tenant status_of w r =
     fst (plan_external_id statuses index ignore strategies (ref_uuid r) platform tenant (status_of r) None w)"

definition refused_as_error :: "plan_error + ExternalIdAction \<Rightarrow> bool" where
  "refused_as_error res = (case res of Inl (StateRefused e) \<Rightarrow> e \<notin> set warning_codes | _ \<Rightarrow> False)"

lemma rule_plan_cong:
  "same_inputs w w' \<Longrightarrow> rule_plan statuses index ignore strategies platform tenant status_of w'
     = rule_plan statuses index ignore strategies platform tenant status_of w"
  by (rule ext) (simp add: rule_plan_def plan_cong)

lemma screen_tenant_Inr:
  assumes "screen_tenant text_of statuses index ignore strategies platform tenant status_of rules planned w
      = (Inr result, w')"
  shows "same_inputs w w'
    \<and> result = planned @ concat (map (\<lambda>r. case rule_plan statuses index ignore strategies platform tenant status_of w r of
          Inr a \<Rightarrow> [(r, a)] | Inl _ \<Rightarrow> []) rules)
    \<and> w_env w' error_flag =
        (if list_ex (\<lambda>r. refused_as_error (rule_plan statuses index ignore strategies platform tenant status_of w r)) rules
         then Some ''1'' else w_env w error_flag)"
  using assms
proof (induction rules arbitrary: planned w)
  case Nil
  then show ?case by simp
next
  case (Cons r rules)
  let ?plan = "plan_external_id statuses index ignore strategies (ref_uuid r) platform tenant (status_of r) None w"
  let ?w1 = "snd ?plan"
  have one: "fst ?plan = rule_plan statuses index ignore strategies platform tenant status_of w r"
    by (simp add: rule_plan_def)
  have in1: "same_inputs w ?w1" by (rule plan_inputs)
  have flag1: "w_env ?w1 error_flag = w_env w error_flag" by (rule plan_error_flag)
  consider (refused) e where "fst ?plan = Inl (StateRefused e)" | (planned) a where "fst ?plan = Inr a"
    using Cons.prems by (cases ?plan) (auto split: sum.splits plan_error.splits)
  then show ?case
  proof cases
    case refused
    let ?w2 = "refuse_rule text_of e platform tenant r ?w1"
    have in2: "same_inputs w ?w2" by (rule same_inputs_trans [OF in1 refuse_inputs])
    have "screen_tenant text_of statuses index ignore strategies platform tenant status_of rules planned ?w2
        = (Inr result, w')"
      using Cons.prems refused by (cases ?plan) auto
    from Cons.IH [OF this] in2 show ?thesis
      using refused one flag1 rule_plan_cong [OF in2, where status_of = status_of] persist_env_flags
      by (auto simp: refused_as_error_def refuse_env intro: same_inputs_trans)
  next
    case planned
    have "screen_tenant text_of statuses index ignore strategies platform tenant status_of rules (planned @ [(r, a)]) ?w1
        = (Inr result, w')"
      using Cons.prems planned by (cases ?plan) auto
    from Cons.IH [OF this] in1 show ?thesis
      using planned one flag1 rule_plan_cong [OF in1, where status_of = status_of]
      by (auto simp: refused_as_error_def intro: same_inputs_trans)
  qed
qed

lemma record_created_Inr:
  "record_created wr u p t ext w = (Inr stored, w') \<Longrightarrow>
     record_external_id wr (PStr u) p t ext (w_dir w) = Inr (stored, w_dir w')"
  by (auto simp: record_created_def split: sum.splits)

lemma record_deleted_Inr:
  assumes "record_deleted wr u p t w = (Inr x, w')"
  obtains removed where "forget_external_id wr (PStr u) p t (w_dir w) = Inr (removed, w_dir w')"
  using assms by (auto simp: record_deleted_def split: sum.splits)

section \<open>Properties\<close>

definition sample_world :: World where
  "sample_world = \<lparr>w_env = Map.empty, w_dir = [], w_deploy = no_events, w_log = []\<rparr>"

text \<open>
  a create is planned exactly when the rule carries no legacy id, its shard loads with no entry
  for the tenant, its status does not retire it, git does not ignore the shards, and the run can keep
  the new id (local, persisted externally, or a RELEASE run on a push); an update or a delete exactly
  when the shard has an entry, and it carries that id. In particular nothing is refused for a
  recorded rule but a legacy key.
\<close>

theorem plan_external_id_table:
  "fst (plan_external_id statuses index ignore strategies u p t status raw w) = Inr action \<longleftrightarrow>
     legacy_key_error (the_document index u raw) = None
   \<and> (\<exists>st strategy. load_state (w_dir w) (PStr u) = Inr st
       \<and> status_strategy_of statuses status = Inr strategy
       \<and> (case state_get st p t of
            Some ext \<Rightarrow> action = \<lparr>act_kind = (if strategy = DELETION then Delete else Update), act_id = Some ext\<rparr>
          | None \<Rightarrow> action = \<lparr>act_kind = Create, act_id = None\<rparr>
              \<and> strategy \<noteq> DELETION \<and> strategy \<noteq> DISABLEMENT \<and> ignore = None
              \<and> (env_set (w_env w) persist_externally_env
                 \<or> check_ci_environment (w_env w) = LocalDebug
                 \<or> (\<exists>run. strategies = Some run \<and> RELEASE \<in> set run
                     \<and> is_change_request (w_env w) (check_ci_environment (w_env w)) = False))))"
  by (auto simp: plan_external_id_def unpersisted_error_def Let_def
      split: option.splits sum.splits if_splits)

text \<open>
  C1: once a create has been recorded, no later plan for that rule, platform and tenant is a create:
  while the shards are unchanged every plan that is not refused acts on the recorded id, whatever the
  status, the run and the environment are by then.
\<close>

theorem no_second_create:
  assumes "record_created wr u p t ext w = (Inr stored, w')"
    and "w_dir w'' = w_dir w'" and "tenant_key t' = tenant_key t"
    and "fst (plan_external_id statuses index ignore strategies u p t' status raw w'') = Inr action"
  shows "act_kind action \<noteq> Create \<and> act_id action = Some stored"
proof -
  obtain st st' where "load_state (w_dir w'') (PStr u) = Inr st'" "state_get st' p t' = Some stored"
    using record_load [OF record_created_Inr [OF assms(1)]] assms(2,3) by metis
  then show ?thesis using plan_no_entry_exists assms(4) by metis
qed

lemma no_second_create_witness:
  "\<exists>stored w'. record_created True (uuid_str 7) ''crowdstrike'' ''Prod'' (PStr ''ab12'') sample_world = (Inr stored, w')
     \<and> (\<exists>action. fst (plan_external_id [] Map.empty None (Some [RELEASE]) (uuid_str 7) ''crowdstrike'' ''Prod''
          (StatusIs RELEASE) None w') = Inr action \<and> act_kind action \<noteq> Create \<and> act_id action = Some stored)"
proof -
  obtain dir' where rec: "record_external_id True (PStr (uuid_str 7)) ''crowdstrike'' ''Prod'' (PStr ''ab12'') []
    = Inr (''ab12'', dir')" by (rule sample_record)
  then obtain w' where w': "record_created True (uuid_str 7) ''crowdstrike'' ''Prod'' (PStr ''ab12'') sample_world
      = (Inr ''ab12'', w')" "w_dir w' = dir'"
    by (auto simp: record_created_def sample_world_def)
  obtain st where "load_state (w_dir w') (PStr (uuid_str 7)) = Inr st"
    "state_get st ''crowdstrike'' ''Prod'' = Some ''ab12''"
    using record_load [OF rec] w'(2) by metis
  then have "fst (plan_external_id [] Map.empty None (Some [RELEASE]) (uuid_str 7) ''crowdstrike'' ''Prod''
      (StatusIs RELEASE) None w') = Inr \<lparr>act_kind = Update, act_id = Some ''ab12''\<rparr>"
    by (subst plan_entry) (auto simp: raw_rule_document_def legacy_key_error_def)
  with no_second_create [OF w'(1) refl refl this] w'(1) show ?thesis by blast
qed

text \<open>
  once a delete has been recorded, no later plan for that rule, platform and tenant updates or
  deletes: a plan that is not refused is a create.
\<close>

theorem no_update_after_delete:
  assumes "record_deleted wr u p t w = (Inr x, w')"
    and "w_dir w'' = w_dir w'" and "tenant_key t' = tenant_key t"
    and "fst (plan_external_id statuses index ignore strategies u p t' status raw w'') = Inr action"
  shows "action = \<lparr>act_kind = Create, act_id = None\<rparr>"
proof -
  obtain removed where "forget_external_id wr (PStr u) p t (w_dir w) = Inr (removed, w_dir w')"
    using assms(1) by (rule record_deleted_Inr)
  from forget_load [OF this] obtain st' where "load_state (w_dir w'') (PStr u) = Inr st'"
    "state_get st' p t' = None"
    using assms(2,3) by metis
  then show ?thesis using plan_no_entry assms(4) by metis
qed

lemma no_update_after_delete_witness:
  "fst (plan_external_id [] Map.empty None None (uuid_str 7) ''sysdig'' ''Prod'' (StatusIs RELEASE) None sample_world)
    = Inr \<lparr>act_kind = Create, act_id = None\<rparr>"
proof -
  have get: "state_get (empty_state n u) q t = None" for n u q t
    by (simp add: state_get_def empty_state_def tenants_of_def)
  have del: "record_deleted True (uuid_str 7) ''sysdig'' ''Prod'' sample_world =
      (Inr (), log_line (LogRemoved (uuid_str 7) ''sysdig'' (py_strip ''Prod'')) (sample_world\<lparr>w_dir := []\<rparr>))"
    by (simp add: record_deleted_def forget_external_id_def sample_world_def sample_load state_remove_def get)
  have plan: "\<exists>action. fst (plan_external_id [] Map.empty None None (uuid_str 7) ''sysdig'' ''Prod'' (StatusIs RELEASE)
      None sample_world) = Inr action"
    by (simp add: plan_external_id_def raw_rule_document_def legacy_key_error_def sample_world_def sample_load get
        unpersisted_error_def env_set_def check_ci_environment_def)
  then obtain action where "fst (plan_external_id [] Map.empty None None (uuid_str 7) ''sysdig'' ''Prod''
      (StatusIs RELEASE) None sample_world) = Inr action" by blast
  with no_update_after_delete [OF del _ refl this] show ?thesis by (simp add: sample_world_def)
qed

text \<open>
  screening a tenant keeps, in order, exactly the rules that plan alone, each with the action it
  plans alone (one rule's refusal never changes another's plan), writes no shard, and raises the
  error flag exactly when some rule is refused with a code that is not a warning.
\<close>

theorem screen_tenant_spec:
  assumes "screen_tenant text_of statuses index ignore strategies platform tenant status_of rules [] w
      = (Inr planned, w')"
  shows "planned = concat (map (\<lambda>r. case rule_plan statuses index ignore strategies platform tenant status_of w r of
          Inr a \<Rightarrow> [(r, a)] | Inl _ \<Rightarrow> []) rules)
    \<and> w_dir w' = w_dir w
    \<and> w_env w' error_flag =
        (if list_ex (\<lambda>r. refused_as_error (rule_plan statuses index ignore strategies platform tenant status_of w r)) rules
         then Some ''1'' else w_env w error_flag)"
  using screen_tenant_Inr [OF assms] by (simp add: same_inputs_def)

lemma screen_tenant_spec_witness:
  "w_env (snd (screen_tenant (\<lambda>_. []) [] Map.empty None None ''sysdig'' ''Prod'' (\<lambda>_. StatusIs DELETION)
     [\<lparr>ref_uuid = uuid_str 7, ref_name = ''Rule''\<rparr>] [] sample_world)) error_flag = None"
proof -
  have get: "state_get (empty_state n u) q t = None" for n u q t
    by (simp add: state_get_def empty_state_def tenants_of_def)
  have plan: "plan_external_id [] Map.empty None None (uuid_str 7) ''sysdig'' ''Prod'' (StatusIs DELETION)
      None sample_world = (Inl (StateRefused External_id_missing), sample_world)"
    by (simp add: plan_external_id_def raw_rule_document_def legacy_key_error_def sample_world_def sample_load get)
  then have "\<exists>w'. screen_tenant (\<lambda>_. []) [] Map.empty None None ''sysdig'' ''Prod'' (\<lambda>_. StatusIs DELETION)
     [\<lparr>ref_uuid = uuid_str 7, ref_name = ''Rule''\<rparr>] [] sample_world = (Inr [], w')"
    by simp
  then obtain w' where w': "screen_tenant (\<lambda>_. []) [] Map.empty None None ''sysdig'' ''Prod'' (\<lambda>_. StatusIs DELETION)
     [\<lparr>ref_uuid = uuid_str 7, ref_name = ''Rule''\<rparr>] [] sample_world = (Inr [], w')" by blast
  from screen_tenant_spec [OF this] w' plan show ?thesis
    by (simp add: rule_plan_def refused_as_error_def warning_codes_def sample_world_def)
qed

end
