(* ===== verification/Deploy_Plan.thy ===== *)
theory Deploy_Plan
  imports External_Ids
begin

text \<open>
  Which rules a run deploys on which platform: \<open>make_deploy_plan\<close> of
  \<open>deployment/utils.py\<close>, the enabled platforms of \<open>platforms/enabled.py\<close> and the
  readers of \<open>core/object_refs.py\<close>. The rule files of the run and what loading one gives are
  parameters; the plan is a dictionary from platform to rule uuids.
\<close>

section \<open>Enabled platforms\<close>

definition system_keys :: "string list" where
  "system_keys =
     [''sentinel'', ''defender_for_endpoint'', ''splunk'', ''sentinel_one'', ''crowdstrike'',
      ''harfanglab'', ''carbon_black_cloud'', ''elastic'', ''sysdig'']"

text \<open>\<open>systems\<close> is the merged configuration; a truthy entry that is not a table has no \<open>get\<close>.\<close>

definition enabled_systems :: "pydict \<Rightarrow> unit + string list" where
  "enabled_systems systems =
     rfold (\<lambda>enabled system.
       let config = dget_none systems system in
       if \<not> truthy config then Inr enabled
       else case as_dict_val config of
           None \<Rightarrow> Inl ()
         | Some c \<Rightarrow>
             (case dget_dict c ''platform'' of
                Some block \<Rightarrow>
                  Inr (if dget block ''enabled'' = Some (PBool True) then enabled @ [system] else enabled)
              | None \<Rightarrow> Inr enabled))
     [] system_keys"

definition enable_platform_command :: "string \<Rightarrow> string" where
  "enable_platform_command system =
     ''opentide setup platforms --'' @ map (\<lambda>c. if c = CHR ''_'' then CHR ''-'' else c) system"

text \<open>\<open>similar\<close> is whether \<open>difflib\<close> rates the lowered key at 0.75 or more against \<open>enabled\<close>.\<close>

definition misspelled_enabled_key :: "(string \<Rightarrow> bool) \<Rightarrow> pydict \<Rightarrow> string \<Rightarrow> unit + (string \<times> string) option" where
  "misspelled_enabled_key similar systems system =
     (let config = dget_none systems system in
      case (if truthy config then as_dict_val config else Some []) of
        None \<Rightarrow> Inl ()
      | Some c \<Rightarrow>
          (case dget_dict c ''platform'' of
             None \<Rightarrow> Inr None
           | Some block \<Rightarrow> Inr (map_option (\<lambda>(key, _). (''platform'', py_str key))
               (List.find (\<lambda>(key, _). key \<noteq> PStr ''enabled''
                  \<and> (py_lower (py_str key) = ''enabled'' \<or> similar (py_lower (py_str key)))) block))))"

definition systems_without_tenants :: "pydict \<Rightarrow> string list \<Rightarrow> unit + string list" where
  "systems_without_tenants configs systems =
     rfold (\<lambda>missing system.
       let config = dget_none configs system in
       case (if truthy config then as_dict_val config else Some []) of
         None \<Rightarrow> Inl ()
       | Some c \<Rightarrow>
           (case as_list_val (dget_none c ''tenants'') of
              Some tenants \<Rightarrow>
                Inr (if list_ex (\<lambda>t. as_dict_val t \<noteq> None) tenants then missing else missing @ [system])
            | None \<Rightarrow> Inr (missing @ [system])))
     [] systems"

section \<open>Reading one rule file\<close>

definition object_uuid :: "pydict \<Rightarrow> string option" where
  "object_uuid body =
     (if truthy (dget_none body ''uuid'') then Some (py_str (dget_none body ''uuid''))
      else case dget_dict body ''metadata'' of
          Some metadata \<Rightarrow>
            if truthy (dget_none metadata ''uuid'') then Some (py_str (dget_none metadata ''uuid'')) else None
        | None \<Rightarrow> None)"

definition object_name :: "pydict \<Rightarrow> string option" where
  "object_name body =
     (let top = (if truthy (dget_none body ''name'') then Some (py_str (dget_none body ''name'')) else None) in
      case dget_dict body ''metadata'' of
        Some metadata \<Rightarrow>
          if truthy (dget_none metadata ''name'') then Some (py_str (dget_none metadata ''name'')) else top
      | None \<Rightarrow> top)"

fun root_mapping_problem :: "pyval \<Rightarrow> string option" where
  "root_mapping_problem (PDict d) = None"
| "root_mapping_problem v =
     Some (''expected a mapping at the top of the file, found '' @
       (case v of PNone \<Rightarrow> ''an empty file'' | PList _ \<Rightarrow> ''a list'' | PStr _ \<Rightarrow> ''a string''
        | _ \<Rightarrow> ''a single value''))"

definition platform_status :: "pyval \<Rightarrow> string option" where
  "platform_status block =
     (case as_dict_val block of
        None \<Rightarrow> None
      | Some b \<Rightarrow>
          if truthy (dget_none b ''status'') then Some (py_str (dget_none b ''status'')) else None)"

section \<open>The plan\<close>

text \<open>
  The exceptions: a file that does not load or is not a mapping, a missing name or uuid
  (\<open>KeyError\<close>), \<open>configurations\<close> that is not a mapping, a block without a status, a
  platform key that is not a string, a status that does not resolve, and the refusal of every rule.
\<close>

datatype deploy_error =
    RuleUnreadable string
  | ObjectFileError string string
  | MissingName string
  | MissingUuid string
  | BadConfigurations string
  | PlatformStatusMissing string string
  | BadPlatformKey string
  | BadStatus status_error
  | ExternalIdInRuleError "string list"

record RuleScope =
  scope_files :: "string list"
  scope_nested :: "string list"

record SkippedBlock =
  sk_rule :: string
  sk_uuid :: string
  sk_platform :: string
  sk_status :: string
  sk_strategy :: StatusStrategy

record RunOptions =
  ro_strategies :: RunStrategies
  ro_wide :: bool
  ro_keep_deprecated :: bool
  ro_statuses :: "DeploymentStatus list"
  ro_systems :: "string list"

definition deprecated_statuses :: "StatusStrategy list" where
  "deprecated_statuses = [DELETION, DISABLEMENT]"

text \<open>One platform block of a rule: the platforms selected so far, and the blocks skipped.\<close>

definition plan_block ::
  "RunOptions \<Rightarrow> string \<Rightarrow> string \<Rightarrow> string list \<times> SkippedBlock list \<Rightarrow> pyval \<times> pyval
    \<Rightarrow> deploy_error + (string list \<times> SkippedBlock list)" where
  "plan_block opts name uuid = (\<lambda>(selected, skipped) (key, block).
     case platform_status block of
       None \<Rightarrow> Inl (PlatformStatusMissing uuid (py_str key))
     | Some status \<Rightarrow>
         (case as_str_val key of
            None \<Rightarrow> Inl (BadPlatformKey uuid)
          | Some system \<Rightarrow>
              if system \<notin> set (ro_systems opts) then Inr (selected, skipped)
              else case check_status (ro_statuses opts) status of
                  Inl e \<Rightarrow> Inl (BadStatus e)
                | Inr strategy \<Rightarrow>
                    if \<not> ro_keep_deprecated opts \<and> strategy \<in> set deprecated_statuses
                    then Inr (selected, skipped)
                    else if ro_wide opts then Inr (selected @ [system], skipped)
                    else if list_ex (deploys strategy) (ro_strategies opts)
                    then Inr (selected @ [system], skipped)
                    else Inr (selected, skipped @
                      [\<lparr>sk_rule = name, sk_uuid = uuid, sk_platform = system, sk_status = status,
                        sk_strategy = strategy\<rparr>])))"

text \<open>What the loop reads of a loaded file: its name, its uuid and its platform blocks.\<close>

definition read_rule :: "string \<Rightarrow> pyval \<Rightarrow> deploy_error + (pydict \<times> string \<times> string \<times> pydict)" where
  "read_rule path data =
     (case data of
        PDict d \<Rightarrow>
          (case dget d ''name'' of
             None \<Rightarrow> Inl (MissingName path)
           | Some name \<Rightarrow>
               (case object_uuid d of
                  None \<Rightarrow> Inl (MissingUuid path)
                | Some uuid \<Rightarrow>
                    if \<not> truthy (dget_none d ''configurations'') then Inr (d, py_str name, uuid, [])
                    else case dget_dict d ''configurations'' of
                        None \<Rightarrow> Inl (BadConfigurations path)
                      | Some conf \<Rightarrow> Inr (d, py_str name, uuid, conf)))
      | _ \<Rightarrow> Inl (ObjectFileError path (the (root_mapping_problem data))))"

definition plan_rule ::
  "RunOptions \<Rightarrow> string \<Rightarrow> pyval \<Rightarrow> deploy_error + (pydict \<times> string \<times> string list \<times> SkippedBlock list)" where
  "plan_rule opts path data =
     rbind (read_rule path data) (\<lambda>(d, name, uuid, conf).
       rbind (rfold (plan_block opts name uuid) ([], []) conf) (\<lambda>(selected, skipped).
         Inr (d, uuid, selected, skipped)))"

section \<open>Warnings\<close>

definition nested_rules_issue :: string where
  "nested_rules_issue = ''https://github.com/opentidehq/opentide/issues/312''"

definition nested_rules_shown :: nat where
  "nested_rules_shown = 5"

definition nested_rules_warning :: "string \<Rightarrow> string list \<Rightarrow> string" where
  "nested_rules_warning folder nested =
     (let names = str_join '', '' (take nested_rules_shown nested)
            @ (if nested_rules_shown < length nested
               then '', +'' @ nat_str (length nested - nested_rules_shown) @ '' more'' else [])
      in nat_str (length nested) @ '' rule file(s) in subfolders of '' @ folder
         @ '' are not deployed (deploy reads only files directly in '' @ folder @ ''; see ''
         @ nested_rules_issue @ ''): '' @ names)"

text \<open>\<open>_refuse_external_ids\<close>; \<open>warnings\<close> is the caller's list, \<open>json\<close> JSON output.\<close>

definition refuse_external_ids ::
  "(state_code \<Rightarrow> string) \<Rightarrow> bool \<Rightarrow> pydict \<Rightarrow> string \<Rightarrow> string \<Rightarrow> string list option \<times> World
    \<Rightarrow> bool \<times> string list option \<times> World" where
  "refuse_external_ids text_of json data path uuid = (\<lambda>(warnings, w).
     case legacy_key_error (Some data) of
       None \<Rightarrow> (False, warnings, w)
     | Some e \<Rightarrow>
         (True,
          map_option (\<lambda>ws. ws @ [text_of e @ '' -- '' @ path @ '' was not deployed to any platform'']) warnings,
          report_failure text_of e uuid ''*'' [] (warnings \<noteq> None \<and> \<not> json) w))"

record PlanState =
  ps_plan :: "(string \<times> string list) list"
  ps_refused :: "string list"
  ps_skipped :: "SkippedBlock list"
  ps_warnings :: "string list option"

definition plan_start :: "string list option \<Rightarrow> PlanState" where
  "plan_start warnings = \<lparr>ps_plan = [], ps_refused = [], ps_skipped = [], ps_warnings = warnings\<rparr>"

fun plan_files ::
  "(state_code \<Rightarrow> string) \<Rightarrow> bool \<Rightarrow> (string \<Rightarrow> pyval option) \<Rightarrow> RunOptions \<Rightarrow> string list \<Rightarrow> PlanState \<Rightarrow> World
    \<Rightarrow> (deploy_error + PlanState) \<times> World" where
  "plan_files text_of json load opts [] ps w = (Inr ps, w)"
| "plan_files text_of json load opts (path # paths) ps w =
     (case load path of
        None \<Rightarrow> (Inl (RuleUnreadable path), w)
      | Some data \<Rightarrow>
        (case plan_rule opts path data of
           Inl e \<Rightarrow> (Inl e, w)
         | Inr (d, uuid, selected, skipped) \<Rightarrow>
             (let ps1 = ps\<lparr>ps_skipped := ps_skipped ps @ skipped\<rparr> in
              if selected = [] then plan_files text_of json load opts paths ps1 w
              else
                (case refuse_external_ids text_of json d path uuid (ps_warnings ps1, w) of
                   (True, ws, w') \<Rightarrow>
                     plan_files text_of json load opts paths
                       (ps1\<lparr>ps_warnings := ws, ps_refused := ps_refused ps1 @ [uuid]\<rparr>) w'
                 | (False, _, _) \<Rightarrow>
                     plan_files text_of json load opts paths
                       (ps1\<lparr>ps_plan := fold (\<lambda>system. dappend system uuid) selected (ps_plan ps1)\<rparr>) w))))"

text \<open>
  Which files the run reads: the given scope, every file (\<open>--all\<close>) or the changed ones; the
  last two scopes and the note about a checkout without commits are parameters.
\<close>

record ScopeSource =
  src_explicit :: "RuleScope option"
  src_all_files :: bool
  src_local :: RuleScope
  src_modified :: RuleScope
  src_no_commits :: "string option"
  src_folder :: string

definition resolve_scope :: "ScopeSource \<Rightarrow> string list option \<Rightarrow> RuleScope \<times> string list option" where
  "resolve_scope src warnings =
     (let (scope, ws) =
        (case src_explicit src of
           Some s \<Rightarrow> (s, warnings)
         | None \<Rightarrow>
             if src_all_files src then (src_local src, warnings)
             else (src_modified src,
               if scope_files (src_modified src) = [] \<and> scope_nested (src_modified src) = []
               then (case src_no_commits src of
                       None \<Rightarrow> warnings | Some note \<Rightarrow> map_option (\<lambda>l. l @ [note]) warnings)
               else warnings))
      in (scope,
          if scope_nested scope \<noteq> []
          then map_option (\<lambda>l. l @ [nested_rules_warning (src_folder src) (scope_nested scope)]) ws
          else ws))"

definition make_deploy_plan ::
  "(state_code \<Rightarrow> string) \<Rightarrow> bool \<Rightarrow> (string \<Rightarrow> pyval option) \<Rightarrow> RunOptions \<Rightarrow> ScopeSource
    \<Rightarrow> string list option \<Rightarrow> World \<Rightarrow> (deploy_error + PlanState) \<times> World" where
  "make_deploy_plan text_of json load opts src warnings w =
     (let (scope, ws) = resolve_scope src warnings in
      case plan_files text_of json load opts (scope_files scope) (plan_start ws) w of
        (Inl e, w') \<Rightarrow> (Inl e, w')
      | (Inr ps, w') \<Rightarrow>
          (if ps_refused ps \<noteq> [] \<and> ps_plan ps = []
           then (Inl (ExternalIdInRuleError (ps_refused ps)), w')
           else (Inr ps, w')))"

section \<open>What the plan holds\<close>

text \<open>The platforms a block is selected for: its own, when a run strategy deploys its status.\<close>

definition selected_of :: "RunOptions \<Rightarrow> pyval \<times> pyval \<Rightarrow> string list" where
  "selected_of opts = (\<lambda>(key, block).
     case (as_str_val key, platform_status block) of
       (Some system, Some status) \<Rightarrow>
         (case check_status (ro_statuses opts) status of
            Inl _ \<Rightarrow> []
          | Inr strategy \<Rightarrow>
              if system \<in> set (ro_systems opts)
                \<and> (ro_keep_deprecated opts \<or> strategy \<notin> set deprecated_statuses)
                \<and> (ro_wide opts \<or> list_ex (deploys strategy) (ro_strategies opts))
              then [system] else [])
     | _ \<Rightarrow> [])"

definition rule_blocks :: "pydict \<Rightarrow> pydict" where
  "rule_blocks d = (case dget_dict d ''configurations'' of None \<Rightarrow> [] | Some conf \<Rightarrow> conf)"

definition rule_selected :: "RunOptions \<Rightarrow> pydict \<Rightarrow> string list" where
  "rule_selected opts d = concat (map (selected_of opts) (rule_blocks d))"

definition file_deploys :: "(string \<Rightarrow> pyval option) \<Rightarrow> RunOptions \<Rightarrow> string \<Rightarrow> string \<Rightarrow> string list" where
  "file_deploys load opts system path =
     (case load path of
        Some (PDict d) \<Rightarrow>
          (if legacy_external_id_keys d = []
           then map (\<lambda>_. the (object_uuid d)) (filter (\<lambda>s. s = system) (rule_selected opts d)) else [])
      | _ \<Rightarrow> [])"

definition file_refused :: "(string \<Rightarrow> pyval option) \<Rightarrow> RunOptions \<Rightarrow> string \<Rightarrow> string list" where
  "file_refused load opts path =
     (case load path of
        Some (PDict d) \<Rightarrow>
          (if legacy_external_id_keys d \<noteq> [] \<and> rule_selected opts d \<noteq> [] then [the (object_uuid d)] else [])
      | _ \<Rightarrow> [])"

lemma plan_block_Inr:
  "plan_block opts name uuid (sel, sk) kb = Inr (sel', sk') \<Longrightarrow> sel' = sel @ selected_of opts kb"
  by (cases kb) (auto simp: plan_block_def selected_of_def split: option.splits sum.splits if_splits)

lemma plan_blocks_Inr:
  "rfold (plan_block opts name uuid) (sel, sk) conf = Inr (sel', sk') \<Longrightarrow>
     sel' = sel @ concat (map (selected_of opts) conf)"
proof (induction conf arbitrary: sel sk)
  case (Cons kb conf)
  then obtain sel1 sk1 where one: "plan_block opts name uuid (sel, sk) kb = Inr (sel1, sk1)"
    and rest: "rfold (plan_block opts name uuid) (sel1, sk1) conf = Inr (sel', sk')"
    by (auto split: sum.splits)
  from plan_block_Inr [OF one] Cons.IH [OF rest] show ?case by simp
qed simp

lemma read_rule_Inr:
  "read_rule path data = Inr (d, name, uuid, conf) \<Longrightarrow>
     data = PDict d \<and> object_uuid d = Some uuid \<and> conf = rule_blocks d"
  by (cases data) (auto simp: read_rule_def rule_blocks_def dget_dict_def split: option.splits if_splits)

lemma plan_rule_Inr:
  assumes "plan_rule opts path data = Inr (d, uuid, selected, skipped)"
  shows "data = PDict d \<and> object_uuid d = Some uuid \<and> selected = rule_selected opts d"
proof -
  from assms obtain name conf where "read_rule path data = Inr (d, name, uuid, conf)"
    and "rfold (plan_block opts name uuid) ([], []) conf = Inr (selected, skipped)"
    by (auto simp: plan_rule_def rbind_Inr)
  then show ?thesis
    using read_rule_Inr plan_blocks_Inr [of opts name uuid "[]" "[]" conf selected skipped]
    by (fastforce simp: rule_selected_def)
qed

lemma dget_list_appends:
  "dget_list (fold (\<lambda>s. dappend s x) keys d) k = dget_list d k @ map (\<lambda>_. x) (filter (\<lambda>s. s = k) keys)"
  by (induction keys arbitrary: d) auto

lemma report_error_flag:
  "w_env (report_failure text_of External_id_in_rule u p t q w) error_flag = Some ''1''"
  "w_dir (report_failure text_of e u p t q w) = w_dir w"
  by (simp_all add: report_failure_def warning_codes_def log_line_def set_env_def Let_def)

lemma plan_files_Inr:
  assumes "plan_files text_of json load opts paths ps w = (Inr ps', w')"
  shows "dget_list (ps_plan ps') system
        = dget_list (ps_plan ps) system @ concat (map (file_deploys load opts system) paths)
    \<and> ps_refused ps' = ps_refused ps @ concat (map (file_refused load opts) paths)
    \<and> w_dir w' = w_dir w
    \<and> w_env w' error_flag =
        (if concat (map (file_refused load opts) paths) = [] then w_env w error_flag else Some ''1'')"
  using assms
proof (induction paths arbitrary: ps w)
  case Nil
  then show ?case by simp
next
  case (Cons path paths)
  then obtain data where load: "load path = Some data" by (auto split: option.splits)
  with Cons.prems obtain d uuid selected skipped
    where rule: "plan_rule opts path data = Inr (d, uuid, selected, skipped)"
    by (auto split: sum.splits)
  from plan_rule_Inr [OF rule] have d: "data = PDict d" "object_uuid d = Some uuid"
    and sel: "selected = rule_selected opts d" by auto
  let ?ps1 = "ps\<lparr>ps_skipped := ps_skipped ps @ skipped\<rparr>"
  consider (none) "selected = []" | (refused) "selected \<noteq> []" "legacy_external_id_keys d \<noteq> []"
    | (kept) "selected \<noteq> []" "legacy_external_id_keys d = []" by blast
  then show ?case
  proof cases
    case none
    with Cons.prems load rule have "plan_files text_of json load opts paths ?ps1 w = (Inr ps', w')"
      by (simp add: Let_def)
    from Cons.IH [OF this] none load d sel show ?thesis
      by (simp add: file_deploys_def file_refused_def)
  next
    case refused
    with Cons.prems load rule obtain ws quiet where
      "plan_files text_of json load opts paths (?ps1\<lparr>ps_warnings := ws, ps_refused := ps_refused ?ps1 @ [uuid]\<rparr>)
         (report_failure text_of External_id_in_rule uuid ''*'' [] quiet w) = (Inr ps', w')"
      by (auto simp: Let_def refuse_external_ids_def legacy_key_error_def)
    from Cons.IH [OF this] refused load d sel show ?thesis
      by (simp add: file_deploys_def file_refused_def report_error_flag)
  next
    case kept
    with Cons.prems load rule have
      "plan_files text_of json load opts paths
         (?ps1\<lparr>ps_plan := fold (\<lambda>system. dappend system uuid) selected (ps_plan ?ps1)\<rparr>) w = (Inr ps', w')"
      by (simp add: Let_def refuse_external_ids_def legacy_key_error_def)
    from Cons.IH [OF this] kept load d sel show ?thesis
      by (simp add: file_deploys_def file_refused_def dget_list_appends)
  qed
qed

lemma make_deploy_plan_Inr:
  assumes "make_deploy_plan text_of json load opts src warnings w = (Inr ps, w')"
  shows "plan_files text_of json load opts (scope_files (fst (resolve_scope src warnings)))
           (plan_start (snd (resolve_scope src warnings))) w = (Inr ps, w')
       \<and> (ps_refused ps \<noteq> [] \<longrightarrow> ps_plan ps \<noteq> [])"
  using assms by (auto simp: make_deploy_plan_def split: prod.splits sum.splits if_splits)

section \<open>Properties\<close>

definition sample_run :: RunOptions where
  "sample_run = \<lparr>ro_strategies = [RELEASE], ro_wide = False, ro_keep_deprecated = True,
     ro_statuses = [\<lparr>status_name = ''PRODUCTION'', status_strategy = StrategyMember RELEASE\<rparr>],
     ro_systems = [''sentinel'']\<rparr>"

definition sample_source :: ScopeSource where
  "sample_source = \<lparr>src_explicit = Some \<lparr>scope_files = [''a.yaml''], scope_nested = []\<rparr>, src_all_files = False,
     src_local = \<lparr>scope_files = [], scope_nested = []\<rparr>, src_modified = \<lparr>scope_files = [], scope_nested = []\<rparr>,
     src_no_commits = None, src_folder = ''objects/rules''\<rparr>"

definition sample_rule :: pydict where
  "sample_rule = [(PStr ''name'', PStr ''R''), (PStr ''uuid'', PStr ''u1''),
     (PStr ''configurations'', PDict [(PStr ''sentinel'', PDict [(PStr ''status'', PStr ''PRODUCTION'')])])]"

lemma sample_plan:
  "make_deploy_plan (\<lambda>_. []) False (\<lambda>_. Some (PDict sample_rule)) sample_run sample_source None sample_world
     = (Inr \<lparr>ps_plan = [(''sentinel'', [''u1''])], ps_refused = [], ps_skipped = [], ps_warnings = None\<rparr>, sample_world)"
  by (simp add: make_deploy_plan_def resolve_scope_def sample_source_def plan_rule_def read_rule_def sample_rule_def
      object_uuid_def dget_dict_def dget_none_def plan_block_def platform_status_def sample_run_def strategy_defs
      refuse_external_ids_def legacy_key_error_def legacy_external_id_keys_def is_legacy_external_id_key_def
      legacy_map_keys_def legacy_tenant_prefix_def plan_start_def dappend_def Let_def)

text \<open>
  C4: for every platform the plan lists, in file order, exactly the uuids of the files that carry no
  vendor id and have a block for that platform, enabled, whose status maps to a strategy that a run
  strategy deploys (or any status under \<open>--wide\<close>, less retired ones when they are not kept).
\<close>

theorem deploy_plan_exact:
  assumes "make_deploy_plan text_of json load opts src warnings w = (Inr ps, w')"
  shows "dget_list (ps_plan ps) system =
    concat (map (file_deploys load opts system) (scope_files (fst (resolve_scope src warnings))))"
  using plan_files_Inr [OF conjunct1 [OF make_deploy_plan_Inr [OF assms]], of system]
  by (simp add: plan_start_def)

lemma deploy_plan_exact_witness:
  "concat (map (file_deploys (\<lambda>_. Some (PDict sample_rule)) sample_run ''sentinel'')
     (scope_files (fst (resolve_scope sample_source None)))) = [''u1'']"
  using deploy_plan_exact [OF sample_plan, of "''sentinel''"] by (simp add: dget_list_def)

text \<open>
  a rule that still carries a vendor id is never an empty success: the rules left out are exactly
  the selected ones with a legacy key, any of them marks the run as failed, and when they leave
  nothing to deploy the plan is an exception. Planning writes no shard.
\<close>

theorem legacy_rules_fail_the_run:
  assumes "make_deploy_plan text_of json load opts src warnings w = (Inr ps, w')"
  shows "ps_refused ps = concat (map (file_refused load opts) (scope_files (fst (resolve_scope src warnings))))
    \<and> (if ps_refused ps = [] then w_env w' error_flag = w_env w error_flag
       else w_env w' error_flag = Some ''1'' \<and> ps_plan ps \<noteq> [])
    \<and> w_dir w' = w_dir w"
  using plan_files_Inr [OF conjunct1 [OF make_deploy_plan_Inr [OF assms]]] make_deploy_plan_Inr [OF assms]
  by (auto simp: plan_start_def)

lemma legacy_rules_fail_the_run_witness:
  "concat (map (file_refused (\<lambda>_. Some (PDict sample_rule)) sample_run) (scope_files (fst (resolve_scope sample_source None)))) = []"
  using legacy_rules_fail_the_run [OF sample_plan] by simp

end
