(* ===== verification/Git_Scope.thy ===== *)
theory Git_Scope
  imports Strategies
begin

text \<open>
  Which commits a run's changed rule files come from, \<open>deployment/git_repo.py\<close> over the
  adapter of \<open>deployment/git_backend.py\<close>. The object store is dulwich's and is a parameter: the
  commits and objects the checkout holds, its refs, merge bases, the history walk and the tree
  diff. Fetching from origin gives another repository.
\<close>

section \<open>The repository\<close>

record CommitInfo =
  ci_sha :: string
  ci_parents :: "string list"

text \<open>Dulwich's change types, and one entry of \<open>tree_changes\<close>: old and new path.\<close>

datatype change_type = ChangeAdd | ChangeModify | ChangeRename | ChangeDelete | ChangeCopy | ChangeUnchanged

type_synonym tree_change = "change_type \<times> string option \<times> string option"

record Repo =
  rp_commit :: "string \<Rightarrow> CommitInfo option"
  rp_object :: "string \<Rightarrow> bool"
  rp_head_sha :: "string option"
  rp_refs :: "string \<Rightarrow> string option"
  rp_merge_base :: "string \<Rightarrow> string \<Rightarrow> string list option"
  rp_walk :: "string \<Rightarrow> CommitInfo list option"
  rp_peel :: "string \<Rightarrow> string option"
  rp_changes :: "string \<Rightarrow> string \<Rightarrow> tree_change list option"

datatype git_error =
    MissingGitCheckout
  | NoCommitsError
  | CommitNotFound string
  | RefNotFound string
  | ObjectNotFound
  | NeedsCIRun
  | MissingBranches
  | NoMergeBase
  | NotACIDiffSource
  | NoSourceCommit
  | TipRequired
  | SinceRequired
  | BadEvent

definition normalize_ref :: "string \<Rightarrow> string" where
  "normalize_ref ref =
     (if starts_with ''refs/'' ref then ref
      else if starts_with ''origin/'' ref then ''refs/remotes/'' @ ref
      else if ref = ''HEAD'' then ''HEAD''
      else ''refs/heads/'' @ ref)"

definition head_sha :: "Repo \<Rightarrow> git_error + string" where
  "head_sha r = (case rp_head_sha r of None \<Rightarrow> Inl NoCommitsError | Some sha \<Rightarrow> Inr sha)"

definition has_commits :: "Repo \<Rightarrow> bool" where
  "has_commits r = (rp_head_sha r \<noteq> None)"

definition repo_commit :: "Repo \<Rightarrow> string \<Rightarrow> git_error + CommitInfo" where
  "repo_commit r name = (case rp_commit r name of None \<Rightarrow> Inl (CommitNotFound name) | Some c \<Rightarrow> Inr c)"

definition repo_head :: "Repo \<Rightarrow> git_error + CommitInfo" where
  "repo_head r = rbind (head_sha r) (repo_commit r)"

definition resolve_sha :: "Repo \<Rightarrow> string \<Rightarrow> git_error + string" where
  "resolve_sha r ref =
     (let name = normalize_ref ref in
      if name = ''HEAD'' then head_sha r
      else case List.map_filter (rp_refs r) (name # (if ref \<noteq> name then [ref] else [])) of
          [] \<Rightarrow> Inl (RefNotFound ref)
        | sha # _ \<Rightarrow> Inr sha)"

definition has_commit :: "Repo \<Rightarrow> string \<Rightarrow> bool" where
  "has_commit r sha = (rp_commit r sha \<noteq> None)"

text \<open>\<open>merge_base\<close> loads every commit it answers.\<close>

definition merge_base :: "Repo \<Rightarrow> string \<Rightarrow> string \<Rightarrow> git_error + CommitInfo list" where
  "merge_base r a b =
     (case rp_merge_base r a b of
        None \<Rightarrow> Inl ObjectNotFound
      | Some shas \<Rightarrow> rmap (repo_commit r) shas)"

definition shown_path :: "string option \<Rightarrow> string option \<Rightarrow> string option" where
  "shown_path old new =
     (case new of
        Some p \<Rightarrow> if p \<noteq> [] then Some p else (case old of Some q \<Rightarrow> if q \<noteq> [] then Some q else None | None \<Rightarrow> None)
      | None \<Rightarrow> (case old of Some q \<Rightarrow> if q \<noteq> [] then Some q else None | None \<Rightarrow> None))"

text \<open>\<open>tree_diff\<close>: an entry's type and path.\<close>

definition tree_diff :: "tree_change list \<Rightarrow> (change_type \<times> string option) list" where
  "tree_diff changes =
     map (\<lambda>(c, old, new). (c, shown_path old new))
       (filter (\<lambda>(c, _). c \<in> {ChangeAdd, ChangeModify, ChangeRename}) changes)"

text \<open>\<open>list(set(scope))\<close> has no specified order; \<open>remdups\<close> stands for it.\<close>

definition changed_paths :: "Repo \<Rightarrow> CommitInfo \<Rightarrow> CommitInfo \<Rightarrow> git_error + string list" where
  "changed_paths r base tip =
     (case rp_changes r (ci_sha base) (ci_sha tip) of
        None \<Rightarrow> Inl ObjectNotFound
      | Some changes \<Rightarrow>
          (let of_type = (\<lambda>t. List.map_filter snd (filter (\<lambda>(c, _). c = t) (tree_diff changes))) in
           Inr (remdups (of_type ChangeAdd @ of_type ChangeRename @ of_type ChangeModify))))"

section \<open>Where the diff starts\<close>

datatype DiffSource = CHANGE_REQUEST | PUSH | LAST_COMMIT

definition run_diff_source :: "environ \<Rightarrow> DiffSource" where
  "run_diff_source env =
     (let environment = check_ci_environment env in
      if environment = LocalDebug then LAST_COMMIT
      else if is_change_request env environment then CHANGE_REQUEST else PUSH)"

text \<open>\<open>v.strip("0")\<close> is true: some character is not a zero.\<close>

definition not_zeros :: "string \<Rightarrow> bool" where
  "not_zeros s = list_ex (\<lambda>c. c \<noteq> CHR ''0'') s"

definition env_value :: "environ \<Rightarrow> string \<Rightarrow> string option" where
  "env_value env name = (case env name of None \<Rightarrow> None | Some v \<Rightarrow> if v = [] then None else Some v)"

definition production_base :: "Repo \<Rightarrow> git_error + string option" where
  "production_base r = rbind (repo_head r) (\<lambda>head.
     case ci_parents head of
       [] \<Rightarrow> Inr None
     | parent # _ \<Rightarrow> if rp_object r parent then Inr (Some parent) else Inl (CommitNotFound parent))"

definition merge_first_parent :: "Repo \<Rightarrow> string option \<Rightarrow> string option \<Rightarrow> string option" where
  "merge_first_parent r merge_sha head =
     (case merge_sha of
        None \<Rightarrow> None
      | Some sha \<Rightarrow>
          (case rp_commit r sha of
             None \<Rightarrow> None
           | Some c \<Rightarrow>
               (case ci_parents c of
                  [first, second] \<Rightarrow>
                    if (case head of None \<Rightarrow> False | Some h \<Rightarrow> second \<noteq> h) then None
                    else if has_commit r first then Some first else None
                | _ \<Rightarrow> None)))"

text \<open>\<open>events path\<close> is the JSON of the event file, \<open>None\<close> when it cannot be read.\<close>

type_synonym event_files = "string \<Rightarrow> pyval option"

definition github_event :: "environ \<Rightarrow> event_files \<Rightarrow> pydict option" where
  "github_event env events =
     (case env_value env ''GITHUB_EVENT_PATH'' of
        None \<Rightarrow> None
      | Some path \<Rightarrow> (case events path of None \<Rightarrow> None | Some v \<Rightarrow> as_dict_val v))"

definition github_push_before :: "environ \<Rightarrow> event_files \<Rightarrow> Repo \<Rightarrow> string option" where
  "github_push_before env events r =
     (case github_event env events of
        None \<Rightarrow> None
      | Some event \<Rightarrow>
          (case dget_str event ''before'' of
             None \<Rightarrow> None
           | Some before \<Rightarrow> if not_zeros before \<and> has_commit r before then Some before else None))"

text \<open>A truthy \<open>base\<close> or \<open>head\<close> of the event that is not a table has no \<open>get\<close> (\<open>Inl\<close>).\<close>

definition side_sha :: "pydict \<Rightarrow> string \<Rightarrow> unit + pyval" where
  "side_sha request side =
     (let v = dget_none request side in
      if \<not> truthy v then Inr PNone
      else case as_dict_val v of None \<Rightarrow> Inl () | Some d \<Rightarrow> Inr (dget_none d ''sha''))"

definition github_event_request_shas ::
  "environ \<Rightarrow> event_files \<Rightarrow> Repo \<Rightarrow> unit + (string \<times> string) option" where
  "github_event_request_shas env events r =
     (case github_event env events of
        None \<Rightarrow> Inr None
      | Some event \<Rightarrow>
          (case dget_dict event ''pull_request'' of
             None \<Rightarrow> Inr None
           | Some request \<Rightarrow>
               rbind (side_sha request ''base'') (\<lambda>b.
                 rbind (side_sha request ''head'') (\<lambda>h.
                   Inr (case (b, h) of
                     (PStr base, PStr head) \<Rightarrow>
                       if has_commit r base \<and> has_commit r head then Some (base, head) else None
                   | _ \<Rightarrow> None)))))"

section \<open>The range of each CI platform\<close>

datatype range = NothingToDiff | Range Repo "string option" "string option"

definition first_parent_range :: "Repo \<Rightarrow> string option \<Rightarrow> git_error + range" where
  "first_parent_range r latest = rbind (production_base r) (\<lambda>base.
     Inr (case base of None \<Rightarrow> NothingToDiff | Some b \<Rightarrow> Range r (Some b) latest))"

definition require_origin_ref :: "Repo \<Rightarrow> string \<Rightarrow> git_error + unit" where
  "require_origin_ref r ref =
     (case resolve_sha r ref of Inl _ \<Rightarrow> Inl (RefNotFound ref) | Inr _ \<Rightarrow> Inr ())"

text \<open>The branches of the request after a fetch, on GitHub and Azure.\<close>

definition branch_range :: "(Repo \<Rightarrow> Repo) \<Rightarrow> Repo \<Rightarrow> string \<Rightarrow> string \<Rightarrow> git_error + range" where
  "branch_range fetch r source target =
     (let r' = fetch r;
          source_branch = ''origin/'' @ str_remove ''refs/heads/'' source;
          target_branch = ''origin/'' @ target
      in rbind (require_origin_ref r' target_branch) (\<lambda>_.
         rbind (require_origin_ref r' source_branch) (\<lambda>_.
         rbind (merge_base r' target_branch source_branch) (\<lambda>bases.
           case bases of
             [] \<Rightarrow> Inl NoMergeBase
           | base # _ \<Rightarrow>
               rbind (resolve_sha r' source_branch) (\<lambda>tip.
                 Inr (Range r' (Some (ci_sha base)) (Some tip)))))))"

definition github_range ::
  "environ \<Rightarrow> event_files \<Rightarrow> (Repo \<Rightarrow> Repo) \<Rightarrow> Repo \<Rightarrow> DiffSource \<Rightarrow> git_error + range" where
  "github_range env events fetch r source =
     (let latest = env ''GITHUB_SHA'' in
      case source of
        PUSH \<Rightarrow>
          (case github_push_before env events r of
             Some before \<Rightarrow> Inr (Range r (Some before) latest)
           | None \<Rightarrow> first_parent_range r latest)
      | CHANGE_REQUEST \<Rightarrow>
          (case (env_value env ''GITHUB_HEAD_REF'', env_value env ''GITHUB_BASE_REF'') of
             (Some source_branch, Some target_branch) \<Rightarrow>
               if env ''GITHUB_EVENT_NAME'' \<noteq> Some ''pull_request_target''
               then (case merge_first_parent r (env_value env ''GITHUB_SHA'') None of
                       Some parent \<Rightarrow> Inr (Range r (Some parent) latest)
                     | None \<Rightarrow> branch_range fetch r source_branch target_branch)
               else (case github_event_request_shas env events r of
                       Inl _ \<Rightarrow> Inl BadEvent
                     | Inr None \<Rightarrow> branch_range fetch r source_branch target_branch
                     | Inr (Some (base, head)) \<Rightarrow>
                         rbind (merge_base r base head) (\<lambda>bases.
                           case bases of
                             b # _ \<Rightarrow> Inr (Range r (Some (ci_sha b)) (Some head))
                           | [] \<Rightarrow> branch_range fetch r source_branch target_branch))
           | _ \<Rightarrow> Inl MissingBranches)
      | LAST_COMMIT \<Rightarrow> Inl NotACIDiffSource)"

definition gitlab_range :: "environ \<Rightarrow> Repo \<Rightarrow> DiffSource \<Rightarrow> git_error + range" where
  "gitlab_range env r source =
     (let latest = env ''CI_COMMIT_SHA'' in
      case source of
        PUSH \<Rightarrow>
          (case env ''CI_COMMIT_BEFORE_SHA'' of
             Some before \<Rightarrow>
               if not_zeros before then Inr (Range r (Some before) latest) else first_parent_range r latest
           | None \<Rightarrow> first_parent_range r latest)
      | CHANGE_REQUEST \<Rightarrow>
          (let base = env ''CI_MERGE_REQUEST_DIFF_BASE_SHA'';
               source_head = env_value env ''CI_MERGE_REQUEST_SOURCE_BRANCH_SHA''
           in if env ''CI_MERGE_REQUEST_EVENT_TYPE'' \<in> {Some ''merged_result'', Some ''merge_train''}
              then (case merge_first_parent r (env_value env ''CI_COMMIT_SHA'') source_head of
                      Some parent \<Rightarrow> Inr (Range r (Some parent) latest)
                    | None \<Rightarrow> Inr (Range r base (case source_head of Some h \<Rightarrow> Some h | None \<Rightarrow> latest)))
              else Inr (Range r base latest))
      | LAST_COMMIT \<Rightarrow> Inl NotACIDiffSource)"

definition azure_range ::
  "environ \<Rightarrow> (Repo \<Rightarrow> Repo) \<Rightarrow> Repo \<Rightarrow> DiffSource \<Rightarrow> git_error + range" where
  "azure_range env fetch r source =
     (let latest = env ''BUILD_SOURCEVERSION'' in
      case source of
        PUSH \<Rightarrow> first_parent_range r latest
      | CHANGE_REQUEST \<Rightarrow>
          (case (env_value env ''SYSTEM_PULLREQUEST_SOURCEBRANCH'',
                 env_value env ''SYSTEM_PULLREQUEST_TARGETBRANCHNAME'') of
             (Some source_branch, Some target_branch) \<Rightarrow>
               (case merge_first_parent r (env_value env ''BUILD_SOURCEVERSION'')
                       (env_value env ''SYSTEM_PULLREQUEST_SOURCECOMMITID'') of
                  Some parent \<Rightarrow> Inr (Range r (Some parent) latest)
                | None \<Rightarrow> branch_range fetch r source_branch target_branch)
           | _ \<Rightarrow> Inl MissingBranches)
      | LAST_COMMIT \<Rightarrow> Inl NotACIDiffSource)"

text \<open>The base commit, else the same commit on the history of \<open>origin/main\<close>.\<close>

definition find_source_commit :: "Repo \<Rightarrow> string option \<Rightarrow> CommitInfo option" where
  "find_source_commit r base =
     (case base of
        None \<Rightarrow> None
      | Some b \<Rightarrow>
          if b = [] then None
          else case rp_commit r b of
              Some c \<Rightarrow> Some c
            | None \<Rightarrow>
                (case resolve_sha r ''origin/main'' of
                   Inl _ \<Rightarrow> None
                 | Inr sha \<Rightarrow>
                     (case rp_walk r sha of
                        None \<Rightarrow> None
                      | Some commits \<Rightarrow> List.find (\<lambda>c. ci_sha c = b) commits)))"

definition diff_range :: "range \<Rightarrow> git_error + string list" where
  "diff_range rng =
     (case rng of
        NothingToDiff \<Rightarrow> Inr []
      | Range r base latest \<Rightarrow>
          (case find_source_commit r base of
             None \<Rightarrow> Inl NoSourceCommit
           | Some source \<Rightarrow>
               (case latest of
                  None \<Rightarrow> Inl TipRequired
                | Some tip \<Rightarrow>
                    if tip = [] then Inl TipRequired
                    else rbind (repo_commit r tip) (changed_paths r source))))"

text \<open>
  \<open>local_repo\<close> is the checkout holding the workspace, \<open>ci_repo dir\<close> the one at the
  directory the CI names (\<open>None\<close>: the current directory). Building \<open>GitRepository\<close> also
  reads its last commit.
\<close>

record Checkouts =
  co_local :: "Repo option"
  co_ci :: "string option \<Rightarrow> Repo option"
  co_fetch :: "Repo \<Rightarrow> Repo"
  co_events :: event_files

fun workspace_variable :: "CIPlatforms \<Rightarrow> string" where
  "workspace_variable GitHubActions = ''GITHUB_WORKSPACE''"
| "workspace_variable GitlabCI = ''CI_PROJECT_DIR''"
| "workspace_variable AzurePipeline = ''BUILD_SOURCESDIRECTORY''"
| "workspace_variable LocalDebug = ''''"

definition ci_repository :: "environ \<Rightarrow> Checkouts \<Rightarrow> git_error + Repo" where
  "ci_repository env co =
     (case co_ci co (env_value env (workspace_variable (check_ci_environment env))) of
        None \<Rightarrow> Inl MissingGitCheckout
      | Some r \<Rightarrow> rbind (repo_head r) (\<lambda>_. Inr r))"

definition local_repository :: "Checkouts \<Rightarrow> git_error + Repo" where
  "local_repository co = (case co_local co of None \<Rightarrow> Inl MissingGitCheckout | Some r \<Rightarrow> Inr r)"

definition last_commit_diff :: "Checkouts \<Rightarrow> git_error + string list" where
  "last_commit_diff co = rbind (local_repository co) (\<lambda>r.
     if \<not> has_commits r then Inr []
     else rbind (production_base r) (\<lambda>base.
       case base of
         None \<Rightarrow> Inr []
       | Some b \<Rightarrow> rbind (repo_commit r b) (\<lambda>from_commit. rbind (repo_head r) (changed_paths r from_commit))))"

definition diff_calculation :: "environ \<Rightarrow> Checkouts \<Rightarrow> DiffSource \<Rightarrow> git_error + string list" where
  "diff_calculation env co source =
     (let target_ci = check_ci_environment env in
      if source = LAST_COMMIT \<or> target_ci = LocalDebug
      then (if source = CHANGE_REQUEST then Inl NeedsCIRun else last_commit_diff co)
      else rbind (ci_repository env co) (\<lambda>r.
        rbind (case target_ci of
                 GitHubActions \<Rightarrow> github_range env (co_events co) (co_fetch co) r source
               | GitlabCI \<Rightarrow> gitlab_range env r source
               | AzurePipeline \<Rightarrow> azure_range env (co_fetch co) r source
               | LocalDebug \<Rightarrow> Inl NotACIDiffSource)
          diff_range))"

section \<open>Through the head of the branch\<close>

fun trigger_variable :: "CIPlatforms \<Rightarrow> string option" where
  "trigger_variable GitHubActions = Some ''GITHUB_SHA''"
| "trigger_variable GitlabCI = Some ''CI_COMMIT_SHA''"
| "trigger_variable AzurePipeline = Some ''BUILD_SOURCEVERSION''"
| "trigger_variable LocalDebug = None"

text \<open>\<open>rp_peel\<close> follows annotated tags from a ref's object to a commit.\<close>

definition resolve_commit :: "Repo \<Rightarrow> string \<Rightarrow> git_error + CommitInfo" where
  "resolve_commit r name =
     (case rp_commit r name of
        Some c \<Rightarrow> Inr c
      | None \<Rightarrow>
          (case resolve_sha r name of
             Inl _ \<Rightarrow> Inl (CommitNotFound name)
           | Inr sha \<Rightarrow>
               (case rp_peel r sha of None \<Rightarrow> Inl (CommitNotFound name) | Some target \<Rightarrow> repo_commit r target)))"

definition push_baseline :: "environ \<Rightarrow> Repo \<Rightarrow> git_error + CommitInfo option" where
  "push_baseline env r =
     (let environment = check_ci_environment env in
      case trigger_variable environment of
        None \<Rightarrow> Inl NotACIDiffSource
      | Some variable \<Rightarrow>
          (case env_value env variable of
             None \<Rightarrow> Inl TipRequired
           | Some trigger \<Rightarrow>
               (case (environment, env_value env ''CI_COMMIT_BEFORE_SHA'') of
                  (GitlabCI, Some before) \<Rightarrow>
                    if not_zeros before then rbind (repo_commit r before) (\<lambda>c. Inr (Some c))
                    else rbind (repo_commit r trigger) (\<lambda>c.
                      case ci_parents c of [] \<Rightarrow> Inr None | p # _ \<Rightarrow> rbind (repo_commit r p) (\<lambda>b. Inr (Some b)))
                | _ \<Rightarrow> rbind (repo_commit r trigger) (\<lambda>c.
                      case ci_parents c of [] \<Rightarrow> Inr None | p # _ \<Rightarrow> rbind (repo_commit r p) (\<lambda>b. Inr (Some b))))))"

definition changed_through_head :: "environ \<Rightarrow> Checkouts \<Rightarrow> string option \<Rightarrow> git_error + string list" where
  "changed_through_head env co since =
     rbind (if check_ci_environment env = LocalDebug
            then (if since = None then Inl SinceRequired else local_repository co)
            else ci_repository env co) (\<lambda>r.
       rbind (repo_head r) (\<lambda>head.
         rbind (case since of
                  Some s \<Rightarrow> rbind (resolve_commit r s) (\<lambda>c. Inr (Some c))
                | None \<Rightarrow> push_baseline env r) (\<lambda>base.
           case base of None \<Rightarrow> Inr [] | Some b \<Rightarrow> changed_paths r b head)))"

definition no_commits_warning :: "environ \<Rightarrow> Checkouts \<Rightarrow> string \<Rightarrow> string option" where
  "no_commits_warning env co advice =
     (if check_ci_environment env \<noteq> LocalDebug then None
      else case co_local co of
          None \<Rightarrow> None
        | Some r \<Rightarrow>
            if has_commits r then None
            else Some (''HEAD names no commit yet (a new repository or an orphan branch), ''
                       @ ''so no file has changed: '' @ advice))"

section \<open>Rule files of a diff\<close>

definition is_rule_name :: "string \<Rightarrow> bool" where
  "is_rule_name name =
     ((ends_with ''.yaml'' name \<and> 5 < length name) \<or> (ends_with ''.yml'' name \<and> 4 < length name))"

text \<open>A path up to its last slash (\<open>None\<close> without one) and the segment after it.\<close>

definition split_dir :: "string \<Rightarrow> string option \<times> string" where
  "split_dir path =
     (let name = rev (takeWhile (\<lambda>c. c \<noteq> CHR ''/'') (rev path)) in
      if length name = length path then (None, name)
      else (Some (take (length path - length name - 1) path), name))"

text \<open>In a pattern, \<open>$\<close> also matches before a final newline.\<close>

definition dollar_forms :: "string \<Rightarrow> string list" where
  "dollar_forms path = path # (if path \<noteq> [] \<and> last path = CHR 0x0A then [butlast path] else [])"

definition is_top_level :: "string \<Rightarrow> string \<Rightarrow> bool" where
  "is_top_level folder path =
     (case split_dir path of
        (Some dir, name) \<Rightarrow> is_rule_name name \<and> (dir = folder \<or> ends_with (''/'' @ folder) dir)
      | (None, _) \<Rightarrow> False)"

definition is_nested :: "string \<Rightarrow> string \<Rightarrow> bool" where
  "is_nested folder path =
     (case split_dir path of
        (Some dir, name) \<Rightarrow>
          is_rule_name name
        \<and> list_ex (\<lambda>i. (i = 0 \<or> dir ! (i - 1) = CHR ''/'')
              \<and> starts_with (folder @ ''/'') (drop i dir)
              \<and> (let mid = drop (i + length folder + 1) dir in mid \<noteq> [] \<and> CHR 0x0A \<notin> set mid))
            [0..<length dir]
      | (None, _) \<Rightarrow> False)"

definition strip_slashes :: "string \<Rightarrow> string" where
  "strip_slashes s = (let b = (\<lambda>c. c = CHR ''/'') in rev (dropWhile b (rev (dropWhile b s))))"

definition split_changed_rule_paths :: "string \<Rightarrow> string list \<Rightarrow> string list \<times> string list" where
  "split_changed_rule_paths rules_folder changed =
     (let folder = strip_slashes rules_folder in
      (filter (\<lambda>p. p \<noteq> [] \<and> list_ex (is_top_level folder) (dollar_forms p)) changed,
       sort_key (\<lambda>p. p) (filter (\<lambda>p. p \<noteq> [] \<and> list_ex (is_nested folder) (dollar_forms p)) changed)))"

text \<open>The files of the run: names in the rules folder, and the nested paths that are skipped.\<close>

definition modified_rule_scope ::
  "environ \<Rightarrow> Checkouts \<Rightarrow> string \<Rightarrow> DiffSource option \<Rightarrow> git_error + (string list \<times> string list)" where
  "modified_rule_scope env co rules_folder source =
     rbind (diff_calculation env co (case source of Some s \<Rightarrow> s | None \<Rightarrow> run_diff_source env)) (\<lambda>changed.
       let (top_level, nested) = split_changed_rule_paths rules_folder changed in
       Inr (map (\<lambda>p. snd (split_dir p)) top_level, nested))"

text \<open>
  \<open>local_rule_scope\<close>: the paths below the rules folder as segments, with whether each is a file;
  \<open>None\<close> when there is no rules folder.
\<close>

definition local_rule_scope :: "string \<Rightarrow> (string list \<times> bool) list option \<Rightarrow> string list \<times> string list" where
  "local_rule_scope folder entries =
     (case entries of
        None \<Rightarrow> ([], [])
      | Some es \<Rightarrow>
          (let rules = filter (\<lambda>(path, is_file). is_file \<and> path \<noteq> [] \<and> is_rule_name (last path))
                         (sort_key fst es)
           in (map (\<lambda>(path, _). last path) (filter (\<lambda>(path, _). length path = 1) rules),
               map (\<lambda>(path, _). folder @ ''/'' @ str_join ''/'' path) (filter (\<lambda>(path, _). length path \<noteq> 1) rules))))"

section \<open>Lemmas\<close>

lemma map_filter_set: "set (List.map_filter f xs) = {y. \<exists>x \<in> set xs. f x = Some y}"
  by (force simp: List.map_filter_def)

definition deployable_change :: "tree_change \<Rightarrow> string \<Rightarrow> bool" where
  "deployable_change change path =
     (case change of (c, old, new) \<Rightarrow>
        c \<in> {ChangeAdd, ChangeModify, ChangeRename} \<and> shown_path old new = Some path)"

lemma changed_paths_Inr:
  assumes "changed_paths r base tip = Inr paths"
  obtains changes where "rp_changes r (ci_sha base) (ci_sha tip) = Some changes"
    and "set paths = {p. \<exists>c \<in> set changes. deployable_change c p}" and "distinct paths"
proof -
  from assms obtain changes where changes: "rp_changes r (ci_sha base) (ci_sha tip) = Some changes"
    and paths: "paths = remdups (List.map_filter snd (filter (\<lambda>(c, _). c = ChangeAdd) (tree_diff changes))
      @ List.map_filter snd (filter (\<lambda>(c, _). c = ChangeRename) (tree_diff changes))
      @ List.map_filter snd (filter (\<lambda>(c, _). c = ChangeModify) (tree_diff changes)))"
    by (auto simp: changed_paths_def Let_def split: option.splits)
  have "set paths = {p. \<exists>c \<in> set changes. deployable_change c p}"
    unfolding paths by (auto simp: map_filter_set tree_diff_def deployable_change_def; force)
  then show thesis using that changes paths by simp
qed

lemma split_dir_join: "CHR ''/'' \<notin> set name \<Longrightarrow> split_dir (dir @ ''/'' @ name) = (Some dir, name)"
proof -
  assume "CHR ''/'' \<notin> set name"
  then have "takeWhile (\<lambda>c. c \<noteq> CHR ''/'') (rev name @ CHR ''/'' # rev dir) = rev name"
    by (subst takeWhile_append2) auto
  then show ?thesis by (simp add: split_dir_def Let_def)
qed

lemma split_dir_name: "CHR ''/'' \<notin> set (snd (split_dir p))"
  by (auto simp: split_dir_def Let_def dest: set_takeWhileD)

lemma merge_first_parent_Some:
  "merge_first_parent r (Some sha) head = Some first \<longleftrightarrow>
     (\<exists>c second. rp_commit r sha = Some c \<and> ci_parents c = [first, second]
        \<and> (head = None \<or> head = Some second) \<and> has_commit r first)"
  by (auto simp: merge_first_parent_def split: option.splits list.splits if_splits)

lemma production_base_shallow:
  assumes "repo_head r = Inr c" and "ci_parents c = p # ps" and "\<not> rp_object r p"
  shows "production_base r = Inl (CommitNotFound p)"
  using assms by (simp add: production_base_def)

lemma head_has_commits: "repo_head r = Inr c \<Longrightarrow> has_commits r"
  by (auto simp: repo_head_def rbind_Inr head_sha_def has_commits_def split: option.splits)

lemma diff_range_Inr:
  assumes "diff_range rng = Inr paths"
  shows "paths = [] \<or> (\<exists>(r :: Repo) base tip. changed_paths r base tip = Inr paths)"
  using assms by (auto simp: diff_range_def rbind_Inr split: range.splits option.splits if_splits)

lemma diff_calculation_Inr:
  assumes "diff_calculation env co source = Inr paths"
  shows "paths = [] \<or> (\<exists>(r :: Repo) base tip. changed_paths r base tip = Inr paths)"
proof (cases "source = LAST_COMMIT \<or> check_ci_environment env = LocalDebug")
  case True
  with assms show ?thesis
    by (auto simp: diff_calculation_def last_commit_diff_def rbind_Inr Let_def split: if_splits option.splits)
next
  case False
  with assms obtain rng where "diff_range rng = Inr paths"
    by (auto simp: diff_calculation_def rbind_Inr Let_def)
  then show ?thesis by (rule diff_range_Inr)
qed

section \<open>Properties\<close>

definition sample_repo :: Repo where
  "sample_repo = \<lparr>rp_commit = [''m'' \<mapsto> \<lparr>ci_sha = ''m'', ci_parents = [''t'', ''h'']\<rparr>, ''t'' \<mapsto> \<lparr>ci_sha = ''t'', ci_parents = []\<rparr>],
     rp_object = (\<lambda>s. s = ''m'' \<or> s = ''t''), rp_head_sha = Some ''m'', rp_refs = Map.empty,
     rp_merge_base = (\<lambda>_ _. None), rp_walk = Map.empty, rp_peel = Map.empty,
     rp_changes = (\<lambda>_ _. Some [(ChangeAdd, None, Some ''objects/rules/a.yaml''), (ChangeDelete, Some ''b.yaml'', None)])\<rparr>"

definition sample_checkouts :: "Repo \<Rightarrow> Checkouts" where
  "sample_checkouts r = \<lparr>co_local = Some r, co_ci = (\<lambda>_. Some r), co_fetch = (\<lambda>x. x), co_events = Map.empty\<rparr>"

lemmas sample_repo_simps = sample_repo_def sample_checkouts_def diff_calculation_def last_commit_diff_def
  local_repository_def ci_repository_def has_commits_def production_base_def repo_head_def head_sha_def repo_commit_def
  changed_paths_def tree_diff_def shown_path_def check_ci_environment_def env_set_def env_value_def

text \<open>
  the changed files of a run are exactly the paths of the added, renamed and modified entries of
  one tree diff, each once: a deleted file is never deployed, on any CI platform and from any source.
\<close>

theorem diff_lists_no_deleted_file:
  assumes "diff_calculation env co source = Inr paths"
  shows "distinct paths \<and> (paths = [] \<or> (\<exists>(r :: Repo) base tip changes. rp_changes r base tip = Some changes
    \<and> (\<forall>p. p \<in> set paths \<longleftrightarrow> list_ex (\<lambda>c. deployable_change c p) changes)))"
proof -
  from diff_calculation_Inr [OF assms] consider "paths = []"
    | r base tip where "changed_paths (r :: Repo) base tip = Inr paths" by blast
  then show ?thesis
  proof cases
    case 2
    then obtain changes where "rp_changes r (ci_sha base) (ci_sha tip) = Some changes"
      "set paths = {p. \<exists>c \<in> set changes. deployable_change c p}" "distinct paths"
      by (rule changed_paths_Inr)
    then show ?thesis by (intro conjI disjI2 exI [of _ r] exI [of _ "ci_sha base"] exI [of _ "ci_sha tip"]) (auto simp: list_ex_iff)
  qed simp
qed

lemma diff_lists_no_deleted_file_witness:
  "distinct [''objects/rules/a.yaml'']"
proof -
  have "diff_calculation Map.empty (sample_checkouts sample_repo) LAST_COMMIT = Inr [''objects/rules/a.yaml'']"
    by (simp add: sample_repo_simps List.map_filter_def)
  from diff_lists_no_deleted_file [OF this] show ?thesis by blast
qed

text \<open>
  a shallow clone never reads as an empty change: when the checkout names the parent of its head
  without holding it, a local run and every CI push that falls back to that parent fail, naming the
  commit.
\<close>

theorem shallow_clone_is_an_error:
  assumes "repo_head r = Inr c" and "ci_parents c = p # ps" and "\<not> rp_object r p"
  shows "(co_local co = Some r \<longrightarrow> last_commit_diff co = Inl (CommitNotFound p))
    \<and> azure_range env fetch r PUSH = Inl (CommitNotFound p)
    \<and> (github_push_before env events r = None \<longrightarrow> github_range env events fetch r PUSH = Inl (CommitNotFound p))
    \<and> (env ''CI_COMMIT_BEFORE_SHA'' = None \<longrightarrow> gitlab_range env r PUSH = Inl (CommitNotFound p))"
  using production_base_shallow [OF assms] head_has_commits [OF assms(1)]
  by (simp add: last_commit_diff_def local_repository_def azure_range_def github_range_def gitlab_range_def
      first_parent_range_def)

lemma shallow_clone_is_an_error_witness:
  "azure_range Map.empty (\<lambda>x. x) (sample_repo\<lparr>rp_object := (\<lambda>_. False)\<rparr>) PUSH = Inl (CommitNotFound ''t'')"
  using shallow_clone_is_an_error [of "sample_repo\<lparr>rp_object := (\<lambda>_. False)\<rparr>" "\<lparr>ci_sha = ''m'', ci_parents = [''t'', ''h'']\<rparr>"
      "''t''" "[''h'']"]
  by (simp add: repo_head_def head_sha_def repo_commit_def sample_repo_def)

text \<open>
  when the run builds the request merged into its target (a two-parent commit whose first parent
  the checkout holds, and whose second is the request's head where the CI names it), every platform
  diffs from the target's tip, without a fetch and without a merge base.
\<close>

theorem merge_commit_diffs_from_target:
  assumes "rp_commit r sha = Some c" and "ci_parents c = [target, head]" and "has_commit r target"
    and "sha \<noteq> []" and "head \<noteq> []"
  shows "(env ''GITHUB_SHA'' = Some sha \<longrightarrow> env_value env ''GITHUB_HEAD_REF'' \<noteq> None
      \<longrightarrow> env_value env ''GITHUB_BASE_REF'' \<noteq> None \<longrightarrow> env ''GITHUB_EVENT_NAME'' = Some ''pull_request''
      \<longrightarrow> github_range env events fetch r CHANGE_REQUEST = Inr (Range r (Some target) (Some sha)))
    \<and> (env ''CI_COMMIT_SHA'' = Some sha \<longrightarrow> env ''CI_MERGE_REQUEST_EVENT_TYPE'' = Some ''merged_result''
      \<longrightarrow> env ''CI_MERGE_REQUEST_SOURCE_BRANCH_SHA'' = Some head
      \<longrightarrow> gitlab_range env r CHANGE_REQUEST = Inr (Range r (Some target) (Some sha)))
    \<and> (env ''BUILD_SOURCEVERSION'' = Some sha \<longrightarrow> env ''SYSTEM_PULLREQUEST_SOURCECOMMITID'' = Some head
      \<longrightarrow> env_value env ''SYSTEM_PULLREQUEST_SOURCEBRANCH'' \<noteq> None
      \<longrightarrow> env_value env ''SYSTEM_PULLREQUEST_TARGETBRANCHNAME'' \<noteq> None
      \<longrightarrow> azure_range env fetch r CHANGE_REQUEST = Inr (Range r (Some target) (Some sha)))"
proof -
  have "merge_first_parent r (Some sha) None = Some target"
    "merge_first_parent r (Some sha) (Some head) = Some target"
    using assms by (auto simp: merge_first_parent_Some)
  then show ?thesis
    using assms(4,5) by (auto simp: github_range_def gitlab_range_def azure_range_def env_value_def Let_def)
qed

lemma merge_commit_diffs_from_target_witness:
  "gitlab_range [''CI_COMMIT_SHA'' \<mapsto> ''m'', ''CI_MERGE_REQUEST_EVENT_TYPE'' \<mapsto> ''merged_result'',
      ''CI_MERGE_REQUEST_SOURCE_BRANCH_SHA'' \<mapsto> ''h''] sample_repo CHANGE_REQUEST
    = Inr (Range sample_repo (Some ''t'') (Some ''m''))"
  using merge_commit_diffs_from_target [of sample_repo "''m''" "\<lparr>ci_sha = ''m'', ci_parents = [''t'', ''h'']\<rparr>"
      "''t''" "''h''" "[''CI_COMMIT_SHA'' \<mapsto> ''m'', ''CI_MERGE_REQUEST_EVENT_TYPE'' \<mapsto> ''merged_result'',
      ''CI_MERGE_REQUEST_SOURCE_BRANCH_SHA'' \<mapsto> ''h'']"]
  by (simp add: sample_repo_def has_commit_def)

text \<open>
  a changed rule file directly in the rules folder is read, one in a subfolder is reported as
  nested, and what is read is always a plain name in the rules folder, never a path out of it.
\<close>

theorem changed_rules_split:
  assumes "folder = strip_slashes folder" and "folder \<noteq> []"
    and "is_rule_name name" and "CHR ''/'' \<notin> set name" and "sub \<noteq> []" and "CHR 0x0A \<notin> set sub"
    and "CHR ''/'' \<notin> set sub"
  shows "(folder @ ''/'' @ name \<in> set changed \<longrightarrow>
        folder @ ''/'' @ name \<in> set (fst (split_changed_rule_paths folder changed)))
    \<and> (folder @ ''/'' @ sub @ ''/'' @ name \<in> set changed \<longrightarrow>
        folder @ ''/'' @ sub @ ''/'' @ name \<in> set (snd (split_changed_rule_paths folder changed)))
    \<and> (modified_rule_scope env co folder source = Inr (files, nested) \<longrightarrow>
        list_all (\<lambda>f. CHR ''/'' \<notin> set f) files)"
proof (intro conjI impI)
  assume "folder @ ''/'' @ name \<in> set changed"
  moreover have "is_top_level folder (folder @ ''/'' @ name)"
    using assms by (simp add: is_top_level_def split_dir_join [simplified])
  ultimately show "folder @ ''/'' @ name \<in> set (fst (split_changed_rule_paths folder changed))"
    using assms(1) by (simp add: split_changed_rule_paths_def dollar_forms_def flip: assms(1))
next
  assume mem: "folder @ ''/'' @ sub @ ''/'' @ name \<in> set changed"
  have "split_dir ((folder @ ''/'' @ sub) @ ''/'' @ name) = (Some (folder @ ''/'' @ sub), name)"
    by (rule split_dir_join [OF assms(4)])
  then have "is_nested folder (folder @ ''/'' @ sub @ ''/'' @ name)"
    using assms by (auto simp: is_nested_def list_ex_iff starts_with_iff Let_def intro!: bexI [of _ 0])
  with mem show "folder @ ''/'' @ sub @ ''/'' @ name \<in> set (snd (split_changed_rule_paths folder changed))"
    using assms(1) by (simp add: split_changed_rule_paths_def dollar_forms_def flip: assms(1))
next
  assume "modified_rule_scope env co folder source = Inr (files, nested)"
  then show "list_all (\<lambda>f. CHR ''/'' \<notin> set f) files"
    by (auto simp: modified_rule_scope_def rbind_Inr list_all_iff split_dir_name case_prod_unfold Let_def)
qed

lemma changed_rules_split_witness:
  "''objects/rules/a.yaml'' \<in> set (fst (split_changed_rule_paths ''objects/rules'' [''objects/rules/a.yaml'']))"
  using changed_rules_split [of "''objects/rules''" "''a.yaml''" "''x''" "[''objects/rules/a.yaml'']"]
  by (simp add: strip_slashes_def is_rule_name_def ends_with_def)

end
