(* ===== verification/Planning.thy ===== *)
theory Planning
  imports Strategies
begin

text \<open>
  \<open>deployment/planning.py\<close>: which tenants take a rule, how a platform's modifiers rewrite the
  rule for a tenant, and the batches a deployer sends. A platform block is the fields planning
  reads and its dump; building a rule back from a dump (\<open>load_rule_from_dict\<close>) and the fields
  of the platform models are parameters. \<open>unroll_dot_dict\<close> is \<open>generation/framework.py\<close>.
\<close>

section \<open>Modifiers\<close>

record Conditions =
  cond_status :: "string list option"
  cond_flags :: "string list option"
  cond_tenants :: "string list option"
  cond_default :: "bool option"

record Modifier =
  mod_conditions :: Conditions
  mod_modifications :: pydict

definition set_condition :: "string list option \<Rightarrow> (string list \<Rightarrow> bool) \<Rightarrow> bool list" where
  "set_condition c check = (case c of None \<Rightarrow> [] | Some xs \<Rightarrow> if xs = [] then [] else [check xs])"

definition modifier_applies :: "Conditions \<Rightarrow> string \<Rightarrow> string \<Rightarrow> string list option \<Rightarrow> bool" where
  "modifier_applies c status tenant flags =
     (let checks =
        set_condition (cond_status c) (\<lambda>xs. status \<in> set xs)
        @ set_condition (cond_tenants c) (\<lambda>xs. tenant \<in> set xs)
        @ set_condition (cond_flags c)
            (\<lambda>xs. list_ex (\<lambda>f. f \<in> set xs) (case flags of None \<Rightarrow> [] | Some fs \<Rightarrow> fs))
      in if checks \<noteq> [] then list_all (\<lambda>b. b) checks else cond_default c = Some True)"

section \<open>Flattening and unrolling\<close>

fun is_dict :: "pyval \<Rightarrow> bool" where
  "is_dict (PDict d) = True"
| "is_dict _ = False"

definition dotted :: "string \<Rightarrow> string \<Rightarrow> string" where
  "dotted path key = (if path \<noteq> [] then path @ ''.'' @ key else key)"

fun spread :: "pyval \<Rightarrow> string \<Rightarrow> pydict \<Rightarrow> pydict" where
  "spread (PDict items) path flat =
     fold (\<lambda>(key, child) flat. spread child (dotted path (py_str key)) flat) items flat"
| "spread v path flat = AList.update (PStr path) v flat"

definition flatten_mapping :: "pydict \<Rightarrow> pydict" where
  "flatten_mapping data =
     fold (\<lambda>(key, v) flat. if is_dict v then spread v (py_str key) flat else flat) data
       (filter (\<lambda>(_, v). \<not> is_dict v) data)"

fun index_of :: "'a \<Rightarrow> 'a list \<Rightarrow> nat" where
  "index_of x [] = 0"
| "index_of x (y # ys) = (if x = y then 0 else Suc (index_of x ys))"

text \<open>The single item of the dictionary is the dotted key and its value.\<close>

definition unroll_dot_dict :: "string \<Rightarrow> string \<Rightarrow> pyval \<Rightarrow> pydict" where
  "unroll_dot_dict separator long_key value =
     (let nested_keys = rev (py_split separator long_key) in
      foldl (\<lambda>unrolled key.
          if index_of key nested_keys = 0 then AList.update (PStr key) value unrolled
          else [(PStr key, PDict unrolled)])
        [] nested_keys)"

text \<open>
  A base that is not a dictionary cannot be assigned into (\<open>Inl\<close>), unless there is nothing to
  assign.
\<close>

fun deep_update :: "pyval \<Rightarrow> pyval \<Rightarrow> unit + pyval"
  and deep_items :: "pydict \<Rightarrow> pydict \<Rightarrow> unit + pydict" where
  "deep_update base (PDict []) = Inr base"
| "deep_update (PDict base) (PDict (kv # items)) =
     (case deep_items base (kv # items) of Inl e \<Rightarrow> Inl e | Inr d \<Rightarrow> Inr (PDict d))"
| "deep_update base updating = Inl ()"
| "deep_items base [] = Inr base"
| "deep_items base ((key, value) # items) =
     (if is_dict value
      then (case deep_update (case map_of base key of None \<Rightarrow> PDict [] | Some b \<Rightarrow> b) value of
              Inl e \<Rightarrow> Inl e
            | Inr merged \<Rightarrow> deep_items (AList.update key merged base) items)
      else deep_items (AList.update key value base) items)"

section \<open>Applying the modifiers of a platform\<close>

datatype planning_error =
    NoPlatformConfiguration
  | BadStatusName status_error
  | MissingTenantsError
  | BadModification
  | RuleNotLoaded
  | RuleNotFound

text \<open>One modification value: \<open>NONE\<close> clears, \<open>prefix::x\<close> and \<open>suffix::x\<close> edit a string.\<close>

definition edited_text :: "pyval \<Rightarrow> string \<Rightarrow> string \<Rightarrow> pyval \<Rightarrow> planning_error + pyval" where
  "edited_text new_value operator text current =
     (if operator = ''prefix'' \<or> operator = ''suffix''
      then (if \<not> truthy current then Inr (PStr text)
            else case as_str_val current of
                None \<Rightarrow> Inl BadModification
              | Some s \<Rightarrow> Inr (PStr (if operator = ''prefix'' then text @ s else s @ text)))
      else Inr new_value)"

definition modification_value :: "pydict \<Rightarrow> pyval \<Rightarrow> pyval \<Rightarrow> planning_error + pyval" where
  "modification_value raw key v =
     (if v = PStr ''NONE'' \<or> v = PStr ''NULL'' then Inr PNone
      else case as_str_val v of
          None \<Rightarrow> Inr v
        | Some s \<Rightarrow>
            if \<not> contains_str ''::'' s then Inr v
            else (let operator = py_split ''::'' s ! 0; text = py_split ''::'' s ! 1 in
              case map_of (flatten_mapping raw) key of
                Some current \<Rightarrow> edited_text v operator text current
              | None \<Rightarrow> Inr (PStr text)))"

definition apply_modification ::
  "string list \<Rightarrow> pydict \<Rightarrow> pyval \<times> pyval \<Rightarrow> planning_error + pydict" where
  "apply_modification typed_roots raw = (\<lambda>(key, v).
     rbind (modification_value raw key v) (\<lambda>new_value.
       case as_str_val key of
         None \<Rightarrow> Inl BadModification
       | Some k \<Rightarrow>
           (let updated = unroll_dot_dict ''.'' k new_value in
            if updated = [] then Inr raw
            else if typed_roots \<noteq> [] \<and> fst (hd updated) \<notin> PStr ` set typed_roots then Inr raw
            else case deep_update (PDict raw) (PDict updated) of
                Inr (PDict raw') \<Rightarrow> Inr raw'
              | _ \<Rightarrow> Inl BadModification)))"

record PlatformBlock =
  pb_status :: string
  pb_tenants :: "string list option"
  pb_flags :: "string list option"
  pb_dump :: pydict

record DetectionRule =
  dr_uuid :: string
  dr_name :: string
  dr_blocks :: "(DetectionPlatforms \<times> PlatformBlock) list"
  dr_dump :: pydict

record PlatformConfiguration =
  cfg_identifier :: string
  cfg_tenants :: "Tenant list"
  cfg_modifiers :: "Modifier list"
  cfg_typed_roots :: "string list"

definition mdr_configuration_resolver :: "DetectionRule \<Rightarrow> DetectionPlatforms \<Rightarrow> planning_error + PlatformBlock" where
  "mdr_configuration_resolver rule system =
     (case map_of (dr_blocks rule) system of None \<Rightarrow> Inl NoPlatformConfiguration | Some b \<Rightarrow> Inr b)"

definition modified_block ::
  "PlatformConfiguration \<Rightarrow> PlatformBlock \<Rightarrow> string \<Rightarrow> planning_error + pydict" where
  "modified_block cfg block tenant =
     rfold (\<lambda>raw m.
       if modifier_applies (mod_conditions m) (pb_status block) tenant (pb_flags block)
       then rfold (apply_modification (cfg_typed_roots cfg)) raw (flatten_mapping (mod_modifications m))
       else Inr raw)
     (pb_dump block) (cfg_modifiers cfg)"

definition modifiers_resolver ::
  "(pydict \<Rightarrow> DetectionRule option) \<Rightarrow> (DetectionPlatforms \<Rightarrow> PlatformConfiguration) \<Rightarrow> DetectionRule
    \<Rightarrow> string \<Rightarrow> DetectionPlatforms \<Rightarrow> planning_error + DetectionRule" where
  "modifiers_resolver load_rule configuration rule tenant system =
     (let cfg = configuration system in
      rbind (mdr_configuration_resolver rule system) (\<lambda>block.
        rbind (modified_block cfg block tenant) (\<lambda>raw.
          case dget_dict (dr_dump rule) ''configurations'' of
            None \<Rightarrow> Inl BadModification
          | Some configurations \<Rightarrow>
              (let raw_data = AList.update (PStr ''configurations'')
                     (PDict (AList.update (PStr (cfg_identifier cfg)) (PDict raw) configurations))
                     (dr_dump rule)
               in case load_rule raw_data of None \<Rightarrow> Inl RuleNotLoaded | Some r \<Rightarrow> Inr r))))"

section \<open>Tenants\<close>

text \<open>\<open>run\<close> is \<open>tuple(strategies or ())\<close>, \<open>wide\<close> the context variable of \<open>--wide\<close>.\<close>

fun target_tenants ::
  "bool \<Rightarrow> RunStrategies \<Rightarrow> StatusStrategy \<Rightarrow> string list option \<Rightarrow> Tenant list \<Rightarrow> Tenant list" where
  "target_tenants wide run strategy listed [] = []"
| "target_tenants wide run strategy listed (t # ts) =
     (let rest = target_tenants wide run strategy listed ts;
          named = (case listed of None \<Rightarrow> [] | Some l \<Rightarrow> l)
      in if named \<noteq> [] \<and> tenant_name t \<notin> set named then rest
         else if named = [] \<and> tenant_manual t then rest
         else if (if wide then list_ex (\<lambda>s. s \<in> set (tenant_strategies t)) run else accepts t strategy run)
         then t # rest else rest)"

definition tenants_resolver ::
  "DeploymentStatus list \<Rightarrow> bool \<Rightarrow> (DetectionPlatforms \<Rightarrow> PlatformConfiguration) \<Rightarrow> DetectionRule
    \<Rightarrow> DetectionPlatforms \<Rightarrow> RunStrategies option \<Rightarrow> planning_error + Tenant list" where
  "tenants_resolver statuses wide configuration rule system strategies =
     rbind (mdr_configuration_resolver rule system) (\<lambda>block.
       case check_status statuses (pb_status block) of
         Inl e \<Rightarrow> Inl (BadStatusName e)
       | Inr strategy \<Rightarrow>
           if cfg_tenants (configuration system) = [] then Inl MissingTenantsError
           else Inr (target_tenants wide (case strategies of None \<Rightarrow> [] | Some s \<Rightarrow> s) strategy
                       (pb_tenants block) (cfg_tenants (configuration system))))"

section \<open>Batches\<close>

datatype deployment_entry = RuleObject DetectionRule | RuleUuid string

record DeploymentBatch =
  batch_tenant :: Tenant
  batch_rules :: "DetectionRule list"

type_synonym batches = "(string \<times> Tenant) list \<times> (string \<times> DetectionRule list) list"

definition add_to_tenant ::
  "(DetectionRule \<Rightarrow> string \<Rightarrow> planning_error + DetectionRule) \<Rightarrow> DetectionRule \<Rightarrow> batches \<Rightarrow> Tenant
    \<Rightarrow> planning_error + batches" where
  "add_to_tenant modify rule = (\<lambda>(tenants, mapping) t.
     rbind (modify rule (tenant_name t)) (\<lambda>r.
       Inr (AList.update (tenant_name t) t tenants, dappend (tenant_name t) r mapping)))"

definition entry_rule :: "(string \<Rightarrow> DetectionRule option) \<Rightarrow> deployment_entry \<Rightarrow> planning_error + DetectionRule" where
  "entry_rule rules e =
     (case e of
        RuleObject r \<Rightarrow> Inr r
      | RuleUuid u \<Rightarrow> (case rules u of None \<Rightarrow> Inl RuleNotFound | Some r \<Rightarrow> Inr r))"

definition group_by_tenant ::
  "(string \<Rightarrow> DetectionRule option) \<Rightarrow> (DetectionRule \<Rightarrow> planning_error + Tenant list)
    \<Rightarrow> (DetectionRule \<Rightarrow> string \<Rightarrow> planning_error + DetectionRule) \<Rightarrow> deployment_entry list
    \<Rightarrow> planning_error + batches" where
  "group_by_tenant rules resolve modify entries =
     rfold (\<lambda>acc e.
       rbind (entry_rule rules e) (\<lambda>rule.
         rbind (resolve rule) (\<lambda>tenants. rfold (add_to_tenant modify rule) acc tenants)))
     ([], []) entries"

definition deployment_resolver ::
  "(string \<Rightarrow> DetectionRule option) \<Rightarrow> (pydict \<Rightarrow> DetectionRule option) \<Rightarrow> DeploymentStatus list \<Rightarrow> bool
    \<Rightarrow> (DetectionPlatforms \<Rightarrow> PlatformConfiguration) \<Rightarrow> deployment_entry list \<Rightarrow> DetectionPlatforms
    \<Rightarrow> RunStrategies option \<Rightarrow> planning_error + DeploymentBatch list" where
  "deployment_resolver rules load_rule statuses wide configuration entries system strategies =
     rbind (group_by_tenant rules
              (\<lambda>rule. tenants_resolver statuses wide configuration rule system strategies)
              (\<lambda>rule tenant. modifiers_resolver load_rule configuration rule tenant system) entries)
       (\<lambda>(tenants, mapping).
          Inr (map (\<lambda>(name, rs). \<lparr>batch_tenant = the (map_of tenants name), batch_rules = rs\<rparr>) mapping))"

section \<open>Lemmas on modifiers\<close>

definition unset :: "string list option \<Rightarrow> bool" where
  "unset c = (c = None \<or> c = Some [])"

lemma set_condition_cases: "set_condition c check = (if unset c then [] else [check (the c)])"
  by (auto simp: set_condition_def unset_def split: option.splits)

text \<open>The nested dictionary of a path.\<close>

fun nest :: "string list \<Rightarrow> pyval \<Rightarrow> pydict" where
  "nest [] v = []"
| "nest [k] v = [(PStr k, v)]"
| "nest (k # l # ks) v = [(PStr k, PDict (nest (l # ks) v))]"

lemma index_of_0: "x \<in> set xs \<Longrightarrow> index_of x xs = 0 \<longleftrightarrow> x = hd xs"
  by (cases xs) auto

lemma foldl_wrap:
  assumes "\<And>k. k \<in> set ks \<Longrightarrow> index_of k nested \<noteq> 0" and "ls \<noteq> []"
  shows "foldl (\<lambda>u key. if index_of key nested = 0 then AList.update (PStr key) v u else [(PStr key, PDict u)])
           (nest ls v) ks = nest (rev ks @ ls) v"
  using assms
proof (induction ks arbitrary: ls)
  case (Cons k ks)
  have "[(PStr k, PDict (nest ls v))] = nest (k # ls) v"
    using Cons.prems(2) by (cases ls) auto
  moreover have "(index_of k nested = 0) = False" using Cons.prems(1) [of k] by simp
  ultimately have "(if index_of k nested = 0 then AList.update (PStr k) v (nest ls v) else [(PStr k, PDict (nest ls v))])
      = nest (k # ls) v" by presburger
  moreover have "foldl (\<lambda>u key. if index_of key nested = 0 then AList.update (PStr key) v u else [(PStr key, PDict u)])
      (nest (k # ls) v) ks = nest (rev ks @ k # ls) v"
    using Cons.prems(1) by (intro Cons.IH) auto
  ultimately show ?case by simp
qed simp

lemma unroll_nest:
  assumes "distinct (py_split sep key)" and "py_split sep key \<noteq> []"
  shows "unroll_dot_dict sep key v = nest (py_split sep key) v"
proof -
  define segs where "segs = rev (py_split sep key)"
  with assms have segs: "distinct segs" "segs \<noteq> []" by simp_all
  then obtain k ks where k: "segs = k # ks" by (cases segs) auto
  with segs have "k' \<in> set ks \<Longrightarrow> index_of k' segs \<noteq> 0" for k' by auto
  from foldl_wrap [of ks segs "[k]" v, OF this] have
    "foldl (\<lambda>u key. if index_of key segs = 0 then AList.update (PStr key) v u else [(PStr key, PDict u)]) [] segs
      = nest (rev segs) v"
    by (simp add: k)
  then show ?thesis by (simp add: unroll_dot_dict_def Let_def segs_def)
qed

lemma split_not_Nil: "split_acc n sep acc s \<noteq> []"
  by (induction n sep acc s rule: split_acc.induct) auto

lemma py_split_not_Nil [simp]: "py_split sep s \<noteq> []"
  by (simp add: py_split_def split_not_Nil)

lemma join_Cons: "xs \<noteq> [] \<Longrightarrow> str_join sep (x # xs) = x @ sep @ str_join sep xs"
  by (cases xs) auto

lemma join_split: "str_join [c] (py_split [c] s) = s"
proof -
  have "str_join [c] (split_acc 0 [c] acc s) = rev acc @ s" for acc
    by (induction s arbitrary: acc) (auto simp: join_Cons split_not_Nil)
  then show ?thesis by (simp add: py_split_def)
qed

lemma spread_nest:
  assumes "path \<noteq> []" and "ks \<noteq> []" and "\<not> is_dict v"
  shows "spread (PDict (nest ks v)) path flat = AList.update (PStr (path @ ''.'' @ str_join ''.'' ks)) v flat"
  using assms
proof (induction ks v arbitrary: path rule: nest.induct)
  case (2 k v)
  then show ?case by (cases v) (auto simp: dotted_def)
next
  case (3 k l ks v)
  from 3(1) [of "path @ ''.'' @ k"] 3(2,4) show ?case by (simp add: dotted_def)
qed simp

lemma flatten_nest:
  assumes "ks \<noteq> []" and "hd ks \<noteq> []" and "\<not> is_dict v"
  shows "flatten_mapping (nest ks v) = [(PStr (str_join ''.'' ks), v)]"
proof (cases ks)
  case (Cons k ls)
  then show ?thesis
    using assms spread_nest [of k ls v "[]"] by (cases ls) (auto simp: flatten_mapping_def)
qed (use assms in simp)

text \<open>The value at a path of a nested dictionary.\<close>

fun pget :: "pyval \<Rightarrow> string list \<Rightarrow> pyval option" where
  "pget v [] = Some v"
| "pget v (k # ks) =
     (case as_dict_val v of
        None \<Rightarrow> None
      | Some d \<Rightarrow> (case dget d k of None \<Rightarrow> None | Some x \<Rightarrow> pget x ks))"

definition unrelated :: "string list \<Rightarrow> string list \<Rightarrow> bool" where
  "unrelated p q \<longleftrightarrow> take (min (length p) (length q)) p \<noteq> take (min (length p) (length q)) q"

lemma unrelated_Cons [simp]:
  "unrelated (a # p) (b # q) \<longleftrightarrow> a \<noteq> b \<or> unrelated p q" "\<not> unrelated [] q" "\<not> unrelated p []"
  by (auto simp: unrelated_def)

lemma deep_items_single:
  assumes "deep_items b [(PStr k, v)] = Inr d"
  shows "if is_dict v then \<exists>m. deep_update (case dget b k of None \<Rightarrow> PDict [] | Some x \<Rightarrow> x) v = Inr m
           \<and> d = AList.update (PStr k) m b
         else d = AList.update (PStr k) v b"
  using assms by (auto simp: dget_def split: sum.splits if_splits)

lemma nest_not_Nil: "ks \<noteq> [] \<Longrightarrow> nest ks v \<noteq> []"
  by (cases "(ks, v)" rule: nest.cases) auto

lemma deep_update_nest:
  assumes "deep_update base (PDict (nest ks v)) = Inr r" and "ks \<noteq> []" and "\<not> is_dict v"
  shows "(\<exists>d. r = PDict d) \<and> pget r ks = Some v \<and> (\<forall>q. unrelated ks q \<longrightarrow> pget r q = pget base q)"
  using assms
proof (induction ks v arbitrary: base r rule: nest.induct)
  case (2 k v)
  then obtain b d where b: "base = PDict b" "r = PDict d" "deep_items b [(PStr k, v)] = Inr d"
    by (cases base) (auto split: sum.splits)
  with deep_items_single 2 have d: "d = AList.update (PStr k) v b" by force
  have "pget r q = pget base q" if "unrelated [k] q" for q
    using that by (cases q) (auto simp: b d)
  then show ?case by (simp add: b d)
next
  case (3 k l ks v)
  from 3(2) obtain b d where b: "base = PDict b" "r = PDict d"
    "deep_items b [(PStr k, PDict (nest (l # ks) v))] = Inr d"
    by (cases base) (auto split: sum.splits)
  let ?inner = "case dget b k of None \<Rightarrow> PDict [] | Some x \<Rightarrow> x"
  from deep_items_single [OF b(3)] obtain m where m: "deep_update ?inner (PDict (nest (l # ks) v)) = Inr m"
    and d: "d = AList.update (PStr k) m b" by auto
  from 3(1) [OF m] 3(4) have ih: "pget m (l # ks) = Some v" "\<forall>q. unrelated (l # ks) q \<longrightarrow> pget m q = pget ?inner q"
    by auto
  have "pget r q = pget base q" if un: "unrelated (k # l # ks) q" for q
  proof (cases q)
    case (Cons k' q')
    show ?thesis
    proof (cases "k' = k")
      case True
      with un Cons have un': "unrelated (l # ks) q'" by simp
      then have "q' \<noteq> []" by (cases q') auto
      then have "pget (PDict []) q' = None" by (cases q') auto
      with ih(2) un' True Cons show ?thesis by (auto simp: b d split: option.splits)
    next
      case False
      with Cons show ?thesis by (simp add: b d)
    qed
  qed (use un in simp)
  with ih(1) show ?case by (simp add: b d)
qed auto

section \<open>Lemmas on tenants and batches\<close>

definition reaches :: "bool \<Rightarrow> RunStrategies \<Rightarrow> StatusStrategy \<Rightarrow> string list option \<Rightarrow> Tenant \<Rightarrow> bool" where
  "reaches wide run strategy listed t \<longleftrightarrow>
     (if unset listed then \<not> tenant_manual t else tenant_name t \<in> set (the listed))
   \<and> (\<exists>s \<in> set run. s \<in> set (tenant_strategies t) \<and> (wide \<or> deploys strategy s))"

lemma target_tenants_filter: "target_tenants wide run strategy listed ts = filter (reaches wide run strategy listed) ts"
  by (induction ts)
    (auto simp: reaches_def unset_def accepts_iff list_ex_iff Let_def split: option.splits if_splits)

definition tenant_rules ::
  "(string \<Rightarrow> DetectionRule option) \<Rightarrow> (DetectionRule \<Rightarrow> planning_error + Tenant list)
    \<Rightarrow> (DetectionRule \<Rightarrow> string \<Rightarrow> planning_error + DetectionRule) \<Rightarrow> string \<Rightarrow> deployment_entry
    \<Rightarrow> DetectionRule list" where
  "tenant_rules rules resolve modify name e =
     (case entry_rule rules e of
        Inl _ \<Rightarrow> []
      | Inr r \<Rightarrow>
          (case resolve r of
             Inl _ \<Rightarrow> []
           | Inr ts \<Rightarrow> concat (map (\<lambda>t. if tenant_name t = name
                then (case modify r name of Inl _ \<Rightarrow> [] | Inr r' \<Rightarrow> [r']) else []) ts)))"

definition batches_ok :: "batches \<Rightarrow> bool" where
  "batches_ok = (\<lambda>(tenants, mapping).
     distinct (map fst mapping) \<and> set (map fst tenants) = set (map fst mapping)
   \<and> (\<forall>name t. map_of tenants name = Some t \<longrightarrow> tenant_name t = name)
   \<and> (\<forall>(name, rs) \<in> set mapping. rs \<noteq> []))"

lemma batches_ok_add:
  assumes "add_to_tenant modify rule (tenants, mapping) t = Inr (tenants', mapping')" and "batches_ok (tenants, mapping)"
  shows "batches_ok (tenants', mapping') \<and> (\<forall>name. dget_list mapping' name = dget_list mapping name
     @ (if tenant_name t = name then (case modify rule name of Inl _ \<Rightarrow> [] | Inr r \<Rightarrow> [r]) else []))"
proof -
  from assms(1) obtain r where r: "modify rule (tenant_name t) = Inr r"
    and t': "tenants' = AList.update (tenant_name t) t tenants" and m': "mapping' = dappend (tenant_name t) r mapping"
    by (auto simp: add_to_tenant_def rbind_Inr)
  have ne: "rs \<noteq> []" if "(name, rs) \<in> set mapping'" for name rs
  proof -
    from that consider "(name, rs) \<in> set mapping" | "rs = (case map_of mapping (tenant_name t) of None \<Rightarrow> [r] | Some xs \<Rightarrow> xs @ [r])"
      using set_update_subset [of "tenant_name t" _ mapping] by (fastforce simp: m' dappend_def)
    then show ?thesis using assms(2) by cases (auto simp: batches_ok_def split: option.splits)
  qed
  have "distinct (map fst mapping')" "set (map fst tenants') = set (map fst mapping')"
    using assms(2) by (simp_all add: batches_ok_def t' m' distinct_dappend keys_dappend dom_update)
  moreover have "tenant_name t'' = name" if "map_of tenants' name = Some t''" for name t''
    using that assms(2) by (simp add: batches_ok_def t' split: if_splits)
  moreover have "\<forall>(name, rs) \<in> set mapping'. rs \<noteq> []" using ne by blast
  ultimately have "batches_ok (tenants', mapping')" by (simp add: batches_ok_def)
  moreover have "\<forall>name. dget_list mapping' name = dget_list mapping name
     @ (if tenant_name t = name then (case modify rule name of Inl _ \<Rightarrow> [] | Inr r \<Rightarrow> [r]) else [])"
    using r by (simp add: m')
  ultimately show ?thesis by blast
qed

lemma batches_ok_adds:
  assumes "rfold (add_to_tenant modify rule) (tenants, mapping) ts = Inr (tenants', mapping')"
    and "batches_ok (tenants, mapping)"
  shows "batches_ok (tenants', mapping') \<and> (\<forall>name. dget_list mapping' name = dget_list mapping name
     @ concat (map (\<lambda>t. if tenant_name t = name then (case modify rule name of Inl _ \<Rightarrow> [] | Inr r \<Rightarrow> [r]) else []) ts))"
  using assms
proof (induction ts arbitrary: tenants mapping)
  case (Cons t ts)
  then obtain tenants1 mapping1 where one: "add_to_tenant modify rule (tenants, mapping) t = Inr (tenants1, mapping1)"
    and rest: "rfold (add_to_tenant modify rule) (tenants1, mapping1) ts = Inr (tenants', mapping')"
    by (auto split: sum.splits)
  from batches_ok_add [OF one Cons.prems(2)] Cons.IH [OF rest] show ?case by simp
qed simp

lemma group_by_tenant_Inr:
  assumes "group_by_tenant rules resolve modify entries = Inr (tenants, mapping)"
  shows "batches_ok (tenants, mapping)
    \<and> (\<forall>name. dget_list mapping name = concat (map (tenant_rules rules resolve modify name) entries))"
proof -
  let ?step = "\<lambda>acc e. rbind (entry_rule rules e) (\<lambda>rule. rbind (resolve rule)
      (\<lambda>tenants. rfold (add_to_tenant modify rule) acc tenants))"
  have "batches_ok acc' \<and> (\<forall>name. dget_list (snd acc') name = dget_list (snd acc) name
       @ concat (map (tenant_rules rules resolve modify name) es))"
    if "rfold ?step acc es = Inr acc'" "batches_ok acc" for acc acc' es
    using that
  proof (induction es arbitrary: acc)
    case (Cons e es)
    then obtain acc1 where one: "?step acc e = Inr acc1" and rest: "rfold ?step acc1 es = Inr acc'"
      by (auto split: sum.splits)
    from one obtain r ts where r: "entry_rule rules e = Inr r" "resolve r = Inr ts"
      and adds: "rfold (add_to_tenant modify r) acc ts = Inr acc1"
      by (auto simp: rbind_Inr)
    obtain t0 m0 t1 m1 where [simp]: "acc = (t0, m0)" "acc1 = (t1, m1)"
      by (cases acc; cases acc1)
    from batches_ok_adds [of modify r t0 m0 ts t1 m1] adds Cons.prems(2) Cons.IH [OF rest] r
    show ?case by (simp add: tenant_rules_def)
  qed simp
  from this [of "([], [])" entries "(tenants, mapping)"] assms show ?thesis
    by (simp add: group_by_tenant_def batches_ok_def)
qed

lemma dget_list_filter: "distinct (map fst m) \<Longrightarrow> concat (map snd (filter (\<lambda>kr. fst kr = n) m)) = dget_list m n"
proof (induction m)
  case (Cons kr m)
  moreover have "filter (\<lambda>kr. fst kr = n) m = []" if "n \<notin> fst ` set m"
    using that by (auto simp: filter_empty_conv)
  ultimately show ?case by (cases kr) (auto simp: dget_list_def)
qed simp

section \<open>Properties\<close>

text \<open>
  a modifier applies exactly when every condition it sets holds: a set status list contains the
  rule's status, a set tenant list the tenant, a set flag list one of the rule's flags; with no
  condition set it applies exactly when it is the default.
\<close>

theorem modifier_applies_iff:
  "modifier_applies c status tenant flags \<longleftrightarrow>
     (if unset (cond_status c) \<and> unset (cond_tenants c) \<and> unset (cond_flags c)
      then cond_default c = Some True
      else (unset (cond_status c) \<or> status \<in> set (the (cond_status c)))
         \<and> (unset (cond_tenants c) \<or> tenant \<in> set (the (cond_tenants c)))
         \<and> (unset (cond_flags c)
            \<or> (\<exists>f. f \<in> set (case flags of None \<Rightarrow> [] | Some fs \<Rightarrow> fs) \<and> f \<in> set (the (cond_flags c)))))"
  by (auto simp: modifier_applies_def set_condition_cases list_ex_iff Let_def)

text \<open>
  for a dotted key whose segments are distinct (and whose first is not empty), unrolling it and
  flattening the result gives the key and its value back.
\<close>

theorem unroll_flatten_roundtrip:
  assumes "distinct (py_split ''.'' key)" and "hd (py_split ''.'' key) \<noteq> []" and "\<not> is_dict v"
  shows "flatten_mapping (unroll_dot_dict ''.'' key v) = [(PStr key, v)]"
  using assms by (simp add: unroll_nest flatten_nest join_split)

lemma unroll_flatten_roundtrip_witness:
  "flatten_mapping (unroll_dot_dict ''.'' ''alert.name'' (PInt 3)) = [(PStr ''alert.name'', PInt 3)]"
  by (rule unroll_flatten_roundtrip) (simp_all add: py_split_def)

text \<open>
  a key with a repeated segment loses its nesting when it is unrolled: \<open>query.query\<close> becomes
  the single key \<open>query\<close>, and \<open>a.b.a\<close> becomes a dictionary with an extra top-level entry.
\<close>

theorem unroll_repeated_segment:
  "unroll_dot_dict ''.'' ''query.query'' v = [(PStr ''query'', v)]
 \<and> unroll_dot_dict ''.'' ''a.b.a'' v = [(PStr ''b'', PDict [(PStr ''a'', v)]), (PStr ''a'', v)]"
  by (simp add: unroll_dot_dict_def py_split_def)

text \<open>
  A nested modification below a section the rule leaves unset (its dump holds \<open>None\<close>) raises.
\<close>

lemma nested_modification_of_unset_section:
  "apply_modification [] [(PStr ''alert'', PNone)] (PStr ''alert.severity'', PInt 3) = Inl BadModification"
  by (simp add: apply_modification_def modification_value_def unroll_dot_dict_def py_split_def Let_def)

text \<open>
  one modification writes one place: when it succeeds for a key with distinct segments, either
  the block is unchanged (a root the platform model does not have) or the value at the key's path is
  the modified value and every unrelated path of the block reads as before.
\<close>

theorem modification_writes_one_path:
  assumes "apply_modification roots raw (PStr key, v) = Inr raw'" and "distinct (py_split ''.'' key)"
    and "\<not> is_dict v"
  shows "raw' = raw \<or> (\<exists>new. modification_value raw (PStr key) v = Inr new
      \<and> pget (PDict raw') (py_split ''.'' key) = Some new
      \<and> (\<forall>q. unrelated (py_split ''.'' key) q \<longrightarrow> pget (PDict raw') q = pget (PDict raw) q))"
proof -
  from assms(1) obtain new where new: "modification_value raw (PStr key) v = Inr new"
    by (auto simp: apply_modification_def rbind_Inr)
  have nd: "\<not> is_dict new"
    using new assms(3) by (auto simp: modification_value_def edited_text_def Let_def split: if_splits option.splits)
  from assms(1) new have "raw' = raw \<or> deep_update (PDict raw) (PDict (unroll_dot_dict ''.'' key new)) = Inr (PDict raw')"
    by (auto simp: apply_modification_def Let_def split: if_splits sum.splits pyval.splits)
  then show ?thesis
  proof
    assume "deep_update (PDict raw) (PDict (unroll_dot_dict ''.'' key new)) = Inr (PDict raw')"
    then have "deep_update (PDict raw) (PDict (nest (py_split ''.'' key) new)) = Inr (PDict raw')"
      using assms(2) by (simp add: unroll_nest)
    from deep_update_nest [OF this py_split_not_Nil nd] new show ?thesis by blast
  qed simp
qed

lemma modification_writes_one_path_witness:
  "pget (PDict [(PStr ''name'', PStr ''[T] R'')]) [''name''] = Some (PStr ''[T] R'')"
proof -
  have app: "apply_modification [] [(PStr ''name'', PStr ''R'')] (PStr ''name'', PStr ''prefix::[T] '')
      = Inr [(PStr ''name'', PStr ''[T] R'')]"
    by (simp add: apply_modification_def modification_value_def edited_text_def py_split_def flatten_mapping_def
        unroll_dot_dict_def)
  from modification_writes_one_path [OF app] show ?thesis by (simp add: py_split_def)
qed

text \<open>
  C6: a tenant takes a rule exactly when it is configured, is listed by the rule (or the rule lists
  none and the tenant is not manual), and accepts a run strategy that deploys the rule's status (under
  \<open>--wide\<close> any run strategy); the tenants keep the order of the configuration.
\<close>

theorem tenants_resolver_exact:
  assumes "tenants_resolver statuses wide configuration rule system strategies = Inr ts"
  shows "\<exists>block strategy. map_of (dr_blocks rule) system = Some block
    \<and> check_status statuses (pb_status block) = Inr strategy
    \<and> ts = filter (\<lambda>t. (if unset (pb_tenants block) then \<not> tenant_manual t
              else tenant_name t \<in> set (the (pb_tenants block)))
            \<and> list_ex (\<lambda>s. s \<in> set (tenant_strategies t) \<and> (wide \<or> deploys strategy s))
                (case strategies of None \<Rightarrow> [] | Some run \<Rightarrow> run))
          (cfg_tenants (configuration system))"
proof -
  from assms obtain block strategy where b: "map_of (dr_blocks rule) system = Some block"
    "check_status statuses (pb_status block) = Inr strategy"
    and ts: "ts = target_tenants wide (case strategies of None \<Rightarrow> [] | Some s \<Rightarrow> s) strategy (pb_tenants block)
        (cfg_tenants (configuration system))"
    by (auto simp: tenants_resolver_def mdr_configuration_resolver_def rbind_Inr
        split: option.splits sum.splits if_splits)
  show ?thesis
    using b ts by (auto simp: target_tenants_filter reaches_def list_ex_iff Bex_def conj_ac intro!: filter_cong)
qed

definition sample_tenant :: Tenant where
  "sample_tenant = \<lparr>tenant_name = ''Prod'', tenant_description = [], tenant_setup = PNone,
     tenant_strategies = [RELEASE], tenant_manual = False\<rparr>"

definition sample_detection_rule :: DetectionRule where
  "sample_detection_rule = \<lparr>dr_uuid = ''u1'', dr_name = ''R'', dr_blocks = [(SENTINEL, \<lparr>pb_status = ''PRODUCTION'',
       pb_tenants = None, pb_flags = None, pb_dump = []\<rparr>)],
     dr_dump = [(PStr ''configurations'', PDict [])]\<rparr>"

definition sample_configuration :: PlatformConfiguration where
  "sample_configuration = \<lparr>cfg_identifier = ''sentinel'', cfg_tenants = [sample_tenant], cfg_modifiers = [],
     cfg_typed_roots = []\<rparr>"

definition sample_statuses :: "DeploymentStatus list" where
  "sample_statuses = [\<lparr>status_name = ''PRODUCTION'', status_strategy = StrategyMember RELEASE\<rparr>]"

lemma sample_tenants:
  "tenants_resolver sample_statuses False (\<lambda>_. sample_configuration) sample_detection_rule SENTINEL (Some [RELEASE])
     = Inr [sample_tenant]"
  by (simp add: tenants_resolver_def mdr_configuration_resolver_def sample_detection_rule_def sample_statuses_def
      sample_configuration_def sample_tenant_def accepts_def strategy_defs)

lemma tenants_resolver_exact_witness:
  "\<exists>block strategy. map_of (dr_blocks sample_detection_rule) SENTINEL = Some block
    \<and> check_status sample_statuses (pb_status block) = Inr strategy \<and> deploys strategy RELEASE"
proof -
  from tenants_resolver_exact [OF sample_tenants] obtain block strategy where
    b: "map_of (dr_blocks sample_detection_rule) SENTINEL = Some block"
    "check_status sample_statuses (pb_status block) = Inr strategy"
    and ts: "[sample_tenant] = filter (\<lambda>t. (if unset (pb_tenants block) then \<not> tenant_manual t
              else tenant_name t \<in> set (the (pb_tenants block)))
            \<and> list_ex (\<lambda>s. s \<in> set (tenant_strategies t) \<and> (False \<or> deploys strategy s))
                (case Some [RELEASE] of None \<Rightarrow> [] | Some run \<Rightarrow> run))
          (cfg_tenants sample_configuration)" by blast
  from arg_cong [OF ts, of set] have "deploys strategy RELEASE" by auto
  with b show ?thesis by blast
qed

text \<open>
  C18: the batches have one entry per tenant reached, none empty, and each holds, in the order of the
  plan, every rule that reaches the tenant, rewritten by the tenant's modifiers: no rule is lost,
  duplicated or sent to another tenant.
\<close>

theorem deployment_resolver_exact:
  assumes "deployment_resolver rules load_rule statuses wide configuration entries system strategies = Inr batches"
  shows "distinct (map (\<lambda>b. tenant_name (batch_tenant b)) batches)
    \<and> (\<forall>name. concat (map batch_rules (filter (\<lambda>b. tenant_name (batch_tenant b) = name) batches)) =
        concat (map (tenant_rules rules
          (\<lambda>rule. tenants_resolver statuses wide configuration rule system strategies)
          (\<lambda>rule tenant. modifiers_resolver load_rule configuration rule tenant system) name) entries))
    \<and> list_all (\<lambda>b. batch_rules b \<noteq> []) batches"
proof -
  let ?resolve = "\<lambda>rule. tenants_resolver statuses wide configuration rule system strategies"
  let ?modify = "\<lambda>rule tenant. modifiers_resolver load_rule configuration rule tenant system"
  from assms obtain tenants mapping where g: "group_by_tenant rules ?resolve ?modify entries = Inr (tenants, mapping)"
    and b: "batches = map (\<lambda>(name, rs). \<lparr>batch_tenant = the (map_of tenants name), batch_rules = rs\<rparr>) mapping"
    by (auto simp: deployment_resolver_def rbind_Inr)
  from group_by_tenant_Inr [OF g] have ok: "batches_ok (tenants, mapping)"
    and rules: "\<And>name. dget_list mapping name = concat (map (tenant_rules rules ?resolve ?modify name) entries)"
    by auto
  have name: "tenant_name (the (map_of tenants n)) = n" if "n \<in> fst ` set mapping" for n
  proof -
    from that ok have "n \<in> fst ` set tenants" by (auto simp: batches_ok_def)
    then obtain t where "map_of tenants n = Some t" by (metis map_of_eq_None_iff option.exhaust)
    with ok show ?thesis by (simp add: batches_ok_def)
  qed
  have names: "map (\<lambda>b. tenant_name (batch_tenant b)) batches = map fst mapping"
    by (auto simp: b name rev_image_eqI)
  have "filter (\<lambda>b. tenant_name (batch_tenant b) = n) batches =
      map (\<lambda>(name, rs). \<lparr>batch_tenant = the (map_of tenants name), batch_rules = rs\<rparr>)
        (filter (\<lambda>kr. fst kr = n) mapping)" for n
    unfolding b filter_map by (rule arg_cong [of _ _ "map _"], rule filter_cong [OF refl]) (auto simp: name rev_image_eqI)
  then have "concat (map batch_rules (filter (\<lambda>b. tenant_name (batch_tenant b) = n) batches)) = dget_list mapping n" for n
    using ok by (simp add: batches_ok_def comp_def case_prod_unfold dget_list_filter)
  moreover have "distinct (map (\<lambda>b. tenant_name (batch_tenant b)) batches)"
    using ok by (simp add: names batches_ok_def)
  moreover have "list_all (\<lambda>b. batch_rules b \<noteq> []) batches"
    using ok by (auto simp: b batches_ok_def list_all_iff)
  ultimately show ?thesis using rules by simp
qed

lemma deployment_resolver_exact_witness:
  "\<exists>batches. deployment_resolver Map.empty (\<lambda>_. Some sample_detection_rule) sample_statuses False
      (\<lambda>_. sample_configuration) [RuleObject sample_detection_rule] SENTINEL (Some [RELEASE]) = Inr batches
    \<and> list_all (\<lambda>b. batch_rules b \<noteq> []) batches"
proof -
  have modify: "modifiers_resolver (\<lambda>_. Some sample_detection_rule) (\<lambda>_. sample_configuration) sample_detection_rule t SENTINEL
      = Inr sample_detection_rule" for t
    by (simp add: modifiers_resolver_def mdr_configuration_resolver_def sample_detection_rule_def modified_block_def
        sample_configuration_def dget_dict_def dget_none_def Let_def)
  then have "\<exists>batches. deployment_resolver Map.empty (\<lambda>_. Some sample_detection_rule) sample_statuses False
      (\<lambda>_. sample_configuration) [RuleObject sample_detection_rule] SENTINEL (Some [RELEASE]) = Inr batches"
    by (simp add: deployment_resolver_def group_by_tenant_def entry_rule_def sample_tenants add_to_tenant_def)
  then obtain batches where b: "deployment_resolver Map.empty (\<lambda>_. Some sample_detection_rule) sample_statuses False
      (\<lambda>_. sample_configuration) [RuleObject sample_detection_rule] SENTINEL (Some [RELEASE]) = Inr batches" by blast
  from deployment_resolver_exact [OF b] b show ?thesis by blast
qed

end
