(* ===== verification/State_Replay.thy ===== *)
theory State_Replay
  imports Deploy_State "HOL-Library.Product_Lexorder"
begin

text \<open>
  \<open>ci/state_replay.py\<close>: applying what one commit changed in the deployment state onto the
  checkout. What \<open>git diff\<close> names, and the shard before and after the commit
  (\<open>git show\<close>), are parameters; the working tree is the shard directory, so the changed files
  are the ones directly in it.
\<close>

record ReplayResult =
  re_written :: "string list"
  re_removed :: "string list"
  re_conflicts :: "string list"

type_synonym binding_map = "((string \<times> string) \<times> string) list"

text \<open>The stem of \<open>Path(path)\<close> for a name that ends in \<open>.json\<close>.\<close>

definition path_stem :: "string \<Rightarrow> string" where
  "path_stem name = (if 5 < length name then take (length name - 5) name else name)"

definition state_of_text :: "json_file option \<Rightarrow> string \<Rightarrow> state_code + DeploymentState" where
  "state_of_text text name =
     (case text of
        None \<Rightarrow> Inr (empty_state name (path_stem name))
      | Some content \<Rightarrow> from_file name content None)"

definition binding_dict :: "DeploymentState \<Rightarrow> binding_map" where
  "binding_dict st = map (\<lambda>(platform, tenant, ext). ((platform, tenant), ext)) (bindings st)"

definition optional_repr :: "string option \<Rightarrow> string" where
  "optional_repr v = (case v of None \<Rightarrow> ''None'' | Some s \<Rightarrow> str_repr s)"

definition conflict_line :: "string \<Rightarrow> string \<Rightarrow> string \<Rightarrow> string option \<Rightarrow> string option \<Rightarrow> string" where
  "conflict_line path platform tenant ours theirs =
     ''deployment_state_conflict '' @ path @ '' '' @ platform @ ''/'' @ tenant @ '': kept ''
       @ optional_repr ours @ '', the default branch had '' @ optional_repr theirs"

text \<open>One key that the commit changed: set on the tip, or removed from it.\<close>

definition replay_key ::
  "string \<Rightarrow> binding_map \<Rightarrow> binding_map \<Rightarrow> binding_map \<Rightarrow> DeploymentState \<times> string list
    \<Rightarrow> string \<times> string \<Rightarrow> state_code + (DeploymentState \<times> string list)" where
  "replay_key path base ours tip_bindings = (\<lambda>(tip, conflicts) (platform, tenant).
     let key = (platform, tenant); theirs = map_of tip_bindings key in
     if map_of base key = map_of ours key then Inr (tip, conflicts)
     else
       let conflicts' = (if theirs = map_of base key \<or> theirs = map_of ours key then conflicts
                         else conflicts @ [conflict_line path platform tenant (map_of ours key) theirs])
       in (case map_of ours key of
             Some v \<Rightarrow>
               (case state_set tip platform tenant (PStr v) of
                  Inl e \<Rightarrow> Inl e
                | Inr (_, tip') \<Rightarrow> Inr (tip', conflicts'))
           | None \<Rightarrow> Inr (snd (state_remove tip platform tenant), conflicts')))"

definition changed_keys :: "binding_map \<Rightarrow> binding_map \<Rightarrow> (string \<times> string) list" where
  "changed_keys base ours = sort (remdups (map fst base @ map fst ours))"

text \<open>\<open>setdefault\<close> for every root key this version does not know.\<close>

definition keep_extra :: "DeploymentState \<Rightarrow> DeploymentState \<Rightarrow> DeploymentState" where
  "keep_extra ours tip = tip\<lparr>st_extra :=
     fold (\<lambda>(k, v) d. if map_of d k = None then AList.update k v d else d) (st_extra ours) (st_extra tip)\<rparr>"

definition merged_tip ::
  "string \<Rightarrow> DeploymentState \<Rightarrow> DeploymentState \<Rightarrow> DeploymentState
    \<Rightarrow> state_code + (DeploymentState \<times> string list)" where
  "merged_tip path base ours tip =
     rbind (rfold (replay_key path (binding_dict base) (binding_dict ours) (binding_dict tip)) (tip, [])
              (changed_keys (binding_dict base) (binding_dict ours)))
       (\<lambda>(tip', conflicts). Inr (keep_extra ours tip', conflicts))"

definition tip_state :: "dirlist \<Rightarrow> string \<Rightarrow> state_code + DeploymentState" where
  "tip_state dir name =
     (case map_of dir name of
        Some (FFile content) \<Rightarrow> from_file name content None
      | _ \<Rightarrow> Inr (empty_state name (path_stem name)))"

definition replay_file ::
  "bool \<Rightarrow> (string \<Rightarrow> json_file option) \<Rightarrow> (string \<Rightarrow> json_file option) \<Rightarrow> string
    \<Rightarrow> dirlist \<Rightarrow> state_code + (DeploymentState \<times> string list \<times> dirlist)" where
  "replay_file wr before after name dir =
     rbind (state_of_text (before name) name) (\<lambda>base.
     rbind (state_of_text (after name) name) (\<lambda>ours.
     rbind (tip_state dir name) (\<lambda>tip.
     rbind (merged_tip name base ours tip) (\<lambda>(tip', conflicts).
     rbind (save_state wr tip' dir) (\<lambda>(saved, dir').
       Inr (saved, conflicts, dir'))))))"

fun replay_files ::
  "bool \<Rightarrow> (string \<Rightarrow> json_file option) \<Rightarrow> (string \<Rightarrow> json_file option) \<Rightarrow> string list \<Rightarrow> ReplayResult
    \<Rightarrow> dirlist \<Rightarrow> (state_code + ReplayResult) \<times> dirlist" where
  "replay_files wr before after [] r dir = (Inr r, dir)"
| "replay_files wr before after (name # names) r dir =
     (case replay_file wr before after name dir of
        Inl e \<Rightarrow> (Inl e, dir)
      | Inr (saved, conflicts, dir') \<Rightarrow>
          replay_files wr before after names
            (if st_platforms saved \<noteq> []
             then r\<lparr>re_conflicts := re_conflicts r @ conflicts, re_written := re_written r @ [name]\<rparr>
             else r\<lparr>re_conflicts := re_conflicts r @ conflicts, re_removed := re_removed r @ [name]\<rparr>)
            dir')"

definition replay ::
  "bool \<Rightarrow> (string \<Rightarrow> json_file option) \<Rightarrow> (string \<Rightarrow> json_file option) \<Rightarrow> string list \<Rightarrow> dirlist
    \<Rightarrow> (state_code + ReplayResult) \<times> dirlist" where
  "replay wr before after changed dir =
     replay_files wr before after (filter (ends_with ''.json'') changed)
       \<lparr>re_written = [], re_removed = [], re_conflicts = []\<rparr> dir"

section \<open>The merge of one shard\<close>

lemma map_of_binding_dict:
  assumes "distinct (map fst (st_platforms st))"
  shows "map_of (binding_dict st) (p, t) = lookup_binding (st_platforms st) (p, t)"
proof -
  have "map_of (concat (map (\<lambda>(platform, tenants). map (\<lambda>(tenant, ext). ((platform, tenant), ext)) tenants) ps)) (p, t)
      = map_of (tenants_of ps p) t" if "distinct (map fst ps)" for ps :: platform_map
    using that
  proof (induction ps)
    case (Cons x ps)
    obtain q ts where [simp]: "x = (q, ts)" by (cases x)
    have one: "map_of (map (\<lambda>(tenant, ext). ((q, tenant), ext)) ts) (p, t) = (if q = p then map_of ts t else None)"
      by (induction ts) auto
    have "map_of ps p = None" if "q = p" using Cons.prems that by (simp add: map_of_eq_None_iff)
    with one Cons show ?case
      by (auto simp: map_add_def tenants_of_def split: option.splits)
  qed (simp add: tenants_of_def)
  from this [OF assms] show ?thesis
    by (simp add: binding_dict_def bindings_def map_concat comp_def case_prod_unfold)
qed

lemma shard_ok_distinct: "shard_ok st \<Longrightarrow> distinct (map fst (st_platforms st))"
  by (simp add: shard_ok_def platforms_ok_def)

abbreviation state_lookup :: "DeploymentState \<Rightarrow> string \<times> string \<Rightarrow> string option" where
  "state_lookup st \<equiv> lookup_binding (st_platforms st)"

lemma lookup_admissible:
  assumes "platforms_ok ps" and "lookup_binding ps k = Some v"
  shows "binding_ok k v"
proof -
  obtain p t where k: "k = (p, t)" by (cases k)
  with assms(2) obtain ts where ts: "map_of ps p = Some ts" "map_of ts t = Some v"
    by (auto simp: tenants_of_def split: option.splits)
  then have "(p, ts) \<in> set ps" "(t, v) \<in> set ts" by (auto dest: map_of_SomeD)
  with assms(1) show ?thesis by (fastforce simp: k platforms_ok_def tenants_ok_def list_all_iff)
qed

definition apply_change :: "(string \<times> string) \<times> string option \<Rightarrow> platform_map \<Rightarrow> platform_map" where
  "apply_change = (\<lambda>(k, c) s. case c of None \<Rightarrow> drop_tenant s k | Some v \<Rightarrow> bind_tenant s k v)"

definition change_of :: "binding_map \<Rightarrow> binding_map \<Rightarrow> string \<times> string \<Rightarrow> ((string \<times> string) \<times> string option) list" where
  "change_of base ours k = (if map_of base k = map_of ours k then [] else [(k, map_of ours k)])"

definition conflict_of ::
  "string \<Rightarrow> binding_map \<Rightarrow> binding_map \<Rightarrow> binding_map \<Rightarrow> string \<times> string \<Rightarrow> string list" where
  "conflict_of path base ours tips k =
     (if map_of base k = map_of ours k \<or> map_of tips k = map_of base k \<or> map_of tips k = map_of ours k then []
      else [conflict_line path (fst k) (snd k) (map_of ours k) (map_of tips k)])"

lemma replay_key_Inr:
  assumes "replay_key path base ours tips (tip, cs) k = Inr (tip', cs')" and "py_strip (snd k) = snd k"
  shows "tip' = tip\<lparr>st_platforms := fold apply_change (change_of base ours k) (st_platforms tip)\<rparr>
    \<and> cs' = cs @ conflict_of path base ours tips k"
proof -
  obtain p t where [simp]: "k = (p, t)" by (cases k)
  have "tenant_key t = t" using assms(2) by (simp add: tenant_key_def)
  then show ?thesis
    using assms(1)
    by (auto simp: replay_key_def Let_def apply_change_def change_of_def conflict_of_def state_remove_eq
        state_set_Inr dest: normalise_PStr split: if_splits option.splits sum.splits)
qed

lemma replay_keys_Inr:
  assumes "rfold (replay_key path base ours tips) (tip, cs) keys = Inr (tip', cs')"
    and "\<And>k. k \<in> set keys \<Longrightarrow> py_strip (snd k) = snd k"
  shows "tip' = tip\<lparr>st_platforms := fold apply_change (concat (map (change_of base ours) keys)) (st_platforms tip)\<rparr>
    \<and> cs' = cs @ concat (map (conflict_of path base ours tips) keys)"
  using assms
proof (induction keys arbitrary: tip cs)
  case (Cons k keys)
  then obtain tip1 cs1 where one: "replay_key path base ours tips (tip, cs) k = Inr (tip1, cs1)"
    and rest: "rfold (replay_key path base ours tips) (tip1, cs1) keys = Inr (tip', cs')"
    by (auto split: sum.splits)
  from replay_key_Inr [OF one] Cons.IH [OF rest] Cons.prems(2) show ?case by simp
qed simp

lemma changed_keys_set: "set (changed_keys base ours) = dom (map_of base) \<union> dom (map_of ours)"
  by (simp add: changed_keys_def dom_map_of_conv_image_fst)

lemma map_of_changes:
  assumes "distinct keys"
  shows "map_of (concat (map (change_of base ours) keys)) k =
    (if k \<in> set keys \<and> map_of base k \<noteq> map_of ours k then Some (map_of ours k) else None)"
  using assms by (induction keys) (auto simp: change_of_def)

lemma distinct_changes: "distinct keys \<Longrightarrow> distinct (map fst (concat (map (change_of base ours) keys)))"
  by (induction keys) (auto simp: change_of_def)

lemma fold_changes:
  assumes "platforms_ok ps" and "\<And>k v. map_of ours k = Some v \<Longrightarrow> binding_ok k v" and "distinct keys"
  shows "platforms_ok (fold apply_change (concat (map (change_of base ours) keys)) ps)"
    and "lookup_binding (fold apply_change (concat (map (change_of base ours) keys)) ps) k =
      (if k \<in> set keys \<and> map_of base k \<noteq> map_of ours k then map_of ours k else lookup_binding ps k)"
proof -
  let ?d = "concat (map (change_of base ours) keys)"
  have adm: "binding_ok k v" if "(k, Some v) \<in> set ?d" for k v
    using that assms(2) by (auto simp: change_of_def split: if_splits)
  show "platforms_ok (fold apply_change ?d ps)"
    unfolding apply_change_def by (rule ds.ok_delta [OF assms(1) adm])
  have "lookup_binding (fold apply_change ?d ps) k = (case map_of ?d k of None \<Rightarrow> lookup_binding ps k | Some c \<Rightarrow> c)"
    unfolding apply_change_def by (rule ds.lookup_delta [OF assms(1) adm distinct_changes [OF assms(3)]])
  then show "lookup_binding (fold apply_change ?d ps) k =
      (if k \<in> set keys \<and> map_of base k \<noteq> map_of ours k then map_of ours k else lookup_binding ps k)"
    by (simp add: map_of_changes [OF assms(3)])
qed

lemma keep_extra_simps [simp]:
  "st_platforms (keep_extra ours tip) = st_platforms tip" "st_path (keep_extra ours tip) = st_path tip"
  "st_uuid (keep_extra ours tip) = st_uuid tip"
  by (simp_all add: keep_extra_def)

text \<open>The three-way merge of one shard.\<close>

definition three_way :: "DeploymentState \<Rightarrow> DeploymentState \<Rightarrow> DeploymentState \<Rightarrow> string \<times> string \<Rightarrow> string option" where
  "three_way base ours tip k =
     (if state_lookup base k = state_lookup ours k then state_lookup tip k else state_lookup ours k)"

lemma binding_dict_lookup: "platforms_ok (st_platforms st) \<Longrightarrow> map_of (binding_dict st) k = state_lookup st k"
  by (cases k) (simp add: map_of_binding_dict platforms_ok_def del: lookup_binding.simps)

lemma merged_tip_Inr:
  assumes "merged_tip path base ours tip = Inr (tip', conflicts)"
    and "platforms_ok (st_platforms base)" "platforms_ok (st_platforms ours)" "platforms_ok (st_platforms tip)"
  shows "platforms_ok (st_platforms tip') \<and> state_lookup tip' = three_way base ours tip
    \<and> st_path tip' = st_path tip \<and> st_uuid tip' = st_uuid tip
    \<and> st_extra tip' = st_extra (keep_extra ours tip)
    \<and> (conflicts = [] \<longleftrightarrow> (\<forall>k. state_lookup base k = state_lookup ours k
          \<or> state_lookup tip k = state_lookup base k \<or> state_lookup tip k = state_lookup ours k))"
proof -
  let ?b = "binding_dict base" and ?o = "binding_dict ours" and ?t = "binding_dict tip"
  let ?keys = "changed_keys ?b ?o"
  have look: "map_of ?b k = state_lookup base k" "map_of ?o k = state_lookup ours k" "map_of ?t k = state_lookup tip k" for k
    using assms(2-4) by (simp_all add: binding_dict_lookup del: lookup_binding.simps)
  have keys: "set ?keys = {k. state_lookup base k \<noteq> None \<or> state_lookup ours k \<noteq> None}"
    by (auto simp: changed_keys_set dom_def look simp del: lookup_binding.simps)
  have in_keys: "state_lookup base k \<noteq> state_lookup ours k \<Longrightarrow> k \<in> set ?keys" for k
    unfolding keys
    by (cases "state_lookup base k"; cases "state_lookup ours k") (auto simp del: lookup_binding.simps)
  have strip: "py_strip (snd k) = snd k" if "k \<in> set ?keys" for k
  proof -
    from that keys obtain v where "state_lookup base k = Some v \<or> state_lookup ours k = Some v"
      by (auto simp del: lookup_binding.simps)
    then have "binding_ok k v" using assms(2,3) lookup_admissible by blast
    then show ?thesis by (cases k) (simp add: entry_ok_def)
  qed
  have dist: "distinct ?keys" by (simp add: changed_keys_def)
  from assms(1) obtain tip1 where r: "rfold (replay_key path ?b ?o ?t) (tip, []) ?keys = Inr (tip1, conflicts)"
    and tip': "tip' = keep_extra ours tip1"
    by (auto simp: merged_tip_def rbind_Inr)
  from replay_keys_Inr [OF r strip] have
    tip1: "tip1 = tip\<lparr>st_platforms := fold apply_change (concat (map (change_of ?b ?o) ?keys)) (st_platforms tip)\<rparr>"
    and cs: "conflicts = concat (map (conflict_of path ?b ?o ?t) ?keys)" by auto
  have adm: "binding_ok k v" if "map_of ?o k = Some v" for k v
    using that assms(3) lookup_admissible by (simp add: look del: lookup_binding.simps)
  have "platforms_ok (st_platforms tip1)"
    by (simp add: tip1 fold_changes(1) [OF assms(4) adm dist])
  moreover have "state_lookup tip1 k = three_way base ours tip k" for k
  proof -
    have "state_lookup tip1 k =
        (if k \<in> set ?keys \<and> map_of ?b k \<noteq> map_of ?o k then map_of ?o k else state_lookup tip k)"
      using fold_changes(2) [OF assms(4) adm dist, where base = ?b and k = k]
      by (simp add: tip1 del: lookup_binding.simps split del: if_split)
    moreover note in_keys [of k]
    ultimately show ?thesis
      by (auto simp: look three_way_def simp del: lookup_binding.simps)
  qed
  moreover have "conflicts = [] \<longleftrightarrow> (\<forall>k. state_lookup base k = state_lookup ours k
          \<or> state_lookup tip k = state_lookup base k \<or> state_lookup tip k = state_lookup ours k)"
  proof -
    have "conflict_of path ?b ?o ?t k = [] \<longleftrightarrow> state_lookup base k = state_lookup ours k
          \<or> state_lookup tip k = state_lookup base k \<or> state_lookup tip k = state_lookup ours k" for k
      by (simp add: conflict_of_def look del: lookup_binding.simps)
    then show ?thesis unfolding cs using in_keys by (auto simp del: lookup_binding.simps)
  qed
  ultimately show ?thesis
    by (auto simp: tip' fun_eq_iff keep_extra_def tip1 simp del: lookup_binding.simps)
qed

section \<open>The merge on disk\<close>

lemma from_file_any: "from_file name content (Some u) = Inr st \<Longrightarrow> from_file name content None = Inr st"
  by (auto simp: from_file_def split: option.splits if_splits)

lemma from_file_facts:
  assumes "from_file name content expected = Inr st"
  shows "shard_ok st \<and> st_path st = name \<and> st_uuid st = path_stem name \<and> canonical_or_none (path_stem name) = Some (path_stem name)
    \<and> name = path_stem name @ ''.json''"
proof -
  have "shard_ok st" "st_path st = name" using from_file_ok [OF assms] from_file_name [OF assms] by simp_all
  moreover from assms obtain stem where "json_stem name = Some stem" by (auto simp: from_file_def split: option.splits)
  then have "name = stem @ ''.json''" "stem \<noteq> []" by (rule json_stem_Some, auto simp: json_stem_def split: if_splits)
  then have "name = stem @ ''.json''" "path_stem name = stem" by (auto simp: path_stem_def)
  ultimately show ?thesis by (auto simp: shard_ok_def)
qed

lemma state_of_text_ok:
  assumes "state_of_text content_opt name = Inr st"
  shows "platforms_ok (st_platforms st) \<and> distinct (map fst (st_extra st)) \<and> set (map fst (st_extra st)) \<inter> set root_keys = {}"
proof (cases content_opt)
  case None
  with assms have "st = empty_state name (path_stem name)" by (simp add: state_of_text_def)
  then show ?thesis by (simp add: empty_state_def)
next
  case (Some content)
  with assms have "from_file name content None = Inr st" by (simp add: state_of_text_def)
  from from_file_ok [OF this] show ?thesis by (simp add: shard_ok_def)
qed

lemma tip_state_cases:
  assumes "tip_state dir name = Inr st"
  shows "st = empty_state name (path_stem name) \<or> (shard_ok st \<and> st_path st = name \<and> st_uuid st = path_stem name)"
  using assms from_file_facts by (auto simp: tip_state_def split: option.splits fsnode.splits)

lemma keep_extra_ok:
  assumes "distinct (map fst (st_extra tip))" "set (map fst (st_extra tip)) \<inter> set root_keys = {}"
    and "set (map fst (st_extra ours)) \<inter> set root_keys = {}"
  shows "distinct (map fst (st_extra (keep_extra ours tip))) \<and> set (map fst (st_extra (keep_extra ours tip))) \<inter> set root_keys = {}"
proof -
  have "distinct (map fst (fold (\<lambda>(k, v) d. if map_of d k = None then AList.update k v d else d) xs d0))
    \<and> set (map fst (fold (\<lambda>(k, v) d. if map_of d k = None then AList.update k v d else d) xs d0)) \<inter> R = {}"
    if "distinct (map fst d0)" "set (map fst d0) \<inter> R = {}" "set (map fst xs) \<inter> R = {}"
    for xs d0 :: "(string \<times> pyval) list" and R
    using that
  proof (induction xs arbitrary: d0)
    case (Cons kv xs)
    obtain k v where [simp]: "kv = (k, v)" by (cases kv)
    show ?case
      using Cons.prems Cons.IH [of "AList.update k v d0"] Cons.IH [of d0]
      by (auto simp: distinct_update dom_update)
  qed simp
  from this [of "st_extra tip" "set root_keys" "st_extra ours"] assms show ?thesis by (simp add: keep_extra_def)
qed

lemma tip_state_saved:
  assumes "save_state wr st dir = Inr (saved, dir')" and "shard_ok st" and "st_path st = name"
    and "\<And>c. map_of dir name = Some (FDir c) \<Longrightarrow> False"
  obtains st' where "tip_state dir' name = Inr st'" and "state_lookup st' = state_lookup st"
proof (cases "st_platforms st = []")
  case True
  have "state_lookup (empty_state name (path_stem name)) = state_lookup st"
    by (auto simp: fun_eq_iff empty_state_def tenants_of_def True)
  moreover have "tip_state dir' name = Inr (empty_state name (path_stem name))"
    using assms(1,3) True
    by (auto simp: save_state_def tip_state_def split: option.splits fsnode.splits if_splits)
  ultimately show thesis using that by blast
next
  case False
  with assms(1,3) have w: "write_durable wr name (render st) dir = Inr dir'"
    by (auto simp: save_state_def split: sum.splits)
  obtain st' where r: "from_file (st_path st) (JsonDoc (render st)) (Some (st_uuid st)) = Inr st'"
    and look: "lookup_binding (st_platforms st') = lookup_binding (st_platforms st)"
    using read_render [OF assms(2)] by metis
  have "name \<noteq> tmp_name name"
    using assms(2,3) by (metis shard_ok_def tmp_name_neq)
  then have "map_of dir' name = Some (FFile (JsonDoc (render st)))"
    by (simp add: write_durable_Inr [OF w])
  then have "tip_state dir' name = Inr st'"
    using from_file_any [OF r] assms(3) by (simp add: tip_state_def)
  with look that show thesis by blast
qed

lemma save_frame:
  assumes "save_state wr st dir = Inr (saved, dir')" and "n \<noteq> st_path st" and "n \<noteq> tmp_name (st_path st)"
  shows "map_of dir' n = map_of dir n"
proof (cases "st_platforms st = []")
  case True
  with assms show ?thesis by (auto simp: save_state_def split: option.splits fsnode.splits if_splits)
next
  case False
  with assms(1) have "write_durable wr (st_path st) (render st) dir = Inr dir'"
    by (auto simp: save_state_def split: sum.splits)
  from write_durable_Inr [OF this] assms(2,3) show ?thesis by simp
qed

lemma save_not_dir: "save_state wr st dir = Inr x \<Longrightarrow> map_of dir (st_path st) \<noteq> Some (FDir c)"
  by (auto simp: save_state_def write_durable_def split: if_splits option.splits fsnode.splits)

lemma replay_file_Inr:
  assumes "replay_file wr before after name dir = Inr (saved, conflicts, dir')"
    and "before name \<noteq> None \<or> after name \<noteq> None"
  obtains base ours tip tip' where "state_of_text (before name) name = Inr base"
    and "state_of_text (after name) name = Inr ours" and "tip_state dir name = Inr tip"
    and "tip_state dir' name = Inr tip'" and "state_lookup tip' = three_way base ours tip"
    and "conflicts = [] \<longleftrightarrow> (\<forall>k. state_lookup base k = state_lookup ours k
          \<or> state_lookup tip k = state_lookup base k \<or> state_lookup tip k = state_lookup ours k)"
    and "\<forall>n. n \<noteq> name \<and> n \<noteq> tmp_name name \<longrightarrow> map_of dir' n = map_of dir n"
proof -
  from assms(1) obtain base ours tip merged where s: "state_of_text (before name) name = Inr base"
    "state_of_text (after name) name = Inr ours" "tip_state dir name = Inr tip"
    and m: "merged_tip name base ours tip = Inr (merged, conflicts)"
    and save: "save_state wr merged dir = Inr (saved, dir')"
    by (auto simp: replay_file_def rbind_Inr)
  have canon: "canonical_or_none (path_stem name) = Some (path_stem name) \<and> name = path_stem name @ ''.json''"
    using assms(2) s(1,2) from_file_facts by (fastforce simp: state_of_text_def split: option.splits)
  have ok: "shard_ok tip \<and> st_path tip = name \<and> st_uuid tip = path_stem name"
    using tip_state_cases [OF s(3)] shard_ok_empty [of "path_stem name"] canon
    by (auto simp: empty_state_def)
  have pl: "platforms_ok (st_platforms base)" "platforms_ok (st_platforms ours)" "platforms_ok (st_platforms tip)"
    using s ok state_of_text_ok by (auto simp: shard_ok_def)
  note merged = merged_tip_Inr [OF m pl]
  have mok: "shard_ok merged" "st_path merged = name"
    using merged ok canon keep_extra_ok [of tip ours] state_of_text_ok [OF s(2)] by (auto simp: shard_ok_def)
  obtain tip' where t: "tip_state dir' name = Inr tip'" "state_lookup tip' = state_lookup merged"
    using tip_state_saved [OF save mok] save_not_dir [OF save] mok(2) by metis
  show thesis
  proof (rule that [OF s t(1)])
    show "state_lookup tip' = three_way base ours tip" using t(2) merged by simp
    show "\<forall>n. n \<noteq> name \<and> n \<noteq> tmp_name name \<longrightarrow> map_of dir' n = map_of dir n"
      using save_frame [OF save] mok(2) by simp
  qed (use merged in blast)
qed

section \<open>Properties\<close>

definition sample_shard :: "string \<Rightarrow> json_file" where
  "sample_shard ext = JsonDoc (doc_of [(''schema'', PStr schema_id), (''object_uuid'', PStr (uuid_str 7)),
     (''platforms'', doc_of [(''crowdstrike'', doc_of [(''Prod'', PStr ext)])])])"

definition sample_name :: string where
  "sample_name = uuid_str 7 @ ''.json''"

definition sample_ours :: DeploymentState where
  "sample_ours = \<lparr>st_path = sample_name, st_uuid = uuid_str 7, st_platforms = [(''crowdstrike'', [(''Prod'', ''a1'')])],
     st_extra = [], st_exists = True\<rparr>"

lemma path_stem_json [simp]: "path_stem (s @ ''.json'') = (if s = [] then ''.json'' else s)"
  by (simp add: path_stem_def)

lemma strip_prod [simp]: "py_strip ''Prod'' = ''Prod''"
  by (simp add: py_strip_def py_rstrip_def py_lstrip_def is_py_space_def)

lemma normalise_a1: "normalise_external_id ''crowdstrike'' (PStr ''a1'') = Inr ''a1''"
  by (simp add: normalise_external_id.simps integer_id_platforms_def py_strip_def py_rstrip_def py_lstrip_def is_py_space_def)

lemma sample_from_file: "from_file sample_name (sample_shard ''a1'') None = Inr sample_ours"
  by (simp add: from_file_def sample_name_def sample_shard_def canonical_or_none_def sample_uuid read_payload_def doc_of_def
      dget_none_def dget_str_def dget_dict_def state_platforms_def normalise_a1 extra_items_def root_keys_def sample_ours_def)

lemma sample_replay:
  obtains saved dir' where "replay_file True (\<lambda>_. None) (\<lambda>_. Some (sample_shard ''a1'')) sample_name []
    = Inr (saved, [], dir')"
proof -
  have texts: "state_of_text None sample_name = Inr (empty_state sample_name (uuid_str 7))"
    "state_of_text (Some (sample_shard ''a1'')) sample_name = Inr sample_ours"
    "tip_state [] sample_name = Inr (empty_state sample_name (uuid_str 7))"
    by (simp_all add: state_of_text_def tip_state_def sample_from_file) (simp_all add: sample_name_def)
  have "\<exists>m. merged_tip sample_name (empty_state sample_name (uuid_str 7)) sample_ours (empty_state sample_name (uuid_str 7))
      = Inr (m, []) \<and> st_platforms m \<noteq> []"
    by (simp add: merged_tip_def binding_dict_def bindings_def empty_state_def sample_ours_def changed_keys_def replay_key_def
        state_set_def state_platforms_def tenant_key_def normalise_a1)
  then obtain m where m: "merged_tip sample_name (empty_state sample_name (uuid_str 7)) sample_ours
      (empty_state sample_name (uuid_str 7)) = Inr (m, [])" "st_platforms m \<noteq> []" by blast
  then have "\<exists>x. save_state True m [] = Inr x" by (simp add: save_state_def write_durable_def)
  with m texts that show thesis by (auto simp: replay_file_def)
qed

text \<open>
  C8: replaying a commit onto a shard is a three-way merge per platform and tenant: a binding the
  commit changed (added, replaced or removed) takes the commit's value, every other binding keeps the
  checkout's, no other shard is touched, and a conflict is reported exactly when the checkout had a
  value that is neither the commit's nor its parent's.
\<close>

theorem replay_is_three_way_merge:
  assumes "replay_file wr before after name dir = Inr (saved, conflicts, dir')"
    and "before name \<noteq> None \<or> after name \<noteq> None"
  shows "\<exists>base ours tip tip'. state_of_text (before name) name = Inr base
    \<and> state_of_text (after name) name = Inr ours \<and> tip_state dir name = Inr tip \<and> tip_state dir' name = Inr tip'
    \<and> (\<forall>k. lookup_binding (st_platforms tip') k =
        (if lookup_binding (st_platforms base) k = lookup_binding (st_platforms ours) k
         then lookup_binding (st_platforms tip) k else lookup_binding (st_platforms ours) k))
    \<and> (conflicts = [] \<longleftrightarrow> (\<forall>k. lookup_binding (st_platforms tip) k \<in>
          {lookup_binding (st_platforms base) k, lookup_binding (st_platforms ours) k}
        \<or> lookup_binding (st_platforms base) k = lookup_binding (st_platforms ours) k))
    \<and> (\<forall>n. n \<noteq> name \<and> n \<noteq> tmp_name name \<longrightarrow> map_of dir' n = map_of dir n)"
proof -
  obtain base ours tip tip' where f: "state_of_text (before name) name = Inr base"
    "state_of_text (after name) name = Inr ours" "tip_state dir name = Inr tip"
    "tip_state dir' name = Inr tip'" "state_lookup tip' = three_way base ours tip"
    "conflicts = [] \<longleftrightarrow> (\<forall>k. state_lookup base k = state_lookup ours k
          \<or> state_lookup tip k = state_lookup base k \<or> state_lookup tip k = state_lookup ours k)"
    "\<forall>n. n \<noteq> name \<and> n \<noteq> tmp_name name \<longrightarrow> map_of dir' n = map_of dir n"
    by (rule replay_file_Inr [OF assms])
  have "lookup_binding (st_platforms tip') k =
        (if lookup_binding (st_platforms base) k = lookup_binding (st_platforms ours) k
         then lookup_binding (st_platforms tip) k else lookup_binding (st_platforms ours) k)" for k
    by (simp only: f(5) three_way_def)
  moreover have "conflicts = [] \<longleftrightarrow> (\<forall>k. lookup_binding (st_platforms tip) k \<in>
          {lookup_binding (st_platforms base) k, lookup_binding (st_platforms ours) k}
        \<or> lookup_binding (st_platforms base) k = lookup_binding (st_platforms ours) k)"
    unfolding f(6) by blast
  ultimately show ?thesis
    using f(1-4,7) by (intro exI [of _ base] exI [of _ ours] exI [of _ tip] exI [of _ tip'] conjI) simp_all
qed

lemma replay_is_three_way_merge_witness:
  "\<exists>dir' ours tip'. state_of_text (Some (sample_shard ''a1'')) sample_name = Inr ours \<and> tip_state dir' sample_name = Inr tip'
     \<and> lookup_binding (st_platforms tip') (''crowdstrike'', ''Prod'') = Some ''a1''"
proof -
  obtain saved dir' where r: "replay_file True (\<lambda>_. None) (\<lambda>_. Some (sample_shard ''a1'')) sample_name []
    = Inr (saved, [], dir')" by (rule sample_replay)
  from replay_is_three_way_merge [OF r] obtain base ours tip' and tip :: DeploymentState where
    "state_of_text None sample_name = Inr base" and o: "state_of_text (Some (sample_shard ''a1'')) sample_name = Inr ours"
    and t: "tip_state dir' sample_name = Inr tip'"
    and l: "\<forall>k. lookup_binding (st_platforms tip') k =
        (if lookup_binding (st_platforms base) k = lookup_binding (st_platforms ours) k
         then lookup_binding (st_platforms tip) k else lookup_binding (st_platforms ours) k)" by blast
  moreover from this have "st_platforms base = []" "ours = sample_ours"
    by (simp_all add: state_of_text_def sample_from_file) (auto simp: empty_state_def)
  ultimately have "lookup_binding (st_platforms tip') (''crowdstrike'', ''Prod'') = Some ''a1''"
    by (simp add: sample_ours_def tenants_of_def)
  with o t show ?thesis by blast
qed

text \<open>
  replaying the same commit twice changes nothing the second time and reports no conflict.
\<close>

theorem replay_idempotent:
  assumes "replay_file wr before after name dir = Inr (saved, conflicts, dir')"
    and "replay_file wr' before after name dir' = Inr (saved', conflicts', dir'')"
    and "before name \<noteq> None \<or> after name \<noteq> None"
  shows "conflicts' = [] \<and> (\<exists>tip' tip''. tip_state dir' name = Inr tip' \<and> tip_state dir'' name = Inr tip''
    \<and> lookup_binding (st_platforms tip'') = lookup_binding (st_platforms tip'))"
proof -
  obtain base ours tip tip' where 1: "state_of_text (before name) name = Inr base"
    "state_of_text (after name) name = Inr ours" "tip_state dir' name = Inr tip'" "state_lookup tip' = three_way base ours tip"
    by (rule replay_file_Inr [OF assms(1,3)])
  obtain base2 ours2 tip2 tip'' where 2: "state_of_text (before name) name = Inr base2"
    "state_of_text (after name) name = Inr ours2" "tip_state dir' name = Inr tip2"
    "tip_state dir'' name = Inr tip''" "state_lookup tip'' = three_way base2 ours2 tip2"
    "conflicts' = [] \<longleftrightarrow> (\<forall>k. state_lookup base2 k = state_lookup ours2 k
          \<or> state_lookup tip2 k = state_lookup base2 k \<or> state_lookup tip2 k = state_lookup ours2 k)"
    by (rule replay_file_Inr [OF assms(2,3)])
  from 1(1-3) 2(1-3) have eq: "base2 = base" "ours2 = ours" "tip2 = tip'" by simp_all
  have "conflicts' = []" unfolding 2(6) eq by (simp add: 1(4) three_way_def del: lookup_binding.simps)
  moreover have "state_lookup tip'' = state_lookup tip'"
    unfolding 2(5) eq by (simp add: fun_eq_iff three_way_def 1(4) del: lookup_binding.simps)
  ultimately show ?thesis using 1(3) 2(4) by blast
qed

lemma sample_unchanged_replay:
  obtains saved where "replay_file True (\<lambda>_. Some (sample_shard ''a1'')) (\<lambda>_. Some (sample_shard ''a1'')) sample_name []
    = Inr (saved, [], [])"
proof -
  have texts: "state_of_text (Some (sample_shard ''a1'')) sample_name = Inr sample_ours"
    "tip_state [] sample_name = Inr (empty_state sample_name (uuid_str 7))"
    by (simp_all add: state_of_text_def tip_state_def sample_from_file) (simp_all add: sample_name_def)
  have "merged_tip sample_name sample_ours sample_ours (empty_state sample_name (uuid_str 7))
      = Inr (empty_state sample_name (uuid_str 7), [])"
    by (simp add: merged_tip_def binding_dict_def bindings_def empty_state_def sample_ours_def changed_keys_def replay_key_def
        keep_extra_def)
  moreover have "\<exists>saved. save_state True (empty_state sample_name (uuid_str 7)) [] = Inr (saved, [])"
    by (simp add: save_state_def empty_state_def)
  ultimately show thesis using texts that by (auto simp: replay_file_def)
qed

lemma replay_idempotent_witness:
  "\<exists>tip'. tip_state [] sample_name = Inr tip'"
proof -
  obtain saved where r: "replay_file True (\<lambda>_. Some (sample_shard ''a1'')) (\<lambda>_. Some (sample_shard ''a1'')) sample_name []
    = Inr (saved, [], [])" by (rule sample_unchanged_replay)
  from replay_idempotent [OF r r] show ?thesis by auto
qed

end
