(* ===== verification/Share_Ledger.thy ===== *)
theory Share_Ledger
  imports Py_Prelude
begin

text \<open>
  The sharing ledger, \<open>sharing/ledger.py\<close>: one JSON object per line, keyed by the object, the
  integration and the target, with lines it cannot read kept as they are. The JSON reader and writer
  are parameters (\<open>parse\<close>, \<open>dump\<close>); a file is its text.
\<close>

section \<open>Entries\<close>

type_synonym triple = "string \<times> string \<times> string"

datatype ledger_entry = Line pydict | Opaque string

type_synonym ledger = "ledger_entry list"

definition identity_value :: "pydict \<Rightarrow> string \<Rightarrow> string option" where
  "identity_value d key =
     (case dget_str d key of None \<Rightarrow> None | Some v \<Rightarrow> if v = [] then None else Some v)"

definition triple_of :: "pydict \<Rightarrow> triple option" where
  "triple_of d =
     (case (identity_value d ''object_uuid'', identity_value d ''integration'', identity_value d ''target'') of
        (Some u, Some i, Some t) \<Rightarrow> Some (u, i, t)
      | _ \<Rightarrow> None)"

fun entry_triple :: "ledger_entry \<Rightarrow> triple option" where
  "entry_triple (Line d) = triple_of d"
| "entry_triple (Opaque s) = None"

section \<open>Reading\<close>

definition parse_line :: "(string \<Rightarrow> pyval option) \<Rightarrow> string \<Rightarrow> ledger_entry" where
  "parse_line parse line =
     (case parse line of Some (PDict d) \<Rightarrow> Line d | _ \<Rightarrow> Opaque line)"

text \<open>
  \<open>_collapse\<close>: the index of the last line of each triple, then the lines that are the last of
  theirs and every line without a triple.
\<close>

fun last_index :: "nat \<Rightarrow> (triple \<times> nat) list \<Rightarrow> ledger \<Rightarrow> (triple \<times> nat) list" where
  "last_index n acc [] = acc"
| "last_index n acc (e # es) =
     last_index (Suc n) (case entry_triple e of None \<Rightarrow> acc | Some t \<Rightarrow> AList.update t n acc) es"

fun keep_last :: "(triple \<times> nat) list \<Rightarrow> nat \<Rightarrow> ledger \<Rightarrow> ledger" where
  "keep_last index n [] = []"
| "keep_last index n (e # es) =
     (case entry_triple e of
        Some t \<Rightarrow> (if map_of index t \<noteq> Some n then keep_last index (Suc n) es
                   else e # keep_last index (Suc n) es)
      | None \<Rightarrow> e # keep_last index (Suc n) es)"

definition collapse :: "ledger \<Rightarrow> ledger" where
  "collapse entries = keep_last (last_index 0 [] entries) 0 entries"

definition load_ledger :: "(string \<Rightarrow> pyval option) \<Rightarrow> string option \<Rightarrow> ledger" where
  "load_ledger parse content =
     (case content of
        None \<Rightarrow> []
      | Some body \<Rightarrow>
          if py_strip body = [] then []
          else collapse (map (parse_line parse) (filter (\<lambda>l. py_strip l \<noteq> []) (splitlines body))))"

section \<open>Operations\<close>

definition records :: "ledger \<Rightarrow> pydict list" where
  "records entries =
     List.map_filter (\<lambda>e. case e of
         Line d \<Rightarrow> (if triple_of d \<noteq> None then Some d else None) | Opaque _ \<Rightarrow> None) entries"

definition ledger_get :: "ledger \<Rightarrow> triple \<Rightarrow> pydict option" where
  "ledger_get entries wanted =
     foldl (\<lambda>found e. case e of
         Line d \<Rightarrow> (if triple_of d = Some wanted then Some d else found)
       | Opaque _ \<Rightarrow> found) None entries"

text \<open>\<open>put\<close> raises a \<open>ValueError\<close> (\<open>Inl\<close>) for a record without an identity.\<close>

definition without_triple :: "triple \<Rightarrow> ledger \<Rightarrow> ledger" where
  "without_triple t entries = filter (\<lambda>e. entry_triple e \<noteq> Some t) entries"

definition ledger_put :: "ledger \<Rightarrow> pydict \<Rightarrow> unit + ledger" where
  "ledger_put entries r =
     (case triple_of r of
        None \<Rightarrow> Inl ()
      | Some t \<Rightarrow> Inr (without_triple t entries @ [Line r]))"

definition ledger_discard :: "ledger \<Rightarrow> triple \<Rightarrow> bool \<times> ledger" where
  "ledger_discard entries wanted =
     (list_ex (\<lambda>e. entry_triple e = Some wanted) entries, without_triple wanted entries)"

definition render_entry :: "(pydict \<Rightarrow> string) \<Rightarrow> ledger_entry \<Rightarrow> string" where
  "render_entry dump e =
     (case e of
        Opaque s \<Rightarrow> if ends_with [CHR 0x0A] s then s else s @ [CHR 0x0A]
      | Line d \<Rightarrow> dump d @ [CHR 0x0A])"

text \<open>\<open>save\<close>: the entries afterwards and the text of the file.\<close>

definition save_ledger :: "(pydict \<Rightarrow> string) \<Rightarrow> ledger \<Rightarrow> ledger \<times> string" where
  "save_ledger dump entries =
     (let kept = collapse entries in (kept, concat (map (render_entry dump) kept)))"

definition ledger_length :: "ledger \<Rightarrow> nat" where
  "ledger_length entries = length (filter (\<lambda>e. entry_triple e \<noteq> None) entries)"

section \<open>The last line of a triple\<close>

fun last_lines :: "ledger \<Rightarrow> ledger" where
  "last_lines [] = []"
| "last_lines (e # es) =
     (if entry_triple e \<noteq> None \<and> entry_triple e \<in> entry_triple ` set es then last_lines es
      else e # last_lines es)"

lemma last_index_absent:
  "Some t \<notin> entry_triple ` set es \<Longrightarrow> map_of (last_index n acc es) t = map_of acc t"
  by (induction n acc es rule: last_index.induct) (auto split: option.splits)

lemma last_index_present:
  "Some t \<in> entry_triple ` set es \<Longrightarrow> \<exists>j \<ge> n. map_of (last_index n acc es) t = Some j"
proof (induction n acc es rule: last_index.induct)
  case (2 n acc e es)
  let ?acc = "case entry_triple e of None \<Rightarrow> acc | Some t \<Rightarrow> AList.update t n acc"
  show ?case
  proof (cases "Some t \<in> entry_triple ` set es")
    case True
    with 2(1) obtain j where "j \<ge> Suc n" "map_of (last_index (Suc n) ?acc es) t = Some j" by blast
    then show ?thesis by (intro exI [of _ j]) simp
  next
    case False
    with 2(2) have "entry_triple e = Some t" by auto
    with last_index_absent [OF False, of "Suc n" ?acc] show ?thesis by (intro exI [of _ n]) simp
  qed
qed simp

lemma keep_last_lines: "keep_last (last_index n acc es) n es = last_lines es"
proof (induction es arbitrary: n acc)
  case (Cons e es)
  let ?acc = "case entry_triple e of None \<Rightarrow> acc | Some t \<Rightarrow> AList.update t n acc"
  have ih: "keep_last (last_index (Suc n) ?acc es) (Suc n) es = last_lines es" by (rule Cons.IH)
  show ?case
  proof (cases "entry_triple e")
    case (Some t)
    show ?thesis
    proof (cases "Some t \<in> entry_triple ` set es")
      case True
      obtain j where "j \<ge> Suc n" "map_of (last_index (Suc n) ?acc es) t = Some j"
        using last_index_present [OF True, of "Suc n" ?acc] by blast
      with ih Some True show ?thesis by auto
    next
      case False
      from last_index_absent [OF False, of "Suc n" ?acc] ih Some False show ?thesis by auto
    qed
  qed (use ih in simp)
qed simp

lemma collapse_last_lines: "collapse es = last_lines es"
  by (simp add: collapse_def keep_last_lines)

lemma get_append:
  "ledger_get (es @ [e]) t = (if entry_triple e = Some t then (case e of Line d \<Rightarrow> Some d | Opaque _ \<Rightarrow> None)
     else ledger_get es t)"
  by (cases e) (simp_all add: ledger_get_def)

lemma get_foldl:
  "foldl (\<lambda>found e. case e of Line d \<Rightarrow> (if triple_of d = Some t then Some d else found) | Opaque _ \<Rightarrow> found) acc es
   = (if Some t \<in> entry_triple ` set es then ledger_get es t else acc)"
proof (induction es rule: rev_induct)
  case (snoc e es)
  then show ?case by (cases e) (auto simp: ledger_get_def)
qed simp

lemma get_Cons:
  "ledger_get (e # es) t =
     (if Some t \<in> entry_triple ` set es then ledger_get es t
      else if entry_triple e = Some t then (case e of Line d \<Rightarrow> Some d | Opaque _ \<Rightarrow> None) else None)"
proof -
  have "ledger_get (e # es) t =
      foldl (\<lambda>found e. case e of Line d \<Rightarrow> (if triple_of d = Some t then Some d else found) | Opaque _ \<Rightarrow> found)
        (case e of Line d \<Rightarrow> (if triple_of d = Some t then Some d else None) | Opaque _ \<Rightarrow> None) es"
    by (simp add: ledger_get_def)
  also have "\<dots> = (if Some t \<in> entry_triple ` set es then ledger_get es t
      else (case e of Line d \<Rightarrow> (if triple_of d = Some t then Some d else None) | Opaque _ \<Rightarrow> None))"
    by (rule get_foldl)
  finally show ?thesis by (cases e) simp_all
qed

lemma get_None_iff: "ledger_get es t = None \<longleftrightarrow> Some t \<notin> entry_triple ` set es"
proof (induction es rule: rev_induct)
  case (snoc e es)
  then show ?case by (cases e) (auto simp: get_append)
qed (simp add: ledger_get_def)

lemma triples_last_lines: "entry_triple ` set (last_lines es) = entry_triple ` set es"
  by (induction es) auto

lemma get_last_lines: "ledger_get (last_lines es) t = ledger_get es t"
proof (induction es)
  case (Cons e es)
  have "ledger_get es t = None" if "Some t \<notin> entry_triple ` set es"
    using that by (simp add: get_None_iff)
  with Cons show ?case by (auto simp: get_Cons triples_last_lines)
qed simp

lemma get_without: "ledger_get (without_triple t es) t' = (if t' = t then None else ledger_get es t')"
proof (induction es rule: rev_induct)
  case (snoc e es)
  then show ?case by (auto simp: without_triple_def get_append)
qed (simp add: without_triple_def ledger_get_def)

definition distinct_triples :: "ledger \<Rightarrow> bool" where
  "distinct_triples es = distinct (filter (\<lambda>t. t \<noteq> None) (map entry_triple es))"

lemma distinct_triples_simps [simp]:
  "distinct_triples []"
  "distinct_triples (e # es) \<longleftrightarrow>
     (entry_triple e = None \<or> entry_triple e \<notin> entry_triple ` set es) \<and> distinct_triples es"
  by (auto simp: distinct_triples_def)

lemma distinct_last_lines: "distinct_triples (last_lines es)"
  by (induction es) (auto simp: triples_last_lines)

lemma last_lines_id: "distinct_triples es \<Longrightarrow> last_lines es = es"
  by (induction es) auto

section \<open>The ledger is a store\<close>

definition ledger_bind :: "ledger \<Rightarrow> triple \<Rightarrow> pydict \<Rightarrow> ledger" where
  "ledger_bind es t r = (case ledger_put es r of Inl _ \<Rightarrow> es | Inr es' \<Rightarrow> es')"

definition ledger_drop :: "ledger \<Rightarrow> triple \<Rightarrow> ledger" where
  "ledger_drop es t = snd (ledger_discard es t)"

definition record_for :: "triple \<Rightarrow> pydict \<Rightarrow> bool" where
  "record_for t r = (triple_of r = Some t)"

lemma distinct_without: "distinct_triples es \<Longrightarrow> distinct_triples (without_triple t es)"
  by (induction es) (auto simp: without_triple_def)

lemma distinct_snoc:
  "distinct_triples es \<Longrightarrow> entry_triple e \<notin> entry_triple ` set es \<Longrightarrow> distinct_triples (es @ [e])"
  by (induction es) auto

lemma distinct_put: "triple_of r = Some t \<Longrightarrow> distinct_triples es \<Longrightarrow> distinct_triples (without_triple t es @ [Line r])"
  by (rule distinct_snoc [OF distinct_without]) (auto simp: without_triple_def)

interpretation lg: binding_store ledger_get ledger_bind ledger_drop distinct_triples record_for
proof
  fix s k v k'
  assume "distinct_triples s" and v: "record_for k v"
  then show "ledger_get (ledger_bind s k v) k' = (if k' = k then Some v else ledger_get s k')"
    by (simp add: ledger_bind_def ledger_put_def record_for_def get_append get_without)
next
  fix s k v assume "distinct_triples s" and "record_for k v"
  then show "distinct_triples (ledger_bind s k v)"
    by (simp add: ledger_bind_def ledger_put_def record_for_def distinct_put)
qed (simp_all add: ledger_drop_def ledger_discard_def get_without distinct_without)

section \<open>Saving and loading\<close>

lemma strip_Nil_iff: "py_strip s = [] \<longleftrightarrow> (\<forall>c \<in> set s. is_py_space c)"
proof
  assume "py_strip s = []"
  then have "\<forall>c \<in> set (py_lstrip s). is_py_space c"
    using rstrip_prefix [of "py_lstrip s"] by (auto simp: py_strip_def)
  then have "py_lstrip s = []"
    using lstrip_hd [of s] hd_in_set by blast
  then show "\<forall>c \<in> set s. is_py_space c" by (simp add: py_lstrip_def dropWhile_eq_Nil_conv)
qed (simp add: py_strip_def py_lstrip_def py_rstrip_def dropWhile_eq_Nil_conv [THEN iffD2])

definition one_line :: "string \<Rightarrow> bool" where
  "one_line s \<longleftrightarrow> \<not> list_ex is_line_break s \<and> py_strip s \<noteq> []"

lemma splitlines_line:
  "\<not> list_ex is_line_break s \<Longrightarrow> splitlines_acc acc (s @ CHR 0x0A # rest) = (rev acc @ s) # splitlines_acc [] rest"
  by (induction s arbitrary: acc) (auto simp: is_line_break_def)

lemma splitlines_lines:
  "(\<And>s. s \<in> set ls \<Longrightarrow> \<not> list_ex is_line_break s) \<Longrightarrow> splitlines (concat (map (\<lambda>s. s @ [CHR 0x0A]) ls)) = ls"
  by (induction ls) (simp_all add: splitlines_def splitlines_line)

text \<open>What a line of the file must be for the writer to give it back.\<close>

fun writable :: "(string \<Rightarrow> pyval option) \<Rightarrow> (pydict \<Rightarrow> string) \<Rightarrow> ledger_entry \<Rightarrow> bool" where
  "writable parse dump (Line d) \<longleftrightarrow> parse (dump d) = Some (PDict d) \<and> one_line (dump d)"
| "writable parse dump (Opaque s) \<longleftrightarrow> one_line s \<and> (\<forall>d. parse s \<noteq> Some (PDict d))"

fun entry_text :: "(pydict \<Rightarrow> string) \<Rightarrow> ledger_entry \<Rightarrow> string" where
  "entry_text dump (Line d) = dump d"
| "entry_text dump (Opaque s) = s"

lemma writable_text:
  assumes "writable parse dump e"
  shows "one_line (entry_text dump e) \<and> parse_line parse (entry_text dump e) = e
    \<and> render_entry dump e = entry_text dump e @ [CHR 0x0A]"
proof (cases e)
  case (Line d)
  with assms show ?thesis by (simp add: parse_line_def render_entry_def)
next
  case (Opaque s)
  then have "\<not> ends_with [CHR 0x0A] s"
    using assms by (auto simp: ends_with_iff one_line_def list_ex_iff is_line_break_def)
  with Opaque assms show ?thesis
    by (auto simp: parse_line_def render_entry_def split: option.split pyval.split)
qed

lemma load_rendered:
  assumes "list_all (writable parse dump) es"
  shows "load_ledger parse (Some (concat (map (render_entry dump) es))) = collapse es"
proof -
  let ?ls = "map (entry_text dump) es"
  have facts: "e \<in> set es \<Longrightarrow> one_line (entry_text dump e) \<and> parse_line parse (entry_text dump e) = e
      \<and> render_entry dump e = entry_text dump e @ [CHR 0x0A]" for e
    using assms writable_text by (auto simp: list_all_iff)
  have body: "concat (map (render_entry dump) es) = concat (map (\<lambda>s. s @ [CHR 0x0A]) ?ls)"
    using facts by (simp add: comp_def cong: map_cong)
  have "splitlines (concat (map (render_entry dump) es)) = ?ls"
    unfolding body by (rule splitlines_lines) (use facts in \<open>auto simp: one_line_def\<close>)
  moreover have "filter (\<lambda>l. py_strip l \<noteq> []) ?ls = ?ls"
    using facts by (auto simp: filter_id_conv one_line_def)
  moreover have "map (parse_line parse) ?ls = es"
    using facts by (simp add: map_idI)
  moreover have "py_strip (concat (map (render_entry dump) es)) = [] \<longleftrightarrow> es = []"
  proof (cases es)
    case (Cons e rest)
    then have "\<not> (\<forall>c \<in> set (entry_text dump e). is_py_space c)"
      using facts [of e] by (simp add: one_line_def strip_Nil_iff)
    then show ?thesis using Cons facts [of e] by (auto simp: strip_Nil_iff)
  qed (simp add: py_strip_def py_lstrip_def py_rstrip_def)
  ultimately show ?thesis by (simp add: load_ledger_def collapse_def)
qed

lemma set_last_lines: "set (last_lines es) \<subseteq> set es"
  by (induction es) auto

lemma opaque_last_lines: "filter (\<lambda>e. entry_triple e = None) (last_lines es) = filter (\<lambda>e. entry_triple e = None) es"
  by (induction es) auto

section \<open>Properties\<close>

definition sample_record :: pydict where
  "sample_record = [(PStr ''object_uuid'', PStr ''u''), (PStr ''integration'', PStr ''misp''), (PStr ''target'', PStr ''t'')]"

lemma sample_triple: "triple_of sample_record = Some (''u'', ''misp'', ''t'')"
  by (simp add: triple_of_def identity_value_def sample_record_def dget_str_def dget_none_def)

text \<open>
  collapsing keeps the last line of every object, integration and target, so every lookup answers
  what it answered, leaves one line per key, and keeps every line without a key, in order.
\<close>

theorem collapse_keeps_last:
  "ledger_get (collapse entries) t = ledger_get entries t
 \<and> distinct_triples (collapse entries)
 \<and> filter (\<lambda>e. entry_triple e = None) (collapse entries) = filter (\<lambda>e. entry_triple e = None) entries"
  by (simp add: collapse_last_lines get_last_lines distinct_last_lines opaque_last_lines)

text \<open>
  after any sequence of writes and removals, one per key, each key named has its new record (or
  none) and every other key answers as before.
\<close>

theorem ledger_changes:
  assumes "distinct_triples entries" and "distinct (map fst changes)"
    and "\<And>t r. (t, Some r) \<in> set changes \<Longrightarrow> record_for t r"
  shows "ledger_get (fold (\<lambda>(t, c) es. case c of None \<Rightarrow> ledger_drop es t | Some r \<Rightarrow> ledger_bind es t r) changes entries) key
    = (case map_of changes key of None \<Rightarrow> ledger_get entries key | Some c \<Rightarrow> c)"
  by (rule lg.lookup_delta [OF assms(1) assms(3) assms(2)])

lemma ledger_changes_witness:
  "ledger_get (ledger_bind [] (''u'', ''misp'', ''t'') sample_record) (''u'', ''misp'', ''t'') = Some sample_record"
  using ledger_changes [of "[]" "[((''u'', ''misp'', ''t''), Some sample_record)]" "(''u'', ''misp'', ''t'')"]
  by (simp add: record_for_def sample_triple)

text \<open>
  C22: saving a ledger and loading the file gives back exactly the collapsed entries, unreadable lines
  included, when the JSON writer's lines are read back and neither they nor the unreadable lines
  contain a line break.
\<close>

theorem save_load_roundtrip:
  assumes "list_all (writable parse dump) entries"
  shows "load_ledger parse (Some (snd (save_ledger dump entries))) = fst (save_ledger dump entries)
    \<and> ledger_get (load_ledger parse (Some (snd (save_ledger dump entries)))) t = ledger_get entries t"
proof -
  have "list_all (writable parse dump) (collapse entries)"
    using assms set_last_lines [of entries] by (auto simp: list_all_iff collapse_last_lines)
  from load_rendered [OF this] have "load_ledger parse (Some (snd (save_ledger dump entries))) = collapse (collapse entries)"
    by (simp add: save_ledger_def Let_def)
  then show ?thesis
    by (simp add: save_ledger_def Let_def collapse_last_lines last_lines_id distinct_last_lines get_last_lines)
qed

lemma save_load_roundtrip_witness:
  "load_ledger (\<lambda>_. Some (PDict sample_record)) (Some (snd (save_ledger (\<lambda>_. ''{}'') [Line sample_record])))
    = fst (save_ledger (\<lambda>_. ''{}'') [Line sample_record])"
proof -
  have "list_all (writable (\<lambda>_. Some (PDict sample_record)) (\<lambda>_. ''{}'')) [Line sample_record]"
    by (simp add: one_line_def is_line_break_def py_strip_def py_lstrip_def py_rstrip_def is_py_space_def)
  from save_load_roundtrip [OF this] show ?thesis by blast
qed

text \<open>
  the reader splits on every Unicode line break while the writer escapes none above U+001F: a
  record whose rendered line contains U+0085 is not read back, and its key is lost.
\<close>

theorem next_line_character_loses_the_record:
  assumes "dump d = before @ [CHR 0x85] @ after" and "one_line before" and "one_line after"
    and "\<And>v. parse before \<noteq> Some (PDict v)" and "\<And>v. parse after \<noteq> Some (PDict v)"
  shows "ledger_get (load_ledger parse (Some (snd (save_ledger dump [Line d])))) t = None"
proof -
  have "splitlines_acc acc (before @ CHR 0x85 # rest) = (rev acc @ before) # splitlines_acc [] rest" for acc rest
  proof -
    have "\<not> list_ex is_line_break before" using assms(2) by (simp add: one_line_def)
    then show ?thesis by (induction before arbitrary: acc) (auto simp: is_line_break_def)
  qed
  then have split: "splitlines (before @ CHR 0x85 # after @ [CHR 0x0A]) = [before, after]"
    using splitlines_line [of after "[]" "[]"] assms(3) by (simp add: splitlines_def one_line_def)
  have "py_strip (before @ CHR 0x85 # after @ [CHR 0x0A]) \<noteq> []"
    using assms(2) by (auto simp: one_line_def strip_Nil_iff)
  then have "load_ledger parse (Some (snd (save_ledger dump [Line d]))) = [Opaque before, Opaque after]"
    using assms split
    by (auto simp: save_ledger_def collapse_last_lines render_entry_def load_ledger_def one_line_def parse_line_def
        split: option.split pyval.split)
  then show ?thesis by (simp add: ledger_get_def)
qed

lemma next_line_character_loses_the_record_witness:
  "ledger_get (load_ledger (\<lambda>s. if s = [CHR ''{'', CHR 0x85, CHR ''}''] then Some (PDict sample_record) else None)
     (Some (snd (save_ledger (\<lambda>_. [CHR ''{'', CHR 0x85, CHR ''}'']) [Line sample_record])))) (''u'', ''misp'', ''t'') = None"
  by (rule next_line_character_loses_the_record [where before = "''{''" and after = "''}''"])
    (simp_all add: one_line_def is_line_break_def py_strip_def py_lstrip_def py_rstrip_def is_py_space_def)

end
