(* ===== verification/Share_Event.thy ===== *)
theory Share_Event
  imports Py_Prelude
begin

text \<open>
  What is shared and what it becomes: the document of \<open>sharing/document.py\<close>, the MISP event of
  \<open>sharing/payload.py\<close>, and the report of \<open>sharing/report.py\<close>. Loading YAML, the SHA-256
  of the text and the bundled \<open>tlp\<close> and \<open>pap\<close> vocabularies are parameters. Dates are read
  as Python 3.10 does, as \<open>YYYY-MM-DD\<close> only.
\<close>

section \<open>Constants\<close>

definition object_families :: "string list" where
  "object_families = [''threat'', ''objective'', ''rule'']"

definition tlp_order :: "string list" where
  "tlp_order = [''clear'', ''green'', ''amber'', ''amber+strict'', ''red'']"

definition opentide_template_uuid :: string where
  "opentide_template_uuid = ''892fd46a-f69e-455c-8c4f-843a4b8f4295''"

definition opentide_template_version :: int where
  "opentide_template_version = 5"

definition opentide_template_name :: string where
  "opentide_template_name = ''opentide''"

definition opentide_meta_category :: string where
  "opentide_meta_category = ''misc''"

definition required_template_relations :: "string list" where
  "required_template_relations =
     [''name'', ''opentide-object'', ''opentide-type'', ''uuid'', ''version'', ''schema'']"

definition integration_misp :: string where
  "integration_misp = ''misp''"

text \<open>\<open>[0-9a-f]{8}-[0-9a-f]{4}-...\<close>, matched in full.\<close>

definition is_hex_lower :: "char \<Rightarrow> bool" where
  "is_hex_lower c = (let n = (of_char c :: nat) in (48 \<le> n \<and> n \<le> 57) \<or> (97 \<le> n \<and> n \<le> 102))"

definition canonical_uuid_pattern :: "string \<Rightarrow> bool" where
  "canonical_uuid_pattern s =
     (map length (py_split ''-'' s) = [8, 4, 4, 4, 12] \<and> list_all (list_all is_hex_lower) (py_split ''-'' s))"

section \<open>Documents\<close>

record TideDocument =
  doc_text :: string
  doc_body :: pydict
  doc_path :: "string option"
  doc_error :: "string option"

text \<open>\<open>decoded\<close> is the text of the file, \<open>None\<close> when its bytes are not UTF-8.\<close>

definition load_document ::
  "(string \<Rightarrow> pyval option) \<Rightarrow> string option \<Rightarrow> string option \<Rightarrow> TideDocument" where
  "load_document safe_load decoded path =
     (case decoded of
        None \<Rightarrow> \<lparr>doc_text = [], doc_body = [], doc_path = path, doc_error = Some ''encoding''\<rparr>
      | Some t \<Rightarrow>
          (case safe_load t of
             None \<Rightarrow> \<lparr>doc_text = t, doc_body = [], doc_path = path, doc_error = Some ''yaml''\<rparr>
           | Some (PDict d) \<Rightarrow> \<lparr>doc_text = t, doc_body = d, doc_path = path, doc_error = None\<rparr>
           | Some _ \<Rightarrow> \<lparr>doc_text = t, doc_body = [], doc_path = path, doc_error = Some ''root''\<rparr>))"

definition doc_metadata :: "TideDocument \<Rightarrow> pydict" where
  "doc_metadata d = (case dget_dict (doc_body d) ''metadata'' of None \<Rightarrow> [] | Some m \<Rightarrow> m)"

definition non_empty_str :: "pydict \<Rightarrow> string \<Rightarrow> string option" where
  "non_empty_str d k = (case dget_str d k of None \<Rightarrow> None | Some s \<Rightarrow> if s = [] then None else Some s)"

definition doc_uuid :: "TideDocument \<Rightarrow> string option" where
  "doc_uuid d = non_empty_str (doc_metadata d) ''uuid''"

definition doc_schema_id :: "TideDocument \<Rightarrow> string option" where
  "doc_schema_id d = non_empty_str (doc_metadata d) ''schema''"

definition doc_family :: "TideDocument \<Rightarrow> string option" where
  "doc_family d =
     (case doc_schema_id d of
        None \<Rightarrow> None
      | Some schema \<Rightarrow>
          if \<not> contains_str ''::'' schema then None
          else let family = fst (py_partition ''::'' schema) in
            if family \<in> set object_families then Some family else None)"

definition doc_name :: "TideDocument \<Rightarrow> string option" where
  "doc_name d = dget_str (doc_body d) ''name''"

section \<open>TLP\<close>

fun position :: "'a \<Rightarrow> 'a list \<Rightarrow> nat option" where
  "position x [] = None"
| "position x (y # ys) = (if x = y then Some 0 else map_option Suc (position x ys))"

definition tlp_allows :: "string \<Rightarrow> string \<Rightarrow> bool" where
  "tlp_allows object_tlp max_tlp =
     (case (position object_tlp tlp_order, position max_tlp tlp_order) of
        (Some i, Some j) \<Rightarrow> i \<le> j
      | _ \<Rightarrow> False)"

definition distribution_for :: "string \<Rightarrow> int" where
  "distribution_for tlp = (if tlp = ''clear'' \<or> tlp = ''green'' then 1 else 0)"

section \<open>Reading the fields of an event\<close>

definition is_leap :: "nat \<Rightarrow> bool" where
  "is_leap y = (y mod 4 = 0 \<and> (y mod 100 \<noteq> 0 \<or> y mod 400 = 0))"

definition days_in_month :: "nat \<Rightarrow> nat \<Rightarrow> nat" where
  "days_in_month y m = (if m = 2 then (if is_leap y then 29 else 28) else if m \<in> {4, 6, 9, 11} then 30 else 31)"

text \<open>\<open>date.fromisoformat\<close> of ten characters, then \<open>isoformat\<close>, which is the same text.\<close>

definition iso_date_text :: "string \<Rightarrow> bool" where
  "iso_date_text s =
     (length s = 10
    \<and> list_all is_ascii_digit (take 4 s) \<and> s ! 4 = CHR ''-''
    \<and> list_all is_ascii_digit (take 2 (drop 5 s)) \<and> s ! 7 = CHR ''-''
    \<and> list_all is_ascii_digit (drop 8 s)
    \<and> (let y = dec_value (take 4 s); m = dec_value (take 2 (drop 5 s)); d = dec_value (drop 8 s) in
        1 \<le> y \<and> 1 \<le> m \<and> m \<le> 12 \<and> 1 \<le> d \<and> d \<le> days_in_month y m))"

fun created_date :: "pyval \<Rightarrow> string option" where
  "created_date (PDatetime y m d rest) = Some (iso_date y m d)"
| "created_date (PDate y m d) = Some (iso_date y m d)"
| "created_date (PStr s) =
     (let t = py_strip s in
      if length t < 10 then None else if iso_date_text (take 10 t) then Some (take 10 t) else None)"
| "created_date _ = None"

text \<open>
  \<open>str.isdigit\<close> also holds for the superscript digits, which \<open>int\<close> refuses with a
  \<open>ValueError\<close> that nothing catches (\<open>Inl\<close>), as it does more than 4300 digits; \<open>str\<close> of an
  integer of more than 4300 digits raises the same error.
\<close>

definition is_unicode_digit :: "char \<Rightarrow> bool" where
  "is_unicode_digit c \<longleftrightarrow> is_ascii_digit c \<or> (of_char c :: nat) \<in> {178, 179, 185}"

fun version_text :: "pyval \<Rightarrow> unit + string option" where
  "version_text (PInt i) =
     (if i < 0 then Inr None else if 4300 < length (int_str i) then Inl () else Inr (Some (int_str i)))"
| "version_text (PStr s) =
     (if s = [] \<or> \<not> list_all is_unicode_digit s then Inr None
      else if \<not> list_all is_ascii_digit s \<or> 4300 < length s then Inl ()
      else Inr (Some (nat_str (dec_value s))))"
| "version_text _ = Inr None"

text \<open>The only error of \<open>_pap_tag\<close> is \<open>unmapped_pap\<close>: it is \<open>None\<close> here.\<close>

definition pap_tag :: "(string \<times> string) list \<Rightarrow> pydict \<Rightarrow> string option option" where
  "pap_tag pap_vocab metadata =
     (case dget_none metadata ''pap'' of
        PNone \<Rightarrow> Some None
      | PStr pap \<Rightarrow> map_option Some (map_of pap_vocab pap)
      | _ \<Rightarrow> None)"

fun collect_uuids :: "string list \<Rightarrow> pyval list \<Rightarrow> string list option" where
  "collect_uuids found [] = Some found"
| "collect_uuids found (PNone # items) = collect_uuids found items"
| "collect_uuids found (PStr s # items) =
     (if s = [] then collect_uuids found items
      else if \<not> canonical_uuid_pattern s then None
      else collect_uuids (if s \<in> set found then found else found @ [s]) items)"
| "collect_uuids found (_ # items) = None"

definition doc_relations :: "TideDocument \<Rightarrow> string \<Rightarrow> string list option" where
  "doc_relations document family =
     (if family = ''threat'' then Some []
      else if family = ''rule''
      then (case dget_none (doc_body document) ''detection_model'' of
              PNone \<Rightarrow> Some []
            | PStr raw \<Rightarrow> (if raw = [] then Some [] else if canonical_uuid_pattern raw then Some [raw] else None)
            | _ \<Rightarrow> None)
      else
        let threats = (case dget_dict (doc_body document) ''objective'' of
                         None \<Rightarrow> PList []
                       | Some obj \<Rightarrow> (let v = dget_none obj ''threats'' in if truthy v then v else PList []))
        in (case threats of
              PList items \<Rightarrow> map_option (sort_key (\<lambda>s. s)) (collect_uuids [] items)
            | _ \<Rightarrow> None))"

definition doc_techniques :: "TideDocument \<Rightarrow> string \<Rightarrow> string list" where
  "doc_techniques document family =
     (let raw =
        (if family = ''rule'' then dget_none (doc_body document) ''techniques''
         else case dget_dict (doc_body document) (if family = ''objective'' then ''objective'' else ''threat'') of
             None \<Rightarrow> PNone
           | Some obj \<Rightarrow> dget_none obj ''mitre_attack'')
      in case raw of
           PList items \<Rightarrow>
             foldl (\<lambda>found item. case item of
                 PStr s \<Rightarrow> (if py_strip s \<noteq> [] \<and> py_strip s \<notin> set found then found @ [py_strip s] else found)
               | _ \<Rightarrow> found) [] items
         | _ \<Rightarrow> [])"

definition cluster_sources :: "TideDocument \<Rightarrow> string \<Rightarrow> string list" where
  "cluster_sources document family =
     map (\<lambda>t. ''technique:'' @ t) (doc_techniques document family)
     @ (if family = ''threat''
        then (case dget_dict (doc_body document) ''threat'' of
                None \<Rightarrow> []
              | Some threat \<Rightarrow>
                  (case dget_none threat ''actors'' of
                     PList actors \<Rightarrow>
                       concat (map (\<lambda>a. case as_dict_val a of
                           None \<Rightarrow> []
                         | Some d \<Rightarrow> (case non_empty_str d ''name'' of None \<Rightarrow> [] | Some n \<Rightarrow> [''actor:'' @ n])) actors)
                   | _ \<Rightarrow> []))
        else [])"

section \<open>Threat levels\<close>

definition criticality_levels :: "(string \<times> int) list" where
  "criticality_levels =
     [(''Emergency'', 1), (''Severe'', 1), (''High'', 1), (''Medium'', 2), (''Low'', 3),
      (''Baseline - Minor'', 3), (''Baseline - Negligible'', 3)]"

definition severity_levels :: "(string \<times> int) list" where
  "severity_levels =
     [(''National cyber emergency'', 1), (''Highly significant incident'', 1), (''Significant incident'', 1),
      (''Substantial incident'', 2), (''Moderate incident'', 2), (''Localised incident'', 3)]"

definition alert_severity_levels :: "(string \<times> int) list" where
  "alert_severity_levels =
     [(''Critical'', 1), (''High'', 1), (''Medium'', 2), (''Low'', 3), (''Informational'', 3)]"

definition first_some :: "'a option list \<Rightarrow> 'a option" where
  "first_some xs = (case filter (\<lambda>x. x \<noteq> None) xs of [] \<Rightarrow> None | x # _ \<Rightarrow> x)"

definition match_level :: "pyval \<Rightarrow> (string \<times> int) list list \<Rightarrow> int" where
  "match_level value tables =
     (case as_str_val value of
        None \<Rightarrow> 4
      | Some s \<Rightarrow>
          (case first_some (map (\<lambda>t. map_of t s) tables) of
             Some level \<Rightarrow> level
           | None \<Rightarrow>
               (case first_some (map (\<lambda>(name, level). if casefold name = casefold s then Some level else None)
                       (concat tables)) of
                  Some level \<Rightarrow> level
                | None \<Rightarrow> 4)))"

definition threat_level :: "string \<Rightarrow> pydict \<Rightarrow> int" where
  "threat_level family body =
     (if family = ''objective'' then 4
      else if family = ''threat'' then match_level (dget_none body ''criticality'') [criticality_levels]
      else match_level (dget_none body ''severity'') [severity_levels, alert_severity_levels])"

section \<open>The event\<close>

definition event_attribute :: "string \<Rightarrow> string \<Rightarrow> bool \<Rightarrow> pyval" where
  "event_attribute relation value correlate =
     jobj [(''object_relation'', PStr relation), (''type'', PStr ''text''), (''category'', PStr ''Other''),
       (''to_ids'', PBool False), (''distribution'', PInt 5), (''disable_correlation'', PBool (\<not> correlate)),
       (''value'', PStr value)]"

definition add_tags :: "string list \<Rightarrow> string list \<Rightarrow> string list" where
  "add_tags tags extra = foldl (\<lambda>ts t. if t \<in> set ts then ts else ts @ [t]) tags extra"

record BuiltEvent =
  be_event :: "pyval option"
  be_reason :: "string option"
  be_relations :: "string list"
  be_sources :: "string list"

definition blocked_event :: "string \<Rightarrow> BuiltEvent" where
  "blocked_event reason = \<lparr>be_event = None, be_reason = Some reason, be_relations = [], be_sources = []\<rparr>"

record Vocabularies =
  voc_tlp :: "(string \<times> string) list"
  voc_pap :: "(string \<times> string) list"

definition event_value ::
  "TideDocument \<Rightarrow> string \<Rightarrow> string \<Rightarrow> string \<Rightarrow> string \<Rightarrow> string \<Rightarrow> string \<Rightarrow> string \<Rightarrow> string list \<Rightarrow> string list \<Rightarrow> pyval" where
  "event_value document family name created uuid schema version tlp tags relations =
     jobj [(''Event'', jobj
       [(''info'', PStr (take 255 name)), (''date'', PStr created), (''distribution'', PInt (distribution_for tlp)),
        (''sharing_group_id'', PInt 0), (''threat_level_id'', PInt (threat_level family (doc_body document))),
        (''analysis'', PInt 2), (''published'', PBool False), (''Attribute'', PList []),
        (''Tag'', PList (map (\<lambda>t. jobj [(''name'', PStr t)]) tags)),
        (''Object'', PList [jobj
          [(''name'', PStr opentide_template_name), (''meta-category'', PStr opentide_meta_category),
           (''template_uuid'', PStr opentide_template_uuid), (''template_version'', PInt opentide_template_version),
           (''distribution'', PInt 5),
           (''Attribute'', PList
             ([event_attribute ''name'' name True, event_attribute ''uuid'' uuid True,
               event_attribute ''version'' version False, event_attribute ''opentide-type'' family False,
               event_attribute ''schema'' schema False, event_attribute ''opentide-object'' (doc_text document) True]
              @ map (\<lambda>r. event_attribute ''opentide-relation'' r True) relations))]])])]"

text \<open>A field that is missing blocks the event with its name.\<close>

definition require :: "string \<Rightarrow> 'a option \<Rightarrow> ('a \<Rightarrow> unit + BuiltEvent) \<Rightarrow> unit + BuiltEvent" where
  "require reason field rest = (case field of None \<Rightarrow> Inr (blocked_event reason) | Some x \<Rightarrow> rest x)"

definition valid_family :: "TideDocument \<Rightarrow> string option" where
  "valid_family document = (if doc_error document \<noteq> None then None else doc_family document)"

definition valid_name :: "TideDocument \<Rightarrow> string option" where
  "valid_name document =
     (case doc_name document of None \<Rightarrow> None | Some name \<Rightarrow> if py_strip name = [] then None else Some name)"

definition valid_tlp :: "(string \<times> string) list \<Rightarrow> TideDocument \<Rightarrow> (string \<times> string) option" where
  "valid_tlp vocab document =
     (case dget_str (doc_metadata document) ''tlp'' of
        None \<Rightarrow> None
      | Some tlp \<Rightarrow> map_option (Pair tlp) (map_of vocab tlp))"

definition build_event :: "Vocabularies \<Rightarrow> TideDocument \<Rightarrow> string list \<Rightarrow> unit + BuiltEvent" where
  "build_event voc document cluster_tags =
     require ''invalid_document'' (valid_family document) (\<lambda>family.
     require ''name'' (valid_name document) (\<lambda>name.
     require ''metadata.created'' (created_date (dget_none (doc_metadata document) ''created'')) (\<lambda>created.
     require ''metadata.uuid'' (doc_uuid document) (\<lambda>uuid.
     rbind (version_text (dget_none (doc_metadata document) ''version'')) (\<lambda>v.
     require ''metadata.version'' v (\<lambda>version.
     require ''unmapped_tlp'' (valid_tlp (voc_tlp voc) document) (\<lambda>(tlp, tlp_tag).
     require ''unmapped_pap'' (pap_tag (voc_pap voc) (doc_metadata document)) (\<lambda>pap.
     require ''relation_uuid'' (doc_relations document family) (\<lambda>relations.
       Inr \<lparr>be_event = Some (event_value document family name created uuid (the (doc_schema_id document)) version tlp
              (add_tags ([tlp_tag] @ (case pap of None \<Rightarrow> [] | Some t \<Rightarrow> [t])) cluster_tags) relations),
            be_reason = None, be_relations = relations,
            be_sources = cluster_sources document family\<rparr>)))))))))"

section \<open>The report\<close>

record ShareRecord =
  sr_uuid :: string
  sr_target :: string
  sr_action :: string
  sr_integration :: string
  sr_remote_uuid :: "string option"
  sr_remote_id :: "int option"
  sr_reason :: "string option"
  sr_notes :: "string list"
  sr_kind :: "string option"

definition success_actions :: "string list" where
  "success_actions = [''created'', ''updated'', ''unchanged'', ''retracted'']"

definition auth_kinds :: "string list" where
  "auth_kinds = [''authentication'', ''connectivity'']"

definition record_dict :: "ShareRecord \<Rightarrow> pyval" where
  "record_dict r =
     jobj ([(''object_uuid'', PStr (sr_uuid r)), (''integration'', PStr (sr_integration r)),
            (''target'', PStr (sr_target r)), (''action'', PStr (sr_action r))]
        @ (case sr_remote_uuid r of None \<Rightarrow> [] | Some u \<Rightarrow> [(''remote_event_uuid'', PStr u)])
        @ (case sr_remote_id r of None \<Rightarrow> [] | Some i \<Rightarrow> [(''remote_event_id'', PInt i)])
        @ (case sr_reason r of None \<Rightarrow> [] | Some x \<Rightarrow> [(''reason'', PStr x)])
        @ (if sr_notes r \<noteq> [] then [(''notes'', PList (map PStr (sr_notes r)))] else []))"

record ShareRun =
  run_records :: "ShareRecord list"
  run_preflight :: "string option"

definition exit_code :: "ShareRun \<Rightarrow> nat" where
  "exit_code run =
     (if run_preflight run \<noteq> None then 1
      else
        let successes = filter (\<lambda>r. sr_action r \<in> set success_actions) (run_records run);
            failures = filter (\<lambda>r. sr_action r = ''failed'') (run_records run)
        in if successes \<noteq> [] \<and> failures \<noteq> [] then 3
           else if failures = [] then 0
           else if list_all (\<lambda>r. sr_kind r \<in> Some ` set auth_kinds) failures then 2
           else 1)"


section \<open>Reading an event back\<close>

text \<open>The fields of a JSON value, and the attributes of the event's object as (relation, value).\<close>

definition jfield :: "string \<Rightarrow> pyval \<Rightarrow> pyval" where
  "jfield k v = (case v of PDict d \<Rightarrow> dget_none d k | _ \<Rightarrow> PNone)"

definition jitems :: "pyval \<Rightarrow> pyval list" where
  "jitems v = (case v of PList xs \<Rightarrow> xs | _ \<Rightarrow> [])"

definition attribute_pairs :: "pyval \<Rightarrow> (pyval \<times> pyval) list" where
  "attribute_pairs e =
     map (\<lambda>a. (jfield ''object_relation'' a, jfield ''value'' a))
       (jitems (jfield ''Attribute'' (hd (jitems (jfield ''Object'' (jfield ''Event'' e))))))"

definition event_tags :: "pyval \<Rightarrow> pyval list" where
  "event_tags e = map (jfield ''name'') (jitems (jfield ''Tag'' (jfield ''Event'' e)))"

lemma jfield_jobj [simp]: "jfield k (jobj items) = (case map_of items k of None \<Rightarrow> PNone | Some v \<Rightarrow> v)"
  by (induction items) (auto simp: jfield_def jobj_def dget_none_def)

lemma jitems_PList [simp]: "jitems (PList xs) = xs"
  by (simp add: jitems_def)

lemma attribute_pairs_event_value:
  "attribute_pairs (event_value document family name created uuid schema version tlp tags relations) =
     [(PStr ''name'', PStr name), (PStr ''uuid'', PStr uuid), (PStr ''version'', PStr version),
      (PStr ''opentide-type'', PStr family), (PStr ''schema'', PStr schema),
      (PStr ''opentide-object'', PStr (doc_text document))]
     @ map (\<lambda>r. (PStr ''opentide-relation'', PStr r)) relations"
  by (simp add: attribute_pairs_def event_value_def event_attribute_def)

lemma event_tags_event_value:
  "event_tags (event_value document family name created uuid schema version tlp tags relations) = map PStr tags"
  by (simp add: event_tags_def event_value_def)

lemma add_tags_Nil [simp]: "add_tags tags [] = tags"
  by (simp add: add_tags_def)

lemma add_tags_Cons [simp]:
  "add_tags tags (t # ts) = add_tags (if t \<in> set tags then tags else tags @ [t]) ts"
  by (simp add: add_tags_def)

lemma add_tags_set: "set (add_tags tags extra) = set tags \<union> set extra"
  by (induction extra arbitrary: tags) auto

lemma add_tags_distinct: "distinct tags \<Longrightarrow> distinct (add_tags tags extra)"
  by (induction extra arbitrary: tags) auto

lemma add_tags_prefix: "\<exists>rest. add_tags tags extra = tags @ rest"
proof (induction extra arbitrary: tags)
  case (Cons t ts)
  show ?case using Cons.IH [of "if t \<in> set tags then tags else tags @ [t]"] by auto
qed simp

section \<open>Relations\<close>

definition named_uuids :: "pyval list \<Rightarrow> string set" where
  "named_uuids items = {s. s \<noteq> [] \<and> PStr s \<in> set items}"

lemma named_uuids_simps [simp]:
  "named_uuids [] = {}"
  "named_uuids (PNone # items) = named_uuids items"
  "named_uuids (PStr s # items) = (if s = [] then {} else {s}) \<union> named_uuids items"
  by (auto simp: named_uuids_def)

lemma collect_uuids_set: "collect_uuids found items = Some out \<Longrightarrow> set out = set found \<union> named_uuids items"
  by (induction found items rule: collect_uuids.induct) (simp_all split: if_splits, auto)

lemma collect_uuids_distinct: "collect_uuids found items = Some out \<Longrightarrow> distinct found \<Longrightarrow> distinct out"
  by (induction found items rule: collect_uuids.induct) (simp_all split: if_splits)

lemma collect_uuids_canonical:
  "collect_uuids found items = Some out \<Longrightarrow> list_all canonical_uuid_pattern found \<Longrightarrow>
   list_all canonical_uuid_pattern out"
  by (induction found items rule: collect_uuids.induct) (simp_all split: if_splits)

lemma collect_uuids_None:
  "collect_uuids found items = None \<longleftrightarrow>
   \<not> list_all (\<lambda>v. v = PNone \<or> (case v of PStr s \<Rightarrow> s = [] \<or> canonical_uuid_pattern s | _ \<Rightarrow> False)) items"
  by (induction found items rule: collect_uuids.induct) simp_all

lemma doc_relations_sorted:
  assumes "doc_relations d family = Some rs"
  shows "distinct rs \<and> sorted rs \<and> list_all canonical_uuid_pattern rs"
proof -
  consider "family = ''threat''" | "family = ''rule''" | "family \<noteq> ''threat''" "family \<noteq> ''rule''" by blast
  then show ?thesis
  proof cases
    case 3
    then obtain items out where "collect_uuids [] items = Some out" "rs = sort_key (\<lambda>s. s) out"
      using assms by (auto simp: doc_relations_def Let_def split: pyval.splits)
    then show ?thesis using collect_uuids_distinct [of "[]" items out] collect_uuids_canonical [of "[]" items out]
      by (simp add: list_all_iff)
  qed (use assms in \<open>auto simp: doc_relations_def split: pyval.splits if_splits\<close>)
qed


section \<open>Which field blocks an event\<close>

text \<open>The conditions on a document in the order they are checked, with the reason each one gives.\<close>

definition event_conditions :: "Vocabularies \<Rightarrow> TideDocument \<Rightarrow> (string \<times> bool) list" where
  "event_conditions voc d =
     [(''invalid_document'', valid_family d \<noteq> None),
      (''name'', valid_name d \<noteq> None),
      (''metadata.created'', created_date (dget_none (doc_metadata d) ''created'') \<noteq> None),
      (''metadata.uuid'', doc_uuid d \<noteq> None),
      (''metadata.version'', version_text (dget_none (doc_metadata d) ''version'') \<noteq> Inr None),
      (''unmapped_tlp'', valid_tlp (voc_tlp voc) d \<noteq> None),
      (''unmapped_pap'', pap_tag (voc_pap voc) (doc_metadata d) \<noteq> None),
      (''relation_uuid'', doc_relations d (the (doc_family d)) \<noteq> None)]"

fun first_failing :: "(string \<times> bool) list \<Rightarrow> string option" where
  "first_failing [] = None"
| "first_failing ((reason, ok) # rest) = (if ok then first_failing rest else Some reason)"

lemma requireE:
  assumes "require reason field rest = Inr b"
  obtains "field = None" "b = blocked_event reason" | x where "field = Some x" "rest x = Inr b"
  using assms by (auto simp: require_def split: option.splits)

lemma rbindE:
  assumes "rbind m f = Inr b"
  obtains x where "m = Inr x" "f x = Inr b"
  using assms by (auto simp: rbind_Inr)

lemma valid_family_Some: "valid_family d = Some f \<longleftrightarrow> doc_error d = None \<and> doc_family d = Some f"
  by (simp add: valid_family_def)

lemma blocked_simps [simp]: "be_event (blocked_event r) = None" "be_reason (blocked_event r) = Some r"
  by (simp_all add: blocked_event_def)

lemma build_event_Some:
  assumes "build_event voc d tags = Inr b" "be_event b = Some e"
  obtains family name created uuid version tlp tlp_tag pap relations where
    "valid_family d = Some family" "valid_name d = Some name"
    "created_date (dget_none (doc_metadata d) ''created'') = Some created" "doc_uuid d = Some uuid"
    "version_text (dget_none (doc_metadata d) ''version'') = Inr (Some version)"
    "valid_tlp (voc_tlp voc) d = Some (tlp, tlp_tag)"
    "pap_tag (voc_pap voc) (doc_metadata d) = Some pap"
    "doc_relations d family = Some relations"
    "b = \<lparr>be_event = Some (event_value d family name created uuid (the (doc_schema_id d)) version tlp
           (add_tags ([tlp_tag] @ (case pap of None \<Rightarrow> [] | Some t \<Rightarrow> [t])) tags) relations),
          be_reason = None, be_relations = relations, be_sources = cluster_sources d family\<rparr>"
  using assms(1) unfolding build_event_def case_prod_unfold
  by (elim requireE rbindE) (use assms(2) in auto)

lemma build_event_reason:
  assumes "build_event voc d tags = Inr b"
  shows "be_reason b = first_failing (event_conditions voc d)"
  using assms unfolding build_event_def case_prod_unfold event_conditions_def
  by (elim requireE rbindE) (auto simp: valid_family_Some)


definition sample_tags :: Vocabularies where
  "sample_tags = \<lparr>voc_tlp = [(''clear'', ''tlp:clear''), (''red'', ''tlp:red'')], voc_pap = [(''red'', ''PAP:RED'')]\<rparr>"

definition sample_document :: TideDocument where
  "sample_document =
     \<lparr>doc_text = ''name: A'',
      doc_body = [(PStr ''name'', PStr ''A''),
        (PStr ''metadata'', PDict [(PStr ''uuid'', PStr ''u''), (PStr ''schema'', PStr ''threat::1.0''),
           (PStr ''version'', PInt 1), (PStr ''created'', PDate 2024 1 2), (PStr ''tlp'', PStr ''red'')])],
      doc_path = None, doc_error = None\<rparr>"

lemma sample_version: "version_text (PInt 1) = Inr (Some ''1'')"
  by code_simp

text \<open>
  The event of a document carries it unchanged: the attribute \<open>opentide-object\<close> is the text of the
  file, \<open>uuid\<close> the uuid of its metadata, and the \<open>opentide-relation\<close> attributes are the
  related uuids, each in canonical form, sorted and without a duplicate. The TLP tag comes first, and the
  cluster tags are all there.
\<close>

theorem event_carries_the_document:
  assumes "build_event voc d tags = Inr b" "be_event b = Some e"
  shows "(PStr ''opentide-object'', PStr (doc_text d)) \<in> set (attribute_pairs e)
    \<and> (\<exists>u. doc_uuid d = Some u \<and> (PStr ''uuid'', PStr u) \<in> set (attribute_pairs e))
    \<and> map snd (filter (\<lambda>(r, v). r = PStr ''opentide-relation'') (attribute_pairs e)) = map PStr (be_relations b)
    \<and> distinct (be_relations b) \<and> sorted (be_relations b)
    \<and> list_all canonical_uuid_pattern (be_relations b)
    \<and> (\<exists>tlp tag. valid_tlp (voc_tlp voc) d = Some (tlp, tag) \<and> hd (event_tags e) = PStr tag)
    \<and> PStr ` set tags \<subseteq> set (event_tags e)
    \<and> be_reason b = None"
proof -
  obtain family name created uuid version tlp tlp_tag pap relations where b:
    "doc_uuid d = Some uuid" "valid_tlp (voc_tlp voc) d = Some (tlp, tlp_tag)"
    "doc_relations d family = Some relations"
    "b = \<lparr>be_event = Some (event_value d family name created uuid (the (doc_schema_id d)) version tlp
           (add_tags ([tlp_tag] @ (case pap of None \<Rightarrow> [] | Some t \<Rightarrow> [t])) tags) relations),
          be_reason = None, be_relations = relations, be_sources = cluster_sources d family\<rparr>"
    by (rule build_event_Some [OF assms])
  obtain rest where "add_tags ([tlp_tag] @ (case pap of None \<Rightarrow> [] | Some t \<Rightarrow> [t])) tags = tlp_tag # rest"
    using add_tags_prefix [of "[tlp_tag] @ (case pap of None \<Rightarrow> [] | Some t \<Rightarrow> [t])" tags] by auto
  moreover have "set tags \<subseteq> set (add_tags ([tlp_tag] @ (case pap of None \<Rightarrow> [] | Some t \<Rightarrow> [t])) tags)"
    unfolding add_tags_set by blast
  moreover have "distinct relations \<and> sorted relations \<and> list_all canonical_uuid_pattern relations"
    by (rule doc_relations_sorted [OF b(3)])
  ultimately show ?thesis using assms(2) b
    by (auto simp: attribute_pairs_event_value event_tags_event_value filter_map comp_def)
qed

theorem event_carries_the_document_witness:
  "\<exists>b e. build_event sample_tags sample_document [''x''] = Inr b \<and> be_event b = Some e
     \<and> (PStr ''opentide-object'', PStr ''name: A'') \<in> set (attribute_pairs e)"
proof -
  obtain b where b: "build_event sample_tags sample_document [''x''] = Inr b" "\<exists>e. be_event b = Some e"
    by (simp add: build_event_def require_def valid_family_def valid_name_def doc_family_def doc_schema_id_def
        doc_metadata_def doc_name_def non_empty_str_def sample_document_def sample_tags_def dget_dict_def dget_str_def
        py_partition_def object_families_def valid_tlp_def doc_uuid_def pap_tag_def doc_relations_def
        sample_version py_strip_def py_lstrip_def py_rstrip_def is_py_space_def
        del: version_text.simps)
  then obtain e where e: "be_event b = Some e" by blast
  show ?thesis using event_carries_the_document [OF b(1) e] b(1) e by (auto simp: sample_document_def)
qed


text \<open>
  Which field blocks a document: the conditions are checked in one order, the reason is the first that
  fails, an event is built exactly when none fails, and nothing else is returned with a reason.
\<close>

theorem first_bad_field_blocks:
  assumes "build_event voc d tags = Inr b"
  shows "be_reason b = first_failing (event_conditions voc d)
    \<and> (be_event b \<noteq> None \<longleftrightarrow> list_all snd (event_conditions voc d))
    \<and> (be_event b = None \<longleftrightarrow> be_reason b \<noteq> None)"
proof -
  have r: "be_reason b = first_failing (event_conditions voc d)" by (rule build_event_reason [OF assms])
  have e: "be_event b = None \<longleftrightarrow> be_reason b \<noteq> None"
    using assms unfolding build_event_def case_prod_unfold by (elim requireE rbindE) auto
  have "first_failing cs = None \<longleftrightarrow> list_all snd cs" for cs
    by (induction cs rule: first_failing.induct) auto
  then show ?thesis using r e by simp
qed

theorem first_bad_field_blocks_witness:
  "\<exists>b. build_event sample_tags (sample_document\<lparr>doc_error := Some ''yaml''\<rparr>) [] = Inr b
     \<and> be_event b = None \<and> be_reason b = Some ''invalid_document''"
proof -
  have b: "build_event sample_tags (sample_document\<lparr>doc_error := Some ''yaml''\<rparr>) []
      = Inr (blocked_event ''invalid_document'')"
    by (simp add: build_event_def require_def valid_family_def)
  show ?thesis using first_bad_field_blocks [OF b] b by (simp add: event_conditions_def valid_family_def)
qed

text \<open>
  A version given as text is the only field that can raise: a text of digits that Python's
  \<open>int\<close> refuses stops the run instead of blocking the document, which no field condition covers. It takes
  a document whose earlier fields are all good.
\<close>

theorem version_digits_that_int_refuses:
  "build_event voc d tags = Inl () \<longleftrightarrow>
     first_failing (take 4 (event_conditions voc d)) = None
     \<and> version_text (dget_none (doc_metadata d) ''version'') = Inl ()"
proof -
  have v: "(\<exists>x. m = Inl x) \<longleftrightarrow> m = Inl ()" for m :: "unit + 'a" by auto
  have q: "(require r f rest = Inl ()) \<longleftrightarrow> (\<exists>x. f = Some x \<and> rest x = Inl ())" for r and f :: "'a option" and rest
    by (cases f) (auto simp: require_def)
  have b: "(rbind m f = Inl ()) \<longleftrightarrow> m = Inl () \<or> (\<exists>x. m = Inr x \<and> f x = Inl ())" for m :: "unit + 'a" and f :: "'a \<Rightarrow> unit + BuiltEvent"
    by (cases m) auto
  show ?thesis
    by (auto simp: build_event_def event_conditions_def q b case_prod_unfold)
qed

text \<open>
  The exit status of a run: 1 for a preflight error, 0 exactly when nothing failed, 3 when some
  objects were shared and some failed, 2 when nothing was shared and every failure is one of authentication or
  connectivity, and 1 in the rest.
\<close>

theorem exit_code_table:
  "(exit_code run = 0 \<longleftrightarrow> run_preflight run = None \<and> filter (\<lambda>r. sr_action r = ''failed'') (run_records run) = [])
   \<and> (exit_code run = 3 \<longleftrightarrow> run_preflight run = None
        \<and> list_ex (\<lambda>r. sr_action r = ''failed'') (run_records run)
        \<and> list_ex (\<lambda>r. sr_action r \<in> set success_actions) (run_records run))
   \<and> (exit_code run = 2 \<longleftrightarrow> run_preflight run = None
        \<and> list_ex (\<lambda>r. sr_action r = ''failed'') (run_records run)
        \<and> \<not> list_ex (\<lambda>r. sr_action r \<in> set success_actions) (run_records run)
        \<and> list_all (\<lambda>r. sr_action r \<noteq> ''failed'' \<or> sr_kind r = Some ''authentication''
                      \<or> sr_kind r = Some ''connectivity'') (run_records run))
   \<and> exit_code run \<in> {0, 1, 2, 3}"
  by (auto simp: exit_code_def Let_def auth_kinds_def list_all_iff list_ex_iff filter_empty_conv)

theorem exit_code_table_witness:
  "exit_code \<lparr>run_records = [\<lparr>sr_uuid = ''u'', sr_target = ''t'', sr_action = ''failed'', sr_integration = ''misp'',
      sr_remote_uuid = None, sr_remote_id = None, sr_reason = None, sr_notes = [], sr_kind = Some ''connectivity''\<rparr>],
      run_preflight = None\<rparr> = 2"
  using exit_code_table [of "\<lparr>run_records = [\<lparr>sr_uuid = ''u'', sr_target = ''t'', sr_action = ''failed'', sr_integration = ''misp'',
      sr_remote_uuid = None, sr_remote_id = None, sr_reason = None, sr_notes = [], sr_kind = Some ''connectivity''\<rparr>],
      run_preflight = None\<rparr>"]
  by (simp add: success_actions_def)

text \<open>
  TLP: an object may go to a block exactly when both labels are known and the object's comes no later
  in the order; the check is then a total order on the labels, and a stricter label is never distributed more
  widely.
\<close>

theorem tlp_order_spec:
  "(tlp_allows a a \<longleftrightarrow> a \<in> set tlp_order)
   \<and> (tlp_allows a b \<and> tlp_allows b c \<longrightarrow> tlp_allows a c)
   \<and> (tlp_allows a b \<and> tlp_allows b a \<longrightarrow> a = b)
   \<and> (a \<in> set tlp_order \<and> b \<in> set tlp_order \<longrightarrow> tlp_allows a b \<or> tlp_allows b a)
   \<and> (tlp_allows a b \<longrightarrow> a \<in> set tlp_order \<and> b \<in> set tlp_order \<and> distribution_for b \<le> distribution_for a)"
  by (auto simp: tlp_allows_def tlp_order_def distribution_for_def split: if_splits)

theorem tlp_order_spec_witness:
  "tlp_allows ''green'' ''red'' \<and> distribution_for ''red'' \<le> distribution_for ''green''"
  using tlp_order_spec [of "''green''" "''red''" "''red''"]
  by (auto simp: tlp_allows_def tlp_order_def distribution_for_def)

end
