(* ===== verification/Share_Client.thy ===== *)
theory Share_Client
  imports Share_Event Effects
begin

text \<open>
  The destination as the sharing engine sees it: \<open>sharing/client.py\<close> and the cluster lookup of
  \<open>sharing/galaxy.py\<close>. An action reads and changes a state and may fail, with a
  \<open>MispCallError\<close> (\<open>Refused\<close>) or with an exception nothing catches (\<open>Crashed\<close>). The
  prepared HTTP request of PyMISP, the JSON reader and writer and \<open>urlparse\<close> are parameters.
\<close>

section \<open>Actions\<close>

record CallError =
  ce_kind :: string
  ce_reason :: string
  ce_status :: "int option"

datatype failure = Refused CallError | Crashed

type_synonym ('s, 'a) action = "('s, failure, 'a) effect"

text \<open>\<open>try ... except MispCallError\<close>.\<close>

definition catch_refused :: "('s, 'a) action \<Rightarrow> (CallError \<Rightarrow> ('s, 'a) action) \<Rightarrow> ('s, 'a) action" where
  "catch_refused m h = (\<lambda>s. case m s of (Inl (Refused e), s') \<Rightarrow> h e s' | r \<Rightarrow> r)"

definition try_refused :: "('s, 'a) action \<Rightarrow> ('s, CallError + 'a) action" where
  "try_refused m = (\<lambda>s. case m s of
       (Inl (Refused e), s') \<Rightarrow> (Inr (Inl e), s')
     | (Inl Crashed, s') \<Rightarrow> (Inl Crashed, s')
     | (Inr x, s') \<Rightarrow> (Inr (Inr x), s'))"

definition refuse :: "string \<Rightarrow> string \<Rightarrow> int option \<Rightarrow> failure" where
  "refuse kind reason status = Refused \<lparr>ce_kind = kind, ce_reason = reason, ce_status = status\<rparr>"

section \<open>Decoding a response\<close>

record Response =
  rs_status :: int
  rs_text :: string

record Json =
  loads :: "string \<Rightarrow> pyval option"
  dumps :: "pyval \<Rightarrow> string"

definition too_large :: "string \<Rightarrow> bool" where
  "too_large text =
     (let folded = casefold text in
      contains_str ''too long'' folded \<or> contains_str ''too large'' folded \<or> contains_str ''maximum length'' folded)"

fun error_status :: "pyval \<Rightarrow> int option" where
  "error_status (PList (PInt i # _)) = Some i"
| "error_status (PList (PBool b # _)) = Some (if b then 1 else 0)"
| "error_status _ = None"

definition is_container :: "pyval \<Rightarrow> bool" where
  "is_container v = (case v of PDict _ \<Rightarrow> True | PList _ \<Rightarrow> True | _ \<Rightarrow> False)"

definition decode_payload :: "Json \<Rightarrow> pyval \<Rightarrow> failure + pyval" where
  "decode_payload json payload =
     (case payload of
        PDict d \<Rightarrow>
          (case dget d ''errors'' of
             Some errors \<Rightarrow>
               if too_large (dumps json errors)
               then Inl (refuse ''attribute_too_large'' ''attribute_too_large'' None)
               else if error_status errors = Some 401 \<or> error_status errors = Some 403
               then Inl (refuse ''authentication'' ''authentication_failed'' (error_status errors))
               else Inl (refuse ''rejected'' ''remote_rejected'' (error_status errors))
           | None \<Rightarrow>
               if is_container (dget_none d ''response'') then Inr (dget_none d ''response'') else Inr payload)
      | _ \<Rightarrow> Inr payload)"

definition decode :: "Json \<Rightarrow> Response \<Rightarrow> failure + pyval" where
  "decode json response =
     (let status = rs_status response; text = rs_text response in
      if status = 401 \<or> status = 403
      then Inl (refuse ''authentication'' ''authentication_failed'' (Some status))
      else if status = 404 then Inl (refuse ''other'' ''not_found'' (Some 404))
      else if 500 \<le> status then Inl (refuse ''connectivity'' ''connectivity_failed'' (Some status))
      else if 400 \<le> status
      then (if too_large text
            then Inl (refuse ''attribute_too_large'' ''attribute_too_large'' (Some status))
            else Inl (refuse ''rejected'' ''remote_rejected'' (Some status)))
      else if py_strip text = [] then Inr (PDict [])
      else (case loads json text of
              None \<Rightarrow> Inl (refuse ''connectivity'' ''connectivity_failed'' None)
            | Some payload \<Rightarrow> decode_payload json payload))"

section \<open>Reading payloads\<close>

fun as_dict_or_empty :: "pyval \<Rightarrow> pydict" where
  "as_dict_or_empty (PDict d) = d"
| "as_dict_or_empty _ = []"

definition dget_default :: "pydict \<Rightarrow> string \<Rightarrow> pyval \<Rightarrow> pyval" where
  "dget_default d k v = (case dget d k of None \<Rightarrow> v | Some x \<Rightarrow> x)"

definition is_dict_val :: "pyval \<Rightarrow> bool" where
  "is_dict_val v = (case v of PDict _ \<Rightarrow> True | _ \<Rightarrow> False)"

text \<open>Ids: an integer, or the integer of a text of digits, on which \<open>int\<close> may raise.\<close>

fun remote_integer :: "pyval \<Rightarrow> failure + int option" where
  "remote_integer (PInt i) = Inr (Some i)"
| "remote_integer (PStr s) =
     (if s = [] \<or> \<not> list_all is_unicode_digit s then Inr None
      else if \<not> list_all is_ascii_digit s \<or> 4300 < length s then Inl Crashed
      else Inr (Some (int (dec_value s))))"
| "remote_integer _ = Inr None"

fun flag :: "pyval \<Rightarrow> bool" where
  "flag (PStr s) = (s = ''1'' \<or> py_lower s = ''true'')"
| "flag v = truthy v"

fun count_items :: "pyval \<Rightarrow> nat" where
  "count_items (PList xs) = length xs"
| "count_items _ = 0"

fun object_dicts :: "pyval \<Rightarrow> pydict list" where
  "object_dicts (PList xs) = List.map_filter as_dict_val xs"
| "object_dicts _ = []"

definition attribute_dicts :: "pydict \<Rightarrow> pydict list" where
  "attribute_dicts obj = object_dicts (dget_none obj ''Attribute'')"

definition opentide_uuids :: "pyval \<Rightarrow> string list" where
  "opentide_uuids objects =
     concat (map (\<lambda>obj. List.map_filter
         (\<lambda>a. if dget_none a ''object_relation'' = PStr ''uuid'' then dget_str a ''value'' else None)
         (attribute_dicts obj)) (object_dicts objects))"

record RemoteEvent =
  re_id :: "int option"
  re_uuid :: string
  re_orgc :: "string option"
  re_published :: bool
  re_opentide :: "string list"
  re_attributes :: nat
  re_objects :: "pydict list"

definition remote_event :: "pyval \<Rightarrow> failure + RemoteEvent option" where
  "remote_event payload =
     (case payload of
        PDict d \<Rightarrow>
          (case dget_default d ''Event'' payload of
             PDict event \<Rightarrow>
               (case dget_str event ''uuid'' of
                  None \<Rightarrow> Inr None
                | Some uuid \<Rightarrow>
                    if uuid = [] then Inr None
                    else rbind (remote_integer (dget_none event ''id'')) (\<lambda>event_id.
                      Inr (Some \<lparr>re_id = event_id, re_uuid = uuid,
                        re_orgc = (case dget_dict event ''Orgc'' of None \<Rightarrow> None | Some org \<Rightarrow> dget_str org ''uuid''),
                        re_published = flag (dget_none event ''published''),
                        re_opentide = opentide_uuids (dget_none event ''Object''),
                        re_attributes = count_items (dget_none event ''Attribute''),
                        re_objects = object_dicts (dget_none event ''Object'')\<rparr>)))
           | _ \<Rightarrow> Inr None)
      | _ \<Rightarrow> Inr None)"

definition organisation_uuid :: "pyval \<Rightarrow> string option" where
  "organisation_uuid payload =
     (case payload of
        PDict d \<Rightarrow>
          (case dget_str (as_dict_or_empty (dget_none d ''Organisation'')) ''uuid'' of
             Some u \<Rightarrow> Some u
           | None \<Rightarrow>
               dget_str (as_dict_or_empty (dget_none (as_dict_or_empty (dget_none d ''User'')) ''Organisation'')) ''uuid'')
      | _ \<Rightarrow> None)"

definition event_nodes :: "pyval \<Rightarrow> pyval list" where
  "event_nodes payload =
     (case payload of
        PList xs \<Rightarrow> xs
      | PDict d \<Rightarrow>
          if is_dict_val (dget_none d ''Event'') then [payload]
          else
            (case dget_default d ''response'' payload of
               PList xs \<Rightarrow> xs
             | PDict r \<Rightarrow>
                 if is_dict_val (dget_none r ''Event'') then [PDict r]
                 else filter is_dict_val (map snd r)
             | _ \<Rightarrow> [])
      | _ \<Rightarrow> [])"

record TemplateView =
  tv_found :: bool
  tv_version :: "int option"
  tv_relations :: "string list"
  tv_types :: "string list option"

definition no_template :: TemplateView where
  "no_template = \<lparr>tv_found = False, tv_version = None, tv_relations = [], tv_types = None\<rparr>"

definition strings_of :: "pyval list \<Rightarrow> string list" where
  "strings_of xs = List.map_filter as_str_val xs"

definition values_list :: "Json \<Rightarrow> pyval \<Rightarrow> string list option" where
  "values_list json v =
     (case v of
        PList xs \<Rightarrow> Some (strings_of xs)
      | PStr s \<Rightarrow>
          if py_strip s = [] then None
          else (case loads json s of Some (PList xs) \<Rightarrow> Some (strings_of xs) | _ \<Rightarrow> None)
      | _ \<Rightarrow> None)"

text \<open>The relations are the ones of every element, the type values those of the last \<open>opentide-type\<close>.\<close>

definition template_element :: "Json \<Rightarrow> string list \<times> string list option \<Rightarrow> pyval \<Rightarrow> string list \<times> string list option" where
  "template_element json acc element =
     (case element of
        PDict e \<Rightarrow>
          (case dget_str e ''object_relation'' of
             None \<Rightarrow> acc
           | Some r \<Rightarrow>
               (if r \<in> set (fst acc) then fst acc else fst acc @ [r],
                if r = ''opentide-type'' then values_list json (dget_none e ''values_list'') else snd acc))
      | _ \<Rightarrow> acc)"

definition template_view :: "Json \<Rightarrow> pyval \<Rightarrow> failure + TemplateView" where
  "template_view json payload =
     (case payload of
        PDict d \<Rightarrow>
          (case dget_default d ''ObjectTemplate'' payload of
             PDict root \<Rightarrow>
               (let elements =
                  (case dget_none root ''ObjectTemplateElement'' of
                     PList xs \<Rightarrow> xs
                   | _ \<Rightarrow> (case dget_none root ''attributes'' of PList xs \<Rightarrow> xs | _ \<Rightarrow> []));
                    (relations, types) = foldl (template_element json) ([], None) elements
                in rbind (remote_integer (dget_none root ''version'')) (\<lambda>v.
                     Inr \<lparr>tv_found = True, tv_version = v, tv_relations = relations, tv_types = types\<rparr>))
           | _ \<Rightarrow> Inr no_template)
      | _ \<Rightarrow> Inr no_template)"

section \<open>Galaxy clusters\<close>

record GalaxyCluster =
  gc_uuid :: string
  gc_value :: string
  gc_external :: "string list"
  gc_synonyms :: "string list"
  gc_ref_tails :: "string list"

definition galaxy_attack :: string where
  "galaxy_attack = ''mitre-attack-pattern''"

definition galaxy_actor :: string where
  "galaxy_actor = ''threat-actor''"

fun strings :: "pyval \<Rightarrow> string list" where
  "strings (PStr s) = [s]"
| "strings (PList xs) = strings_of xs"
| "strings _ = []"

text \<open>\<open>path.rstrip('/').rsplit('/', 1)[-1]\<close>; the path of the URL is a parameter.\<close>

definition ref_tail :: "(string \<Rightarrow> string) \<Rightarrow> string \<Rightarrow> string" where
  "ref_tail url_path url =
     rev (takeWhile (\<lambda>c. c \<noteq> CHR ''/'') (dropWhile (\<lambda>c. c = CHR ''/'') (rev (url_path url))))"

definition cluster_meta :: "Json \<Rightarrow> pydict \<Rightarrow> pydict" where
  "cluster_meta json raw =
     (let meta = py_or (dget_none raw ''meta'') (py_or (dget_none raw ''meta_fields'') (PDict []));
          read = (case meta of PStr s \<Rightarrow> (case loads json s of None \<Rightarrow> PDict [] | Some v \<Rightarrow> v) | _ \<Rightarrow> meta)
      in as_dict_or_empty read)"

definition cluster :: "Json \<Rightarrow> (string \<Rightarrow> string) \<Rightarrow> string \<Rightarrow> pyval \<Rightarrow> GalaxyCluster option" where
  "cluster json url_path galaxy node =
     (case node of
        PDict n \<Rightarrow>
          (case dget_default n ''GalaxyCluster'' node of
             PDict raw \<Rightarrow>
               (let galaxy_node = (case dget_dict n ''Galaxy'' of Some g \<Rightarrow> Some g | None \<Rightarrow> dget_dict raw ''Galaxy'');
                    kind = (case galaxy_node of
                              None \<Rightarrow> None
                            | Some g \<Rightarrow> as_str_val (py_or (dget_none g ''type'') (dget_none g ''name'')))
                in if kind \<noteq> None \<and> kind \<noteq> Some galaxy then None
                   else
                     (case (dget_str raw ''uuid'', dget_str raw ''value'') of
                        (Some uuid, Some val) \<Rightarrow>
                          (let meta = cluster_meta json raw in
                           Some \<lparr>gc_uuid = uuid, gc_value = val, gc_external = strings (dget_none meta ''external_id''),
                             gc_synonyms = strings (dget_none meta ''synonyms''),
                             gc_ref_tails = map (ref_tail url_path) (strings (dget_none meta ''refs''))\<rparr>)
                      | _ \<Rightarrow> None))
           | _ \<Rightarrow> None)
      | _ \<Rightarrow> None)"

section \<open>Requests\<close>

text \<open>
  A prepared request: method, path and JSON body give a response, or \<open>Inl\<close> when
  \<open>requests\<close> raises. The state of the client is the network and the clusters already loaded.
\<close>

type_synonym 'w transport = "string \<Rightarrow> string \<Rightarrow> pyval option \<Rightarrow> 'w \<Rightarrow> (unit + Response) \<times> 'w"

record 'w ClientState =
  cs_net :: 'w
  cs_clusters :: "(string \<times> GalaxyCluster list) list"

definition http_request ::
  "'w transport \<Rightarrow> Json \<Rightarrow> string \<Rightarrow> string \<Rightarrow> pyval option \<Rightarrow> ('w ClientState, pyval) action" where
  "http_request net json meth path data =
     (\<lambda>s. let body = (case data of Some (PDict d) \<Rightarrow> if d = [] then None else Some (PDict d) | _ \<Rightarrow> None);
              (result, w) = net meth path body (cs_net s);
              s' = s\<lparr>cs_net := w\<rparr>
          in case result of
               Inl _ \<Rightarrow> (Inl (refuse ''connectivity'' ''connectivity_failed'' None), s')
             | Inr response \<Rightarrow> (decode json response, s'))"

definition page_size :: nat where
  "page_size = 100"

definition page_cap :: nat where
  "page_cap = 1000"

definition get_version :: "'w transport \<Rightarrow> Json \<Rightarrow> ('w ClientState, string) action" where
  "get_version net json =
     andthen (http_request net json ''GET'' ''servers/getVersion'' None) (\<lambda>payload.
       case dget_str (as_dict_or_empty payload) ''version'' of
         Some v \<Rightarrow> if v = [] then raise (refuse ''connectivity'' ''connectivity_failed'' None) else ret v
       | None \<Rightarrow> raise (refuse ''connectivity'' ''connectivity_failed'' None))"

definition current_organisation_uuid :: "'w transport \<Rightarrow> Json \<Rightarrow> ('w ClientState, string) action" where
  "current_organisation_uuid net json =
     andthen (http_request net json ''GET'' ''users/view/me'' None) (\<lambda>payload.
       case organisation_uuid payload of
         None \<Rightarrow> raise (refuse ''other'' ''organisation_uuid_unverified'' None)
       | Some u \<Rightarrow> ret u)"

definition object_template :: "'w transport \<Rightarrow> Json \<Rightarrow> ('w ClientState, TemplateView) action" where
  "object_template net json =
     andthen (try_refused (http_request net json ''GET'' (''objectTemplates/view/'' @ opentide_template_uuid) None))
       (\<lambda>r. case r of
          Inl e \<Rightarrow> if ce_status e = Some 404 then ret no_template else raise (Refused e)
        | Inr payload \<Rightarrow> lift_sum (template_view json payload))"

definition event_address :: "RemoteEvent \<Rightarrow> string" where
  "event_address r = (case re_id r of Some i \<Rightarrow> int_str i | None \<Rightarrow> re_uuid r)"

definition view_event :: "'w transport \<Rightarrow> Json \<Rightarrow> RemoteEvent \<Rightarrow> ('w ClientState, RemoteEvent option) action" where
  "view_event net json remote =
     andthen (try_refused (http_request net json ''GET'' (''events/view/'' @ event_address remote) None))
       (\<lambda>r. case r of
          Inl e \<Rightarrow> if ce_status e = Some 404 then ret None else raise (Refused e)
        | Inr payload \<Rightarrow> lift_sum (remote_event payload))"

text \<open>
  One page of the search: \<open>found\<close>, \<open>seen\<close> and the identities of the page, node by node; then
  the pages, at most \<open>page_cap\<close> of them.
\<close>

fun search_nodes ::
  "'w transport \<Rightarrow> Json \<Rightarrow> RemoteEvent list \<Rightarrow> string list \<Rightarrow> string list \<Rightarrow> pyval list
   \<Rightarrow> ('w ClientState, RemoteEvent list \<times> string list \<times> string list) action" where
  "search_nodes net json found seen identities [] = ret (found, seen, identities)"
| "search_nodes net json found seen identities (node # nodes) =
     andthen (lift_sum (remote_event node)) (\<lambda>r.
       case r of
         None \<Rightarrow> search_nodes net json found seen identities nodes
       | Some remote \<Rightarrow>
           if re_uuid remote \<in> set seen
           then search_nodes net json found seen (identities @ [re_uuid remote]) nodes
           else
             andthen (view_event net json remote) (\<lambda>full.
               search_nodes net json (case full of None \<Rightarrow> found | Some f \<Rightarrow> found @ [f])
                 (seen @ [re_uuid remote]) (identities @ [re_uuid remote]) nodes))"

definition search_body :: "string \<Rightarrow> nat \<Rightarrow> pyval" where
  "search_body object_uuid page =
     jobj [(''returnFormat'', PStr ''json''), (''object_name'', PStr ''opentide''), (''value'', PStr object_uuid),
       (''page'', PInt (int page)), (''limit'', PInt (int page_size))]"

fun search_pages ::
  "'w transport \<Rightarrow> Json \<Rightarrow> string \<Rightarrow> nat \<Rightarrow> nat \<Rightarrow> RemoteEvent list \<Rightarrow> string list \<Rightarrow> string list
   \<Rightarrow> ('w ClientState, RemoteEvent list) action" where
  "search_pages net json object_uuid 0 page found seen previous = ret found"
| "search_pages net json object_uuid (Suc left) page found seen previous =
     andthen (http_request net json ''POST'' ''events/restSearch'' (Some (search_body object_uuid page))) (\<lambda>payload.
       andthen (search_nodes net json found seen [] (event_nodes payload)) (\<lambda>(found', seen', signature).
         if length (event_nodes payload) < page_size \<or> signature = previous then ret found'
         else search_pages net json object_uuid left (Suc page) found' seen' signature))"

definition search_opentide_events ::
  "'w transport \<Rightarrow> Json \<Rightarrow> string \<Rightarrow> ('w ClientState, RemoteEvent list) action" where
  "search_opentide_events net json object_uuid = search_pages net json object_uuid page_cap 1 [] [] []"

definition written_event :: "string \<Rightarrow> pyval \<Rightarrow> ('w ClientState, RemoteEvent) action" where
  "written_event reason payload =
     andthen (lift_sum (remote_event payload)) (\<lambda>r.
       case r of None \<Rightarrow> raise (refuse ''rejected'' reason None) | Some remote \<Rightarrow> ret remote)"

definition add_event :: "'w transport \<Rightarrow> Json \<Rightarrow> pyval \<Rightarrow> ('w ClientState, RemoteEvent) action" where
  "add_event net json event =
     andthen (http_request net json ''POST'' ''events/add'' (Some event)) (written_event ''remote_rejected'')"

definition edit_event :: "'w transport \<Rightarrow> Json \<Rightarrow> string \<Rightarrow> pyval \<Rightarrow> ('w ClientState, RemoteEvent) action" where
  "edit_event net json event_id event =
     andthen (http_request net json ''POST'' (''events/edit/'' @ event_id) (Some event))
       (written_event ''remote_update_rejected'')"

definition publish_event :: "'w transport \<Rightarrow> Json \<Rightarrow> string \<Rightarrow> ('w ClientState, unit) action" where
  "publish_event net json event_id =
     andthen (http_request net json ''POST'' (''events/publish/'' @ event_id) (Some (PDict []))) (\<lambda>_. ret ())"

definition unpublish_event :: "'w transport \<Rightarrow> Json \<Rightarrow> string \<Rightarrow> ('w ClientState, unit) action" where
  "unpublish_event net json event_id =
     andthen (http_request net json ''POST'' (''events/unpublish/'' @ event_id) (Some (PDict []))) (\<lambda>_. ret ())"

definition delete_event :: "'w transport \<Rightarrow> Json \<Rightarrow> string \<Rightarrow> ('w ClientState, unit) action" where
  "delete_event net json event_id =
     andthen (try_refused (http_request net json ''DELETE'' (''events/'' @ event_id) None)) (\<lambda>r.
       case r of Inl e \<Rightarrow> if ce_status e = Some 404 then ret () else raise (Refused e) | Inr _ \<Rightarrow> ret ())"

fun cluster_pages ::
  "'w transport \<Rightarrow> Json \<Rightarrow> (string \<Rightarrow> string) \<Rightarrow> string \<Rightarrow> nat \<Rightarrow> nat \<Rightarrow> GalaxyCluster list \<Rightarrow> string list
   \<Rightarrow> ('w ClientState, GalaxyCluster list) action" where
  "cluster_pages net json url_path galaxy 0 page collected previous = ret collected"
| "cluster_pages net json url_path galaxy (Suc left) page collected previous =
     andthen (http_request net json ''POST'' ''galaxy_clusters/restSearch''
       (Some (jobj [(''returnFormat'', PStr ''json''), (''galaxy'', PStr galaxy), (''page'', PInt (int page)),
                    (''limit'', PInt (int page_size))]))) (\<lambda>payload.
       let batch = List.map_filter (cluster json url_path galaxy) (event_nodes payload);
           signature = map gc_uuid batch
       in if length (event_nodes payload) < page_size \<or> signature = previous then ret (collected @ batch)
          else cluster_pages net json url_path galaxy left (Suc page) (collected @ batch) signature)"

definition galaxy_clusters ::
  "'w transport \<Rightarrow> Json \<Rightarrow> (string \<Rightarrow> string) \<Rightarrow> string \<Rightarrow> ('w ClientState, GalaxyCluster list) action" where
  "galaxy_clusters net json url_path galaxy =
     (\<lambda>s. case map_of (cs_clusters s) galaxy of
        Some cached \<Rightarrow> (Inr cached, s)
      | None \<Rightarrow>
          andthen (cluster_pages net json url_path galaxy page_cap 1 [] [])
            (\<lambda>loaded s. (Inr loaded, s\<lparr>cs_clusters := AList.update galaxy loaded (cs_clusters s)\<rparr>)) s)"

section \<open>The client\<close>

text \<open>The \<open>MispClient\<close> protocol, and its PyMISP implementation.\<close>

record 's MispClient =
  cl_version :: "('s, string) action"
  cl_organisation :: "('s, string) action"
  cl_template :: "('s, TemplateView) action"
  cl_search :: "string \<Rightarrow> ('s, RemoteEvent list) action"
  cl_add :: "pyval \<Rightarrow> ('s, RemoteEvent) action"
  cl_edit :: "string \<Rightarrow> pyval \<Rightarrow> ('s, RemoteEvent) action"
  cl_publish :: "string \<Rightarrow> ('s, unit) action"
  cl_unpublish :: "string \<Rightarrow> ('s, unit) action"
  cl_delete :: "string \<Rightarrow> ('s, unit) action"
  cl_clusters :: "string \<Rightarrow> ('s, GalaxyCluster list) action"

definition pymisp_client :: "'w transport \<Rightarrow> Json \<Rightarrow> (string \<Rightarrow> string) \<Rightarrow> 'w ClientState MispClient" where
  "pymisp_client net json url_path =
     \<lparr>cl_version = get_version net json, cl_organisation = current_organisation_uuid net json,
      cl_template = object_template net json, cl_search = search_opentide_events net json,
      cl_add = add_event net json, cl_edit = edit_event net json, cl_publish = publish_event net json,
      cl_unpublish = unpublish_event net json, cl_delete = delete_event net json,
      cl_clusters = galaxy_clusters net json url_path\<rparr>"

section \<open>Resolving clusters\<close>

record GalaxyResolution =
  gr_tags :: "string list"
  gr_notes :: "string list"
  gr_error :: "CallError option"

definition actor_scopes :: "string list" where
  "actor_scopes = [''att&ck'', ''misp'']"

definition galaxy_tag :: "string \<Rightarrow> string \<Rightarrow> string" where
  "galaxy_tag galaxy v = ''misp-galaxy:'' @ galaxy @ ''='' @ [CHR 0x22] @ v @ [CHR 0x22]"

definition same_text :: "string \<Rightarrow> string \<Rightarrow> bool" where
  "same_text a b = (casefold (py_strip a) = casefold (py_strip b))"

definition ambiguous_note :: "GalaxyCluster list \<Rightarrow> string" where
  "ambiguous_note matched = ''cluster_ambiguous:'' @ str_join '','' (sort (map gc_uuid matched))"

definition one_cluster :: "GalaxyCluster list \<Rightarrow> string \<Rightarrow> string \<Rightarrow> string option \<times> string option" where
  "one_cluster matched missing galaxy =
     (case matched of
        [c] \<Rightarrow> (Some (galaxy_tag galaxy (gc_value c)), None)
      | [] \<Rightarrow> (None, Some missing)
      | _ \<Rightarrow> (None, Some (ambiguous_note matched)))"

definition technique_tag :: "GalaxyCluster list \<Rightarrow> string \<Rightarrow> string option \<times> string option" where
  "technique_tag clusters technique =
     one_cluster (filter (\<lambda>c. list_ex (\<lambda>item. same_text item technique) (gc_external c)) clusters)
       (''cluster_not_found:'' @ technique) galaxy_attack"

text \<open>The predicates are tried in turn; the first that matches a cluster decides.\<close>

fun first_predicate ::
  "GalaxyCluster list \<Rightarrow> string \<Rightarrow> (GalaxyCluster \<Rightarrow> bool) list \<Rightarrow> string option \<times> string option" where
  "first_predicate clusters name [] = (None, Some (''cluster_not_found:'' @ name))"
| "first_predicate clusters name (p # ps) =
     (case filter p clusters of
        [] \<Rightarrow> first_predicate clusters name ps
      | matched \<Rightarrow> one_cluster matched [] galaxy_actor)"

definition actor_tag :: "GalaxyCluster list \<Rightarrow> string \<Rightarrow> string option \<times> string option" where
  "actor_tag clusters name =
     (let (scope, separator, ident) = py_partition ''::'' name in
      if \<not> separator \<or> scope \<notin> set actor_scopes \<or> ident = [] then (None, Some (''actor_unscoped:'' @ name))
      else if scope = ''misp''
      then one_cluster (filter (\<lambda>c. casefold (gc_uuid c) = casefold ident) clusters)
             (''cluster_not_found:'' @ name) galaxy_actor
      else first_predicate clusters name
             [\<lambda>c. list_ex (\<lambda>item. same_text item ident) (gc_external c),
              \<lambda>c. list_ex (\<lambda>tail. tail = ident) (gc_ref_tails c),
              \<lambda>c. list_ex (\<lambda>item. same_text item ident) (gc_synonyms c)])"

definition push_tag :: "string option \<Rightarrow> string list \<Rightarrow> string list" where
  "push_tag tag bucket =
     (case tag of None \<Rightarrow> bucket | Some t \<Rightarrow> if t \<noteq> [] \<and> t \<notin> set bucket then bucket @ [t] else bucket)"

definition push_note :: "string option \<Rightarrow> string list \<Rightarrow> string list" where
  "push_note n found = (case n of None \<Rightarrow> found | Some t \<Rightarrow> if t \<noteq> [] then found @ [t] else found)"

record Lookup =
  lk_attack :: "GalaxyCluster list option"
  lk_actors :: "GalaxyCluster list option"
  lk_actor_tags :: "string list"
  lk_attack_tags :: "string list"
  lk_notes :: "string list"

definition load_once ::
  "'s MispClient \<Rightarrow> string \<Rightarrow> GalaxyCluster list option \<Rightarrow> ('s, GalaxyCluster list) action" where
  "load_once client galaxy known = (case known of Some cs \<Rightarrow> ret cs | None \<Rightarrow> cl_clusters client galaxy)"

definition resolve_source :: "'s MispClient \<Rightarrow> Lookup \<Rightarrow> string \<Rightarrow> ('s, Lookup) action" where
  "resolve_source client lookup source =
     (let (kind, _, ident) = py_partition '':'' source in
      if kind = ''technique''
      then andthen (load_once client galaxy_attack (lk_attack lookup)) (\<lambda>clusters.
             let (tag, n) = technique_tag clusters ident in
             ret (lookup\<lparr>lk_attack := Some clusters, lk_notes := push_note n (lk_notes lookup),
                         lk_attack_tags := push_tag tag (lk_attack_tags lookup)\<rparr>))
      else andthen (load_once client galaxy_actor (lk_actors lookup)) (\<lambda>clusters.
             let (tag, n) = actor_tag clusters ident in
             ret (lookup\<lparr>lk_actors := Some clusters, lk_notes := push_note n (lk_notes lookup),
                         lk_actor_tags := push_tag tag (lk_actor_tags lookup)\<rparr>)))"

fun resolve_sources :: "'s MispClient \<Rightarrow> Lookup \<Rightarrow> string list \<Rightarrow> ('s, Lookup) action" where
  "resolve_sources client lookup [] = ret lookup"
| "resolve_sources client lookup (source # rest) =
     andthen (resolve_source client lookup source) (\<lambda>l. resolve_sources client l rest)"

definition resolve_clusters :: "'s MispClient \<Rightarrow> string list \<Rightarrow> ('s, GalaxyResolution) action" where
  "resolve_clusters client sources =
     (if sources = [] then ret \<lparr>gr_tags = [], gr_notes = [], gr_error = None\<rparr>
      else
        catch_refused
          (andthen (resolve_sources client
              \<lparr>lk_attack = None, lk_actors = None, lk_actor_tags = [], lk_attack_tags = [], lk_notes = []\<rparr> sources)
            (\<lambda>l. ret \<lparr>gr_tags = sort (lk_actor_tags l) @ sort (lk_attack_tags l), gr_notes = lk_notes l,
                      gr_error = None\<rparr>))
          (\<lambda>e. ret \<lparr>gr_tags = [], gr_notes = [],
                    gr_error = Some (e\<lparr>ce_reason := ''galaxy_lookup_failed''\<rparr>)\<rparr>))"

section \<open>Laws of actions\<close>

lemma try_refused_run [action_simps]:
  "m s = (Inr x, s') \<Longrightarrow> try_refused m s = (Inr (Inr x), s')"
  "m s = (Inl (Refused e), s') \<Longrightarrow> try_refused m s = (Inr (Inl e), s')"
  by (simp_all add: try_refused_def)

lemma try_refused_fails: "try_refused m s = (Inl e, t) \<longleftrightarrow> m s = (Inl Crashed, t) \<and> e = Crashed"
  by (auto simp: try_refused_def split: prod.splits sum.splits failure.splits)

section \<open>What a response means\<close>

text \<open>
  A response is taken as a payload only when its status is below 400 and the body is blank, or JSON
  without an \<open>errors\<close> key; 401 and 403 are authentication failures whatever the body, a server
  error or a body that is not JSON is one of connectivity, 404 keeps its status, and decoding never crashes.
\<close>

theorem response_classes:
  "(case decode json response of
      Inr payload \<Rightarrow>
        rs_status response < 400
        \<and> (py_strip (rs_text response) = [] \<and> payload = PDict []
           \<or> (\<exists>v. loads json (rs_text response) = Some v \<and> (case v of PDict d \<Rightarrow> dget d ''errors'' = None | _ \<Rightarrow> True)
                \<and> (payload = v \<or> payload = dget_none (as_dict_or_empty v) ''response'')))
    | Inl Crashed \<Rightarrow> False
    | Inl (Refused e) \<Rightarrow>
        (ce_status e = Some 404 \<longrightarrow> rs_status response = 404 \<or> rs_status response < 400)
        \<and> (ce_kind e = ''authentication'' \<longleftrightarrow> ce_status e = Some 401 \<or> ce_status e = Some 403)
        \<and> (ce_kind e = ''connectivity'' \<longrightarrow> 500 \<le> rs_status response \<or> loads json (rs_text response) = None))
   \<and> (rs_status response = 401 \<or> rs_status response = 403 \<longrightarrow>
        decode json response = Inl (refuse ''authentication'' ''authentication_failed'' (Some (rs_status response))))"
  by (auto simp: decode_def decode_payload_def refuse_def Let_def split: pyval.splits option.splits)

theorem response_classes_witness:
  "decode \<lparr>loads = (\<lambda>_. None), dumps = (\<lambda>_. [])\<rparr> \<lparr>rs_status = 401, rs_text = ''{}''\<rparr>
     = Inl (refuse ''authentication'' ''authentication_failed'' (Some 401))"
  using response_classes [of "\<lparr>rs_status = 401, rs_text = ''{}''\<rparr>" "\<lparr>loads = (\<lambda>_. None), dumps = (\<lambda>_. [])\<rparr>"]
  by simp

section \<open>The search\<close>

text \<open>A node of a page, the event it decodes to, and the event its view decodes to.\<close>

type_synonym listed = "pyval \<times> RemoteEvent \<times> RemoteEvent option"

definition viewable :: "'w transport \<Rightarrow> Json \<Rightarrow> 'w ClientState \<Rightarrow> listed \<Rightarrow> bool" where
  "viewable net json s item =
     (remote_event (fst item) = Inr (Some (fst (snd item)))
    \<and> view_event net json (fst (snd item)) s = (Inr (snd (snd item)), s))"

definition listed_uuid :: "listed \<Rightarrow> string" where
  "listed_uuid item = re_uuid (fst (snd item))"

definition viewed :: "listed list \<Rightarrow> RemoteEvent list" where
  "viewed items = List.map_filter (snd \<circ> snd) items"

lemma viewed_append [simp]: "viewed (xs @ ys) = viewed xs @ viewed ys"
  by (simp add: viewed_def List.map_filter_def)

lemma search_nodes_run:
  assumes "list_all (viewable net json s) items" "distinct (map listed_uuid items)"
    "set seen \<inter> set (map listed_uuid items) = {}"
  shows "search_nodes net json found seen ids (map fst items) s =
    (Inr (found @ viewed items, seen @ map listed_uuid items, ids @ map listed_uuid items), s)"
  using assms
proof (induction items arbitrary: found seen ids)
  case Nil
  then show ?case by (simp add: viewed_def ret_run)
next
  case (Cons item items)
  then have v: "remote_event (fst item) = Inr (Some (fst (snd item)))"
    "view_event net json (fst (snd item)) s = (Inr (snd (snd item)), s)"
    by (simp_all add: viewable_def)
  have "search_nodes net json found' (seen @ [listed_uuid item]) (ids @ [listed_uuid item]) (map fst items) s =
    (Inr (found' @ viewed items, (seen @ [listed_uuid item]) @ map listed_uuid items,
          (ids @ [listed_uuid item]) @ map listed_uuid items), s)" for found'
    using Cons.prems by (intro Cons.IH) auto
  with v Cons.prems(3) show ?case
    by (auto simp: andthen_def ret_def viewed_def listed_uuid_def map_filter_simps split: option.split)
qed

lemma search_pages_run:
  fixes items :: "listed list"
  assumes pages: "\<And>p. http_request net json ''POST'' ''events/restSearch'' (Some (search_body object_uuid (Suc p))) s
      = (Inr (PList (map fst (take page_size (drop (p * page_size) items)))), s)"
    and views: "list_all (viewable net json s) items"
    and once: "distinct (map listed_uuid items)"
    and "set previous \<subseteq> set seen" "seen = map listed_uuid (take (p * page_size) items)"
  shows "search_pages net json object_uuid left (Suc p) found seen previous s
      = (Inr (found @ viewed (take (left * page_size) (drop (p * page_size) items))), s)"
  using assms(4,5)
proof (induction left arbitrary: p found seen previous)
  case 0
  then show ?case by (simp add: ret_run viewed_def map_filter_simps)
next
  case (Suc left)
  let ?page = "take page_size (drop (p * page_size) items)"
  let ?sig = "map listed_uuid ?page"
  have split: "take (Suc p * page_size) items = take (p * page_size) items @ ?page"
    by (metis add.commute mult_Suc take_add)
  have d: "distinct (map listed_uuid (take (p * page_size) items @ ?page))"
    using once by (metis split distinct_take take_map)
  have "list_all (viewable net json s) ?page"
    using views by (auto simp: list_all_iff dest: in_set_takeD in_set_dropD)
  then have nodes: "search_nodes net json found seen [] (map fst ?page) s =
      (Inr (found @ viewed ?page, seen @ ?sig, ?sig), s)"
    using search_nodes_run [of net json s ?page seen found "[]"] d Suc.prems(2) by auto
  show ?case
  proof (cases "length ?page < page_size")
    case True
    then have "take (Suc left * page_size) (drop (p * page_size) items) = ?page" by simp
    moreover have "length items - p * page_size < page_size" using True by (simp add: min_def split: if_splits)
    ultimately show ?thesis
      using pages [of p] nodes by (simp add: andthen_def event_nodes_def ret_def)
  next
    case False
    then obtain x where "x \<in> set ?page"
      by (metis last_in_set list.size(3) page_size_def zero_less_numeral)
    then have "?sig \<noteq> previous" using d Suc.prems by fastforce
    moreover have "search_pages net json object_uuid left (Suc (Suc p)) (found @ viewed ?page) (seen @ ?sig) ?sig s
        = (Inr ((found @ viewed ?page) @ viewed (take (left * page_size) (drop (Suc p * page_size) items))), s)"
      using Suc.prems(2) split by (intro Suc.IH) auto
    moreover have "take (Suc left * page_size) (drop (p * page_size) items)
        = ?page @ take (left * page_size) (drop (Suc p * page_size) items)"
      by (simp add: take_add add.commute)
    ultimately show ?thesis
      using pages [of p] nodes False by (simp add: andthen_def event_nodes_def)
  qed
qed

text \<open>
  The search is complete. Against a server that lists the events holding an object in pages of 100 and
  answers every view, each event is viewed once and returned in the order of the list, up to the cap of 1000 pages;
  an event deleted since it was listed is left out.
\<close>

theorem search_finds_every_listed_event:
  fixes items :: "listed list"
  assumes pages: "\<And>p. http_request net json ''POST'' ''events/restSearch'' (Some (search_body object_uuid (Suc p))) s
      = (Inr (PList (map fst (take page_size (drop (p * page_size) items)))), s)"
    and views: "list_all (viewable net json s) items"
    and once: "distinct (map listed_uuid items)"
  shows "search_opentide_events net json object_uuid s = (Inr (viewed (take (page_cap * page_size) items)), s)"
  using search_pages_run [OF assms, of "[]" "[]" 0] by (simp add: search_opentide_events_def)

text \<open>A server that holds one event; the text of a response is its path.\<close>

definition sample_node :: pyval where
  "sample_node = jobj [(''Event'', jobj [(''uuid'', PStr ''e1''), (''id'', PStr ''7'')])]"

definition sample_remote :: RemoteEvent where
  "sample_remote = \<lparr>re_id = Some 7, re_uuid = ''e1'', re_orgc = None, re_published = False, re_opentide = [],
     re_attributes = 0, re_objects = []\<rparr>"

definition sample_json :: Json where
  "sample_json = \<lparr>loads = (\<lambda>t. Some (if t = ''events/view/7'' then sample_node else
       if t = ''first'' then PList [sample_node] else PList [])), dumps = (\<lambda>_. [])\<rparr>"

definition sample_net :: "unit transport" where
  "sample_net = (\<lambda>meth path data w. (Inr \<lparr>rs_status = 200, rs_text =
     (if path = ''events/restSearch''
      then (if data = Some (search_body ''u'' 1) then ''first'' else ''later'') else path)\<rparr>, w))"

definition sample_client_state :: "unit ClientState" where
  "sample_client_state = \<lparr>cs_net = (), cs_clusters = []\<rparr>"

lemma search_body_page: "search_body u p = search_body u q \<longleftrightarrow> p = q"
  by (simp add: search_body_def jobj_def)

lemma sample_remote_event: "remote_event sample_node = Inr (Some sample_remote)"
  by (simp add: remote_event_def sample_node_def sample_remote_def jobj_def dget_default_def dget_str_def dget_dict_def
      is_unicode_digit_def is_ascii_digit_def dec_value_def flag.simps opentide_uuids_def)

lemma sample_decode:
  "decode sample_json \<lparr>rs_status = 200, rs_text = ''events/view/7''\<rparr> = Inr sample_node"
  "decode sample_json \<lparr>rs_status = 200, rs_text = ''first''\<rparr> = Inr (PList [sample_node])"
  "decode sample_json \<lparr>rs_status = 200, rs_text = ''later''\<rparr> = Inr (PList [])"
proof -
  have "py_strip ''events/view/7'' \<noteq> []" "py_strip ''first'' \<noteq> []" "py_strip ''later'' \<noteq> []" by code_simp+
  then show "decode sample_json \<lparr>rs_status = 200, rs_text = ''events/view/7''\<rparr> = Inr sample_node"
    "decode sample_json \<lparr>rs_status = 200, rs_text = ''first''\<rparr> = Inr (PList [sample_node])"
    "decode sample_json \<lparr>rs_status = 200, rs_text = ''later''\<rparr> = Inr (PList [])"
    by (simp_all add: decode_def decode_payload_def sample_json_def sample_node_def jobj_def is_container_def)
qed

lemma sample_search:
  "http_request sample_net sample_json ''POST'' ''events/restSearch'' (Some (search_body ''u'' (Suc p))) sample_client_state
     = (Inr (PList (if p = 0 then [sample_node] else [])), sample_client_state)"
  by (simp add: http_request_def search_body_def jobj_def sample_net_def sample_decode sample_client_state_def)

lemma sample_view: "view_event sample_net sample_json sample_remote sample_client_state
    = (Inr (Some sample_remote), sample_client_state)"
proof -
  have "event_address sample_remote = ''7''" by (simp add: event_address_def sample_remote_def) code_simp
  then show ?thesis
    by (simp add: view_event_def http_request_def sample_net_def sample_decode sample_client_state_def andthen_def
        try_refused_def sample_remote_event ret_def)
qed

theorem search_finds_every_listed_event_witness:
  "search_opentide_events sample_net sample_json ''u'' sample_client_state = (Inr [sample_remote], sample_client_state)"
proof -
  let ?items = "[(sample_node, sample_remote, Some sample_remote)]"
  have "http_request sample_net sample_json ''POST'' ''events/restSearch'' (Some (search_body ''u'' (Suc p))) sample_client_state
      = (Inr (PList (map fst (take page_size (drop (p * page_size) ?items)))), sample_client_state)" for p
    by (cases p) (simp_all add: sample_search page_size_def)
  then have "search_opentide_events sample_net sample_json ''u'' sample_client_state
      = (Inr (viewed (take (page_cap * page_size) ?items)), sample_client_state)"
    by (rule search_finds_every_listed_event)
       (simp_all add: viewable_def sample_remote_event sample_view)
  then show ?thesis by (simp add: viewed_def page_cap_def page_size_def map_filter_simps)
qed

section \<open>Cluster tags\<close>

lemma one_cluster_tag:
  "fst (one_cluster matched missing galaxy) = Some t \<longleftrightarrow> (\<exists>c. matched = [c] \<and> t = galaxy_tag galaxy (gc_value c))"
  by (auto simp: one_cluster_def split: list.splits)

lemma first_predicate_tag:
  "fst (first_predicate clusters name ps) = Some t \<Longrightarrow> \<exists>c \<in> set clusters. t = galaxy_tag galaxy_actor (gc_value c)"
proof (induction clusters name ps rule: first_predicate.induct)
  case (2 clusters name p ps)
  show ?case
  proof (cases "filter p clusters")
    case (Cons c cs)
    then have "fst (one_cluster (c # cs) [] galaxy_actor) = Some t" using 2(2) by simp
    then have "t = galaxy_tag galaxy_actor (gc_value c)" by (auto simp: one_cluster_tag)
    moreover have "c \<in> set clusters" using Cons by (auto simp: filter_eq_Cons_iff)
    ultimately show ?thesis by blast
  qed (use 2 in simp)
qed simp

lemma actor_tag_form: "fst (actor_tag clusters name) = Some t \<Longrightarrow> \<exists>v. t = galaxy_tag galaxy_actor v"
  by (auto simp: actor_tag_def case_prod_unfold Let_def one_cluster_tag dest: first_predicate_tag split: if_splits
      simp del: first_predicate.simps)

lemma technique_tag_form: "fst (technique_tag clusters name) = Some t \<Longrightarrow> \<exists>v. t = galaxy_tag galaxy_attack v"
  by (auto simp: technique_tag_def one_cluster_tag)

lemma galaxy_tag_apart: "galaxy_tag galaxy_actor v \<noteq> galaxy_tag galaxy_attack w"
  by (simp add: galaxy_tag_def galaxy_actor_def galaxy_attack_def)

definition lookup_ok :: "Lookup \<Rightarrow> bool" where
  "lookup_ok l =
     (distinct (lk_actor_tags l) \<and> distinct (lk_attack_tags l)
    \<and> (\<forall>t \<in> set (lk_actor_tags l). \<exists>v. t = galaxy_tag galaxy_actor v)
    \<and> (\<forall>t \<in> set (lk_attack_tags l). \<exists>v. t = galaxy_tag galaxy_attack v))"

lemma push_tag_distinct: "distinct b \<Longrightarrow> distinct (push_tag t b)"
  by (auto simp: push_tag_def split: option.splits)

lemma push_tag_set: "x \<in> set (push_tag t b) \<Longrightarrow> x \<in> set b \<or> t = Some x"
  by (auto simp: push_tag_def split: option.splits if_splits)

lemma resolve_source_ok:
  assumes "resolve_source client l source s = (Inr l', t)" "lookup_ok l"
  shows "lookup_ok l'"
proof -
  have actor: "lookup_ok (l\<lparr>lk_actors := a, lk_notes := n, lk_actor_tags := push_tag (fst (actor_tag cs i)) (lk_actor_tags l)\<rparr>)" for a n cs i
    using assms(2) by (auto simp: lookup_ok_def push_tag_distinct dest!: push_tag_set dest: actor_tag_form)
  have attack: "lookup_ok (l\<lparr>lk_attack := a, lk_notes := n, lk_attack_tags := push_tag (fst (technique_tag cs i)) (lk_attack_tags l)\<rparr>)" for a n cs i
    using assms(2) by (auto simp: lookup_ok_def push_tag_distinct dest!: push_tag_set dest: technique_tag_form)
  show ?thesis
    using assms(1) actor attack
    by (auto simp: resolve_source_def case_prod_unfold Let_def andthen_Inr ret_def split: if_splits)
qed

lemma resolve_sources_ok:
  "resolve_sources client l sources s = (Inr l', t) \<Longrightarrow> lookup_ok l \<Longrightarrow> lookup_ok l'"
proof (induction client l sources arbitrary: s rule: resolve_sources.induct)
  case (1 client l)
  then show ?case by (simp add: ret_def)
next
  case (2 client l source rest)
  then obtain l1 s1 where l1: "resolve_source client l source s = (Inr l1, s1)"
    "resolve_sources client l1 rest s1 = (Inr l', t)" by (auto simp: andthen_Inr)
  show ?case by (rule 2(1) [OF l1(2) resolve_source_ok [OF l1(1) 2(3)]])
qed

lemma lookup_tags_distinct: "lookup_ok l \<Longrightarrow> distinct (sort (lk_actor_tags l) @ sort (lk_attack_tags l))"
  unfolding lookup_ok_def using galaxy_tag_apart by fastforce

text \<open>
  Resolving clusters never lets a refused call escape: it becomes the error \<open>galaxy_lookup_failed\<close>, with
  no tag, which keeps the kind of the call. Otherwise the tags hold no duplicate, every one names a threat actor
  or an attack pattern, and a document without sources makes no call.
\<close>

theorem cluster_resolution:
  "(case resolve_clusters client sources s of
      (Inl e, _) \<Rightarrow> e = Crashed
    | (Inr r, t) \<Rightarrow>
        distinct (gr_tags r)
        \<and> list_all (\<lambda>g. starts_with ''misp-galaxy:threat-actor='' g \<or> starts_with ''misp-galaxy:mitre-attack-pattern='' g) (gr_tags r)
        \<and> (gr_error r = None \<or> gr_tags r = [] \<and> ce_reason (the (gr_error r)) = ''galaxy_lookup_failed'')
        \<and> (sources \<noteq> [] \<or> r = \<lparr>gr_tags = [], gr_notes = [], gr_error = None\<rparr> \<and> t = s))"
proof (cases "sources = []")
  case True
  then show ?thesis by (simp add: resolve_clusters_def ret_def)
next
  case False
  define l where "l = \<lparr>lk_attack = None, lk_actors = None, lk_actor_tags = [], lk_attack_tags = [], lk_notes = []\<rparr>"
  obtain r t where r: "resolve_sources client l sources s = (r, t)" by force
  show ?thesis
  proof (cases r)
    case (Inl e)
    then show ?thesis using False r
      by (cases e) (simp_all add: resolve_clusters_def catch_refused_def andthen_def ret_def l_def [symmetric])
  next
    case (Inr l')
    have ok: "lookup_ok l'" using resolve_sources_ok [of client l sources s l' t] r Inr by (simp add: l_def lookup_ok_def)
    have "list_all (\<lambda>g. starts_with ''misp-galaxy:threat-actor='' g \<or> starts_with ''misp-galaxy:mitre-attack-pattern='' g)
        (sort (lk_actor_tags l') @ sort (lk_attack_tags l'))"
      using ok by (auto simp: lookup_ok_def list_all_iff galaxy_tag_def galaxy_actor_def galaxy_attack_def)
    with False r Inr lookup_tags_distinct [OF ok] show ?thesis
      by (simp add: resolve_clusters_def catch_refused_def andthen_def ret_def l_def [symmetric])
  qed
qed

theorem cluster_resolution_witness:
  "resolve_clusters (pymisp_client sample_net sample_json (\<lambda>_. [])) [] sample_client_state
     = (Inr \<lparr>gr_tags = [], gr_notes = [], gr_error = None\<rparr>, sample_client_state)"
  using cluster_resolution [where client = "pymisp_client sample_net sample_json (\<lambda>_. [])" and sources = "[]"
      and s = sample_client_state]
  by (simp add: resolve_clusters_def ret_def)

text \<open>
  A technique is tagged exactly when one cluster of the attack galaxy has it among its external ids,
  compared without case or surrounding blanks; with none or with several no tag is given, and a note says which.
\<close>

theorem technique_tagged_iff_unique:
  "(fst (technique_tag clusters technique) = Some t
      \<longleftrightarrow> (\<exists>c. filter (\<lambda>c. list_ex (\<lambda>x. casefold (py_strip x) = casefold (py_strip technique)) (gc_external c)) clusters = [c]
              \<and> t = galaxy_tag galaxy_attack (gc_value c)))
   \<and> (snd (technique_tag clusters technique) = None \<longleftrightarrow> fst (technique_tag clusters technique) \<noteq> None)"
  by (auto simp: technique_tag_def one_cluster_def same_text_def split: list.splits)

end
