(* ===== verification/Share_Engine.thy ===== *)
theory Share_Engine
  imports Share_Ledger Share_Client
begin

text \<open>
  Push, preview, status and retract of \<open>sharing/engine.py\<close>: what is selected and shared, the
  create, update and publish of one object, retraction, and the ledger each of them leaves. The state of the
  destinations is the type variable \<open>'w\<close>, reached only through the clients; the workers run
  one after the other, in the order the results are collected.
\<close>

section \<open>State and blocks\<close>

record 'w EngineState =
  es_ledger :: ledger
  es_file :: "string option"
  es_remote :: 'w

record Env =
  ev_voc :: Vocabularies
  ev_hash :: "string \<Rightarrow> string"
  ev_dump :: "pydict \<Rightarrow> string"
  ev_resolve :: "string \<Rightarrow> string"
  ev_stamp :: string

record MispBlock =
  mb_name :: string
  mb_url :: string
  mb_max_tlp :: string
  mb_api_key :: "string option"
  mb_api_key_unset :: bool
  mb_enabled :: bool
  mb_object_types :: "string list"
  mb_rule_statuses :: "string list"
  mb_organisation :: "string option"
  mb_publish :: bool
  mb_verify_ssl :: bool

definition resolved_api_key :: "MispBlock \<Rightarrow> string option" where
  "resolved_api_key b =
     (if mb_api_key_unset b then None
      else case mb_api_key b of None \<Rightarrow> None | Some k \<Rightarrow> if k = [] then None else Some k)"

datatype Mode = Push | Preview | Status | Retract

record ShareFilters =
  fl_uuids :: "string list option"
  fl_types :: "string list option"
  fl_files :: "string list option"

definition on_remote :: "('w, 'a) action \<Rightarrow> ('w EngineState, 'a) action" where
  "on_remote m = (\<lambda>s. let (r, w) = m (es_remote s) in (r, s\<lparr>es_remote := w\<rparr>))"

section \<open>Records\<close>

definition share_record ::
  "TideDocument \<Rightarrow> MispBlock \<Rightarrow> string \<Rightarrow> string option \<Rightarrow> string list \<Rightarrow> string option \<Rightarrow> string option \<Rightarrow> int option \<Rightarrow> ShareRecord" where
  "share_record document block action reason found kind remote_uuid remote_id =
     \<lparr>sr_uuid = (case doc_uuid document of None \<Rightarrow> [] | Some u \<Rightarrow> u), sr_target = mb_name block, sr_action = action,
      sr_integration = integration_misp, sr_remote_uuid = remote_uuid, sr_remote_id = remote_id, sr_reason = reason,
      sr_notes = found, sr_kind = kind\<rparr>"

definition failed_record :: "TideDocument \<Rightarrow> MispBlock \<Rightarrow> string \<Rightarrow> string \<Rightarrow> string list \<Rightarrow> ShareRecord" where
  "failed_record document block reason kind found =
     share_record document block ''failed'' (Some reason) found (Some kind) None None"

definition remote_record :: "TideDocument \<Rightarrow> MispBlock \<Rightarrow> string \<Rightarrow> string list \<Rightarrow> RemoteEvent \<Rightarrow> ShareRecord" where
  "remote_record document block action found remote =
     share_record document block action None found None (Some (re_uuid remote)) (re_id remote)"

definition bare_record ::
  "string \<Rightarrow> MispBlock \<Rightarrow> string \<Rightarrow> string option \<Rightarrow> string option \<Rightarrow> string list \<Rightarrow> string option \<Rightarrow> int option \<Rightarrow> ShareRecord" where
  "bare_record uuid block action reason kind found remote_uuid remote_id =
     \<lparr>sr_uuid = uuid, sr_target = mb_name block, sr_action = action, sr_integration = integration_misp,
      sr_remote_uuid = remote_uuid, sr_remote_id = remote_id, sr_reason = reason, sr_notes = found, sr_kind = kind\<rparr>"

definition bare_failed :: "string \<Rightarrow> MispBlock \<Rightarrow> string \<Rightarrow> string \<Rightarrow> ShareRecord" where
  "bare_failed uuid block reason kind = bare_record uuid block ''failed'' (Some reason) (Some kind) [] None None"

section \<open>Selection\<close>

definition keep_by :: "'a option \<Rightarrow> 'a list option \<Rightarrow> bool" where
  "keep_by x wanted = (case wanted of None \<Rightarrow> True | Some ws \<Rightarrow> (case x of None \<Rightarrow> False | Some y \<Rightarrow> y \<in> set ws))"

definition selected :: "Env \<Rightarrow> TideDocument list \<Rightarrow> ShareFilters option \<Rightarrow> TideDocument list" where
  "selected env documents filters =
     (case filters of
        None \<Rightarrow> documents
      | Some f \<Rightarrow> filter (\<lambda>d. keep_by (doc_uuid d) (fl_uuids f) \<and> keep_by (doc_family d) (fl_types f)
                            \<and> keep_by (map_option (ev_resolve env) (doc_path d)) (fl_files f)) documents)"

definition schema_family :: "pydict \<Rightarrow> string option" where
  "schema_family line = map_option (\<lambda>s. fst (py_partition ''::'' s)) (dget_str line ''object_schema'')"

definition ledger_uuids ::
  "ledger \<Rightarrow> MispBlock list \<Rightarrow> ShareFilters option \<Rightarrow> TideDocument list \<Rightarrow> string list" where
  "ledger_uuids entries blocks filters catalogue =
     (let names = map (\<lambda>b. PStr (mb_name b)) blocks;
          present = List.map_filter doc_uuid catalogue
      in foldl (\<lambda>found line.
           if dget_none line ''integration'' \<noteq> PStr integration_misp \<or> dget_none line ''target'' \<notin> set names then found
           else (case dget_str line ''object_uuid'' of
                   None \<Rightarrow> found
                 | Some uuid \<Rightarrow>
                     if uuid \<in> set present then found
                     else if (case filters of
                                None \<Rightarrow> True
                              | Some f \<Rightarrow> keep_by (Some uuid) (fl_uuids f) \<and> fl_files f = None
                                          \<and> keep_by (schema_family line) (fl_types f)) \<and> uuid \<notin> set found
                     then found @ [uuid] else found)) [] (records entries))"

definition allowed_tlp :: "string \<Rightarrow> string list" where
  "allowed_tlp max_tlp =
     (case position max_tlp tlp_order of
        None \<Rightarrow> []
      | Some ceiling \<Rightarrow> filter (\<lambda>name. case position name tlp_order of None \<Rightarrow> False | Some i \<Rightarrow> i \<le> ceiling) tlp_order)"

text \<open>The statuses of the enabled platform blocks, or the root one when no enabled block has a status.\<close>

definition rule_statuses :: "pydict \<Rightarrow> string list" where
  "rule_statuses body =
     (let blocks = (case dget_dict body ''configurations'' of None \<Rightarrow> [] | Some c \<Rightarrow> map snd c);
          statuses = List.map_filter (\<lambda>v. case v of
              PDict b \<Rightarrow> (if dget_none b ''enabled'' = PBool True then dget_str b ''status'' else None)
            | _ \<Rightarrow> None) blocks
      in if statuses \<noteq> [] then statuses
         else (case dget_str body ''status'' of None \<Rightarrow> [] | Some s \<Rightarrow> [s]))"

definition local_verdict ::
  "TideDocument \<Rightarrow> MispBlock \<Rightarrow> (TideDocument \<Rightarrow> string option) option \<Rightarrow> ShareRecord option" where
  "local_verdict document block validate =
     (case (doc_error document, doc_uuid document, doc_family document) of
        (None, Some uuid, Some family) \<Rightarrow>
          if family \<notin> set (mb_object_types block)
          then Some (share_record document block ''skipped_type'' (Some ''object_type'') [] None None None)
          else if family = ''rule''
                  \<and> \<not> list_ex (\<lambda>s. s \<in> set (mb_rule_statuses block)) (rule_statuses (doc_body document))
          then Some (share_record document block ''skipped_status'' (Some ''rule_status'') [] None None None)
          else if (case dget_str (doc_metadata document) ''tlp'' of
                     None \<Rightarrow> False
                   | Some tlp \<Rightarrow> tlp \<in> set tlp_order \<and> tlp \<notin> set (allowed_tlp (mb_max_tlp block)))
          then Some (share_record document block ''skipped_tlp'' (Some ''max_tlp'') [] None None None)
          else (case validate of
                  None \<Rightarrow> None
                | Some check \<Rightarrow>
                    (case check document of
                       None \<Rightarrow> None
                     | Some message \<Rightarrow>
                         if message = [] then None
                         else Some (failed_record document block ''validation_error'' ''other'' [message])))
      | _ \<Rightarrow> Some (failed_record document block ''invalid_document'' ''other'' []))"

fun split_local ::
  "TideDocument list \<Rightarrow> MispBlock \<Rightarrow> (TideDocument \<Rightarrow> string option) option \<Rightarrow> ShareRecord list \<times> TideDocument list" where
  "split_local [] block validate = ([], [])"
| "split_local (document # rest) block validate =
     (let (here, shareable) = split_local rest block validate in
      case local_verdict document block validate of
        Some r \<Rightarrow> (r # here, shareable)
      | None \<Rightarrow> (here, document # shareable))"

definition block_organisation :: "MispBlock \<Rightarrow> string option" where
  "block_organisation block =
     (case mb_organisation block of None \<Rightarrow> None | Some u \<Rightarrow> if u = [] then None else Some u)"

definition document_organisation :: "MispBlock \<Rightarrow> TideDocument \<Rightarrow> string option \<times> string" where
  "document_organisation block document =
     (case block_organisation block of
        Some u \<Rightarrow> (Some (py_lower u), ''block'')
      | None \<Rightarrow>
          (case dget_dict (doc_metadata document) ''organisation'' of
             None \<Rightarrow> (None, ''missing'')
           | Some org \<Rightarrow>
               (case dget_str org ''uuid'' of
                  None \<Rightarrow> (None, ''missing'')
                | Some raw \<Rightarrow>
                    if py_strip raw = [] then (None, ''missing'')
                    else if canonical_uuid_pattern (py_lower (py_strip raw))
                    then (Some (py_lower (py_strip raw)), ''object'') else (None, ''invalid''))))"

definition retract_organisation :: "MispBlock \<Rightarrow> TideDocument option \<Rightarrow> pydict option \<Rightarrow> string option" where
  "retract_organisation block document line =
     (case block_organisation block of
        Some u \<Rightarrow> Some (py_lower u)
      | None \<Rightarrow>
          (let own = (case document of None \<Rightarrow> None | Some d \<Rightarrow> fst (document_organisation block d)) in
           if own \<noteq> None \<and> own \<noteq> Some [] then own
           else (case line of None \<Rightarrow> None | Some l \<Rightarrow> map_option py_lower (dget_str l ''organisation_uuid''))))"

section \<open>Predicting from the ledger\<close>

definition object_triple :: "string \<Rightarrow> MispBlock \<Rightarrow> triple" where
  "object_triple uuid block = (uuid, integration_misp, mb_name block)"

definition predict :: "Env \<Rightarrow> ledger \<Rightarrow> TideDocument \<Rightarrow> string \<Rightarrow> MispBlock \<Rightarrow> bool \<Rightarrow> string" where
  "predict env entries document uuid block publish =
     (case ledger_get entries (object_triple uuid block) of
        None \<Rightarrow> ''created''
      | Some line \<Rightarrow>
          if dget_none line ''state'' = PStr ''retracted'' then ''updated''
          else if dget_none line ''state'' = PStr ''synced''
                  \<and> dget_none line ''content_hash'' = PStr (ev_hash env (doc_text document))
                  \<and> (\<not> publish \<or> dget_none line ''published'' = PBool True)
          then ''unchanged'' else ''updated'')"

section \<open>Remote events\<close>

definition template_problem :: "TemplateView option \<Rightarrow> string \<Rightarrow> string option \<times> string option" where
  "template_problem template family =
     (case template of
        None \<Rightarrow> (Some ''template_missing'', None)
      | Some t \<Rightarrow>
          if \<not> tv_found t then (Some ''template_missing'', None)
          else if \<not> list_all (\<lambda>name. name \<in> set (tv_relations t)) required_template_relations
                  \<or> (case tv_types t of None \<Rightarrow> False | Some types \<Rightarrow> family \<notin> set types)
          then (Some ''template_relation_missing'', None)
          else if tv_version t \<noteq> Some opentide_template_version
          then (None, Some (''template_version:'' @ (case tv_version t of None \<Rightarrow> ''None'' | Some v \<Rightarrow> int_str v)))
          else (None, None))"

definition same_organisation :: "string \<Rightarrow> RemoteEvent \<Rightarrow> bool" where
  "same_organisation org event =
     (case re_orgc event of None \<Rightarrow> False | Some u \<Rightarrow> u \<noteq> [] \<and> casefold u = casefold org)"

definition matched_events :: "RemoteEvent list \<Rightarrow> string \<Rightarrow> string \<Rightarrow> RemoteEvent list \<times> string list" where
  "matched_events events org tide_uuid =
     (let holding = filter (\<lambda>e. tide_uuid \<in> set (re_opentide e)) events in
      (filter (same_organisation org) holding, map re_uuid (filter (\<lambda>e. \<not> same_organisation org e) holding)))"

definition is_ours :: "pydict \<Rightarrow> string \<Rightarrow> bool" where
  "is_ours obj tide_uuid =
     ((dget_none obj ''name'' = PStr opentide_template_name \<or> dget_none obj ''template_uuid'' = PStr opentide_template_uuid)
    \<and> list_ex (\<lambda>a. dget_none a ''object_relation'' = PStr ''uuid'' \<and> dget_none a ''value'' = PStr tide_uuid)
        (attribute_dicts obj))"

definition foreign_objects :: "RemoteEvent \<Rightarrow> string \<Rightarrow> bool" where
  "foreign_objects remote tide_uuid = list_ex (\<lambda>obj. \<not> is_ours obj tide_uuid) (re_objects remote)"

definition edit_body :: "pyval \<Rightarrow> RemoteEvent \<Rightarrow> string \<Rightarrow> failure + pyval" where
  "edit_body created remote tide_uuid =
     (case created of
        PDict envelope \<Rightarrow>
          (case dget envelope ''Event'' of
             None \<Rightarrow> Inl Crashed
           | Some (PDict raw) \<Rightarrow>
               (let event = AList.update (PStr ''uuid'') (PStr (re_uuid remote)) raw;
                    event = (if re_attributes remote \<noteq> 0 then AList.delete (PStr ''Attribute'') event else event);
                    ours = (case dget_none event ''Object'' of PList xs \<Rightarrow> xs | _ \<Rightarrow> []);
                    kept = map PDict (filter (\<lambda>obj. \<not> is_ours obj tide_uuid) (re_objects remote))
                in Inr (jobj [(''Event'', PDict (AList.update (PStr ''Object'') (PList (kept @ ours)) event))]))
           | Some _ \<Rightarrow> Inl (refuse ''rejected'' ''remote_update_rejected'' None))
      | _ \<Rightarrow> Inl Crashed)"

definition write_reason :: "CallError \<Rightarrow> bool \<Rightarrow> string" where
  "write_reason e update =
     (if ce_reason e = ''attribute_too_large'' then ce_reason e
      else if ce_kind e = ''authentication'' \<or> ce_kind e = ''connectivity'' then ce_reason e
      else if update then ''remote_update_rejected'' else ce_reason e)"

definition probe_failure :: "CallError option \<Rightarrow> string \<times> string" where
  "probe_failure e =
     (case e of
        None \<Rightarrow> (''connectivity_failed'', ''connectivity'')
      | Some x \<Rightarrow>
          if ce_kind x = ''authentication'' then (''authentication_failed'', ''authentication'')
          else if ce_reason x = ''organisation_uuid_unverified'' then (ce_reason x, ce_kind x)
          else if ce_kind x = ''connectivity'' then (''connectivity_failed'', ''connectivity'')
          else (ce_reason x, ce_kind x))"

definition relation_notes :: "string list \<Rightarrow> TideDocument list \<Rightarrow> string list" where
  "relation_notes relations shareable =
     map (\<lambda>r. ''relation_not_shared:'' @ r)
       (filter (\<lambda>r. r \<notin> set (List.map_filter doc_uuid shareable)) relations)"

section \<open>Writing the ledger\<close>

definition opt_str :: "string option \<Rightarrow> pyval" where
  "opt_str x = (case x of None \<Rightarrow> PNone | Some s \<Rightarrow> PStr s)"

definition opt_int :: "int option \<Rightarrow> pyval" where
  "opt_int x = (case x of None \<Rightarrow> PNone | Some i \<Rightarrow> PInt i)"

definition synced_line :: "Env \<Rightarrow> TideDocument \<Rightarrow> MispBlock \<Rightarrow> RemoteEvent \<Rightarrow> bool \<Rightarrow> string \<Rightarrow> pydict" where
  "synced_line env document block remote published org =
     map (\<lambda>(k, v). (PStr k, v))
       [(''state'', PStr ''synced''), (''object_uuid'', opt_str (doc_uuid document)),
        (''object_schema'', opt_str (doc_schema_id document)),
        (''object_version'', dget_none (doc_metadata document) ''version''),
        (''content_hash'', PStr (ev_hash env (doc_text document))), (''integration'', PStr integration_misp),
        (''target'', PStr (mb_name block)), (''organisation_uuid'', PStr org),
        (''remote_event_uuid'', PStr (re_uuid remote)), (''remote_event_id'', opt_int (re_id remote)),
        (''published'', PBool published), (''shared_at'', PStr (ev_stamp env))]"

definition update_all :: "(string \<times> pyval) list \<Rightarrow> pydict \<Rightarrow> pydict" where
  "update_all items d = foldl (\<lambda>m (k, v). AList.update (PStr k) v m) d items"

definition retracted_line ::
  "Env \<Rightarrow> string \<Rightarrow> TideDocument option \<Rightarrow> pydict option \<Rightarrow> MispBlock \<Rightarrow> RemoteEvent \<Rightarrow> string \<Rightarrow> pydict" where
  "retracted_line env uuid document line block remote org =
     (let base = update_all
        [(''state'', PStr ''retracted''), (''object_uuid'', PStr uuid), (''integration'', PStr integration_misp),
         (''target'', PStr (mb_name block)), (''organisation_uuid'', PStr org),
         (''remote_event_uuid'', PStr (re_uuid remote)), (''remote_event_id'', opt_int (re_id remote)),
         (''published'', PBool False), (''shared_at'', PStr (ev_stamp env))]
        (case line of None \<Rightarrow> [] | Some l \<Rightarrow> l)
      in case document of
           None \<Rightarrow> base
         | Some d \<Rightarrow> update_all
             [(''object_schema'', opt_str (doc_schema_id d)), (''content_hash'', PStr (ev_hash env (doc_text d))),
              (''object_version'', dget_none (doc_metadata d) ''version'')] base)"

definition save_action :: "Env \<Rightarrow> ('w EngineState, unit) action" where
  "save_action env = (\<lambda>s. let (kept, payload) = save_ledger (ev_dump env) (es_ledger s) in
     (Inr (), s\<lparr>es_ledger := kept, es_file := Some payload\<rparr>))"

definition put_and_save :: "Env \<Rightarrow> pydict \<Rightarrow> ('w EngineState, unit) action" where
  "put_and_save env line = (\<lambda>s.
     case ledger_put (es_ledger s) line of
       Inl _ \<Rightarrow> (Inl Crashed, s)
     | Inr entries \<Rightarrow> save_action env (s\<lparr>es_ledger := entries\<rparr>))"

definition discard_and_save :: "Env \<Rightarrow> triple \<Rightarrow> ('w EngineState, unit) action" where
  "discard_and_save env t = (\<lambda>s.
     let (removed, entries) = ledger_discard (es_ledger s) t; s' = s\<lparr>es_ledger := entries\<rparr>
     in if removed then save_action env s' else (Inr (), s'))"

section \<open>Probing a destination\<close>

record 'w Probe =
  pr_block :: MispBlock
  pr_client :: "'w MispClient option"
  pr_org :: "string option"
  pr_template :: "TemplateView option"
  pr_error :: "CallError option"
  pr_mismatch :: bool

type_synonym 'w factory = "MispBlock \<Rightarrow> failure + 'w MispClient"

definition default_client :: "(MispBlock \<Rightarrow> string \<Rightarrow> 'w MispClient) \<Rightarrow> 'w factory" where
  "default_client pymisp block =
     (case resolved_api_key block of
        None \<Rightarrow> Inl (refuse ''other'' ''api_key_unset'' None)
      | Some key \<Rightarrow> Inr (pymisp block key))"

definition organisation_mismatch :: "MispBlock \<Rightarrow> string \<Rightarrow> bool" where
  "organisation_mismatch block org =
     (case block_organisation block of None \<Rightarrow> False | Some configured \<Rightarrow> org \<noteq> [] \<and> casefold configured \<noteq> casefold org)"

definition probe_client :: "MispBlock \<Rightarrow> 'w MispClient \<Rightarrow> ('w EngineState, 'w Probe) action" where
  "probe_client block client =
     andthen (try_refused (on_remote (andthen (cl_version client) (\<lambda>_. cl_organisation client)))) (\<lambda>r.
       case r of
         Inl e \<Rightarrow> ret \<lparr>pr_block = block, pr_client = Some client, pr_org = None, pr_template = None, pr_error = Some e,
                      pr_mismatch = False\<rparr>
       | Inr org \<Rightarrow>
           andthen (try_refused (on_remote (cl_template client))) (\<lambda>t.
             case t of
               Inl e \<Rightarrow> ret \<lparr>pr_block = block, pr_client = Some client, pr_org = Some org, pr_template = None,
                            pr_error = Some e, pr_mismatch = False\<rparr>
             | Inr template \<Rightarrow> ret \<lparr>pr_block = block, pr_client = Some client, pr_org = Some org,
                            pr_template = Some template, pr_error = None,
                            pr_mismatch = organisation_mismatch block org\<rparr>))"

definition probe_block :: "'w factory \<Rightarrow> MispBlock \<Rightarrow> ('w EngineState, 'w Probe) action" where
  "probe_block factory block =
     (case factory block of
        Inl Crashed \<Rightarrow> raise Crashed
      | Inl (Refused e) \<Rightarrow> ret \<lparr>pr_block = block, pr_client = None, pr_org = None, pr_template = None,
                               pr_error = Some e, pr_mismatch = False\<rparr>
      | Inr client \<Rightarrow> probe_client block client)"

section \<open>Create, update, publish\<close>

text \<open>
  An object that stops gives a failed record: a check is \<open>Inl\<close> the record or \<open>Inr\<close> what the
  next step needs.
\<close>

type_synonym ('w, 'a) step = "('w EngineState, ShareRecord + 'a) action"

definition proceed :: "('w, 'a) step \<Rightarrow> ('a \<Rightarrow> ('w EngineState, ShareRecord) action) \<Rightarrow> ('w EngineState, ShareRecord) action" where
  "proceed m f = andthen m (\<lambda>r. case r of Inl stop \<Rightarrow> ret stop | Inr x \<Rightarrow> f x)"

definition attempt :: "('w, 'a) action \<Rightarrow> (CallError \<Rightarrow> ShareRecord) \<Rightarrow> ('w, 'a) step" where
  "attempt m stop = andthen (try_refused (on_remote m)) (\<lambda>r. ret (case r of Inl e \<Rightarrow> Inl (stop e) | Inr x \<Rightarrow> Inr x))"

definition checked_organisation :: "'w Probe \<Rightarrow> TideDocument \<Rightarrow> ShareRecord + string" where
  "checked_organisation probe document =
     (let block = pr_block probe; (org, source) = document_organisation block document in
      if source = ''missing'' then Inl (failed_record document block ''organisation_uuid_missing'' ''other'' [])
      else (case org of
              None \<Rightarrow> Inl (failed_record document block ''organisation_uuid_invalid'' ''other'' [])
            | Some u \<Rightarrow>
                if (case pr_org probe of None \<Rightarrow> False | Some p \<Rightarrow> p \<noteq> [] \<and> casefold u \<noteq> casefold p)
                then Inl (failed_record document block ''organisation_uuid_mismatch'' ''other'' [])
                else Inr u))"

definition built_or_failed :: "MispBlock \<Rightarrow> TideDocument \<Rightarrow> BuiltEvent \<Rightarrow> ShareRecord + pyval" where
  "built_or_failed block document built =
     (case be_event built of
        None \<Rightarrow> Inl (failed_record document block
                  (case be_reason built of None \<Rightarrow> ''invalid_document'' | Some r \<Rightarrow> if r = [] then ''invalid_document'' else r)
                  ''other'' [])
      | Some e \<Rightarrow> Inr e)"

definition built_event :: "Env \<Rightarrow> TideDocument \<Rightarrow> string list \<Rightarrow> ('w EngineState, BuiltEvent) action" where
  "built_event env document tags =
     (case build_event (ev_voc env) document tags of Inl _ \<Rightarrow> raise Crashed | Inr b \<Rightarrow> ret b)"

text \<open>What is known of an object before its events are looked up.\<close>

record Prepared =
  pp_org :: string
  pp_uuid :: string
  pp_event :: pyval
  pp_notes :: "string list"

definition prepare ::
  "Env \<Rightarrow> 'w Probe \<Rightarrow> 'w MispClient \<Rightarrow> TideDocument list \<Rightarrow> TideDocument \<Rightarrow> ('w, Prepared) step" where
  "prepare env probe client shareable document =
     (let block = pr_block probe in
      case checked_organisation probe document of
        Inl stop \<Rightarrow> ret (Inl stop)
      | Inr org \<Rightarrow>
          andthen (built_event env document []) (\<lambda>built.
          case built_or_failed block document built of
            Inl stop \<Rightarrow> ret (Inl stop)
          | Inr _ \<Rightarrow>
              (case template_problem (pr_template probe) (case doc_family document of None \<Rightarrow> [] | Some f \<Rightarrow> f) of
                 (Some reason, _) \<Rightarrow> ret (Inl (failed_record document block reason ''other'' []))
               | (None, template_note) \<Rightarrow>
                   andthen (attempt (resolve_clusters client (be_sources built))
                       (\<lambda>e. failed_record document block ''galaxy_lookup_failed'' (ce_kind e) [])) (\<lambda>r.
                   case r of
                     Inl stop \<Rightarrow> ret (Inl stop)
                   | Inr resolved \<Rightarrow>
                   case gr_error resolved of
                     Some e \<Rightarrow> ret (Inl (failed_record document block ''galaxy_lookup_failed'' (ce_kind e) []))
                   | None \<Rightarrow>
                       andthen (built_event env document (gr_tags resolved)) (\<lambda>tagged.
                       case built_or_failed block document tagged of
                         Inl stop \<Rightarrow> ret (Inl stop)
                       | Inr event \<Rightarrow>
                           (case doc_uuid document of
                              None \<Rightarrow> raise Crashed
                            | Some uuid \<Rightarrow>
                                ret (Inr \<lparr>pp_org = org, pp_uuid = uuid, pp_event = event,
                                  pp_notes = gr_notes resolved @ (case template_note of None \<Rightarrow> [] | Some n \<Rightarrow> [n])
                                    @ relation_notes (be_relations tagged) shareable\<rparr>)))))))"

definition remember_and_record ::
  "Env \<Rightarrow> TideDocument \<Rightarrow> MispBlock \<Rightarrow> string \<Rightarrow> string list \<Rightarrow> string \<Rightarrow> RemoteEvent \<Rightarrow> bool \<Rightarrow> ('w EngineState, ShareRecord) action" where
  "remember_and_record env document block action found org remote published =
     andthen (put_and_save env (synced_line env document block remote published org))
       (\<lambda>_. ret (remote_record document block action found remote))"

definition publish_and_remember ::
  "Env \<Rightarrow> 'w MispClient \<Rightarrow> TideDocument \<Rightarrow> MispBlock \<Rightarrow> string \<Rightarrow> string list \<Rightarrow> string \<Rightarrow> bool \<Rightarrow> RemoteEvent
   \<Rightarrow> ('w EngineState, ShareRecord) action" where
  "publish_and_remember env client document block action found org do_publish remote =
     (if do_publish
      then proceed (attempt (cl_publish client (event_address remote))
             (\<lambda>e. failed_record document block ''publish_failed'' (ce_kind e) found))
             (\<lambda>_. remember_and_record env document block action found org remote True)
      else remember_and_record env document block action found org remote False)"

definition up_to_date :: "Env \<Rightarrow> TideDocument \<Rightarrow> pydict option \<Rightarrow> bool" where
  "up_to_date env document line =
     (case line of
        None \<Rightarrow> False
      | Some l \<Rightarrow> dget_none l ''state'' = PStr ''synced''
                  \<and> dget_none l ''content_hash'' = PStr (ev_hash env (doc_text document)))"

definition write_event ::
  "Env \<Rightarrow> 'w MispClient \<Rightarrow> MispBlock \<Rightarrow> bool \<Rightarrow> TideDocument \<Rightarrow> Prepared \<Rightarrow> RemoteEvent list \<Rightarrow> string list
   \<Rightarrow> ('w EngineState, ShareRecord) action" where
  "write_event env client block do_publish document prep matched found =
     (\<lambda>s. let line = ledger_get (es_ledger s) (object_triple (pp_uuid prep) block) in
      (case matched of
         remote # others \<Rightarrow>
           if others = [] \<and> up_to_date env document line
           then (if do_publish \<and> \<not> re_published remote
                 then publish_and_remember env client document block ''updated'' found (pp_org prep) True remote
                 else ret (remote_record document block ''unchanged'' found remote))
           else
             (let extra = (if re_attributes remote \<noteq> 0 \<or> foreign_objects remote (pp_uuid prep)
                           then found @ [''remote_extra_content''] else found) in
              case edit_body (pp_event prep) remote (pp_uuid prep) of
                Inl Crashed \<Rightarrow> raise Crashed
              | Inl (Refused e) \<Rightarrow> ret (failed_record document block (ce_reason e) (ce_kind e) extra)
              | Inr body \<Rightarrow>
                  proceed (attempt (cl_edit client (event_address remote) body)
                      (\<lambda>e. failed_record document block (write_reason e True) (ce_kind e) extra))
                    (publish_and_remember env client document block ''updated'' extra (pp_org prep) do_publish))
       | [] \<Rightarrow>
           proceed (attempt (cl_add client (pp_event prep))
               (\<lambda>e. failed_record document block (write_reason e False) (ce_kind e) found))
             (publish_and_remember env client document block ''created'' found (pp_org prep) do_publish)) s)"

definition upsert ::
  "Env \<Rightarrow> 'w Probe \<Rightarrow> 'w MispClient \<Rightarrow> bool \<Rightarrow> TideDocument list \<Rightarrow> TideDocument \<Rightarrow> ('w EngineState, ShareRecord) action" where
  "upsert env probe client do_publish shareable document =
     proceed (prepare env probe client shareable document) (\<lambda>prep.
     proceed (attempt (cl_search client (pp_uuid prep))
         (\<lambda>e. failed_record document (pr_block probe) ''remote_lookup_failed'' (ce_kind e) (pp_notes prep)))
       (\<lambda>events.
         let (matched, foreign) = matched_events events (pp_org prep) (pp_uuid prep);
             found = pp_notes prep @ map (\<lambda>u. ''foreign_event:'' @ u) foreign
         in if 1 < length matched
            then ret (failed_record document (pr_block probe) ''ambiguous_remote_event'' ''other''
                   (found @ [''ambiguous_remote_event:'' @ str_join '','' (map re_uuid matched)]))
            else write_event env client (pr_block probe) do_publish document prep matched found))"

section \<open>Push\<close>

definition push_block ::
  "Env \<Rightarrow> (TideDocument \<Rightarrow> string option) option \<Rightarrow> bool option \<Rightarrow> TideDocument list \<Rightarrow> 'w Probe
   \<Rightarrow> ('w EngineState, ShareRecord list) action" where
  "push_block env validate publish documents probe =
     (let block = pr_block probe; (here, shareable) = split_local documents block validate in
      case (pr_error probe, pr_client probe) of
        (None, Some client) \<Rightarrow>
          andthen (each (upsert env probe client (case publish of None \<Rightarrow> mb_publish block | Some p \<Rightarrow> p) shareable) shareable)
            (\<lambda>pushed. ret (here @ pushed))
      | _ \<Rightarrow>
          (let (reason, kind) = probe_failure (pr_error probe) in
           ret (here @ map (\<lambda>d. failed_record d block reason kind []) shareable)))"

section \<open>Retract\<close>

definition retract_remote ::
  "Env \<Rightarrow> MispBlock \<Rightarrow> 'w MispClient \<Rightarrow> bool \<Rightarrow> string \<Rightarrow> TideDocument option \<Rightarrow> pydict option \<Rightarrow> string \<Rightarrow> RemoteEvent
   \<Rightarrow> ('w EngineState, ShareRecord option) action" where
  "retract_remote env block client delete uuid document line org remote =
     (let refused = (\<lambda>e. ret (Some (bare_failed uuid block (ce_reason e) (ce_kind e))));
          retracted = ret (Some (bare_record uuid block ''retracted'' None None [] (Some (re_uuid remote)) (re_id remote)))
      in if delete
         then andthen (try_refused (on_remote (cl_delete client (event_address remote)))) (\<lambda>d.
                case d of
                  Inl e \<Rightarrow> refused e
                | Inr _ \<Rightarrow> andthen (discard_and_save env (object_triple uuid block)) (\<lambda>_. retracted))
         else andthen (if re_published remote
                       then try_refused (on_remote (cl_unpublish client (event_address remote)))
                       else ret (Inr ())) (\<lambda>d.
                case d of
                  Inl e \<Rightarrow> refused e
                | Inr _ \<Rightarrow> andthen (put_and_save env (retracted_line env uuid document line block remote org)) (\<lambda>_. retracted)))"

definition retract_found ::
  "Env \<Rightarrow> MispBlock \<Rightarrow> 'w MispClient \<Rightarrow> bool \<Rightarrow> string \<Rightarrow> TideDocument option \<Rightarrow> pydict option \<Rightarrow> RemoteEvent list
   \<Rightarrow> ('w EngineState, ShareRecord option) action" where
  "retract_found env block client delete uuid document line events =
     (case retract_organisation block document line of
        None \<Rightarrow>
          if line = None \<and> events = [] then ret None
          else ret (Some (bare_failed uuid block ''organisation_uuid_missing'' ''other''))
      | Some org \<Rightarrow>
          (case fst (matched_events events org uuid) of
             [] \<Rightarrow>
               if line \<noteq> None
               then andthen (discard_and_save env (object_triple uuid block)) (\<lambda>_.
                      ret (Some (bare_record uuid block ''retracted'' None None [''remote_absent''] None None)))
               else ret None
           | [remote] \<Rightarrow> retract_remote env block client delete uuid document line org remote
           | _ \<Rightarrow> ret (Some (bare_failed uuid block ''ambiguous_remote_event'' ''other''))))"

definition retract_one ::
  "Env \<Rightarrow> MispBlock \<Rightarrow> 'w MispClient \<Rightarrow> bool \<Rightarrow> (string \<times> TideDocument) list \<Rightarrow> string
   \<Rightarrow> ('w EngineState, ShareRecord option) action" where
  "retract_one env block client delete by_uuid uuid =
     (\<lambda>s. let line = ledger_get (es_ledger s) (object_triple uuid block) in
       andthen (try_refused (on_remote (cl_search client uuid))) (\<lambda>r.
         case r of
           Inl e \<Rightarrow> ret (Some (bare_failed uuid block ''remote_lookup_failed'' (ce_kind e)))
         | Inr events \<Rightarrow> retract_found env block client delete uuid (map_of by_uuid uuid) line events) s)"

text \<open>\<open>{document.uuid: document for ...}\<close>: the first place, the last document.\<close>

definition documents_by_uuid :: "TideDocument list \<Rightarrow> (string \<times> TideDocument) list" where
  "documents_by_uuid documents =
     foldl (\<lambda>m d. case doc_uuid d of None \<Rightarrow> m | Some u \<Rightarrow> AList.update u d m) [] documents"

definition retract_block ::
  "Env \<Rightarrow> bool \<Rightarrow> ShareFilters option \<Rightarrow> TideDocument list \<Rightarrow> TideDocument list \<Rightarrow> 'w Probe
   \<Rightarrow> ('w EngineState, ShareRecord list) action" where
  "retract_block env delete filters catalogue documents probe =
     (\<lambda>s. let block = pr_block probe; by_uuid = documents_by_uuid documents;
              candidates = map fst by_uuid
                @ filter (\<lambda>u. map_of by_uuid u = None) (ledger_uuids (es_ledger s) [block] filters catalogue)
          in
       (case (pr_error probe, pr_client probe) of
          (None, Some client) \<Rightarrow>
            andthen (each (retract_one env block client delete by_uuid) candidates)
              (\<lambda>found. ret (List.map_filter (\<lambda>r. r) found))
        | _ \<Rightarrow>
            (let (reason, kind) = probe_failure (pr_error probe) in
             ret (map (\<lambda>u. bare_failed u block reason kind) candidates))) s)"

section \<open>Preview and status\<close>

definition preview_one ::
  "Env \<Rightarrow> bool option \<Rightarrow> MispBlock \<Rightarrow> TideDocument list \<Rightarrow> TideDocument \<Rightarrow> ('w EngineState, ShareRecord) action" where
  "preview_one env publish block shareable document =
     (let (org, source) = document_organisation block document in
      if source = ''missing'' then ret (failed_record document block ''organisation_uuid_missing'' ''other'' [])
      else if source = ''invalid'' \<or> org = None
      then ret (failed_record document block ''organisation_uuid_invalid'' ''other'' [])
      else
        andthen (built_event env document []) (\<lambda>built.
        case built_or_failed block document built of
          Inl stop \<Rightarrow> ret stop
        | Inr _ \<Rightarrow>
            (case doc_uuid document of
               None \<Rightarrow> raise Crashed
             | Some uuid \<Rightarrow>
                 (\<lambda>s. (Inr (share_record document block
                      (predict env (es_ledger s) document uuid block (case publish of None \<Rightarrow> mb_publish block | Some p \<Rightarrow> p))
                      None
                      ([''organisation_unverified''] @ (if be_sources built \<noteq> [] then [''cluster_not_resolved''] else [])
                        @ relation_notes (be_relations built) shareable)
                      None None None), s)))))"

definition preview ::
  "Env \<Rightarrow> bool option \<Rightarrow> TideDocument list \<Rightarrow> MispBlock list \<Rightarrow> ('w EngineState, ShareRecord list) action" where
  "preview env publish documents blocks =
     andthen (each (\<lambda>block. let (here, shareable) = split_local documents block None in
         andthen (each (preview_one env publish block shareable) shareable) (\<lambda>rs. ret (here @ rs))) blocks)
       (\<lambda>rss. ret (concat rss))"

fun line_integer :: "pyval \<Rightarrow> int option" where
  "line_integer (PInt i) = Some i"
| "line_integer _ = None"

definition status_one :: "Env \<Rightarrow> MispBlock \<Rightarrow> TideDocument \<Rightarrow> ('w EngineState, ShareRecord) action" where
  "status_one env block document =
     (case doc_uuid document of
        None \<Rightarrow> raise Crashed
      | Some uuid \<Rightarrow>
          (\<lambda>s. let line = ledger_get (es_ledger s) (object_triple uuid block) in
             (Inr (share_record document block (predict env (es_ledger s) document uuid block False) None [] None
                (case line of None \<Rightarrow> None | Some l \<Rightarrow> dget_str l ''remote_event_uuid'')
                (case line of None \<Rightarrow> None | Some l \<Rightarrow> line_integer (dget_none l ''remote_event_id''))), s)))"

definition status ::
  "Env \<Rightarrow> TideDocument list \<Rightarrow> MispBlock list \<Rightarrow> ('w EngineState, ShareRecord list) action" where
  "status env documents blocks =
     andthen (each (\<lambda>block. let (here, shareable) = split_local documents block None in
         andthen (each (status_one env block) shareable) (\<lambda>rs. ret (here @ rs))) blocks)
       (\<lambda>rss. ret (concat rss))"

section \<open>A run\<close>

definition mismatch_records :: "TideDocument list \<Rightarrow> 'w Probe list \<Rightarrow> ShareRecord list" where
  "mismatch_records documents probes =
     concat (map (\<lambda>probe.
         let (here, shareable) = split_local documents (pr_block probe) None in
         here @ map (\<lambda>d. failed_record d (pr_block probe) ''organisation_uuid_mismatch'' ''other'' []) shareable)
       (filter pr_mismatch probes))"

record ShareOptions =
  op_filters :: "ShareFilters option"
  op_publish :: "bool option"
  op_workers :: int
  op_delete :: bool
  op_confirmed :: bool

definition preflight_stop :: "string \<Rightarrow> ('s, ShareRun) action" where
  "preflight_stop reason = ret \<lparr>run_records = [], run_preflight = Some reason\<rparr>"

definition share_run :: "ShareRecord list \<Rightarrow> ('s, ShareRun) action" where
  "share_run rs = ret \<lparr>run_records = rs, run_preflight = None\<rparr>"

definition contact ::
  "Env \<Rightarrow> 'w factory \<Rightarrow> Mode \<Rightarrow> ShareOptions \<Rightarrow> (TideDocument \<Rightarrow> string option) option \<Rightarrow> TideDocument list
   \<Rightarrow> TideDocument list \<Rightarrow> MispBlock list \<Rightarrow> ('w EngineState, ShareRun) action" where
  "contact env factory m opts validate documents chosen blocks =
     andthen (each (probe_block factory) blocks) (\<lambda>probes.
       if list_ex pr_mismatch probes
       then ret \<lparr>run_records = mismatch_records chosen probes, run_preflight = Some ''organisation_uuid_mismatch''\<rparr>
       else andthen
         (each (if m = Retract then retract_block env (op_delete opts) (op_filters opts) documents chosen
                else push_block env validate (op_publish opts) chosen) probes)
         (\<lambda>rss. share_run (concat rss)))"

definition run_misp ::
  "Env \<Rightarrow> 'w factory \<Rightarrow> Mode \<Rightarrow> ShareOptions \<Rightarrow> (TideDocument \<Rightarrow> string option) option \<Rightarrow> TideDocument list
   \<Rightarrow> MispBlock list \<Rightarrow> ('w EngineState, ShareRun) action" where
  "run_misp env factory m opts validate documents blocks =
     (let chosen = selected env documents (op_filters opts) in
      if op_workers opts < 1 then raise Crashed
      else if blocks = [] \<or> \<not> list_all mb_enabled blocks then preflight_stop ''scope_no_match''
      else if op_delete opts \<and> \<not> op_confirmed opts then preflight_stop ''retract_unconfirmed''
      else if m \<noteq> Retract \<and> chosen = [] then preflight_stop ''scope_no_match''
      else if (m = Push \<or> m = Retract) \<and> list_ex (\<lambda>b. resolved_api_key b = None) blocks
      then preflight_stop ''api_key_unset''
      else (\<lambda>s. (
        if m = Retract \<and> chosen = [] \<and> ledger_uuids (es_ledger s) blocks (op_filters opts) documents = []
        then preflight_stop ''scope_no_match''
        else if m = Preview then andthen (preview env (op_publish opts) chosen blocks) share_run
        else if m = Status then andthen (status env chosen blocks) share_run
        else contact env factory m opts validate documents chosen blocks) s))"

end
