(* ===== verification/Share_Laws.thy ===== *)
theory Share_Laws
  imports Share_Engine "HOL-Library.Multiset"
begin

text \<open>
  What sharing guarantees: which actions leave the state or the ledger alone, what a push or a
  retraction of one object does to the ledger, what an edit keeps of a remote event, what a block shares, and
  what a run that stops in preflight leaves behind.
\<close>

section \<open>Frames\<close>

context frame
begin

lemma keeps_try: "preserves R m \<Longrightarrow> preserves R (try_refused m)"
proof -
  assume m: "preserves R m"
  have "R s (snd (try_refused m s))" for s
    using m by (cases "m s"; cases "fst (m s)"; cases "projl (fst (m s))")
      (auto simp: try_refused_def preserves_def dest: spec [of _ s] split: sum.splits failure.splits)
  then show ?thesis by (simp add: preserves_def)
qed

end

definition same_store :: "'w EngineState \<Rightarrow> 'w EngineState \<Rightarrow> bool" where
  "same_store s s' = (es_ledger s' = es_ledger s \<and> es_file s' = es_file s)"

definition same_state :: "'s \<Rightarrow> 's \<Rightarrow> bool" where
  "same_state s s' = (s' = s)"

interpretation offline: frame same_state
  by unfold_locales (simp_all add: same_state_def)

interpretation store: frame same_store
  by unfold_locales (simp_all add: same_store_def)

named_theorems frame_intros \<open>actions of the engine that stay within a frame\<close>

lemmas [frame_intros] = offline.frame_rules store.frame_rules offline.keeps_try store.keeps_try

lemma keeps_on_remote [frame_intros]: "preserves same_store (on_remote m)"
  by (simp add: preserves_def on_remote_def same_store_def case_prod_unfold Let_def)

lemma keeps_attempt [frame_intros]: "preserves same_store (attempt m stop)"
  unfolding attempt_def by (intro frame_intros)

lemma keeps_built_event [frame_intros]: "preserves same_store (built_event env d tags)"
  by (auto simp: built_event_def intro: frame_intros split: sum.split)

lemma keeps_prepare [frame_intros]: "preserves same_store (prepare env probe client shareable document)"
  unfolding prepare_def Let_def
  by (auto intro!: frame_intros split: sum.splits option.splits prod.splits)

lemma keeps_probe_block [frame_intros]: "preserves same_store (probe_block factory block)"
  unfolding probe_block_def probe_client_def
  by (auto intro!: frame_intros split: sum.splits failure.splits)

section \<open>Preview and status\<close>

lemma reads_only_built_event [frame_intros]: "preserves same_state (built_event env d tags)"
  by (auto simp: built_event_def intro: frame_intros split: sum.split)

lemma reads_only_preview_one [frame_intros]: "preserves same_state (preview_one env publish block shareable document)"
proof -
  have read: "preserves same_state (\<lambda>s. (Inr (f s), s))" for f :: "'a EngineState \<Rightarrow> ShareRecord"
    by (simp add: preserves_def same_state_def)
  show ?thesis
    unfolding preview_one_def Let_def
    by (auto intro!: frame_intros read split: sum.splits option.splits prod.splits)
qed

lemma reads_only_status_one [frame_intros]: "preserves same_state (status_one env block document)"
  by (auto simp: status_one_def preserves_def same_state_def raise_def Let_def split: option.splits)

lemma reads_only_preview [frame_intros]: "preserves same_state (preview env publish documents blocks)"
  unfolding preview_def case_prod_unfold Let_def by (intro frame_intros)

lemma reads_only_status [frame_intros]: "preserves same_state (status env documents blocks)"
  unfolding status_def case_prod_unfold Let_def by (intro frame_intros)

lemma reads_only_stops [frame_intros]: "preserves same_state (preflight_stop r)" "preserves same_state (share_run rs)"
  by (simp_all add: preflight_stop_def share_run_def frame_intros)

lemma reads_only_run: "preserves same_state m \<Longrightarrow> snd (m s) = s"
  by (simp add: preserves_def same_state_def)

text \<open>
  Preview and status are offline: they change neither the ledger nor its file, reach no destination,
  and give the same result whatever the clients would do.
\<close>

theorem preview_and_status_are_offline:
  assumes "m = Preview \<or> m = Status"
  shows "snd (run_misp env factory m opts validate documents blocks s) = s
    \<and> run_misp env factory m opts validate documents blocks s = run_misp env factory' m opts validate' documents blocks s"
proof
  show "snd (run_misp env factory m opts validate documents blocks s) = s"
    using assms
    by (auto simp: run_misp_def Let_def reads_only_run frame_intros)
  show "run_misp env factory m opts validate documents blocks s = run_misp env factory' m opts validate' documents blocks s"
    using assms by (auto simp: run_misp_def Let_def)
qed

section \<open>What a push leaves in the ledger\<close>

definition saved :: "Env \<Rightarrow> ledger \<Rightarrow> 'w EngineState \<Rightarrow> bool" where
  "saved env entries s' =
     (es_ledger s' = fst (save_ledger (ev_dump env) entries) \<and> es_file s' = Some (snd (save_ledger (ev_dump env) entries)))"

lemma put_and_save_run:
  "put_and_save env l s = (Inr x, s') \<Longrightarrow>
     \<exists>t. triple_of l = Some t \<and> saved env (without_triple t (es_ledger s) @ [Line l]) s'"
  by (auto simp: put_and_save_def ledger_put_def save_action_def saved_def case_prod_unfold Let_def split: option.splits)

lemma saved_get: "saved env entries s' \<Longrightarrow> ledger_get (es_ledger s') t = ledger_get entries t"
  by (simp add: saved_def save_ledger_def Let_def collapse_last_lines get_last_lines)

lemma dget_synced_line:
  "dget (synced_line env d block remote published org) k =
     map_of [(''state'', PStr ''synced''), (''object_uuid'', opt_str (doc_uuid d)),
        (''object_schema'', opt_str (doc_schema_id d)), (''object_version'', dget_none (doc_metadata d) ''version''),
        (''content_hash'', PStr (ev_hash env (doc_text d))), (''integration'', PStr integration_misp),
        (''target'', PStr (mb_name block)), (''organisation_uuid'', PStr org),
        (''remote_event_uuid'', PStr (re_uuid remote)), (''remote_event_id'', opt_int (re_id remote)),
        (''published'', PBool published), (''shared_at'', PStr (ev_stamp env))] k"
  by (simp add: synced_line_def)

lemma dget_none_map_of: "dget_none d k = (case dget d k of None \<Rightarrow> PNone | Some v \<Rightarrow> v)"
  by (simp add: dget_none_def)

lemma triple_of_synced_line:
  "triple_of (synced_line env d block remote published org) = Some t \<Longrightarrow>
     \<exists>u. doc_uuid d = Some u \<and> t = object_triple u block"
  by (auto simp: triple_of_def identity_value_def dget_str_def dget_none_map_of dget_synced_line opt_str_def
      object_triple_def split: option.splits if_splits)

text \<open>The three ways an object of a push ends.\<close>

definition about_object :: "TideDocument \<Rightarrow> MispBlock \<Rightarrow> ShareRecord \<Rightarrow> bool" where
  "about_object d b r =
     (sr_uuid r = (case doc_uuid d of None \<Rightarrow> [] | Some u \<Rightarrow> u) \<and> sr_target r = mb_name b)"

definition failed_about :: "TideDocument \<Rightarrow> MispBlock \<Rightarrow> ShareRecord \<Rightarrow> bool" where
  "failed_about d b r = (about_object d b r \<and> sr_action r = ''failed'')"

lemma about_records [simp]:
  "about_object d b (share_record d b action reason found kind ru ri)"
  "about_object d b (failed_record d b why kind' found)"
  "about_object d b (remote_record d b action found remote)"
  "failed_about d b (failed_record d b why kind' found)"
  by (simp_all add: about_object_def failed_about_def share_record_def failed_record_def remote_record_def)

definition push_outcome :: "Env \<Rightarrow> TideDocument \<Rightarrow> MispBlock \<Rightarrow> 'w EngineState \<Rightarrow> ShareRecord \<Rightarrow> 'w EngineState \<Rightarrow> bool" where
  "push_outcome env d block s r s' =
     (about_object d block r \<and>
     (sr_action r = ''failed'' \<and> same_store s s'
    \<or> sr_action r = ''unchanged'' \<and> same_store s s'
        \<and> (\<exists>u. doc_uuid d = Some u \<and> up_to_date env d (ledger_get (es_ledger s) (object_triple u block)))
    \<or> (sr_action r = ''created'' \<or> sr_action r = ''updated'')
        \<and> (\<exists>u remote published org. doc_uuid d = Some u \<and> sr_remote_uuid r = Some (re_uuid remote)
             \<and> triple_of (synced_line env d block remote published org) = Some (object_triple u block)
             \<and> saved env (without_triple (object_triple u block) (es_ledger s)
                           @ [Line (synced_line env d block remote published org)]) s')))"

lemma record_actions [simp]:
  "sr_action (failed_record d b reason kind found) = ''failed''"
  "sr_action (remote_record d b action found remote) = action"
  "sr_remote_uuid (remote_record d b action found remote) = Some (re_uuid remote)"
  by (simp_all add: failed_record_def remote_record_def share_record_def)

lemma outcome_after:
  "same_store s t \<Longrightarrow> push_outcome env d block t r s' \<Longrightarrow> push_outcome env d block s r s'"
  by (auto simp: push_outcome_def same_store_def)

lemma proceed_Inr:
  "proceed m f s = (Inr r, s') \<longleftrightarrow>
     (\<exists>t. m s = (Inr (Inl r), t) \<and> s' = t) \<or> (\<exists>x t. m s = (Inr (Inr x), t) \<and> f x t = (Inr r, s'))"
proof -
  obtain q t where "m s = (q, t)" by force
  then show ?thesis
    by (cases q; cases "projr q") (auto simp: proceed_def andthen_def ret_def)
qed

lemma attempt_Inr:
  "attempt m stop s = (Inr (Inl r), t) \<Longrightarrow> \<exists>e. r = stop e"
proof -
  obtain q t' where "try_refused (on_remote m) s = (q, t')" by force
  then show "attempt m stop s = (Inr (Inl r), t) \<Longrightarrow> \<exists>e. r = stop e"
    by (cases q; cases "projr q") (auto simp: attempt_def andthen_def ret_def)
qed

lemma outcome_attempt:
  assumes "proceed (attempt m stop) f s = (Inr r, s')"
    and "\<And>e. failed_about d block (stop e)"
    and "\<And>x t. same_store s t \<Longrightarrow> f x t = (Inr r, s') \<Longrightarrow> push_outcome env d block t r s'"
  shows "push_outcome env d block s r s'"
  using assms(1) unfolding proceed_Inr
proof (elim disjE exE conjE)
  fix t assume a: "attempt m stop s = (Inr (Inl r), t)" "s' = t"
  then have "same_store s s'" using store.keeps_run [OF keeps_attempt a(1)] by simp
  with attempt_Inr [OF a(1)] assms(2) show ?thesis by (auto simp: push_outcome_def failed_about_def)
next
  fix x t assume a: "attempt m stop s = (Inr (Inr x), t)" "f x t = (Inr r, s')"
  have "same_store s t" by (rule store.keeps_run [OF keeps_attempt a(1)])
  with assms(3) a(2) show ?thesis by (blast intro: outcome_after)
qed

lemma outcome_remember:
  assumes "remember_and_record env d block action found org remote published s = (Inr r, s')"
    and "action = ''created'' \<or> action = ''updated''"
  shows "push_outcome env d block s r s'"
proof -
  obtain x where put: "put_and_save env (synced_line env d block remote published org) s = (Inr x, s')"
    and r: "r = remote_record d block action found remote"
    using assms(1) by (auto simp: remember_and_record_def andthen_Inr ret_def)
  obtain t where t: "triple_of (synced_line env d block remote published org) = Some t"
    "saved env (without_triple t (es_ledger s) @ [Line (synced_line env d block remote published org)]) s'"
    using put_and_save_run [OF put] by blast
  with triple_of_synced_line [OF t(1)] r assms(2) show ?thesis by (fastforce simp: push_outcome_def)
qed

lemma outcome_publish:
  assumes "publish_and_remember env client d block action found org do_publish remote s = (Inr r, s')"
    and "action = ''created'' \<or> action = ''updated''"
  shows "push_outcome env d block s r s'"
proof (cases do_publish)
  case True
  with assms(1) have "proceed (attempt (cl_publish client (event_address remote))
      (\<lambda>e. failed_record d block ''publish_failed'' (ce_kind e) found))
      (\<lambda>_. remember_and_record env d block action found org remote True) s = (Inr r, s')"
    by (simp add: publish_and_remember_def)
  then show ?thesis by (rule outcome_attempt) (auto intro: outcome_remember [OF _ assms(2)])
next
  case False
  with assms show ?thesis by (simp add: publish_and_remember_def outcome_remember)
qed

lemma outcome_failed [simp]: "push_outcome env d b s (failed_record d b reason kind found) s"
  by (simp add: push_outcome_def same_store_def)

lemma outcome_write:
  assumes "write_event env client block do_publish d prep matched found s = (Inr r, s')"
    and "doc_uuid d = Some (pp_uuid prep)"
  shows "push_outcome env d block s r s'"
proof -
  let ?line = "ledger_get (es_ledger s) (object_triple (pp_uuid prep) block)"
  let ?finish = "publish_and_remember env client d block"
  show ?thesis
  proof (cases matched)
    case Nil
    with assms(1) have "proceed (attempt (cl_add client (pp_event prep))
        (\<lambda>e. failed_record d block (write_reason e False) (ce_kind e) found))
        (?finish ''created'' found (pp_org prep) do_publish) s = (Inr r, s')"
      by (simp add: write_event_def)
    then show ?thesis by (rule outcome_attempt) (auto intro: outcome_publish)
  next
    case (Cons remote others)
    show ?thesis
    proof (cases "others = [] \<and> up_to_date env d ?line")
      case True
      show ?thesis
      proof (cases "do_publish \<and> \<not> re_published remote")
        case True
        with assms(1) Cons \<open>others = [] \<and> _\<close> show ?thesis
          by (auto simp: write_event_def intro: outcome_publish)
      next
        case False
        with assms Cons \<open>others = [] \<and> _\<close> show ?thesis
          by (auto simp: write_event_def ret_def push_outcome_def same_store_def)
      qed
    next
      case False
      define extra where "extra = (if re_attributes remote \<noteq> 0 \<or> foreign_objects remote (pp_uuid prep)
          then found @ [''remote_extra_content''] else found)"
      show ?thesis
      proof (cases "edit_body (pp_event prep) remote (pp_uuid prep)")
        case (Inl e)
        with assms(1) Cons False show ?thesis
          by (cases e) (auto simp: write_event_def raise_def ret_def split: if_splits)
      next
        case (Inr body)
        with assms(1) Cons False have "proceed (attempt (cl_edit client (event_address remote) body)
            (\<lambda>e. failed_record d block (write_reason e True) (ce_kind e) extra))
            (?finish ''updated'' extra (pp_org prep) do_publish) s = (Inr r, s')"
          unfolding write_event_def Let_def extra_def by (simp split: if_splits)
        then show ?thesis by (rule outcome_attempt) (auto intro: outcome_publish)
      qed
    qed
  qed
qed

lemma checked_organisation_Inl: "checked_organisation probe d = Inl r \<Longrightarrow> failed_about d (pr_block probe) r"
  by (auto simp: checked_organisation_def Let_def split: prod.splits if_splits option.splits)

lemma built_or_failed_Inl: "built_or_failed b d built = Inl r \<Longrightarrow> failed_about d b r"
  by (auto simp: built_or_failed_def split: option.splits)

lemma built_event_run: "built_event env d tags s = (Inr b, t) \<longleftrightarrow> build_event (ev_voc env) d tags = Inr b \<and> t = s"
  by (auto simp: built_event_def ret_def raise_def split: sum.splits)

lemma returns_built_event: "returns (built_event env d tags) (\<lambda>b. build_event (ev_voc env) d tags = Inr b)"
  by (simp add: returns_def built_event_run)

lemma returns_attempt: "returns (attempt m stop) (\<lambda>r. case r of Inl x \<Rightarrow> \<exists>e. x = stop e | Inr _ \<Rightarrow> True)"
  by (auto simp: returns_def dest: attempt_Inr split: sum.split)

text \<open>A document that is not prepared gives a failed record; one that is has its event built.\<close>

definition prepared_ok :: "Env \<Rightarrow> TideDocument \<Rightarrow> MispBlock \<Rightarrow> ShareRecord + Prepared \<Rightarrow> bool" where
  "prepared_ok env d block r =
     (case r of
        Inl stop \<Rightarrow> failed_about d block stop
      | Inr prep \<Rightarrow> doc_uuid d = Some (pp_uuid prep)
          \<and> (\<exists>tags built. build_event (ev_voc env) d tags = Inr built \<and> be_event built = Some (pp_event prep)))"

lemma returns_tagged:
  assumes "build_event (ev_voc env) d tags = Inr tagged"
  shows "returns (case built_or_failed block d tagged of
       Inl stop \<Rightarrow> ret (Inl stop)
     | Inr event \<Rightarrow> (case doc_uuid d of
           None \<Rightarrow> raise Crashed
         | Some uuid \<Rightarrow> ret (Inr \<lparr>pp_org = org, pp_uuid = uuid, pp_event = event, pp_notes = found\<rparr>)))
     (prepared_ok env d block)"
  using assms
  by (auto simp: prepared_ok_def built_or_failed_def intro!: returns_intros split: option.split) blast+

lemma returns_prepare: "returns (prepare env probe client shareable d) (prepared_ok env d (pr_block probe))"
proof -
  let ?block = "pr_block probe"
  have stop: "returns (ret (Inl r)) (prepared_ok env d ?block)" if "failed_about d ?block r" for r
    using that by (simp add: returns_ret prepared_ok_def)
  have looked: "returns (case r of Inl x \<Rightarrow> ret (Inl x) | Inr resolved \<Rightarrow>
        (case gr_error resolved of
           Some e \<Rightarrow> ret (Inl (failed_record d ?block ''galaxy_lookup_failed'' (ce_kind e) []))
         | None \<Rightarrow> andthen (built_event env d (gr_tags resolved)) (\<lambda>tagged.
             case built_or_failed ?block d tagged of
               Inl stop \<Rightarrow> ret (Inl stop)
             | Inr event \<Rightarrow> (case doc_uuid d of
                   None \<Rightarrow> raise Crashed
                 | Some uuid \<Rightarrow> ret (Inr \<lparr>pp_org = org, pp_uuid = uuid, pp_event = event,
                     pp_notes = found resolved tagged\<rparr>)))))
      (prepared_ok env d ?block)"
    if "case r of Inl x \<Rightarrow> \<exists>e. x = failed_record d ?block ''galaxy_lookup_failed'' (ce_kind e) [] | Inr _ \<Rightarrow> True"
    for r org found
    using that
    by (cases r) (auto intro!: stop returns_andthen [OF returns_built_event] returns_tagged split: option.split)
  show ?thesis
    unfolding prepare_def Let_def
    by (auto intro!: stop returns_andthen [OF returns_built_event] returns_andthen [OF returns_attempt] looked
        dest: checked_organisation_Inl built_or_failed_Inl split: sum.split option.split prod.split)
qed

lemma outcome_upsert:
  assumes "upsert env probe client do_publish shareable d s = (Inr r, s')"
  shows "push_outcome env d (pr_block probe) s r s'"
  using assms unfolding upsert_def proceed_Inr [of "prepare env probe client shareable d"]
proof (elim disjE exE conjE)
  fix t assume a: "prepare env probe client shareable d s = (Inr (Inl r), t)" "s' = t"
  have "prepared_ok env d (pr_block probe) (Inl r)" using returns_prepare a(1) unfolding returns_def by blast
  then show ?thesis using store.keeps_run [OF keeps_prepare a(1)] a(2)
    by (simp add: prepared_ok_def push_outcome_def failed_about_def)
next
  fix prep t assume a: "prepare env probe client shareable d s = (Inr (Inr prep), t)"
    and b: "proceed (attempt (cl_search client (pp_uuid prep))
         (\<lambda>e. failed_record d (pr_block probe) ''remote_lookup_failed'' (ce_kind e) (pp_notes prep)))
       (\<lambda>events.
         let (matched, foreign) = matched_events events (pp_org prep) (pp_uuid prep);
             found = pp_notes prep @ map (\<lambda>u. ''foreign_event:'' @ u) foreign
         in if 1 < length matched
            then ret (failed_record d (pr_block probe) ''ambiguous_remote_event'' ''other''
                   (found @ [''ambiguous_remote_event:'' @ str_join '','' (map re_uuid matched)]))
            else write_event env client (pr_block probe) do_publish d prep matched found) t = (Inr r, s')"
  have "prepared_ok env d (pr_block probe) (Inr prep)" using returns_prepare a unfolding returns_def by blast
  then have u: "doc_uuid d = Some (pp_uuid prep)" by (simp add: prepared_ok_def)
  from b have "push_outcome env d (pr_block probe) t r s'"
    by (rule outcome_attempt)
      (auto simp: case_prod_unfold Let_def ret_def intro: outcome_write [OF _ u] split: if_splits)
  then show ?thesis using store.keeps_run [OF keeps_prepare a] outcome_after by blast
qed

text \<open>The line of an object after a push that succeeded.\<close>

definition line_after :: "Env \<Rightarrow> TideDocument \<Rightarrow> MispBlock \<Rightarrow> 'w EngineState \<Rightarrow> ShareRecord \<Rightarrow> 'w EngineState \<Rightarrow> string \<Rightarrow> pydict \<Rightarrow> bool" where
  "line_after env d block s r s' u line =
     (doc_uuid d = Some u
    \<and> ledger_get (es_ledger s') (object_triple u block) = Some line
    \<and> dget_none line ''state'' = PStr ''synced''
    \<and> dget_none line ''content_hash'' = PStr (ev_hash env (doc_text d))
    \<and> (sr_action r \<noteq> ''unchanged'' \<longrightarrow> opt_str (sr_remote_uuid r) = dget_none line ''remote_event_uuid'')
    \<and> (\<forall>t. t \<noteq> object_triple u block \<longrightarrow> ledger_get (es_ledger s') t = ledger_get (es_ledger s) t))"

lemma pushed_line:
  assumes "push_outcome env d block s r s'" "sr_action r \<noteq> ''failed''"
  shows "\<exists>u line. line_after env d block s r s' u line"
proof -
  from assms
  consider (unchanged) u where "sr_action r = ''unchanged''" "same_store s s'" "doc_uuid d = Some u"
        "up_to_date env d (ledger_get (es_ledger s) (object_triple u block))"
    | (written) u remote published org where "sr_action r = ''created'' \<or> sr_action r = ''updated''"
        "doc_uuid d = Some u" "sr_remote_uuid r = Some (re_uuid remote)"
        "triple_of (synced_line env d block remote published org) = Some (object_triple u block)"
        "saved env (without_triple (object_triple u block) (es_ledger s)
           @ [Line (synced_line env d block remote published org)]) s'"
    unfolding push_outcome_def by blast
  then show ?thesis
  proof cases
    case unchanged
    then show ?thesis by (auto simp: line_after_def same_store_def up_to_date_def split: option.splits)
  next
    case written
    let ?t = "object_triple u block" and ?line = "synced_line env d block remote published org"
    have get: "ledger_get (es_ledger s') t = (if t = ?t then Some ?line else ledger_get (es_ledger s) t)" for t
      using saved_get [OF written(5)] written(4) by (simp add: get_append get_without)
    have "dget_none ?line ''state'' = PStr ''synced''" "dget_none ?line ''content_hash'' = PStr (ev_hash env (doc_text d))"
      "dget_none ?line ''remote_event_uuid'' = opt_str (sr_remote_uuid r)"
      using written(3) by (simp_all add: dget_none_map_of dget_synced_line opt_str_def)
    then have "line_after env d block s r s' u ?line"
      using written(2) by (simp add: line_after_def get)
    then show ?thesis by blast
  qed
qed

text \<open>
  C3: What a push of one object does to the ledger. A failed object leaves the ledger and its file as they
  were; an unchanged one too, and its line was already synced with the same content; a created or updated one has
  a synced line with the content hash of the document and the uuid of its remote event, and every other line is
  still found as before.
\<close>

theorem push_keeps_the_ledger_true:
  assumes "upsert env probe client do_publish shareable d s = (Inr r, s')"
  shows "(sr_action r = ''failed'' \<or> sr_action r = ''unchanged'' \<longrightarrow>
            es_ledger s' = es_ledger s \<and> es_file s' = es_file s)
    \<and> (sr_action r \<noteq> ''failed'' \<longrightarrow> (\<exists>u line. doc_uuid d = Some u
         \<and> ledger_get (es_ledger s') (object_triple u (pr_block probe)) = Some line
         \<and> dget_none line ''state'' = PStr ''synced''
         \<and> dget_none line ''content_hash'' = PStr (ev_hash env (doc_text d))
         \<and> (sr_action r \<noteq> ''unchanged'' \<longrightarrow> opt_str (sr_remote_uuid r) = dget_none line ''remote_event_uuid'')
         \<and> (\<forall>t. t \<noteq> object_triple u (pr_block probe) \<longrightarrow> ledger_get (es_ledger s') t = ledger_get (es_ledger s) t)))
    \<and> sr_action r \<in> {''failed'', ''unchanged'', ''created'', ''updated''}"
proof -
  note o' = outcome_upsert [OF assms]
  have "sr_action r \<in> {''failed'', ''unchanged'', ''created'', ''updated''}
      \<and> (sr_action r = ''failed'' \<or> sr_action r = ''unchanged'' \<longrightarrow> same_store s s')"
    using o' by (auto simp: push_outcome_def)
  with pushed_line [OF o'] show ?thesis unfolding line_after_def same_store_def by blast
qed

section \<open>Editing an event\<close>

text \<open>
  C7: An edit keeps what others put in the event: the objects of the new body are every object of the
  remote event that is not ours for this uuid, then ours; the event keeps its own uuid; its attributes are sent only
  when the remote event has none; every other field is the one of a new event.
\<close>

theorem edit_keeps_foreign_objects:
  assumes "edit_body created remote tide_uuid = Inr body"
  shows "jitems (jfield ''Object'' (jfield ''Event'' body)) =
        map PDict (filter (\<lambda>obj. \<not> is_ours obj tide_uuid) (re_objects remote))
        @ jitems (jfield ''Object'' (jfield ''Event'' created))
    \<and> jfield ''uuid'' (jfield ''Event'' body) = PStr (re_uuid remote)
    \<and> jfield ''Attribute'' (jfield ''Event'' body) =
        (if re_attributes remote = 0 then jfield ''Attribute'' (jfield ''Event'' created) else PNone)
    \<and> (k \<in> {''uuid'', ''Object'', ''Attribute''} \<or> jfield k (jfield ''Event'' body) = jfield k (jfield ''Event'' created))"
proof -
  obtain envelope raw where c: "created = PDict envelope" "dget envelope ''Event'' = Some (PDict raw)"
    using assms by (auto simp: edit_body_def split: pyval.splits option.splits)
  have del: "dget (AList.delete (PStr k') d) k = (if k = k' then None else dget d k)" for k k' and d :: pydict
    by (simp add: dget_def)
  have event: "jfield ''Event'' created = PDict raw" using c by (simp add: jfield_def)
  have items: "(case v of PList xs \<Rightarrow> xs | _ \<Rightarrow> []) = jitems v" for v by (simp add: jitems_def)
  show ?thesis
    using assms c unfolding event
    by (auto simp: edit_body_def Let_def jfield_def dget_none_map_of del items [symmetric] jobj_def split: if_splits)
qed

theorem edit_keeps_foreign_objects_witness:
  "\<exists>body. edit_body (jobj [(''Event'', jobj [(''info'', PStr ''a''), (''Object'', PList [])])])
      \<lparr>re_id = None, re_uuid = ''e'', re_orgc = None, re_published = False, re_opentide = [], re_attributes = 2,
       re_objects = [[(PStr ''name'', PStr ''file'')]]\<rparr> ''u'' = Inr body
    \<and> jitems (jfield ''Object'' (jfield ''Event'' body)) = [PDict [(PStr ''name'', PStr ''file'')]]"
proof -
  let ?c = "jobj [(''Event'', jobj [(''info'', PStr ''a''), (''Object'', PList [])])]"
  let ?r = "\<lparr>re_id = None, re_uuid = ''e'', re_orgc = None, re_published = False, re_opentide = [], re_attributes = 2,
       re_objects = [[(PStr ''name'', PStr ''file'')]]\<rparr>"
  obtain body where b: "edit_body ?c ?r ''u'' = Inr body"
    by (simp add: edit_body_def jobj_def Let_def)
  have "\<not> is_ours [(PStr ''name'', PStr ''file'')] ''u''" by (simp add: is_ours_def opentide_template_name_def dget_none_map_of)
  then show ?thesis using edit_keeps_foreign_objects [OF b, of "''info''"] b by simp
qed

section \<open>What a block shares\<close>

lemma split_local_eq:
  "split_local ds block v =
     (List.map_filter (\<lambda>d. local_verdict d block v) ds, filter (\<lambda>d. local_verdict d block v = None) ds)"
  by (induction ds) (auto simp: case_prod_unfold Let_def List.map_filter_def split: option.splits)

lemma position_None: "position x ys = None \<longleftrightarrow> x \<notin> set ys"
  by (induction ys) auto

lemma position_Some: "position x ys = Some i \<Longrightarrow> x \<in> set ys"
  by (metis position_None option.distinct(1))

lemma allowed_tlp_iff: "tlp \<in> set (allowed_tlp max_tlp) \<longleftrightarrow> tlp_allows tlp max_tlp"
  by (cases "position max_tlp tlp_order"; cases "position tlp tlp_order")
     (auto simp: allowed_tlp_def tlp_allows_def dest: position_Some)

lemma local_verdict_None:
  assumes "local_verdict d block v = None"
  shows "\<exists>uuid family. doc_uuid d = Some uuid \<and> doc_family d = Some family \<and> doc_error d = None
    \<and> family \<in> set (mb_object_types block)
    \<and> (family = ''rule'' \<longrightarrow> list_ex (\<lambda>s. s \<in> set (mb_rule_statuses block)) (rule_statuses (doc_body d)))
    \<and> (\<forall>tlp. dget_str (doc_metadata d) ''tlp'' = Some tlp \<longrightarrow> tlp \<in> set tlp_order \<longrightarrow> tlp_allows tlp (mb_max_tlp block))"
  using assms
  by (auto simp: local_verdict_def allowed_tlp_iff split: option.splits if_splits)

lemma share_record_action [simp]: "sr_action (share_record d b action reason found kind ru ri) = action"
  by (simp add: share_record_def)

lemma local_verdict_Some:
  assumes "local_verdict d block v = Some r"
  shows "about_object d block r \<and> sr_action r \<notin> set success_actions"
proof -
  have "(\<exists>action reason. r = share_record d block action reason [] None None None
          \<and> action \<in> {''skipped_type'', ''skipped_status'', ''skipped_tlp''})
      \<or> (\<exists>reason found. r = failed_record d block reason ''other'' found)"
    using assms unfolding local_verdict_def
    by (simp split: option.split_asm if_split_asm; blast)
  then show ?thesis by (auto simp: success_actions_def)
qed

lemma each_Inr:
  "each f xs s = (Inr ys, t) \<Longrightarrow> (\<And>x s y t. x \<in> set xs \<Longrightarrow> f x s = (Inr y, t) \<Longrightarrow> Q x y) \<Longrightarrow> list_all2 Q xs ys"
proof (induction xs arbitrary: s ys)
  case (Cons x xs)
  from Cons.prems(1) obtain y s1 ys' where "f x s = (Inr y, s1)" "each f xs s1 = (Inr ys', t)" "ys = y # ys'"
    by (auto simp: andthen_Inr ret_def)
  with Cons show ?case by auto
qed (simp add: ret_def)

lemma list_all2_in_set2: "list_all2 P xs ys \<Longrightarrow> y \<in> set ys \<Longrightarrow> \<exists>x \<in> set xs. P x y"
  by (induction rule: list_all2_induct) auto

lemma upsert_built:
  assumes "upsert env probe client do_publish shareable d s = (Inr r, s')" "sr_action r \<noteq> ''failed''"
  shows "\<exists>tlp tag. valid_tlp (voc_tlp (ev_voc env)) d = Some (tlp, tag)"
proof -
  have ok: "prepared_ok env d (pr_block probe) x" if "prepare env probe client shareable d s = (Inr x, t)" for x t
    using returns_prepare that unfolding returns_def by blast
  obtain prep t where "prepare env probe client shareable d s = (Inr (Inr prep), t)"
    using assms ok unfolding upsert_def proceed_Inr [of "prepare env probe client shareable d"]
    by (auto simp: prepared_ok_def failed_about_def)
  then obtain tags built where b: "build_event (ev_voc env) d tags = Inr built" "be_event built = Some (pp_event prep)"
    using ok by (fastforce simp: prepared_ok_def)
  show ?thesis by (rule build_event_Some [OF b]) blast
qed

lemma valid_tlp_known:
  assumes "valid_tlp voc d = Some (tlp, tag)" "list_all (\<lambda>(name, tag). name \<in> set tlp_order) voc"
  shows "dget_str (doc_metadata d) ''tlp'' = Some tlp \<and> tlp \<in> set tlp_order"
proof -
  have t: "dget_str (doc_metadata d) ''tlp'' = Some tlp" "map_of voc tlp = Some tag"
    using assms(1) by (auto simp: valid_tlp_def split: option.splits)
  then have "(tlp, tag) \<in> set voc" by (simp add: map_of_SomeD)
  with t assms(2) show ?thesis by (auto simp: list_all_iff)
qed

definition shared_name :: "TideDocument \<Rightarrow> string" where
  "shared_name d = (case doc_uuid d of None \<Rightarrow> [] | Some u \<Rightarrow> u)"

lemma about_name: "about_object d b r \<Longrightarrow> sr_uuid r = shared_name d"
  by (simp add: about_object_def shared_name_def)

lemma split_local_names:
  "mset (map shared_name ds) =
     mset (map sr_uuid (fst (split_local ds block v))) + mset (map shared_name (snd (split_local ds block v)))"
proof (induction ds)
  case (Cons d ds)
  then show ?case
    by (cases "local_verdict d block v")
      (auto simp: case_prod_unfold Let_def dest!: local_verdict_Some about_name)
qed simp

lemma push_block_Inr:
  assumes "push_block env v publish ds probe s = (Inr rs, s')"
  obtains pushed where "rs = fst (split_local ds (pr_block probe) v) @ pushed"
    "list_all2 (\<lambda>d r. about_object d (pr_block probe) r \<and> (sr_action r \<noteq> ''failed'' \<longrightarrow>
        (\<exists>tlp tag. valid_tlp (voc_tlp (ev_voc env)) d = Some (tlp, tag))))
      (snd (split_local ds (pr_block probe) v)) pushed"
proof -
  let ?here = "fst (split_local ds (pr_block probe) v)" and ?share = "snd (split_local ds (pr_block probe) v)"
  let ?Q = "\<lambda>d r. about_object d (pr_block probe) r \<and> (sr_action r \<noteq> ''failed'' \<longrightarrow>
        (\<exists>tlp tag. valid_tlp (voc_tlp (ev_voc env)) d = Some (tlp, tag)))"
  show ?thesis
  proof (cases "pr_error probe = None \<and> pr_client probe \<noteq> None")
    case True
    then obtain client where c: "pr_client probe = Some client" "pr_error probe = None" by auto
    from assms c obtain pushed where p: "rs = ?here @ pushed"
      "each (upsert env probe client (case publish of None \<Rightarrow> mb_publish (pr_block probe) | Some p \<Rightarrow> p) ?share) ?share s = (Inr pushed, s')"
      by (auto simp: push_block_def Let_def case_prod_unfold andthen_Inr ret_def)
    have "list_all2 ?Q ?share pushed"
      by (rule each_Inr [OF p(2)]) (auto dest: outcome_upsert upsert_built simp: push_outcome_def)
    with p(1) show ?thesis by (rule that)
  next
    case False
    define why where "why = probe_failure (pr_error probe)"
    have "rs = ?here @ map (\<lambda>d. failed_record d (pr_block probe) (fst why) (snd why) []) ?share"
      using assms False
      by (auto simp: push_block_def Let_def case_prod_unfold ret_def why_def split: option.splits)
    then show ?thesis by (rule that) (simp add: list_all2_map2 list_all2_same)
  qed
qed

text \<open>
  C5: A push of a block gives one record per document, and an object is only created, updated or left
  unchanged there when it is of a shared type and its TLP label is at or below the ceiling of the block, given that the
  vocabulary only names the labels of the TLP order.
\<close>

theorem push_respects_the_ceiling:
  assumes "push_block env v publish ds probe s = (Inr rs, s')"
    and "list_all (\<lambda>(name, tag). name \<in> set tlp_order) (voc_tlp (ev_voc env))"
  shows "mset (map sr_uuid rs) = mset (map shared_name ds)
    \<and> (\<forall>r \<in> set rs. sr_action r \<in> set success_actions \<longrightarrow>
         (\<exists>d \<in> set ds. \<exists>tlp family. doc_uuid d = Some (sr_uuid r)
            \<and> doc_family d = Some family \<and> family \<in> set (mb_object_types (pr_block probe))
            \<and> dget_str (doc_metadata d) ''tlp'' = Some tlp \<and> tlp_allows tlp (mb_max_tlp (pr_block probe))))"
proof (rule push_block_Inr [OF assms(1)])
  let ?block = "pr_block probe"
  fix pushed
  assume rs: "rs = fst (split_local ds ?block v) @ pushed"
    and all: "list_all2 (\<lambda>d r. about_object d ?block r \<and> (sr_action r \<noteq> ''failed'' \<longrightarrow>
        (\<exists>tlp tag. valid_tlp (voc_tlp (ev_voc env)) d = Some (tlp, tag)))) (snd (split_local ds ?block v)) pushed"
  have "map sr_uuid pushed = map shared_name (snd (split_local ds ?block v))"
    using all by (induction rule: list_all2_induct) (auto dest: about_name)
  then have count: "mset (map sr_uuid rs) = mset (map shared_name ds)"
    using rs split_local_names [of ds ?block v] by simp
  have "\<exists>d \<in> set ds. \<exists>tlp family. doc_uuid d = Some (sr_uuid r) \<and> doc_family d = Some family
            \<and> family \<in> set (mb_object_types ?block)
            \<and> dget_str (doc_metadata d) ''tlp'' = Some tlp \<and> tlp_allows tlp (mb_max_tlp ?block)"
    if r: "r \<in> set rs" "sr_action r \<in> set success_actions" for r
  proof -
    have "r \<notin> set (fst (split_local ds ?block v))"
      using r(2) local_verdict_Some by (auto simp: split_local_eq List.map_filter_def)
    then have "r \<in> set pushed" using r(1) rs by auto
    then obtain d where d: "d \<in> set (snd (split_local ds ?block v))" "about_object d ?block r"
      "sr_action r \<noteq> ''failed'' \<longrightarrow> (\<exists>tlp tag. valid_tlp (voc_tlp (ev_voc env)) d = Some (tlp, tag))"
      using list_all2_in_set2 [OF all] by blast
    then have v: "d \<in> set ds" "local_verdict d ?block v = None" by (auto simp: split_local_eq)
    have "sr_action r \<noteq> ''failed''" using r(2) by (auto simp: success_actions_def)
    with d(3) obtain tlp tag where "valid_tlp (voc_tlp (ev_voc env)) d = Some (tlp, tag)" by blast
    from valid_tlp_known [OF this assms(2)] local_verdict_None [OF v(2)] d(2) v(1) show ?thesis
      by (auto simp: about_object_def)
  qed
  with count show ?thesis by blast
qed

section \<open>Retraction\<close>

lemma discard_and_save_get:
  "discard_and_save env t s = (Inr x, s') \<Longrightarrow>
     ledger_get (es_ledger s') t' = (if t' = t then None else ledger_get (es_ledger s) t')"
  by (auto simp: discard_and_save_def ledger_discard_def save_action_def save_ledger_def Let_def collapse_last_lines
      get_last_lines get_without split: if_splits)

lemma put_and_save_get:
  "put_and_save env l s = (Inr x, s') \<Longrightarrow> triple_of l = Some t \<Longrightarrow>
     ledger_get (es_ledger s') t' = (if t' = t then Some l else ledger_get (es_ledger s) t')"
  by (drule put_and_save_run) (auto simp: saved_get get_append get_without)

lemma dget_update_all:
  "dget (update_all items d) k = (case map_of (rev items) k of Some v \<Rightarrow> Some v | None \<Rightarrow> dget d k)"
proof (induction items arbitrary: d)
  case (Cons kv items)
  obtain k' v where [simp]: "kv = (k', v)" by force
  have "update_all (kv # items) d = update_all items (AList.update (PStr k') v d)" by (simp add: update_all_def)
  then show ?case using Cons.IH [of "AList.update (PStr k') v d"]
    by (auto simp: map_add_def split: option.splits)
qed (simp add: update_all_def)

lemma dget_retracted_line:
  "k \<notin> {''object_schema'', ''content_hash'', ''object_version''} \<Longrightarrow>
   dget (retracted_line env uuid document line block remote org) k =
     (case map_of [(''state'', PStr ''retracted''), (''object_uuid'', PStr uuid), (''integration'', PStr integration_misp),
         (''target'', PStr (mb_name block)), (''organisation_uuid'', PStr org),
         (''remote_event_uuid'', PStr (re_uuid remote)), (''remote_event_id'', opt_int (re_id remote)),
         (''published'', PBool False), (''shared_at'', PStr (ev_stamp env))] k of
        Some v \<Rightarrow> Some v
      | None \<Rightarrow> (case line of None \<Rightarrow> None | Some l \<Rightarrow> dget l k))"
  by (cases document) (auto simp: retracted_line_def Let_def dget_update_all split: option.splits)

lemma triple_of_retracted_line:
  "triple_of (retracted_line env uuid document line block remote org) = Some t \<Longrightarrow> t = object_triple uuid block"
  by (auto simp: triple_of_def identity_value_def dget_str_def dget_none_map_of dget_retracted_line object_triple_def
      split: option.splits if_splits)

definition retract_outcome :: "MispBlock \<Rightarrow> string \<Rightarrow> bool \<Rightarrow> 'w EngineState \<Rightarrow> ShareRecord option \<Rightarrow> 'w EngineState \<Rightarrow> bool" where
  "retract_outcome block uuid delete s r s' =
     (let t = object_triple uuid block in
      (case r of None \<Rightarrow> same_store s s' | Some x \<Rightarrow> sr_uuid x = uuid \<and> sr_target x = mb_name block
         \<and> (sr_action x = ''failed'' \<and> same_store s s'
          \<or> sr_action x = ''retracted''
            \<and> (ledger_get (es_ledger s') t = None
               \<or> \<not> delete \<and> (\<exists>line. ledger_get (es_ledger s') t = Some line
                   \<and> dget_none line ''state'' = PStr ''retracted'' \<and> dget_none line ''published'' = PBool False))))
    \<and> (\<forall>t'. t' \<noteq> t \<longrightarrow> ledger_get (es_ledger s') t' = ledger_get (es_ledger s) t'))"

lemma bare_simps [simp]:
  "sr_action (bare_record u b action reason kind found ru ri) = action"
  "sr_uuid (bare_record u b action reason kind found ru ri) = u"
  "sr_target (bare_record u b action reason kind found ru ri) = mb_name b"
  by (simp_all add: bare_record_def)

lemma retract_stop:
  "same_store s s' \<Longrightarrow> retract_outcome b u delete s (Some (bare_failed u b reason kind)) s'"
  "same_store s s' \<Longrightarrow> retract_outcome b u delete s None s'"
  by (simp_all add: retract_outcome_def bare_failed_def same_store_def)

lemma retract_discarded:
  assumes "same_store s s1" "discard_and_save env (object_triple u b) s1 = (Inr x, s')"
  shows "retract_outcome b u delete s (Some (bare_record u b ''retracted'' reason kind found ru ri)) s'"
  using assms(1) discard_and_save_get [OF assms(2)] by (simp add: retract_outcome_def same_store_def)

lemma retract_put:
  assumes "same_store s s1" "put_and_save env (retracted_line env u document line b remote org) s1 = (Inr x, s')"
  shows "retract_outcome b u False s (Some (bare_record u b ''retracted'' reason kind found ru ri)) s'"
proof -
  let ?l = "retracted_line env u document line b remote org"
  obtain t where "triple_of ?l = Some t" using put_and_save_run [OF assms(2)] by blast
  then have "triple_of ?l = Some (object_triple u b)" using triple_of_retracted_line by metis
  from put_and_save_get [OF assms(2) this] assms(1) show ?thesis
    by (simp add: retract_outcome_def same_store_def dget_none_map_of dget_retracted_line)
qed

lemma same_after_try: "try_refused (on_remote m) s = (r, t) \<Longrightarrow> same_store s t"
  by (rule store.keeps_run [OF store.keeps_try [OF keeps_on_remote]])

lemma same_store_trans: "same_store s t \<Longrightarrow> same_store t u \<Longrightarrow> same_store s u"
  by (rule store.steps)

lemma retract_before: "same_store s t \<Longrightarrow> retract_outcome b u delete t r s' \<Longrightarrow> retract_outcome b u delete s r s'"
  by (simp add: retract_outcome_def same_store_def Let_def cong: option.case_cong)

lemma outcome_retract_remote:
  assumes "retract_remote env block client delete uuid document line org remote s = (Inr r, s')"
  shows "retract_outcome block uuid delete s r s'"
proof (cases delete)
  case True
  with assms obtain d t where d: "try_refused (on_remote (cl_delete client (event_address remote))) s = (Inr d, t)"
    "(case d of Inl e \<Rightarrow> ret (Some (bare_failed uuid block (ce_reason e) (ce_kind e)))
      | Inr _ \<Rightarrow> andthen (discard_and_save env (object_triple uuid block)) (\<lambda>_. ret (Some
          (bare_record uuid block ''retracted'' None None [] (Some (re_uuid remote)) (re_id remote))))) t = (Inr r, s')"
    by (auto simp: retract_remote_def andthen_Inr)
  from same_after_try [OF d(1)] d(2) show ?thesis
    by (cases d) (auto simp: ret_def andthen_Inr intro: retract_stop retract_discarded)
next
  case False
  let ?pub = "if re_published remote then try_refused (on_remote (cl_unpublish client (event_address remote))) else ret (Inr ())"
  from assms False obtain d t where d: "?pub s = (Inr d, t)"
    "(case d of Inl e \<Rightarrow> ret (Some (bare_failed uuid block (ce_reason e) (ce_kind e)))
      | Inr _ \<Rightarrow> andthen (put_and_save env (retracted_line env uuid document line block remote org)) (\<lambda>_. ret (Some
          (bare_record uuid block ''retracted'' None None [] (Some (re_uuid remote)) (re_id remote))))) t = (Inr r, s')"
    by (auto simp: retract_remote_def andthen_Inr)
  have "same_store s t" using d(1) same_after_try by (auto simp: ret_def store.same split: if_splits)
  with d(2) False show ?thesis
    by (cases d) (auto simp: ret_def andthen_Inr intro: retract_stop retract_put)
qed

lemma outcome_retract_found:
  assumes "retract_found env block client delete uuid document line events s = (Inr r, s')"
  shows "retract_outcome block uuid delete s r s'"
proof -
  have "same_store s s" by (rule store.same)
  then show ?thesis
    using assms outcome_retract_remote
    by (auto simp: retract_found_def ret_def andthen_Inr split: option.splits if_splits list.splits
        intro: retract_stop retract_discarded)
qed

lemma outcome_retract:
  assumes "retract_one env block client delete by_uuid uuid s = (Inr r, s')"
  shows "retract_outcome block uuid delete s r s'"
proof -
  from assms obtain q t where q: "try_refused (on_remote (cl_search client uuid)) s = (Inr q, t)"
    "(case q of Inl e \<Rightarrow> ret (Some (bare_failed uuid block ''remote_lookup_failed'' (ce_kind e)))
      | Inr events \<Rightarrow> retract_found env block client delete uuid (map_of by_uuid uuid)
          (ledger_get (es_ledger s) (object_triple uuid block)) events) t = (Inr r, s')"
    by (auto simp: retract_one_def andthen_Inr)
  note t = same_after_try [OF q(1)]
  show ?thesis
  proof (cases q)
    case (Inl e)
    with q(2) t show ?thesis by (auto simp: ret_def intro: retract_stop)
  next
    case (Inr events)
    with q(2) show ?thesis using retract_before [OF t outcome_retract_found] by simp
  qed
qed

text \<open>
  C17: What retracting one object does to the ledger. A failed retraction, and one with nothing to retract,
  leave the ledger and its file; a retraction removes the line of the object, or, unless the event is deleted, leaves
  it as a retracted and unpublished line; the lines of every other object and target are still found as before.
\<close>

theorem retraction_keeps_the_ledger_true:
  assumes "retract_one env block client delete by_uuid uuid s = (Inr r, s')"
  shows "(r = None \<or> sr_action (the r) = ''failed'' \<longrightarrow> es_ledger s' = es_ledger s \<and> es_file s' = es_file s)
    \<and> (r \<noteq> None \<and> sr_action (the r) \<noteq> ''failed'' \<longrightarrow>
         sr_action (the r) = ''retracted''
         \<and> (ledger_get (es_ledger s') (object_triple uuid block) = None
            \<or> \<not> delete \<and> (\<exists>line. ledger_get (es_ledger s') (object_triple uuid block) = Some line
                \<and> dget_none line ''state'' = PStr ''retracted'' \<and> dget_none line ''published'' = PBool False)))
    \<and> (\<forall>t. t \<noteq> object_triple uuid block \<longrightarrow> ledger_get (es_ledger s') t = ledger_get (es_ledger s) t)"
  using outcome_retract [OF assms]
  by (auto simp: retract_outcome_def Let_def same_store_def split: option.splits)

text \<open>
  A push predicts itself: after an object was pushed with success, the preview of a run that does not ask
  to publish says it is unchanged, and so does status.
\<close>

theorem preview_after_push_is_unchanged:
  assumes "upsert env probe client do_publish shareable d s = (Inr r, s')" "sr_action r \<noteq> ''failed''"
  shows "\<exists>u. doc_uuid d = Some u \<and> predict env (es_ledger s') d u (pr_block probe) False = ''unchanged''"
proof -
  obtain u line where "line_after env d (pr_block probe) s r s' u line"
    using pushed_line [OF outcome_upsert [OF assms(1)] assms(2)] by blast
  then show ?thesis by (auto simp: predict_def line_after_def)
qed

section \<open>Preflight\<close>

lemma mismatch_no_success: "r \<in> set (mismatch_records ds probes) \<Longrightarrow> sr_action r \<notin> set success_actions"
proof -
  have "''failed'' \<notin> set success_actions" by (simp add: success_actions_def)
  then show "r \<in> set (mismatch_records ds probes) \<Longrightarrow> sr_action r \<notin> set success_actions"
    by (auto simp: mismatch_records_def case_prod_unfold Let_def split_local_eq List.map_filter_def
        dest: local_verdict_Some)
qed

text \<open>
  A run that stops in preflight shares nothing: the ledger and its file are as before, no record is one
  of success, and the exit status is 1. One block whose organisation does not match stops every block.
\<close>

theorem preflight_shares_nothing:
  assumes "run_misp env factory m opts validate documents blocks s = (Inr run, s')"
    and "run_preflight run \<noteq> None"
  shows "es_ledger s' = es_ledger s \<and> es_file s' = es_file s
    \<and> filter (\<lambda>r. sr_action r \<in> set success_actions) (run_records run) = [] \<and> exit_code run = 1"
proof -
  have stop: "s' = s \<and> run_records run = []" if "preflight_stop why s = (Inr run, s')" for why
    using that by (auto simp: preflight_stop_def ret_def)
  have shared: "False" if "andthen f share_run s = (Inr run, s')" for f :: "('a EngineState, ShareRecord list) action"
    using that assms(2) by (auto simp: andthen_Inr share_run_def ret_def)
  let ?chosen = "selected env documents (op_filters opts)"
  from assms(1) consider "s' = s \<and> run_records run = []"
    | "contact env factory m opts validate documents ?chosen blocks s = (Inr run, s')"
    by (auto simp: run_misp_def Let_def raise_def dest: stop shared split: if_splits)
  then have "same_store s s' \<and> filter (\<lambda>r. sr_action r \<in> set success_actions) (run_records run) = []"
  proof cases
    case 1
    then show ?thesis by (simp add: store.same)
  next
    case 2
    then obtain probes t where p: "each (probe_block factory) blocks s = (Inr probes, t)"
      and run: "(if list_ex pr_mismatch probes
         then ret \<lparr>run_records = mismatch_records ?chosen probes, run_preflight = Some ''organisation_uuid_mismatch''\<rparr>
         else andthen (each (if m = Retract then retract_block env (op_delete opts) (op_filters opts) documents ?chosen
                else push_block env validate (op_publish opts) ?chosen) probes) (\<lambda>rss. share_run (concat rss))) t = (Inr run, s')"
      by (auto simp: contact_def andthen_Inr)
    have "same_store s t" by (rule store.keeps_run [OF store.keeps_each [OF keeps_probe_block] p])
    moreover have "s' = t \<and> run_records run = mismatch_records ?chosen probes"
      using run assms(2) by (auto simp: ret_def andthen_Inr share_run_def split: if_splits)
    ultimately show ?thesis using mismatch_no_success by (auto simp: filter_empty_conv)
  qed
  then show ?thesis using assms(2) by (simp add: same_store_def exit_code_def)
qed

section \<open>Samples\<close>

definition sample_env :: Env where
  "sample_env = \<lparr>ev_voc = sample_tags, ev_hash = (\<lambda>t. t), ev_dump = (\<lambda>_. ''{}''), ev_resolve = (\<lambda>p. p),
     ev_stamp = ''2024-01-01T00:00:00Z''\<rparr>"

definition sample_block :: MispBlock where
  "sample_block = \<lparr>mb_name = ''t'', mb_url = ''https://misp'', mb_max_tlp = ''red'', mb_api_key = Some ''k'',
     mb_api_key_unset = False, mb_enabled = True, mb_object_types = [''threat''], mb_rule_statuses = [],
     mb_organisation = Some ''o1'', mb_publish = False, mb_verify_ssl = True\<rparr>"

definition quiet_client :: "unit MispClient" where
  "quiet_client =
     \<lparr>cl_version = ret ''2.4'', cl_organisation = ret ''o1'', cl_template = ret no_template, cl_search = (\<lambda>_. ret []),
      cl_add = (\<lambda>_. ret sample_remote), cl_edit = (\<lambda>_ _. ret sample_remote), cl_publish = (\<lambda>_. ret ()),
      cl_unpublish = (\<lambda>_. ret ()), cl_delete = (\<lambda>_. ret ()), cl_clusters = (\<lambda>_. ret [])\<rparr>"

definition sample_probe :: "unit Probe" where
  "sample_probe = \<lparr>pr_block = sample_block, pr_client = Some quiet_client, pr_org = Some ''o1'',
     pr_template = Some \<lparr>tv_found = True, tv_version = Some 5, tv_relations = required_template_relations, tv_types = None\<rparr>,
     pr_error = None, pr_mismatch = False\<rparr>"

definition empty_engine :: "unit EngineState" where
  "empty_engine = \<lparr>es_ledger = [], es_file = None, es_remote = ()\<rparr>"

lemma remote_ret [simp]: "on_remote (ret x) = ret x"
  by (simp add: on_remote_def ret_def fun_eq_iff)

lemma try_ret [simp]: "try_refused (ret x) = ret (Inr x)"
  by (simp add: try_refused_def ret_def fun_eq_iff)

lemma attempt_ret [simp]: "attempt (ret x) stop = ret (Inr x)"
  by (simp add: attempt_def)

lemma proceed_ret [simp]: "proceed (ret (Inr x)) f = f x" "proceed (ret (Inl r)) f = ret r"
  by (simp_all add: proceed_def)

lemma sample_built:
  "\<exists>e. build_event sample_tags sample_document tags = Inr \<lparr>be_event = Some e, be_reason = None, be_relations = [], be_sources = []\<rparr>"
  by (simp add: build_event_def require_def valid_family_def valid_name_def doc_family_def doc_schema_id_def
        doc_metadata_def doc_name_def non_empty_str_def sample_document_def sample_tags_def dget_dict_def dget_str_def
        py_partition_def object_families_def valid_tlp_def doc_uuid_def pap_tag_def doc_relations_def
        sample_version py_strip_def py_lstrip_def py_rstrip_def is_py_space_def cluster_sources_def doc_techniques_def
        del: version_text.simps)

lemma sample_prepare:
  "\<exists>e. prepare sample_env sample_probe quiet_client [] sample_document =
     ret (Inr \<lparr>pp_org = ''o1'', pp_uuid = ''u'', pp_event = e, pp_notes = []\<rparr>)"
proof -
  obtain e where e: "build_event sample_tags sample_document [] = Inr \<lparr>be_event = Some e, be_reason = None, be_relations = [], be_sources = []\<rparr>"
    using sample_built by blast
  have org: "checked_organisation sample_probe sample_document = Inr ''o1''"
    by (simp add: checked_organisation_def document_organisation_def block_organisation_def sample_probe_def sample_block_def
        py_lower_def lower_char_def)
  have fam: "doc_uuid sample_document = Some ''u''"
    by (simp add: doc_uuid_def non_empty_str_def doc_metadata_def sample_document_def dget_dict_def dget_str_def)
  have tpl: "template_problem (pr_template sample_probe) f = (None, None)" for f
    by (simp add: template_problem_def sample_probe_def required_template_relations_def opentide_template_version_def)
  have env: "ev_voc sample_env = sample_tags" by (simp add: sample_env_def)
  show ?thesis
    by (rule exI [of _ e])
      (simp add: prepare_def org built_event_def env e built_or_failed_def tpl resolve_clusters_def fam relation_notes_def)
qed

lemma sample_synced_triple:
  "triple_of (synced_line sample_env sample_document sample_block remote published org) = Some (''u'', ''misp'', ''t'')"
  by (simp add: triple_of_def identity_value_def dget_str_def dget_none_map_of dget_synced_line opt_str_def sample_block_def
      integration_misp_def doc_uuid_def non_empty_str_def doc_metadata_def sample_document_def dget_dict_def)

lemma quiet_simps [simp]:
  "cl_search quiet_client u = ret []" "cl_add quiet_client e = ret sample_remote"
  by (simp_all add: quiet_client_def)

lemma sample_upsert:
  "\<exists>r s'. upsert sample_env sample_probe quiet_client False [] sample_document empty_engine = (Inr r, s')
     \<and> sr_action r = ''created''"
proof -
  let ?line = "synced_line sample_env sample_document sample_block sample_remote False ''o1''"
  obtain e where e: "prepare sample_env sample_probe quiet_client [] sample_document =
     ret (Inr \<lparr>pp_org = ''o1'', pp_uuid = ''u'', pp_event = e, pp_notes = []\<rparr>)"
    using sample_prepare by blast
  have b: "pr_block sample_probe = sample_block" by (simp add: sample_probe_def)
  obtain s1 where "put_and_save sample_env ?line empty_engine = (Inr (), s1)"
    by (simp add: put_and_save_def ledger_put_def sample_synced_triple save_action_def case_prod_unfold Let_def)
  then have "remember_and_record sample_env sample_document sample_block ''created'' [] ''o1'' sample_remote False empty_engine
      = (Inr (remote_record sample_document sample_block ''created'' [] sample_remote), s1)"
    by (simp add: remember_and_record_def andthen_def ret_run)
  then show ?thesis
    by (simp add: upsert_def e b matched_events_def write_event_def publish_and_remember_def Let_def)
qed

theorem push_keeps_the_ledger_true_witness:
  "\<exists>r s'. upsert sample_env sample_probe quiet_client False [] sample_document empty_engine = (Inr r, s')
     \<and> (\<exists>line. ledger_get (es_ledger s') (''u'', ''misp'', ''t'') = Some line \<and> dget_none line ''state'' = PStr ''synced'')"
proof -
  obtain r s' where u: "upsert sample_env sample_probe quiet_client False [] sample_document empty_engine = (Inr r, s')"
    "sr_action r = ''created''" using sample_upsert by blast
  have "doc_uuid sample_document = Some ''u''"
    by (simp add: doc_uuid_def non_empty_str_def doc_metadata_def sample_document_def dget_dict_def dget_str_def)
  then show ?thesis using push_keeps_the_ledger_true [OF u(1)] u
    by (auto simp: object_triple_def sample_probe_def sample_block_def integration_misp_def)
qed

theorem preview_after_push_is_unchanged_witness:
  "\<exists>s' :: unit EngineState. predict sample_env (es_ledger s') sample_document ''u'' sample_block False = ''unchanged''"
proof -
  obtain r s' where u: "upsert sample_env sample_probe quiet_client False [] sample_document empty_engine = (Inr r, s')"
    "sr_action r = ''created''" using sample_upsert by blast
  then have "sr_action r \<noteq> ''failed''" by simp
  from preview_after_push_is_unchanged [OF u(1) this] show ?thesis
    by (auto simp: sample_probe_def doc_uuid_def non_empty_str_def doc_metadata_def sample_document_def dget_dict_def dget_str_def)
qed

theorem push_respects_the_ceiling_witness:
  "\<exists>rs s'. push_block sample_env None None [sample_document\<lparr>doc_error := Some ''yaml''\<rparr>] sample_probe empty_engine = (Inr rs, s')
     \<and> length rs = 1"
proof -
  let ?d = "sample_document\<lparr>doc_error := Some ''yaml''\<rparr>"
  obtain rs s' where p: "push_block sample_env None None [?d] sample_probe empty_engine = (Inr rs, s')"
    by (simp add: push_block_def local_verdict_def sample_probe_def Let_def andthen_def ret_def)
  have "list_all (\<lambda>(name, tag). name \<in> set tlp_order) (voc_tlp (ev_voc sample_env))"
    by (simp add: sample_env_def sample_tags_def tlp_order_def)
  from push_respects_the_ceiling [OF p this] have "mset (map sr_uuid rs) = mset (map shared_name [?d])" by blast
  then have "size (mset (map sr_uuid rs)) = size (mset (map shared_name [?d]))" by (rule arg_cong)
  with p show ?thesis by auto
qed

theorem retraction_keeps_the_ledger_true_witness:
  "\<exists>r s'. retract_one sample_env sample_block quiet_client False [] ''u''
       (empty_engine\<lparr>es_ledger := [Line sample_record]\<rparr>) = (Inr r, s')
     \<and> ledger_get (es_ledger s') (''v'', ''misp'', ''t'') = None"
proof -
  let ?s = "empty_engine\<lparr>es_ledger := [Line sample_record]\<rparr>" and ?t = "object_triple ''u'' sample_block"
  have l: "ledger_get [Line sample_record] ?t = Some sample_record"
    by (simp add: ledger_get_def sample_triple object_triple_def integration_misp_def sample_block_def)
  have org: "retract_organisation sample_block None (Some sample_record) = Some ''o1''"
    by (simp add: retract_organisation_def block_organisation_def sample_block_def py_lower_def lower_char_def)
  obtain s1 where "discard_and_save sample_env ?t ?s = (Inr (), s1)"
    by (cases "list_ex (\<lambda>e. entry_triple e = Some ?t) (es_ledger ?s)")
      (simp_all add: discard_and_save_def ledger_discard_def save_action_def case_prod_unfold Let_def)
  then have d: "andthen (discard_and_save sample_env ?t) f ?s = f () s1" for f :: "unit \<Rightarrow> (unit EngineState, ShareRecord option) action"
    by (simp add: andthen_def)
  have r: "retract_one sample_env sample_block quiet_client False [] ''u'' ?s
      = (Inr (Some (bare_record ''u'' sample_block ''retracted'' None None [''remote_absent''] None None)), s1)"
    by (simp add: retract_one_def retract_found_def l org matched_events_def d ret_run)
  have other: "(''v'', ''misp'', ''t'') \<noteq> ?t" by (simp add: object_triple_def)
  have "ledger_get (es_ledger ?s) (''v'', ''misp'', ''t'') = None"
    by (simp add: ledger_get_def sample_triple)
  then have "ledger_get (es_ledger s1) (''v'', ''misp'', ''t'') = None"
    using retraction_keeps_the_ledger_true [OF r] other by simp
  with r show ?thesis by blast
qed

definition sample_options :: ShareOptions where
  "sample_options = \<lparr>op_filters = None, op_publish = None, op_workers = 1, op_delete = True, op_confirmed = False\<rparr>"

theorem preflight_shares_nothing_witness:
  "\<exists>run s'. run_misp sample_env (\<lambda>_. Inr quiet_client) Retract sample_options None [sample_document] [sample_block] empty_engine
       = (Inr run, s') \<and> exit_code run = 1"
proof -
  have r: "run_misp sample_env (\<lambda>_. Inr quiet_client) Retract sample_options None [sample_document] [sample_block] empty_engine
       = (Inr \<lparr>run_records = [], run_preflight = Some ''retract_unconfirmed''\<rparr>, empty_engine)"
    by (simp add: run_misp_def sample_options_def sample_block_def preflight_stop_def ret_def)
  from preflight_shares_nothing [OF r] show ?thesis using r by simp
qed

theorem preview_and_status_are_offline_witness:
  "snd (run_misp sample_env (\<lambda>_. Inr quiet_client) Preview sample_options None [sample_document] [sample_block] empty_engine)
     = empty_engine"
  using preview_and_status_are_offline [of Preview sample_env "\<lambda>_. Inr quiet_client" sample_options None "[sample_document]"
      "[sample_block]" empty_engine "\<lambda>_. Inr quiet_client" None]
  by simp

end
