(* ===== verification/Promotion.thy ===== *)
theory Promotion
  imports Py_Prelude "HOL-Library.Product_Lexorder"
begin

text \<open>
  Status promotion, \<open>mutation/promotion.py\<close>: which platform blocks of a rule file are promoted, the
  exact spans of text that are replaced, and the files a run writes. YAML (the node tree of \<open>yaml.compose\<close>
  and the value of \<open>yaml.safe_load\<close>) and \<open>json.dumps\<close> are parameters; a loaded value says which of its
  mappings are one object, as an anchor and its aliases load. Bytes are characters; text is UTF-8 of the characters
  of the model.
\<close>

section \<open>Errors and the node tree\<close>

datatype promotion_error =
    PromotionRefused
  | BadRule
  | Undecodable
  | LookupFailed
  | BadConfiguration
  | WriteFailed
  | Exit nat

datatype ynode =
    YScalar (y_id: nat) (y_tag: string) (y_text: string) (y_start: nat) (y_end: nat)
  | YMapping (y_id: nat) (y_tag: string) (y_items: "(ynode \<times> ynode) list")
  | YSequence (y_id: nat) (y_tag: string) (y_nodes: "ynode list")

text \<open>
  A loaded value. A mapping or a sequence has the identity of its Python object: an alias loads as the object
  of its anchor, so the mappings with one identity change together. (A mapping that contains itself is not
  modelled.)
\<close>

datatype lval = LAtom pyval | LSeq nat "lval list" | LMap nat "(pyval \<times> lval) list"

lemma lval_size_pair [termination_simp]:
  "(k, v) \<in> set kvs \<Longrightarrow> size (v :: lval) < Suc (size_list (size_prod size size) kvs)"
  by (induction kvs) auto

fun value_of :: "lval \<Rightarrow> pyval" where
  "value_of (LAtom v) = v"
| "value_of (LSeq i xs) = PList (map value_of xs)"
| "value_of (LMap i kvs) = PDict (map (\<lambda>(k, v). (k, value_of v)) kvs)"

text \<open>\<open>d[key] = w\<close> for the dictionary object \<open>i\<close>, wherever it occurs.\<close>

fun set_shared :: "nat \<Rightarrow> pyval \<Rightarrow> lval \<Rightarrow> lval \<Rightarrow> lval" where
  "set_shared i key w (LAtom v) = LAtom v"
| "set_shared i key w (LSeq j xs) = LSeq j (map (set_shared i key w) xs)"
| "set_shared i key w (LMap j kvs) =
     (let kvs' = map (\<lambda>(k, v). (k, set_shared i key w v)) kvs
      in LMap j (if j = i then AList.update key w kvs' else kvs'))"

record Yaml =
  y_compose :: "string \<Rightarrow> ynode option"
  y_objects :: "string \<Rightarrow> lval option"
  y_dumps :: "string \<Rightarrow> string"

definition y_load :: "Yaml \<Rightarrow> string \<Rightarrow> pyval option" where
  "y_load yaml text = map_option value_of (y_objects yaml text)"

definition merge_tag :: string where
  "merge_tag = ''tag:yaml.org,2002:merge''"

definition str_tag :: string where
  "str_tag = ''tag:yaml.org,2002:str''"

text \<open>\<open>node.value\<close> of a scalar; the value of a mapping or a sequence is a list.\<close>

fun scalar_text :: "ynode \<Rightarrow> string option" where
  "scalar_text (YScalar i tag s a b) = Some s"
| "scalar_text _ = None"

section \<open>Spans\<close>

type_synonym span = "nat \<times> nat \<times> string option"

definition promotable_scalar :: "string list \<Rightarrow> ynode \<Rightarrow> ynode \<Rightarrow> bool" where
  "promotable_scalar statuses field v =
     (scalar_text field = Some ''status''
    \<and> (case v of YScalar i tag s a b \<Rightarrow> tag = str_tag \<and> s \<in> set statuses | _ \<Rightarrow> False))"

text \<open>The fields of one block: the spans and the nodes seen so far.\<close>

definition field_span ::
  "string \<Rightarrow> string list \<Rightarrow> string option \<Rightarrow> span list \<times> nat list \<Rightarrow> ynode \<times> ynode
   \<Rightarrow> promotion_error + span list \<times> nat list" where
  "field_span text statuses platform acc item =
     (let (field, v) = item; (spans, seen) = acc in
      if \<not> promotable_scalar statuses field v then Inr acc
      else if y_id v \<in> set seen \<or> (y_start v < length text \<and> text ! y_start v \<in> {CHR ''&'', CHR ''*''})
      then Inl PromotionRefused
      else Inr (spans @ [(y_start v, y_end v, platform)], y_id v # seen))"

definition block_spans ::
  "string \<Rightarrow> string list \<Rightarrow> bool \<Rightarrow> span list \<times> nat list \<Rightarrow> ynode \<times> ynode
   \<Rightarrow> promotion_error + span list \<times> nat list" where
  "block_spans text statuses merged acc item =
     (let (platform, block) = item in
      if merged \<or> y_tag platform = merge_tag then Inl PromotionRefused
      else (case block of
              YMapping i tag items \<Rightarrow>
                if list_ex (\<lambda>(field, v). y_tag field = merge_tag) items then Inl PromotionRefused
                else rfold (field_span text statuses (scalar_text platform)) acc items
            | _ \<Rightarrow> Inr acc))"

definition root_spans ::
  "string \<Rightarrow> string list \<Rightarrow> span list \<times> nat list \<Rightarrow> ynode \<times> ynode \<Rightarrow> promotion_error + span list \<times> nat list" where
  "root_spans text statuses acc item =
     (let (key, configurations) = item in
      (case configurations of
         YMapping i tag items \<Rightarrow>
           if scalar_text key = Some ''configurations''
           then rfold (block_spans text statuses (y_tag key = merge_tag)) acc items else Inr acc
       | _ \<Rightarrow> Inr acc))"

definition status_spans :: "string \<Rightarrow> string list \<Rightarrow> ynode option \<Rightarrow> promotion_error + span list" where
  "status_spans text statuses root =
     (case root of
        Some (YMapping i tag items) \<Rightarrow> rbind (rfold (root_spans text statuses) ([], []) items) (\<lambda>acc. Inr (fst acc))
      | _ \<Rightarrow> Inr [])"

section \<open>Rewriting\<close>

definition splice_span :: "string \<Rightarrow> string \<Rightarrow> span \<Rightarrow> string" where
  "splice_span replacement text span = (let (a, b, platform) = span in take a text @ replacement @ drop b text)"

definition span_key :: "span \<Rightarrow> nat \<times> nat \<times> string" where
  "span_key span = (let (a, b, platform) = span in (a, b, case platform of None \<Rightarrow> [] | Some p \<Rightarrow> p))"

definition replace_spans :: "string \<Rightarrow> string \<Rightarrow> span list \<Rightarrow> string" where
  "replace_spans replacement text spans = foldl (splice_span replacement) text (rev (sort_key span_key spans))"

text \<open>\<open>expected['configurations'][platform]['status'] = target\<close>; a lookup that fails raises.\<close>

definition child_at :: "string \<Rightarrow> lval \<Rightarrow> lval option" where
  "child_at key v = (case v of LMap i kvs \<Rightarrow> map_of kvs (PStr key) | _ \<Rightarrow> None)"

definition block_id :: "lval \<Rightarrow> string \<Rightarrow> nat option" where
  "block_id doc p =
     (case child_at ''configurations'' doc of
        None \<Rightarrow> None
      | Some configurations \<Rightarrow>
          (case child_at p configurations of Some (LMap i block) \<Rightarrow> Some i | _ \<Rightarrow> None))"

definition set_status :: "string \<Rightarrow> lval \<Rightarrow> span \<Rightarrow> promotion_error + lval" where
  "set_status target doc span =
     (let (a, b, platform) = span in
      case platform of
        None \<Rightarrow> Inl LookupFailed
      | Some p \<Rightarrow>
          (case block_id doc p of
             None \<Rightarrow> Inl LookupFailed
           | Some i \<Rightarrow> Inr (set_shared i (PStr ''status'') (LAtom (PStr target)) doc)))"

lemma pyval_size_zip [termination_simp]:
  "(x, y) \<in> set (zip xs ys) \<Longrightarrow> size (x :: pyval) < Suc (size_list size xs)"
  by (drule set_zip_leftD) (metis less_Suc_eq_le order_refl size_list_estimation')

text \<open>\<open>==\<close> on loaded values: dictionaries are compared without their order.\<close>

fun same_value :: "pyval \<Rightarrow> pyval \<Rightarrow> bool" where
  "same_value (PDict a) (PDict b) =
     (set (map fst a) = set (map fst b)
    \<and> list_all (\<lambda>(k, v). case map_of b k of None \<Rightarrow> False | Some w \<Rightarrow> same_value v w) a)"
| "same_value (PList xs) (PList ys) = (length xs = length ys \<and> list_all (\<lambda>(x, y). same_value x y) (zip xs ys))"
| "same_value v w = (v = w)"

definition loaded :: "Yaml \<Rightarrow> string \<Rightarrow> promotion_error + lval" where
  "loaded yaml text = (case y_objects yaml text of None \<Rightarrow> Inl BadRule | Some v \<Rightarrow> Inr v)"

definition promote_block_statuses :: "Yaml \<Rightarrow> string \<Rightarrow> string list \<Rightarrow> string \<Rightarrow> promotion_error + string" where
  "promote_block_statuses yaml text statuses target =
     rbind (status_spans text statuses (y_compose yaml text)) (\<lambda>spans.
       if spans = [] then Inr text
       else
         rbind (loaded yaml target) (\<lambda>t.
         rbind (loaded yaml text) (\<lambda>original.
         rbind (rfold (set_status target) original spans) (\<lambda>expected.
           let replacement = (if value_of t = PStr target then target else y_dumps yaml target);
               promoted = replace_spans replacement text spans
           in rbind (loaded yaml promoted) (\<lambda>value.
                if \<not> same_value (value_of value) (value_of expected) then Inl PromotionRefused else Inr promoted)))))"

section \<open>Bytes\<close>

definition bom :: string where
  "bom = [CHR 0xEF, CHR 0xBB, CHR 0xBF]"

definition utf8_char :: "char \<Rightarrow> string" where
  "utf8_char c = (let n = (of_char c :: nat) in
     if n < 128 then [c] else [char_of (192 + n div 64), char_of (128 + n mod 64)])"

definition utf8_encode :: "string \<Rightarrow> string" where
  "utf8_encode s = concat (map utf8_char s)"

fun utf8_decode :: "string \<Rightarrow> string option" where
  "utf8_decode [] = Some []"
| "utf8_decode (c # cs) =
     (let n = (of_char c :: nat) in
      if n < 128 then map_option (Cons c) (utf8_decode cs)
      else case cs of
             d # ds \<Rightarrow>
               (let m = (of_char d :: nat) in
                if (n = 194 \<or> n = 195) \<and> 128 \<le> m \<and> m < 192
                then map_option (Cons (char_of (64 * (n - 192) + (m - 128)))) (utf8_decode ds)
                else None)
           | [] \<Rightarrow> None)"

text \<open>\<open>decode('utf-8-sig')\<close> and the bytes written back.\<close>

definition decode_sig :: "string \<Rightarrow> string option" where
  "decode_sig raw = utf8_decode (if starts_with bom raw then drop (length bom) raw else raw)"

definition encode_sig :: "bool \<Rightarrow> string \<Rightarrow> string" where
  "encode_sig marked text = (if marked then bom else []) @ utf8_encode text"

definition planned_statuses :: "Yaml \<Rightarrow> string \<Rightarrow> string \<Rightarrow> string list \<Rightarrow> promotion_error + string option" where
  "planned_statuses yaml target raw statuses =
     (case decode_sig raw of
        None \<Rightarrow> Inl Undecodable
      | Some text \<Rightarrow>
          (case promote_block_statuses yaml text statuses target of
             Inl PromotionRefused \<Rightarrow> Inr None
           | Inl e \<Rightarrow> Inl e
           | Inr promoted \<Rightarrow>
               if promoted = text then Inr None else Inr (Some (encode_sig (starts_with bom raw) promoted))))"

section \<open>A run\<close>

definition status_definitions :: "pydict \<Rightarrow> promotion_error + pyval list" where
  "status_definitions deployment =
     (case dget deployment ''statuses'' of
        Some (PList (s # ss)) \<Rightarrow> Inr (s # ss)
      | _ \<Rightarrow> Inl BadConfiguration)"

definition field_of :: "string \<Rightarrow> pyval \<Rightarrow> promotion_error + pyval" where
  "field_of key status =
     (case status of
        PDict d \<Rightarrow> if truthy (dget_none d key) then Inr (dget_none d key) else Inl BadConfiguration
      | _ \<Rightarrow> Inl BadConfiguration)"

definition valid_statuses :: "pydict \<Rightarrow> promotion_error + pyval list" where
  "valid_statuses deployment = rbind (status_definitions deployment) (rmap (field_of ''name''))"

definition non_promotable_strategies :: "pyval list" where
  "non_promotable_strategies = [PStr ''RELEASE'', PStr ''DELETION'', PStr ''DISABLEMENT'']"

definition add_non_promotable :: "pyval list \<Rightarrow> pyval \<Rightarrow> promotion_error + pyval list" where
  "add_non_promotable found status =
     rbind (field_of ''strategy'' status) (\<lambda>strategy.
     rbind (field_of ''name'' status) (\<lambda>name.
       Inr (if strategy \<in> set non_promotable_strategies then found @ [name] else found)))"

definition non_promotable_statuses :: "pydict \<Rightarrow> promotion_error + pyval list" where
  "non_promotable_statuses deployment = rbind (status_definitions deployment) (rfold add_non_promotable [])"

text \<open>\<open>system_promotion\<close>: the string statuses of the platform blocks that may be promoted.\<close>

definition block_status :: "pyval \<Rightarrow> string option" where
  "block_status block = (case block of PDict b \<Rightarrow> dget_str b ''status'' | _ \<Rightarrow> None)"

definition system_promotion :: "pyval list \<Rightarrow> pydict \<Rightarrow> string list" where
  "system_promotion fixed data =
     (case dget_none data ''configurations'' of
        PDict conf \<Rightarrow> filter (\<lambda>s. PStr s \<notin> set fixed) (List.map_filter (\<lambda>(system, block). block_status block) conf)
      | _ \<Rightarrow> [])"

text \<open>The settings, and the rule files of \<open>local_rule_files\<close>, which a debug run promotes.\<close>

record Promotion =
  pm_enabled :: bool
  pm_debug :: bool
  pm_local :: "string list"
  pm_target :: string
  pm_valid :: "pyval list"
  pm_fixed :: "pyval list"

type_synonym files = "(string \<times> string) list"

text \<open>The YAML reader skips a byte-order mark, and line endings do not change a value.\<close>

definition plan_file ::
  "Yaml \<Rightarrow> Promotion \<Rightarrow> files \<Rightarrow> files \<Rightarrow> string \<Rightarrow> promotion_error + files" where
  "plan_file yaml pm fs planned path =
     (case map_of fs path of
        None \<Rightarrow> Inl LookupFailed
      | Some raw \<Rightarrow>
          (case decode_sig raw of
             None \<Rightarrow> Inl Undecodable
           | Some text \<Rightarrow>
               (case y_load yaml text of
                  Some (PDict data) \<Rightarrow>
                    if dget data ''name'' = None then Inl LookupFailed
                    else if system_promotion (pm_fixed pm) data = [] then Inr planned
                    else rbind (planned_statuses yaml (pm_target pm) raw (system_promotion (pm_fixed pm) data)) (\<lambda>r.
                           Inr (case r of None \<Rightarrow> planned | Some bytes \<Rightarrow> planned @ [(path, bytes)]))
                | Some _ \<Rightarrow> Inl LookupFailed
                | None \<Rightarrow> Inl BadRule)))"

text \<open>
  The writes, one file after the other; \<open>io\<close> says of each, by its number, whether the operating system lets it
  happen. A write goes to a temporary file that is renamed, or removed when the write fails, so a file has its old or
  its new bytes.
\<close>

fun write_planned :: "(nat \<Rightarrow> bool) \<Rightarrow> nat \<Rightarrow> files \<Rightarrow> files \<Rightarrow> (promotion_error + unit) \<times> files" where
  "write_planned io n [] fs = (Inr (), fs)"
| "write_planned io n ((path, bytes) # planned) fs =
     (if io n then write_planned io (Suc n) planned (AList.update path bytes fs) else (Inl WriteFailed, fs))"

definition promoted_paths :: "Promotion \<Rightarrow> string list \<Rightarrow> string list" where
  "promoted_paths pm deployment = (if pm_debug pm then pm_local pm else deployment)"

definition promote :: "Yaml \<Rightarrow> Promotion \<Rightarrow> (nat \<Rightarrow> bool) \<Rightarrow> string list \<Rightarrow> files \<Rightarrow> (promotion_error + unit) \<times> files" where
  "promote yaml pm io deployment fs =
     (if \<not> pm_enabled pm then (Inr (), fs)
      else if PStr (pm_target pm) \<notin> set (pm_valid pm) then (Inl (Exit 1), fs)
      else
        (case rfold (plan_file yaml pm fs) [] (promoted_paths pm deployment) of
           Inl e \<Rightarrow> (Inl e, fs)
         | Inr planned \<Rightarrow> write_planned io 0 planned fs))"

text \<open>\<open>edit_mdr_statuses\<close>: one file, with the statuses to promote given.\<close>

definition edit_mdr_statuses ::
  "Yaml \<Rightarrow> string \<Rightarrow> (nat \<Rightarrow> bool) \<Rightarrow> string \<Rightarrow> string list \<Rightarrow> files \<Rightarrow> (promotion_error + unit) \<times> files" where
  "edit_mdr_statuses yaml target io path statuses fs =
     (case map_of fs path of
        None \<Rightarrow> (Inl LookupFailed, fs)
      | Some raw \<Rightarrow>
          (case planned_statuses yaml target raw statuses of
             Inl e \<Rightarrow> (Inl e, fs)
           | Inr None \<Rightarrow> (Inr (), fs)
           | Inr (Some bytes) \<Rightarrow> write_planned io 0 [(path, bytes)] fs))"

section \<open>What is rewritten\<close>

fun spaced :: "nat \<Rightarrow> span list \<Rightarrow> bool" where
  "spaced n [] = True"
| "spaced n ((a, b, p) # rest) = (n \<le> a \<and> a \<le> b \<and> spaced b rest)"

text \<open>The text between the spans, with the replacement in their place.\<close>

fun weave :: "string \<Rightarrow> string \<Rightarrow> nat \<Rightarrow> span list \<Rightarrow> string" where
  "weave replacement text n [] = drop n text"
| "weave replacement text n ((a, b, p) # rest) = take (a - n) (drop n text) @ replacement @ weave replacement text b rest"

lemma splice_span_apply: "splice_span replacement body (a, b, p) = take a body @ replacement @ drop b body"
  by (simp add: splice_span_def)

lemma splice_weave:
  "spaced n spans \<Longrightarrow> list_all (\<lambda>(a, b, p). b \<le> length text) spans \<Longrightarrow> n \<le> length text \<Longrightarrow>
   foldl (splice_span replacement) text (rev spans) = take n text @ weave replacement text n spans"
proof (induction replacement "text" n spans rule: weave.induct)
  case (2 replacement body n a b p rest)
  then have ih: "foldl (splice_span replacement) body (rev rest) = take b body @ weave replacement body b rest"
    and le: "n \<le> a" "a \<le> b" "b \<le> length body"
    by auto
  have "take a body = take n body @ take (a - n) (drop n body)"
    using le(1) by (metis le_add_diff_inverse take_add)
  then show ?case using ih le by (simp add: splice_span_apply min_def)
qed simp

text \<open>
  A promotion rewrites the spans and nothing else: replacing the spans one by one from the last to the
  first gives the text between them unchanged and in order, with the replacement in place of each, when the spans of the
  node tree are in range and do not overlap.
\<close>

theorem promotion_rewrites_only_the_spans:
  assumes "spaced 0 (sort_key span_key spans)" "list_all (\<lambda>(a, b, p). b \<le> length text) spans"
  shows "replace_spans replacement text spans = weave replacement text 0 (sort_key span_key spans)"
proof -
  have "list_all (\<lambda>(a, b, p). b \<le> length text) (sort_key span_key spans)"
    using assms(2) by (simp add: list_all_iff)
  from splice_weave [OF assms(1) this, of replacement] show ?thesis by (simp add: replace_spans_def)
qed

theorem promotion_rewrites_only_the_spans_witness:
  "replace_spans ''PROD'' ''a: DEV # x'' [(3, 6, Some ''splunk'')] = ''a: PROD # x''"
  using promotion_rewrites_only_the_spans [of "[(3, 6, Some ''splunk'')]" "''a: DEV # x''" "''PROD''"]
  by (simp add: numeral_eq_Suc)

section \<open>Bytes and text\<close>

lemma utf8_char_decode: "utf8_decode (utf8_char c @ bs) = map_option (Cons c) (utf8_decode bs)"
proof (cases "(of_char c :: nat) < 128")
  case True
  then show ?thesis by (simp add: utf8_char_def Let_def)
next
  case False
  define n where "n = (of_char c :: nat)"
  have n: "128 \<le> n" "n < 256" using False nat_of_char_less_256 [of c] by (simp_all add: n_def)
  have d: "n div 64 = 2 \<or> n div 64 = 3" using n by linarith
  have a: "of_char (char_of (192 + n div 64) :: char) = 192 + n div 64" "of_char (char_of (128 + n mod 64) :: char) = 128 + n mod 64"
    using d by (auto simp: of_char_of)
  have "64 * (n div 64) + n mod 64 = n" by simp
  then have "char_of (64 * (n div 64) + n mod 64) = c" by (simp add: n_def)
  then show ?thesis using False a d by (auto simp: utf8_char_def Let_def n_def [symmetric])
qed

lemma utf8_roundtrip: "utf8_decode (utf8_encode s) = Some s"
  by (induction s) (simp_all add: utf8_encode_def utf8_char_decode)

section \<open>What the values say\<close>

text \<open>The text, number or other leaf at a path through dictionaries and lists.\<close>

datatype ystep = AtKey pyval | AtIndex nat

fun leaf_at :: "ystep list \<Rightarrow> pyval \<Rightarrow> pyval option" where
  "leaf_at [] v = (case v of PDict _ \<Rightarrow> None | PList _ \<Rightarrow> None | _ \<Rightarrow> Some v)"
| "leaf_at (AtKey k # path) v =
     (case v of PDict d \<Rightarrow> (case map_of d k of None \<Rightarrow> None | Some w \<Rightarrow> leaf_at path w) | _ \<Rightarrow> None)"
| "leaf_at (AtIndex n # path) v =
     (case v of PList xs \<Rightarrow> if n < length xs then leaf_at path (xs ! n) else None | _ \<Rightarrow> None)"

text \<open>
  What is at a path once the status of some dictionary objects is the target: at the status of one of them, wherever
  it occurs, the target, and everywhere else what was there.
\<close>

fun promoted_leaf :: "nat set \<Rightarrow> string \<Rightarrow> ystep list \<Rightarrow> lval \<Rightarrow> pyval option" where
  "promoted_leaf ids target [] v = leaf_at [] (value_of v)"
| "promoted_leaf ids target (AtKey k # path) v =
     (case v of
        LMap i kvs \<Rightarrow>
          if i \<in> ids \<and> k = PStr ''status'' then leaf_at path (PStr target)
          else (case map_of kvs k of None \<Rightarrow> None | Some w \<Rightarrow> promoted_leaf ids target path w)
      | LAtom a \<Rightarrow> leaf_at (AtKey k # path) a
      | _ \<Rightarrow> None)"
| "promoted_leaf ids target (AtIndex n # path) v =
     (case v of
        LSeq i xs \<Rightarrow> if n < length xs then promoted_leaf ids target path (xs ! n) else None
      | LAtom a \<Rightarrow> leaf_at (AtIndex n # path) a
      | _ \<Rightarrow> None)"

lemma map_of_second: "map_of (map (\<lambda>(k, v). (k, f v)) kvs) k = map_option f (map_of kvs k)"
  by (induction kvs) auto

lemma promoted_leaf_none: "promoted_leaf {} target path v = leaf_at path (value_of v)"
  by (induction "{} :: nat set" target path v rule: promoted_leaf.induct)
    (auto simp: map_of_second split: lval.split option.split)

lemma promoted_leaf_set:
  "promoted_leaf ids target path (set_shared i (PStr ''status'') (LAtom (PStr target)) v)
     = promoted_leaf (insert i ids) target path v"
proof (induction ids target path v rule: promoted_leaf.induct)
  case (1 ids target v)
  then show ?case by (cases v) (simp_all add: Let_def)
next
  case (2 ids target k path v)
  have text_leaf: "promoted_leaf ids target path (LAtom (PStr target)) = leaf_at path (PStr target)"
  proof (cases path)
    case (Cons st rest)
    then show ?thesis by (cases st) simp_all
  qed simp
  show ?case
  proof (cases v)
    case (LMap j kvs)
    show ?thesis
    proof (cases "map_of kvs k")
      case None
      with LMap text_leaf show ?thesis by (auto simp: Let_def map_of_second)
    next
      case (Some w)
      with 2 [OF LMap] LMap text_leaf show ?thesis by (auto simp: Let_def map_of_second)
    qed
  qed simp_all
next
  case (3 ids target n path v)
  then show ?case by (cases v) (auto simp: Let_def)
qed

lemma same_value_leaf: "same_value v w \<Longrightarrow> leaf_at path v = leaf_at path w"
proof (induction path arbitrary: v w)
  case Nil
  then show ?case by (cases v; cases w) auto
next
  case (Cons st path)
  show ?case
  proof (cases st)
    case (AtKey k)
    show ?thesis
    proof (cases "\<exists>d. v = PDict d")
      case True
      then obtain d where v: "v = PDict d" by blast
      with Cons.prems obtain e where w: "w = PDict e" and keys: "set (map fst d) = set (map fst e)"
        and all: "list_all (\<lambda>(k, v). case map_of e k of None \<Rightarrow> False | Some w \<Rightarrow> same_value v w) d"
        by (cases w) auto
      show ?thesis
      proof (cases "map_of d k")
        case None
        with keys have "map_of e k = None" by (simp add: map_of_eq_None_iff)
        with None v w AtKey show ?thesis by simp
      next
        case (Some x)
        with all obtain y where "map_of e k = Some y" "same_value x y"
          by (fastforce simp: list_all_iff dest: map_of_SomeD split: option.splits)
        with Some v w AtKey Cons.IH show ?thesis by simp
      qed
    next
      case False
      with Cons.prems AtKey show ?thesis by (cases v; cases w) auto
    qed
  next
    case (AtIndex n)
    with Cons.prems show ?thesis
      by (cases v; cases w) (auto simp: list_all_iff set_zip intro!: Cons.IH, blast)
  qed
qed

text \<open>The block of a platform is the same object before and after the status of another one is set.\<close>

lemma child_at_set:
  "child_at key (set_shared i (PStr ''status'') w v) = Some x \<Longrightarrow>
     key = ''status'' \<and> x = w \<or> (\<exists>y. child_at key v = Some y \<and> x = set_shared i (PStr ''status'') w y)"
  by (cases v) (auto simp: child_at_def Let_def map_of_second split: if_splits)

lemma block_id_set:
  assumes "block_id (set_shared i (PStr ''status'') (LAtom (PStr target)) doc) p = Some j"
  shows "block_id doc p = Some j"
proof -
  let ?set = "set_shared i (PStr ''status'') (LAtom (PStr target))"
  from assms obtain c b where c: "child_at ''configurations'' (?set doc) = Some c" and b: "child_at p c = Some (LMap j b)"
    by (auto simp: block_id_def split: option.splits lval.splits)
  from child_at_set [OF c] obtain c0 where c0: "child_at ''configurations'' doc = Some c0" "c = ?set c0" by auto
  from child_at_set [OF b [unfolded c0(2)]] obtain y where y: "child_at p c0 = Some y" "LMap j b = ?set y" by auto
  then obtain b0 where "y = LMap j b0" by (cases y) (auto simp: Let_def)
  with c0 y show ?thesis by (simp add: block_id_def)
qed

text \<open>The blocks whose status is replaced.\<close>

definition promoted_ids :: "lval \<Rightarrow> span list \<Rightarrow> nat set" where
  "promoted_ids doc spans = {i. \<exists>a b p. (a, b, Some p) \<in> set spans \<and> block_id doc p = Some i}"

definition blocks_found :: "lval \<Rightarrow> span list \<Rightarrow> bool" where
  "blocks_found doc spans = list_all (\<lambda>(a, b, platform). \<exists>p i. platform = Some p \<and> block_id doc p = Some i) spans"

lemma promoted_ids_Cons:
  "block_id doc p = Some i \<Longrightarrow> promoted_ids doc ((a, b, Some p) # spans) = insert i (promoted_ids doc spans)"
  by (auto simp: promoted_ids_def)

lemma set_status_Inr:
  "set_status target doc (a, b, platform) = Inr doc' \<longleftrightarrow>
     (\<exists>p i. platform = Some p \<and> block_id doc p = Some i
        \<and> doc' = set_shared i (PStr ''status'') (LAtom (PStr target)) doc)"
  by (auto simp: set_status_def split: option.splits)

lemma set_statuses_leaf:
  assumes "rfold (set_status target) doc spans = Inr doc'"
  shows "blocks_found doc spans
    \<and> (\<forall>ids path. promoted_leaf ids target path doc' = promoted_leaf (ids \<union> promoted_ids doc spans) target path doc)"
  using assms
proof (induction spans arbitrary: doc)
  case Nil
  then show ?case by (simp add: blocks_found_def promoted_ids_def)
next
  case (Cons span spans)
  obtain a b platform where span: "span = (a, b, platform)" by (metis prod_cases3)
  with Cons.prems obtain p i where p: "platform = Some p" "block_id doc p = Some i"
    and rest: "rfold (set_status target) (set_shared i (PStr ''status'') (LAtom (PStr target)) doc) spans = Inr doc'"
    by (auto simp: rbind_def set_status_Inr split: sum.splits)
  let ?d1 = "set_shared i (PStr ''status'') (LAtom (PStr target)) doc"
  note ih = Cons.IH [OF rest]
  have same: "block_id ?d1 q = block_id doc q" if mem: "(x, y, Some q) \<in> set spans" for x y q
  proof -
    obtain j where "block_id ?d1 q = Some j"
      using bspec [OF conjunct1 [OF ih, unfolded blocks_found_def list_all_iff] mem] by auto
    then show ?thesis using block_id_set by metis
  qed
  have ids: "promoted_ids ?d1 spans = promoted_ids doc spans"
    unfolding promoted_ids_def using same by (intro Collect_cong) metis
  have found: "blocks_found doc spans"
    unfolding blocks_found_def list_all_iff
  proof (intro ballI, clarify)
    fix x y platform
    assume mem: "(x, y, platform) \<in> set spans"
    with conjunct1 [OF ih] obtain q where "platform = Some q" by (fastforce simp: blocks_found_def list_all_iff)
    moreover obtain j where "block_id ?d1 q = Some j"
      using bspec [OF conjunct1 [OF ih, unfolded blocks_found_def list_all_iff] mem] calculation by auto
    ultimately show "\<exists>p i. platform = Some p \<and> block_id doc p = Some i" using block_id_set by blast
  qed
  have "promoted_leaf S target path doc' = promoted_leaf (S \<union> promoted_ids doc (span # spans)) target path doc" for S path
    using ih ids by (simp add: span p promoted_ids_Cons promoted_leaf_set)
  with found show ?case using span p by (auto simp: blocks_found_def)
qed

text \<open>
  C21: What a promoted file says: the block of every platform whose status was replaced is found in the file, and at
  every path through dictionaries and lists the promoted file has the leaf that the file had before, but at the
  status of one of those blocks, where it has the promotion target. A block that is anchored is one object with its
  aliases, so its status is the target wherever an alias stands, also outside \<open>configurations\<close>. A rewrite for
  which this would not hold is refused.
\<close>

theorem promotion_changes_only_statuses:
  assumes "promote_block_statuses yaml doc statuses target = Inr promoted" "promoted \<noteq> doc"
  shows "\<exists>spans before after.
     status_spans doc statuses (y_compose yaml doc) = Inr spans
   \<and> y_objects yaml doc = Some before \<and> y_load yaml promoted = Some after
   \<and> spans \<noteq> [] \<and> blocks_found before spans
   \<and> (\<forall>path. leaf_at path after = promoted_leaf (promoted_ids before spans) target path before)
   \<and> (\<forall>path. promoted_leaf {} target path before = leaf_at path (value_of before))"
proof -
  from assms obtain spans before expected after where p:
    "status_spans doc statuses (y_compose yaml doc) = Inr spans" "y_objects yaml doc = Some before" "spans \<noteq> []"
    "rfold (set_status target) before spans = Inr expected" "y_objects yaml promoted = Some after"
    "same_value (value_of after) (value_of expected)"
    by (auto simp: promote_block_statuses_def rbind_Inr loaded_def Let_def split: if_splits option.splits)
  have "leaf_at path (value_of after) = promoted_leaf (promoted_ids before spans) target path before" for path
    using same_value_leaf [OF p(6), of path] set_statuses_leaf [OF p(4)]
    by (simp add: promoted_leaf_none [symmetric, of _ _ target])
  with p set_statuses_leaf [OF p(4)] show ?thesis
    by (intro exI [of _ spans] exI [of _ before] exI [of _ "value_of after"]) (simp add: y_load_def promoted_leaf_none)
qed

section \<open>All or nothing\<close>

text \<open>The bytes a run writes for one file, if any.\<close>

definition new_bytes :: "Yaml \<Rightarrow> Promotion \<Rightarrow> files \<Rightarrow> string \<Rightarrow> promotion_error + string option" where
  "new_bytes yaml pm fs path = rbind (plan_file yaml pm fs [] path) (\<lambda>planned. Inr (map_of planned path))"

lemma plan_file_new:
  "plan_file yaml pm fs planned path =
     rbind (new_bytes yaml pm fs path) (\<lambda>r. Inr (planned @ (case r of None \<Rightarrow> [] | Some bytes \<Rightarrow> [(path, bytes)])))"
proof -
  have "rbind (rbind m (\<lambda>r. Inr (case r of None \<Rightarrow> [] | Some bytes \<Rightarrow> [] @ [(path, bytes)]))) (\<lambda>planned. Inr (map_of planned path)) = m"
    for m :: "promotion_error + string option"
    by (cases m) (auto split: option.split)
  then show ?thesis
    unfolding new_bytes_def plan_file_def
    by (auto split: option.split pyval.split sum.split simp: rbind_def)
qed

lemma plan_files_new:
  "rfold (plan_file yaml pm fs) planned paths = Inr out \<Longrightarrow>
     out = planned @ concat (map (\<lambda>p. case new_bytes yaml pm fs p of Inr (Some bytes) \<Rightarrow> [(p, bytes)] | _ \<Rightarrow> []) paths)
   \<and> list_all (\<lambda>p. \<exists>r. new_bytes yaml pm fs p = Inr r) paths"
proof (induction paths arbitrary: planned)
  case (Cons p paths)
  then obtain r where r: "new_bytes yaml pm fs p = Inr r"
    by (auto simp: plan_file_new rbind_def split: sum.splits)
  with Cons.prems have "rfold (plan_file yaml pm fs) (planned @ (case r of None \<Rightarrow> [] | Some bytes \<Rightarrow> [(p, bytes)])) paths = Inr out"
    by (simp add: plan_file_new [of yaml pm fs planned p])
  from Cons.IH [OF this] r show ?case by (auto split: option.splits)
qed simp

text \<open>The writes that happen are those before the first that fails.\<close>

definition put_files :: "files \<Rightarrow> files \<Rightarrow> files" where
  "put_files planned fs = foldl (\<lambda>m (path, bytes). AList.update path bytes m) fs planned"

lemma put_files_get:
  "map_of (put_files planned fs) path = (case map_of (rev planned) path of Some b \<Rightarrow> Some b | None \<Rightarrow> map_of fs path)"
proof (induction planned arbitrary: fs)
  case (Cons w planned)
  obtain q b where [simp]: "w = (q, b)" by force
  have "put_files (w # planned) fs = put_files planned (AList.update q b fs)"
    by (simp add: put_files_def)
  then show ?case using Cons.IH [of "AList.update q b fs"] by (auto simp: map_add_def split: option.splits)
qed (simp add: put_files_def)

lemma write_planned_prefix:
  "\<exists>k \<le> length planned. snd (write_planned io n planned fs) = put_files (take k planned) fs
     \<and> (\<forall>i < k. io (n + i))
     \<and> fst (write_planned io n planned fs) = (if k = length planned then Inr () else Inl WriteFailed)
     \<and> (k < length planned \<longrightarrow> \<not> io (n + k))"
proof (induction io n planned fs rule: write_planned.induct)
  case (1 io n fs)
  then show ?case by (simp add: put_files_def)
next
  case (2 io n path bytes planned fs)
  show ?case
  proof (cases "io n")
    case True
    with 2 obtain k where k: "k \<le> length planned"
      "snd (write_planned io (Suc n) planned (AList.update path bytes fs)) = put_files (take k planned) (AList.update path bytes fs)"
      "\<forall>i < k. io (Suc n + i)"
      "fst (write_planned io (Suc n) planned (AList.update path bytes fs)) = (if k = length planned then Inr () else Inl WriteFailed)"
      "k < length planned \<longrightarrow> \<not> io (Suc n + k)" by blast
    have "\<forall>i < Suc k. io (n + i)"
    proof (intro allI impI)
      fix i assume "i < Suc k"
      with k(3) True show "io (n + i)" by (cases i) auto
    qed
    with k True show ?thesis by (intro exI [of _ "Suc k"]) (simp add: put_files_def)
  next
    case False
    then show ?thesis by (intro exI [of _ 0]) (simp add: put_files_def)
  qed
qed

text \<open>Planning has no exit status of its own.\<close>

lemma promote_block_no_exit: "promote_block_statuses yaml doc statuses target \<noteq> Inl (Exit n)"
proof -
  have field: "field_span t st p acc item \<noteq> Inl (Exit n)" for t st p acc item
    by (simp add: field_span_def split: prod.split)
  have fold: "rfold f acc xs \<noteq> Inl (Exit n)" if "\<And>a x. f a x \<noteq> Inl (Exit n)" for f :: "'a \<Rightarrow> 'b \<Rightarrow> promotion_error + 'a" and acc xs
    using that by (induction xs arbitrary: acc) (auto split: sum.split)
  have block: "block_spans t st m acc item \<noteq> Inl (Exit n)" for t st m acc item
    by (auto simp: block_spans_def fold field split: prod.split ynode.split)
  have root: "root_spans t st acc item \<noteq> Inl (Exit n)" for t st acc item
    by (auto simp: root_spans_def fold block split: prod.split ynode.split)
  have spans: "status_spans t st node \<noteq> Inl (Exit n)" for t st node
    by (auto simp: status_spans_def fold root rbind_def split: option.split ynode.split sum.split)
  have set: "rfold (set_status target) d xs \<noteq> Inl (Exit n)" for d xs
    by (rule fold) (simp add: set_status_def split: prod.split option.split)
  have load: "loaded yaml t \<noteq> Inl (Exit n)" for t
    by (simp add: loaded_def split: option.split)
  show ?thesis
    using spans set load by (auto simp: promote_block_statuses_def rbind_def Let_def split: sum.split)
qed

lemma plan_no_exit: "rfold (plan_file yaml pm fs) planned paths \<noteq> Inl (Exit n)"
proof (induction paths arbitrary: planned)
  case (Cons p paths)
  have "planned_statuses yaml target raw statuses \<noteq> Inl (Exit n)" for target raw statuses
    using promote_block_no_exit [of yaml _ statuses target n]
    by (auto simp: planned_statuses_def split: option.split sum.split promotion_error.split)
  then have "plan_file yaml pm fs planned p \<noteq> Inl (Exit n)"
    by (auto simp: plan_file_def rbind_def split: option.split sum.split pyval.split)
  with Cons show ?case by (auto split: sum.split)
qed simp

text \<open>
  C12: A promotion run plans every file before it writes one: a run that is disabled writes nothing; it stops with
  exit status 1 exactly when it is enabled and its target is not a status, and then, or when any of its files cannot be
  planned, no file is written. Otherwise the planned files are written in order, all of them unless the operating system
  refuses a write: then the run fails with that error, the files before it hold their promoted bytes, and that file and
  all others are as they were. A debug run takes the rule files of the checkout instead of those it is given.
\<close>

theorem promote_all_or_nothing:
  fixes pm :: Promotion and deployment :: "string list"
  assumes run: "promote yaml pm io deployment fs = (r, after)"
  defines "paths \<equiv> if pm_debug pm then pm_local pm else deployment"
  shows "(\<not> pm_enabled pm \<longrightarrow> r = Inr () \<and> after = fs)
   \<and> (r = Inl (Exit 1) \<longleftrightarrow> pm_enabled pm \<and> PStr (pm_target pm) \<notin> set (pm_valid pm))
   \<and> (r = Inl (Exit 1) \<longrightarrow> after = fs)
   \<and> (pm_enabled pm \<and> PStr (pm_target pm) \<in> set (pm_valid pm) \<longrightarrow>
       (case rfold (plan_file yaml pm fs) [] paths of
          Inl e \<Rightarrow> r = Inl e \<and> after = fs
        | Inr planned \<Rightarrow>
            planned = concat (map (\<lambda>p. case new_bytes yaml pm fs p of Inr (Some bytes) \<Rightarrow> [(p, bytes)] | _ \<Rightarrow> []) paths)
          \<and> (\<exists>k \<le> length planned.
              r = (if k = length planned then Inr () else Inl WriteFailed)
            \<and> (\<forall>i < k. io i) \<and> (k < length planned \<longrightarrow> \<not> io k)
            \<and> (\<forall>path. map_of after path =
                (if path \<in> fst ` set (take k planned)
                 then (case new_bytes yaml pm fs path of Inr (Some bytes) \<Rightarrow> Some bytes | _ \<Rightarrow> None)
                 else map_of fs path)))))"
proof (cases "pm_enabled pm \<and> PStr (pm_target pm) \<in> set (pm_valid pm)")
  case False
  then show ?thesis using run by (cases "pm_enabled pm") (auto simp: promote_def)
next
  case True
  have paths: "promoted_paths pm deployment = paths" by (simp add: promoted_paths_def paths_def)
  show ?thesis
  proof (cases "rfold (plan_file yaml pm fs) [] paths")
    case (Inl e)
    with True plan_no_exit [of yaml pm fs "[]" paths 1] run show ?thesis by (auto simp: promote_def paths)
  next
    case (Inr planned)
    have plan: "planned = concat (map (\<lambda>p. case new_bytes yaml pm fs p of Inr (Some bytes) \<Rightarrow> [(p, bytes)] | _ \<Rightarrow> []) paths)"
      using plan_files_new [OF Inr] by simp
    have new: "new_bytes yaml pm fs p = Inr (Some b)" if "(p, b) \<in> set planned" for p b
      using that unfolding plan by (auto split: sum.splits option.splits)
    have w: "write_planned io 0 planned fs = (r, after)" using run True Inr by (simp add: promote_def paths)
    obtain k where k: "k \<le> length planned" "after = put_files (take k planned) fs"
      "\<forall>i < k. io i" "r = (if k = length planned then Inr () else Inl WriteFailed)" "k < length planned \<longrightarrow> \<not> io k"
      using write_planned_prefix [of planned io 0 fs] by (auto simp: w)
    have after: "map_of (put_files (take k planned) fs) path =
        (if path \<in> fst ` set (take k planned)
         then (case new_bytes yaml pm fs path of Inr (Some bytes) \<Rightarrow> Some bytes | _ \<Rightarrow> None)
         else map_of fs path)" for path
    proof (cases "map_of (rev (take k planned)) path")
      case None
      then have "path \<notin> fst ` set (take k planned)" by (simp add: map_of_eq_None_iff)
      with None show ?thesis by (simp add: put_files_get)
    next
      case (Some b)
      then have "(path, b) \<in> set (take k planned)" by (auto dest: map_of_SomeD)
      with Some new [of path b] show ?thesis by (force simp: put_files_get dest: in_set_takeD)
    qed
    have "\<exists>k \<le> length planned. r = (if k = length planned then Inr () else Inl WriteFailed)
            \<and> (\<forall>i < k. io i) \<and> (k < length planned \<longrightarrow> \<not> io k)
            \<and> (\<forall>path. map_of after path =
                (if path \<in> fst ` set (take k planned)
                 then (case new_bytes yaml pm fs path of Inr (Some bytes) \<Rightarrow> Some bytes | _ \<Rightarrow> None)
                 else map_of fs path))"
      using k after by blast
    moreover have "r \<noteq> Inl (Exit 1)" using k(4) by simp
    ultimately show ?thesis using True plan unfolding Inr sum.case by blast
  qed
qed

text \<open>
  The bytes that are written decode to the promoted text, and a byte-order mark is kept exactly when the
  file had one.
\<close>

theorem promoted_bytes_decode:
  assumes "planned_statuses yaml target raw statuses = Inr (Some bytes)"
  shows "\<exists>doc promoted. decode_sig raw = Some doc \<and> promote_block_statuses yaml doc statuses target = Inr promoted
    \<and> promoted \<noteq> doc \<and> bytes = (if starts_with bom raw then bom else []) @ utf8_encode promoted
    \<and> utf8_decode (utf8_encode promoted) = Some promoted"
  using assms
  by (auto simp: planned_statuses_def encode_sig_def utf8_roundtrip split: option.splits sum.splits promotion_error.splits if_splits)

section \<open>A sample\<close>

definition sample_rule_text :: string where
  "sample_rule_text = ''c: DEV''"

definition sample_value :: "string \<Rightarrow> lval" where
  "sample_value status = LMap 0 [(PStr ''name'', LAtom (PStr ''r'')),
     (PStr ''configurations'', LMap 1 [(PStr ''splunk'', LMap 2 [(PStr ''status'', LAtom (PStr status))])]),
     (PStr ''copy'', LMap 2 [(PStr ''status'', LAtom (PStr status))])]"

definition sample_nodes :: ynode where
  "sample_nodes = YMapping 0 ''map''
     [(YScalar 1 str_tag ''configurations'' 0 0, YMapping 2 ''map''
        [(YScalar 3 str_tag ''splunk'' 0 0, YMapping 4 ''map''
           [(YScalar 5 str_tag ''status'' 0 1, YScalar 6 str_tag ''DEV'' 3 6)])])]"

definition sample_yaml :: Yaml where
  "sample_yaml =
     \<lparr>y_compose = (\<lambda>t. Some sample_nodes),
      y_objects = (\<lambda>t. if t = ''c: DEV'' then Some (sample_value ''DEV'') else
                    if t = ''c: PROD'' then Some (sample_value ''PROD'') else Some (LAtom (PStr t))),
      y_dumps = (\<lambda>_. [])\<rparr>"

lemma sample_spans: "status_spans ''c: DEV'' [''DEV''] (y_compose sample_yaml ''c: DEV'') = Inr [(3, 6, Some ''splunk'')]"
  by (simp add: status_spans_def sample_yaml_def sample_nodes_def root_spans_def block_spans_def field_span_def
      promotable_scalar_def str_tag_def merge_tag_def rbind_def numeral_eq_Suc)

lemma sample_promoted: "promote_block_statuses sample_yaml ''c: DEV'' [''DEV''] ''PROD'' = Inr ''c: PROD''"
proof -
  note sample_spans
  moreover have "replace_spans ''PROD'' ''c: DEV'' [(3, 6, Some ''splunk'')] = ''c: PROD''"
    by (simp add: replace_spans_def splice_span_def numeral_eq_Suc)
  ultimately show ?thesis
    by (simp add: promote_block_statuses_def loaded_def sample_yaml_def set_status_def block_id_def child_at_def sample_value_def Let_def)
qed

text \<open>
  The block of Splunk is anchored, and its alias stands under another key of the file: promoting the block changes
  that key too.
\<close>

theorem promotion_changes_only_statuses_witness:
  "leaf_at [AtKey (PStr ''copy''), AtKey (PStr ''status'')] (value_of (sample_value ''DEV'')) = Some (PStr ''DEV'')
   \<and> (\<exists>after. y_load sample_yaml ''c: PROD'' = Some after
      \<and> leaf_at [AtKey (PStr ''configurations''), AtKey (PStr ''splunk''), AtKey (PStr ''status'')] after = Some (PStr ''PROD'')
      \<and> leaf_at [AtKey (PStr ''copy''), AtKey (PStr ''status'')] after = Some (PStr ''PROD'')
      \<and> leaf_at [AtKey (PStr ''name'')] after = Some (PStr ''r''))"
proof -
  have before: "y_objects sample_yaml ''c: DEV'' = Some (sample_value ''DEV'')" by (simp add: sample_yaml_def)
  obtain after where p: "y_load sample_yaml ''c: PROD'' = Some after"
    "\<forall>path. leaf_at path after
       = promoted_leaf (promoted_ids (sample_value ''DEV'') [(3, 6, Some ''splunk'')]) ''PROD'' path (sample_value ''DEV'')"
    using promotion_changes_only_statuses [OF sample_promoted] before by (auto simp: sample_spans)
  have "promoted_ids (sample_value ''DEV'') [(3, 6, Some ''splunk'')] = {2}"
    by (auto simp: promoted_ids_def block_id_def child_at_def sample_value_def)
  with p(2) have "leaf_at path after = promoted_leaf {2} ''PROD'' path (sample_value ''DEV'')" for path by simp
  moreover have "promoted_leaf {2} ''PROD'' [AtKey (PStr ''configurations''), AtKey (PStr ''splunk''), AtKey (PStr ''status'')]
        (sample_value ''DEV'') = Some (PStr ''PROD'')"
    "promoted_leaf {2} ''PROD'' [AtKey (PStr ''copy''), AtKey (PStr ''status'')] (sample_value ''DEV'') = Some (PStr ''PROD'')"
    "promoted_leaf {2} ''PROD'' [AtKey (PStr ''name'')] (sample_value ''DEV'') = Some (PStr ''r'')"
    by (simp_all add: sample_value_def)
  moreover have "leaf_at [AtKey (PStr ''copy''), AtKey (PStr ''status'')] (value_of (sample_value ''DEV'')) = Some (PStr ''DEV'')"
    by (simp add: sample_value_def)
  ultimately show ?thesis using p(1) by (simp del: leaf_at.simps promoted_leaf.simps)
qed

definition sample_promotion :: Promotion where
  "sample_promotion = \<lparr>pm_enabled = True, pm_debug = False, pm_local = [], pm_target = ''PROD'', pm_valid = [PStr ''DEV'', PStr ''PROD''], pm_fixed = [PStr ''PROD'']\<rparr>"

lemma sample_decoded: "decode_sig ''c: DEV'' = Some ''c: DEV''"
  by (simp add: decode_sig_def bom_def)

lemma sample_planned: "planned_statuses sample_yaml ''PROD'' ''c: DEV'' [''DEV''] = Inr (Some ''c: PROD'')"
  by (simp add: planned_statuses_def sample_decoded sample_promoted encode_sig_def bom_def utf8_encode_def utf8_char_def)

theorem promoted_bytes_decode_witness:
  "\<exists>promoted. ''c: PROD'' = utf8_encode promoted \<and> promoted \<noteq> ''c: DEV''"
  using promoted_bytes_decode [OF sample_planned] sample_decoded by (auto simp: bom_def)

theorem promote_all_or_nothing_witness:
  "map_of (snd (promote sample_yaml sample_promotion (\<lambda>_. True) [''r.yaml''] [(''r.yaml'', ''c: DEV'')])) ''r.yaml'' = Some ''c: PROD''
   \<and> promote sample_yaml sample_promotion (\<lambda>_. False) [''r.yaml''] [(''r.yaml'', ''c: DEV'')] = (Inl WriteFailed, [(''r.yaml'', ''c: DEV'')])"
proof -
  have "system_promotion [PStr ''PROD''] [(PStr ''name'', PStr ''r''),
     (PStr ''configurations'', PDict [(PStr ''splunk'', PDict [(PStr ''status'', PStr ''DEV'')])]),
     (PStr ''copy'', PDict [(PStr ''status'', PStr ''DEV'')])] = [''DEV'']"
    by (simp add: system_promotion_def block_status_def dget_str_def map_filter_simps)
  then have plan: "plan_file sample_yaml sample_promotion [(''r.yaml'', ''c: DEV'')] [] ''r.yaml'' = Inr [(''r.yaml'', ''c: PROD'')]"
    using sample_planned
    by (simp add: plan_file_def sample_decoded sample_promotion_def sample_yaml_def sample_value_def y_load_def)
  then have new: "new_bytes sample_yaml sample_promotion [(''r.yaml'', ''c: DEV'')] ''r.yaml'' = Inr (Some ''c: PROD'')"
    by (simp add: new_bytes_def)
  have pm: "pm_enabled sample_promotion" "PStr (pm_target sample_promotion) \<in> set (pm_valid sample_promotion)"
    "\<not> pm_debug sample_promotion"
    by (simp_all add: sample_promotion_def)
  obtain r after where run: "promote sample_yaml sample_promotion (\<lambda>_. True) [''r.yaml''] [(''r.yaml'', ''c: DEV'')] = (r, after)"
    by force
  let ?w = "[(''r.yaml'', ''c: PROD'')]"
  have rf: "rfold (plan_file sample_yaml sample_promotion [(''r.yaml'', ''c: DEV'')]) [] [''r.yaml''] = Inr ?w"
    by (simp add: plan)
  have paths: "(if pm_debug sample_promotion then pm_local sample_promotion else [''r.yaml'']) = [''r.yaml'']" using pm(3) by simp
  from promote_all_or_nothing [OF run] pm(1,2) obtain k where k: "k \<le> length ?w" "k < length ?w \<longrightarrow> \<not> True"
    and after: "\<forall>path. map_of after path =
      (if path \<in> fst ` set (take k ?w)
       then (case new_bytes sample_yaml sample_promotion [(''r.yaml'', ''c: DEV'')] path of Inr (Some bytes) \<Rightarrow> Some bytes | _ \<Rightarrow> None)
       else map_of [(''r.yaml'', ''c: DEV'')] path)"
    unfolding paths rf sum.case by blast
  from k have "k = 1" by simp
  with spec [OF after, of "''r.yaml''"] new have "map_of after ''r.yaml'' = Some ''c: PROD''" by simp
  moreover have "promote sample_yaml sample_promotion (\<lambda>_. False) [''r.yaml''] [(''r.yaml'', ''c: DEV'')]
      = (Inl WriteFailed, [(''r.yaml'', ''c: DEV'')])"
    using plan pm by (simp add: promote_def promoted_paths_def)
  ultimately show ?thesis using run by simp
qed

end
