(* ===== verification/Deploy_Run.thy ===== *)
theory Deploy_Run
  imports External_Ids Effects
begin

text \<open>
  What the deployers under \<open>platforms/\<close> share. A run holds the world of \<open>External_Ids\<close> and the
  requests sent so far; the vendor is a parameter that answers a request from the requests before
  it, so that nothing is assumed of a tenant. An exception carries its class, the text
  \<open>describe_error\<close> gives it and the HTTP status it knows. The locale \<open>id_deployer\<close> states what
  a deployer that keeps vendor ids promises for one rule, and proves what a tenant's run then does.
\<close>

section \<open>Exceptions, responses, requests\<close>

datatype exn_class = Http_Error | Transport_Error | Tenant_Error | Rule_Error | Config_Error | Code_Error

record Exn =
  ex_class :: exn_class
  ex_text :: string
  ex_status :: "int option"

definition exn :: "exn_class \<Rightarrow> string \<Rightarrow> Exn" where
  "exn c text = \<lparr>ex_class = c, ex_text = text, ex_status = None\<rparr>"

text \<open>\<open>hr_json\<close> is \<open>response.json()\<close>, \<open>None\<close> when the body is not JSON.\<close>

record HttpResponse =
  hr_status :: int
  hr_json :: "pyval option"
  hr_text :: string
  hr_content_type :: string

record 'q DeployRun =
  dr_world :: World
  dr_calls :: "'q list"

type_synonym ('q, 'a) deploy = "('q DeployRun, Exn, 'a) effect"

type_synonym ('q, 'r) vendor = "'q list \<Rightarrow> 'q \<Rightarrow> Exn + 'r"

definition send :: "('q, 'r) vendor \<Rightarrow> 'q \<Rightarrow> ('q, 'r) deploy" where
  "send vendor q = (\<lambda>s. (vendor (dr_calls s) q, s\<lparr>dr_calls := dr_calls s @ [q]\<rparr>))"

definition on_world :: "(World \<Rightarrow> World) \<Rightarrow> ('q, unit) deploy" where
  "on_world f = update_state (\<lambda>s. s\<lparr>dr_world := f (dr_world s)\<rparr>)"

definition ask_world :: "(World \<Rightarrow> 'a \<times> World) \<Rightarrow> ('q, 'a) deploy" where
  "ask_world f = (\<lambda>s. let (x, w) = f (dr_world s) in (Inr x, s\<lparr>dr_world := w\<rparr>))"

definition on_events :: "(DeployEvents \<Rightarrow> DeployEvents) \<Rightarrow> World \<Rightarrow> World" where
  "on_events f w = w\<lparr>w_deploy := f (w_deploy w)\<rparr>"

text \<open>\<open>response.json()\<close>; the messages of the log are built from it before the result is used.\<close>

definition response_json :: "HttpResponse \<Rightarrow> ('q, pyval) deploy" where
  "response_json r = (case hr_json r of None \<Rightarrow> raise (exn Code_Error ''JSONDecodeError'') | Some v \<Rightarrow> ret v)"

definition int_of_text :: "string \<Rightarrow> Exn + int" where
  "int_of_text s = (case py_int s of None \<Rightarrow> Inl (exn Code_Error ''ValueError'') | Some i \<Rightarrow> Inr i)"

text \<open>
  \<open>int(v)\<close> of a value read from JSON; \<open>trunc\<close> is the integer part of a float, \<open>None\<close> where
  \<open>int\<close> raises.
\<close>

definition int_of_json :: "(string \<Rightarrow> int option) \<Rightarrow> pyval \<Rightarrow> Exn + int" where
  "int_of_json trunc v =
     (case v of
        PInt i \<Rightarrow> Inr i
      | PBool b \<Rightarrow> Inr (if b then 1 else 0)
      | PStr s \<Rightarrow> int_of_text s
      | PFloat f \<Rightarrow> (case trunc f of None \<Rightarrow> Inl (exn Code_Error ''ValueError'') | Some i \<Rightarrow> Inr i)
      | _ \<Rightarrow> Inl (exn Code_Error ''TypeError''))"

text \<open>The body of a request drops what is \<open>None\<close> at any depth.\<close>

fun remove_none_values :: "pyval \<Rightarrow> pyval"
  and remove_none_items :: "pydict \<Rightarrow> pydict"
  and remove_none_list :: "pyval list \<Rightarrow> pyval list" where
  "remove_none_values (PDict d) = PDict (remove_none_items d)"
| "remove_none_values (PList xs) = PList (remove_none_list xs)"
| "remove_none_values v = v"
| "remove_none_items [] = []"
| "remove_none_items ((k, v) # d) =
     (if v = PNone then remove_none_items d else (k, remove_none_values v) # remove_none_items d)"
| "remove_none_list [] = []"
| "remove_none_list (v # xs) =
     (if v = PNone then remove_none_list xs else remove_none_values v # remove_none_list xs)"

definition opt_val :: "string option \<Rightarrow> pyval" where
  "opt_val x = (case x of None \<Rightarrow> PNone | Some s \<Rightarrow> PStr s)"

text \<open>\<open>response.json().get("access_token")\<close>, a string that is not empty.\<close>

definition token_of :: "pyval \<Rightarrow> Exn + string" where
  "token_of body =
     (case body of
        PDict d \<Rightarrow>
          (case dget_str d ''access_token'' of
             Some (c # t) \<Rightarrow> Inr (c # t)
           | _ \<Rightarrow> Inl (exn Tenant_Error ''Cannot authenticate with the tenant configuration''))
      | _ \<Rightarrow> Inl (exn Code_Error ''AttributeError''))"

text \<open>\<open>with deploy_events.deploying(...)\<close>: an exception marks the rule failed and goes on.\<close>

definition deploying :: "string \<Rightarrow> string \<Rightarrow> string \<Rightarrow> string \<Rightarrow> ('q, 'a) deploy \<Rightarrow> ('q, 'a) deploy" where
  "deploying platform tenant rule_id name body =
     andthen (on_world (on_events (scope_enter (deploying_result platform (Some tenant) rule_id name None))))
       (\<lambda>_ s. let (r, s') = body s;
                 failed = (case r of Inl e \<Rightarrow> Some (ex_text e) | Inr _ \<Rightarrow> None)
             in (r, s'\<lparr>dr_world := on_events (scope_exit failed) (dr_world s')\<rparr>))"

text \<open>\<open>platforms/transport.py\<close>: the \<open>ssl\<close> of a tenant as a boolean, or an error.\<close>

definition tenant_tls_verify :: "pyval \<Rightarrow> Exn + bool" where
  "tenant_tls_verify ssl_setting =
     (case ssl_setting of
        PBool b \<Rightarrow> Inr b
      | PStr s \<Rightarrow> if starts_with ''$'' s then Inl (exn Config_Error ''ssl is unset'')
                  else Inl (exn Config_Error ''ssl must be true or false'')
      | _ \<Rightarrow> Inl (exn Config_Error ''ssl must be true or false''))"

text \<open>What every deployer reads of a rule, and the block of its own platform.\<close>

record 'b Mdr = RuleRef +
  mdr_description :: string
  mdr_severity :: string
  mdr_author :: "string option"
  mdr_block :: "'b option"

text \<open>A rule given by uuid is looked up, one given as an object is taken.\<close>

datatype 'm mdr_arg = MdrUuid string | MdrRule 'm

fun load_mdr :: "(string \<Rightarrow> 'm option) \<Rightarrow> 'm mdr_arg \<Rightarrow> Exn + 'm" where
  "load_mdr rules (MdrUuid u) = (case rules u of None \<Rightarrow> Inl (exn Code_Error ''KeyError'') | Some r \<Rightarrow> Inr r)"
| "load_mdr rules (MdrRule r) = Inr r"

definition or_text :: "string option \<Rightarrow> string \<Rightarrow> string" where
  "or_text o1 s = (case o1 of None \<Rightarrow> s | Some x \<Rightarrow> if x = [] then s else x)"

section \<open>The deployment state of one rule\<close>

record DeployEnv =
  du_text_of :: "state_code \<Rightarrow> string"
  du_writable :: bool
  du_statuses :: "DeploymentStatus list"
  du_index :: "string \<Rightarrow> pyval option"
  du_ignore :: "IgnoreRule option"

text \<open>\<open>try: record_created(...) except DeploymentStateError as error: report_failure(error, ...)\<close>.\<close>

definition created_or_reported :: "DeployEnv \<Rightarrow> string \<Rightarrow> string \<Rightarrow> string \<Rightarrow> pyval \<Rightarrow> ('q, unit) deploy" where
  "created_or_reported env platform object_uuid tenant external_id =
     on_world (\<lambda>w. case record_created (du_writable env) object_uuid platform tenant external_id w of
         (Inl e, w') \<Rightarrow> report_failure (du_text_of env) e object_uuid platform tenant False w'
       | (Inr _, w') \<Rightarrow> w')"

definition deleted_or_reported :: "DeployEnv \<Rightarrow> string \<Rightarrow> string \<Rightarrow> string \<Rightarrow> ('q, unit) deploy" where
  "deleted_or_reported env platform object_uuid tenant =
     on_world (\<lambda>w. case record_deleted (du_writable env) object_uuid platform tenant w of
         (Inl e, w') \<Rightarrow> report_failure (du_text_of env) e object_uuid platform tenant False w'
       | (Inr _, w') \<Rightarrow> w')"

text \<open>\<open>action.known_id()\<close>: an action without an id is a programming error.\<close>

definition known_id_of :: "ExternalIdAction \<Rightarrow> ('q, string) deploy" where
  "known_id_of action =
     (case known_id action of None \<Rightarrow> raise (exn Code_Error ''known_id'') | Some i \<Rightarrow> ret i)"

text \<open>
  The three branches every deployer with vendor ids has: delete and forget, update, or create and
  record.
\<close>

definition act_on_tenant ::
  "DeployEnv \<Rightarrow> string \<Rightarrow> string \<Rightarrow> string \<Rightarrow> ExternalIdAction \<Rightarrow> ('q, pyval) deploy \<Rightarrow> (string \<Rightarrow> ('q, unit) deploy)
    \<Rightarrow> (string \<Rightarrow> ('q, unit) deploy) \<Rightarrow> ('q, unit) deploy" where
  "act_on_tenant env platform object_uuid tenant action create update delete =
     (case act_kind action of
        Delete \<Rightarrow> andthen (known_id_of action) (\<lambda>i. andthen (delete i)
                   (\<lambda>_. deleted_or_reported env platform object_uuid tenant))
      | Update \<Rightarrow> andthen (known_id_of action) update
      | Create \<Rightarrow> andthen create (created_or_reported env platform object_uuid tenant))"

text \<open>An action that is given is taken; without one the rule is planned here.\<close>

definition given_or_planned ::
  "DeployEnv \<Rightarrow> string \<Rightarrow> string \<Rightarrow> string \<Rightarrow> string \<Rightarrow> ExternalIdAction option
    \<Rightarrow> (ExternalIdAction \<Rightarrow> ('q, unit) deploy) \<Rightarrow> ('q, unit) deploy" where
  "given_or_planned env platform object_uuid tenant status action proceed =
     (case action of
        Some a \<Rightarrow> proceed a
      | None \<Rightarrow>
          andthen (ask_world (plan_external_id (du_statuses env) (du_index env) (du_ignore env) None
                      object_uuid platform tenant (StatusNamed status) None)) (\<lambda>r.
            case r of
              Inl (StateRefused e) \<Rightarrow> on_world (report_failure (du_text_of env) e object_uuid platform tenant False)
            | Inl (StatusRefused _) \<Rightarrow> raise (exn Config_Error ''status'')
            | Inr a \<Rightarrow> proceed a))"

text \<open>
  \<open>screen_tenant\<close> over the rules of a batch: reading the status of a rule without a block raises
  once the rules before it are planned.
\<close>

definition screened ::
  "DeployEnv \<Rightarrow> RunStrategies option \<Rightarrow> string \<Rightarrow> string \<Rightarrow> ('r RuleRef_scheme \<Rightarrow> string option) \<Rightarrow> 'r RuleRef_scheme list
    \<Rightarrow> ('q, ('r RuleRef_scheme \<times> ExternalIdAction) list) deploy" where
  "screened env strategies platform tenant status_of rules =
     andthen (ask_world (screen_tenant (du_text_of env) (du_statuses env) (du_index env) (du_ignore env)
                 strategies platform tenant (\<lambda>r. StatusNamed (the (status_of r)))
                 (takeWhile (\<lambda>r. status_of r \<noteq> None) rules) []))
       (\<lambda>r. case r of
          Inl _ \<Rightarrow> raise (exn Config_Error ''status'')
        | Inr planned \<Rightarrow>
            if list_all (\<lambda>r. status_of r \<noteq> None) rules then ret planned
            else raise (exn Code_Error ''AttributeError''))"

text \<open>The loop over the planned rules of one tenant: an exception ends it.\<close>

definition run_tenant ::
  "string \<Rightarrow> string \<Rightarrow> ('r RuleRef_scheme \<Rightarrow> ExternalIdAction \<Rightarrow> ('q, unit) deploy)
    \<Rightarrow> ('r RuleRef_scheme \<times> ExternalIdAction) list \<Rightarrow> ('q, unit) deploy" where
  "run_tenant platform tenant deploy_rule planned =
     andthen (each (\<lambda>(r, a). deploying platform tenant (ref_uuid r) (ref_name r) (deploy_rule r a)) planned)
       (\<lambda>_. ret ())"

text \<open>
  One tenant of a run: its rules are screened before there is a client, so that a tenant whose rules are
  all refused or skipped is sent nothing.
\<close>

definition deploy_planned ::
  "DeployEnv \<Rightarrow> RunStrategies option \<Rightarrow> string \<Rightarrow> string \<Rightarrow> ('r RuleRef_scheme \<Rightarrow> string option) \<Rightarrow> ('q, 'c) deploy
    \<Rightarrow> ('c \<Rightarrow> 'r RuleRef_scheme \<Rightarrow> ExternalIdAction \<Rightarrow> ('q, unit) deploy) \<Rightarrow> 'r RuleRef_scheme list \<Rightarrow> ('q, unit) deploy" where
  "deploy_planned env strategies platform tenant status_of connect deploy_rule rules =
     andthen (screened env strategies platform tenant status_of rules) (\<lambda>planned.
       if planned = [] then ret ()
       else andthen connect (\<lambda>service. run_tenant platform tenant (deploy_rule service) planned))"

text \<open>A deployer's run: the rules are resolved to batches, and the batches are deployed in their order.\<close>

definition deploy_batches ::
  "(string \<Rightarrow> 'm option) \<Rightarrow> ('m list \<Rightarrow> RunStrategies option \<Rightarrow> Exn + ('t \<times> 'm list) list)
    \<Rightarrow> ('t \<Rightarrow> 'm list \<Rightarrow> ('q, unit) deploy) \<Rightarrow> 'm mdr_arg list \<Rightarrow> RunStrategies option \<Rightarrow> ('q, unit) deploy" where
  "deploy_batches rules resolve deploy_tenant mdr_deployment strategies =
     andthen (lift_sum (rmap (load_mdr rules) mdr_deployment)) (\<lambda>loaded.
     andthen (lift_sum (resolve loaded strategies)) (\<lambda>batches.
     andthen (each (\<lambda>(tenant_config, rs). deploy_tenant tenant_config rs) batches) (\<lambda>_. ret ())))"

section \<open>What one rule does to the state\<close>

definition same_world :: "'q DeployRun \<Rightarrow> 'q DeployRun \<Rightarrow> bool" where
  "same_world s s' = (dr_world s' = dr_world s)"

definition flagged :: "World \<Rightarrow> bool" where
  "flagged w = (w_env w error_flag \<noteq> None)"

text \<open>The shards of the other rules are as they were, and the error flag is not lowered.\<close>

definition only_shards :: "(state_code + string) set \<Rightarrow> 'q DeployRun \<Rightarrow> 'q DeployRun \<Rightarrow> bool" where
  "only_shards U s s' =
     ((flagged (dr_world s) \<longrightarrow> flagged (dr_world s'))
      \<and> (\<forall>v. canonical_uuid (PStr v) \<notin> U
            \<longrightarrow> load_state (w_dir (dr_world s')) (PStr v) = load_state (w_dir (dr_world s)) (PStr v)))"

abbreviation only_shard :: "string \<Rightarrow> 'q DeployRun \<Rightarrow> 'q DeployRun \<Rightarrow> bool" where
  "only_shard u \<equiv> only_shards {canonical_uuid (PStr u)}"

abbreviation no_shard :: "'q DeployRun \<Rightarrow> 'q DeployRun \<Rightarrow> bool" where
  "no_shard \<equiv> only_shards {}"

lemma only_shards_mono: "preserves (only_shards U) m \<Longrightarrow> U \<subseteq> V \<Longrightarrow> preserves (only_shards V) m"
  unfolding preserves_def only_shards_def by blast

interpretation silent: frame same_world
  by unfold_locales (simp_all add: same_world_def)

interpretation shard: frame "only_shards U" for U
  by unfold_locales (auto simp: only_shards_def)

named_theorems run_frames \<open>effects of a deployer that stay within a frame\<close>

lemmas [run_frames] = silent.frame_rules shard.frame_rules

lemma send_Inr:
  "send vendor q s = (Inr r, s') \<longleftrightarrow> vendor (dr_calls s) q = Inr r \<and> s' = s\<lparr>dr_calls := dr_calls s @ [q]\<rparr>"
  by (auto simp: send_def)

lemma send_Inl:
  "send vendor q s = (Inl e, s') \<longleftrightarrow> vendor (dr_calls s) q = Inl e \<and> s' = s\<lparr>dr_calls := dr_calls s @ [q]\<rparr>"
  by (auto simp: send_def)

lemma int_of_text_Inr: "int_of_text t = Inr i \<longleftrightarrow> py_int t = Some i"
  by (auto simp: int_of_text_def split: option.splits)

lemma keeps_send [run_frames]: "preserves same_world (send vendor q)"
  by (simp add: preserves_def send_def same_world_def)

lemma keeps_known_id [run_frames]: "preserves same_world (known_id_of a)"
  by (auto simp: known_id_of_def intro: run_frames split: option.split)

lemma keeps_lift [run_frames]: "preserves same_world (lift_sum r)" "preserves (only_shards U) (lift_sum r)"
  by (cases r; simp add: run_frames)+

lemma keeps_response_json [run_frames]: "preserves same_world (response_json r)"
  by (auto simp: response_json_def intro: run_frames split: option.split)

lemma response_json_Inr: "response_json r s = (Inr x, s') \<longleftrightarrow> hr_json r = Some x \<and> s' = s"
  by (auto simp: response_json_def effect_Inr split: option.split)

lemma silent_shard: "preserves same_world m \<Longrightarrow> preserves (only_shards U) m"
  by (auto simp: preserves_def same_world_def only_shards_def)

lemma keeps_on_world:
  "(\<And>w. (flagged w \<longrightarrow> flagged (f w)) \<and> (\<forall>v. canonical_uuid (PStr v) \<noteq> canonical_uuid (PStr u)
       \<longrightarrow> load_state (w_dir (f w)) (PStr v) = load_state (w_dir w) (PStr v))) \<Longrightarrow> preserves (only_shard u) (on_world f)"
  by (simp add: preserves_def on_world_def update_state_def only_shards_def)

lemma report_flag: "flagged (report_failure text_of e u p t q w) \<longleftrightarrow> flagged w \<or> e \<notin> set warning_codes"
  by (auto simp: report_failure_def flagged_def log_line_def set_env_def Let_def persist_env_flags)

lemma record_created_flag: "record_created wr u p t ext w = (r, w') \<Longrightarrow> flagged w' \<longleftrightarrow> flagged w"
  by (auto simp: record_created_def flagged_def log_line_def split: sum.splits)

lemma record_deleted_flag: "record_deleted wr u p t w = (r, w') \<Longrightarrow> flagged w' \<longleftrightarrow> flagged w"
  by (auto simp: record_deleted_def flagged_def log_line_def split: sum.splits)

lemma record_created_other:
  assumes "record_created wr u p t ext w = (r, w')" "canonical_uuid (PStr v) \<noteq> canonical_uuid (PStr u)"
  shows "load_state (w_dir w') (PStr v) = load_state (w_dir w) (PStr v)"
proof (cases r)
  case (Inl e)
  with assms(1) show ?thesis by (auto simp: record_created_def split: sum.splits)
next
  case (Inr stored)
  with record_created_Inr assms(1) have "record_external_id wr (PStr u) p t ext (w_dir w) = Inr (stored, w_dir w')"
    by blast
  from record_other_load [OF this assms(2)] show ?thesis .
qed

lemma record_deleted_other:
  assumes "record_deleted wr u p t w = (r, w')" "canonical_uuid (PStr v) \<noteq> canonical_uuid (PStr u)"
  shows "load_state (w_dir w') (PStr v) = load_state (w_dir w) (PStr v)"
proof (cases r)
  case (Inl e)
  with assms(1) show ?thesis by (auto simp: record_deleted_def split: sum.splits)
next
  case (Inr x)
  with assms(1) obtain removed where "forget_external_id wr (PStr u) p t (w_dir w) = Inr (removed, w_dir w')"
    by (auto elim: record_deleted_Inr)
  from forget_other_load [OF this assms(2)] show ?thesis .
qed

section \<open>Rules that are settled\<close>

text \<open>
  What screening found for a rule: its shard loads, and its action carries the id of the shard, and
  is a create when there is none. What a finished rule leaves: an id after a create, none after a
  delete, the one it had after an update.
\<close>

definition planned_ok :: "string \<Rightarrow> string \<Rightarrow> 'r RuleRef_scheme \<times> ExternalIdAction \<Rightarrow> World \<Rightarrow> bool" where
  "planned_ok platform tenant = (\<lambda>(r, a) w.
     \<exists>st. load_state (w_dir w) (PStr (ref_uuid r)) = Inr st \<and> state_get st platform tenant = act_id a
        \<and> (act_kind a = Create \<longleftrightarrow> act_id a = None))"

definition settled :: "string \<Rightarrow> string \<Rightarrow> 'r RuleRef_scheme \<times> ExternalIdAction \<Rightarrow> World \<Rightarrow> bool" where
  "settled platform tenant = (\<lambda>(r, a) w.
     \<exists>st. load_state (w_dir w) (PStr (ref_uuid r)) = Inr st
        \<and> (case act_kind a of
             Create \<Rightarrow> state_get st platform tenant \<noteq> None
           | Update \<Rightarrow> state_get st platform tenant = act_id a
           | Delete \<Rightarrow> state_get st platform tenant = None))"

lemma keeps_created_or_reported [run_frames]: "preserves (only_shard u) (created_or_reported env p u t ext)"
  unfolding created_or_reported_def
  by (rule keeps_on_world)
    (auto simp: report_flag dest: record_created_flag record_created_other split: prod.split sum.split)

lemma keeps_deleted_or_reported [run_frames]: "preserves (only_shard u) (deleted_or_reported env p u t)"
  unfolding deleted_or_reported_def
  by (rule keeps_on_world)
    (auto simp: report_flag dest: record_deleted_flag record_deleted_other split: prod.split sum.split)

lemma keeps_on_events [run_frames]: "preserves (only_shards U) (on_world (on_events f))"
  by (simp add: preserves_def on_world_def update_state_def only_shards_def on_events_def flagged_def)

lemma keeps_deploying:
  assumes "preserves (only_shards U) m"
  shows "preserves (only_shards U) (deploying p t r n m)"
proof -
  have "preserves (only_shards U) (\<lambda>s. let (r, s') = m s; failed = (case r of Inl e \<Rightarrow> Some (ex_text e) | Inr _ \<Rightarrow> None)
             in (r, s'\<lparr>dr_world := on_events (scope_exit failed) (dr_world s')\<rparr>))"
    using assms by (auto simp: preserves_def only_shards_def on_events_def flagged_def split: prod.splits) (metis snd_conv)+
  then show ?thesis unfolding deploying_def by (intro run_frames)
qed

lemma deploying_Inr:
  assumes "deploying p t r n m s = (Inr x, s')"
  obtains s1 s2 where "m s1 = (Inr x, s2)" "w_dir (dr_world s1) = w_dir (dr_world s)"
    "w_dir (dr_world s') = w_dir (dr_world s2)" "w_env (dr_world s') = w_env (dr_world s2)"
    "dr_calls s1 = dr_calls s" "dr_calls s' = dr_calls s2"
proof -
  let ?s1 = "s\<lparr>dr_world := on_events (scope_enter (deploying_result p (Some t) r n None)) (dr_world s)\<rparr>"
  obtain q s2 where m: "m ?s1 = (q, s2)" by force
  with assms have "q = Inr x" "s' = s2\<lparr>dr_world := on_events (scope_exit None) (dr_world s2)\<rparr>"
    by (auto simp: deploying_def andthen_def on_world_def update_state_def Let_def)
  with m that [of ?s1 s2] show thesis by (simp add: on_events_def)
qed

text \<open>The three branches, over requests that leave the shards alone.\<close>

lemma keeps_act_on_tenant [run_frames]:
  assumes "preserves no_shard create" "\<And>i. preserves no_shard (update i)" "\<And>i. preserves no_shard (delete i)"
  shows "preserves (only_shard u) (act_on_tenant env p u t a create update delete)"
proof -
  have "preserves (only_shard u) create" "preserves (only_shard u) (known_id_of a)"
    "preserves (only_shard u) (update i)" "preserves (only_shard u) (delete i)" for i
    using assms keeps_known_id by (blast intro: silent_shard only_shards_mono)+
  then show ?thesis
    unfolding act_on_tenant_def by (auto intro!: run_frames split: action_kind.split)
qed

lemma created_or_reported_stored:
  assumes "created_or_reported env p u t ext s = (r, s')" "\<not> flagged (dr_world s')"
  shows "\<exists>st stored. normalise_external_id p ext = Inr stored
    \<and> load_state (w_dir (dr_world s')) (PStr u) = Inr st \<and> state_get st p t = Some stored"
proof -
  obtain q w' where rec: "record_created (du_writable env) u p t ext (dr_world s) = (q, w')" by force
  show ?thesis
  proof (cases q)
    case (Inl e)
    with rec have "e = Deployment_state_write_failed" by (auto simp: record_created_def split: sum.splits)
    with Inl rec assms show ?thesis
      by (auto simp: created_or_reported_def on_world_def update_state_def report_flag warning_codes_def)
  next
    case (Inr stored)
    with rec assms have "w_dir (dr_world s') = w_dir w'"
      by (auto simp: created_or_reported_def on_world_def update_state_def)
    moreover have "record_external_id (du_writable env) (PStr u) p t ext (w_dir (dr_world s)) = Inr (stored, w_dir w')"
      using record_created_Inr rec Inr by blast
    then obtain st' where "load_state (w_dir w') (PStr u) = Inr st'" "state_get st' p t = Some stored"
      "normalise_external_id p ext = Inr stored"
      by (elim record_load) auto
    ultimately show ?thesis by auto
  qed
qed

lemma created_or_reported_settles:
  assumes "created_or_reported env p u t ext s = (r, s')" "\<not> flagged (dr_world s')"
  shows "\<exists>st. load_state (w_dir (dr_world s')) (PStr u) = Inr st \<and> state_get st p t \<noteq> None"
  using created_or_reported_stored [OF assms] by auto

lemma deleted_or_reported_settles:
  assumes "deleted_or_reported env p u t s = (r, s')" "\<not> flagged (dr_world s')"
  shows "\<exists>st. load_state (w_dir (dr_world s')) (PStr u) = Inr st \<and> state_get st p t = None"
proof -
  obtain q w' where rec: "record_deleted (du_writable env) u p t (dr_world s) = (q, w')" by force
  show ?thesis
  proof (cases q)
    case (Inl e)
    with rec have "e = Deployment_state_write_failed" by (auto simp: record_deleted_def split: sum.splits)
    with Inl rec assms show ?thesis
      by (auto simp: deleted_or_reported_def on_world_def update_state_def report_flag warning_codes_def)
  next
    case (Inr x)
    with rec assms have "w_dir (dr_world s') = w_dir w'"
      by (auto simp: deleted_or_reported_def on_world_def update_state_def)
    moreover obtain removed where "forget_external_id (du_writable env) (PStr u) p t (w_dir (dr_world s)) = Inr (removed, w_dir w')"
      using record_deleted_Inr rec Inr by blast
    then obtain st' where "load_state (w_dir w') (PStr u) = Inr st'" "state_get st' p t = None"
      by (elim forget_load) auto
    ultimately show ?thesis by simp
  qed
qed

lemma act_on_tenant_settles:
  assumes laws: "preserves no_shard create" "\<And>i. preserves no_shard (update i)" "\<And>i. preserves no_shard (delete i)"
    and plan: "planned_ok p t (r, a) (dr_world s)"
    and run: "act_on_tenant env p (ref_uuid r) t a create update delete s = (Inr (), s')"
    and ok: "\<not> flagged (dr_world s')"
  shows "settled p t (r, a) (dr_world s')"
proof (cases "act_kind a")
  case Create
  with run obtain i s1 where "created_or_reported env p (ref_uuid r) t i s1 = (Inr (), s')"
    by (auto simp: act_on_tenant_def andthen_Inr)
  from created_or_reported_settles [OF this ok] Create show ?thesis by (simp add: settled_def)
next
  case Update
  with run obtain i s1 where i: "known_id_of a s = (Inr i, s1)" "update i s1 = (Inr (), s')"
    by (auto simp: act_on_tenant_def andthen_Inr)
  have "dr_world s1 = dr_world s" using silent.keeps_run [OF keeps_known_id i(1)] by (simp add: same_world_def)
  moreover have "no_shard s1 s'" using shard.keeps_run [OF laws(2) i(2)] .
  ultimately show ?thesis using plan Update by (auto simp: planned_ok_def settled_def only_shards_def)
next
  case Delete
  with run obtain s1 where "deleted_or_reported env p (ref_uuid r) t s1 = (Inr (), s')"
    by (auto simp: act_on_tenant_def andthen_Inr)
  from deleted_or_reported_settles [OF this ok] Delete show ?thesis by (simp add: settled_def)
qed

definition distinct_shards :: "('r RuleRef_scheme \<times> ExternalIdAction) list \<Rightarrow> bool" where
  "distinct_shards planned = distinct (map (\<lambda>(r, a). canonical_uuid (PStr (ref_uuid r))) planned)"

definition shards :: "('r RuleRef_scheme \<times> ExternalIdAction) list \<Rightarrow> (state_code + string) set" where
  "shards planned = (\<lambda>(r, a). canonical_uuid (PStr (ref_uuid r))) ` set planned"

text \<open>What screening leaves: planned rules that agree with their shards.\<close>

lemma plan_agrees:
  assumes "fst (plan_external_id statuses index ignore strategies u p t status raw w) = Inr a"
  obtains st where "load_state (w_dir w) (PStr u) = Inr st" "state_get st p t = act_id a"
    "act_kind a = Create \<longleftrightarrow> act_id a = None"
  using assms by (auto simp: plan_external_id_def Let_def split: option.splits sum.splits if_splits)

definition first_plan ::
  "DeployEnv \<Rightarrow> RunStrategies option \<Rightarrow> string \<Rightarrow> string \<Rightarrow> ('r RuleRef_scheme \<Rightarrow> string option) \<Rightarrow> World
    \<Rightarrow> 'r RuleRef_scheme \<Rightarrow> plan_error + ExternalIdAction" where
  "first_plan env strategies platform tenant status_of w =
     rule_plan (du_statuses env) (du_index env) (du_ignore env) strategies platform tenant
       (\<lambda>r. StatusNamed (the (status_of r))) w"

definition planned_rules ::
  "DeployEnv \<Rightarrow> RunStrategies option \<Rightarrow> string \<Rightarrow> string \<Rightarrow> ('r RuleRef_scheme \<Rightarrow> string option) \<Rightarrow> World
    \<Rightarrow> 'r RuleRef_scheme list \<Rightarrow> ('r RuleRef_scheme \<times> ExternalIdAction) list" where
  "planned_rules env strategies platform tenant status_of w rules =
     concat (map (\<lambda>r. case first_plan env strategies platform tenant status_of w r of
        Inr a \<Rightarrow> [(r, a)] | Inl _ \<Rightarrow> []) rules)"

lemma screened_Inr:
  assumes "screened env strategies p t status_of rules s = (Inr planned, s')"
  shows "planned = planned_rules env strategies p t status_of (dr_world s) rules
    \<and> dr_calls s' = dr_calls s \<and> w_dir (dr_world s') = w_dir (dr_world s)
    \<and> (flagged (dr_world s) \<longrightarrow> flagged (dr_world s'))"
proof -
  from assms have all: "list_all (\<lambda>r. status_of r \<noteq> None) rules"
    by (auto simp: screened_def andthen_Inr ask_world_def ret_def raise_def split: prod.splits sum.splits if_splits)
  then have "takeWhile (\<lambda>r. status_of r \<noteq> None) rules = rules"
    by (simp only: takeWhile_eq_all_conv list_all_iff)
  with assms all obtain w' where run: "screen_tenant (du_text_of env) (du_statuses env) (du_index env) (du_ignore env) strategies p t
       (\<lambda>r. StatusNamed (the (status_of r))) rules [] (dr_world s) = (Inr planned, w')"
    and s': "s' = s\<lparr>dr_world := w'\<rparr>"
    by (auto simp: screened_def andthen_Inr ask_world_def ret_def raise_def
        simp del: not_None_eq split: prod.splits sum.splits)
  from screen_tenant_Inr [OF run] s' show ?thesis
    by (auto simp: same_inputs_def planned_rules_def first_plan_def flagged_def split: if_splits)
qed

lemma planned_rules_ok:
  "x \<in> set (planned_rules env strategies p t status_of w rules) \<Longrightarrow> planned_ok p t x w"
  by (auto simp: planned_rules_def first_plan_def rule_plan_def planned_ok_def split: sum.splits) (metis plan_agrees)

lemma planned_rules_distinct:
  "distinct (map (\<lambda>r. canonical_uuid (PStr (ref_uuid r))) rules)
    \<Longrightarrow> distinct_shards (planned_rules env strategies p t status_of w rules)"
proof (induction rules)
  case (Cons r rules)
  have "shards (planned_rules env strategies p t status_of w rules)
      \<subseteq> (\<lambda>r. canonical_uuid (PStr (ref_uuid r))) ` set rules"
    by (auto simp: shards_def planned_rules_def split: sum.splits)
  with Cons show ?case
    by (auto simp: planned_rules_def distinct_shards_def shards_def split: sum.splits)
qed (simp add: planned_rules_def distinct_shards_def)

lemma planned_okD: "planned_ok p t x w \<Longrightarrow> w_dir w' = w_dir w \<Longrightarrow> planned_ok p t x w'"
  by (auto simp: planned_ok_def)

text \<open>Each rule of a loop adds its own requests.\<close>

lemma each_calls:
  assumes "\<And>x s s' y. x \<in> set xs \<Longrightarrow> f x s = (Inr y, s') \<Longrightarrow> dr_calls s' = dr_calls s @ g x"
    and "each f xs s = (Inr ys, s')"
  shows "dr_calls s' = dr_calls s @ concat (map g xs)"
  using assms
proof (induction xs arbitrary: s ys)
  case (Cons x xs)
  from Cons.prems(2) obtain y s1 ys' where "f x s = (Inr y, s1)" "each f xs s1 = (Inr ys', s')"
    by (auto simp: andthen_Inr ret_def)
  with Cons.IH [of s1 ys'] Cons.prems(1) show ?case by simp
qed (simp add: ret_def)

lemma reported_calls:
  "created_or_reported env p u t i s1 = (x, s2) \<Longrightarrow> dr_calls s2 = dr_calls s1"
  "deleted_or_reported env p u t s1 = (x, s2) \<Longrightarrow> dr_calls s2 = dr_calls s1"
  by (auto simp: created_or_reported_def deleted_or_reported_def on_world_def update_state_def)

lemma known_id_Inr: "known_id_of a s = (Inr i, s') \<longleftrightarrow> act_id a = Some i \<and> s' = s"
  by (auto simp: known_id_of_def known_id_def effect_Inr split: option.splits)

lemma act_on_tenant_calls:
  assumes "act_on_tenant env p u t a create update delete s = (Inr (), s')"
    and "\<And>i s s'. create s = (Inr i, s') \<Longrightarrow> dr_calls s' = dr_calls s @ c"
    and "\<And>i s s'. act_id a = Some i \<Longrightarrow> update i s = (Inr (), s') \<Longrightarrow> dr_calls s' = dr_calls s @ up i"
    and "\<And>i s s'. act_id a = Some i \<Longrightarrow> delete i s = (Inr (), s') \<Longrightarrow> dr_calls s' = dr_calls s @ de i"
  shows "dr_calls s' = dr_calls s
    @ (case act_kind a of Create \<Rightarrow> c | Update \<Rightarrow> up (the (act_id a)) | Delete \<Rightarrow> de (the (act_id a)))"
proof (cases "act_kind a")
  case Create
  with assms(1) obtain i s1 where "create s = (Inr i, s1)" "created_or_reported env p u t i s1 = (Inr (), s')"
    by (auto simp: act_on_tenant_def andthen_Inr)
  with assms(2) reported_calls(1) Create show ?thesis by fastforce
next
  case Update
  with assms(1) obtain i where "act_id a = Some i" "update i s = (Inr (), s')"
    by (auto simp: act_on_tenant_def andthen_Inr known_id_Inr)
  with assms(3) Update show ?thesis by fastforce
next
  case Delete
  with assms(1) obtain i s1 where "act_id a = Some i" "delete i s = (Inr (), s1)"
    "deleted_or_reported env p u t s1 = (Inr (), s')"
    by (auto simp: act_on_tenant_def andthen_Inr known_id_Inr)
  with assms(4) reported_calls(2) Delete show ?thesis by fastforce
qed

lemma run_tenant_calls:
  assumes "\<And>r a s s'. (r, a) \<in> set planned \<Longrightarrow> deploy_rule r a s = (Inr (), s') \<Longrightarrow> dr_calls s' = dr_calls s @ g (r, a)"
    and "run_tenant p t deploy_rule planned s = (Inr (), s')"
  shows "dr_calls s' = dr_calls s @ concat (map g planned)"
proof -
  from assms(2) obtain ys where loop:
    "each (\<lambda>(r, a). deploying p t (ref_uuid r) (ref_name r) (deploy_rule r a)) planned s = (Inr ys, s')"
    by (auto simp: run_tenant_def andthen_Inr ret_def)
  have step: "dr_calls s2 = dr_calls s1 @ g x"
    if x: "x \<in> set planned" and run: "(\<lambda>(r, a). deploying p t (ref_uuid r) (ref_name r) (deploy_rule r a)) x s1 = (Inr y, s2)"
    for x s1 s2 y
  proof -
    obtain r a where ra: "x = (r, a)" by force
    with run have "deploying p t (ref_uuid r) (ref_name r) (deploy_rule r a) s1 = (Inr (), s2)" by simp
    then obtain s3 s4 where "deploy_rule r a s3 = (Inr (), s4)" "dr_calls s3 = dr_calls s1" "dr_calls s2 = dr_calls s4"
      by (rule deploying_Inr)
    with assms(1) x ra show ?thesis by metis
  qed
  show ?thesis by (rule each_calls [OF step loop])
qed

section \<open>A deployer with vendor ids\<close>

locale id_deployer =
  fixes platform :: string and tenant :: string
    and deploy_rule :: "'r RuleRef_scheme \<Rightarrow> ExternalIdAction \<Rightarrow> ('q, unit) deploy"
  assumes own_shard: "preserves (only_shard (ref_uuid r)) (deploy_rule r a)"
    and settles: "planned_ok platform tenant (r, a) (dr_world s) \<Longrightarrow> deploy_rule r a s = (Inr (), s')
      \<Longrightarrow> \<not> flagged (dr_world s') \<Longrightarrow> settled platform tenant (r, a) (dr_world s')"
begin

lemma one_rule:
  assumes "deploying platform tenant (ref_uuid r) (ref_name r) (deploy_rule r a) s = (Inr (), s')"
    and "planned_ok platform tenant (r, a) (dr_world s)" and "\<not> flagged (dr_world s')"
  shows "settled platform tenant (r, a) (dr_world s')"
proof -
  from assms(1) obtain s1 s2 where m: "deploy_rule r a s1 = (Inr (), s2)"
    and same: "w_dir (dr_world s1) = w_dir (dr_world s)" "w_dir (dr_world s') = w_dir (dr_world s2)"
      "w_env (dr_world s') = w_env (dr_world s2)"
    by (rule deploying_Inr)
  with settles [OF _ m] assms(2,3) show ?thesis by (simp add: planned_ok_def settled_def flagged_def)
qed

lemma rest_frame: "preserves (only_shards (shards planned)) (run_tenant platform tenant deploy_rule planned)"
proof -
  have "preserves (only_shards (shards planned)) (deploying platform tenant (ref_uuid r) (ref_name r) (deploy_rule r a))"
    if "(r, a) \<in> set planned" for r a
    using that by (intro keeps_deploying only_shards_mono [OF own_shard]) (force simp: shards_def)
  then show ?thesis
    unfolding run_tenant_def by (auto intro!: shard.keeps_andthen shard.keeps_each_in shard.keeps_ret)
qed

text \<open>A run that ends without an error leaves every planned rule settled.\<close>

lemma run_settles:
  assumes "run_tenant platform tenant deploy_rule planned s = (Inr (), s')"
    and "distinct_shards planned" and "\<forall>x \<in> set planned. planned_ok platform tenant x (dr_world s)"
    and "\<not> flagged (dr_world s')"
  shows "\<forall>x \<in> set planned. settled platform tenant x (dr_world s')"
  using assms
proof (induction planned arbitrary: s)
  case Nil
  then show ?case by simp
next
  case (Cons x planned)
  obtain r a where x: "x = (r, a)" by force
  let ?body = "\<lambda>(r, a). deploying platform tenant (ref_uuid r) (ref_name r) (deploy_rule r a)"
  from Cons.prems(1) x obtain s1 ys where one: "?body (r, a) s = (Inr (), s1)"
    and more: "each ?body planned s1 = (Inr ys, s')"
    by (auto simp: run_tenant_def andthen_Inr ret_def)
  then have rest: "run_tenant platform tenant deploy_rule planned s1 = (Inr (), s')"
    by (simp add: run_tenant_def andthen_def ret_def)
  have frame1: "only_shard (ref_uuid r) s s1"
    using shard.keeps_run [OF keeps_deploying [OF own_shard]] one by auto
  have frame2: "only_shards (shards planned) s1 s'"
    using shard.keeps_run [OF rest_frame rest] .
  have apart: "canonical_uuid (PStr (ref_uuid r)) \<notin> shards planned" "distinct_shards planned"
    using Cons.prems(2) by (auto simp: x distinct_shards_def shards_def)
  have "load_state (w_dir (dr_world s1)) (PStr (ref_uuid q)) = load_state (w_dir (dr_world s)) (PStr (ref_uuid q))"
    if "(q, b) \<in> set planned" for q b
  proof -
    have "canonical_uuid (PStr (ref_uuid q)) \<in> shards planned" using that by (force simp: shards_def)
    with apart(1) have "canonical_uuid (PStr (ref_uuid q)) \<notin> {canonical_uuid (PStr (ref_uuid r))}" by auto
    with frame1 show ?thesis by (simp add: only_shards_def)
  qed
  then have later: "\<forall>y \<in> set planned. planned_ok platform tenant y (dr_world s1)"
    using Cons.prems(3) by (fastforce simp: planned_ok_def)
  have "\<not> flagged (dr_world s1)" using frame2 Cons.prems(4) by (auto simp: only_shards_def)
  then have "settled platform tenant (r, a) (dr_world s1)"
    using one_rule one Cons.prems(3) x by simp
  moreover have "load_state (w_dir (dr_world s')) (PStr (ref_uuid r)) = load_state (w_dir (dr_world s1)) (PStr (ref_uuid r))"
    using frame2 apart(1) by (simp add: only_shards_def)
  ultimately have "settled platform tenant (r, a) (dr_world s')" by (simp add: settled_def)
  with Cons.IH [OF rest apart(2) later Cons.prems(4)] show ?case by (simp add: x)
qed

end

section \<open>A deployer that screens its rules and connects\<close>

locale tenant_deployer =
  fixes platform :: string and tenant :: string
    and status_of :: "'r RuleRef_scheme \<Rightarrow> string option"
    and connect :: "('q, 'c) deploy"
    and deploy_rule :: "'c \<Rightarrow> 'r RuleRef_scheme \<Rightarrow> ExternalIdAction \<Rightarrow> ('q, unit) deploy"
  assumes connects: "preserves same_world connect"
    and one_service: "id_deployer platform tenant (deploy_rule service)"
begin

abbreviation run_of ::
  "DeployEnv \<Rightarrow> RunStrategies option \<Rightarrow> 'r RuleRef_scheme list \<Rightarrow> ('q, unit) deploy" where
  "run_of env strategies \<equiv> deploy_planned env strategies platform tenant status_of connect deploy_rule"

lemma run_Inr:
  assumes "run_of env strategies rules s = (Inr (), s')"
  defines "planned \<equiv> planned_rules env strategies platform tenant status_of (dr_world s) rules"
  obtains (nothing) "planned = []" "dr_calls s' = dr_calls s" "w_dir (dr_world s') = w_dir (dr_world s)"
  | (run) s1 s2 service where "connect s1 = (Inr service, s2)"
    "run_tenant platform tenant (deploy_rule service) planned s2 = (Inr (), s')"
    "dr_calls s1 = dr_calls s" "w_dir (dr_world s1) = w_dir (dr_world s)" "planned \<noteq> []"
proof -
  from assms(1) obtain ps s1 where screen: "screened env strategies platform tenant status_of rules s = (Inr ps, s1)"
    and rest: "(if ps = [] then ret ()
       else andthen connect (\<lambda>service. run_tenant platform tenant (deploy_rule service) ps)) s1 = (Inr (), s')"
    by (auto simp: deploy_planned_def andthen_Inr)
  have facts: "ps = planned" "dr_calls s1 = dr_calls s" "w_dir (dr_world s1) = w_dir (dr_world s)"
    using screened_Inr [OF screen] by (simp_all add: planned_def)
  show thesis
  proof (cases "planned = []")
    case True
    with rest facts have "s1 = s'" by (simp add: ret_def)
    show thesis by (rule nothing) (use True facts \<open>s1 = s'\<close> in simp_all)
  next
    case False
    with rest facts obtain service s2 where "connect s1 = (Inr service, s2)"
      "run_tenant platform tenant (deploy_rule service) planned s2 = (Inr (), s')"
      by (auto simp: andthen_Inr)
    then show thesis by (rule run [OF _ _ facts(2,3) False])
  qed
qed

text \<open>A finished tenant leaves every planned rule settled.\<close>

lemma tenant_settles:
  assumes "run_of env strategies rules s = (Inr (), s')"
    and "distinct (map (\<lambda>r. canonical_uuid (PStr (ref_uuid r))) rules)" and "\<not> flagged (dr_world s')"
    and "x \<in> set (planned_rules env strategies platform tenant status_of (dr_world s) rules)"
  shows "settled platform tenant x (dr_world s')"
  using assms(1)
proof (cases rule: run_Inr)
  case nothing
  with assms(4) show ?thesis by simp
next
  case (run s1 s2 service)
  have "dr_world s2 = dr_world s1"
    using silent.keeps_run [OF connects run(1)] by (simp add: same_world_def)
  with run(4) have "w_dir (dr_world s2) = w_dir (dr_world s)" by simp
  then have "\<forall>x \<in> set (planned_rules env strategies platform tenant status_of (dr_world s) rules).
      planned_ok platform tenant x (dr_world s2)"
    using planned_rules_ok planned_okD by metis
  from id_deployer.run_settles [OF one_service run(2) planned_rules_distinct [OF assms(2)] this assms(3)] assms(4)
  show ?thesis by blast
qed

text \<open>The plans of a later run, whatever its environment and statuses are.\<close>

lemma later_plan:
  assumes "run_of env strategies rules s = (Inr (), s')"
    and "distinct (map (\<lambda>r. canonical_uuid (PStr (ref_uuid r))) rules)"
    and "w_env (dr_world s') error_flag = None"
    and "r \<in> set rules" and "status_of r = Some written"
    and "fst (plan_external_id (du_statuses env) (du_index env) (du_ignore env) strategies (ref_uuid r)
        platform tenant (StatusNamed written) None (dr_world s)) = Inr action"
    and "w_dir w = w_dir (dr_world s')"
    and "fst (plan_external_id statuses index ignore strategies' (ref_uuid r) platform tenant status raw w) = Inr action'"
  shows "(act_kind action' = Create \<longleftrightarrow> act_kind action = Delete)
    \<and> (act_kind action = Update \<longrightarrow> act_id action' = act_id action)"
proof -
  have "(r, action) \<in> set (planned_rules env strategies platform tenant status_of (dr_world s) rules)"
    using assms(4-6) by (force simp: planned_rules_def first_plan_def rule_plan_def)
  then have settled: "settled platform tenant (r, action) (dr_world s')"
    and ok: "planned_ok platform tenant (r, action) (dr_world s)"
    using tenant_settles [OF assms(1,2)] planned_rules_ok assms(3) by (auto simp: flagged_def)
  from assms(8) obtain st where "load_state (w_dir (dr_world s')) (PStr (ref_uuid r)) = Inr st"
    "state_get st platform tenant = act_id action'" "act_kind action' = Create \<longleftrightarrow> act_id action' = None"
    using plan_agrees assms(7) by metis
  with settled ok show ?thesis
    by (auto simp: settled_def planned_ok_def split: action_kind.splits)
qed

end

section \<open>Samples\<close>

definition sample_env :: DeployEnv where
  "sample_env = \<lparr>du_text_of = (\<lambda>_. []), du_writable = True,
     du_statuses = [\<lparr>status_name = ''PRODUCTION'', status_strategy = StrategyMember RELEASE\<rparr>],
     du_index = Map.empty, du_ignore = None\<rparr>"

definition sample_run :: "'q DeployRun" where
  "sample_run = \<lparr>dr_world = sample_world, dr_calls = []\<rparr>"

end
