(* ===== verification/Crowdstrike.thy ===== *)
theory Crowdstrike
  imports Deploy_Run
begin

text \<open>
  \<open>platforms/crowdstrike\<close>: the client (\<open>client.py\<close>) and the deployer (\<open>deployer.py\<close>). A
  request is the operation, its URL and its JSON body; \<open>resolve\<close> is \<open>TideDeployment\<close>, the
  batches of \<open>Planning\<close>.
\<close>

section \<open>Rules as they are written\<close>

record CrowdstrikeDetails =
  cd_trigger :: string
  cd_outcome :: string
  cd_name :: "string option"
  cd_description :: "string option"
  cd_severity :: "string option"
  cd_tactic :: "string option"
  cd_technique :: "string option"

record CrowdstrikeSchedule =
  cs_frequency :: string
  cs_lookback :: string
  cs_start :: "string option"
  cs_end :: "string option"

record CrowdstrikeConfig =
  cc_status :: string
  cc_contributors :: "string list option"
  cc_details :: CrowdstrikeDetails
  cc_schedule :: CrowdstrikeSchedule
  cc_query :: string

type_synonym CrowdstrikeMdr = "CrowdstrikeConfig Mdr"

record CrowdstrikeTenant =
  ct_name :: string
  ct_ssl :: pyval
  ct_api :: string
  ct_client_id :: string
  ct_client_secret :: string
  ct_customer_id :: string

section \<open>Rules as they are sent\<close>

record CrowdstrikeRule =
  cr_name :: string
  cr_description :: string
  cr_customer_id :: string
  cr_severity :: int
  cr_outcome :: string
  cr_filter :: string
  cr_lookback :: string
  cr_trigger_mode :: string
  cr_definition :: string
  cr_start_on :: "string option"
  cr_stop_on :: "string option"
  cr_status :: string
  cr_tactic :: "string option"
  cr_technique :: "string option"
  cr_comment :: "string option"

definition map_severity :: "string \<Rightarrow> Exn + int" where
  "map_severity severity =
     (if severity = ''Informational'' then Inr 10
      else if severity = ''Low'' then Inr 30
      else if severity = ''Medium'' then Inr 50
      else if severity = ''High'' then Inr 70
      else if severity = ''Critical'' then Inr 90
      else Inl (exn Config_Error ''Invalid Severity''))"

definition fix_datetime :: "string \<Rightarrow> string" where
  "fix_datetime timestamp =
     (if \<not> contains_str ''Z'' timestamp
      then py_split ''+'' (replace_char CHR '' '' CHR ''T'' timestamp) ! 0 @ ''Z''
      else timestamp)"

definition fixed_or_none :: "string option \<Rightarrow> string option" where
  "fixed_or_none t = (case t of None \<Rightarrow> None | Some s \<Rightarrow> if s = [] then None else Some (fix_datetime s))"

definition rule_authors :: "CrowdstrikeMdr \<Rightarrow> CrowdstrikeConfig \<Rightarrow> string option list" where
  "rule_authors data configuration =
     (case cc_contributors configuration of
        Some (c # cs) \<Rightarrow> map Some (c # cs)
      | _ \<Rightarrow> [mdr_author data])"

definition compile_deployment_crowdstrike ::
  "DeploymentStatus list \<Rightarrow> CrowdstrikeMdr \<Rightarrow> CrowdstrikeTenant \<Rightarrow> Exn + CrowdstrikeRule" where
  "compile_deployment_crowdstrike statuses data tenant_config =
     (case mdr_block data of
        None \<Rightarrow> Inl (exn Config_Error ''Missing Crowdstrike Section'')
      | Some configuration \<Rightarrow>
          (let details = cc_details configuration; schedule = cc_schedule configuration;
               outcome = py_lower (cd_outcome details); trigger_mode = py_lower (cd_trigger details);
               author = str_join '', '' (List.map_filter (\<lambda>a. if a = Some [] then None else a) (rule_authors data configuration))
           in case check_status statuses (cc_status configuration) of
                Inl _ \<Rightarrow> Inl (exn Config_Error ''status'')
              | Inr strategy \<Rightarrow>
                  rbind (map_severity (or_text (cd_severity details) (mdr_severity data))) (\<lambda>severity.
                    if outcome \<notin> {''detection'', ''incident''}
                    then Inl (exn Config_Error ''Invalid Crowdstrike outcome value'')
                    else if trigger_mode \<notin> {''verbose'', ''summary''}
                    then Inl (exn Config_Error ''Invalid Crowdstrike outcome value'')
                    else Inr
                      \<lparr>cr_name = or_text (cd_name details) (ref_name data),
                       cr_description = or_text (cd_description details) (mdr_description data),
                       cr_customer_id = py_lower (py_split ''-'' (ct_customer_id tenant_config) ! 0),
                       cr_severity = severity, cr_outcome = outcome, cr_filter = cc_query configuration,
                       cr_lookback = cs_lookback schedule, cr_trigger_mode = trigger_mode,
                       cr_definition = ''@every '' @ cs_frequency schedule,
                       cr_start_on = fixed_or_none (cs_start schedule),
                       cr_stop_on = fixed_or_none (cs_end schedule),
                       cr_status = (if strategy = DISABLEMENT then ''inactive'' else ''active''),
                       cr_tactic = cd_tactic details, cr_technique = cd_technique details,
                       cr_comment = Some (''Updated by opentide Crowdstrike Deployer - Author(s) : '' @ author)\<rparr>)))"

section \<open>The client\<close>

datatype CsRequest =
    CsToken string string string
  | CsPost string pyval
  | CsPatch string pyval
  | CsDelete string string

record CrowdstrikeService =
  sv_rules_endpoint :: string
  sv_access_token :: string

definition get_base_api :: "string \<Rightarrow> Exn + string" where
  "get_base_api domain =
     (if domain = ''US-1'' then Inr ''https://api.crowdstrike.com''
      else if domain = ''US-2'' then Inr ''https://api.us-2.crowdstrike.com''
      else if domain = ''EU-1'' then Inr ''https://api.eu-1.crowdstrike.com''
      else if domain = ''US-GOV-1'' then Inr ''https://api.laggar.gcw.crowdstrike.com''
      else if domain = ''US-GOV-2'' then Inr ''https://api.falcon.us-gov-2.crowdstrike.mil''
      else Inl (exn Config_Error ''Invalid API Domain''))"

definition get_access_token ::
  "(CsRequest, HttpResponse) vendor \<Rightarrow> string \<Rightarrow> string \<Rightarrow> string \<Rightarrow> (CsRequest, string) deploy" where
  "get_access_token vendor url client_id client_secret =
     andthen (send vendor (CsToken url client_id client_secret)) (\<lambda>response.
       if hr_status response = 201
       then andthen (response_json response) (\<lambda>body. lift_sum (token_of body))
       else raise (exn Tenant_Error ''Cannot authenticate with the tenant configuration''))"

definition connect_crowdstrike ::
  "(CsRequest, HttpResponse) vendor \<Rightarrow> CrowdstrikeTenant \<Rightarrow> (CsRequest, CrowdstrikeService) deploy" where
  "connect_crowdstrike vendor tenant_config =
     andthen (lift_sum (tenant_tls_verify (ct_ssl tenant_config))) (\<lambda>_.
     andthen (lift_sum (get_base_api (ct_api tenant_config))) (\<lambda>base.
     andthen (get_access_token vendor (base @ ''/oauth2/token'') (ct_client_id tenant_config) (ct_client_secret tenant_config))
       (\<lambda>token. ret \<lparr>sv_rules_endpoint = base @ ''/correlation-rules/entities/rules/v1'', sv_access_token = token\<rparr>)))"

definition rule_asdict :: "CrowdstrikeRule \<Rightarrow> pyval" where
  "rule_asdict r = jobj
     [(''name'', PStr (cr_name r)), (''description'', PStr (cr_description r)), (''customer_id'', PStr (cr_customer_id r)),
      (''severity'', PInt (cr_severity r)),
      (''search'', jobj [(''outcome'', PStr (cr_outcome r)), (''filter'', PStr (cr_filter r)),
                        (''lookback'', PStr (cr_lookback r)), (''trigger_mode'', PStr (cr_trigger_mode r))]),
      (''operation'', jobj [(''schedule'', jobj [(''definition'', PStr (cr_definition r))]),
                           (''start_on'', opt_val (cr_start_on r)), (''stop_on'', opt_val (cr_stop_on r))]),
      (''status'', PStr (cr_status r)), (''tactic'', opt_val (cr_tactic r)), (''technique'', opt_val (cr_technique r)),
      (''comment'', opt_val (cr_comment r))]"

text \<open>\<open>response.json()["resources"][0]["id"]\<close>; any exception means the id is missing.\<close>

definition created_id :: "pyval \<Rightarrow> pyval option" where
  "created_id body =
     (case body of
        PDict d \<Rightarrow>
          (case dget d ''resources'' of
             Some (PList (PDict r # _)) \<Rightarrow> dget r ''id''
           | _ \<Rightarrow> None)
      | _ \<Rightarrow> None)"

definition create_detection_rule ::
  "(CsRequest, HttpResponse) vendor \<Rightarrow> CrowdstrikeService \<Rightarrow> CrowdstrikeRule \<Rightarrow> (CsRequest, pyval) deploy" where
  "create_detection_rule vendor service rule =
     andthen (send vendor (CsPost (sv_rules_endpoint service) (remove_none_values (rule_asdict rule)))) (\<lambda>response.
     andthen (response_json response) (\<lambda>body.
       if hr_status response = 200
       then (case created_id body of
               None \<Rightarrow> raise (exn Rule_Error ''Could not retrieve rule ID'')
             | Some rule_id \<Rightarrow> ret rule_id)
       else raise (exn Rule_Error ''Could not create rule'')))"

definition with_id :: "string \<Rightarrow> pyval \<Rightarrow> pyval" where
  "with_id rule_id body = (case body of PDict d \<Rightarrow> PDict (AList.update (PStr ''id'') (PStr rule_id) d) | v \<Rightarrow> v)"

definition update_detection_rule ::
  "(CsRequest, HttpResponse) vendor \<Rightarrow> CrowdstrikeService \<Rightarrow> CrowdstrikeRule \<Rightarrow> string \<Rightarrow> (CsRequest, unit) deploy" where
  "update_detection_rule vendor service rule rule_id =
     andthen (send vendor (CsPatch (sv_rules_endpoint service)
                (PList [with_id rule_id (remove_none_values (rule_asdict rule))]))) (\<lambda>response.
     andthen (response_json response) (\<lambda>_.
       if hr_status response = 200 then ret () else raise (exn Rule_Error ''Could not update rule'')))"

definition delete_detection_rule ::
  "(CsRequest, HttpResponse) vendor \<Rightarrow> CrowdstrikeService \<Rightarrow> string \<Rightarrow> (CsRequest, unit) deploy" where
  "delete_detection_rule vendor service rule_id =
     andthen (send vendor (CsDelete (sv_rules_endpoint service) rule_id)) (\<lambda>response.
       if hr_status response = 200 then ret () else raise (exn Rule_Error ''Could not delete rule''))"

section \<open>The deployer\<close>

definition crowdstrike :: string where
  "crowdstrike = ''crowdstrike''"

definition deploy_mdr_crowdstrike ::
  "DeployEnv \<Rightarrow> (CsRequest, HttpResponse) vendor \<Rightarrow> CrowdstrikeService \<Rightarrow> CrowdstrikeTenant \<Rightarrow> CrowdstrikeMdr
    \<Rightarrow> ExternalIdAction option \<Rightarrow> (CsRequest, unit) deploy" where
  "deploy_mdr_crowdstrike env vendor service tenant_config data action =
     (case mdr_block data of
        None \<Rightarrow> raise (exn Config_Error ''Missing Crowdstrike'')
      | Some block \<Rightarrow>
          andthen (lift_sum (compile_deployment_crowdstrike (du_statuses env) data tenant_config)) (\<lambda>rule.
            given_or_planned env crowdstrike (ref_uuid data) (ct_name tenant_config) (cc_status block) action (\<lambda>a.
              act_on_tenant env crowdstrike (ref_uuid data) (ct_name tenant_config) a
                (create_detection_rule vendor service rule)
                (update_detection_rule vendor service rule)
                (delete_detection_rule vendor service))))"

definition deploy_tenant_crowdstrike ::
  "DeployEnv \<Rightarrow> (CsRequest, HttpResponse) vendor \<Rightarrow> RunStrategies option \<Rightarrow> CrowdstrikeTenant \<Rightarrow> CrowdstrikeMdr list
    \<Rightarrow> (CsRequest, unit) deploy" where
  "deploy_tenant_crowdstrike env vendor strategies tenant_config =
     deploy_planned env strategies crowdstrike (ct_name tenant_config) (\<lambda>r. map_option cc_status (mdr_block r))
       (connect_crowdstrike vendor tenant_config)
       (\<lambda>service r a. deploy_mdr_crowdstrike env vendor service tenant_config r (Some a))"

definition deploy_crowdstrike ::
  "DeployEnv \<Rightarrow> (CsRequest, HttpResponse) vendor \<Rightarrow> (string \<Rightarrow> CrowdstrikeMdr option)
    \<Rightarrow> (CrowdstrikeMdr list \<Rightarrow> RunStrategies option \<Rightarrow> Exn + (CrowdstrikeTenant \<times> CrowdstrikeMdr list) list)
    \<Rightarrow> CrowdstrikeMdr mdr_arg list \<Rightarrow> RunStrategies option \<Rightarrow> (CsRequest, unit) deploy" where
  "deploy_crowdstrike env vendor rules resolve mdr_deployment strategies =
     deploy_batches rules resolve (deploy_tenant_crowdstrike env vendor strategies) mdr_deployment strategies"

section \<open>Laws\<close>

lemma keeps_client [run_frames]:
  "preserves same_world (create_detection_rule vendor service rule)"
  "preserves same_world (update_detection_rule vendor service rule i)"
  "preserves same_world (delete_detection_rule vendor service i)"
  "preserves same_world (connect_crowdstrike vendor tenant_config)"
  unfolding create_detection_rule_def update_detection_rule_def delete_detection_rule_def
    connect_crowdstrike_def get_access_token_def
  by (auto intro!: run_frames split: option.split)

lemma deploy_mdr_crowdstrike_Inr:
  assumes "deploy_mdr_crowdstrike env vendor service tenant_config r (Some a) s = (Inr (), s')"
  obtains rule where "compile_deployment_crowdstrike (du_statuses env) r tenant_config = Inr rule"
    "act_on_tenant env crowdstrike (ref_uuid r) (ct_name tenant_config) a
        (create_detection_rule vendor service rule) (update_detection_rule vendor service rule)
        (delete_detection_rule vendor service) s = (Inr (), s')"
  using assms by (auto simp: deploy_mdr_crowdstrike_def given_or_planned_def effect_Inr split: option.splits)

interpretation falcon: id_deployer crowdstrike "ct_name tenant_config"
  "\<lambda>r a. deploy_mdr_crowdstrike env vendor service tenant_config r (Some a)"
  for env vendor service tenant_config
proof
  show "preserves (only_shard (ref_uuid r)) (deploy_mdr_crowdstrike env vendor service tenant_config r (Some a))" for r a
    unfolding deploy_mdr_crowdstrike_def given_or_planned_def
    by (auto intro!: run_frames silent_shard [OF keeps_client(1)] silent_shard [OF keeps_client(2)]
        silent_shard [OF keeps_client(3)] split: option.split)
  show "settled crowdstrike (ct_name tenant_config) (r, a) (dr_world s')"
    if "planned_ok crowdstrike (ct_name tenant_config) (r, a) (dr_world s)"
      and "deploy_mdr_crowdstrike env vendor service tenant_config r (Some a) s = (Inr (), s')"
      and "\<not> flagged (dr_world s')" for r a s s'
    using that(2) by (rule deploy_mdr_crowdstrike_Inr)
      (rule act_on_tenant_settles [OF keeps_client(1-3) [THEN silent_shard] that(1) _ that(3)])
qed

interpretation falcon_tenant: tenant_deployer crowdstrike "ct_name tenant_config" "\<lambda>r. map_option cc_status (mdr_block r)"
  "connect_crowdstrike vendor tenant_config"
  "\<lambda>service r a. deploy_mdr_crowdstrike env vendor service tenant_config r (Some a)"
  for env vendor tenant_config
  by unfold_locales (rule keeps_client(4))

section \<open>Properties\<close>

text \<open>
  C13: Deploying the same rules to a CrowdStrike tenant again creates nothing twice: when a run over rules
  with different uuids ends without an exception and without the error flag, every rule it planned to create or
  update has an id in its shard and every rule it planned to delete has none, so whatever the
  environment, the status and the run are the next time, a plan of the rule is a create only if this run deleted it.
\<close>

theorem crowdstrike_second_run_creates_nothing:
  assumes "deploy_tenant_crowdstrike env vendor strategies tenant_config rules s = (Inr (), s')"
    and "distinct (map (\<lambda>r. canonical_uuid (PStr (ref_uuid r))) rules)"
    and "w_env (dr_world s') error_flag = None"
    and "r \<in> set rules" and "mdr_block r = Some block"
    and "fst (plan_external_id (du_statuses env) (du_index env) (du_ignore env) strategies (ref_uuid r)
        crowdstrike (ct_name tenant_config) (StatusNamed (cc_status block)) None (dr_world s)) = Inr action"
    and "w_dir w = w_dir (dr_world s')"
    and "fst (plan_external_id statuses index ignore strategies' (ref_uuid r) crowdstrike (ct_name tenant_config)
        status raw w) = Inr action'"
  shows "(act_kind action' = Create \<longleftrightarrow> act_kind action = Delete)
    \<and> (act_kind action = Update \<longrightarrow> act_id action' = act_id action)"
  using falcon_tenant.later_plan [OF assms(1) [unfolded deploy_tenant_crowdstrike_def] assms(2-4) _ assms(6-8)] assms(5)
  by simp

definition request_for :: "string \<Rightarrow> DeploymentStatus list \<Rightarrow> CrowdstrikeTenant \<Rightarrow> CrowdstrikeMdr \<times> ExternalIdAction \<Rightarrow> CsRequest list" where
  "request_for endpoint statuses tenant_config = (\<lambda>(r, a).
     case compile_deployment_crowdstrike statuses r tenant_config of
       Inl _ \<Rightarrow> []
     | Inr rule \<Rightarrow>
         [case act_kind a of
            Create \<Rightarrow> CsPost endpoint (remove_none_values (rule_asdict rule))
          | Update \<Rightarrow> CsPatch endpoint (PList [with_id (the (act_id a)) (remove_none_values (rule_asdict rule))])
          | Delete \<Rightarrow> CsDelete endpoint (the (act_id a))])"

lemma client_calls:
  "create_detection_rule vendor service rule s = (Inr i, s') \<Longrightarrow>
     dr_calls s' = dr_calls s @ [CsPost (sv_rules_endpoint service) (remove_none_values (rule_asdict rule))]"
  "update_detection_rule vendor service rule j s = (Inr y, s') \<Longrightarrow>
     dr_calls s' = dr_calls s @ [CsPatch (sv_rules_endpoint service) (PList [with_id j (remove_none_values (rule_asdict rule))])]"
  "delete_detection_rule vendor service j s = (Inr y, s') \<Longrightarrow> dr_calls s' = dr_calls s @ [CsDelete (sv_rules_endpoint service) j]"
  by (auto simp: create_detection_rule_def update_detection_rule_def delete_detection_rule_def effect_Inr
      send_Inr response_json_Inr split: option.splits if_splits)

lemma connect_calls:
  assumes "connect_crowdstrike vendor tenant_config s = (Inr service, s')"
  obtains base where "get_base_api (ct_api tenant_config) = Inr base"
    "sv_rules_endpoint service = base @ ''/correlation-rules/entities/rules/v1''"
    "dr_calls s' = dr_calls s @ [CsToken (base @ ''/oauth2/token'') (ct_client_id tenant_config) (ct_client_secret tenant_config)]"
proof -
  from assms obtain base t t' where base: "get_base_api (ct_api tenant_config) = Inr base"
    and token: "get_access_token vendor (base @ ''/oauth2/token'') (ct_client_id tenant_config) (ct_client_secret tenant_config) s = (Inr t, t')"
    and s: "service = \<lparr>sv_rules_endpoint = base @ ''/correlation-rules/entities/rules/v1'', sv_access_token = t\<rparr>" "s' = t'"
    by (auto simp: connect_crowdstrike_def effect_Inr)
  have "dr_calls t' = dr_calls s @ [CsToken (base @ ''/oauth2/token'') (ct_client_id tenant_config) (ct_client_secret tenant_config)]"
    using token by (auto simp: get_access_token_def effect_Inr send_Inr response_json_Inr split: if_splits)
  with base s that show thesis by simp
qed

lemma deploy_mdr_calls:
  assumes "deploy_mdr_crowdstrike env vendor service tenant_config r (Some a) s = (Inr (), s')"
  shows "dr_calls s' = dr_calls s @ request_for (sv_rules_endpoint service) (du_statuses env) tenant_config (r, a)"
proof -
  from assms obtain rule where c: "compile_deployment_crowdstrike (du_statuses env) r tenant_config = Inr rule"
    and run: "act_on_tenant env crowdstrike (ref_uuid r) (ct_name tenant_config) a
        (create_detection_rule vendor service rule) (update_detection_rule vendor service rule)
        (delete_detection_rule vendor service) s = (Inr (), s')"
    by (rule deploy_mdr_crowdstrike_Inr)
  have "dr_calls s' = dr_calls s @ (case act_kind a of
      Create \<Rightarrow> [CsPost (sv_rules_endpoint service) (remove_none_values (rule_asdict rule))]
    | Update \<Rightarrow> [CsPatch (sv_rules_endpoint service) (PList [with_id (the (act_id a)) (remove_none_values (rule_asdict rule))])]
    | Delete \<Rightarrow> [CsDelete (sv_rules_endpoint service) (the (act_id a))])"
    by (rule act_on_tenant_calls [OF run]) (auto dest: client_calls)
  with c show ?thesis by (auto simp: request_for_def split: action_kind.split)
qed

text \<open>
  What a CrowdStrike tenant is sent by a run that does not raise: nothing at all when every rule was refused or
  skipped; else one token request and then, in the order of the rules, one request per planned rule
  (a POST, PATCH or DELETE as the rule was planned, with the recorded id), compiled before it is sent.
\<close>

theorem crowdstrike_requests:
  assumes "deploy_tenant_crowdstrike env vendor strategies tenant_config rules s = (Inr (), s')"
  shows "let planned = planned_rules env strategies crowdstrike (ct_name tenant_config)
              (\<lambda>r. map_option cc_status (mdr_block r)) (dr_world s) rules
         in if planned = [] then dr_calls s' = dr_calls s
            else \<exists>base. get_base_api (ct_api tenant_config) = Inr base
              \<and> dr_calls s' = dr_calls s
                  @ CsToken (base @ ''/oauth2/token'') (ct_client_id tenant_config) (ct_client_secret tenant_config)
                  # concat (map (request_for (base @ ''/correlation-rules/entities/rules/v1'') (du_statuses env) tenant_config) planned)"
  using assms [unfolded deploy_tenant_crowdstrike_def]
proof (cases rule: falcon_tenant.run_Inr)
  case nothing
  then show ?thesis by (simp add: Let_def)
next
  case (run s1 s2 service)
  from run(1) obtain base where b: "get_base_api (ct_api tenant_config) = Inr base"
    "sv_rules_endpoint service = base @ ''/correlation-rules/entities/rules/v1''"
    "dr_calls s2 = dr_calls s1 @ [CsToken (base @ ''/oauth2/token'') (ct_client_id tenant_config) (ct_client_secret tenant_config)]"
    by (rule connect_calls)
  have calls: "dr_calls s' = dr_calls s2 @ concat (map (request_for (sv_rules_endpoint service) (du_statuses env) tenant_config)
      (planned_rules env strategies crowdstrike (ct_name tenant_config)
              (\<lambda>r. map_option cc_status (mdr_block r)) (dr_world s) rules))"
    by (rule run_tenant_calls [OF _ run(2)]) (rule deploy_mdr_calls)
  with b run(3,5) show ?thesis by (simp add: Let_def)
qed

definition sample_tenant :: CrowdstrikeTenant where
  "sample_tenant = \<lparr>ct_name = ''Prod'', ct_ssl = PBool True, ct_api = ''EU-1'', ct_client_id = ''c'',
     ct_client_secret = ''s'', ct_customer_id = ''CID-1''\<rparr>"

definition sample_block :: CrowdstrikeConfig where
  "sample_block = \<lparr>cc_status = ''PRODUCTION'', cc_contributors = None,
     cc_details = \<lparr>cd_trigger = ''Verbose'', cd_outcome = ''Detection'', cd_name = None, cd_description = None,
       cd_severity = None, cd_tactic = None, cd_technique = None\<rparr>,
     cc_schedule = \<lparr>cs_frequency = ''1h'', cs_lookback = ''1h'', cs_start = None, cs_end = None\<rparr>,
     cc_query = ''q''\<rparr>"

definition sample_mdr :: CrowdstrikeMdr where
  "sample_mdr = \<lparr>ref_uuid = uuid_str 7, ref_name = ''Rule'', mdr_description = ''d'', mdr_severity = ''High'',
     mdr_author = None, mdr_block = Some sample_block\<rparr>"

definition sample_vendor :: "(CsRequest, HttpResponse) vendor" where
  "sample_vendor calls q = Inr (case q of
       CsToken _ _ _ \<Rightarrow> \<lparr>hr_status = 201, hr_json = Some (jobj [(''access_token'', PStr ''t'')]), hr_text = [], hr_content_type = []\<rparr>
     | _ \<Rightarrow> \<lparr>hr_status = 200, hr_json = Some (jobj [(''resources'', PList [jobj [(''id'', PStr ''ab12'')]])]), hr_text = [], hr_content_type = []\<rparr>)"

lemma sample_fields:
  "ref_uuid sample_mdr = uuid_str 7" "ref_name sample_mdr = ''Rule''" "mdr_block sample_mdr = Some sample_block"
  "cc_status sample_block = ''PRODUCTION''" "ct_name sample_tenant = ''Prod''" "du_writable sample_env = True"
  by (simp_all add: sample_mdr_def sample_block_def sample_tenant_def sample_env_def)

lemma sample_second_run:
  obtains s' st where "deploy_tenant_crowdstrike sample_env sample_vendor None sample_tenant [sample_mdr] sample_run = (Inr (), s')"
    "w_env (dr_world s') error_flag = None" "load_state (w_dir (dr_world s')) (PStr (uuid_str 7)) = Inr st"
    "state_get st crowdstrike ''Prod'' = Some ''ab12''"
    "fst (plan_external_id (du_statuses sample_env) Map.empty None None (uuid_str 7) crowdstrike ''Prod''
        (StatusNamed ''PRODUCTION'') None sample_world) = Inr \<lparr>act_kind = Create, act_id = None\<rparr>"
proof -
  obtain dir' where rec: "record_external_id True (PStr (uuid_str 7)) ''crowdstrike'' ''Prod'' (PStr ''ab12'') []
    = Inr (''ab12'', dir')" by (rule sample_record)
  have get: "state_get (empty_state n u) q t = None" for n u q t
    by (simp add: state_get_def empty_state_def tenants_of_def)
  have plan: "plan_external_id (du_statuses sample_env) Map.empty None None (uuid_str 7) crowdstrike ''Prod''
      (StatusNamed ''PRODUCTION'') None sample_world = (Inr \<lparr>act_kind = Create, act_id = None\<rparr>, sample_world)"
    by (simp add: plan_external_id_def raw_rule_document_def legacy_key_error_def sample_world_def sample_load get
        unpersisted_error_def env_set_def check_ci_environment_def sample_env_def)
  let ?planned = "[(sample_mdr, \<lparr>act_kind = Create, act_id = None\<rparr>)]"
  have screen: "screened sample_env None crowdstrike ''Prod'' (\<lambda>r. map_option cc_status (mdr_block r)) [sample_mdr] (sample_run :: CsRequest DeployRun)
      = (Inr ?planned, sample_run)"
    using plan by (simp add: screened_def andthen_def ask_world_def ret_def sample_run_def sample_mdr_def sample_block_def sample_env_def)
  obtain sv calls where conn: "connect_crowdstrike sample_vendor sample_tenant sample_run = (Inr sv, sample_run\<lparr>dr_calls := calls\<rparr>)"
    by (simp add: connect_crowdstrike_def andthen_def sample_tenant_def tenant_tls_verify_def get_base_api_def ret_def
        get_access_token_def send_def sample_vendor_def response_json_def jobj_def token_of_def dget_str_def)
  have lower: "py_lower ''Detection'' = ''detection''" "py_lower ''Verbose'' = ''verbose''"
    by code_simp+
  obtain rule where compile: "compile_deployment_crowdstrike (du_statuses sample_env) sample_mdr sample_tenant = Inr rule"
    using lower by (simp add: compile_deployment_crowdstrike_def sample_mdr_def sample_block_def sample_env_def Let_def
        or_text_def map_severity_def)
  let ?created = "\<lambda>s. s\<lparr>dr_calls := dr_calls s @ [CsPost (sv_rules_endpoint sv) (remove_none_values (rule_asdict rule))]\<rparr>"
  have create: "create_detection_rule sample_vendor sv rule s = (Inr (PStr ''ab12''), ?created s)" for s
    by (simp add: create_detection_rule_def andthen_def send_def sample_vendor_def response_json_def jobj_def created_id_def ret_def)
  define s0 where "s0 = sample_run\<lparr>dr_calls := calls\<rparr>"
  obtain s' where run: "run_tenant crowdstrike ''Prod''
      (\<lambda>r a. deploy_mdr_crowdstrike sample_env sample_vendor sv sample_tenant r (Some a)) ?planned s0 = (Inr (), s')"
    "w_dir (dr_world s') = dir'" "w_env (dr_world s') error_flag = None"
    using rec
    by (simp add: run_tenant_def andthen_def deploying_def on_world_def update_state_def deploy_mdr_crowdstrike_def
        given_or_planned_def compile act_on_tenant_def create created_or_reported_def record_created_def ret_def
        on_events_def s0_def sample_run_def sample_world_def sample_fields log_line_def crowdstrike_def Let_def)
  have "deploy_tenant_crowdstrike sample_env sample_vendor None sample_tenant [sample_mdr] sample_run = (Inr (), s')"
    using screen conn run(1)
    by (simp add: deploy_tenant_crowdstrike_def deploy_planned_def andthen_def sample_tenant_def s0_def)
  moreover from rec obtain st where "load_state dir' (PStr (uuid_str 7)) = Inr st"
    "state_get st crowdstrike ''Prod'' = Some ''ab12''"
    by (rule record_load) (simp add: crowdstrike_def)
  ultimately show thesis using that run(2,3) plan by simp
qed

theorem crowdstrike_second_run_creates_nothing_witness:
  "\<exists>s' action. deploy_tenant_crowdstrike sample_env sample_vendor None sample_tenant [sample_mdr] sample_run = (Inr (), s')
     \<and> fst (plan_external_id (du_statuses sample_env) Map.empty None None (uuid_str 7) crowdstrike ''Prod''
          (StatusNamed ''PRODUCTION'') None (dr_world s')) = Inr action \<and> act_kind action \<noteq> Create"
proof -
  obtain s' st where run: "deploy_tenant_crowdstrike sample_env sample_vendor None sample_tenant [sample_mdr] sample_run = (Inr (), s')"
    and ok: "w_env (dr_world s') error_flag = None" and st: "load_state (w_dir (dr_world s')) (PStr (uuid_str 7)) = Inr st"
      "state_get st crowdstrike ''Prod'' = Some ''ab12''"
    and first: "fst (plan_external_id (du_statuses sample_env) Map.empty None None (uuid_str 7) crowdstrike ''Prod''
        (StatusNamed ''PRODUCTION'') None sample_world) = Inr \<lparr>act_kind = Create, act_id = None\<rparr>"
    by (rule sample_second_run)
  have "fst (plan_external_id (du_statuses sample_env) Map.empty None None (uuid_str 7) crowdstrike ''Prod''
      (StatusNamed ''PRODUCTION'') None (dr_world s')) = Inr \<lparr>act_kind = Update, act_id = Some ''ab12''\<rparr>"
    using st by (subst plan_entry) (auto simp: raw_rule_document_def legacy_key_error_def sample_env_def)
  moreover have "distinct (map (\<lambda>r. canonical_uuid (PStr (ref_uuid r))) [sample_mdr])" by simp
  ultimately show ?thesis
    using crowdstrike_second_run_creates_nothing [OF run _ ok, where r = sample_mdr and block = sample_block and w = "dr_world s'"
        and action = "\<lparr>act_kind = Create, act_id = None\<rparr>" and statuses = "du_statuses sample_env" and index = Map.empty
        and ignore = None and strategies' = None and status = "StatusNamed ''PRODUCTION''" and raw = None] run first
    by (auto simp: sample_mdr_def sample_block_def sample_tenant_def sample_env_def sample_run_def)
qed

theorem crowdstrike_requests_witness:
  "\<exists>s'. deploy_tenant_crowdstrike sample_env sample_vendor None sample_tenant [sample_mdr] sample_run = (Inr (), s')
     \<and> hd (dr_calls s') = CsToken ''https://api.eu-1.crowdstrike.com/oauth2/token'' ''c'' ''s''"
proof -
  obtain s' where run: "deploy_tenant_crowdstrike sample_env sample_vendor None sample_tenant [sample_mdr] sample_run = (Inr (), s')"
    and first: "fst (plan_external_id (du_statuses sample_env) Map.empty None None (uuid_str 7) crowdstrike ''Prod''
        (StatusNamed ''PRODUCTION'') None sample_world) = Inr \<lparr>act_kind = Create, act_id = None\<rparr>"
    by (rule sample_second_run)
  have "planned_rules sample_env None crowdstrike ''Prod'' (\<lambda>r. map_option cc_status (mdr_block r)) sample_world [sample_mdr] \<noteq> []"
    using first by (simp add: planned_rules_def first_plan_def rule_plan_def sample_mdr_def sample_block_def)
      (simp add: sample_env_def)
  with crowdstrike_requests [OF run] have "hd (dr_calls s') = CsToken ''https://api.eu-1.crowdstrike.com/oauth2/token'' ''c'' ''s''"
    by (auto simp: Let_def sample_tenant_def sample_run_def get_base_api_def)
  with run show ?thesis by blast
qed

end
