(* ===== verification/Sentinel_One.thy ===== *)
theory Sentinel_One
  imports Deploy_Run
begin

text \<open>
  \<open>platforms/sentinel_one\<close>: the STAR rule a detection rule becomes, the client and the deployer. Ids of
  this platform are integers in the API and their decimal text in the deployment state.
\<close>

section \<open>Rules as they are written\<close>

record SentinelOneDetails =
  s1d_name :: "string option"
  s1d_description :: "string option"
  s1d_severity :: "string option"
  s1d_expiration :: "string option"

record SentinelOneSubQuery =
  s1q_query :: string
  s1q_matches_required :: int

record SentinelOneCorrelation =
  s1c_entity :: string
  s1c_match_in_order :: bool
  s1c_time_window :: string
  s1c_sub_queries :: "SentinelOneSubQuery list"

record SentinelOneCondition =
  s1_type :: string
  s1_single_event :: "string option"
  s1_correlation :: "SentinelOneCorrelation option"
  s1_cool_off :: "string option"

text \<open>\<open>treat_as_threat\<close> is \<open>False\<close> (\<open>None\<close> here) or a verdict.\<close>

record SentinelOneResponse =
  s1_treat_as_threat :: "string option"
  s1_network_quarantine :: bool

record SentinelOneConfig =
  s1_status :: string
  s1_condition :: SentinelOneCondition
  s1_response :: "SentinelOneResponse option"
  s1_details :: "SentinelOneDetails option"

type_synonym SentinelOneMdr = "SentinelOneConfig Mdr"

record SentinelOneTenant =
  s1t_name :: string
  s1t_ssl :: pyval
  s1t_url :: string
  s1t_account_id :: int
  s1t_api_token :: string
  s1t_site_id :: "int option"

section \<open>Rules as they are sent\<close>

record CorrelationParams =
  cp_entity :: string
  cp_match_in_order :: bool
  cp_sub_queries :: "(int \<times> string) list"
  cp_window_minutes :: "int option"

record SentinelOneData =
  sd_expiration_mode :: string
  sd_name :: string
  sd_description :: string
  sd_query_type :: string
  sd_severity :: string
  sd_status :: string
  sd_network_quarantine :: "bool option"
  sd_treat_as_threat :: "string option"
  sd_s1ql :: "string option"
  sd_expiration :: "string option"
  sd_renotify_minutes :: "int option"
  sd_correlation :: "CorrelationParams option"

datatype SentinelOneFilter = SiteIds "string list" | AccountIds "string list"

record SentinelOneRule =
  sr_data :: SentinelOneData
  sr_filter :: SentinelOneFilter

definition severity_mapping_s1 :: "string \<Rightarrow> Exn + string" where
  "severity_mapping_s1 severity =
     (if severity = ''Informational'' then Inr ''Low''
      else if severity \<in> {''Low'', ''Medium'', ''High'', ''Critical''} then Inr severity
      else Inl (exn Code_Error ''KeyError''))"

definition convert_to_minutes :: "string \<Rightarrow> Exn + int" where
  "convert_to_minutes timespan =
     (if ends_with ''m'' timespan then int_of_text (butlast timespan)
      else if ends_with ''h'' timespan then rbind (int_of_text (butlast timespan)) (\<lambda>hours. Inr (hours * 60))
      else Inl (exn Code_Error ''SentinelOne expects a duration in minutes (30m) or hours (2h)''))"

definition minutes_of :: "string option \<Rightarrow> Exn + int option" where
  "minutes_of timespan =
     (case timespan of
        None \<Rightarrow> Inr None
      | Some t \<Rightarrow> if t = [] then Inr None else rbind (convert_to_minutes t) (\<lambda>m. Inr (Some m)))"

text \<open>The name, description, severity, expiration mode and expiration, with the overrides of \<open>details\<close>.\<close>

definition rule_texts ::
  "SentinelOneMdr \<Rightarrow> string \<Rightarrow> SentinelOneDetails option \<Rightarrow> string \<times> string \<times> string \<times> string \<times> string option" where
  "rule_texts data severity details =
     (case details of
        None \<Rightarrow> (ref_name data, mdr_description data, severity, ''Permanent'', None)
      | Some d \<Rightarrow>
          (or_text (s1d_name d) (ref_name data), or_text (s1d_description d) (mdr_description data),
           or_text (s1d_severity d) severity,
           case s1d_expiration d of Some (c # e) \<Rightarrow> (''Temporary'', Some (c # e)) | _ \<Rightarrow> (''Permanent'', None)))"

definition response_of :: "SentinelOneResponse option \<Rightarrow> string option \<times> bool option" where
  "response_of response =
     (case response of
        None \<Rightarrow> (None, None)
      | Some r \<Rightarrow>
          (Some (case s1_treat_as_threat r of None \<Rightarrow> ''UNDEFINED'' | Some verdict \<Rightarrow> verdict),
           Some (s1_network_quarantine r)))"

text \<open>What the condition says: the query type, the query or the correlation.\<close>

definition condition_parts ::
  "SentinelOneCondition \<Rightarrow> Exn + string \<times> string option \<times> CorrelationParams option" where
  "condition_parts condition =
     (if s1_type condition = ''Single Event''
      then (case s1_single_event condition of
              None \<Rightarrow> Inl (exn Code_Error ''Exception'')
            | Some query \<Rightarrow> Inr (''events'', Some query, None))
      else (case s1_correlation condition of
              None \<Rightarrow> Inl (exn Code_Error ''Exception'')
            | Some correlation \<Rightarrow>
                rbind (minutes_of (Some (s1c_time_window correlation))) (\<lambda>window.
                  Inr (''correlation'', None,
                    Some \<lparr>cp_entity = s1c_entity correlation, cp_match_in_order = s1c_match_in_order correlation,
                          cp_sub_queries = map (\<lambda>q. (s1q_matches_required q, s1q_query q)) (s1c_sub_queries correlation),
                          cp_window_minutes = window\<rparr>))))"

text \<open>
  The site of the tenant, else its account. An account id of 0 without a site leaves the filter
  unbound, and the return statement raises.
\<close>

definition deployment_filter :: "SentinelOneTenant \<Rightarrow> Exn + SentinelOneFilter" where
  "deployment_filter tenant_config =
     (case s1t_site_id tenant_config of
        Some site \<Rightarrow>
          if site \<noteq> 0 then Inr (SiteIds [int_str site])
          else if s1t_account_id tenant_config \<noteq> 0 then Inr (AccountIds [int_str (s1t_account_id tenant_config)])
          else Inl (exn Code_Error ''UnboundLocalError'')
      | None \<Rightarrow>
          if s1t_account_id tenant_config \<noteq> 0 then Inr (AccountIds [int_str (s1t_account_id tenant_config)])
          else Inl (exn Code_Error ''UnboundLocalError''))"

definition compile_deployment_s1 ::
  "DeploymentStatus list \<Rightarrow> SentinelOneMdr \<Rightarrow> SentinelOneTenant \<Rightarrow> Exn + SentinelOneRule" where
  "compile_deployment_s1 statuses data tenant_config =
     (case mdr_block data of
        None \<Rightarrow> Inl (exn Code_Error ''SystemExit'')
      | Some config \<Rightarrow>
          rbind (severity_mapping_s1 (mdr_severity data)) (\<lambda>mapped.
          case check_status statuses (s1_status config) of
            Inl _ \<Rightarrow> Inl (exn Config_Error ''status'')
          | Inr strategy \<Rightarrow>
              (let (rule_name, rule_description, severity, mode, expiration) = rule_texts data mapped (s1_details config);
                   (treat_as_threat, network_quarantine) = response_of (s1_response config)
               in rbind (minutes_of (s1_cool_off (s1_condition config))) (\<lambda>cool_off.
                  if s1_type (s1_condition config) \<notin> {''Single Event'', ''Correlation''}
                  then Inl (exn Code_Error ''Exception'')
                  else rbind (condition_parts (s1_condition config)) (\<lambda>(query_type, query, correlation).
                  rbind (deployment_filter tenant_config) (\<lambda>target.
                    Inr \<lparr>sr_data =
                           \<lparr>sd_expiration_mode = mode, sd_name = rule_name, sd_description = rule_description,
                            sd_query_type = query_type, sd_severity = severity,
                            sd_status = (if strategy = DISABLEMENT then ''Disabled'' else ''Active''),
                            sd_network_quarantine = network_quarantine, sd_treat_as_threat = treat_as_threat,
                            sd_s1ql = query, sd_expiration = expiration, sd_renotify_minutes = cool_off,
                            sd_correlation = correlation\<rparr>,
                         sr_filter = target\<rparr>))))))"

section \<open>The client\<close>

datatype S1Request =
    S1Post string pyval
  | S1Put string pyval
  | S1Delete string pyval

record SentinelOneService =
  s1_rules_endpoint :: string
  s1_query_endpoint :: string

definition connect_s1 :: "SentinelOneTenant \<Rightarrow> (S1Request, SentinelOneService) deploy" where
  "connect_s1 tenant_config =
     andthen (lift_sum (tenant_tls_verify (s1t_ssl tenant_config))) (\<lambda>_.
       ret \<lparr>s1_rules_endpoint = s1t_url tenant_config @ ''/web/api/v2.1/cloud-detection/rules'',
            s1_query_endpoint = s1t_url tenant_config @ ''/web/api/v2.1/dv/events/pq''\<rparr>)"

definition opt_bool :: "bool option \<Rightarrow> pyval" where
  "opt_bool x = (case x of None \<Rightarrow> PNone | Some b \<Rightarrow> PBool b)"

definition opt_obj :: "('a \<Rightarrow> pyval) \<Rightarrow> 'a option \<Rightarrow> pyval" where
  "opt_obj f x = (case x of None \<Rightarrow> PNone | Some a \<Rightarrow> f a)"

definition correlation_asdict :: "CorrelationParams \<Rightarrow> pyval" where
  "correlation_asdict c = jobj
     [(''entity'', PStr (cp_entity c)), (''matchInOrder'', PBool (cp_match_in_order c)),
      (''subQueries'', PList (map (\<lambda>(n, q). jobj [(''matchesRequired'', PInt n), (''subQuery'', PStr q)]) (cp_sub_queries c))),
      (''timeWindow'', opt_obj (\<lambda>m. jobj [(''windowMinutes'', PInt m)]) (cp_window_minutes c))]"

definition s1_asdict :: "SentinelOneRule \<Rightarrow> pyval" where
  "s1_asdict r =
     (let d = sr_data r in jobj
       [(''data'', jobj
          [(''expirationMode'', PStr (sd_expiration_mode d)), (''name'', PStr (sd_name d)),
           (''description'', PStr (sd_description d)), (''queryType'', PStr (sd_query_type d)),
           (''severity'', PStr (sd_severity d)), (''status'', PStr (sd_status d)),
           (''networkQuarantine'', opt_bool (sd_network_quarantine d)), (''treatAsThreat'', opt_val (sd_treat_as_threat d)),
           (''queryLang'', PStr ''2.0''), (''s1ql'', opt_val (sd_s1ql d)), (''expiration'', opt_val (sd_expiration d)),
           (''coolOffSetting'', opt_obj (\<lambda>m. jobj [(''renotifyMinutes'', PInt m)]) (sd_renotify_minutes d)),
           (''correlationParams'', opt_obj correlation_asdict (sd_correlation d))]),
        (''filter'', jobj (case sr_filter r of
             SiteIds is \<Rightarrow> [(''accountIds'', PNone), (''siteIds'', PList (map PStr is))]
           | AccountIds is \<Rightarrow> [(''accountIds'', PList (map PStr is)), (''siteIds'', PNone)]))])"

definition s1_body :: "SentinelOneRule \<Rightarrow> pyval" where
  "s1_body rule = remove_none_values (s1_asdict rule)"

text \<open>
  \<open>_http_errors\<close>: every answer but 200 raises. The last case reads the body for its log line first,
  so an answer that is not JSON raises for that instead.
\<close>

definition http_errors_s1 :: "HttpResponse \<Rightarrow> Exn \<Rightarrow> ('q, 'a) deploy" where
  "http_errors_s1 response error =
     (if hr_status response \<in> {400, 404} then raise error
      else if hr_status response = 401 then raise (exn Config_Error ''TideTenantConfigurationMissingPermissions'')
      else andthen (response_json response) (\<lambda>_. raise error))"

text \<open>\<open>int(request.json()["data"]["id"])\<close>\<close>

definition s1_rule_id :: "(string \<Rightarrow> int option) \<Rightarrow> pyval \<Rightarrow> Exn + int" where
  "s1_rule_id trunc body =
     (case body of
        PDict d \<Rightarrow>
          (case dget d ''data'' of
             Some (PDict e) \<Rightarrow>
               (case dget e ''id'' of
                  Some v \<Rightarrow> int_of_json trunc v
                | None \<Rightarrow> Inl (exn Code_Error ''KeyError''))
           | _ \<Rightarrow> Inl (exn Code_Error ''TypeError''))
      | _ \<Rightarrow> Inl (exn Code_Error ''TypeError''))"

text \<open>
  \<open>create_update_detection_rule\<close>: \<open>if rule_id\<close> takes the id 0 for no id.
\<close>

definition rule_request_s1 :: "SentinelOneService \<Rightarrow> SentinelOneRule \<Rightarrow> int option \<Rightarrow> S1Request" where
  "rule_request_s1 service rule rule_id =
     (case rule_id of
        Some i \<Rightarrow> if i \<noteq> 0 then S1Put (s1_rules_endpoint service @ ''/'' @ int_str i) (s1_body rule)
                  else S1Post (s1_rules_endpoint service) (s1_body rule)
      | None \<Rightarrow> S1Post (s1_rules_endpoint service) (s1_body rule))"

definition create_update_detection_rule ::
  "(string \<Rightarrow> int option) \<Rightarrow> (S1Request, HttpResponse) vendor \<Rightarrow> SentinelOneService \<Rightarrow> SentinelOneRule \<Rightarrow> int option \<Rightarrow> (S1Request, int) deploy" where
  "create_update_detection_rule trunc vendor service rule rule_id =
     andthen (send vendor (rule_request_s1 service rule rule_id)) (\<lambda>response.
       if hr_status response = 200
       then andthen (response_json response) (\<lambda>body. lift_sum (s1_rule_id trunc body))
       else http_errors_s1 response (exn Rule_Error ''DetectionRuleCreationFailed''))"

definition ids_filter :: "int \<Rightarrow> pyval" where
  "ids_filter rule_id = jobj [(''filter'', jobj [(''ids'', PList [PInt rule_id])])]"

definition disable_detection_rule_s1 ::
  "(S1Request, HttpResponse) vendor \<Rightarrow> SentinelOneService \<Rightarrow> int \<Rightarrow> (S1Request, unit) deploy" where
  "disable_detection_rule_s1 vendor service rule_id =
     andthen (send vendor (S1Put (s1_rules_endpoint service) (ids_filter rule_id))) (\<lambda>response.
       if hr_status response = 200 then andthen (response_json response) (\<lambda>_. ret ())
       else http_errors_s1 response (exn Rule_Error ''DetectionRuleDisablingFailed''))"

definition delete_detection_rule_s1 ::
  "(S1Request, HttpResponse) vendor \<Rightarrow> SentinelOneService \<Rightarrow> int \<Rightarrow> (S1Request, unit) deploy" where
  "delete_detection_rule_s1 vendor service rule_id =
     andthen (send vendor (S1Delete (s1_rules_endpoint service) (ids_filter rule_id))) (\<lambda>response.
       if hr_status response = 200 then andthen (response_json response) (\<lambda>_. ret ())
       else http_errors_s1 response (exn Rule_Error ''DetectionRuleDeletionFailed''))"

text \<open>
  \<open>validate_query\<close>: whether the tenant runs the query over the last minute; \<open>window\<close> is the two
  timestamps. A 400 is answered \<open>False\<close>, and its body is read for the log.
\<close>

definition validate_query_s1 ::
  "(S1Request, HttpResponse) vendor \<Rightarrow> SentinelOneService \<Rightarrow> SentinelOneTenant \<Rightarrow> string \<times> string \<Rightarrow> string
    \<Rightarrow> (S1Request, bool) deploy" where
  "validate_query_s1 vendor service tenant_config window query =
     (let site = (case s1t_site_id tenant_config of
                    Some i \<Rightarrow> if i \<noteq> 0 then [(''site_id'', PStr (int_str i))] else []
                  | None \<Rightarrow> [])
      in andthen (send vendor (S1Post (s1_query_endpoint service)
             (jobj ((''accountIds'', PStr (int_str (s1t_account_id tenant_config))) # site
               @ [(''query'', PStr query), (''toDate'', PStr (snd window)), (''fromDate'', PStr (fst window))])))) (\<lambda>response.
           if hr_status response = 200 then ret True
           else if hr_status response = 400 then andthen (response_json response) (\<lambda>_. ret False)
           else andthen (response_json response) (\<lambda>_. raise (exn Rule_Error ''Query validation failed''))))"

section \<open>The deployer\<close>

definition sentinel_one :: string where
  "sentinel_one = ''sentinel_one''"

definition deploy_mdr_s1 ::
  "(string \<Rightarrow> int option) \<Rightarrow> DeployEnv \<Rightarrow> (S1Request, HttpResponse) vendor \<Rightarrow> SentinelOneService \<Rightarrow> SentinelOneTenant \<Rightarrow> SentinelOneMdr
    \<Rightarrow> ExternalIdAction option \<Rightarrow> (S1Request, unit) deploy" where
  "deploy_mdr_s1 trunc env vendor service tenant_config data action =
     (case mdr_block data of
        None \<Rightarrow> raise (exn Code_Error ''Exception'')
      | Some block \<Rightarrow>
          andthen (lift_sum (compile_deployment_s1 (du_statuses env) data tenant_config)) (\<lambda>rule.
            given_or_planned env sentinel_one (ref_uuid data) (s1t_name tenant_config) (s1_status block) action (\<lambda>a.
              act_on_tenant env sentinel_one (ref_uuid data) (s1t_name tenant_config) a
                (andthen (create_update_detection_rule trunc vendor service rule None) (\<lambda>i. ret (PInt i)))
                (\<lambda>known. andthen (lift_sum (int_of_text known)) (\<lambda>i.
                   andthen (create_update_detection_rule trunc vendor service rule (Some i)) (\<lambda>_. ret ())))
                (\<lambda>known. andthen (lift_sum (int_of_text known)) (delete_detection_rule_s1 vendor service)))))"

definition deploy_tenant_s1 ::
  "(string \<Rightarrow> int option) \<Rightarrow> DeployEnv \<Rightarrow> (S1Request, HttpResponse) vendor \<Rightarrow> RunStrategies option \<Rightarrow> SentinelOneTenant \<Rightarrow> SentinelOneMdr list
    \<Rightarrow> (S1Request, unit) deploy" where
  "deploy_tenant_s1 trunc env vendor strategies tenant_config =
     deploy_planned env strategies sentinel_one (s1t_name tenant_config) (\<lambda>r. map_option s1_status (mdr_block r))
       (connect_s1 tenant_config)
       (\<lambda>service r a. deploy_mdr_s1 trunc env vendor service tenant_config r (Some a))"

definition deploy_s1 ::
  "(string \<Rightarrow> int option) \<Rightarrow> DeployEnv \<Rightarrow> (S1Request, HttpResponse) vendor \<Rightarrow> (string \<Rightarrow> SentinelOneMdr option)
    \<Rightarrow> (SentinelOneMdr list \<Rightarrow> RunStrategies option \<Rightarrow> Exn + (SentinelOneTenant \<times> SentinelOneMdr list) list)
    \<Rightarrow> SentinelOneMdr mdr_arg list \<Rightarrow> RunStrategies option \<Rightarrow> (S1Request, unit) deploy" where
  "deploy_s1 trunc env vendor rules resolve mdr_deployment strategies =
     deploy_batches rules resolve (deploy_tenant_s1 trunc env vendor strategies) mdr_deployment strategies"

section \<open>Laws\<close>

lemma keeps_http_errors [run_frames]: "preserves same_world (http_errors_s1 response e)"
  unfolding http_errors_s1_def by (auto intro!: run_frames)

lemma keeps_client_s1 [run_frames]:
  "preserves same_world (create_update_detection_rule trunc vendor service rule i)"
  "preserves same_world (delete_detection_rule_s1 vendor service j)"
  "preserves same_world (connect_s1 tenant_config)"
  unfolding create_update_detection_rule_def delete_detection_rule_s1_def connect_s1_def
  by (auto intro!: run_frames)

lemma keeps_branches_s1:
  "preserves no_shard (andthen (create_update_detection_rule trunc vendor service rule None) (\<lambda>i. ret (PInt i)))"
  "preserves no_shard (andthen (lift_sum (int_of_text known)) (\<lambda>i.
      andthen (create_update_detection_rule trunc vendor service rule (Some i)) (\<lambda>_. ret ())))"
  "preserves no_shard (andthen (lift_sum (int_of_text known)) (delete_detection_rule_s1 vendor service))"
  by (intro silent_shard run_frames)+

lemma deploy_mdr_s1_Inr:
  assumes "deploy_mdr_s1 trunc env vendor service tenant_config r (Some a) s = (Inr (), s')"
  obtains rule where "compile_deployment_s1 (du_statuses env) r tenant_config = Inr rule"
    "act_on_tenant env sentinel_one (ref_uuid r) (s1t_name tenant_config) a
                (andthen (create_update_detection_rule trunc vendor service rule None) (\<lambda>i. ret (PInt i)))
                (\<lambda>known. andthen (lift_sum (int_of_text known)) (\<lambda>i.
                   andthen (create_update_detection_rule trunc vendor service rule (Some i)) (\<lambda>_. ret ())))
                (\<lambda>known. andthen (lift_sum (int_of_text known)) (delete_detection_rule_s1 vendor service)) s = (Inr (), s')"
  using assms by (auto simp: deploy_mdr_s1_def given_or_planned_def effect_Inr split: option.splits)

interpretation star: id_deployer sentinel_one "s1t_name tenant_config"
  "\<lambda>r a. deploy_mdr_s1 trunc env vendor service tenant_config r (Some a)"
  for trunc env vendor service tenant_config
proof
  show "preserves (only_shard (ref_uuid r)) (deploy_mdr_s1 trunc env vendor service tenant_config r (Some a))" for r a
    unfolding deploy_mdr_s1_def given_or_planned_def
    by (auto intro!: run_frames keeps_branches_s1 split: option.split)
  show "settled sentinel_one (s1t_name tenant_config) (r, a) (dr_world s')"
    if "planned_ok sentinel_one (s1t_name tenant_config) (r, a) (dr_world s)"
      and "deploy_mdr_s1 trunc env vendor service tenant_config r (Some a) s = (Inr (), s')"
      and "\<not> flagged (dr_world s')" for r a s s'
    using that(2) by (rule deploy_mdr_s1_Inr) (rule act_on_tenant_settles [OF keeps_branches_s1 that(1) _ that(3)])
qed

interpretation star_tenant: tenant_deployer sentinel_one "s1t_name tenant_config" "\<lambda>r. map_option s1_status (mdr_block r)"
  "connect_s1 tenant_config"
  "\<lambda>service r a. deploy_mdr_s1 trunc env vendor service tenant_config r (Some a)"
  for trunc env vendor tenant_config
  by unfold_locales (rule keeps_client_s1(3))


section \<open>The requests of a run\<close>

text \<open>The request of one planned rule, given the rules endpoint of the tenant.\<close>

definition request_for_s1 :: "SentinelOneService \<Rightarrow> SentinelOneRule \<Rightarrow> ExternalIdAction \<Rightarrow> S1Request list" where
  "request_for_s1 service rule a =
     (case act_kind a of
        Create \<Rightarrow> [rule_request_s1 service rule None]
      | Update \<Rightarrow> [rule_request_s1 service rule (py_int (the (act_id a)))]
      | Delete \<Rightarrow> [S1Delete (s1_rules_endpoint service) (ids_filter (the (py_int (the (act_id a)))))])"

lemma http_errors_Inr [simp]: "http_errors_s1 response e s \<noteq> (Inr x, s')"
  by (simp add: http_errors_s1_def effect_Inr)

lemma client_calls_s1:
  "create_update_detection_rule trunc vendor service rule i s = (Inr n, s') \<Longrightarrow>
     dr_calls s' = dr_calls s @ [rule_request_s1 service rule i]"
  "delete_detection_rule_s1 vendor service j s = (Inr y, s') \<Longrightarrow>
     dr_calls s' = dr_calls s @ [S1Delete (s1_rules_endpoint service) (ids_filter j)]"
  by (auto simp: create_update_detection_rule_def delete_detection_rule_s1_def effect_Inr send_Inr
      response_json_Inr split: if_splits)

lemma deploy_mdr_s1_calls:
  assumes "deploy_mdr_s1 trunc env vendor service tenant_config r (Some a) s = (Inr (), s')"
  obtains rule where "compile_deployment_s1 (du_statuses env) r tenant_config = Inr rule"
    "dr_calls s' = dr_calls s @ request_for_s1 service rule a"
proof -
  from assms obtain rule where c: "compile_deployment_s1 (du_statuses env) r tenant_config = Inr rule"
    and run: "act_on_tenant env sentinel_one (ref_uuid r) (s1t_name tenant_config) a
                (andthen (create_update_detection_rule trunc vendor service rule None) (\<lambda>i. ret (PInt i)))
                (\<lambda>known. andthen (lift_sum (int_of_text known)) (\<lambda>i.
                   andthen (create_update_detection_rule trunc vendor service rule (Some i)) (\<lambda>_. ret ())))
                (\<lambda>known. andthen (lift_sum (int_of_text known)) (delete_detection_rule_s1 vendor service)) s = (Inr (), s')"
    by (rule deploy_mdr_s1_Inr)
  have "dr_calls s' = dr_calls s @ (case act_kind a of Create \<Rightarrow> [rule_request_s1 service rule None]
      | Update \<Rightarrow> [rule_request_s1 service rule (py_int (the (act_id a)))]
      | Delete \<Rightarrow> [S1Delete (s1_rules_endpoint service) (ids_filter (the (py_int (the (act_id a)))))])"
    by (rule act_on_tenant_calls [OF run]) (auto simp: effect_Inr int_of_text_Inr dest!: client_calls_s1)
  with c that show thesis by (simp add: request_for_s1_def)
qed


section \<open>Properties\<close>

lemma connect_s1_Inr:
  "connect_s1 tenant_config s = (Inr service, s') \<Longrightarrow> s' = s
     \<and> s1_rules_endpoint service = s1t_url tenant_config @ ''/web/api/v2.1/cloud-detection/rules''"
  by (auto simp: connect_s1_def effect_Inr)

lemma created_id_recorded:
  assumes "deploy_mdr_s1 trunc env vendor service tenant_config r (Some a) s = (Inr (), s')"
    and "act_kind a = Create" and "\<not> flagged (dr_world s')"
  obtains rule response body i st where "compile_deployment_s1 (du_statuses env) r tenant_config = Inr rule"
    "vendor (dr_calls s) (rule_request_s1 service rule None) = Inr response"
    "hr_status response = 200" "hr_json response = Some body" "s1_rule_id trunc body = Inr i" "0 \<le> i"
    "load_state (w_dir (dr_world s')) (PStr (ref_uuid r)) = Inr st"
    "state_get st sentinel_one (s1t_name tenant_config) = Some (nat_str (nat i))"
proof -
  from assms(1,2) obtain rule i s1 where c: "compile_deployment_s1 (du_statuses env) r tenant_config = Inr rule"
    and create: "create_update_detection_rule trunc vendor service rule None s = (Inr i, s1)"
    and rec: "created_or_reported env sentinel_one (ref_uuid r) (s1t_name tenant_config) (PInt i) s1 = (Inr (), s')"
    by (elim deploy_mdr_s1_Inr) (auto simp: act_on_tenant_def effect_Inr)
  from create obtain response body where "vendor (dr_calls s) (rule_request_s1 service rule None) = Inr response"
    "hr_status response = 200" "hr_json response = Some body" "s1_rule_id trunc body = Inr i"
    by (auto simp: create_update_detection_rule_def effect_Inr send_Inr response_json_Inr split: if_splits)
  moreover from created_or_reported_stored [OF rec assms(3)] obtain st stored
    where "normalise_external_id sentinel_one (PInt i) = Inr stored"
      "load_state (w_dir (dr_world s')) (PStr (ref_uuid r)) = Inr st"
      "state_get st sentinel_one (s1t_name tenant_config) = Some stored" by blast
  moreover from this(1) have "0 \<le> i \<and> stored = nat_str (nat i)"
    by (auto simp: normalise_external_id.simps int_str_def split: if_splits)
  ultimately show thesis using that c by blast
qed

text \<open>
  The deployer addresses the rule it created: when a rule is created and the run carries no error flag, the
  number the tenant answered is what any later run of the rule sends, whatever the rule says by
  then: one request, a PUT to that number or a DELETE of it, never a create. A tenant that answers 0
  is the exception: the client takes the id 0 for no id and creates the rule again.
\<close>

theorem sentinel_one_addresses_what_it_created:
  assumes "deploy_mdr_s1 trunc env vendor service tenant_config r (Some a) s = (Inr (), s')"
    and "act_kind a = Create" and "w_env (dr_world s') error_flag = None"
    and "w_dir w = w_dir (dr_world s')"
    and "fst (plan_external_id statuses index ignore strategies (ref_uuid r) sentinel_one (s1t_name tenant_config)
        status raw w) = Inr a'"
    and "deploy_mdr_s1 trunc env' vendor' service' tenant_config r' (Some a') t = (Inr (), t')"
  shows "\<exists>rule response body i rule'. vendor (dr_calls s) (rule_request_s1 service rule None) = Inr response
    \<and> hr_json response = Some body \<and> s1_rule_id trunc body = Inr i
    \<and> dr_calls t' = dr_calls t @
        [if act_kind a' = Delete then S1Delete (s1_rules_endpoint service') (ids_filter i)
         else if i = 0 then S1Post (s1_rules_endpoint service') (s1_body rule')
         else S1Put (s1_rules_endpoint service' @ ''/'' @ nat_str (nat i)) (s1_body rule')]"
proof -
  from assms(1-3) obtain rule response body i st where
    answer: "vendor (dr_calls s) (rule_request_s1 service rule None) = Inr response"
      "hr_json response = Some body" "s1_rule_id trunc body = Inr i"
    and i: "0 \<le> i"
    and st: "load_state (w_dir (dr_world s')) (PStr (ref_uuid r)) = Inr st"
      "state_get st sentinel_one (s1t_name tenant_config) = Some (nat_str (nat i))"
    by (auto simp: flagged_def elim: created_id_recorded)
  from assms(4,5) st have known: "act_id a' = Some (nat_str (nat i))" "act_kind a' \<noteq> Create"
    by (auto elim!: plan_agrees)
  from assms(6) obtain rule' where "dr_calls t' = dr_calls t @ request_for_s1 service' rule' a'"
    by (rule deploy_mdr_s1_calls)
  moreover have "py_int (the (act_id a')) = Some i" "int_str i = nat_str (nat i)"
    using known i by (simp_all add: int_str_def del: nat_str_zero)
  ultimately have "dr_calls t' = dr_calls t @
        [if act_kind a' = Delete then S1Delete (s1_rules_endpoint service') (ids_filter i)
         else if i = 0 then S1Post (s1_rules_endpoint service') (s1_body rule')
         else S1Put (s1_rules_endpoint service' @ ''/'' @ nat_str (nat i)) (s1_body rule')]"
    using known(2) by (auto simp: request_for_s1_def rule_request_s1_def split: action_kind.splits)
  with answer show ?thesis by blast
qed

definition sample_s1_tenant :: SentinelOneTenant where
  "sample_s1_tenant = \<lparr>s1t_name = ''Prod'', s1t_ssl = PBool True, s1t_url = ''https://s1'', s1t_account_id = 5,
     s1t_api_token = ''t'', s1t_site_id = None\<rparr>"

definition sample_s1_mdr :: SentinelOneMdr where
  "sample_s1_mdr = \<lparr>ref_uuid = uuid_str 7, ref_name = ''Rule'', mdr_description = ''d'', mdr_severity = ''High'',
     mdr_author = None, mdr_block = Some \<lparr>s1_status = ''PRODUCTION'',
       s1_condition = \<lparr>s1_type = ''Single Event'', s1_single_event = Some ''q'', s1_correlation = None, s1_cool_off = Some ''2h''\<rparr>,
       s1_response = None, s1_details = None\<rparr>\<rparr>"

definition sample_s1_service :: SentinelOneService where
  "sample_s1_service = \<lparr>s1_rules_endpoint = ''https://s1/rules'', s1_query_endpoint = ''https://s1/pq''\<rparr>"

definition sample_s1_vendor :: "(S1Request, HttpResponse) vendor" where
  "sample_s1_vendor calls q = Inr \<lparr>hr_status = 200, hr_json = Some (jobj [(''data'', jobj [(''id'', PInt 42)])]),
     hr_text = [], hr_content_type = []\<rparr>"

lemma sample_s1_compiles:
  obtains rule where "compile_deployment_s1 (du_statuses sample_env) sample_s1_mdr sample_s1_tenant = Inr rule"
    "sd_renotify_minutes (sr_data rule) = Some 120"
proof -
  have "py_int ''2'' = Some 2" by code_simp
  then show thesis
    using that by (simp add: compile_deployment_s1_def sample_s1_mdr_def sample_env_def sample_s1_tenant_def severity_mapping_s1_def
        rule_texts_def response_of_def minutes_of_def convert_to_minutes_def int_of_text_def ends_with_def
        condition_parts_def deployment_filter_def)
qed

theorem sentinel_one_addresses_what_it_created_witness:
  "\<exists>s' t' a' body. deploy_mdr_s1 Map.empty sample_env sample_s1_vendor sample_s1_service sample_s1_tenant sample_s1_mdr
       (Some \<lparr>act_kind = Create, act_id = None\<rparr>) sample_run = (Inr (), s')
     \<and> deploy_mdr_s1 Map.empty sample_env sample_s1_vendor sample_s1_service sample_s1_tenant sample_s1_mdr (Some a') s' = (Inr (), t')
     \<and> dr_calls t' = dr_calls s' @ [S1Put ''https://s1/rules/42'' body]"
proof -
  obtain rule where c: "compile_deployment_s1 (du_statuses sample_env) sample_s1_mdr sample_s1_tenant = Inr rule"
    by (rule sample_s1_compiles)
  have "''sentinel_one'' \<in> set state_platforms" "normalise_external_id ''sentinel_one'' (PInt 42) = Inr (nat_str 42)"
    by (simp_all add: state_platforms_def normalise_external_id.simps int_str_def)
  from sample_record_for [OF this] obtain dir' where rec: "record_external_id True (PStr (uuid_str 7)) ''sentinel_one'' ''Prod'' (PInt 42) [] = Inr (nat_str 42, dir')" .
  have fields: "ref_uuid sample_s1_mdr = uuid_str 7" "s1t_name sample_s1_tenant = ''Prod''" "du_writable sample_env = True"
    "\<exists>block. mdr_block sample_s1_mdr = Some block \<and> s1_status block = ''PRODUCTION''"
    by (simp_all add: sample_s1_mdr_def sample_s1_tenant_def sample_env_def)
  have answer: "create_update_detection_rule Map.empty sample_s1_vendor sample_s1_service rule i s
      = (Inr 42, s\<lparr>dr_calls := dr_calls s @ [rule_request_s1 sample_s1_service rule i]\<rparr>)" for i s
    by (simp add: create_update_detection_rule_def andthen_def send_def sample_s1_vendor_def response_json_def jobj_def
        s1_rule_id_def int_of_json_def ret_def)
  obtain s' where run: "deploy_mdr_s1 Map.empty sample_env sample_s1_vendor sample_s1_service sample_s1_tenant sample_s1_mdr
       (Some \<lparr>act_kind = Create, act_id = None\<rparr>) sample_run = (Inr (), s')"
    "w_dir (dr_world s') = dir'" "w_env (dr_world s') error_flag = None"
    using rec fields by (auto simp: deploy_mdr_s1_def given_or_planned_def c act_on_tenant_def andthen_def answer ret_def
        created_or_reported_def record_created_def on_world_def update_state_def sample_run_def sample_world_def
        sentinel_one_def log_line_def)
  from rec obtain st where st: "load_state dir' (PStr (uuid_str 7)) = Inr st" "state_get st sentinel_one ''Prod'' = Some (nat_str 42)"
    by (rule record_load) (simp add: sentinel_one_def)
  have plan: "fst (plan_external_id (du_statuses sample_env) Map.empty None None (ref_uuid sample_s1_mdr) sentinel_one
      (s1t_name sample_s1_tenant) (StatusNamed ''PRODUCTION'') None (dr_world s')) = Inr \<lparr>act_kind = Update, act_id = Some (nat_str 42)\<rparr>"
    using st run(2) fields by (subst plan_entry) (auto simp: raw_rule_document_def legacy_key_error_def sample_env_def)
  obtain t' where run': "deploy_mdr_s1 Map.empty sample_env sample_s1_vendor sample_s1_service sample_s1_tenant sample_s1_mdr
       (Some \<lparr>act_kind = Update, act_id = Some (nat_str 42)\<rparr>) s' = (Inr (), t')"
    using fields by (auto simp: deploy_mdr_s1_def given_or_planned_def c act_on_tenant_def andthen_def answer ret_def
        known_id_of_def known_id_def int_of_text_def)
  from sentinel_one_addresses_what_it_created [OF run(1) _ run(3) refl plan run'] obtain rule'
    where "dr_calls t' = dr_calls s' @ [S1Put (s1_rules_endpoint sample_s1_service @ ''/'' @ nat_str 42) (s1_body rule')]"
    by (auto simp: sample_s1_vendor_def s1_rule_id_def jobj_def int_of_json_def)
  moreover have "nat_str 42 = ''42''" by code_simp
  ultimately show ?thesis using run(1) run' by (auto simp: sample_s1_service_def)
qed

end
