(* ===== verification/Kql.thy ===== *)
theory Kql
  imports Py_Prelude
begin

text \<open>
  \<open>platforms/kql.py\<close>: the KQL query of a rule for one tenant, with the exclusions of the rule as \<open>let\<close>
  bindings before it and filters after it. The reader of a KQL string literal is the documented one: a
  backslash escapes the next character, and the literal ends at the first quote that is not escaped.
\<close>

section \<open>String literals\<close>

definition kql_char :: "char \<Rightarrow> string" where
  "kql_char c =
     (if c = CHR 0x5C then [CHR 0x5C, CHR 0x5C]
      else if c = CHR 0x22 then [CHR 0x5C, CHR 0x22]
      else if c = CHR 0x0A then [CHR 0x5C, CHR ''n'']
      else if c = CHR 0x0D then [CHR 0x5C, CHR ''r'']
      else if c = CHR 0x09 then [CHR 0x5C, CHR ''t'']
      else [c])"

definition kql_string :: "string \<Rightarrow> string" where
  "kql_string s = CHR 0x22 # concat (map kql_char s) @ [CHR 0x22]"

section \<open>The query\<close>

record KqlExclusion =
  kx_query :: string
  kx_tenant :: "string option"
  kx_let :: "(string \<times> pyval) list option"

definition applies_to :: "string \<Rightarrow> KqlExclusion \<Rightarrow> bool" where
  "applies_to tenant e = (kx_tenant e = Some tenant \<or> kx_tenant e = None \<or> kx_tenant e = Some [])"

text \<open>A value of another type than these is skipped with a warning.\<close>

definition kql_value :: "pyval \<Rightarrow> string option" where
  "kql_value v =
     (case v of
        PBool b \<Rightarrow> Some (if b then ''true'' else ''false'')
      | PInt i \<Rightarrow> Some (int_str i)
      | PFloat f \<Rightarrow> Some f
      | PStr s \<Rightarrow> Some (kql_string s)
      | _ \<Rightarrow> None)"

definition add_let :: "(string \<times> string) list \<Rightarrow> string \<times> pyval \<Rightarrow> (string \<times> string) list" where
  "add_let lets = (\<lambda>(variable, v).
     case kql_value v of None \<Rightarrow> lets | Some text \<Rightarrow> AList.update variable text lets)"

definition let_bindings :: "KqlExclusion \<Rightarrow> (string \<times> pyval) list" where
  "let_bindings e = (case kx_let e of None \<Rightarrow> [] | Some items \<Rightarrow> items)"

definition let_literals :: "KqlExclusion list \<Rightarrow> (string \<times> string) list" where
  "let_literals applied = foldl add_let [] (concat (map let_bindings applied))"

definition let_statement :: "string \<times> string \<Rightarrow> string" where
  "let_statement = (\<lambda>(variable, text). ''let '' @ variable @ '' = '' @ text @ '';'')"

definition newline :: string where
  "newline = [CHR 0x0A]"

definition compile_kql_query :: "string \<Rightarrow> KqlExclusion list option \<Rightarrow> string \<Rightarrow> string" where
  "compile_kql_query base_query exclusions tenant =
     (let applied = filter (applies_to tenant) (case exclusions of None \<Rightarrow> [] | Some es \<Rightarrow> es);
          lets = map let_statement (let_literals applied);
          query = (if lets \<noteq> [] then str_join newline lets @ newline @ base_query else base_query)
      in if applied \<noteq> [] then query @ newline @ str_join newline (map kx_query applied) else query)"

section \<open>Laws\<close>

fun kql_unescape :: "char \<Rightarrow> char" where
  "kql_unescape c = (if c = CHR ''n'' then CHR 0x0A else if c = CHR ''r'' then CHR 0x0D else if c = CHR ''t'' then CHR 0x09 else c)"

fun read_chars :: "string \<Rightarrow> (string \<times> string) option" where
  "read_chars [] = None"
| "read_chars (c # s) =
     (if c = CHR 0x22 then Some ([], s)
      else if c = CHR 0x5C then
        (case s of [] \<Rightarrow> None | e # t \<Rightarrow> map_option (\<lambda>(x, rest). (kql_unescape e # x, rest)) (read_chars t))
      else map_option (\<lambda>(x, rest). (c # x, rest)) (read_chars s))"

fun read_literal :: "string \<Rightarrow> (string \<times> string) option" where
  "read_literal [] = None"
| "read_literal (c # s) = (if c = CHR 0x22 then read_chars s else None)"

lemma read_kql_char: "read_chars (kql_char c @ s) = map_option (\<lambda>(x, rest). (c # x, rest)) (read_chars s)"
  by (simp add: kql_char_def)

lemma read_kql_chars: "read_chars (concat (map kql_char s) @ CHR 0x22 # rest) = Some (s, rest)"
  by (induction s) (simp_all add: read_kql_char)

text \<open>
  A value cannot leave its literal: wherever the literal of a value stands in a query, a reader of KQL takes
  exactly that value and goes on exactly after the literal, whatever the value holds: quotes,
  backslashes, line breaks. A literal holds no line break.
\<close>

theorem kql_literal_is_read_back:
  "read_literal (kql_string s @ rest) = Some (s, rest) \<and> CHR 0x0A \<notin> set (kql_string s)"
proof -
  have "CHR 0x0A \<notin> set (kql_char c)" for c by (auto simp: kql_char_def)
  then show ?thesis by (auto simp: kql_string_def read_kql_chars)
qed

lemma map_of_add_let:
  "map_of (add_let lets (x, v)) y = (if x = y \<and> kql_value v \<noteq> None then kql_value v else map_of lets y)"
  by (auto simp: add_let_def map_of_update split: option.split)

lemma distinct_add_let: "distinct (map fst lets) \<Longrightarrow> distinct (map fst (add_let lets b))"
  by (auto simp: add_let_def distinct_update split: option.split prod.split)

lemma foldl_add_let:
  "distinct (map fst lets) \<Longrightarrow> distinct (map fst (foldl add_let lets bs))
    \<and> map_of (foldl add_let lets bs) x =
       (case map_of (rev (List.map_filter (\<lambda>(y, v). map_option (Pair y) (kql_value v)) bs)) x of
          None \<Rightarrow> map_of lets x | Some text \<Rightarrow> Some text)"
proof (induction bs arbitrary: lets)
  case (Cons b bs)
  obtain y v where b: "b = (y, v)" by force
  from Cons.IH [OF distinct_add_let [OF Cons.prems], of b] show ?case
    by (cases "kql_value v") (auto simp: b map_of_add_let map_filter_simps map_of_append split: option.splits)
qed (simp add: map_filter_simps)

text \<open>The values the exclusions give a variable, the last one first.\<close>

definition values_of :: "KqlExclusion list \<Rightarrow> (string \<times> string) list" where
  "values_of applied =
     rev (List.map_filter (\<lambda>(y, v). map_option (Pair y) (kql_value v)) (concat (map let_bindings applied)))"

lemma let_literals_spec:
  "distinct (map fst (let_literals applied)) \<and> map_of (let_literals applied) x = map_of (values_of applied) x"
  using foldl_add_let [of "[]" "concat (map let_bindings applied)" x]
  by (auto simp: let_literals_def values_of_def split: option.splits)

text \<open>
  The compiled query is the written query with the \<open>let\<close> statements of the tenant's exclusions before it and
  their filters after it, and nothing of another tenant's: it is the query itself when none applies, each
  variable is declared once, with the last value an exclusion of the tenant gives it, and the filters
  stand in their order.
\<close>

theorem kql_query_exact:
  "\<exists>lets. compile_kql_query base_query exclusions tenant =
       concat (map (\<lambda>b. let_statement b @ newline) lets) @ base_query
       @ concat (map (\<lambda>e. newline @ kx_query e) (filter (applies_to tenant) (case exclusions of None \<Rightarrow> [] | Some es \<Rightarrow> es)))
     \<and> distinct (map fst lets)
     \<and> map_of lets = map_of (values_of (filter (applies_to tenant) (case exclusions of None \<Rightarrow> [] | Some es \<Rightarrow> es)))"
proof -
  define applied where "applied = filter (applies_to tenant) (case exclusions of None \<Rightarrow> [] | Some es \<Rightarrow> es)"
  have after: "xs \<noteq> [] \<Longrightarrow> str_join newline xs @ newline = concat (map (\<lambda>x. x @ newline) xs)" for xs
    by (induction xs rule: induct_list012) simp_all
  have before: "xs \<noteq> [] \<Longrightarrow> newline @ str_join newline xs = concat (map (\<lambda>x. newline @ x) xs)" for xs
    by (induction xs rule: induct_list012) simp_all
  have "compile_kql_query base_query exclusions tenant =
      concat (map (\<lambda>b. let_statement b @ newline) (let_literals applied)) @ base_query
      @ concat (map (\<lambda>e. newline @ kx_query e) applied)"
    using after [of "map let_statement (let_literals applied)"] before [of "map kx_query applied"]
    by (auto simp: compile_kql_query_def Let_def comp_def simp flip: applied_def append_assoc)
  moreover have "map_of (let_literals applied) = map_of (values_of applied)"
    using let_literals_spec by blast
  ultimately show ?thesis using let_literals_spec unfolding applied_def by blast
qed

end
