(* ===== verification/Defender.thy ===== *)
theory Defender
  imports Deploy_Run Kql
begin

text \<open>
  \<open>platforms/defender_for_endpoint\<close>: the custom detection rule a detection rule becomes, the client of the Graph
  API and the deployer. A rule Graph refuses to create is sent again without what is known to be refused.
\<close>

section \<open>Rules as they are written\<close>

record DefenderAlert =
  da_category :: string
  da_title :: "string option"
  da_description :: "string option"
  da_severity :: "string option"
  da_recommendation :: "string option"

record DefenderImpactedEntities =
  de_device :: "string option"
  de_mailbox :: "string option"
  de_user :: "string option"

record DefenderGroups =
  dg_selection :: string
  dg_device_groups :: "string list option"

record DefenderAllowBlock =
  ab_action :: string
  ab_identifier :: string
  ab_groups :: "DefenderGroups option"

record DefenderFileActions =
  df_allow_block :: "DefenderAllowBlock option"
  df_quarantine_file :: "string option"

record DefenderDeviceActions =
  dd_isolate_device :: "string option"
  dd_collect_investigation_package :: bool
  dd_run_antivirus_scan :: bool
  dd_initiate_investigation :: bool
  dd_restrict_app_execution :: bool

record DefenderUserActions =
  us_mark_as_compromised :: "string option"
  us_disable_user :: "string option"
  us_force_password_reset :: "string option"

record DefenderActions =
  ac_devices :: "DefenderDeviceActions option"
  ac_files :: "DefenderFileActions option"
  ac_users :: "DefenderUserActions option"

record DefenderConfig =
  dc_status :: string
  dc_query :: string
  dc_alert :: DefenderAlert
  dc_impacted_entities :: DefenderImpactedEntities
  dc_scheduling :: string
  dc_actions :: "DefenderActions option"
  dc_exclusions :: "KqlExclusion list option"

text \<open>A rule, and whether it has a \<open>response\<close>.\<close>

record DefenderMdr = "DefenderConfig Mdr" +
  dm_response :: bool

record DefenderTenant =
  dt_name :: string
  dt_ssl :: pyval
  dt_tenant_id :: string
  dt_client_id :: string
  dt_client_secret :: string

section \<open>Rules as they are sent\<close>

datatype action_extra = NoExtra | IsolationType string | DeviceGroupNames "string list option"

record ResponseAction =
  ra_odata_type :: string
  ra_identifier :: string
  ra_extra :: action_extra

record ImpactedAsset =
  ia_odata_type :: string
  ia_identifier :: string

record DefenderRule =
  mr_display_name :: string
  mr_query :: string
  mr_period :: string
  mr_title :: string
  mr_description :: string
  mr_severity :: string
  mr_category :: string
  mr_impacted_assets :: "ImpactedAsset list"
  mr_recommended :: "string option"
  mr_actions :: "ResponseAction list"
  mr_enabled :: bool

definition graph_type :: "string \<Rightarrow> string" where
  "graph_type kind = ''#microsoft.graph.security.'' @ kind"

definition severity_mapping_mde :: "string \<Rightarrow> Exn + string" where
  "severity_mapping_mde severity =
     (if severity = ''Informational'' then Inr ''informational''
      else if severity = ''Low'' then Inr ''low''
      else if severity = ''Medium'' then Inr ''medium''
      else if severity \<in> {''High'', ''Critical''} then Inr ''high''
      else Inl (exn Code_Error ''KeyError''))"

definition lower_first_character :: "string \<Rightarrow> Exn + string" where
  "lower_first_character s = (case s of [] \<Rightarrow> Inl (exn Code_Error ''IndexError'') | c # t \<Rightarrow> Inr (py_lower [c] @ t))"

text \<open>A string that is set and not empty.\<close>

definition given :: "string option \<Rightarrow> string option" where
  "given x = (case x of Some (c # s) \<Rightarrow> Some (c # s) | _ \<Rightarrow> None)"

definition plain_action :: "string \<Rightarrow> ResponseAction" where
  "plain_action kind = \<lparr>ra_odata_type = graph_type kind, ra_identifier = ''deviceId'', ra_extra = NoExtra\<rparr>"

definition device_response_actions :: "DefenderDeviceActions \<Rightarrow> Exn + ResponseAction list" where
  "device_response_actions d =
     rbind (case given (dd_isolate_device d) of
              None \<Rightarrow> Inr []
            | Some t \<Rightarrow> rbind (lower_first_character t) (\<lambda>kind.
                Inr [\<lparr>ra_odata_type = graph_type ''isolateDeviceResponseAction'', ra_identifier = ''deviceId'',
                      ra_extra = IsolationType kind\<rparr>])) (\<lambda>isolate.
       Inr (isolate
         @ (if dd_collect_investigation_package d then [plain_action ''collectInvestigationPackageResponseAction''] else [])
         @ (if dd_initiate_investigation d then [plain_action ''initiateInvestigationResponseAction''] else [])
         @ (if dd_restrict_app_execution d then [plain_action ''restrictAppExecutionResponseAction''] else [])
         @ (if dd_run_antivirus_scan d then [plain_action ''runAntivirusScanResponseAction''] else [])))"

definition group_scope :: "DefenderGroups option \<Rightarrow> string list option" where
  "group_scope groups =
     (case groups of
        Some g \<Rightarrow> if dg_selection g = ''Specific'' then dg_device_groups g else Some []
      | None \<Rightarrow> Some [])"

definition allow_block_action :: "DefenderAllowBlock \<Rightarrow> Exn + ResponseAction list" where
  "allow_block_action ab =
     (if ab_action ab \<in> {''Allow'', ''Block''}
      then rbind (lower_first_character (ab_identifier ab)) (\<lambda>column.
        Inr [\<lparr>ra_odata_type = graph_type (if ab_action ab = ''Allow'' then ''allowFileResponseAction'' else ''blockFileResponseAction''),
              ra_identifier = column, ra_extra = DeviceGroupNames (group_scope (ab_groups ab))\<rparr>])
      else Inr [])"

definition file_response_actions :: "DefenderFileActions \<Rightarrow> Exn + ResponseAction list" where
  "file_response_actions f =
     rbind (case df_allow_block f of None \<Rightarrow> Inr [] | Some ab \<Rightarrow> allow_block_action ab) (\<lambda>allow_block.
       Inr (allow_block @ (case given (df_quarantine_file f) of
              None \<Rightarrow> []
            | Some column \<Rightarrow> [\<lparr>ra_odata_type = graph_type ''stopAndQuarantineFileResponseAction'',
                ra_identifier = column, ra_extra = NoExtra\<rparr>])))"

definition column_action :: "string \<Rightarrow> string option \<Rightarrow> Exn + ResponseAction list" where
  "column_action kind column =
     (case given column of
        None \<Rightarrow> Inr []
      | Some c \<Rightarrow> rbind (lower_first_character c) (\<lambda>i.
          Inr [\<lparr>ra_odata_type = graph_type kind, ra_identifier = i, ra_extra = NoExtra\<rparr>]))"

definition user_response_actions :: "DefenderUserActions \<Rightarrow> Exn + ResponseAction list" where
  "user_response_actions u =
     rbind (column_action ''markUserAsCompromisedResponseAction'' (us_mark_as_compromised u)) (\<lambda>a.
     rbind (column_action ''disableUserResponseAction'' (us_disable_user u)) (\<lambda>b.
     rbind (column_action ''forceUserPasswordResetResponseAction'' (us_force_password_reset u)) (\<lambda>c.
       Inr (a @ b @ c))))"

definition optional_actions :: "('a \<Rightarrow> Exn + ResponseAction list) \<Rightarrow> 'a option \<Rightarrow> Exn + ResponseAction list" where
  "optional_actions f x = (case x of None \<Rightarrow> Inr [] | Some a \<Rightarrow> f a)"

definition response_actions :: "DefenderActions option \<Rightarrow> Exn + ResponseAction list" where
  "response_actions = optional_actions (\<lambda>actions.
     rbind (optional_actions device_response_actions (ac_devices actions)) (\<lambda>devices.
     rbind (optional_actions file_response_actions (ac_files actions)) (\<lambda>files.
     rbind (optional_actions user_response_actions (ac_users actions)) (\<lambda>users.
       Inr (devices @ files @ users)))))"

definition impacted_asset :: "string \<Rightarrow> string option \<Rightarrow> Exn + ImpactedAsset list" where
  "impacted_asset kind column =
     (case given column of
        None \<Rightarrow> Inr []
      | Some c \<Rightarrow> rbind (lower_first_character c) (\<lambda>i. Inr [\<lparr>ia_odata_type = graph_type kind, ia_identifier = i\<rparr>]))"

definition impacted_assets :: "DefenderImpactedEntities \<Rightarrow> Exn + ImpactedAsset list" where
  "impacted_assets e =
     rbind (impacted_asset ''impactedDeviceAsset'' (de_device e)) (\<lambda>device.
     rbind (impacted_asset ''impactedUserAsset'' (de_user e)) (\<lambda>user.
     rbind (impacted_asset ''impactedMailboxAsset'' (de_mailbox e)) (\<lambda>mailbox.
       Inr (device @ user @ mailbox))))"

definition compile_rule_mde :: "DeploymentStatus list \<Rightarrow> DefenderMdr \<Rightarrow> string \<Rightarrow> Exn + DefenderRule" where
  "compile_rule_mde statuses data tenant =
     (case mdr_block data of
        None \<Rightarrow> Inl (exn Code_Error ''SystemExit'')
      | Some config \<Rightarrow>
          (let alert = dc_alert config in
           rbind (response_actions (dc_actions config)) (\<lambda>actions.
           rbind (impacted_assets (dc_impacted_entities config)) (\<lambda>assets.
           rbind (severity_mapping_mde (case given (da_severity alert) of
                    Some severity \<Rightarrow> severity
                  | None \<Rightarrow> if dm_response data then mdr_severity data else ''Informational'')) (\<lambda>severity.
           case check_status statuses (dc_status config) of
             Inl _ \<Rightarrow> Inl (exn Config_Error ''status'')
           | Inr strategy \<Rightarrow>
               Inr \<lparr>mr_display_name = ref_name data,
                    mr_query = compile_kql_query (dc_query config) (dc_exclusions config) tenant,
                    mr_period = (if dc_scheduling config \<noteq> ''NRT'' then dc_scheduling config else ''0''),
                    mr_title = or_text (da_title alert) (ref_name data),
                    mr_description = or_text (da_description alert) (mdr_description data),
                    mr_severity = severity, mr_category = str_remove '' '' (da_category alert),
                    mr_impacted_assets = assets, mr_recommended = given (da_recommendation alert),
                    mr_actions = actions, mr_enabled = (strategy \<noteq> DISABLEMENT)\<rparr>)))))"

section \<open>The client\<close>

datatype MdeRequest =
    MdeToken string string string
  | MdePost string pyval
  | MdePatch string pyval
  | MdeDelete string

definition graph_api_endpoint :: string where
  "graph_api_endpoint = ''https://graph.microsoft.com/beta/security''"

definition detection_rules_endpoint :: string where
  "detection_rules_endpoint = graph_api_endpoint @ ''/rules/detectionRules''"

definition hunting_query_endpoint :: string where
  "hunting_query_endpoint = graph_api_endpoint @ ''/runHuntingQuery''"

definition token_endpoint :: "string \<Rightarrow> string" where
  "token_endpoint tenant_id = ''https://login.microsoftonline.com/'' @ tenant_id @ ''/oauth2/v2.0/token''"

text \<open>The service holds a token; its endpoints are the same for every tenant.\<close>

definition connect_mde :: "(MdeRequest, HttpResponse) vendor \<Rightarrow> DefenderTenant \<Rightarrow> (MdeRequest, string) deploy" where
  "connect_mde vendor tenant_config =
     andthen (lift_sum (tenant_tls_verify (dt_ssl tenant_config))) (\<lambda>_.
     andthen (send vendor (MdeToken (token_endpoint (dt_tenant_id tenant_config)) (dt_client_id tenant_config)
                (dt_client_secret tenant_config))) (\<lambda>response.
       if hr_status response = 200
       then andthen (response_json response) (\<lambda>body. lift_sum (token_of body))
       else raise (exn Tenant_Error ''Cannot authenticate with the tenant configuration'')))"

text \<open>
  \<open>json.dumps(asdict(rule)).replace("odata_type", "@odata.type")\<close>, read back: the text of the JSON is
  replaced, and so is every key and every string it holds.
\<close>

definition str_replace :: "string \<Rightarrow> string \<Rightarrow> string \<Rightarrow> string" where
  "str_replace old new s = str_join new (py_split old s)"

definition odata :: "string \<Rightarrow> string" where
  "odata = str_replace ''odata_type'' ''@odata.type''"

fun odata_key :: "pyval \<Rightarrow> pyval" where
  "odata_key (PStr s) = PStr (odata s)"
| "odata_key k = k"

fun odata_keys :: "pyval \<Rightarrow> pyval"
  and odata_items :: "pydict \<Rightarrow> pydict"
  and odata_list :: "pyval list \<Rightarrow> pyval list" where
  "odata_keys (PDict d) = PDict (odata_items d)"
| "odata_keys (PList xs) = PList (odata_list xs)"
| "odata_keys (PStr s) = PStr (odata s)"
| "odata_keys v = v"
| "odata_items [] = []"
| "odata_items ((k, v) # d) = (odata_key k, odata_keys v) # odata_items d"
| "odata_list [] = []"
| "odata_list (v # xs) = odata_keys v # odata_list xs"

definition action_asdict :: "ResponseAction \<Rightarrow> pyval" where
  "action_asdict a = jobj
     ([(''odata_type'', PStr (ra_odata_type a)), (''identifier'', PStr (ra_identifier a))]
      @ (case ra_extra a of
           NoExtra \<Rightarrow> []
         | IsolationType t \<Rightarrow> [(''isolationType'', PStr t)]
         | DeviceGroupNames groups \<Rightarrow>
             [(''deviceGroupNames'', case groups of None \<Rightarrow> PNone | Some gs \<Rightarrow> PList (map PStr gs))]))"

definition asset_asdict :: "ImpactedAsset \<Rightarrow> pyval" where
  "asset_asdict a = jobj [(''odata_type'', PStr (ia_odata_type a)), (''identifier'', PStr (ia_identifier a))]"

definition rule_asdict_mde :: "DefenderRule \<Rightarrow> pyval" where
  "rule_asdict_mde r = jobj
     [(''displayName'', PStr (mr_display_name r)),
      (''queryCondition'', jobj [(''queryText'', PStr (mr_query r))]),
      (''schedule'', jobj [(''period'', PStr (mr_period r))]),
      (''detectionAction'', jobj
         [(''alertTemplate'', jobj
             [(''title'', PStr (mr_title r)), (''description'', PStr (mr_description r)),
              (''severity'', PStr (mr_severity r)), (''category'', PStr (mr_category r)),
              (''mitreTechniques'', PList []),
              (''impactedAssets'', PList (map asset_asdict (mr_impacted_assets r))),
              (''recommendedActions'', opt_val (mr_recommended r))]),
          (''responseActions'', PList (map action_asdict (mr_actions r))),
          (''organizationalScope'', PNone)]),
      (''isEnabled'', PBool (mr_enabled r))]"

definition mde_body :: "DefenderRule \<Rightarrow> pyval" where
  "mde_body rule = odata_keys (rule_asdict_mde rule)"

definition risky_response_actions :: "string list" where
  "risky_response_actions = map graph_type
     [''markUserAsCompromisedResponseAction'', ''disableUserResponseAction'', ''forceUserPasswordResetResponseAction'']"

definition safer_configuration :: "DefenderRule \<Rightarrow> DefenderRule" where
  "safer_configuration rule =
     rule\<lparr>mr_impacted_assets :=
            (if mr_impacted_assets rule \<noteq> []
             then [\<lparr>ia_odata_type = graph_type ''impactedDeviceAsset'', ia_identifier = ''deviceId''\<rparr>]
             else mr_impacted_assets rule),
          mr_actions := filter (\<lambda>a. ra_odata_type a \<notin> set risky_response_actions) (mr_actions rule)\<rparr>"

text \<open>\<open>int(request.json()["id"])\<close>\<close>

definition mde_rule_id :: "(string \<Rightarrow> int option) \<Rightarrow> pyval \<Rightarrow> Exn + int" where
  "mde_rule_id trunc body =
     (case body of
        PDict d \<Rightarrow>
          (case dget d ''id'' of Some v \<Rightarrow> int_of_json trunc v | None \<Rightarrow> Inl (exn Code_Error ''KeyError''))
      | _ \<Rightarrow> Inl (exn Code_Error ''TypeError''))"

definition create_detection_rule_mde ::
  "(string \<Rightarrow> int option) \<Rightarrow> (MdeRequest, HttpResponse) vendor \<Rightarrow> DefenderRule \<Rightarrow> (MdeRequest, int) deploy" where
  "create_detection_rule_mde trunc vendor rule =
     andthen (send vendor (MdePost detection_rules_endpoint (mde_body rule))) (\<lambda>response.
       if hr_status response = 201
       then andthen (response_json response) (\<lambda>body. lift_sum (mde_rule_id trunc body))
       else andthen (send vendor (MdePost detection_rules_endpoint (mde_body (safer_configuration rule)))) (\<lambda>retry.
         if hr_status retry = 201
         then andthen (response_json retry) (\<lambda>body.
              andthen (on_world (set_env warning_flag)) (\<lambda>_. lift_sum (mde_rule_id trunc body)))
         else raise (exn Rule_Error ''DetectionRuleCreationFailed'')))"

definition update_detection_rule_mde ::
  "(MdeRequest, HttpResponse) vendor \<Rightarrow> DefenderRule \<Rightarrow> string \<Rightarrow> (MdeRequest, unit) deploy" where
  "update_detection_rule_mde vendor rule rule_id =
     andthen (send vendor (MdePatch (detection_rules_endpoint @ ''/'' @ rule_id) (mde_body rule))) (\<lambda>response.
       if hr_status response = 200 then andthen (response_json response) (\<lambda>_. ret ())
       else raise (exn Rule_Error ''DetectionRuleUpdateFailed''))"

definition delete_detection_rule_mde ::
  "(MdeRequest, HttpResponse) vendor \<Rightarrow> string \<Rightarrow> (MdeRequest, unit) deploy" where
  "delete_detection_rule_mde vendor rule_id =
     andthen (send vendor (MdeDelete (detection_rules_endpoint @ ''/'' @ rule_id))) (\<lambda>response.
       if hr_status response = 204 then ret () else raise (exn Rule_Error ''DetectionRuleDeletionFailed''))"

text \<open>The JSON of an error answer, or its text.\<close>

definition error_body :: "HttpResponse \<Rightarrow> pyval" where
  "error_body response =
     (case hr_json response of
        Some v \<Rightarrow> v
      | None \<Rightarrow> PStr (if hr_text response \<noteq> [] then hr_text response
                      else ''(empty body, HTTP '' @ int_str (hr_status response) @ '')''))"

definition error_message :: "HttpResponse \<Rightarrow> pyval" where
  "error_message response =
     (let body = error_body response;
          error = (case body of PDict d \<Rightarrow> dget_none d ''error'' | _ \<Rightarrow> PNone)
      in py_or (case error of PDict e \<Rightarrow> dget_none e ''message'' | _ \<Rightarrow> PNone) body)"

definition run_hunting_query ::
  "(MdeRequest, HttpResponse) vendor \<Rightarrow> string \<Rightarrow> string \<Rightarrow> string \<Rightarrow> (MdeRequest, pyval) deploy" where
  "run_hunting_query vendor tenant query timespan =
     andthen (send vendor (MdePost hunting_query_endpoint (jobj [(''Query'', PStr query), (''Timespan'', PStr timespan)])))
       (\<lambda>response.
         if hr_status response = 200 then response_json response
         else if hr_status response = 403
         then raise (exn Rule_Error (''Permission denied (403) on tenant '' @ tenant))
         else raise (exn Rule_Error (''Hunting query failed with status '' @ int_str (hr_status response) @ '': ''
                @ py_str (error_message response))))"

section \<open>The deployer\<close>

definition defender_for_endpoint :: string where
  "defender_for_endpoint = ''defender_for_endpoint''"

definition deploy_mdr_mde ::
  "(string \<Rightarrow> int option) \<Rightarrow> DeployEnv \<Rightarrow> (MdeRequest, HttpResponse) vendor \<Rightarrow> string \<Rightarrow> DefenderMdr
    \<Rightarrow> ExternalIdAction option \<Rightarrow> (MdeRequest, unit) deploy" where
  "deploy_mdr_mde trunc env vendor tenant data action =
     (case mdr_block data of
        None \<Rightarrow> raise (exn Code_Error ''SystemExit'')
      | Some block \<Rightarrow>
          andthen (lift_sum (compile_rule_mde (du_statuses env) data tenant)) (\<lambda>rule.
            given_or_planned env defender_for_endpoint (ref_uuid data) tenant (dc_status block) action (\<lambda>a.
              act_on_tenant env defender_for_endpoint (ref_uuid data) tenant a
                (andthen (create_detection_rule_mde trunc vendor rule) (\<lambda>i. ret (PInt i)))
                (update_detection_rule_mde vendor rule)
                (delete_detection_rule_mde vendor))))"

definition deploy_tenant_mde ::
  "(string \<Rightarrow> int option) \<Rightarrow> DeployEnv \<Rightarrow> (MdeRequest, HttpResponse) vendor \<Rightarrow> RunStrategies option
    \<Rightarrow> DefenderTenant \<Rightarrow> DefenderMdr list \<Rightarrow> (MdeRequest, unit) deploy" where
  "deploy_tenant_mde trunc env vendor strategies tenant_config =
     deploy_planned env strategies defender_for_endpoint (dt_name tenant_config) (\<lambda>r. map_option dc_status (mdr_block r))
       (connect_mde vendor tenant_config)
       (\<lambda>_ r a. deploy_mdr_mde trunc env vendor (dt_name tenant_config) r (Some a))"

definition deploy_mde ::
  "(string \<Rightarrow> int option) \<Rightarrow> DeployEnv \<Rightarrow> (MdeRequest, HttpResponse) vendor \<Rightarrow> (string \<Rightarrow> DefenderMdr option)
    \<Rightarrow> (DefenderMdr list \<Rightarrow> RunStrategies option \<Rightarrow> Exn + (DefenderTenant \<times> DefenderMdr list) list)
    \<Rightarrow> DefenderMdr mdr_arg list \<Rightarrow> RunStrategies option \<Rightarrow> (MdeRequest, unit) deploy" where
  "deploy_mde trunc env vendor rules resolve mdr_deployment strategies =
     deploy_batches rules resolve (deploy_tenant_mde trunc env vendor strategies) mdr_deployment strategies"

section \<open>Laws\<close>

lemma keeps_warning: "preserves (only_shards U) (on_world (set_env warning_flag) :: (MdeRequest, unit) deploy)"
  by (auto simp: preserves_def on_world_def update_state_def only_shards_def flagged_def set_env_def persist_env_flags)

lemma keeps_create_mde: "preserves (only_shards U) (create_detection_rule_mde trunc vendor rule)"
  unfolding create_detection_rule_mde_def
  by (auto intro!: run_frames keeps_warning silent_shard [OF keeps_send] silent_shard [OF keeps_response_json])

lemma keeps_client_mde [run_frames]:
  "preserves same_world (update_detection_rule_mde vendor rule i)"
  "preserves same_world (delete_detection_rule_mde vendor i)"
  "preserves same_world (connect_mde vendor tenant_config)"
  unfolding update_detection_rule_mde_def delete_detection_rule_mde_def connect_mde_def
  by (auto intro!: run_frames)

lemma keeps_branches_mde:
  "preserves no_shard (andthen (create_detection_rule_mde trunc vendor rule) (\<lambda>i. ret (PInt i)))"
  "preserves no_shard (update_detection_rule_mde vendor rule i)"
  "preserves no_shard (delete_detection_rule_mde vendor i)"
  by (intro run_frames keeps_create_mde silent_shard)+

lemma deploy_mdr_mde_Inr:
  assumes "deploy_mdr_mde trunc env vendor tenant r (Some a) s = (Inr (), s')"
  obtains rule where "compile_rule_mde (du_statuses env) r tenant = Inr rule"
    "act_on_tenant env defender_for_endpoint (ref_uuid r) tenant a
                (andthen (create_detection_rule_mde trunc vendor rule) (\<lambda>i. ret (PInt i)))
                (update_detection_rule_mde vendor rule) (delete_detection_rule_mde vendor) s = (Inr (), s')"
  using assms by (auto simp: deploy_mdr_mde_def given_or_planned_def effect_Inr split: option.splits)

interpretation mde: id_deployer defender_for_endpoint tenant
  "\<lambda>r a. deploy_mdr_mde trunc env vendor tenant r (Some a)"
  for trunc env vendor tenant
proof
  show "preserves (only_shard (ref_uuid r)) (deploy_mdr_mde trunc env vendor tenant r (Some a))" for r a
    unfolding deploy_mdr_mde_def given_or_planned_def
    by (auto intro!: run_frames keeps_branches_mde split: option.split)
  show "settled defender_for_endpoint tenant (r, a) (dr_world s')"
    if "planned_ok defender_for_endpoint tenant (r, a) (dr_world s)"
      and "deploy_mdr_mde trunc env vendor tenant r (Some a) s = (Inr (), s')"
      and "\<not> flagged (dr_world s')" for r a s s'
    using that(2) by (rule deploy_mdr_mde_Inr) (rule act_on_tenant_settles [OF keeps_branches_mde that(1) _ that(3)])
qed

interpretation mde_tenant: tenant_deployer defender_for_endpoint "dt_name tenant_config"
  "\<lambda>r. map_option dc_status (mdr_block r)" "connect_mde vendor tenant_config"
  "\<lambda>_ r a. deploy_mdr_mde trunc env vendor (dt_name tenant_config) r (Some a)"
  for trunc env vendor tenant_config
  by unfold_locales (rule keeps_client_mde(3))


section \<open>Properties\<close>

lemma safer_fields:
  "mr_display_name (safer_configuration r) = mr_display_name r" "mr_query (safer_configuration r) = mr_query r"
  "mr_severity (safer_configuration r) = mr_severity r" "mr_enabled (safer_configuration r) = mr_enabled r"
  "mr_period (safer_configuration r) = mr_period r" "mr_category (safer_configuration r) = mr_category r"
  "mr_title (safer_configuration r) = mr_title r" "mr_description (safer_configuration r) = mr_description r"
  by (simp_all add: safer_configuration_def)

text \<open>
  The rule of the second create, in terms of the block: compiled without the user actions of the block, and with
  the device id as its one impacted asset when it has impacted assets.
\<close>

definition without_user_actions :: "DefenderMdr \<Rightarrow> DefenderMdr" where
  "without_user_actions r =
     r\<lparr>mdr_block := map_option (\<lambda>c. c\<lparr>dc_actions := map_option (\<lambda>a. a\<lparr>ac_users := None\<rparr>) (dc_actions c)\<rparr>) (mdr_block r)\<rparr>"

definition on_device_id :: "DefenderRule \<Rightarrow> DefenderRule" where
  "on_device_id rule =
     rule\<lparr>mr_impacted_assets :=
       (if mr_impacted_assets rule = [] then []
        else [\<lparr>ia_odata_type = ''#microsoft.graph.security.impactedDeviceAsset'', ia_identifier = ''deviceId''\<rparr>])\<rparr>"

lemma user_actions_risky:
  assumes "user_response_actions u = Inr xs"
  shows "filter (\<lambda>a. ra_odata_type a \<notin> set risky_response_actions) xs = []"
  using assms
  by (auto simp: user_response_actions_def column_action_def rbind_Inr risky_response_actions_def split: option.splits)

lemma other_actions_not_risky:
  "device_response_actions d = Inr xs \<Longrightarrow> filter (\<lambda>a. ra_odata_type a \<notin> set risky_response_actions) xs = xs"
  "file_response_actions f = Inr xs \<Longrightarrow> filter (\<lambda>a. ra_odata_type a \<notin> set risky_response_actions) xs = xs"
  by (auto simp: device_response_actions_def file_response_actions_def allow_block_action_def plain_action_def
      rbind_Inr risky_response_actions_def graph_type_def split: option.splits if_splits)

lemma safer_actions:
  assumes "response_actions acts = Inr xs"
  shows "response_actions (map_option (\<lambda>a. a\<lparr>ac_users := None\<rparr>) acts)
    = Inr (filter (\<lambda>a. ra_odata_type a \<notin> set risky_response_actions) xs)"
  using assms
  by (auto simp: response_actions_def optional_actions_def rbind_Inr user_actions_risky other_actions_not_risky
      split: option.splits)

lemma safer_compiles:
  assumes "compile_rule_mde statuses r tenant = Inr rule"
  obtains plain where "compile_rule_mde statuses (without_user_actions r) tenant = Inr plain"
    "safer_configuration rule = on_device_id plain"
proof -
  obtain c where block: "mdr_block r = Some c" using assms by (cases "mdr_block r") (simp_all add: compile_rule_mde_def)
  then obtain actions where acts: "response_actions (dc_actions c) = Inr actions"
    using assms by (auto simp: compile_rule_mde_def Let_def rbind_Inr)
  have fewer: "response_actions (map_option (\<lambda>a. a\<lparr>ac_users := None\<rparr>) (dc_actions c))
      = Inr (filter (\<lambda>a. ra_odata_type a \<notin> set risky_response_actions) actions)"
    by (rule safer_actions [OF acts])
  obtain strategy where status: "check_status statuses (dc_status c) = Inr strategy"
    using assms block by (cases "check_status statuses (dc_status c)") (auto simp: compile_rule_mde_def Let_def rbind_Inr)
  have same: "mr_actions rule = actions"
    using assms status by (auto simp: compile_rule_mde_def Let_def rbind_Inr block acts)
  let ?plain = "rule\<lparr>mr_actions := filter (\<lambda>a. ra_odata_type a \<notin> set risky_response_actions) actions\<rparr>"
  have "compile_rule_mde statuses (without_user_actions r) tenant = Inr ?plain"
    using assms status block
    by (cases "given (da_severity (dc_alert c))")
      (auto simp: compile_rule_mde_def without_user_actions_def Let_def rbind_Inr acts fewer)
  moreover have "safer_configuration rule = on_device_id ?plain"
    by (simp add: safer_configuration_def on_device_id_def same graph_type_def)
  ultimately show thesis by (rule that)
qed

lemma created_or_reported_env:
  assumes "created_or_reported env p u t ext s = (r, s')" "\<not> flagged (dr_world s')"
  shows "w_env (dr_world s') = w_env (dr_world s)"
  using assms by (auto simp: created_or_reported_def on_world_def update_state_def record_created_def report_flag
      warning_codes_def log_line_def split: sum.splits prod.splits)

definition created_with :: "(string \<Rightarrow> int option) \<Rightarrow> HttpResponse \<Rightarrow> int \<Rightarrow> bool" where
  "created_with trunc response i =
     (hr_status response = 201 \<and> (\<exists>body. hr_json response = Some body \<and> mde_rule_id trunc body = Inr i))"

text \<open>The two ways a create succeeds: as it was compiled, or the second time and with a warning.\<close>

lemma create_mde_Inr:
  assumes "create_detection_rule_mde trunc vendor rule s = (Inr i, s')"
  defines "post \<equiv> \<lambda>r. MdePost detection_rules_endpoint (mde_body r)"
  obtains (as_written) response where "vendor (dr_calls s) (post rule) = Inr response" "created_with trunc response i"
    "dr_calls s' = dr_calls s @ [post rule]" "dr_world s' = dr_world s"
  | (safer) refused response where "vendor (dr_calls s) (post rule) = Inr refused" "hr_status refused \<noteq> 201"
    "vendor (dr_calls s @ [post rule]) (post (safer_configuration rule)) = Inr response" "created_with trunc response i"
    "dr_calls s' = dr_calls s @ [post rule, post (safer_configuration rule)]"
    "dr_world s' = set_env warning_flag (dr_world s)"
proof -
  have "\<exists>response. vendor (dr_calls s) (post rule) = Inr response
    \<and> (if hr_status response = 201
       then andthen (response_json response) (\<lambda>body. lift_sum (mde_rule_id trunc body))
       else andthen (send vendor (post (safer_configuration rule))) (\<lambda>retry.
         if hr_status retry = 201
         then andthen (response_json retry) (\<lambda>body.
              andthen (on_world (set_env warning_flag)) (\<lambda>_. lift_sum (mde_rule_id trunc body)))
         else raise (exn Rule_Error ''DetectionRuleCreationFailed''))) (s\<lparr>dr_calls := dr_calls s @ [post rule]\<rparr>) = (Inr i, s')"
    using assms(1) unfolding create_detection_rule_mde_def post_def by (auto simp: andthen_Inr send_Inr)
  then obtain response where sent: "vendor (dr_calls s) (post rule) = Inr response"
    and rest: "(if hr_status response = 201
       then andthen (response_json response) (\<lambda>body. lift_sum (mde_rule_id trunc body))
       else andthen (send vendor (post (safer_configuration rule))) (\<lambda>retry.
         if hr_status retry = 201
         then andthen (response_json retry) (\<lambda>body.
              andthen (on_world (set_env warning_flag)) (\<lambda>_. lift_sum (mde_rule_id trunc body)))
         else raise (exn Rule_Error ''DetectionRuleCreationFailed''))) (s\<lparr>dr_calls := dr_calls s @ [post rule]\<rparr>) = (Inr i, s')"
    by blast
  show thesis
  proof (cases "hr_status response = 201")
    case True
    with rest show thesis by (intro as_written [OF sent]) (auto simp: effect_Inr response_json_Inr created_with_def)
  next
    case False
    with rest obtain retry where again: "vendor (dr_calls s @ [post rule]) (post (safer_configuration rule)) = Inr retry"
      and last: "(if hr_status retry = 201
         then andthen (response_json retry) (\<lambda>body.
              andthen (on_world (set_env warning_flag)) (\<lambda>_. lift_sum (mde_rule_id trunc body)))
         else raise (exn Rule_Error ''DetectionRuleCreationFailed''))
       (s\<lparr>dr_calls := dr_calls s @ [post rule, post (safer_configuration rule)]\<rparr>) = (Inr i, s')"
      by (auto simp: effect_Inr send_Inr)
    then have "hr_status retry = 201" by (simp add: effect_Inr split: if_splits)
    with last have facts: "created_with trunc retry i"
      "dr_calls s' = dr_calls s @ [post rule, post (safer_configuration rule)]"
      "dr_world s' = set_env warning_flag (dr_world s)"
      by (auto simp: effect_Inr response_json_Inr created_with_def on_world_def update_state_def)
    show thesis by (rule safer [OF sent False again facts])
  qed
qed

text \<open>
  C35: A rule that Defender creates is the rule as compiled, or, only when the tenant refused that, what the same
  file compiles to when its block has no user actions, all other response actions kept, and with its impacted
  entities, when it has any, replaced by the device id; the run then carries a warning. Either way the number the
  tenant answered last is the id in the rule's shard, so a rule created the second time is not created again.
\<close>

theorem defender_creates_as_written_or_safer:
  assumes "deploy_mdr_mde trunc env vendor tenant r (Some a) s = (Inr (), s')"
    and "act_kind a = Create" and "w_env (dr_world s') error_flag = None"
  defines "post \<equiv> \<lambda>rule. MdePost detection_rules_endpoint (mde_body rule)"
  shows "\<exists>rule plain response i st.
     compile_rule_mde (du_statuses env) r tenant = Inr rule
   \<and> compile_rule_mde (du_statuses env) (without_user_actions r) tenant = Inr plain
   \<and> (dr_calls s' = dr_calls s @ [post rule] \<and> vendor (dr_calls s) (post rule) = Inr response
      \<or> (dr_calls s' = dr_calls s @ [post rule, post (on_device_id plain)]
         \<and> (\<exists>refused. vendor (dr_calls s) (post rule) = Inr refused \<and> hr_status refused \<noteq> 201)
         \<and> vendor (dr_calls s @ [post rule]) (post (on_device_id plain)) = Inr response
         \<and> w_env (dr_world s') warning_flag = Some ''1''))
   \<and> created_with trunc response i
   \<and> load_state (w_dir (dr_world s')) (PStr (ref_uuid r)) = Inr st
   \<and> state_get st defender_for_endpoint tenant = Some (nat_str (nat i)) \<and> 0 \<le> i"
proof -
  from assms(1,2) obtain rule i s1 where c: "compile_rule_mde (du_statuses env) r tenant = Inr rule"
    and create: "create_detection_rule_mde trunc vendor rule s = (Inr i, s1)"
    and rec: "created_or_reported env defender_for_endpoint (ref_uuid r) tenant (PInt i) s1 = (Inr (), s')"
    by (elim deploy_mdr_mde_Inr) (auto simp: act_on_tenant_def effect_Inr)
  obtain plain where p: "compile_rule_mde (du_statuses env) (without_user_actions r) tenant = Inr plain"
    and second: "safer_configuration rule = on_device_id plain"
    by (rule safer_compiles [OF c])
  have calls: "dr_calls s' = dr_calls s1" by (rule reported_calls(1) [OF rec])
  have env: "w_env (dr_world s') = w_env (dr_world s1)"
    using created_or_reported_env [OF rec] assms(3) by (simp add: flagged_def)
  from created_or_reported_stored [OF rec] assms(3) obtain st where st:
    "load_state (w_dir (dr_world s')) (PStr (ref_uuid r)) = Inr st"
    "state_get st defender_for_endpoint tenant = Some (nat_str (nat i))" "0 \<le> i"
    by (auto simp: flagged_def normalise_external_id.simps int_str_def split: if_splits)
  from create show ?thesis
  proof (cases rule: create_mde_Inr)
    case (as_written response)
    with c p calls st show ?thesis unfolding post_def by metis
  next
    case (safer refused response)
    then have "w_env (dr_world s') warning_flag = Some ''1''" by (simp add: env set_env_def)
    with safer c p calls st show ?thesis unfolding post_def second by metis
  qed
qed

text \<open>
  The text of a query is rewritten with the keys: \<open>odata_type\<close> anywhere in it becomes \<open>@odata.type\<close>.
\<close>

theorem defender_rewrites_the_query_text:
  "(\<exists>d. mde_body rule = PDict d
      \<and> dget d ''queryCondition'' = Some (PDict [(PStr ''queryText'', PStr (odata (mr_query rule)))]))
   \<and> odata ''where odata_type == 1'' = ''where @odata.type == 1''"
proof
  have "odata ''queryCondition'' = ''queryCondition''" "odata ''displayName'' = ''displayName''" "odata ''queryText'' = ''queryText''"
    by code_simp+
  then show "\<exists>d. mde_body rule = PDict d
      \<and> dget d ''queryCondition'' = Some (PDict [(PStr ''queryText'', PStr (odata (mr_query rule)))])"
    by (simp add: mde_body_def rule_asdict_mde_def jobj_def)
  show "odata ''where odata_type == 1'' = ''where @odata.type == 1''" by code_simp
qed

definition sample_mde_mdr :: DefenderMdr where
  "sample_mde_mdr = \<lparr>ref_uuid = uuid_str 7, ref_name = ''Rule'', mdr_description = ''d'', mdr_severity = ''High'',
     mdr_author = None, mdr_block = Some \<lparr>dc_status = ''PRODUCTION'', dc_query = ''T'',
       dc_alert = \<lparr>da_category = ''Suspicious Activity'', da_title = None, da_description = None, da_severity = None,
                    da_recommendation = None\<rparr>,
       dc_impacted_entities = \<lparr>de_device = None, de_mailbox = Some ''RecipientEmail'', de_user = None\<rparr>,
       dc_scheduling = ''NRT'',
       dc_actions = Some \<lparr>ac_devices = None, ac_files = None,
         ac_users = Some \<lparr>us_mark_as_compromised = None, us_disable_user = Some ''AccountSid'', us_force_password_reset = None\<rparr>\<rparr>,
       dc_exclusions = None\<rparr>, dm_response = True\<rparr>"

definition sample_mde_vendor :: "(MdeRequest, HttpResponse) vendor" where
  "sample_mde_vendor calls q = Inr (if calls = []
     then \<lparr>hr_status = 400, hr_json = None, hr_text = [], hr_content_type = []\<rparr>
     else \<lparr>hr_status = 201, hr_json = Some (jobj [(''id'', PStr (nat_str 42))]), hr_text = [], hr_content_type = []\<rparr>)"

lemma sample_mde_compiles:
  obtains rule plain where "compile_rule_mde (du_statuses sample_env) sample_mde_mdr ''Prod'' = Inr rule"
    "map ra_odata_type (mr_actions rule) = [''#microsoft.graph.security.disableUserResponseAction'']"
    "compile_rule_mde (du_statuses sample_env) (without_user_actions sample_mde_mdr) ''Prod'' = Inr plain"
    "mr_actions plain = []" "mr_impacted_assets plain \<noteq> []"
  by (simp add: compile_rule_mde_def sample_mde_mdr_def sample_env_def response_actions_def optional_actions_def
      user_response_actions_def column_action_def given_def lower_first_character_def impacted_assets_def impacted_asset_def
      severity_mapping_mde_def without_user_actions_def py_lower_def lower_char_def graph_type_def Let_def)

theorem defender_creates_as_written_or_safer_witness:
  "\<exists>s' rule plain st. deploy_mdr_mde Map.empty sample_env sample_mde_vendor ''Prod'' sample_mde_mdr
       (Some \<lparr>act_kind = Create, act_id = None\<rparr>) sample_run = (Inr (), s')
     \<and> dr_calls s' = [MdePost detection_rules_endpoint (mde_body rule),
         MdePost detection_rules_endpoint (mde_body (on_device_id plain))]
     \<and> map ra_odata_type (mr_actions rule) = [''#microsoft.graph.security.disableUserResponseAction''] \<and> mr_actions plain = []
     \<and> w_env (dr_world s') warning_flag = Some ''1''
     \<and> load_state (w_dir (dr_world s')) (PStr (uuid_str 7)) = Inr st
     \<and> state_get st defender_for_endpoint ''Prod'' = Some ''42''"
proof -
  obtain rule plain where c: "compile_rule_mde (du_statuses sample_env) sample_mde_mdr ''Prod'' = Inr rule"
    "map ra_odata_type (mr_actions rule) = [''#microsoft.graph.security.disableUserResponseAction'']"
    "compile_rule_mde (du_statuses sample_env) (without_user_actions sample_mde_mdr) ''Prod'' = Inr plain" "mr_actions plain = []"
    by (rule sample_mde_compiles)
  have "''defender_for_endpoint'' \<in> set state_platforms" "normalise_external_id ''defender_for_endpoint'' (PInt 42) = Inr (nat_str 42)"
    by (simp_all add: state_platforms_def normalise_external_id.simps int_str_def)
  from sample_record_for [OF this] obtain dir' where
    rec: "record_external_id True (PStr (uuid_str 7)) ''defender_for_endpoint'' ''Prod'' (PInt 42) [] = Inr (nat_str 42, dir')" .
  have fields: "ref_uuid sample_mde_mdr = uuid_str 7" "du_writable sample_env = True"
    "\<exists>block. mdr_block sample_mde_mdr = Some block \<and> dc_status block = ''PRODUCTION''"
    by (simp_all add: sample_mde_mdr_def sample_env_def)
  obtain s' where run: "deploy_mdr_mde Map.empty sample_env sample_mde_vendor ''Prod'' sample_mde_mdr
       (Some \<lparr>act_kind = Create, act_id = None\<rparr>) sample_run = (Inr (), s')"
    "w_env (dr_world s') error_flag = None" "length (dr_calls s') = 2" "dr_calls (sample_run :: MdeRequest DeployRun) = []"
    using rec fields by (auto simp: deploy_mdr_mde_def given_or_planned_def c act_on_tenant_def andthen_def ret_def
        create_detection_rule_mde_def send_def sample_mde_vendor_def response_json_def jobj_def mde_rule_id_def
        int_of_json_def int_of_text_def
        created_or_reported_def record_created_def on_world_def update_state_def sample_run_def sample_world_def
        defender_for_endpoint_def log_line_def set_env_def persist_env_flags)
  have "nat_str 42 = ''42''" "py_int ''42'' = Some 42" by code_simp+
  with defender_creates_as_written_or_safer [OF run(1) _ run(2)] run fields(1) c
  obtain st where "dr_calls s' = [MdePost detection_rules_endpoint (mde_body rule),
         MdePost detection_rules_endpoint (mde_body (on_device_id plain))]
     \<and> w_env (dr_world s') warning_flag = Some ''1''
     \<and> load_state (w_dir (dr_world s')) (PStr (uuid_str 7)) = Inr st
     \<and> state_get st defender_for_endpoint ''Prod'' = Some ''42''"
    by (auto simp: created_with_def sample_mde_vendor_def jobj_def mde_rule_id_def int_of_json_def int_of_text_def)
  with run(1) c(2,4) show ?thesis by (intro exI [of _ s'] exI [of _ rule] exI [of _ plain] exI [of _ st]) simp
qed

end
