(* ===== verification/Harfanglab.thy ===== *)
theory Harfanglab
  imports Deploy_Run Kql
begin

text \<open>
  \<open>platforms/harfanglab\<close>: Sigma and YARA rules as HarfangLab takes them, the client and the deployer. Rules
  are addressed by their uuid, so no id is recorded. The YAML printer is a parameter; the text of a
  YARA rule is built line by line as the code builds it.
\<close>

section \<open>Rules as they are written\<close>

record SigmaSelection =
  sl_name :: string
  sl_field :: string
  sl_modifiers :: "string list option"
  sl_value :: pyval

record SigmaConfig =
  sg_category :: string
  sg_product :: string
  sg_selections :: "SigmaSelection list"
  sg_condition :: string
  sg_false_positives :: "string list option"

record YaraConfig =
  yr_context :: "string list"
  yr_os :: string
  yr_arch :: "string list option"
  yr_score :: "string option"
  yr_classification :: "string option"
  yr_strings :: string
  yr_condition :: string
  yr_imports :: "string list option"

record HarfangLabConfig =
  hc_status :: string
  hc_maturity :: string
  hc_confidence :: string
  hc_action :: string
  hc_tags :: "string list option"
  hc_sigma :: "SigmaConfig option"
  hc_yara :: "YaraConfig option"

record HarfangLabMdr = "HarfangLabConfig Mdr" +
  hm_organisation :: "string option"
  hm_created :: string
  hm_modified :: string
  hm_public_references :: "string list"

record HarfangLabTenant =
  ht_name :: string
  ht_ssl :: pyval
  ht_type :: string
  ht_url :: string
  ht_api_token :: string
  ht_source_id :: string

section \<open>What the fields are mapped to\<close>

definition dict_get :: "(string \<times> 'a) list \<Rightarrow> string \<Rightarrow> 'a \<Rightarrow> 'a" where
  "dict_get d k otherwise = (case map_of d k of None \<Rightarrow> otherwise | Some v \<Rightarrow> v)"

definition map_action_to_global_state :: "string \<Rightarrow> string" where
  "map_action_to_global_state action =
     dict_get [(''Alert'', ''alert''), (''Alert & Block'', ''block''), (''Alert, Block & Quarantine'', ''quarantine'')]
       action ''alert''"

definition map_maturity_to_hl_status :: "string \<Rightarrow> string" where
  "map_maturity_to_hl_status maturity =
     dict_get [(''Stable'', ''stable''), (''Testing'', ''testing''), (''Experimental'', ''experimental'')]
       maturity ''experimental''"

definition map_confidence :: "string \<Rightarrow> string" where
  "map_confidence confidence =
     dict_get [(''Weak'', ''weak''), (''Moderate'', ''moderate''), (''Strong'', ''strong'')] confidence ''moderate''"

definition map_level :: "string \<Rightarrow> string" where
  "map_level level =
     dict_get [(''Informational'', ''informational''), (''Low'', ''low''), (''Medium'', ''medium''), (''High'', ''high''),
       (''Critical'', ''critical'')] level ''medium''"

definition severity_to_score :: "(string \<times> nat) list" where
  "severity_to_score = [(''Informational'', 10), (''Low'', 30), (''Medium'', 50), (''High'', 70), (''Critical'', 90)]"

definition score_override_map :: "(string \<times> nat) list" where
  "score_override_map = [(''Informational'', 10), (''Low'', 30), (''Medium'', 50), (''High'', 70), (''Critical'', 90)]"

definition os_to_file_context :: "(string \<times> string) list" where
  "os_to_file_context = [(''Windows'', ''file.pe''), (''MacOS'', ''file.macho''), (''Linux'', ''file.elf'')]"

section \<open>Sigma\<close>

definition some_items :: "'a list option \<Rightarrow> 'a list" where
  "some_items x = (case x of None \<Rightarrow> [] | Some xs \<Rightarrow> xs)"

definition selection_key :: "SigmaSelection \<Rightarrow> string" where
  "selection_key s = str_join ''|'' (sl_field s # some_items (sl_modifiers s))"

definition selection_items :: "(string \<times> pydict) list \<Rightarrow> string \<Rightarrow> pydict" where
  "selection_items detection name = dict_get detection name []"

definition add_selection :: "(string \<times> pydict) list \<Rightarrow> SigmaSelection \<Rightarrow> (string \<times> pydict) list" where
  "add_selection detection s =
     AList.update (sl_name s)
       (AList.update (PStr (selection_key s)) (sl_value s) (selection_items detection (sl_name s))) detection"

definition sigma_detection :: "SigmaSelection list \<Rightarrow> string \<Rightarrow> (string \<times> pyval) list" where
  "sigma_detection selections condition =
     AList.update ''condition'' (PStr condition)
       (map (\<lambda>(name, items). (name, PDict items)) (foldl add_selection [] selections))"

definition optional_field :: "bool \<Rightarrow> string \<Rightarrow> pyval \<Rightarrow> (string \<times> pyval) list" where
  "optional_field present key v = (if present then [(key, v)] else [])"

definition strings :: "string list \<Rightarrow> pyval" where
  "strings xs = PList (map PStr xs)"

definition build_sigma ::
  "string \<Rightarrow> string \<Rightarrow> string \<Rightarrow> SigmaConfig \<Rightarrow> string \<Rightarrow> string \<Rightarrow> string list option \<Rightarrow> string option \<Rightarrow> pyval" where
  "build_sigma title description rule_id sigma level status tags author = jobj
     ([(''title'', PStr title), (''id'', PStr rule_id)]
      @ optional_field (description \<noteq> []) ''description'' (PStr description)
      @ (case author of Some (c # a) \<Rightarrow> [(''author'', PStr (c # a))] | _ \<Rightarrow> [])
      @ [(''status'', PStr status)]
      @ optional_field (some_items tags \<noteq> []) ''tags'' (strings (some_items tags))
      @ [(''logsource'', jobj [(''category'', PStr (sg_category sigma)), (''product'', PStr (sg_product sigma))]),
         (''detection'', jobj (sigma_detection (sg_selections sigma) (sg_condition sigma)))]
      @ optional_field (some_items (sg_false_positives sigma) \<noteq> []) ''falsepositives''
          (strings (some_items (sg_false_positives sigma)))
      @ [(''level'', PStr level)])"

record SigmaRule =
  sm_name :: string
  sm_content :: string
  sm_source_id :: string
  sm_enabled :: bool
  sm_global_state :: string
  sm_hl_status :: string
  sm_block_on_agent :: bool
  sm_quarantine_on_agent :: bool
  sm_confidence :: string
  sm_level :: string

definition missing :: "string \<Rightarrow> Exn + 'a" where
  "missing text = Inl (exn Config_Error text)"

definition compile_sigma_deployment ::
  "(pyval \<Rightarrow> string) \<Rightarrow> DeploymentStatus list \<Rightarrow> HarfangLabMdr \<Rightarrow> HarfangLabTenant \<Rightarrow> Exn + SigmaRule" where
  "compile_sigma_deployment dump statuses data tenant_config =
     (case mdr_block data of
        None \<Rightarrow> missing ''Missing HarfangLab configuration''
      | Some config \<Rightarrow>
          (case hc_sigma config of
             None \<Rightarrow> missing ''Missing Sigma configuration''
           | Some sigma \<Rightarrow>
               (case check_status statuses (hc_status config) of
                  Inl _ \<Rightarrow> Inl (exn Config_Error ''status'')
                | Inr strategy \<Rightarrow>
                    (let hl_status = map_maturity_to_hl_status (hc_maturity config);
                         enabled = (strategy \<noteq> DISABLEMENT);
                         global_state = (if enabled then map_action_to_global_state (hc_action config) else ''disabled'');
                         level = map_level (mdr_severity data)
                     in Inr \<lparr>sm_name = ref_name data,
                          sm_content = dump (build_sigma (ref_name data) (mdr_description data) (ref_uuid data) sigma level
                            hl_status (hc_tags config) (mdr_author data)),
                          sm_source_id = ht_source_id tenant_config, sm_enabled = enabled, sm_global_state = global_state,
                          sm_hl_status = hl_status, sm_block_on_agent = (global_state \<in> {''block'', ''quarantine''}),
                          sm_quarantine_on_agent = (global_state = ''quarantine''),
                          sm_confidence = map_confidence (hc_confidence config), sm_level = level\<rparr>))))"

section \<open>YARA\<close>

text \<open>\<open>str.isalnum\<close> and \<open>str.isdigit\<close> on the characters modelled.\<close>

definition is_digit_char :: "char \<Rightarrow> bool" where
  "is_digit_char c = (let n = (of_char c :: nat) in 48 \<le> n \<and> n \<le> 57 \<or> n \<in> {178, 179, 185})"

definition is_alnum :: "char \<Rightarrow> bool" where
  "is_alnum c = (let n = (of_char c :: nat) in
     is_digit_char c \<or> 65 \<le> n \<and> n \<le> 90 \<or> 97 \<le> n \<and> n \<le> 122 \<or> n \<in> {170, 181, 186, 188, 189, 190}
     \<or> 192 \<le> n \<and> n \<noteq> 215 \<and> n \<noteq> 247)"

definition yara_rule_name :: "string \<Rightarrow> string" where
  "yara_rule_name name =
     (let plain = map (\<lambda>c. if c = CHR '' '' \<or> c = CHR ''-'' then CHR ''_'' else c) (py_lower name);
          safe = map (\<lambda>c. if is_alnum c \<or> c = CHR ''_'' then c else CHR ''_'') plain
      in if safe \<noteq> [] \<and> is_digit_char (hd safe) then ''rule_'' @ safe else safe)"

definition escape_yara_char :: "char \<Rightarrow> string" where
  "escape_yara_char c =
     (if c = CHR 0x5C then [CHR 0x5C, CHR 0x5C]
      else if c = CHR 0x22 then [CHR 0x5C, CHR 0x22]
      else if c = CHR 0x0A then [CHR 0x5C, CHR ''n'']
      else if c = CHR 0x0D then []
      else [c])"

definition escape_yara_string :: "string \<Rightarrow> string" where
  "escape_yara_string s = concat (map escape_yara_char s)"

definition dquoted :: "string \<Rightarrow> string" where
  "dquoted s = CHR 0x22 # s @ [CHR 0x22]"

definition meta_line :: "string \<Rightarrow> string \<Rightarrow> string" where
  "meta_line key v = ''        '' @ key @ '' = '' @ dquoted v"

definition yara_author :: "HarfangLabMdr \<Rightarrow> string" where
  "yara_author data =
     (case mdr_author data of
        Some (c # a) \<Rightarrow> c # a
      | _ \<Rightarrow> (case hm_organisation data of Some name \<Rightarrow> name | None \<Rightarrow> []))"

definition compiled_contexts :: "YaraConfig \<Rightarrow> string list" where
  "compiled_contexts yara =
     map (\<lambda>ctx. if ctx = ''file'' then dict_get os_to_file_context (yr_os yara) ctx else ctx) (yr_context yara)"

definition yara_score :: "YaraConfig \<Rightarrow> string \<Rightarrow> nat" where
  "yara_score yara severity =
     (case (case yr_score yara of Some (c # s) \<Rightarrow> map_of score_override_map (c # s) | _ \<Rightarrow> None) of
        Some score \<Rightarrow> score
      | None \<Rightarrow> dict_get severity_to_score severity 50)"

definition nonempty_line :: "string \<Rightarrow> string \<Rightarrow> string list" where
  "nonempty_line key v = (if v \<noteq> [] then [meta_line key v] else [])"

definition indented :: "string \<Rightarrow> string list" where
  "indented text = map (\<lambda>line. ''        '' @ line) (py_split newline (py_strip text))"

definition yara_meta_lines :: "HarfangLabMdr \<Rightarrow> HarfangLabConfig \<Rightarrow> YaraConfig \<Rightarrow> string list" where
  "yara_meta_lines data config yara =
     [meta_line ''id'' (ref_uuid data), meta_line ''title'' (escape_yara_string (ref_name data)),
      meta_line ''description'' (escape_yara_string (mdr_description data)),
      meta_line ''author'' (escape_yara_string (yara_author data))]
     @ nonempty_line ''date'' (hm_created data) @ nonempty_line ''modified'' (hm_modified data)
     @ (if hm_public_references data \<noteq> []
        then [meta_line ''references'' (str_join [CHR 0x5C, CHR ''n''] (hm_public_references data))] else [])
     @ (if some_items (hc_tags config) \<noteq> [] then [meta_line ''tags'' (str_join '';'' (some_items (hc_tags config)))] else [])
     @ (if yr_context yara \<noteq> [] then [meta_line ''context'' (str_join '','' (compiled_contexts yara))] else [])
     @ [meta_line ''os'' (yr_os yara)]
     @ (if some_items (yr_arch yara) \<noteq> [] then [meta_line ''arch'' (str_join '','' (some_items (yr_arch yara)))] else [])
     @ (case yr_classification yara of
          Some (c # s) \<Rightarrow> [meta_line ''classification'' (escape_yara_string (c # s))] | _ \<Rightarrow> [])
     @ [''        score = '' @ nat_str (yara_score yara (mdr_severity data)),
        meta_line ''confidence'' (map_confidence (hc_confidence config))]"

definition yara_lines :: "HarfangLabMdr \<Rightarrow> HarfangLabConfig \<Rightarrow> YaraConfig \<Rightarrow> string list" where
  "yara_lines data config yara =
     (if some_items (yr_imports yara) \<noteq> []
      then map (\<lambda>m. ''import '' @ dquoted m) (some_items (yr_imports yara)) @ [[]] else [])
     @ [''rule '' @ yara_rule_name (ref_name data) @ '' {'', ''    meta:'']
     @ yara_meta_lines data config yara
     @ [''    strings:''] @ indented (yr_strings yara)
     @ [''    condition:''] @ indented (yr_condition yara) @ [''}'']"

record YaraRule =
  yl_name :: string
  yl_content :: string
  yl_source_id :: string
  yl_global_state :: string
  yl_hl_status :: string
  yl_confidence :: string
  yl_level :: string

definition compile_yara_deployment :: "HarfangLabMdr \<Rightarrow> HarfangLabTenant \<Rightarrow> Exn + YaraRule" where
  "compile_yara_deployment data tenant_config =
     (case mdr_block data of
        None \<Rightarrow> missing ''Missing HarfangLab configuration''
      | Some config \<Rightarrow>
          (case hc_yara config of
             None \<Rightarrow> missing ''Missing YARA configuration''
           | Some yara \<Rightarrow>
               Inr \<lparr>yl_name = ref_name data, yl_content = str_join newline (yara_lines data config yara),
                    yl_source_id = ht_source_id tenant_config,
                    yl_global_state = map_action_to_global_state (hc_action config),
                    yl_hl_status = map_maturity_to_hl_status (hc_maturity config),
                    yl_confidence = map_confidence (hc_confidence config), yl_level = map_level (mdr_severity data)\<rparr>))"

section \<open>The client\<close>

datatype HlRequest =
    HlPost string pyval
  | HlPut string pyval
  | HlPatch string pyval
  | HlDelete string

fun request_url :: "HlRequest \<Rightarrow> string" where
  "request_url (HlPost url _) = url"
| "request_url (HlPut url _) = url"
| "request_url (HlPatch url _) = url"
| "request_url (HlDelete url) = url"

record HarfangLabService =
  hs_sigma_endpoint :: string
  hs_yara_endpoint :: string

definition rstrip_slashes :: "string \<Rightarrow> string" where
  "rstrip_slashes url = rev (dropWhile (\<lambda>c. c = CHR ''/'') (rev url))"

definition service_of :: "HarfangLabTenant \<Rightarrow> HarfangLabService" where
  "service_of tenant_config =
     (let base_url = rstrip_slashes (ht_url tenant_config)
      in \<lparr>hs_sigma_endpoint = base_url @ ''/api/data/threat_intelligence/SigmaRule/'',
          hs_yara_endpoint = base_url @ ''/api/data/threat_intelligence/YaraFile/''\<rparr>)"

definition connect_hl :: "HarfangLabTenant \<Rightarrow> (HlRequest, HarfangLabService) deploy" where
  "connect_hl tenant_config =
     andthen (lift_sum (tenant_tls_verify (ht_ssl tenant_config))) (\<lambda>_. ret (service_of tenant_config))"

definition http_errors_hl :: "HttpResponse \<Rightarrow> string \<Rightarrow> ('q, 'a) deploy" where
  "http_errors_hl response error =
     (if hr_status response \<in> {401, 403}
      then raise (exn Config_Error ''TideTenantConfigurationMissingPermissions'')
      else raise (exn Rule_Error error))"

text \<open>A request that must be answered with one of the statuses.\<close>

definition expect ::
  "(HlRequest, HttpResponse) vendor \<Rightarrow> HlRequest \<Rightarrow> int list \<Rightarrow> string \<Rightarrow> (HlRequest, HttpResponse) deploy" where
  "expect vendor q statuses error =
     andthen (send vendor q) (\<lambda>response.
       if hr_status response \<in> set statuses then ret response else http_errors_hl response error)"

definition sigma_asdict :: "SigmaRule \<Rightarrow> bool \<Rightarrow> pyval" where
  "sigma_asdict r overwrite = jobj
     [(''name'', PStr (sm_name r)), (''content'', PStr (sm_content r)), (''source_id'', PStr (sm_source_id r)),
      (''enabled'', PBool (sm_enabled r)), (''global_state'', PStr (sm_global_state r)),
      (''hl_status'', PStr (sm_hl_status r)), (''block_on_agent'', PBool (sm_block_on_agent r)),
      (''quarantine_on_agent'', PBool (sm_quarantine_on_agent r)),
      (''rule_confidence_override'', PStr (sm_confidence r)), (''rule_level_override'', PStr (sm_level r)),
      (''overwrite'', PBool overwrite)]"

definition yara_asdict :: "YaraRule \<Rightarrow> pyval" where
  "yara_asdict r = jobj
     [(''name'', PStr (yl_name r)), (''content'', PStr (yl_content r)), (''source_id'', PStr (yl_source_id r)),
      (''global_state'', PStr (yl_global_state r)), (''hl_status'', PStr (yl_hl_status r)),
      (''rule_confidence_override'', PStr (yl_confidence r)), (''rule_level_override'', PStr (yl_level r)),
      (''overwrite'', PBool True)]"

text \<open>\<open>response_data.get("id") or response_data.get("source_id")\<close> as text; the source when the body is not JSON.\<close>

definition created_sigma_id :: "SigmaRule \<Rightarrow> HttpResponse \<Rightarrow> Exn + string" where
  "created_sigma_id rule response =
     (case hr_json response of
        None \<Rightarrow> Inr (sm_source_id rule)
      | Some (PDict d) \<Rightarrow> Inr (py_str (py_or (dget_none d ''id'') (dget_none d ''source_id'')))
      | Some _ \<Rightarrow> Inl (exn Code_Error ''AttributeError''))"

definition create_sigma_rule ::
  "(HlRequest, HttpResponse) vendor \<Rightarrow> HarfangLabService \<Rightarrow> SigmaRule \<Rightarrow> (HlRequest, string) deploy" where
  "create_sigma_rule vendor service rule =
     andthen (expect vendor (HlPost (hs_sigma_endpoint service) (sigma_asdict rule False)) [200, 201]
                ''DetectionRuleCreationFailed'')
       (\<lambda>response. lift_sum (created_sigma_id rule response))"

definition rule_url :: "string \<Rightarrow> string \<Rightarrow> string" where
  "rule_url endpoint rule_id = endpoint @ rule_id @ ''/''"

definition update_sigma_rule ::
  "(HlRequest, HttpResponse) vendor \<Rightarrow> HarfangLabService \<Rightarrow> SigmaRule \<Rightarrow> string \<Rightarrow> (HlRequest, unit) deploy" where
  "update_sigma_rule vendor service rule rule_id =
     andthen (expect vendor (HlPut (rule_url (hs_sigma_endpoint service) rule_id) (sigma_asdict rule True)) [200]
                ''DetectionRuleUpdateFailed'') (\<lambda>_. ret ())"

definition delete_sigma_rule ::
  "(HlRequest, HttpResponse) vendor \<Rightarrow> HarfangLabService \<Rightarrow> string \<Rightarrow> (HlRequest, unit) deploy" where
  "delete_sigma_rule vendor service rule_id =
     andthen (expect vendor (HlDelete (rule_url (hs_sigma_endpoint service) rule_id)) [200, 204]
                ''DetectionRuleDeletionFailed'') (\<lambda>_. ret ())"

definition disable_sigma_rule ::
  "(HlRequest, HttpResponse) vendor \<Rightarrow> HarfangLabService \<Rightarrow> string \<Rightarrow> (HlRequest, unit) deploy" where
  "disable_sigma_rule vendor service rule_id =
     andthen (expect vendor (HlPatch (rule_url (hs_sigma_endpoint service) rule_id)
                (jobj [(''global_state'', PStr ''disabled''), (''enabled'', PBool False)])) [200]
                ''DetectionRuleDisablingFailed'') (\<lambda>_. ret ())"

definition create_or_update_sigma_rule ::
  "(HlRequest, HttpResponse) vendor \<Rightarrow> HarfangLabService \<Rightarrow> SigmaRule \<Rightarrow> string \<Rightarrow> (HlRequest, unit) deploy" where
  "create_or_update_sigma_rule vendor service rule rule_id =
     andthen (send vendor (HlPut (rule_url (hs_sigma_endpoint service) rule_id) (sigma_asdict rule True))) (\<lambda>response.
       if hr_status response = 200 then ret ()
       else if hr_status response = 404
       then andthen (expect vendor (HlPost (hs_sigma_endpoint service) (sigma_asdict rule True)) [200, 201]
                       ''DetectionRuleCreationFailed'') (\<lambda>_. ret ())
       else http_errors_hl response ''DetectionRuleCreationFailed'')"

definition create_or_update_yara_rule ::
  "(HlRequest, HttpResponse) vendor \<Rightarrow> HarfangLabService \<Rightarrow> YaraRule \<Rightarrow> (HlRequest, unit) deploy" where
  "create_or_update_yara_rule vendor service rule =
     andthen (expect vendor (HlPost (hs_yara_endpoint service) (yara_asdict rule)) [200, 201]
                ''DetectionRuleCreationFailed'') (\<lambda>_. ret ())"

definition delete_yara_rule ::
  "(HlRequest, HttpResponse) vendor \<Rightarrow> HarfangLabService \<Rightarrow> string \<Rightarrow> (HlRequest, unit) deploy" where
  "delete_yara_rule vendor service rule_id =
     andthen (expect vendor (HlDelete (rule_url (hs_yara_endpoint service) rule_id)) [200, 204]
                ''DetectionRuleDeletionFailed'') (\<lambda>_. ret ())"

section \<open>The deployer\<close>

definition harfanglab :: string where
  "harfanglab = ''harfanglab''"

text \<open>A rule with both forms is a Sigma rule.\<close>

definition rule_type :: "HarfangLabConfig \<Rightarrow> string option" where
  "rule_type config =
     (if hc_sigma config \<noteq> None then Some ''Sigma'' else if hc_yara config \<noteq> None then Some ''YARA'' else None)"

definition deploy_mdr_hl ::
  "(pyval \<Rightarrow> string) \<Rightarrow> DeploymentStatus list \<Rightarrow> (HlRequest, HttpResponse) vendor \<Rightarrow> HarfangLabService
    \<Rightarrow> HarfangLabTenant \<Rightarrow> HarfangLabMdr \<Rightarrow> (HlRequest, unit) deploy" where
  "deploy_mdr_hl dump statuses vendor service tenant_config data =
     (case mdr_block data of
        None \<Rightarrow> lift_sum (missing ''Missing HarfangLab configuration'')
      | Some config \<Rightarrow>
          (if rule_type config = None then lift_sum (missing ''Invalid HarfangLab configuration'')
           else case check_status statuses (hc_status config) of
             Inl _ \<Rightarrow> raise (exn Config_Error ''status'')
           | Inr strategy \<Rightarrow>
               if strategy = DELETION
               then (if hc_sigma config \<noteq> None then delete_sigma_rule vendor service (ref_uuid data)
                     else delete_yara_rule vendor service (ref_uuid data))
               else if hc_sigma config \<noteq> None
               then andthen (lift_sum (compile_sigma_deployment dump statuses data tenant_config)) (\<lambda>rule.
                      create_or_update_sigma_rule vendor service rule (ref_uuid data))
               else andthen (lift_sum (compile_yara_deployment data tenant_config))
                      (create_or_update_yara_rule vendor service)))"

definition skip_rule :: "HarfangLabTenant \<Rightarrow> HarfangLabMdr \<Rightarrow> string \<Rightarrow> (HlRequest, unit) deploy" where
  "skip_rule tenant_config data reason =
     on_world (on_events (rule_skipped harfanglab (Some (ht_name tenant_config)) (ref_uuid data) (ref_name data) reason))"

definition deploy_one_hl ::
  "(pyval \<Rightarrow> string) \<Rightarrow> DeploymentStatus list \<Rightarrow> (HlRequest, HttpResponse) vendor \<Rightarrow> HarfangLabService
    \<Rightarrow> HarfangLabTenant \<Rightarrow> HarfangLabMdr \<Rightarrow> (HlRequest, unit) deploy" where
  "deploy_one_hl dump statuses vendor service tenant_config data =
     (case mdr_block data of
        None \<Rightarrow> skip_rule tenant_config data ''no HarfangLab configuration''
      | Some config \<Rightarrow>
          if rule_type config \<noteq> Some (ht_type tenant_config)
          then skip_rule tenant_config data
                 ((case rule_type config of None \<Rightarrow> ''unknown'' | Some t \<Rightarrow> t) @ '' rule, '' @ ht_type tenant_config @ '' tenant'')
          else deploying harfanglab (ht_name tenant_config) (ref_uuid data) (ref_name data)
                 (deploy_mdr_hl dump statuses vendor service tenant_config data))"

definition deploy_tenant_hl ::
  "(pyval \<Rightarrow> string) \<Rightarrow> DeploymentStatus list \<Rightarrow> (HlRequest, HttpResponse) vendor \<Rightarrow> HarfangLabTenant
    \<Rightarrow> HarfangLabMdr list \<Rightarrow> (HlRequest, unit) deploy" where
  "deploy_tenant_hl dump statuses vendor tenant_config rules =
     andthen (connect_hl tenant_config) (\<lambda>service.
     andthen (each (deploy_one_hl dump statuses vendor service tenant_config) rules) (\<lambda>_. ret ()))"

definition deploy_harfanglab ::
  "(pyval \<Rightarrow> string) \<Rightarrow> DeployEnv \<Rightarrow> (HlRequest, HttpResponse) vendor \<Rightarrow> (string \<Rightarrow> HarfangLabMdr option)
    \<Rightarrow> (HarfangLabMdr list \<Rightarrow> RunStrategies option \<Rightarrow> Exn + (HarfangLabTenant \<times> HarfangLabMdr list) list)
    \<Rightarrow> HarfangLabMdr mdr_arg list \<Rightarrow> RunStrategies option \<Rightarrow> (HlRequest, unit) deploy" where
  "deploy_harfanglab dump env vendor rules resolve mdr_deployment strategies =
     andthen (lift_sum (rmap (load_mdr rules) mdr_deployment)) (\<lambda>loaded.
     andthen (ask_world (without_legacy_external_ids (du_text_of env) (du_index env) loaded harfanglab)) (\<lambda>kept.
     andthen (lift_sum (resolve kept strategies)) (\<lambda>batches.
     andthen (each (\<lambda>(tenant_config, rs). deploy_tenant_hl dump (du_statuses env) vendor tenant_config rs) batches)
       (\<lambda>_. ret ()))))"

section \<open>Laws\<close>

text \<open>Every request sent in between satisfies \<open>P\<close>.\<close>

definition sends :: "(HlRequest \<Rightarrow> bool) \<Rightarrow> HlRequest DeployRun \<Rightarrow> HlRequest DeployRun \<Rightarrow> bool" where
  "sends P s s' = (\<exists>qs. dr_calls s' = dr_calls s @ qs \<and> list_all P qs)"

interpretation sent: frame "sends P" for P
proof
  show "sends P s s" for s by (simp add: sends_def)
  show "sends P s t \<Longrightarrow> sends P t u \<Longrightarrow> sends P s u" for s t u by (force simp: sends_def)
qed

lemma starts_with_self [simp]: "starts_with p p" "starts_with p (p @ s)"
  by (induction p) simp_all

lemma sent_send: "P q \<Longrightarrow> preserves (sends P) (send vendor q)"
  by (auto simp: preserves_def send_def sends_def)

lemma sent_quiet:
  "preserves (sends P) (on_world f)" "preserves (sends P) (lift_sum r)" "preserves (sends P) (http_errors_hl response e)"
  by (simp add: preserves_def on_world_def update_state_def sends_def)
    (cases r, simp_all add: sent.frame_rules http_errors_hl_def)

lemma sent_expect: "P q \<Longrightarrow> preserves (sends P) (expect vendor q ok e)"
  unfolding expect_def by (auto intro!: sent.frame_rules sent_send sent_quiet)

lemma sent_deploying: "preserves (sends P) m \<Longrightarrow> preserves (sends P) (deploying p t r n m)"
proof -
  assume m: "preserves (sends P) m"
  have "preserves (sends P) (\<lambda>s. let (r, s') = m s; failed = (case r of Inl e \<Rightarrow> Some (ex_text e) | Inr _ \<Rightarrow> None)
             in (r, s'\<lparr>dr_world := on_events (scope_exit failed) (dr_world s')\<rparr>))"
    using m by (auto simp: preserves_def sends_def split: prod.splits) (metis snd_conv)
  then show ?thesis unfolding deploying_def by (intro sent.keeps_andthen sent_quiet)
qed

lemma sent_sigma:
  assumes "\<And>q. starts_with (hs_sigma_endpoint service) (request_url q) \<Longrightarrow> P q"
  shows "preserves (sends P) (create_or_update_sigma_rule vendor service rule i)"
    "preserves (sends P) (delete_sigma_rule vendor service i)"
  unfolding create_or_update_sigma_rule_def delete_sigma_rule_def
  by (auto intro!: sent.frame_rules sent_send sent_expect sent_quiet assms simp: rule_url_def)

lemma sent_yara:
  assumes "\<And>q. starts_with (hs_yara_endpoint service) (request_url q) \<Longrightarrow> P q"
  shows "preserves (sends P) (create_or_update_yara_rule vendor service yara)"
    "preserves (sends P) (delete_yara_rule vendor service i)"
  unfolding create_or_update_yara_rule_def delete_yara_rule_def
  by (auto intro!: sent.frame_rules sent_expect assms simp: rule_url_def)

definition own_request :: "HarfangLabTenant \<Rightarrow> HlRequest \<Rightarrow> bool" where
  "own_request tenant_config q =
     (ht_type tenant_config = ''Sigma'' \<and> starts_with (hs_sigma_endpoint (service_of tenant_config)) (request_url q)
      \<or> ht_type tenant_config = ''YARA'' \<and> starts_with (hs_yara_endpoint (service_of tenant_config)) (request_url q))"

lemma sent_deploy_one:
  "preserves (sends (own_request tenant_config)) (deploy_one_hl dump statuses vendor (service_of tenant_config) tenant_config data)"
proof (cases "\<exists>config. mdr_block data = Some config \<and> rule_type config = Some (ht_type tenant_config)")
  case False
  then show ?thesis by (auto simp: deploy_one_hl_def skip_rule_def intro!: sent_quiet split: option.split)
next
  case True
  then obtain config where c: "mdr_block data = Some config" "rule_type config = Some (ht_type tenant_config)" by blast
  have "preserves (sends (own_request tenant_config))
      (deploy_mdr_hl dump statuses vendor (service_of tenant_config) tenant_config data)"
    using c(2) by (auto simp: deploy_mdr_hl_def c(1) own_request_def rule_type_def split: sum.split if_splits
        intro!: sent.frame_rules sent_quiet sent_sigma sent_yara)
  with c show ?thesis by (simp add: deploy_one_hl_def sent_deploying)
qed

section \<open>Properties\<close>

text \<open>
  A HarfangLab tenant only gets rules of its kind: whatever the rules are and however the run ends, every request
  of the run goes to the collection of the tenant's type, and a tenant whose type is neither Sigma nor
  YARA is sent nothing.
\<close>

theorem harfanglab_sends_its_kind_only:
  assumes "deploy_tenant_hl dump statuses vendor tenant_config rules s = (x, s')"
  shows "\<exists>qs. dr_calls s' = dr_calls s @ qs
    \<and> list_all (\<lambda>q. starts_with (if ht_type tenant_config = ''Sigma'' then hs_sigma_endpoint (service_of tenant_config)
         else hs_yara_endpoint (service_of tenant_config)) (request_url q)) qs
    \<and> (ht_type tenant_config \<notin> {''Sigma'', ''YARA''} \<longrightarrow> qs = [])"
proof -
  have "preserves (sends (own_request tenant_config)) (deploy_tenant_hl dump statuses vendor tenant_config rules)"
    by (cases "tenant_tls_verify (ht_ssl tenant_config)")
      (simp_all add: deploy_tenant_hl_def connect_hl_def sent.frame_rules sent_deploy_one)
  from sent.keeps_run [OF this assms] obtain qs where "dr_calls s' = dr_calls s @ qs" "list_all (own_request tenant_config) qs"
    by (auto simp: sends_def)
  then show ?thesis by (cases qs) (auto simp: own_request_def list_all_iff intro!: exI [of _ qs])
qed

text \<open>
  A Sigma rule is reported deployed exactly when HarfangLab took it: the upsert returns exactly when the PUT was
  answered 200, or 404 and then the POST 200 or 201; the requests are that PUT and, only after a 404,
  that POST, with the same body.
\<close>

theorem harfanglab_upsert_told:
  assumes "vendor (dr_calls s) put = Inr answer"
    and "vendor (dr_calls s @ [put]) post = Inr answer'"
    and "put = HlPut (rule_url (hs_sigma_endpoint service) rule_id) (sigma_asdict rule True)"
    and "post = HlPost (hs_sigma_endpoint service) (sigma_asdict rule True)"
  shows "(fst (create_or_update_sigma_rule vendor service rule rule_id s) = Inr () \<longleftrightarrow>
       hr_status answer = 200 \<or> hr_status answer = 404 \<and> hr_status answer' \<in> {200, 201})
    \<and> dr_calls (snd (create_or_update_sigma_rule vendor service rule rule_id s)) =
       dr_calls s @ put # (if hr_status answer = 404 then [post] else [])"
  using assms
  by (simp add: create_or_update_sigma_rule_def expect_def andthen_def send_def http_errors_hl_def ret_def raise_def)

lemma read_yara_char:
  "read_chars (escape_yara_char c @ s)
     = (if c = CHR 0x0D then read_chars s else map_option (\<lambda>(x, rest). (c # x, rest)) (read_chars s))"
  by (simp add: escape_yara_char_def)

text \<open>
  A value written to a YARA rule through the escape cannot leave its literal: its reader takes the value without
  its carriage returns and goes on exactly after the literal.
\<close>

theorem yara_literal_is_read_back:
  "read_literal (dquoted (escape_yara_string s) @ rest) = Some (filter (\<lambda>c. c \<noteq> CHR 0x0D) s, rest)"
proof -
  have "read_chars (concat (map escape_yara_char s) @ CHR 0x22 # rest) = Some (filter (\<lambda>c. c \<noteq> CHR 0x0D) s, rest)"
    by (induction s) (simp_all add: read_yara_char)
  then show ?thesis by (simp add: dquoted_def escape_yara_string_def)
qed

text \<open>
  The status of a YARA rule is not read but for deletion: a rule whose status disables it is sent as
  the same request as when its status releases it, with the action of its block.
\<close>

theorem yara_rule_is_not_disabled:
  assumes "mdr_block data = Some config" and "hc_sigma config = None" and "hc_yara config \<noteq> None"
    and "check_status statuses (hc_status config) = Inr DISABLEMENT"
    and "check_status statuses status = Inr RELEASE"
  shows "deploy_mdr_hl dump statuses vendor service tenant_config data s
    = deploy_mdr_hl dump statuses vendor service tenant_config (data\<lparr>mdr_block := Some (config\<lparr>hc_status := status\<rparr>)\<rparr>) s"
proof -
  have "yara_author (data\<lparr>mdr_block := b\<rparr>) = yara_author data" for b
    by (auto simp: yara_author_def split: option.split list.split)
  then have "yara_lines (data\<lparr>mdr_block := b\<rparr>) (config\<lparr>hc_status := status\<rparr>) yara = yara_lines data config yara" for b yara
    by (simp add: yara_lines_def yara_meta_lines_def)
  then show ?thesis using assms by (auto simp: deploy_mdr_hl_def rule_type_def compile_yara_deployment_def)
qed


lemma map_of_map_dict: "map_of (map (\<lambda>(name, items). (name, PDict items)) d) k = map_option PDict (map_of d k)"
  by (induction d) auto

lemma selection_added:
  "map_of (selection_items (add_selection d s) name) (PStr key)
    = (if sl_name s = name \<and> selection_key s = key then Some (sl_value s) else map_of (selection_items d name) (PStr key))"
  by (auto simp: add_selection_def selection_items_def dict_get_def map_of_update split: option.split)

lemma selections_added:
  "map_of (selection_items (foldl add_selection d ss) name) (PStr key)
    = (case find (\<lambda>s. sl_name s = name \<and> selection_key s = key) (rev ss) of
         Some s \<Rightarrow> Some (sl_value s) | None \<Rightarrow> map_of (selection_items d name) (PStr key))"
proof (induction ss arbitrary: d)
  case (Cons s ss)
  have snoc: "find P (xs @ [x]) = (case find P xs of Some y \<Rightarrow> Some y | None \<Rightarrow> if P x then Some x else None)" for P and xs :: "SigmaSelection list" and x
    by (induction xs) auto
  show ?case by (auto simp: Cons selection_added snoc split: option.split)
qed simp

text \<open>
  The Sigma detection says what the selections say: under the name of a selection and its field with modifiers
  stands the value of the last entry with that name and that field; entries that share both are one
  entry, and a selection named \<open>condition\<close> gives way to the condition.
\<close>

theorem sigma_detection_exact:
  assumes "s \<in> set selections" and "sl_name s \<noteq> ''condition''"
  shows "\<exists>items. map_of (sigma_detection selections condition) (sl_name s) = Some (PDict items)
     \<and> map_of items (PStr (selection_key s))
         = map_option sl_value (find (\<lambda>s'. sl_name s' = sl_name s \<and> selection_key s' = selection_key s) (rev selections))
     \<and> map_of items (PStr (selection_key s)) \<noteq> None"
proof -
  let ?d = "foldl add_selection [] selections"
  let ?last = "find (\<lambda>s'. sl_name s' = sl_name s \<and> selection_key s' = selection_key s) (rev selections)"
  have found: "?last \<noteq> None" using assms(1) by (auto simp: find_None_iff)
  have "map_of (selection_items ?d (sl_name s)) (PStr (selection_key s)) = map_option sl_value ?last"
    by (subst selections_added) (auto simp: selection_items_def dict_get_def split: option.split)
  moreover from this found have "map_of ?d (sl_name s) \<noteq> None"
    by (auto simp: selection_items_def dict_get_def split: option.splits)
  ultimately show ?thesis using assms(2) found
    by (auto simp: sigma_detection_def map_of_update map_of_map_dict selection_items_def dict_get_def)
qed

section \<open>Samples\<close>

definition sample_yara :: YaraConfig where
  "sample_yara = \<lparr>yr_context = [''file''], yr_os = ''Linux'', yr_arch = None, yr_score = None, yr_classification = None,
     yr_strings = ''$a'', yr_condition = ''$a'', yr_imports = None\<rparr>"

definition sample_hl_config :: HarfangLabConfig where
  "sample_hl_config = \<lparr>hc_status = ''DISABLED'', hc_maturity = ''Stable'', hc_confidence = ''Strong'', hc_action = ''Alert & Block'',
     hc_tags = None, hc_sigma = None, hc_yara = Some sample_yara\<rparr>"

definition sample_hl_mdr :: HarfangLabMdr where
  "sample_hl_mdr = \<lparr>ref_uuid = uuid_str 7, ref_name = ''Rule'', mdr_description = ''d'', mdr_severity = ''High'',
     mdr_author = None, mdr_block = Some sample_hl_config, hm_organisation = None, hm_created = [], hm_modified = [],
     hm_public_references = []\<rparr>"

definition sample_hl_tenant :: HarfangLabTenant where
  "sample_hl_tenant = \<lparr>ht_name = ''Prod'', ht_ssl = PBool True, ht_type = ''YARA'', ht_url = ''https://hl/'',
     ht_api_token = ''t'', ht_source_id = ''src''\<rparr>"

definition sample_hl_statuses :: "DeploymentStatus list" where
  "sample_hl_statuses = [\<lparr>status_name = ''DISABLED'', status_strategy = StrategyMember DISABLEMENT\<rparr>,
     \<lparr>status_name = ''PRODUCTION'', status_strategy = StrategyMember RELEASE\<rparr>]"

definition sample_hl_vendor :: "(HlRequest, HttpResponse) vendor" where
  "sample_hl_vendor calls q = Inr \<lparr>hr_status = 201, hr_json = None, hr_text = [], hr_content_type = []\<rparr>"

lemma sample_hl_status: "check_status sample_hl_statuses ''DISABLED'' = Inr DISABLEMENT"
  "check_status sample_hl_statuses ''PRODUCTION'' = Inr RELEASE"
  by (simp_all add: sample_hl_statuses_def)

lemma sample_hl_run:
  obtains rule s' where "compile_yara_deployment sample_hl_mdr sample_hl_tenant = Inr rule" "yl_global_state rule = ''block''"
    "deploy_tenant_hl (\<lambda>_. []) sample_hl_statuses sample_hl_vendor sample_hl_tenant [sample_hl_mdr] sample_run = (Inr (), s')"
    "dr_calls s' = [HlPost (hs_yara_endpoint (service_of sample_hl_tenant)) (yara_asdict rule)]"
proof -
  obtain rule where c: "compile_yara_deployment sample_hl_mdr sample_hl_tenant = Inr rule" "yl_global_state rule = ''block''"
    by (simp add: compile_yara_deployment_def sample_hl_mdr_def sample_hl_config_def map_action_to_global_state_def dict_get_def)
  have fields: "mdr_block sample_hl_mdr = Some sample_hl_config" "rule_type sample_hl_config = Some ''YARA''"
    "hc_sigma sample_hl_config = None" "hc_status sample_hl_config = ''DISABLED''"
    "ht_type sample_hl_tenant = ''YARA''" "tenant_tls_verify (ht_ssl sample_hl_tenant) = Inr True"
    by (simp_all add: sample_hl_mdr_def sample_hl_config_def sample_hl_tenant_def rule_type_def tenant_tls_verify_def)
  let ?service = "service_of sample_hl_tenant"
  have one: "deploy_mdr_hl (\<lambda>_. []) sample_hl_statuses sample_hl_vendor ?service sample_hl_tenant sample_hl_mdr s
      = (Inr (), s\<lparr>dr_calls := dr_calls s @ [HlPost (hs_yara_endpoint ?service) (yara_asdict rule)]\<rparr>)" for s
    by (simp add: deploy_mdr_hl_def fields sample_hl_status c andthen_def create_or_update_yara_rule_def expect_def send_def
        sample_hl_vendor_def ret_def del: check_status.simps)
  obtain s' where "deploy_tenant_hl (\<lambda>_. []) sample_hl_statuses sample_hl_vendor sample_hl_tenant [sample_hl_mdr] sample_run = (Inr (), s')"
    "dr_calls s' = [HlPost (hs_yara_endpoint ?service) (yara_asdict rule)]"
    by (simp add: deploy_tenant_hl_def connect_hl_def fields andthen_def ret_def deploy_one_hl_def deploying_def one
        on_world_def update_state_def Let_def sample_run_def)
  then show thesis using that c by blast
qed

theorem harfanglab_sends_its_kind_only_witness:
  "\<exists>s' q. deploy_tenant_hl (\<lambda>_. []) sample_hl_statuses sample_hl_vendor sample_hl_tenant [sample_hl_mdr] sample_run = (Inr (), s')
     \<and> dr_calls s' = [q] \<and> starts_with (hs_yara_endpoint (service_of sample_hl_tenant)) (request_url q)"
proof -
  obtain rule s' where run: "deploy_tenant_hl (\<lambda>_. []) sample_hl_statuses sample_hl_vendor sample_hl_tenant [sample_hl_mdr] sample_run = (Inr (), s')"
    "dr_calls s' = [HlPost (hs_yara_endpoint (service_of sample_hl_tenant)) (yara_asdict rule)]"
    by (rule sample_hl_run)
  have "dr_calls (sample_run :: HlRequest DeployRun) = []" "ht_type sample_hl_tenant = ''YARA''"
    by (simp_all add: sample_run_def sample_hl_tenant_def)
  with harfanglab_sends_its_kind_only [OF run(1)] run show ?thesis by auto
qed

theorem yara_rule_is_not_disabled_witness:
  "check_status sample_hl_statuses (hc_status sample_hl_config) = Inr DISABLEMENT
     \<and> deploy_mdr_hl (\<lambda>_. []) sample_hl_statuses sample_hl_vendor (service_of sample_hl_tenant) sample_hl_tenant sample_hl_mdr sample_run
       = deploy_mdr_hl (\<lambda>_. []) sample_hl_statuses sample_hl_vendor (service_of sample_hl_tenant) sample_hl_tenant
           (sample_hl_mdr\<lparr>mdr_block := Some (sample_hl_config\<lparr>hc_status := ''PRODUCTION''\<rparr>)\<rparr>) sample_run"
proof -
  have fields: "mdr_block sample_hl_mdr = Some sample_hl_config" "hc_sigma sample_hl_config = None"
    "hc_yara sample_hl_config \<noteq> None" "hc_status sample_hl_config = ''DISABLED''"
    by (simp_all add: sample_hl_mdr_def sample_hl_config_def)
  have status: "check_status sample_hl_statuses (hc_status sample_hl_config) = Inr DISABLEMENT"
    using sample_hl_status fields(4) by simp
  from yara_rule_is_not_disabled [OF fields(1-3) status sample_hl_status(2)] status show ?thesis by blast
qed

theorem sigma_detection_exact_witness:
  "\<exists>items. map_of (sigma_detection
        [\<lparr>sl_name = ''sel'', sl_field = ''Image'', sl_modifiers = Some [''endswith''], sl_value = PStr ''a''\<rparr>,
         \<lparr>sl_name = ''sel'', sl_field = ''Image'', sl_modifiers = Some [''endswith''], sl_value = PStr ''b''\<rparr>] ''sel'') ''sel''
       = Some (PDict items)
     \<and> map_of items (PStr ''Image|endswith'') = Some (PStr ''b'')"
  using sigma_detection_exact [of "\<lparr>sl_name = ''sel'', sl_field = ''Image'', sl_modifiers = Some [''endswith''], sl_value = PStr ''a''\<rparr>"
      "[\<lparr>sl_name = ''sel'', sl_field = ''Image'', sl_modifiers = Some [''endswith''], sl_value = PStr ''a''\<rparr>,
         \<lparr>sl_name = ''sel'', sl_field = ''Image'', sl_modifiers = Some [''endswith''], sl_value = PStr ''b''\<rparr>]" "''sel''"]
  by (auto simp: selection_key_def some_items_def)

theorem harfanglab_upsert_told_witness:
  "fst (create_or_update_sigma_rule (\<lambda>calls q. Inr \<lparr>hr_status = (if calls = [] then 404 else 201), hr_json = None, hr_text = [],
       hr_content_type = []\<rparr>) (service_of sample_hl_tenant) rule ''u'' sample_run) = Inr ()"
  using harfanglab_upsert_told [of "\<lambda>calls q. Inr \<lparr>hr_status = (if calls = [] then 404 else 201), hr_json = None, hr_text = [],
       hr_content_type = []\<rparr>" sample_run _ "\<lparr>hr_status = 404, hr_json = None, hr_text = [], hr_content_type = []\<rparr>" _
       "\<lparr>hr_status = 201, hr_json = None, hr_text = [], hr_content_type = []\<rparr>" "service_of sample_hl_tenant" "''u''" rule]
  by (simp add: sample_run_def)

end
