(* ===== verification/Falco_Expansion.thy ===== *)
theory Falco_Expansion
  imports Py_Prelude
begin

text \<open>
  \<open>platforms/sysdig/expansion.py\<close>: a Sysdig block's own macros and lists are written into its condition and
  exceptions as Falco's rule loader would. Lists are textual: \<open>resolve_list\<close> replaces the delimited
  occurrences of a name, left to right. Macros go by the tokens of the condition.
\<close>

section \<open>Falco's operators\<close>

definition unary_operators :: "string list" where
  "unary_operators = [''exists'']"

definition numeric_operators :: "string list" where
  "numeric_operators = [''<='', ''<'', ''>='', ''>'']"

definition string_operators :: "string list" where
  "string_operators = [''=='', ''='', ''!='', ''glob'', ''iglob'', ''contains'', ''icontains'', ''bcontains'',
     ''startswith'', ''bstartswith'', ''endswith'', ''regex'']"

definition list_operators :: "string list" where
  "list_operators = [''intersects'', ''in'', ''pmatch'']"

definition falco_operators :: "string list" where
  "falco_operators = unary_operators @ numeric_operators @ string_operators @ list_operators"

definition modifiable_operators :: "string list" where
  "modifiable_operators = [''='', ''=='', ''!='', ''contains'', ''icontains'', ''bcontains'', ''startswith'', ''bstartswith'',
     ''endswith'', ''glob'', ''iglob'', ''regex'']"

definition falco_modifiers :: "string list" where
  "falco_modifiers = [''oneof'', ''anyof'', ''allof'']"

definition transformers :: "string list" where
  "transformers = [''tolower'', ''toupper'', ''b64'', ''basename'', ''len'', ''join'', ''concat'', ''getopt'', ''val'']"

text \<open>The operators \<open>str.isalpha\<close> holds of.\<close>

definition word_operators :: "string list" where
  "word_operators = filter (\<lambda>op. op \<noteq> [] \<and> list_all (\<lambda>c. let n = (of_char c :: nat) in 97 \<le> n \<and> n \<le> 122) op) falco_operators"

definition is_blank :: "char \<Rightarrow> bool" where
  "is_blank c = (c \<in> {CHR '' '', CHR 0x09, CHR 0x0A, CHR 0x0D})"

definition is_delimiter :: "char \<Rightarrow> bool" where
  "is_delimiter c = (is_blank c \<or> c \<in> {CHR ''('', CHR '')'', CHR '','', CHR ''=''})"

definition lstrip_blanks :: "string \<Rightarrow> string" where
  "lstrip_blanks = dropWhile is_blank"

definition rstrip_blanks :: "string \<Rightarrow> string" where
  "rstrip_blanks s = rev (dropWhile is_blank (rev s))"

definition normalize_comp :: "string \<Rightarrow> string" where
  "normalize_comp c = rstrip_blanks (lstrip_blanks c)"

definition is_modified_operator :: "string \<Rightarrow> bool" where
  "is_modified_operator op =
     (let (head, space, modifier) = py_partition '' '' op
      in space \<and> head \<in> set modifiable_operators \<and> modifier \<in> set falco_modifiers)"

definition is_exception_operator :: "string \<Rightarrow> bool" where
  "is_exception_operator op = (op \<in> set falco_operators \<or> is_modified_operator op)"

definition is_list_comparison :: "string \<Rightarrow> bool" where
  "is_list_comparison op = (op \<in> set list_operators \<or> is_modified_operator op)"

definition quote_item :: "string \<Rightarrow> string" where
  "quote_item item =
     (if CHR '' '' \<in> set item \<and> hd item \<noteq> CHR 0x22 \<and> hd item \<noteq> CHR 0x27
      then CHR 0x22 # item @ [CHR 0x22] else item)"

definition item_text :: "pyval \<Rightarrow> string" where
  "item_text item = (case item of PBool b \<Rightarrow> (if b then ''true'' else ''false'') | v \<Rightarrow> py_str v)"

section \<open>Lists in a text\<close>

text \<open>\<open>s.find(sub)\<close> and \<open>s.find(sub, start)\<close>\<close>

fun find_str :: "string \<Rightarrow> string \<Rightarrow> nat option" where
  "find_str sub [] = (if sub = [] then Some 0 else None)"
| "find_str sub (c # cs) = (if starts_with sub (c # cs) then Some 0 else map_option Suc (find_str sub cs))"

definition find_from :: "string \<Rightarrow> string \<Rightarrow> nat \<Rightarrow> nat option" where
  "find_from sub s start = (if length s < start then None else map_option ((+) start) (find_str sub (drop start s)))"

text \<open>A text that ends, and one that starts, at a delimiter or at the end of the whole text.\<close>

definition left_edge :: "string \<Rightarrow> bool" where
  "left_edge u = (u = [] \<or> is_delimiter (last u))"

definition right_edge :: "string \<Rightarrow> bool" where
  "right_edge v = (v = [] \<or> is_delimiter (hd v))"

definition item_list :: "string list \<Rightarrow> string" where
  "item_list items = str_join '', '' (map quote_item items)"

text \<open>An empty list takes a comma next to it, the left one first.\<close>

definition cut_comma :: "string \<Rightarrow> string \<Rightarrow> string \<times> string" where
  "cut_comma pre after =
     (if pre \<noteq> [] \<and> last pre = CHR '','' then (butlast pre, after)
      else if after \<noteq> [] \<and> hd after = CHR '','' then (pre, tl after)
      else (pre, after))"

text \<open>What stands before and after an occurrence once the blanks around it are consumed.\<close>

definition around :: "string list \<Rightarrow> string \<Rightarrow> string \<Rightarrow> string \<times> string" where
  "around items u v =
     (if item_list items = [] then cut_comma (rstrip_blanks u) (lstrip_blanks v)
      else (rstrip_blanks u, lstrip_blanks v))"

definition spliced :: "string list \<Rightarrow> string \<Rightarrow> string" where
  "spliced items pre = (if pre \<noteq> [] then pre @ '' '' else []) @ item_list items @ '' ''"

text \<open>
  The loop of \<open>resolve_list\<close>: the text, where the next search starts, and whether the list was used. A name
  is an identifier, so it is not empty.
\<close>

lemma find_from_bounds: "find_from sub s i = Some j \<Longrightarrow> i \<le> j \<and> j + length sub \<le> length s"
proof -
  have starts: "starts_with p t \<Longrightarrow> length p \<le> length t" for p t
    by (induction p t rule: starts_with.induct) auto
  have "find_str sub t = Some k \<Longrightarrow> k + length sub \<le> length t" for t k
    by (induction t arbitrary: k) (auto split: if_splits dest: starts)
  then show "find_from sub s i = Some j \<Longrightarrow> i \<le> j \<and> j + length sub \<le> length s"
    by (fastforce simp: find_from_def split: if_splits)
qed

lemma length_strips: "length (lstrip_blanks v) \<le> length v" "length (rstrip_blanks u) \<le> length u"
  by (simp_all add: lstrip_blanks_def rstrip_blanks_def length_dropWhile_le le_trans [OF length_dropWhile_le])

lemma around_after: "length (snd (around items u v)) \<le> length v"
  using length_strips(1) [of v] by (auto simp: around_def cut_comma_def)

function resolve_from :: "string \<Rightarrow> string list \<Rightarrow> string \<Rightarrow> nat \<Rightarrow> bool \<Rightarrow> string \<times> bool" where
  "resolve_from name items cnd start used =
     (if name = [] then (cnd, used)
      else case find_from name cnd start of
        None \<Rightarrow> (cnd, used)
      | Some i \<Rightarrow>
          let u = take i cnd; v = drop (i + length name) cnd
          in if left_edge u \<and> right_edge v
             then let (pre, after) = around items u v
                  in resolve_from name items (spliced items pre @ after) (length pre + length (item_list items) + 2) True
             else resolve_from name items cnd (i + 1) used)"
  by pat_completeness auto

termination
proof (relation "measure (\<lambda>(name, items, cnd, start, used). length cnd + 1 - start)", goal_cases)
  case (2 name items cnd start used i u v x pre after)
  from find_from_bounds [OF 2(2)] have "start \<le> i" "i + length name \<le> length cnd" by blast+
  moreover have "length after \<le> length cnd - (i + length name)"
    using around_after [of items u v] 2 by (metis snd_conv length_drop)
  moreover from 2(1) obtain k where "length name = Suc k" by (cases name) auto
  ultimately show ?case by (auto simp: spliced_def)
next
  case (3 name items cnd start used i u v)
  from find_from_bounds [OF 3(2)] show ?case using 3(1) by (cases name) auto
qed simp

declare resolve_from.simps [simp del]

definition resolve_list :: "string \<Rightarrow> string \<Rightarrow> string list \<Rightarrow> string \<times> bool" where
  "resolve_list cnd name items = resolve_from name items cnd 0 False"

text \<open>\<open>occurs\<close>: whether a delimited occurrence is found.\<close>

definition occurs_at :: "string \<Rightarrow> string \<Rightarrow> nat \<Rightarrow> bool" where
  "occurs_at name s i =
     (starts_with name (drop i s) \<and> left_edge (take i s) \<and> right_edge (drop (i + length name) s))"

definition occurs :: "string \<Rightarrow> string \<Rightarrow> bool" where
  "occurs s name = list_ex (occurs_at name s) [0..<Suc (length s)]"


text \<open>\<open>join_lines\<close>: each line stripped, joined by single spaces.\<close>

definition join_lines :: "string \<Rightarrow> string" where
  "join_lines s = str_join '' '' (filter (\<lambda>line. line \<noteq> []) (map py_strip (splitlines s)))"

section \<open>The tokens of a condition\<close>

datatype token_kind = Space_Token | String_Token | Open_Token | Close_Token | Comma_Token | Symbol_Token | Word_Token

record Token =
  tk_kind :: token_kind
  tk_text :: string

definition falco_symbols :: "string list" where
  "falco_symbols = [''!='', ''<='', ''>='', ''=='', ''='', ''<'', ''>'']"

text \<open>The length of a quoted string after its opening quote.\<close>

fun quoted_len :: "char \<Rightarrow> string \<Rightarrow> nat" where
  "quoted_len q [] = 0"
| "quoted_len q (c # cs) =
     (if c = q then 1
      else if c = CHR 0x5C then (case cs of [] \<Rightarrow> 1 | d # ds \<Rightarrow> 2 + quoted_len q ds)
      else 1 + quoted_len q cs)"

text \<open>A field argument, \<open>proc.aname[2]\<close>, stays in its word.\<close>

fun word_len :: "nat \<Rightarrow> string \<Rightarrow> nat" where
  "word_len depth [] = 0"
| "word_len depth (c # cs) =
     (if c = CHR ''['' then 1 + word_len (depth + 1) cs
      else if c = CHR '']'' \<and> 0 < depth then 1 + word_len (depth - 1) cs
      else if depth = 0 \<and> (is_blank c \<or> c \<in> set (''(),'' @ [CHR 0x22, CHR 0x27] @ ''=<>!'')) then 0
      else 1 + word_len depth cs)"

text \<open>The kind and the length of the token a text starts with; a lone exclamation mark is a word.\<close>

definition next_token :: "string \<Rightarrow> token_kind \<times> nat" where
  "next_token s =
     (let c = hd s in
      if is_blank c then (Space_Token, length (takeWhile is_blank s))
      else if c \<in> {CHR 0x22, CHR 0x27} then (String_Token, 1 + quoted_len c (tl s))
      else if c = CHR ''('' then (Open_Token, 1)
      else if c = CHR '')'' then (Close_Token, 1)
      else if c = CHR '','' then (Comma_Token, 1)
      else case find (\<lambda>w. starts_with w s) falco_symbols of
             Some w \<Rightarrow> (Symbol_Token, length w)
           | None \<Rightarrow> (Word_Token, max 1 (word_len 0 s)))"

lemma next_token_pos: "s \<noteq> [] \<Longrightarrow> 0 < snd (next_token s)"
  by (cases s) (auto simp: next_token_def Let_def falco_symbols_def split: option.splits if_splits)

function tokenize :: "string \<Rightarrow> Token list" where
  "tokenize s =
     (if s = [] then []
      else let (kind, n) = next_token s in \<lparr>tk_kind = kind, tk_text = take n s\<rparr> # tokenize (drop n s))"
  by pat_completeness auto

termination
proof (relation "measure length", goal_cases)
  case (2 s x kind n)
  with next_token_pos [of s] have "0 < n" by (metis snd_conv)
  with 2 show ?case by simp
qed simp

declare tokenize.simps [simp del]

section \<open>Macros\<close>

text \<open>The number of tokens up to the parenthesis that closes the first one.\<close>

fun closing_len :: "int \<Rightarrow> Token list \<Rightarrow> nat" where
  "closing_len depth [] = 0"
| "closing_len depth (t # ts) =
     (case tk_kind t of
        Open_Token \<Rightarrow> 1 + closing_len (depth + 1) ts
      | Close_Token \<Rightarrow> if depth - 1 = 0 then 1 else 1 + closing_len (depth - 1) ts
      | _ \<Rightarrow> 1 + closing_len depth ts)"

text \<open>\<open>_call_end\<close>: the tokens of a call \<open>word(...)\<close>.\<close>

definition call_len :: "Token list \<Rightarrow> nat option" where
  "call_len ts =
     (case ts of
        t # u # us \<Rightarrow> if tk_kind u = Open_Token then Some (1 + closing_len 0 (u # us)) else None
      | _ \<Rightarrow> None)"

definition value_len :: "Token list \<Rightarrow> nat" where
  "value_len ts =
     (case tk_kind (hd ts) of
        Open_Token \<Rightarrow> closing_len 0 ts
      | Word_Token \<Rightarrow> (case call_len ts of None \<Rightarrow> 1 | Some n \<Rightarrow> n)
      | _ \<Rightarrow> 1)"

text \<open>What a condition is made of: text that is kept, and the names in check position.\<close>

datatype segment = Kept string | Named string

datatype expectation = Expect_Check | Expect_Operator | Expect_Value

definition kept :: "Token list \<Rightarrow> segment list" where
  "kept = map (\<lambda>t. Kept (tk_text t))"

lemma closing_len_pos: "0 < closing_len d (t # ts)"
  by (auto split: token_kind.split)

lemma value_len_pos: "0 < value_len (t # ts)"
  by (auto simp: value_len_def call_len_def closing_len_pos split: token_kind.split list.split)

lemma call_len_pos: "call_len ts = Some n \<Longrightarrow> 0 < n"
  by (auto simp: call_len_def split: list.splits if_splits)

text \<open>A token in check position: its segments, how many tokens it takes, and what is expected next.\<close>

definition check_step :: "Token list \<Rightarrow> segment list \<times> nat \<times> expectation" where
  "check_step ts =
     (let t = hd ts in
      if tk_kind t \<noteq> Word_Token then (kept [t], 1, Expect_Check)
      else if tk_text t \<in> {''and'', ''or'', ''not''} then (kept [t], 1, Expect_Check)
      else case (if tk_text t \<in> set transformers then call_len ts else None) of
             Some n \<Rightarrow> (kept (take n ts), n, Expect_Operator)
           | None \<Rightarrow>
               if CHR ''.'' \<in> set (tk_text t) then (kept [t], 1, Expect_Operator)
               else ([Named (tk_text t)], 1, Expect_Check))"

definition step_of :: "expectation \<Rightarrow> Token list \<Rightarrow> segment list \<times> nat \<times> expectation" where
  "step_of expect ts =
     (let t = hd ts in
      if tk_kind t = Space_Token then (kept [t], 1, expect)
      else case expect of
        Expect_Value \<Rightarrow>
          if tk_kind t = Word_Token \<and> tk_text t \<in> set falco_modifiers then (kept [t], 1, Expect_Value)
          else (kept (take (value_len ts) ts), value_len ts, Expect_Check)
      | Expect_Operator \<Rightarrow>
          if tk_kind t = Symbol_Token \<or> tk_kind t = Word_Token \<and> tk_text t \<in> set word_operators
          then (kept [t], 1, if tk_text t \<in> set unary_operators then Expect_Check else Expect_Value)
          else check_step ts
      | Expect_Check \<Rightarrow> check_step ts)"

lemma step_pos: "0 < fst (snd (step_of expect (t # ts)))"
  by (auto simp: step_of_def check_step_def Let_def value_len_pos intro: call_len_pos split: expectation.split option.split)

function segments :: "expectation \<Rightarrow> Token list \<Rightarrow> segment list" where
  "segments expect ts =
     (if ts = [] then []
      else let (segs, n, expect') = step_of expect ts in segs @ segments expect' (drop n ts))"
  by pat_completeness auto

termination
proof (relation "measure (\<lambda>(e, ts). length ts)", goal_cases)
  case (2 expect ts x segs y n expect')
  with step_pos [of expect "hd ts" "tl ts"] have "0 < n" by (metis fst_conv snd_conv list.collapse)
  with 2 show ?case by simp
qed simp

declare segments.simps [simp del]

definition render_segment :: "(string \<Rightarrow> string option) \<Rightarrow> segment \<Rightarrow> string" where
  "render_segment resolve seg =
     (case seg of Kept s \<Rightarrow> s | Named name \<Rightarrow> (case resolve name of None \<Rightarrow> name | Some s \<Rightarrow> s))"

definition substitute_macros :: "string \<Rightarrow> (string \<Rightarrow> string option) \<Rightarrow> string" where
  "substitute_macros s resolve = concat (map (render_segment resolve) (segments Expect_Check (tokenize s)))"

definition check_position_names :: "string \<Rightarrow> string list" where
  "check_position_names s =
     List.map_filter (\<lambda>seg. case seg of Kept _ \<Rightarrow> None | Named name \<Rightarrow> Some name) (segments Expect_Check (tokenize s))"


section \<open>A block's definitions\<close>

datatype expansion_error = Definition_Order string | List_In_Value string

fun expansion_code :: "expansion_error \<Rightarrow> string" where
  "expansion_code (Definition_Order _) = ''sysdig_definition_order''"
| "expansion_code (List_In_Value _) = ''sysdig_list_in_value''"

type_synonym falco_lists = "(string \<times> string list) list"

type_synonym falco_macros = "(string \<times> string) list"

record Expander =
  fe_lists :: falco_lists
  fe_macros :: falco_macros

text \<open>\<open>_flatten\<close>: an item that names an earlier list is the items of that list.\<close>

definition flat_items :: "falco_lists \<Rightarrow> pyval list \<Rightarrow> string list" where
  "flat_items flat raw =
     concat (map (\<lambda>item. case map_of flat (item_text item) of Some items \<Rightarrow> items | None \<Rightarrow> [item_text item]) raw)"

fun flatten_from :: "falco_lists \<Rightarrow> (string \<times> pyval list) list \<Rightarrow> falco_lists" where
  "flatten_from flat [] = flat"
| "flatten_from flat ((name, raw) # rest) = flatten_from (flat @ [(name, flat_items flat raw)]) rest"

definition resolve_lists :: "falco_lists \<Rightarrow> string \<Rightarrow> string" where
  "resolve_lists ls s = foldl (\<lambda>t (name, items). fst (resolve_list t name items)) s ls"

definition written_in :: "falco_macros \<Rightarrow> string list \<Rightarrow> string \<Rightarrow> string option" where
  "written_in macros visible name =
     (if name \<in> set visible then Some (''('' @ the (map_of macros name) @ '')'') else None)"

text \<open>The block macros a text uses that are not among the macros already expanded.\<close>

definition later_macros :: "string list \<Rightarrow> string list \<Rightarrow> string \<Rightarrow> string list" where
  "later_macros order visible s = filter (\<lambda>n. n \<in> set order \<and> n \<notin> set visible) (check_position_names s)"

definition order_error :: "string \<Rightarrow> string list \<Rightarrow> expansion_error" where
  "order_error name later = Definition_Order (''macro '' @ str_repr name @ '' uses the block macro ''
     @ str_join '', '' (map str_repr (from_keys later))
     @ '', which is itself or defined after it: Falco refuses it as an undefined macro'')"

fun expand_macros :: "falco_lists \<Rightarrow> string list \<Rightarrow> falco_macros \<Rightarrow> (string \<times> string) list \<Rightarrow> expansion_error + falco_macros" where
  "expand_macros ls order pre [] = Inr pre"
| "expand_macros ls order pre ((name, condition) # rest) =
     (let s = resolve_lists ls (join_lines condition); later = later_macros order (map fst pre) s
      in if later \<noteq> [] then Inl (order_error name later)
         else expand_macros ls order
                (pre @ [(name, substitute_macros s (written_in pre (map fst pre)))]) rest)"

definition expander :: "(string \<times> string) list \<Rightarrow> (string \<times> pyval list) list \<Rightarrow> expansion_error + Expander" where
  "expander macros ls =
     (let flat = flatten_from [] ls
      in rbind (expand_macros flat (map fst macros) [] macros) (\<lambda>expanded. Inr \<lparr>fe_lists = flat, fe_macros = expanded\<rparr>))"

definition self_references :: "Expander \<Rightarrow> string list" where
  "self_references fe = map fst (filter (\<lambda>(name, items). name \<in> set items) (fe_lists fe))"

definition expand :: "Expander \<Rightarrow> string \<Rightarrow> string" where
  "expand fe condition =
     substitute_macros (resolve_lists (fe_lists fe) (join_lines condition))
       (written_in (fe_macros fe) (map fst (fe_macros fe)))"

section \<open>Exceptions\<close>

datatype text_or_texts = Text string | Texts "string list"

record SysdigException =
  se_name :: string
  se_fields :: text_or_texts
  se_comps :: "text_or_texts option"
  se_values :: "pyval list option"

definition is_collection :: "pyval \<Rightarrow> bool" where
  "is_collection v = (case v of PList _ \<Rightarrow> True | PDict _ \<Rightarrow> True | _ \<Rightarrow> False)"

definition list_in :: "falco_lists \<Rightarrow> pyval \<Rightarrow> string option" where
  "list_in ls v = find (\<lambda>name. item_text v \<noteq> name \<and> occurs (item_text v) name) (map fst ls)"

definition list_passes :: "falco_lists \<Rightarrow> pyval list \<Rightarrow> pyval list" where
  "list_passes ls vs =
     foldl (\<lambda>out (name, items). concat (map (\<lambda>v. if \<not> is_collection v \<and> item_text v = name then map PStr items else [v]) out))
       vs ls"

definition list_in_value :: "string \<Rightarrow> string \<Rightarrow> expansion_error" where
  "list_in_value name place = List_In_Value (place @ '': the block list '' @ str_repr name
     @ '' appears in a value where Falco'' @ [CHR 0x27] @ ''s expansion would not produce a value list'')"

definition list_members :: "falco_lists \<Rightarrow> pyval list \<Rightarrow> string \<Rightarrow> expansion_error + pyval list" where
  "list_members ls vs place =
     (let out = list_passes ls vs
      in case List.map_filter (list_in ls) out of [] \<Rightarrow> Inr out | name # _ \<Rightarrow> Inl (list_in_value name place))"

definition exception_item :: "falco_lists \<Rightarrow> string \<Rightarrow> string \<Rightarrow> pyval \<Rightarrow> expansion_error + pyval" where
  "exception_item ls place op item =
     (case item of
        PList vs \<Rightarrow> map_sum id PList (list_members ls vs place)
      | _ \<Rightarrow>
          (case list_in ls item of
             Some found \<Rightarrow> Inl (list_in_value found place)
           | None \<Rightarrow>
               if item_text item \<notin> set (map fst ls) then Inr item
               else if \<not> is_list_comparison op then Inl (list_in_value (item_text item) place)
               else map_sum id PList (list_members ls [item] place)))"

definition exception_row :: "falco_lists \<Rightarrow> string \<Rightarrow> string list \<Rightarrow> pyval \<Rightarrow> expansion_error + pyval" where
  "exception_row ls place comps row =
     (case row of
        PList items \<Rightarrow> map_sum id PList (rmap (\<lambda>(op, item). exception_item ls place op item) (zip comps items))
      | v \<Rightarrow> Inr v)"

definition comps_text :: "text_or_texts \<Rightarrow> string" where
  "comps_text c = (case c of Text s \<Rightarrow> s | Texts xs \<Rightarrow> py_str (PList (map PStr xs)))"

definition falco_exception :: "falco_lists \<Rightarrow> SysdigException \<Rightarrow> expansion_error + SysdigException" where
  "falco_exception ls entry =
     (let place = ''exception '' @ str_repr (se_name entry) in
      case se_fields entry of
        Text _ \<Rightarrow>
          (let out = entry\<lparr>se_comps := map_option (\<lambda>c. Text (normalize_comp (comps_text c))) (se_comps entry)\<rparr>
           in case se_values entry of
                None \<Rightarrow> Inr out
              | Some vs \<Rightarrow> rbind (list_members ls vs place) (\<lambda>ms. Inr (out\<lparr>se_values := Some ms\<rparr>)))
      | Texts fs \<Rightarrow>
          (let comps = (case se_comps entry of
                 Some (Texts cs) \<Rightarrow> map normalize_comp cs
               | _ \<Rightarrow> replicate (length fs) ''='');
               out = entry\<lparr>se_comps := map_option (\<lambda>_. Texts comps) (se_comps entry)\<rparr>
           in case se_values entry of
                None \<Rightarrow> Inr out
              | Some rows \<Rightarrow> rbind (rmap (exception_row ls place comps) rows) (\<lambda>rs. Inr (out\<lparr>se_values := Some rs\<rparr>))))"

definition check_definitions ::
  "(string \<times> string) list \<Rightarrow> (string \<times> pyval list) list \<Rightarrow> SysdigException list \<Rightarrow> expansion_error + unit" where
  "check_definitions macros ls exceptions =
     rbind (expander macros ls) (\<lambda>fe.
       rbind (rmap (falco_exception (fe_lists fe)) exceptions) (\<lambda>_. Inr ()))"


section \<open>Tokens\<close>

lemma tokens_text: "concat (map tk_text (tokenize s)) = s"
proof (induction s rule: tokenize.induct)
  case (1 s)
  show ?case
  proof (cases "s = []")
    case False
    obtain kind n where n: "next_token s = (kind, n)" by force
    with 1 [OF False] False show ?thesis by (subst tokenize.simps) simp
  qed (simp add: tokenize.simps)
qed

abbreviation segment_text :: "segment \<Rightarrow> string" where
  "segment_text \<equiv> render_segment (\<lambda>_. None)"

lemma kept_text: "concat (map (render_segment resolve) (kept ts)) = concat (map tk_text ts)"
  by (induction ts) (simp_all add: kept_def render_segment_def)

lemma check_step_text:
  "ts \<noteq> [] \<Longrightarrow> check_step ts = (segs, n, e) \<Longrightarrow> concat (map segment_text segs) = concat (map tk_text (take n ts))"
  by (cases ts) (auto simp: check_step_def Let_def kept_text render_segment_def split: if_splits option.splits)

lemma step_text:
  "ts \<noteq> [] \<Longrightarrow> step_of expect ts = (segs, n, e) \<Longrightarrow> concat (map segment_text segs) = concat (map tk_text (take n ts))"
  by (cases ts) (auto simp: step_of_def Let_def kept_text split: if_splits expectation.splits dest: check_step_text [rotated])

lemma segments_text: "concat (map segment_text (segments expect ts)) = concat (map tk_text ts)"
proof (induction expect ts rule: segments.induct)
  case (1 expect ts)
  show ?case
  proof (cases "ts = []")
    case False
    obtain segs n e where st: "step_of expect ts = (segs, n, e)" by (metis prod_cases3)
    have "concat (map tk_text ts) = concat (map tk_text (take n ts)) @ concat (map tk_text (drop n ts))"
      by (metis append_take_drop_id concat_append map_append)
    with 1 [OF False] False st step_text [OF False st] show ?thesis
      by (subst segments.simps) simp
  qed (simp add: segments.simps)
qed


lemma unused_names:
  "\<forall>n \<in> set (List.map_filter (\<lambda>seg. case seg of Kept _ \<Rightarrow> None | Named name \<Rightarrow> Some name) segs). resolve n = None
    \<Longrightarrow> map (render_segment resolve) segs = map segment_text segs"
  by (induction segs) (auto simp: render_segment_def map_filter_simps split: segment.splits option.splits)

section \<open>The words of a text\<close>

text \<open>The text split at Falco's delimiters, and the words that are left.\<close>

fun split_delims :: "string \<Rightarrow> string list" where
  "split_delims [] = [[]]"
| "split_delims (c # cs) =
     (if is_delimiter c then [] # split_delims cs
      else (c # hd (split_delims cs)) # tl (split_delims cs))"

definition falco_words :: "string \<Rightarrow> string list" where
  "falco_words s = filter (\<lambda>w. w \<noteq> []) (split_delims s)"

lemma split_delims_ne [simp]: "split_delims s \<noteq> []"
  by (cases s) simp_all

lemma split_delims_app: "is_delimiter d \<Longrightarrow> split_delims (a @ d # b) = split_delims a @ split_delims b"
  by (induction a) simp_all

lemma words_Nil [simp]: "falco_words [] = []"
  by (simp add: falco_words_def)

lemma words_Cons: "is_delimiter d \<Longrightarrow> falco_words (d # b) = falco_words b"
  using split_delims_app [of d "[]" b] by (simp add: falco_words_def)

lemma words_snoc: "is_delimiter d \<Longrightarrow> falco_words (a @ [d]) = falco_words a"
  using split_delims_app [of d a "[]"] by (simp add: falco_words_def)

lemma words_at: "is_delimiter d \<Longrightarrow> falco_words (a @ d # b) = falco_words a @ falco_words b"
  by (simp add: falco_words_def split_delims_app)

lemma words_left: "left_edge a \<Longrightarrow> falco_words (a @ b) = falco_words a @ falco_words b"
  by (cases a rule: rev_cases) (simp_all add: left_edge_def words_at words_snoc)

lemma words_right: "right_edge b \<Longrightarrow> falco_words (a @ b) = falco_words a @ falco_words b"
  by (cases b) (simp_all add: right_edge_def words_at words_Cons)

lemma blank_delimiter: "is_blank c \<Longrightarrow> is_delimiter c"
  by (simp add: is_delimiter_def)

lemma words_lstrip: "falco_words (lstrip_blanks s) = falco_words s"
  by (induction s) (simp_all add: lstrip_blanks_def words_Cons blank_delimiter)

lemma words_rstrip: "falco_words (rstrip_blanks s) = falco_words s"
  by (induction s rule: rev_induct) (simp_all add: rstrip_blanks_def words_snoc blank_delimiter)

definition one_word :: "string \<Rightarrow> bool" where
  "one_word w = (w \<noteq> [] \<and> list_all (\<lambda>c. \<not> is_delimiter c) w)"

lemma split_one: "list_all (\<lambda>c. \<not> is_delimiter c) w \<Longrightarrow> split_delims w = [w]"
  by (induction w) simp_all

lemma words_one: "one_word w \<Longrightarrow> falco_words w = [w]"
  by (simp add: one_word_def falco_words_def split_one)

lemma hd_split: "\<exists>b. s = hd (split_delims s) @ b \<and> right_edge b"
proof (induction s)
  case (Cons c s)
  then obtain b where "s = hd (split_delims s) @ b" "right_edge b" by blast
  then show ?case by (cases "is_delimiter c") (auto simp: right_edge_def)
qed (simp add: right_edge_def)

lemma tl_split: "w \<in> set (tl (split_delims s)) \<Longrightarrow> \<exists>a b. s = a @ w @ b \<and> a \<noteq> [] \<and> is_delimiter (last a) \<and> right_edge b"
proof (induction s)
  case (Cons c s)
  show ?case
  proof (cases "w \<in> set (tl (split_delims s))")
    case True
    with Cons.IH obtain a b where "s = a @ w @ b" "a \<noteq> []" "is_delimiter (last a)" "right_edge b" by blast
    then show ?thesis by (intro exI [of _ "c # a"] exI [of _ b]) simp
  next
    case False
    with Cons.prems have d: "is_delimiter c" "w = hd (split_delims s)"
      by (auto split: if_splits dest: list.set_sel) (metis list.collapse set_ConsD split_delims_ne)
    with hd_split [of s] show ?thesis by (metis append_Cons append_Nil last.simps list.distinct(1))
  qed
qed simp

lemma word_occurs:
  assumes "w \<in> set (falco_words s)"
  obtains a b where "s = a @ w @ b" "left_edge a" "right_edge b"
proof -
  from assms have "w = hd (split_delims s) \<or> w \<in> set (tl (split_delims s))"
    by (auto simp: falco_words_def) (metis list.collapse set_ConsD split_delims_ne)
  then show thesis
  proof
    assume "w = hd (split_delims s)"
    with hd_split [of s] that [of "[]"] show thesis by (auto simp: left_edge_def)
  next
    assume "w \<in> set (tl (split_delims s))"
    with tl_split that show thesis by (metis left_edge_def)
  qed
qed

lemma occurrence_word:
  "one_word w \<Longrightarrow> left_edge a \<Longrightarrow> right_edge b \<Longrightarrow> falco_words (a @ w @ b) = falco_words a @ [w] @ falco_words b"
  by (simp add: words_left words_right words_one)


section \<open>What a list becomes in a text\<close>

lemma find_str_Some: "find_str w t = Some k \<Longrightarrow> starts_with w (drop k t) \<and> (\<forall>j<k. \<not> starts_with w (drop j t))"
proof (induction t arbitrary: k)
  case (Cons c t)
  then show ?case by (auto split: if_splits simp: less_Suc_eq_0_disj)
qed (auto split: if_splits)

lemma find_str_None: "find_str w t = None \<Longrightarrow> w \<noteq> [] \<and> (\<forall>j \<le> length t. \<not> starts_with w (drop j t))"
proof (induction t)
  case Nil
  then show ?case by (cases w) (auto split: if_splits)
next
  case (Cons c t)
  then have "w \<noteq> []" "\<not> starts_with w (c # t)" "\<forall>j \<le> length t. \<not> starts_with w (drop j t)"
    by (auto split: if_splits)
  moreover have "\<not> starts_with w (drop j (c # t))" if "j \<le> length (c # t)" for j
    using that calculation by (cases j) auto
  ultimately show ?case by blast
qed

lemma find_from_Some:
  "find_from w s i = Some j \<Longrightarrow> i \<le> j \<and> starts_with w (drop j s) \<and> (\<forall>m. i \<le> m \<and> m < j \<longrightarrow> \<not> starts_with w (drop m s))"
  using find_str_Some [of w "drop i s"]
  by (auto simp: find_from_def add.commute split: if_splits) (metis add.commute le_add_diff_inverse2 less_diff_conv2)

lemma find_from_None:
  "find_from w s i = None \<Longrightarrow> i \<le> m \<Longrightarrow> m \<le> length s \<Longrightarrow> \<not> starts_with w (drop m s)"
  using find_str_None [of w "drop i s"]
  by (auto simp: find_from_def split: if_splits) (metis diff_le_mono le_add_diff_inverse2)

lemma words_join: "falco_words (str_join '', '' xs) = concat (map falco_words xs)"
proof (induction xs rule: induct_list012)
  case (3 x y zs)
  then show ?case using words_at [of "CHR '',''" x] words_Cons [of "CHR '' ''"]
    by (simp add: is_delimiter_def is_blank_def)
qed simp_all

definition item_words :: "string list \<Rightarrow> string list" where
  "item_words items = concat (map (\<lambda>item. falco_words (quote_item item)) items)"

lemma words_item_list: "falco_words (item_list items) = item_words items"
  by (simp add: item_list_def item_words_def words_join comp_def)

lemma cut_comma_words:
  "cut_comma u v = (pre, after) \<Longrightarrow> falco_words pre = falco_words u \<and> falco_words after = falco_words v"
  by (cases u rule: rev_cases; cases v)
    (auto simp: cut_comma_def is_delimiter_def words_snoc words_Cons split: if_splits)

lemma around_words:
  "around items u v = (pre, after) \<Longrightarrow> falco_words pre = falco_words u \<and> falco_words after = falco_words v"
  using cut_comma_words [of "rstrip_blanks u" "lstrip_blanks v"]
  by (auto simp: around_def words_lstrip words_rstrip split: if_splits)

lemma rstrip_Cons: "\<not> is_blank c \<Longrightarrow> rstrip_blanks (c # u) = c # rstrip_blanks u"
  by (auto simp: rstrip_blanks_def dropWhile_append)

lemma around_first:
  "around items (c # u) v = (pre, after) \<Longrightarrow> \<not> is_blank c \<Longrightarrow> c \<noteq> CHR '','' \<Longrightarrow> \<exists>b. pre = c # b"
  by (auto simp: around_def rstrip_Cons cut_comma_def split: if_splits)

lemma spliced_words: "pre \<noteq> [] \<Longrightarrow> falco_words (spliced items pre @ after) = falco_words pre @ item_words items @ falco_words after"
  using words_at [of "CHR '' ''" pre] words_at [of "CHR '' ''" "item_list items" after]
  by (simp add: spliced_def is_delimiter_def is_blank_def words_item_list)

lemma spliced_edge: "left_edge (spliced items pre)"
  by (simp add: spliced_def left_edge_def is_delimiter_def is_blank_def)


text \<open>
  The words of what \<open>resolve_list\<close> returns: those before the scan, then those after it with the items in
  place of the name. \<open>k\<close> is where the scan last stood at the edge of a word.
\<close>

definition with_items :: "string \<Rightarrow> string list \<Rightarrow> string list \<Rightarrow> string list" where
  "with_items name items ws = concat (map (\<lambda>w. if w = name then item_words items else [w]) ws)"

lemma with_items_none: "name \<notin> set ws \<Longrightarrow> with_items name items ws = ws"
  by (induction ws) (auto simp: with_items_def)

lemma with_items_app: "with_items name items (a @ b) = with_items name items a @ with_items name items b"
  by (simp add: with_items_def)

lemma left_edge_app: "left_edge (a @ b) \<Longrightarrow> left_edge b"
  by (cases b rule: rev_cases) (auto simp: left_edge_def)

lemma no_word_between:
  assumes "one_word name" "k \<le> i" "i \<le> length cnd" "left_edge (take k cnd)"
    and "i = length cnd \<or> left_edge (take i cnd)"
    and "\<forall>j. k \<le> j \<and> j < i \<longrightarrow> \<not> occurs_at name cnd j"
  shows "name \<notin> set (falco_words (drop k (take i cnd)))"
proof
  assume "name \<in> set (falco_words (drop k (take i cnd)))"
  then obtain a b where split: "drop k (take i cnd) = a @ name @ b" and edges: "left_edge a" "right_edge b"
    by (rule word_occurs)
  let ?j = "k + length a"
  have ne: "name \<noteq> []" "\<not> is_delimiter (last name)"
    using assms(1) by (auto simp: one_word_def list_all_iff)
  have cnd: "cnd = take k cnd @ a @ name @ b @ drop i cnd"
    using split assms(2,3) by (metis append.assoc append_take_drop_id min.absorb1 take_take)
  have len: "length (a @ name @ b) = i - k" using split assms(2,3) by (metis length_drop length_take min.absorb2)
  then have less: "?j < i" using ne assms(2) by (cases name) auto
  have u: "take ?j cnd = take k cnd @ a" and d: "drop ?j cnd = name @ b @ drop i cnd"
    and v: "drop (?j + length name) cnd = b @ drop i cnd"
    using arg_cong [OF cnd, of "take ?j"] arg_cong [OF cnd, of "drop ?j"] arg_cong [OF cnd, of "drop (?j + length name)"]
      assms(2,3) by simp_all
  have "right_edge (b @ drop i cnd)"
  proof (cases b)
    case Nil
    have "take i cnd = take k cnd @ a @ name"
      using split Nil assms(2) by (metis append.right_neutral append_take_drop_id min.absorb1 take_take)
    then have "\<not> left_edge (take i cnd)" using ne by (simp add: left_edge_def)
    with assms(5) Nil show ?thesis by (simp add: right_edge_def)
  next
    case (Cons c b')
    with edges show ?thesis by (simp add: right_edge_def)
  qed
  moreover have "left_edge (take k cnd @ a)" using edges(1) assms(4) by (cases "a = []") (auto simp: left_edge_def)
  ultimately have "occurs_at name cnd ?j" by (simp add: occurs_at_def u d v)
  with assms(6) less show False by simp
qed


lemma resolve_words:
  assumes "one_word name" "k \<le> start" "start \<le> length cnd" "left_edge (take k cnd)"
    and "\<forall>j. k \<le> j \<and> j < start \<longrightarrow> \<not> occurs_at name cnd j"
    and "cnd = c # cs" "\<not> is_blank c" "c \<noteq> CHR '',''" "start = 0 \<longrightarrow> \<not> occurs_at name cnd 0"
  shows "falco_words (fst (resolve_from name items cnd start used))
      = falco_words (take k cnd) @ with_items name items (falco_words (drop k cnd))
    \<and> snd (resolve_from name items cnd start used) = (used \<or> name \<in> set (falco_words (drop k cnd)))"
  using assms
proof (induction name items cnd start used arbitrary: k c cs rule: resolve_from.induct)
  case (1 name items cnd start used)
  have ne: "name \<noteq> []" using 1(3) by (simp add: one_word_def)
  show ?case
  proof (cases "find_from name cnd start")
    case None
    have "\<not> occurs_at name cnd j" if "k \<le> j" "j < length cnd" for j
      using 1(7) find_from_None [OF None, of j] that by (cases "j < start") (auto simp: occurs_at_def)
    then have "name \<notin> set (falco_words (drop k (take (length cnd) cnd)))"
      using 1(4,5) by (intro no_word_between [OF 1(3) _ _ 1(6)]) auto
    then have clean: "name \<notin> set (falco_words (drop k cnd))" by simp
    have "falco_words cnd = falco_words (take k cnd) @ falco_words (drop k cnd)"
      using words_left [OF 1(6), of "drop k cnd"] by simp
    with None ne clean show ?thesis by (simp add: resolve_from.simps with_items_none)
  next
    case (Some i)
    let ?u = "take i cnd" and ?v = "drop (i + length name) cnd"
    from find_from_Some [OF Some] have i: "start \<le> i" "starts_with name (drop i cnd)"
      "\<And>m. start \<le> m \<Longrightarrow> m < i \<Longrightarrow> \<not> starts_with name (drop m cnd)" by blast+
    have bound: "i + length name \<le> length cnd" using find_from_bounds [OF Some] by simp
    have before_i: "\<not> occurs_at name cnd j" if "k \<le> j" "j < i" for j
      using 1(7) i(3) that by (cases "j < start") (auto simp: occurs_at_def)
    show ?thesis
    proof (cases "left_edge ?u \<and> right_edge ?v")
      case False
      then have "\<not> occurs_at name cnd i" by (auto simp: occurs_at_def)
      then have "\<forall>j. k \<le> j \<and> j < i + 1 \<longrightarrow> \<not> occurs_at name cnd j"
        using before_i less_Suc_eq by auto
      moreover have "i + 1 \<le> length cnd" using bound ne by (cases name) auto
      ultimately have "falco_words (fst (resolve_from name items cnd (i + 1) used))
          = falco_words (take k cnd) @ with_items name items (falco_words (drop k cnd))
        \<and> snd (resolve_from name items cnd (i + 1) used) = (used \<or> name \<in> set (falco_words (drop k cnd)))"
        using 1(2) [OF ne Some refl refl False 1(3) _ _ 1(6) _ 1(8-10)] 1(4) i(1) by simp
      moreover have "resolve_from name items cnd start used = resolve_from name items cnd (i + 1) used"
        using ne Some False by (subst resolve_from.simps) (auto simp: Let_def)
      ultimately show ?thesis by simp
    next
      case True
      have hit: "occurs_at name cnd i" using True i(2) by (simp add: occurs_at_def)
      have "i \<noteq> 0" using 1(11) hit i(1) by (metis le_zero_eq)
      then obtain u where u: "?u = c # u" using 1(8) by (cases i) auto
      obtain pre after where ba: "around items ?u ?v = (pre, after)" by force
      obtain b where b: "pre = c # b" using around_first ba u 1(9,10) by metis
      let ?new = "spliced items pre @ after" and ?at = "length pre + length (item_list items) + 2"
      have sp: "spliced items pre = c # b @ '' '' @ item_list items @ '' ''" and at: "?at = length (spliced items pre)"
        by (simp_all add: spliced_def b)
      have run: "resolve_from name items cnd start used = resolve_from name items ?new ?at True"
        using ne Some True ba by (subst resolve_from.simps) simp
      have len: "?at \<le> length ?new" and edge: "left_edge (take ?at ?new)"
        unfolding at using spliced_edge by simp_all
      have gap: "\<forall>j. ?at \<le> j \<and> j < ?at \<longrightarrow> \<not> occurs_at name ?new j" and pos: "?at = 0 \<longrightarrow> \<not> occurs_at name ?new 0"
        by auto
      have first_char: "?new = c # b @ '' '' @ item_list items @ '' '' @ after" by (simp add: sp)
      have "falco_words (fst (resolve_from name items ?new ?at True))
          = falco_words (take ?at ?new) @ with_items name items (falco_words (drop ?at ?new))
        \<and> snd (resolve_from name items ?new ?at True)"
        using 1(1) [OF ne Some refl refl True ba [symmetric] refl 1(3) order_refl len edge gap first_char 1(9,10) pos] by simp
      moreover have "take ?at ?new = spliced items pre" "drop ?at ?new = after" unfolding at by simp_all
      moreover have "falco_words (spliced items pre) = falco_words ?u @ item_words items"
        using spliced_words [of pre items "[]"] around_words [OF ba] b by simp
      moreover have "falco_words after = falco_words ?v" using around_words [OF ba] by simp
      ultimately have res: "falco_words (fst (resolve_from name items cnd start used))
          = falco_words ?u @ item_words items @ with_items name items (falco_words ?v)"
        "snd (resolve_from name items cnd start used)" by (simp_all add: run)
      have ki: "k \<le> i" using 1(4) i(1) by simp
      have u_split: "?u = take k cnd @ drop k ?u" using ki by (metis append_take_drop_id min.absorb1 take_take)
      have clean: "name \<notin> set (falco_words (drop k ?u))"
        using True bound before_i by (intro no_word_between [OF 1(3) ki _ 1(6)]) auto
      have "drop i cnd = name @ ?v"
        using i(2) by (metis add.commute append_eq_conv_conj drop_drop starts_with_iff)
      then have "drop k cnd = drop k ?u @ name @ ?v"
        using u_split ki by (metis append.assoc append_same_eq append_take_drop_id same_append_eq)
      moreover have "left_edge (drop k ?u)"
        using left_edge_app [of "take k cnd" "drop k ?u"] True by (simp only: u_split [symmetric])
      ultimately have "falco_words (drop k cnd) = falco_words (drop k ?u) @ [name] @ falco_words ?v"
        using True by (simp add: occurrence_word [OF 1(3)])
      moreover have "falco_words ?u = falco_words (take k cnd) @ falco_words (drop k ?u)"
        using words_left [OF 1(6), of "drop k ?u"] u_split by simp
      ultimately show ?thesis using res clean
        by (simp add: with_items_app with_items_none) (simp add: with_items_def)
    qed
  qed
qed


lemma word_occurrence:
  assumes "one_word name"
  shows "occurs s name \<longleftrightarrow> name \<in> set (falco_words s)"
proof
  assume "occurs s name"
  then obtain i where "occurs_at name s i" by (auto simp: occurs_def list_ex_iff)
  then have "s = take i s @ name @ drop (i + length name) s" "left_edge (take i s)" "right_edge (drop (i + length name) s)"
    by (auto simp: occurs_at_def starts_with_iff) (metis add.commute append_eq_conv_conj append_take_drop_id drop_drop)
  with occurrence_word [OF assms] show "name \<in> set (falco_words s)" by (metis Un_iff list.set_intros(1) set_append)
next
  assume "name \<in> set (falco_words s)"
  then obtain a b where "s = a @ name @ b" "left_edge a" "right_edge b" by (rule word_occurs)
  then have "occurs_at name s (length a)" "length a < Suc (length s)" by (auto simp: occurs_at_def)
  then show "occurs s name" by (auto simp: occurs_def list_ex_iff simp del: upt_Suc)
qed

section \<open>The order of macros\<close>

text \<open>The block macros that a macro uses and that do not come before it.\<close>

definition misplaced :: "falco_lists \<Rightarrow> string list \<Rightarrow> string list \<Rightarrow> string \<Rightarrow> string list" where
  "misplaced ls order visible condition = later_macros order visible (resolve_lists ls (join_lines condition))"

lemma expand_macros_order:
  "case expand_macros ls order pre rest of
     Inl e \<Rightarrow> \<exists>xs name condition ys. rest = xs @ (name, condition) # ys
       \<and> misplaced ls order (map fst pre @ map fst xs) condition \<noteq> []
       \<and> e = order_error name (misplaced ls order (map fst pre @ map fst xs) condition)
   | Inr expanded \<Rightarrow> map fst expanded = map fst pre @ map fst rest
       \<and> (\<forall>xs name condition ys. rest = xs @ (name, condition) # ys
           \<longrightarrow> misplaced ls order (map fst pre @ map fst xs) condition = [])"
proof (induction rest arbitrary: pre)
  case (Cons m rest)
  obtain name condition where m: "m = (name, condition)" by force
  let ?s = "resolve_lists ls (join_lines condition)"
  show ?case
  proof (cases "misplaced ls order (map fst pre) condition = []")
    case False
    then have "expand_macros ls order pre (m # rest) = Inl (order_error name (misplaced ls order (map fst pre) condition))"
      by (simp add: m Let_def misplaced_def)
    moreover have "m # rest = [] @ (name, condition) # rest" by (simp add: m)
    ultimately show ?thesis using False
      by (simp del: expand_macros.simps) (rule exI [of _ "[]"], simp add: m)
  next
    case True
    let ?before = "pre @ [(name, substitute_macros ?s (written_in pre (map fst pre)))]"
    have step: "expand_macros ls order pre (m # rest) = expand_macros ls order ?before rest"
      using True by (simp add: m Let_def misplaced_def)
    show ?thesis
    proof (cases "expand_macros ls order ?before rest")
      case (Inl e)
      with Cons.IH [of ?before] obtain xs n c ys where "rest = xs @ (n, c) # ys"
        "misplaced ls order (map fst pre @ map fst (m # xs)) c \<noteq> []"
        "e = order_error n (misplaced ls order (map fst pre @ map fst (m # xs)) c)"
        by (auto simp: m)
      then show ?thesis unfolding step Inl by (auto intro!: exI [of _ "m # xs"])
    next
      case (Inr expanded)
      with Cons.IH [of ?before] True show ?thesis
        unfolding step Inr by (auto simp: m Cons_eq_append_conv)
    qed
  qed
qed simp

section \<open>Properties\<close>

text \<open>
  C36: A list is written into a text exactly where Falco reads its name: when the text does not start with a blank, a
  comma or the name itself, the words of what \<open>resolve_list\<close> returns are the words of the text with each
  word equal to the name replaced by the words of the items, in order, and no other word is touched; the list is reported
  used exactly when \<open>occurs\<close> holds of the text.
\<close>

theorem list_replaces_its_name_only:
  assumes "name \<noteq> [] \<and> list_all (\<lambda>c. \<not> is_delimiter c) name"
    and "cnd = c # cs" "\<not> is_blank c" "c \<noteq> CHR '',''" "\<not> occurs_at name cnd 0"
  shows "falco_words (fst (resolve_list cnd name items))
      = concat (map (\<lambda>w. if w = name then concat (map (\<lambda>item. falco_words (quote_item item)) items) else [w]) (falco_words cnd))
    \<and> snd (resolve_list cnd name items) = occurs cnd name"
proof -
  have one: "one_word name" using assms(1) by (simp add: one_word_def)
  have "left_edge (take 0 cnd)" by (simp add: left_edge_def)
  from resolve_words [OF one _ _ this _ assms(2-4), of 0 items False] assms(5)
  show ?thesis by (simp add: resolve_list_def with_items_def [unfolded item_words_def] word_occurrence [OF one])
qed

theorem list_replaces_its_name_only_witness:
  "falco_words (fst (resolve_list ''a in (B)'' ''B'' [''x'', ''y z'']))
      = concat (map (\<lambda>w. if w = ''B'' then concat (map (\<lambda>item. falco_words (quote_item item)) [''x'', ''y z'']) else [w])
          (falco_words ''a in (B)''))
    \<and> snd (resolve_list ''a in (B)'' ''B'' [''x'', ''y z'']) = occurs ''a in (B)'' ''B''"
  by (rule list_replaces_its_name_only [of _ _ "CHR ''a''" "'' in (B)''"])
    (simp_all add: is_delimiter_def is_blank_def occurs_at_def)

text \<open>
  Writing macros into a condition loses nothing of it: the tokens put together are the condition, and when no name in
  a check position has a replacement the condition comes back as it was written, with its blanks, strings and
  values; so \<open>check_position_names\<close> lists every name that a replacement can change.
\<close>

theorem substitution_keeps_the_rest:
  "concat (map tk_text (tokenize s)) = s
    \<and> ((\<forall>n \<in> set (check_position_names s). resolve n = None) \<longrightarrow> substitute_macros s resolve = s)"
proof -
  have "substitute_macros s resolve = s" if "\<forall>n \<in> set (check_position_names s). resolve n = None"
    using unused_names [OF that [unfolded check_position_names_def]] segments_text tokens_text
    unfolding substitute_macros_def by metis
  then show ?thesis by (simp add: tokens_text)
qed

theorem substitution_keeps_the_rest_witness:
  "concat (map tk_text (tokenize ''m and a.b = m'')) = ''m and a.b = m''
    \<and> substitute_macros ''m and a.b = m'' (\<lambda>n. if n = ''a.b'' then Some ''x'' else None) = ''m and a.b = m''"
proof -
  have "check_position_names ''m and a.b = m'' = [''m'']"
    by code_simp
  with substitution_keeps_the_rest [of "''m and a.b = m''" "\<lambda>n. if n = ''a.b'' then Some ''x'' else None"]
  show ?thesis by simp
qed


text \<open>
  A block's macros are expanded exactly when each uses only block macros defined before it: then every macro has an
  expansion; else the error is that of a macro that uses itself or a later one, and names what it uses.
\<close>

theorem macros_in_order:
  "case expander macros ls of
     Inl e \<Rightarrow> \<exists>pre name condition after. macros = pre @ (name, condition) # after
       \<and> misplaced (flatten_from [] ls) (map fst macros) (map fst pre) condition \<noteq> []
       \<and> e = order_error name (misplaced (flatten_from [] ls) (map fst macros) (map fst pre) condition)
   | Inr fe \<Rightarrow> map fst (fe_macros fe) = map fst macros
       \<and> (\<forall>pre name condition after. macros \<noteq> pre @ (name, condition) # after
           \<or> misplaced (flatten_from [] ls) (map fst macros) (map fst pre) condition = [])"
  using expand_macros_order [where ls = "flatten_from [] ls" and order = "map fst macros" and pre = "[]" and rest = macros]
  by (auto simp: expander_def rbind_def Let_def split: sum.splits)

end
