(* ===== verification/Elastic_Attack.thy ===== *)
theory Elastic_Attack
  imports Py_Prelude "HOL-Library.Sublist"
begin

text \<open>
  \<open>platforms/elastic/attack.py\<close>: the ATT&CK techniques of a rule as the threat array of a rule body.
  The vocabulary and the techniques inherited from a detection model are parameters; the grouping by
  stage and parent technique is the list of the triples that are put into it.
\<close>

section \<open>Tactics\<close>

definition non_enterprise_prefixes :: "string list" where
  "non_enterprise_prefixes = [''Mobile : '', ''Industrial : '']"

definition tactic_order :: "(string \<times> string) list" where
  "tactic_order =
     [(''Reconnaissance'', ''TA0043''), (''Resource Development'', ''TA0042''), (''Initial Access'', ''TA0001''),
      (''Execution'', ''TA0002''), (''Persistence'', ''TA0003''), (''Privilege Escalation'', ''TA0004''),
      (''Stealth'', ''TA0005''), (''Defense Impairment'', ''TA0112''), (''Credential Access'', ''TA0006''),
      (''Discovery'', ''TA0007''), (''Lateral Movement'', ''TA0008''), (''Collection'', ''TA0009''),
      (''Command and Control'', ''TA0011''), (''Exfiltration'', ''TA0010''), (''Impact'', ''TA0040'')]"

definition tactic_map :: "(string \<times> string) list" where
  "tactic_map = map (\<lambda>(stage, _). (py_lower stage, stage)) tactic_order
     @ [(''priviledge escalation'', ''Privilege Escalation''), (''defense evasion'', ''Stealth'')]"

text \<open>An entry of the vocabulary, and its stages: a list, one stage, or nothing.\<close>

record AttackVocab =
  av_entry :: "string \<Rightarrow> pydict option"
  av_stages :: "string \<Rightarrow> pyval"

definition vocab_entry :: "AttackVocab \<Rightarrow> string \<Rightarrow> pydict option" where
  "vocab_entry vocab tech_id = (case av_entry vocab tech_id of Some (e # es) \<Rightarrow> Some (e # es) | _ \<Rightarrow> None)"

definition text_or :: "pydict \<Rightarrow> string \<Rightarrow> string \<Rightarrow> string" where
  "text_or entry key dflt = (case dget entry key of None \<Rightarrow> dflt | Some v \<Rightarrow> py_str v)"

definition is_non_enterprise :: "pydict \<Rightarrow> bool" where
  "is_non_enterprise entry = list_ex (\<lambda>p. starts_with p (text_or entry ''name'' [])) non_enterprise_prefixes"

text \<open>The rule's own techniques and those its detection model gives it; an error of the resolver gives none.\<close>

definition raw_techniques :: "string list \<Rightarrow> bool \<Rightarrow> string \<Rightarrow> bool \<Rightarrow> (string \<Rightarrow> string list option) \<Rightarrow> string list" where
  "raw_techniques own has_model object_uuid known resolver =
     own @ (if has_model \<and> object_uuid \<noteq> [] \<and> known then (case resolver object_uuid of None \<Rightarrow> [] | Some ts \<Rightarrow> ts) else [])"

definition find_non_enterprise_techniques :: "AttackVocab \<Rightarrow> string list \<Rightarrow> (string \<times> string) list" where
  "find_non_enterprise_techniques vocab techniques =
     List.map_filter (\<lambda>t. case vocab_entry vocab t of
         None \<Rightarrow> None
       | Some entry \<Rightarrow> if is_non_enterprise entry then Some (t, text_or entry ''name'' []) else None)
       (from_keys techniques)"

section \<open>Grouping\<close>

definition stages_of :: "AttackVocab \<Rightarrow> string \<Rightarrow> string list" where
  "stages_of vocab tech_id =
     (case av_stages vocab tech_id of
        PList xs \<Rightarrow> List.map_filter as_str_val xs
      | PStr [] \<Rightarrow> []
      | PStr s \<Rightarrow> [s]
      | _ \<Rightarrow> [])"

definition canonical_stage :: "string \<Rightarrow> string option" where
  "canonical_stage stage = map_of (rev tactic_map) (py_lower (py_strip stage))"

definition parent_of :: "string \<Rightarrow> string" where
  "parent_of tech_id = hd (py_split ''.'' tech_id)"

type_synonym grouping = "(string \<times> string \<times> string option) list"

text \<open>\<open>grouped.setdefault(stage, {}).setdefault(parent, set())\<close>, and \<open>subs.add\<close> for a subtechnique.\<close>

definition technique_group :: "AttackVocab \<Rightarrow> string \<Rightarrow> grouping" where
  "technique_group vocab tech_id =
     (case vocab_entry vocab tech_id of
        None \<Rightarrow> []
      | Some entry \<Rightarrow>
          if is_non_enterprise entry then []
          else map (\<lambda>stage. (stage, parent_of tech_id, if CHR ''.'' \<in> set tech_id then Some tech_id else None))
                 (List.map_filter canonical_stage (stages_of vocab tech_id)))"

definition grouped :: "AttackVocab \<Rightarrow> string list \<Rightarrow> grouping" where
  "grouped vocab techniques = concat (map (technique_group vocab) (from_keys techniques))"

definition parents_in :: "grouping \<Rightarrow> string \<Rightarrow> string list" where
  "parents_in groups stage = sort (remdups (map (\<lambda>(s, p, sub). p) (filter (\<lambda>(s, p, sub). s = stage) groups)))"

definition subs_in :: "grouping \<Rightarrow> string \<Rightarrow> string \<Rightarrow> string list" where
  "subs_in groups stage parent =
     sort (remdups (List.map_filter (\<lambda>(s, p, sub). if s = stage \<and> p = parent then sub else None) groups))"

section \<open>The threat array\<close>

definition slashes :: "string \<Rightarrow> string" where
  "slashes s = map (\<lambda>c. if c = CHR ''.'' then CHR ''/'' else c) s"

definition remove_prefix :: "string \<Rightarrow> string \<Rightarrow> string" where
  "remove_prefix p s = (if starts_with p s then drop (length p) s else s)"

definition techniques_url :: string where
  "techniques_url = ''https://attack.mitre.org/techniques/''"

definition named_object :: "string \<Rightarrow> string \<Rightarrow> string \<Rightarrow> (string \<times> pyval) list" where
  "named_object ident name reference = [(''id'', PStr ident), (''name'', PStr name), (''reference'', PStr reference)]"

definition subtechnique_objects :: "AttackVocab \<Rightarrow> string \<Rightarrow> string list \<Rightarrow> pyval list" where
  "subtechnique_objects vocab parent_name subs =
     List.map_filter (\<lambda>sub_id. case vocab_entry vocab sub_id of
         None \<Rightarrow> None
       | Some entry \<Rightarrow> Some (jobj (named_object sub_id
             (remove_prefix (parent_name @ '': '') (text_or entry ''name'' sub_id))
             (text_or entry ''link'' (techniques_url @ slashes sub_id))))) subs"

definition technique_object :: "AttackVocab \<Rightarrow> grouping \<Rightarrow> string \<Rightarrow> string \<Rightarrow> pyval option" where
  "technique_object vocab groups stage parent =
     (case vocab_entry vocab parent of
        None \<Rightarrow> None
      | Some entry \<Rightarrow>
          (let name = text_or entry ''name'' parent;
               subs = subtechnique_objects vocab name (subs_in groups stage parent)
           in Some (jobj (named_object parent name (text_or entry ''link'' (techniques_url @ parent))
                @ (if subs = [] then [] else [(''subtechnique'', PList subs)])))))"

definition tactic_object :: "AttackVocab \<Rightarrow> grouping \<Rightarrow> string \<times> string \<Rightarrow> pyval option" where
  "tactic_object vocab groups tactic =
     (let (stage, tactic_id) = tactic;
          techniques = List.map_filter (technique_object vocab groups stage) (parents_in groups stage)
      in if techniques = [] then None
         else Some (jobj
           [(''framework'', PStr ''MITRE ATT&CK''),
            (''tactic'', jobj (named_object tactic_id stage (''https://attack.mitre.org/tactics/'' @ tactic_id @ ''/''))),
            (''technique'', PList techniques)]))"

definition resolve_elastic_threat :: "AttackVocab \<Rightarrow> string list \<Rightarrow> pyval list" where
  "resolve_elastic_threat vocab techniques =
     List.map_filter (tactic_object vocab (grouped vocab techniques)) tactic_order"

section \<open>What is listed\<close>

definition ident_of :: "pyval \<Rightarrow> string" where
  "ident_of v = (case v of PDict d \<Rightarrow> (case dget_str d ''id'' of None \<Rightarrow> [] | Some s \<Rightarrow> s) | _ \<Rightarrow> [])"

definition tactic_of :: "pyval \<Rightarrow> pyval" where
  "tactic_of v = (case v of PDict d \<Rightarrow> dget_none d ''tactic'' | w \<Rightarrow> w)"

definition techniques_of :: "pyval \<Rightarrow> pyval list" where
  "techniques_of v = (case v of PDict d \<Rightarrow> (case dget d ''technique'' of Some (PList xs) \<Rightarrow> xs | _ \<Rightarrow> []) | _ \<Rightarrow> [])"

lemma ident_named: "ident_of (jobj (named_object ident name reference @ more_items)) = ident"
  by (simp add: ident_of_def jobj_def named_object_def dget_str_def)

lemma subseq_map_filter:
  "(\<And>x y. f x = Some y \<Longrightarrow> g y = h x) \<Longrightarrow> subseq (map g (List.map_filter f xs)) (map h xs)"
  by (induction xs) (auto simp: map_filter_simps split: option.split)

lemma technique_ident: "technique_object vocab groups stage parent = Some v \<Longrightarrow> ident_of v = parent"
  by (auto simp: technique_object_def Let_def ident_named split: option.splits)

lemma subseq_set: "subseq xs ys \<Longrightarrow> set xs \<subseteq> set ys"
  by (induction rule: list_emb.induct) auto

lemma subseq_sorted: "subseq xs ys \<Longrightarrow> sorted_wrt P ys \<Longrightarrow> sorted_wrt P xs"
  by (induction rule: list_emb.induct) (auto dest: subseq_set)

lemma tactic_object_parts:
  assumes "tactic_object vocab groups (stage, tactic_id) = Some v"
  shows "ident_of (tactic_of v) = tactic_id"
    and "techniques_of v = List.map_filter (technique_object vocab groups stage) (parents_in groups stage)"
    and "techniques_of v \<noteq> []"
  using assms ident_named [of tactic_id stage _ "[]"]
  by (auto simp: tactic_object_def Let_def tactic_of_def techniques_of_def jobj_def dget_none_def split: if_splits)

lemma listed_group:
  assumes "(stage, parent, sub) \<in> set (grouped vocab techniques)"
  obtains t entry where "t \<in> set techniques" "vocab_entry vocab t = Some entry" "\<not> is_non_enterprise entry" "parent = parent_of t"
proof -
  from assms obtain t where t: "t \<in> set techniques" "(stage, parent, sub) \<in> set (technique_group vocab t)"
    by (auto simp: grouped_def from_keys_def)
  show thesis
  proof (cases "vocab_entry vocab t")
    case (Some entry)
    with t(2) have "\<not> is_non_enterprise entry" "parent = parent_of t" by (auto simp: technique_group_def split: if_splits)
    with t(1) Some show thesis by (rule that)
  qed (use t(2) in \<open>simp add: technique_group_def\<close>)
qed

text \<open>
  The threat array lists the tactics in the order of ATT&CK and each at most once; a tactic lists the
  parent techniques in ascending order and each once; and each comes from an Enterprise technique of the rule
  that the vocabulary knows.
\<close>

theorem threat_array_is_ordered:
  "subseq (map (\<lambda>v. ident_of (tactic_of v)) (resolve_elastic_threat vocab techniques)) (map snd tactic_order)
   \<and> (\<forall>v \<in> set (resolve_elastic_threat vocab techniques).
        techniques_of v \<noteq> [] \<and> sorted_wrt (<) (map ident_of (techniques_of v))
      \<and> (\<forall>w \<in> set (techniques_of v). \<exists>t entry. t \<in> set techniques \<and> vocab_entry vocab t = Some entry
           \<and> \<not> is_non_enterprise entry \<and> ident_of w = parent_of t))"
proof (intro conjI ballI)
  let ?g = "grouped vocab techniques"
  show "subseq (map (\<lambda>v. ident_of (tactic_of v)) (resolve_elastic_threat vocab techniques)) (map snd tactic_order)"
    unfolding resolve_elastic_threat_def by (rule subseq_map_filter) (auto dest: tactic_object_parts(1))
  fix v assume "v \<in> set (resolve_elastic_threat vocab techniques)"
  then obtain stage tactic_id where v: "tactic_object vocab ?g (stage, tactic_id) = Some v"
    by (auto simp: resolve_elastic_threat_def map_filter_def)
  note parts = tactic_object_parts [OF v]
  show "techniques_of v \<noteq> []" by (rule parts(3))
  have idents: "subseq (map ident_of (techniques_of v)) (map (\<lambda>x. x) (parents_in ?g stage))"
    unfolding parts(2) by (rule subseq_map_filter) (rule technique_ident)
  have "sorted_wrt (<) (parents_in ?g stage)" by (simp add: parents_in_def strict_sorted_iff)
  then show "sorted_wrt (<) (map ident_of (techniques_of v))"
    using subseq_sorted [OF idents] by simp
  fix w assume "w \<in> set (techniques_of v)"
  then have "ident_of w \<in> set (parents_in ?g stage)"
    using subseq_set [OF idents] by auto
  then obtain sub where "(stage, ident_of w, sub) \<in> set ?g" by (auto simp: parents_in_def)
  then show "\<exists>t entry. t \<in> set techniques \<and> vocab_entry vocab t = Some entry \<and> \<not> is_non_enterprise entry \<and> ident_of w = parent_of t"
    by (elim listed_group) blast
qed


definition sample_vocab :: AttackVocab where
  "sample_vocab = \<lparr>av_entry = (\<lambda>t. Some [(PStr ''name'', PStr ''Command Interpreter'')]), av_stages = (\<lambda>t. PStr ''Execution'')\<rparr>"

lemma sample_groups: "grouped sample_vocab [''T1059''] = [(''Execution'', ''T1059'', None)]"
  by (simp add: grouped_def technique_group_def vocab_entry_def stages_of_def sample_vocab_def is_non_enterprise_def
      non_enterprise_prefixes_def text_or_def canonical_stage_def tactic_map_def tactic_order_def py_lower_def lower_char_def
      py_strip_def py_rstrip_def py_lstrip_def is_py_space_def parent_of_def py_split_def from_keys_def map_filter_simps)

theorem threat_array_is_ordered_witness:
  "subseq (map (\<lambda>v. ident_of (tactic_of v)) (resolve_elastic_threat sample_vocab [''T1059''])) (map snd tactic_order)
   \<and> (\<exists>v \<in> set (resolve_elastic_threat sample_vocab [''T1059'']). ident_of (tactic_of v) = ''TA0002'' \<and> techniques_of v \<noteq> [])"
proof -
  let ?g = "grouped sample_vocab [''T1059'']"
  have "parents_in ?g ''Execution'' = [''T1059'']" by (simp add: parents_in_def sample_groups)
  moreover have "\<exists>w. technique_object sample_vocab ?g ''Execution'' ''T1059'' = Some w"
    by (simp add: technique_object_def vocab_entry_def sample_vocab_def Let_def)
  ultimately obtain v where v: "tactic_object sample_vocab ?g (''Execution'', ''TA0002'') = Some v"
    by (auto simp: tactic_object_def Let_def map_filter_simps)
  have "(''Execution'', ''TA0002'') \<in> set tactic_order" by (simp add: tactic_order_def)
  with v have "v \<in> set (resolve_elastic_threat sample_vocab [''T1059''])"
    by (force simp: resolve_elastic_threat_def map_filter_def)
  then show ?thesis
    using threat_array_is_ordered [of sample_vocab "[''T1059'']"] tactic_object_parts(1) [OF v] by blast
qed

end
