(* ===== verification/Sysdig_Rules.thy ===== *)
theory Sysdig_Rules
  imports Falco_Expansion Elastic_Attack Deploy_Run
begin

text \<open>
  The Sysdig block of a rule: the checks its model runs on the block as it is written
  (\<open>models/platform.py\<close>) and the Falco rule and API payload it compiles to
  (\<open>platforms/sysdig/compile.py\<close>).
\<close>

section \<open>The block as it is written\<close>

definition falco_priorities :: "string list" where
  "falco_priorities = [''emergency'', ''alert'', ''critical'', ''error'', ''warning'', ''notice'', ''informational'', ''info'', ''debug'']"

definition multi_value_comps :: "string list" where
  "multi_value_comps = [''in'', ''pmatch'', ''intersects'']"

definition tuning_forbidden :: "string list" where
  "tuning_forbidden = [''output'', ''priority'', ''policies'', ''source'', ''name'']"

definition reserved_words :: "string list" where
  "reserved_words = [''and'', ''or'', ''not'', ''in'', ''exists'', ''val''] @ word_operators"

definition is_lower_letter :: "char \<Rightarrow> bool" where
  "is_lower_letter c = (let n = (of_char c :: nat) in 97 \<le> n \<and> n \<le> 122)"

definition is_upper_letter :: "char \<Rightarrow> bool" where
  "is_upper_letter c = (let n = (of_char c :: nat) in 65 \<le> n \<and> n \<le> 90)"

definition is_name_char :: "char \<Rightarrow> bool" where
  "is_name_char c = (is_lower_letter c \<or> is_upper_letter c \<or> is_ascii_digit c \<or> c = CHR ''_'')"

text \<open>\<open>DEFINITION_NAME.fullmatch\<close> and \<open>_FALCO_SOURCE.fullmatch\<close>.\<close>

definition definition_name :: "string \<Rightarrow> bool" where
  "definition_name s = (case s of [] \<Rightarrow> False | c # cs \<Rightarrow> is_name_char c \<and> \<not> is_ascii_digit c \<and> list_all is_name_char cs)"

definition falco_source :: "string \<Rightarrow> bool" where
  "falco_source s =
     (case s of [] \<Rightarrow> False
      | c # cs \<Rightarrow> is_lower_letter c \<and> list_all (\<lambda>d. is_lower_letter d \<or> is_ascii_digit d \<or> d = CHR ''_'') cs)"

definition non_blank :: "pyval \<Rightarrow> bool" where
  "non_blank v = (case v of PStr s \<Rightarrow> py_strip s \<noteq> [] | _ \<Rightarrow> False)"

text \<open>One exception, by Falco's checks: the single-field form and the tuple form.\<close>

definition single_comps_ok :: "pyval \<Rightarrow> bool" where
  "single_comps_ok comps =
     (case comps of
        PNone \<Rightarrow> True
      | PStr c \<Rightarrow> normalize_comp c \<in> set multi_value_comps \<or> is_modified_operator (normalize_comp c)
      | _ \<Rightarrow> False)"

definition tuple_comp_ok :: "pyval \<Rightarrow> bool" where
  "tuple_comp_ok c = (case c of PStr s \<Rightarrow> is_exception_operator (normalize_comp s) | _ \<Rightarrow> False)"

definition tuple_comps_ok :: "nat \<Rightarrow> pyval \<Rightarrow> bool" where
  "tuple_comps_ok n comps =
     (case comps of
        PNone \<Rightarrow> True
      | PList cs \<Rightarrow> length cs = n \<and> list_all tuple_comp_ok cs
      | _ \<Rightarrow> False)"

definition exception_item_ok :: "pyval \<Rightarrow> bool" where
  "exception_item_ok item =
     (case item of
        PDict _ \<Rightarrow> False
      | PList vs \<Rightarrow> list_all (\<lambda>v. \<not> is_collection v) vs
      | _ \<Rightarrow> True)"

definition exception_row_ok :: "nat \<Rightarrow> pyval \<Rightarrow> bool" where
  "exception_row_ok n row =
     (case row of PList items \<Rightarrow> length items = n \<and> list_all exception_item_ok items | _ \<Rightarrow> False)"

definition list_values :: "pyval \<Rightarrow> pyval list" where
  "list_values v = (case v of PList vs \<Rightarrow> vs | _ \<Rightarrow> [])"

definition sysdig_exception_ok :: "pyval \<Rightarrow> bool" where
  "sysdig_exception_ok entry =
     (case entry of
        PDict d \<Rightarrow>
          non_blank (dget_none d ''name'')
          \<and> (case dget_none d ''values'' of PNone \<Rightarrow> True | PList _ \<Rightarrow> True | _ \<Rightarrow> False)
          \<and> (case dget_none d ''fields'' of
               PStr f \<Rightarrow> py_strip f \<noteq> [] \<and> single_comps_ok (dget_none d ''comps'')
                 \<and> list_all (\<lambda>v. \<not> is_collection v) (list_values (dget_none d ''values''))
             | PList fs \<Rightarrow> fs \<noteq> [] \<and> list_all non_blank fs \<and> tuple_comps_ok (length fs) (dget_none d ''comps'')
                 \<and> list_all (exception_row_ok (length fs)) (list_values (dget_none d ''values''))
             | _ \<Rightarrow> False)
      | _ \<Rightarrow> False)"

definition exceptions_shaped :: "pyval \<Rightarrow> bool" where
  "exceptions_shaped v = (case v of PNone \<Rightarrow> True | PList es \<Rightarrow> list_all sysdig_exception_ok es | _ \<Rightarrow> False)"

text \<open>An entry of that shape as the expander reads it.\<close>

definition read_texts :: "pyval \<Rightarrow> text_or_texts option" where
  "read_texts v =
     (case v of PStr s \<Rightarrow> Some (Text s) | PList xs \<Rightarrow> Some (Texts (List.map_filter as_str_val xs)) | _ \<Rightarrow> None)"

definition read_exception :: "pyval \<Rightarrow> SysdigException" where
  "read_exception entry =
     (case entry of
        PDict d \<Rightarrow>
          \<lparr>se_name = py_str (dget_none d ''name''), se_fields = the (read_texts (dget_none d ''fields'')),
           se_comps = read_texts (dget_none d ''comps''),
           se_values = (case dget_none d ''values'' of PList vs \<Rightarrow> Some vs | _ \<Rightarrow> None)\<rparr>
      | _ \<Rightarrow> \<lparr>se_name = [], se_fields = Text [], se_comps = None, se_values = None\<rparr>)"

text \<open>\<open>_sysdig_definitions\<close>: the entries of \<open>macros\<close> and \<open>lists\<close> that have a name.\<close>

definition named_entry :: "pyval \<Rightarrow> (string \<times> pydict) option" where
  "named_entry e = (case e of PDict d \<Rightarrow> map_option (\<lambda>n. (n, d)) (dget_str d ''name'') | _ \<Rightarrow> None)"

definition named_entries :: "pydict \<Rightarrow> string \<Rightarrow> (string \<times> pydict) list" where
  "named_entries raw key = List.map_filter named_entry (list_values (dget_none raw key))"

definition raw_macros :: "pydict \<Rightarrow> (string \<times> string) list" where
  "raw_macros raw =
     foldl (\<lambda>acc (n, d). case dget_none d ''condition'' of PStr c \<Rightarrow> AList.update n c acc | _ \<Rightarrow> acc) []
       (named_entries raw ''macros'')"

definition raw_lists :: "pydict \<Rightarrow> (string \<times> pyval list) list" where
  "raw_lists raw =
     foldl (\<lambda>acc (n, d). case dget_none d ''items'' of PList xs \<Rightarrow> AList.update n xs acc | _ \<Rightarrow> acc) []
       (named_entries raw ''lists'')"

definition definition_codes :: "pydict \<Rightarrow> string set" where
  "definition_codes raw =
     (let names = map fst (named_entries raw ''macros'') @ map fst (named_entries raw ''lists'')
      in (if list_all (\<lambda>n. definition_name n \<and> n \<notin> set reserved_words) names then {} else {''sysdig_definition_name''})
         \<union> (if distinct names then {} else {''sysdig_definition_duplicate''}))"

definition shape_codes :: "pydict \<Rightarrow> string set" where
  "shape_codes raw =
     (let tuning = dget_none raw ''append_to_rule''; condition = dget_none raw ''condition'';
          exceptions = dget_none raw ''exceptions'' in
      if tuning = PNone then (if non_blank condition then {} else {''sysdig_rule_shape''})
      else (if \<not> non_blank tuning \<or> (condition \<noteq> PNone \<and> \<not> non_blank condition)
               \<or> \<not> (non_blank condition \<or> list_values exceptions \<noteq> [])
            then {''sysdig_rule_shape''} else {})
         \<union> (if list_ex (\<lambda>k. dget_none raw k \<noteq> PNone \<and> dget_none raw k \<noteq> PStr []) tuning_forbidden
            then {''sysdig_tuning_keys''} else {}))"

definition value_codes :: "pydict \<Rightarrow> string set" where
  "value_codes raw =
     (case dget_none raw ''priority'' of
        PNone \<Rightarrow> {}
      | PStr p \<Rightarrow> if py_lower (py_strip p) \<in> set falco_priorities then {} else {''sysdig_priority''}
      | _ \<Rightarrow> {''sysdig_priority''})
     \<union> (case dget_none raw ''source'' of
        PNone \<Rightarrow> {}
      | PStr s \<Rightarrow> if falco_source s then {} else {''sysdig_source''}
      | _ \<Rightarrow> {''sysdig_source''})"

text \<open>The expansion is tried once the names are unique and allowed.\<close>

definition expansion_codes :: "pydict \<Rightarrow> string set" where
  "expansion_codes raw =
     (let exceptions = dget_none raw ''exceptions'' in
      case check_definitions (raw_macros raw) (raw_lists raw)
             (if exceptions_shaped exceptions then map read_exception (list_values exceptions) else []) of
        Inl e \<Rightarrow> {expansion_code e}
      | Inr _ \<Rightarrow> {})"

definition sysdig_codes :: "pydict \<Rightarrow> string set" where
  "sysdig_codes raw =
     shape_codes raw \<union> value_codes raw
     \<union> (if exceptions_shaped (dget_none raw ''exceptions'') then {} else {''sysdig_exception_shape''})
     \<union> definition_codes raw
     \<union> (if definition_codes raw = {} then expansion_codes raw else {})"

text \<open>The before-validator: a block without a status is left to the field types.\<close>

definition validate_raw_sysdig_block :: "pydict \<Rightarrow> string set + pydict" where
  "validate_raw_sysdig_block raw =
     (if dget_none raw ''status'' = PNone \<or> sysdig_codes raw = {} then Inr raw else Inl (sysdig_codes raw))"

section \<open>The block as it is deployed\<close>

record SysdigConfig =
  sg_status :: string
  sg_name :: "string option"
  sg_condition :: "string option"
  sg_append_to_rule :: "string option"
  sg_source :: "string option"
  sg_output :: "string option"
  sg_priority :: "string option"
  sg_tags :: "string list option"
  sg_exceptions :: "SysdigException list option"
  sg_macros :: "(string \<times> string) list option"
  sg_lists :: "(string \<times> pyval list) list option"
  sg_policies :: "string list option"
  sg_minimum_engine_version :: "int option"

record SysdigMdr = "SysdigConfig Mdr" +
  sm_has_response :: bool
  sm_techniques :: "string list"
  sm_has_model :: bool

text \<open>What the compiler reads of the repository: the vocabulary and the techniques of a detection model.\<close>

record SysdigIndex =
  si_vocab :: AttackVocab
  si_known :: "string \<Rightarrow> bool"
  si_techniques :: "string \<Rightarrow> string list option"

record FalcoRule =
  fr_uuid :: string
  fr_name :: string
  fr_tuning :: bool
  fr_condition :: "string option"
  fr_exceptions :: "SysdigException list"
  fr_desc :: string
  fr_output :: string
  fr_priority :: string
  fr_source :: string
  fr_tags :: "string list"
  fr_minimum_engine_version :: "int option"

definition severity_priority :: "(string \<times> string) list" where
  "severity_priority = [(''critical'', ''CRITICAL''), (''high'', ''ERROR''), (''medium'', ''WARNING''), (''low'', ''NOTICE''),
     (''informational'', ''INFORMATIONAL'')]"

definition default_priority :: string where
  "default_priority = ''WARNING''"

definition api_priority :: "(string \<times> string) list" where
  "api_priority = [(''EMERGENCY'', ''emergency''), (''ALERT'', ''alert''), (''CRITICAL'', ''critical''), (''ERROR'', ''error''),
     (''WARNING'', ''warning''), (''NOTICE'', ''notice''), (''INFORMATIONAL'', ''info''), (''DEBUG'', ''debug'')]"

definition default_source :: string where
  "default_source = ''syscall''"

definition default_output_fields :: "(string \<times> string) list" where
  "default_output_fields =
     [(''syscall'',
       '' | evt_type=%evt.type user=%user.name user_uid=%user.uid process=%proc.name'' @
       '' proc_exepath=%proc.exepath parent=%proc.pname command=%proc.cmdline'' @
       '' terminal=%proc.tty container_id=%container.id container_name=%container.name'' @
       '' image=%container.image.repository''),
      (''k8s_audit'',
       '' | user=%ka.user.name verb=%ka.verb uri=%ka.uri resource=%ka.target.resource'' @
       '' namespace=%ka.target.namespace name=%ka.target.name response=%ka.response.code''),
      (''aws_cloudtrail'',
       '' | user=%ct.user region=%ct.region event=%ct.name source_ip=%ct.srcip'' @
       '' account=%ct.user.accountid'')]"

definition maturity_tag :: "StatusStrategy \<Rightarrow> string" where
  "maturity_tag strategy =
     (if strategy \<in> {RELEASE, UNIVERSAL} then ''maturity_stable''
      else if strategy = PREVIEW then ''maturity_incubating'' else ''maturity_sandbox'')"

definition derive_priority :: "SysdigMdr \<Rightarrow> SysdigConfig \<Rightarrow> string" where
  "derive_priority rule block =
     (case sg_priority block of
        Some (c # p) \<Rightarrow> (let v = py_upper (py_strip (c # p)) in if v = ''INFO'' then ''INFORMATIONAL'' else v)
      | _ \<Rightarrow>
          if \<not> sm_has_response rule then default_priority
          else (case map_of severity_priority (py_lower (py_strip (mdr_severity rule))) of
                  Some p \<Rightarrow> p | None \<Rightarrow> default_priority))"

definition derive_output :: "string \<Rightarrow> SysdigConfig \<Rightarrow> string" where
  "derive_output name block =
     (case sg_output block of
        Some (c # s) \<Rightarrow> join_lines (c # s)
      | _ \<Rightarrow> name @ (case map_of default_output_fields (or_text (sg_source block) default_source) of
                       Some s \<Rightarrow> s | None \<Rightarrow> []))"

definition rule_techniques :: "SysdigIndex \<Rightarrow> SysdigMdr \<Rightarrow> string list" where
  "rule_techniques index rule =
     from_keys (raw_techniques (sm_techniques rule) (sm_has_model rule) (ref_uuid rule) (si_known index (ref_uuid rule))
                  (si_techniques index))"

text \<open>
  The stages of a technique; a stage alone stands for a list of one. The vocabulary validates
  \<open>VocabularyEntry.stages\<close> as a tuple of strings, so the entries of the index have no value of another kind.
\<close>

definition stage_texts :: "AttackVocab \<Rightarrow> string \<Rightarrow> string list" where
  "stage_texts vocab technique =
     (case av_stages vocab technique of
        PList xs \<Rightarrow> map py_str xs
      | PStr [] \<Rightarrow> []
      | PStr s \<Rightarrow> [s]
      | _ \<Rightarrow> [])"

definition technique_tactics :: "AttackVocab \<Rightarrow> string \<Rightarrow> string list" where
  "technique_tactics vocab technique =
     (case vocab_entry vocab technique of
        None \<Rightarrow> []
      | Some entry \<Rightarrow>
          if is_non_enterprise entry then [] else List.map_filter canonical_stage (stage_texts vocab technique))"

definition tactic_tag :: "string \<Rightarrow> string" where
  "tactic_tag stage = ''mitre_'' @ replace_char CHR ''-'' CHR ''_'' (replace_char CHR '' '' CHR ''_'' (py_lower stage))"

definition attack_tags :: "AttackVocab \<Rightarrow> string list \<Rightarrow> string list" where
  "attack_tags vocab techniques =
     (let tactics = set (concat (map (technique_tactics vocab) techniques))
      in techniques @ map tactic_tag (filter (\<lambda>stage. stage \<in> tactics) (map fst tactic_order)))"

definition list_or_empty :: "'a list option \<Rightarrow> 'a list" where
  "list_or_empty xs = (case xs of None \<Rightarrow> [] | Some ys \<Rightarrow> ys)"

definition derive_tags :: "SysdigIndex \<Rightarrow> SysdigMdr \<Rightarrow> SysdigConfig \<Rightarrow> StatusStrategy \<Rightarrow> string list option \<Rightarrow> string list" where
  "derive_tags index rule block strategy tenant_tags =
     from_keys (list_or_empty (sg_tags block) @ attack_tags (si_vocab index) (rule_techniques index rule)
       @ [maturity_tag strategy] @ list_or_empty tenant_tags)"

text \<open>\<open>" ".join(s.split())\<close>\<close>

definition one_spaced :: "string \<Rightarrow> string" where
  "one_spaced s = py_strip (collapse_spaces False s)"

text \<open>A dict built from the names of a list: the last entry of a name, at the place of the first.\<close>

definition dict_of :: "('k \<times> 'v) list \<Rightarrow> ('k \<times> 'v) list" where
  "dict_of kvs = foldl (\<lambda>acc (k, v). AList.update k v acc) [] kvs"

definition compile_falco_rule ::
  "SysdigIndex \<Rightarrow> SysdigMdr \<Rightarrow> SysdigConfig \<Rightarrow> StatusStrategy \<Rightarrow> string list option \<Rightarrow> expansion_error + FalcoRule" where
  "compile_falco_rule index rule block strategy tenant_tags =
     rbind (expander (dict_of (list_or_empty (sg_macros block))) (dict_of (list_or_empty (sg_lists block)))) (\<lambda>fe.
     rbind (rmap (falco_exception (fe_lists fe)) (list_or_empty (sg_exceptions block))) (\<lambda>exceptions.
       (let condition = (case sg_condition block of Some (c # s) \<Rightarrow> Some (expand fe (c # s)) | _ \<Rightarrow> None) in
        case sg_append_to_rule block of
          Some (c # n) \<Rightarrow> Inr
            \<lparr>fr_uuid = ref_uuid rule, fr_name = c # n, fr_tuning = True, fr_condition = condition,
             fr_exceptions = exceptions, fr_desc = [], fr_output = [], fr_priority = default_priority,
             fr_source = default_source, fr_tags = [], fr_minimum_engine_version = sg_minimum_engine_version block\<rparr>
        | _ \<Rightarrow>
            (let name = or_text (sg_name block) (ref_name rule) in Inr
            \<lparr>fr_uuid = ref_uuid rule, fr_name = name, fr_tuning = False, fr_condition = condition,
             fr_exceptions = exceptions, fr_desc = one_spaced (mdr_description rule),
             fr_output = derive_output name block, fr_priority = derive_priority rule block,
             fr_source = or_text (sg_source block) default_source,
             fr_tags = derive_tags index rule block strategy tenant_tags,
             fr_minimum_engine_version = sg_minimum_engine_version block\<rparr>))))"

section \<open>The payload\<close>

definition texts_json :: "text_or_texts \<Rightarrow> pyval" where
  "texts_json t = (case t of Text s \<Rightarrow> PStr s | Texts xs \<Rightarrow> PList (map PStr xs))"

definition exception_json :: "SysdigException \<Rightarrow> pyval" where
  "exception_json e = jobj
     ([(''name'', PStr (se_name e)), (''fields'', texts_json (se_fields e))]
      @ (case se_comps e of None \<Rightarrow> [] | Some c \<Rightarrow> [(''comps'', texts_json c)])
      @ (case se_values e of None \<Rightarrow> [] | Some vs \<Rightarrow> [(''values'', PList vs)]))"

definition condition_json :: "string \<Rightarrow> pyval" where
  "condition_json s = jobj [(''condition'', PStr s), (''components'', PList [])]"

definition details_tail :: "FalcoRule \<Rightarrow> (string \<times> pyval) list" where
  "details_tail compiled =
     (if fr_exceptions compiled = [] then [] else [(''exceptions'', PList (map exception_json (fr_exceptions compiled)))])
     @ (case fr_minimum_engine_version compiled of None \<Rightarrow> [] | Some v \<Rightarrow> [(''minimumEngineVersion'', PInt v)])"

definition api_body :: "FalcoRule \<Rightarrow> Exn + pydict" where
  "api_body compiled =
     (let body = (\<lambda>desc tags details.
            [(PStr ''name'', PStr (fr_name compiled)), (PStr ''description'', PStr desc),
             (PStr ''tags'', PList (map PStr tags)), (PStr ''details'', jobj details)]) in
      if fr_tuning compiled
      then Inr (body [] []
        ([(''ruleType'', PStr ''FALCO''), (''append'', PBool True)]
         @ (case fr_condition compiled of None \<Rightarrow> [] | Some s \<Rightarrow> [(''condition'', condition_json s)])
         @ details_tail compiled))
      else (case map_of api_priority (fr_priority compiled) of
              None \<Rightarrow> Inl (exn Code_Error ''KeyError'')
            | Some priority \<Rightarrow> Inr (body (fr_desc compiled) (fr_tags compiled)
                ([(''ruleType'', PStr ''FALCO''), (''append'', PBool False), (''source'', PStr (fr_source compiled)),
                  (''condition'', condition_json (case fr_condition compiled of None \<Rightarrow> [] | Some s \<Rightarrow> s)),
                  (''output'', PStr (fr_output compiled)), (''priority'', PStr priority)]
                 @ details_tail compiled))))"


section \<open>What an accepted block gives\<close>

lemma upper_of_lower: "is_lower_letter (lower_char c) \<Longrightarrow> upper_char c = upper_char (lower_char c)"
  by (auto simp: is_lower_letter_def lower_char_def upper_char_def Let_def split: if_splits)

lemma upper_lower: "list_all is_lower_letter (py_lower s) \<Longrightarrow> py_upper s = py_upper (py_lower s)"
  by (induction s) (simp_all add: py_lower_def py_upper_def upper_of_lower)

text \<open>Every priority the checks accept has a value of the API once it is normalised.\<close>

lemma accepted_priority:
  assumes "py_lower (py_strip p) \<in> set falco_priorities"
  shows "\<exists>v. map_of api_priority (let v = py_upper (py_strip p) in if v = ''INFO'' then ''INFORMATIONAL'' else v) = Some v"
proof -
  have letters: "list_all (\<lambda>q. list_all is_lower_letter q
      \<and> map_of api_priority (let v = py_upper q in if v = ''INFO'' then ''INFORMATIONAL'' else v) \<noteq> None) falco_priorities"
    by code_simp
  then have "list_all is_lower_letter (py_lower (py_strip p))"
    and "map_of api_priority (let v = py_upper (py_lower (py_strip p)) in if v = ''INFO'' then ''INFORMATIONAL'' else v) \<noteq> None"
    using assms by (auto simp: list_all_iff)
  with upper_lower [of "py_strip p"] show ?thesis by simp
qed

lemma derived_priority:
  assumes "case sg_priority block of None \<Rightarrow> True | Some p \<Rightarrow> p = [] \<or> py_lower (py_strip p) \<in> set falco_priorities"
  shows "\<exists>v. map_of api_priority (derive_priority rule block) = Some v"
proof -
  have "map_of api_priority default_priority = Some ''warning''"
    by (simp add: api_priority_def default_priority_def)
  moreover have "map_of severity_priority x = Some p \<Longrightarrow> \<exists>v. map_of api_priority p = Some v" for x p
    by (auto simp: severity_priority_def api_priority_def split: if_splits)
  ultimately show ?thesis
    using assms accepted_priority by (auto simp: derive_priority_def split: option.splits list.splits)
qed

lemma compile_shape:
  assumes "expander (dict_of (list_or_empty (sg_macros block))) (dict_of (list_or_empty (sg_lists block))) = Inr fe"
    and "rmap (falco_exception (fe_lists fe)) (list_or_empty (sg_exceptions block)) = Inr es"
  shows "\<exists>compiled. compile_falco_rule index rule block strategy tenant_tags = Inr compiled
    \<and> (fr_tuning compiled \<or> fr_priority compiled = derive_priority rule block)"
proof (cases "sg_append_to_rule block")
  case None
  with assms show ?thesis by (simp add: compile_falco_rule_def rbind_def Let_def)
next
  case (Some n)
  with assms show ?thesis by (cases n) (simp_all add: compile_falco_rule_def rbind_def Let_def)
qed

text \<open>
  C37: A Sysdig block that its checks accept deploys: when the block is read from a document without a constraint
  code, compiling it for any rule, strategy and tenant raises no expansion error, and the payload of what it compiles to
  is built, so its priority has a value of the API.
\<close>

theorem accepted_block_deploys:
  assumes "validate_raw_sysdig_block raw = Inr raw'" "dget_none raw ''status'' \<noteq> PNone"
    and "dict_of (list_or_empty (sg_macros block)) = raw_macros raw"
    and "dict_of (list_or_empty (sg_lists block)) = raw_lists raw"
    and "list_or_empty (sg_exceptions block) = map read_exception (list_values (dget_none raw ''exceptions''))"
    and "sg_priority block = dget_str raw ''priority''"
  shows "\<exists>compiled body. compile_falco_rule index rule block strategy tenant_tags = Inr compiled \<and> api_body compiled = Inr body"
proof -
  have codes: "sysdig_codes raw = {}" using assms(1,2) by (auto simp: validate_raw_sysdig_block_def split: if_splits)
  then have defs: "definition_codes raw = {}" and shaped: "exceptions_shaped (dget_none raw ''exceptions'')"
    and vals: "value_codes raw = {}" and expansion: "expansion_codes raw = {}"
    by (auto simp: sysdig_codes_def split: if_splits)
  from expansion shaped obtain fe es where fe: "expander (raw_macros raw) (raw_lists raw) = Inr fe"
    "rmap (falco_exception (fe_lists fe)) (map read_exception (list_values (dget_none raw ''exceptions''))) = Inr es"
    by (auto simp: expansion_codes_def check_definitions_def rbind_def Let_def split: sum.splits)
  have "case sg_priority block of None \<Rightarrow> True | Some p \<Rightarrow> p = [] \<or> py_lower (py_strip p) \<in> set falco_priorities"
    using vals assms(6) by (auto simp: value_codes_def dget_str_def dget_none_def split: option.splits pyval.splits if_splits)
  then obtain v where v: "map_of api_priority (derive_priority rule block) = Some v"
    using derived_priority by blast
  obtain compiled where c: "compile_falco_rule index rule block strategy tenant_tags = Inr compiled"
    "fr_tuning compiled \<or> fr_priority compiled = derive_priority rule block"
    using compile_shape [OF fe [folded assms(3-5)]] by metis
  with v have "\<exists>body. api_body compiled = Inr body" by (auto simp: api_body_def)
  with c show ?thesis by blast
qed


definition sample_raw :: pydict where
  "sample_raw = [(PStr ''status'', PStr ''PRODUCTION''), (PStr ''condition'', PStr ''m and a in (B)''),
     (PStr ''priority'', PStr ''Info''),
     (PStr ''macros'', PList [jobj [(''name'', PStr ''m''), (''condition'', PStr ''b exists'')]])]"

definition sample_sysdig_block :: SysdigConfig where
  "sample_sysdig_block = \<lparr>sg_status = ''PRODUCTION'', sg_name = None, sg_condition = Some ''m and a in (B)'', sg_append_to_rule = None,
     sg_source = None, sg_output = None, sg_priority = Some ''Info'', sg_tags = None, sg_exceptions = None,
     sg_macros = Some [(''m'', ''b exists'')], sg_lists = None, sg_policies = None, sg_minimum_engine_version = None\<rparr>"

definition sample_sysdig_rule :: SysdigMdr where
  "sample_sysdig_rule = \<lparr>ref_uuid = uuid_str 7, ref_name = ''Rule'', mdr_description = ''d'', mdr_severity = ''High'',
     mdr_author = None, mdr_block = Some sample_sysdig_block, sm_has_response = True, sm_techniques = [], sm_has_model = False\<rparr>"

definition sample_index :: SysdigIndex where
  "sample_index = \<lparr>si_vocab = \<lparr>av_entry = (\<lambda>_. None), av_stages = (\<lambda>_. PNone)\<rparr>, si_known = (\<lambda>_. False), si_techniques = (\<lambda>_. None)\<rparr>"

theorem accepted_block_deploys_witness:
  "\<exists>compiled body. compile_falco_rule sample_index sample_sysdig_rule sample_sysdig_block RELEASE None = Inr compiled \<and> api_body compiled = Inr body"
proof (rule accepted_block_deploys [of sample_raw sample_raw])
  show "validate_raw_sysdig_block sample_raw = Inr sample_raw" by code_simp
qed (simp_all add: sample_raw_def sample_sysdig_block_def dict_of_def list_or_empty_def raw_macros_def raw_lists_def named_entries_def
    list_values_def named_entry_def map_filter_simps dget_none_def dget_str_def jobj_def dget_def)

end
