(* ===== verification/Sysdig.thy ===== *)
theory Sysdig
  imports Sysdig_Rules
begin

text \<open>
  \<open>platforms/sysdig\<close>: the client (\<open>client.py\<close>) and the deployer (\<open>deployer.py\<close>). A request is its
  method, URL and JSON body. Sysdig gives every rule an integer id, kept in the shard of the rule; a rule alerts
  only when a runtime policy names it, so deploying a rule also rewrites the \<open>ruleNames\<close> of policies.
\<close>

section \<open>The client\<close>

datatype SdRequest = SdRequest string string "pyval option"

type_synonym sd_vendor = "(SdRequest, HttpResponse) vendor"

type_synonym 'a sd_deploy = "(SdRequest, 'a) deploy"

record SysdigClient =
  sd_url :: string
  sd_tenant :: string

definition rules_path :: string where
  "rules_path = ''/api/secure/rules''"

definition policies_path :: string where
  "policies_path = ''/api/v2/policies''"

definition sysdig_api_error :: "HttpResponse \<Rightarrow> string" where
  "sysdig_api_error response =
     (case hr_json response of
        Some (PDict body) \<Rightarrow>
          (case find (\<lambda>key. truthy (dget_none body key)) [''message'', ''error'', ''errors''] of
             Some key \<Rightarrow> py_str (dget_none body key)
           | None \<Rightarrow> hr_text response)
      | _ \<Rightarrow> hr_text response)"

definition http_text :: "HttpResponse \<Rightarrow> string" where
  "http_text response = ''HTTP '' @ int_str (hr_status response) @ '': '' @ sysdig_api_error response"

text \<open>\<open>SysdigApiError(action, response)\<close> and \<open>SysdigTenantError\<close>\<close>

definition sd_rule_error :: "string \<Rightarrow> HttpResponse \<Rightarrow> Exn" where
  "sd_rule_error action response =
     \<lparr>ex_class = Rule_Error, ex_text = action @ '': '' @ http_text response, ex_status = Some (hr_status response)\<rparr>"

definition is_refusal :: "HttpResponse \<Rightarrow> bool" where
  "is_refusal response = (hr_status response = 401 \<or> hr_status response = 403)"

definition token_refused :: "SysdigClient \<Rightarrow> HttpResponse \<Rightarrow> Exn" where
  "token_refused client response = exn Tenant_Error
     (''Tenant '' @ sd_tenant client @ '' refused the API token: '' @ http_text response)"

definition sd_send :: "sd_vendor \<Rightarrow> SysdigClient \<Rightarrow> string \<Rightarrow> string \<Rightarrow> pyval option \<Rightarrow> HttpResponse sd_deploy" where
  "sd_send vendor client verb path body =
     andthen (send vendor (SdRequest verb (sd_url client @ path) body)) (\<lambda>response.
       if is_refusal response then raise (token_refused client response) else ret response)"

definition sd_json :: "HttpResponse \<Rightarrow> string \<Rightarrow> pyval sd_deploy" where
  "sd_json response action =
     (if 300 \<le> hr_status response then raise (sd_rule_error action response)
      else case hr_json response of None \<Rightarrow> raise (sd_rule_error action response) | Some v \<Rightarrow> ret v)"

text \<open>\<open>dict(value)\<close>: of a dict, or of a list of pairs.\<close>

definition json_pair :: "pyval \<Rightarrow> Exn + pyval \<times> pyval" where
  "json_pair v =
     (case v of
        PList [k, x] \<Rightarrow> if is_collection k then Inl (exn Code_Error ''TypeError'') else Inr (k, x)
      | PStr [c, d] \<Rightarrow> Inr (PStr [c], PStr [d])
      | PDict [(k, _), (x, _)] \<Rightarrow> Inr (k, x)
      | PList _ \<Rightarrow> Inl (exn Code_Error ''ValueError'')
      | PStr _ \<Rightarrow> Inl (exn Code_Error ''ValueError'')
      | PDict _ \<Rightarrow> Inl (exn Code_Error ''ValueError'')
      | _ \<Rightarrow> Inl (exn Code_Error ''TypeError''))"

definition json_dict :: "pyval \<Rightarrow> Exn + pydict" where
  "json_dict v =
     (case v of
        PDict d \<Rightarrow> Inr d
      | PList xs \<Rightarrow> rbind (rmap json_pair xs) (\<lambda>kvs. Inr (dict_of kvs))
      | PStr [] \<Rightarrow> Inr []
      | PStr _ \<Rightarrow> Inl (exn Code_Error ''ValueError'')
      | _ \<Rightarrow> Inl (exn Code_Error ''TypeError''))"

definition sd_create_rule :: "sd_vendor \<Rightarrow> SysdigClient \<Rightarrow> pydict \<Rightarrow> pydict sd_deploy" where
  "sd_create_rule vendor client body =
     andthen (sd_send vendor client ''POST'' rules_path (Some (PDict body))) (\<lambda>response.
     andthen (sd_json response ''create rule'') (\<lambda>v. lift_sum (json_dict v)))"

definition rule_path :: "string \<Rightarrow> string" where
  "rule_path rule_id = rules_path @ ''/'' @ rule_id"

text \<open>A rule Sysdig no longer has is no error.\<close>

definition sd_get_rule :: "sd_vendor \<Rightarrow> SysdigClient \<Rightarrow> string \<Rightarrow> pydict option sd_deploy" where
  "sd_get_rule vendor client rule_id =
     andthen (sd_send vendor client ''GET'' (rule_path rule_id) None) (\<lambda>response.
       if hr_status response = 404 then ret None
       else andthen (sd_json response (''read rule '' @ rule_id)) (\<lambda>v.
            andthen (lift_sum (json_dict v)) (\<lambda>d. ret (Some d))))"

definition sd_update_rule :: "sd_vendor \<Rightarrow> SysdigClient \<Rightarrow> string \<Rightarrow> pydict \<Rightarrow> pydict sd_deploy" where
  "sd_update_rule vendor client rule_id body =
     andthen (sd_send vendor client ''PUT'' (rule_path rule_id) (Some (PDict body))) (\<lambda>response.
     andthen (sd_json response (''update rule '' @ rule_id)) (\<lambda>v. lift_sum (json_dict v)))"

definition sd_delete_rule :: "sd_vendor \<Rightarrow> SysdigClient \<Rightarrow> string \<Rightarrow> unit sd_deploy" where
  "sd_delete_rule vendor client rule_id =
     andthen (sd_send vendor client ''DELETE'' (rule_path rule_id) None) (\<lambda>response.
       if hr_status response \<noteq> 404 \<and> 300 \<le> hr_status response
       then raise (sd_rule_error (''delete rule '' @ rule_id) response) else ret ())"

text \<open>\<open>body.get("policies", body.get("data", []))\<close>\<close>

definition policies_in :: "pyval \<Rightarrow> pyval" where
  "policies_in body =
     (case body of
        PDict d \<Rightarrow>
          (case dget d ''policies'' of
             Some v \<Rightarrow> v
           | None \<Rightarrow> (case dget d ''data'' of Some v \<Rightarrow> v | None \<Rightarrow> PList []))
      | v \<Rightarrow> v)"

definition sd_list_policies :: "sd_vendor \<Rightarrow> SysdigClient \<Rightarrow> pydict list sd_deploy" where
  "sd_list_policies vendor client =
     andthen (sd_send vendor client ''GET'' policies_path None) (\<lambda>response.
     andthen (sd_json response ''list policies'') (\<lambda>body.
       case policies_in body of
         PList ps \<Rightarrow> ret (List.map_filter as_dict_val ps)
       | _ \<Rightarrow> raise (exn Rule_Error ''list policies: the response is not a list of policies'')))"

definition sd_update_policy :: "sd_vendor \<Rightarrow> SysdigClient \<Rightarrow> pydict \<Rightarrow> unit sd_deploy" where
  "sd_update_policy vendor client policy =
     (case dget policy ''id'' of
        None \<Rightarrow> raise (exn Code_Error ''KeyError'')
      | Some i \<Rightarrow>
          andthen (sd_send vendor client ''PUT'' (policies_path @ ''/'' @ py_str i) (Some (PDict policy))) (\<lambda>response.
          andthen (sd_json response (''update policy '' @ py_repr (dget_none policy ''name''))) (\<lambda>v.
          andthen (lift_sum (json_dict v)) (\<lambda>_. ret ()))))"

section \<open>Policies\<close>

definition policy_missing :: "SysdigClient \<Rightarrow> string list \<Rightarrow> Exn" where
  "policy_missing client missing = exn Rule_Error
     (''sysdig_policy_missing: no runtime policy named '' @ str_join '', '' (map str_repr missing) @ '' on tenant ''
      @ sd_tenant client @ ''; create it in Sysdig Secure, or change the block'' @ [CHR 0x27]
      @ ''s or the tenant'' @ [CHR 0x27] @ ''s policies'')"

definition by_name :: "pydict list \<Rightarrow> (string \<times> pydict) list" where
  "by_name policies = rev (map (\<lambda>p. (py_str (dget_none p ''name''), p)) policies)"

definition named_policies :: "sd_vendor \<Rightarrow> SysdigClient \<Rightarrow> string list \<Rightarrow> pydict list sd_deploy" where
  "named_policies vendor client names =
     andthen (sd_list_policies vendor client) (\<lambda>policies.
       let missing = filter (\<lambda>n. map_of (by_name policies) n = None) names in
       if missing \<noteq> [] then raise (policy_missing client missing)
       else ret (map (\<lambda>n. the (map_of (by_name policies) n)) names))"

text \<open>\<open>list(policy.get("ruleNames") or [])\<close>\<close>

definition policy_rules :: "pydict \<Rightarrow> Exn + pyval list" where
  "policy_rules policy =
     (let v = dget_none policy ''ruleNames'' in
      if \<not> truthy v then Inr []
      else case v of
             PList xs \<Rightarrow> Inr xs
           | PStr s \<Rightarrow> Inr (map (\<lambda>c. PStr [c]) s)
           | PDict d \<Rightarrow> Inr (map fst d)
           | _ \<Rightarrow> Inl (exn Code_Error ''TypeError''))"

definition with_rules :: "pydict \<Rightarrow> pyval list \<Rightarrow> pydict" where
  "with_rules policy rules = AList.update (PStr ''ruleNames'') (PList rules) policy"

text \<open>One policy: what it becomes, or \<open>None\<close> when it stays as it is.\<close>

definition edit_policy ::
  "sd_vendor \<Rightarrow> SysdigClient \<Rightarrow> (pyval list \<Rightarrow> Exn + pyval list option) \<Rightarrow> pydict \<Rightarrow> unit sd_deploy" where
  "edit_policy vendor client edit policy =
     andthen (lift_sum (policy_rules policy)) (\<lambda>rules.
     andthen (lift_sum (edit rules)) (\<lambda>changed.
       case changed of
         None \<Rightarrow> ret ()
       | Some rules' \<Rightarrow> sd_update_policy vendor client (with_rules policy rules')))"

definition edit_policies ::
  "sd_vendor \<Rightarrow> SysdigClient \<Rightarrow> (pyval list \<Rightarrow> Exn + pyval list option) \<Rightarrow> string list \<Rightarrow> unit sd_deploy" where
  "edit_policies vendor client edit names =
     andthen (named_policies vendor client names) (\<lambda>policies.
     andthen (each (edit_policy vendor client edit) policies) (\<lambda>_. ret ()))"

definition joined :: "string \<Rightarrow> pyval list \<Rightarrow> Exn + pyval list option" where
  "joined rule_name rules = Inr (if PStr rule_name \<in> set rules then None else Some (rules @ [PStr rule_name]))"

definition left_out :: "string \<Rightarrow> pyval list \<Rightarrow> Exn + pyval list option" where
  "left_out rule_name rules =
     Inr (if PStr rule_name \<notin> set rules then None else Some (filter (\<lambda>n. n \<noteq> PStr rule_name) rules))"

definition renamed :: "string \<Rightarrow> string \<Rightarrow> pyval list \<Rightarrow> Exn + pyval list option" where
  "renamed old new rules =
     (if PStr old \<notin> set rules then Inr None
      else if list_ex is_collection rules then Inl (exn Code_Error ''TypeError'')
      else Inr (Some (from_keys (map (\<lambda>n. if n = PStr old then PStr new else n) rules))))"

definition join_policies :: "sd_vendor \<Rightarrow> SysdigClient \<Rightarrow> string \<Rightarrow> string list \<Rightarrow> unit sd_deploy" where
  "join_policies vendor client rule_name names =
     (if names = [] then ret () else edit_policies vendor client (joined rule_name) names)"

definition leave_policies :: "sd_vendor \<Rightarrow> SysdigClient \<Rightarrow> string \<Rightarrow> string list \<Rightarrow> unit sd_deploy" where
  "leave_policies vendor client rule_name names =
     (if names = [] then ret () else edit_policies vendor client (left_out rule_name) names)"

definition rename_in_policies :: "sd_vendor \<Rightarrow> SysdigClient \<Rightarrow> string \<Rightarrow> string \<Rightarrow> string list \<Rightarrow> unit sd_deploy" where
  "rename_in_policies vendor client old new names = edit_policies vendor client (renamed old new) names"

section \<open>One rule\<close>

record SysdigTenant =
  sy_name :: string
  sy_url :: string
  sy_ssl :: pyval
  sy_policies :: "string list option"
  sy_tags :: "string list option"

definition sysdig :: string where
  "sysdig = ''sysdig''"

definition sysdig_error :: "string \<Rightarrow> string \<Rightarrow> string \<Rightarrow> unit sd_deploy" where
  "sysdig_error event rule_id message =
     on_world (\<lambda>w. on_events (note_failure (if message = [] then replace_char CHR ''_'' CHR '' '' event else message))
       (set_env error_flag (log_line (LogEvent LogError event rule_id) w)))"

definition sysdig_warning :: "string \<Rightarrow> string \<Rightarrow> unit sd_deploy" where
  "sysdig_warning event rule_id =
     on_world (\<lambda>w. set_env warning_flag (log_line (LogEvent LogWarning event rule_id) w))"

definition create_on_sysdig ::
  "DeployEnv \<Rightarrow> sd_vendor \<Rightarrow> SysdigClient \<Rightarrow> string \<Rightarrow> string \<Rightarrow> FalcoRule \<Rightarrow> string list \<Rightarrow> unit sd_deploy" where
  "create_on_sysdig env vendor client object_uuid tenant compiled policies =
     andthen (lift_sum (api_body compiled)) (\<lambda>body.
     andthen (sd_create_rule vendor client body) (\<lambda>created.
       if dget_none created ''id'' = PNone
       then raise (exn Rule_Error ''create rule: the response carries no rule id'')
       else andthen (created_or_reported env sysdig object_uuid tenant (dget_none created ''id'')) (\<lambda>_.
            join_policies vendor client (fr_name compiled) policies)))"

text \<open>The recorded rule is gone from Sysdig: create it again, unless a create is refused or there is nothing to disable.\<close>

definition recreate_refusal :: "DeployEnv \<Rightarrow> RunStrategies option \<Rightarrow> environ \<Rightarrow> state_code option" where
  "recreate_refusal env strategies environ =
     (if du_ignore env \<noteq> None then Some Deployment_state_ignored else unpersisted_error environ strategies)"

definition recreate_on_sysdig ::
  "DeployEnv \<Rightarrow> sd_vendor \<Rightarrow> SysdigClient \<Rightarrow> string \<Rightarrow> string \<Rightarrow> FalcoRule \<Rightarrow> string list \<Rightarrow> StatusStrategy
    \<Rightarrow> RunStrategies option \<Rightarrow> unit sd_deploy" where
  "recreate_on_sysdig env vendor client object_uuid tenant compiled policies strategy strategies =
     (if strategy = DISABLEMENT
      then andthen (sysdig_warning ''sysdig_rule_missing'' object_uuid) (\<lambda>_.
             deleted_or_reported env sysdig object_uuid tenant)
      else andthen (sysdig_warning ''sysdig_rule_recreated'' object_uuid) (\<lambda>_.
           andthen (ask_world (\<lambda>w. (recreate_refusal env strategies (w_env w), w))) (\<lambda>refusal.
             case refusal of
               Some e \<Rightarrow> on_world (report_failure (du_text_of env) e object_uuid sysdig tenant False)
             | None \<Rightarrow> create_on_sysdig env vendor client object_uuid tenant compiled policies)))"

definition update_body :: "FalcoRule \<Rightarrow> string \<Rightarrow> pydict \<Rightarrow> Exn + pydict" where
  "update_body compiled rule_id remote =
     rbind (api_body compiled) (\<lambda>body.
     rbind (int_of_text rule_id) (\<lambda>n.
       (let body1 = AList.update (PStr ''id'') (case dget remote ''id'' of Some v \<Rightarrow> v | None \<Rightarrow> PInt n) body
        in Inr (case dget remote ''version'' of Some v \<Rightarrow> AList.update (PStr ''version'') v body1 | None \<Rightarrow> body1))))"

definition update_on_sysdig ::
  "sd_vendor \<Rightarrow> SysdigClient \<Rightarrow> FalcoRule \<Rightarrow> string list \<Rightarrow> StatusStrategy \<Rightarrow> string \<Rightarrow> pydict \<Rightarrow> unit sd_deploy" where
  "update_on_sysdig vendor client compiled policies strategy rule_id remote =
     andthen (lift_sum (update_body compiled rule_id remote)) (\<lambda>body.
     andthen (sd_update_rule vendor client rule_id body) (\<lambda>_.
     andthen (case dget remote ''name'' of
                Some (PStr old) \<Rightarrow>
                  if policies \<noteq> [] \<and> old \<noteq> fr_name compiled
                  then rename_in_policies vendor client old (fr_name compiled) policies else ret ()
              | _ \<Rightarrow> ret ()) (\<lambda>_.
       if strategy = DISABLEMENT then leave_policies vendor client (fr_name compiled) policies
       else join_policies vendor client (fr_name compiled) policies)))"

definition act_on_sysdig ::
  "DeployEnv \<Rightarrow> sd_vendor \<Rightarrow> SysdigClient \<Rightarrow> string \<Rightarrow> string \<Rightarrow> FalcoRule \<Rightarrow> string list \<Rightarrow> StatusStrategy
    \<Rightarrow> RunStrategies option \<Rightarrow> ExternalIdAction \<Rightarrow> unit sd_deploy" where
  "act_on_sysdig env vendor client object_uuid tenant compiled policies strategy strategies action =
     (case act_kind action of
        Delete \<Rightarrow>
          andthen (leave_policies vendor client (fr_name compiled) policies) (\<lambda>_.
          andthen (known_id_of action) (\<lambda>rule_id.
          andthen (sd_delete_rule vendor client rule_id) (\<lambda>_. deleted_or_reported env sysdig object_uuid tenant)))
      | Create \<Rightarrow> create_on_sysdig env vendor client object_uuid tenant compiled policies
      | Update \<Rightarrow>
          andthen (known_id_of action) (\<lambda>rule_id.
          andthen (sd_get_rule vendor client rule_id) (\<lambda>remote.
            case remote of
              None \<Rightarrow> recreate_on_sysdig env vendor client object_uuid tenant compiled policies strategy strategies
            | Some d \<Rightarrow>
                if strategy = DISABLEMENT \<and> fr_tuning compiled
                then andthen (sd_delete_rule vendor client rule_id) (\<lambda>_. deleted_or_reported env sysdig object_uuid tenant)
                else update_on_sysdig vendor client compiled policies strategy rule_id d)))"

definition block_policies :: "SysdigTenant \<Rightarrow> SysdigConfig \<Rightarrow> FalcoRule \<Rightarrow> string list" where
  "block_policies tenant block compiled =
     (if fr_tuning compiled then []
      else case sg_policies block of Some ps \<Rightarrow> ps | None \<Rightarrow> list_or_empty (sy_policies tenant))"

definition deploy_api ::
  "DeployEnv \<Rightarrow> SysdigIndex \<Rightarrow> sd_vendor \<Rightarrow> SysdigClient \<Rightarrow> SysdigTenant \<Rightarrow> RunStrategies option
    \<Rightarrow> SysdigMdr \<Rightarrow> ExternalIdAction \<Rightarrow> unit sd_deploy" where
  "deploy_api env index vendor client tenant strategies rule action =
     (case mdr_block rule of
        None \<Rightarrow> raise (exn Code_Error ''ValueError'')
      | Some block \<Rightarrow>
          (case check_status (du_statuses env) (sg_status block) of
             Inl _ \<Rightarrow> raise (exn Config_Error ''status'')
           | Inr strategy \<Rightarrow>
               (case compile_falco_rule index rule block strategy (sy_tags tenant) of
                  Inl e \<Rightarrow> raise (exn Code_Error (expansion_code e))
                | Inr compiled \<Rightarrow>
                    catching
                      (act_on_sysdig env vendor client (ref_uuid rule) (sy_name tenant) compiled
                         (block_policies tenant block compiled) strategy strategies action)
                      (\<lambda>e. if ex_class e = Rule_Error
                           then Some (sysdig_error ''sysdig_request_failed'' (ref_uuid rule) (ex_text e)) else None))))"

section \<open>A tenant and a run\<close>

definition stops_tenant :: "Exn \<Rightarrow> bool" where
  "stops_tenant e = (ex_class e \<in> {Tenant_Error, Transport_Error, Http_Error})"

text \<open>A rule of the loop; \<open>False\<close> when a refused token or an unreachable tenant ends the tenant.\<close>

definition rule_or_stop :: "SysdigTenant \<Rightarrow> unit sd_deploy \<Rightarrow> bool sd_deploy" where
  "rule_or_stop tenant body =
     catching (andthen body (\<lambda>_. ret True))
       (\<lambda>e. if stops_tenant e
            then Some (andthen (on_world (\<lambda>w. on_events (note_failure (ex_text e)) (set_env error_flag
                     (log_line (LogEvent LogError ''sysdig_tenant_deployment_failed'' (sy_name tenant)) w))))
                   (\<lambda>_. ret False))
            else None)"

fun deploy_rules_sysdig ::
  "SysdigTenant \<Rightarrow> (SysdigMdr \<Rightarrow> ExternalIdAction \<Rightarrow> unit sd_deploy) \<Rightarrow> (SysdigMdr \<times> ExternalIdAction) list \<Rightarrow> unit sd_deploy" where
  "deploy_rules_sysdig tenant deploy_rule [] = ret ()"
| "deploy_rules_sysdig tenant deploy_rule ((rule, action) # planned) =
     andthen (deploying sysdig (sy_name tenant) (ref_uuid rule) (ref_name rule)
                (rule_or_stop tenant (deploy_rule rule action)))
       (\<lambda>more. if more then deploy_rules_sysdig tenant deploy_rule planned else ret ())"

text \<open>\<open>str.rstrip("/")\<close>\<close>

definition strip_url :: "string \<Rightarrow> string" where
  "strip_url s = rev (dropWhile (\<lambda>c. c = CHR ''/'') (rev s))"

definition deploy_api_tenant ::
  "DeployEnv \<Rightarrow> SysdigIndex \<Rightarrow> sd_vendor \<Rightarrow> RunStrategies option \<Rightarrow> SysdigTenant \<Rightarrow> SysdigMdr list \<Rightarrow> unit sd_deploy" where
  "deploy_api_tenant env index vendor strategies tenant rules =
     andthen (screened env strategies sysdig (sy_name tenant) (\<lambda>r. map_option sg_status (mdr_block r)) rules) (\<lambda>planned.
       if planned = [] then ret ()
       else andthen (lift_sum (tenant_tls_verify (sy_ssl tenant))) (\<lambda>_.
            deploy_rules_sysdig tenant
              (deploy_api env index vendor \<lparr>sd_url = strip_url (sy_url tenant), sd_tenant = sy_name tenant\<rparr> tenant strategies)
              planned))"

definition deploy_sysdig ::
  "DeployEnv \<Rightarrow> SysdigIndex \<Rightarrow> (SysdigTenant \<Rightarrow> sd_vendor) \<Rightarrow> (string \<Rightarrow> SysdigMdr option)
    \<Rightarrow> (SysdigMdr list \<Rightarrow> RunStrategies option \<Rightarrow> Exn + (SysdigTenant \<times> SysdigMdr list) list)
    \<Rightarrow> SysdigMdr mdr_arg list \<Rightarrow> RunStrategies option \<Rightarrow> unit sd_deploy" where
  "deploy_sysdig env index vendor rules resolve mdr_deployment strategies =
     andthen (lift_sum (rmap (load_mdr rules) mdr_deployment)) (\<lambda>loaded.
     andthen (ask_world (without_legacy_external_ids (du_text_of env) (du_index env) loaded sysdig)) (\<lambda>kept.
       if kept = [] then ret ()
       else andthen (lift_sum (resolve kept strategies)) (\<lambda>batches.
            andthen (each (\<lambda>(tenant, rs). deploy_api_tenant env index (vendor tenant) strategies tenant rs) batches)
              (\<lambda>_. ret ()))))"


section \<open>What stays as it is\<close>

lemma keeps_sd_client [run_frames]:
  "preserves same_world (sd_send vendor client verb path body)"
  "preserves same_world (sd_json response action)"
  unfolding sd_send_def sd_json_def by (auto intro!: run_frames split: option.split)

lemma keeps_sd_rules [run_frames]:
  "preserves same_world (sd_create_rule vendor client b)"
  "preserves same_world (sd_get_rule vendor client i)"
  "preserves same_world (sd_update_rule vendor client i b)"
  "preserves same_world (sd_delete_rule vendor client i)"
  unfolding sd_create_rule_def sd_get_rule_def sd_update_rule_def sd_delete_rule_def by (auto intro!: run_frames)

lemma keeps_sd_policies [run_frames]:
  "preserves same_world (sd_list_policies vendor client)"
  "preserves same_world (sd_update_policy vendor client policy)"
  unfolding sd_list_policies_def sd_update_policy_def by (auto intro!: run_frames split: pyval.split option.split)

lemma keeps_edit_policies [run_frames]: "preserves same_world (edit_policies vendor client edit names)"
proof -
  have "preserves same_world (edit_policy vendor client edit policy)" for policy
    unfolding edit_policy_def by (auto intro!: run_frames split: option.split)
  then show ?thesis
    unfolding edit_policies_def named_policies_def Let_def by (auto intro!: run_frames)
qed

lemma keeps_rule_policies [run_frames]:
  "preserves same_world (join_policies vendor client n names)"
  "preserves same_world (leave_policies vendor client n names)"
  "preserves same_world (rename_in_policies vendor client n m names)"
  unfolding join_policies_def leave_policies_def rename_in_policies_def by (auto intro!: run_frames)

lemma keeps_update_on_sysdig [run_frames]: "preserves same_world (update_on_sysdig vendor client compiled policies strategy i d)"
  unfolding update_on_sysdig_def by (auto intro!: run_frames split: option.split pyval.split)

lemma sysdig_told [run_frames]:
  "preserves (only_shards U) (sysdig_warning event rule_id)"
  "preserves (only_shards U) (sysdig_error event rule_id m)"
  by (simp_all add: preserves_def sysdig_warning_def sysdig_error_def on_world_def update_state_def only_shards_def
      flagged_def on_events_def set_env_def log_line_def)

lemma keeps_report [run_frames]: "preserves (only_shards U) (on_world (report_failure t e u p n q))"
  by (auto simp: preserves_def on_world_def update_state_def only_shards_def report_failure_def Let_def
      flagged_def set_env_def log_line_def)

lemma keeps_ask [run_frames]: "preserves same_world (ask_world (\<lambda>w. (f w, w)))"
  by (simp add: preserves_def ask_world_def same_world_def)

lemmas silent_frames = keeps_sd_rules [THEN silent_shard] keeps_rule_policies [THEN silent_shard]
  keeps_update_on_sysdig [THEN silent_shard] keeps_known_id [THEN silent_shard] keeps_ask [THEN silent_shard]

lemma keeps_create: "preserves (only_shard u) (create_on_sysdig env vendor client u t compiled policies)"
  unfolding create_on_sysdig_def by (auto intro!: run_frames silent_frames)

lemma keeps_recreate: "preserves (only_shard u) (recreate_on_sysdig env vendor client u t compiled policies strategy strategies)"
  unfolding recreate_on_sysdig_def by (auto intro!: run_frames silent_frames keeps_create split: option.split)

lemma keeps_act: "preserves (only_shard u) (act_on_sysdig env vendor client u t compiled policies strategy strategies a)"
  unfolding act_on_sysdig_def
  by (auto intro!: run_frames silent_frames keeps_create keeps_recreate split: action_kind.split option.split)

lemma keeps_deploy_api: "preserves (only_shard (ref_uuid rule)) (deploy_api env index vendor client tenant strategies rule a)"
  unfolding deploy_api_def
  by (auto intro!: run_frames keeps_act split: option.split sum.split if_splits)


section \<open>What is sent\<close>

lemma sd_send_Inr:
  "sd_send vendor client verb path body s = (Inr r, s') \<longleftrightarrow>
     vendor (dr_calls s) (SdRequest verb (sd_url client @ path) body) = Inr r \<and> \<not> is_refusal r
     \<and> s' = s\<lparr>dr_calls := dr_calls s @ [SdRequest verb (sd_url client @ path) body]\<rparr>"
  by (auto simp: sd_send_def effect_Inr send_Inr split: if_splits)

lemma sd_json_Inr: "sd_json response action s = (Inr v, s') \<longleftrightarrow> hr_status response < 300 \<and> hr_json response = Some v \<and> s' = s"
  by (auto simp: sd_json_def effect_Inr split: option.splits)

definition policy_put :: "SysdigClient \<Rightarrow> pydict \<Rightarrow> pyval list \<Rightarrow> SdRequest" where
  "policy_put client policy rules = SdRequest ''PUT''
     (sd_url client @ policies_path @ ''/'' @ py_str (dget_none policy ''id'')) (Some (PDict (with_rules policy rules)))"

text \<open>The request that an edit of the rules of a policy needs.\<close>

definition policy_edit :: "SysdigClient \<Rightarrow> (pyval list \<Rightarrow> Exn + pyval list option) \<Rightarrow> pydict \<Rightarrow> SdRequest list" where
  "policy_edit client edit policy =
     (case policy_rules policy of
        Inl _ \<Rightarrow> []
      | Inr rules \<Rightarrow> (case edit rules of Inr (Some rules') \<Rightarrow> [policy_put client policy rules'] | _ \<Rightarrow> []))"

lemma update_policy_calls:
  "sd_update_policy vendor client policy s = (Inr (), s') \<Longrightarrow>
     dr_calls s' = dr_calls s @ [SdRequest ''PUT'' (sd_url client @ policies_path @ ''/'' @ py_str (dget_none policy ''id''))
       (Some (PDict policy))]"
  by (auto simp: sd_update_policy_def effect_Inr sd_send_Inr sd_json_Inr dget_none_def split: option.splits)

lemma dget_with_rules: "dget_none (with_rules policy rules) ''id'' = dget_none policy ''id''"
  by (simp add: with_rules_def dget_none_def dget_update)

lemma edit_policy_calls:
  "edit_policy vendor client edit policy s = (Inr (), s') \<Longrightarrow> dr_calls s' = dr_calls s @ policy_edit client edit policy"
proof -
  assume "edit_policy vendor client edit policy s = (Inr (), s')"
  then obtain rules changed where rules: "policy_rules policy = Inr rules" "edit rules = Inr changed"
    and run: "(case changed of None \<Rightarrow> ret () | Some rules' \<Rightarrow> sd_update_policy vendor client (with_rules policy rules')) s = (Inr (), s')"
    by (auto simp: edit_policy_def effect_Inr)
  show ?thesis
  proof (cases changed)
    case None
    with run rules show ?thesis by (simp add: policy_edit_def effect_Inr)
  next
    case (Some rules')
    with run have "sd_update_policy vendor client (with_rules policy rules') s = (Inr (), s')" by simp
    from update_policy_calls [OF this] rules Some show ?thesis
      by (simp add: policy_edit_def policy_put_def dget_with_rules)
  qed
qed

lemma list_or_raise_Inr:
  "(case v of PList xs \<Rightarrow> ret (f xs) | _ \<Rightarrow> raise e) s = (Inr y, s') \<longleftrightarrow> (\<exists>xs. v = PList xs \<and> y = f xs \<and> s' = s)"
  by (cases v) (auto simp: effect_Inr)

lemma named_policies_Inr:
  assumes "named_policies vendor client names s = (Inr ps, s')"
  shows "map (\<lambda>p. py_str (dget_none p ''name'')) ps = names
    \<and> dr_calls s' = dr_calls s @ [SdRequest ''GET'' (sd_url client @ policies_path) None]"
proof -
  from assms obtain found where got: "sd_list_policies vendor client s = (Inr found, s')"
    and all: "\<forall>n \<in> set names. map_of (by_name found) n \<noteq> None"
    and ps: "ps = map (\<lambda>n. the (map_of (by_name found) n)) names"
    by (auto simp: named_policies_def effect_Inr Let_def filter_empty_conv split: if_splits)
  have "py_str (dget_none (the (map_of (by_name found) n)) ''name'') = n" if "n \<in> set names" for n
    using all that map_of_SomeD by (fastforce simp: by_name_def)
  then have "map (\<lambda>p. py_str (dget_none p ''name'')) ps = names" by (simp add: ps comp_def map_idI)
  moreover have "dr_calls s' = dr_calls s @ [SdRequest ''GET'' (sd_url client @ policies_path) None]"
    using got by (auto simp: sd_list_policies_def effect_Inr sd_send_Inr sd_json_Inr list_or_raise_Inr)
  ultimately show ?thesis by simp
qed

lemma edit_policies_calls:
  assumes "edit_policies vendor client edit names s = (Inr (), s')"
  obtains ps where "map (\<lambda>p. py_str (dget_none p ''name'')) ps = names"
    "dr_calls s' = dr_calls s @ SdRequest ''GET'' (sd_url client @ policies_path) None # concat (map (policy_edit client edit) ps)"
proof -
  from assms obtain ps s1 ys where named: "named_policies vendor client names s = (Inr ps, s1)"
    and loop: "each (edit_policy vendor client edit) ps s1 = (Inr ys, s')"
    by (auto simp: edit_policies_def effect_Inr)
  have "dr_calls s' = dr_calls s1 @ concat (map (policy_edit client edit) ps)"
    by (rule each_calls [OF _ loop]) (simp add: edit_policy_calls)
  then have "dr_calls s' = dr_calls s @ SdRequest ''GET'' (sd_url client @ policies_path) None # concat (map (policy_edit client edit) ps)"
    using named_policies_Inr [OF named] by simp
  then show thesis using named_policies_Inr [OF named] by (intro that) simp_all
qed

lemma create_calls:
  assumes "create_on_sysdig env vendor client u t compiled policies s = (Inr (), s')" "policies \<noteq> []"
  obtains body ps where "api_body compiled = Inr body" "map (\<lambda>p. py_str (dget_none p ''name'')) ps = policies"
    "dr_calls s' = dr_calls s
      @ [SdRequest ''POST'' (sd_url client @ rules_path) (Some (PDict body)), SdRequest ''GET'' (sd_url client @ policies_path) None]
      @ concat (map (policy_edit client (joined (fr_name compiled))) ps)"
proof -
  from assms obtain body created s1 s2 where b: "api_body compiled = Inr body"
    and post: "sd_create_rule vendor client body s = (Inr created, s1)"
    and rec: "created_or_reported env sysdig u t (dget_none created ''id'') s1 = (Inr (), s2)"
    and join: "edit_policies vendor client (joined (fr_name compiled)) policies s2 = (Inr (), s')"
    by (auto simp: create_on_sysdig_def join_policies_def effect_Inr split: if_splits)
  from post have "dr_calls s1 = dr_calls s @ [SdRequest ''POST'' (sd_url client @ rules_path) (Some (PDict body))]"
    by (auto simp: sd_create_rule_def effect_Inr sd_send_Inr sd_json_Inr)
  moreover have "dr_calls s2 = dr_calls s1" by (rule reported_calls(1) [OF rec])
  moreover obtain ps where "map (\<lambda>p. py_str (dget_none p ''name'')) ps = policies"
    "dr_calls s' = dr_calls s2 @ SdRequest ''GET'' (sd_url client @ policies_path) None
       # concat (map (policy_edit client (joined (fr_name compiled))) ps)"
    by (rule edit_policies_calls [OF join])
  ultimately show thesis using that b by simp
qed

section \<open>Ids\<close>

text \<open>
  The id that the tenant answers, in the course of a rule, to the POST of its payload, in the form shards keep.
\<close>

definition answered_id ::
  "sd_vendor \<Rightarrow> SysdigClient \<Rightarrow> FalcoRule \<Rightarrow> SdRequest DeployRun \<Rightarrow> SdRequest DeployRun \<Rightarrow> string \<Rightarrow> bool" where
  "answered_id vendor client compiled s s' ident \<longleftrightarrow>
     (\<exists>body before q after response v created. api_body compiled = Inr body
        \<and> q = SdRequest ''POST'' (sd_url client @ rules_path) (Some (PDict body))
        \<and> dr_calls s' = dr_calls s @ before @ q # after
        \<and> vendor (dr_calls s @ before) q = Inr response
        \<and> hr_json response = Some v \<and> json_dict v = Inr created
        \<and> normalise_external_id sysdig (dget_none created ''id'') = Inr ident)"

lemma answered_later:
  "answered_id vendor client compiled s1 s' ident \<Longrightarrow> dr_calls s1 = dr_calls s @ qs \<Longrightarrow>
   answered_id vendor client compiled s s' ident"
  unfolding answered_id_def by (metis append.assoc)

lemma policies_sent:
  assumes "join_policies vendor client n names s = (Inr (), s')"
  shows "\<exists>qs. dr_calls s' = dr_calls s @ qs"
proof (cases "names = []")
  case False
  with assms have "edit_policies vendor client (joined n) names s = (Inr (), s')" by (simp add: join_policies_def)
  then show ?thesis by (rule edit_policies_calls) blast
qed (use assms in \<open>simp add: join_policies_def effect_Inr\<close>)

lemma create_records:
  assumes "create_on_sysdig env vendor client u t compiled policies s = (Inr (), s')" "\<not> flagged (dr_world s')"
  shows "\<exists>st ident. load_state (w_dir (dr_world s')) (PStr u) = Inr st \<and> state_get st sysdig t = Some ident
    \<and> answered_id vendor client compiled s s' ident"
proof -
  from assms(1) obtain body created s1 s2 where body: "api_body compiled = Inr body"
    and post: "sd_create_rule vendor client body s = (Inr created, s1)"
    and rec: "created_or_reported env sysdig u t (dget_none created ''id'') s1 = (Inr (), s2)"
    and join: "join_policies vendor client (fr_name compiled) policies s2 = (Inr (), s')"
    by (auto simp: create_on_sysdig_def effect_Inr split: if_splits)
  let ?q = "SdRequest ''POST'' (sd_url client @ rules_path) (Some (PDict body))"
  from post obtain response v where r: "vendor (dr_calls s) ?q = Inr response" "hr_json response = Some v"
    "json_dict v = Inr created" "dr_calls s1 = dr_calls s @ [?q]"
    by (auto simp: sd_create_rule_def effect_Inr sd_send_Inr sd_json_Inr)
  obtain qs where "dr_calls s' = dr_calls s2 @ qs" using policies_sent [OF join] by blast
  then have calls: "dr_calls s' = dr_calls s @ [] @ ?q # qs" using r(4) reported_calls(1) [OF rec] by simp
  have same: "dr_world s' = dr_world s2"
    using silent.keeps_run [OF keeps_rule_policies(1) join] by (simp add: same_world_def)
  obtain st ident where st: "normalise_external_id sysdig (dget_none created ''id'') = Inr ident"
    "load_state (w_dir (dr_world s')) (PStr u) = Inr st" "state_get st sysdig t = Some ident"
    using created_or_reported_stored [OF rec] assms(2) same by auto
  have "answered_id vendor client compiled s s' ident"
    unfolding answered_id_def
    by (intro exI conjI, rule body, rule refl, rule calls) (use r st in simp_all)
  with st show ?thesis by blast
qed

lemma refusal_flags: "recreate_refusal env strategies environ = Some e \<Longrightarrow> e \<notin> set warning_codes"
  by (auto simp: recreate_refusal_def unpersisted_error_def warning_codes_def Let_def split: if_splits)

lemma warning_calls: "sysdig_warning event u s = (r, s') \<Longrightarrow> dr_calls s' = dr_calls s"
  by (auto simp: sysdig_warning_def on_world_def update_state_def)

lemma recreate_records:
  assumes "recreate_on_sysdig env vendor client u t compiled policies strategy strategies s = (Inr (), s')" "\<not> flagged (dr_world s')"
  shows "\<exists>st. load_state (w_dir (dr_world s')) (PStr u) = Inr st
    \<and> (if strategy = DISABLEMENT then state_get st sysdig t = None
       else \<exists>ident. state_get st sysdig t = Some ident \<and> answered_id vendor client compiled s s' ident)"
proof (cases "strategy = DISABLEMENT")
  case True
  with assms(1) obtain s1 where "deleted_or_reported env sysdig u t s1 = (Inr (), s')"
    by (auto simp: recreate_on_sysdig_def effect_Inr)
  from deleted_or_reported_settles [OF this assms(2)] True show ?thesis by simp
next
  case False
  with assms(1) obtain refusal s1 where warned: "sysdig_warning ''sysdig_rule_recreated'' u s = (Inr (), s1)"
    and ref: "refusal = recreate_refusal env strategies (w_env (dr_world s1))"
    and rest: "(case refusal of
               Some e \<Rightarrow> on_world (report_failure (du_text_of env) e u sysdig t False)
             | None \<Rightarrow> create_on_sysdig env vendor client u t compiled policies) s1 = (Inr (), s')"
    by (auto simp: recreate_on_sysdig_def effect_Inr ask_world_def)
  have "refusal = None"
  proof (rule ccontr)
    assume "refusal \<noteq> None"
    then obtain e where e: "refusal = Some e" by blast
    with rest have "dr_world s' = report_failure (du_text_of env) e u sysdig t False (dr_world s1)"
      by (auto simp: on_world_def update_state_def)
    with refusal_flags ref e assms(2) show False by (metis report_flag)
  qed
  with rest have "create_on_sysdig env vendor client u t compiled policies s1 = (Inr (), s')" by simp
  from create_records [OF this assms(2)] warning_calls [OF warned] False answered_later [of vendor client compiled s1 s' _ s "[]"]
  show ?thesis by fastforce
qed

text \<open>
  The id in the shard of a rule that is finished: of a rule created, or created anew because the tenant no
  longer has it, the one the tenant answered; none of a rule that is deleted, or disabled while the tenant does not
  have it or it is a tuning rule; otherwise the id it was planned with.
\<close>

definition id_after ::
  "sd_vendor \<Rightarrow> SysdigClient \<Rightarrow> FalcoRule \<Rightarrow> StatusStrategy \<Rightarrow> ExternalIdAction \<Rightarrow> SdRequest DeployRun
    \<Rightarrow> SdRequest DeployRun \<Rightarrow> string option \<Rightarrow> bool" where
  "id_after vendor client compiled strategy a s s' recorded \<longleftrightarrow>
     (case act_kind a of
        Create \<Rightarrow> (\<exists>ident. recorded = Some ident \<and> answered_id vendor client compiled s s' ident)
      | Delete \<Rightarrow> recorded = None
      | Update \<Rightarrow> (\<exists>i response. act_id a = Some i
           \<and> vendor (dr_calls s) (SdRequest ''GET'' (sd_url client @ rule_path i) None) = Inr response
           \<and> (if hr_status response = 404
              then if strategy = DISABLEMENT then recorded = None
                   else \<exists>ident. recorded = Some ident \<and> answered_id vendor client compiled s s' ident
              else recorded = (if strategy = DISABLEMENT \<and> fr_tuning compiled then None else Some i))))"

lemma get_rule_answered:
  assumes "sd_get_rule vendor client i s = (Inr remote, s1)"
  obtains response where "vendor (dr_calls s) (SdRequest ''GET'' (sd_url client @ rule_path i) None) = Inr response"
    "hr_status response = 404 \<longleftrightarrow> remote = None"
    "dr_calls s1 = dr_calls s @ [SdRequest ''GET'' (sd_url client @ rule_path i) None]"
  using assms by (auto simp: sd_get_rule_def effect_Inr sd_send_Inr sd_json_Inr split: if_splits)

lemma act_keeps_id:
  assumes "act_on_sysdig env vendor client (ref_uuid r) t compiled policies strategy strategies a s = (Inr (), s')"
    and "planned_ok sysdig t (r, a) (dr_world s)" "\<not> flagged (dr_world s')"
  shows "\<exists>st. load_state (w_dir (dr_world s')) (PStr (ref_uuid r)) = Inr st
    \<and> id_after vendor client compiled strategy a s s' (state_get st sysdig t)"
proof (cases "act_kind a")
  case Create
  with assms(1) create_records [OF _ assms(3)] show ?thesis
    by (simp add: act_on_sysdig_def id_after_def)
next
  case Delete
  with assms(1) obtain s1 where "deleted_or_reported env sysdig (ref_uuid r) t s1 = (Inr (), s')"
    by (auto simp: act_on_sysdig_def effect_Inr)
  from deleted_or_reported_settles [OF this assms(3)] Delete show ?thesis by (simp add: id_after_def)
next
  case Update
  with assms(1) obtain i remote s1 where i: "act_id a = Some i" and got: "sd_get_rule vendor client i s = (Inr remote, s1)"
    and rest: "(case remote of
              None \<Rightarrow> recreate_on_sysdig env vendor client (ref_uuid r) t compiled policies strategy strategies
            | Some d \<Rightarrow>
                if strategy = DISABLEMENT \<and> fr_tuning compiled
                then andthen (sd_delete_rule vendor client i) (\<lambda>_. deleted_or_reported env sysdig (ref_uuid r) t)
                else update_on_sysdig vendor client compiled policies strategy i d) s1 = (Inr (), s')"
    by (auto simp: act_on_sysdig_def andthen_Inr known_id_Inr)
  have same: "dr_world s1 = dr_world s" using silent.keeps_run [OF keeps_sd_rules(2) got] by (simp add: same_world_def)
  obtain response where answer: "vendor (dr_calls s) (SdRequest ''GET'' (sd_url client @ rule_path i) None) = Inr response"
    "hr_status response = 404 \<longleftrightarrow> remote = None"
    and calls: "dr_calls s1 = dr_calls s @ [SdRequest ''GET'' (sd_url client @ rule_path i) None]"
    by (rule get_rule_answered [OF got])
  show ?thesis
  proof (cases remote)
    case None
    with rest have "recreate_on_sysdig env vendor client (ref_uuid r) t compiled policies strategy strategies s1 = (Inr (), s')"
      by simp
    from recreate_records [OF this assms(3)] None answer calls Update i show ?thesis
      by (auto simp: id_after_def intro: answered_later split: if_splits)
  next
    case (Some d)
    have after: "id_after vendor client compiled strategy a s s' recorded
        \<longleftrightarrow> recorded = (if strategy = DISABLEMENT \<and> fr_tuning compiled then None else Some i)" for recorded
      using Some answer Update i by (auto simp: id_after_def)
    show ?thesis
    proof (cases "strategy = DISABLEMENT \<and> fr_tuning compiled")
      case True
      with Some rest obtain s2 where "deleted_or_reported env sysdig (ref_uuid r) t s2 = (Inr (), s')"
        by (auto simp: effect_Inr)
      from deleted_or_reported_settles [OF this assms(3)] True show ?thesis unfolding after by simp
    next
      case False
      with Some rest have "update_on_sysdig vendor client compiled policies strategy i d s1 = (Inr (), s')"
        by (simp split: if_splits)
      then have "dr_world s' = dr_world s"
        using silent.keeps_run [OF keeps_update_on_sysdig] same by (metis same_world_def)
      with assms(2) i False show ?thesis unfolding after by (auto simp: planned_ok_def)
    qed
  qed
qed

lemma deploy_api_Inr:
  assumes "deploy_api env index vendor client tenant strategies r a s = (Inr (), s')" "\<not> flagged (dr_world s')"
  obtains block strategy compiled where "mdr_block r = Some block" "check_status (du_statuses env) (sg_status block) = Inr strategy"
    "compile_falco_rule index r block strategy (sy_tags tenant) = Inr compiled"
    "act_on_sysdig env vendor client (ref_uuid r) (sy_name tenant) compiled (block_policies tenant block compiled)
       strategy strategies a s = (Inr (), s')"
proof -
  from assms(1) obtain block strategy compiled where b: "mdr_block r = Some block"
      "check_status (du_statuses env) (sg_status block) = Inr strategy"
      "compile_falco_rule index r block strategy (sy_tags tenant) = Inr compiled"
    and c: "catching (act_on_sysdig env vendor client (ref_uuid r) (sy_name tenant) compiled (block_policies tenant block compiled)
       strategy strategies a) (\<lambda>e. if ex_class e = Rule_Error
         then Some (sysdig_error ''sysdig_request_failed'' (ref_uuid r) (ex_text e)) else None) s = (Inr (), s')"
    by (auto simp: deploy_api_def effect_Inr split: option.splits sum.splits)
  have "\<not> sysdig_error ev u m t = (Inr (), s')" for ev u m t
    using assms(2) by (auto simp: sysdig_error_def on_world_def update_state_def flagged_def on_events_def set_env_def)
  with c that [OF b] show thesis by (auto simp: catching_Inr split: if_splits)
qed


section \<open>A refused token\<close>

definition refused_at :: "sd_vendor \<Rightarrow> SdRequest list \<Rightarrow> SdRequest \<Rightarrow> bool" where
  "refused_at vendor calls q = (case vendor calls q of Inr r \<Rightarrow> is_refusal r | Inl _ \<Rightarrow> False)"

text \<open>None of the requests, sent one after the other, is refused.\<close>

fun all_heard :: "sd_vendor \<Rightarrow> SdRequest list \<Rightarrow> SdRequest list \<Rightarrow> bool" where
  "all_heard vendor calls [] = True"
| "all_heard vendor calls (q # qs) = (\<not> refused_at vendor calls q \<and> all_heard vendor (calls @ [q]) qs)"

lemma all_heard_append: "all_heard vendor c (a @ b) \<longleftrightarrow> all_heard vendor c a \<and> all_heard vendor (c @ a) b"
  by (induction a arbitrary: c) simp_all

text \<open>Only the last request is refused.\<close>

definition ends_refused :: "sd_vendor \<Rightarrow> SdRequest list \<Rightarrow> SdRequest list \<Rightarrow> bool" where
  "ends_refused vendor calls new = (new \<noteq> [] \<and> all_heard vendor calls (butlast new) \<and> refused_at vendor (calls @ butlast new) (last new))"

lemma ends_refused_append: "all_heard vendor c a \<Longrightarrow> ends_refused vendor (c @ a) b \<Longrightarrow> ends_refused vendor c (a @ b)"
  by (simp add: ends_refused_def all_heard_append butlast_append)

definition heeds :: "sd_vendor \<Rightarrow> 'a sd_deploy \<Rightarrow> bool" where
  "heeds vendor m =
     (\<forall>s r s'. m s = (r, s') \<longrightarrow> (\<exists>new. dr_calls s' = dr_calls s @ new
        \<and> (all_heard vendor (dr_calls s) new
           \<or> ends_refused vendor (dr_calls s) new \<and> (\<exists>e. r = Inl e \<and> ex_class e = Tenant_Error))))"

named_theorems heeding \<open>effects that stop at a refused token\<close>

lemma heeds_silent: "(\<And>s. dr_calls (snd (m s)) = dr_calls s) \<Longrightarrow> heeds vendor m"
  unfolding heeds_def by (metis all_heard.simps(1) append.right_neutral snd_conv)

lemma heeds_basic [heeding]:
  "heeds vendor (ret x)" "heeds vendor (raise e)" "heeds vendor (on_world f)" "heeds vendor (ask_world (\<lambda>w. (g w, w)))"
  "heeds vendor (created_or_reported env p u t i)" "heeds vendor (deleted_or_reported env p u t)" "heeds vendor (known_id_of a)"
  by (rule heeds_silent; simp add: ret_def raise_def on_world_def update_state_def ask_world_def created_or_reported_def
      deleted_or_reported_def known_id_of_def split: option.split)+

lemma heeds_lift [heeding]: "heeds vendor (lift_sum r)"
  by (cases r) (simp_all add: heeding)

lemma heeds_andthen [heeding]:
  assumes "heeds vendor m" "\<And>x. heeds vendor (f x)"
  shows "heeds vendor (andthen m f)"
  unfolding heeds_def
proof (intro allI impI)
  fix s r s' assume run: "andthen m f s = (r, s')"
  obtain r1 s1 where m: "m s = (r1, s1)" by force
  with assms(1) obtain new where new: "dr_calls s1 = dr_calls s @ new"
    "all_heard vendor (dr_calls s) new \<or> ends_refused vendor (dr_calls s) new \<and> (\<exists>e. r1 = Inl e \<and> ex_class e = Tenant_Error)"
    unfolding heeds_def by blast
  show "\<exists>new. dr_calls s' = dr_calls s @ new \<and> (all_heard vendor (dr_calls s) new
     \<or> ends_refused vendor (dr_calls s) new \<and> (\<exists>e. r = Inl e \<and> ex_class e = Tenant_Error))"
  proof (cases r1)
    case (Inl e)
    with run m have "r = Inl e" "s' = s1" by (simp_all add: andthen_def)
    with new Inl show ?thesis by auto
  next
    case (Inr x)
    with run m have "f x s1 = (r, s')" by (simp add: andthen_def)
    with assms(2) [of x] obtain more where more: "dr_calls s' = dr_calls s1 @ more"
      "all_heard vendor (dr_calls s1) more \<or> ends_refused vendor (dr_calls s1) more \<and> (\<exists>e. r = Inl e \<and> ex_class e = Tenant_Error)"
      unfolding heeds_def by blast
    moreover have "all_heard vendor (dr_calls s) new" using new(2) Inr by simp
    ultimately show ?thesis using new(1) ends_refused_append
      by (intro exI [of _ "new @ more"]) (auto simp: all_heard_append)
  qed
qed

lemma heeds_each [heeding]: "(\<And>x. heeds vendor (f x)) \<Longrightarrow> heeds vendor (each f xs)"
  by (induction xs) (auto intro!: heeding)

lemma heeds_send [heeding]: "heeds vendor (sd_send vendor client verb path body)"
  unfolding heeds_def
proof (intro allI impI)
  fix s r s' assume run: "sd_send vendor client verb path body s = (r, s')"
  let ?q = "SdRequest verb (sd_url client @ path) body"
  have "dr_calls s' = dr_calls s @ [?q]"
    using run by (auto simp: sd_send_def andthen_def send_def ret_def raise_def split: sum.splits if_splits)
  moreover have "\<exists>e. r = Inl e \<and> ex_class e = Tenant_Error" if "refused_at vendor (dr_calls s) ?q"
    using run that by (auto simp: sd_send_def andthen_def send_def raise_def refused_at_def token_refused_def exn_def split: sum.splits)
  ultimately show "\<exists>new. dr_calls s' = dr_calls s @ new \<and> (all_heard vendor (dr_calls s) new
     \<or> ends_refused vendor (dr_calls s) new \<and> (\<exists>e. r = Inl e \<and> ex_class e = Tenant_Error))"
    by (intro exI [of _ "[?q]"]) (auto simp: ends_refused_def)
qed

text \<open>A handler that leaves refusals alone.\<close>

lemma heeds_catching:
  assumes "heeds vendor m" "\<And>e. ex_class e = Tenant_Error \<Longrightarrow> h e = None" "\<And>e k. h e = Some k \<Longrightarrow> heeds vendor k"
  shows "heeds vendor (catching m h)"
  unfolding heeds_def
proof (intro allI impI)
  fix s r s' assume run: "catching m h s = (r, s')"
  obtain r1 s1 where m: "m s = (r1, s1)" by force
  with assms(1) obtain new where new: "dr_calls s1 = dr_calls s @ new"
    "all_heard vendor (dr_calls s) new \<or> ends_refused vendor (dr_calls s) new \<and> (\<exists>e. r1 = Inl e \<and> ex_class e = Tenant_Error)"
    unfolding heeds_def by blast
  show "\<exists>new. dr_calls s' = dr_calls s @ new \<and> (all_heard vendor (dr_calls s) new
     \<or> ends_refused vendor (dr_calls s) new \<and> (\<exists>e. r = Inl e \<and> ex_class e = Tenant_Error))"
  proof (cases "\<exists>e k. r1 = Inl e \<and> h e = Some k")
    case True
    then obtain e k where ek: "r1 = Inl e" "h e = Some k" by blast
    with run m have "k s1 = (r, s')" by (simp add: catching_def)
    with assms(3) [OF ek(2)] obtain more where more: "dr_calls s' = dr_calls s1 @ more"
      "all_heard vendor (dr_calls s1) more \<or> ends_refused vendor (dr_calls s1) more \<and> (\<exists>e. r = Inl e \<and> ex_class e = Tenant_Error)"
      unfolding heeds_def by blast
    moreover have "all_heard vendor (dr_calls s) new" using new(2) ek assms(2) by auto
    ultimately show ?thesis using new(1) ends_refused_append
      by (intro exI [of _ "new @ more"]) (auto simp: all_heard_append)
  next
    case False
    with run m have "r = r1" "s' = s1" by (auto simp: catching_def split: sum.splits option.splits)
    with new show ?thesis by auto
  qed
qed


lemma heeds_json [heeding]: "heeds vendor (sd_json response action)"
  by (auto simp: sd_json_def intro: heeding split: option.split)

lemma heeds_rules [heeding]:
  "heeds vendor (sd_create_rule vendor client b)" "heeds vendor (sd_get_rule vendor client i)"
  "heeds vendor (sd_update_rule vendor client i b)" "heeds vendor (sd_delete_rule vendor client i)"
  unfolding sd_create_rule_def sd_get_rule_def sd_update_rule_def sd_delete_rule_def by (auto intro!: heeding)

lemma heeds_edit_policies [heeding]: "heeds vendor (edit_policies vendor client edit names)"
proof -
  have "heeds vendor (sd_update_policy vendor client policy)" for policy
    unfolding sd_update_policy_def by (auto intro!: heeding split: option.split)
  then have "heeds vendor (edit_policy vendor client edit policy)" for policy
    unfolding edit_policy_def by (auto intro!: heeding split: option.split)
  moreover have "heeds vendor (sd_list_policies vendor client)"
    unfolding sd_list_policies_def by (auto intro!: heeding split: pyval.split)
  ultimately show ?thesis
    unfolding edit_policies_def named_policies_def Let_def by (auto intro!: heeding)
qed

lemma heeds_rule_policies [heeding]:
  "heeds vendor (join_policies vendor client n names)" "heeds vendor (leave_policies vendor client n names)"
  "heeds vendor (rename_in_policies vendor client n m names)"
  unfolding join_policies_def leave_policies_def rename_in_policies_def by (auto intro!: heeding)

lemma heeds_create [heeding]: "heeds vendor (create_on_sysdig env vendor client u t compiled policies)"
  unfolding create_on_sysdig_def by (auto intro!: heeding)

lemma heeds_recreate [heeding]:
  "heeds vendor (recreate_on_sysdig env vendor client u t compiled policies strategy strategies)"
  unfolding recreate_on_sysdig_def sysdig_warning_def by (auto intro!: heeding split: option.split)

lemma heeds_update [heeding]: "heeds vendor (update_on_sysdig vendor client compiled policies strategy i d)"
  unfolding update_on_sysdig_def by (auto intro!: heeding split: option.split pyval.split)

lemma heeds_act [heeding]:
  "heeds vendor (act_on_sysdig env vendor client u t compiled policies strategy strategies a)"
  unfolding act_on_sysdig_def by (auto intro!: heeding split: action_kind.split option.split)

lemma heeds_deploy_api: "heeds vendor (deploy_api env index vendor client tenant strategies rule a)"
  unfolding deploy_api_def sysdig_error_def
  by (auto intro!: heeding heeds_catching split: option.split sum.split if_splits)

text \<open>The loop: a refusal ends it, and is reported.\<close>

lemma rule_or_stop_refused:
  assumes "rule_or_stop tenant body s = (r, s')" "heeds vendor body"
  shows "\<exists>new. dr_calls s' = dr_calls s @ new
    \<and> (all_heard vendor (dr_calls s) new
       \<or> ends_refused vendor (dr_calls s) new \<and> r = Inr False \<and> flagged (dr_world s'))"
proof -
  obtain r1 s1 where body: "body s = (r1, s1)" by force
  with assms(2) obtain new where new: "dr_calls s1 = dr_calls s @ new"
    "all_heard vendor (dr_calls s) new \<or> ends_refused vendor (dr_calls s) new \<and> (\<exists>e. r1 = Inl e \<and> ex_class e = Tenant_Error)"
    unfolding heeds_def by blast
  have "dr_calls s' = dr_calls s1"
    using assms(1) body
    by (auto simp: rule_or_stop_def catching_def andthen_def ret_def on_world_def update_state_def split: sum.splits if_splits)
  moreover have "r = Inr False \<and> flagged (dr_world s')" if "r1 = Inl e" "ex_class e = Tenant_Error" for e
    using assms(1) body that
    by (auto simp: rule_or_stop_def catching_def andthen_def ret_def on_world_def update_state_def stops_tenant_def
        flagged_def on_events_def set_env_def)
  ultimately show ?thesis using new by auto
qed

lemma deploying_run:
  assumes "deploying p t i n m s = (r, s')"
  obtains s1 s2 where "m s1 = (r, s2)" "dr_calls s1 = dr_calls s" "dr_calls s' = dr_calls s2"
    "flagged (dr_world s') \<longleftrightarrow> flagged (dr_world s2)"
  using assms
  by (auto simp: deploying_def andthen_def on_world_def update_state_def Let_def on_events_def flagged_def split: prod.splits)

lemma loop_refused:
  assumes "deploy_rules_sysdig tenant deploy_rule planned s = (r, s')"
    and "\<And>rule a. heeds vendor (deploy_rule rule a)"
  shows "\<exists>new. dr_calls s' = dr_calls s @ new
    \<and> (all_heard vendor (dr_calls s) new
       \<or> ends_refused vendor (dr_calls s) new \<and> r = Inr () \<and> flagged (dr_world s'))"
  using assms(1)
proof (induction planned arbitrary: s)
  case Nil
  then show ?case by (intro exI [of _ "[]"]) (simp add: ret_def)
next
  case (Cons x planned)
  obtain rule a where x: "x = (rule, a)" by force
  let ?one = "deploying sysdig (sy_name tenant) (ref_uuid rule) (ref_name rule) (rule_or_stop tenant (deploy_rule rule a))"
  obtain r1 s1 where one: "?one s = (r1, s1)" by force
  then obtain t1 t2 where t: "rule_or_stop tenant (deploy_rule rule a) t1 = (r1, t2)" "dr_calls t1 = dr_calls s"
    "dr_calls s1 = dr_calls t2" "flagged (dr_world s1) \<longleftrightarrow> flagged (dr_world t2)"
    by (rule deploying_run)
  with rule_or_stop_refused [OF t(1) assms(2)] obtain new where new: "dr_calls s1 = dr_calls s @ new"
    "all_heard vendor (dr_calls s) new \<or> ends_refused vendor (dr_calls s) new \<and> r1 = Inr False \<and> flagged (dr_world s1)"
    by auto
  show ?case
  proof (cases "r1 = Inr True")
    case True
    with Cons.prems one have "deploy_rules_sysdig tenant deploy_rule planned s1 = (r, s')"
      by (simp add: x andthen_def)
    from Cons.IH [OF this] obtain more where more: "dr_calls s' = dr_calls s1 @ more"
      "all_heard vendor (dr_calls s1) more \<or> ends_refused vendor (dr_calls s1) more \<and> r = Inr () \<and> flagged (dr_world s')"
      by blast
    moreover have "all_heard vendor (dr_calls s) new" using new(2) True by simp
    ultimately show ?thesis using new(1) ends_refused_append
      by (intro exI [of _ "new @ more"]) (auto simp: all_heard_append)
  next
    case False
    with Cons.prems one have "s' = s1" "r1 = Inr False \<longrightarrow> r = Inr ()"
      by (auto simp: x andthen_def ret_def split: sum.splits)
    with new show ?thesis by auto
  qed
qed

section \<open>Properties\<close>

text \<open>
  C39: A refused token ends a Sysdig tenant at once: of the requests a tenant's run sends, either none is answered 401 or
  403, or exactly the last one is; then the run comes back without an exception, with the error flag raised, so that no
  other rule is tried with a token the tenant has refused.
\<close>

theorem refused_token_ends_the_tenant:
  "let (r, s') = deploy_api_tenant env index vendor strategies tenant rules s in
     \<exists>new. dr_calls s' = dr_calls s @ new
       \<and> (all_heard vendor (dr_calls s) new
          \<or> ends_refused vendor (dr_calls s) new \<and> r = Inr () \<and> w_env (dr_world s') error_flag \<noteq> None)"
proof -
  obtain r s' where run: "deploy_api_tenant env index vendor strategies tenant rules s = (r, s')" by force
  obtain r1 s1 where screen: "screened env strategies sysdig (sy_name tenant) (\<lambda>r. map_option sg_status (mdr_block r)) rules s = (r1, s1)"
    by force
  have calls: "dr_calls s1 = dr_calls s"
    using screen by (auto simp: screened_def andthen_def ask_world_def ret_def raise_def split: prod.splits sum.splits if_splits)
  show ?thesis
  proof (cases "\<exists>planned. r1 = Inr planned \<and> planned \<noteq> [] \<and> (\<exists>b. tenant_tls_verify (sy_ssl tenant) = Inr b)")
    case True
    then obtain planned b where p: "r1 = Inr planned" "planned \<noteq> []" "tenant_tls_verify (sy_ssl tenant) = Inr b" by blast
    with run screen have "deploy_rules_sysdig tenant (deploy_api env index vendor
        \<lparr>sd_url = strip_url (sy_url tenant), sd_tenant = sy_name tenant\<rparr> tenant strategies) planned s1 = (r, s')"
      by (simp add: deploy_api_tenant_def andthen_def ret_def)
    from loop_refused [OF this heeds_deploy_api] calls run show ?thesis by (simp add: flagged_def)
  next
    case False
    then have "dr_calls s' = dr_calls s"
      using run screen calls
      by (cases "tenant_tls_verify (sy_ssl tenant)")
        (auto simp: deploy_api_tenant_def andthen_def ret_def raise_def split: sum.splits if_splits)
    then show ?thesis by (simp add: run)
  qed
qed

text \<open>
  C38: What a Sysdig deploy leaves recorded: when a planned rule is deployed without the error flag, the id in its shard
  is exactly known. After a create it is the id the tenant answered to the POST of the rule's payload, in the form
  shards keep; after a delete there is none; after an update it is the id the rule was planned with when the tenant
  still has that rule, and the id answered to the POST that creates it anew when the tenant answers 404. A disabled
  rule that the tenant does not have, or that is a tuning rule, has none. The shards of all other rules are as they
  were.
\<close>

theorem sysdig_ids_follow_the_tenant:
  assumes "deploy_api env index vendor client tenant strategies rule action s = (Inr (), s')"
    and "planned_ok sysdig (sy_name tenant) (rule, action) (dr_world s)"
    and "w_env (dr_world s') error_flag = None"
  shows "\<exists>block strategy compiled st. mdr_block rule = Some block
    \<and> check_status (du_statuses env) (sg_status block) = Inr strategy
    \<and> compile_falco_rule index rule block strategy (sy_tags tenant) = Inr compiled
    \<and> load_state (w_dir (dr_world s')) (PStr (ref_uuid rule)) = Inr st
    \<and> id_after vendor client compiled strategy action s s' (state_get st sysdig (sy_name tenant))
    \<and> (\<forall>v. canonical_uuid (PStr v) = canonical_uuid (PStr (ref_uuid rule))
         \<or> load_state (w_dir (dr_world s')) (PStr v) = load_state (w_dir (dr_world s)) (PStr v))"
proof -
  have clean: "\<not> flagged (dr_world s')" using assms(3) by (simp add: flagged_def)
  obtain block strategy compiled where b: "mdr_block rule = Some block"
    "check_status (du_statuses env) (sg_status block) = Inr strategy"
    "compile_falco_rule index rule block strategy (sy_tags tenant) = Inr compiled"
    and act: "act_on_sysdig env vendor client (ref_uuid rule) (sy_name tenant) compiled (block_policies tenant block compiled)
       strategy strategies action s = (Inr (), s')"
    by (rule deploy_api_Inr [OF assms(1) clean])
  moreover have "only_shard (ref_uuid rule) s s'"
    by (rule shard.keeps_run [OF keeps_deploy_api assms(1)])
  ultimately show ?thesis using act_keeps_id [OF act assms(2) clean] by (auto simp: only_shards_def)
qed

text \<open>
  A created Sysdig rule is put into its policies: after the POST of its payload the policies are read once, and for
  each named policy in turn a PUT is sent exactly when the policy does not name the rule yet, with its other keys as
  they were read and the name of the rule appended to the names it had.
\<close>

theorem created_rule_joins_its_policies:
  assumes "create_on_sysdig env vendor client object_uuid tenant compiled policies s = (Inr (), s')" "policies \<noteq> []"
  shows "\<exists>body ps. api_body compiled = Inr body \<and> map (\<lambda>p. py_str (dget_none p ''name'')) ps = policies
    \<and> dr_calls s' = dr_calls s
      @ [SdRequest ''POST'' (sd_url client @ rules_path) (Some (PDict body)), SdRequest ''GET'' (sd_url client @ policies_path) None]
      @ concat (map (\<lambda>p. case policy_rules p of
            Inl _ \<Rightarrow> []
          | Inr rules \<Rightarrow>
              if PStr (fr_name compiled) \<in> set rules then []
              else [policy_put client p (rules @ [PStr (fr_name compiled)])]) ps)"
proof -
  have edit: "policy_edit client (joined (fr_name compiled)) = (\<lambda>p. case policy_rules p of
            Inl _ \<Rightarrow> []
          | Inr rules \<Rightarrow>
              if PStr (fr_name compiled) \<in> set rules then []
              else [policy_put client p (rules @ [PStr (fr_name compiled)])])"
    by (auto simp: fun_eq_iff policy_edit_def joined_def split: sum.split)
  obtain body ps where b: "api_body compiled = Inr body" "map (\<lambda>p. py_str (dget_none p ''name'')) ps = policies"
    "dr_calls s' = dr_calls s
      @ [SdRequest ''POST'' (sd_url client @ rules_path) (Some (PDict body)), SdRequest ''GET'' (sd_url client @ policies_path) None]
      @ concat (map (policy_edit client (joined (fr_name compiled))) ps)"
    by (rule create_calls [OF assms])
  show ?thesis
    unfolding edit [symmetric] using b by (intro exI [of _ body] exI [of _ ps]) simp
qed


definition sample_client :: SysdigClient where
  "sample_client = \<lparr>sd_url = ''https://s'', sd_tenant = ''Prod''\<rparr>"

definition sample_sysdig_tenant :: SysdigTenant where
  "sample_sysdig_tenant = \<lparr>sy_name = ''Prod'', sy_url = ''https://s/'', sy_ssl = PBool True, sy_policies = Some [''P''], sy_tags = None\<rparr>"

definition sample_policy :: pydict where
  "sample_policy = [(PStr ''id'', PInt 1), (PStr ''name'', PStr ''P''), (PStr ''ruleNames'', PList [PStr ''Other''])]"

definition sample_sysdig :: sd_vendor where
  "sample_sysdig calls q = Inr (case q of
     SdRequest verb url body \<Rightarrow>
       \<lparr>hr_status = 200,
        hr_json = Some (if verb = ''POST'' then jobj [(''id'', PInt 42)] else if verb = ''GET'' then PList [PDict sample_policy] else PDict []),
        hr_text = [], hr_content_type = []\<rparr>)"

definition sample_falco :: FalcoRule where
  "sample_falco = \<lparr>fr_uuid = uuid_str 7, fr_name = ''Rule'', fr_tuning = False, fr_condition = Some ''(b exists) and a in (B)'',
     fr_exceptions = [], fr_desc = ''d'', fr_output = ''Rule'' @ the (map_of default_output_fields ''syscall''),
     fr_priority = ''INFORMATIONAL'', fr_source = ''syscall'', fr_tags = [''maturity_stable''],
     fr_minimum_engine_version = None\<rparr>"

lemma sample_falco_compiles: "compile_falco_rule sample_index sample_sysdig_rule sample_sysdig_block RELEASE None = Inr sample_falco"
  by code_simp


lemma sample_created:
  obtains s' where "create_on_sysdig sample_env sample_sysdig sample_client (uuid_str 7) ''Prod'' sample_falco [''P''] sample_run
      = (Inr (), s')"
    "w_env (dr_world s') error_flag = None"
proof -
  have "sysdig \<in> set state_platforms" "normalise_external_id sysdig (PInt 42) = Inr (nat_str 42)"
    by (simp_all add: sysdig_def state_platforms_def normalise_external_id.simps int_str_def)
  from sample_record_for [OF this] obtain dir' where
    rec: "record_external_id True (PStr (uuid_str 7)) sysdig ''Prod'' (PInt 42) [] = Inr (nat_str 42, dir')" .
  have body: "\<exists>b. api_body sample_falco = Inr b"
    by (simp add: api_body_def sample_falco_def api_priority_def Let_def)
  have policy: "dget sample_policy ''id'' = Some (PInt 1)" "dget_none sample_policy ''name'' = PStr ''P''"
    "policy_rules sample_policy = Inr [PStr ''Other'']"
    by (simp_all add: sample_policy_def policy_rules_def dget_none_def dget_def)
  have put: "\<exists>calls. sd_update_policy sample_sysdig sample_client (with_rules sample_policy rules) s
      = (Inr (), s\<lparr>dr_calls := calls\<rparr>)" for rules and s :: "SdRequest DeployRun"
    by (simp add: sd_update_policy_def with_rules_def policy andthen_def sd_send_def send_def sample_sysdig_def is_refusal_def
        sd_json_def json_dict_def ret_def) (rule exI, rule refl)
  have edit: "\<exists>calls. edit_policy sample_sysdig sample_client (joined n) sample_policy s = (Inr (), s\<lparr>dr_calls := calls\<rparr>)"
    for n and s :: "SdRequest DeployRun"
  proof (cases "n = ''Other''")
    case True
    then show ?thesis by (intro exI [of _ "dr_calls s"]) (simp add: edit_policy_def policy joined_def andthen_def ret_def)
  next
    case False
    with put show ?thesis by (simp add: edit_policy_def policy joined_def andthen_def ret_def)
  qed
  have named: "\<exists>calls. named_policies sample_sysdig sample_client [''P''] s = (Inr [sample_policy], s\<lparr>dr_calls := calls\<rparr>)"
    for s :: "SdRequest DeployRun"
    by (simp add: named_policies_def sd_list_policies_def andthen_def sd_send_def send_def sample_sysdig_def is_refusal_def
        sd_json_def policies_in_def map_filter_simps by_name_def policy ret_def) (rule exI, rule refl)
  have join: "\<exists>calls. join_policies sample_sysdig sample_client n [''P''] s = (Inr (), s\<lparr>dr_calls := calls\<rparr>)"
    for n and s :: "SdRequest DeployRun"
  proof -
    from named obtain c1 where "named_policies sample_sysdig sample_client [''P''] s = (Inr [sample_policy], s\<lparr>dr_calls := c1\<rparr>)" by blast
    moreover from edit obtain c2 where "edit_policy sample_sysdig sample_client (joined n) sample_policy (s\<lparr>dr_calls := c1\<rparr>)
        = (Inr (), s\<lparr>dr_calls := c1\<rparr>\<lparr>dr_calls := c2\<rparr>)" by blast
    ultimately show ?thesis
      by (simp add: join_policies_def edit_policies_def andthen_def ret_def) (rule exI, rule refl)
  qed
  from body obtain b where b: "api_body sample_falco = Inr b" by blast
  obtain s1 where made: "sd_create_rule sample_sysdig sample_client b sample_run = (Inr [(PStr ''id'', PInt 42)], s1)"
    and s1: "dr_world s1 = sample_world"
    by (simp add: sd_create_rule_def andthen_def sd_send_def send_def sample_sysdig_def is_refusal_def sd_json_def json_dict_def
        jobj_def ret_def sample_run_def)
  obtain s2 where rec2: "created_or_reported sample_env sysdig (uuid_str 7) ''Prod'' (PInt 42) s1 = (Inr (), s2)"
    "w_env (dr_world s2) = Map.empty"
    using rec by (simp add: created_or_reported_def record_created_def on_world_def update_state_def s1 sample_world_def
        sample_env_def log_line_def)
  from join obtain c where j: "join_policies sample_sysdig sample_client (fr_name sample_falco) [''P''] s2 = (Inr (), s2\<lparr>dr_calls := c\<rparr>)"
    by blast
  have "create_on_sysdig sample_env sample_sysdig sample_client (uuid_str 7) ''Prod'' sample_falco [''P''] sample_run
      = (Inr (), s2\<lparr>dr_calls := c\<rparr>)"
    using b made rec2 j by (simp add: create_on_sysdig_def andthen_def ret_def dget_none_def dget_def)
  with rec2(2) that show thesis by simp
qed

theorem created_rule_joins_its_policies_witness:
  "\<exists>s' body ps. create_on_sysdig sample_env sample_sysdig sample_client (uuid_str 7) ''Prod'' sample_falco [''P''] sample_run = (Inr (), s')
    \<and> map (\<lambda>p. py_str (dget_none p ''name'')) ps = [''P''] \<and> hd (dr_calls s') = SdRequest ''POST'' ''https://s/api/secure/rules'' body"
proof -
  obtain s' where run: "create_on_sysdig sample_env sample_sysdig sample_client (uuid_str 7) ''Prod'' sample_falco [''P''] sample_run = (Inr (), s')"
    by (rule sample_created)
  have "[''P''] \<noteq> []" by simp
  from created_rule_joins_its_policies [OF run this] obtain body ps rest where
    ps: "map (\<lambda>p. py_str (dget_none p ''name'')) ps = [''P'']"
      "dr_calls s' = dr_calls sample_run @ [SdRequest ''POST'' (sd_url sample_client @ rules_path) (Some (PDict body)),
         SdRequest ''GET'' (sd_url sample_client @ policies_path) None] @ rest"
    by (elim exE conjE) (rule that)
  have "hd (dr_calls s') = SdRequest ''POST'' ''https://s/api/secure/rules'' (Some (PDict body))"
    using ps(2) by (simp add: sample_client_def rules_path_def sample_run_def)
  with run ps(1) show ?thesis by (intro exI conjI)
qed

lemma sample_answer:
  assumes "answered_id sample_sysdig client compiled s s' ident"
  shows "ident = nat_str 42"
  using assms
  by (auto simp: answered_id_def sample_sysdig_def json_dict_def jobj_def dget_none_def dget_def normalise_external_id.simps
      int_str_def)

theorem sysdig_ids_follow_the_tenant_witness:
  "\<exists>s'. deploy_api sample_env sample_index sample_sysdig sample_client sample_sysdig_tenant None sample_sysdig_rule
       \<lparr>act_kind = Create, act_id = None\<rparr> sample_run = (Inr (), s')
    \<and> (\<exists>st. load_state (w_dir (dr_world s')) (PStr (uuid_str 7)) = Inr st
         \<and> state_get st sysdig ''Prod'' = Some (nat_str 42))"
proof -
  obtain s' where run: "create_on_sysdig sample_env sample_sysdig sample_client (uuid_str 7) ''Prod'' sample_falco [''P''] sample_run = (Inr (), s')"
    and ok: "w_env (dr_world s') error_flag = None"
    by (rule sample_created)
  have fields: "mdr_block sample_sysdig_rule = Some sample_sysdig_block" "ref_uuid sample_sysdig_rule = uuid_str 7" "sg_status sample_sysdig_block = ''PRODUCTION''"
    "sy_name sample_sysdig_tenant = ''Prod''" "sy_tags sample_sysdig_tenant = None"
    "block_policies sample_sysdig_tenant sample_sysdig_block sample_falco = [''P'']"
    "check_status (du_statuses sample_env) ''PRODUCTION'' = Inr RELEASE"
    by (simp_all add: sample_sysdig_rule_def sample_sysdig_block_def sample_sysdig_tenant_def block_policies_def sample_falco_def
        list_or_empty_def sample_env_def)
  have deployed: "deploy_api sample_env sample_index sample_sysdig sample_client sample_sysdig_tenant None sample_sysdig_rule
       \<lparr>act_kind = Create, act_id = None\<rparr> sample_run = (Inr (), s')"
    using run by (simp add: deploy_api_def fields sample_falco_compiles act_on_sysdig_def catching_def)
  have "planned_ok sysdig (sy_name sample_sysdig_tenant) (sample_sysdig_rule, \<lparr>act_kind = Create, act_id = None\<rparr>) (dr_world (sample_run :: SdRequest DeployRun))"
    by (simp add: planned_ok_def fields sample_run_def sample_world_def sample_load state_get_def empty_state_def tenants_of_def)
  from sysdig_ids_follow_the_tenant [OF deployed this ok] obtain st ident where
    "load_state (w_dir (dr_world s')) (PStr (uuid_str 7)) = Inr st" "state_get st sysdig ''Prod'' = Some ident"
    "answered_id sample_sysdig sample_client sample_falco sample_run s' ident"
    by (auto simp: fields id_after_def sample_falco_compiles)
  moreover have "ident = nat_str 42" using calculation(3) by (rule sample_answer)
  ultimately show ?thesis using deployed by blast
qed

end
