(* ===== verification/Object_Relations.thy ===== *)
theory Object_Relations
  imports Strategies
begin

text \<open>
  \<open>generation/framework.py\<close>: the objects of a repository as a graph. A rule names the objective or the signal
  it implements, a signal its objective, an objective the threats it detects. The catalogue is
  \<open>Opentide.Models.Index\<close>: for each type, the objects by uuid. A value of a shape that the schemas of the
  objects refuse is the error \<open>Bad_Shape\<close>; the recursion of Python ends at a depth, an argument here, with
  \<open>Recursion_Limit\<close>. The cache of \<open>childs\<close> is keyed by the identity of the catalogue, so it is a function
  of the catalogue.
\<close>

section \<open>Types\<close>

datatype relation_error =
    Missing_Object string
  | Missing_Schema string
  | Missing_Key string
  | Bad_Shape
  | Recursion_Limit
  | Status_Error status_error

type_synonym objects = "(string \<times> pydict) list"

type_synonym catalogue = "(string \<times> objects) list"

definition objects_of :: "catalogue \<Rightarrow> string \<Rightarrow> objects" where
  "objects_of cat t = (case map_of cat t of None \<Rightarrow> [] | Some os \<Rightarrow> os)"

text \<open>\<open>FlatIndex\<close>: the types are merged in the order threat, objective, signal, rule, the last one wins.\<close>

definition flat_index :: "catalogue \<Rightarrow> string \<Rightarrow> pydict option" where
  "flat_index cat = map_of (concat (map (objects_of cat) [''rule'', ''signal'', ''objective'', ''threat'']))"

definition schema_type :: "pyval \<Rightarrow> relation_error + string" where
  "schema_type schema = (case schema of PStr s \<Rightarrow> Inr (hd (py_split ''::'' s)) | _ \<Rightarrow> Inl Bad_Shape)"

definition schema_of :: "pydict \<Rightarrow> relation_error + pyval" where
  "schema_of body =
     (case dget body ''metadata'' of
        None \<Rightarrow> Inr PNone
      | Some (PDict m) \<Rightarrow> Inr (dget_none m ''schema'')
      | _ \<Rightarrow> Inl Bad_Shape)"

definition get_type :: "catalogue \<Rightarrow> string \<Rightarrow> relation_error + string" where
  "get_type cat u =
     (case flat_index cat u of
        Some (e # body) \<Rightarrow>
          rbind (schema_of (e # body)) (\<lambda>schema.
            if truthy schema then schema_type schema
            else if map_of (objects_of cat ''signal'') u \<noteq> None then Inr ''signal''
            else if truthy (dget_none (e # body) ''configurations'') then Inr ''rule''
            else Inl (Missing_Schema u))
      | _ \<Rightarrow> Inl (Missing_Object u))"

text \<open>\<open>mute=True\<close>: an object that is missing, or without a schema, has no type.\<close>

definition get_type_muted :: "catalogue \<Rightarrow> string \<Rightarrow> relation_error + string option" where
  "get_type_muted cat u =
     (case get_type cat u of
        Inr t \<Rightarrow> Inr (Some t)
      | Inl (Missing_Object _) \<Rightarrow> Inr None
      | Inl (Missing_Schema _) \<Rightarrow> Inr None
      | Inl e \<Rightarrow> Inl e)"

section \<open>References\<close>

definition dict_value :: "pyval \<Rightarrow> relation_error + pydict" where
  "dict_value v = (case v of PDict d \<Rightarrow> Inr d | _ \<Rightarrow> Inl Bad_Shape)"

definition text_value :: "pyval \<Rightarrow> relation_error + string" where
  "text_value v = (case v of PStr s \<Rightarrow> Inr s | _ \<Rightarrow> Inl Bad_Shape)"

definition text_values :: "pyval \<Rightarrow> relation_error + string list" where
  "text_values v = (case v of PList xs \<Rightarrow> rmap text_value xs | _ \<Rightarrow> Inl Bad_Shape)"

definition required_key :: "pydict \<Rightarrow> string \<Rightarrow> relation_error + pyval" where
  "required_key d k = (case dget d k of None \<Rightarrow> Inl (Missing_Key k) | Some v \<Rightarrow> Inr v)"

definition section_of :: "pydict \<Rightarrow> string \<Rightarrow> relation_error + pydict" where
  "section_of body name = rbind (required_key body name) dict_value"

definition object_body :: "catalogue \<Rightarrow> string \<Rightarrow> string \<Rightarrow> relation_error + pydict" where
  "object_body cat t u = (case map_of (objects_of cat t) u of None \<Rightarrow> Inl (Missing_Key u) | Some b \<Rightarrow> Inr b)"

text \<open>\<open>parents or []\<close>, a single uuid as a list of one.\<close>

definition parent_list :: "pyval \<Rightarrow> relation_error + string list" where
  "parent_list v =
     (if \<not> truthy v then Inr [] else case v of PStr s \<Rightarrow> Inr [s] | _ \<Rightarrow> text_values v)"

definition parents :: "catalogue \<Rightarrow> string \<Rightarrow> relation_error + string list" where
  "parents cat u =
     rbind (get_type cat u) (\<lambda>t.
       if t \<notin> {''objective'', ''signal'', ''rule''} \<or> objects_of cat t = [] then Inr []
       else rbind (object_body cat t u) (\<lambda>body.
         if t = ''objective'' then rbind (section_of body ''objective'') (\<lambda>s. parent_list (dget_none s ''threats''))
         else if t = ''signal'' then parent_list (dget_none body ''owner'')
         else rbind (parent_list (dget_none body ''detection_model'')) (\<lambda>ps.
           case find (\<lambda>p. p \<noteq> [] \<and> flat_index cat p = None) ps of
             Some p \<Rightarrow> Inl (Missing_Object p)
           | None \<Rightarrow> Inr ps)))"

section \<open>Children\<close>

record child_mapping =
  cm_child_types :: "string list"
  cm_sections :: "string list option"
  cm_references :: "string list"

definition child_relation_mappings :: "(string \<times> child_mapping) list" where
  "child_relation_mappings =
     [(''threat'', \<lparr>cm_child_types = [''objective''], cm_sections = Some [''detection'', ''objective''],
         cm_references = [''vectors'', ''threats'']\<rparr>),
      (''objective'', \<lparr>cm_child_types = [''signal'', ''rule''], cm_sections = None,
         cm_references = [''detection_model'', ''owner'']\<rparr>),
      (''signal'', \<lparr>cm_child_types = [''rule''], cm_sections = None, cm_references = [''detection_model'']\<rparr>)]"

definition referenced_uuids :: "pyval \<Rightarrow> string list" where
  "referenced_uuids v =
     (case v of PStr s \<Rightarrow> [s] | PList xs \<Rightarrow> List.map_filter as_str_val xs | _ \<Rightarrow> [])"

definition get_or_empty :: "pydict \<Rightarrow> string \<Rightarrow> relation_error + pydict" where
  "get_or_empty body name = (case dget body name of None \<Rightarrow> Inr [] | Some v \<Rightarrow> dict_value v)"

text \<open>The parents a child names under a mapping, in the order in which the traversal meets them.\<close>

definition named_by :: "child_mapping \<Rightarrow> pydict \<Rightarrow> relation_error + string list" where
  "named_by m body =
     (let of_dict = (\<lambda>d. concat (map (\<lambda>r. referenced_uuids (dget_none d r)) (cm_references m))) in
      case cm_sections m of
        None \<Rightarrow> Inr (of_dict body)
      | Some sections \<Rightarrow>
          rbind (rmap (\<lambda>s. rbind (get_or_empty body s) (\<lambda>d. Inr (of_dict d))) sections) (\<lambda>xs. Inr (concat xs)))"

definition child_candidates :: "catalogue \<Rightarrow> child_mapping \<Rightarrow> objects" where
  "child_candidates cat m = concat (map (objects_of cat) (cm_child_types m))"

definition mapping_pairs :: "catalogue \<Rightarrow> child_mapping \<Rightarrow> relation_error + (string \<times> string) list" where
  "mapping_pairs cat m =
     rbind (rmap (\<lambda>(child, body). rbind (named_by m body) (\<lambda>ps. Inr (map (\<lambda>p. (p, child)) ps))) (child_candidates cat m))
       (\<lambda>xs. Inr (concat xs))"

definition per_type :: "(string \<times> string) list \<Rightarrow> (string \<times> string list) list" where
  "per_type pairs = foldl (\<lambda>d (p, c). dappend p c d) [] pairs"

definition child_relation_index :: "catalogue \<Rightarrow> relation_error + (string \<times> (string \<times> string list) list) list" where
  "child_relation_index cat =
     rmap (\<lambda>(t, m). rbind (mapping_pairs cat m) (\<lambda>pairs. Inr (t, per_type pairs))) child_relation_mappings"

definition childs :: "catalogue \<Rightarrow> string \<Rightarrow> relation_error + string list" where
  "childs cat u =
     rbind (get_type cat u) (\<lambda>t.
       if t \<notin> fst ` set child_relation_mappings then Inr []
       else rbind (child_relation_index cat) (\<lambda>index.
         Inr (case map_of index t of None \<Rightarrow> [] | Some children \<Rightarrow> dget_list children u)))"

section \<open>Techniques\<close>

text \<open>\<open>techniques_resolver(model_id)\<close>, with the depth that is left.\<close>

fun techniques_resolver :: "catalogue \<Rightarrow> nat \<Rightarrow> bool \<Rightarrow> string \<Rightarrow> relation_error + string list" where
  "techniques_resolver cat 0 recursive u = Inl Recursion_Limit"
| "techniques_resolver cat (Suc n) recursive u =
     rbind (get_type cat u) (\<lambda>t.
       if objects_of cat t = [] then Inr []
       else rbind (object_body cat t u) (\<lambda>body.
         let upward = (\<lambda>parent.
               if \<not> truthy parent \<or> \<not> recursive then Inr []
               else rbind (text_value parent) (\<lambda>p. rbind (techniques_resolver cat n True p) (\<lambda>ts. Inr (from_keys ts))))
         in if t = ''rule'' then upward (dget_none body ''detection_model'')
            else if t = ''objective'' then
              rbind (section_of body ''objective'') (\<lambda>s.
                if truthy (dget_none s ''mitre_attack'')
                then rbind (text_values (dget_none s ''mitre_attack'')) (\<lambda>ts. Inr (from_keys ts))
                else if \<not> recursive \<or> \<not> truthy (dget_none s ''threats'') then Inr []
                else rbind (text_values (dget_none s ''threats'')) (\<lambda>ps.
                     rbind (rmap (techniques_resolver cat n True) ps) (\<lambda>tss. Inr (from_keys (concat tss)))))
            else if t = ''signal'' then upward (dget_none body ''owner'')
            else if t = ''threat'' then
              rbind (section_of body ''threat'') (\<lambda>s. rbind (required_key s ''mitre_attack'') (\<lambda>v.
                rbind (text_values v) (\<lambda>ts. Inr (from_keys ts))))
            else Inr []))"

section \<open>Trees of relations\<close>

text \<open>What a uuid stands for in the trees: nothing, a list of rules, or a dict.\<close>

datatype relation_tree = No_Relations | Uuids "string list" | Tree "(string \<times> relation_tree) list"

definition deprecated_strategies :: "StatusStrategy list" where
  "deprecated_strategies = [DELETION, DISABLEMENT]"

text \<open>\<open>check_status(system_data["status"])\<close> of every block of a rule.\<close>

definition block_strategy :: "DeploymentStatus list \<Rightarrow> pyval \<Rightarrow> relation_error + StatusStrategy" where
  "block_strategy statuses block =
     rbind (dict_value block) (\<lambda>d. rbind (required_key d ''status'') (\<lambda>v. rbind (text_value v) (\<lambda>s.
       case check_status statuses s of Inl e \<Rightarrow> Inl (Status_Error e) | Inr x \<Rightarrow> Inr x)))"

definition is_active :: "DeploymentStatus list \<Rightarrow> pydict \<Rightarrow> relation_error + bool" where
  "is_active statuses body =
     (let v = dget_none body ''configurations'' in
      if \<not> truthy v then Inr True
      else rbind (dict_value v) (\<lambda>blocks. rbind (rmap (\<lambda>(_, b). block_strategy statuses b) blocks) (\<lambda>ss.
             Inr (list_all (\<lambda>s. s \<notin> set deprecated_strategies) ss))))"

text \<open>A uuid that is not in the rule index is logged and left out.\<close>

definition keep_active_rules :: "catalogue \<Rightarrow> DeploymentStatus list \<Rightarrow> string list \<Rightarrow> relation_error + string list" where
  "keep_active_rules cat statuses rules =
     rbind (rmap (\<lambda>u. case map_of (objects_of cat ''rule'') u of
                 None \<Rightarrow> Inr []
               | Some body \<Rightarrow> rbind (is_active statuses body) (\<lambda>active. Inr (if active then [u] else []))) rules)
       (\<lambda>xs. Inr (concat xs))"

fun relations_downstream :: "catalogue \<Rightarrow> DeploymentStatus list \<Rightarrow> nat \<Rightarrow> string \<Rightarrow> relation_error + relation_tree" where
  "relations_downstream cat statuses 0 u = Inl Recursion_Limit"
| "relations_downstream cat statuses (Suc n) u =
     rbind (get_type cat u) (\<lambda>t.
     rbind (childs cat u) (\<lambda>cs.
       if t = ''signal'' then rbind (keep_active_rules cat statuses cs) (\<lambda>rs. Inr (Uuids rs))
       else if t = ''objective'' then
         rbind (rfold (\<lambda>tree c. rbind (get_type cat c) (\<lambda>ct.
             if ct = ''signal'' then rbind (relations_downstream cat statuses n c) (\<lambda>sub. Inr (AList.update c sub tree))
             else if ct = ''rule'' then Inr (AList.update c No_Relations tree)
             else Inr tree)) [] cs) (\<lambda>tree. Inr (Tree tree))
       else rbind (rfold (\<lambda>tree c. rbind (relations_downstream cat statuses n c) (\<lambda>sub. Inr (AList.update c sub tree))) [] cs)
              (\<lambda>tree. Inr (Tree tree))))"

fun relations_upstream :: "catalogue \<Rightarrow> nat \<Rightarrow> string \<Rightarrow> relation_error + relation_tree" where
  "relations_upstream cat 0 u = Inl Recursion_Limit"
| "relations_upstream cat (Suc n) u =
     rbind (get_type cat u) (\<lambda>t.
       if t = ''threat'' then Inr (Uuids [])
       else rbind (parents cat u) (\<lambda>ps.
         rbind (rfold (\<lambda>tree p. rbind (relations_upstream cat n p) (\<lambda>sub. Inr (AList.update p sub tree))) [] ps)
           (\<lambda>tree. Inr (Tree tree))))"

section \<open>Flat relations\<close>

fun recursive_items :: "relation_tree \<Rightarrow> (string \<times> relation_tree) list" where
  "recursive_items (Tree items) = concat (map (\<lambda>(k, v). (k, v) # recursive_items v) items)"
| "recursive_items _ = []"

definition add_all :: "string \<Rightarrow> string list \<Rightarrow> (string \<times> string list) list \<Rightarrow> (string \<times> string list) list" where
  "add_all t us flat = AList.update t (dget_list flat t @ us) flat"

definition flat_item ::
  "catalogue \<Rightarrow> (string \<times> string list) list \<Rightarrow> string \<times> relation_tree \<Rightarrow> relation_error + (string \<times> string list) list" where
  "flat_item cat flat = (\<lambda>(k, v).
     rbind (if k = [] then Inr flat else rbind (get_type cat k) (\<lambda>t. Inr (add_all t [k] flat))) (\<lambda>flat'.
       case v of
         Uuids (u # us) \<Rightarrow> rbind (get_type cat u) (\<lambda>t. Inr (add_all t (u # us) flat'))
       | _ \<Rightarrow> Inr flat'))"

definition flat_tree :: "catalogue \<Rightarrow> relation_tree \<Rightarrow> relation_error + (string \<times> string list) list" where
  "flat_tree cat tree =
     (case tree of
        Uuids (u # us) \<Rightarrow> rbind (get_type cat u) (\<lambda>t. Inr [(t, u # us)])
      | Tree items \<Rightarrow> rfold (flat_item cat) [] (recursive_items tree)
      | _ \<Rightarrow> Inr [])"

datatype relations_direction = Upstream | Downstream

text \<open>\<open>listed\<close> is \<open>list(set(v))\<close>, whose order is not stated.\<close>

definition flat_relations ::
  "catalogue \<Rightarrow> DeploymentStatus list \<Rightarrow> (string list \<Rightarrow> string list) \<Rightarrow> nat \<Rightarrow> string \<Rightarrow> relations_direction
    \<Rightarrow> relation_error + (string \<times> string list) list" where
  "flat_relations cat statuses listed n u direction =
     rbind (case direction of Upstream \<Rightarrow> relations_upstream cat n u | Downstream \<Rightarrow> relations_downstream cat statuses n u) (\<lambda>tree.
     rbind (flat_tree cat tree) (\<lambda>flat.
       let flat = map (\<lambda>(k, v). (k, listed v)) flat in
       if dget_list flat ''rule'' = [] then Inr flat
       else rbind (keep_active_rules cat statuses (dget_list flat ''rule'')) (\<lambda>active.
              Inr (AList.update ''rule'' active flat))))"

text \<open>\<open>dict.update\<close>\<close>

definition dict_update :: "('k \<times> 'v) list \<Rightarrow> ('k \<times> 'v) list \<Rightarrow> ('k \<times> 'v) list" where
  "dict_update d d' = foldl (\<lambda>acc (k, v). AList.update k v acc) d d'"

definition relations_list ::
  "catalogue \<Rightarrow> DeploymentStatus list \<Rightarrow> (string list \<Rightarrow> string list) \<Rightarrow> nat \<Rightarrow> string \<Rightarrow> relations_direction option
    \<Rightarrow> relation_error + (string \<times> string list) list" where
  "relations_list cat statuses listed n u direction =
     (case direction of
        Some d \<Rightarrow> flat_relations cat statuses listed n u d
      | None \<Rightarrow>
          rbind (flat_relations cat statuses listed n u Downstream) (\<lambda>down.
          rbind (flat_relations cat statuses listed n u Upstream) (\<lambda>up. Inr (dict_update down up))))"

definition relations_count :: "(string \<times> string list) list \<Rightarrow> (string \<times> nat) list" where
  "relations_count flat = map (\<lambda>(k, v). (k, length v)) flat"


section \<open>The index of children and the scan it replaces\<close>

text \<open>Between the index and the scan: every candidate, for one parent, as often as it names the parent.\<close>

definition childs_scan :: "catalogue \<Rightarrow> child_mapping \<Rightarrow> string \<Rightarrow> relation_error + string list" where
  "childs_scan cat m u =
     rbind (rmap (\<lambda>(child, body). rbind (named_by m body) (\<lambda>ps. Inr (replicate (count_list ps u) child)))
              (child_candidates cat m)) (\<lambda>xs. Inr (concat xs))"

lemma per_type_get: "dget_list (per_type pairs) p = map snd (filter (\<lambda>(q, c). q = p) pairs)"
proof -
  have "dget_list (foldl (\<lambda>d (p, c). dappend p c d) d pairs) p = dget_list d p @ map snd (filter (\<lambda>(q, c). q = p) pairs)" for d
    by (induction pairs arbitrary: d) (auto split: prod.split)
  from this [of "[]"] show ?thesis by (simp add: per_type_def)
qed

lemma pairs_of_child: "map snd (filter (\<lambda>(q, c). q = u) (map (\<lambda>p. (p, child)) ps)) = replicate (count_list ps u) child"
  by (induction ps) auto

lemma pairs_scan:
  "rmap (\<lambda>(child, body). rbind (named_by m body) (\<lambda>ps. Inr (map (\<lambda>p. (p, child)) ps))) os = Inr xs \<Longrightarrow>
   \<exists>ys. rmap (\<lambda>(child, body). rbind (named_by m body) (\<lambda>ps. Inr (replicate (count_list ps u) child))) os = Inr ys
     \<and> concat ys = map snd (filter (\<lambda>(q, c). q = u) (concat xs))"
proof (induction os arbitrary: xs)
  case Nil
  then show ?case by simp
next
  case (Cons ob os)
  obtain child body where ob: "ob = (child, body)" by force
  with Cons.prems obtain ps xs' where named: "named_by m body = Inr ps" and xs: "xs = map (\<lambda>p. (p, child)) ps # xs'"
    and rest: "rmap (\<lambda>(child, body). rbind (named_by m body) (\<lambda>ps. Inr (map (\<lambda>p. (p, child)) ps))) os = Inr xs'"
    by (auto simp: rbind_def split: sum.splits)
  from Cons.IH [OF rest] obtain ys where
    "rmap (\<lambda>(child, body). rbind (named_by m body) (\<lambda>ps. Inr (replicate (count_list ps u) child))) os = Inr ys"
    "concat ys = map snd (filter (\<lambda>(q, c). q = u) (concat xs'))" by blast
  then show ?case by (simp add: ob named xs pairs_of_child)
qed

lemma index_entry:
  "rmap (\<lambda>(t, m). rbind (h m) (\<lambda>x. Inr (t, g x))) ms = Inr index \<Longrightarrow> map_of ms t = Some m \<Longrightarrow>
     \<exists>x. h m = Inr x \<and> map_of index t = Some (g x)"
  by (induction ms arbitrary: index) (auto simp: rbind_def split: sum.splits if_splits)

lemma childs_scan_Inr:
  assumes "child_relation_index cat = Inr index" "get_type cat u = Inr t" "map_of child_relation_mappings t = Some m"
  shows "childs cat u = childs_scan cat m u"
proof -
  have "t \<in> fst ` set child_relation_mappings" using assms(3) by (metis domI dom_map_of_conv_image_fst)
  moreover obtain pairs where p: "mapping_pairs cat m = Inr pairs" "map_of index t = Some (per_type pairs)"
    using index_entry [OF assms(1) [unfolded child_relation_index_def] assms(3)] by blast
  ultimately have c: "childs cat u = Inr (map snd (filter (\<lambda>(q, c). q = u) pairs))"
    by (simp add: childs_def assms per_type_get)
  from p(1) obtain xs where xs: "pairs = concat xs"
    and run: "rmap (\<lambda>(child, body). rbind (named_by m body) (\<lambda>ps. Inr (map (\<lambda>p. (p, child)) ps))) (child_candidates cat m) = Inr xs"
    by (auto simp: mapping_pairs_def rbind_Inr)
  from pairs_scan [OF run, of u] c xs show ?thesis by (auto simp: childs_scan_def)
qed

lemma childs_Inr:
  assumes "childs cat u = Inr cs" "get_type cat u = Inr t" "map_of child_relation_mappings t = Some m"
  shows "childs_scan cat m u = Inr cs"
proof -
  have "t \<in> fst ` set child_relation_mappings" using assms(3) by (metis domI dom_map_of_conv_image_fst)
  with assms obtain index where "child_relation_index cat = Inr index"
    by (auto simp: childs_def rbind_Inr)
  from childs_scan_Inr [OF this assms(2,3)] assms(1) show ?thesis by simp
qed

lemma childs_scan_candidates:
  assumes "childs_scan cat m u = Inr cs" "c \<in> set cs"
  shows "\<exists>body. (c, body) \<in> set (child_candidates cat m)"
proof -
  from assms obtain xs x where run: "rmap (\<lambda>(child, body). rbind (named_by m body) (\<lambda>ps. Inr (replicate (count_list ps u) child)))
      (child_candidates cat m) = Inr xs" "x \<in> set xs" "c \<in> set x"
    by (auto simp: childs_scan_def rbind_Inr)
  from rmap_Inr_set [OF run(1,2)] run(3) show ?thesis by (fastforce simp: rbind_Inr)
qed

text \<open>
  \<open>_reference_childs\<close> of \<open>test_childs_relation_index.py\<close>: the traversal before the index, which the repository keeps
  as its oracle. A child is listed once for every section and reference whose value contains the uuid; Python's
  \<open>in\<close> is a substring test for a bare string, and an error for a number or \<open>None\<close>.
\<close>

definition contains_uuid :: "string \<Rightarrow> pyval option \<Rightarrow> relation_error + bool" where
  "contains_uuid u v =
     (case v of
        None \<Rightarrow> Inr False
      | Some (PStr s) \<Rightarrow> Inr (contains_str u s)
      | Some (PList xs) \<Rightarrow> Inr (PStr u \<in> set xs)
      | Some (PDict d) \<Rightarrow> Inr (PStr u \<in> fst ` set d)
      | _ \<Rightarrow> Inl Bad_Shape)"

definition listed_under :: "string \<Rightarrow> string \<Rightarrow> string list \<Rightarrow> pydict \<Rightarrow> relation_error + string list" where
  "listed_under u child references d =
     rbind (rmap (\<lambda>r. rbind (contains_uuid u (dget d r)) (\<lambda>b. Inr (if b then [child] else []))) references)
       (\<lambda>xs. Inr (concat xs))"

definition reference_child :: "string \<Rightarrow> child_mapping \<Rightarrow> string \<times> pydict \<Rightarrow> relation_error + string list" where
  "reference_child u m = (\<lambda>(child, body).
     case cm_sections m of
       None \<Rightarrow> listed_under u child (cm_references m) body
     | Some sections \<Rightarrow>
         rbind (rmap (\<lambda>s. rbind (get_or_empty body s) (listed_under u child (cm_references m))) sections)
           (\<lambda>xs. Inr (concat xs)))"

definition reference_childs :: "catalogue \<Rightarrow> string \<Rightarrow> relation_error + string list" where
  "reference_childs cat u =
     rbind (get_type cat u) (\<lambda>t.
       case map_of child_relation_mappings t of
         None \<Rightarrow> Inr []
       | Some m \<Rightarrow> rbind (rmap (reference_child u m) (child_candidates cat m)) (\<lambda>xs. Inr (concat xs)))"

text \<open>
  The values a child has at the references of a mapping; how the uuid stands in them: as a list, or as a string that
  is the uuid or does not contain it; and in no list twice.
\<close>

definition reference_dicts :: "child_mapping \<Rightarrow> pydict \<Rightarrow> pydict list" where
  "reference_dicts m body =
     (case cm_sections m of
        None \<Rightarrow> [body]
      | Some sections \<Rightarrow> map (\<lambda>s. case get_or_empty body s of Inr d \<Rightarrow> d | Inl _ \<Rightarrow> []) sections)"

definition reference_values :: "child_mapping \<Rightarrow> pydict \<Rightarrow> pyval list" where
  "reference_values m body =
     concat (map (\<lambda>d. List.map_filter (dget d) (cm_references m)) (reference_dicts m body))"

definition plain_reference :: "string \<Rightarrow> pyval \<Rightarrow> bool" where
  "plain_reference u v =
     (case v of PStr s \<Rightarrow> s = u \<or> \<not> contains_str u s | PList xs \<Rightarrow> True | _ \<Rightarrow> False)"

definition single_reference :: "string \<Rightarrow> pyval \<Rightarrow> bool" where
  "single_reference u v = (case v of PList xs \<Rightarrow> count_list xs (PStr u) \<le> 1 | _ \<Rightarrow> True)"

definition all_references :: "(pyval \<Rightarrow> bool) \<Rightarrow> catalogue \<Rightarrow> string \<Rightarrow> bool" where
  "all_references P cat u =
     (case get_type cat u of
        Inl _ \<Rightarrow> True
      | Inr t \<Rightarrow>
          (case map_of child_relation_mappings t of
             None \<Rightarrow> True
           | Some m \<Rightarrow> list_all (\<lambda>(child, body). list_all P (reference_values m body)) (child_candidates cat m)))"

text \<open>The same children, and the same list when no parent is named twice.\<close>

definition same_children :: "bool \<Rightarrow> string list \<Rightarrow> string list \<Rightarrow> bool" where
  "same_children once cs rs \<longleftrightarrow> set rs = set cs \<and> (once \<longrightarrow> rs = cs)"

lemma same_children_concat: "list_all2 (same_children once) xs ys \<Longrightarrow> same_children once (concat xs) (concat ys)"
  by (induction xs ys rule: list_all2_induct) (auto simp: same_children_def)

lemma rmap_related:
  assumes "rmap f xs = Inr ys" and "\<And>x y. x \<in> set xs \<Longrightarrow> f x = Inr y \<Longrightarrow> \<exists>z. g x = Inr z \<and> R y z"
  shows "\<exists>zs. rmap g xs = Inr zs \<and> list_all2 R ys zs"
  using assms
proof (induction xs arbitrary: ys)
  case (Cons x xs)
  then obtain y ys' where y: "f x = Inr y" "rmap f xs = Inr ys'" "ys = y # ys'"
    by (auto simp: rbind_def split: sum.splits)
  obtain zs where "rmap g xs = Inr zs" "list_all2 R ys' zs" using Cons.IH [OF y(2)] Cons.prems(2) by auto
  moreover obtain z where "g x = Inr z" "R y z" using Cons.prems(2) y(1) by auto
  ultimately show ?case by (simp add: y(3))
qed simp

lemma count_texts: "count_list (List.map_filter as_str_val xs) u = count_list xs (PStr u)"
proof (induction xs)
  case (Cons x xs)
  then show ?case by (cases x) (simp_all add: List.map_filter_simps)
qed (simp add: List.map_filter_simps)

lemma starts_with_refl: "starts_with u u"
  by (induction u) simp_all

lemma contains_self: "contains_str u u"
  by (cases u) (simp_all add: starts_with_refl)

lemma one_reference:
  assumes "\<And>v. dget d r = Some v \<Longrightarrow> plain_reference u v \<and> (once \<longrightarrow> single_reference u v)"
  shows "\<exists>b. contains_uuid u (dget d r) = Inr b
    \<and> same_children once (replicate (count_list (referenced_uuids (dget_none d r)) u) child) (if b then [child] else [])"
proof (cases "dget d r")
  case None
  then show ?thesis
    by (intro exI [of _ False]) (simp add: contains_uuid_def dget_none_def referenced_uuids_def same_children_def)
next
  case (Some v)
  from assms [OF Some] Some show ?thesis
  proof (cases v)
    case (PList xs)
    have "count_list xs (PStr u) = 0 \<longleftrightarrow> PStr u \<notin> set xs" by (rule count_list_0_iff)
    with assms [OF Some] Some PList show ?thesis
      by (auto simp: contains_uuid_def dget_none_def referenced_uuids_def count_texts single_reference_def same_children_def
          le_Suc_eq)
  qed (auto simp: plain_reference_def contains_uuid_def dget_none_def referenced_uuids_def same_children_def contains_self)
qed

lemma one_dict:
  assumes "\<And>r v. r \<in> set refs \<Longrightarrow> dget d r = Some v \<Longrightarrow> plain_reference u v \<and> (once \<longrightarrow> single_reference u v)"
  shows "\<exists>rs. listed_under u child refs d = Inr rs
    \<and> same_children once (replicate (count_list (concat (map (\<lambda>r. referenced_uuids (dget_none d r)) refs)) u) child) rs"
  using assms
proof (induction refs)
  case (Cons r refs)
  obtain rs where rs: "listed_under u child refs d = Inr rs"
    "same_children once (replicate (count_list (concat (map (\<lambda>r. referenced_uuids (dget_none d r)) refs)) u) child) rs"
    using Cons by auto
  obtain b where "contains_uuid u (dget d r) = Inr b"
    "same_children once (replicate (count_list (referenced_uuids (dget_none d r)) u) child) (if b then [child] else [])"
    using one_reference [of d r u once child] Cons.prems by auto
  with rs show ?case
    by (auto simp: listed_under_def rbind_Inr same_children_def replicate_add intro: rbind_simps)
qed (simp add: listed_under_def same_children_def)

lemma one_child:
  assumes "named_by m body = Inr ps"
    and "\<And>v. v \<in> set (reference_values m body) \<Longrightarrow> plain_reference u v \<and> (once \<longrightarrow> single_reference u v)"
  shows "\<exists>rs. reference_child u m (child, body) = Inr rs \<and> same_children once (replicate (count_list ps u) child) rs"
proof -
  have plain_values: "plain_reference u v \<and> (once \<longrightarrow> single_reference u v)"
    if "d \<in> set (reference_dicts m body)" "r \<in> set (cm_references m)" "dget d r = Some v" for d r v
  proof (rule assms(2))
    have "v \<in> set (List.map_filter (dget d) (cm_references m))"
      using that by (force simp: List.map_filter_def)
    with that(1) show "v \<in> set (reference_values m body)" by (auto simp: reference_values_def)
  qed
  show ?thesis
  proof (cases "cm_sections m")
    case None
    then show ?thesis
      using assms(1) one_dict [of "cm_references m" body u once child] plain_values
      by (auto simp: named_by_def reference_child_def reference_dicts_def Let_def)
  next
    case (Some sections)
    let ?of = "\<lambda>d. concat (map (\<lambda>r. referenced_uuids (dget_none d r)) (cm_references m))"
    from assms(1) Some obtain pss where pss: "rmap (\<lambda>s. rbind (get_or_empty body s) (\<lambda>d. Inr (?of d))) sections = Inr pss"
      and ps: "ps = concat pss"
      by (auto simp: named_by_def rbind_Inr Let_def)
    have "\<exists>zs. rmap (\<lambda>s. rbind (get_or_empty body s) (listed_under u child (cm_references m))) sections = Inr zs
        \<and> list_all2 (\<lambda>ps zs. same_children once (replicate (count_list ps u) child) zs) pss zs"
    proof (rule rmap_related [OF pss])
      fix s p
      assume s: "s \<in> set sections" "rbind (get_or_empty body s) (\<lambda>d. Inr (?of d)) = Inr p"
      then obtain d where d: "get_or_empty body s = Inr d" "p = ?of d" by (auto simp: rbind_Inr)
      then have "d \<in> set (reference_dicts m body)" using s(1) by (force simp: reference_dicts_def Some)
      then show "\<exists>z. rbind (get_or_empty body s) (listed_under u child (cm_references m)) = Inr z
          \<and> same_children once (replicate (count_list p u) child) z"
        using one_dict [of "cm_references m" d u once child] plain_values by (auto simp: d)
    qed
    then obtain zs where zs: "rmap (\<lambda>s. rbind (get_or_empty body s) (listed_under u child (cm_references m))) sections = Inr zs"
      and all: "list_all2 (\<lambda>ps zs. same_children once (replicate (count_list ps u) child) zs) pss zs" by blast
    have "same_children once (replicate (count_list (concat pss) u) child) (concat zs)"
      using all by (induction pss zs rule: list_all2_induct) (auto simp: same_children_def replicate_add)
    with zs ps Some show ?thesis by (simp add: reference_child_def)
  qed
qed

text \<open>
  C40: The index of children answers what the traversal it replaced answers, which the repository keeps as its
  oracle: where every reference is a list, or a string that is the object's uuid or does not contain it, the oracle
  succeeds and has exactly the children of the index; and when no list of references names the object twice, the two
  lists are equal, in order and with repetitions.
\<close>

theorem childs_index_is_the_scan:
  assumes "childs cat u = Inr cs" and "all_references (plain_reference u) cat u"
  shows "\<exists>rs. reference_childs cat u = Inr rs \<and> set rs = set cs
    \<and> (all_references (single_reference u) cat u \<longrightarrow> rs = cs)"
proof -
  obtain t where t: "get_type cat u = Inr t" using assms(1) by (auto simp: childs_def rbind_Inr)
  show ?thesis
  proof (cases "map_of child_relation_mappings t")
    case None
    then have "t \<notin> fst ` set child_relation_mappings" by (simp add: map_of_eq_None_iff)
    with assms(1) None show ?thesis by (simp add: childs_def reference_childs_def t)
  next
    case (Some m)
    define once where "once = all_references (single_reference u) cat u"
    obtain xs where xs: "rmap (\<lambda>(child, body). rbind (named_by m body) (\<lambda>ps. Inr (replicate (count_list ps u) child)))
        (child_candidates cat m) = Inr xs" and cs: "cs = concat xs"
      using childs_Inr [OF assms(1) t Some] by (auto simp: childs_scan_def rbind_Inr)
    have "\<exists>zs. rmap (reference_child u m) (child_candidates cat m) = Inr zs \<and> list_all2 (same_children once) xs zs"
    proof (rule rmap_related [OF xs])
      fix ob y
      assume ob: "ob \<in> set (child_candidates cat m)"
        and y: "(case ob of (child, body) \<Rightarrow> rbind (named_by m body) (\<lambda>ps. Inr (replicate (count_list ps u) child))) = Inr y"
      obtain child body where b: "ob = (child, body)" by force
      with y obtain ps where ps: "named_by m body = Inr ps" "y = replicate (count_list ps u) child" by (auto simp: rbind_Inr)
      have "plain_reference u v \<and> (once \<longrightarrow> single_reference u v)" if "v \<in> set (reference_values m body)" for v
        using that ob b assms(2) by (auto simp: once_def all_references_def t Some list_all_iff)
      from one_child [OF ps(1) this, of child] show "\<exists>z. reference_child u m ob = Inr z \<and> same_children once y z"
        by (simp add: b ps(2))
    qed
    then obtain zs where zs: "rmap (reference_child u m) (child_candidates cat m) = Inr zs" "list_all2 (same_children once) xs zs"
      by blast
    then have "same_children once cs (concat zs)" by (simp add: cs same_children_concat)
    with zs(1) show ?thesis by (simp add: reference_childs_def t Some same_children_def once_def)
  qed
qed

section \<open>Techniques\<close>

text \<open>What an object has of a technique, through the objects it implements.\<close>

inductive gives :: "catalogue \<Rightarrow> string \<Rightarrow> string \<Rightarrow> bool" for cat where
  threat_gives: "get_type cat u = Inr ''threat'' \<Longrightarrow> object_body cat ''threat'' u = Inr body \<Longrightarrow> section_of body ''threat'' = Inr s
    \<Longrightarrow> dget s ''mitre_attack'' = Some (PList xs) \<Longrightarrow> PStr technique \<in> set xs \<Longrightarrow> gives cat u technique"
| objective_gives: "get_type cat u = Inr ''objective'' \<Longrightarrow> object_body cat ''objective'' u = Inr body \<Longrightarrow> section_of body ''objective'' = Inr s
    \<Longrightarrow> dget_none s ''mitre_attack'' = PList xs \<Longrightarrow> PStr technique \<in> set xs \<Longrightarrow> gives cat u technique"
| objective_inherits: "get_type cat u = Inr ''objective'' \<Longrightarrow> object_body cat ''objective'' u = Inr body \<Longrightarrow> section_of body ''objective'' = Inr s
    \<Longrightarrow> \<not> truthy (dget_none s ''mitre_attack'') \<Longrightarrow> dget_none s ''threats'' = PList ps \<Longrightarrow> PStr p \<in> set ps
    \<Longrightarrow> gives cat p technique \<Longrightarrow> gives cat u technique"
| rule_inherits: "get_type cat u = Inr ''rule'' \<Longrightarrow> object_body cat ''rule'' u = Inr body \<Longrightarrow> dget_none body ''detection_model'' = PStr p
    \<Longrightarrow> p \<noteq> [] \<Longrightarrow> gives cat p technique \<Longrightarrow> gives cat u technique"
| signal_inherits: "get_type cat u = Inr ''signal'' \<Longrightarrow> object_body cat ''signal'' u = Inr body \<Longrightarrow> dget_none body ''owner'' = PStr p
    \<Longrightarrow> p \<noteq> [] \<Longrightarrow> gives cat p technique \<Longrightarrow> gives cat u technique"

lemma gives_upward:
  assumes "get_type cat u = Inr t" "object_body cat t u = Inr body"
  shows "t = ''rule'' \<Longrightarrow> gives cat u x \<longleftrightarrow> (\<exists>p. dget_none body ''detection_model'' = PStr p \<and> p \<noteq> [] \<and> gives cat p x)"
    and "t = ''signal'' \<Longrightarrow> gives cat u x \<longleftrightarrow> (\<exists>p. dget_none body ''owner'' = PStr p \<and> p \<noteq> [] \<and> gives cat p x)"
  using assms by (auto intro: rule_inherits signal_inherits elim: gives.cases)

lemma gives_threat:
  assumes "get_type cat u = Inr ''threat''" "object_body cat ''threat'' u = Inr body" "section_of body ''threat'' = Inr s"
  shows "gives cat u x \<longleftrightarrow> (\<exists>xs. dget s ''mitre_attack'' = Some (PList xs) \<and> PStr x \<in> set xs)"
  using assms by (auto intro: threat_gives elim: gives.cases)

lemma gives_objective:
  assumes "get_type cat u = Inr ''objective''" "object_body cat ''objective'' u = Inr body" "section_of body ''objective'' = Inr s"
  shows "gives cat u x \<longleftrightarrow>
     (if truthy (dget_none s ''mitre_attack'') then \<exists>xs. dget_none s ''mitre_attack'' = PList xs \<and> PStr x \<in> set xs
      else \<exists>ps p. dget_none s ''threats'' = PList ps \<and> PStr p \<in> set ps \<and> gives cat p x)" (is "_ = ?rhs")
proof
  show "gives cat u x \<Longrightarrow> ?rhs"
    by (erule gives.cases) (use assms in \<open>fastforce+\<close>)
  show "?rhs \<Longrightarrow> gives cat u x"
    using assms by (auto intro: objective_gives objective_inherits split: if_splits)
qed

lemma gives_nothing:
  assumes "get_type cat u = Inr t" "objects_of cat t = [] \<or> t \<notin> {''rule'', ''signal'', ''objective'', ''threat''}"
  shows "\<not> gives cat u x"
  using assms by (auto simp: object_body_def elim: gives.cases)

lemma texts_Inr: "rmap text_value xs = Inr ts \<longleftrightarrow> xs = map PStr ts"
proof
  show "rmap text_value xs = Inr ts \<Longrightarrow> xs = map PStr ts"
    by (induction xs arbitrary: ts) (auto simp: text_value_def split: pyval.splits sum.splits)
  have "rmap text_value (map PStr ts) = Inr ts" by (induction ts) (simp_all add: text_value_def)
  then show "xs = map PStr ts \<Longrightarrow> rmap text_value xs = Inr ts" by simp
qed

lemma text_values_Inr: "text_values v = Inr ts \<longleftrightarrow> v = PList (map PStr ts)"
  by (auto simp: text_values_def texts_Inr split: pyval.splits)

lemma text_value_Inr: "text_value v = Inr s \<longleftrightarrow> v = PStr s"
  by (auto simp: text_value_def split: pyval.splits)

lemma object_body_objects: "object_body cat t u = Inr body \<Longrightarrow> objects_of cat t \<noteq> []"
  by (auto simp: object_body_def)

lemma from_keys_facts: "distinct (from_keys xs)" "set (from_keys xs) = set xs"
  by (simp_all add: from_keys_def)

lemma rmap_Inr_all: "rmap f xs = Inr ys \<Longrightarrow> x \<in> set xs \<Longrightarrow> \<exists>y \<in> set ys. f x = Inr y"
  by (induction xs arbitrary: ys) (auto split: sum.splits)

text \<open>
  C23: The techniques of an object are those of the objects it stands on: when they resolve, the list has no
  duplicates and holds exactly the techniques of its threats, of an objective its own when it names some, and of a rule
  or a signal those of the object it names.
\<close>

theorem techniques_are_those_given:
  assumes "techniques_resolver cat n True u = Inr ts"
  shows "distinct ts \<and> set ts = {t. gives cat u t}"
  using assms
proof (induction n arbitrary: u ts)
  case 0
  then show ?case by simp
next
  case (Suc n)
  from Suc.prems obtain t where t: "get_type cat u = Inr t" by (auto simp: rbind_Inr)
  show ?case
  proof (cases "objects_of cat t = [] \<or> t \<notin> {''rule'', ''signal'', ''objective'', ''threat''}")
    case True
    with Suc.prems t have "ts = []" by (auto simp: rbind_Inr Let_def split: if_splits)
    with gives_nothing [OF t True] show ?thesis by simp
  next
    case False
    with Suc.prems t obtain body where body: "object_body cat t u = Inr body" by (auto simp: rbind_Inr)
    have upward: "distinct ts \<and> set ts = {x. \<exists>p. parent = PStr p \<and> p \<noteq> [] \<and> gives cat p x}"
      if "(if \<not> truthy parent then Inr []
           else rbind (text_value parent) (\<lambda>p. rbind (techniques_resolver cat n True p) (\<lambda>ts. Inr (from_keys ts)))) = Inr ts"
      for parent
      using that by (auto simp: rbind_Inr text_value_Inr from_keys_facts dest: Suc.IH split: if_splits)
    consider (r) "t = ''rule''" | (s) "t = ''signal''" | (q) "t = ''objective''" | (h) "t = ''threat''" using False by blast
    then show ?thesis
    proof cases
      case r
      with upward [of "dget_none body ''detection_model''"] Suc.prems t body False gives_upward(1) [OF t body]
      show ?thesis by simp
    next
      case s
      with upward [of "dget_none body ''owner''"] Suc.prems t body False gives_upward(2) [OF t body]
      show ?thesis by simp
    next
      case q
      with Suc.prems t body False obtain s where s: "section_of body ''objective'' = Inr s"
        and run: "(if truthy (dget_none s ''mitre_attack'')
                then rbind (text_values (dget_none s ''mitre_attack'')) (\<lambda>ts. Inr (from_keys ts))
                else if \<not> truthy (dget_none s ''threats'') then Inr []
                else rbind (text_values (dget_none s ''threats'')) (\<lambda>ps.
                     rbind (rmap (techniques_resolver cat n True) ps) (\<lambda>tss. Inr (from_keys (concat tss))))) = Inr ts"
        by (auto simp: rbind_Inr cong: if_cong)
      note g = gives_objective [OF t [unfolded q] body [unfolded q] s]
      show ?thesis
      proof (cases "truthy (dget_none s ''mitre_attack'') \<or> \<not> truthy (dget_none s ''threats'')")
        case True
        with run g show ?thesis by (auto simp: rbind_Inr text_values_Inr from_keys_facts split: if_splits)
      next
        case False
        with run obtain ps tss where ps: "dget_none s ''threats'' = PList (map PStr ps)"
          "rmap (techniques_resolver cat n True) ps = Inr tss" "ts = from_keys (concat tss)"
          by (auto simp: rbind_Inr text_values_Inr)
        have "set (concat tss) = {x. \<exists>p \<in> set ps. gives cat p x}"
          using rmap_Inr_all [OF ps(2)] rmap_Inr_set [OF ps(2)] Suc.IH by fastforce
        with ps g False show ?thesis by (auto simp: from_keys_facts)
      qed
    next
      case h
      with Suc.prems t body False obtain s v where s: "section_of body ''threat'' = Inr s"
        and v: "dget s ''mitre_attack'' = Some v" "rbind (text_values v) (\<lambda>ts. Inr (from_keys ts)) = Inr ts"
        by (auto simp: rbind_Inr required_key_def split: option.splits)
      then show ?thesis
        using gives_threat [OF t [unfolded h] body [unfolded h] s] by (auto simp: rbind_Inr text_values_Inr from_keys_facts)
    qed
  qed
qed

section \<open>The recursions end\<close>

text \<open>Every object is of the type it is listed under, and a reference goes from a type to one below it.\<close>

definition typed_index :: "catalogue \<Rightarrow> bool" where
  "typed_index cat = (\<forall>t u body. (u, body) \<in> set (objects_of cat t) \<longrightarrow> u \<noteq> [] \<and> get_type cat u = Inr t)"

definition level :: "string \<Rightarrow> nat" where
  "level t = (if t = ''rule'' then 3 else if t = ''signal'' then 2 else if t = ''objective'' then 1 else 0)"

definition layered :: "catalogue \<Rightarrow> bool" where
  "layered cat = (\<forall>u t ps p t'. get_type cat u = Inr t \<longrightarrow> parents cat u = Inr ps \<longrightarrow> p \<in> set ps
     \<longrightarrow> get_type cat p = Inr t' \<longrightarrow> level t' < level t)"

definition ends :: "relation_error + 'a \<Rightarrow> bool" where
  "ends r = (r \<noteq> Inl Recursion_Limit)"

named_theorems ending \<open>results that are not the recursion limit\<close>

lemma ends_basic [ending]: "ends (Inr x)" "e \<noteq> Recursion_Limit \<Longrightarrow> ends (Inl e)"
  by (simp_all add: ends_def)

lemma ends_rbind [ending]: "ends m \<Longrightarrow> (\<And>x. m = Inr x \<Longrightarrow> ends (f x)) \<Longrightarrow> ends (rbind m f)"
  by (cases m) (simp_all add: ends_def)

lemma ends_rmap [ending]: "(\<And>x. x \<in> set xs \<Longrightarrow> ends (f x)) \<Longrightarrow> ends (rmap f xs)"
  by (induction xs) (auto simp: ends_def split: sum.splits)

lemma ends_rfold [ending]: "(\<And>s x. x \<in> set xs \<Longrightarrow> ends (f s x)) \<Longrightarrow> ends (rfold f s xs)"
  by (induction xs arbitrary: s) (auto simp: ends_def split: sum.splits)

lemma ends_shapes [ending]:
  "ends (dict_value v)" "ends (text_value v)" "ends (text_values v)" "ends (required_key d k)" "ends (section_of body k)"
  "ends (object_body cat t u)" "ends (parent_list v)" "ends (get_or_empty body k)" "ends (schema_type v)" "ends (schema_of body)"
proof -
  show a: "ends (dict_value v)" "ends (text_value v)" "ends (required_key d k)" "ends (object_body cat t u)" "ends (schema_type v)" "ends (schema_of body)"
    for v d k cat t u body
    by (auto simp: dict_value_def text_value_def required_key_def object_body_def schema_type_def schema_of_def
        split: pyval.split option.split intro!: ending)
  show b: "ends (text_values v)" for v by (auto simp: text_values_def split: pyval.split intro!: ending a)
  show "ends (section_of body k)" "ends (get_or_empty body k)"
    by (auto simp: section_of_def get_or_empty_def split: option.split intro!: ending a)
  show "ends (parent_list v)" by (auto simp: parent_list_def split: pyval.split intro!: ending b)
qed

lemma ends_type [ending]: "ends (get_type cat u)"
  by (auto simp: get_type_def split: option.split list.split intro!: ending)

lemma ends_childs [ending]: "ends (childs cat u)"
  by (auto simp: childs_def child_relation_index_def mapping_pairs_def named_by_def Let_def intro!: ending
      split: option.split prod.split)

lemma ends_parents [ending]: "ends (parents cat u)"
  by (auto simp: parents_def intro!: ending split: option.split)

lemma ends_active [ending]: "ends (keep_active_rules cat statuses rules)"
  by (auto simp: keep_active_rules_def is_active_def block_strategy_def Let_def intro!: ending split: option.split prod.split sum.split)

lemma no_parents: "get_type cat u = Inr t \<Longrightarrow> level t = 0 \<Longrightarrow> parents cat u = Inr []"
  by (auto simp: parents_def level_def split: if_splits)

lemma parent_below:
  assumes "layered cat" "get_type cat u = Inr t" "parents cat u = Inr ps" "p \<in> set ps" "level t < Suc n"
  shows "0 < n" "get_type cat p = Inr t' \<Longrightarrow> level t' < n"
proof -
  have "0 < level t" using no_parents [OF assms(2)] assms(3,4) by (cases "level t = 0") auto
  with assms(5) show "0 < n" by simp
  show "level t' < n" if "get_type cat p = Inr t'"
    using assms that unfolding layered_def by fastforce
qed

lemma upstream_ends:
  assumes "layered cat"
  shows "(\<And>t. get_type cat u = Inr t \<Longrightarrow> level t < n) \<Longrightarrow> 0 < n \<Longrightarrow> ends (relations_upstream cat n u)"
proof (induction n arbitrary: u)
  case 0
  then show ?case by simp
next
  case (Suc n)
  have "ends (relations_upstream cat n p)" if t: "get_type cat u = Inr t" and "parents cat u = Inr ps" "p \<in> set ps" for t ps p
    using parent_below [OF assms t that(2,3) Suc.prems(1) [OF t]] by (intro Suc.IH)
  then show ?case by (auto intro!: ending)
qed

text \<open>An object that the resolver reads next is a parent, or missing.\<close>

lemma rule_reference:
  "get_type cat u = Inr ''rule'' \<Longrightarrow> objects_of cat ''rule'' \<noteq> [] \<Longrightarrow> object_body cat ''rule'' u = Inr body
    \<Longrightarrow> dget_none body ''detection_model'' = PStr p \<Longrightarrow> p \<noteq> [] \<Longrightarrow> parents cat u = Inr [p] \<or> flat_index cat p = None"
  by (auto simp: parents_def parent_list_def)

lemma signal_reference:
  "get_type cat u = Inr ''signal'' \<Longrightarrow> objects_of cat ''signal'' \<noteq> [] \<Longrightarrow> object_body cat ''signal'' u = Inr body
    \<Longrightarrow> dget_none body ''owner'' = PStr p \<Longrightarrow> p \<noteq> [] \<Longrightarrow> parents cat u = Inr [p]"
  by (auto simp: parents_def parent_list_def)

lemma objective_references:
  "get_type cat u = Inr ''objective'' \<Longrightarrow> objects_of cat ''objective'' \<noteq> [] \<Longrightarrow> object_body cat ''objective'' u = Inr body
    \<Longrightarrow> section_of body ''objective'' = Inr s \<Longrightarrow> text_values (dget_none s ''threats'') = Inr ps
    \<Longrightarrow> truthy (dget_none s ''threats'') \<Longrightarrow> parents cat u = Inr ps"
  by (auto simp: parents_def parent_list_def text_values_Inr)

lemma missing_ends: "flat_index cat p = None \<Longrightarrow> 0 < n \<Longrightarrow> ends (techniques_resolver cat n r p)"
  by (cases n) (auto simp: get_type_def intro!: ending)

lemma resolver_ends:
  assumes "layered cat"
  shows "(\<And>t. get_type cat u = Inr t \<Longrightarrow> level t < n) \<Longrightarrow> 0 < n \<Longrightarrow> ends (techniques_resolver cat n r u)"
proof (induction n arbitrary: u r)
  case 0
  then show ?case by simp
next
  case (Suc n)
  have up: "ends (techniques_resolver cat n True p)"
    if t: "get_type cat u = Inr t" and "parents cat u = Inr ps \<and> p \<in> set ps \<or> flat_index cat p = None \<and> 0 < level t" for t ps p
    using that(2)
  proof (elim disjE conjE)
    assume "parents cat u = Inr ps" "p \<in> set ps"
    from parent_below [OF assms t this Suc.prems(1) [OF t]] show ?thesis by (intro Suc.IH)
  next
    assume "flat_index cat p = None" "0 < level t"
    with Suc.prems(1) [OF t] missing_ends show ?thesis by fastforce
  qed
  have upward: "ends (if \<not> truthy parent \<or> \<not> r then Inr []
               else rbind (text_value parent) (\<lambda>p. rbind (techniques_resolver cat n True p) (\<lambda>ts. Inr (from_keys ts))))"
    if "\<And>p. parent = PStr p \<Longrightarrow> p \<noteq> [] \<Longrightarrow> ends (techniques_resolver cat n True p)" for parent
    using that by (auto simp: text_value_Inr intro!: ending)
  show ?case
  proof (cases "get_type cat u")
    case (Inl e)
    with ends_type [of cat u] show ?thesis by (simp add: ends_def)
  next
    case (Inr t)
    show ?thesis
    proof (cases "objects_of cat t = []")
      case True
      with Inr show ?thesis by (simp add: ending)
    next
      case objects: False
      show ?thesis
      proof (cases "object_body cat t u")
        case (Inl e)
        with ends_shapes(6) [of cat t u] Inr objects show ?thesis by (simp add: ends_def)
      next
        case body: (Inr body)
        have from_rule: "ends (techniques_resolver cat n True p)"
          if "t = ''rule''" "dget_none body ''detection_model'' = PStr p" "p \<noteq> []" for p
          using rule_reference [of cat u body p] Inr objects body that up [OF Inr, of "[p]" p] by (auto simp: level_def)
        have from_signal: "ends (techniques_resolver cat n True p)"
          if "t = ''signal''" "dget_none body ''owner'' = PStr p" "p \<noteq> []" for p
          using signal_reference [of cat u body p] Inr objects body that up [OF Inr, of "[p]" p] by auto
        have from_objective: "ends (techniques_resolver cat n True p)"
          if "t = ''objective''" "section_of body ''objective'' = Inr s" "text_values (dget_none s ''threats'') = Inr ps"
            "truthy (dget_none s ''threats'')" "p \<in> set ps" for s ps p
          using objective_references [of cat u body s ps] Inr objects body that up [OF Inr, of ps p] by auto
        consider "t = ''rule''" | "t = ''signal''" | "t = ''objective''" | "t = ''threat''"
          | "t \<notin> {''rule'', ''signal'', ''objective'', ''threat''}" by blast
        then show ?thesis
        proof cases
          case 1
          with upward [OF from_rule] Inr objects body show ?thesis by simp
        next
          case 2
          with upward [OF from_signal] Inr objects body show ?thesis by simp
        next
          case 3
          have "ends (if truthy (dget_none s ''mitre_attack'')
                then rbind (text_values (dget_none s ''mitre_attack'')) (\<lambda>ts. Inr (from_keys ts))
                else if \<not> r \<or> \<not> truthy (dget_none s ''threats'') then Inr []
                else rbind (text_values (dget_none s ''threats'')) (\<lambda>ps.
                     rbind (rmap (techniques_resolver cat n True) ps) (\<lambda>tss. Inr (from_keys (concat tss)))))"
            if "section_of body ''objective'' = Inr s" for s
            using from_objective [OF 3 that] by (auto intro!: ending)
          with 3 Inr objects body show ?thesis by (simp add: ends_rbind ends_shapes)
        next
          case 4
          have "ends (rbind (section_of body ''threat'') (\<lambda>s. rbind (required_key s ''mitre_attack'') (\<lambda>v.
                rbind (text_values v) (\<lambda>ts. Inr (from_keys ts)))))"
            by (intro ends_rbind ends_shapes ends_basic)
          with 4 Inr objects body show ?thesis by simp
        next
          case 5
          with Inr objects body show ?thesis by (simp add: ends_basic)
        qed
      qed
    qed
  qed
qed

lemma child_type:
  assumes "typed_index cat" "childs cat u = Inr cs" "get_type cat u = Inr t" "c \<in> set cs"
  shows "t = ''threat'' \<and> get_type cat c = Inr ''objective'' \<or> t = ''objective'' \<and> get_type cat c \<in> {Inr ''signal'', Inr ''rule''}
    \<or> t = ''signal'' \<and> get_type cat c = Inr ''rule''"
    and "c \<noteq> []"
proof -
  have "t \<in> fst ` set child_relation_mappings" using assms by (auto simp: childs_def split: if_splits)
  then obtain m where m: "map_of child_relation_mappings t = Some m"
    by (auto simp: child_relation_mappings_def)
  obtain body where b: "(c, body) \<in> set (child_candidates cat m)"
    using childs_scan_candidates [OF childs_Inr [OF assms(2,3) m] assms(4)] by blast
  have typed: "v \<noteq> []" "get_type cat v = Inr k" if "(v, b) \<in> set (objects_of cat k)" for v b k
    using assms(1) that unfolding typed_index_def by blast+
  show "t = ''threat'' \<and> get_type cat c = Inr ''objective'' \<or> t = ''objective'' \<and> get_type cat c \<in> {Inr ''signal'', Inr ''rule''}
    \<or> t = ''signal'' \<and> get_type cat c = Inr ''rule''" "c \<noteq> []"
    using m b by (auto simp: child_relation_mappings_def child_candidates_def dest: typed split: if_splits)
qed

definition height :: "string \<Rightarrow> nat" where
  "height t = (if t = ''threat'' then 3 else if t = ''objective'' then 2 else if t = ''signal'' then 1 else 0)"

lemma downstream_ends:
  assumes "typed_index cat"
  shows "(\<And>t. get_type cat u = Inr t \<Longrightarrow> height t < n) \<Longrightarrow> 0 < n \<Longrightarrow> ends (relations_downstream cat statuses n u)"
proof (induction n arbitrary: u)
  case 0
  then show ?case by simp
next
  case (Suc n)
  have "ends (relations_downstream cat statuses n c)"
    if t: "get_type cat u = Inr t" and "childs cat u = Inr cs" "c \<in> set cs" "t \<noteq> ''signal''" for t cs c
    using child_type(1) [OF assms that(2,1,3)] that(4) Suc.prems(1) [OF t]
    by (intro Suc.IH) (auto simp: height_def split: if_splits)
  then show ?case by (auto intro!: ending)
qed

lemma level_bound: "level t < 4" "height t < 4"
  by (simp_all add: level_def height_def)

text \<open>
  C26: In a repository whose references go from a rule to a signal, an objective or a threat, and so downward, no
  walk over the objects recurses for ever: a depth of four is enough for the techniques of every object, for the tree
  upstream of it and for the tree downstream of it.
\<close>

theorem walks_over_objects_end:
  assumes "layered cat" "typed_index cat" "4 \<le> n"
  shows "techniques_resolver cat n r u \<noteq> Inl Recursion_Limit \<and> relations_upstream cat n u \<noteq> Inl Recursion_Limit
    \<and> relations_downstream cat statuses n u \<noteq> Inl Recursion_Limit"
proof -
  have "level t < n" "height t < n" for t using level_bound [of t] assms(3) by simp_all
  then show ?thesis
    using resolver_ends [OF assms(1), of u n r] upstream_ends [OF assms(1), of u n] downstream_ends [OF assms(2), of u n statuses] assms(3)
    by (simp add: ends_def)
qed

section \<open>Flat relations are a closure\<close>

definition child_of :: "catalogue \<Rightarrow> string \<Rightarrow> string \<Rightarrow> bool" where
  "child_of cat u c = (\<exists>cs. childs cat u = Inr cs \<and> c \<in> set cs)"

text \<open>A rule none of whose blocks is deprecated.\<close>

definition active_rule :: "catalogue \<Rightarrow> DeploymentStatus list \<Rightarrow> string \<Rightarrow> bool" where
  "active_rule cat statuses u = (\<exists>body. map_of (objects_of cat ''rule'') u = Some body \<and> is_active statuses body = Inr True)"

lemma keep_active_set:
  assumes "keep_active_rules cat statuses us = Inr rs"
  shows "set rs = {u \<in> set us. active_rule cat statuses u}"
  using assms
proof (induction us arbitrary: rs)
  case Nil
  then show ?case by (simp add: keep_active_rules_def)
next
  case (Cons u us)
  then obtain x rs' where x: "(case map_of (objects_of cat ''rule'') u of
                 None \<Rightarrow> Inr []
               | Some body \<Rightarrow> rbind (is_active statuses body) (\<lambda>active. Inr (if active then [u] else []))) = Inr x"
    and rest: "keep_active_rules cat statuses us = Inr rs'" and rs: "rs = x @ rs'"
    by (auto simp: keep_active_rules_def rbind_def split: sum.splits)
  have "set x = (if active_rule cat statuses u then {u} else {})"
    using x by (auto simp: active_rule_def rbind_Inr split: option.splits if_splits)
  with Cons.IH [OF rest] rs show ?case by auto
qed

lemma tree_fold:
  "rfold (\<lambda>tree c. rbind (f c) (\<lambda>sub. Inr (AList.update c sub tree))) t0 cs = Inr t \<Longrightarrow>
     map_of t k = (if k \<in> set cs then (case f k of Inr sub \<Rightarrow> Some sub | Inl _ \<Rightarrow> None) else map_of t0 k)
     \<and> (k \<in> set cs \<longrightarrow> (\<exists>sub. f k = Inr sub)) \<and> (distinct (map fst t0) \<longrightarrow> distinct (map fst t))"
proof (induction cs arbitrary: t0)
  case Nil
  then show ?case by simp
next
  case (Cons c cs)
  then obtain sub where sub: "f c = Inr sub"
    and rest: "rfold (\<lambda>tree c. rbind (f c) (\<lambda>sub. Inr (AList.update c sub tree))) (AList.update c sub t0) cs = Inr t"
    by (auto simp: rbind_def split: sum.splits)
  from Cons.IH [OF rest] sub show ?case by (auto simp: distinct_update)
qed

lemma tree_fold_set:
  assumes "rfold (\<lambda>tree c. rbind (f c) (\<lambda>sub. Inr (AList.update c sub tree))) [] cs = Inr t"
  shows "(k, sub) \<in> set t \<longleftrightarrow> k \<in> set cs \<and> f k = Inr sub" "k \<in> set cs \<Longrightarrow> \<exists>sub. (k, sub) \<in> set t"
proof -
  from tree_fold [OF assms] have d: "distinct (map fst t)" by simp
  note m = tree_fold [OF assms, of k]
  show e: "(k, sub) \<in> set t \<longleftrightarrow> k \<in> set cs \<and> f k = Inr sub" for sub
    using m by (auto simp flip: map_of_eq_Some_iff [OF d] split: if_splits sum.splits)
  show "k \<in> set cs \<Longrightarrow> \<exists>sub. (k, sub) \<in> set t" using m e by auto
qed

lemma rfold_cong: "(\<And>s x. x \<in> set xs \<Longrightarrow> f s x = g s x) \<Longrightarrow> rfold f s xs = rfold g s xs"
  by (induction xs arbitrary: s) (auto split: sum.split)

text \<open>The uuids in a tree.\<close>

definition item_members :: "(string \<times> relation_tree) list \<Rightarrow> string set" where
  "item_members items = (\<Union>(k, v) \<in> set items. insert k (case v of Uuids us \<Rightarrow> set us | _ \<Rightarrow> {}))"

definition tree_members :: "relation_tree \<Rightarrow> string set" where
  "tree_members tree = (case tree of Uuids us \<Rightarrow> set us | _ \<Rightarrow> item_members (recursive_items tree))"

lemma tree_members_Tree: "tree_members (Tree items) = (\<Union>(k, v) \<in> set items. insert k (tree_members v))"
proof -
  have "insert k (case v of Uuids us \<Rightarrow> set us | _ \<Rightarrow> {}) \<union> item_members (recursive_items v) = insert k (tree_members v)" for k v
    by (cases v) (auto simp: tree_members_def item_members_def)
  moreover have "tree_members (Tree items) =
      (\<Union>(k, v) \<in> set items. insert k (case v of Uuids us \<Rightarrow> set us | _ \<Rightarrow> {}) \<union> item_members (recursive_items v))"
    by (auto simp: tree_members_def item_members_def split: prod.splits)
  ultimately show ?thesis by simp
qed

text \<open>The lists of a tree hold rules.\<close>

fun rule_lists :: "catalogue \<Rightarrow> relation_tree \<Rightarrow> bool" where
  "rule_lists cat (Uuids us) = (\<forall>u \<in> set us. u \<noteq> [] \<and> get_type cat u = Inr ''rule'')"
| "rule_lists cat (Tree items) = (\<forall>(k, v) \<in> set items. k \<noteq> [] \<and> rule_lists cat v)"
| "rule_lists cat No_Relations = True"

lemma rule_lists_items:
  "rule_lists cat tree \<Longrightarrow> (k, v) \<in> set (recursive_items tree) \<Longrightarrow>
     k \<noteq> [] \<and> (\<forall>us. v = Uuids us \<longrightarrow> (\<forall>u \<in> set us. get_type cat u = Inr ''rule''))"
proof (induction tree arbitrary: k v)
  case (Tree items)
  from Tree.prems(2) obtain k' v' where item: "(k', v') \<in> set items" "(k, v) = (k', v') \<or> (k, v) \<in> set (recursive_items v')"
    by auto
  with Tree.prems(1) have ok: "k' \<noteq> []" "rule_lists cat v'" by auto
  show ?case
  proof (cases "(k, v) = (k', v')")
    case True
    with ok show ?thesis by auto
  next
    case False
    with item(2) have "(k, v) \<in> set (recursive_items v')" by blast
    from Tree.IH [OF item(1) _ ok(2) this] show ?thesis by (simp add: snds.intros)
  qed
qed simp_all

lemma dget_list_add_all [simp]: "dget_list (add_all t us flat) k = (if k = t then dget_list flat k @ us else dget_list flat k)"
  by (simp add: add_all_def dget_list_def)

lemma flat_item_set:
  assumes "flat_item cat flat (k, v) = Inr flat'" "k \<noteq> []" "\<forall>us. v = Uuids us \<longrightarrow> (\<forall>u \<in> set us. get_type cat u = Inr ''rule'')"
  shows "set (dget_list flat' t) = set (dget_list flat t) \<union> {u \<in> insert k (case v of Uuids us \<Rightarrow> set us | _ \<Rightarrow> {}). get_type cat u = Inr t}"
proof (cases "\<exists>w ws. v = Uuids (w # ws)")
  case True
  then obtain w ws where v: "v = Uuids (w # ws)" by blast
  with assms(1,2) obtain kt wt where "get_type cat k = Inr kt" "get_type cat w = Inr wt"
    "flat' = add_all wt (w # ws) (add_all kt [k] flat)"
    by (auto simp: flat_item_def rbind_Inr)
  with v assms(3) show ?thesis by auto
next
  case False
  then have v: "v = Uuids [] \<or> (\<exists>items. v = Tree items) \<or> v = No_Relations"
    by (metis relation_tree.exhaust list.exhaust)
  with assms(1,2) obtain kt where "get_type cat k = Inr kt" "flat' = add_all kt [k] flat"
    by (auto simp: flat_item_def rbind_Inr)
  with v show ?thesis by auto
qed

lemma flat_items_set:
  assumes "rfold (flat_item cat) flat items = Inr flat'"
    and "\<And>k v. (k, v) \<in> set items \<Longrightarrow> k \<noteq> [] \<and> (\<forall>us. v = Uuids us \<longrightarrow> (\<forall>u \<in> set us. get_type cat u = Inr ''rule''))"
  shows "set (dget_list flat' t) = set (dget_list flat t) \<union> {u \<in> item_members items. get_type cat u = Inr t}"
  using assms
proof (induction items arbitrary: flat)
  case Nil
  then show ?case by (simp add: item_members_def)
next
  case (Cons kv items)
  obtain k v where kv: "kv = (k, v)" by force
  with Cons.prems(1) obtain flat1 where one: "flat_item cat flat (k, v) = Inr flat1" and rest: "rfold (flat_item cat) flat1 items = Inr flat'"
    by (auto split: sum.splits)
  have kv_ok: "k \<noteq> []" "\<forall>us. v = Uuids us \<longrightarrow> (\<forall>u \<in> set us. get_type cat u = Inr ''rule'')" using Cons.prems(2) kv by auto
  have "set (dget_list flat' t) = set (dget_list flat1 t) \<union> {u \<in> item_members items. get_type cat u = Inr t}"
    using Cons.prems(2) by (intro Cons.IH [OF rest]) auto
  with flat_item_set [OF one kv_ok] show ?case by (auto simp: item_members_def kv)
qed

lemma flat_tree_set:
  assumes "flat_tree cat tree = Inr flat" "rule_lists cat tree"
  shows "set (dget_list flat t) = {u \<in> tree_members tree. get_type cat u = Inr t}"
proof (cases tree)
  case No_Relations
  with assms(1) show ?thesis by (simp add: flat_tree_def tree_members_def item_members_def)
next
  case (Uuids us)
  show ?thesis
  proof (cases us)
    case Nil
    with Uuids assms(1) show ?thesis by (simp add: flat_tree_def tree_members_def)
  next
    case (Cons w ws)
    with Uuids assms(1) obtain k where k: "get_type cat w = Inr k" "flat = [(k, us)]"
      by (auto simp: flat_tree_def rbind_Inr)
    have typed: "get_type cat v = Inr k" if "v \<in> set us" for v
      using assms(2) Uuids that k(1) Cons by auto
    have "dget_list flat t = (if t = k then us else [])" by (simp add: k(2) dget_list_def)
    with typed Uuids show ?thesis by (auto simp: tree_members_def)
  qed
next
  case (Tree items)
  with assms(1) have "rfold (flat_item cat) [] (recursive_items tree) = Inr flat" by (simp add: flat_tree_def)
  then have "set (dget_list flat t) = set (dget_list [] t) \<union> {u \<in> item_members (recursive_items tree). get_type cat u = Inr t}"
    by (rule flat_items_set) (rule rule_lists_items [OF assms(2)])
  with Tree show ?thesis by (simp add: tree_members_def)
qed

text \<open>The tree below an object: only descendants are in it, and every descendant that is no inactive rule.\<close>

lemma childs_type: "childs cat u = Inr cs \<Longrightarrow> \<exists>t. get_type cat u = Inr t"
  by (auto simp: childs_def rbind_Inr)

lemma descendant_step: "(child_of cat)\<^sup>+\<^sup>+ u v \<longleftrightarrow> (\<exists>c. child_of cat u c \<and> (c = v \<or> (child_of cat)\<^sup>+\<^sup>+ c v))"
  by (metis tranclpD tranclp.r_into_trancl tranclp_into_tranclp2 rtranclpD)

lemma rule_has_no_children: "get_type cat u = Inr ''rule'' \<Longrightarrow> \<not> child_of cat u c"
  by (simp add: child_of_def childs_def child_relation_mappings_def)

lemma rule_has_no_descendants: "get_type cat u = Inr ''rule'' \<Longrightarrow> \<not> (child_of cat)\<^sup>+\<^sup>+ u v"
  by (meson rule_has_no_children tranclpD)

definition holds_relations :: "catalogue \<Rightarrow> DeploymentStatus list \<Rightarrow> string \<Rightarrow> relation_tree \<Rightarrow> bool" where
  "holds_relations cat statuses u tree =
     (rule_lists cat tree \<and> tree_members tree \<subseteq> {v. (child_of cat)\<^sup>+\<^sup>+ u v}
      \<and> {v. (child_of cat)\<^sup>+\<^sup>+ u v \<and> (get_type cat v = Inr ''rule'' \<longrightarrow> active_rule cat statuses v)} \<subseteq> tree_members tree)"

lemma tree_holds:
  assumes cs: "childs cat u = Inr cs" and keys: "\<And>c sub. (c, sub) \<in> set items \<Longrightarrow> c \<in> set cs \<and> c \<noteq> [] \<and> rule_lists cat sub
      \<and> tree_members sub \<subseteq> {v. (child_of cat)\<^sup>+\<^sup>+ c v}
      \<and> {v. (child_of cat)\<^sup>+\<^sup>+ c v \<and> (get_type cat v = Inr ''rule'' \<longrightarrow> active_rule cat statuses v)} \<subseteq> tree_members sub"
    and all: "\<And>c. c \<in> set cs \<Longrightarrow> \<exists>sub. (c, sub) \<in> set items"
  shows "holds_relations cat statuses u (Tree items)"
proof -
  have child: "child_of cat u c \<longleftrightarrow> c \<in> set cs" for c by (simp add: child_of_def cs)
  have "rule_lists cat (Tree items)" using keys by auto
  moreover have "tree_members (Tree items) \<subseteq> {v. (child_of cat)\<^sup>+\<^sup>+ u v}"
    using keys child descendant_step [of cat u] by (fastforce simp: tree_members_Tree)
  moreover have "v \<in> tree_members (Tree items)"
    if "(child_of cat)\<^sup>+\<^sup>+ u v" "get_type cat v = Inr ''rule'' \<longrightarrow> active_rule cat statuses v" for v
  proof -
    from that(1) descendant_step obtain c where c: "c \<in> set cs" "c = v \<or> (child_of cat)\<^sup>+\<^sup>+ c v" using child by blast
    with all obtain sub where "(c, sub) \<in> set items" by blast
    with keys c(2) that(2) show ?thesis by (fastforce simp: tree_members_Tree)
  qed
  ultimately show ?thesis by (auto simp: holds_relations_def)
qed

lemma downstream_holds:
  assumes "typed_index cat" "relations_downstream cat statuses n u = Inr tree"
  shows "holds_relations cat statuses u tree"
  using assms(2)
proof (induction n arbitrary: u tree)
  case 0
  then show ?case by simp
next
  case (Suc n)
  from Suc.prems obtain t cs where t: "get_type cat u = Inr t" and cs: "childs cat u = Inr cs" by (auto simp: rbind_Inr)
  note typed = child_type [OF assms(1) cs t]
  have child: "child_of cat u c \<longleftrightarrow> c \<in> set cs" for c by (simp add: child_of_def cs)
  show ?case
  proof (cases "t = ''signal''")
    case True
    with Suc.prems t cs obtain rs where rs: "keep_active_rules cat statuses cs = Inr rs" "tree = Uuids rs"
      by (auto simp: rbind_Inr)
    have rule: "get_type cat c = Inr ''rule'' \<and> c \<noteq> []" if "c \<in> set cs" for c
      using typed [OF that] True by simp
    have "(child_of cat)\<^sup>+\<^sup>+ u v \<longleftrightarrow> v \<in> set cs" for v
      using descendant_step [of cat u v] child rule rule_has_no_descendants by blast
    with keep_active_set [OF rs(1)] rs(2) rule show ?thesis
      by (auto simp: holds_relations_def tree_members_def)
  next
    case signal: False
    define below where "below c = (if t = ''objective'' \<and> get_type cat c = Inr ''rule'' then Inr No_Relations
      else relations_downstream cat statuses n c)" for c
    have fold: "\<exists>items. rfold (\<lambda>tree c. rbind (below c) (\<lambda>sub. Inr (AList.update c sub tree))) [] cs = Inr items \<and> tree = Tree items"
    proof (cases "t = ''objective''")
      case True
      have "rfold (\<lambda>tree c. rbind (get_type cat c) (\<lambda>ct.
             if ct = ''signal'' then rbind (relations_downstream cat statuses n c) (\<lambda>sub. Inr (AList.update c sub tree))
             else if ct = ''rule'' then Inr (AList.update c No_Relations tree)
             else Inr tree)) [] cs = rfold (\<lambda>tree c. rbind (below c) (\<lambda>sub. Inr (AList.update c sub tree))) [] cs"
        using typed(1) True by (intro rfold_cong) (fastforce simp: below_def)
      with Suc.prems t cs True show ?thesis by (auto simp: rbind_Inr)
    next
      case False
      with Suc.prems t cs signal show ?thesis by (auto simp: rbind_Inr below_def)
    qed
    then obtain items where items: "rfold (\<lambda>tree c. rbind (below c) (\<lambda>sub. Inr (AList.update c sub tree))) [] cs = Inr items"
      and tree: "tree = Tree items" by blast
    have "holds_relations cat statuses u (Tree items)"
    proof (rule tree_holds [OF cs])
      fix c sub assume "(c, sub) \<in> set items"
      then have c: "c \<in> set cs" "below c = Inr sub" using tree_fold_set(1) [OF items] by blast+
      show "c \<in> set cs \<and> c \<noteq> [] \<and> rule_lists cat sub \<and> tree_members sub \<subseteq> {v. (child_of cat)\<^sup>+\<^sup>+ c v}
        \<and> {v. (child_of cat)\<^sup>+\<^sup>+ c v \<and> (get_type cat v = Inr ''rule'' \<longrightarrow> active_rule cat statuses v)} \<subseteq> tree_members sub"
      proof (cases "t = ''objective'' \<and> get_type cat c = Inr ''rule''")
        case True
        with c have "sub = No_Relations" by (simp add: below_def)
        with True c typed(2) [OF c(1)] rule_has_no_descendants show ?thesis
          by (auto simp: tree_members_def item_members_def)
      next
        case False
        with c have "relations_downstream cat statuses n c = Inr sub" by (simp add: below_def split: if_splits)
        from Suc.IH [OF this] c typed(2) [OF c(1)] show ?thesis by (simp add: holds_relations_def)
      qed
    next
      fix c assume "c \<in> set cs"
      then show "\<exists>sub. (c, sub) \<in> set items" by (rule tree_fold_set(2) [OF items])
    qed
    with tree show ?thesis by simp
  qed
qed

lemma dget_list_map: "dget_list (map (\<lambda>(k, v). (k, f v)) flat) t = (if t \<in> fst ` set flat then f (dget_list flat t) else [])"
  by (induction flat) (auto simp: dget_list_def)

text \<open>
  C24: The flat relations of an object are the closure of the relation between an object and its children: under each
  type they list exactly the objects of that type that are reached from it, by any number of steps, and among the rules
  only those with no deprecated block.
\<close>

theorem flat_relations_are_the_closure:
  assumes "typed_index cat" "\<And>xs. set (listed xs) = set xs"
    and "flat_relations cat statuses listed n u Downstream = Inr flat"
  shows "v \<in> set (dget_list flat t) \<longleftrightarrow>
    (child_of cat)\<^sup>+\<^sup>+ u v \<and> get_type cat v = Inr t \<and> (t = ''rule'' \<longrightarrow> active_rule cat statuses v)"
proof -
  from assms(3) obtain tree flat0 where tree: "relations_downstream cat statuses n u = Inr tree" and flat0: "flat_tree cat tree = Inr flat0"
    and rest: "(if dget_list (map (\<lambda>(k, v). (k, listed v)) flat0) ''rule'' = [] then Inr (map (\<lambda>(k, v). (k, listed v)) flat0)
       else rbind (keep_active_rules cat statuses (dget_list (map (\<lambda>(k, v). (k, listed v)) flat0) ''rule'')) (\<lambda>active.
              Inr (AList.update ''rule'' active (map (\<lambda>(k, v). (k, listed v)) flat0)))) = Inr flat"
    by (auto simp: flat_relations_def rbind_Inr Let_def)
  have h: "holds_relations cat statuses u tree" by (rule downstream_holds [OF assms(1) tree])
  then have lists: "rule_lists cat tree" by (simp add: holds_relations_def)
  have empty: "dget_list flat0 k = []" if "k \<notin> fst ` set flat0" for k
    using that by (induction flat0) (auto simp: dget_list_def)
  have found: "set (dget_list (map (\<lambda>(k, v). (k, listed v)) flat0) k) = {x \<in> tree_members tree. get_type cat x = Inr k}" for k
    using flat_tree_set [OF flat0 lists, of k] assms(2) [of "dget_list flat0 k"] empty [of k]
    by (cases "k \<in> fst ` set flat0") (simp_all add: dget_list_map)
  have "set (dget_list flat k) = {x \<in> tree_members tree. get_type cat x = Inr k \<and> (k = ''rule'' \<longrightarrow> active_rule cat statuses x)}" for k
  proof (cases "dget_list (map (\<lambda>(k, v). (k, listed v)) flat0) ''rule'' = []")
    case True
    with rest found have "flat = map (\<lambda>(k, v). (k, listed v)) flat0" by simp
    with found True found [of "''rule''"] show ?thesis by auto
  next
    case False
    with rest obtain active where "keep_active_rules cat statuses (dget_list (map (\<lambda>(k, v). (k, listed v)) flat0) ''rule'') = Inr active"
      and flat: "flat = AList.update ''rule'' active (map (\<lambda>(k, v). (k, listed v)) flat0)"
      by (auto simp: rbind_Inr)
    with keep_active_set found have "set active = {x \<in> tree_members tree. get_type cat x = Inr ''rule'' \<and> active_rule cat statuses x}"
      by blast
    moreover have "dget_list flat k = (if k = ''rule'' then active else dget_list (map (\<lambda>(k, v). (k, listed v)) flat0) k)"
      by (simp add: flat dget_list_def)
    ultimately show ?thesis using found by auto
  qed
  with h show ?thesis unfolding holds_relations_def by auto
qed

section \<open>A small repository\<close>

definition small_object :: "string \<Rightarrow> (string \<times> pyval) list \<Rightarrow> pydict" where
  "small_object schema entries = (PStr ''metadata'', jobj [(''schema'', PStr schema)]) # map (\<lambda>(k, v). (PStr k, v)) entries"

definition small_catalogue :: catalogue where
  "small_catalogue =
     [(''threat'', [(''t'', small_object ''threat::1.0'' [(''threat'', jobj [(''mitre_attack'', PList [PStr ''T1059'', PStr ''T1059''])])])]),
      (''objective'', [(''q'', small_object ''objective::1.0'' [(''objective'', jobj [(''threats'', PList [PStr ''t''])])])]),
      (''rule'', [(''r'', small_object ''rule::1.0'' [(''detection_model'', PStr ''q''),
         (''configurations'', jobj [(''splunk'', jobj [(''status'', PStr ''PRODUCTION'')])])])])]"

definition small_statuses :: "DeploymentStatus list" where
  "small_statuses = [\<lparr>status_name = ''PRODUCTION'', status_strategy = StrategyMember RELEASE\<rparr>]"

lemma small_types: "get_type small_catalogue ''t'' = Inr ''threat''" "get_type small_catalogue ''q'' = Inr ''objective''"
  "get_type small_catalogue ''r'' = Inr ''rule''"
  by code_simp+

lemma small_members:
  assumes "(u, body) \<in> set (objects_of small_catalogue t)"
  shows "(u, t) = (''t'', ''threat'') \<or> (u, t) = (''q'', ''objective'') \<or> (u, t) = (''r'', ''rule'')"
proof -
  obtain os where "map_of small_catalogue t = Some os" "(u, body) \<in> set os"
    using assms by (cases "map_of small_catalogue t") (simp_all add: objects_of_def)
  moreover from this(1) have "(t, os) \<in> set small_catalogue" by (rule map_of_SomeD)
  ultimately show ?thesis by (simp add: small_catalogue_def) (elim disjE conjE; simp)
qed

lemma small_typed: "typed_index small_catalogue"
proof -
  have "u \<noteq> [] \<and> get_type small_catalogue u = Inr t" if "(u, body) \<in> set (objects_of small_catalogue t)" for u body t
    using small_members [OF that] by (elim disjE) (simp_all add: small_types)
  then show ?thesis unfolding typed_index_def by blast
qed

lemma small_uuid: "get_type small_catalogue u = Inr t \<Longrightarrow> u = ''t'' \<or> u = ''q'' \<or> u = ''r''"
proof -
  assume "get_type small_catalogue u = Inr t"
  then have "flat_index small_catalogue u \<noteq> None" by (cases "flat_index small_catalogue u") (simp_all add: get_type_def)
  then obtain body where "(u, body) \<in> set (concat (map (objects_of small_catalogue) [''rule'', ''signal'', ''objective'', ''threat'']))"
    unfolding flat_index_def using map_of_SomeD by fast
  then obtain k where "(u, body) \<in> set (objects_of small_catalogue k)" by auto
  from small_members [OF this] show ?thesis by auto
qed

lemma small_layered: "layered small_catalogue"
proof -
  have parents: "parents small_catalogue ''t'' = Inr []" "parents small_catalogue ''q'' = Inr [''t'']" "parents small_catalogue ''r'' = Inr [''q'']"
    by code_simp+
  have "level t' < level t" if t: "get_type small_catalogue u = Inr t" and ps: "parents small_catalogue u = Inr ps" "p \<in> set ps"
    and t': "get_type small_catalogue p = Inr t'" for u t ps p t'
    using small_uuid [OF t]
  proof (elim disjE)
    assume "u = ''t''"
    with ps parents show ?thesis by simp
  next
    assume u: "u = ''q''"
    with ps(1) parents have "ps = [''t'']" by simp
    with ps(2) have "p = ''t''" by simp
    with u t t' have "t = ''objective''" "t' = ''threat''" by (simp_all add: small_types)
    then show ?thesis by (simp add: level_def)
  next
    assume u: "u = ''r''"
    with ps(1) parents have "ps = [''q'']" by simp
    with ps(2) have "p = ''q''" by simp
    with u t t' have "t = ''rule''" "t' = ''objective''" by (simp_all add: small_types)
    then show ?thesis by (simp add: level_def)
  qed
  then show ?thesis unfolding layered_def by blast
qed

lemma childs_index_is_the_scan_witness:
  "childs small_catalogue ''q'' = Inr [''r''] \<and> reference_childs small_catalogue ''q'' = Inr [''r'']"
proof -
  have c: "childs small_catalogue ''q'' = Inr [''r'']" by code_simp
  have "all_references (plain_reference ''q'') small_catalogue ''q''" "all_references (single_reference ''q'') small_catalogue ''q''"
    by code_simp+
  with childs_index_is_the_scan [OF c] c show ?thesis by auto
qed

text \<open>
  An objective that names a threat twice in one list: the index has it twice, the traversal once, so the two are not
  identical as the comment on the index says.
\<close>

definition doubled_catalogue :: catalogue where
  "doubled_catalogue =
     [(''threat'', [(''t'', small_object ''threat::1.0'' [])]),
      (''objective'', [(''q'', small_object ''objective::1.0'' [(''detection'', jobj [(''vectors'', PList [PStr ''t'', PStr ''t''])])])])]"

lemma index_repeats_a_doubled_parent:
  "childs doubled_catalogue ''t'' = Inr [''q'', ''q''] \<and> reference_childs doubled_catalogue ''t'' = Inr [''q'']"
  by (rule conjI; code_simp)

lemma techniques_are_those_given_witness:
  "techniques_resolver small_catalogue 4 True ''r'' = Inr [''T1059''] \<and> {t. gives small_catalogue ''r'' t} = {''T1059''}"
proof -
  have run: "techniques_resolver small_catalogue 4 True ''r'' = Inr [''T1059'']" by code_simp
  from techniques_are_those_given [OF this] run show ?thesis by simp
qed

lemma walks_over_objects_end_witness:
  "techniques_resolver small_catalogue 4 True ''x'' \<noteq> Inl Recursion_Limit \<and> relations_upstream small_catalogue 4 ''x'' \<noteq> Inl Recursion_Limit"
  using walks_over_objects_end [OF small_layered small_typed order.refl, of True "''x''" "[]"] by blast

lemma flat_relations_are_the_closure_witness:
  "(child_of small_catalogue)\<^sup>+\<^sup>+ ''t'' ''r'' \<and> active_rule small_catalogue small_statuses ''r''"
proof -
  have "flat_relations small_catalogue small_statuses (\<lambda>xs. xs) 4 ''t'' Downstream = Inr [(''objective'', [''q'']), (''rule'', [''r''])]"
    by code_simp
  from flat_relations_are_the_closure [OF small_typed _ this, of "''r''" "''rule''"] show ?thesis by (simp add: dget_list_def)
qed

end
