(* ===== verification/Chaining.thy ===== *)
theory Chaining
  imports Object_Relations
begin

text \<open>
  \<open>core/chaining.py\<close>, the resolver of \<open>generation/framework.py\<close> and the network of
  \<open>documentation/catalog.py\<close>: threats name the threats they chain to, under a relation. The graph may have
  cycles; the resolver ends because it follows an edge only when it puts it into the chain.
\<close>

section \<open>The graph of a catalogue\<close>

type_synonym links = "(string \<times> string list) list"

type_synonym chain = "(string \<times> links) list"

definition links_of :: "chain \<Rightarrow> string \<Rightarrow> links" where
  "links_of chain u = (case map_of chain u of None \<Rightarrow> [] | Some ls \<Rightarrow> ls)"

definition set_links :: "string \<Rightarrow> links \<Rightarrow> chain \<Rightarrow> chain" where
  "set_links u ls chain = AList.update u ls chain"

text \<open>\<open>if v not in ls[relation]: ls[relation].append(v)\<close>, after \<open>ls.setdefault(relation, [])\<close>.\<close>

definition add_link :: "links \<Rightarrow> string \<Rightarrow> string \<Rightarrow> links" where
  "add_link ls relation v =
     (if v \<in> set (dget_list ls relation) then AList.update relation (dget_list ls relation) ls
      else AList.update relation (dget_list ls relation @ [v]) ls)"

definition chaining_link :: "links \<Rightarrow> pyval \<Rightarrow> links" where
  "chaining_link ls link =
     (case link of
        PDict d \<Rightarrow>
          (if \<not> truthy (dget_none d ''relation'') \<or> \<not> truthy (dget_none d ''vector'') then ls
           else add_link ls (py_str (dget_none d ''relation'')) (py_str (dget_none d ''vector'')))
      | _ \<Rightarrow> ls)"

definition threat_chaining :: "pyval \<Rightarrow> pyval list" where
  "threat_chaining payload =
     (case payload of
        PDict d \<Rightarrow>
          (case dget d ''threat'' of
             Some (PDict threat) \<Rightarrow> (case dget_none threat ''chaining'' of PList xs \<Rightarrow> xs | _ \<Rightarrow> [])
           | _ \<Rightarrow> [])
      | _ \<Rightarrow> [])"

definition compute_chains :: "(string \<times> pyval) list \<Rightarrow> chain" where
  "compute_chains threats =
     foldl (\<lambda>chain (tvm, payload).
       if threat_chaining payload = [] then chain
       else set_links tvm (foldl chaining_link (links_of chain tvm) (threat_chaining payload)) chain) [] threats"

section \<open>The resolver\<close>

text \<open>
  The two loops of \<open>chain_resolver\<close> over the links of a threat, as the list of what they meet: a relation is
  entered into the chain, then each of its vectors is looked at.
\<close>

type_synonym chain_item = "string \<times> string \<times> string option"

definition chain_items :: "chain \<Rightarrow> string \<Rightarrow> chain_item list" where
  "chain_items index u = concat (map (\<lambda>(link, vs). (u, link, None) # map (\<lambda>v. (u, link, Some v)) vs) (links_of index u))"

definition chain_targets :: "chain \<Rightarrow> string \<Rightarrow> string \<Rightarrow> string list" where
  "chain_targets chain u link = dget_list (links_of chain u) link"

definition set_targets :: "string \<Rightarrow> string \<Rightarrow> string list \<Rightarrow> chain \<Rightarrow> chain" where
  "set_targets u link vs chain = set_links u (AList.update link vs (links_of chain u)) chain"

lemma chain_targets_set [simp]:
  "chain_targets (set_targets u link vs chain) u' link' = (if u' = u \<and> link' = link then vs else chain_targets chain u' link')"
  by (simp add: chain_targets_def set_targets_def set_links_def links_of_def dget_list_def)

definition index_edges :: "chain \<Rightarrow> (string \<times> string \<times> string) set" where
  "index_edges index = {(u, link, v). \<exists>ls vs. (u, ls) \<in> set index \<and> (link, vs) \<in> set ls \<and> v \<in> set vs}"

definition chain_edges :: "chain \<Rightarrow> (string \<times> string \<times> string) set" where
  "chain_edges chain = {(u, link, v). v \<in> set (chain_targets chain u link)}"

lemma index_edges_finite: "finite (index_edges index)"
proof -
  have "index_edges index = (\<Union>(u, ls) \<in> set index. \<Union>(link, vs) \<in> set ls. (\<lambda>v. (u, link, v)) ` set vs)"
    by (auto simp: index_edges_def)
  then show ?thesis by auto
qed

definition item_edges :: "chain_item list \<Rightarrow> (string \<times> string \<times> string) set" where
  "item_edges todo = {(u, link, v). (u, link, Some v) \<in> set todo}"

lemma item_edges_simps [simp]:
  "item_edges [] = {}"
  "item_edges ((u, link, None) # todo) = item_edges todo"
  "item_edges ((u, link, Some v) # todo) = insert (u, link, v) (item_edges todo)"
  by (auto simp: item_edges_def)

lemma item_edges_finite [simp]: "finite (item_edges todo)"
proof (induction todo)
  case (Cons item todo)
  obtain u link w where "item = (u, link, w)" by (cases item) auto
  with Cons show ?case by (cases w) simp_all
qed simp

lemma links_of_mem: "(link, vs) \<in> set (links_of index u) \<Longrightarrow> \<exists>ls. (u, ls) \<in> set index \<and> (link, vs) \<in> set ls"
  by (cases "map_of index u") (auto simp: links_of_def dest: map_of_SomeD)

lemma chain_items_edges: "item_edges (chain_items index u) \<subseteq> index_edges index"
  using links_of_mem by (fastforce simp: item_edges_def chain_items_def index_edges_def)

lemma chain_edges_set:
  "set vs \<supseteq> set (chain_targets chain u link) \<Longrightarrow>
     chain_edges (set_targets u link vs chain) = chain_edges chain \<union> {(u, link, v) | v. v \<in> set vs}"
  by (auto simp: chain_edges_def split: if_splits)

lemma entered [simp]: "chain_edges (set_targets u link (chain_targets chain u link) chain) = chain_edges chain"
  by (subst chain_edges_set) (auto simp: chain_edges_def)

lemma appended [simp]:
  "chain_edges (set_targets u link (chain_targets chain u link @ [v]) chain) = insert (u, link, v) (chain_edges chain)"
  by (subst chain_edges_set) (auto simp: chain_edges_def)

lemma chain_edges_Nil: "chain_edges [] = {}"
  by (simp add: chain_edges_def chain_targets_def links_of_def)

text \<open>The edges that are still to be put into the chain.\<close>

definition open_edges :: "chain \<Rightarrow> chain_item list \<Rightarrow> chain \<Rightarrow> (string \<times> string \<times> string) set" where
  "open_edges index todo chain = (index_edges index \<union> item_edges todo) - chain_edges chain"

lemma open_finite: "finite (open_edges index todo chain)"
  by (simp add: open_edges_def index_edges_finite)

text \<open>\<open>for link in ...: for v in ...\<close> of one call, and the recursive calls within.\<close>

function resolve_items :: "chain \<Rightarrow> chain_item list \<Rightarrow> chain \<Rightarrow> chain" where
  "resolve_items index [] chain = chain"
| "resolve_items index ((u, link, None) # todo) chain =
     resolve_items index todo (set_targets u link (chain_targets chain u link) chain)"
| "resolve_items index ((u, link, Some v) # todo) chain =
     (if v \<in> set (chain_targets chain u link) then resolve_items index todo chain
      else resolve_items index todo
             (resolve_items index (chain_items index v) (set_targets u link (chain_targets chain u link @ [v]) chain)))"
  by pat_completeness auto

termination
proof (relation "measures [\<lambda>(index, todo, chain). card (open_edges index todo chain), \<lambda>(index, todo, chain). length todo]", goal_cases)
  case 1
  show ?case by simp
next
  case (2 index u link todo chain)
  show ?case by (simp add: open_edges_def)
next
  case (3 index u link v todo chain)
  have "card (open_edges index todo chain) \<le> card (open_edges index ((u, link, Some v) # todo) chain)"
    by (intro card_mono open_finite) (auto simp: open_edges_def)
  then show ?case by auto
next
  case (4 index u link v todo chain)
  then have new: "(u, link, v) \<notin> chain_edges chain" by (simp add: chain_edges_def)
  have "open_edges index (chain_items index v) (set_targets u link (chain_targets chain u link @ [v]) chain)
      \<subset> open_edges index ((u, link, Some v) # todo) chain"
    using new chain_items_edges [of index v] by (auto simp: open_edges_def)
  then show ?case by (simp add: psubset_card_mono open_finite)
next
  case (5 index u link v todo chain)
  then have new: "(u, link, v) \<notin> chain_edges chain" by (simp add: chain_edges_def)
  have grows: "chain_edges c \<subseteq> chain_edges (resolve_items i t c)" if "resolve_items_dom (i, t, c)" for i t c
    using that by (induction rule: resolve_items.pinduct) (auto simp: resolve_items.psimps)
  from grows [OF 5(2)] have
    "insert (u, link, v) (chain_edges chain) \<subseteq> chain_edges (resolve_items index (chain_items index v)
       (set_targets u link (chain_targets chain u link @ [v]) chain))" by simp
  then have "open_edges index todo (resolve_items index (chain_items index v)
       (set_targets u link (chain_targets chain u link @ [v]) chain)) \<subset> open_edges index ((u, link, Some v) # todo) chain"
    using new by (auto simp: open_edges_def)
  then show ?case by (simp add: psubset_card_mono open_finite)
qed

text \<open>\<open>chain_resolver(entry_point, chain)\<close>\<close>

definition chain_resolver :: "chain \<Rightarrow> string \<Rightarrow> chain \<Rightarrow> chain" where
  "chain_resolver index u chain = resolve_items index (chain_items index u) chain"

section \<open>The network around a threat\<close>

definition seed_link :: "string \<Rightarrow> string \<Rightarrow> chain \<Rightarrow> string \<times> string list \<Rightarrow> chain" where
  "seed_link threat vector chain = (\<lambda>(relation, targets).
     if threat \<notin> set targets then chain
     else let vs = chain_targets chain vector relation
          in set_targets vector relation (if threat \<in> set vs then vs else vs @ [threat]) chain)"

definition inbound_chain :: "chain \<Rightarrow> string \<Rightarrow> chain" where
  "inbound_chain index threat =
     foldl (\<lambda>chain (vector, links). foldl (seed_link threat vector) chain links) [] index"

text \<open>
  The links into the threat, and what the resolver adds. The resolver recurses once for every link it follows: where
  a path is longer than Python's recursion limit, \<open>chaining_network\<close> catches the error and goes on with the
  chain as far as it was filled; the model has no such limit, so it is the diagram of graphs below it.
\<close>

definition network_chain :: "chain \<Rightarrow> string \<Rightarrow> chain" where
  "network_chain index threat =
     (let chain = inbound_chain index threat in
      chain_resolver index threat (foldl (\<lambda>c vector. chain_resolver index vector c) chain (map fst chain)))"

text \<open>\<open>chaining_entries\<close>: the target and the relation of the links a threat was written with.\<close>

definition chaining_target :: "pydict \<Rightarrow> string option" where
  "chaining_target entry =
     map_option (\<lambda>k. py_str (dget_none entry k))
       (find (\<lambda>k. truthy (dget_none entry k)) [''vector'', ''target'', ''uuid'', ''id''])"

definition chaining_relation :: "pydict \<Rightarrow> string" where
  "chaining_relation entry =
     (let v = dget_none entry ''relation''; text = (if truthy v then py_strip (py_str v) else [])
      in if text = [] then ''related'' else text)"

definition add_entry :: "string \<Rightarrow> chain \<Rightarrow> pydict \<Rightarrow> chain" where
  "add_entry threat chain entry =
     (case chaining_target entry of
        None \<Rightarrow> chain
      | Some target \<Rightarrow>
          let vs = chain_targets chain threat (chaining_relation entry)
          in set_targets threat (chaining_relation entry) (if target \<in> set vs then vs else vs @ [target]) chain)"

definition chaining_chain :: "chain \<Rightarrow> string \<Rightarrow> pydict list \<Rightarrow> chain" where
  "chaining_chain index threat entries = foldl (add_entry threat) (network_chain index threat) entries"

text \<open>Nodes and edges of the diagram; an edge is named by the last part of its relation.\<close>

definition relation_key :: "string \<Rightarrow> string" where
  "relation_key relation = last (py_split ''::'' relation)"

definition network_nodes :: "string \<Rightarrow> chain \<Rightarrow> string list" where
  "network_nodes threat chain =
     from_keys (filter (\<lambda>u. u \<noteq> []) (threat # concat (map (\<lambda>(source, links). source # concat (map snd links)) chain)))"

definition network_edges :: "chain \<Rightarrow> (string \<times> string \<times> string) list" where
  "network_edges chain =
     from_keys (filter (\<lambda>(source, target, key). source \<noteq> [] \<and> target \<noteq> [])
       (concat (map (\<lambda>(source, links). concat (map (\<lambda>(relation, targets).
          map (\<lambda>target. (source, target, relation_key relation)) targets) links)) chain)))"

section \<open>What is reached\<close>

abbreviation edges_from :: "chain \<Rightarrow> string \<Rightarrow> (string \<times> string \<times> string) set" where
  "edges_from index u \<equiv> item_edges (chain_items index u)"

definition chains_to :: "chain \<Rightarrow> string \<Rightarrow> string \<Rightarrow> bool" where
  "chains_to index u v = (\<exists>link. (u, link, v) \<in> edges_from index u)"

definition reached_edges :: "chain \<Rightarrow> string \<Rightarrow> (string \<times> string \<times> string) set" where
  "reached_edges index u = (\<Union>a \<in> {a. (chains_to index)\<^sup>*\<^sup>* u a}. edges_from index a)"

lemma item_edges_source: "(a, link, b) \<in> edges_from index u \<Longrightarrow> a = u"
  by (auto simp: item_edges_def chain_items_def)

lemma reached_first: "edges_from index u \<subseteq> reached_edges index u"
  by (auto simp: reached_edges_def)

lemma reached_step: "(u, link, v) \<in> edges_from index u \<Longrightarrow> reached_edges index v \<subseteq> reached_edges index u"
  unfolding reached_edges_def chains_to_def by (auto intro: converse_rtranclp_into_rtranclp)

text \<open>Every edge that a call adds is followed by the edges of its target.\<close>

definition closed_over :: "chain \<Rightarrow> chain \<Rightarrow> chain \<Rightarrow> bool" where
  "closed_over index old chain =
     (\<forall>(a, link, b) \<in> chain_edges chain - chain_edges old. edges_from index b \<subseteq> chain_edges chain)"

lemma closed_overD:
  "closed_over index old chain \<Longrightarrow> (a, link, b) \<in> chain_edges chain \<Longrightarrow> (a, link, b) \<notin> chain_edges old
    \<Longrightarrow> edges_from index b \<subseteq> chain_edges chain"
  unfolding closed_over_def by (drule bspec [of _ _ "(a, link, b)"]) simp_all

lemma closed_overI:
  "(\<And>a link b. (a, link, b) \<in> chain_edges chain \<Longrightarrow> (a, link, b) \<notin> chain_edges old
      \<Longrightarrow> edges_from index b \<subseteq> chain_edges chain) \<Longrightarrow> closed_over index old chain"
  by (auto simp: closed_over_def)

text \<open>What the recursive calls of some items reach.\<close>

definition reached_below :: "chain \<Rightarrow> chain_item list \<Rightarrow> (string \<times> string \<times> string) set" where
  "reached_below index todo = (\<Union>(a, link, b) \<in> item_edges todo. reached_edges index b)"

lemma reached_below_simps [simp]:
  "reached_below index [] = {}"
  "reached_below index ((u, link, None) # todo) = reached_below index todo"
  "reached_below index ((u, link, Some v) # todo) = reached_edges index v \<union> reached_below index todo"
  by (simp_all add: reached_below_def)

lemma reached_below_items: "reached_below index (chain_items index u) \<subseteq> reached_edges index u"
proof -
  have "reached_edges index b \<subseteq> reached_edges index u" if "(a, link, b) \<in> edges_from index u" for a link b
    using that reached_step item_edges_source by metis
  then show ?thesis by (fastforce simp: reached_below_def)
qed

lemma resolve_facts:
  "chain_edges chain \<union> item_edges todo \<subseteq> chain_edges (resolve_items index todo chain)
   \<and> chain_edges (resolve_items index todo chain)
       \<subseteq> chain_edges chain \<union> item_edges todo \<union> reached_below index todo
   \<and> closed_over index chain (resolve_items index todo chain)"
proof (induction index todo chain rule: resolve_items.induct)
  case (1 index chain)
  then show ?case by (simp add: closed_over_def)
next
  case (2 index u link todo chain)
  then show ?case by (simp add: closed_over_def)
next
  case (3 index u link v todo chain)
  show ?case
  proof (cases "v \<in> set (chain_targets chain u link)")
    case True
    then have "(u, link, v) \<in> chain_edges chain" by (simp add: chain_edges_def)
    with 3(1) [OF True] True show ?thesis by auto
  next
    case False
    define inner where "inner = resolve_items index (chain_items index v) (set_targets u link (chain_targets chain u link @ [v]) chain)"
    define outer where "outer = resolve_items index todo inner"
    note i = 3(2) [OF False, folded inner_def]
    note w = 3(3) [OF False, folded inner_def, folded outer_def]
    have out: "resolve_items index ((u, link, Some v) # todo) chain = outer"
      using False by (simp add: outer_def inner_def)
    have i1: "insert (u, link, v) (chain_edges chain) \<union> edges_from index v \<subseteq> chain_edges inner" using i by simp
    have w1: "chain_edges inner \<union> item_edges todo \<subseteq> chain_edges outer" using w by blast
    have "chain_edges inner \<subseteq> insert (u, link, v) (chain_edges chain) \<union> edges_from index v \<union> reached_below index (chain_items index v)"
      using i by simp
    then have i2: "chain_edges inner \<subseteq> insert (u, link, v) (chain_edges chain) \<union> reached_edges index v"
      using reached_first [of index v] reached_below_items [of index v] by blast
    have w2: "chain_edges outer \<subseteq> chain_edges inner \<union> item_edges todo \<union> reached_below index todo"
      using w by blast
    have "closed_over index chain outer"
    proof (rule closed_overI)
      fix a l b assume e: "(a, l, b) \<in> chain_edges outer" "(a, l, b) \<notin> chain_edges chain"
      consider "b = v" | "(a, l, b) \<in> chain_edges inner" "(a, l, b) \<noteq> (u, link, v)" | "(a, l, b) \<notin> chain_edges inner" by blast
      then show "edges_from index b \<subseteq> chain_edges outer"
      proof cases
        case 1
        with i1 w1 show ?thesis by blast
      next
        case 2
        have "closed_over index (set_targets u link (chain_targets chain u link @ [v]) chain) inner" using i by blast
        from closed_overD [OF this 2(1)] 2(2) e(2) have "edges_from index b \<subseteq> chain_edges inner" by simp
        with w1 show ?thesis by blast
      next
        case 3
        have "closed_over index inner outer" using w by blast
        from closed_overD [OF this e(1) 3] show ?thesis .
      qed
    qed
    moreover have "chain_edges chain \<union> item_edges ((u, link, Some v) # todo) \<subseteq> chain_edges outer" using i1 w1 by auto
    moreover have "chain_edges outer \<subseteq> chain_edges chain \<union> item_edges ((u, link, Some v) # todo)
        \<union> reached_below index ((u, link, Some v) # todo)"
      using i2 w2 by auto
    ultimately show ?thesis by (simp only: out)
  qed
qed

lemma closed_reaches:
  assumes "\<And>a link b. (a, link, b) \<in> chain_edges chain \<Longrightarrow> edges_from index b \<subseteq> chain_edges chain" "edges_from index u \<subseteq> chain_edges chain"
  shows "reached_edges index u \<subseteq> chain_edges chain"
proof -
  have "edges_from index a \<subseteq> chain_edges chain" if "(chains_to index)\<^sup>*\<^sup>* u a" for a
    using that
  proof (induction rule: rtranclp_induct)
    case base
    show ?case by (rule assms(2))
  next
    case (step y z)
    then obtain link where "(y, link, z) \<in> chain_edges chain" by (auto simp: chains_to_def)
    from assms(1) [OF this] show ?case .
  qed
  then show ?thesis by (auto simp: reached_edges_def)
qed

lemma resolver_facts:
  "chain_edges chain \<union> edges_from index u \<subseteq> chain_edges (chain_resolver index u chain)"
  "chain_edges (chain_resolver index u chain) \<subseteq> chain_edges chain \<union> reached_edges index u"
  "closed_over index chain (chain_resolver index u chain)"
proof -
  note f = resolve_facts [of chain "chain_items index u" index, folded chain_resolver_def]
  show "chain_edges chain \<union> edges_from index u \<subseteq> chain_edges (chain_resolver index u chain)"
    "closed_over index chain (chain_resolver index u chain)" using f by blast+
  show "chain_edges (chain_resolver index u chain) \<subseteq> chain_edges chain \<union> reached_edges index u"
    using f reached_first [of index u] reached_below_items [of index u] by blast
qed

text \<open>
  The resolver ends on every graph of threats, cycles included, and is exact: from an empty chain it returns the
  edges of the threats reached from its entry point, all of them and nothing else.
\<close>

theorem chain_resolver_is_exact: "chain_edges (chain_resolver index u []) = reached_edges index u"
proof
  show "chain_edges (chain_resolver index u []) \<subseteq> reached_edges index u"
    using resolver_facts(2) [of index u "[]"] chain_edges_Nil by simp
  have "edges_from index b \<subseteq> chain_edges (chain_resolver index u [])"
    if "(a, link, b) \<in> chain_edges (chain_resolver index u [])" for a link b
    using resolver_facts(3) [of index "[]" u] that chain_edges_Nil unfolding closed_over_def by fastforce
  then show "reached_edges index u \<subseteq> chain_edges (chain_resolver index u [])"
    using resolver_facts(1) [of "[]" index u] by (intro closed_reaches) blast+
qed

section \<open>The graph and the network\<close>

text \<open>A dict has a key once.\<close>

definition dict_chain :: "chain \<Rightarrow> bool" where
  "dict_chain chain = (distinct (map fst chain) \<and> (\<forall>(u, ls) \<in> set chain. distinct (map fst ls)))"

lemma links_of_distinct: "dict_chain chain \<Longrightarrow> distinct (map fst (links_of chain u))"
  by (cases "map_of chain u") (auto simp: dict_chain_def links_of_def dest: map_of_SomeD)

lemma dict_set_links:
  assumes "dict_chain chain" "distinct (map fst ls)"
  shows "dict_chain (set_links u ls chain)"
proof -
  have "distinct (map fst (AList.update u ls chain))" using assms(1) by (simp add: dict_chain_def distinct_update)
  moreover have "distinct (map fst ls')" if "(w, ls') \<in> set (AList.update u ls chain)" for w ls'
    using set_update_subset [of u ls chain] that assms by (auto simp: dict_chain_def)
  ultimately show ?thesis by (auto simp: dict_chain_def set_links_def)
qed

lemma dict_set_targets: "dict_chain chain \<Longrightarrow> dict_chain (set_targets u link vs chain)"
  unfolding set_targets_def by (intro dict_set_links distinct_update links_of_distinct)

lemma distinct_chaining_link: "distinct (map fst ls) \<Longrightarrow> distinct (map fst (chaining_link ls link))"
  by (auto simp: chaining_link_def add_link_def distinct_update split: pyval.split)

lemma distinct_chaining_links: "distinct (map fst ls) \<Longrightarrow> distinct (map fst (foldl chaining_link ls xs))"
  by (induction xs arbitrary: ls) (simp_all add: distinct_chaining_link)

lemma compute_chains_dict: "dict_chain (compute_chains threats)"
proof -
  have "dict_chain (foldl (\<lambda>chain (tvm, payload).
       if threat_chaining payload = [] then chain
       else set_links tvm (foldl chaining_link (links_of chain tvm) (threat_chaining payload)) chain) chain threats)"
    if "dict_chain chain" for chain
    using that
    by (induction threats arbitrary: chain) (auto intro!: dict_set_links distinct_chaining_links links_of_distinct split: prod.split)
  from this [of "[]"] show ?thesis by (simp add: compute_chains_def dict_chain_def)
qed

lemma dict_edges:
  assumes "dict_chain chain"
  shows "chain_edges chain = index_edges chain" "(u, link, v) \<in> edges_from chain u \<longleftrightarrow> (u, link, v) \<in> index_edges chain"
proof -
  have at: "map_of chain w = Some ls \<longleftrightarrow> (w, ls) \<in> set chain" for w ls
    using assms by (simp add: dict_chain_def)
  have inner: "map_of ls k = Some vs \<longleftrightarrow> (k, vs) \<in> set ls" if "(w, ls) \<in> set chain" for w ls k vs
    using assms that by (auto simp: dict_chain_def)
  have "(w, k, x) \<in> chain_edges chain \<longleftrightarrow> (w, k, x) \<in> index_edges chain" for w k x
  proof (cases "map_of chain w")
    case None
    then have "(w, ls) \<notin> set chain" for ls using at [of w ls] by simp
    with None show ?thesis by (auto simp: chain_edges_def chain_targets_def links_of_def index_edges_def)
  next
    case (Some ls)
    with at have ls: "(w, ls) \<in> set chain" "\<And>ls'. (w, ls') \<in> set chain \<Longrightarrow> ls' = ls" by (metis option.inject)+
    have "x \<in> set (dget_list ls k) \<longleftrightarrow> (\<exists>vs. (k, vs) \<in> set ls \<and> x \<in> set vs)"
    proof (cases "map_of ls k")
      case None
      then have "(k, vs) \<notin> set ls" for vs using inner [OF ls(1), of k vs] by simp
      with None show ?thesis by (simp add: dget_list_def)
    next
      case (Some us)
      then have "(k, vs) \<in> set ls \<longleftrightarrow> vs = us" for vs using inner [OF ls(1), of k vs] by auto
      with Some show ?thesis by (simp add: dget_list_def)
    qed
    moreover have "(w, k, x) \<in> index_edges chain \<longleftrightarrow> (\<exists>vs. (k, vs) \<in> set ls \<and> x \<in> set vs)"
    proof -
      have "(w, k, x) \<in> index_edges chain \<longleftrightarrow> (\<exists>ls' vs. (w, ls') \<in> set chain \<and> (k, vs) \<in> set ls' \<and> x \<in> set vs)"
        by (simp add: index_edges_def)
      then show ?thesis using ls by blast
    qed
    ultimately show ?thesis using Some by (simp add: chain_edges_def chain_targets_def links_of_def)
  qed
  then show "chain_edges chain = index_edges chain" by auto
  have items: "(u, link, v) \<in> edges_from chain u \<longleftrightarrow> (\<exists>vs. (link, vs) \<in> set (links_of chain u) \<and> v \<in> set vs)"
    by (auto simp: item_edges_def chain_items_def)
  show "(u, link, v) \<in> edges_from chain u \<longleftrightarrow> (u, link, v) \<in> index_edges chain"
  proof (cases "map_of chain u")
    case None
    then have "(u, ls) \<notin> set chain" for ls using at [of u ls] by simp
    with None items show ?thesis by (simp add: links_of_def index_edges_def)
  next
    case (Some ls)
    with at have ls: "(u, ls) \<in> set chain" "\<And>ls'. (u, ls') \<in> set chain \<Longrightarrow> ls' = ls" by (metis option.inject)+
    moreover have "(u, link, v) \<in> index_edges chain \<longleftrightarrow> (\<exists>ls' vs. (u, ls') \<in> set chain \<and> (link, vs) \<in> set ls' \<and> v \<in> set vs)"
      by (simp add: index_edges_def)
    ultimately have "(u, link, v) \<in> index_edges chain \<longleftrightarrow> (\<exists>vs. (link, vs) \<in> set ls \<and> v \<in> set vs)" by blast
    with Some items show ?thesis by (simp add: links_of_def)
  qed
qed

text \<open>The chain that the network starts from: the edges into the threat.\<close>

lemma seed_links_edges:
  "chain_edges (foldl (seed_link threat vector) chain links) =
     chain_edges chain \<union> {(vector, relation, threat) | relation targets. (relation, targets) \<in> set links \<and> threat \<in> set targets}"
proof (induction links arbitrary: chain)
  case Nil
  then show ?case by simp
next
  case (Cons rt links)
  obtain relation targets where rt: "rt = (relation, targets)" by force
  have "chain_edges (seed_link threat vector chain (relation, targets)) =
      chain_edges chain \<union> (if threat \<in> set targets then {(vector, relation, threat)} else {})"
    by (auto simp: seed_link_def Let_def) (simp_all add: chain_edges_def)
  with Cons.IH [of "seed_link threat vector chain rt"] show ?case by (auto simp: rt)
qed

lemma inbound_edges: "chain_edges (inbound_chain index threat) = {(u, link, v) \<in> index_edges index. v = threat}"
proof -
  have "chain_edges (foldl (\<lambda>chain (vector, links). foldl (seed_link threat vector) chain links) chain index)
      = chain_edges chain \<union> {(u, link, v) \<in> index_edges index. v = threat}" for chain
  proof (induction index arbitrary: chain)
    case Nil
    then show ?case by (simp add: index_edges_def)
  next
    case (Cons ul index)
    obtain u ls where ul: "ul = (u, ls)" by force
    have "index_edges (ul # index) = index_edges index \<union> {(u, link, v) | link v vs. (link, vs) \<in> set ls \<and> v \<in> set vs}"
      by (auto simp: index_edges_def ul)
    with Cons.IH [of "foldl (seed_link threat u) chain ls"] show ?case
      by (auto simp: ul seed_links_edges)
  qed
  from this [of "[]"] show ?thesis by (simp add: inbound_chain_def chain_edges_Nil)
qed

lemma seed_links_keys:
  "fst ` set (foldl (seed_link threat vector) chain links) =
     fst ` set chain \<union> (if \<exists>(relation, targets) \<in> set links. threat \<in> set targets then {vector} else {})"
proof (induction links arbitrary: chain)
  case (Cons rt links)
  obtain relation targets where rt: "rt = (relation, targets)" by force
  have "fst ` set (seed_link threat vector chain (relation, targets)) = fst ` set chain \<union> (if threat \<in> set targets then {vector} else {})"
    by (auto simp: seed_link_def Let_def set_targets_def set_links_def dom_update)
  with Cons.IH [of "seed_link threat vector chain rt"] show ?case by (auto simp: rt)
qed simp

lemma inbound_keys: "fst ` set (inbound_chain index threat) = {u. \<exists>link. (u, link, threat) \<in> index_edges index}"
proof -
  have "fst ` set (foldl (\<lambda>chain (vector, links). foldl (seed_link threat vector) chain links) chain index)
      = fst ` set chain \<union> {u. \<exists>link. (u, link, threat) \<in> index_edges index}" for chain
  proof (induction index arbitrary: chain)
    case Nil
    then show ?case by (simp add: index_edges_def)
  next
    case (Cons ul index)
    obtain u ls where ul: "ul = (u, ls)" by force
    have "index_edges (ul # index) = index_edges index \<union> {(u, link, v) | link v vs. (link, vs) \<in> set ls \<and> v \<in> set vs}"
      by (auto simp: index_edges_def ul)
    with Cons.IH [of "foldl (seed_link threat u) chain ls"] show ?case
      by (auto simp: ul seed_links_keys)
  qed
  from this [of "[]"] show ?thesis by (simp add: inbound_chain_def)
qed

lemma closed_over_trans:
  assumes "closed_over index a b" "closed_over index b c" "chain_edges b \<subseteq> chain_edges c"
  shows "closed_over index a c"
proof (rule closed_overI)
  fix u link v assume "(u, link, v) \<in> chain_edges c" "(u, link, v) \<notin> chain_edges a"
  then show "edges_from index v \<subseteq> chain_edges c"
    using closed_overD [OF assms(1), of u link v] closed_overD [OF assms(2), of u link v] assms(3) by blast
qed

lemma resolver_loop:
  "chain_edges chain \<union> (\<Union>u \<in> set us. edges_from index u) \<subseteq> chain_edges (foldl (\<lambda>c u. chain_resolver index u c) chain us)
   \<and> chain_edges (foldl (\<lambda>c u. chain_resolver index u c) chain us) \<subseteq> chain_edges chain \<union> (\<Union>u \<in> set us. reached_edges index u)
   \<and> closed_over index chain (foldl (\<lambda>c u. chain_resolver index u c) chain us)"
proof (induction us arbitrary: chain)
  case Nil
  then show ?case by (simp add: closed_over_def)
next
  case (Cons u us)
  note r = resolver_facts [where index = index and u = u and chain = chain]
  note i = Cons.IH [where chain = "chain_resolver index u chain"]
  have "closed_over index chain (foldl (\<lambda>c u. chain_resolver index u c) (chain_resolver index u chain) us)"
    using i by (intro closed_over_trans [OF r(3)]) blast+
  moreover have "chain_edges chain \<union> (\<Union>w \<in> set (u # us). edges_from index w)
      \<subseteq> chain_edges (foldl (\<lambda>c u. chain_resolver index u c) (chain_resolver index u chain) us)"
    using r(1) i by (simp only: list.set UN_insert) blast
  moreover have "chain_edges (foldl (\<lambda>c u. chain_resolver index u c) (chain_resolver index u chain) us)
      \<subseteq> chain_edges chain \<union> (\<Union>w \<in> set (u # us). reached_edges index w)"
    using r(2) i by (simp only: list.set UN_insert) blast
  ultimately show ?case by simp
qed

lemma network_is_the_neighbourhood:
  "chain_edges (network_chain (compute_chains threats) threat) =
     (\<Union>u \<in> {u. u = threat \<or> chains_to (compute_chains threats) u threat}. reached_edges (compute_chains threats) u)"
proof -
  define index where "index = compute_chains threats"
  have dict: "dict_chain index" by (simp add: index_def compute_chains_dict)
  have to: "chains_to index u threat \<longleftrightarrow> u \<in> fst ` set (inbound_chain index threat)" for u
    using dict_edges(2) [OF dict] by (auto simp: chains_to_def inbound_keys)
  define seeded where "seeded = foldl (\<lambda>c u. chain_resolver index u c) (inbound_chain index threat) (map fst (inbound_chain index threat))"
  have net: "network_chain index threat = chain_resolver index threat seeded"
    by (simp add: network_chain_def seeded_def Let_def)
  note l = resolver_loop [where chain = "inbound_chain index threat" and us = "map fst (inbound_chain index threat)" and index = index, folded seeded_def]
  note r = resolver_facts [where chain = seeded and index = index and u = threat]
  have from_seed: "edges_from index v \<subseteq> chain_edges (network_chain index threat)"
    if "(u, link, v) \<in> chain_edges (network_chain index threat)" for u link v
  proof (cases "(u, link, v) \<in> chain_edges (inbound_chain index threat)")
    case True
    then have "v = threat" by (simp add: inbound_edges)
    with r(1) net show ?thesis by simp
  next
    case False
    have "closed_over index (inbound_chain index threat) (network_chain index threat)"
      unfolding net by (rule closed_over_trans [of _ _ seeded]) (use l r in blast)+
    from closed_overD [OF this that False] show ?thesis .
  qed
  have "reached_edges index u \<subseteq> chain_edges (network_chain index threat)" if "u = threat \<or> chains_to index u threat" for u
  proof (rule closed_reaches [OF from_seed])
    show "edges_from index u \<subseteq> chain_edges (network_chain index threat)"
      using that l r(1) by (auto simp: net to)
  qed
  moreover have "chain_edges (network_chain index threat) \<subseteq> (\<Union>u \<in> {u. u = threat \<or> chains_to index u threat}. reached_edges index u)"
  proof -
    define before where "before = (\<Union>u \<in> {u. chains_to index u threat}. reached_edges index u)"
    have seeds: "chain_edges (inbound_chain index threat) \<subseteq> before"
    proof
      fix e assume "e \<in> chain_edges (inbound_chain index threat)"
      then obtain u link where e: "e = (u, link, threat)" "(u, link, threat) \<in> index_edges index"
        by (cases e) (auto simp: inbound_edges)
      with dict_edges(2) [OF dict] have "e \<in> edges_from index u" "chains_to index u threat" by (auto simp: chains_to_def)
      then show "e \<in> before" unfolding before_def using reached_first by blast
    qed
    have loop: "(\<Union>u \<in> set (map fst (inbound_chain index threat)). reached_edges index u) \<subseteq> before"
      unfolding before_def using to by (intro UN_mono) auto
    have "chain_edges seeded \<subseteq> chain_edges (inbound_chain index threat)
        \<union> (\<Union>u \<in> set (map fst (inbound_chain index threat)). reached_edges index u)" using l by (elim conjE)
    with seeds loop have "chain_edges seeded \<subseteq> before" by (meson Un_least order_trans)
    with r(2) have "chain_edges (network_chain index threat) \<subseteq> before \<union> reached_edges index threat" unfolding net by auto
    moreover have "before \<union> reached_edges index threat \<subseteq> (\<Union>u \<in> {u. u = threat \<or> chains_to index u threat}. reached_edges index u)"
      by (auto simp: before_def)
    ultimately show ?thesis by (rule order_trans)
  qed
  ultimately show ?thesis unfolding index_def [symmetric] by (intro equalityI UN_least) simp_all
qed

section \<open>The diagram\<close>

lemma dict_resolve: "dict_chain chain \<Longrightarrow> dict_chain (resolve_items index todo chain)"
  by (induction index todo chain rule: resolve_items.induct) (simp_all add: dict_set_targets)

lemma dict_resolver: "dict_chain chain \<Longrightarrow> dict_chain (chain_resolver index u chain)"
  by (simp add: chain_resolver_def dict_resolve)

lemma dict_seed: "dict_chain chain \<Longrightarrow> dict_chain (foldl (seed_link threat vector) chain links)"
  by (induction links arbitrary: chain) (auto simp: seed_link_def Let_def dict_set_targets split: prod.split)

lemma dict_inbound: "dict_chain (inbound_chain index threat)"
proof -
  have "dict_chain (foldl (\<lambda>chain (vector, links). foldl (seed_link threat vector) chain links) chain index)" if "dict_chain chain" for chain
    using that by (induction index arbitrary: chain) (auto simp: dict_seed split: prod.split)
  from this [of "[]"] show ?thesis by (simp add: inbound_chain_def dict_chain_def)
qed

lemma dict_network: "dict_chain (network_chain index threat)"
proof -
  have "dict_chain (foldl (\<lambda>c u. chain_resolver index u c) chain us)" if "dict_chain chain" for chain us
    using that by (induction us arbitrary: chain) (simp_all add: dict_resolver)
  then show ?thesis by (simp add: network_chain_def Let_def dict_resolver dict_inbound)
qed

definition authored_edges :: "string \<Rightarrow> pydict list \<Rightarrow> (string \<times> string \<times> string) set" where
  "authored_edges threat entries =
     {(threat, chaining_relation e, target) | e target. e \<in> set entries \<and> chaining_target e = Some target}"

lemma add_entries:
  assumes "dict_chain chain"
  shows "dict_chain (foldl (add_entry threat) chain entries)
    \<and> chain_edges (foldl (add_entry threat) chain entries) = chain_edges chain \<union> authored_edges threat entries"
  using assms
proof (induction entries arbitrary: chain)
  case Nil
  then show ?case by (simp add: authored_edges_def)
next
  case (Cons e entries)
  have d: "dict_chain (add_entry threat chain e)"
    using Cons.prems by (auto simp: add_entry_def Let_def dict_set_targets split: option.split)
  have "chain_edges (add_entry threat chain e) = chain_edges chain \<union> authored_edges threat [e]"
  proof (cases "chaining_target e")
    case None
    then show ?thesis by (simp add: add_entry_def authored_edges_def)
  next
    case (Some target)
    then have "authored_edges threat [e] = {(threat, chaining_relation e, target)}" by (auto simp: authored_edges_def)
    with Some show ?thesis by (auto simp: add_entry_def Let_def) (simp_all add: chain_edges_def)
  qed
  moreover have "authored_edges threat (e # entries) = authored_edges threat [e] \<union> authored_edges threat entries"
    by (auto simp: authored_edges_def)
  ultimately show ?case using Cons.IH [OF d] by (simp add: Un_assoc)
qed

lemma network_edges_set:
  "set (network_edges chain) = {(source, target, relation_key relation) | source relation target.
     (source, relation, target) \<in> index_edges chain \<and> source \<noteq> [] \<and> target \<noteq> []}"
  unfolding network_edges_def from_keys_facts(2) by (fastforce simp: index_edges_def)

text \<open>
  C25: The diagram of a threat shows its neighbourhood: its edges are drawn once each, and they are exactly those
  reached, by any number of steps and around any cycle, from the threat or from a threat that chains to it, and the links
  the threat was written with; only links from or to an empty uuid are left out. (Graphs whose paths exceed Python's
  recursion limit, where the code settles for a part of the chain, are outside the model.)
\<close>

theorem diagram_shows_the_neighbourhood:
  "distinct (network_edges (chaining_chain (compute_chains threats) threat entries)) \<and>
   set (network_edges (chaining_chain (compute_chains threats) threat entries)) =
     {(source, target, relation_key relation) | source relation target. source \<noteq> [] \<and> target \<noteq> []
        \<and> ((source, relation, target) \<in> authored_edges threat entries
           \<or> (\<exists>u. (u = threat \<or> chains_to (compute_chains threats) u threat)
                 \<and> (source, relation, target) \<in> reached_edges (compute_chains threats) u))}"
proof -
  have "dict_chain (chaining_chain (compute_chains threats) threat entries)"
    and edges: "chain_edges (chaining_chain (compute_chains threats) threat entries)
      = chain_edges (network_chain (compute_chains threats) threat) \<union> authored_edges threat entries"
    using add_entries [OF dict_network] by (simp_all add: chaining_chain_def)
  with dict_edges(1) have "index_edges (chaining_chain (compute_chains threats) threat entries)
      = chain_edges (network_chain (compute_chains threats) threat) \<union> authored_edges threat entries" by metis
  then show ?thesis
    by (intro conjI) (simp add: network_edges_def from_keys_facts(1), auto simp: network_edges_set network_is_the_neighbourhood)
qed

end
