(* ===== verification/Elastic_Durations.thy ===== *)
theory Elastic_Durations
  imports Py_Prelude
begin

text \<open>
  \<open>platforms/elastic/durations.py\<close>: durations as they are written (\<open>1h10m\<close>, \<open>PT1H\<close>) and
  as Kibana takes them. A regular expression of optional groups, one per unit, is a scan whose
  remaining units shrink. An error is \<open>None\<close>.
\<close>

fun unit_seconds :: "char \<Rightarrow> nat" where
  "unit_seconds c =
     (if c = CHR ''d'' then 86400 else if c = CHR ''h'' then 3600 else if c = CHR ''m'' then 60 else 1)"

text \<open>
  \<open>(?:([0-9]+)a)?(?:([0-9]+)b)?...\<close> matched in full: the number of every unit that is present.
\<close>

function scan_units :: "string \<Rightarrow> string \<Rightarrow> (char \<times> nat) list option" where
  "scan_units units s =
     (if s = [] then Some []
      else let digits = takeWhile is_ascii_digit s; rest = dropWhile is_ascii_digit s
           in if digits = [] then None
              else case rest of
                  [] \<Rightarrow> None
                | u # rest' \<Rightarrow>
                    if u \<notin> set units then None
                    else map_option (Cons (u, dec_value digits))
                           (scan_units (tl (dropWhile (\<lambda>c. c \<noteq> u) units)) rest'))"
  by pat_completeness auto
termination
proof (relation "measure (\<lambda>(units, s). length s)")
  fix units s :: string and digits rest u rest'
  assume "rest = dropWhile is_ascii_digit s" "rest = u # rest'"
  then have "Suc (length rest') \<le> length s" by (metis length_Cons length_dropWhile_le)
  then show "((tl (dropWhile (\<lambda>c. c \<noteq> u) units), rest'), (units, s)) \<in> measure (\<lambda>(units, s). length s)"
    by simp
qed simp

definition total_of :: "(char \<times> nat) list \<Rightarrow> nat" where
  "total_of groups = sum_list (map (\<lambda>(u, n). n * unit_seconds u) groups)"

definition iso_unit :: "char \<times> nat \<Rightarrow> char \<times> nat" where
  "iso_unit = (\<lambda>(u, n). (lower_char u, n))"

text \<open>
  \<open>P(?:([0-9]+)D)?(?:T(?=[0-9])(?:([0-9]+)H)?(?:([0-9]+)M)?(?:([0-9]+)S)?)?\<close>: the days before the
  \<open>T\<close>, and a digit after it.
\<close>

definition iso_duration :: "string \<Rightarrow> nat option" where
  "iso_duration value =
     (case value of
        CHR ''P'' # body \<Rightarrow>
          (let (days, has_time, time) = py_partition ''T'' body in
           if has_time \<and> (time = [] \<or> \<not> is_ascii_digit (hd time)) then None
           else case (scan_units ''D'' days, scan_units ''HMS'' time) of
                  (Some ds, Some ts) \<Rightarrow> Some (total_of (map iso_unit (ds @ ts)))
                | _ \<Rightarrow> None)
      | _ \<Rightarrow> None)"

definition duration_seconds :: "string \<Rightarrow> bool \<Rightarrow> nat option" where
  "duration_seconds value allow_zero =
     (let amount =
        (case scan_units ''dhms'' value of
           Some groups \<Rightarrow> if value = [] then None else Some (total_of groups)
         | None \<Rightarrow> if value \<in> {''P'', ''PT''} then None else iso_duration value)
      in case amount of
           None \<Rightarrow> None
         | Some n \<Rightarrow> if n = 0 \<and> \<not> allow_zero then None else Some n)"

fun largest_unit :: "string \<Rightarrow> nat \<Rightarrow> (nat \<times> char) option" where
  "largest_unit [] amount = None"
| "largest_unit (u # units) amount =
     (if amount mod unit_seconds u = 0 then Some (amount div unit_seconds u, u) else largest_unit units amount)"

definition amount_unit :: "nat \<times> char \<Rightarrow> string" where
  "amount_unit = (\<lambda>(n, u). nat_str n @ [u])"

definition format_duration :: "nat \<Rightarrow> string option" where
  "format_duration amount =
     (if amount = 0 then Some ''0s'' else map_option amount_unit (largest_unit ''dhms'' amount))"

definition elastic_duration :: "string \<Rightarrow> string \<Rightarrow> (nat \<times> char) option" where
  "elastic_duration value units = Option.bind (duration_seconds value False) (largest_unit units)"

definition date_math :: "string \<Rightarrow> string \<Rightarrow> string option" where
  "date_math value units = map_option amount_unit (elastic_duration value units)"

declare scan_units.simps [simp del]



section \<open>Reading what is written\<close>

lemma is_digit_nat_str: "list_all is_ascii_digit (nat_str n)"
  using nat_str_digits by (auto simp: list_all_iff)

lemma scan_nil: "scan_units units [] = Some []"
  by (subst scan_units.simps) simp

lemma scan_one: "u \<in> set units \<Longrightarrow> \<not> is_ascii_digit u \<Longrightarrow> scan_units units (nat_str n @ [u]) = Some [(u, n)]"
proof -
  assume u: "u \<in> set units" "\<not> is_ascii_digit u"
  have "takeWhile is_ascii_digit (nat_str n @ [u]) = nat_str n" "dropWhile is_ascii_digit (nat_str n @ [u]) = [u]"
    using is_digit_nat_str [of n] u(2) by (auto simp: list_all_iff takeWhile_append dropWhile_append simp del: nat_str.simps)
  then show ?thesis
    using u(1) by (subst scan_units.simps) (simp add: scan_nil del: nat_str.simps)
qed

lemma units_plain: "u \<in> set ''dhms'' \<Longrightarrow> \<not> is_ascii_digit u"
  by (auto simp: is_ascii_digit_def)

lemma read_amount: "u \<in> set ''dhms'' \<Longrightarrow> 0 < n * unit_seconds u \<or> zero \<Longrightarrow>
    duration_seconds (amount_unit (n, u)) zero = Some (n * unit_seconds u)"
  using scan_one [OF _ units_plain, of u "''dhms''" n]
  by (auto simp: duration_seconds_def amount_unit_def total_of_def Let_def simp del: nat_str.simps)

lemma largest_unit_spec:
  "largest_unit units k = Some (n, u) \<Longrightarrow> u \<in> set units \<and> n * unit_seconds u = k"
  by (induction units) (auto split: if_splits simp del: unit_seconds.simps)

lemma largest_unit_total: "CHR ''s'' \<in> set units \<Longrightarrow> largest_unit units k \<noteq> None"
  by (induction units) auto

lemma format_reads:
  "\<exists>s. format_duration k = Some s \<and> duration_seconds s True = Some k \<and> (0 < k \<longrightarrow> duration_seconds s False = Some k)"
proof (cases "k = 0")
  case True
  have "duration_seconds ''0s'' True = Some 0" by code_simp
  with True show ?thesis by (simp add: format_duration_def)
next
  case False
  obtain n u where l: "largest_unit ''dhms'' k = Some (n, u)"
    using largest_unit_total [of "''dhms''" k] by auto
  with False show ?thesis
    using largest_unit_spec [OF l] read_amount [of u n] by (auto simp: format_duration_def simp del: unit_seconds.simps)
qed

lemma date_math_reads:
  assumes "duration_seconds v False = Some n"
  shows "0 < n" "\<exists>s. date_math v ''dhms'' = Some s \<and> duration_seconds s False = Some n \<and> format_duration n = Some s"
proof -
  show pos: "0 < n" using assms by (auto simp: duration_seconds_def Let_def split: option.splits if_splits)
  obtain a u where lu: "largest_unit ''dhms'' n = Some (a, u)"
    using largest_unit_total [of "''dhms''" n] by auto
  with assms pos show "\<exists>s. date_math v ''dhms'' = Some s \<and> duration_seconds s False = Some n \<and> format_duration n = Some s"
    using largest_unit_spec [OF lu] read_amount [of u a]
    by (auto simp: format_duration_def date_math_def elastic_duration_def simp del: unit_seconds.simps)
qed

text \<open>
  Durations are written so that they are read back: formatting a number of seconds always
  succeeds and reading the text gives that number, and the date math of a duration is a duration of
  the same length, written with the largest unit that divides it.
\<close>

theorem duration_roundtrip:
  "(\<exists>s. format_duration k = Some s \<and> duration_seconds s True = Some k
      \<and> (0 < k \<longrightarrow> duration_seconds s False = Some k))
   \<and> (\<forall>n. duration_seconds v False = Some n \<longrightarrow>
        (\<exists>s. date_math v ''dhms'' = Some s \<and> duration_seconds s False = Some n \<and> format_duration n = Some s))"
  using format_reads [of k] date_math_reads(2) by blast

lemma duration_roundtrip_witness:
  "\<exists>s. date_math ''PT1H30M'' ''dhms'' = Some s \<and> duration_seconds s False = Some 5400"
proof -
  have "duration_seconds ''PT1H30M'' False = Some 5400" by code_simp
  then show ?thesis using duration_roundtrip [where v = "''PT1H30M''"] by blast
qed

end
