(* ===== verification/Sentinel_Durations.thy ===== *)
theory Sentinel_Durations
  imports Elastic_Durations Deploy_Run
begin

text \<open>
  The durations of \<open>platforms/sentinel/client.py\<close>: what a rule may write (\<open>1h10m\<close>, \<open>PT1H10M\<close>), as a number of
  seconds, and the ISO 8601 text that is sent. \<open>timedelta\<close> holds up to 999999999 days. An integer that \<open>int\<close>
  refuses for its length is not told from one that is too big.
\<close>

section \<open>Reading\<close>

definition sentinel_unit :: "char \<Rightarrow> nat" where
  "sentinel_unit u = (if u = CHR ''w'' then 604800 else unit_seconds u)"

definition timedelta_limit :: nat where
  "timedelta_limit = 86400 * 1000000000"

definition timedelta :: "(char \<times> nat) list \<Rightarrow> Exn + nat" where
  "timedelta parts =
     (let amount = sum_list (map (\<lambda>(u, n). n * sentinel_unit u) parts) in
      if timedelta_limit \<le> amount then Inl (exn Code_Error ''OverflowError'') else Inr amount)"

text \<open>The groups of \<open>_ISO_DURATION\<close>, which ignores case, of a text that does not end in \<open>T\<close>.\<close>

definition iso_parts :: "string \<Rightarrow> (char \<times> nat) list option" where
  "iso_parts s =
     (case py_lower s of
        CHR ''p'' # body \<Rightarrow>
          (let (days, has_time, time) = py_partition ''t'' body in
           if has_time \<and> time = [] then None
           else case (scan_units ''wd'' days, scan_units ''hms'' time) of
                  (Some ds, Some ts) \<Rightarrow> Some (ds @ ts)
                | _ \<Rightarrow> None)
      | _ \<Rightarrow> None)"

definition duration_error :: Exn where
  "duration_error = exn Rule_Error ''is not an ISO 8601 duration (PT1H, PT30M, P1D) or a shorthand duration (30m, 1h, 1d, 1h10m)''"

definition iso_duration_timedelta :: "string \<Rightarrow> Exn + nat" where
  "iso_duration_timedelta duration =
     (let s = py_strip duration in
      case scan_units ''dhms'' s of
        Some (g # gs) \<Rightarrow> timedelta (g # gs)
      | _ \<Rightarrow> (case iso_parts s of Some (g # gs) \<Rightarrow> timedelta (g # gs) | _ \<Rightarrow> Inl duration_error))"

section \<open>Writing\<close>

definition two :: "nat \<Rightarrow> string" where
  "two n = pad 2 (nat_str n)"

definition duration_isoformat :: "nat \<Rightarrow> string" where
  "duration_isoformat duration =
     (let days = duration div 86400;
          hours = duration mod 86400 div 3600;
          minutes = duration mod 86400 mod 3600 div 60;
          seconds = duration mod 86400 mod 3600 mod 60;
          text = ''P'' @ (if days \<noteq> 0 then nat_str days @ ''D'' else []) @
            (if hours \<noteq> 0 \<or> minutes \<noteq> 0 \<or> seconds \<noteq> 0
             then ''T'' @ (if days \<noteq> 0 \<or> hours \<noteq> 0 then two hours @ ''H'' else [])
               @ (if days \<noteq> 0 \<or> hours \<noteq> 0 \<or> minutes \<noteq> 0 then two minutes @ ''M'' else []) @ two seconds @ ''S''
             else [])
      in if text \<noteq> ''P'' then text else ''PT0S'')"

text \<open>\<open>duration\<close> of \<open>compile_deployment\<close>\<close>

definition iso_text :: "string \<Rightarrow> Exn + string" where
  "iso_text v = rbind (iso_duration_timedelta v) (\<lambda>n. Inr (duration_isoformat n))"

section \<open>Reading what is written\<close>

lemma scan_step:
  assumes "list_all is_ascii_digit ds" "ds \<noteq> []" "u \<in> set units" "\<not> is_ascii_digit u"
  shows "scan_units units (ds @ u # rest) =
    map_option (Cons (u, dec_value ds)) (scan_units (tl (dropWhile (\<lambda>c. c \<noteq> u) units)) rest)"
proof -
  have "takeWhile is_ascii_digit (ds @ u # rest) = ds" "dropWhile is_ascii_digit (ds @ u # rest) = u # rest"
    using assms(1,4) by (auto simp: list_all_iff takeWhile_append dropWhile_append)
  with assms(2,3) show ?thesis by (subst scan_units.simps) simp
qed

lemma two_digits: "list_all is_ascii_digit (two n)" "two n \<noteq> []"
  using is_digit_nat_str [of n] by (auto simp: two_def pad_def list_all_iff is_ascii_digit_def)

lemma dec_value_pad: "dec_value (pad w s) = dec_value s"
proof -
  have "foldl (\<lambda>n c. 10 * n + (of_char c - 48)) 0 (replicate k CHR ''0'' @ s) = foldl (\<lambda>n c. 10 * n + (of_char c - 48)) (0 :: nat) s" for k
    by (induction k) simp_all
  then show ?thesis by (simp add: dec_value_def pad_def)
qed

lemma dec_value_two [simp]: "dec_value (two n) = n"
  by (simp add: two_def dec_value_pad)

lemma partition_found: "t \<notin> set xs \<Longrightarrow> py_partition [t] (xs @ t # ys) = (xs, True, ys)"
proof -
  have "t \<notin> set xs \<Longrightarrow> partition_acc [t] acc (xs @ t # ys) = (rev acc @ xs, True, ys)" for acc
    by (induction xs arbitrary: acc) auto
  then show "t \<notin> set xs \<Longrightarrow> ?thesis" by (simp add: py_partition_def)
qed

lemma partition_missing: "t \<notin> set xs \<Longrightarrow> py_partition [t] xs = (xs, False, [])"
proof -
  have "t \<notin> set xs \<Longrightarrow> partition_acc [t] acc xs = (rev acc @ xs, False, [])" for acc
    by (induction xs arbitrary: acc) auto
  then show "t \<notin> set xs \<Longrightarrow> ?thesis" by (simp add: py_partition_def)
qed

lemma lower_digits: "list_all is_ascii_digit ds \<Longrightarrow> py_lower ds = ds"
  by (induction ds) (auto simp: py_lower_def lower_char_def is_ascii_digit_def Let_def)

lemma digits_lower [simp]: "py_lower (nat_str n) = nat_str n" "py_lower (two n) = two n"
  by (simp_all add: lower_digits is_digit_nat_str two_digits)

lemma letter_facts [simp]:
  "\<not> is_ascii_digit CHR ''d''" "\<not> is_ascii_digit CHR ''t''" "\<not> is_ascii_digit CHR ''h''" "\<not> is_ascii_digit CHR ''m''"
  "\<not> is_ascii_digit CHR ''s''" "\<not> is_py_space CHR ''P''" "\<not> is_py_space CHR ''D''" "\<not> is_py_space CHR ''S''"
  "lower_char CHR ''P'' = CHR ''p''" "lower_char CHR ''D'' = CHR ''d''" "lower_char CHR ''T'' = CHR ''t''"
  "lower_char CHR ''H'' = CHR ''h''" "lower_char CHR ''M'' = CHR ''m''" "lower_char CHR ''S'' = CHR ''s''"
  by code_simp+

lemma lower_Cons: "py_lower (c # s) = lower_char c # py_lower s" and lower_app: "py_lower (s @ t) = py_lower s @ py_lower t"
  and lower_Nil: "py_lower [] = []"
  by (simp_all add: py_lower_def)

lemma no_letter: "\<not> is_ascii_digit t \<Longrightarrow> list_all is_ascii_digit ds \<Longrightarrow> t \<notin> set ds"
  by (auto simp: list_all_iff)

lemma strip_same: "s \<noteq> [] \<Longrightarrow> \<not> is_py_space (hd s) \<Longrightarrow> \<not> is_py_space (last s) \<Longrightarrow> py_strip s = s"
proof -
  assume s: "s \<noteq> []" "\<not> is_py_space (hd s)" "\<not> is_py_space (last s)"
  then have "py_lstrip s = s" by (cases s) (simp_all add: py_lstrip_def)
  moreover have "py_rstrip s = s" using s by (cases s rule: rev_cases) (simp_all add: py_rstrip_def)
  ultimately show ?thesis by (simp add: py_strip_def)
qed

text \<open>The days and the time of a duration, in lower case.\<close>

definition day_text :: "nat \<Rightarrow> string" where
  "day_text days = (if days \<noteq> 0 then nat_str days @ ''d'' else [])"

definition day_part :: "nat \<Rightarrow> (char \<times> nat) list" where
  "day_part days = (if days \<noteq> 0 then [(CHR ''d'', days)] else [])"

lemma scan_days: "scan_units ''wd'' (day_text days) = Some (day_part days)"
  using scan_step [OF is_digit_nat_str nat_str_not_Nil, of "CHR ''d''" "''wd''" days "[]"]
  by (simp add: day_text_def day_part_def scan_nil)

lemma no_t_in_days: "CHR ''t'' \<notin> set (day_text days)"
  using no_letter [of "CHR ''t''"] is_digit_nat_str [of days] by (simp add: day_text_def)

lemma scan_time:
  "scan_units ''hms'' (two h @ ''h'' @ two m @ ''m'' @ two s @ ''s'') = Some [(CHR ''h'', h), (CHR ''m'', m), (CHR ''s'', s)]"
  "scan_units ''hms'' (two m @ ''m'' @ two s @ ''s'') = Some [(CHR ''m'', m), (CHR ''s'', s)]"
  "scan_units ''hms'' (two s @ ''s'') = Some [(CHR ''s'', s)]"
  using scan_step [OF two_digits] by (simp_all add: scan_nil)

lemma iso_parts_with_time:
  assumes "py_lower x = ''p'' @ day_text days @ ''t'' @ t" "t \<noteq> []" "scan_units ''hms'' t = Some ts"
  shows "iso_parts x = Some (day_part days @ ts)"
  using assms partition_found [OF no_t_in_days, of days t] by (simp add: iso_parts_def scan_days)

lemma iso_parts_days: "py_lower x = ''p'' @ day_text days \<Longrightarrow> iso_parts x = Some (day_part days)"
  using partition_missing [OF no_t_in_days, of days] by (simp add: iso_parts_def scan_days scan_nil)

lemma read_iso:
  assumes "x = CHR ''P'' # r" "\<not> is_py_space (last x)" "iso_parts x = Some parts" "parts \<noteq> []"
  shows "iso_duration_timedelta x = timedelta parts"
proof -
  have "py_strip x = x" using assms(1,2) by (intro strip_same) simp_all
  moreover have "scan_units ''dhms'' x = None" using assms(1) by (subst scan_units.simps) (simp add: is_ascii_digit_def)
  ultimately show ?thesis using assms(3,4) by (cases parts) (simp_all add: iso_duration_timedelta_def)
qed

lemma split_duration:
  "n div 86400 * 86400 + n mod 86400 div 3600 * 3600 + n mod 86400 mod 3600 div 60 * 60 + n mod 86400 mod 3600 mod 60 = (n :: nat)"
  by presburger

lemma duration_roundtrips:
  assumes "n < timedelta_limit"
  shows "iso_duration_timedelta (duration_isoformat n) = Inr n"
proof -
  define d where "d = n div 86400"
  define h where "h = n mod 86400 div 3600"
  define m where "m = n mod 86400 mod 3600 div 60"
  define s where "s = n mod 86400 mod 3600 mod 60"
  have n: "d * 86400 + h * 3600 + m * 60 + s = n" unfolding d_def h_def m_def s_def by (rule split_duration)
  note iso = duration_isoformat_def Let_def d_def [symmetric] h_def [symmetric] m_def [symmetric] s_def [symmetric]
  have total: "timedelta parts = Inr n" if "sum_list (map (\<lambda>(u, k). k * sentinel_unit u) parts) = n" for parts
    using that assms by (simp add: timedelta_def Let_def)
  consider (zero) "n = 0" | (days) "d \<noteq> 0" "h = 0" "m = 0" "s = 0" | (hours) "d \<noteq> 0 \<or> h \<noteq> 0" "\<not> (h = 0 \<and> m = 0 \<and> s = 0)"
    | (minutes) "d = 0" "h = 0" "m \<noteq> 0" | (seconds) "d = 0" "h = 0" "m = 0" "s \<noteq> 0"
    using n by (cases "d = 0"; cases "h = 0"; cases "m = 0"; cases "s = 0"; simp)
  then show ?thesis
  proof cases
    case zero
    have "iso_parts ''PT0S'' = Some [(CHR ''s'', 0)]" by code_simp
    then have "iso_duration_timedelta ''PT0S'' = timedelta [(CHR ''s'', 0)]" by (intro read_iso) simp_all
    with zero show ?thesis by (simp add: duration_isoformat_def timedelta_def timedelta_limit_def)
  next
    case days
    then have x: "duration_isoformat n = CHR ''P'' # nat_str d @ ''D''" by (simp add: iso)
    have "iso_parts (CHR ''P'' # nat_str d @ ''D'') = Some (day_part d)"
      by (rule iso_parts_days) (use days in \<open>simp add: lower_Cons lower_app lower_Nil day_text_def\<close>)
    then have "iso_duration_timedelta (duration_isoformat n) = timedelta [(CHR ''d'', d)]"
      unfolding x using days by (intro read_iso) (simp_all add: day_part_def)
    with total [of "[(CHR ''d'', d)]"] n days show ?thesis by (simp add: sentinel_unit_def)
  next
    case hours
    then have x: "duration_isoformat n = CHR ''P'' # (if d \<noteq> 0 then nat_str d @ ''D'' else []) @ ''T'' @ two h @ ''H'' @ two m @ ''M'' @ two s @ ''S''"
      by (auto simp add: iso)
    have "iso_parts (duration_isoformat n) = Some (day_part d @ [(CHR ''h'', h), (CHR ''m'', m), (CHR ''s'', s)])"
      by (rule iso_parts_with_time [where t = "two h @ ''h'' @ two m @ ''m'' @ two s @ ''s''"])
        (simp_all add: x lower_Cons lower_app lower_Nil day_text_def scan_time [simplified] two_digits)
    then have "iso_duration_timedelta (duration_isoformat n) = timedelta (day_part d @ [(CHR ''h'', h), (CHR ''m'', m), (CHR ''s'', s)])"
      by (intro read_iso) (simp_all add: x)
    with total n show ?thesis by (simp add: sentinel_unit_def day_part_def)
  next
    case minutes
    then have x: "duration_isoformat n = CHR ''P'' # ''T'' @ two m @ ''M'' @ two s @ ''S''" by (simp add: iso)
    have "iso_parts (duration_isoformat n) = Some (day_part 0 @ [(CHR ''m'', m), (CHR ''s'', s)])"
      by (rule iso_parts_with_time [where t = "two m @ ''m'' @ two s @ ''s''"])
        (simp_all add: x lower_Cons lower_app lower_Nil day_text_def scan_time [simplified] two_digits)
    then have "iso_duration_timedelta (duration_isoformat n) = timedelta [(CHR ''m'', m), (CHR ''s'', s)]"
      by (intro read_iso) (simp_all add: x day_part_def)
    with total n minutes show ?thesis by (simp add: sentinel_unit_def)
  next
    case seconds
    then have x: "duration_isoformat n = CHR ''P'' # ''T'' @ two s @ ''S''" by (simp add: iso)
    have "iso_parts (duration_isoformat n) = Some (day_part 0 @ [(CHR ''s'', s)])"
      by (rule iso_parts_with_time [where t = "two s @ ''s''"])
        (simp_all add: x lower_Cons lower_app lower_Nil day_text_def scan_time [simplified] two_digits)
    then have "iso_duration_timedelta (duration_isoformat n) = timedelta [(CHR ''s'', s)]"
      by (intro read_iso) (simp_all add: x day_part_def)
    with total n seconds show ?thesis by (simp add: sentinel_unit_def)
  qed
qed

text \<open>
  A duration is sent so that it is read back: the ISO 8601 text of any number of seconds that a \<open>timedelta\<close>
  holds is read as that number, so what a rule wrote as \<open>1h10m\<close> and what is sent as \<open>PT01H10M00S\<close> are the same time.
\<close>

theorem sentinel_duration_is_read_back:
  assumes "n < timedelta_limit"
  shows "iso_duration_timedelta (duration_isoformat n) = Inr n"
  using assms by (rule duration_roundtrips)

lemma sentinel_duration_is_read_back_witness:
  "iso_duration_timedelta ''1h10m'' = Inr 4200 \<and> duration_isoformat 4200 = ''PT01H10M00S'' \<and> iso_duration_timedelta ''PT01H10M00S'' = Inr 4200"
proof -
  have "scan_units ''dhms'' ''1h10m'' = Some [(CHR ''h'', 1), (CHR ''m'', 10)]" "py_strip ''1h10m'' = ''1h10m''" by code_simp+
  moreover have "two 1 = ''01''" "two 10 = ''10''" "two 0 = ''00''" by code_simp+
  ultimately have a: "iso_duration_timedelta ''1h10m'' = Inr 4200" "duration_isoformat 4200 = ''PT01H10M00S''"
    by (simp_all add: iso_duration_timedelta_def timedelta_def timedelta_limit_def sentinel_unit_def duration_isoformat_def)
  have "iso_duration_timedelta (duration_isoformat 4200) = Inr 4200"
    by (rule sentinel_duration_is_read_back) (simp add: timedelta_limit_def)
  with a show ?thesis by simp
qed

end
