(* ===== verification/Sentinel_Rules.thy ===== *)
theory Sentinel_Rules
  imports Kql Object_Relations Sentinel_Durations
begin

text \<open>
  \<open>platforms/sentinel/deployer.py\<close>: a rule as the ARM body of an alert rule. The techniques a rule inherits are
  those of \<open>Object_Relations\<close>; the \<open>att&ck\<close> vocabulary is the index of \<open>get_vocab_entry\<close>, and the ids of
  ATT&CK v18 are a parameter. A text is at most 8-bit characters.
\<close>

section \<open>Vocabularies\<close>

text \<open>The entries of a vocabulary by identifier, and the \<open>stages\<close> of its metadata.\<close>

record Vocab =
  vo_entries :: "(string \<times> pydict) list"
  vo_stages :: pyval

type_synonym vocab_index = "(string \<times> Vocab) list"

definition index_key :: "string \<Rightarrow> string" where
  "index_key vocab = hd (py_split ''::'' vocab)"

definition stage_ids :: "Vocab \<Rightarrow> pyval list" where
  "stage_ids v =
     (case vo_stages v of
        PList xs \<Rightarrow> List.map_filter (\<lambda>s. case s of PDict d \<Rightarrow> dget d ''id'' | _ \<Rightarrow> None) xs
      | _ \<Rightarrow> [])"

definition strip_vocab_stage_prefix :: "vocab_index \<Rightarrow> string \<Rightarrow> string \<Rightarrow> string" where
  "strip_vocab_stage_prefix index vocab identifier =
     (case map_of index (index_key vocab) of
        None \<Rightarrow> identifier
      | Some v \<Rightarrow>
          let (first, found, tail) = py_partition ''::'' identifier
          in if found \<and> PStr first \<in> set (stage_ids v) then tail else identifier)"

definition resolve_vocab_identifier :: "vocab_index \<Rightarrow> string \<Rightarrow> string \<Rightarrow> string" where
  "resolve_vocab_identifier index vocab identifier =
     (case map_of index (index_key vocab) of
        Some v \<Rightarrow> if map_of (vo_entries v) identifier \<noteq> None then identifier
                  else strip_vocab_stage_prefix index vocab identifier
      | None \<Rightarrow> strip_vocab_stage_prefix index vocab identifier)"

text \<open>The value of a field of an entry; line breaks are dropped unless \<open>newlines\<close>.\<close>

definition entry_value :: "pydict \<Rightarrow> string option \<Rightarrow> bool \<Rightarrow> pyval" where
  "entry_value entry field newlines =
     (case field of
        None \<Rightarrow> PDict entry
      | Some f \<Rightarrow>
          (case dget_none entry f of
             PNone \<Rightarrow> PStr []
           | PStr s \<Rightarrow> PStr (if newlines then s else filter (\<lambda>c. c \<noteq> CHR 0x0A) s)
           | v \<Rightarrow> v))"

definition get_vocab_entry :: "vocab_index \<Rightarrow> string \<Rightarrow> string \<Rightarrow> string option \<Rightarrow> bool \<Rightarrow> pyval" where
  "get_vocab_entry index vocab identifier field newlines =
     (case map_of index vocab of
        None \<Rightarrow> PStr []
      | Some v \<Rightarrow>
          let i = resolve_vocab_identifier index vocab identifier in
          case map_of (vo_entries v) i of
            Some entry \<Rightarrow> entry_value entry field newlines
          | None \<Rightarrow>
              (case find (\<lambda>(_, e). dget_none e ''legacy'' = PStr i) (vo_entries v) of
                 Some (_, entry) \<Rightarrow> entry_value entry field newlines
               | None \<Rightarrow> PStr []))"

section \<open>Tactics and techniques\<close>

definition sentinel_tactics :: "string list" where
  "sentinel_tactics =
     [''Reconnaissance'', ''ResourceDevelopment'', ''InitialAccess'', ''Execution'', ''Persistence'',
      ''PrivilegeEscalation'', ''DefenseEvasion'', ''CredentialAccess'', ''Discovery'', ''LateralMovement'',
      ''Collection'', ''Exfiltration'', ''CommandAndControl'', ''Impact'', ''PreAttack'', ''ImpairProcessControl'',
      ''InhibitResponseFunction'']"

definition sentinel_tactic_aliases :: "(string \<times> string) list" where
  "sentinel_tactic_aliases =
     [(''Stealth'', ''DefenseEvasion''), (''DefenseImpairment'', ''DefenseEvasion''), (''Evasion'', ''DefenseEvasion'')]"

text \<open>\<open>str.title\<close>: a letter after a letter in lower case, any other in upper case.\<close>

definition is_cased :: "char \<Rightarrow> bool" where
  "is_cased c = (let n = (of_char c :: nat) in
     (65 \<le> n \<and> n \<le> 90) \<or> (97 \<le> n \<and> n \<le> 122) \<or> n \<in> {170, 181, 186} \<or> (192 \<le> n \<and> n \<noteq> 215 \<and> n \<noteq> 247))"

definition title_char :: "char \<Rightarrow> string" where
  "title_char c = (if (of_char c :: nat) = 223 then ''Ss'' else upper_char c)"

fun title_from :: "bool \<Rightarrow> string \<Rightarrow> string" where
  "title_from after [] = []"
| "title_from after (c # s) = (if after then [lower_char c] else title_char c) @ title_from (is_cased c) s"

definition py_title :: "string \<Rightarrow> string" where
  "py_title s = title_from False s"

definition sentinel_tactic :: "string \<Rightarrow> string option" where
  "sentinel_tactic stage =
     (let named = py_strip (filter (\<lambda>c. c \<noteq> CHR '' '') (py_title stage));
          tactic = (case map_of sentinel_tactic_aliases named of None \<Rightarrow> named | Some t \<Rightarrow> t)
      in if tactic \<in> set sentinel_tactics then Some tactic else None)"

definition split_techniques :: "string list \<Rightarrow> string list \<times> string list" where
  "split_techniques identifiers =
     (from_keys (map (\<lambda>i. hd (py_split ''.'' i)) identifiers), from_keys (filter (\<lambda>i. CHR ''.'' \<in> set i) identifiers))"

definition v18_sub_techniques :: "(string \<Rightarrow> bool) \<Rightarrow> string list \<Rightarrow> string list" where
  "v18_sub_techniques known subs = filter known subs"

text \<open>A stage that is not a text has no \<open>title\<close>.\<close>

definition stage_tactic :: "pyval \<Rightarrow> Exn + string list" where
  "stage_tactic stage =
     (case stage of
        PStr s \<Rightarrow> Inr (case sentinel_tactic s of None \<Rightarrow> [] | Some t \<Rightarrow> [t])
      | _ \<Rightarrow> Inl (exn Code_Error ''AttributeError''))"

definition technique_stages :: "vocab_index \<Rightarrow> string \<Rightarrow> Exn + pyval list" where
  "technique_stages index technique =
     (let v = get_vocab_entry index ''att&ck'' technique (Some ''tide.vocab.stages'') False in
      if \<not> truthy v then Inr []
      else case v of PStr s \<Rightarrow> Inr [PStr s] | PList xs \<Rightarrow> Inr xs | PDict d \<Rightarrow> Inr (map fst d)
           | _ \<Rightarrow> Inl (exn Code_Error ''TypeError''))"

definition sentinel_technique_tactics :: "vocab_index \<Rightarrow> string \<Rightarrow> Exn + string list" where
  "sentinel_technique_tactics index technique =
     rbind (technique_stages index technique) (\<lambda>stages. rbind (rmap stage_tactic stages) (\<lambda>ts. Inr (concat ts)))"

section \<open>The block of a rule\<close>

datatype sentinel_suppression = Suppressed_For string | Suppression bool

record SentinelAlert =
  sa_title :: "string option"
  sa_description :: "string option"
  sa_severity :: "string option"
  sa_suppression :: sentinel_suppression
  sa_create_incident :: bool
  sa_tactics :: "string list option"
  sa_techniques :: "string list option"
  sa_custom_details :: "(string \<times> string) list option"
  sa_dynamic_properties :: "(string \<times> string) list option"

record SentinelAlertGrouping =
  ag_enabled :: bool
  ag_reopen :: "bool option"
  ag_lookback :: "string option"
  ag_matching :: "string option"
  ag_entities :: "string list option"
  ag_alert_details :: "string list option"
  ag_custom_details :: "string list option"

record SentinelScheduling =
  sch_nrt :: "bool option"
  sch_frequency :: "string option"
  sch_lookback :: "string option"

record SentinelConfig =
  se_status :: string
  se_query :: string
  se_scheduling :: SentinelScheduling
  se_alert :: SentinelAlert
  se_exclusions :: "KqlExclusion list option"
  se_template :: "(string \<times> string) option"
  se_trigger :: "(string \<times> int) option"
  se_grouping :: "(string \<times> SentinelAlertGrouping option) option"
  se_entities :: "(string \<times> (string \<times> string) list) list option"

text \<open>\<open>sm_responds\<close>: the rule has a \<open>response\<close> block.\<close>

record SentinelMdr = "SentinelConfig Mdr" +
  sm_responds :: bool

section \<open>Errors\<close>

text \<open>\<open>SentinelCompileError(data, code, reason, hint, field=...)\<close>, or another exception.\<close>

datatype sentinel_fault = SentinelCompileError string string "string option" "string list" | OtherFault Exn

definition fault_exn :: "'b RuleRef_scheme \<Rightarrow> sentinel_fault \<Rightarrow> Exn" where
  "fault_exn data fault =
     (case fault of
        OtherFault e \<Rightarrow> e
      | SentinelCompileError code reason hint field \<Rightarrow>
          exn Rule_Error (''Rule '' @ ref_uuid data @ '' ('' @ ref_name data @ ''): ''
            @ (case hint of None \<Rightarrow> reason | Some h \<Rightarrow> if h = [] then reason else reason @ ''; '' @ h)))"

definition missing_field :: "string \<Rightarrow> string \<Rightarrow> sentinel_fault" where
  "missing_field field requirement =
     SentinelCompileError ''compile_missing_field'' (''configurations.sentinel.'' @ field @ '' is missing'') (Some requirement)
       (''configurations'' # ''sentinel'' # py_split ''.'' field)"

definition plain :: "Exn + 'a \<Rightarrow> sentinel_fault + 'a" where
  "plain r = (case r of Inl e \<Rightarrow> Inl (OtherFault e) | Inr x \<Rightarrow> Inr x)"

section \<open>The properties of an alert rule\<close>

definition put :: "string \<Rightarrow> pyval \<Rightarrow> pydict \<Rightarrow> pydict" where
  "put k v d = AList.update (PStr k) v d"

definition texts :: "string list \<Rightarrow> pyval" where
  "texts xs = PList (map PStr xs)"

definition or_none :: "('a \<Rightarrow> pyval) \<Rightarrow> 'a option \<Rightarrow> pyval" where
  "or_none f x = (case x of None \<Rightarrow> PNone | Some v \<Rightarrow> f v)"

definition some_text :: "string option \<Rightarrow> bool" where
  "some_text x = (x \<noteq> None \<and> x \<noteq> Some [])"

definition suppression_properties :: "SentinelAlert \<Rightarrow> sentinel_fault + (string \<times> pyval) list" where
  "suppression_properties alert =
     (case sa_suppression alert of
        Suppressed_For v \<Rightarrow> rbind (plain (iso_text v)) (\<lambda>d.
          Inr [(''suppressionEnabled'', PBool True), (''suppressionDuration'', PStr d)])
      | Suppression False \<Rightarrow> rbind (plain (iso_text ''1h'')) (\<lambda>d.
          Inr [(''suppressionEnabled'', PBool False), (''suppressionDuration'', PStr d)])
      | Suppression True \<Rightarrow>
          Inl (SentinelCompileError ''compile_invalid_value'' ''configurations.sentinel.alert.suppression is true''
            (Some ''set it to false or a duration such as PT1H'') [''configurations'', ''sentinel'', ''alert'', ''suppression'']))"

definition schedule_properties :: "SentinelConfig \<Rightarrow> sentinel_fault + string \<times> (string \<times> pyval) list" where
  "schedule_properties c =
     (let sched = se_scheduling c in
      if sch_nrt sched = Some True then Inr (''NRT'', [])
      else if \<not> some_text (sch_frequency sched) then Inl (missing_field ''scheduling.frequency'' ''required unless scheduling.nrt is true'')
      else if \<not> some_text (sch_lookback sched) then Inl (missing_field ''scheduling.lookback'' ''required unless scheduling.nrt is true'')
      else rbind (plain (iso_text (the (sch_frequency sched)))) (\<lambda>f.
           rbind (plain (iso_text (the (sch_lookback sched)))) (\<lambda>p.
             Inr (''Scheduled'', [(''queryFrequency'', PStr f), (''queryPeriod'', PStr p)]
               @ (case se_trigger c of
                    None \<Rightarrow> []
                  | Some (operator, threshold) \<Rightarrow> [(''triggerThreshold'', PInt threshold), (''triggerOperator'', PStr operator)])))))"

definition override_step :: "pydict \<times> pyval list \<Rightarrow> string \<times> string \<Rightarrow> pydict \<times> pyval list" where
  "override_step = (\<lambda>(d, found) (name, column).
     if name = ''Tactics'' then (put ''alertTacticsColumnName'' (PStr column) d, found)
     else if name = ''Severity'' then (put ''alertSeverityColumnName'' (PStr column) d, found)
     else (d, found @ [jobj [(''alertProperty'', PStr name), (''value'', PStr column)]]))"

definition details_override :: "SentinelAlert \<Rightarrow> pydict" where
  "details_override alert =
     (let d = (if some_text (sa_title alert) then put ''alertDisplayNameFormat'' (or_none PStr (sa_title alert)) [] else []);
          d = (if some_text (sa_description alert) then put ''alertDescriptionFormat'' (or_none PStr (sa_description alert)) d else d);
          (d, found) = foldl override_step (d, []) (case sa_dynamic_properties alert of None \<Rightarrow> [] | Some ps \<Rightarrow> ps)
      in if found = [] then d else put ''alertDynamicProperties'' (PList found) d)"

definition alert_properties :: "SentinelAlert \<Rightarrow> (string \<times> pyval) list" where
  "alert_properties alert =
     (case sa_techniques alert of
        Some (t # ts) \<Rightarrow>
          (let (parents, subs) = split_techniques (t # ts)
           in (''techniques'', texts parents) # (if subs \<noteq> [] then [(''subTechniques'', texts subs)] else []))
      | _ \<Rightarrow> [])
     @ (case sa_tactics alert of Some (t # ts) \<Rightarrow> [(''tactics'', texts (t # ts))] | _ \<Rightarrow> [])
     @ (case sa_custom_details alert of
          Some (d # ds) \<Rightarrow> [(''customDetails'', PDict (foldl (\<lambda>m (k, v). put k (PStr v) m) [] (d # ds)))]
        | _ \<Rightarrow> [])"

definition grouping_configuration :: "SentinelAlertGrouping \<Rightarrow> string \<Rightarrow> pydict" where
  "grouping_configuration g lookback =
     filter (\<lambda>(k, v). v \<noteq> PNone)
       [(PStr ''enabled'', PBool (ag_enabled g)), (PStr ''lookbackDuration'', PStr lookback),
        (PStr ''reopenClosedIncident'', PBool (ag_reopen g = Some True)),
        (PStr ''matchingMethod'', PStr (or_text (ag_matching g) ''AllEntities'')),
        (PStr ''groupByEntities'', or_none texts (ag_entities g)),
        (PStr ''groupByAlertDetails'', or_none texts (ag_alert_details g)),
        (PStr ''groupByCustomDetails'', or_none texts (ag_custom_details g))]"

definition grouping_properties :: "SentinelAlert \<Rightarrow> string \<Rightarrow> SentinelAlertGrouping \<Rightarrow> sentinel_fault + (string \<times> pyval) list" where
  "grouping_properties alert event g =
     (if ag_enabled g \<and> \<not> some_text (ag_lookback g)
      then Inl (missing_field ''grouping.alert.grouping_lookback'' ''required when grouping.alert.enabled is true'')
      else rbind (plain (iso_text (or_text (ag_lookback g) ''1h''))) (\<lambda>lookback.
        Inr [(''eventGroupingSettings'', jobj [(''aggregationKind'', PStr event)]),
             (''incidentConfiguration'', jobj [(''createIncident'', PBool (sa_create_incident alert)),
                (''groupingConfiguration'', PDict (grouping_configuration g lookback))])]))"

definition entity_mapping :: "string \<times> (string \<times> string) list \<Rightarrow> pyval" where
  "entity_mapping = (\<lambda>(entity, mappings).
     jobj [(''entityType'', PStr entity),
           (''fieldMappings'', PList (map (\<lambda>(i, c). jobj [(''identifier'', PStr i), (''columnName'', PStr c)]) mappings))])"

definition entity_properties :: "SentinelConfig \<Rightarrow> (string \<times> pyval) list" where
  "entity_properties c =
     (case se_entities c of Some (e # es) \<Rightarrow> [(''entityMappings'', PList (map entity_mapping (e # es)))] | _ \<Rightarrow> [])"

definition severity_property :: "SentinelMdr \<Rightarrow> SentinelConfig \<Rightarrow> sentinel_fault + string" where
  "severity_property data c =
     (if \<not> some_text (sa_severity (se_alert c)) \<and> \<not> sm_responds data
      then Inl (SentinelCompileError ''compile_empty_block'' ''`response` is empty, so Sentinel cannot read `alert_severity`''
             (Some ''set response.alert_severity, or configurations.sentinel.alert.severity'') [''response''])
      else let severity = or_text (sa_severity (se_alert c)) (mdr_severity data)
           in Inr (if severity = ''Critical'' then ''High'' else severity))"

text \<open>The techniques that resolve replace those of the alert block; sub-techniques newer than v18 are left out.\<close>

definition resolved_properties :: "(string \<Rightarrow> bool) \<Rightarrow> vocab_index \<Rightarrow> string list \<Rightarrow> Exn + (string \<times> pyval) list" where
  "resolved_properties known index resolved =
     (if resolved = [] then Inr []
      else rbind (rmap (sentinel_technique_tactics index) resolved) (\<lambda>tactics.
        let (parents, subs) = split_techniques resolved; kept = v18_sub_techniques known subs
        in Inr [(''tactics'', texts (from_keys (concat tactics))), (''techniques'', texts parents),
                (''subTechniques'', if kept = [] then PNone else texts kept)]))"

definition put_all :: "(string \<times> pyval) list \<Rightarrow> pydict \<Rightarrow> pydict" where
  "put_all kvs d = foldl (\<lambda>d (k, v). put k v d) d kvs"

definition set_values :: "pydict \<Rightarrow> pydict" where
  "set_values d = filter (\<lambda>(k, v). v \<noteq> PNone) d"

text \<open>An error of the walk over the objects is an exception like any other.\<close>

definition resolved_techniques :: "catalogue \<Rightarrow> nat \<Rightarrow> string \<Rightarrow> Exn + string list" where
  "resolved_techniques cat depth u =
     (case techniques_resolver cat depth True u of Inl _ \<Rightarrow> Inl (exn Code_Error ''techniques_resolver'') | Inr ts \<Rightarrow> Inr ts)"

record SentinelEnv =
  sv_statuses :: "DeploymentStatus list"
  sv_known :: "string \<Rightarrow> bool"
  sv_vocabularies :: vocab_index
  sv_catalogue :: catalogue
  sv_depth :: nat

definition rule_values ::
  "SentinelMdr \<Rightarrow> string \<Rightarrow> SentinelConfig \<Rightarrow> StatusStrategy \<Rightarrow> (string \<times> pyval) list \<Rightarrow> (string \<times> pyval) list
    \<Rightarrow> (string \<times> pyval) list \<Rightarrow> string \<Rightarrow> (string \<times> pyval) list \<Rightarrow> (string \<times> pyval) list" where
  "rule_values data tenant c strategy suppression schedule grouping severity resolved =
     [(''enabled'', PBool (strategy \<noteq> DISABLEMENT)), (''query'', PStr (compile_kql_query (se_query c) (se_exclusions c) tenant))]
     @ (case se_template c of
          None \<Rightarrow> []
        | Some (uuid, version) \<Rightarrow> [(''alertRuleTemplateName'', PStr uuid), (''templateVersion'', PStr version)])
     @ suppression @ schedule
     @ [(''alertDetailsOverride'', PDict (details_override (se_alert c)))]
     @ alert_properties (se_alert c) @ grouping @ entity_properties c
     @ [(''severity'', PStr severity), (''displayName'', PStr (ref_name data)), (''description'', PStr (mdr_description data))]
     @ resolved"

definition rule_body :: "string \<Rightarrow> (string \<times> pyval) list \<Rightarrow> pydict" where
  "rule_body kind kvs = [(PStr ''kind'', PStr kind), (PStr ''properties'', PDict (set_values (put_all kvs [])))]"

definition compile_sentinel :: "SentinelEnv \<Rightarrow> SentinelMdr \<Rightarrow> string \<Rightarrow> sentinel_fault + pydict" where
  "compile_sentinel env data tenant =
     (case mdr_block data of
        None \<Rightarrow> Inl (OtherFault (exn Rule_Error (''Rule '' @ ref_uuid data @ '' ('' @ ref_name data @ ''): configurations.sentinel is missing'')))
      | Some c \<Rightarrow>
          (case se_grouping c of
             None \<Rightarrow> Inl (missing_field ''grouping'' ''Sentinel deploy requires grouping.event and grouping.alert'')
           | Some (event, None) \<Rightarrow>
               Inl (missing_field ''grouping.alert'' ''Sentinel deploy requires incident grouping (grouping.alert.enabled)'')
           | Some (event, Some g) \<Rightarrow>
               rbind (plain (case check_status (sv_statuses env) (se_status c) of
                   Inl _ \<Rightarrow> Inl (exn Config_Error ''status'') | Inr strategy \<Rightarrow> Inr strategy)) (\<lambda>strategy.
               rbind (suppression_properties (se_alert c)) (\<lambda>suppression.
               rbind (schedule_properties c) (\<lambda>(kind, schedule).
               rbind (grouping_properties (se_alert c) event g) (\<lambda>grouping.
               rbind (severity_property data c) (\<lambda>severity.
               rbind (plain (rbind (resolved_techniques (sv_catalogue env) (sv_depth env) (ref_uuid data))
                  (resolved_properties (sv_known env) (sv_vocabularies env)))) (\<lambda>resolved.
                 Inr (rule_body kind (rule_values data tenant c strategy suppression schedule grouping severity resolved))))))))))"

section \<open>What is compiled\<close>

lemma dget_put_all: "dget (put_all kvs d) k = (case map_of (rev kvs) k of Some v \<Rightarrow> Some v | None \<Rightarrow> dget d k)"
proof (induction kvs arbitrary: d)
  case (Cons kv kvs)
  obtain k' v where kv: "kv = (k', v)" by force
  from Cons [of "put k' v d"] show ?case
    by (simp add: put_all_def kv put_def dget_update map_add_def split: option.split)
qed (simp add: put_all_def)

lemma distinct_put_all: "distinct (map fst d) \<Longrightarrow> distinct (map fst (put_all kvs d))"
  by (induction kvs arbitrary: d) (auto simp: put_all_def put_def distinct_update split: prod.split)

lemma dget_set_values: "distinct (map fst d) \<Longrightarrow> dget (set_values d) k = (case dget d k of Some v \<Rightarrow> if v = PNone then None else Some v | None \<Rightarrow> None)"
proof (induction d)
  case (Cons kv d)
  obtain key v where kv: "kv = (key, v)" by force
  have "map_of (filter (\<lambda>(k, v). v \<noteq> PNone) d) key = None"
    using Cons.prems map_of_SomeD [of "filter (\<lambda>(k, v). v \<noteq> PNone) d" key]
    by (cases "map_of (filter (\<lambda>(k, v). v \<noteq> PNone) d) key") (force simp: kv)+
  with Cons show ?case by (auto simp: kv set_values_def dget_def split: option.split)
qed (simp add: set_values_def dget_def)

lemma dget_compiled:
  "dget (set_values (put_all kvs [])) k = (case map_of (rev kvs) k of Some v \<Rightarrow> if v = PNone then None else Some v | None \<Rightarrow> None)"
  by (simp add: dget_set_values distinct_put_all dget_put_all split: option.split)

lemma head_no_dot: "CHR ''.'' \<notin> set (hd (py_split ''.'' s))"
proof -
  have "CHR ''.'' \<notin> set acc \<Longrightarrow> CHR ''.'' \<notin> set (hd (split_acc 0 ''.'' acc s))" for acc
    by (induction s arbitrary: acc) auto
  then show ?thesis by (simp add: py_split_def)
qed

lemma stage_tactic_known: "stage_tactic stage = Inr ts \<Longrightarrow> set ts \<subseteq> set sentinel_tactics"
  by (auto simp: stage_tactic_def sentinel_tactic_def Let_def split: pyval.splits option.splits if_splits)

lemma technique_tactics_known: "sentinel_technique_tactics index t = Inr ts \<Longrightarrow> set ts \<subseteq> set sentinel_tactics"
  using stage_tactic_known rmap_Inr_set by (fastforce simp: sentinel_technique_tactics_def rbind_Inr)

lemma plain_Inr: "plain r = Inr x \<longleftrightarrow> r = Inr x"
  by (cases r) (simp_all add: plain_def)

text \<open>The parts a body is compiled from.\<close>

lemma compile_parts:
  assumes "compile_sentinel env data tenant = Inr body"
  obtains c event g strategy suppression kind schedule grouping severity resolved extra where
    "mdr_block data = Some c" "se_grouping c = Some (event, Some g)" "check_status (sv_statuses env) (se_status c) = Inr strategy"
    "suppression_properties (se_alert c) = Inr suppression" "schedule_properties c = Inr (kind, schedule)"
    "grouping_properties (se_alert c) event g = Inr grouping" "severity_property data c = Inr severity"
    "resolved_techniques (sv_catalogue env) (sv_depth env) (ref_uuid data) = Inr resolved"
    "resolved_properties (sv_known env) (sv_vocabularies env) resolved = Inr extra"
    "body = rule_body kind (rule_values data tenant c strategy suppression schedule grouping severity extra)"
proof -
  from assms obtain c event g where c: "mdr_block data = Some c" "se_grouping c = Some (event, Some g)"
    by (auto simp: compile_sentinel_def split: option.splits prod.splits)
  from assms obtain strategy where strategy: "check_status (sv_statuses env) (se_status c) = Inr strategy"
    by (cases "check_status (sv_statuses env) (se_status c)") (simp_all add: compile_sentinel_def c plain_def)
  have "plain (case check_status (sv_statuses env) (se_status c) of Inl _ \<Rightarrow> Inl (exn Config_Error ''status'') | Inr strategy \<Rightarrow> Inr strategy)
      = Inr strategy"
    by (simp add: strategy plain_def)
  with assms show thesis
    using that [OF c strategy] by (auto simp: compile_sentinel_def c rbind_Inr plain_Inr split: prod.splits)
qed

text \<open>Which keys the parts set.\<close>

lemma part_keys:
  "suppression_properties alert = Inr kvs \<Longrightarrow> fst ` set kvs \<subseteq> {''suppressionEnabled'', ''suppressionDuration''}"
  "schedule_properties c = Inr (kind, kvs) \<Longrightarrow>
     fst ` set kvs \<subseteq> {''queryFrequency'', ''queryPeriod'', ''triggerThreshold'', ''triggerOperator''}"
  "fst ` set (alert_properties alert) \<subseteq> {''techniques'', ''subTechniques'', ''tactics'', ''customDetails''}"
  "grouping_properties alert event g = Inr kvs \<Longrightarrow> fst ` set kvs \<subseteq> {''eventGroupingSettings'', ''incidentConfiguration''}"
  "fst ` set (entity_properties c) \<subseteq> {''entityMappings''}"
  by (auto simp: suppression_properties_def schedule_properties_def alert_properties_def grouping_properties_def
      entity_properties_def rbind_Inr Let_def split: sentinel_suppression.splits bool.splits if_splits
      option.splits prod.splits list.splits)

lemma resolved_properties_Inr:
  "resolved_properties known index ts = Inr kvs \<longleftrightarrow>
     (if ts = [] then kvs = []
      else \<exists>tactics. rmap (sentinel_technique_tactics index) ts = Inr tactics
        \<and> kvs = [(''tactics'', texts (from_keys (concat tactics))), (''techniques'', texts (fst (split_techniques ts))),
             (''subTechniques'', if v18_sub_techniques known (snd (split_techniques ts)) = [] then PNone
                else texts (v18_sub_techniques known (snd (split_techniques ts))))])"
  by (cases "split_techniques ts") (auto simp: resolved_properties_def rbind_Inr Let_def)

lemma resolved_keys: "resolved_properties known index ts = Inr kvs \<Longrightarrow> fst ` set kvs \<subseteq> {''techniques'', ''subTechniques'', ''tactics''}"
  by (auto simp: resolved_properties_Inr split: if_splits)

lemma map_of_absent: "k \<notin> fst ` set kvs \<Longrightarrow> map_of (rev kvs) k = None"
  by (simp add: map_of_eq_None_iff)

lemma map_of_outside: "fst ` set kvs \<subseteq> K \<Longrightarrow> k \<notin> K \<Longrightarrow> map_of (rev kvs) k = None"
  by (rule map_of_absent) blast


lemma body_properties: "dget_dict (rule_body kind kvs) ''properties'' = Some (set_values (put_all kvs []))"
  by (simp add: rule_body_def dget_dict_def dget_none_def dget_def)

text \<open>
  C29: The ATT&CK fields of a rule whose techniques resolve are what ARM accepts: \<open>techniques\<close> holds the parents of
  the resolved ids and no sub-technique, \<open>subTechniques\<close> exactly the resolved sub-techniques of ATT&CK v18 and is left
  out when there are none, and \<open>tactics\<close> only values of the \<open>AttackTactic\<close> enum; no list has a duplicate.
\<close>

theorem resolved_attack_fits_arm:
  assumes "compile_sentinel env data tenant = Inr body"
    and "resolved_techniques (sv_catalogue env) (sv_depth env) (ref_uuid data) = Inr ids" "ids \<noteq> []"
  shows "\<exists>props parents subs tactics. dget_dict body ''properties'' = Some props
    \<and> dget props ''techniques'' = Some (texts parents) \<and> dget props ''tactics'' = Some (texts tactics)
    \<and> dget props ''subTechniques'' = (if subs = [] then None else Some (texts subs))
    \<and> distinct parents \<and> distinct subs \<and> distinct tactics
    \<and> set parents = (\<lambda>i. hd (py_split ''.'' i)) ` set ids \<and> (\<forall>p \<in> set parents. CHR ''.'' \<notin> set p)
    \<and> set subs = {i \<in> set ids. CHR ''.'' \<in> set i \<and> sv_known env i} \<and> set tactics \<subseteq> set sentinel_tactics"
proof -
  from assms obtain c strategy suppression kind schedule grouping severity extra where
    extra: "resolved_properties (sv_known env) (sv_vocabularies env) ids = Inr extra"
    and body: "body = rule_body kind (rule_values data tenant c strategy suppression schedule grouping severity extra)"
    by (elim compile_parts) simp
  from extra assms(3) obtain ts where ts: "rmap (sentinel_technique_tactics (sv_vocabularies env)) ids = Inr ts"
    and kvs: "extra = [(''tactics'', texts (from_keys (concat ts))), (''techniques'', texts (fst (split_techniques ids))),
             (''subTechniques'', if v18_sub_techniques (sv_known env) (snd (split_techniques ids)) = [] then PNone
                else texts (v18_sub_techniques (sv_known env) (snd (split_techniques ids))))]"
    by (auto simp: resolved_properties_Inr)
  define props where "props = set_values (put_all (rule_values data tenant c strategy suppression schedule grouping severity extra) [])"
  define parents where "parents = fst (split_techniques ids)"
  define subs where "subs = v18_sub_techniques (sv_known env) (snd (split_techniques ids))"
  define tactics where "tactics = from_keys (concat ts)"
  have "dget_dict body ''properties'' = Some props" by (simp add: body body_properties props_def)
  moreover have "dget props ''techniques'' = Some (texts parents)" "dget props ''tactics'' = Some (texts tactics)"
    "dget props ''subTechniques'' = (if subs = [] then None else Some (texts subs))"
    by (simp_all add: props_def dget_compiled rule_values_def kvs parents_def subs_def tactics_def texts_def)
  moreover have "distinct parents" "distinct subs" "distinct tactics"
    by (simp_all add: parents_def subs_def tactics_def split_techniques_def v18_sub_techniques_def from_keys_facts)
  moreover have "set parents = (\<lambda>i. hd (py_split ''.'' i)) ` set ids" "set subs = {i \<in> set ids. CHR ''.'' \<in> set i \<and> sv_known env i}"
    by (auto simp: parents_def subs_def split_techniques_def v18_sub_techniques_def from_keys_facts)
  moreover have "\<forall>p \<in> set parents. CHR ''.'' \<notin> set p" using calculation head_no_dot by auto
  moreover have "set tactics \<subseteq> set sentinel_tactics"
    using rmap_Inr_set [OF ts] technique_tactics_known by (fastforce simp: tactics_def from_keys_facts)
  ultimately show ?thesis by (intro exI conjI)
qed

text \<open>
  The tactics of the alert block are replaced whenever techniques resolve, also when none of their stages is a tactic of
  Sentinel: the rule is then sent with no tactic at all.
\<close>

lemma unknown_stages_clear_the_tactics:
  assumes "compile_sentinel env data tenant = Inr body"
    and "resolved_techniques (sv_catalogue env) (sv_depth env) (ref_uuid data) = Inr ids" "ids \<noteq> []"
    and "\<forall>t \<in> set ids. sentinel_technique_tactics (sv_vocabularies env) t = Inr []"
  shows "\<exists>props. dget_dict body ''properties'' = Some props \<and> dget props ''tactics'' = Some (texts [])"
proof -
  from assms obtain c strategy suppression kind schedule grouping severity extra where
    extra: "resolved_properties (sv_known env) (sv_vocabularies env) ids = Inr extra"
    and body: "body = rule_body kind (rule_values data tenant c strategy suppression schedule grouping severity extra)"
    by (elim compile_parts) simp
  from extra assms(3) obtain ts rest where ts: "rmap (sentinel_technique_tactics (sv_vocabularies env)) ids = Inr ts"
    and kvs: "extra = (''tactics'', texts (from_keys (concat ts))) # rest" "''tactics'' \<notin> fst ` set rest"
    by (auto simp: resolved_properties_Inr)
  have "rmap f xs = Inr ys \<Longrightarrow> \<forall>x \<in> set xs. f x = Inr [] \<Longrightarrow> concat ys = []" for f :: "string \<Rightarrow> Exn + string list" and xs ys
    by (induction xs arbitrary: ys) (auto split: sum.splits)
  from this [OF ts assms(4)] have "concat ts = []" .
  then have "dget (set_values (put_all (rule_values data tenant c strategy suppression schedule grouping severity extra) [])) ''tactics''
      = Some (texts [])"
    using map_of_absent [OF kvs(2)] by (simp add: dget_compiled rule_values_def kvs(1) from_keys_facts texts_def map_add_def from_keys_def)
  then show ?thesis by (simp add: body body_properties)
qed

lemma iso_text_reads: "iso_text v = Inr t \<Longrightarrow> iso_duration_timedelta t = iso_duration_timedelta v"
proof -
  assume "iso_text v = Inr t"
  then obtain n where n: "iso_duration_timedelta v = Inr n" "t = duration_isoformat n" by (auto simp: iso_text_def rbind_Inr)
  then have "n < timedelta_limit"
    by (auto simp: iso_duration_timedelta_def timedelta_def Let_def split: option.splits list.splits if_splits)
  with n show ?thesis by (simp add: duration_roundtrips)
qed

lemma values_distinct: "distinct (map fst (set_values (put_all kvs [])))" "(k, PNone) \<notin> set (set_values d)"
proof -
  have "distinct (map fst (put_all kvs ([] :: pydict)))" by (simp add: distinct_put_all)
  then show "distinct (map fst (set_values (put_all kvs [])))"
    unfolding set_values_def by (rule distinct_map_filter)
  show "(k, PNone) \<notin> set (set_values d)" by (simp add: set_values_def)
qed

lemma severity_written:
  "severity_property data c = Inr severity \<Longrightarrow>
   severity = (let s = or_text (sa_severity (se_alert c)) (mdr_severity data) in if s = ''Critical'' then ''High'' else s)"
  by (auto simp: severity_property_def Let_def split: if_splits)

text \<open>
  C28: A compiled Sentinel rule carries what was written: it is enabled unless its status disables it, it has the query
  of the tenant, the name and the description, its severity is that of the alert block, or of the response where the
  block has none, with Critical sent as High and every other text as it is, no property is null, and a rule that is not
  near-real-time runs as often and looks back as far as the block says, whichever way the durations were written.
\<close>

theorem sentinel_rule_is_as_written:
  assumes "compile_sentinel env data tenant = Inr body" "mdr_block data = Some c"
  shows "\<exists>props. dget_dict body ''properties'' = Some props \<and> distinct (map fst props) \<and> PNone \<notin> snd ` set props
    \<and> dget props ''enabled'' = Some (PBool (check_status (sv_statuses env) (se_status c) \<noteq> Inr DISABLEMENT))
    \<and> dget props ''query'' = Some (PStr (compile_kql_query (se_query c) (se_exclusions c) tenant))
    \<and> dget props ''displayName'' = Some (PStr (ref_name data)) \<and> dget props ''description'' = Some (PStr (mdr_description data))
    \<and> (let severity = or_text (sa_severity (se_alert c)) (mdr_severity data)
       in dget props ''severity'' = Some (PStr (if severity = ''Critical'' then ''High'' else severity)))
    \<and> (if sch_nrt (se_scheduling c) = Some True then dget body ''kind'' = Some (PStr ''NRT'') \<and> dget props ''queryFrequency'' = None
       else dget body ''kind'' = Some (PStr ''Scheduled'')
         \<and> (\<exists>f p. dget props ''queryFrequency'' = Some (PStr f) \<and> dget props ''queryPeriod'' = Some (PStr p)
              \<and> iso_duration_timedelta f = iso_duration_timedelta (the (sch_frequency (se_scheduling c)))
              \<and> iso_duration_timedelta p = iso_duration_timedelta (the (sch_lookback (se_scheduling c)))))"
proof -
  from assms obtain event g strategy suppression kind schedule grouping severity ids extra where
    p: "check_status (sv_statuses env) (se_status c) = Inr strategy" "suppression_properties (se_alert c) = Inr suppression"
      "schedule_properties c = Inr (kind, schedule)" "grouping_properties (se_alert c) event g = Inr grouping"
      "severity_property data c = Inr severity" "resolved_properties (sv_known env) (sv_vocabularies env) ids = Inr extra"
    and body: "body = rule_body kind (rule_values data tenant c strategy suppression schedule grouping severity extra)"
    by (elim compile_parts) simp
  define props where "props = set_values (put_all (rule_values data tenant c strategy suppression schedule grouping severity extra) [])"
  have keys: "fst ` set suppression \<subseteq> {''suppressionEnabled'', ''suppressionDuration''}"
    "fst ` set schedule \<subseteq> {''queryFrequency'', ''queryPeriod'', ''triggerThreshold'', ''triggerOperator''}"
    "fst ` set (alert_properties (se_alert c)) \<subseteq> {''techniques'', ''subTechniques'', ''tactics'', ''customDetails''}"
    "fst ` set grouping \<subseteq> {''eventGroupingSettings'', ''incidentConfiguration''}"
    "fst ` set (entity_properties c) \<subseteq> {''entityMappings''}"
    "fst ` set extra \<subseteq> {''techniques'', ''subTechniques'', ''tactics''}"
    using part_keys(1) [OF p(2)] part_keys(2) [OF p(3)] part_keys(3) part_keys(4) [OF p(4)] part_keys(5) resolved_keys [OF p(6)] by simp_all
  have none: "map_of (rev suppression) k = None \<and> map_of (rev (alert_properties (se_alert c))) k = None \<and> map_of (rev grouping) k = None
      \<and> map_of (rev (entity_properties c)) k = None \<and> map_of (rev extra) k = None"
    if "k \<in> {''enabled'', ''query'', ''severity'', ''displayName'', ''description'', ''queryFrequency'', ''queryPeriod''}" for k
    using that by (intro conjI map_of_outside [OF keys(1)] map_of_outside [OF keys(3)] map_of_outside [OF keys(4)]
        map_of_outside [OF keys(5)] map_of_outside [OF keys(6)]) auto
  have sched: "map_of (rev schedule) k = None" if "k \<in> {''enabled'', ''query'', ''severity'', ''displayName'', ''description''}" for k
    using that by (intro map_of_outside [OF keys(2)]) auto
  define template where "template = (case se_template c of None \<Rightarrow> []
     | Some (uuid, version) \<Rightarrow> [(''alertRuleTemplateName'', PStr uuid), (''templateVersion'', PStr version)])"
  have tmpl: "map_of (rev template) k = None"
    if "k \<in> {''enabled'', ''query'', ''severity'', ''displayName'', ''description'', ''queryFrequency'', ''queryPeriod''}" for k
    using that by (auto simp: template_def split: option.split)
  note get = props_def dget_compiled rule_values_def template_def [symmetric] map_add_def
  have fields: "dget props ''enabled'' = Some (PBool (check_status (sv_statuses env) (se_status c) \<noteq> Inr DISABLEMENT))"
    "dget props ''query'' = Some (PStr (compile_kql_query (se_query c) (se_exclusions c) tenant))"
    using none [of "''enabled''"] sched [of "''enabled''"] tmpl [of "''enabled''"] none [of "''query''"] sched [of "''query''"] tmpl [of "''query''"]
    by (simp_all add: get p(1))
  have named: "dget props ''displayName'' = Some (PStr (ref_name data))" "dget props ''description'' = Some (PStr (mdr_description data))"
    "dget props ''severity'' = Some (PStr severity)"
    using none [of "''displayName''"] none [of "''description''"] none [of "''severity''"] by (simp_all add: get)
  have "dget_dict body ''properties'' = Some props" "distinct (map fst props)" "PNone \<notin> snd ` set props"
    using values_distinct by (auto simp: body body_properties props_def)
  moreover have "if sch_nrt (se_scheduling c) = Some True then dget body ''kind'' = Some (PStr ''NRT'') \<and> dget props ''queryFrequency'' = None
       else dget body ''kind'' = Some (PStr ''Scheduled'')
         \<and> (\<exists>f p. dget props ''queryFrequency'' = Some (PStr f) \<and> dget props ''queryPeriod'' = Some (PStr p)
              \<and> iso_duration_timedelta f = iso_duration_timedelta (the (sch_frequency (se_scheduling c)))
              \<and> iso_duration_timedelta p = iso_duration_timedelta (the (sch_lookback (se_scheduling c))))"
  proof (cases "sch_nrt (se_scheduling c) = Some True")
    case True
    with p(3) have "kind = ''NRT''" "schedule = []" by (simp_all add: schedule_properties_def)
    moreover from this have "dget props ''queryFrequency'' = None"
      using none [of "''queryFrequency''"] tmpl [of "''queryFrequency''"] by (simp add: get)
    ultimately show ?thesis using True by (simp add: body rule_body_def dget_def)
  next
    case False
    with p(3) obtain f q rest where s: "iso_text (the (sch_frequency (se_scheduling c))) = Inr f"
      "iso_text (the (sch_lookback (se_scheduling c))) = Inr q" "kind = ''Scheduled''"
      "schedule = (''queryFrequency'', PStr f) # (''queryPeriod'', PStr q) # rest"
      and rest: "fst ` set rest \<subseteq> {''triggerThreshold'', ''triggerOperator''}"
      by (auto simp: schedule_properties_def Let_def rbind_Inr plain_Inr split: if_splits option.splits)
    have "map_of (rev rest) k = None" if "k \<in> {''queryFrequency'', ''queryPeriod''}" for k
      using that rest by (intro map_of_absent) auto
    then have "dget props ''queryFrequency'' = Some (PStr f)" "dget props ''queryPeriod'' = Some (PStr q)"
      using none [of "''queryFrequency''"] none [of "''queryPeriod''"] by (simp_all add: get s(4))
    moreover have "iso_duration_timedelta f = iso_duration_timedelta (the (sch_frequency (se_scheduling c)))"
      "iso_duration_timedelta q = iso_duration_timedelta (the (sch_lookback (se_scheduling c)))"
      using iso_text_reads s(1,2) by blast+
    moreover have "dget body ''kind'' = Some (PStr ''Scheduled'')" by (simp add: body rule_body_def dget_def s(3))
    ultimately show ?thesis using False by auto
  qed
  ultimately show ?thesis using fields named severity_written [OF p(5)] by (intro exI [of _ props]) (simp add: Let_def)
qed

section \<open>A small rule\<close>

definition small_threats :: catalogue where
  "small_threats =
     [(''threat'', [(''t'', small_object ''threat::1.0''
         [(''threat'', jobj [(''mitre_attack'', PList [PStr ''T1059.001'', PStr ''T1027.018''])])])]),
      (''objective'', [(''q'', small_object ''objective::1.0'' [(''objective'', jobj [(''threats'', PList [PStr ''t''])])])]),
      (''rule'', [(''r'', small_object ''rule::1.0'' [(''detection_model'', PStr ''q'')])])]"

definition small_attack :: vocab_index where
  "small_attack =
     [(''att&ck'', \<lparr>vo_entries =
         [(''T1059.001'', [(PStr ''tide.vocab.stages'', PList [PStr ''Execution''])]),
          (''T1027.018'', [(PStr ''tide.vocab.stages'', PList [PStr ''Stealth'', PStr ''Unheard''])])],
       vo_stages = PNone\<rparr>)]"

definition sample_sentinel_env :: SentinelEnv where
  "sample_sentinel_env = \<lparr>sv_statuses = small_statuses, sv_known = (\<lambda>i. i = ''T1059.001''), sv_vocabularies = small_attack,
     sv_catalogue = small_threats, sv_depth = 4\<rparr>"

definition sample_sentinel_block :: SentinelConfig where
  "sample_sentinel_block = \<lparr>se_status = ''PRODUCTION'', se_query = ''T'',
     se_scheduling = \<lparr>sch_nrt = None, sch_frequency = Some ''1h'', sch_lookback = Some ''1d''\<rparr>,
     se_alert = \<lparr>sa_title = Some ''A'', sa_description = None, sa_severity = None, sa_suppression = Suppression False,
       sa_create_incident = True, sa_tactics = Some [''Impact''], sa_techniques = None, sa_custom_details = None,
       sa_dynamic_properties = None\<rparr>,
     se_exclusions = None, se_template = None, se_trigger = Some (''GreaterThan'', 0),
     se_grouping = Some (''SingleAlert'', Some \<lparr>ag_enabled = False, ag_reopen = None, ag_lookback = None, ag_matching = None,
       ag_entities = None, ag_alert_details = None, ag_custom_details = None\<rparr>),
     se_entities = None\<rparr>"

definition sample_sentinel_mdr :: SentinelMdr where
  "sample_sentinel_mdr = \<lparr>ref_uuid = ''r'', ref_name = ''Rule'', mdr_description = ''d'', mdr_severity = ''Critical'',
     mdr_author = None, mdr_block = Some sample_sentinel_block, sm_responds = True\<rparr>"

lemma sample_iso_texts: "iso_text ''1h'' = Inr ''PT01H00M00S''" "iso_text ''1d'' = Inr ''P1D''"
proof -
  have "scan_units ''dhms'' ''1h'' = Some [(CHR ''h'', 1)]" "scan_units ''dhms'' ''1d'' = Some [(CHR ''d'', 1)]"
    "py_strip ''1h'' = ''1h''" "py_strip ''1d'' = ''1d''" "two 1 = ''01''" "two 0 = ''00''" "nat_str 1 = ''1''" by code_simp+
  then show "iso_text ''1h'' = Inr ''PT01H00M00S''" "iso_text ''1d'' = Inr ''P1D''"
    by (simp_all add: iso_text_def iso_duration_timedelta_def timedelta_def timedelta_limit_def sentinel_unit_def duration_isoformat_def)
qed

lemma sample_resolves: "resolved_techniques small_threats 4 ''r'' = Inr [''T1059.001'', ''T1027.018'']"
proof -
  have "techniques_resolver small_threats 4 True ''r'' = Inr [''T1059.001'', ''T1027.018'']" by code_simp
  then show ?thesis by (simp add: resolved_techniques_def)
qed

lemma sample_resolved_properties:
  "resolved_properties (\<lambda>i. i = ''T1059.001'') small_attack [''T1059.001'', ''T1027.018''] = Inr
     [(''tactics'', texts [''Execution'', ''DefenseEvasion'']), (''techniques'', texts [''T1059'', ''T1027'']),
      (''subTechniques'', texts [''T1059.001''])]"
  by code_simp

lemma sample_sentinel_compiles:
  "\<exists>body. compile_sentinel sample_sentinel_env sample_sentinel_mdr ''Prod'' = Inr body"
  by (simp add: compile_sentinel_def sample_sentinel_mdr_def sample_sentinel_block_def sample_sentinel_env_def plain_def
      small_statuses_def suppression_properties_def schedule_properties_def grouping_properties_def severity_property_def
      sample_iso_texts sample_resolves sample_resolved_properties some_text_def or_text_def)

lemma resolved_attack_fits_arm_witness:
  "\<exists>body props parents subs tactics. compile_sentinel sample_sentinel_env sample_sentinel_mdr ''Prod'' = Inr body
    \<and> dget_dict body ''properties'' = Some props \<and> dget props ''techniques'' = Some (texts parents)
    \<and> dget props ''subTechniques'' = Some (texts subs) \<and> dget props ''tactics'' = Some (texts tactics)
    \<and> set parents = {''T1059'', ''T1027''} \<and> set subs = {''T1059.001''} \<and> set tactics \<subseteq> set sentinel_tactics"
proof -
  obtain body where body: "compile_sentinel sample_sentinel_env sample_sentinel_mdr ''Prod'' = Inr body"
    using sample_sentinel_compiles by blast
  have env: "sv_catalogue sample_sentinel_env = small_threats" "sv_depth sample_sentinel_env = 4" "ref_uuid sample_sentinel_mdr = ''r''"
    "sv_known sample_sentinel_env = (\<lambda>i. i = ''T1059.001'')"
    by (simp_all add: sample_sentinel_env_def sample_sentinel_mdr_def)
  have heads: "hd (py_split ''.'' ''T1059.001'') = ''T1059''" "hd (py_split ''.'' ''T1027.018'') = ''T1027''" by code_simp+
  have "resolved_techniques (sv_catalogue sample_sentinel_env) (sv_depth sample_sentinel_env) (ref_uuid sample_sentinel_mdr)
      = Inr [''T1059.001'', ''T1027.018'']"
    unfolding env by (rule sample_resolves)
  from resolved_attack_fits_arm [OF body this] obtain props parents subs tactics where
    found: "dget_dict body ''properties'' = Some props" "dget props ''techniques'' = Some (texts parents)"
      "dget props ''tactics'' = Some (texts tactics)" "dget props ''subTechniques'' = (if subs = [] then None else Some (texts subs))"
      "set parents = (\<lambda>i. hd (py_split ''.'' i)) ` set [''T1059.001'', ''T1027.018'']"
      "set subs = {i \<in> set [''T1059.001'', ''T1027.018'']. CHR ''.'' \<in> set i \<and> sv_known sample_sentinel_env i}"
      "set tactics \<subseteq> set sentinel_tactics" by auto
  have parents: "set parents = {''T1059'', ''T1027''}" using found(5) heads by simp
  have subs: "set subs = {''T1059.001''}" unfolding found(6) env by auto
  then have "''T1059.001'' \<in> set subs" by simp
  then have "subs \<noteq> []" by (cases subs) simp_all
  with found parents subs body show ?thesis by (intro exI conjI) simp_all
qed

lemma sentinel_rule_is_as_written_witness:
  "\<exists>body props f. compile_sentinel sample_sentinel_env sample_sentinel_mdr ''Prod'' = Inr body
    \<and> dget_dict body ''properties'' = Some props \<and> dget body ''kind'' = Some (PStr ''Scheduled'')
    \<and> dget props ''enabled'' = Some (PBool True) \<and> dget props ''severity'' = Some (PStr ''High'')
    \<and> dget props ''queryFrequency'' = Some (PStr f) \<and> iso_duration_timedelta f = iso_duration_timedelta ''1h''"
proof -
  obtain body where body: "compile_sentinel sample_sentinel_env sample_sentinel_mdr ''Prod'' = Inr body"
    using sample_sentinel_compiles by blast
  have block: "mdr_block sample_sentinel_mdr = Some sample_sentinel_block" by (simp add: sample_sentinel_mdr_def)
  have s: "sch_nrt (se_scheduling sample_sentinel_block) = None" "sch_frequency (se_scheduling sample_sentinel_block) = Some ''1h''"
    "check_status (sv_statuses sample_sentinel_env) (se_status sample_sentinel_block) = Inr RELEASE"
    by (simp_all add: sample_sentinel_block_def sample_sentinel_env_def small_statuses_def)
  have "or_text (sa_severity (se_alert sample_sentinel_block)) (mdr_severity sample_sentinel_mdr) = ''Critical''"
    by (simp add: sample_sentinel_block_def sample_sentinel_mdr_def or_text_def)
  with sentinel_rule_is_as_written [OF body block] body show ?thesis by (auto simp: s Let_def)
qed

end
