(* ===== verification/Sentinel.thy ===== *)
theory Sentinel
  imports Deploy_Run Sentinel_Rules
begin

text \<open>
  \<open>platforms/sentinel\<close>, client and deployer: rules are sent to Azure Resource Manager under the URL of their own
  uuid, so no vendor id is recorded and the shards stay as they are. The token of the credential and the answers of
  ARM (after the retries of the session) are parameters. Listing, which only extraction calls, is left out.
\<close>

section \<open>URLs\<close>

text \<open>\<open>urllib.parse.quote(s, safe='')\<close>: the UTF-8 bytes of what is not unreserved, in upper case hexadecimal.\<close>

definition is_unreserved :: "char \<Rightarrow> bool" where
  "is_unreserved c = (let n = (of_char c :: nat) in
     48 \<le> n \<and> n \<le> 57 \<or> 65 \<le> n \<and> n \<le> 90 \<or> 97 \<le> n \<and> n \<le> 122 \<or> n \<in> {45, 46, 95, 126})"

definition utf8_bytes :: "char \<Rightarrow> nat list" where
  "utf8_bytes c = (let n = (of_char c :: nat) in if n < 128 then [n] else [192 + n div 64, 128 + n mod 64])"

definition upper_hex_digit :: "nat \<Rightarrow> char" where
  "upper_hex_digit d = char_of (if d < 10 then 48 + d else 55 + d)"

definition percent_byte :: "nat \<Rightarrow> string" where
  "percent_byte b = [CHR ''%'', upper_hex_digit (b div 16), upper_hex_digit (b mod 16)]"

definition quote_char :: "char \<Rightarrow> string" where
  "quote_char c = (if is_unreserved c then [c] else concat (map percent_byte (utf8_bytes c)))"

definition url_quote :: "string \<Rightarrow> string" where
  "url_quote s = concat (map quote_char s)"

definition arm_endpoint :: string where
  "arm_endpoint = ''https://management.azure.com''"

definition alert_rules_api_version :: string where
  "alert_rules_api_version = ''2025-10-01-preview''"

definition alert_rules_url :: "string \<Rightarrow> string \<Rightarrow> string \<Rightarrow> string option \<Rightarrow> string" where
  "alert_rules_url subscription_id resource_group_name workspace_name rule_id =
     arm_endpoint @ ''/subscriptions/'' @ url_quote subscription_id @ ''/resourceGroups/'' @ url_quote resource_group_name
       @ ''/providers/Microsoft.OperationalInsights/workspaces/'' @ url_quote workspace_name
       @ ''/providers/Microsoft.SecurityInsights/alertRules''
       @ (case rule_id of None \<Rightarrow> [] | Some i \<Rightarrow> CHR ''/'' # url_quote i)"

section \<open>The client\<close>

record ArmRequest =
  ar_method :: string
  ar_url :: string
  ar_params :: "(string \<times> string) list"
  ar_token :: string
  ar_body :: "pydict option"

text \<open>\<open>_arm_error\<close>: the code and the message of an error answer; \<open>get\<close> is called on whatever was sent.\<close>

definition arm_error :: "HttpResponse \<Rightarrow> Exn + string \<times> string" where
  "arm_error response =
     (case hr_json response of
        None \<Rightarrow> Inr ([], take 500 (py_strip (hr_text response)))
      | Some (PDict d) \<Rightarrow>
          (case (if truthy (dget_none d ''error'') then dget_none d ''error'' else PDict []) of
             PDict e \<Rightarrow>
               Inr (if truthy (dget_none e ''code'') then py_str (dget_none e ''code'') else [],
                    if truthy (dget_none e ''message'') then py_str (dget_none e ''message'')
                    else take 500 (py_strip (hr_text response)))
           | _ \<Rightarrow> Inl (exn Code_Error ''AttributeError''))
      | Some _ \<Rightarrow> Inl (exn Code_Error ''AttributeError''))"

definition sentinel_api_error :: "string \<Rightarrow> string \<Rightarrow> HttpResponse \<Rightarrow> Exn" where
  "sentinel_api_error verb url response =
     (case arm_error response of
        Inl e \<Rightarrow> e
      | Inr (code, message) \<Rightarrow>
          \<lparr>ex_class = Http_Error,
           ex_text = verb @ '' '' @ hd (py_split ''?'' url) @ '' failed with HTTP '' @ int_str (hr_status response)
             @ '' '' @ code @ '': '' @ message,
           ex_status = Some (hr_status response)\<rparr>)"

text \<open>The token is asked for at each request; the credential renews it when it has expired.\<close>

type_synonym arm_credential = "ArmRequest list \<Rightarrow> Exn + string"

definition get_token :: "arm_credential \<Rightarrow> (ArmRequest, string) deploy" where
  "get_token credential = (\<lambda>s. (credential (dr_calls s), s))"

definition arm_request ::
  "arm_credential \<Rightarrow> (ArmRequest, HttpResponse) vendor \<Rightarrow> string \<Rightarrow> string \<Rightarrow> pydict option \<Rightarrow> (ArmRequest, HttpResponse) deploy" where
  "arm_request credential vendor verb url body =
     andthen (get_token credential) (\<lambda>token.
     andthen (send vendor \<lparr>ar_method = verb, ar_url = url,
         ar_params = (if contains_str ''api-version='' url then [] else [(''api-version'', alert_rules_api_version)]),
         ar_token = token, ar_body = body\<rparr>) (\<lambda>response.
       if hr_status response \<ge> 400 then raise (sentinel_api_error verb url response) else ret response))"

text \<open>\<open>create_or_update\<close> reads the answer as JSON unless it is empty; what it reads is not used.\<close>

definition create_or_update_arm ::
  "arm_credential \<Rightarrow> (ArmRequest, HttpResponse) vendor \<Rightarrow> string \<Rightarrow> string \<Rightarrow> string \<Rightarrow> string \<Rightarrow> pydict \<Rightarrow> (ArmRequest, pyval) deploy" where
  "create_or_update_arm credential vendor subscription_id resource_group_name workspace_name rule_id alert_rule =
     andthen (arm_request credential vendor ''PUT''
         (alert_rules_url subscription_id resource_group_name workspace_name (Some rule_id)) (Some alert_rule)) (\<lambda>response.
       if hr_text response = [] then ret (PDict []) else response_json response)"

definition delete_arm ::
  "arm_credential \<Rightarrow> (ArmRequest, HttpResponse) vendor \<Rightarrow> string \<Rightarrow> string \<Rightarrow> string \<Rightarrow> string \<Rightarrow> (ArmRequest, unit) deploy" where
  "delete_arm credential vendor subscription_id resource_group_name workspace_name rule_id =
     andthen (arm_request credential vendor ''DELETE''
         (alert_rules_url subscription_id resource_group_name workspace_name (Some rule_id)) None) (\<lambda>_. ret ())"

record SentinelTenant =
  sn_name :: string
  sn_ssl :: pyval
  sn_resource_group :: string
  sn_workspace_name :: string
  sn_azure_tenant_id :: string
  sn_azure_subscription_id :: string
  sn_azure_client_id :: string
  sn_azure_client_secret :: string

text \<open>\<open>core/environment.py\<close>: a whole value that names a variable, \<open>$NAME\<close> or \<open>${NAME}\<close>.\<close>

definition is_name_start :: "char \<Rightarrow> bool" where
  "is_name_start c = (let n = (of_char c :: nat) in 65 \<le> n \<and> n \<le> 90 \<or> 97 \<le> n \<and> n \<le> 122 \<or> n = 95)"

definition is_variable_name :: "string \<Rightarrow> bool" where
  "is_variable_name s =
     (case s of [] \<Rightarrow> False | c # cs \<Rightarrow> is_name_start c \<and> list_all (\<lambda>c. is_name_start c \<or> is_ascii_digit c) cs)"

definition env_reference :: "string \<Rightarrow> string option" where
  "env_reference v =
     (case v of
        c # s \<Rightarrow>
          if c \<noteq> CHR ''$'' then None
          else if is_variable_name s then Some s
          else if s \<noteq> [] \<and> hd s = CHR ''{'' \<and> last s = CHR ''}'' \<and> is_variable_name (butlast (tl s)) then Some (butlast (tl s))
          else None
      | [] \<Rightarrow> None)"

definition reject_unsubstituted_placeholders :: "string list \<Rightarrow> string \<Rightarrow> Exn + unit" where
  "reject_unsubstituted_placeholders given client =
     (case filter (\<lambda>v. env_reference v \<noteq> None) given of
        [] \<Rightarrow> Inr ()
      | vs \<Rightarrow> Inl (exn Config_Error (client @ '' credentials are unset ('' @ str_join '', '' vs
             @ ''). Set those environment variables before a live check.'')))"

definition connect_sentinel :: "SentinelTenant \<Rightarrow> (ArmRequest, unit) deploy" where
  "connect_sentinel tenant =
     andthen (lift_sum (reject_unsubstituted_placeholders
         [sn_azure_tenant_id tenant, sn_azure_client_id tenant, sn_azure_client_secret tenant, sn_azure_subscription_id tenant]
         ''Azure'')) (\<lambda>_.
     andthen (lift_sum (tenant_tls_verify (sn_ssl tenant))) (\<lambda>_. ret ()))"

section \<open>The deployer\<close>

definition sentinel :: string where
  "sentinel = ''sentinel''"

definition deploy_mdr_sentinel ::
  "SentinelEnv \<Rightarrow> arm_credential \<Rightarrow> (ArmRequest, HttpResponse) vendor \<Rightarrow> SentinelTenant \<Rightarrow> SentinelMdr \<Rightarrow> (ArmRequest, unit) deploy" where
  "deploy_mdr_sentinel env credential vendor tenant data =
     (case mdr_block data of
        None \<Rightarrow> raise (exn Config_Error ''Missing Sentinel'')
      | Some c \<Rightarrow>
          (case check_status (sv_statuses env) (se_status c) of
             Inl _ \<Rightarrow> raise (exn Config_Error ''status'')
           | Inr strategy \<Rightarrow>
               if strategy = DELETION
               then delete_arm credential vendor (sn_azure_subscription_id tenant) (sn_resource_group tenant)
                      (sn_workspace_name tenant) (ref_uuid data)
               else case compile_sentinel env data (sn_name tenant) of
                 Inl fault \<Rightarrow> raise (fault_exn data fault)
               | Inr alert_rule \<Rightarrow>
                   andthen (create_or_update_arm credential vendor (sn_azure_subscription_id tenant) (sn_resource_group tenant)
                      (sn_workspace_name tenant) (ref_uuid data) alert_rule) (\<lambda>_. ret ())))"

definition deploy_tenant_sentinel ::
  "SentinelEnv \<Rightarrow> arm_credential \<Rightarrow> (ArmRequest, HttpResponse) vendor \<Rightarrow> SentinelTenant \<Rightarrow> SentinelMdr list \<Rightarrow> (ArmRequest, unit) deploy" where
  "deploy_tenant_sentinel env credential vendor tenant rules =
     andthen (connect_sentinel tenant) (\<lambda>_.
     andthen (each (\<lambda>data. deploying sentinel (sn_name tenant) (ref_uuid data) (ref_name data)
                (deploy_mdr_sentinel env credential vendor tenant data)) rules) (\<lambda>_. ret ()))"

definition deploy_sentinel ::
  "SentinelEnv \<Rightarrow> DeployEnv \<Rightarrow> (SentinelTenant \<Rightarrow> arm_credential) \<Rightarrow> (ArmRequest, HttpResponse) vendor \<Rightarrow> (string \<Rightarrow> SentinelMdr option)
    \<Rightarrow> (SentinelMdr list \<Rightarrow> RunStrategies option \<Rightarrow> Exn + (SentinelTenant \<times> SentinelMdr list) list)
    \<Rightarrow> SentinelMdr mdr_arg list \<Rightarrow> RunStrategies option \<Rightarrow> (ArmRequest, unit) deploy" where
  "deploy_sentinel env run credential vendor rules resolve mdr_deployment strategies =
     andthen (lift_sum (rmap (load_mdr rules) mdr_deployment)) (\<lambda>loaded.
     andthen (ask_world (without_legacy_external_ids (du_text_of run) (du_index run) loaded sentinel)) (\<lambda>kept.
       if kept = [] then ret ()
       else andthen (lift_sum (resolve kept strategies)) (\<lambda>batches.
            andthen (each (\<lambda>(tenant, rs). deploy_tenant_sentinel env (credential tenant) vendor tenant rs) batches) (\<lambda>_. ret ()))))"

section \<open>Distinct rules have distinct URLs\<close>

lemma upper_hex_digit_code: "d < 16 \<Longrightarrow> (of_char (upper_hex_digit d) :: nat) = (if d < 10 then 48 + d else 55 + d)"
  by (simp add: upper_hex_digit_def)

lemma upper_hex_digit_inj: "c < 16 \<Longrightarrow> d < 16 \<Longrightarrow> upper_hex_digit c = upper_hex_digit d \<Longrightarrow> c = d"
proof -
  assume "c < 16" "d < 16" "upper_hex_digit c = upper_hex_digit d"
  then have "(if c < 10 then 48 + c else 55 + c) = (if d < 10 then 48 + d else 55 + d)"
    by (metis upper_hex_digit_code)
  then show ?thesis by (auto split: if_splits)
qed

lemma percent_byte_app:
  assumes "b < 256" "b' < 256" "percent_byte b @ x = percent_byte b' @ y"
  shows "b = b' \<and> x = y"
proof -
  have "upper_hex_digit (b div 16) = upper_hex_digit (b' div 16)" "upper_hex_digit (b mod 16) = upper_hex_digit (b' mod 16)" "x = y"
    using assms(3) by (simp_all add: percent_byte_def)
  then have "b div 16 = b' div 16" "b mod 16 = b' mod 16" "x = y"
    using upper_hex_digit_inj [of "b div 16" "b' div 16"] upper_hex_digit_inj [of "b mod 16" "b' mod 16"] assms(1,2) by simp_all
  then show ?thesis by (metis div_mult_mod_eq)
qed

lemma char_code_bound: "(of_char c :: nat) < 256"
  by (rule nat_of_char_less_256)

lemma first_byte_bound: "n < 256 \<Longrightarrow> 192 + n div 64 < (256::nat)"
  using less_mult_imp_div_less [of n 64 64] by simp

lemma quote_char_app: "quote_char c @ x = quote_char d @ y \<Longrightarrow> c = d \<and> x = y"
proof -
  assume eq: "quote_char c @ x = quote_char d @ y"
  have percent: "\<not> is_unreserved (CHR ''%'')" by (simp add: is_unreserved_def)
  have hd: "hd (quote_char c @ x) = (if is_unreserved c then c else CHR ''%'')" for c x
    by (simp add: quote_char_def utf8_bytes_def percent_byte_def Let_def)
  have same: "is_unreserved c \<longleftrightarrow> is_unreserved d" "is_unreserved c \<longrightarrow> c = d"
    using hd [of c x] hd [of d y] eq percent by (metis)+
  show ?thesis
  proof (cases "is_unreserved c")
    case True
    with same eq show ?thesis by (simp add: quote_char_def)
  next
    case False
    define n m where "n = (of_char c :: nat)" and "m = (of_char d :: nat)"
    have bounds: "n < 256" "m < 256" by (simp_all add: n_def m_def char_code_bound)
    have bytes: "percent_byte (if n < 128 then n else 192 + n div 64) @ (if n < 128 then [] else percent_byte (128 + n mod 64)) @ x
        = percent_byte (if m < 128 then m else 192 + m div 64) @ (if m < 128 then [] else percent_byte (128 + m mod 64)) @ y"
      using eq False same(1) by (simp add: quote_char_def utf8_bytes_def Let_def n_def m_def split: if_splits)
    have "(if n < 128 then n else 192 + n div 64) < 256" "(if m < 128 then m else 192 + m div 64) < 256"
      using bounds first_byte_bound by simp_all
    from percent_byte_app [OF this bytes] have first: "(if n < 128 then n else 192 + n div 64) = (if m < 128 then m else 192 + m div 64)"
      "(if n < 128 then [] else percent_byte (128 + n mod 64)) @ x = (if m < 128 then [] else percent_byte (128 + m mod 64)) @ y"
      by simp_all
    have "n = m \<and> x = y"
    proof (cases "n < 128")
      case True
      with first bounds show ?thesis by (auto split: if_splits)
    next
      case n: False
      with first(1) have m: "\<not> m < 128" by (auto split: if_splits)
      with n first have "n div 64 = m div 64" "percent_byte (128 + n mod 64) @ x = percent_byte (128 + m mod 64) @ y" by simp_all
      moreover from percent_byte_app [OF _ _ this(2)] have "n mod 64 = m mod 64" "x = y" by simp_all
      ultimately show ?thesis by (metis div_mult_mod_eq)
    qed
    then show ?thesis by (simp add: n_def m_def)
  qed
qed

lemma quote_char_not_Nil: "quote_char c \<noteq> []"
  by (simp add: quote_char_def utf8_bytes_def percent_byte_def Let_def)

lemma url_quote_inj: "url_quote s = url_quote t \<Longrightarrow> s = t"
proof (induction s arbitrary: t)
  case Nil
  then show ?case by (cases t) (simp_all add: url_quote_def quote_char_not_Nil)
next
  case (Cons c s)
  then obtain d t' where t: "t = d # t'" by (cases t) (simp_all add: url_quote_def quote_char_not_Nil)
  with Cons.prems have "c = d \<and> url_quote s = url_quote t'"
    by (intro quote_char_app) (simp add: url_quote_def)
  with Cons.IH t show ?case by simp
qed

lemma quoted_chars: "x \<in> set (url_quote s) \<Longrightarrow> is_unreserved x \<or> x = CHR ''%''"
proof -
  have digit: "is_unreserved (upper_hex_digit d)" if "d < 16" for d
    using upper_hex_digit_code [OF that] that by (simp add: is_unreserved_def Let_def split: if_splits)
  have byte: "is_unreserved x \<or> x = CHR ''%''" if "x \<in> set (percent_byte b)" "b < 256" for b
    using that digit [of "b div 16"] digit [of "b mod 16"] by (auto simp: percent_byte_def)
  have "is_unreserved x \<or> x = CHR ''%''" if "x \<in> set (quote_char c)" for c
  proof (cases "is_unreserved c")
    case False
    with that obtain b where "x \<in> set (percent_byte b)" "b \<in> set (utf8_bytes c)" by (auto simp: quote_char_def)
    moreover from this(2) have "b < 256" using char_code_bound [of c] first_byte_bound [of "of_char c"] by (auto simp: utf8_bytes_def Let_def split: if_splits)
    ultimately show ?thesis using byte by blast
  qed (use that in \<open>simp add: quote_char_def\<close>)
  then show "x \<in> set (url_quote s) \<Longrightarrow> is_unreserved x \<or> x = CHR ''%''" by (auto simp: url_quote_def)
qed

lemma no_slash: "CHR ''/'' \<notin> set (url_quote s)"
  using quoted_chars [of "CHR ''/''" s] by (auto simp: is_unreserved_def)

lemma first_occurrence: "c \<notin> set a \<Longrightarrow> c \<notin> set b \<Longrightarrow> a @ c # x = b @ c # y \<Longrightarrow> a = b \<and> x = y"
proof (induction a arbitrary: b)
  case Nil
  then show ?case by (cases b) auto
next
  case (Cons d a)
  then show ?case by (cases b) auto
qed

lemma segment_eq: "url_quote a @ CHR ''/'' # x = url_quote b @ CHR ''/'' # y \<Longrightarrow> a = b \<and> x = y"
  using first_occurrence [OF no_slash no_slash] url_quote_inj by blast

text \<open>
  C30: No rule is sent over another one: two rules share a URL of ARM only if they are the same rule of the same
  workspace, resource group and subscription, whatever characters the four names have.
\<close>

theorem sentinel_urls_are_distinct:
  assumes "alert_rules_url subscription resources workspace (Some rule) = alert_rules_url subscription' resources' workspace' (Some rule')"
  shows "(subscription, resources, workspace, rule) = (subscription', resources', workspace', rule')"
proof -
  have "url_quote subscription @ CHR ''/'' # ''resourceGroups/'' @ url_quote resources
          @ ''/providers/Microsoft.OperationalInsights/workspaces/'' @ url_quote workspace
          @ ''/providers/Microsoft.SecurityInsights/alertRules/'' @ url_quote rule
      = url_quote subscription' @ CHR ''/'' # ''resourceGroups/'' @ url_quote resources'
          @ ''/providers/Microsoft.OperationalInsights/workspaces/'' @ url_quote workspace'
          @ ''/providers/Microsoft.SecurityInsights/alertRules/'' @ url_quote rule'"
    using assms by (simp add: alert_rules_url_def)
  from segment_eq [OF this] have s: "subscription = subscription'"
    and rest: "url_quote resources @ CHR ''/'' # ''providers/Microsoft.OperationalInsights/workspaces/'' @ url_quote workspace
          @ ''/providers/Microsoft.SecurityInsights/alertRules/'' @ url_quote rule
      = url_quote resources' @ CHR ''/'' # ''providers/Microsoft.OperationalInsights/workspaces/'' @ url_quote workspace'
          @ ''/providers/Microsoft.SecurityInsights/alertRules/'' @ url_quote rule'" by simp_all
  from segment_eq [OF rest] have g: "resources = resources'"
    and rest: "url_quote workspace @ CHR ''/'' # ''providers/Microsoft.SecurityInsights/alertRules/'' @ url_quote rule
      = url_quote workspace' @ CHR ''/'' # ''providers/Microsoft.SecurityInsights/alertRules/'' @ url_quote rule'" by simp_all
  from segment_eq [OF rest] have "workspace = workspace'" "url_quote rule = url_quote rule'" by simp_all
  with s g url_quote_inj show ?thesis by blast
qed

section \<open>What a tenant is sent\<close>

text \<open>The request of a rule: a DELETE when its status removes it, and otherwise a PUT of what it compiles to.\<close>

definition sentinel_request :: "SentinelEnv \<Rightarrow> SentinelTenant \<Rightarrow> SentinelMdr \<Rightarrow> string \<Rightarrow> ArmRequest option" where
  "sentinel_request env tenant data token =
     (case mdr_block data of
        None \<Rightarrow> None
      | Some c \<Rightarrow>
          let url = alert_rules_url (sn_azure_subscription_id tenant) (sn_resource_group tenant) (sn_workspace_name tenant) (Some (ref_uuid data));
              q = \<lambda>verb body. \<lparr>ar_method = verb, ar_url = url, ar_params = [(''api-version'', alert_rules_api_version)],
                    ar_token = token, ar_body = body\<rparr>
          in case check_status (sv_statuses env) (se_status c) of
               Inl _ \<Rightarrow> None
             | Inr strategy \<Rightarrow>
                 if strategy = DELETION then Some (q ''DELETE'' None)
                 else case compile_sentinel env data (sn_name tenant) of Inl _ \<Rightarrow> None | Inr body \<Rightarrow> Some (q ''PUT'' (Some body)))"

lemma contains_str_member: "contains_str sub s \<Longrightarrow> x \<in> set sub \<Longrightarrow> x \<in> set s"
proof (induction s)
  case (Cons c s)
  have "x \<in> set (c # s)" if "starts_with sub (c # s)"
    using that Cons.prems(2) by (metis Un_iff set_append starts_with_iff)
  with Cons show ?case by auto
qed simp

lemma url_has_params: "\<not> contains_str ''api-version='' (alert_rules_url a b c (Some d))"
proof
  assume "contains_str ''api-version='' (alert_rules_url a b c (Some d))"
  then have "CHR ''='' \<in> set (alert_rules_url a b c (Some d))" by (rule contains_str_member) simp
  moreover have "CHR ''='' \<notin> set (url_quote s)" for s
    using quoted_chars [of "CHR ''=''" s] by (auto simp: is_unreserved_def)
  ultimately show False by (simp add: alert_rules_url_def arm_endpoint_def)
qed

text \<open>One rule sends at most one request, its own; it returns when the answer was no error.\<close>

definition sent_ok ::
  "SentinelEnv \<Rightarrow> (ArmRequest, HttpResponse) vendor \<Rightarrow> SentinelTenant \<Rightarrow> SentinelMdr list \<Rightarrow> ArmRequest list \<Rightarrow> ArmRequest list \<Rightarrow> bool" where
  "sent_ok env vendor tenant rules calls qs =
     (list_all2 (\<lambda>data q. sentinel_request env tenant data (ar_token q) = Some q) rules qs
      \<and> (\<forall>i < length qs. \<exists>a. vendor (calls @ take i qs) (qs ! i) = Inr a \<and> hr_status a < 400))"

lemma arm_request_run:
  assumes "arm_request credential vendor verb (alert_rules_url a b c (Some d)) body s = (r, s')"
  obtains (no_token) e where "r = Inl e" "s' = s"
  | (sent) token q where "q = \<lparr>ar_method = verb, ar_url = alert_rules_url a b c (Some d),
      ar_params = [(''api-version'', alert_rules_api_version)], ar_token = token, ar_body = body\<rparr>"
    "s' = s\<lparr>dr_calls := dr_calls s @ [q]\<rparr>"
    "\<And>x. r = Inr x \<Longrightarrow> vendor (dr_calls s) q = Inr x \<and> hr_status x < 400"
proof (cases "credential (dr_calls s)")
  case (Inl e)
  with assms have "r = Inl e" "s' = s" by (simp_all add: arm_request_def get_token_def andthen_def)
  with no_token show thesis by blast
next
  case (Inr token)
  let ?q = "\<lparr>ar_method = verb, ar_url = alert_rules_url a b c (Some d),
      ar_params = [(''api-version'', alert_rules_api_version)], ar_token = token, ar_body = body\<rparr>"
  have run: "arm_request credential vendor verb (alert_rules_url a b c (Some d)) body s
      = (case vendor (dr_calls s) ?q of
           Inl e \<Rightarrow> (Inl e, s\<lparr>dr_calls := dr_calls s @ [?q]\<rparr>)
         | Inr x \<Rightarrow> (if hr_status x \<ge> 400 then Inl (sentinel_api_error verb (alert_rules_url a b c (Some d)) x) else Inr x,
             s\<lparr>dr_calls := dr_calls s @ [?q]\<rparr>))"
    using Inr by (simp add: arm_request_def get_token_def andthen_def url_has_params send_def raise_def ret_def split: sum.split)
  then show thesis
    using assms by (intro sent [OF refl, of token]) (auto split: sum.splits if_splits)
qed

lemma sent_ok_one:
  "sentinel_request env tenant data (ar_token q) = Some q \<Longrightarrow> vendor calls q = Inr a \<Longrightarrow> hr_status a < 400
    \<Longrightarrow> sent_ok env vendor tenant [data] calls [q]"
  by (simp add: sent_ok_def)

lemma sent_ok_Cons:
  assumes "sent_ok env vendor tenant [data] calls [q]" "sent_ok env vendor tenant rules (calls @ [q]) qs"
  shows "sent_ok env vendor tenant (data # rules) calls (q # qs)"
proof -
  have "\<exists>a. vendor (calls @ take i (q # qs)) ((q # qs) ! i) = Inr a \<and> hr_status a < 400" if "i < length (q # qs)" for i
    using assms that by (cases i) (auto simp: sent_ok_def)
  with assms show ?thesis by (simp add: sent_ok_def)
qed

lemma deploy_mdr_sentinel_run:
  assumes "deploy_mdr_sentinel env credential vendor tenant data s = (r, s')"
  shows "dr_world s' = dr_world s"
    and "(r \<noteq> Inr () \<and> dr_calls s' = dr_calls s)
      \<or> (\<exists>q. dr_calls s' = dr_calls s @ [q] \<and> sentinel_request env tenant data (ar_token q) = Some q
           \<and> (r = Inr () \<longrightarrow> (\<exists>a. vendor (dr_calls s) q = Inr a \<and> hr_status a < 400)))"
proof -
  let ?url = "alert_rules_url (sn_azure_subscription_id tenant) (sn_resource_group tenant) (sn_workspace_name tenant) (Some (ref_uuid data))"
  consider (quiet) "s' = s" "r \<noteq> Inr ()"
    | (asked) c strategy verb body x s1 where "mdr_block data = Some c" "check_status (sv_statuses env) (se_status c) = Inr strategy"
        "arm_request credential vendor verb ?url body s = (x, s1)" "s' = s1" "r = Inr () \<longrightarrow> (\<exists>y. x = Inr y)"
        "strategy = DELETION \<and> verb = ''DELETE'' \<and> body = None
         \<or> strategy \<noteq> DELETION \<and> verb = ''PUT'' \<and> (\<exists>rule. compile_sentinel env data (sn_name tenant) = Inr rule \<and> body = Some rule)"
  proof (cases "mdr_block data")
    case None
    with assms have "s' = s" "r \<noteq> Inr ()" by (auto simp add: deploy_mdr_sentinel_def raise_def)
    with quiet show thesis by blast
  next
    case c: (Some c)
    show thesis
    proof (cases "check_status (sv_statuses env) (se_status c)")
      case (Inl e)
      with assms c have "s' = s" "r \<noteq> Inr ()" by (auto simp add: deploy_mdr_sentinel_def raise_def)
      with quiet show thesis by blast
    next
      case strategy: (Inr strategy)
      show thesis
      proof (cases "strategy = DELETION")
        case True
        obtain x s1 where run: "arm_request credential vendor ''DELETE'' ?url None s = (x, s1)" by force
        with assms c strategy True have "s' = s1" "r = Inr () \<longrightarrow> (\<exists>y. x = Inr y)"
          by (auto simp: deploy_mdr_sentinel_def delete_arm_def andthen_def ret_def split: sum.splits)
        with asked [OF c strategy run] True show thesis by simp
      next
        case False
        show thesis
        proof (cases "compile_sentinel env data (sn_name tenant)")
          case (Inl fault)
          with assms c strategy False have "s' = s" "r \<noteq> Inr ()" by (auto simp add: deploy_mdr_sentinel_def raise_def)
          with quiet show thesis by blast
        next
          case (Inr rule)
          obtain x s1 where run: "arm_request credential vendor ''PUT'' ?url (Some rule) s = (x, s1)" by force
          with assms c strategy False Inr have "s' = s1" "r = Inr () \<longrightarrow> (\<exists>y. x = Inr y)"
            by (auto simp: deploy_mdr_sentinel_def create_or_update_arm_def andthen_def ret_def raise_def response_json_def
                split: sum.splits if_splits option.splits)
          with asked [OF c strategy run] False Inr show thesis by simp
        qed
      qed
    qed
  qed
  then have "dr_world s' = dr_world s \<and> ((r \<noteq> Inr () \<and> dr_calls s' = dr_calls s)
      \<or> (\<exists>q. dr_calls s' = dr_calls s @ [q] \<and> sentinel_request env tenant data (ar_token q) = Some q
           \<and> (r = Inr () \<longrightarrow> (\<exists>a. vendor (dr_calls s) q = Inr a \<and> hr_status a < 400))))"
  proof cases
    case quiet
    then show ?thesis by simp
  next
    case asked
    from asked(3) show ?thesis
    proof (cases rule: arm_request_run)
      case (no_token e)
      with asked(4,5) show ?thesis by auto
    next
      case (sent token q)
      have "sentinel_request env tenant data (ar_token q) = Some q"
        using asked(6) by (auto simp: sentinel_request_def asked(1,2) sent(1))
      moreover have "r = Inr () \<longrightarrow> (\<exists>a. vendor (dr_calls s) q = Inr a \<and> hr_status a < 400)"
        using sent(3) asked(5) by blast
      ultimately show ?thesis using sent(2) asked(4) by simp
    qed
  qed
  then show "dr_world s' = dr_world s"
    and "(r \<noteq> Inr () \<and> dr_calls s' = dr_calls s)
      \<or> (\<exists>q. dr_calls s' = dr_calls s @ [q] \<and> sentinel_request env tenant data (ar_token q) = Some q
           \<and> (r = Inr () \<longrightarrow> (\<exists>a. vendor (dr_calls s) q = Inr a \<and> hr_status a < 400)))" by blast+
qed

lemma connect_sentinel_quiet: "connect_sentinel tenant s = (r, s') \<Longrightarrow> s' = s"
  by (cases "reject_unsubstituted_placeholders [sn_azure_tenant_id tenant, sn_azure_client_id tenant,
        sn_azure_client_secret tenant, sn_azure_subscription_id tenant] ''Azure''"; cases "tenant_tls_verify (sn_ssl tenant)")
    (simp_all add: connect_sentinel_def andthen_def ret_def raise_def)

lemma deploying_sentinel_run:
  assumes "deploying p t u n (deploy_mdr_sentinel env credential vendor tenant data) s = (r, s')"
  shows "w_dir (dr_world s') = w_dir (dr_world s)"
    and "(r \<noteq> Inr () \<and> dr_calls s' = dr_calls s)
      \<or> (\<exists>q. dr_calls s' = dr_calls s @ [q] \<and> sentinel_request env tenant data (ar_token q) = Some q
           \<and> (r = Inr () \<longrightarrow> (\<exists>a. vendor (dr_calls s) q = Inr a \<and> hr_status a < 400)))"
proof -
  let ?s1 = "s\<lparr>dr_world := on_events (scope_enter (deploying_result p (Some t) u n None)) (dr_world s)\<rparr>"
  obtain x s2 where run: "deploy_mdr_sentinel env credential vendor tenant data ?s1 = (x, s2)" by force
  with assms have s': "r = x" "w_dir (dr_world s') = w_dir (dr_world s2)" "dr_calls s' = dr_calls s2"
    by (auto simp: deploying_def andthen_def on_world_def update_state_def Let_def on_events_def)
  show "w_dir (dr_world s') = w_dir (dr_world s)"
    using deploy_mdr_sentinel_run(1) [OF run] s' by (simp add: on_events_def)
  show "(r \<noteq> Inr () \<and> dr_calls s' = dr_calls s)
      \<or> (\<exists>q. dr_calls s' = dr_calls s @ [q] \<and> sentinel_request env tenant data (ar_token q) = Some q
           \<and> (r = Inr () \<longrightarrow> (\<exists>a. vendor (dr_calls s) q = Inr a \<and> hr_status a < 400)))"
    using deploy_mdr_sentinel_run(2) [OF run] s' by simp
qed

lemma each_sentinel_run:
  "each (\<lambda>data. deploying p t (ref_uuid data) (ref_name data) (deploy_mdr_sentinel env credential vendor tenant data)) rules s = (r, s')
    \<Longrightarrow> \<exists>k qs. k \<le> length rules \<and> dr_calls s' = dr_calls s @ qs \<and> w_dir (dr_world s') = w_dir (dr_world s)
      \<and> list_all2 (\<lambda>data q. sentinel_request env tenant data (ar_token q) = Some q) (take k rules) qs
      \<and> ((\<exists>xs. r = Inr xs) \<longrightarrow> k = length rules \<and> sent_ok env vendor tenant rules (dr_calls s) qs)"
proof (induction rules arbitrary: s r s')
  case Nil
  then show ?case by (simp add: ret_def sent_ok_def)
next
  case (Cons data rules)
  obtain x s1 where one: "deploying p t (ref_uuid data) (ref_name data) (deploy_mdr_sentinel env credential vendor tenant data) s = (x, s1)"
    by force
  note first = deploying_sentinel_run [OF one]
  show ?case
  proof (cases x)
    case (Inl e)
    with Cons.prems one have s': "r = Inl e" "s' = s1" by (simp_all add: andthen_def)
    from first(2) consider "dr_calls s1 = dr_calls s"
      | q where "dr_calls s1 = dr_calls s @ [q]" "sentinel_request env tenant data (ar_token q) = Some q" by blast
    then show ?thesis
    proof cases
      case 1
      with s' first(1) show ?thesis by (intro exI [of _ 0]) simp
    next
      case 2
      with s' first(1) show ?thesis by (intro exI [of _ 1] exI [of _ "[q]"]) simp
    qed
  next
    case (Inr u)
    with first(2) obtain q a where q: "dr_calls s1 = dr_calls s @ [q]" "sentinel_request env tenant data (ar_token q) = Some q"
      "vendor (dr_calls s) q = Inr a" "hr_status a < 400" by auto
    obtain y s2 where rest: "each (\<lambda>data. deploying p t (ref_uuid data) (ref_name data)
        (deploy_mdr_sentinel env credential vendor tenant data)) rules s1 = (y, s2)" by force
    with Cons.prems one Inr have s': "s' = s2" "(\<exists>xs. r = Inr xs) \<longleftrightarrow> (\<exists>xs. y = Inr xs)"
      by (auto simp: andthen_def ret_def split: sum.splits)
    from Cons.IH [OF rest] obtain k qs where k: "k \<le> length rules" "dr_calls s2 = dr_calls s1 @ qs"
      "w_dir (dr_world s2) = w_dir (dr_world s1)"
      "list_all2 (\<lambda>data q. sentinel_request env tenant data (ar_token q) = Some q) (take k rules) qs"
      "(\<exists>xs. y = Inr xs) \<longrightarrow> k = length rules \<and> sent_ok env vendor tenant rules (dr_calls s1) qs" by blast
    have "(\<exists>xs. r = Inr xs) \<longrightarrow> Suc k = length (data # rules) \<and> sent_ok env vendor tenant (data # rules) (dr_calls s) (q # qs)"
      using k(5) s'(2) sent_ok_Cons [of env vendor tenant data "dr_calls s" q] sent_ok_one [of env tenant data q vendor, OF q(2-4)] q(1) by auto
    with k q s' first(1) show ?thesis by (intro exI [of _ "Suc k"] exI [of _ "q # qs"]) simp
  qed
qed

text \<open>
  C27: What a Sentinel workspace is sent is the rules of the batch: the rules are taken in their order, each sends at
  most the one request that is its own (a DELETE of its URL when its status removes it, and otherwise a PUT of what it
  compiles to), the shards stay as they were, and when the run returns every rule has been sent and every answer was
  below 400. A run that raises has sent the requests of a first part of the batch, the last perhaps refused.
\<close>

theorem sentinel_sends_the_rules:
  assumes "deploy_tenant_sentinel env credential vendor tenant rules s = (r, s')"
  shows "\<exists>k qs. k \<le> length rules \<and> dr_calls s' = dr_calls s @ qs \<and> w_dir (dr_world s') = w_dir (dr_world s)
    \<and> list_all2 (\<lambda>data q. sentinel_request env tenant data (ar_token q) = Some q) (take k rules) qs
    \<and> (r = Inr () \<longrightarrow> k = length rules \<and> sent_ok env vendor tenant rules (dr_calls s) qs)"
proof (cases "connect_sentinel tenant s")
  case (Pair x s1)
  then have s1: "s1 = s" by (rule connect_sentinel_quiet)
  show ?thesis
  proof (cases x)
    case (Inl e)
    with assms Pair s1 have "r = Inl e" "s' = s" by (simp_all add: deploy_tenant_sentinel_def andthen_def)
    then show ?thesis by (intro exI [of _ 0]) simp
  next
    case (Inr u)
    obtain y s2 where run: "each (\<lambda>data. deploying sentinel (sn_name tenant) (ref_uuid data) (ref_name data)
        (deploy_mdr_sentinel env credential vendor tenant data)) rules s = (y, s2)" by force
    with assms Pair s1 Inr have "s' = s2" "r = Inr () \<longrightarrow> (\<exists>xs. y = Inr xs)"
      by (auto simp: deploy_tenant_sentinel_def andthen_def ret_def split: sum.splits)
    with each_sentinel_run [OF run] show ?thesis by blast
  qed
qed

section \<open>Samples\<close>

definition sample_workspace :: SentinelTenant where
  "sample_workspace = \<lparr>sn_name = ''Prod'', sn_ssl = PBool True, sn_resource_group = ''rg'', sn_workspace_name = ''w/s'',
     sn_azure_tenant_id = ''t'', sn_azure_subscription_id = ''sub'', sn_azure_client_id = ''c'', sn_azure_client_secret = ''$p!''\<rparr>"

definition sample_arm :: "(ArmRequest, HttpResponse) vendor" where
  "sample_arm calls q = Inr (if calls = []
     then \<lparr>hr_status = 201, hr_json = Some (PDict []), hr_text = ''{}'', hr_content_type = []\<rparr>
     else \<lparr>hr_status = 409, hr_json = None, hr_text = [], hr_content_type = []\<rparr>)"

lemma sample_connects: "connect_sentinel sample_workspace s = (Inr (), s)"
  by (simp add: connect_sentinel_def sample_workspace_def reject_unsubstituted_placeholders_def env_reference_def
      is_variable_name_def is_name_start_def is_ascii_digit_def tenant_tls_verify_def andthen_def ret_def)

lemma sentinel_urls_are_distinct_witness:
  "alert_rules_url ''sub'' ''r/g'' ''w'' (Some ''u'')
     = ''https://management.azure.com/subscriptions/sub/resourceGroups/r%2Fg/providers/Microsoft.OperationalInsights/workspaces/w/providers/Microsoft.SecurityInsights/alertRules/u''
   \<and> (''sub'', ''r/g'', ''w'', ''u'') = (''sub'', ''r/g'', ''w'', ''u'')
   \<and> alert_rules_url ''sub'' ''r/g'' ''w'' (Some ''u'') \<noteq> alert_rules_url ''sub'' ''r%2Fg'' ''w'' (Some ''u'')"
proof -
  have "alert_rules_url ''sub'' ''r/g'' ''w'' (Some ''u'')
     = ''https://management.azure.com/subscriptions/sub/resourceGroups/r%2Fg/providers/Microsoft.OperationalInsights/workspaces/w/providers/Microsoft.SecurityInsights/alertRules/u''"
    by code_simp
  moreover have "(''sub'', ''r/g'', ''w'', ''u'') = (''sub'', ''r/g'', ''w'', ''u'')"
    by (rule sentinel_urls_are_distinct) (rule refl)
  moreover have "alert_rules_url ''sub'' ''r/g'' ''w'' (Some ''u'') \<noteq> alert_rules_url ''sub'' ''r%2Fg'' ''w'' (Some ''u'')"
    using sentinel_urls_are_distinct [of "''sub''" "''r/g''" "''w''" "''u''" "''sub''" "''r%2Fg''" "''w''" "''u''"] by auto
  ultimately show ?thesis by blast
qed

lemma sentinel_sends_the_rules_witness:
  "\<exists>r s' q. deploy_tenant_sentinel sample_sentinel_env (\<lambda>_. Inr ''token'') sample_arm sample_workspace [sample_sentinel_mdr] sample_run = (r, s')
     \<and> r = Inr () \<and> dr_calls s' = [q] \<and> ar_method q = ''PUT''
     \<and> sent_ok sample_sentinel_env sample_arm sample_workspace [sample_sentinel_mdr] [] [q]"
proof -
  obtain body where body: "compile_sentinel sample_sentinel_env sample_sentinel_mdr ''Prod'' = Inr body"
    using sample_sentinel_compiles by blast
  have c: "mdr_block sample_sentinel_mdr = Some sample_sentinel_block" "sn_name sample_workspace = ''Prod''"
    "check_status (sv_statuses sample_sentinel_env) (se_status sample_sentinel_block) = Inr RELEASE"
    by (simp_all add: sample_sentinel_mdr_def sample_workspace_def sample_sentinel_block_def sample_sentinel_env_def small_statuses_def)
  obtain r s' where run: "deploy_tenant_sentinel sample_sentinel_env (\<lambda>_. Inr ''token'') sample_arm sample_workspace
      [sample_sentinel_mdr] sample_run = (r, s')" by force
  have ok: "r = Inr ()"
    using run by (simp add: deploy_tenant_sentinel_def sample_connects andthen_def deploying_def on_world_def update_state_def Let_def
        deploy_mdr_sentinel_def c body create_or_update_arm_def arm_request_def get_token_def send_def sample_arm_def sample_run_def
        response_json_def ret_def url_has_params)
  have none: "dr_calls (sample_run :: ArmRequest DeployRun) = []" by (simp add: sample_run_def)
  from sentinel_sends_the_rules [OF run] ok none obtain qs where
    qs: "dr_calls s' = qs" "sent_ok sample_sentinel_env sample_arm sample_workspace [sample_sentinel_mdr] [] qs" by auto
  then obtain q where q: "qs = [q]" "sentinel_request sample_sentinel_env sample_workspace sample_sentinel_mdr (ar_token q) = Some q"
    by (auto simp: sent_ok_def list_all2_Cons1)
  have "ar_method q = ''PUT''"
    using arg_cong [OF q(2), of "map_option ar_method"] by (simp add: sentinel_request_def c body)
  with run ok qs q(1) show ?thesis by (intro exI conjI) simp_all
qed

end
