(* ===== verification/Elastic_Checks.thy ===== *)
theory Elastic_Checks
  imports Deploy_Run
begin

text \<open>
  \<open>platforms/elastic/es_checks.py\<close> and the requests of \<open>client.py\<close>: what is asked of
  Elasticsearch before a rule is written. A block is the dump of a validated model, so a list of
  fields holds strings. The source command of an ES|QL query (\<open>esql_sources\<close>) is a parameter.
  A check gives the warnings it noted.
\<close>

section \<open>Requests\<close>

text \<open>Requests to the detection engine, and the four that read data views and indices.\<close>

datatype ElRequest =
    KbGetRule string
  | KbCreateRule pydict
  | KbUpdateRule pydict
  | KbDeleteRule string
  | KbDataView string
  | EsQuery string
  | EsResolve string
  | EsFieldCaps string "string list"

type_synonym el_vendor = "(ElRequest, HttpResponse) vendor"
type_synonym 'a elastic = "(ElRequest, 'a) deploy"

fun is_write :: "ElRequest \<Rightarrow> bool" where
  "is_write (KbCreateRule _) = True"
| "is_write (KbUpdateRule _) = True"
| "is_write (KbDeleteRule _) = True"
| "is_write _ = False"

definition body_json :: "HttpResponse \<Rightarrow> 'a elastic \<Rightarrow> (pyval \<Rightarrow> 'a elastic) \<Rightarrow> 'a elastic" where
  "body_json resp otherwise use = (case hr_json resp of None \<Rightarrow> otherwise | Some v \<Rightarrow> use v)"

definition response_body :: "HttpResponse \<Rightarrow> pyval elastic" where
  "response_body resp = body_json resp (raise (exn Code_Error ''JSONDecodeError'')) ret"

text \<open>\<open>v.get(key, default)\<close>, an \<open>AttributeError\<close> unless \<open>v\<close> is a dictionary.\<close>

definition got :: "pyval \<Rightarrow> string \<Rightarrow> pyval \<Rightarrow> pyval elastic" where
  "got v key dflt =
     (case v of
        PDict d \<Rightarrow> ret (case dget d key of None \<Rightarrow> dflt | Some x \<Rightarrow> x)
      | _ \<Rightarrow> raise (exn Code_Error ''AttributeError''))"

section \<open>Reading a block\<close>

definition sub_dict :: "pydict \<Rightarrow> string \<Rightarrow> pydict" where
  "sub_dict block key = (case dget_dict block key of None \<Rightarrow> [] | Some d \<Rightarrow> d)"

definition text_list :: "pyval \<Rightarrow> string list" where
  "text_list v = (case v of PList xs \<Rightarrow> List.map_filter as_str_val xs | _ \<Rightarrow> [])"

definition rule_type_of :: "pydict \<Rightarrow> pyval" where
  "rule_type_of block = (case dget block ''type'' of None \<Rightarrow> PStr ''query'' | Some v \<Rightarrow> v)"

text \<open>\<open>list(dict.fromkeys(filter(None, xs)))\<close>: the first of each, without empty names.\<close>

fun first_of_each :: "'a list \<Rightarrow> 'a list" where
  "first_of_each [] = []"
| "first_of_each (x # xs) = x # filter (\<lambda>y. y \<noteq> x) (first_of_each xs)"

definition field_names :: "string list \<Rightarrow> string list" where
  "field_names xs = first_of_each (filter (\<lambda>x. x \<noteq> []) xs)"

definition threshold_fields :: "pydict \<Rightarrow> string list" where
  "threshold_fields threshold =
     (let field = dget_none threshold ''field'' in
        (if \<not> truthy field then [] else case field of PList _ \<Rightarrow> text_list field | v \<Rightarrow> [py_str v])
        @ (case dget_dict threshold ''cardinality'' of
             None \<Rightarrow> []
           | Some c \<Rightarrow> if truthy (dget_none c ''field'') then [py_str (dget_none c ''field'')] else []))"

definition aggregation_fields :: "pydict \<Rightarrow> string list" where
  "aggregation_fields block = field_names
     (text_list (dget_none (sub_dict block ''suppression'') ''group_by'')
      @ threshold_fields (sub_dict block ''threshold'')
      @ text_list (dget_none (sub_dict block ''new_terms'') ''fields''))"

definition timestamp_fields :: "pydict \<Rightarrow> string list" where
  "timestamp_fields block = first_of_each
     (filter (\<lambda>f. f \<noteq> ''@timestamp'') (map py_str (filter truthy
        [dget_none (sub_dict block ''overrides'') ''timestamp'', dget_none (sub_dict block ''eql'') ''timestamp_field''])))"

text \<open>The fields of the threat mapping, on the side of the events and of the indicators.\<close>

definition mapping_fields :: "string \<Rightarrow> pydict \<Rightarrow> string list" where
  "mapping_fields side threat = field_names
     (concat (map (\<lambda>group. case group of
          PDict g \<Rightarrow>
            (case dget_none g ''entries'' of
               PList entries \<Rightarrow>
                 concat (map (\<lambda>e. case e of
                     PDict d \<Rightarrow> if truthy (dget_none d side) then [py_str (dget_none d side)] else []
                   | _ \<Rightarrow> []) entries)
             | _ \<Rightarrow> [])
        | _ \<Rightarrow> []) (case dget_none threat ''mapping'' of PList xs \<Rightarrow> xs | _ \<Rightarrow> [])))"

section \<open>Errors\<close>

definition rule_error :: "string \<Rightarrow> 'a elastic" where
  "rule_error message = raise (exn Rule_Error message)"

definition raise_if_unauthorized :: "HttpResponse \<Rightarrow> string \<Rightarrow> unit elastic" where
  "raise_if_unauthorized resp action =
     (if hr_status resp = 401 \<or> hr_status resp = 403
      then raise (exn Tenant_Error (''Elasticsearch '' @ action @ '' failed: HTTP '' @ int_str (hr_status resp)))
      else ret ())"

text \<open>The type, the reason and the text of an Elasticsearch error.\<close>

definition error_payload :: "HttpResponse \<Rightarrow> string \<times> string \<times> string" where
  "error_payload resp =
     (let plain = ([], hr_text resp, hr_text resp) in
      if \<not> starts_with ''application/json'' (hr_content_type resp) then plain
      else case hr_json resp of
          None \<Rightarrow> plain
        | Some err_data \<Rightarrow>
            (case (case err_data of PDict d \<Rightarrow> (case dget d ''error'' of None \<Rightarrow> PDict [] | Some e \<Rightarrow> e) | _ \<Rightarrow> PDict []) of
               PDict error \<Rightarrow>
                 (let text_of = (\<lambda>key dflt. if truthy (dget_none error key) then py_str (dget_none error key) else dflt)
                  in (text_of ''type'' [], text_of ''reason'' (hr_text resp), py_str (PDict error)))
             | _ \<Rightarrow> plain))"

section \<open>Checks\<close>

definition resolve_rule_sources ::
  "el_vendor \<Rightarrow> (string \<Rightarrow> string) \<Rightarrow> pydict \<Rightarrow> string list \<Rightarrow> (string option \<times> bool) elastic" where
  "resolve_rule_sources vendor esql_sources block setup_index =
     (let rule_type = rule_type_of block; data_view = dget_none block ''data_view_id'' in
      if rule_type = PStr ''machine_learning'' then ret (None, False)
      else if rule_type = PStr ''esql''
      then (let sources = esql_sources (if truthy (dget_none block ''query'') then py_str (dget_none block ''query'') else [])
            in ret (if sources = [] then None else Some sources, sources \<noteq> []))
      else if truthy data_view
      then andthen (send vendor (KbDataView (py_str data_view))) (\<lambda>resp.
             if hr_status resp = 401 \<or> hr_status resp = 403
             then raise (exn Tenant_Error (''Kibana data_view lookup failed: HTTP '' @ int_str (hr_status resp)))
             else if hr_status resp \<noteq> 200 then rule_error ''Data view lookup failed''
             else andthen (response_body resp) (\<lambda>data_view.
                    let view = (case data_view of
                          PDict d \<Rightarrow> if truthy (dget_none d ''data_view'') then dget_none d ''data_view'' else data_view
                        | _ \<Rightarrow> PDict []);
                        title = (case view of PDict d \<Rightarrow> dget_none d ''title'' | _ \<Rightarrow> PNone)
                    in ret (if truthy title then Some (py_str title) else None, True)))
      else if truthy (dget_none block ''index'')
      then ret (Some (str_join '','' (text_list (dget_none block ''index''))), True)
      else if setup_index \<noteq> [] then ret (Some (str_join '','' setup_index), True)
      else ret (None, False))"

definition onboarded :: "pyval \<Rightarrow> bool" where
  "onboarded v = (case v of PList [] \<Rightarrow> False | _ \<Rightarrow> True)"

definition run_esql_preflight ::
  "el_vendor \<Rightarrow> (string \<Rightarrow> string) \<Rightarrow> string \<Rightarrow> (pyval list \<times> string list) elastic" where
  "run_esql_preflight vendor esql_sources query =
     andthen (send vendor (EsQuery (py_rstrip query @ [CHR 0x0A] @ ''| LIMIT 0''))) (\<lambda>resp.
     andthen (raise_if_unauthorized resp ''_query'') (\<lambda>_.
       if hr_status resp = 200
       then andthen (response_body resp) (\<lambda>body.
              andthen (got body ''columns'' (PList [])) (\<lambda>columns.
                ret ((case columns of PList xs \<Rightarrow> xs | _ \<Rightarrow> []), [])))
       else
         let (err_type, reason, blob) = error_payload resp; sources = esql_sources query in
         if err_type = ''parsing_exception'' \<or> contains_str ''parsing_exception'' blob
         then rule_error (''ES|QL parsing exception: '' @ reason)
         else if err_type = ''verification_exception'' \<or> contains_str ''verification_exception'' blob
         then (if sources = [] then rule_error (''ES|QL verification exception: '' @ reason)
               else andthen (send vendor (EsResolve sources)) (\<lambda>resolved.
                    andthen (raise_if_unauthorized resolved ''_resolve/index'') (\<lambda>_.
                      if hr_status resolved \<noteq> 200 then rule_error (''ES|QL verification exception: '' @ reason)
                      else andthen (response_body resolved) (\<lambda>body.
                           andthen (got body ''indices'' (PList [])) (\<lambda>indices.
                           andthen (got body ''aliases'' (PList [])) (\<lambda>aliases.
                           andthen (got body ''data_streams'' (PList [])) (\<lambda>streams.
                             if \<not> truthy indices \<and> \<not> truthy aliases \<and> \<not> truthy streams
                             then ret ([], [''ES|QL sources not onboarded yet: '' @ sources])
                             else rule_error (''ES|QL verification exception: '' @ reason))))))))
         else rule_error (''ES|QL pre-flight failed: '' @ reason)))"

text \<open>\<open>name in caps\<close> and \<open>caps[name]\<close>.\<close>

definition has_field :: "string \<Rightarrow> pyval \<Rightarrow> bool elastic" where
  "has_field name caps =
     (case caps of
        PDict d \<Rightarrow> ret (dget d name \<noteq> None)
      | PList xs \<Rightarrow> ret (PStr name \<in> set xs)
      | PStr s \<Rightarrow> ret (contains_str name s)
      | _ \<Rightarrow> raise (exn Code_Error ''TypeError''))"

definition field_entry :: "string \<Rightarrow> pyval \<Rightarrow> pyval elastic" where
  "field_entry name caps =
     (case caps of PDict d \<Rightarrow> ret (dget_none d name) | _ \<Rightarrow> raise (exn Code_Error ''TypeError''))"

definition cap_is :: "string \<Rightarrow> pyval \<times> pyval \<Rightarrow> bool" where
  "cap_is key = (\<lambda>(_, cap). case cap of PDict c \<Rightarrow> dget c key = Some (PBool True) | _ \<Rightarrow> False)"

definition date_types :: "string list" where
  "date_types = [''date'', ''date_nanos'']"

definition cap_is_date :: "pyval \<times> pyval \<Rightarrow> bool" where
  "cap_is_date = (\<lambda>(field_type, cap). field_type \<in> PStr ` set date_types
     \<or> (case cap of PDict c \<Rightarrow> dget_none c ''type'' \<in> PStr ` set date_types | _ \<Rightarrow> False))"

text \<open>
  The answer of \<open>_field_caps\<close>, and what is asked of each field: \<open>absent\<close> says what a field
  without a mapping does (a warning or an error), \<open>good\<close> which mapping passes.
\<close>

definition field_caps ::
  "el_vendor \<Rightarrow> string \<Rightarrow> string list \<Rightarrow> string \<Rightarrow> (pyval \<Rightarrow> string list elastic) \<Rightarrow> string list elastic" where
  "field_caps vendor sources fs label use =
     andthen (send vendor (EsFieldCaps sources fs)) (\<lambda>resp.
     andthen (raise_if_unauthorized resp ''_field_caps'') (\<lambda>_.
       if hr_status resp \<noteq> 200 then rule_error (label @ '' field check failed'')
       else andthen (response_body resp) (\<lambda>caps_data.
            andthen (got caps_data ''indices'' (PList [])) (\<lambda>indices.
              if \<not> onboarded indices then ret [label @ '' sources not onboarded yet: '' @ sources]
              else andthen (got caps_data ''fields'' (PDict [])) use))))"

definition check_field ::
  "pyval \<Rightarrow> (string \<Rightarrow> string list elastic) \<Rightarrow> (pyval \<Rightarrow> bool elastic) \<Rightarrow> string \<Rightarrow> string \<Rightarrow> string list elastic" where
  "check_field caps absent good problem field_name =
     andthen (has_field field_name caps) (\<lambda>present.
       if \<not> present then absent field_name
       else andthen (field_entry field_name caps) (\<lambda>type_caps.
            andthen (good type_caps) (\<lambda>ok.
              if ok then ret [] else rule_error (problem @ field_name))))"

definition check_fields ::
  "pyval \<Rightarrow> (string \<Rightarrow> string list elastic) \<Rightarrow> (pyval \<Rightarrow> bool elastic) \<Rightarrow> string \<Rightarrow> string list \<Rightarrow> string list elastic" where
  "check_fields caps absent good problem fs =
     andthen (each (check_field caps absent good problem) fs) (\<lambda>notes. ret (concat notes))"

definition is_aggregatable :: "pyval \<Rightarrow> bool elastic" where
  "is_aggregatable type_caps =
     (case type_caps of
        PDict d \<Rightarrow> ret (list_ex (cap_is ''aggregatable'') d)
      | _ \<Rightarrow> raise (exn Code_Error ''AttributeError''))"

definition is_date_field :: "pyval \<Rightarrow> bool elastic" where
  "is_date_field type_caps = ret (case type_caps of PDict d \<Rightarrow> list_ex cap_is_date d | _ \<Rightarrow> False)"

definition is_searchable :: "pyval \<Rightarrow> bool elastic" where
  "is_searchable type_caps = ret (case type_caps of PDict d \<Rightarrow> list_ex (cap_is ''searchable'') d | _ \<Rightarrow> False)"

definition column_names :: "pyval list \<Rightarrow> pyval list" where
  "column_names columns = List.map_filter (\<lambda>c. case c of PDict d \<Rightarrow> dget d ''name'' | _ \<Rightarrow> None) columns"

definition run_aggregation_fields_check ::
  "el_vendor \<Rightarrow> pydict \<Rightarrow> pyval list option \<Rightarrow> string option \<times> bool \<Rightarrow> string list elastic" where
  "run_aggregation_fields_check vendor block esql_columns resolved =
     (let fs = aggregation_fields block;
          group_by = text_list (dget_none (sub_dict block ''suppression'') ''group_by'') in
      if fs = [] then ret []
      else if rule_type_of block = PStr ''esql''
      then (case esql_columns of
              None \<Rightarrow> ret []
            | Some columns \<Rightarrow>
                if group_by \<noteq> [] \<and> column_names columns \<noteq> []
                   \<and> \<not> list_all (\<lambda>g. PStr g \<in> set (column_names columns)) group_by
                then rule_error ''ES|QL suppression group_by field not in query columns'' else ret [])
      else case resolved of
          (_, False) \<Rightarrow> ret [''aggregation field check skipped: rule has no explicit index, data_view_id, or tenant index'']
        | (None, True) \<Rightarrow> ret []
        | (Some sources, True) \<Rightarrow>
            if sources = [] then ret []
            else field_caps vendor sources fs ''aggregation'' (\<lambda>caps.
                   check_fields caps (\<lambda>f. rule_error (''Field not found in mappings: '' @ f)) is_aggregatable
                     ''Field is not aggregatable: '' fs))"

definition warn_unmapped :: "string \<Rightarrow> string \<Rightarrow> string list elastic" where
  "warn_unmapped label f = ret [label @ '' field not found in mappings yet: '' @ f]"

definition run_timestamp_fields_check :: "el_vendor \<Rightarrow> pydict \<Rightarrow> string option \<times> bool \<Rightarrow> string list elastic" where
  "run_timestamp_fields_check vendor block resolved =
     (let fs = timestamp_fields block in
      if fs = [] then ret []
      else case fst resolved of
          None \<Rightarrow> ret []
        | Some sources \<Rightarrow>
            if sources = [] then ret []
            else field_caps vendor sources fs ''timestamp'' (\<lambda>caps.
                   check_fields caps (warn_unmapped ''Timestamp'') is_date_field
                     ''Timestamp field is not a date/date_nanos field: '' fs))"

definition check_searchable_fields :: "el_vendor \<Rightarrow> string \<Rightarrow> string list \<Rightarrow> string \<Rightarrow> string list elastic" where
  "check_searchable_fields vendor sources fs label =
     field_caps vendor sources fs label (\<lambda>caps.
       check_fields caps (warn_unmapped label) is_searchable (label @ '' field is not searchable: '') fs)"

definition run_threat_match_fields_check :: "el_vendor \<Rightarrow> pydict \<Rightarrow> string option \<times> bool \<Rightarrow> string list elastic" where
  "run_threat_match_fields_check vendor block resolved =
     (if dget_none block ''type'' \<noteq> PStr ''threat_match'' then ret []
      else case dget_dict block ''threat'' of
          None \<Rightarrow> ret []
        | Some threat \<Rightarrow>
            (let event_fields = mapping_fields ''field'' threat; indicator_fields = mapping_fields ''value'' threat;
                 threat_sources = str_join '','' (map py_str (filter truthy
                   (case dget_none threat ''index'' of PList xs \<Rightarrow> xs | _ \<Rightarrow> [])))
             in andthen (if threat_sources \<noteq> [] \<and> indicator_fields \<noteq> []
                         then check_searchable_fields vendor threat_sources indicator_fields ''Threat indicator''
                         else ret []) (\<lambda>indicator_notes.
                andthen (case fst resolved of
                           None \<Rightarrow> ret []
                         | Some sources \<Rightarrow>
                             if event_fields = [] \<or> sources = [] then ret []
                             else check_searchable_fields vendor sources event_fields ''Threat match event'') (\<lambda>event_notes.
                  ret (indicator_notes @ event_notes)))))"

definition run_elasticsearch_checks ::
  "el_vendor \<Rightarrow> (string \<Rightarrow> string) \<Rightarrow> pydict \<Rightarrow> string list \<Rightarrow> string list elastic" where
  "run_elasticsearch_checks vendor esql_sources block setup_index =
     andthen (if rule_type_of block = PStr ''esql'' \<and> truthy (dget_none block ''query'')
              then andthen (run_esql_preflight vendor esql_sources (py_str (dget_none block ''query''))) (\<lambda>(cs, notes). ret (Some cs, notes))
              else ret (None, [])) (\<lambda>(columns, notes0).
     andthen (resolve_rule_sources vendor esql_sources block setup_index) (\<lambda>resolved.
     andthen (run_aggregation_fields_check vendor block columns resolved) (\<lambda>notes1.
     andthen (run_timestamp_fields_check vendor block resolved) (\<lambda>notes2.
     andthen (run_threat_match_fields_check vendor block resolved) (\<lambda>notes3.
       ret (notes0 @ notes1 @ notes2 @ notes3))))))"

section \<open>The checks only read\<close>

text \<open>The world stays as it is and no request writes a rule.\<close>

definition reads_only :: "ElRequest DeployRun \<Rightarrow> ElRequest DeployRun \<Rightarrow> bool" where
  "reads_only s s' = (dr_world s' = dr_world s
     \<and> (\<exists>qs. dr_calls s' = dr_calls s @ qs \<and> list_all (\<lambda>q. \<not> is_write q) qs))"

interpretation reads: frame reads_only
proof
  show "reads_only s s" for s by (simp add: reads_only_def)
  show "reads_only s u" if "reads_only s t" "reads_only t u" for s t u
    using that by (fastforce simp: reads_only_def)
qed

named_theorems reads_intros \<open>checks that only read\<close>

lemmas [reads_intros] = reads.frame_rules

lemma reads_send [reads_intros]: "\<not> is_write q \<Longrightarrow> preserves reads_only (send vendor q)"
  by (simp add: preserves_def send_def reads_only_def)

lemma reads_parts [reads_intros]:
  "preserves reads_only (rule_error m)" "preserves reads_only (raise_if_unauthorized resp a)"
  "preserves reads_only (response_body resp)" "preserves reads_only (got v k d)"
  "preserves reads_only (has_field n c)" "preserves reads_only (field_entry n c)"
  "preserves reads_only (is_aggregatable v)" "preserves reads_only (is_date_field v)"
  "preserves reads_only (is_searchable v)" "preserves reads_only (warn_unmapped l f)"
  unfolding rule_error_def raise_if_unauthorized_def response_body_def body_json_def got_def has_field_def
    field_entry_def is_aggregatable_def is_date_field_def is_searchable_def warn_unmapped_def
  by (auto intro!: reads_intros split: option.split pyval.split)

lemma reads_check_fields [reads_intros]:
  assumes "\<And>f. preserves reads_only (absent f)" "\<And>v. preserves reads_only (good v)"
  shows "preserves reads_only (check_fields caps absent good problem fs)"
  unfolding check_fields_def check_field_def using assms by (auto intro!: reads_intros)

lemma reads_field_caps [reads_intros]:
  assumes "\<And>c. preserves reads_only (use c)"
  shows "preserves reads_only (field_caps vendor sources fs label use)"
  unfolding field_caps_def using assms by (auto intro!: reads_intros)

lemma reads_resolve [reads_intros]: "preserves reads_only (resolve_rule_sources vendor esql block setup)"
  unfolding resolve_rule_sources_def Let_def by (auto intro!: reads_intros)

lemma reads_preflight [reads_intros]: "preserves reads_only (run_esql_preflight vendor esql query)"
  unfolding run_esql_preflight_def Let_def case_prod_unfold by (intro reads_intros | rule conjI impI | simp split: if_split)+

lemma reads_aggregation [reads_intros]: "preserves reads_only (run_aggregation_fields_check vendor block cs r)"
  unfolding run_aggregation_fields_check_def Let_def
  by (auto intro!: reads_intros split: option.split prod.split bool.split)

lemma reads_timestamp [reads_intros]: "preserves reads_only (run_timestamp_fields_check vendor block r)"
  unfolding run_timestamp_fields_check_def Let_def by (auto intro!: reads_intros split: option.split)

lemma reads_threat [reads_intros]: "preserves reads_only (run_threat_match_fields_check vendor block r)"
  unfolding run_threat_match_fields_check_def check_searchable_fields_def Let_def
  by (auto intro!: reads_intros split: option.split)

lemma checks_only_read [reads_intros]: "preserves reads_only (run_elasticsearch_checks vendor esql block setup)"
  unfolding run_elasticsearch_checks_def by (auto intro!: reads_intros split: prod.split)

end
