(* ===== verification/Elastic_Deploy.thy ===== *)
theory Elastic_Deploy
  imports Elastic_Checks
begin

text \<open>
  \<open>platforms/elastic/deployer.py\<close>: one rule against the detection engine, the rules of a tenant,
  and a run over the tenants. Rules are addressed by their uuid, so no id is kept. The compiled body
  (\<open>compile.py\<close>), the techniques outside ATT&CK Enterprise and the batches are parameters.
\<close>

section \<open>Rules and tenants\<close>

record ElasticBlock =
  eb_status :: string
  eb_suppression :: pyval
  eb_dump :: pydict

type_synonym ElasticMdr = "ElasticBlock Mdr"

record ElasticTenant =
  et_name :: string
  et_ssl :: pyval
  et_index :: "string list option"
  et_suppression :: bool

record ElasticCode =
  ec_compile :: "ElasticMdr \<Rightarrow> ElasticTenant \<Rightarrow> Exn + pydict"
  ec_non_enterprise :: "ElasticMdr \<Rightarrow> bool"
  ec_esql_sources :: "string \<Rightarrow> string"

definition elastic :: string where
  "elastic = ''elastic''"

section \<open>Errors and warnings\<close>

definition spaced_name :: "string \<Rightarrow> string" where
  "spaced_name event = map (\<lambda>c. if c = CHR ''_'' then CHR '' '' else c) event"

definition deployment_error :: "string \<Rightarrow> string \<Rightarrow> int option \<Rightarrow> string option \<Rightarrow> unit elastic" where
  "deployment_error event rule_id status_code error =
     (let message = (case error of None \<Rightarrow> spaced_name event | Some e \<Rightarrow> if e = [] then spaced_name event else e);
          told = (case status_code of
             None \<Rightarrow> message
           | Some c \<Rightarrow> if c = 0 then message else ''HTTP '' @ int_str c @ '': '' @ message)
      in on_world (\<lambda>w. on_events (note_failure told) (set_env error_flag (log_line (LogEvent LogError event rule_id) w))))"

definition deployment_warning :: "string \<Rightarrow> string \<Rightarrow> unit elastic" where
  "deployment_warning event rule_id =
     on_world (\<lambda>w. set_env warning_flag (log_line (LogEvent LogWarning event rule_id) w))"

definition kibana_error :: "HttpResponse \<Rightarrow> string" where
  "kibana_error resp =
     (case hr_json resp of
        Some (PDict body) \<Rightarrow>
          if truthy (dget_none body ''message'') then py_str (dget_none body ''message'') else hr_text resp
      | _ \<Rightarrow> hr_text resp)"

definition tenant_error :: "HttpResponse \<Rightarrow> string \<Rightarrow> Exn" where
  "tenant_error resp tenant = exn Tenant_Error
     (''Tenant '' @ tenant @ '' auth error: HTTP '' @ int_str (hr_status resp))"

definition unauthorized :: "int \<Rightarrow> bool" where
  "unauthorized status = (status = 401 \<or> status = 403)"

definition write_failed :: "HttpResponse \<Rightarrow> string \<Rightarrow> string \<Rightarrow> string \<Rightarrow> bool elastic" where
  "write_failed resp event rule_id tenant =
     (if unauthorized (hr_status resp) then raise (tenant_error resp tenant)
      else if 400 \<le> hr_status resp
      then andthen (deployment_error event rule_id (Some (hr_status resp)) (Some (kibana_error resp))) (\<lambda>_. ret True)
      else ret False)"

definition check_rule ::
  "el_vendor \<Rightarrow> (string \<Rightarrow> string) \<Rightarrow> pydict \<Rightarrow> string list \<Rightarrow> string \<Rightarrow> bool elastic" where
  "check_rule vendor esql block setup_index rule_id =
     catching
       (andthen (run_elasticsearch_checks vendor esql block setup_index) (\<lambda>notes.
          andthen (each (\<lambda>_. deployment_warning ''elasticsearch_check_warning'' rule_id) notes) (\<lambda>_. ret True)))
       (\<lambda>e. if ex_class e = Rule_Error
            then Some (andthen (deployment_error ''elasticsearch_checks_failed'' rule_id None (Some (ex_text e))) (\<lambda>_. ret False))
            else None)"

section \<open>One rule\<close>

definition preserved_fields :: "string list" where
  "preserved_fields = [''actions'', ''exceptions_list'', ''response_actions'', ''timeline_id'', ''timeline_title'',
     ''concurrent_searches'', ''items_per_search'', ''meta'', ''output_index'', ''namespace'', ''throttle'']"

definition preserve_field :: "pydict \<Rightarrow> string \<Rightarrow> pydict \<Rightarrow> pydict" where
  "preserve_field remote key compiled =
     (case (dget compiled key, dget remote key) of
        (None, Some v) \<Rightarrow> AList.update (PStr key) v compiled
      | _ \<Rightarrow> compiled)"

definition preserve :: "pydict \<Rightarrow> pydict \<Rightarrow> pydict" where
  "preserve remote compiled = fold (preserve_field remote) preserved_fields compiled"

definition is_prebuilt_rule :: "pydict \<Rightarrow> bool" where
  "is_prebuilt_rule remote =
     (dget remote ''immutable'' = Some (PBool True)
      \<or> (case dget remote ''rule_source'' of Some (PDict d) \<Rightarrow> dget d ''type'' = Some (PStr ''external'') | _ \<Rightarrow> False))"

text \<open>\<open>resp.raise_for_status()\<close> for a status that is neither 200 nor 404.\<close>

definition raise_for_status :: "HttpResponse \<Rightarrow> unit elastic" where
  "raise_for_status resp =
     (if 400 \<le> hr_status resp \<and> hr_status resp < 600
      then raise \<lparr>ex_class = Http_Error, ex_text = ''HTTPError'', ex_status = Some (hr_status resp)\<rparr> else ret ())"

text \<open>The handlers of the delete and of the read: a refused token goes on, anything else is the rule's.\<close>

definition failed_request :: "string \<Rightarrow> string \<Rightarrow> Exn \<Rightarrow> unit elastic option" where
  "failed_request event rule_id e =
     (case ex_status e of
        Some c \<Rightarrow> if unauthorized c then None else Some (deployment_error event rule_id None (Some (ex_text e)))
      | None \<Rightarrow> Some (deployment_error event rule_id None (Some (ex_text e))))"

definition delete_rule :: "el_vendor \<Rightarrow> string \<Rightarrow> unit elastic" where
  "delete_rule vendor rule_id =
     catching
       (andthen (send vendor (KbDeleteRule rule_id)) (\<lambda>resp.
          if hr_status resp \<notin> {200, 404} then raise_for_status resp else ret ()))
       (\<lambda>e. if ex_status e = Some 404 then Some (ret ()) else failed_request ''delete_elastic_rule_failed'' rule_id e)"

definition is_request_exception :: "Exn \<Rightarrow> bool" where
  "is_request_exception e = (ex_class e = Http_Error \<or> ex_class e = Transport_Error)"

definition create_rule :: "el_vendor \<Rightarrow> string \<Rightarrow> string \<Rightarrow> pydict \<Rightarrow> unit elastic" where
  "create_rule vendor tenant rule_id compiled =
     andthen (catching (andthen (send vendor (KbCreateRule compiled)) (\<lambda>r. ret (Some r)))
        (\<lambda>e. if is_request_exception e
             then Some (andthen (deployment_error ''create_elastic_rule_failed'' rule_id None (Some (ex_text e))) (\<lambda>_. ret None))
             else None))
       (\<lambda>r. case r of
          None \<Rightarrow> ret ()
        | Some resp \<Rightarrow> andthen (write_failed resp ''create_elastic_rule_failed'' rule_id tenant) (\<lambda>_. ret ()))"

text \<open>\<open>PUT\<close> cannot change the type: delete, then create.\<close>

definition recreate_rule :: "el_vendor \<Rightarrow> string \<Rightarrow> string \<Rightarrow> pydict \<Rightarrow> unit elastic" where
  "recreate_rule vendor tenant rule_id compiled =
     andthen (send vendor (KbDeleteRule rule_id)) (\<lambda>deleted.
     andthen (if hr_status deleted = 404 then ret False
              else write_failed deleted ''recreate_elastic_rule_delete_failed'' rule_id tenant) (\<lambda>stopped.
       if stopped then ret ()
       else andthen (send vendor (KbCreateRule compiled)) (\<lambda>posted.
            andthen (write_failed posted ''recreate_elastic_rule_failed'' rule_id tenant) (\<lambda>failed.
              if failed then on_world (log_line (LogEvent LogError ''elastic_rule_deleted_not_recreated'' rule_id))
              else ret ()))))"

definition update_rule :: "el_vendor \<Rightarrow> string \<Rightarrow> string \<Rightarrow> pydict \<Rightarrow> pydict \<Rightarrow> unit elastic" where
  "update_rule vendor tenant rule_id remote compiled =
     (if is_prebuilt_rule remote then deployment_error ''refusing_to_modify_prebuilt_rule'' rule_id None None
      else
        let kept = preserve remote compiled in
        if dget_none remote ''type'' \<noteq> dget_none kept ''type'' then recreate_rule vendor tenant rule_id kept
        else andthen (send vendor (KbUpdateRule kept)) (\<lambda>resp.
             andthen (write_failed resp ''update_elastic_rule_failed'' rule_id tenant) (\<lambda>_. ret ())))"

definition upsert_rule :: "el_vendor \<Rightarrow> string \<Rightarrow> string \<Rightarrow> pydict \<Rightarrow> unit elastic" where
  "upsert_rule vendor tenant rule_id compiled =
     andthen (catching (andthen (send vendor (KbGetRule rule_id)) (\<lambda>r. ret (Some r)))
        (\<lambda>e. map_option (\<lambda>told. andthen told (\<lambda>_. ret None)) (failed_request ''get_elastic_rule_failed'' rule_id e)))
       (\<lambda>r. case r of
          None \<Rightarrow> ret ()
        | Some resp \<Rightarrow>
            if unauthorized (hr_status resp) then raise (tenant_error resp tenant)
            else if hr_status resp = 404 then create_rule vendor tenant rule_id compiled
            else if hr_status resp \<noteq> 200
            then deployment_error ''get_elastic_rule_failed'' rule_id (Some (hr_status resp)) (Some (kibana_error resp))
            else andthen (response_body resp) (\<lambda>remote.
                 case remote of
                   PDict d \<Rightarrow> update_rule vendor tenant rule_id d compiled
                 | _ \<Rightarrow> raise (exn Code_Error ''AttributeError'')))"

definition warn_suppression :: "ElasticTenant \<Rightarrow> ElasticBlock \<Rightarrow> string \<Rightarrow> string list \<Rightarrow> string list elastic" where
  "warn_suppression tenant cfg rule_id warned =
     (if \<not> et_suppression tenant \<and> eb_suppression cfg \<noteq> PNone \<and> rule_id \<notin> set warned
      then andthen (deployment_warning ''suppression_omitted_basic_license'' rule_id) (\<lambda>_. ret (rule_id # warned))
      else ret warned)"

definition compiled_body :: "ElasticCode \<Rightarrow> ElasticTenant \<Rightarrow> ElasticMdr \<Rightarrow> StatusStrategy \<Rightarrow> pydict elastic" where
  "compiled_body code tenant rule strategy =
     andthen (if ec_non_enterprise code rule then on_world (set_env warning_flag) else ret ()) (\<lambda>_.
     andthen (lift_sum (ec_compile code rule tenant)) (\<lambda>body.
       ret (AList.update (PStr ''enabled'') (PBool (strategy \<noteq> DISABLEMENT)) body)))"

definition deploy_active ::
  "ElasticCode \<Rightarrow> el_vendor \<Rightarrow> ElasticTenant \<Rightarrow> ElasticMdr \<Rightarrow> ElasticBlock \<Rightarrow> StatusStrategy \<Rightarrow> unit elastic" where
  "deploy_active code vendor tenant rule cfg strategy =
     andthen (check_rule vendor (ec_esql_sources code) (eb_dump cfg) (case et_index tenant of None \<Rightarrow> [] | Some xs \<Rightarrow> xs)
                (ref_uuid rule)) (\<lambda>ok.
       if \<not> ok then ret ()
       else andthen (compiled_body code tenant rule strategy) (upsert_rule vendor (et_name tenant) (ref_uuid rule)))"

definition deploy_rule_elastic ::
  "ElasticCode \<Rightarrow> el_vendor \<Rightarrow> DeployEnv \<Rightarrow> ElasticTenant \<Rightarrow> ElasticMdr \<Rightarrow> string list \<Rightarrow> string list elastic" where
  "deploy_rule_elastic code vendor env tenant rule warned =
     (case mdr_block rule of
        None \<Rightarrow> andthen (on_world (on_events (note_skip ''no Elastic configuration''))) (\<lambda>_. ret warned)
      | Some cfg \<Rightarrow>
          (case check_status (du_statuses env) (eb_status cfg) of
             Inl _ \<Rightarrow> raise (exn Config_Error ''status'')
           | Inr INERT \<Rightarrow>
               andthen (on_world (on_events (note_skip (''status '' @ eb_status cfg @ '' is inert'')))) (\<lambda>_. ret warned)
           | Inr DELETION \<Rightarrow> andthen (delete_rule vendor (ref_uuid rule)) (\<lambda>_. ret warned)
           | Inr strategy \<Rightarrow>
               andthen (warn_suppression tenant cfg (ref_uuid rule) warned) (\<lambda>warned'.
               andthen (deploy_active code vendor tenant rule cfg strategy) (\<lambda>_. ret warned'))))"

section \<open>A tenant and a run\<close>

fun deploy_mdr_elastic ::
  "ElasticCode \<Rightarrow> el_vendor \<Rightarrow> DeployEnv \<Rightarrow> ElasticTenant \<Rightarrow> ElasticMdr list \<Rightarrow> string list \<Rightarrow> unit elastic" where
  "deploy_mdr_elastic code vendor env tenant [] warned = ret ()"
| "deploy_mdr_elastic code vendor env tenant (rule # rules) warned =
     andthen (deploying elastic (et_name tenant) (ref_uuid rule) (ref_name rule)
                (deploy_rule_elastic code vendor env tenant rule warned))
       (deploy_mdr_elastic code vendor env tenant rules)"

definition deploy_tenant_elastic ::
  "ElasticCode \<Rightarrow> el_vendor \<Rightarrow> DeployEnv \<Rightarrow> ElasticTenant \<Rightarrow> ElasticMdr list \<Rightarrow> unit elastic" where
  "deploy_tenant_elastic code vendor env tenant rules =
     andthen (lift_sum (tenant_tls_verify (et_ssl tenant))) (\<lambda>_.
       catching (deploy_mdr_elastic code vendor env tenant rules [])
         (\<lambda>e. Some (on_world (\<lambda>w. set_env error_flag
                (log_line (LogEvent LogError ''elastic_tenant_deployment_failed'' (et_name tenant)) w)))))"

definition deploy_elastic ::
  "ElasticCode \<Rightarrow> (ElasticTenant \<Rightarrow> el_vendor) \<Rightarrow> DeployEnv \<Rightarrow> (string \<Rightarrow> ElasticMdr option)
    \<Rightarrow> (ElasticMdr list \<Rightarrow> RunStrategies option \<Rightarrow> Exn + (ElasticTenant \<times> ElasticMdr list) list)
    \<Rightarrow> ElasticMdr mdr_arg list \<Rightarrow> RunStrategies option \<Rightarrow> unit elastic" where
  "deploy_elastic code vendor env rules resolve mdr_deployment strategies =
     andthen (lift_sum (rmap (load_mdr rules) mdr_deployment)) (\<lambda>loaded.
     andthen (ask_world (without_legacy_external_ids (du_text_of env) (du_index env) loaded elastic)) (\<lambda>kept.
       if kept = [] then ret ()
       else andthen (lift_sum (resolve kept strategies)) (\<lambda>batches.
            andthen (each (\<lambda>(tenant, rs). deploy_tenant_elastic code (vendor tenant) env tenant rs) batches) (\<lambda>_. ret ()))))"

section \<open>What is reported\<close>

definition rows :: "'q DeployRun \<Rightarrow> RuleResult list" where
  "rows s = de_current (w_deploy (dr_world s))"

definition failed_row :: "'q DeployRun \<Rightarrow> bool" where
  "failed_row s = (rows s \<noteq> [] \<and> rr_status (last (rows s)) = Failed)"

text \<open>The blocks that are open stay open, each for the rule it was opened for, and no listener is told.\<close>

definition row_names :: "RuleResult \<Rightarrow> string \<times> string option \<times> string \<times> string" where
  "row_names row = (rr_platform row, rr_tenant row, rr_id row, rr_name row)"

definition same_blocks :: "DeployEvents \<Rightarrow> DeployEvents \<Rightarrow> bool" where
  "same_blocks d d' = (map row_names (de_current d') = map row_names (de_current d) \<and> de_events d' = de_events d)"

definition same_depth :: "'q DeployRun \<Rightarrow> 'q DeployRun \<Rightarrow> bool" where
  "same_depth s s' = same_blocks (w_deploy (dr_world s)) (w_deploy (dr_world s'))"

interpretation depth: frame same_depth
  by unfold_locales (simp_all add: same_depth_def same_blocks_def)

named_theorems depth_intros \<open>effects that leave the open blocks\<close>

lemmas [depth_intros] = depth.frame_rules

lemma note_blocks: "same_blocks d (note_failure m d)" "same_blocks d (note_skip m d)"
proof -
  have "same_blocks d (update_top f d)" if "\<And>r. row_names (f r) = row_names r" for f
    using that by (cases "de_current d" rule: rev_cases) (simp_all add: same_blocks_def update_top_def)
  then show "same_blocks d (note_failure m d)" "same_blocks d (note_skip m d)"
    by (simp_all add: note_failure_def note_skip_def scope_fail_def scope_skip_def row_names_def)
qed

lemma depth_send [depth_intros]: "preserves same_depth (send vendor q)"
  by (simp add: preserves_def send_def same_depth_def same_blocks_def)

lemma depth_reads: "preserves reads_only m \<Longrightarrow> preserves same_depth m"
  by (auto simp: preserves_def reads_only_def same_depth_def same_blocks_def)

lemma depth_world [depth_intros]:
  "(\<And>w. same_blocks (w_deploy w) (w_deploy (f w))) \<Longrightarrow> preserves same_depth (on_world f)"
  by (simp add: preserves_def on_world_def update_state_def same_depth_def)

lemma depth_told [depth_intros]:
  "preserves same_depth (deployment_error event rule_id c e)"
  "preserves same_depth (deployment_warning event rule_id)"
  "preserves same_depth (on_world (on_events (note_skip m)))"
  "preserves same_depth (on_world (log_line l))"
  "preserves same_depth (on_world (set_env n))"
  unfolding deployment_error_def deployment_warning_def Let_def
  by (intro depth_world; simp add: on_events_def set_env_def log_line_def note_blocks; simp add: same_blocks_def)+

lemma error_run:
  assumes "deployment_error event rule_id c e s = (r, s')"
  shows "r = Inr ()" "dr_calls s' = dr_calls s" "rows s \<noteq> [] \<Longrightarrow> failed_row s'"
  using assms
  by (auto simp: deployment_error_def on_world_def update_state_def Let_def on_events_def set_env_def log_line_def
      note_failure_def update_top_def scope_fail_def failed_row_def rows_def)

text \<open>
  What a rule that did not fail has to show: its last request is a write, and the answer was no error
  (a delete may find nothing).
\<close>

definition accepts_write :: "ElRequest \<Rightarrow> Exn + HttpResponse \<Rightarrow> bool" where
  "accepts_write q answer =
     (case (q, answer) of
        (KbDeleteRule _, Inl e) \<Rightarrow> ex_status e = Some 404
      | (KbDeleteRule _, Inr resp) \<Rightarrow> hr_status resp = 404 \<or> \<not> (400 \<le> hr_status resp \<and> hr_status resp < 600)
      | (KbCreateRule _, Inr resp) \<Rightarrow> hr_status resp < 400
      | (KbUpdateRule _, Inr resp) \<Rightarrow> hr_status resp < 400
      | _ \<Rightarrow> False)"

definition accepted :: "el_vendor \<Rightarrow> ElRequest DeployRun \<Rightarrow> ElRequest DeployRun \<Rightarrow> bool" where
  "accepted vendor s s' = (\<exists>pre q. dr_calls s' = dr_calls s @ pre @ [q] \<and> accepts_write q (vendor (dr_calls s @ pre) q))"

lemma accepted_later:
  assumes "accepted vendor s1 s'" "dr_calls s1 = dr_calls s @ pre"
  shows "accepted vendor s s'"
proof -
  from assms obtain more q where "dr_calls s' = dr_calls s @ (pre @ more) @ [q]"
    "accepts_write q (vendor (dr_calls s @ (pre @ more)) q)"
    by (auto simp: accepted_def)
  then show ?thesis unfolding accepted_def by blast
qed

lemma accepted_send:
  "dr_calls s' = dr_calls s @ [q] \<Longrightarrow> accepts_write q (vendor (dr_calls s) q) \<Longrightarrow> accepted vendor s s'"
  unfolding accepted_def by (intro exI [of _ "[]"] exI [of _ q]) simp

definition told :: "el_vendor \<Rightarrow> ElRequest DeployRun \<Rightarrow> ElRequest DeployRun \<Rightarrow> bool" where
  "told vendor s s' = (rows s \<noteq> [] \<longrightarrow> failed_row s' \<or> accepted vendor s s')"

lemma write_failed_Inr:
  assumes "write_failed resp event rule_id tenant s = (Inr failed, s')"
  shows "dr_calls s' = dr_calls s \<and> (failed \<longleftrightarrow> 400 \<le> hr_status resp) \<and> (failed \<longrightarrow> rows s \<noteq> [] \<longrightarrow> failed_row s')
    \<and> (\<not> failed \<longrightarrow> s' = s)"
  using assms unfolding write_failed_def
  by (auto simp: effect_Inr split: if_splits dest: error_run(2) error_run(3))

lemma rows_send: "send vendor q s = (r, s') \<Longrightarrow> rows s' = rows s \<and> dr_calls s' = dr_calls s @ [q]"
  by (auto simp: send_def rows_def)

lemma write_told:
  assumes "send vendor q s = (Inr resp, s1)" "write_failed resp event rule_id tenant s1 = (Inr failed, s')"
    "q = KbCreateRule body \<or> q = KbUpdateRule body"
  shows "told vendor s s'"
proof (cases failed)
  case True
  with write_failed_Inr [OF assms(2)] rows_send [OF assms(1)] show ?thesis by (auto simp: told_def)
next
  case False
  with write_failed_Inr [OF assms(2)] have "s' = s1" "hr_status resp < 400" by auto
  with assms(1,3) have "accepted vendor s s'"
    by (intro accepted_send) (auto simp: accepts_write_def send_Inr)
  then show ?thesis by (simp add: told_def)
qed

lemma failed_request_told:
  assumes "failed_request event rule_id e = Some k" "k s = (r, s')" "rows s \<noteq> []"
  shows "failed_row s'" "dr_calls s' = dr_calls s"
  using assms error_run(2,3) by (auto simp: failed_request_def split: option.splits if_splits)

lemma delete_told:
  assumes "delete_rule vendor rule_id s = (Inr (), s')"
  shows "told vendor s s'"
proof -
  let ?q = "KbDeleteRule rule_id"
  let ?body = "andthen (send vendor ?q) (\<lambda>resp.
     if hr_status resp \<notin> {200, 404} then raise_for_status resp else ret ())"
  from assms consider (normal) "?body s = (Inr (), s')"
    | (handled) e k s1 where "?body s = (Inl e, s1)" "k s1 = (Inr (), s')"
        "(if ex_status e = Some 404 then Some (ret ()) else failed_request ''delete_elastic_rule_failed'' rule_id e) = Some k"
    unfolding delete_rule_def catching_Inr by blast
  then show ?thesis
  proof cases
    case normal
    then have "accepted vendor s s'"
      by (intro accepted_send [of _ _ ?q])
        (auto simp: effect_Inr send_Inr raise_for_status_def accepts_write_def split: if_splits)
    then show ?thesis by (simp add: told_def)
  next
    case handled
    then have s1: "dr_calls s1 = dr_calls s @ [?q]" "rows s1 = rows s"
      by (auto simp: effect_Inl send_Inr send_Inl raise_for_status_def rows_def split: if_splits)
    show ?thesis
    proof (cases "ex_status e = Some 404")
      case True
      with handled(1) have "accepts_write ?q (vendor (dr_calls s) ?q)"
        by (auto simp: effect_Inl send_Inr send_Inl raise_for_status_def accepts_write_def split: if_splits)
      moreover have "k = ret ()" using True handled(3) by simp
      then have "s' = s1" using handled(2) by (simp add: ret_Inr)
      ultimately show ?thesis using s1 accepted_send by (simp add: told_def)
    next
      case False
      with handled(2,3) s1 show ?thesis using failed_request_told(1) by (fastforce simp: told_def)
    qed
  qed
qed

lemma create_told:
  assumes "create_rule vendor tenant rule_id body s = (Inr (), s')"
  shows "told vendor s s'"
proof -
  from assms obtain r s1 where first: "catching (andthen (send vendor (KbCreateRule body)) (\<lambda>r. ret (Some r)))
        (\<lambda>e. if is_request_exception e
             then Some (andthen (deployment_error ''create_elastic_rule_failed'' rule_id None (Some (ex_text e))) (\<lambda>_. ret None))
             else None) s = (Inr r, s1)"
    and rest: "(case r of None \<Rightarrow> ret ()
        | Some resp \<Rightarrow> andthen (write_failed resp ''create_elastic_rule_failed'' rule_id tenant) (\<lambda>_. ret ())) s1 = (Inr (), s')"
    by (auto simp: create_rule_def andthen_Inr)
  show ?thesis
  proof (cases r)
    case None
    with first rest obtain e s2 where sent: "send vendor (KbCreateRule body) s = (Inl e, s2)"
      and err: "deployment_error ''create_elastic_rule_failed'' rule_id None (Some (ex_text e)) s2 = (Inr (), s')"
      by (auto simp: catching_Inr effect_Inr effect_Inl split: if_splits)
    from error_run(3) [OF err] rows_send [OF sent] show ?thesis by (simp add: told_def)
  next
    case (Some resp)
    with first have "send vendor (KbCreateRule body) s = (Inr resp, s1)"
      by (auto simp: catching_Inr effect_Inr effect_Inl split: if_splits)
    moreover from rest Some obtain failed where "write_failed resp ''create_elastic_rule_failed'' rule_id tenant s1 = (Inr failed, s')"
      by (auto simp: effect_Inr)
    ultimately show ?thesis using write_told by blast
  qed
qed

lemma recreate_told:
  assumes "recreate_rule vendor tenant rule_id body s = (Inr (), s')"
  shows "told vendor s s'"
proof -
  from assms obtain deleted s1 stopped s2 where d: "send vendor (KbDeleteRule rule_id) s = (Inr deleted, s1)"
    and w: "(if hr_status deleted = 404 then ret False
          else write_failed deleted ''recreate_elastic_rule_delete_failed'' rule_id tenant) s1 = (Inr stopped, s2)"
    and rest: "(if stopped then ret ()
       else andthen (send vendor (KbCreateRule body)) (\<lambda>posted.
            andthen (write_failed posted ''recreate_elastic_rule_failed'' rule_id tenant) (\<lambda>failed.
              if failed then on_world (log_line (LogEvent LogError ''elastic_rule_deleted_not_recreated'' rule_id))
              else ret ()))) s2 = (Inr (), s')"
    unfolding recreate_rule_def andthen_Inr by blast
  have s1: "rows s1 = rows s" "dr_calls s1 = dr_calls s @ [KbDeleteRule rule_id]" using rows_send [OF d] by simp_all
  show ?thesis
  proof (cases stopped)
    case True
    with w have "write_failed deleted ''recreate_elastic_rule_delete_failed'' rule_id tenant s1 = (Inr True, s2)"
      by (auto simp: ret_Inr split: if_splits)
    from write_failed_Inr [OF this] s1 True rest show ?thesis by (auto simp: told_def ret_Inr)
  next
    case False
    with w have s2: "s2 = s1" by (auto simp: ret_Inr split: if_splits dest: write_failed_Inr)
    from rest False obtain posted failed s3 s4 where p: "send vendor (KbCreateRule body) s2 = (Inr posted, s3)"
      "write_failed posted ''recreate_elastic_rule_failed'' rule_id tenant s3 = (Inr failed, s4)"
      and last: "(if failed then on_world (log_line (LogEvent LogError ''elastic_rule_deleted_not_recreated'' rule_id)) else ret ()) s4 = (Inr (), s')"
      by (auto simp: andthen_Inr)
    from last have s': "rows s' = rows s4" "dr_calls s' = dr_calls s4"
      by (auto simp: on_world_def update_state_def log_line_def rows_def ret_def split: if_splits)
    have "told vendor s2 s4" by (rule write_told [OF p]) simp
    with s' s1 s2 show ?thesis
      by (auto simp: told_def failed_row_def accepted_def intro: accepted_later [unfolded accepted_def, of s4 s2])
  qed
qed

lemma told_later:
  assumes "told vendor s1 s'" "dr_calls s1 = dr_calls s @ pre" "rows s1 = [] \<longleftrightarrow> rows s = []"
  shows "told vendor s s'"
  using assms accepted_later [OF _ assms(2)] by (auto simp: told_def)

lemma update_told:
  assumes "update_rule vendor tenant rule_id remote body s = (Inr (), s')"
  shows "told vendor s s'"
proof -
  consider (prebuilt) "deployment_error ''refusing_to_modify_prebuilt_rule'' rule_id None None s = (Inr (), s')"
    | (recreate) "recreate_rule vendor tenant rule_id (preserve remote body) s = (Inr (), s')"
    | (put) resp s1 failed where "send vendor (KbUpdateRule (preserve remote body)) s = (Inr resp, s1)"
        "write_failed resp ''update_elastic_rule_failed'' rule_id tenant s1 = (Inr failed, s')"
    using assms by (auto simp: update_rule_def Let_def effect_Inr split: if_splits)
  then show ?thesis
  proof cases
    case prebuilt
    from error_run(3) [OF this] show ?thesis by (simp add: told_def)
  next
    case recreate
    then show ?thesis by (rule recreate_told)
  next
    case put
    then show ?thesis by (rule write_told) (rule disjI2, rule refl)
  qed
qed

lemma upsert_told:
  assumes "upsert_rule vendor tenant rule_id body s = (Inr (), s')"
  shows "told vendor s s'"
proof -
  let ?get = "andthen (send vendor (KbGetRule rule_id)) (\<lambda>r. ret (Some r))"
  let ?handler = "\<lambda>e. map_option (\<lambda>told. andthen told (\<lambda>_. ret None)) (failed_request ''get_elastic_rule_failed'' rule_id e)"
  let ?use = "\<lambda>resp. if unauthorized (hr_status resp) then raise (tenant_error resp tenant)
            else if hr_status resp = 404 then create_rule vendor tenant rule_id body
            else if hr_status resp \<noteq> 200
            then deployment_error ''get_elastic_rule_failed'' rule_id (Some (hr_status resp)) (Some (kibana_error resp))
            else andthen (response_body resp) (\<lambda>remote.
                 case remote of
                   PDict d \<Rightarrow> update_rule vendor tenant rule_id d body
                 | _ \<Rightarrow> raise (exn Code_Error ''AttributeError''))"
  from assms obtain r s1 where first: "catching ?get ?handler s = (Inr r, s1)"
    and rest: "(case r of None \<Rightarrow> ret () | Some resp \<Rightarrow> ?use resp) s1 = (Inr (), s')"
    by (auto simp: upsert_rule_def andthen_Inr)
  show ?thesis
  proof (cases r)
    case None
    with first obtain e s2 k where sent: "send vendor (KbGetRule rule_id) s = (Inl e, s2)"
      and err: "failed_request ''get_elastic_rule_failed'' rule_id e = Some k" "k s2 = (Inr (), s1)"
      by (auto simp: catching_Inr effect_Inr effect_Inl)
    from None rest have "s' = s1" by (simp add: ret_Inr)
    with failed_request_told(1) [OF err] rows_send [OF sent] show ?thesis by (simp add: told_def)
  next
    case (Some resp)
    with first have sent: "send vendor (KbGetRule rule_id) s = (Inr resp, s1)"
      by (auto simp: catching_Inr effect_Inr effect_Inl)
    note s1 = rows_send [OF sent]
    consider (new) "create_rule vendor tenant rule_id body s1 = (Inr (), s')"
      | (failed) "deployment_error ''get_elastic_rule_failed'' rule_id (Some (hr_status resp)) (Some (kibana_error resp)) s1 = (Inr (), s')"
      | (old) d where "update_rule vendor tenant rule_id d body s1 = (Inr (), s')"
      using rest Some
      by (auto simp: effect_Inr response_body_def body_json_def split: if_splits option.splits pyval.splits)
    then have "told vendor s1 s'"
    proof cases
      case failed
      from error_run(3) [OF this] show ?thesis by (simp add: told_def)
    qed (auto intro: create_told update_told)
    then show ?thesis using s1 told_later by simp
  qed
qed

section \<open>Before the write\<close>

text \<open>Blocks stay open and no request writes.\<close>

definition looks :: "ElRequest DeployRun \<Rightarrow> ElRequest DeployRun \<Rightarrow> bool" where
  "looks s s' = (same_depth s s' \<and> (\<exists>qs. dr_calls s' = dr_calls s @ qs \<and> list_all (\<lambda>q. \<not> is_write q) qs))"

interpretation looks: frame looks
proof
  show "looks s s" for s by (simp add: looks_def same_depth_def same_blocks_def)
  show "looks s u" if "looks s t" "looks t u" for s t u
    using that by (fastforce simp: looks_def same_depth_def same_blocks_def)
qed

lemmas [depth_intros] = looks.frame_rules

lemma looks_reads: "preserves reads_only m \<Longrightarrow> preserves looks m"
  by (auto simp: preserves_def looks_def reads_only_def same_depth_def same_blocks_def)

lemma looks_world:
  "(\<And>w. same_blocks (w_deploy w) (w_deploy (f w))) \<Longrightarrow> preserves looks (on_world f)"
  by (simp add: preserves_def looks_def on_world_def update_state_def same_depth_def)

lemma looks_told [depth_intros]:
  "preserves looks (deployment_error event rule_id c e)" "preserves looks (deployment_warning event rule_id)"
  "preserves looks (on_world (on_events (note_skip m)))" "preserves looks (on_world (set_env n))"
  unfolding deployment_error_def deployment_warning_def Let_def
  by (intro looks_world; simp add: on_events_def set_env_def log_line_def note_blocks; simp add: same_blocks_def)+

lemma looks_lift [depth_intros]: "preserves looks (lift_sum r)" "preserves same_depth (lift_sum r)"
  by (cases r; simp add: depth_intros)+

lemma looks_check [depth_intros]: "preserves looks (check_rule vendor esql block setup rule_id)"
  unfolding check_rule_def
  by (auto intro!: depth_intros looks_reads [OF checks_only_read] split: if_splits)

lemma looks_before [depth_intros]:
  "preserves looks (compiled_body code tenant rule strategy)" "preserves looks (warn_suppression tenant cfg rule_id warned)"
  unfolding compiled_body_def warn_suppression_def by (auto intro!: depth_intros)

lemma looks_run: "preserves looks m \<Longrightarrow> m s = (r, s') \<Longrightarrow> \<exists>pre. dr_calls s' = dr_calls s @ pre \<and> (rows s' = [] \<longleftrightarrow> rows s = [])"
  by (drule looks.keeps_run) (auto simp: looks_def same_depth_def same_blocks_def rows_def)

lemma check_rule_refused:
  assumes "check_rule vendor esql block setup rule_id s = (Inr False, s')"
  shows "told vendor s s'"
proof -
  let ?checks = "andthen (run_elasticsearch_checks vendor esql block setup) (\<lambda>notes.
          andthen (each (\<lambda>_. deployment_warning ''elasticsearch_check_warning'' rule_id) notes) (\<lambda>_. ret True))"
  from assms obtain e s1 where c: "?checks s = (Inl e, s1)"
    and err: "deployment_error ''elasticsearch_checks_failed'' rule_id None (Some (ex_text e)) s1 = (Inr (), s')"
    by (auto simp: check_rule_def catching_Inr effect_Inr split: if_splits)
  have "preserves looks ?checks" by (auto intro!: depth_intros looks_reads [OF checks_only_read])
  from looks_run [OF this c] error_run(3) [OF err] show ?thesis by (auto simp: told_def)
qed

lemma deploy_active_told:
  assumes "deploy_active code vendor tenant rule cfg strategy s = (Inr (), s')"
  shows "told vendor s s'"
proof -
  from assms obtain ok s1 where check: "check_rule vendor (ec_esql_sources code) (eb_dump cfg)
      (case et_index tenant of None \<Rightarrow> [] | Some xs \<Rightarrow> xs) (ref_uuid rule) s = (Inr ok, s1)"
    and rest: "(if \<not> ok then ret ()
       else andthen (compiled_body code tenant rule strategy) (upsert_rule vendor (et_name tenant) (ref_uuid rule))) s1 = (Inr (), s')"
    by (auto simp: deploy_active_def andthen_Inr)
  show ?thesis
  proof (cases ok)
    case True
    with rest obtain body s2 where b: "compiled_body code tenant rule strategy s1 = (Inr body, s2)"
      "upsert_rule vendor (et_name tenant) (ref_uuid rule) body s2 = (Inr (), s')"
      by (auto simp: andthen_Inr)
    obtain pre1 pre2 where "dr_calls s1 = dr_calls s @ pre1" "rows s1 = [] \<longleftrightarrow> rows s = []"
      "dr_calls s2 = dr_calls s1 @ pre2" "rows s2 = [] \<longleftrightarrow> rows s1 = []"
      using looks_run [OF looks_check check] looks_run [OF looks_before(1) b(1)] by blast
    then show ?thesis by (intro told_later [OF upsert_told [OF b(2)], of _ "pre1 @ pre2"]) simp_all
  next
    case False
    with rest check have "check_rule vendor (ec_esql_sources code) (eb_dump cfg)
      (case et_index tenant of None \<Rightarrow> [] | Some xs \<Rightarrow> xs) (ref_uuid rule) s = (Inr False, s')"
      by (simp add: ret_Inr)
    then show ?thesis by (rule check_rule_refused)
  qed
qed

text \<open>The whole of a rule leaves the blocks that are open.\<close>

lemma depth_failed_request: "failed_request event rule_id e = Some k \<Longrightarrow> preserves same_depth k"
  by (auto simp: failed_request_def intro: depth_intros split: option.splits if_splits)

lemma depth_write_failed [depth_intros]: "preserves same_depth (write_failed resp event rule_id tenant)"
  unfolding write_failed_def by (auto intro!: depth_intros)

lemma depth_requests [depth_intros]:
  "preserves same_depth (delete_rule vendor rule_id)"
  "preserves same_depth (create_rule vendor tenant rule_id body)"
  "preserves same_depth (recreate_rule vendor tenant rule_id body)"
  unfolding delete_rule_def create_rule_def recreate_rule_def raise_for_status_def
  by (auto intro!: depth_intros intro: depth_failed_request split: option.split if_splits)

lemma depth_update [depth_intros]: "preserves same_depth (update_rule vendor tenant rule_id remote body)"
  unfolding update_rule_def Let_def by (auto intro!: depth_intros)

lemma depth_upsert [depth_intros]: "preserves same_depth (upsert_rule vendor tenant rule_id body)"
  unfolding upsert_rule_def response_body_def body_json_def
  by (auto intro!: depth_intros dest!: depth_failed_request split: option.split pyval.split)

lemma looks_depth: "preserves looks m \<Longrightarrow> preserves same_depth m"
  by (auto simp: preserves_def looks_def)

lemma depth_before [depth_intros]:
  "preserves same_depth (compiled_body code tenant rule strategy)"
  "preserves same_depth (warn_suppression tenant cfg rule_id warned)"
  "preserves same_depth (check_rule vendor esql block setup rule_id)"
  by (intro looks_depth depth_intros)+

lemma depth_deploy_rule: "preserves same_depth (deploy_rule_elastic code vendor env tenant rule warned)"
  unfolding deploy_rule_elastic_def deploy_active_def
  by (auto intro!: depth_intros split: option.split sum.split StatusStrategy.split)

section \<open>Prebuilt rules\<close>

definition no_write :: "ElRequest DeployRun \<Rightarrow> ElRequest DeployRun \<Rightarrow> bool" where
  "no_write s s' = (filter is_write (dr_calls s') = filter is_write (dr_calls s))"

interpretation unwritten: frame no_write
  by unfold_locales (simp_all add: no_write_def)

lemma looks_unwritten: "preserves looks m \<Longrightarrow> preserves no_write m"
proof -
  assume m: "preserves looks m"
  have "no_write s (snd (m s))" for s
  proof -
    from m obtain qs where "dr_calls (snd (m s)) = dr_calls s @ qs" "list_all (\<lambda>q. \<not> is_write q) qs"
      by (auto simp: preserves_def looks_def)
    then show ?thesis by (simp add: no_write_def list_all_iff)
  qed
  then show ?thesis by (simp add: preserves_def)
qed

lemma upsert_prebuilt:
  assumes "\<forall>h. \<exists>resp. vendor h (KbGetRule rule_id) = Inr resp \<and> hr_status resp = 200 \<and> hr_json resp = Some (PDict remote)"
    and "is_prebuilt_rule remote"
  shows "preserves no_write (upsert_rule vendor tenant rule_id body)"
proof -
  have "no_write s (snd (upsert_rule vendor tenant rule_id body s))" for s
  proof -
    obtain resp where get: "send vendor (KbGetRule rule_id) s = (Inr resp, s\<lparr>dr_calls := dr_calls s @ [KbGetRule rule_id]\<rparr>)"
      and ok: "hr_status resp = 200" "hr_json resp = Some (PDict remote)"
      using assms(1) by (auto simp: send_def)
    let ?s1 = "s\<lparr>dr_calls := dr_calls s @ [KbGetRule rule_id]\<rparr>"
    have "upsert_rule vendor tenant rule_id body s
        = deployment_error ''refusing_to_modify_prebuilt_rule'' rule_id None None ?s1"
      using assms(2)
      by (simp add: upsert_rule_def andthen_def catching_def get ok ret_def unauthorized_def response_body_def
          body_json_def update_rule_def)
    moreover obtain r t where "deployment_error ''refusing_to_modify_prebuilt_rule'' rule_id None None ?s1 = (r, t)" by force
    ultimately show ?thesis using error_run(2) by (fastforce simp: no_write_def)
  qed
  then show ?thesis by (simp add: preserves_def)
qed

text \<open>
  C15: A prebuilt rule is never modified: while the detection engine answers the read of the rule's id
  with a rule that is immutable or of an external source, deploying the rule (whatever its status but
  deletion, the checks, the compiled body and the other answers) sends no create, update or delete.
\<close>

theorem elastic_never_writes_prebuilt:
  assumes "\<forall>h. \<exists>resp. vendor h (KbGetRule (ref_uuid rule)) = Inr resp \<and> hr_status resp = 200 \<and> hr_json resp = Some (PDict remote)"
    and "is_prebuilt_rule remote"
    and "mdr_block rule = Some cfg" and "check_status (du_statuses env) (eb_status cfg) \<noteq> Inr DELETION"
    and "deploy_rule_elastic code vendor env tenant rule warned s = (r, s')"
  shows "filter is_write (dr_calls s') = filter is_write (dr_calls s)"
proof -
  have before: "preserves no_write (check_rule vendor esql block indices (ref_uuid rule))"
    "preserves no_write (compiled_body code tenant rule strategy)"
    "preserves no_write (warn_suppression tenant cfg (ref_uuid rule) warned)"
    "preserves no_write (on_world (on_events (note_skip m)) :: unit elastic)"
    for esql block indices strategy m
    by (intro looks_unwritten depth_intros)+
  have active: "preserves no_write (deploy_active code vendor tenant rule cfg strategy)" for strategy
    unfolding deploy_active_def using before upsert_prebuilt [where vendor = vendor and rule_id = "ref_uuid rule" and remote = remote, OF assms(1,2)]
    by (auto intro!: unwritten.frame_rules)
  have "preserves no_write (deploy_rule_elastic code vendor env tenant rule warned)"
    unfolding deploy_rule_elastic_def using assms(3,4) before active
    by (auto intro!: unwritten.frame_rules split: sum.split StatusStrategy.split)
  from unwritten.keeps_run [OF this assms(5)] show ?thesis by (simp add: no_write_def)
qed

section \<open>What deployed means\<close>

text \<open>
  C14: A rule is reported deployed only when its last write was accepted: the block that wraps a rule tells the
  listener that the rule was started and then of exactly one row, of that rule's platform, tenant, UUID and name,
  and nothing else; when the row says deployed the rule's last request was a create or an update answered below 400,
  or a delete that was not refused (or found nothing). A skipped rule, a failed check, a refused read or write and an
  exception all give another row.
\<close>

theorem elastic_deployed_means_accepted:
  assumes "deploying elastic (et_name tenant) (ref_uuid rule) (ref_name rule)
      (deploy_rule_elastic code vendor env tenant rule warned) s = (r, s')"
  shows "\<exists>row. de_events (w_deploy (dr_world s')) = de_events (w_deploy (dr_world s))
        @ [RuleStarted (deploying_result elastic (Some (et_name tenant)) (ref_uuid rule) (ref_name rule) None), RuleFinished row]
    \<and> rr_platform row = elastic \<and> rr_tenant row = Some (et_name tenant) \<and> rr_id row = ref_uuid rule
    \<and> rr_name row = ref_name rule
    \<and> (rr_status row = Deployed \<longrightarrow>
        (\<exists>pre q. dr_calls s' = dr_calls s @ pre @ [q] \<and> accepts_write q (vendor (dr_calls s @ pre) q)))"
proof -
  let ?start = "deploying_result elastic (Some (et_name tenant)) (ref_uuid rule) (ref_name rule) None"
  define s1 where "s1 = s\<lparr>dr_world := on_events (scope_enter ?start) (dr_world s)\<rparr>"
  obtain s2 where run: "deploy_rule_elastic code vendor env tenant rule warned s1 = (r, s2)"
    and s': "s' = s2\<lparr>dr_world := on_events (scope_exit (case r of Inl e \<Rightarrow> Some (ex_text e) | Inr _ \<Rightarrow> None)) (dr_world s2)\<rparr>"
    using assms by (auto simp: deploying_def andthen_def on_world_def update_state_def Let_def s1_def split: prod.splits)
  have calls: "dr_calls s1 = dr_calls s" "dr_calls s' = dr_calls s2" by (simp_all add: s1_def s')
  have rows1: "rows s1 \<noteq> []" "last (rows s1) = ?start"
    by (simp_all add: s1_def rows_def on_events_def scope_enter_def)
  have same: "map row_names (rows s2) = map row_names (rows s1)"
    "de_events (w_deploy (dr_world s2)) = de_events (w_deploy (dr_world s)) @ [RuleStarted ?start]"
    using depth.keeps_run [OF depth_deploy_rule run]
    by (simp_all add: same_depth_def same_blocks_def rows_def s1_def on_events_def scope_enter_def)
  then have rows2: "rows s2 \<noteq> []" using rows1(1) by auto
  define row where "row = (case r of Inl e \<Rightarrow> scope_fail (ex_text e) (last (rows s2)) | Inr _ \<Rightarrow> last (rows s2))"
  have "row_names (last (rows s2)) = row_names ?start"
    using same(1) rows1 rows2 by (metis last_map)
  then have names: "row_names row = row_names ?start"
    by (cases r) (simp_all add: row_def scope_fail_def row_names_def)
  have events: "de_events (w_deploy (dr_world s')) = de_events (w_deploy (dr_world s2)) @ [RuleFinished row]"
    using rows2 by (cases r) (simp_all add: s' on_events_def scope_exit_def finish_def Let_def row_def rows_def)
  have "\<exists>pre q. dr_calls s2 = dr_calls s1 @ pre @ [q] \<and> accepts_write q (vendor (dr_calls s1 @ pre) q)"
    if deployed: "rr_status row = Deployed"
  proof -
    from deployed obtain warned' where r: "r = Inr warned'" and not_failed: "\<not> failed_row s2"
      and top: "rr_status (last (rows s2)) = Deployed"
      using rows2 by (cases r) (auto simp: row_def failed_row_def scope_fail_def split: if_splits)
    have skip: False if "on_world (on_events (note_skip m)) s1 = (Inr (), s2)" for m
      using that rows1 top by (auto simp: on_world_def update_state_def on_events_def note_skip_def update_top_def
          rows_def scope_skip_def deploying_result_def)
    have "told vendor s1 s2"
    proof -
      consider (none) "mdr_block rule = None" | (inert) cfg where "mdr_block rule = Some cfg" "check_status (du_statuses env) (eb_status cfg) = Inr INERT"
        | (deletion) "delete_rule vendor (ref_uuid rule) s1 = (Inr (), s2)"
        | (active) cfg strategy w1 t where "warn_suppression tenant cfg (ref_uuid rule) warned s1 = (Inr w1, t)"
            "deploy_active code vendor tenant rule cfg strategy t = (Inr (), s2)"
        using run r
        by (auto simp: deploy_rule_elastic_def effect_Inr split: option.splits sum.splits StatusStrategy.splits)
      then show ?thesis
      proof cases
        case none
        with run r skip show ?thesis by (auto simp: deploy_rule_elastic_def effect_Inr)
      next
        case inert
        with run r skip show ?thesis by (auto simp: deploy_rule_elastic_def effect_Inr)
      next
        case deletion
        then show ?thesis by (rule delete_told)
      next
        case active
        from looks_run [OF looks_before(2) active(1)] told_later [OF deploy_active_told [OF active(2)]]
        show ?thesis by blast
      qed
    qed
    with rows1(1) not_failed show ?thesis by (simp add: told_def accepted_def)
  qed
  with events same(2) names calls show ?thesis
    by (intro exI [of _ row]) (simp add: row_names_def deploying_result_def)
qed

section \<open>The detection engine\<close>

text \<open>
  What the deployer relies on of the rules API of Kibana, for an engine whose rules after some requests are a
  map from rule ids: a read answers the rule; a create of an id that does not exist, and an update of one that does
  and keeps its type, are accepted and leave a rule with every field sent, whatever the engine adds; a rule
  that exists can be deleted; no other rule changes; a rule that was created or updated is not a prebuilt one.
  Nothing is said of the other requests, among them an update that changes the type.
\<close>

type_synonym rule_store = "string \<Rightarrow> pydict option"

definition body_id :: "pydict \<Rightarrow> string" where
  "body_id body = py_str (dget_none body ''rule_id'')"

definition has_fields :: "pydict \<Rightarrow> pydict \<Rightarrow> bool" where
  "has_fields sent d \<longleftrightarrow> (\<forall>k v. dget sent k = Some v \<longrightarrow> dget d k = Some v)"

definition reads_rules :: "el_vendor \<Rightarrow> (ElRequest list \<Rightarrow> rule_store) \<Rightarrow> bool" where
  "reads_rules vendor held \<longleftrightarrow>
     (\<forall>calls i. held (calls @ [KbGetRule i]) = held calls
        \<and> (\<exists>r. vendor calls (KbGetRule i) = Inr r
              \<and> (case held calls i of
                    None \<Rightarrow> hr_status r = 404
                  | Some d \<Rightarrow> hr_status r = 200 \<and> hr_json r = Some (PDict d))))"

text \<open>A write of a rule that is accepted.\<close>

definition takes :: "el_vendor \<Rightarrow> (ElRequest list \<Rightarrow> rule_store) \<Rightarrow> ElRequest list \<Rightarrow> ElRequest \<Rightarrow> pydict \<Rightarrow> bool" where
  "takes vendor held calls q body \<longleftrightarrow>
     (\<exists>r. vendor calls q = Inr r \<and> hr_status r = 200)
     \<and> (\<exists>d. held (calls @ [q]) = (held calls)(body_id body \<mapsto> d) \<and> has_fields body d \<and> \<not> is_prebuilt_rule d)"

definition detection_engine :: "el_vendor \<Rightarrow> (ElRequest list \<Rightarrow> rule_store) \<Rightarrow> bool" where
  "detection_engine vendor held \<longleftrightarrow> reads_rules vendor held
     \<and> (\<forall>calls body. held calls (body_id body) = None \<and> \<not> is_prebuilt_rule body \<longrightarrow>
          takes vendor held calls (KbCreateRule body) body)
     \<and> (\<forall>calls body old. held calls (body_id body) = Some old \<and> \<not> is_prebuilt_rule body
          \<and> dget_none old ''type'' = dget_none body ''type'' \<longrightarrow> takes vendor held calls (KbUpdateRule body) body)
     \<and> (\<forall>calls i. held calls i \<noteq> None \<longrightarrow>
          (\<exists>r. vendor calls (KbDeleteRule i) = Inr r \<and> hr_status r = 200)
          \<and> held (calls @ [KbDeleteRule i]) = (held calls)(i := None))"

lemma engine_get:
  assumes "detection_engine vendor held"
  obtains r where "vendor calls (KbGetRule i) = Inr r" "held (calls @ [KbGetRule i]) = held calls"
    "held calls i = None \<Longrightarrow> hr_status r = 404"
    "\<And>d. held calls i = Some d \<Longrightarrow> hr_status r = 200 \<and> hr_json r = Some (PDict d)"
proof -
  have reads: "reads_rules vendor held" using assms by (simp add: detection_engine_def)
  then obtain r where r: "vendor calls (KbGetRule i) = Inr r"
    "case held calls i of None \<Rightarrow> hr_status r = 404 | Some d \<Rightarrow> hr_status r = 200 \<and> hr_json r = Some (PDict d)"
    unfolding reads_rules_def by blast
  have "held (calls @ [KbGetRule i]) = held calls" using reads unfolding reads_rules_def by blast
  with r show thesis by (intro that) simp_all
qed

lemma engine_create:
  "detection_engine vendor held \<Longrightarrow> held calls (body_id body) = None \<Longrightarrow> \<not> is_prebuilt_rule body \<Longrightarrow>
   takes vendor held calls (KbCreateRule body) body"
  by (simp add: detection_engine_def)

lemma engine_update:
  "detection_engine vendor held \<Longrightarrow> held calls (body_id body) = Some old \<Longrightarrow> \<not> is_prebuilt_rule body \<Longrightarrow>
   dget_none old ''type'' = dget_none body ''type'' \<Longrightarrow> takes vendor held calls (KbUpdateRule body) body"
  by (simp add: detection_engine_def)

lemma engine_delete:
  "detection_engine vendor held \<Longrightarrow> held calls i \<noteq> None \<Longrightarrow>
   (\<exists>r. vendor calls (KbDeleteRule i) = Inr r \<and> hr_status r = 200)
     \<and> held (calls @ [KbDeleteRule i]) = (held calls)(i := None)"
  by (simp add: detection_engine_def)

text \<open>What is sent for a rule: the compiled body, with the preserved fields that the engine has and it does not set.\<close>

definition deployed_body :: "pydict option \<Rightarrow> pydict \<Rightarrow> pydict" where
  "deployed_body remote compiled = (case remote of None \<Rightarrow> compiled | Some r \<Rightarrow> preserve r compiled)"

lemma dget_preserve_field:
  "dget (preserve_field remote key c) k
     = (if k = key \<and> dget c k = None then dget remote k else dget c k)"
  by (auto simp: preserve_field_def split: option.split)

lemma dget_preserve_fold:
  "dget (fold (preserve_field remote) ks c) k = (if k \<in> set ks \<and> dget c k = None then dget remote k else dget c k)"
  by (induction ks arbitrary: c) (auto simp: dget_preserve_field)

lemma dget_preserve:
  "dget (preserve remote c) k = (if k \<in> set preserved_fields \<and> dget c k = None then dget remote k else dget c k)"
  by (simp add: preserve_def dget_preserve_fold)

lemma body_id_preserve: "body_id (preserve remote c) = body_id c"
  by (simp add: body_id_def dget_none_def dget_preserve preserved_fields_def)

lemma prebuilt_preserve: "is_prebuilt_rule (preserve remote c) = is_prebuilt_rule c"
  by (simp add: is_prebuilt_rule_def dget_preserve preserved_fields_def)

lemma has_fields_trans: "has_fields a b \<Longrightarrow> has_fields b c \<Longrightarrow> has_fields a c"
  by (simp add: has_fields_def)

lemma has_fields_deployed: "has_fields c (deployed_body remote c)"
  by (cases remote) (auto simp: has_fields_def deployed_body_def dget_preserve)

text \<open>What was sent for a rule is sent again for the rule the engine made of it.\<close>

lemma deployed_again:
  assumes "has_fields (deployed_body remote c) d"
  shows "has_fields (deployed_body remote c) (deployed_body (Some d) c)"
  using assms
  by (cases remote) (auto simp: has_fields_def deployed_body_def dget_preserve split: if_splits)

lemma upsert_converges:
  assumes eng: "detection_engine vendor held" and rid: "dget compiled ''rule_id'' = Some (PStr rule_id)"
    and np: "\<not> is_prebuilt_rule compiled"
    and old: "case held (dr_calls s) rule_id of None \<Rightarrow> True | Some remote \<Rightarrow> \<not> is_prebuilt_rule remote"
  defines "sent \<equiv> deployed_body (held (dr_calls s) rule_id) compiled"
  shows "\<exists>s' qs d. upsert_rule vendor tenant rule_id compiled s = (Inr (), s')
    \<and> dr_calls s' = dr_calls s @ KbGetRule rule_id # qs
    \<and> held (dr_calls s') = (held (dr_calls s))(rule_id \<mapsto> d) \<and> has_fields sent d \<and> \<not> is_prebuilt_rule d
    \<and> (\<forall>remote. held (dr_calls s) rule_id = Some remote \<and> dget_none remote ''type'' = dget_none sent ''type''
         \<longrightarrow> qs = [KbUpdateRule sent])"
proof -
  let ?calls = "dr_calls s @ [KbGetRule rule_id]"
  have bid: "body_id compiled = rule_id" using rid by (simp add: body_id_def)
  obtain got where got: "vendor (dr_calls s) (KbGetRule rule_id) = Inr got" "held ?calls = held (dr_calls s)"
    "held (dr_calls s) rule_id = None \<Longrightarrow> hr_status got = 404"
    "\<And>d. held (dr_calls s) rule_id = Some d \<Longrightarrow> hr_status got = 200 \<and> hr_json got = Some (PDict d)"
    using engine_get [OF eng, of "dr_calls s" rule_id] by metis
  note unfolds = upsert_rule_def andthen_def catching_def send_def ret_def unauthorized_def response_body_def body_json_def
    update_rule_def recreate_rule_def create_rule_def write_failed_def Let_def
  let ?goal = "\<lambda>qs d. upsert_rule vendor tenant rule_id compiled s = (Inr (), s\<lparr>dr_calls := ?calls @ qs\<rparr>)
    \<and> held (?calls @ qs) = (held (dr_calls s))(rule_id \<mapsto> d) \<and> has_fields sent d \<and> \<not> is_prebuilt_rule d
    \<and> (\<forall>remote. held (dr_calls s) rule_id = Some remote \<and> dget_none remote ''type'' = dget_none sent ''type''
         \<longrightarrow> qs = [KbUpdateRule sent])"
  have "\<exists>qs d. ?goal qs d"
  proof (cases "held (dr_calls s) rule_id")
    case None
    from engine_create [OF eng _ np, of ?calls] None obtain r d where
      r: "vendor ?calls (KbCreateRule compiled) = Inr r" "hr_status r = 200"
      and d: "held (?calls @ [KbCreateRule compiled]) = (held ?calls)(rule_id \<mapsto> d)" "has_fields compiled d" "\<not> is_prebuilt_rule d"
      by (auto simp: got(2) bid takes_def)
    have run: "upsert_rule vendor tenant rule_id compiled s = (Inr (), s\<lparr>dr_calls := ?calls @ [KbCreateRule compiled]\<rparr>)"
      using r got(1) got(3) [OF None] by (simp add: unfolds)
    have "sent = compiled" by (simp add: sent_def deployed_body_def None)
    with run d None show ?thesis by (intro exI [of _ "[KbCreateRule compiled]"] exI [of _ d]) (simp only: got(2), simp)
  next
    case (Some remote)
    let ?kept = "preserve remote compiled"
    have facts: "\<not> is_prebuilt_rule remote" "body_id ?kept = rule_id" "\<not> is_prebuilt_rule ?kept" "sent = ?kept"
      using old np bid by (simp_all add: Some body_id_preserve prebuilt_preserve sent_def deployed_body_def)
    show ?thesis
    proof (cases "dget_none remote ''type'' = dget_none ?kept ''type''")
      case True
      from engine_update [OF eng _ facts(3) True, of ?calls] Some obtain r d where
        r: "vendor ?calls (KbUpdateRule ?kept) = Inr r" "hr_status r = 200"
        and d: "held (?calls @ [KbUpdateRule ?kept]) = (held ?calls)(rule_id \<mapsto> d)" "has_fields ?kept d" "\<not> is_prebuilt_rule d"
        by (auto simp: got(2) facts(2) takes_def)
      have run: "upsert_rule vendor tenant rule_id compiled s = (Inr (), s\<lparr>dr_calls := ?calls @ [KbUpdateRule ?kept]\<rparr>)"
        using r got(1) got(4) [OF Some] facts(1) True by (simp add: unfolds)
      with d show ?thesis
        by (intro exI [of _ "[KbUpdateRule ?kept]"] exI [of _ d]) (simp only: got(2) facts(4), simp)
    next
      case False
      let ?mid = "?calls @ [KbDeleteRule rule_id]"
      from engine_delete [OF eng, of ?calls rule_id] Some obtain gone where
        gone: "vendor ?calls (KbDeleteRule rule_id) = Inr gone" "hr_status gone = 200"
        and mid: "held ?mid = (held ?calls)(rule_id := None)"
        by (auto simp: got(2))
      have "takes vendor held ?mid (KbCreateRule ?kept) ?kept"
        by (rule engine_create [OF eng _ facts(3)]) (simp only: facts(2) mid, simp)
      then obtain r d where
        r: "vendor ?mid (KbCreateRule ?kept) = Inr r" "hr_status r = 200"
        and d: "held (?mid @ [KbCreateRule ?kept]) = (held ?mid)(rule_id \<mapsto> d)" "has_fields ?kept d" "\<not> is_prebuilt_rule d"
        unfolding takes_def facts(2) by blast
      have run: "upsert_rule vendor tenant rule_id compiled s
          = (Inr (), s\<lparr>dr_calls := ?calls @ [KbDeleteRule rule_id, KbCreateRule ?kept]\<rparr>)"
        using r got(1) got(4) [OF Some] facts(1) False gone by (simp add: unfolds)
      have "held (?calls @ [KbDeleteRule rule_id, KbCreateRule ?kept]) = (held (dr_calls s))(rule_id \<mapsto> d)"
        using d(1) mid got(2) by simp
      with run d(2,3) False Some show ?thesis
        by (intro exI [of _ "[KbDeleteRule rule_id, KbCreateRule ?kept]"] exI [of _ d]) (simp only: facts(4), simp)
    qed
  qed
  then obtain qs d where "?goal qs d" by blast
  then show ?thesis by (intro exI [of _ "s\<lparr>dr_calls := ?calls @ qs\<rparr>"] exI [of _ qs] exI [of _ d]) simp
qed

text \<open>
  A rule whose type changed can be lost without a word: when the old rule was deleted and the request
  that creates the new one raises (a connection error, a timeout), the exception leaves the deployer with no
  log line about the rule that is gone, no failure of the rule but the exception itself, and stops the tenant.
\<close>

theorem elastic_lost_rule_is_not_logged:
  assumes "vendor (dr_calls s) (KbDeleteRule rule_id) = Inr deleted" and "hr_status deleted = 200"
    and "vendor (dr_calls s @ [KbDeleteRule rule_id]) (KbCreateRule compiled) = Inl e"
  shows "recreate_rule vendor tenant rule_id compiled s
    = (Inl e, s\<lparr>dr_calls := dr_calls s @ [KbDeleteRule rule_id, KbCreateRule compiled]\<rparr>)"
  using assms
  by (simp add: recreate_rule_def andthen_def send_def write_failed_def unauthorized_def ret_def)

section \<open>Witnesses\<close>

text \<open>
  An engine for the witnesses: a map from rule ids to the bodies last sent, which refuses a create of an id
  that exists, an update of one that does not, and an update that changes the type.
\<close>

definition updates :: "rule_store \<Rightarrow> pydict \<Rightarrow> bool" where
  "updates st body = (case st (body_id body) of
     None \<Rightarrow> False | Some old \<Rightarrow> dget_none old ''type'' = dget_none body ''type'')"

definition plain_response :: "int \<Rightarrow> pyval option \<Rightarrow> HttpResponse" where
  "plain_response status json = \<lparr>hr_status = status, hr_json = json, hr_text = [], hr_content_type = []\<rparr>"

fun store_step :: "ElRequest \<Rightarrow> rule_store \<Rightarrow> rule_store" where
  "store_step (KbCreateRule body) st = (if st (body_id body) = None then st(body_id body \<mapsto> body) else st)"
| "store_step (KbUpdateRule body) st = (if updates st body then st(body_id body \<mapsto> body) else st)"
| "store_step (KbDeleteRule i) st = st(i := None)"
| "store_step _ st = st"

fun store_answer :: "(ElRequest \<Rightarrow> HttpResponse) \<Rightarrow> ElRequest \<Rightarrow> rule_store \<Rightarrow> HttpResponse" where
  "store_answer other (KbGetRule i) st =
     (case st i of None \<Rightarrow> plain_response 404 None | Some body \<Rightarrow> plain_response 200 (Some (PDict body)))"
| "store_answer other (KbCreateRule body) st = plain_response (if st (body_id body) = None then 200 else 409) None"
| "store_answer other (KbUpdateRule body) st =
     plain_response (if st (body_id body) = None then 404 else if updates st body then 200 else 400) None"
| "store_answer other (KbDeleteRule i) st = plain_response (if st i = None then 404 else 200) None"
| "store_answer other q st = other q"

definition store_after :: "rule_store \<Rightarrow> ElRequest list \<Rightarrow> rule_store" where
  "store_after st calls = fold store_step calls st"

definition store_vendor :: "rule_store \<Rightarrow> (ElRequest \<Rightarrow> HttpResponse) \<Rightarrow> el_vendor" where
  "store_vendor st other calls q = Inr (store_answer other q (store_after st calls))"

lemma store_send:
  "send (store_vendor st other) q s
     = (Inr (store_answer other q (store_after st (dr_calls s))), s\<lparr>dr_calls := dr_calls s @ [q]\<rparr>)"
  by (simp add: send_def store_vendor_def)

lemma store_after_append: "store_after st (calls @ qs) = fold store_step qs (store_after st calls)"
  by (simp add: store_after_def)

lemma store_engine: "detection_engine (store_vendor st other) (store_after st)"
  by (auto simp: detection_engine_def reads_rules_def takes_def store_vendor_def store_after_def plain_response_def
      has_fields_def updates_def split: option.split)

definition sample_compiled :: pydict where
  "sample_compiled = [(PStr ''rule_id'', PStr ''u''), (PStr ''type'', PStr ''query'')]"

definition sample_remote :: pydict where
  "sample_remote = [(PStr ''rule_id'', PStr ''u''), (PStr ''type'', PStr ''eql''), (PStr ''immutable'', PBool False),
     (PStr ''meta'', PStr ''m'')]"

definition sample_elastic_block :: ElasticBlock where
  "sample_elastic_block = \<lparr>eb_status = ''PRODUCTION'', eb_suppression = PNone, eb_dump = []\<rparr>"

definition sample_elastic_mdr :: ElasticMdr where
  "sample_elastic_mdr = \<lparr>ref_uuid = ''u'', ref_name = ''Rule'', mdr_description = ''d'', mdr_severity = ''High'',
     mdr_author = None, mdr_block = Some sample_elastic_block\<rparr>"

definition sample_code :: ElasticCode where
  "sample_code = \<lparr>ec_compile = (\<lambda>_ _. Inr sample_compiled), ec_non_enterprise = (\<lambda>_. False), ec_esql_sources = (\<lambda>_. [])\<rparr>"

definition sample_elastic_tenant :: ElasticTenant where
  "sample_elastic_tenant = \<lparr>et_name = ''Prod'', et_ssl = PBool True, et_index = None, et_suppression = True\<rparr>"

definition sample_elastic_env :: DeployEnv where
  "sample_elastic_env = \<lparr>du_text_of = (\<lambda>_. []), du_writable = True,
     du_statuses = [\<lparr>status_name = ''PRODUCTION'', status_strategy = StrategyMember RELEASE\<rparr>],
     du_index = Map.empty, du_ignore = None\<rparr>"

definition empty_run :: "ElRequest DeployRun" where
  "empty_run = \<lparr>dr_world = sample_world, dr_calls = []\<rparr>"

definition cut_off :: el_vendor where
  "cut_off calls q = (if q = KbDeleteRule ''u'' then Inr (plain_response 200 None)
     else Inl (exn Transport_Error ''ConnectionError''))"

theorem elastic_lost_rule_is_not_logged_witness:
  "dr_world (snd (recreate_rule cut_off ''Prod'' ''u'' sample_compiled empty_run)) = sample_world"
proof -
  have "cut_off (dr_calls empty_run) (KbDeleteRule ''u'') = Inr (plain_response 200 None)"
    "cut_off (dr_calls empty_run @ [KbDeleteRule ''u'']) (KbCreateRule sample_compiled) = Inl (exn Transport_Error ''ConnectionError'')"
    by (simp_all add: cut_off_def)
  from elastic_lost_rule_is_not_logged [OF this(1) _ this(2)] show ?thesis
    by (simp add: plain_response_def empty_run_def)
qed

lemma sample_status: "check_status (du_statuses sample_elastic_env) (eb_status sample_elastic_block) = Inr RELEASE"
  by (simp add: sample_elastic_env_def sample_elastic_block_def)

theorem elastic_never_writes_prebuilt_witness:
  "filter is_write (dr_calls (snd (deploy_rule_elastic sample_code
      (\<lambda>_ _. Inr (plain_response 200 (Some (PDict [(PStr ''immutable'', PBool True)])))) sample_elastic_env sample_elastic_tenant
      sample_elastic_mdr [] empty_run))) = []"
  using elastic_never_writes_prebuilt [of "\<lambda>_ _. Inr (plain_response 200 (Some (PDict [(PStr ''immutable'', PBool True)])))"
      sample_elastic_mdr "[(PStr ''immutable'', PBool True)]" sample_elastic_block sample_elastic_env sample_code
      sample_elastic_tenant "[]" empty_run] sample_status
  by (simp add: plain_response_def is_prebuilt_rule_def sample_elastic_mdr_def empty_run_def prod_eq_iff)

lemma sample_checks: "run_elasticsearch_checks vendor esql [] [] s = (Inr [], s)"
  by (simp add: run_elasticsearch_checks_def andthen_def ret_def rule_type_of_def dget_none_def resolve_rule_sources_def
      run_aggregation_fields_check_def aggregation_fields_def threshold_fields_def sub_dict_def dget_dict_def text_list_def field_names_def
      run_timestamp_fields_check_def timestamp_fields_def run_threat_match_fields_check_def Let_def)

lemma sample_elastic_fields:
  "mdr_block sample_elastic_mdr = Some sample_elastic_block" "ref_uuid sample_elastic_mdr = ''u''"
  "eb_suppression sample_elastic_block = PNone" "eb_dump sample_elastic_block = []"
  "et_name sample_elastic_tenant = ''Prod''" "et_index sample_elastic_tenant = None" "et_suppression sample_elastic_tenant"
  by (simp_all add: sample_elastic_mdr_def sample_elastic_block_def sample_elastic_tenant_def)

lemma sample_deployed:
  "\<exists>s'. deploying elastic ''Prod'' ''u'' ''Rule''
       (deploy_rule_elastic sample_code (store_vendor Map.empty (\<lambda>_. plain_response 200 None)) sample_elastic_env
          sample_elastic_tenant sample_elastic_mdr []) empty_run = (Inr [], s')
     \<and> last (de_events (w_deploy (dr_world s'))) = RuleFinished (deploying_result elastic (Some ''Prod'') ''u'' ''Rule'' None)"
proof -
  let ?vendor = "store_vendor Map.empty (\<lambda>_. plain_response 200 None)"
  have check: "check_rule ?vendor esql [] [] i s = (Inr True, s)" for esql i s
    by (simp add: check_rule_def catching_def andthen_def sample_checks ret_def)
  have body: "compiled_body sample_code sample_elastic_tenant sample_elastic_mdr RELEASE s
      = (Inr (AList.update (PStr ''enabled'') (PBool True) sample_compiled), s)" for s
    by (simp add: compiled_body_def andthen_def sample_code_def ret_def)
  have upsert: "\<exists>s'. upsert_rule ?vendor t i c s = (Inr (), s') \<and> dr_world s' = dr_world s" if "dr_calls s = []" for t i c and s :: "ElRequest DeployRun"
    using that by (simp add: upsert_rule_def andthen_def catching_def store_send ret_def unauthorized_def plain_response_def
          create_rule_def write_failed_def store_after_def)
  let ?s1 = "empty_run\<lparr>dr_world := on_events (scope_enter (deploying_result elastic (Some ''Prod'') ''u'' ''Rule'' None)) sample_world\<rparr>"
  have no_calls: "dr_calls ?s1 = []" by (simp add: empty_run_def)
  obtain s2 where s2: "upsert_rule ?vendor ''Prod'' ''u'' (AList.update (PStr ''enabled'') (PBool True) sample_compiled) ?s1 = (Inr (), s2)"
    "dr_world s2 = dr_world ?s1"
    using upsert [of ?s1 "''Prod''" "''u''" "AList.update (PStr ''enabled'') (PBool True) sample_compiled"] no_calls by blast
  have "deploy_rule_elastic sample_code ?vendor sample_elastic_env sample_elastic_tenant sample_elastic_mdr [] ?s1 = (Inr [], s2)"
    using s2(1) sample_status
    by (simp add: deploy_rule_elastic_def warn_suppression_def deploy_active_def andthen_def ret_def check body
        sample_elastic_fields)
  then show ?thesis
    using s2(2) by (simp add: deploying_def andthen_def on_world_def update_state_def empty_run_def Let_def on_events_def
        scope_exit_def scope_enter_def finish_def)
qed

theorem elastic_deployed_means_accepted_witness:
  "\<exists>s' pre q. snd (deploying elastic ''Prod'' ''u'' ''Rule''
       (deploy_rule_elastic sample_code (store_vendor Map.empty (\<lambda>_. plain_response 200 None)) sample_elastic_env
          sample_elastic_tenant sample_elastic_mdr []) empty_run) = s'
     \<and> dr_calls s' = pre @ [q] \<and> is_write q"
proof -
  obtain s' where run: "deploying elastic (et_name sample_elastic_tenant) (ref_uuid sample_elastic_mdr) (ref_name sample_elastic_mdr)
       (deploy_rule_elastic sample_code (store_vendor Map.empty (\<lambda>_. plain_response 200 None)) sample_elastic_env
          sample_elastic_tenant sample_elastic_mdr []) empty_run = (Inr [], s')"
    and row: "last (de_events (w_deploy (dr_world s'))) = RuleFinished (deploying_result elastic (Some ''Prod'') ''u'' ''Rule'' None)"
    using sample_deployed by (auto simp: sample_elastic_tenant_def sample_elastic_mdr_def)
  from elastic_deployed_means_accepted [OF run] row obtain pre q where
    "dr_calls s' = dr_calls empty_run @ pre @ [q]" "accepts_write q (store_vendor Map.empty (\<lambda>_. plain_response 200 None) (dr_calls empty_run @ pre) q)"
    by (auto simp: deploying_result_def)
  moreover have "is_write q" if "accepts_write q a" for q a
    using that by (cases q) (auto simp: accepts_write_def)
  ultimately show ?thesis using run by (auto simp: empty_run_def sample_elastic_tenant_def sample_elastic_mdr_def)
qed

end
