(* ===== verification/Elastic_Query.thy ===== *)
theory Elastic_Query
  imports Py_Prelude
begin

text \<open>
  \<open>platforms/elastic/query_text.py\<close>: ES|QL and EQL queries read past their comments and literals. The
  loop over offsets is a recursion over the rest of the text; a regular expression is a test of the
  character before a position and of the text from there on.
\<close>

section \<open>Masking\<close>

definition blank_char :: "char \<Rightarrow> char" where
  "blank_char c = (if c = CHR 0x0D \<or> c = CHR 0x0A then c else CHR '' '')"

definition blank :: "string \<Rightarrow> string" where
  "blank s = map blank_char s"

text \<open>Lengths from the start of the rest: a line comment, a block comment, a triple-quoted literal.\<close>

definition line_comment :: "string \<Rightarrow> nat" where
  "line_comment s = length (takeWhile (\<lambda>c. c \<noteq> CHR 0x0A) s)"

fun block_comment_end :: "nat \<Rightarrow> nat \<Rightarrow> string \<Rightarrow> nat" where
  "block_comment_end 0 i s = i"
| "block_comment_end (Suc depth) i [] = i"
| "block_comment_end (Suc depth) i [c] = Suc i"
| "block_comment_end (Suc depth) i (c # d # s) =
     (if c = CHR ''/'' \<and> d = CHR ''*'' then block_comment_end (Suc (Suc depth)) (i + 2) s
      else if c = CHR ''*'' \<and> d = CHR ''/'' then block_comment_end depth (i + 2) s
      else block_comment_end (Suc depth) (i + 1) (d # s))"

definition triple :: string where
  "triple = [CHR 0x22, CHR 0x22, CHR 0x22]"

fun find_triple :: "string \<Rightarrow> nat option" where
  "find_triple [] = None"
| "find_triple (c # s) = (if starts_with triple (c # s) then Some 0 else map_option Suc (find_triple s))"

text \<open>The end of the contents and of a literal, of the text after its opening quote.\<close>

fun closing :: "char \<Rightarrow> nat \<Rightarrow> string \<Rightarrow> nat \<times> nat" where
  "closing q i [] = (i, i)"
| "closing q i (c # s) =
     (if q = CHR 0x22 \<and> c = CHR 0x5C
      then (case s of [] \<Rightarrow> (i + 1, i + 1) | d # s' \<Rightarrow> closing q (i + 2) s')
      else if c = q
      then (case s of
              d # s' \<Rightarrow> if q = CHR 0x60 \<and> d = CHR 0x60 then closing q (i + 2) s' else (i, i + 1)
            | [] \<Rightarrow> (i, i + 1))
      else closing q (i + 1) s)"

text \<open>The contents and the length of the literal that a rest starts with.\<close>

definition triple_ends :: "string \<Rightarrow> nat \<times> nat" where
  "triple_ends s =
     (case find_triple (drop 3 s) of
        None \<Rightarrow> (length s, length s)
      | Some k \<Rightarrow> (3 + k, 6 + k + length (takeWhile (\<lambda>c. c = CHR 0x22) (take 2 (drop (6 + k) s)))))"

definition quote_ends :: "string \<Rightarrow> nat \<times> nat" where
  "quote_ends s = (let (content_end, literal_end) = closing (hd s) 1 (tl s) in (content_end, literal_end))"

definition keep_or_blank :: "bool \<Rightarrow> string \<Rightarrow> string" where
  "keep_or_blank keep_strings s = (if keep_strings then s else blank s)"

definition mask_literal :: "bool \<Rightarrow> nat \<Rightarrow> nat \<times> nat \<Rightarrow> string \<Rightarrow> string" where
  "mask_literal keep_strings opening ends s =
     take opening s @ keep_or_blank keep_strings (take (fst ends - opening) (drop opening s))
       @ take (snd ends - fst ends) (drop (fst ends) s)"

text \<open>The first token of the rest: its length and its masked text.\<close>

definition token :: "bool \<Rightarrow> string \<Rightarrow> nat \<times> string" where
  "token keep_strings s =
     (if starts_with ''//'' s then (line_comment s, blank (take (line_comment s) s))
      else if starts_with ''/*'' s
      then (let n = block_comment_end 1 2 (drop 2 s) in (n, blank (take n s)))
      else if starts_with triple s then (snd (triple_ends s), mask_literal keep_strings 3 (triple_ends s) s)
      else if hd s = CHR 0x22 \<or> hd s = CHR 0x60
      then (snd (quote_ends s), mask_literal keep_strings 1 (quote_ends s) s)
      else (1, take 1 s))"

lemma block_comment_end_ge: "i \<le> block_comment_end depth i s"
  by (induction depth i s rule: block_comment_end.induct) auto

lemma closing_range: "closing q i s = (a, b) \<Longrightarrow> i \<le> a \<and> a \<le> b \<and> b \<le> i + length s"
proof (induction q i s arbitrary: a b rule: closing.induct)
  case (2 q i c s)
  note ih = 2(1) 2(2) 2(3)
  show ?case
  proof (cases s)
    case Nil
    with 2(4) show ?thesis by (auto split: if_splits)
  next
    case (Cons d s')
    with 2(4) ih show ?thesis by (simp split: if_splits) (metis add_Suc_right Suc_leD le_SucI add_leD1 Suc_le_mono)+
  qed
qed simp

lemma closing_bounds: "i \<le> fst (closing q i s) \<and> fst (closing q i s) \<le> snd (closing q i s) \<and> snd (closing q i s) \<le> i + length s"
  using closing_range [of q i s "fst (closing q i s)" "snd (closing q i s)"] by simp

lemma token_progress: "s \<noteq> [] \<Longrightarrow> 0 < fst (token keep_strings s)"
proof -
  assume "s \<noteq> []"
  moreover have "0 < line_comment s" if "starts_with ''//'' s"
    using that by (cases s) (auto simp: line_comment_def)
  moreover have "0 < block_comment_end 1 2 (drop 2 s)" using block_comment_end_ge [of 2 1 "drop 2 s"] by simp
  moreover have "0 < snd (triple_ends s)" using \<open>s \<noteq> []\<close> by (simp add: triple_ends_def split: option.split)
  moreover have "0 < snd (quote_ends s)"
    using closing_bounds [of 1 "hd s" "tl s"] by (auto simp: quote_ends_def split: prod.split)
  ultimately show ?thesis by (simp add: token_def Let_def)
qed

function mask_query :: "bool \<Rightarrow> string \<Rightarrow> string" where
  "mask_query keep_strings s =
     (if s = [] then [] else snd (token keep_strings s) @ mask_query keep_strings (drop (fst (token keep_strings s)) s))"
  by pat_completeness auto
termination
proof (relation "measure (\<lambda>(keep_strings, s). length s)")
  fix keep_strings and s :: string
  assume "s \<noteq> []"
  with token_progress [of s keep_strings]
  show "((keep_strings, drop (fst (token keep_strings s)) s), (keep_strings, s)) \<in> measure (\<lambda>(keep_strings, s). length s)"
    by simp
qed simp

declare mask_query.simps [simp del]

section \<open>Regular expressions\<close>

definition word_char :: "char \<Rightarrow> bool" where
  "word_char c = (let n = (of_char c :: nat) in
     (48 \<le> n \<and> n \<le> 57) \<or> (65 \<le> n \<and> n \<le> 90) \<or> n = 95 \<or> (97 \<le> n \<and> n \<le> 122)
     \<or> n \<in> {170, 178, 179, 181, 185, 186, 188, 189, 190} \<or> (192 \<le> n \<and> n \<noteq> 215 \<and> n \<noteq> 247))"

text \<open>\<open>[\w.*:-]\<close>, the characters a keyword may not touch.\<close>

definition keyword_edge :: "char \<Rightarrow> bool" where
  "keyword_edge c = (word_char c \<or> c \<in> set ''.*:-'')"

definition ends_at :: "(char \<Rightarrow> bool) \<Rightarrow> string \<Rightarrow> bool" where
  "ends_at edge s = (case s of [] \<Rightarrow> True | c # _ \<Rightarrow> \<not> edge c)"

definition ignore_case :: "string \<Rightarrow> string \<Rightarrow> bool" where
  "ignore_case word s = starts_with word (py_lower s)"

text \<open>\<open>(?<!E)word(?!E)\<close> at a position, given the character before it; the word is in lower case.\<close>

definition keyword_at :: "(char \<Rightarrow> bool) \<Rightarrow> string \<Rightarrow> char option \<Rightarrow> string \<Rightarrow> bool" where
  "keyword_at edge word prior s =
     ((case prior of None \<Rightarrow> True | Some c \<Rightarrow> \<not> edge c) \<and> ignore_case word s \<and> ends_at edge (drop (length word) s))"

text \<open>\<open>\s*word\b\<close> at the start of a text: what is left of it.\<close>

definition leading_word :: "string \<Rightarrow> string \<Rightarrow> string option" where
  "leading_word word s =
     (let r = dropWhile is_py_space s in
      if ignore_case word r \<and> ends_at word_char (drop (length word) r) then Some (drop (length word) r) else None)"

text \<open>\<open>search\<close>: the first position a test accepts.\<close>

fun seek :: "(char option \<Rightarrow> string \<Rightarrow> bool) \<Rightarrow> char option \<Rightarrow> nat \<Rightarrow> string \<Rightarrow> (nat \<times> char option \<times> string) option" where
  "seek P prior n [] = (if P prior [] then Some (n, prior, []) else None)"
| "seek P prior n (c # cs) =
     (if P prior (c # cs) then Some (n, prior, c # cs) else seek P (Some c) (Suc n) cs)"

text \<open>\<open>\s*SET\b[^;|]*;\<close>, repeated.\<close>

definition set_statement :: "string \<Rightarrow> string option" where
  "set_statement s =
     (case leading_word ''set'' s of
        None \<Rightarrow> None
      | Some body \<Rightarrow>
          (case dropWhile (\<lambda>c. c \<noteq> CHR '';'' \<and> c \<noteq> CHR ''|'') body of
             CHR '';'' # rest \<Rightarrow> Some rest
           | _ \<Rightarrow> None))"

lemma leading_word_shorter: "leading_word word s = Some r \<Longrightarrow> length r \<le> length s"
  by (auto simp: leading_word_def Let_def split: if_splits intro: le_trans [OF diff_le_self length_dropWhile_le])

lemma set_statement_shorter: "set_statement s = Some rest \<Longrightarrow> length rest < length s"
proof -
  assume "set_statement s = Some rest"
  then obtain body where body: "leading_word ''set'' s = Some body"
    and "dropWhile (\<lambda>c. c \<noteq> CHR '';'' \<and> c \<noteq> CHR ''|'') body = CHR '';'' # rest"
    by (auto simp: set_statement_def split: option.splits list.splits char.splits bool.splits)
  then have "Suc (length rest) \<le> length body" by (metis length_Cons length_dropWhile_le)
  with leading_word_shorter [OF body] show ?thesis by simp
qed

function skip_sets :: "string \<Rightarrow> string" where
  "skip_sets s = (case set_statement s of None \<Rightarrow> s | Some rest \<Rightarrow> skip_sets rest)"
  by pat_completeness auto
termination
  by (relation "measure length") (auto dest: set_statement_shorter)

declare skip_sets.simps [simp del]

section \<open>Sources\<close>

definition source_command :: "string \<Rightarrow> string option" where
  "source_command s =
     (case leading_word ''from'' s of Some rest \<Rightarrow> Some rest | None \<Rightarrow> leading_word ''ts'' s)"

text \<open>The command's top level, on both masks: subqueries dropped, up to the first pipe.\<close>

fun top_level :: "nat \<Rightarrow> (char \<times> char) list \<Rightarrow> (char \<times> char) list" where
  "top_level depth [] = []"
| "top_level depth ((c, p) # rest) =
     (if c = CHR ''('' then top_level (Suc depth) rest
      else if c = CHR '')'' then top_level (depth - 1) rest
      else if 0 < depth then top_level depth rest
      else if c = CHR ''|'' then []
      else (c, p) # top_level depth rest)"

definition strip_chars :: "char set \<Rightarrow> string \<Rightarrow> string" where
  "strip_chars cs s = rev (dropWhile (\<lambda>c. c \<in> cs) (rev (dropWhile (\<lambda>c. c \<in> cs) s)))"

definition source_part :: "string \<Rightarrow> string" where
  "source_part raw = strip_chars {CHR 0x22, CHR 0x27, CHR 0x60} (py_strip raw)"

definition esql_sources :: "string \<Rightarrow> string" where
  "esql_sources query =
     (let masked = mask_query False query; plain = mask_query True query in
      case source_command (skip_sets masked) of
        None \<Rightarrow> []
      | Some rest \<Rightarrow>
          (let top = top_level 0 (zip rest (drop (length masked - length rest) plain));
               head = map snd top;
               cut = (case seek (keyword_at keyword_edge ''metadata'') None 0 (map fst top) of
                        None \<Rightarrow> head | Some (n, _, _) \<Rightarrow> take n head)
           in str_join '','' (filter (\<lambda>p. p \<noteq> []) (map source_part (py_split '','' cut)))))"

definition esql_aggregates :: "string \<Rightarrow> bool" where
  "esql_aggregates query = list_ex (\<lambda>step. leading_word ''stats'' step \<noteq> None) (py_split ''|'' (mask_query False query))"

text \<open>\<open>METADATA[^|]*\b_id\b\<close>.\<close>

definition metadata_id_at :: "char option \<Rightarrow> string \<Rightarrow> bool" where
  "metadata_id_at prior s =
     (keyword_at keyword_edge ''metadata'' prior s
    \<and> seek (keyword_at word_char ''_id'') (Some (CHR ''a'')) 0 (takeWhile (\<lambda>c. c \<noteq> CHR ''|'') (drop 8 s)) \<noteq> None)"

definition esql_has_metadata_id :: "string \<Rightarrow> bool" where
  "esql_has_metadata_id query = (seek metadata_id_at None 0 (mask_query False query) \<noteq> None)"

definition eql_is_sequence :: "string \<Rightarrow> bool" where
  "eql_is_sequence query = (leading_word ''sequence'' (mask_query False query) \<noteq> None)"

definition unit_ms :: "(string \<times> nat) list" where
  "unit_ms = [(''ms'', 1), (''s'', 1000), (''m'', 60000), (''h'', 3600000), (''d'', 86400000)]"

text \<open>\<open>maxspan\s*=\s*((\d+)\s*(ms|s|m|h|d))\b\<close> at a position.\<close>

definition maxspan_at :: "char option \<Rightarrow> string \<Rightarrow> (string \<times> nat) option" where
  "maxspan_at prior s =
     (if (case prior of None \<Rightarrow> True | Some c \<Rightarrow> \<not> word_char c) \<and> ignore_case ''maxspan'' s
      then (case dropWhile is_py_space (drop 7 s) of
              CHR ''='' # r \<Rightarrow>
                (let value = dropWhile is_py_space r; digits = takeWhile is_ascii_digit value;
                     spaces = takeWhile is_py_space (drop (length digits) value);
                     tail = drop (length digits + length spaces) value
                 in if digits = [] then None
                    else map_option (\<lambda>(u, ms). (digits @ spaces @ take (length u) tail, dec_value digits * ms))
                           (find (\<lambda>(u, ms). ignore_case u tail \<and> ends_at word_char (drop (length u) tail)) unit_ms))
            | _ \<Rightarrow> None)
      else None)"

definition eql_maxspan :: "string \<Rightarrow> (string \<times> nat) option" where
  "eql_maxspan query =
     (case seek (\<lambda>prior s. maxspan_at prior s \<noteq> None) None 0 (mask_query False query) of
        None \<Rightarrow> None
      | Some (_, prior, s) \<Rightarrow> maxspan_at prior s)"


section \<open>Offsets\<close>

definition masked_char :: "char \<Rightarrow> char \<Rightarrow> bool" where
  "masked_char c m = (m = c \<or> (m = CHR '' '' \<and> c \<noteq> CHR 0x0D \<and> c \<noteq> CHR 0x0A))"

lemma masked_refl: "list_all2 masked_char s s"
  by (rule list_all2_refl) (simp add: masked_char_def)

lemma masked_blank: "list_all2 masked_char s (blank s)"
  by (simp add: blank_def list_all2_conv_all_nth masked_char_def blank_char_def)

lemma masked_keep_or_blank: "list_all2 masked_char s (keep_or_blank keep_strings s)"
  by (simp add: keep_or_blank_def masked_refl masked_blank)

lemma block_comment_end_le: "block_comment_end depth i s \<le> i + length s"
  by (induction depth i s rule: block_comment_end.induct) auto

lemma find_triple_le: "find_triple s = Some k \<Longrightarrow> k + 3 \<le> length s"
proof (induction s arbitrary: k)
  case (Cons c s)
  show ?case
  proof (cases "starts_with triple (c # s)")
    case True
    then obtain r where "c # s = triple @ r" by (auto simp: starts_with_iff)
    then have "3 \<le> length (c # s)" by (simp add: triple_def)
    with True Cons.prems show ?thesis by simp
  next
    case False
    with Cons show ?thesis by auto
  qed
qed simp

lemma triple_ends_range:
  assumes "starts_with triple s"
  shows "3 \<le> fst (triple_ends s) \<and> fst (triple_ends s) \<le> snd (triple_ends s) \<and> snd (triple_ends s) \<le> length s"
proof -
  from assms obtain r where s: "s = triple @ r" by (auto simp: starts_with_iff)
  have len: "length s = 3 + length r" by (simp add: s triple_def)
  show ?thesis
  proof (cases "find_triple (drop 3 s)")
    case None
    then show ?thesis using len by (simp add: triple_ends_def)
  next
    case (Some k)
    have "length (takeWhile (\<lambda>c. c = CHR 0x22) (take 2 (drop (6 + k) s))) \<le> length s - (6 + k)"
      by (rule le_trans [OF length_takeWhile_le]) simp
    moreover have "6 + k \<le> length s" using find_triple_le [OF Some] len by simp
    ultimately show ?thesis using Some by (simp add: triple_ends_def)
  qed
qed

lemma quote_ends_range:
  assumes "s \<noteq> []"
  shows "1 \<le> fst (quote_ends s) \<and> fst (quote_ends s) \<le> snd (quote_ends s) \<and> snd (quote_ends s) \<le> length s"
  using closing_bounds [of 1 "hd s" "tl s"] assms by (cases s) (auto simp: quote_ends_def split: prod.split)

lemma take_parts:
  assumes "a \<le> b" "b \<le> c"
  shows "take c s = take a s @ take (b - a) (drop a s) @ take (c - b) (drop b s)"
proof -
  have "take c s = take b s @ take (c - b) (drop b s)" using assms(2) by (metis le_add_diff_inverse take_add)
  moreover have "take b s = take a s @ take (b - a) (drop a s)" using assms(1) by (metis le_add_diff_inverse take_add)
  ultimately show ?thesis by simp
qed

lemma masked_literal:
  assumes "opening \<le> fst ends" "fst ends \<le> snd ends"
  shows "list_all2 masked_char (take (snd ends) s) (mask_literal keep_strings opening ends s)"
  unfolding take_parts [OF assms] mask_literal_def
  by (intro list_all2_appendI masked_refl masked_keep_or_blank)

lemma token_masked:
  assumes "s \<noteq> []"
  shows "fst (token keep_strings s) \<le> length s \<and> list_all2 masked_char (take (fst (token keep_strings s)) s) (snd (token keep_strings s))"
proof -
  have "line_comment s \<le> length s" by (simp add: line_comment_def length_takeWhile_le)
  moreover have "block_comment_end 1 2 (drop 2 s) \<le> length s" if "starts_with ''/*'' s"
    using block_comment_end_le [of 1 2 "drop 2 s"] that by (auto simp: starts_with_iff)
  moreover have "1 \<le> length s" using assms by (cases s) auto
  ultimately show ?thesis
    using quote_ends_range [OF assms] triple_ends_range [of s]
    by (auto simp: token_def Let_def masked_blank masked_refl intro!: masked_literal)
qed

lemma mask_query_masked: "list_all2 masked_char s (mask_query keep_strings s)"
proof (induction keep_strings s rule: mask_query.induct)
  case (1 keep_strings s)
  show ?case
  proof (cases "s = []")
    case False
    let ?n = "fst (token keep_strings s)"
    have "list_all2 masked_char (take ?n s @ drop ?n s) (snd (token keep_strings s) @ mask_query keep_strings (drop ?n s))"
      using token_masked [OF False] 1 [OF False] by (blast intro: list_all2_appendI)
    then show ?thesis using False by (simp add: mask_query.simps [of keep_strings s])
  qed (simp add: mask_query.simps)
qed

text \<open>
  C32: Masking keeps every offset: the masked query has the length of the query, and each character is
  the one of the query or a space in place of one that is not a line break.
\<close>

theorem mask_query_keeps_offsets:
  "length (mask_query keep_strings query) = length query
   \<and> (\<forall>i < length query. mask_query keep_strings query ! i = query ! i
        \<or> (mask_query keep_strings query ! i = CHR '' '' \<and> query ! i \<noteq> CHR 0x0D \<and> query ! i \<noteq> CHR 0x0A))"
  using mask_query_masked [of query keep_strings] by (simp add: list_all2_conv_all_nth masked_char_def)

theorem mask_query_keeps_offsets_witness:
  "mask_query False ''a //b'' = ''a    '' \<and> length (mask_query False ''a //b'') = 5"
  using mask_query_keeps_offsets [of False "''a //b''"]
  by (simp add: mask_query.simps token_def triple_def line_comment_def blank_def blank_char_def)

section \<open>Masking twice\<close>

definition plain_char :: "char \<Rightarrow> bool" where
  "plain_char c = (c \<notin> {CHR ''/'', CHR 0x22, CHR 0x60})"

lemma mask_plain: "list_all plain_char p \<Longrightarrow> mask_query keep_strings (p @ s) = p @ mask_query keep_strings s"
proof (induction p)
  case (Cons c p)
  then have "token keep_strings (c # p @ s) = (1, [c])" by (auto simp: token_def plain_char_def triple_def)
  with Cons show ?case by (simp add: mask_query.simps [of keep_strings "c # p @ s"])
qed simp

lemma plain_blank: "list_all plain_char (blank s)"
  by (auto simp: blank_def list_all_iff plain_char_def blank_char_def)

lemma blank_no_quote: "c \<in> set (blank s) \<Longrightarrow> c \<noteq> CHR 0x22 \<and> c \<noteq> CHR 0x60 \<and> c \<noteq> CHR 0x5C"
  by (auto simp: blank_def blank_char_def split: if_splits)

lemma length_blank [simp]: "length (blank s) = length s"
  by (simp add: blank_def)

text \<open>The first character of a masked rest is the first of the rest or a space.\<close>

lemma hd_mask: "mask_query keep_strings s = m # ms \<Longrightarrow> \<exists>c cs. s = c # cs \<and> (m = c \<or> m = CHR '' '')"
  using mask_query_masked [of s keep_strings] by (cases s) (auto simp: masked_char_def)

lemma find_triple_blank: "CHR 0x22 \<notin> set p \<Longrightarrow> find_triple (p @ s) = map_option ((+) (length p)) (find_triple s)"
proof (induction p)
  case (Cons c p)
  then have "\<not> starts_with triple (c # p @ s)" by (auto simp: triple_def)
  with Cons show ?case by (auto simp: option.map_comp comp_def)
qed (cases "find_triple s"; simp)

lemma closing_skip: "q \<notin> set p \<Longrightarrow> CHR 0x5C \<notin> set p \<Longrightarrow> closing q i (p @ s) = closing q (i + length p) s"
  by (induction p arbitrary: i) auto

lemma closing_cases:
  "closing q i s = (a, b) \<Longrightarrow>
     (b = a + 1 \<and> i \<le> a \<and> (\<exists>r. drop (a - i) s = q # r \<and> (q = CHR 0x60 \<longrightarrow> \<not> starts_with [q] r))) \<or> (a = b \<and> b = i + length s)"
proof (induction q i s arbitrary: a b rule: closing.induct)
  case (2 q i c s)
  have step: "(b = a + 1 \<and> i \<le> a \<and> (\<exists>r. drop (a - i) (c # s) = q # r \<and> (q = CHR 0x60 \<longrightarrow> \<not> starts_with [q] r)))
      \<or> (a = b \<and> b = i + length (c # s))"
    if "(b = a + 1 \<and> i + k \<le> a \<and> (\<exists>r. drop (a - (i + k)) (drop k (c # s)) = q # r \<and> (q = CHR 0x60 \<longrightarrow> \<not> starts_with [q] r)))
      \<or> (a = b \<and> b = i + k + length (drop k (c # s)))" "k \<le> length (c # s)" for k
    using that by (auto simp del: drop_Suc_Cons)
  show ?case
  proof (cases s)
    case Nil
    with 2(4) show ?thesis by (auto split: if_splits)
  next
    case (Cons d s')
    with 2 step [of 1] step [of 2] show ?thesis
      by (auto simp: numeral_2_eq_2 split: if_splits)
  qed
qed simp


lemma mask_step: "s \<noteq> [] \<Longrightarrow> mask_query k s = snd (token k s) @ mask_query k (drop (fst (token k s)) s)"
  by (subst mask_query.simps) simp

lemma mask_literal_False:
  "mask_literal False opening (a, b) s = take opening s @ blank (take (a - opening) (drop opening s)) @ take (b - a) (drop a s)"
  by (simp add: mask_literal_def keep_or_blank_def)

text \<open>A masked rest does not start with a character that the rest does not start with.\<close>

lemma rest_not_starting: "ends_at edge s \<Longrightarrow> \<not> edge (CHR '' '') \<Longrightarrow> ends_at edge (mask_query k s)"
  by (cases "mask_query k s") (auto simp: ends_at_def dest: hd_mask)

lemma find_triple_at: "find_triple r = Some k \<Longrightarrow> \<exists>s. drop k r = triple @ s"
proof (induction r arbitrary: k)
  case (Cons c cs)
  then show ?case by (auto simp: starts_with_iff split: if_splits)
qed simp

lemma token_triple: "token k (triple @ x) = (snd (triple_ends (triple @ x)), mask_literal k 3 (triple_ends (triple @ x)) (triple @ x))"
  by (auto simp: token_def triple_def)

lemma length_triple [simp]: "length triple = 3"
  by (simp add: triple_def)

text \<open>Up to two more quotes after the closing ones, of a rest and of its mask.\<close>

definition more_quotes :: "string \<Rightarrow> string" where
  "more_quotes s = takeWhile (\<lambda>c. c = CHR 0x22) (take 2 s)"

lemma more_quotes_split: "s = more_quotes s @ drop (length (more_quotes s)) s"
  unfolding more_quotes_def
  by (metis append_take_drop_id takeWhile_eq_take take_take min.absorb2 length_takeWhile_le le_trans length_take min.cobounded2 min.commute)

lemma more_quotes_again:
  assumes "s = more_quotes s @ rest"
  shows "more_quotes (more_quotes s @ mask_query k rest) = more_quotes s"
proof -
  let ?e = "more_quotes s"
  have quotes: "\<forall>c \<in> set ?e. c = CHR 0x22" by (auto simp: more_quotes_def dest: set_takeWhileD)
  have "length ?e \<le> 2" unfolding more_quotes_def by (rule le_trans [OF length_takeWhile_le]) simp
  then consider "length ?e = 2" | "length ?e < 2" by linarith
  then show ?thesis
  proof cases
    case 1
    then show ?thesis using quotes by (subst more_quotes_def) (simp add: takeWhile_eq_all_conv)
  next
    case 2
    have "ends_at (\<lambda>c. c = CHR 0x22) rest"
    proof (cases rest)
      case (Cons c cs)
      have "take 2 (?e @ c # cs) = ?e @ c # take (1 - length ?e) cs" using 2 by (cases "length ?e") auto
      moreover have "?e = takeWhile (\<lambda>c. c = CHR 0x22) (take 2 (?e @ c # cs))"
        using more_quotes_def assms Cons by metis
      ultimately have "?e = takeWhile (\<lambda>c. c = CHR 0x22) (?e @ c # take (1 - length ?e) cs)" by simp
      also have "\<dots> = ?e @ takeWhile (\<lambda>c. c = CHR 0x22) (c # take (1 - length ?e) cs)"
        by (rule takeWhile_append2) (use quotes in blast)
      finally have "takeWhile (\<lambda>c. c = CHR 0x22) (c # take (1 - length ?e) cs) = []" by simp
      then have "c \<noteq> CHR 0x22" by auto
      then show ?thesis by (simp add: ends_at_def Cons)
    qed (simp add: ends_at_def)
    then have "ends_at (\<lambda>c. c = CHR 0x22) (mask_query k rest)" by (rule rest_not_starting) simp
    then have "takeWhile (\<lambda>c. c = CHR 0x22) (take n (mask_query k rest)) = []" for n
      by (cases "mask_query k rest"; cases n) (auto simp: ends_at_def)
    then show ?thesis using quotes 2 by (subst more_quotes_def) (simp add: takeWhile_append)
  qed
qed

text \<open>A masked literal followed by a masked rest is read and masked as the literal was.\<close>

lemma triple_open_again:
  assumes "find_triple r = None"
  shows "token False (triple @ r) = (length (triple @ r), triple @ blank r)"
    and "token False (triple @ blank r) = (length (triple @ r), triple @ blank r)"
proof -
  have again: "blank (blank r) = blank r" by (simp add: blank_def blank_char_def)
  have none: "find_triple (blank r) = None" using find_triple_blank [of "blank r" "[]"] blank_no_quote by auto
  have "token False (triple @ x) = (length (triple @ x), triple @ blank x)" if "find_triple x = None" for x
    using that by (simp add: token_triple triple_ends_def mask_literal_False)
  from this [OF assms] this [OF none]
  show "token False (triple @ r) = (length (triple @ r), triple @ blank r)"
    "token False (triple @ blank r) = (length (triple @ r), triple @ blank r)" by (simp_all add: again)
qed

lemma triple_closed:
  assumes "find_triple (content @ triple @ r) = Some (length content)" "more_quotes r = extra"
  shows "token False (triple @ content @ triple @ r) = (6 + length content + length extra, triple @ blank content @ triple @ extra)"
proof -
  have "drop (6 + length content) (triple @ content @ triple @ r) = r" by simp
  then have ends: "triple_ends (triple @ content @ triple @ r) = (3 + length content, 6 + length content + length extra)"
    using assms by (simp add: triple_ends_def more_quotes_def)
  have "take (length extra) r = extra" using more_quotes_split [of r] assms(2) by (metis append_eq_conv_conj)
  then show ?thesis by (simp add: token_triple ends mask_literal_False)
qed

lemma triple_again:
  assumes "starts_with triple s"
  shows "token False (snd (token False s) @ mask_query False (drop (fst (token False s)) s)) = token False s"
proof -
  from assms obtain r where s: "s = triple @ r" by (auto simp: starts_with_iff)
  show ?thesis
  proof (cases "find_triple r")
    case None
    note again = triple_open_again [OF None]
    show ?thesis by (simp add: s again mask_query.simps [of False "[]"])
  next
    case (Some k)
    obtain r2 where r2: "drop k r = triple @ r2" using find_triple_at [OF Some] by blast
    define content where "content = take k r"
    have k: "length content = k" using find_triple_le [OF Some] by (simp add: content_def)
    have r: "r = content @ triple @ r2" using r2 by (metis append_take_drop_id content_def)
    obtain rest where rest: "r2 = more_quotes r2 @ rest" using more_quotes_split by blast
    have first: "token False s = (6 + k + length (more_quotes r2), triple @ blank content @ triple @ more_quotes r2)"
      using triple_closed [of content r2] Some by (simp add: s r k)
    have "drop (6 + k + length (more_quotes r2)) s = drop (length (more_quotes r2)) r2"
      by (simp add: s r k add.commute [of _ "length (more_quotes r2)"] flip: drop_drop)
    also have "\<dots> = rest" using rest by (metis append_eq_conv_conj)
    finally have left: "drop (6 + k + length (more_quotes r2)) s = rest" .
    have "find_triple (blank content @ triple @ more_quotes r2 @ mask_query False rest) = Some (length (blank content))"
    proof -
      have "CHR 0x22 \<notin> set (blank content)" using blank_no_quote by blast
      moreover have "find_triple (triple @ x) = Some 0" for x by (simp add: triple_def)
      ultimately show ?thesis by (simp add: find_triple_blank)
    qed
    from triple_closed [OF this more_quotes_again [OF rest]]
    have "token False (triple @ blank content @ triple @ more_quotes r2 @ mask_query False rest)
        = (6 + k + length (more_quotes r2), triple @ blank (blank content) @ triple @ more_quotes r2)"
      by (simp add: k)
    moreover have "blank (blank content) = blank content" by (simp add: blank_def blank_char_def)
    ultimately show ?thesis by (simp add: first left)
  qed
qed

lemma token_quote:
  "q = CHR 0x22 \<or> q = CHR 0x60 \<Longrightarrow> \<not> starts_with triple (q # x) \<Longrightarrow>
   token k (q # x) = (snd (closing q 1 x), mask_literal k 1 (closing q 1 x) (q # x))"
  by (auto simp: token_def quote_ends_def split: prod.splits)

lemma triple_head: "starts_with triple (q # x) \<Longrightarrow> \<exists>y. q = CHR 0x22 \<and> x = [CHR 0x22, CHR 0x22] @ y"
  by (auto simp: starts_with_iff triple_def)

lemma quote_again:
  assumes q: "q = CHR 0x22 \<or> q = CHR 0x60" and no: "\<not> starts_with triple (q # x)"
  shows "token False (snd (token False (q # x)) @ mask_query False (drop (fst (token False (q # x))) (q # x))) = token False (q # x)"
proof -
  obtain a b where ab: "closing q 1 x = (a, b)" by force
  have tok: "token False (q # x) = (b, mask_literal False 1 (a, b) (q # x))" unfolding token_quote [OF q no] ab by simp
  have again: "blank (blank y) = blank y" for y by (simp add: blank_def blank_char_def)
  have free: "q \<notin> set (blank y)" "CHR 0x5C \<notin> set (blank y)" for y using q blank_no_quote by blast+
  from closing_cases [OF ab] consider
    (closed) r where "b = a + 1" "1 \<le> a" "drop (a - 1) x = q # r" "q = CHR 0x60 \<longrightarrow> \<not> starts_with [q] r"
    | (unclosed) "a = b" "b = 1 + length x" by auto
  then show ?thesis
  proof cases
    case unclosed
    have m: "mask_literal False 1 (a, b) (q # x) = q # blank x" by (simp add: mask_literal_False unclosed)
    have "\<not> starts_with triple (q # blank x)" using triple_head [of q "blank x"] free(1) [of x] by auto
    moreover have "closing q 1 (blank x) = (a, b)" using closing_skip [of q "blank x" 1 "[]"] free unclosed by simp
    ultimately have "token False (q # blank x) = (b, mask_literal False 1 (a, b) (q # blank x))" by (simp add: token_quote [OF q])
    then show ?thesis by (simp add: tok m) (simp add: unclosed mask_literal_False again mask_query.simps [of False "[]"])
  next
    case closed
    define content where "content = take (a - 1) x"
    have x: "x = content @ q # r" using closed(3) by (metis append_take_drop_id content_def)
    have len: "length content = a - 1" using closed(3) by (auto simp: content_def not_le intro: ccontr dest!: arg_cong [of _ _ length])
    have m: "mask_literal False 1 (a, b) (q # x) = q # blank content @ [q]"
      using closed(1,2) len by (simp add: mask_literal_False x drop_Cons')
    have left: "drop b (q # x) = r" using closed(1,2) len by (simp add: x drop_Cons')
    let ?X = "mask_query False r"
    have stop: "q = CHR 0x60 \<longrightarrow> ends_at (\<lambda>c. c = q) ?X"
    proof
      assume "q = CHR 0x60"
      with closed(4) have "ends_at (\<lambda>c. c = q) r" by (cases r) (auto simp: ends_at_def)
      then show "ends_at (\<lambda>c. c = q) ?X" by (rule rest_not_starting) (simp add: \<open>q = CHR 0x60\<close>)
    qed
    have "\<not> starts_with triple (q # blank content @ q # ?X)"
    proof
      assume "starts_with triple (q # blank content @ q # ?X)"
      then obtain y where y: "q = CHR 0x22" "blank content @ q # ?X = [CHR 0x22, CHR 0x22] @ y" using triple_head by blast
      then have "content = []" using free(1) [of content] by (cases content) (auto simp: blank_def)
      with y obtain y' where "?X = CHR 0x22 # y'" by (auto simp: blank_def)
      then obtain cs where "r = CHR 0x22 # cs" using hd_mask by fastforce
      with no y(1) \<open>content = []\<close> show False by (simp add: x triple_def)
    qed
    moreover have "closing q 1 (blank content @ q # ?X) = (a, b)"
      using q stop free closed(1,2) len by (auto simp: closing_skip ends_at_def split: list.splits)
    ultimately have "token False (q # blank content @ q # ?X) = (b, mask_literal False 1 (a, b) (q # blank content @ q # ?X))"
      by (simp add: token_quote [OF q])
    moreover have "mask_literal False 1 (a, b) (q # blank content @ q # ?X) = q # blank content @ [q]"
      using closed(1,2) len by (simp add: mask_literal_False drop_Cons' again)
    ultimately have again: "token False (q # blank content @ q # ?X) = (b, q # blank content @ [q])" by simp
    have first: "token False (q # x) = (b, q # blank content @ [q])" by (simp only: tok m)
    show ?thesis unfolding first by (simp add: left again)
  qed
qed


lemma token_again:
  assumes "s \<noteq> []"
  shows "mask_query False (snd (token False s) @ mask_query False (drop (fst (token False s)) s))
    = snd (token False s) @ mask_query False (mask_query False (drop (fst (token False s)) s))"
proof -
  let ?X = "mask_query False (drop (fst (token False s)) s)"
  have literal: "mask_query False (snd (token False s) @ ?X) = snd (token False s) @ mask_query False ?X"
    if again: "token False (snd (token False s) @ ?X) = token False s"
  proof -
    have "length (snd (token False s)) = fst (token False s)"
      using token_masked [OF assms, of False] by (auto dest!: list_all2_lengthD)
    moreover have "snd (token False s) \<noteq> []" using token_progress [OF assms, of False] calculation by auto
    ultimately show ?thesis by (subst mask_step) (simp_all add: again)
  qed
  obtain c cs where s: "s = c # cs" using assms by (cases s) auto
  consider (comment) "starts_with ''//'' s \<or> starts_with ''/*'' s" | (triple) "starts_with triple s"
    | (quote) "c = CHR 0x22 \<or> c = CHR 0x60" "\<not> starts_with triple s"
    | (other) "\<not> starts_with ''//'' s" "\<not> starts_with ''/*'' s" "c \<noteq> CHR 0x22" "c \<noteq> CHR 0x60" "\<not> starts_with triple s"
    by blast
  then show ?thesis
  proof cases
    case comment
    then have "\<exists>y. snd (token False s) = blank y" by (auto simp: token_def Let_def)
    then show ?thesis using mask_plain plain_blank by metis
  next
    case triple
    then show ?thesis by (intro literal triple_again)
  next
    case quote
    then show ?thesis using quote_again [of c cs] by (intro literal) (simp add: s)
  next
    case other
    then have tok: "token False s = (1, [c])" by (cases "c = CHR ''/''") (auto simp: token_def s)
    have X: "?X = mask_query False cs" unfolding tok by (simp add: s)
    have "token False (c # mask_query False cs) = (1, [c])"
    proof (cases "c = CHR ''/''")
      case True
      have "ends_at (\<lambda>d. d = CHR ''/'' \<or> d = CHR ''*'') cs" using other(1,2) True by (cases cs) (auto simp: s ends_at_def)
      then have "ends_at (\<lambda>d. d = CHR ''/'' \<or> d = CHR ''*'') (mask_query False cs)" by (rule rest_not_starting) simp
      then show ?thesis using True by (cases "mask_query False cs") (auto simp: token_def ends_at_def triple_def)
    next
      case False
      then show ?thesis using other by (auto simp: token_def triple_def)
    qed
    then have "mask_query False (c # mask_query False cs) = c # mask_query False (mask_query False cs)" by (subst mask_step) simp_all
    then show ?thesis unfolding X by (simp add: tok)
  qed
qed

text \<open>
  Masking is idempotent: a masked query has no comment left and its literals are read with the same
  delimiters, so a second masking changes nothing.
\<close>

theorem mask_query_idempotent: "mask_query False (mask_query False query) = mask_query False query"
proof (induction "length query" arbitrary: query rule: less_induct)
  case less
  show ?case
  proof (cases "query = []")
    case False
    have "length (drop (fst (token False query)) query) < length query"
      using token_progress [OF False, of False] False by simp
    from less [OF this] show ?thesis by (simp add: mask_step [OF False] token_again [OF False])
  qed (simp add: mask_query.simps)
qed

end
