(* ===== verification/Elastic_Compile.thy ===== *)
theory Elastic_Compile
  imports Elastic_Checks Elastic_Durations Elastic_Attack
begin

text \<open>
  \<open>platforms/elastic/compile.py\<close>: a detection rule as the body of a rule of the detection engine.
  Every key of the body is assigned at one place of \<open>compile_rule\<close>, so the body is the list of its
  fields in the order of the code, each \<open>None\<close> where the code assigns nothing and an error where the
  code raises. The rule is its dump; the objects the code copies are values.
\<close>

section \<open>Reading the dump\<close>

type_synonym 'a compiling = "Exn + 'a"

definition key_error :: "'a compiling" where "key_error = Inl (exn Code_Error ''KeyError'')"
definition type_error :: "'a compiling" where "type_error = Inl (exn Code_Error ''TypeError'')"
definition attribute_error :: "'a compiling" where "attribute_error = Inl (exn Code_Error ''AttributeError'')"
definition value_error :: "'a compiling" where "value_error = Inl (exn Code_Error ''ValueError'')"

text \<open>\<open>v[key]\<close>, \<open>v.get(key)\<close>, \<open>v or {}\<close>, \<open>list(v)\<close> and \<open>v.rstrip()\<close>, with what they raise.\<close>

definition item_of :: "pyval \<Rightarrow> string \<Rightarrow> pyval compiling" where
  "item_of v key =
     (case v of PDict d \<Rightarrow> (case dget d key of None \<Rightarrow> key_error | Some x \<Rightarrow> Inr x) | _ \<Rightarrow> type_error)"

definition get_default :: "pyval \<Rightarrow> string \<Rightarrow> pyval \<Rightarrow> pyval compiling" where
  "get_default v key dflt =
     (case v of
        PDict d \<Rightarrow> Inr (case dget d key of None \<Rightarrow> dflt | Some x \<Rightarrow> x)
      | _ \<Rightarrow> attribute_error)"

definition get_of :: "pyval \<Rightarrow> string \<Rightarrow> pyval compiling" where
  "get_of v key = get_default v key PNone"

definition or_obj :: "pyval \<Rightarrow> pyval" where
  "or_obj v = (if truthy v then v else PDict [])"

definition or_list :: "pyval \<Rightarrow> pyval" where
  "or_list v = (if truthy v then v else PList [])"

definition items_of :: "pyval \<Rightarrow> pyval list compiling" where
  "items_of v =
     (case v of
        PList xs \<Rightarrow> Inr xs
      | PDict d \<Rightarrow> Inr (map fst d)
      | PStr s \<Rightarrow> Inr (map (\<lambda>c. PStr [c]) s)
      | _ \<Rightarrow> type_error)"

definition stripped :: "pyval \<Rightarrow> pyval compiling" where
  "stripped v = (case v of PStr s \<Rightarrow> Inr (PStr (py_rstrip s)) | _ \<Rightarrow> attribute_error)"

definition hashable :: "pyval \<Rightarrow> bool" where
  "hashable v = (case v of PList _ \<Rightarrow> False | PDict _ \<Rightarrow> False | _ \<Rightarrow> True)"

definition unique_items :: "pyval list \<Rightarrow> pyval list compiling" where
  "unique_items xs = (if list_all hashable xs then Inr (from_keys xs) else type_error)"

lemma rbind_InrE: "rbind m f = Inr y \<Longrightarrow> (\<And>x. m = Inr x \<Longrightarrow> f x = Inr y \<Longrightarrow> P) \<Longrightarrow> P"
  by (auto simp: rbind_Inr)

text \<open>A duration: a text, and one that parses.\<close>

definition text_of :: "pyval \<Rightarrow> string compiling" where
  "text_of v = (case v of PStr s \<Rightarrow> Inr s | _ \<Rightarrow> type_error)"

lemma text_of_Inr: "text_of v = Inr s \<longleftrightarrow> v = PStr s"
  by (cases v) (auto simp: text_of_def type_error_def)

definition or_value_error :: "'a option \<Rightarrow> 'a compiling" where
  "or_value_error r = (case r of None \<Rightarrow> value_error | Some x \<Rightarrow> Inr x)"

lemma or_value_error_Inr: "or_value_error r = Inr x \<longleftrightarrow> r = Some x"
  by (simp add: or_value_error_def value_error_def split: option.splits)

definition given :: "pydict \<Rightarrow> string \<Rightarrow> bool" where
  "given d key = (dget_none d key \<noteq> PNone)"

section \<open>The context of a rule\<close>

text \<open>
  The rule as it is dumped, the UUID its metadata holds, the threat array of its techniques, and the
  \<open>setup\<close> of the tenant: of a model, of a dictionary, or of no tenant.
\<close>

record ElasticSetup =
  es_url :: pyval
  es_elasticsearch_url :: pyval
  es_space :: pyval
  es_index :: pyval
  es_tags :: pyval
  es_suppression :: pyval

datatype TenantArg = NoTenant | TenantModel ElasticSetup | TenantDict pydict

definition setup_of :: "TenantArg \<Rightarrow> pyval" where
  "setup_of tenant =
     (case tenant of
        NoTenant \<Rightarrow> PDict []
      | TenantModel s \<Rightarrow> jobj
          [(''url'', es_url s), (''elasticsearch_url'', es_elasticsearch_url s), (''space'', es_space s),
           (''index'', es_index s), (''tags'', es_tags s), (''suppression'', es_suppression s)]
      | TenantDict d \<Rightarrow> (case dget d ''setup'' of None \<Rightarrow> PDict d | Some v \<Rightarrow> v))"

record Compiling =
  cx_rule :: pydict
  cx_block :: pydict
  cx_setup :: pyval
  cx_strategy :: StatusStrategy
  cx_uuid :: pyval
  cx_threat :: "pyval list"

definition cx_type :: "Compiling \<Rightarrow> pyval" where
  "cx_type cx = (case dget (cx_block cx) ''type'' of None \<Rightarrow> PStr ''query'' | Some v \<Rightarrow> v)"

definition is_type :: "Compiling \<Rightarrow> string \<Rightarrow> bool" where
  "is_type cx t = (cx_type cx = PStr t)"

definition block_get :: "Compiling \<Rightarrow> string \<Rightarrow> pyval" where
  "block_get cx key = dget_none (cx_block cx) key"

section \<open>Severity and risk\<close>

definition severity_table :: "(string \<times> string \<times> nat) list" where
  "severity_table =
     [(''Informational'', ''low'', 1), (''Low'', ''low'', 21), (''Medium'', ''medium'', 47),
      (''High'', ''high'', 73), (''Critical'', ''critical'', 99)]"

definition severity_norm :: "(string \<times> string) list" where
  "severity_norm = map (\<lambda>(k, _). (py_lower k, k)) severity_table"

definition severity_of :: "string \<Rightarrow> string \<times> nat" where
  "severity_of level = the (map_of severity_table level)"

definition alert_level :: "pydict \<Rightarrow> pyval \<Rightarrow> string compiling" where
  "alert_level block response =
     (let severity = dget_none block ''severity'';
          fallback = rbind (get_of response ''alert_severity'') (\<lambda>v. Inr (py_or v (PStr ''Informational'')));
          raw = (case severity of
              PDict d \<Rightarrow> if truthy (dget_none d ''default'') then Inr (dget_none d ''default'') else fallback
            | PStr s \<Rightarrow> Inr (PStr s)
            | _ \<Rightarrow> fallback)
      in rbind raw (\<lambda>v. case v of
           PStr s \<Rightarrow> Inr (case map_of severity_norm (py_lower (py_strip s)) of
               None \<Rightarrow> ''Informational'' | Some l \<Rightarrow> l)
         | _ \<Rightarrow> attribute_error))"

definition risk_score_of :: "pyval \<Rightarrow> nat \<Rightarrow> pyval" where
  "risk_score_of risk default_risk =
     (case risk of
        PInt i \<Rightarrow> PInt i
      | PBool b \<Rightarrow> PBool b
      | PDict d \<Rightarrow> if given d ''score'' then dget_none d ''score'' else PInt (int default_risk)
      | _ \<Rightarrow> PInt (int default_risk))"

section \<open>Blocks of a rule\<close>

text \<open>\<open>key in action\<close>.\<close>

definition in_value :: "string \<Rightarrow> pyval \<Rightarrow> bool compiling" where
  "in_value key v =
     (case v of
        PDict d \<Rightarrow> Inr (dget d key \<noteq> None)
      | PList xs \<Rightarrow> Inr (PStr key \<in> set xs)
      | PStr s \<Rightarrow> Inr (contains_str key s)
      | _ \<Rightarrow> type_error)"

definition endpoint_config :: "pydict \<Rightarrow> pyval \<Rightarrow> (string \<times> pyval) list" where
  "endpoint_config action command =
     (if truthy (dget_none action ''field'')
      then [(''config'', jobj [(''field'', dget_none action ''field''), (''overwrite'', PBool False)])]
      else if command = PStr ''kill-process'' \<or> command = PStr ''suspend-process''
      then [(''config'', jobj [(''field'', PStr ''process.entity_id''), (''overwrite'', PBool True)])]
      else [])"

definition compile_response :: "pyval \<Rightarrow> pyval compiling" where
  "compile_response action =
     rbind (in_value ''endpoint'' action) (\<lambda>endpoint.
     if endpoint then
       (case action of
          PDict d \<Rightarrow>
            (let command = dget_none d ''endpoint'' in
             Inr (jobj
               [(''action_type_id'', PStr ''.endpoint''),
                (''params'', jobj ([(''command'', command)]
                   @ (if truthy (dget_none d ''comment'') then [(''comment'', dget_none d ''comment'')] else [])
                   @ endpoint_config d command))]))
        | _ \<Rightarrow> type_error)
     else rbind (in_value ''osquery'' action) (\<lambda>osquery.
       if osquery
       then rbind (item_of action ''osquery'') (\<lambda>q.
              Inr (jobj [(''action_type_id'', PStr ''.osquery''), (''params'', q)]))
       else Inr action))"

definition phrase_filter :: "pyval \<Rightarrow> pyval \<Rightarrow> bool \<Rightarrow> pyval" where
  "phrase_filter field value negated = jobj
     [(''meta'', jobj
        [(''key'', field), (''negate'', PBool negated), (''disabled'', PBool False), (''type'', PStr ''phrase''),
         (''params'', jobj [(''query'', value)])]),
      (''query'', jobj [(''match_phrase'', PDict [(field, value)])])]"

definition compile_filter :: "pyval \<Rightarrow> pyval compiling" where
  "compile_filter entry =
     (case entry of
        PDict d \<Rightarrow>
          if given d ''field'' \<and> \<not> given d ''meta'' \<and> \<not> given d ''query''
          then rbind (item_of entry ''value'') (\<lambda>v.
                 if hashable (dget_none d ''field'')
                 then Inr (phrase_filter (dget_none d ''field'') v (truthy (dget_none d ''negate'')))
                 else type_error)
          else Inr entry
      | _ \<Rightarrow> attribute_error)"

text \<open>\<open>setdefault\<close>: a key that is there keeps its value.\<close>

definition set_default :: "string \<Rightarrow> pyval \<Rightarrow> pydict \<Rightarrow> pydict" where
  "set_default key v d = (case dget d key of None \<Rightarrow> d @ [(PStr key, v)] | Some _ \<Rightarrow> d)"

definition without_none :: "pydict \<Rightarrow> pydict" where
  "without_none d = filter (\<lambda>(k, v). v \<noteq> PNone) d"

definition related_integration :: "pyval \<Rightarrow> pyval compiling" where
  "related_integration entry =
     (case entry of
        PStr s \<Rightarrow> Inr (jobj [(''package'', PStr s), (''version'', PStr ''*'')])
      | PDict d \<Rightarrow> Inr (PDict (set_default ''version'' (PStr ''*'') (without_none d)))
      | _ \<Rightarrow> attribute_error)"

text \<open>\<open>{key: value, **entry}\<close>: the key first, with the value of the entry when it has the key.\<close>

definition with_first :: "string \<Rightarrow> pyval \<Rightarrow> pydict \<Rightarrow> pydict" where
  "with_first key v d =
     (PStr key, case dget d key of None \<Rightarrow> v | Some x \<Rightarrow> x) # filter (\<lambda>(k, _). k \<noteq> PStr key) d"

definition threat_entry :: "pyval \<Rightarrow> pyval compiling" where
  "threat_entry entry =
     (case entry of
        PDict d \<Rightarrow> Inr (PDict (without_none (with_first ''type'' (PStr ''mapping'') d)))
      | _ \<Rightarrow> attribute_error)"

definition threat_group :: "pyval \<Rightarrow> pyval compiling" where
  "threat_group grp =
     rbind (item_of grp ''entries'') (\<lambda>entries.
     rbind (items_of entries) (\<lambda>es.
     rbind (rmap threat_entry es) (\<lambda>cs. Inr (jobj [(''entries'', PList cs)]))))"

definition override_entry :: "pyval \<Rightarrow> pyval compiling" where
  "override_entry entry =
     (case entry of
        PDict d \<Rightarrow> Inr (PDict (case dget d ''operator'' of
            None \<Rightarrow> (PStr ''operator'', PStr ''equals'') # d
          | Some _ \<Rightarrow> d))
      | _ \<Rightarrow> type_error)"

section \<open>The fields\<close>

type_synonym body_field = "string \<times> pyval option compiling"

text \<open>\<open>if v is not None: body[key] = ...\<close> and \<open>if v: body[key] = ...\<close>.\<close>

definition when_field :: "bool \<Rightarrow> string \<Rightarrow> pyval compiling \<Rightarrow> body_field" where
  "when_field c key v = (key, if c then rbind v (\<lambda>x. Inr (Some x)) else Inr None)"

definition always :: "string \<Rightarrow> pyval \<Rightarrow> body_field" where
  "always key v = (key, Inr (Some v))"

definition list_field :: "(pyval \<Rightarrow> pyval compiling) \<Rightarrow> pyval \<Rightarrow> pyval compiling" where
  "list_field f v = rbind (items_of v) (\<lambda>xs. rbind (rmap f xs) (\<lambda>ys. Inr (PList ys)))"

definition copy_list :: "pyval \<Rightarrow> pyval compiling" where
  "copy_list v = rbind (items_of v) (\<lambda>xs. Inr (PList xs))"

text \<open>A field whose presence and value are read from a block that may be no dictionary.\<close>

definition got_field :: "pyval \<Rightarrow> string \<Rightarrow> (pyval \<Rightarrow> bool) \<Rightarrow> string \<Rightarrow> (pyval \<Rightarrow> pyval compiling) \<Rightarrow> body_field" where
  "got_field obj name present key f =
     (key, rbind (get_of obj name) (\<lambda>v.
             if present v then rbind (f v) (\<lambda>x. Inr (Some x)) else Inr None))"

definition is_given :: "pyval \<Rightarrow> bool" where
  "is_given v = (v \<noteq> PNone)"

text \<open>The interval of the runs, and the window each of them looks at.\<close>

definition window_of :: "pyval \<Rightarrow> (string \<times> string) compiling" where
  "window_of scheduling =
     rbind (get_default scheduling ''interval'' (PStr ''5m'')) (\<lambda>i.
     rbind (get_default scheduling ''lookback'' (PStr ''1m'')) (\<lambda>l.
     rbind (text_of i) (\<lambda>interval.
     rbind (or_value_error (duration_seconds interval False)) (\<lambda>run.
     rbind (text_of l) (\<lambda>lookback.
     rbind (or_value_error (duration_seconds lookback True)) (\<lambda>extra.
     rbind (or_value_error (format_duration (run + extra))) (\<lambda>window.
     Inr (interval, window))))))))"

definition scheduling_of :: "Compiling \<Rightarrow> pyval" where
  "scheduling_of cx = or_obj (block_get cx ''scheduling'')"

definition rule_response :: "Compiling \<Rightarrow> pyval" where
  "rule_response cx = or_obj (dget_none (cx_rule cx) ''response'')"

definition rule_metadata :: "Compiling \<Rightarrow> pyval" where
  "rule_metadata cx = or_obj (dget_none (cx_rule cx) ''metadata'')"

text \<open>The ten keys of the first dictionary, computed before it is built.\<close>

definition head_fields :: "Compiling \<Rightarrow> body_field list compiling" where
  "head_fields cx =
     rbind (alert_level (cx_block cx) (rule_response cx)) (\<lambda>level.
     rbind (window_of (scheduling_of cx)) (\<lambda>(interval, window).
     rbind (get_of (rule_metadata cx) ''uuid'') (\<lambda>uuid.
     rbind (stripped (py_or (dget_none (cx_rule cx) ''description'') (PStr []))) (\<lambda>description.
     rbind (or_value_error (date_math interval ''dhms'')) (\<lambda>every.
     Inr [always ''rule_id'' (py_or uuid (cx_uuid cx)),
          always ''type'' (cx_type cx),
          always ''name'' (py_or (block_get cx ''name'') (py_or (dget_none (cx_rule cx) ''name'') (PStr []))),
          always ''description'' description,
          always ''enabled'' (PBool (cx_strategy cx \<noteq> DISABLEMENT)),
          always ''severity'' (PStr (fst (severity_of level))),
          always ''risk_score'' (risk_score_of (block_get cx ''risk'') (snd (severity_of level))),
          always ''interval'' (PStr every),
          always ''from'' (PStr (''now-'' @ window)),
          always ''to'' (PStr ''now'')])))))"

text \<open>Language, query, sources and filters.\<close>

definition language_field :: "Compiling \<Rightarrow> body_field" where
  "language_field cx = when_field (\<not> is_type cx ''machine_learning'') ''language''
     (Inr (if is_type cx ''eql'' then PStr ''eql'' else if is_type cx ''esql'' then PStr ''esql''
           else py_or (block_get cx ''language'') (PStr ''kuery'')))"

definition query_field :: "Compiling \<Rightarrow> body_field" where
  "query_field cx = when_field (given (cx_block cx) ''query'' \<and> \<not> is_type cx ''machine_learning'') ''query''
     (stripped (block_get cx ''query''))"

definition no_source :: "Compiling \<Rightarrow> bool" where
  "no_source cx = (is_type cx ''esql'' \<or> is_type cx ''machine_learning'')"

text \<open>\<open>block.get("index") or setup.get("index")\<close>: the setup is read only without an index of the block.\<close>

definition index_value :: "Compiling \<Rightarrow> pyval compiling" where
  "index_value cx = (if truthy (block_get cx ''index'') then Inr (block_get cx ''index'')
     else get_of (cx_setup cx) ''index'')"

definition source_fields :: "Compiling \<Rightarrow> body_field list" where
  "source_fields cx =
     (let view = block_get cx ''data_view_id'' in
      [when_field (truthy view) ''data_view_id'' (Inr view),
       (''index'', if truthy view \<or> no_source cx then Inr None
          else rbind (index_value cx) (\<lambda>index. case index of
                 PList (x # xs) \<Rightarrow> Inr (Some (PList (x # xs))) | _ \<Rightarrow> Inr None)),
       when_field (given (cx_block cx) ''filters'' \<and> \<not> no_source cx) ''filters''
         (list_field compile_filter (block_get cx ''filters''))])"

text \<open>The objects of the rule types.\<close>

definition threshold_object :: "pyval \<Rightarrow> pyval compiling" where
  "threshold_object threshold =
     rbind (get_of threshold ''field'') (\<lambda>field.
     rbind (copy_list (or_list field)) (\<lambda>fields.
     rbind (item_of threshold ''value'') (\<lambda>amount.
     rbind (get_of threshold ''cardinality'') (\<lambda>cardinality.
     Inr (jobj ([(''field'', fields), (''value'', amount)]
       @ (if truthy cardinality then [(''cardinality'', PList [cardinality])] else [])))))))"

definition history_start :: "pyval \<Rightarrow> pyval compiling" where
  "history_start new_terms =
     rbind (item_of new_terms ''history_window_start'') (\<lambda>v.
     rbind (text_of v) (\<lambda>start.
     rbind (or_value_error (date_math start ''dhms'')) (\<lambda>d. Inr (PStr (''now-'' @ d)))))"

definition type_fields :: "Compiling \<Rightarrow> body_field list" where
  "type_fields cx =
     (let threshold = block_get cx ''threshold''; new_terms = block_get cx ''new_terms'' in
      [when_field (is_given threshold) ''threshold'' (threshold_object threshold),
       when_field (is_given new_terms) ''new_terms_fields'' (rbind (item_of new_terms ''fields'') copy_list),
       when_field (is_given new_terms) ''history_window_start'' (history_start new_terms)])"

definition eql_fields :: "Compiling \<Rightarrow> body_field list" where
  "eql_fields cx =
     map (\<lambda>key. got_field (or_obj (block_get cx ''eql'')) key is_given key Inr)
       [''timestamp_field'', ''event_category_override'', ''tiebreaker_field'']"

definition threat_match_fields :: "Compiling \<Rightarrow> body_field list" where
  "threat_match_fields cx =
     (let threat = block_get cx ''threat''; use = is_given threat;
          obj = if use then threat else PDict []
      in [when_field use ''threat_index'' (rbind (item_of threat ''index'') copy_list),
          when_field use ''threat_query'' (item_of threat ''query''),
          got_field obj ''language'' truthy ''threat_language'' Inr,
          got_field obj ''filters'' is_given ''threat_filters'' (list_field compile_filter),
          got_field obj ''indicator_path'' is_given ''threat_indicator_path'' Inr,
          when_field use ''threat_mapping'' (rbind (item_of threat ''mapping'') (list_field threat_group))])"

definition machine_learning_fields :: "Compiling \<Rightarrow> body_field list" where
  "machine_learning_fields cx =
     (let ml = block_get cx ''machine_learning'' in
      [when_field (is_given ml) ''machine_learning_job_id'' (item_of ml ''job_id''),
       when_field (is_given ml) ''anomaly_threshold'' (item_of ml ''anomaly_threshold'')])"

text \<open>Severity and risk overrides, the fields of an alert, actions.\<close>

definition severity_mapping :: "pyval \<Rightarrow> pyval compiling" where
  "severity_mapping severity = (case severity of PDict _ \<Rightarrow> item_of severity ''mapping'' | _ \<Rightarrow> Inr PNone)"

definition override_mapping_fields :: "Compiling \<Rightarrow> body_field list" where
  "override_mapping_fields cx =
     (let risk = block_get cx ''risk'';
          risk_mapping = (case risk of PDict d \<Rightarrow> dget_none d ''mapping'' | _ \<Rightarrow> PNone)
      in [(''severity_mapping'', rbind (severity_mapping (block_get cx ''severity'')) (\<lambda>m.
             if truthy m then rbind (list_field override_entry m) (\<lambda>x. Inr (Some x)) else Inr None)),
          when_field (truthy risk_mapping) ''risk_score_mapping'' (list_field override_entry risk_mapping)])"

definition override_fields :: "Compiling \<Rightarrow> body_field list" where
  "override_fields cx =
     (let overrides = or_obj (block_get cx ''overrides'') in
      [got_field overrides ''name'' is_given ''rule_name_override'' Inr,
       got_field overrides ''timestamp'' is_given ''timestamp_override'' Inr,
       got_field overrides ''disable_fallback'' is_given ''timestamp_override_fallback_disabled'' Inr])"

text \<open>Actions that are no dictionary are passed over.\<close>

definition actions_of :: "Compiling \<Rightarrow> pyval" where
  "actions_of cx = (case block_get cx ''actions'' of PDict d \<Rightarrow> PDict d | _ \<Rightarrow> PDict [])"

definition timeline_field :: "Compiling \<Rightarrow> string \<Rightarrow> string \<Rightarrow> body_field" where
  "timeline_field cx name key =
     (key, rbind (get_of (actions_of cx) ''timeline'') (\<lambda>timeline.
             snd (got_field (or_obj timeline) name is_given key Inr)))"

definition action_fields :: "Compiling \<Rightarrow> body_field list" where
  "action_fields cx =
     [got_field (actions_of cx) ''notify'' is_given ''actions'' Inr,
      got_field (actions_of cx) ''respond'' is_given ''response_actions'' (list_field compile_response),
      timeline_field cx ''id'' ''timeline_id'',
      timeline_field cx ''title'' ''timeline_title'',
      got_field (scheduling_of cx) ''max_alerts'' is_given ''max_signals'' Inr]"

definition suppression_object :: "bool \<Rightarrow> pyval \<Rightarrow> pyval compiling" where
  "suppression_object threshold suppression =
     rbind (if threshold then Inr [] else
              rbind (item_of suppression ''group_by'') (\<lambda>g.
              rbind (copy_list g) (\<lambda>xs. Inr [(''group_by'', xs)]))) (\<lambda>grouping.
     rbind (get_of suppression ''duration'') (\<lambda>d.
     rbind (if truthy d
            then rbind (text_of d) (\<lambda>s.
                 rbind (or_value_error (elastic_duration s ''hms'')) (\<lambda>(amount, unit_char).
                 Inr [(''duration'', jobj [(''value'', PInt (int amount)), (''unit'', PStr [unit_char])])]))
            else Inr []) (\<lambda>duration.
     rbind (if threshold then Inr [] else
              rbind (get_default suppression ''missing_fields_strategy'' (PStr ''suppress'')) (\<lambda>m.
              Inr [(''missing_fields_strategy'', m)])) (\<lambda>missing.
     Inr (jobj (grouping @ duration @ missing))))))"

definition suppression_field :: "Compiling \<Rightarrow> body_field" where
  "suppression_field cx =
     (''alert_suppression'',
      if \<not> given (cx_block cx) ''suppression'' then Inr None
      else rbind (get_default (cx_setup cx) ''suppression'' (PBool True)) (\<lambda>allowed.
        if truthy allowed
        then rbind (suppression_object (is_type cx ''threshold'') (block_get cx ''suppression'')) (\<lambda>s. Inr (Some s))
        else Inr None))"

text \<open>Fields the reader of an alert sees, and the integrations of the rule. The names sorted are texts.\<close>

definition required_field :: "pyval \<Rightarrow> (string \<times> pyval) compiling" where
  "required_field f =
     rbind (item_of f ''name'') (\<lambda>name.
     rbind (item_of f ''type'') (\<lambda>kind.
     rbind (text_of name) (\<lambda>n. Inr (n, jobj [(''name'', name), (''type'', kind)]))))"

definition required_list :: "pyval \<Rightarrow> pyval compiling" where
  "required_list v =
     rbind (items_of v) (\<lambda>xs.
     rbind (rmap required_field xs) (\<lambda>fs. Inr (PList (map snd (sort_key fst fs)))))"

definition guide_of :: "Compiling \<Rightarrow> pyval" where
  "guide_of cx = or_obj (block_get cx ''guide'')"

definition alert_fields :: "Compiling \<Rightarrow> body_field list" where
  "alert_fields cx =
     [when_field (truthy (block_get cx ''highlighted_fields'')) ''investigation_fields''
        (rbind (copy_list (block_get cx ''highlighted_fields'')) (\<lambda>xs. Inr (jobj [(''field_names'', xs)]))),
      when_field (truthy (block_get cx ''required_fields'')) ''required_fields''
        (required_list (block_get cx ''required_fields'')),
      when_field (truthy (block_get cx ''integration'')) ''related_integrations''
        (list_field related_integration (block_get cx ''integration'')),
      got_field (guide_of cx) ''setup'' truthy ''setup'' stripped,
      when_field (truthy (block_get cx ''false_positives'')) ''false_positives'' (Inr (block_get cx ''false_positives'')),
      when_field (truthy (block_get cx ''building_block'')) ''building_block_type'' (Inr (PStr ''default''))]"

text \<open>Exceptions: equality of dictionaries does not look at the order of their keys.\<close>

definition endpoint_entry :: pydict where
  "endpoint_entry = map (\<lambda>(k, v). (PStr k, PStr v))
     [(''id'', ''endpoint_list''), (''list_id'', ''endpoint_list''), (''namespace_type'', ''agnostic''),
      (''type'', ''endpoint'')]"

definition same_dict :: "pydict \<Rightarrow> pyval \<Rightarrow> bool" where
  "same_dict d v =
     (case v of
        PDict e \<Rightarrow> length e = length d \<and> list_all (\<lambda>(k, x). map_of e k = Some x) d
      | _ \<Rightarrow> False)"

definition exception_lists :: "pyval \<Rightarrow> pyval compiling" where
  "exception_lists exceptions =
     rbind (get_of exceptions ''lists'') (\<lambda>l.
     rbind (get_of exceptions ''endpoint'') (\<lambda>endpoint.
     let lists = or_list l in
     if \<not> truthy endpoint then Inr lists
     else (case lists of
             PList xs \<Rightarrow> Inr (PList (if list_ex (same_dict endpoint_entry) xs then xs else xs @ [PDict endpoint_entry]))
           | PDict _ \<Rightarrow> attribute_error
           | _ \<Rightarrow> type_error)))"

definition exceptions_field :: "Compiling \<Rightarrow> body_field" where
  "exceptions_field cx =
     (''exceptions_list'',
      if \<not> given (cx_block cx) ''exceptions'' then Inr None
      else rbind (exception_lists (block_get cx ''exceptions'')) (\<lambda>lists.
             Inr (if truthy lists then Some lists else None)))"

text \<open>Tags, authors, references, the investigation guide and the threat array.\<close>

definition tags_value :: "Compiling \<Rightarrow> pyval compiling" where
  "tags_value cx =
     rbind (get_of (cx_setup cx) ''tags'') (\<lambda>t.
     rbind (items_of (or_list t)) (\<lambda>tenant_tags.
     rbind (items_of (or_list (block_get cx ''tags''))) (\<lambda>block_tags.
     rbind (unique_items (PStr ''OpenTide'' # tenant_tags @ block_tags)) (\<lambda>tags. Inr (PList tags)))))"

definition authors_field :: "Compiling \<Rightarrow> body_field" where
  "authors_field cx =
     (''author'',
      rbind (get_of (rule_metadata cx) ''author'') (\<lambda>author.
      rbind (get_of (rule_metadata cx) ''contributors'') (\<lambda>c.
      rbind (items_of (or_list c)) (\<lambda>contributors.
      rbind (unique_items (filter truthy (author # contributors))) (\<lambda>authors.
      Inr (if authors = [] then None else Some (PList authors)))))))"

text \<open>
  \<open>sorted(public, key=int)\<close>, and \<open>sorted(public)\<close> when a key is no number. \<open>int\<close> reads the decimal
  digits of a text with a sign, spaces around and single underscores; a key of another type is not read.
\<close>

definition decimal_of :: "string \<Rightarrow> int option" where
  "decimal_of s =
     (let (neg, body) = drop_sign (py_strip s); parts = py_split ''_'' body in
      if list_all (\<lambda>p. p \<noteq> [] \<and> list_all is_ascii_digit p) parts
      then Some (if neg then - int (dec_value (concat parts)) else int (dec_value (concat parts)))
      else None)"

definition key_int :: "pyval \<Rightarrow> int option" where
  "key_int k =
     (case k of
        PInt i \<Rightarrow> Some i
      | PBool b \<Rightarrow> Some (if b then 1 else 0)
      | PStr s \<Rightarrow> decimal_of s
      | _ \<Rightarrow> None)"

definition sorted_public :: "pydict \<Rightarrow> pyval list compiling" where
  "sorted_public public =
     (if list_all (\<lambda>(k, _). key_int k \<noteq> None) public
      then Inr (map snd (sort_key (\<lambda>(k, _). the (key_int k)) public))
      else if list_all (\<lambda>(k, _). as_str_val k \<noteq> None) public
      then Inr (map snd (sort_key (\<lambda>(k, _). the (as_str_val k)) public))
      else type_error)"

definition references_field :: "Compiling \<Rightarrow> body_field" where
  "references_field cx =
     (''references'',
      case or_obj (dget_none (cx_rule cx) ''references'') of
        PDict d \<Rightarrow>
          (case dget_none d ''public'' of
             PDict (p # ps) \<Rightarrow> rbind (sorted_public (p # ps)) (\<lambda>xs. Inr (Some (PList xs)))
           | _ \<Rightarrow> Inr None)
      | _ \<Rightarrow> Inr None)"

definition procedure_analysis :: "Compiling \<Rightarrow> pyval" where
  "procedure_analysis cx =
     (case rule_response cx of
        PDict r \<Rightarrow> (case dget_none r ''procedure'' of PDict p \<Rightarrow> dget_none p ''analysis'' | _ \<Rightarrow> PNone)
      | _ \<Rightarrow> PNone)"

definition note_field :: "Compiling \<Rightarrow> body_field" where
  "note_field cx =
     (let investigation = (case guide_of cx of PDict g \<Rightarrow> dget_none g ''investigation'' | _ \<Rightarrow> PNone);
          remark = py_or investigation (procedure_analysis cx)
      in when_field (truthy remark) ''note'' (Inr (PStr (py_rstrip (py_str remark)))))"

definition closing_fields :: "Compiling \<Rightarrow> body_field list" where
  "closing_fields cx =
     [exceptions_field cx, (''tags'', rbind (tags_value cx) (\<lambda>t. Inr (Some t))), authors_field cx,
      references_field cx, note_field cx, when_field (cx_threat cx \<noteq> []) ''threat'' (Inr (PList (cx_threat cx)))]"

section \<open>The compiler\<close>

definition server_owned_fields :: "string list" where
  "server_owned_fields =
     [''id'', ''version'', ''revision'', ''created_at'', ''created_by'', ''updated_at'', ''updated_by'',
      ''execution_summary'', ''immutable'', ''rule_source'', ''outcome'']"

definition later_fields :: "Compiling \<Rightarrow> body_field list" where
  "later_fields cx =
     [language_field cx, query_field cx] @ source_fields cx @ type_fields cx @ eql_fields cx @ threat_match_fields cx
     @ machine_learning_fields cx @ override_mapping_fields cx @ override_fields cx @ action_fields cx
     @ [suppression_field cx] @ alert_fields cx @ closing_fields cx"

definition assemble :: "body_field list \<Rightarrow> (string \<times> pyval) list compiling" where
  "assemble parts =
     rbind (rmap (\<lambda>(key, r). rbind r (\<lambda>v. Inr (key, v))) parts) (\<lambda>kvs.
     Inr (List.map_filter (\<lambda>(key, v). map_option (Pair key) v) kvs))"

definition strategy_of_status :: "DeploymentStatus list \<Rightarrow> pyval \<Rightarrow> StatusStrategy compiling" where
  "strategy_of_status statuses v =
     (case check_status statuses (case v of PStr s \<Rightarrow> s | _ \<Rightarrow> []) of
        Inl _ \<Rightarrow> Inl (exn Config_Error ''status'')
      | Inr strategy \<Rightarrow> if as_str_val v = None then Inl (exn Config_Error ''status'') else Inr strategy)"

definition context_of ::
  "DeploymentStatus list \<Rightarrow> pydict \<Rightarrow> pyval \<Rightarrow> pyval list \<Rightarrow> TenantArg \<Rightarrow> Compiling compiling" where
  "context_of statuses rule uuid threat tenant =
     rbind (get_of (or_obj (dget_none rule ''configurations'')) ''elastic'') (\<lambda>cfg.
     case or_obj cfg of
       PDict block \<Rightarrow>
         rbind (item_of (PDict block) ''status'') (\<lambda>status.
         rbind (strategy_of_status statuses status) (\<lambda>strategy.
         Inr \<lparr>cx_rule = rule, cx_block = block, cx_setup = setup_of tenant, cx_strategy = strategy,
              cx_uuid = uuid, cx_threat = threat\<rparr>))
     | _ \<Rightarrow> attribute_error)"

definition body_of :: "Compiling \<Rightarrow> (string \<times> pyval) list compiling" where
  "body_of cx =
     rbind (head_fields cx) (\<lambda>head.
     rbind (assemble (head @ later_fields cx)) (\<lambda>body.
     Inr (filter (\<lambda>(key, _). key \<notin> set server_owned_fields) body)))"

definition compile_rule ::
  "DeploymentStatus list \<Rightarrow> pydict \<Rightarrow> pyval \<Rightarrow> pyval list \<Rightarrow> TenantArg \<Rightarrow> pydict compiling" where
  "compile_rule statuses rule uuid threat tenant =
     rbind (context_of statuses rule uuid threat tenant) (\<lambda>cx.
     rbind (body_of cx) (\<lambda>body. Inr (map (\<lambda>(key, v). (PStr key, v)) body)))"

section \<open>The keys of a body\<close>

definition head_names :: "string list" where
  "head_names = [''rule_id'', ''type'', ''name'', ''description'', ''enabled'', ''severity'', ''risk_score'',
     ''interval'', ''from'', ''to'']"

definition later_names :: "string list" where
  "later_names =
     [''language'', ''query'', ''data_view_id'', ''index'', ''filters'', ''threshold'', ''new_terms_fields'',
      ''history_window_start'', ''timestamp_field'', ''event_category_override'', ''tiebreaker_field'',
      ''threat_index'', ''threat_query'', ''threat_language'', ''threat_filters'', ''threat_indicator_path'',
      ''threat_mapping'', ''machine_learning_job_id'', ''anomaly_threshold'', ''severity_mapping'',
      ''risk_score_mapping'', ''rule_name_override'', ''timestamp_override'',
      ''timestamp_override_fallback_disabled'', ''actions'', ''response_actions'', ''timeline_id'',
      ''timeline_title'', ''max_signals'', ''alert_suppression'', ''investigation_fields'', ''required_fields'',
      ''related_integrations'', ''setup'', ''false_positives'', ''building_block_type'', ''exceptions_list'',
      ''tags'', ''author'', ''references'', ''note'', ''threat'']"

lemma field_key [simp]:
  "fst (when_field c key v) = key" "fst (always key x) = key" "fst (got_field obj name present key f) = key"
  by (simp_all add: when_field_def always_def got_field_def)

lemma head_keys: "head_fields cx = Inr h \<Longrightarrow> map fst h = head_names"
  by (auto simp: head_fields_def rbind_Inr head_names_def)

lemma later_keys: "map fst (later_fields cx) = later_names"
  by (simp add: later_fields_def later_names_def language_field_def query_field_def source_fields_def
      type_fields_def eql_fields_def threat_match_fields_def machine_learning_fields_def
      override_mapping_fields_def override_fields_def action_fields_def timeline_field_def suppression_field_def
      alert_fields_def closing_fields_def exceptions_field_def authors_field_def references_field_def
      note_field_def Let_def)

lemma api_names: "distinct (head_names @ later_names)" "set (head_names @ later_names) \<inter> set server_owned_fields = {}"
  by (simp_all add: head_names_def later_names_def server_owned_fields_def)

lemma assemble_Cons:
  "assemble ((key, r) # fs) = rbind r (\<lambda>v. rbind (assemble fs) (\<lambda>kvs.
     Inr (case v of None \<Rightarrow> kvs | Some x \<Rightarrow> (key, x) # kvs)))"
  by (auto simp: assemble_def rbind_def List.map_filter_simps split: sum.splits option.splits)

lemma assemble_Nil [simp]: "assemble [] = Inr []"
  by (simp add: assemble_def List.map_filter_simps)

lemma assemble_keys: "assemble fs = Inr kvs \<Longrightarrow> subseq (map fst kvs) (map fst fs)"
proof (induction fs arbitrary: kvs)
  case (Cons f fs)
  obtain key r where f: "f = (key, r)" by (cases f)
  from Cons.prems obtain v rest where "r = Inr v" and rest: "assemble fs = Inr rest"
    and kvs: "kvs = (case v of None \<Rightarrow> rest | Some x \<Rightarrow> (key, x) # rest)"
    by (auto simp: f assemble_Cons rbind_Inr)
  with Cons.IH [OF rest] show ?case by (auto simp: f split: option.splits)
qed simp

lemma assemble_get:
  "assemble fs = Inr kvs \<Longrightarrow> distinct (map fst fs) \<Longrightarrow> (key, r) \<in> set fs \<Longrightarrow> r = Inr (map_of kvs key)"
proof (induction fs arbitrary: kvs)
  case (Cons f fs)
  obtain k q where f: "f = (k, q)" by (cases f)
  from Cons.prems(1) obtain v rest where q: "q = Inr v" and rest: "assemble fs = Inr rest"
    and kvs: "kvs = (case v of None \<Rightarrow> rest | Some x \<Rightarrow> (k, x) # rest)"
    by (auto simp: f assemble_Cons rbind_Inr)
  have absent: "map_of rest k = None"
    using subseq_set [OF assemble_keys [OF rest]] Cons.prems(2) by (auto simp: f map_of_eq_None_iff)
  show ?case
  proof (cases "(key, r) = (k, q)")
    case True
    with absent show ?thesis by (auto simp: q kvs split: option.splits)
  next
    case False
    with Cons.prems(3) have there: "(key, r) \<in> set fs" by (auto simp: f)
    with Cons.prems(2) have "key \<noteq> k" by (force simp: f)
    with Cons.IH [OF rest _ there] Cons.prems(2) show ?thesis by (auto simp: f kvs split: option.splits)
  qed
qed simp

text \<open>No key of the body is owned by the server, so the last filter of \<open>compile_rule\<close> keeps every field.\<close>

lemma body_of_eq:
  "body_of cx = rbind (head_fields cx) (\<lambda>head. assemble (head @ later_fields cx))"
proof (cases "head_fields cx")
  case (Inr h)
  have "filter (\<lambda>(key, _). key \<notin> set server_owned_fields) body = body"
    if a: "assemble (h @ later_fields cx) = Inr body" for body
  proof (rule filter_True)
    have "set (map fst body) \<subseteq> set (head_names @ later_names)"
      using subseq_set [OF assemble_keys [OF a]] by (simp add: head_keys [OF Inr] later_keys)
    then show "\<forall>x\<in>set body. case x of (key, _) \<Rightarrow> key \<notin> set server_owned_fields"
      using api_names(2) by fastforce
  qed
  then show ?thesis by (auto simp: body_of_def Inr rbind_def split: sum.splits)
qed (simp add: body_of_def)

lemma body_keys: "body_of cx = Inr kvs \<Longrightarrow> subseq (map fst kvs) (head_names @ later_names)"
  by (auto simp: body_of_eq rbind_Inr head_keys later_keys dest!: assemble_keys)

lemma body_field:
  assumes "body_of cx = Inr kvs" and "head_fields cx = Inr h" and "(key, r) \<in> set (h @ later_fields cx)"
  shows "r = Inr (map_of kvs key)"
  using assms assemble_get [of "h @ later_fields cx" kvs key r] api_names(1)
  by (simp add: body_of_eq head_keys later_keys)

lemma dget_body: "dget (map (\<lambda>(key, v). (PStr key, v)) kvs) key = map_of kvs key"
  by (induction kvs) (auto simp: dget_def)

lemma dom_body: "map_of kvs key = None \<longleftrightarrow> key \<notin> set (map fst kvs)"
  by (auto simp: map_of_eq_None_iff)

text \<open>What a rule that compiles gives: its context, its first dictionary and its fields.\<close>

lemma compiled:
  assumes "compile_rule statuses rule uuid threat tenant = Inr body"
  obtains cx h kvs where "context_of statuses rule uuid threat tenant = Inr cx" and "head_fields cx = Inr h"
    and "body_of cx = Inr kvs" and "body = map (\<lambda>(key, v). (PStr key, v)) kvs"
    and "\<And>key r. (key, r) \<in> set (h @ later_fields cx) \<Longrightarrow> r = Inr (dget body key)"
proof -
  obtain cx kvs where cx: "context_of statuses rule uuid threat tenant = Inr cx" and kvs: "body_of cx = Inr kvs"
    and body: "body = map (\<lambda>(key, v). (PStr key, v)) kvs"
    using assms by (auto simp: compile_rule_def rbind_Inr)
  obtain h where h: "head_fields cx = Inr h" using kvs by (auto simp: body_of_eq rbind_Inr)
  show ?thesis
    using that [OF cx h kvs body] body_field [OF kvs h] by (simp add: body dget_body)
qed

section \<open>The window of a rule\<close>

lemma head_form:
  assumes "head_fields cx = Inr h"
  obtains level interval window every where "alert_level (cx_block cx) (rule_response cx) = Inr level"
    and "window_of (scheduling_of cx) = Inr (interval, window)" and "date_math interval ''dhms'' = Some every"
    and "drop 5 h = [always ''severity'' (PStr (fst (severity_of level))),
          always ''risk_score'' (risk_score_of (block_get cx ''risk'') (snd (severity_of level))),
          always ''interval'' (PStr every), always ''from'' (PStr (''now-'' @ window)), always ''to'' (PStr ''now'')]"
proof -
  have "\<exists>level x every. alert_level (cx_block cx) (rule_response cx) = Inr level
    \<and> window_of (scheduling_of cx) = Inr x \<and> or_value_error (date_math (fst x) ''dhms'') = Inr every
    \<and> drop 5 h = [always ''severity'' (PStr (fst (severity_of level))),
          always ''risk_score'' (risk_score_of (block_get cx ''risk'') (snd (severity_of level))),
          always ''interval'' (PStr every), always ''from'' (PStr (''now-'' @ snd x)), always ''to'' (PStr ''now'')]"
    using assms unfolding head_fields_def split_beta
  proof (elim rbind_InrE, goal_cases)
    case (1 level x uuid description every)
    then show ?case by (intro exI [of _ level] exI [of _ x] exI [of _ every]) auto
  qed
  then show ?thesis using that by (metis or_value_error_Inr prod.collapse)
qed

text \<open>The value of a key of the first dictionary.\<close>

lemma head_value:
  assumes "\<And>key r. (key, r) \<in> set (h @ later_fields cx) \<Longrightarrow> r = Inr (dget body key)"
    and "drop n h = xs" and "always key v \<in> set xs"
  shows "dget body key = Some v"
  using assms(1) [of key "Inr (Some v)"] in_set_dropD [of "(key, Inr (Some v))" n h] assms(2,3)
  by (simp add: always_def)

text \<open>
  C19: The runs of a compiled rule leave no gap. The interval of its body is a duration the engine reads back as the
  seconds of the interval in the rule's schedule (five minutes when it has none), which are positive; its window
  reaches back exactly that interval and the seconds of the look-back of the schedule (one minute when it has
  none), and ends now.
\<close>

theorem compiled_window:
  assumes "compile_rule statuses rule uuid threat tenant = Inr body"
  shows "\<exists>cx i l every window run extra. context_of statuses rule uuid threat tenant = Inr cx
    \<and> get_default (scheduling_of cx) ''interval'' (PStr ''5m'') = Inr (PStr i)
    \<and> get_default (scheduling_of cx) ''lookback'' (PStr ''1m'') = Inr (PStr l)
    \<and> duration_seconds i False = Some run \<and> duration_seconds l True = Some extra \<and> 0 < run
    \<and> dget body ''interval'' = Some (PStr every) \<and> duration_seconds every False = Some run
    \<and> dget body ''from'' = Some (PStr (''now-'' @ window)) \<and> duration_seconds window False = Some (run + extra)
    \<and> dget body ''to'' = Some (PStr ''now'')"
proof -
  obtain cx h where cx: "context_of statuses rule uuid threat tenant = Inr cx" and h: "head_fields cx = Inr h"
    and get: "\<And>key r. (key, r) \<in> set (h @ later_fields cx) \<Longrightarrow> r = Inr (dget body key)"
    using assms by (rule compiled) blast
  obtain level interval window every where w: "window_of (scheduling_of cx) = Inr (interval, window)"
    and d: "date_math interval ''dhms'' = Some every"
    and parts: "drop 5 h = [always ''severity'' (PStr (fst (severity_of level))),
          always ''risk_score'' (risk_score_of (block_get cx ''risk'') (snd (severity_of level))),
          always ''interval'' (PStr every), always ''from'' (PStr (''now-'' @ window)), always ''to'' (PStr ''now'')]"
    using h by (rule head_form)
  obtain l run extra where schedule: "get_default (scheduling_of cx) ''interval'' (PStr ''5m'') = Inr (PStr interval)"
    "get_default (scheduling_of cx) ''lookback'' (PStr ''1m'') = Inr (PStr l)"
    and run: "duration_seconds interval False = Some run" and extra: "duration_seconds l True = Some extra"
    and f: "format_duration (run + extra) = Some window"
    using w by (auto simp: window_of_def rbind_Inr or_value_error_Inr text_of_Inr)
  have "duration_seconds every False = Some run" using date_math_reads(2) [OF run] d by auto
  moreover have "duration_seconds window False = Some (run + extra)"
    using format_reads [of "run + extra"] f date_math_reads(1) [OF run] by auto
  moreover have "dget body ''interval'' = Some (PStr every)" by (rule head_value [OF get parts]) simp_all
  moreover have "dget body ''from'' = Some (PStr (''now-'' @ window))" by (rule head_value [OF get parts]) simp_all
  moreover have "dget body ''to'' = Some (PStr ''now'')" by (rule head_value [OF get parts]) simp_all
  ultimately show ?thesis using date_math_reads(1) [OF run] cx schedule run extra by blast
qed

section \<open>Severity and risk\<close>

text \<open>\<open>_RISK_BANDS\<close> of \<open>validator.py\<close>: the scores a severity should have.\<close>

definition risk_bands :: "(string \<times> nat \<times> nat) list" where
  "risk_bands = [(''low'', 0, 21), (''medium'', 22, 47), (''high'', 48, 73), (''critical'', 74, 100)]"

definition in_band :: "string \<Rightarrow> int \<Rightarrow> bool" where
  "in_band severity score =
     (case map_of risk_bands severity of
        None \<Rightarrow> False | Some (low, high) \<Rightarrow> int low \<le> score \<and> score \<le> int high)"

lemma severity_norm_known: "map_of severity_norm s = Some l \<Longrightarrow> l \<in> set (map fst severity_table)"
  by (drule map_of_SomeD) (auto simp: severity_norm_def severity_table_def)

lemma alert_level_known:
  assumes "alert_level block response = Inr level"
  shows "level \<in> set (map fst severity_table)"
proof -
  obtain v where "(case v of
           PStr s \<Rightarrow> Inr (case map_of severity_norm (py_lower (py_strip s)) of
               None \<Rightarrow> ''Informational'' | Some l \<Rightarrow> l)
         | _ \<Rightarrow> attribute_error) = Inr level"
    using assms unfolding alert_level_def Let_def rbind_Inr by blast
  then have "\<exists>s. level = (case map_of severity_norm s of None \<Rightarrow> ''Informational'' | Some l \<Rightarrow> l)"
    by (cases v) (auto simp: attribute_error_def)
  then obtain s where "level = (case map_of severity_norm s of None \<Rightarrow> ''Informational'' | Some l \<Rightarrow> l)" by blast
  moreover have "''Informational'' \<in> set (map fst severity_table)" by (simp add: severity_table_def)
  ultimately show ?thesis using severity_norm_known by (cases "map_of severity_norm s") auto
qed

lemma severity_in_band:
  "level \<in> set (map fst severity_table) \<Longrightarrow>
     in_band (fst (severity_of level)) (int (snd (severity_of level)))
     \<and> 1 \<le> snd (severity_of level) \<and> snd (severity_of level) \<le> 99"
  by (auto simp: severity_table_def severity_of_def in_band_def risk_bands_def)

text \<open>
  A compiled rule has one of the engine's four severities, whatever the severity of its block or its
  response says; without a risk of its own its score is between 1 and 99 and in the band the validator
  expects for that severity, so the compiler never causes the advisory about the band.
\<close>

theorem compiled_severity:
  assumes "compile_rule statuses rule uuid threat tenant = Inr body"
  shows "\<exists>severity. dget body ''severity'' = Some (PStr severity) \<and> severity \<in> set (map fst risk_bands)
    \<and> (\<exists>cx. context_of statuses rule uuid threat tenant = Inr cx
        \<and> (\<not> given (cx_block cx) ''risk'' \<longrightarrow>
            (\<exists>score. dget body ''risk_score'' = Some (PInt score) \<and> in_band severity score \<and> 1 \<le> score \<and> score \<le> 99)))"
proof -
  obtain cx h where cx: "context_of statuses rule uuid threat tenant = Inr cx" and h: "head_fields cx = Inr h"
    and get: "\<And>key r. (key, r) \<in> set (h @ later_fields cx) \<Longrightarrow> r = Inr (dget body key)"
    using assms by (rule compiled) blast
  obtain level interval window every where a: "alert_level (cx_block cx) (rule_response cx) = Inr level"
    and parts: "drop 5 h = [always ''severity'' (PStr (fst (severity_of level))),
          always ''risk_score'' (risk_score_of (block_get cx ''risk'') (snd (severity_of level))),
          always ''interval'' (PStr every), always ''from'' (PStr (''now-'' @ window)), always ''to'' (PStr ''now'')]"
    using h by (rule head_form)
  note l = alert_level_known [OF a]
  note band = severity_in_band [OF l]
  have "fst (severity_of level) \<in> set (map fst risk_bands)"
    using l by (auto simp: severity_table_def severity_of_def risk_bands_def)
  moreover have "risk_score_of (block_get cx ''risk'') n = PInt (int n)" if "\<not> given (cx_block cx) ''risk''" for n
    using that by (simp add: risk_score_of_def block_get_def given_def)
  moreover have "dget body ''severity'' = Some (PStr (fst (severity_of level)))"
    by (rule head_value [OF get parts]) simp_all
  moreover have "dget body ''risk_score'' = Some (risk_score_of (block_get cx ''risk'') (snd (severity_of level)))"
    by (rule head_value [OF get parts]) simp_all
  ultimately show ?thesis using cx band by (intro exI [of _ "fst (severity_of level)"]) auto
qed

text \<open>
  A severity given as a block must have a mapping: \<open>severity: {default: High}\<close> is valid for the
  model, whose mapping is optional, but its dump has no \<open>mapping\<close> key and \<open>compile_rule\<close> reads it by
  subscript, so such a rule never compiles.
\<close>

theorem severity_without_mapping_fails:
  assumes "context_of statuses rule uuid threat tenant = Inr cx"
    and "dget_none (cx_block cx) ''severity'' = PDict d" and "dget d ''mapping'' = None"
  shows "\<exists>e. compile_rule statuses rule uuid threat tenant = Inl e"
proof (rule ccontr)
  assume "\<not> ?thesis"
  then obtain body where "compile_rule statuses rule uuid threat tenant = Inr body"
    by (cases "compile_rule statuses rule uuid threat tenant") auto
  then obtain cx' h where "context_of statuses rule uuid threat tenant = Inr cx'"
    and get': "\<And>key r. (key, r) \<in> set (h @ later_fields cx') \<Longrightarrow> r = Inr (dget body key)"
    by (rule compiled) blast
  then have "cx' = cx" using assms(1) by simp
  with get' have get: "\<And>key r. (key, r) \<in> set (h @ later_fields cx) \<Longrightarrow> r = Inr (dget body key)" by blast
  have "(''severity_mapping'', key_error) \<in> set (h @ later_fields cx)"
    using assms(2,3) by (simp add: later_fields_def override_mapping_fields_def Let_def block_get_def
        severity_mapping_def item_of_def key_error_def)
  from get [OF this] show False by (simp add: key_error_def)
qed

section \<open>Witnesses\<close>

text \<open>A rule with a level in its response, and one whose severity is a block without a mapping.\<close>

definition elastic_statuses :: "DeploymentStatus list" where
  "elastic_statuses = [\<lparr>status_name = ''PRODUCTION'', status_strategy = StrategyMember RELEASE\<rparr>]"

definition sample_elastic_dump :: pydict where
  "sample_elastic_dump =
     [(PStr ''type'', PStr ''threshold''), (PStr ''status'', PStr ''PRODUCTION''), (PStr ''query'', PStr ''a: b''),
      (PStr ''threshold'', jobj [(''value'', PInt 3), (''field'', PList [PStr ''user.name''])]),
      (PStr ''scheduling'', jobj [(''interval'', PStr ''PT1H''), (''lookback'', PStr ''30m'')]),
      (PStr ''tags'', PList [PStr ''edr'', PStr ''OpenTide''])]"

definition rule_with :: "pydict \<Rightarrow> pydict" where
  "rule_with block =
     [(PStr ''name'', PStr ''Rule''), (PStr ''metadata'', jobj [(''uuid'', PStr ''u''), (''author'', PStr ''me'')]),
      (PStr ''response'', jobj [(''alert_severity'', PStr ''high '')]),
      (PStr ''configurations'', jobj [(''elastic'', PDict block)])]"

definition sample_body :: pydict where
  "sample_body =
     [(PStr ''rule_id'', PStr ''u''), (PStr ''type'', PStr ''threshold''), (PStr ''name'', PStr ''Rule''),
      (PStr ''description'', PStr []), (PStr ''enabled'', PBool True), (PStr ''severity'', PStr ''high''),
      (PStr ''risk_score'', PInt 73), (PStr ''interval'', PStr ''1h''), (PStr ''from'', PStr ''now-90m''),
      (PStr ''to'', PStr ''now''), (PStr ''language'', PStr ''kuery''), (PStr ''query'', PStr ''a: b''),
      (PStr ''index'', PList [PStr ''logs-*'']), (PStr ''threshold'', jobj [(''field'', PList [PStr ''user.name'']), (''value'', PInt 3)]),
      (PStr ''tags'', PList [PStr ''OpenTide'', PStr ''edr'']), (PStr ''author'', PList [PStr ''me''])]"

definition sample_setup :: ElasticSetup where
  "sample_setup =
     \<lparr>es_url = PStr [], es_elasticsearch_url = PStr [], es_space = PStr ''default'', es_index = PList [PStr ''logs-*''],
      es_tags = PNone, es_suppression = PBool True\<rparr>"

definition sample_compiling :: Compiling where
  "sample_compiling =
     \<lparr>cx_rule = rule_with sample_elastic_dump, cx_block = sample_elastic_dump, cx_setup = setup_of (TenantModel sample_setup),
      cx_strategy = RELEASE, cx_uuid = PStr ''u'', cx_threat = []\<rparr>"

lemma sample_context:
  "context_of elastic_statuses (rule_with sample_elastic_dump) (PStr ''u'') [] (TenantModel sample_setup) = Inr sample_compiling"
  by code_simp

lemma sample_durations: "duration_seconds ''PT1H'' False = Some 3600" "duration_seconds ''30m'' True = Some 1800"
  by code_simp+

lemma sample_numbers: "nat_str 90 = ''90''" "nat_str (Suc 0) = ''1''"
  by code_simp+

lemma sample_window: "window_of (scheduling_of sample_compiling) = Inr (''PT1H'', ''90m'')"
proof -
  have "scheduling_of sample_compiling = jobj [(''interval'', PStr ''PT1H''), (''lookback'', PStr ''30m'')]" by code_simp
  then show ?thesis
    by (simp add: window_of_def get_default_def jobj_def dget_def text_of_def sample_durations or_value_error_def
        format_duration_def amount_unit_def sample_numbers)
qed

lemma sample_level: "alert_level sample_elastic_dump (jobj [(''alert_severity'', PStr ''high '')]) = Inr ''High''"
  by code_simp

lemma sample_gets:
  "block_get sample_compiling key = dget_none sample_elastic_dump key" "cx_setup sample_compiling = setup_of (TenantModel sample_setup)"
  "cx_type sample_compiling = PStr ''threshold''" "cx_threat sample_compiling = []"
  "cx_block sample_compiling = sample_elastic_dump" "cx_strategy sample_compiling = RELEASE"
  "cx_rule sample_compiling = rule_with sample_elastic_dump"
  by (simp_all add: sample_compiling_def block_get_def cx_type_def sample_elastic_dump_def dget_def)

lemma sample_rule_gets:
  "rule_metadata sample_compiling = jobj [(''uuid'', PStr ''u''), (''author'', PStr ''me'')]"
  "rule_response sample_compiling = jobj [(''alert_severity'', PStr ''high '')]"
  "dget_none (rule_with sample_elastic_dump) ''description'' = PNone"
  "dget_none (rule_with sample_elastic_dump) ''references'' = PNone"
  "dget_none (rule_with sample_elastic_dump) ''name'' = PStr ''Rule''"
  by (simp_all add: rule_metadata_def rule_response_def sample_gets rule_with_def dget_none_def dget_def or_obj_def jobj_def)

lemma sample_head:
  "head_fields sample_compiling = Inr (map (\<lambda>(k, v). (case k of PStr s \<Rightarrow> s, Inr (Some v))) (take 10 sample_body))"
proof -
  have "date_math ''PT1H'' ''dhms'' = Some ''1h''"
    by (simp add: date_math_def elastic_duration_def sample_durations amount_unit_def sample_numbers)
  moreover have "get_of (rule_metadata sample_compiling) ''uuid'' = Inr (PStr ''u'')" by code_simp
  moreover have "dget_none sample_elastic_dump ''name'' = PNone" "dget_none sample_elastic_dump ''risk'' = PNone"
    "stripped (PStr []) = Inr (PStr [])" "severity_of ''High'' = (''high'', 73)" by code_simp+
  ultimately show ?thesis
    by (simp add: head_fields_def sample_level sample_window sample_rule_gets
        py_or_def or_value_error_def sample_gets always_def sample_body_def risk_score_of_def)
qed

lemmas field_defs = later_fields_def language_field_def query_field_def source_fields_def
      type_fields_def eql_fields_def threat_match_fields_def machine_learning_fields_def
      override_mapping_fields_def override_fields_def action_fields_def timeline_field_def suppression_field_def
      alert_fields_def closing_fields_def exceptions_field_def authors_field_def references_field_def
      note_field_def

lemma sample_later:
  "assemble (later_fields sample_compiling) = Inr (map (\<lambda>(k, v). (case k of PStr s \<Rightarrow> s, v)) (drop 10 sample_body))"
proof -
  have "stripped (PStr ''a: b'') = Inr (PStr ''a: b'')" by code_simp
  moreover have "tags_value sample_compiling = Inr (PList [PStr ''OpenTide'', PStr ''edr''])" by code_simp
  ultimately show ?thesis
    by (simp add: field_defs assemble_Cons is_type_def no_source_def sample_gets sample_rule_gets
      when_field_def got_field_def is_given_def given_def dget_none_def dget_def sample_elastic_dump_def jobj_def
      get_of_def get_default_def or_obj_def or_list_def py_or_def item_of_def index_value_def threshold_object_def
      copy_list_def items_of_def severity_mapping_def actions_of_def guide_of_def scheduling_of_def procedure_analysis_def
      unique_items_def hashable_def from_keys_def sample_body_def rule_with_def
      setup_of_def sample_setup_def)
qed

lemma sample_compiles:
  "compile_rule elastic_statuses (rule_with sample_elastic_dump) (PStr ''u'') [] (TenantModel sample_setup) = Inr sample_body"
proof -
  have "assemble (always k v # fs) = rbind (assemble fs) (\<lambda>kvs. Inr ((k, v) # kvs))" for k v fs
    by (simp add: always_def assemble_Cons)
  then show ?thesis
    by (simp add: compile_rule_def sample_context body_of_eq sample_head sample_later sample_body_def assemble_Cons)
qed

theorem compiled_window_witness:
  "\<exists>i l run extra. get_default (scheduling_of sample_compiling) ''interval'' (PStr ''5m'') = Inr (PStr i)
    \<and> get_default (scheduling_of sample_compiling) ''lookback'' (PStr ''1m'') = Inr (PStr l)
    \<and> duration_seconds i False = Some run \<and> duration_seconds l True = Some extra
    \<and> duration_seconds ''1h'' False = Some run \<and> duration_seconds ''90m'' False = Some (run + extra)"
proof -
  have "dget sample_body ''interval'' = Some (PStr ''1h'')" "dget sample_body ''from'' = Some (PStr (''now-'' @ ''90m''))"
    by code_simp+
  with compiled_window [OF sample_compiles] show ?thesis unfolding sample_context by (auto dest: sym)
qed

theorem compiled_severity_witness: "in_band ''high'' 73"
proof -
  have "\<not> given sample_elastic_dump ''risk''" by code_simp
  moreover have "dget sample_body ''severity'' = Some (PStr ''high'')" "dget sample_body ''risk_score'' = Some (PInt 73)"
    by code_simp+
  ultimately show ?thesis using compiled_severity [OF sample_compiles] by (auto simp: sample_context sample_compiling_def)
qed

definition unmapped_block :: pydict where
  "unmapped_block = (PStr ''severity'', jobj [(''default'', PStr ''High'')]) # sample_elastic_dump"

theorem severity_without_mapping_fails_witness:
  "\<exists>e. compile_rule elastic_statuses (rule_with unmapped_block) (PStr []) [] NoTenant = Inl e"
proof -
  have "context_of elastic_statuses (rule_with unmapped_block) (PStr []) [] NoTenant
    = Inr \<lparr>cx_rule = rule_with unmapped_block, cx_block = unmapped_block, cx_setup = PDict [], cx_strategy = RELEASE,
           cx_uuid = PStr [], cx_threat = []\<rparr>"
    by code_simp
  from severity_without_mapping_fails [OF this, of "[(PStr ''default'', PStr ''High'')]"] show ?thesis
    by (simp add: dget_none_def dget_def unmapped_block_def jobj_def)
qed
end
