(* ===== verification/Elastic_Pipeline.thy ===== *)
theory Elastic_Pipeline
  imports Elastic_Deploy Elastic_Compile Elastic_Query
begin

text \<open>
  The deployer of \<open>platforms/elastic/deployer.py\<close> with the compiler, the threat array and the query text
  it calls put in for its parameters: what reaches the detection engine is what \<open>compile_rule\<close> makes of
  the rule.
\<close>

section \<open>The code the deployer calls\<close>

text \<open>The rule as the compiler reads it: its dump and the techniques it detects; the vocabulary is loaded.\<close>

record ElasticInput =
  ei_statuses :: "DeploymentStatus list"
  ei_vocab :: AttackVocab
  ei_dump :: "ElasticMdr \<Rightarrow> pydict"
  ei_techniques :: "ElasticMdr \<Rightarrow> string list"
  ei_setup :: "ElasticTenant \<Rightarrow> ElasticSetup"

definition compile_for :: "ElasticInput \<Rightarrow> ElasticMdr \<Rightarrow> ElasticTenant \<Rightarrow> pydict compiling" where
  "compile_for inp rule tenant =
     compile_rule (ei_statuses inp) (ei_dump inp rule) (PStr (ref_uuid rule))
       (resolve_elastic_threat (ei_vocab inp) (ei_techniques inp rule)) (TenantModel (ei_setup inp tenant))"

definition elastic_code :: "ElasticInput \<Rightarrow> ElasticCode" where
  "elastic_code inp =
     \<lparr>ec_compile = compile_for inp,
      ec_non_enterprise = (\<lambda>rule. find_non_enterprise_techniques (ei_vocab inp) (ei_techniques inp rule) \<noteq> []),
      ec_esql_sources = esql_sources\<rparr>"

text \<open>A dump and a rule have one UUID.\<close>

definition dump_uuid :: "ElasticInput \<Rightarrow> ElasticMdr \<Rightarrow> bool" where
  "dump_uuid inp rule = (get_of (or_obj (dget_none (ei_dump inp rule) ''metadata'')) ''uuid'' \<in> {Inr PNone, Inr (PStr (ref_uuid rule))}
     \<and> ref_uuid rule \<noteq> [])"

section \<open>What is written\<close>

lemma compiled_rule_id:
  assumes "compile_for inp rule tenant = Inr body" and "dump_uuid inp rule"
  shows "dget body ''rule_id'' = Some (PStr (ref_uuid rule))"
proof -
  obtain cx h where cx: "context_of (ei_statuses inp) (ei_dump inp rule) (PStr (ref_uuid rule))
      (resolve_elastic_threat (ei_vocab inp) (ei_techniques inp rule)) (TenantModel (ei_setup inp tenant)) = Inr cx"
    and h: "head_fields cx = Inr h"
    and get: "\<And>key r. (key, r) \<in> set (h @ later_fields cx) \<Longrightarrow> r = Inr (dget body key)"
    using assms(1) unfolding compile_for_def by (rule compiled) blast
  have ctx: "cx_rule cx = ei_dump inp rule" "cx_uuid cx = PStr (ref_uuid rule)"
    using cx unfolding context_of_def
    by (elim rbind_InrE; auto simp: attribute_error_def split: pyval.splits elim!: rbind_InrE)+
  obtain uuid where uuid: "get_of (rule_metadata cx) ''uuid'' = Inr uuid"
    and mem: "always ''rule_id'' (py_or uuid (cx_uuid cx)) \<in> set h"
    using h unfolding head_fields_def split_beta by (elim rbind_InrE) auto
  have "py_or uuid (cx_uuid cx) = PStr (ref_uuid rule)"
    using assms(2) uuid by (auto simp: dump_uuid_def rule_metadata_def ctx py_or_def)
  with get [of "''rule_id''" "Inr (Some (PStr (ref_uuid rule)))"] mem show ?thesis by (auto simp: always_def)
qed

lemma compiled_has_type:
  assumes "compile_for inp rule tenant = Inr body"
  shows "dget body ''type'' \<noteq> None"
proof -
  obtain cx h where h: "head_fields cx = Inr h"
    and get: "\<And>key r. (key, r) \<in> set (h @ later_fields cx) \<Longrightarrow> r = Inr (dget body key)"
    using assms unfolding compile_for_def by (rule compiled) blast
  have "always ''type'' (cx_type cx) \<in> set h"
    using h unfolding head_fields_def split_beta by (elim rbind_InrE) auto
  with get [of "''type''" "Inr (Some (cx_type cx))"] have "Some (cx_type cx) = dget body ''type''" by (simp add: always_def)
  then show ?thesis by (metis option.distinct(1))
qed

text \<open>A compiled body is no prebuilt rule.\<close>

lemma not_server_owned:
  assumes "compile_for inp rule tenant = Inr body" and "key \<in> set server_owned_fields"
  shows "dget body key = None"
proof -
  obtain kvs cx where kvs: "body_of cx = Inr kvs" and body: "body = map (\<lambda>(key, v). (PStr key, v)) kvs"
    using assms(1) unfolding compile_for_def by (rule compiled) blast
  have "key \<notin> set (map fst kvs)"
    using subseq_set [OF body_keys [OF kvs]] api_names(2) assms(2) by auto
  then show ?thesis using dom_body [of kvs key] by (simp add: body dget_body)
qed

lemma compiled_not_prebuilt:
  assumes "compile_for inp rule tenant = Inr body"
  shows "\<not> is_prebuilt_rule (AList.update (PStr ''enabled'') v body)"
proof -
  have "dget body ''immutable'' = None" "dget body ''rule_source'' = None"
    using not_server_owned [OF assms] by (simp_all add: server_owned_fields_def)
  then show ?thesis by (simp add: is_prebuilt_rule_def)
qed

text \<open>
  What the engine has of a rule: every field that was compiled, and of the fields that are not, the eleven that the
  deployer keeps, as the engine had them before.
\<close>

definition brought_to :: "pydict \<Rightarrow> pydict option \<Rightarrow> pydict \<Rightarrow> bool" where
  "brought_to compiled before now \<longleftrightarrow>
     (\<forall>k v. dget compiled k = Some v \<longrightarrow> dget now k = Some v)
     \<and> (\<forall>old k v. before = Some old \<and> dget old k = Some v \<and> dget compiled k = None
          \<and> k \<in> {''actions'', ''exceptions_list'', ''response_actions'', ''timeline_id'', ''timeline_title'',
                  ''concurrent_searches'', ''items_per_search'', ''meta'', ''output_index'', ''namespace'', ''throttle''}
          \<longrightarrow> dget now k = Some v)"

lemma has_fields_brought:
  "has_fields (deployed_body before compiled) now \<Longrightarrow> brought_to compiled before now"
  by (cases before) (auto simp: brought_to_def has_fields_def deployed_body_def dget_preserve preserved_fields_def)

text \<open>
  C10: Compiling a rule and deploying it brings the detection engine to the rule, once and for all: for every rule
  that compiles and whose dump has its UUID, on any engine that takes creates, deletes and updates that keep the
  type, and whatever it held under the rule's UUID but a prebuilt rule, also one of another type, the
  write ends without an error; the engine then has every field that was compiled, and the eleven fields that
  the deployer keeps as it had them where the rule does not set them; no other rule changed. Deploying the
  rule again is one update in place, and leaves all of those fields as they are.
\<close>

theorem compiled_rule_converges:
  fixes strategy :: StatusStrategy
  assumes "compile_for inp rule tenant = Inr body" and "dump_uuid inp rule" and "detection_engine vendor held"
    and "case held (dr_calls s) (ref_uuid rule) of None \<Rightarrow> True | Some remote \<Rightarrow> \<not> is_prebuilt_rule remote"
  defines "compiled \<equiv> AList.update (PStr ''enabled'') (PBool (strategy \<noteq> DISABLEMENT)) body"
    and "run \<equiv> andthen (compiled_body (elastic_code inp) tenant rule strategy)
          (upsert_rule vendor (et_name tenant) (ref_uuid rule))"
  shows "\<exists>s' now s'' again. run s = (Inr (), s')
    \<and> held (dr_calls s') = (held (dr_calls s))(ref_uuid rule \<mapsto> now)
    \<and> brought_to compiled (held (dr_calls s) (ref_uuid rule)) now
    \<and> run s' = (Inr (), s'')
    \<and> dr_calls s'' = dr_calls s' @ [KbGetRule (ref_uuid rule), KbUpdateRule (preserve now compiled)]
    \<and> held (dr_calls s'') = (held (dr_calls s'))(ref_uuid rule \<mapsto> again)
    \<and> brought_to compiled (held (dr_calls s) (ref_uuid rule)) again \<and> brought_to compiled (Some now) again"
proof -
  let ?upsert = "upsert_rule vendor (et_name tenant) (ref_uuid rule) compiled"
  have rid: "dget compiled ''rule_id'' = Some (PStr (ref_uuid rule))"
    using compiled_rule_id [OF assms(1,2)] by (simp add: compiled_def)
  have np: "\<not> is_prebuilt_rule compiled" unfolding compiled_def by (rule compiled_not_prebuilt [OF assms(1)])
  have kind: "dget compiled ''type'' \<noteq> None" using compiled_has_type [OF assms(1)] by (simp add: compiled_def)
  have step: "\<exists>s2. dr_calls s2 = dr_calls s1 \<and> run s1 = ?upsert s2" for s1
  proof -
    let ?s2 = "if ec_non_enterprise (elastic_code inp) rule
               then s1\<lparr>dr_world := set_env warning_flag (dr_world s1)\<rparr> else s1"
    have "compiled_body (elastic_code inp) tenant rule strategy s1 = (Inr compiled, ?s2)"
      by (simp add: compiled_body_def elastic_code_def assms(1) andthen_def ret_def on_world_def action_simps
          update_state_def compiled_def)
    then show ?thesis by (intro exI [of _ ?s2]) (simp add: andthen_def run_def)
  qed
  let ?sent = "deployed_body (held (dr_calls s) (ref_uuid rule)) compiled"
  obtain s2 where s2: "dr_calls s2 = dr_calls s" "run s = ?upsert s2" using step by blast
  obtain s' now where first: "run s = (Inr (), s')" "held (dr_calls s') = (held (dr_calls s))(ref_uuid rule \<mapsto> now)"
    "has_fields ?sent now" "\<not> is_prebuilt_rule now"
    using upsert_converges [OF assms(3) rid np, of s2 "et_name tenant"] assms(4) by (auto simp: s2)
  obtain s3 where s3: "dr_calls s3 = dr_calls s'" "run s' = ?upsert s3" using step by blast
  have now: "held (dr_calls s3) (ref_uuid rule) = Some now" by (simp add: s3(1) first(2))
  have "dget_none now ''type'' = dget_none (preserve now compiled) ''type''"
    using kind first(3) has_fields_deployed [of compiled "held (dr_calls s) (ref_uuid rule)"]
    by (auto simp: has_fields_def dget_none_def dget_preserve)
  then obtain s'' again where second: "run s' = (Inr (), s'')"
    "dr_calls s'' = dr_calls s' @ [KbGetRule (ref_uuid rule), KbUpdateRule (preserve now compiled)]"
    "held (dr_calls s'') = (held (dr_calls s'))(ref_uuid rule \<mapsto> again)" "has_fields (deployed_body (Some now) compiled) again"
    using upsert_converges [OF assms(3) rid np, of s3 "et_name tenant", unfolded now] first(4)
    by (auto simp: s3 deployed_body_def)
  have "has_fields ?sent again"
    by (rule has_fields_trans [OF deployed_again [OF first(3)] second(4)])
  then show ?thesis using first second has_fields_brought by blast
qed

section \<open>Witness\<close>

definition no_vocab :: AttackVocab where
  "no_vocab = \<lparr>av_entry = Map.empty, av_stages = (\<lambda>_. PNone)\<rparr>"

definition sample_input :: ElasticInput where
  "sample_input =
     \<lparr>ei_statuses = elastic_statuses, ei_vocab = no_vocab, ei_dump = (\<lambda>_. rule_with sample_elastic_dump),
      ei_techniques = (\<lambda>_. []), ei_setup = (\<lambda>_. sample_setup)\<rparr>"

lemma sample_compile_for: "ref_uuid rule = ''u'' \<Longrightarrow> compile_for sample_input rule tenant = Inr sample_body"
proof -
  have "resolve_elastic_threat no_vocab [] = []" by code_simp
  then show "ref_uuid rule = ''u'' \<Longrightarrow> ?thesis"
    using sample_compiles by (simp add: compile_for_def sample_input_def)
qed

definition sample_store :: rule_store where
  "sample_store = Map.empty(''u'' \<mapsto> sample_remote)"

theorem compiled_rule_converges_witness:
  "\<exists>s' now. andthen (compiled_body (elastic_code sample_input) sample_elastic_tenant sample_elastic_mdr RELEASE)
        (upsert_rule (store_vendor sample_store (\<lambda>_. plain_response 200 None)) ''Prod'' ''u'') empty_run
      = (Inr (), s')
    \<and> store_after sample_store (dr_calls s') = sample_store(''u'' \<mapsto> now)
    \<and> dget sample_remote ''type'' = Some (PStr ''eql'') \<and> dget now ''type'' = Some (PStr ''threshold'')
    \<and> dget now ''enabled'' = Some (PBool True) \<and> dget now ''meta'' = Some (PStr ''m'')"
proof -
  have u: "ref_uuid sample_elastic_mdr = ''u''" "et_name sample_elastic_tenant = ''Prod''"
    by (simp_all add: sample_elastic_mdr_def sample_elastic_tenant_def)
  have start: "store_after sample_store (dr_calls empty_run) = sample_store" "sample_store ''u'' = Some sample_remote"
    by (simp_all add: store_after_def empty_run_def sample_store_def)
  have dump: "dump_uuid sample_input sample_elastic_mdr"
    by (simp add: dump_uuid_def u sample_input_def rule_with_def or_obj_def jobj_def get_of_def get_default_def dget_none_def)
  have old: "case store_after sample_store (dr_calls empty_run) (ref_uuid sample_elastic_mdr) of
      None \<Rightarrow> True | Some remote \<Rightarrow> \<not> is_prebuilt_rule remote"
    by (simp add: start u is_prebuilt_rule_def sample_remote_def)
  have fields: "dget sample_body ''type'' = Some (PStr ''threshold'')" "dget sample_body ''meta'' = None"
    "dget sample_remote ''meta'' = Some (PStr ''m'')" "dget sample_remote ''type'' = Some (PStr ''eql'')"
    by (simp_all add: dget_def sample_body_def sample_remote_def)
  note converged = compiled_rule_converges [OF sample_compile_for [OF u(1)] dump store_engine old, where strategy = RELEASE]
  obtain s' now where run:
    "andthen (compiled_body (elastic_code sample_input) sample_elastic_tenant sample_elastic_mdr RELEASE)
        (upsert_rule (store_vendor sample_store (\<lambda>_. plain_response 200 None)) ''Prod'' ''u'') empty_run = (Inr (), s')"
    "store_after sample_store (dr_calls s') = sample_store(''u'' \<mapsto> now)"
    and now: "brought_to (AList.update (PStr ''enabled'') (PBool True) sample_body) (Some sample_remote) now"
    using converged [of sample_elastic_tenant "\<lambda>_. plain_response 200 None"] by (auto simp: start u)
  let ?sent = "AList.update (PStr ''enabled'') (PBool True) sample_body"
  have "dget ?sent ''type'' = Some (PStr ''threshold'')" "dget ?sent ''enabled'' = Some (PBool True)" "dget ?sent ''meta'' = None"
    by (simp_all add: fields)
  then have "dget now ''type'' = Some (PStr ''threshold'') \<and> dget now ''enabled'' = Some (PBool True) \<and> dget now ''meta'' = Some (PStr ''m'')"
    using now fields(3) by (simp add: brought_to_def)
  with run fields(4) show ?thesis by (intro exI [of _ s'] exI [of _ now]) simp
qed

end
