(* ===== verification/Migrate_State.thy ===== *)
theory Migrate_State
  imports Deploy_State Effects Promotion "HOL-Library.Sublist"
begin

text \<open>
  \<open>cli/services/migrate_state.py\<close>: vendor ids found on rule files are written to the deployment
  state shards and then removed from the files, line by line. The node tree of \<open>yaml.compose\<close>
  (with its line marks), the loaded value and the construction of a single node are parameters;
  files are bytes, the shards are the directory of \<open>Deploy_State\<close>. A \<open>wr\<close> argument says
  which writes the operating system lets happen.
\<close>

section \<open>Nodes with line marks\<close>

datatype mnode =
    MScalar string nat nat nat
  | MMapping bool nat nat "(mnode \<times> mnode) list"
  | MSequence bool nat nat "mnode list"

fun start_line :: "mnode \<Rightarrow> nat" where
  "start_line (MScalar value a e c) = a"
| "start_line (MMapping flow a e items) = a"
| "start_line (MSequence flow a e nodes) = a"

fun scalar_value :: "mnode \<Rightarrow> string option" where
  "scalar_value (MScalar value a e c) = Some value"
| "scalar_value _ = None"

fun mapping_items :: "mnode \<Rightarrow> (mnode \<times> mnode) list option" where
  "mapping_items (MMapping flow a e items) = Some items"
| "mapping_items _ = None"

text \<open>\<open>my_construct\<close> is \<open>None\<close> when the constructor raises, \<open>my_compose\<close> and \<open>my_load\<close> when the text
  does not parse; an empty text composes to no node.\<close>

record MigrationYaml =
  my_compose :: "string \<Rightarrow> mnode option option"
  my_load :: "string \<Rightarrow> lval option"
  my_construct :: "mnode \<Rightarrow> pyval option"
  my_key_text :: "mnode \<Rightarrow> string"

definition mapping_get :: "mnode \<Rightarrow> string \<Rightarrow> mnode option" where
  "mapping_get node key =
     (case mapping_items node of
        None \<Rightarrow> None
      | Some items \<Rightarrow> map_option snd (find (\<lambda>(k, v). scalar_value k = Some key) items))"

lemma mnode_size_pair [termination_simp]:
  "(k, v) \<in> set items \<Longrightarrow> size k < Suc (size_list (size_prod size size) items)"
  "(k, v) \<in> set items \<Longrightarrow> size v < Suc (size_list (size_prod size size) items)"
  by (induction items) auto

text \<open>The last line a node occupies, from 0.\<close>

fun last_line :: "mnode \<Rightarrow> nat" where
  "last_line (MScalar value a e c) = (if c = 0 \<and> a < e then e - 1 else e)"
| "last_line (MMapping flow a e items) =
     (if flow \<or> items = [] then e else foldr (\<lambda>(k, v) m. max m (max (last_line k) (last_line v))) items 0)"
| "last_line (MSequence flow a e nodes) =
     (if flow \<or> nodes = [] then e else foldr (\<lambda>n m. max m (last_line n)) nodes 0)"

section \<open>What one file needs moved\<close>

datatype migrate_code =
    Shape
  | Conflict
  | Yaml_parse
  | Invalid_uuid
  | Shard_error state_code
  | Write_failed

datatype migrate_crash = Constructor_error

record Binding =
  bd_platform :: string
  bd_tenant :: string
  bd_value :: pyval
  bd_stored :: string

record RuleIds =
  ri_uuid :: "string option"
  ri_bindings :: "Binding list"
  ri_spans :: "(nat \<times> nat) list"
  ri_removed :: "(string \<times> string) list"
  ri_errors :: "migrate_code list"

definition no_ids :: RuleIds where
  "no_ids = \<lparr>ri_uuid = None, ri_bindings = [], ri_spans = [], ri_removed = [], ri_errors = []\<rparr>"

definition fail :: "migrate_code \<Rightarrow> RuleIds \<Rightarrow> RuleIds" where
  "fail code rule = rule\<lparr>ri_errors := ri_errors rule @ [code]\<rparr>"

type_synonym collected = "RuleIds \<times> (string \<times> string) list"

definition bind_id :: "string \<Rightarrow> pyval \<Rightarrow> pyval \<Rightarrow> collected \<Rightarrow> collected" where
  "bind_id platform tenant value acc =
     (let (rule, seen) = acc in
      case tenant of
        PStr t \<Rightarrow>
          if py_strip t = [] then (fail Shape rule, seen)
          else (case normalise_external_id platform value of
              Inl e \<Rightarrow> (fail (Shard_error e) rule, seen)
            | Inr stored \<Rightarrow>
                if (platform, py_strip t) \<in> set seen then (fail Conflict rule, seen)
                else (rule\<lparr>ri_bindings := ri_bindings rule @
                        [\<lparr>bd_platform = platform, bd_tenant = py_strip t, bd_value = value, bd_stored = stored\<rparr>]\<rparr>,
                      (platform, py_strip t) # seen))
      | _ \<Rightarrow> (fail Shape rule, seen))"

definition construct :: "MigrationYaml \<Rightarrow> mnode \<Rightarrow> migrate_crash + pyval" where
  "construct yaml node = (case my_construct yaml node of None \<Rightarrow> Inl Constructor_error | Some v \<Rightarrow> Inr v)"

text \<open>One entry of a \<open>rule_id\<close> mapping, one key of a platform block, one platform block.\<close>

definition collect_entry ::
  "MigrationYaml \<Rightarrow> string \<Rightarrow> collected \<Rightarrow> mnode \<times> mnode \<Rightarrow> migrate_crash + collected" where
  "collect_entry yaml platform acc item =
     (let (tenant_node, id_node) = item in
      if scalar_value id_node = None then Inr (fail Shape (fst acc), snd acc)
      else rbind (construct yaml tenant_node) (\<lambda>tenant.
           rbind (construct yaml id_node) (\<lambda>value. Inr (bind_id platform tenant value acc))))"

definition note_key :: "string \<Rightarrow> string \<Rightarrow> mnode \<Rightarrow> mnode \<Rightarrow> RuleIds \<Rightarrow> RuleIds" where
  "note_key platform key key_node value_node rule =
     rule\<lparr>ri_removed := ri_removed rule @ [(platform, key)],
          ri_spans := ri_spans rule @ [(start_line key_node, last_line value_node)]\<rparr>"

definition collect_key ::
  "MigrationYaml \<Rightarrow> string \<Rightarrow> collected \<Rightarrow> mnode \<times> mnode \<Rightarrow> migrate_crash + collected" where
  "collect_key yaml platform acc item =
     (let (key_node, value_node) = item in
      case scalar_value key_node of
        None \<Rightarrow> Inr acc
      | Some key \<Rightarrow>
          if \<not> is_legacy_external_id_key (PStr key) then Inr acc
          else
            let acc' = (note_key platform key key_node value_node (fst acc), snd acc) in
            if key \<in> set legacy_map_keys
            then (case mapping_items value_node of
                    None \<Rightarrow> Inr (fail Shape (fst acc'), snd acc')
                  | Some items \<Rightarrow> rfold (collect_entry yaml platform) acc' items)
            else if scalar_value value_node = None then Inr (fail Shape (fst acc'), snd acc')
            else rbind (construct yaml value_node) (\<lambda>value.
                   Inr (bind_id platform (PStr (drop (length legacy_tenant_prefix) key)) value acc')))"

definition collect_block :: "MigrationYaml \<Rightarrow> collected \<Rightarrow> mnode \<times> mnode \<Rightarrow> migrate_crash + collected" where
  "collect_block yaml acc item =
     (let (platform_node, block) = item;
          platform = (case scalar_value platform_node of Some p \<Rightarrow> p | None \<Rightarrow> my_key_text yaml platform_node)
      in case mapping_items block of
           None \<Rightarrow> Inr acc
         | Some items \<Rightarrow> rfold (collect_key yaml platform) acc items)"

definition collect :: "MigrationYaml \<Rightarrow> RuleIds \<Rightarrow> mnode \<Rightarrow> migrate_crash + RuleIds" where
  "collect yaml rule root =
     (case mapping_get root ''configurations'' of
        None \<Rightarrow> Inr rule
      | Some configurations \<Rightarrow>
          (case mapping_items configurations of
             None \<Rightarrow> Inr rule
           | Some items \<Rightarrow> rbind (rfold (collect_block yaml) (rule, []) items) (\<lambda>acc. Inr (fst acc))))"

section \<open>The edited text\<close>

text \<open>\<open>re.split('(?<=\n)', text)\<close>: every line keeps its line feed.\<close>

fun keep_lines :: "string \<Rightarrow> string \<Rightarrow> string list" where
  "keep_lines acc [] = [rev acc]"
| "keep_lines acc (c # cs) =
     (if c = CHR 0x0A then rev (c # acc) # keep_lines [] cs else keep_lines (c # acc) cs)"

definition strip_lines :: "string \<Rightarrow> (nat \<times> nat) list \<Rightarrow> string" where
  "strip_lines text spans =
     concat (map snd (filter (\<lambda>(number, line). \<not> list_ex (\<lambda>(a, e). a \<le> number \<and> number \<le> e) spans)
       (enumerate 0 (keep_lines [] text))))"

text \<open>The loaded document with the keys deleted from the platform blocks; a block that an alias names elsewhere
  is the same object there (\<open>lval\<close> of \<open>Promotion\<close>).\<close>

fun without_ids :: "nat list \<Rightarrow> lval \<Rightarrow> lval" where
  "without_ids blocks (LAtom v) = LAtom v"
| "without_ids blocks (LSeq i xs) = LSeq i (map (without_ids blocks) xs)"
| "without_ids blocks (LMap i kvs) =
     (let kvs' = map (\<lambda>(k, v). (k, without_ids blocks v)) kvs
      in LMap i (if i \<in> set blocks then filter (\<lambda>(k, v). \<not> is_legacy_external_id_key k) kvs' else kvs'))"

definition platform_blocks :: "(pyval \<times> lval) list \<Rightarrow> nat list" where
  "platform_blocks configurations = concat (map (\<lambda>(p, block). case block of LMap i kvs \<Rightarrow> [i] | _ \<Rightarrow> []) configurations)"

definition expected_document :: "lval \<Rightarrow> lval" where
  "expected_document original =
     (case child_at ''configurations'' original of
        Some (LMap i configurations) \<Rightarrow> without_ids (platform_blocks configurations) original
      | _ \<Rightarrow> original)"

text \<open>A carriage return without its line feed, or a Unicode line break.\<close>

fun unsupported_breaks :: "string \<Rightarrow> bool" where
  "unsupported_breaks [] = False"
| "unsupported_breaks (c # cs) =
     (c = CHR 0x85 \<or> (c = CHR 0x0D \<and> \<not> starts_with [CHR 0x0A] cs) \<or> unsupported_breaks cs)"

definition shard_bindings :: "RuleIds \<Rightarrow> Binding list" where
  "shard_bindings rule = filter (\<lambda>b. bd_platform b \<in> set migrated_platforms) (ri_bindings rule)"

definition with_uuid :: "pyval \<Rightarrow> RuleIds \<Rightarrow> RuleIds" where
  "with_uuid raw_uuid rule =
     (if shard_bindings rule \<noteq> []
      then (case shard_path raw_uuid of
              Inl _ \<Rightarrow> fail Invalid_uuid rule
            | Inr path \<Rightarrow> rule\<lparr>ri_uuid := json_stem path\<rparr>)
      else if raw_uuid \<noteq> PNone then rule\<lparr>ri_uuid := Some (py_str raw_uuid)\<rparr>
      else rule)"

definition raw_uuid_of :: "MigrationYaml \<Rightarrow> mnode \<Rightarrow> migrate_crash + pyval" where
  "raw_uuid_of yaml root =
     (case mapping_get root ''metadata'' of
        None \<Rightarrow> Inr PNone
      | Some metadata \<Rightarrow>
          (case mapping_get metadata ''uuid'' of
             Some (MScalar value a e c) \<Rightarrow> construct yaml (MScalar value a e c)
           | _ \<Rightarrow> Inr PNone))"

definition edit_rule :: "MigrationYaml \<Rightarrow> string \<Rightarrow> RuleIds \<Rightarrow> RuleIds \<times> string option" where
  "edit_rule yaml text rule =
     (if ri_errors rule \<noteq> [] then (rule, None)
      else if unsupported_breaks text then (fail Shape rule, None)
      else
        let edited = strip_lines text (ri_spans rule) in
        case (my_load yaml edited, my_load yaml text) of
          (Some reparsed, Some original) \<Rightarrow>
            if same_value (value_of reparsed) (value_of (expected_document original)) then (rule, Some edited)
            else (fail Shape rule, None)
        | _ \<Rightarrow> (fail Shape rule, None))"

definition plan_rule :: "MigrationYaml \<Rightarrow> string option \<Rightarrow> migrate_crash + RuleIds \<times> string option" where
  "plan_rule yaml raw =
     (case (case raw of None \<Rightarrow> None | Some bytes \<Rightarrow> utf8_decode bytes) of
        None \<Rightarrow> Inr (fail Yaml_parse no_ids, None)
      | Some text \<Rightarrow>
          if \<not> contains_str ''rule_id'' text then Inr (no_ids, None)
          else case my_compose yaml text of
              None \<Rightarrow> Inr (fail Yaml_parse no_ids, None)
            | Some None \<Rightarrow> Inr (no_ids, None)
            | Some (Some root) \<Rightarrow>
                rbind (collect yaml no_ids root) (\<lambda>rule.
                  if ri_removed rule = [] then Inr (rule, None)
                  else rbind (raw_uuid_of yaml root) (\<lambda>raw_uuid.
                         Inr (edit_rule yaml text (with_uuid raw_uuid rule)))))"

section \<open>The run\<close>

text \<open>The shard is loaded, and an id that disagrees with it refuses the file.\<close>

definition conflicts :: "DeploymentState \<Rightarrow> Binding \<Rightarrow> bool" where
  "conflicts st b =
     (case state_get st (bd_platform b) (bd_tenant b) of None \<Rightarrow> False | Some existing \<Rightarrow> existing \<noteq> bd_stored b)"

definition check_shard :: "RuleIds \<Rightarrow> dirlist \<Rightarrow> RuleIds \<times> DeploymentState option" where
  "check_shard rule dir =
     (case ri_uuid rule of
        None \<Rightarrow> (rule, None)
      | Some u \<Rightarrow>
          if shard_bindings rule = [] then (rule, None)
          else case load_state dir (PStr u) of
              Inl e \<Rightarrow> (fail (Shard_error e) rule, None)
            | Inr st \<Rightarrow>
                (fold (\<lambda>b r. if conflicts st b then fail Conflict r else r) (shard_bindings rule) rule, Some st))"

definition put_changed ::
  "DeploymentState \<times> bool \<Rightarrow> Binding \<Rightarrow> state_code + DeploymentState \<times> bool" where
  "put_changed acc b =
     (let (st, changed) = acc in
      if state_get st (bd_platform b) (bd_tenant b) = Some (bd_stored b) then Inr acc
      else rbind (state_set st (bd_platform b) (bd_tenant b) (PStr (bd_stored b))) (\<lambda>(stored, st'). Inr (st', True)))"

record Migration =
  mg_files :: files
  mg_dir :: dirlist
  mg_migrated :: "(string \<times> Binding list) list"
  mg_unused :: "(string \<times> Binding) list"
  mg_errors :: "(string \<times> migrate_code) list"
  mg_shards_written :: nat

type_synonym 'a migrating = "(Migration, migrate_crash, 'a) effect"

record MigrationIO =
  io_shards :: bool
  io_rules :: "string \<Rightarrow> bool"

text \<open>The statements of the \<open>try\<close> block: the shard first, then the rule file.\<close>

definition save_bindings :: "MigrationIO \<Rightarrow> DeploymentState option \<Rightarrow> Binding list \<Rightarrow> Migration \<Rightarrow> (state_code + unit) \<times> Migration" where
  "save_bindings io state bs m =
     (case state of
        None \<Rightarrow> (Inr (), m)
      | Some st \<Rightarrow>
          if bs = [] then (Inr (), m)
          else case rfold put_changed (st, False) bs of
              Inl e \<Rightarrow> (Inl e, m)
            | Inr (st', changed) \<Rightarrow>
                if \<not> changed then (Inr (), m)
                else case save_state (io_shards io) st' (mg_dir m) of
                    Inl e \<Rightarrow> (Inl e, m)
                  | Inr (_, dir') \<Rightarrow>
                      (Inr (), m\<lparr>mg_dir := dir', mg_shards_written := mg_shards_written m + 1\<rparr>))"

definition write_rule :: "MigrationIO \<Rightarrow> string \<Rightarrow> string \<Rightarrow> Migration \<Rightarrow> (state_code + unit) \<times> Migration" where
  "write_rule io path text m =
     (if io_rules io path then (Inr (), m\<lparr>mg_files := AList.update path (utf8_encode text) (mg_files m)\<rparr>)
      else (Inl OS_Error, m))"

definition move_ids ::
  "MigrationIO \<Rightarrow> string \<Rightarrow> string \<Rightarrow> RuleIds \<Rightarrow> DeploymentState option \<Rightarrow> Migration \<Rightarrow> Migration" where
  "move_ids io path text rule state m =
     (case andthen (save_bindings io state (shard_bindings rule)) (\<lambda>_. write_rule io path text) m of
        (Inl e, m') \<Rightarrow> m'\<lparr>mg_errors := mg_errors m' @ [(path, Write_failed)]\<rparr>
      | (Inr _, m') \<Rightarrow> m'\<lparr>mg_migrated := mg_migrated m' @ [(path, shard_bindings rule)]\<rparr>)"

definition report_unused :: "string \<Rightarrow> RuleIds \<Rightarrow> Migration \<Rightarrow> Migration" where
  "report_unused path rule m =
     m\<lparr>mg_unused := mg_unused m @ map (Pair path)
         (filter (\<lambda>b. bd_platform b \<notin> set migrated_platforms) (ri_bindings rule))\<rparr>"

definition migrate_file :: "MigrationYaml \<Rightarrow> MigrationIO \<Rightarrow> string \<Rightarrow> unit migrating" where
  "migrate_file yaml io path = (\<lambda>m.
     case plan_rule yaml (map_of (mg_files m) path) of
       Inl crash \<Rightarrow> (Inl crash, m)
     | Inr (planned, edited) \<Rightarrow>
         let (rule, state) = (if edited = None then (planned, None) else check_shard planned (mg_dir m)) in
         if ri_errors rule \<noteq> []
         then (Inr (), m\<lparr>mg_errors := mg_errors m @ map (Pair path) (ri_errors rule)\<rparr>)
         else case edited of
             None \<Rightarrow> (Inr (), m)
           | Some text \<Rightarrow> (Inr (), move_ids io path text rule state (report_unused path rule m)))"

text \<open>\<open>sorted([*rules_dir.rglob('*.yaml'), *rules_dir.rglob('*.yml')])\<close>: paths compare part by part.\<close>

definition rule_files :: "files \<Rightarrow> string list" where
  "rule_files fs = sort_key (py_split ''/'')
     (filter (ends_with ''.yaml'') (map fst fs) @ filter (ends_with ''.yml'') (map fst fs))"

definition start_migration :: "files \<Rightarrow> dirlist \<Rightarrow> Migration" where
  "start_migration fs dir = \<lparr>mg_files = fs, mg_dir = dir, mg_migrated = [], mg_unused = [], mg_errors = [],
     mg_shards_written = 0\<rparr>"

definition run_migrate_state ::
  "MigrationYaml \<Rightarrow> MigrationIO \<Rightarrow> IgnoreRule option \<Rightarrow> files \<Rightarrow> dirlist \<Rightarrow> (migrate_crash + nat) \<times> Migration" where
  "run_migrate_state yaml io ignore fs dir =
     (case ignore of
        Some _ \<Rightarrow> (Inr 1, start_migration fs dir)
      | None \<Rightarrow>
          andthen (each (migrate_file yaml io) (rule_files fs))
            (\<lambda>_ m. (Inr (if mg_errors m \<noteq> [] then 1 else 0), m)) (start_migration fs dir))"


section \<open>What is collected\<close>

definition bd_key :: "Binding \<Rightarrow> string \<times> string" where
  "bd_key b = (bd_platform b, bd_tenant b)"

definition binding_stored :: "Binding \<Rightarrow> bool" where
  "binding_stored b = (normalise_external_id (bd_platform b) (PStr (bd_stored b)) = Inr (bd_stored b)
     \<and> tenant_key (bd_tenant b) = bd_tenant b)"

definition bindings_ok :: "Binding list \<Rightarrow> bool" where
  "bindings_ok bs = (distinct (map bd_key bs) \<and> list_all binding_stored bs)"

definition collected_ok :: "collected \<Rightarrow> bool" where
  "collected_ok acc = (bindings_ok (ri_bindings (fst acc)) \<and> set (snd acc) = bd_key ` set (ri_bindings (fst acc)))"

lemma fail_fields [simp]:
  "ri_bindings (fail code rule) = ri_bindings rule" "ri_spans (fail code rule) = ri_spans rule"
  "ri_uuid (fail code rule) = ri_uuid rule" "ri_errors (fail code rule) = ri_errors rule @ [code]"
  by (simp_all add: fail_def)

lemma bindings_ok_filter: "bindings_ok bs \<Longrightarrow> bindings_ok (filter P bs)"
  by (auto simp: bindings_ok_def list_all_iff distinct_map intro: inj_on_subset)

lemma collected_fail: "collected_ok (rule, seen) \<Longrightarrow> collected_ok (fail code rule, seen)"
  by (simp add: collected_ok_def)

lemma collected_note: "collected_ok (rule, seen) \<Longrightarrow> collected_ok (note_key platform key a b rule, seen)"
  by (simp add: collected_ok_def note_key_def)

lemma collected_bind:
  assumes "collected_ok acc"
  shows "collected_ok (bind_id platform tenant value acc)"
proof -
  obtain rule seen where acc: "acc = (rule, seen)" by (cases acc)
  have ok: "collected_ok (rule, seen)" using assms acc by simp
  have new: "binding_stored \<lparr>bd_platform = platform, bd_tenant = py_strip t, bd_value = value, bd_stored = stored\<rparr>"
    if "normalise_external_id platform value = Inr stored" for t stored
    using normalise_idem [OF that] by (simp add: binding_stored_def tenant_key_def)
  show ?thesis
    using ok new unfolding acc bind_id_def
    by (auto simp: collected_fail collected_ok_def bindings_ok_def bd_key_def image_iff Let_def
        split: pyval.split sum.split)
qed

lemma collected_entry: "collect_entry yaml platform acc item = Inr acc' \<Longrightarrow> collected_ok acc \<Longrightarrow> collected_ok acc'"
  by (cases acc; cases item)
    (auto simp: collect_entry_def rbind_Inr collected_fail intro: collected_bind split: if_splits)

lemma collected_rfold:
  "rfold f acc items = Inr acc' \<Longrightarrow> (\<And>a x a'. f a x = Inr a' \<Longrightarrow> collected_ok a \<Longrightarrow> collected_ok a')
    \<Longrightarrow> collected_ok acc \<Longrightarrow> collected_ok acc'"
  by (erule rfold_invariant [where I = collected_ok]) auto

lemma collected_key:
  assumes "collect_key yaml platform acc item = Inr acc'" "collected_ok acc"
  shows "collected_ok acc'"
proof -
  obtain key_node value_node where item: "item = (key_node, value_node)" by (cases item)
  have noted: "collected_ok (note_key platform key key_node value_node (fst acc), snd acc)" for key
    using assms(2) by (simp add: collected_note)
  show ?thesis
    using assms noted unfolding item collect_key_def
    by (auto simp: Let_def rbind_Inr collected_fail intro: collected_bind collected_rfold [OF _ collected_entry]
        split: option.splits if_splits)
qed

lemma collected_block: "collect_block yaml acc item = Inr acc' \<Longrightarrow> collected_ok acc \<Longrightarrow> collected_ok acc'"
  by (cases item)
    (auto simp: collect_block_def Let_def intro: collected_rfold [OF _ collected_key] split: option.splits)

lemma collect_ok:
  assumes "collect yaml no_ids root = Inr rule"
  shows "bindings_ok (ri_bindings rule)"
proof -
  have start: "collected_ok (no_ids, [])" by (simp add: collected_ok_def bindings_ok_def no_ids_def)
  have "collected_ok acc" if "rfold (collect_block yaml) (no_ids, []) items = Inr acc" for items acc
    by (rule collected_rfold [OF that collected_block start])
  then show ?thesis
    using assms start by (auto simp: collect_def rbind_Inr collected_ok_def split: option.splits)
qed

lemma plan_rule_ok:
  assumes "plan_rule yaml raw = Inr (rule, Some edited)"
  shows "bindings_ok (shard_bindings rule)" "ri_errors rule = []" "shard_bindings rule \<noteq> [] \<Longrightarrow> ri_uuid rule \<noteq> None"
proof -
  from assms obtain bytes root collected raw_uuid "text" where "raw = Some bytes" "utf8_decode bytes = Some text"
    and c: "collect yaml no_ids root = Inr collected"
    and e: "edit_rule yaml text (with_uuid raw_uuid collected) = (rule, Some edited)"
    by (auto simp: plan_rule_def rbind_Inr split: option.splits if_splits)
  from e have rule: "rule = with_uuid raw_uuid collected" and errors: "ri_errors rule = []"
    by (auto simp: edit_rule_def Let_def split: if_splits option.splits)
  then show "ri_errors rule = []" by simp
  have same: "ri_bindings rule = ri_bindings collected"
    by (simp add: rule with_uuid_def split: sum.split)
  then show "bindings_ok (shard_bindings rule)"
    using collect_ok [OF c] by (simp add: shard_bindings_def bindings_ok_filter)
  show "ri_uuid rule \<noteq> None" if "shard_bindings rule \<noteq> []"
  proof -
    have "shard_bindings collected \<noteq> []" using that same by (simp add: shard_bindings_def)
    then have "ri_uuid rule = json_stem p" if "shard_path raw_uuid = Inr p" for p
      using that by (simp add: rule with_uuid_def)
    moreover obtain c where "shard_path raw_uuid = Inr (c @ ''.json'')" "c \<noteq> []"
    proof -
      have "\<exists>p. shard_path raw_uuid = Inr p"
        using errors \<open>shard_bindings collected \<noteq> []\<close> by (auto simp: rule with_uuid_def split: sum.splits)
      then obtain c where "canonical_uuid raw_uuid = Inr c" "shard_path raw_uuid = Inr (c @ ''.json'')"
        by (auto simp: shard_path_def rbind_Inr)
      moreover from this(1) have "c \<noteq> []" by (elim canonical_uuid_range) simp
      ultimately show thesis using that by blast
    qed
    ultimately show ?thesis by simp
  qed
qed


section \<open>Writing the ids of one file\<close>

lemma put_changed_step:
  assumes "put_changed (st, ch) b = Inr (st1, ch1)" "shard_ok st" "binding_stored b"
  shows "shard_ok st1 \<and> st_path st1 = st_path st \<and> st_uuid st1 = st_uuid st
    \<and> (\<forall>p t. state_get st1 p t = (if p = bd_platform b \<and> tenant_key t = bd_tenant b then Some (bd_stored b) else state_get st p t))
    \<and> (ch1 = ch \<and> st1 = st \<or> ch1 \<and> st_platforms st1 \<noteq> [])"
proof (cases "state_get st (bd_platform b) (bd_tenant b) = Some (bd_stored b)")
  case True
  then have st: "st1 = st" "ch1 = ch" using assms(1) by (simp_all add: put_changed_def)
  have key: "tenant_key (bd_tenant b) = bd_tenant b" using assms(3) by (simp add: binding_stored_def)
  have "state_get st p t = Some (bd_stored b)" if "p = bd_platform b" "tenant_key t = bd_tenant b" for p t
    using True that key by (simp add: state_get_def)
  then show ?thesis using assms(2) st by simp
next
  case False
  with assms(1) obtain stored where set: "state_set st (bd_platform b) (bd_tenant b) (PStr (bd_stored b)) = Inr (stored, st1)" "ch1"
    by (auto simp: put_changed_def rbind_Inr)
  moreover from set(1) assms(3) have "stored = bd_stored b" by (auto simp: state_set_Inr binding_stored_def)
  moreover have "tenant_key (bd_tenant b) = bd_tenant b" using assms(3) by (simp add: binding_stored_def)
  ultimately show ?thesis
    using state_set_get [OF set(1) assms(2)] shard_ok_set [OF assms(2) set(1)]
    by (auto simp: state_set_Inr)
qed

text \<open>The bindings are put one by one; each is the stored id of its key afterwards.\<close>

lemma put_all:
  assumes "rfold put_changed (st, ch) bs = Inr (st', ch')" "shard_ok st" "bindings_ok bs"
  shows "shard_ok st' \<and> st_path st' = st_path st \<and> st_uuid st' = st_uuid st
    \<and> (\<forall>b \<in> set bs. state_get st' (bd_platform b) (bd_tenant b) = Some (bd_stored b))
    \<and> (\<forall>p t. (p, tenant_key t) \<notin> bd_key ` set bs \<longrightarrow> state_get st' p t = state_get st p t)
    \<and> (ch' = ch \<and> st' = st \<or> ch' \<and> st_platforms st' \<noteq> [])"
  using assms
proof (induction bs arbitrary: st ch)
  case (Cons b bs)
  then obtain st1 ch1 where one: "put_changed (st, ch) b = Inr (st1, ch1)"
    and rest: "rfold put_changed (st1, ch1) bs = Inr (st', ch')"
    by (auto split: sum.splits)
  have b: "binding_stored b" and bs: "bindings_ok bs" and new: "bd_key b \<notin> bd_key ` set bs"
    using Cons.prems(3) by (auto simp: bindings_ok_def)
  have key: "(bd_platform b, tenant_key (bd_tenant b)) = bd_key b"
    using b by (simp add: binding_stored_def bd_key_def)
  note step = put_changed_step [OF one Cons.prems(2) b]
  note ih = Cons.IH [OF rest _ bs]
  have "state_get st' (bd_platform b) (bd_tenant b) = Some (bd_stored b)"
    using ih step new key b by (auto simp: binding_stored_def)
  moreover have "state_get st' p t = state_get st p t" if "(p, tenant_key t) \<notin> bd_key ` set (b # bs)" for p t
    using ih step that by (auto simp: bd_key_def)
  ultimately show ?case using ih step by auto
qed (simp add: bindings_ok_def)

definition keeps_ids :: "Migration \<Rightarrow> Migration \<Rightarrow> bool" where
  "keeps_ids m m' = (\<forall>v st. load_state (mg_dir m) v = Inr st \<longrightarrow>
     (\<exists>st'. load_state (mg_dir m') v = Inr st' \<and> (\<forall>p t x. state_get st p t = Some x \<longrightarrow> state_get st' p t = Some x)))"

interpretation ids: frame keeps_ids
proof
  show "keeps_ids m m" for m by (simp add: keeps_ids_def)
  show "keeps_ids m k" if "keeps_ids m l" "keeps_ids l k" for m l k
    using that unfolding keeps_ids_def by metis
qed

lemma load_state_canonical: "canonical_uuid v = canonical_uuid w \<Longrightarrow> load_state dir v = load_state dir w"
  by (simp add: load_state_eq)

lemma save_all:
  assumes load: "load_state dir v = Inr st" and put: "rfold put_changed (st, False) bs = Inr (st', True)"
    and bs: "bindings_ok bs" and save: "save_state wr st' dir = Inr (st'', dir')"
  obtains final where "load_state dir' v = Inr final" "\<And>p t. state_get final p t = state_get st' p t"
    "\<And>w. canonical_uuid w \<noteq> canonical_uuid v \<Longrightarrow> load_state dir' w = load_state dir w"
proof -
  from load obtain c where c: "canonical_uuid v = Inr c" "no_variants dir c" "shard_ok st"
    "st_path st = c @ ''.json''" "st_uuid st = c"
    by (rule load_state_facts)
  from put_all [OF put c(3) bs] c have st': "shard_ok st'" "st_path st' = c @ ''.json''" "st_uuid st' = c" "st_platforms st' \<noteq> []"
    by auto
  from save st' have w: "write_durable wr (c @ ''.json'') (render st') dir = Inr dir'"
    by (auto simp: save_state_def split: sum.splits)
  obtain final where f: "load_state dir' v = Inr final" "lookup_binding (st_platforms final) = lookup_binding (st_platforms st')"
    using load_after_write [OF c(1,2) st'(1,2,3) w] by metis
  have "load_state dir' u = load_state dir u" if "canonical_uuid u \<noteq> canonical_uuid v" for u
  proof (cases "canonical_uuid u")
    case (Inr d)
    with that c(1) w show ?thesis by (intro load_other_write [OF c(1) Inr]) auto
  qed (simp add: load_state_eq)
  then show thesis using that [OF f(1)] state_get_cong [OF f(2)] by blast
qed

lemma no_conflict_kept:
  assumes "\<not> conflicts st b" "state_get st p t = Some x" "(p, tenant_key t) = bd_key b" "tenant_key (bd_tenant b) = bd_tenant b"
  shows "x = bd_stored b"
proof -
  have "state_get st p t = state_get st (bd_platform b) (bd_tenant b)"
    using assms(3,4) by (simp add: bd_key_def state_get_def)
  with assms(2) have "state_get st (bd_platform b) (bd_tenant b) = Some x" by simp
  then show ?thesis using assms(1) by (simp add: conflicts_def)
qed

lemma save_bindings_result:
  assumes load: "load_state (mg_dir m) v = Inr st" and bs: "bindings_ok bs"
    and ok: "\<And>b. b \<in> set bs \<Longrightarrow> \<not> conflicts st b"
    and run: "save_bindings io (Some st) bs m = (r, m')"
  shows "keeps_ids m m' \<and> mg_files m' = mg_files m
    \<and> (r = Inr () \<longrightarrow> (\<exists>st'. load_state (mg_dir m') v = Inr st'
         \<and> (\<forall>b \<in> set bs. state_get st' (bd_platform b) (bd_tenant b) = Some (bd_stored b))))"
proof (cases "\<exists>st'. rfold put_changed (st, False) bs = Inr (st', True) \<and> bs \<noteq> []")
  case False
  have same: "m' = m"
    using run False by (auto simp: save_bindings_def split: if_splits sum.splits prod.splits)
  have "\<forall>b \<in> set bs. state_get st (bd_platform b) (bd_tenant b) = Some (bd_stored b)" if "r = Inr ()"
  proof (cases bs)
    case (Cons b bs')
    from run that Cons False obtain st' where "rfold put_changed (st, False) bs = Inr (st', False)"
      by (auto simp: save_bindings_def split: sum.splits prod.splits if_splits)
    from put_all [OF this load_state_ok [OF load] bs] show ?thesis by auto
  qed simp
  then show ?thesis using same load ids.same by auto
next
  case True
  then obtain st' where put: "rfold put_changed (st, False) bs = Inr (st', True)" and "bs \<noteq> []" by blast
  note all = put_all [OF put load_state_ok [OF load] bs]
  show ?thesis
  proof (cases "save_state (io_shards io) st' (mg_dir m)")
    case (Inl e)
    then have "r = Inl e" "m' = m" using run put \<open>bs \<noteq> []\<close> by (auto simp: save_bindings_def)
    then show ?thesis by (simp add: ids.same)
  next
    case (Inr saved)
    obtain st'' dir' where saved: "save_state (io_shards io) st' (mg_dir m) = Inr (st'', dir')" using Inr by (cases saved) simp
    then have m': "m' = m\<lparr>mg_dir := dir', mg_shards_written := mg_shards_written m + 1\<rparr>"
      using run put \<open>bs \<noteq> []\<close> by (simp add: save_bindings_def)
    obtain final where f: "load_state dir' v = Inr final" "\<And>p t. state_get final p t = state_get st' p t"
      "\<And>w. canonical_uuid w \<noteq> canonical_uuid v \<Longrightarrow> load_state dir' w = load_state (mg_dir m) w"
      using save_all [OF load put bs saved] by metis
    have kept: "state_get final p t = Some x" if "state_get st p t = Some x" for p t x
    proof (cases "(p, tenant_key t) \<in> bd_key ` set bs")
      case True
      then obtain b where b: "b \<in> set bs" "(p, tenant_key t) = bd_key b" by blast
      have t: "tenant_key (bd_tenant b) = bd_tenant b"
        using bs b(1) by (simp add: bindings_ok_def list_all_iff binding_stored_def)
      have "state_get st' p t = state_get st' (bd_platform b) (bd_tenant b)"
        using b(2) t by (simp add: bd_key_def state_get_def)
      then show ?thesis using all b(1) no_conflict_kept [OF ok [OF b(1)] that b(2) t] by (simp add: f(2))
    qed (use all that in \<open>simp add: f(2)\<close>)
    have "keeps_ids m m'"
      unfolding keeps_ids_def
    proof (intro allI impI)
      fix w st1 assume w: "load_state (mg_dir m) w = Inr st1"
      show "\<exists>st2. load_state (mg_dir m') w = Inr st2 \<and> (\<forall>p t x. state_get st1 p t = Some x \<longrightarrow> state_get st2 p t = Some x)"
      proof (cases "canonical_uuid w = canonical_uuid v")
        case True
        then have "st1 = st" using w load load_state_canonical [OF True] by simp
        then show ?thesis using f(1) kept load_state_canonical [OF True] by (simp add: m')
      qed (use w f(3) in \<open>simp add: m'\<close>)
    qed
    then show ?thesis using all f(1,2) by (simp add: m')
  qed
qed


section \<open>One file\<close>

text \<open>The id of a binding is in the shard of the rule.\<close>

definition recorded :: "dirlist \<Rightarrow> RuleIds \<Rightarrow> Binding \<Rightarrow> bool" where
  "recorded dir rule b =
     (case ri_uuid rule of
        None \<Rightarrow> False
      | Some u \<Rightarrow>
          (case load_state dir (PStr u) of
             Inl _ \<Rightarrow> False
           | Inr st \<Rightarrow> state_get st (bd_platform b) (bd_tenant b) = Some (bd_stored b)))"

text \<open>The file holds the edited text and its shard every id that was taken off it.\<close>

definition moved :: "MigrationYaml \<Rightarrow> string option \<Rightarrow> string option \<Rightarrow> dirlist \<Rightarrow> bool" where
  "moved yaml before after dir =
     (case plan_rule yaml before of
        Inr (rule, Some edited) \<Rightarrow>
          after = Some (utf8_encode edited) \<and> list_all (recorded dir rule) (shard_bindings rule)
      | _ \<Rightarrow> False)"

lemma recorded_iff: "recorded dir rule b \<longleftrightarrow> (\<exists>u st. ri_uuid rule = Some u \<and> load_state dir (PStr u) = Inr st
    \<and> state_get st (bd_platform b) (bd_tenant b) = Some (bd_stored b))"
  by (auto simp: recorded_def split: option.split sum.split)

lemma recorded_kept: "keeps_ids m m' \<Longrightarrow> recorded (mg_dir m) rule b \<Longrightarrow> recorded (mg_dir m') rule b"
proof -
  assume keep: "keeps_ids m m'" and "recorded (mg_dir m) rule b"
  then obtain u st where u: "ri_uuid rule = Some u" "load_state (mg_dir m) (PStr u) = Inr st"
    "state_get st (bd_platform b) (bd_tenant b) = Some (bd_stored b)"
    by (auto simp: recorded_def split: option.splits sum.splits)
  with keep obtain st' where "load_state (mg_dir m') (PStr u) = Inr st'"
    "state_get st' (bd_platform b) (bd_tenant b) = Some (bd_stored b)"
    unfolding keeps_ids_def by metis
  with u(1) show ?thesis by (simp add: recorded_def)
qed

lemma moved_kept: "keeps_ids m m' \<Longrightarrow> moved yaml before after (mg_dir m) \<Longrightarrow> moved yaml before after (mg_dir m')"
  by (auto simp: moved_def list_all_iff intro: recorded_kept split: sum.splits option.splits)

lemma conflict_fold_errors:
  "ri_errors rule \<noteq> [] \<Longrightarrow> ri_errors (fold (\<lambda>b r. if conflicts st b then fail Conflict r else r) bs rule) \<noteq> []"
  by (induction bs arbitrary: rule) auto

lemma conflict_fold:
  "ri_errors (fold (\<lambda>b r. if conflicts st b then fail Conflict r else r) bs rule) = [] \<Longrightarrow>
   fold (\<lambda>b r. if conflicts st b then fail Conflict r else r) bs rule = rule \<and> (\<forall>b \<in> set bs. \<not> conflicts st b)"
proof (induction bs arbitrary: rule)
  case (Cons b bs)
  have free: "\<not> conflicts st b"
    using Cons.prems conflict_fold_errors [of "fail Conflict rule" st bs] by auto
  with Cons.prems have "ri_errors (fold (\<lambda>b r. if conflicts st b then fail Conflict r else r) bs rule) = []" by simp
  from Cons.IH [OF this] free show ?case by simp
qed simp

text \<open>A file that passes the check goes on with the shard of its own rule.\<close>

lemma check_shard_passes:
  assumes "check_shard planned dir = (rule, state)" "ri_errors rule = []" "shard_bindings planned \<noteq> [] \<Longrightarrow> ri_uuid planned \<noteq> None"
  shows "rule = planned \<and> (case state of
      None \<Rightarrow> shard_bindings planned = []
    | Some st \<Rightarrow> \<exists>u. ri_uuid planned = Some u \<and> load_state dir (PStr u) = Inr st
        \<and> (\<forall>b \<in> set (shard_bindings planned). \<not> conflicts st b))"
proof (cases "ri_uuid planned")
  case None
  then have "check_shard planned dir = (planned, None)" by (simp add: check_shard_def)
  with assms(1) None assms(3) show ?thesis by auto
next
  case (Some u)
  show ?thesis
  proof (cases "shard_bindings planned = []")
    case True
    then have "check_shard planned dir = (planned, None)" using Some by (simp add: check_shard_def)
    with assms(1) True show ?thesis by simp
  next
    case False
    show ?thesis
    proof (cases "load_state dir (PStr u)")
      case (Inl e)
      with Some False assms(1) have "rule = fail (Shard_error e) planned" by (simp add: check_shard_def)
      with assms(2) show ?thesis by simp
    next
      case (Inr st)
      with Some False assms(1) have st: "state = Some st"
        "rule = fold (\<lambda>b r. if conflicts st b then fail Conflict r else r) (shard_bindings planned) planned"
        by (simp_all add: check_shard_def)
      with conflict_fold [of st "shard_bindings planned" planned] assms(2)
      have "rule = planned \<and> (\<forall>b \<in> set (shard_bindings planned). \<not> conflicts st b)" by metis
      with Some Inr st(1) show ?thesis by simp
    qed
  qed
qed

lemma save_bindings_fields: "save_bindings io state bs m = (r, m') \<Longrightarrow> mg_files m' = mg_files m \<and> mg_errors m' = mg_errors m"
  by (auto simp: save_bindings_def split: option.splits if_splits sum.splits prod.splits)

lemma keeps_ids_dir: "mg_dir m' = mg_dir m \<Longrightarrow> keeps_ids m m'"
  by (simp add: keeps_ids_def)

lemma save_bindings_recorded:
  assumes planned: "plan_rule yaml before = Inr (rule, Some edited)"
    and check: "check_shard rule (mg_dir m) = (rule, state)"
    and save: "save_bindings io state (shard_bindings rule) m = (r, m')"
  shows "keeps_ids m m' \<and> (r = Inr () \<longrightarrow> list_all (recorded (mg_dir m') rule) (shard_bindings rule))"
proof -
  note ok = plan_rule_ok [OF planned]
  note passed = check_shard_passes [OF check ok(2,3)]
  show ?thesis
  proof (cases state)
    case None
    with passed have none: "shard_bindings rule = []" by simp
    from None save have "m' = m" by (simp add: save_bindings_def)
    with none show ?thesis by (simp add: ids.same)
  next
    case (Some st)
    with passed obtain u where u: "ri_uuid rule = Some u" "load_state (mg_dir m) (PStr u) = Inr st"
      and free: "\<And>b. b \<in> set (shard_bindings rule) \<Longrightarrow> \<not> conflicts st b" by auto
    from save_bindings_result [OF u(2) ok(1) free, of io r m'] save Some u(1) show ?thesis
      by (auto simp: recorded_def list_all_iff)
  qed
qed

lemma move_ids_result:
  assumes planned: "plan_rule yaml before = Inr (rule, Some edited)"
    and check: "check_shard rule (mg_dir m) = (rule, state)"
  shows "keeps_ids m (move_ids io path edited rule state m)"
    and "q \<noteq> path \<Longrightarrow> map_of (mg_files (move_ids io path edited rule state m)) q = map_of (mg_files m) q"
    and "set (mg_errors m) \<subseteq> set (mg_errors (move_ids io path edited rule state m))"
    and "map_of (mg_files (move_ids io path edited rule state m)) path = map_of (mg_files m) path
           \<and> (path, Write_failed) \<in> set (mg_errors (move_ids io path edited rule state m))
       \<or> moved yaml before (map_of (mg_files (move_ids io path edited rule state m)) path)
           (mg_dir (move_ids io path edited rule state m))"
proof -
  obtain r m1 where save: "save_bindings io state (shard_bindings rule) m = (r, m1)" by force
  note kept = save_bindings_recorded [OF planned check save] and fields = save_bindings_fields [OF save]
  have result: "move_ids io path edited rule state m =
     (if r = Inr () \<and> io_rules io path
      then m1\<lparr>mg_files := AList.update path (utf8_encode edited) (mg_files m1), mg_migrated := mg_migrated m1 @ [(path, shard_bindings rule)]\<rparr>
      else m1\<lparr>mg_errors := mg_errors m1 @ [(path, Write_failed)]\<rparr>)"
    by (cases r) (simp_all add: move_ids_def andthen_def save write_rule_def)
  have "keeps_ids m1 (move_ids io path edited rule state m)"
    by (rule keeps_ids_dir) (simp add: result)
  then show "keeps_ids m (move_ids io path edited rule state m)"
    using kept ids.steps by blast
  show "map_of (mg_files (move_ids io path edited rule state m)) q = map_of (mg_files m) q" if "q \<noteq> path"
    using that fields by (simp add: result)
  show "set (mg_errors m) \<subseteq> set (mg_errors (move_ids io path edited rule state m))"
    using fields by (auto simp: result)
  show "map_of (mg_files (move_ids io path edited rule state m)) path = map_of (mg_files m) path
           \<and> (path, Write_failed) \<in> set (mg_errors (move_ids io path edited rule state m))
       \<or> moved yaml before (map_of (mg_files (move_ids io path edited rule state m)) path)
           (mg_dir (move_ids io path edited rule state m))"
    using kept fields planned by (auto simp: result moved_def)
qed


definition reported :: "Migration \<Rightarrow> string set" where
  "reported m = fst ` set (mg_errors m)"

definition file_outcome :: "MigrationYaml \<Rightarrow> string \<Rightarrow> Migration \<Rightarrow> Migration \<Rightarrow> bool" where
  "file_outcome yaml path m m' =
     (if map_of (mg_files m') path = map_of (mg_files m) path
      then (case plan_rule yaml (map_of (mg_files m) path) of
              Inr (rule, Some edited) \<Rightarrow> path \<in> reported m'
                 \<or> moved yaml (map_of (mg_files m) path) (map_of (mg_files m') path) (mg_dir m')
            | _ \<Rightarrow> True)
      else moved yaml (map_of (mg_files m) path) (map_of (mg_files m') path) (mg_dir m'))"

definition other_files :: "string set \<Rightarrow> Migration \<Rightarrow> Migration \<Rightarrow> bool" where
  "other_files paths m m' = (keeps_ids m m' \<and> set (mg_errors m) \<subseteq> set (mg_errors m')
     \<and> (\<forall>q. q \<notin> paths \<longrightarrow> map_of (mg_files m') q = map_of (mg_files m) q))"

interpretation others: frame "other_files paths"
proof
  show "other_files paths m m" for m by (simp add: other_files_def ids.same)
  show "other_files paths m k" if "other_files paths m l" "other_files paths l k" for m l k
    using that ids.steps [of m l k] by (auto simp: other_files_def)
qed

lemma migrate_file_result:
  assumes "migrate_file yaml io path m = (r, m')"
  shows "other_files {path} m m'" and "r = Inr () \<Longrightarrow> file_outcome yaml path m m'"
    and "map_of (mg_files m') path \<noteq> map_of (mg_files m) path \<Longrightarrow> file_outcome yaml path m m'"
proof -
  have "other_files {path} m m' \<and> (r = Inr () \<or> map_of (mg_files m') path \<noteq> map_of (mg_files m) path \<longrightarrow> file_outcome yaml path m m')"
  proof (cases "plan_rule yaml (map_of (mg_files m) path)")
    case (Inl crash)
    then have "r = Inl crash" "m' = m" using assms by (auto simp: migrate_file_def)
    then show ?thesis using others.same by simp
  next
    case (Inr plan)
    then obtain planned edited where plan: "plan_rule yaml (map_of (mg_files m) path) = Inr (planned, edited)" by (cases plan) simp
    obtain rule state where check: "(if edited = None then (planned, None) else check_shard planned (mg_dir m)) = (rule, state)" by force
    consider (err) "ri_errors rule \<noteq> []" "m' = m\<lparr>mg_errors := mg_errors m @ map (Pair path) (ri_errors rule)\<rparr>"
      | (none) "edited = None" "m' = m"
      | (some) "text" where "ri_errors rule = []" "edited = Some text" "m' = move_ids io path text rule state (report_unused path rule m)"
      using assms by (auto simp: migrate_file_def plan check Let_def split: if_splits option.splits)
    then show ?thesis
    proof cases
      case err
      then have "path \<in> reported m'" by (cases "ri_errors rule") (auto simp: reported_def image_Un)
      moreover have "other_files {path} m m'" using err by (auto simp: other_files_def keeps_ids_dir)
      ultimately show ?thesis using err plan by (auto simp: file_outcome_def split: option.split)
    next
      case none
      then show ?thesis using plan by (simp add: others.same file_outcome_def)
    next
      case (some "text")
      note ok = plan_rule_ok [OF plan [unfolded some(2)]]
      let ?m = "report_unused path rule m"
      have check1: "check_shard planned (mg_dir m) = (rule, state)" using check some(2) by simp
      from check_shard_passes [OF check1 some(1) ok(3)] have rule: "rule = planned" by blast
      have same: "mg_dir ?m = mg_dir m" "mg_files ?m = mg_files m" "mg_errors ?m = mg_errors m"
        by (simp_all add: report_unused_def)
      have check2: "check_shard rule (mg_dir ?m) = (rule, state)" unfolding same(1) using check1 rule by simp
      have plan2: "plan_rule yaml (map_of (mg_files m) path) = Inr (rule, Some text)" using plan some(2) by (simp add: rule)
      note moved = move_ids_result [OF plan2 check2, where io = io and path = path, folded some(3)]
      have "other_files {path} m m'"
        using moved(1) moved(2) moved(3) same keeps_ids_dir [OF same(1)] ids.steps by (auto simp: other_files_def)
      moreover have "file_outcome yaml path m m'"
        using moved(4) same plan2 by (auto simp: file_outcome_def reported_def intro: rev_image_eqI)
      ultimately show ?thesis by simp
    qed
  qed
  then show "other_files {path} m m'" "r = Inr () \<Longrightarrow> file_outcome yaml path m m'"
    "map_of (mg_files m') path \<noteq> map_of (mg_files m) path \<Longrightarrow> file_outcome yaml path m m'" by blast+
qed

lemma outcome_kept:
  "other_files (- {path}) m k \<Longrightarrow> file_outcome yaml path k k' \<Longrightarrow> file_outcome yaml path m k'"
  unfolding file_outcome_def other_files_def by (metis ComplD ComplI singletonI)

lemma outcome_later:
  assumes "file_outcome yaml path m k" "other_files (- {path}) k k'"
  shows "file_outcome yaml path m k'"
proof -
  have kept: "keeps_ids k k'" and same: "map_of (mg_files k') path = map_of (mg_files k) path"
    and errors: "path \<in> reported k \<Longrightarrow> path \<in> reported k'"
    using assms(2) by (auto simp: other_files_def reported_def)
  show ?thesis
    using assms(1) errors moved_kept [OF kept] unfolding file_outcome_def same
    by (auto split: sum.splits option.splits if_splits)
qed

lemma other_files_mono: "other_files A m m' \<Longrightarrow> A \<subseteq> B \<Longrightarrow> other_files B m m'"
  by (auto simp: other_files_def)

text \<open>The loop over the files: every file has its outcome, even when a later file ends the run.\<close>

lemma each_file_outcome:
  assumes "each (migrate_file yaml io) paths m = (r, m')" "distinct paths"
  shows "other_files (set paths) m m'
    \<and> (\<forall>path \<in> set paths. (\<exists>x. r = Inr x) \<or> map_of (mg_files m') path \<noteq> map_of (mg_files m) path \<longrightarrow> file_outcome yaml path m m')"
  using assms
proof (induction paths arbitrary: m r)
  case Nil
  then show ?case by (auto simp: ret_def others.same)
next
  case (Cons p ps)
  obtain r1 m1 where one: "migrate_file yaml io p m = (r1, m1)" by force
  note step = migrate_file_result [OF one]
  show ?case
  proof (cases r1)
    case (Inl e)
    then have "r = Inl e" "m' = m1" using Cons.prems(1) by (auto simp: andthen_def one)
    moreover have "map_of (mg_files m1) q = map_of (mg_files m) q" if "q \<noteq> p" for q
      using step(1) that by (simp add: other_files_def)
    moreover have "other_files (set (p # ps)) m m1" by (rule other_files_mono [OF step(1)]) simp
    ultimately show ?thesis using step(3) by (metis sum.distinct(1))
  next
    case (Inr u)
    obtain r2 where rest: "each (migrate_file yaml io) ps m1 = (r2, m')" and r: "(\<exists>x. r = Inr x) \<longleftrightarrow> (\<exists>x. r2 = Inr x)"
      using Cons.prems(1) Inr one by (auto simp: andthen_def ret_def split: prod.splits sum.splits)
    note ih = Cons.IH [OF rest]
    have d: "p \<notin> set ps" "distinct ps" using Cons.prems(2) by auto
    have first: "file_outcome yaml p m m'"
    proof (rule outcome_later [OF step(2)])
      show "r1 = Inr ()" using Inr by simp
      show "other_files (- {p}) m1 m'" by (rule other_files_mono [OF conjunct1 [OF ih [OF d(2)]]]) (use d(1) in blast)
    qed
    have later: "file_outcome yaml q m m'"
      if q: "q \<in> set ps" and "(\<exists>x. r = Inr x) \<or> map_of (mg_files m') q \<noteq> map_of (mg_files m) q" for q
    proof -
      have other: "other_files (- {q}) m m1" by (rule other_files_mono [OF step(1)]) (use q d(1) in blast)
      then have "map_of (mg_files m1) q = map_of (mg_files m) q" by (simp add: other_files_def)
      then have "file_outcome yaml q m1 m'" using conjunct2 [OF ih [OF d(2)]] q that(2) r by auto
      then show ?thesis by (rule outcome_kept [OF other])
    qed
    have "other_files (set (p # ps)) m m1" "other_files (set (p # ps)) m1 m'"
      using step(1) ih [OF d(2)] other_files_mono [of _ _ _ "set (p # ps)"] by auto
    then have "other_files (set (p # ps)) m m'" by (rule others.steps)
    then show ?thesis using first later by auto
  qed
qed

lemma set_rule_files: "set (rule_files fs) \<subseteq> fst ` set fs"
  by (auto simp: rule_files_def)

lemma distinct_rule_files:
  assumes "distinct (map fst fs)"
  shows "distinct (rule_files fs)"
proof -
  have "\<not> (ends_with ''.yaml'' p \<and> ends_with ''.yml'' p)" for p
    by (auto simp: ends_with_iff append_eq_append_conv2 Cons_eq_append_conv)
  then show ?thesis using assms by (auto simp: rule_files_def)
qed


section \<open>Every id that is written\<close>

text \<open>
  What a rule names, read off its nodes without the collector: under each legacy key of each platform block,
  the tenants and ids as the constructor gives them (\<open>None\<close> where it gives nothing).
\<close>

definition id_entries :: "MigrationYaml \<Rightarrow> string \<Rightarrow> mnode \<Rightarrow> (pyval option \<times> pyval option) list" where
  "id_entries yaml key value_node =
     (if key \<in> set legacy_map_keys
      then (case mapping_items value_node of
              None \<Rightarrow> [(None, None)]
            | Some items \<Rightarrow> map (\<lambda>(t, i). (my_construct yaml t, my_construct yaml i)) items)
      else [(Some (PStr (drop (length legacy_tenant_prefix) key)), my_construct yaml value_node)])"

definition block_platform :: "MigrationYaml \<Rightarrow> mnode \<Rightarrow> string" where
  "block_platform yaml node = (case scalar_value node of Some p \<Rightarrow> p | None \<Rightarrow> my_key_text yaml node)"

definition names_id :: "MigrationYaml \<Rightarrow> mnode \<Rightarrow> string \<Rightarrow> pyval option \<Rightarrow> pyval option \<Rightarrow> bool" where
  "names_id yaml root platform tenant value =
     (\<exists>configurations blocks platform_node block keys key_node value_node key.
        mapping_get root ''configurations'' = Some configurations \<and> mapping_items configurations = Some blocks
      \<and> (platform_node, block) \<in> set blocks \<and> block_platform yaml platform_node = platform
      \<and> mapping_items block = Some keys \<and> (key_node, value_node) \<in> set keys
      \<and> scalar_value key_node = Some key \<and> is_legacy_external_id_key (PStr key)
      \<and> (tenant, value) \<in> set (id_entries yaml key value_node))"

definition bound :: "Binding set \<Rightarrow> string \<Rightarrow> pyval option \<times> pyval option \<Rightarrow> bool" where
  "bound bs platform entry = (\<exists>t v stored. entry = (Some (PStr t), Some v) \<and> normalise_external_id platform v = Inr stored
     \<and> \<lparr>bd_platform = platform, bd_tenant = py_strip t, bd_value = v, bd_stored = stored\<rparr> \<in> bs)"

definition collected_bindings :: "collected \<Rightarrow> Binding set" where
  "collected_bindings acc = set (ri_bindings (fst acc))"

definition grows :: "collected \<Rightarrow> collected \<Rightarrow> bool" where
  "grows acc acc' = (collected_bindings acc \<subseteq> collected_bindings acc' \<and> (ri_errors (fst acc') = [] \<longrightarrow> ri_errors (fst acc) = []))"

lemma grows_refl [simp]: "grows acc acc"
  by (simp add: grows_def)

lemma grows_trans: "grows a b \<Longrightarrow> grows b c \<Longrightarrow> grows a c"
  by (auto simp: grows_def)

lemma grows_fail [simp]: "grows acc (fail code (fst acc), seen)"
  by (simp add: grows_def collected_bindings_def)

lemma grows_note [simp]: "grows acc (note_key platform key a b (fst acc), seen)"
  by (simp add: grows_def collected_bindings_def note_key_def)

lemma bound_mono: "bound bs platform entry \<Longrightarrow> bs \<subseteq> cs \<Longrightarrow> bound cs platform entry"
  by (auto simp: bound_def)

lemma bind_grows: "grows acc (bind_id platform tenant value acc)"
  by (cases acc)
    (auto simp: grows_def collected_bindings_def bind_id_def Let_def split: pyval.split sum.split)

lemma bind_bound:
  "ri_errors (fst (bind_id platform tenant value acc)) = [] \<Longrightarrow>
     bound (collected_bindings (bind_id platform tenant value acc)) platform (Some tenant, Some value)"
  by (cases acc)
    (auto simp: bound_def collected_bindings_def bind_id_def Let_def split: pyval.splits sum.splits if_splits)

text \<open>A fold whose steps grow the bindings keeps what each step has bound.\<close>

lemma rfold_bound:
  assumes "rfold f acc items = Inr acc'" "\<And>a x b. f a x = Inr b \<Longrightarrow> grows a b"
    and "\<And>a x b. x \<in> set items \<Longrightarrow> f a x = Inr b \<Longrightarrow> ri_errors (fst b) = [] \<Longrightarrow> Q (collected_bindings b) x"
    and "\<And>bs cs x. Q bs x \<Longrightarrow> bs \<subseteq> cs \<Longrightarrow> Q cs x"
  shows "grows acc acc' \<and> (ri_errors (fst acc') = [] \<longrightarrow> (\<forall>x \<in> set items. Q (collected_bindings acc') x))"
  using assms(1,3)
proof (induction items arbitrary: acc)
  case (Cons x items)
  then obtain b where one: "f acc x = Inr b" and rest: "rfold f b items = Inr acc'" by (auto split: sum.splits)
  from Cons.IH [OF rest] Cons.prems(2) have later: "grows b acc'"
    "ri_errors (fst acc') = [] \<longrightarrow> (\<forall>x \<in> set items. Q (collected_bindings acc') x)" by auto
  moreover have "Q (collected_bindings acc') x" if "ri_errors (fst acc') = []"
    using Cons.prems(2) [OF _ one] that later(1) assms(4) [of "collected_bindings b" x] by (auto simp: grows_def)
  ultimately show ?case using assms(2) [OF one] grows_trans by auto
qed simp

lemma entry_grows: "collect_entry yaml platform acc item = Inr acc' \<Longrightarrow> grows acc acc'"
  by (auto simp: collect_entry_def rbind_Inr bind_grows split: if_splits prod.splits)

lemma construct_Inr: "construct yaml node = Inr v \<longleftrightarrow> my_construct yaml node = Some v"
  by (simp add: construct_def split: option.split)

lemma entry_bound:
  "collect_entry yaml platform acc (t, i) = Inr acc' \<Longrightarrow> ri_errors (fst acc') = [] \<Longrightarrow>
     bound (collected_bindings acc') platform (my_construct yaml t, my_construct yaml i)"
  by (auto simp: collect_entry_def rbind_Inr construct_Inr bind_bound split: if_splits)

lemma entries_bound:
  assumes "rfold (collect_entry yaml platform) acc items = Inr acc'"
  shows "grows acc acc' \<and> (ri_errors (fst acc') = [] \<longrightarrow>
    (\<forall>(t, i) \<in> set items. bound (collected_bindings acc') platform (my_construct yaml t, my_construct yaml i)))"
  by (rule rfold_bound [OF assms entry_grows, where Q = "\<lambda>bs (t, i). bound bs platform (my_construct yaml t, my_construct yaml i)"])
    (auto intro: entry_bound bound_mono)

definition key_bound :: "MigrationYaml \<Rightarrow> string \<Rightarrow> Binding set \<Rightarrow> mnode \<times> mnode \<Rightarrow> bool" where
  "key_bound yaml platform bs item = (\<forall>key entry. scalar_value (fst item) = Some key \<and> is_legacy_external_id_key (PStr key)
     \<and> entry \<in> set (id_entries yaml key (snd item)) \<longrightarrow> bound bs platform entry)"

lemma collect_key_bound:
  assumes "collect_key yaml platform acc item = Inr acc'"
  shows "grows acc acc' \<and> (ri_errors (fst acc') = [] \<longrightarrow> key_bound yaml platform (collected_bindings acc') item)"
proof -
  obtain key_node value_node where item: "item = (key_node, value_node)" by (cases item)
  show ?thesis
  proof (cases "\<exists>key. scalar_value key_node = Some key \<and> is_legacy_external_id_key (PStr key)")
    case False
    then show ?thesis
      using assms by (auto simp: item collect_key_def key_bound_def split: option.splits)
  next
    case True
    then obtain key where key: "scalar_value key_node = Some key" "is_legacy_external_id_key (PStr key)" by blast
    let ?acc = "(note_key platform key key_node value_node (fst acc), snd acc)"
    consider (items) items where "key \<in> set legacy_map_keys" "mapping_items value_node = Some items"
        "rfold (collect_entry yaml platform) ?acc items = Inr acc'"
      | (shape) "acc' = (fail Shape (fst ?acc), snd ?acc)"
      | (one) v where "key \<notin> set legacy_map_keys" "my_construct yaml value_node = Some v"
        "acc' = bind_id platform (PStr (drop (length legacy_tenant_prefix) key)) v ?acc"
      using assms key by (auto simp: item collect_key_def Let_def rbind_Inr construct_Inr split: option.splits if_splits)
    then show ?thesis
    proof cases
      case items
      then show ?thesis
        using entries_bound [OF items(3)] key grows_trans [OF grows_note]
        by (fastforce simp: key_bound_def id_entries_def item)
    next
      case shape
      then show ?thesis using grows_trans [OF grows_note grows_fail] by auto
    next
      case one
      have "grows acc acc'" unfolding one(3) by (rule grows_trans [OF grows_note bind_grows])
      moreover have "bound (collected_bindings acc') platform
          (Some (PStr (drop (length legacy_tenant_prefix) key)), my_construct yaml value_node)" if "ri_errors (fst acc') = []"
        using bind_bound that unfolding one(2,3) by blast
      ultimately show ?thesis
        using key one(1) by (simp add: key_bound_def id_entries_def item)
    qed
  qed
qed

lemma key_bound_mono: "key_bound yaml platform bs item \<Longrightarrow> bs \<subseteq> cs \<Longrightarrow> key_bound yaml platform cs item"
  unfolding key_bound_def using bound_mono by blast

definition block_bound :: "MigrationYaml \<Rightarrow> Binding set \<Rightarrow> mnode \<times> mnode \<Rightarrow> bool" where
  "block_bound yaml bs item = (\<forall>keys. mapping_items (snd item) = Some keys \<longrightarrow>
     (\<forall>key \<in> set keys. key_bound yaml (block_platform yaml (fst item)) bs key))"

lemma collect_block_bound:
  assumes "collect_block yaml acc item = Inr acc'"
  shows "grows acc acc' \<and> (ri_errors (fst acc') = [] \<longrightarrow> block_bound yaml (collected_bindings acc') item)"
proof (cases "mapping_items (snd item)")
  case None
  then show ?thesis using assms by (cases item) (simp add: collect_block_def block_bound_def Let_def)
next
  case (Some keys)
  then have "rfold (collect_key yaml (block_platform yaml (fst item))) acc keys = Inr acc'"
    using assms by (cases item) (simp add: collect_block_def block_platform_def Let_def)
  then have "grows acc acc' \<and> (ri_errors (fst acc') = [] \<longrightarrow>
      (\<forall>key \<in> set keys. key_bound yaml (block_platform yaml (fst item)) (collected_bindings acc') key))"
    by (rule rfold_bound) (use collect_key_bound key_bound_mono in blast)+
  then show ?thesis using Some by (simp add: block_bound_def)
qed

text \<open>A collection without an error has a binding for every id that the rule names.\<close>

lemma collect_bound:
  assumes "collect yaml no_ids root = Inr rule" "ri_errors rule = []" "names_id yaml root platform tenant value"
  shows "bound (set (ri_bindings rule)) platform (tenant, value)"
proof -
  from assms(3) obtain configurations blocks item keys key_node value_node key where
    c: "mapping_get root ''configurations'' = Some configurations" "mapping_items configurations = Some blocks"
    and b: "item \<in> set blocks" "block_platform yaml (fst item) = platform" "mapping_items (snd item) = Some keys"
    and k: "(key_node, value_node) \<in> set keys" "scalar_value key_node = Some key" "is_legacy_external_id_key (PStr key)"
      "(tenant, value) \<in> set (id_entries yaml key value_node)"
    unfolding names_id_def by (metis fst_conv snd_conv)
  from assms(1) c obtain acc where acc: "rfold (collect_block yaml) (no_ids, []) blocks = Inr acc" "rule = fst acc"
    by (auto simp: collect_def rbind_Inr)
  have mono: "block_bound yaml bs item \<Longrightarrow> bs \<subseteq> cs \<Longrightarrow> block_bound yaml cs item" for bs cs item
    unfolding block_bound_def using key_bound_mono by blast
  have "grows (no_ids, []) acc \<and> (ri_errors (fst acc) = [] \<longrightarrow> (\<forall>item \<in> set blocks. block_bound yaml (collected_bindings acc) item))"
    by (rule rfold_bound [OF acc(1)]) (use collect_block_bound mono in blast)+
  then have "block_bound yaml (collected_bindings acc) item" using assms(2) acc(2) b(1) by simp
  then show ?thesis
    using b k acc(2) by (force simp: block_bound_def key_bound_def collected_bindings_def)
qed


section \<open>Properties\<close>

lemma run_outcome:
  assumes "run_migrate_state yaml io ignore fs dir = (r, m)" "distinct (map fst fs)"
  shows "keeps_ids (start_migration fs dir) m"
    and "map_of (mg_files m) path \<noteq> map_of fs path \<Longrightarrow> moved yaml (map_of fs path) (map_of (mg_files m) path) (mg_dir m)"
    and "r = Inr 0 \<Longrightarrow> path \<in> set (rule_files fs) \<Longrightarrow> plan_rule yaml (map_of fs path) = Inr (rule, Some edited) \<Longrightarrow>
      moved yaml (map_of fs path) (map_of (mg_files m) path) (mg_dir m)"
proof -
  let ?s = "start_migration fs dir"
  have start: "mg_files ?s = fs" by (simp add: start_migration_def)
  have "keeps_ids ?s m
    \<and> (map_of (mg_files m) path \<noteq> map_of fs path \<longrightarrow> moved yaml (map_of fs path) (map_of (mg_files m) path) (mg_dir m))
    \<and> (r = Inr 0 \<longrightarrow> path \<in> set (rule_files fs) \<longrightarrow> plan_rule yaml (map_of fs path) = Inr (rule, Some edited) \<longrightarrow>
      moved yaml (map_of fs path) (map_of (mg_files m) path) (mg_dir m))"
  proof (cases ignore)
    case (Some i)
    then show ?thesis using assms(1) start by (auto simp: run_migrate_state_def ids.same)
  next
    case None
    obtain r1 m1 where loop: "each (migrate_file yaml io) (rule_files fs) ?s = (r1, m1)" by force
    from assms(1) None have m: "m = m1" and r: "r = Inr 0 \<longleftrightarrow> (\<exists>x. r1 = Inr x) \<and> mg_errors m = []"
      by (auto simp: run_migrate_state_def andthen_def loop split: sum.splits if_splits)
    note all = each_file_outcome [OF loop distinct_rule_files [OF assms(2)]]
    have unlisted: "map_of (mg_files m) path = map_of fs path" if "path \<notin> set (rule_files fs)"
      using all that by (simp add: other_files_def m start)
    have "keeps_ids ?s m" using all by (simp add: other_files_def m)
    moreover have "moved yaml (map_of fs path) (map_of (mg_files m) path) (mg_dir m)"
      if changed: "map_of (mg_files m) path \<noteq> map_of fs path"
    proof -
      have "path \<in> set (rule_files fs)" using unlisted changed by blast
      then have "file_outcome yaml path ?s m" using all changed by (simp add: m start)
      then show ?thesis using changed by (simp add: file_outcome_def start)
    qed
    moreover have "moved yaml (map_of fs path) (map_of (mg_files m) path) (mg_dir m)"
      if "r = Inr 0" "path \<in> set (rule_files fs)" "plan_rule yaml (map_of fs path) = Inr (rule, Some edited)"
    proof -
      have "file_outcome yaml path ?s m" using all that r by (auto simp: m)
      moreover have "path \<notin> reported m" using that(1) r by (simp add: reported_def)
      ultimately show ?thesis using that(3) by (auto simp: file_outcome_def start split: if_splits)
    qed
    ultimately show ?thesis by blast
  qed
  then show "keeps_ids (start_migration fs dir) m"
    "map_of (mg_files m) path \<noteq> map_of fs path \<Longrightarrow> moved yaml (map_of fs path) (map_of (mg_files m) path) (mg_dir m)"
    "r = Inr 0 \<Longrightarrow> path \<in> set (rule_files fs) \<Longrightarrow> plan_rule yaml (map_of fs path) = Inr (rule, Some edited) \<Longrightarrow>
      moved yaml (map_of fs path) (map_of (mg_files m) path) (mg_dir m)" by blast+
qed

lemma moved_iff: "moved yaml before after dir \<longleftrightarrow>
    (\<exists>rule edited. plan_rule yaml before = Inr (rule, Some edited) \<and> after = Some (utf8_encode edited)
       \<and> (\<forall>b \<in> set (shard_bindings rule). recorded dir rule b))"
  by (auto simp: moved_def list_all_iff split: sum.split option.split)

definition foreign_bindings :: "string \<Rightarrow> RuleIds \<Rightarrow> (string \<times> Binding) list" where
  "foreign_bindings path rule = map (Pair path) (filter (\<lambda>b. bd_platform b \<notin> set migrated_platforms) (ri_bindings rule))"

lemma move_ids_unused: "mg_unused (move_ids io path edited rule state m) = mg_unused m"
proof -
  obtain r m1 where "save_bindings io state (shard_bindings rule) m = (r, m1)" by force
  moreover from this have "mg_unused m1 = mg_unused m"
    by (auto simp: save_bindings_def split: option.splits if_splits sum.splits prod.splits)
  ultimately show ?thesis by (cases r) (simp_all add: move_ids_def andthen_def write_rule_def)
qed

lemma check_shard_bindings: "check_shard planned dir = (rule, state) \<Longrightarrow> ri_bindings rule = ri_bindings planned"
proof -
  have "ri_bindings (fold (\<lambda>b r. if conflicts st b then fail Conflict r else r) bs planned) = ri_bindings planned" for st bs
    by (induction bs arbitrary: planned) auto
  moreover assume "check_shard planned dir = (rule, state)"
  ultimately show ?thesis by (auto simp: check_shard_def split: option.splits if_splits sum.splits)
qed

text \<open>The ids of other platforms are in the report of a run before their file is written.\<close>

lemma migrate_file_unused:
  assumes "migrate_file yaml io path m = (r, m')"
  shows "set (mg_unused m) \<subseteq> set (mg_unused m')"
    and "map_of (mg_files m') path \<noteq> map_of (mg_files m) path \<Longrightarrow>
      plan_rule yaml (map_of (mg_files m) path) = Inr (rule, Some edited) \<Longrightarrow>
      set (foreign_bindings path rule) \<subseteq> set (mg_unused m')"
  using assms
  by (auto simp: migrate_file_def foreign_bindings_def report_unused_def move_ids_unused Let_def
      dest: check_shard_bindings split: sum.splits prod.splits if_splits option.splits)

lemma each_file_unused:
  assumes "each (migrate_file yaml io) paths m = (r, m')" "distinct paths"
  shows "set (mg_unused m) \<subseteq> set (mg_unused m')
    \<and> (\<forall>rule edited. map_of (mg_files m') path \<noteq> map_of (mg_files m) path \<and> plan_rule yaml (map_of (mg_files m) path) = Inr (rule, Some edited)
         \<longrightarrow> set (foreign_bindings path rule) \<subseteq> set (mg_unused m'))"
  using assms
proof (induction paths arbitrary: m r)
  case (Cons p ps)
  obtain r1 m1 where one: "migrate_file yaml io p m = (r1, m1)" by force
  have first: "other_files {p} m m1" by (rule migrate_file_result(1) [OF one])
  show ?case
  proof (cases r1)
    case (Inl e)
    then have "m' = m1" using Cons.prems(1) by (auto simp: andthen_def one)
    then show ?thesis
      using migrate_file_unused [OF one] first by (cases "path = p") (auto simp: other_files_def)
  next
    case (Inr u)
    obtain r2 where rest: "each (migrate_file yaml io) ps m1 = (r2, m')"
      using Cons.prems(1) Inr one by (auto simp: andthen_def ret_def split: prod.splits sum.splits)
    have later: "other_files (set ps) m1 m'" using each_file_outcome [OF rest] Cons.prems(2) by simp
    note ih = Cons.IH [OF rest]
    show ?thesis
    proof (cases "path = p")
      case True
      then have "map_of (mg_files m') path = map_of (mg_files m1) path"
        using later Cons.prems(2) by (simp add: other_files_def)
      then show ?thesis using migrate_file_unused [OF one] ih Cons.prems(2) True by fastforce
    next
      case False
      then have "map_of (mg_files m1) path = map_of (mg_files m) path" using first by (simp add: other_files_def)
      then show ?thesis using migrate_file_unused(1) [OF one] ih Cons.prems(2) by auto
    qed
  qed
qed (simp add: ret_def)

lemma run_unused:
  assumes "run_migrate_state yaml io ignore fs dir = (r, m)" "distinct (map fst fs)" "map_of (mg_files m) path \<noteq> map_of fs path"
    and "plan_rule yaml (map_of fs path) = Inr (rule, Some edited)"
  shows "set (foreign_bindings path rule) \<subseteq> set (mg_unused m)"
proof (cases ignore)
  case (Some i)
  then show ?thesis using assms(1,3) by (auto simp: run_migrate_state_def start_migration_def)
next
  case None
  obtain r1 m1 where loop: "each (migrate_file yaml io) (rule_files fs) (start_migration fs dir) = (r1, m1)" by force
  from assms(1) None have "m = m1" by (auto simp: run_migrate_state_def andthen_def loop split: sum.splits)
  then show ?thesis
    using each_file_unused [OF loop distinct_rule_files [OF assms(2)], of path] assms(3,4)
    by (auto simp: start_migration_def)
qed

lemma plan_rule_collected:
  assumes "plan_rule yaml raw = Inr (rule, Some edited)"
  shows "\<exists>bytes text root original reparsed collected raw_uuid. raw = Some bytes \<and> utf8_decode bytes = Some text
    \<and> my_compose yaml text = Some (Some root) \<and> my_load yaml text = Some original \<and> my_load yaml edited = Some reparsed
    \<and> same_value (value_of reparsed) (value_of (expected_document original))
    \<and> collect yaml no_ids root = Inr collected \<and> ri_errors collected = [] \<and> ri_bindings collected = ri_bindings rule
    \<and> raw_uuid_of yaml root = Inr raw_uuid
    \<and> (shard_bindings rule \<noteq> [] \<longrightarrow> (\<exists>u. ri_uuid rule = Some u \<and> canonical_uuid raw_uuid = canonical_uuid (PStr u)))"
proof -
  from assms obtain bytes "text" root collected raw_uuid where read: "raw = Some bytes" "utf8_decode bytes = Some text"
    "my_compose yaml text = Some (Some root)" and c: "collect yaml no_ids root = Inr collected"
    and u: "raw_uuid_of yaml root = Inr raw_uuid"
    and e: "edit_rule yaml text (with_uuid raw_uuid collected) = (rule, Some edited)"
    by (auto simp: plan_rule_def rbind_Inr split: option.splits if_splits)
  from e obtain original reparsed where doc: "my_load yaml text = Some original" "my_load yaml edited = Some reparsed"
    "same_value (value_of reparsed) (value_of (expected_document original))"
    and rule: "rule = with_uuid raw_uuid collected" "ri_errors rule = []"
    by (auto simp: edit_rule_def Let_def split: if_splits option.splits)
  have same: "ri_bindings collected = ri_bindings rule" by (simp add: rule(1) with_uuid_def split: sum.split)
  have free: "ri_errors collected = []" using rule by (auto simp: with_uuid_def split: if_splits sum.splits)
  have "\<exists>u. ri_uuid rule = Some u \<and> canonical_uuid raw_uuid = canonical_uuid (PStr u)" if "shard_bindings rule \<noteq> []"
  proof -
    have some: "shard_bindings collected \<noteq> []" using that same by (simp add: shard_bindings_def)
    then obtain p where p: "shard_path raw_uuid = Inr p" "ri_uuid rule = json_stem p"
      using rule by (auto simp: with_uuid_def split: sum.splits)
    then obtain c where c: "canonical_uuid raw_uuid = Inr c" "p = c @ ''.json''" by (auto simp: shard_path_def rbind_Inr)
    moreover from c(1) have "c \<noteq> []" by (elim canonical_uuid_range) simp
    ultimately show ?thesis using p(2) canonical_uuid_idem [OF c(1)] by simp
  qed
  then show ?thesis using read doc c u same free by blast
qed

text \<open>
  C11: A migration never loses a vendor id, whichever writes fail and whether or not the run ends early. A file
  that is changed holds the text planned for it, which loads as the document without its legacy keys; and every
  id that a legacy key of its platform blocks named is accounted for: the tenant and the id are well formed, the
  id of a migrated platform is in the shard of the rule's uuid, and that of another platform is in the report.
\<close>

theorem migration_never_loses_an_id:
  assumes "run_migrate_state yaml io ignore fs dir = (r, m)" "distinct (map fst fs)"
    and "map_of (mg_files m) path \<noteq> map_of fs path"
  shows "\<exists>bytes text root rule edited original reparsed. map_of fs path = Some bytes \<and> utf8_decode bytes = Some text
    \<and> my_compose yaml text = Some (Some root) \<and> plan_rule yaml (Some bytes) = Inr (rule, Some edited)
    \<and> map_of (mg_files m) path = Some (utf8_encode edited)
    \<and> my_load yaml text = Some original \<and> my_load yaml edited = Some reparsed
    \<and> same_value (value_of reparsed) (value_of (expected_document original))
    \<and> (\<forall>platform tenant value. names_id yaml root platform tenant value \<longrightarrow>
        (\<exists>t v stored. tenant = Some (PStr t) \<and> value = Some v \<and> normalise_external_id platform v = Inr stored
          \<and> (if platform \<in> set migrated_platforms
             then \<exists>u st. raw_uuid_of yaml root = Inr u \<and> load_state (mg_dir m) u = Inr st \<and> state_get st platform t = Some stored
             else (path, \<lparr>bd_platform = platform, bd_tenant = py_strip t, bd_value = v, bd_stored = stored\<rparr>) \<in> set (mg_unused m))))"
proof -
  from run_outcome(2) [OF assms] obtain rule edited where plan: "plan_rule yaml (map_of fs path) = Inr (rule, Some edited)"
    and after: "map_of (mg_files m) path = Some (utf8_encode edited)"
    and saved: "\<forall>b \<in> set (shard_bindings rule). recorded (mg_dir m) rule b"
    unfolding moved_iff by blast
  from plan_rule_collected [OF plan] obtain bytes "text" root original reparsed collected raw_uuid where
    p: "map_of fs path = Some bytes" "utf8_decode bytes = Some text" "my_compose yaml text = Some (Some root)"
      "my_load yaml text = Some original" "my_load yaml edited = Some reparsed"
      "same_value (value_of reparsed) (value_of (expected_document original))"
    and c: "collect yaml no_ids root = Inr collected" "ri_errors collected = []" "ri_bindings collected = ri_bindings rule"
    and u: "raw_uuid_of yaml root = Inr raw_uuid"
      "shard_bindings rule \<noteq> [] \<longrightarrow> (\<exists>u. ri_uuid rule = Some u \<and> canonical_uuid raw_uuid = canonical_uuid (PStr u))" by blast
  have "\<exists>t v stored. tenant = Some (PStr t) \<and> ident = Some v \<and> normalise_external_id platform v = Inr stored
      \<and> (if platform \<in> set migrated_platforms
         then \<exists>u st. raw_uuid_of yaml root = Inr u \<and> load_state (mg_dir m) u = Inr st \<and> state_get st platform t = Some stored
         else (path, \<lparr>bd_platform = platform, bd_tenant = py_strip t, bd_value = v, bd_stored = stored\<rparr>) \<in> set (mg_unused m))"
    if named: "names_id yaml root platform tenant ident" for platform tenant ident
  proof -
    from collect_bound [OF c(1,2) named] obtain t v stored where t: "tenant = Some (PStr t)" "ident = Some v"
      "normalise_external_id platform v = Inr stored"
      and b: "\<lparr>bd_platform = platform, bd_tenant = py_strip t, bd_value = v, bd_stored = stored\<rparr> \<in> set (ri_bindings rule)"
      by (auto simp: bound_def c(3))
    show ?thesis
    proof (cases "platform \<in> set migrated_platforms")
      case True
      then have in_shard: "\<lparr>bd_platform = platform, bd_tenant = py_strip t, bd_value = v, bd_stored = stored\<rparr> \<in> set (shard_bindings rule)"
        using b by (simp add: shard_bindings_def)
      from saved in_shard obtain w st where w: "ri_uuid rule = Some w" "load_state (mg_dir m) (PStr w) = Inr st"
        "state_get st platform (py_strip t) = Some stored" unfolding recorded_iff by fastforce
      have "load_state (mg_dir m) raw_uuid = Inr st"
        using u(2) in_shard w load_state_canonical by (metis empty_iff list.set(1) option.inject)
      moreover have "state_get st platform t = Some stored" using w(3) by (simp add: state_get_def tenant_key_def)
      ultimately show ?thesis using t u(1) True by auto
    next
      case False
      then show ?thesis
        using t b run_unused [OF assms plan] by (auto simp: foreign_bindings_def)
    qed
  qed
  then show ?thesis using p plan after by (metis (no_types, lifting))
qed

text \<open>
  A migration never changes or drops an id that a shard already holds: every shard that could be
  read can still be read, with every binding it had.
\<close>

theorem migration_keeps_recorded_ids:
  assumes "run_migrate_state yaml io ignore fs dir = (r, m)" "distinct (map fst fs)" "load_state dir v = Inr st"
  shows "\<exists>st'. load_state (mg_dir m) v = Inr st' \<and> (\<forall>p t x. state_get st p t = Some x \<longrightarrow> state_get st' p t = Some x)"
  using run_outcome(1) [OF assms(1,2)] assms(3) by (simp add: keeps_ids_def start_migration_def)

text \<open>
  A run that exits 0 has moved the ids of every rule file that holds some: the file is the edited text
  and the shard has the ids. A file that cannot be migrated makes the exit code 1.
\<close>

theorem migration_exit_zero_is_complete:
  assumes "run_migrate_state yaml io ignore fs dir = (Inr 0, m)" "distinct (map fst fs)"
    and "path \<in> set (rule_files fs)" "plan_rule yaml (map_of fs path) = Inr (rule, Some edited)"
  shows "map_of (mg_files m) path = Some (utf8_encode edited)
    \<and> (\<forall>b \<in> set (shard_bindings rule). recorded (mg_dir m) rule b)"
  using run_outcome(3) [OF assms(1,2) refl assms(3,4)] assms(4) by (auto simp: moved_iff)


lemma put_recorded:
  assumes "\<forall>b \<in> set bs. state_get st (bd_platform b) (bd_tenant b) = Some (bd_stored b)"
  shows "rfold put_changed (st, ch) bs = Inr (st, ch)"
  using assms by (induction bs) (simp_all add: put_changed_def)

lemma conflict_fold_none:
  "\<forall>b \<in> set bs. \<not> conflicts st b \<Longrightarrow> fold (\<lambda>b r. if conflicts st b then fail Conflict r else r) bs rule = rule"
  by (induction bs arbitrary: rule) auto

text \<open>
  C31: A run that was cut off between its two writes is completed by the next one: when the ids of a rule are
  in its shard and still on the file, the file is migrated, no shard is written, no error is reported and the
  other files stay as they are.
\<close>

theorem interrupted_migration_completes:
  assumes "plan_rule yaml (map_of (mg_files m) path) = Inr (rule, Some edited)"
    and "\<forall>b \<in> set (shard_bindings rule). recorded (mg_dir m) rule b"
    and "io_rules io path"
  shows "\<exists>m'. migrate_file yaml io path m = (Inr (), m') \<and> mg_files m' = AList.update path (utf8_encode edited) (mg_files m)
    \<and> mg_dir m' = mg_dir m \<and> mg_errors m' = mg_errors m \<and> mg_shards_written m' = mg_shards_written m"
proof -
  note ok = plan_rule_ok [OF assms(1)]
  obtain state where check: "check_shard rule (mg_dir m) = (rule, state)"
    and save: "\<And>k. save_bindings io state (shard_bindings rule) k = (Inr (), k)"
  proof (cases "shard_bindings rule = []")
    case True
    then have "check_shard rule (mg_dir m) = (rule, None)" by (simp add: check_shard_def split: option.split)
    moreover have "save_bindings io None (shard_bindings rule) k = (Inr (), k)" for k by (simp add: save_bindings_def)
    ultimately show thesis by (rule that)
  next
    case False
    then obtain u st where u: "ri_uuid rule = Some u" "load_state (mg_dir m) (PStr u) = Inr st"
      using assms(2) unfolding recorded_iff by (meson last_in_set)
    then have held: "\<forall>b \<in> set (shard_bindings rule). state_get st (bd_platform b) (bd_tenant b) = Some (bd_stored b)"
      using assms(2) unfolding recorded_iff by auto
    then have "\<forall>b \<in> set (shard_bindings rule). \<not> conflicts st b" by (simp add: conflicts_def)
    then have "check_shard rule (mg_dir m) = (rule, Some st)"
      using u False by (simp add: check_shard_def conflict_fold_none)
    moreover have "save_bindings io (Some st) (shard_bindings rule) k = (Inr (), k)" for k
      using False put_recorded [OF held] by (simp add: save_bindings_def)
    ultimately show thesis by (rule that)
  qed
  have same: "mg_dir (report_unused path rule m) = mg_dir m" "mg_files (report_unused path rule m) = mg_files m"
    "mg_errors (report_unused path rule m) = mg_errors m" "mg_shards_written (report_unused path rule m) = mg_shards_written m"
    by (simp_all add: report_unused_def)
  show ?thesis
    using assms(3) ok(2) check save
    by (simp add: migrate_file_def assms(1) move_ids_def andthen_def write_rule_def same)
qed

lemma same_value_dict:
  "same_value (PDict a) w \<Longrightarrow> (k, v) \<in> set a \<Longrightarrow> \<exists>b v'. w = PDict b \<and> map_of b k = Some v' \<and> same_value v v'"
  by (cases w) (auto simp: list_all_iff split: option.splits)

text \<open>A loaded value whose dictionaries and lists all have their identity.\<close>

fun plain_atoms :: "lval \<Rightarrow> bool" where
  "plain_atoms (LAtom v) = (case v of PDict d \<Rightarrow> False | PList xs \<Rightarrow> False | _ \<Rightarrow> True)"
| "plain_atoms (LSeq i xs) = list_all plain_atoms xs"
| "plain_atoms (LMap i kvs) = list_all (\<lambda>(k, v). plain_atoms v) kvs"

lemma value_of_dict:
  assumes "value_of (without_ids blocks v) = PDict d" "plain_atoms v" "(k, w) \<in> set d"
  shows "\<exists>i kvs x. v = LMap i kvs \<and> (i \<in> set blocks \<longrightarrow> \<not> is_legacy_external_id_key k)
    \<and> (k, x) \<in> set kvs \<and> plain_atoms x \<and> value_of (without_ids blocks x) = w"
proof (cases v)
  case (LMap i kvs)
  with assms show ?thesis by (fastforce simp: Let_def list_all_iff split: if_splits)
qed (use assms in \<open>auto split: pyval.splits\<close>)

lemma child_without_ids: "child_at ''configurations'' (without_ids blocks v) = map_option (without_ids blocks) (child_at ''configurations'' v)"
proof -
  have "\<not> is_legacy_external_id_key (PStr ''configurations'')"
    by (simp add: is_legacy_external_id_key_def legacy_map_keys_def legacy_tenant_prefix_def)
  then have "map_of (filter (\<lambda>(k, v). \<not> is_legacy_external_id_key k) kvs) (PStr ''configurations'') = map_of kvs (PStr ''configurations'')"
    for kvs :: "(pyval \<times> lval) list"
    by (induction kvs) auto
  then show ?thesis by (cases v) (simp_all add: child_at_def Let_def map_of_second)
qed

lemma child_value:
  "value_of v = PDict e \<Longrightarrow> map_of e (PStr key) = Some w \<Longrightarrow> plain_atoms v \<Longrightarrow> \<exists>x. child_at key v = Some x \<and> value_of x = w"
  by (cases v) (auto simp: child_at_def map_of_second)

lemma plain_without_ids: "plain_atoms v \<Longrightarrow> plain_atoms (without_ids blocks v)"
  by (induction blocks v rule: without_ids.induct) (fastforce simp: list_all_iff Let_def)+

lemma expected_document_dict:
  assumes "value_of (expected_document original) = PDict e" "plain_atoms original" "map_of e (PStr ''configurations'') = Some (PDict c)"
    and "(p, PDict b) \<in> set c" "(k, v) \<in> set b"
  shows "\<not> is_legacy_external_id_key k"
proof -
  have "plain_atoms (expected_document original)"
    using assms(2) plain_without_ids by (auto simp: expected_document_def split: option.split lval.split)
  from child_value [OF assms(1,3) this] obtain x where x: "child_at ''configurations'' (expected_document original) = Some x"
    "value_of x = PDict c" by blast
  obtain y where y: "child_at ''configurations'' original = Some y"
    using x(1) child_without_ids by (cases "child_at ''configurations'' original") (auto simp: expected_document_def)
  have plain: "plain_atoms y"
    using y assms(2) by (cases original) (auto simp: child_at_def list_all_iff dest: map_of_SomeD)
  show ?thesis
  proof (cases y)
    case (LMap i blocks)
    let ?ids = "platform_blocks blocks"
    have "x = without_ids ?ids y" using x(1) y LMap by (simp add: expected_document_def child_without_ids)
    with x(2) have "value_of (without_ids ?ids y) = PDict c" by simp
    from value_of_dict [OF this plain assms(4)] LMap obtain z where z: "(p, z) \<in> set blocks" "plain_atoms z"
      "value_of (without_ids ?ids z) = PDict b" by blast
    from value_of_dict [OF z(3,2) assms(5)] obtain j kvs where j: "z = LMap j kvs" "j \<in> set ?ids \<longrightarrow> \<not> is_legacy_external_id_key k" by blast
    have "j \<in> set ?ids" using z(1) j(1) by (force simp: platform_blocks_def)
    with j(2) show ?thesis by blast
  qed (use x y plain in \<open>auto simp: expected_document_def split: pyval.splits\<close>)
qed

lemma same_value_legacy:
  assumes "same_value (PDict a) (value_of (expected_document original))" "plain_atoms original"
  shows "legacy_external_id_keys a = []"
proof (cases "dget_dict a ''configurations''")
  case (Some ca)
  have "\<not> is_legacy_external_id_key k" if b: "(p, PDict b) \<in> set ca" "(k, v) \<in> set b" for p b k v
  proof -
    have "(PStr ''configurations'', PDict ca) \<in> set a"
      using Some by (auto simp: dget_dict_Some dget_def dest: map_of_SomeD)
    from same_value_dict [OF assms(1) this] obtain e w where e: "value_of (expected_document original) = PDict e"
      "map_of e (PStr ''configurations'') = Some w" "same_value (PDict ca) w" by blast
    from same_value_dict [OF e(3) b(1)] obtain cb w1 where cb: "w = PDict cb" "map_of cb p = Some w1" "same_value (PDict b) w1" by blast
    from same_value_dict [OF cb(3) b(2)] obtain d w2 where "w1 = PDict d" "map_of d k = Some w2" by blast
    then show ?thesis
      using expected_document_dict [OF e(1) assms(2)] e(2) cb(1,2) by (meson map_of_SomeD)
  qed
  then show ?thesis
    using Some by (auto simp: legacy_external_id_keys_def filter_empty_conv split: option.splits)
qed (simp add: legacy_external_id_keys_def)

lemma subseq_filter_snd: "subseq (map snd (filter P (zip ns xs))) xs"
proof (induction xs arbitrary: ns)
  case (Cons x xs)
  then show ?case by (cases ns) auto
qed simp

lemma concat_keep_lines: "concat (keep_lines acc s) = rev acc @ s"
  by (induction acc s rule: keep_lines.induct) auto

text \<open>
  An edited rule file is the file without some of its lines and with nothing rewritten; its document is
  the original document without the legacy id keys of its platform blocks, and none is left.
\<close>

theorem migration_only_removes_id_lines:
  assumes "plan_rule yaml (Some bytes) = Inr (rule, Some edited)"
  shows "\<exists>text original reparsed lines. utf8_decode bytes = Some text \<and> my_load yaml text = Some original
    \<and> my_load yaml edited = Some reparsed \<and> same_value (value_of reparsed) (value_of (expected_document original))
    \<and> (\<forall>d. plain_atoms original \<longrightarrow> value_of reparsed = PDict d \<longrightarrow> legacy_external_id_keys d = [])
    \<and> concat (keep_lines [] text) = text \<and> subseq lines (keep_lines [] text) \<and> edited = concat lines"
proof -
  from assms obtain collected raw_uuid "text" where "text": "utf8_decode bytes = Some text"
    and e: "edit_rule yaml text (with_uuid raw_uuid collected) = (rule, Some edited)"
    by (auto simp: plan_rule_def rbind_Inr split: option.splits if_splits)
  from e obtain original reparsed where doc: "my_load yaml text = Some original" "my_load yaml edited = Some reparsed"
    "same_value (value_of reparsed) (value_of (expected_document original))" and edited: "edited = strip_lines text (ri_spans rule)"
    by (auto simp: edit_rule_def Let_def split: if_splits option.splits)
  obtain P where "strip_lines text (ri_spans rule) = concat (map snd (filter P (enumerate 0 (keep_lines [] text))))"
    unfolding strip_lines_def by blast
  then have "edited = concat (map snd (filter P (zip [0..<length (keep_lines [] text)] (keep_lines [] text))))"
    by (simp add: edited enumerate_eq_zip)
  moreover have "legacy_external_id_keys d = []" if "plain_atoms original" "value_of reparsed = PDict d" for d
    using same_value_legacy doc(3) that by metis
  ultimately show ?thesis
    using "text" doc subseq_filter_snd concat_keep_lines [of "[]" "text"] by (metis append_Nil rev.simps(1))
qed


section \<open>Witnesses\<close>

text \<open>A rule with one CrowdStrike id on its second line.\<close>

definition sample_text :: string where
  "sample_text = ''name: a'' @ [CHR 0x0A] @ ''rule_id::Prod: x'' @ [CHR 0x0A]"

definition sample_edited :: string where
  "sample_edited = ''name: a'' @ [CHR 0x0A]"

definition sample_root :: mnode where
  "sample_root = MMapping False 0 1
     [(MScalar ''metadata'' 0 0 8, MMapping False 0 0 [(MScalar ''uuid'' 0 0 4, MScalar (uuid_str 7) 0 0 40)]),
      (MScalar ''configurations'' 0 0 14, MMapping False 0 1
         [(MScalar ''crowdstrike'' 0 0 11, MMapping False 1 1 [(MScalar ''rule_id::Prod'' 1 1 13, MScalar ''ab12'' 1 1 16)])])]"

definition sample_migration :: MigrationYaml where
  "sample_migration = \<lparr>my_compose = (\<lambda>_. Some (Some sample_root)), my_load = (\<lambda>_. Some (LAtom PNone)),
     my_construct = (\<lambda>n. map_option PStr (scalar_value n)), my_key_text = (\<lambda>_. [])\<rparr>"

definition sample_binding :: Binding where
  "sample_binding = \<lparr>bd_platform = ''crowdstrike'', bd_tenant = ''Prod'', bd_value = PStr ''ab12'', bd_stored = ''ab12''\<rparr>"

definition sample_ids :: RuleIds where
  "sample_ids = \<lparr>ri_uuid = Some (uuid_str 7), ri_bindings = [sample_binding], ri_spans = [(1, 1)],
     ri_removed = [(''crowdstrike'', ''rule_id::Prod'')], ri_errors = []\<rparr>"

definition sample_io :: MigrationIO where
  "sample_io = \<lparr>io_shards = True, io_rules = (\<lambda>_. True)\<rparr>"

lemma sample_collect: "collect sample_migration no_ids sample_root = Inr (sample_ids\<lparr>ri_uuid := None\<rparr>)"
  by (simp add: collect_def sample_root_def mapping_get_def collect_block_def collect_key_def bind_id_def note_key_def
      construct_def sample_migration_def is_legacy_external_id_key_def legacy_map_keys_def legacy_tenant_prefix_def
      py_strip_def py_rstrip_def py_lstrip_def is_py_space_def normalise_external_id.simps
      integer_id_platforms_def no_ids_def sample_ids_def sample_binding_def Let_def)

lemma sample_strip: "strip_lines sample_text [(1, 1)] = sample_edited"
  by (simp add: strip_lines_def sample_text_def sample_edited_def enumerate_eq_zip)

lemma sample_migration_plan: "plan_rule sample_migration (Some (utf8_encode sample_text)) = Inr (sample_ids, Some sample_edited)"
proof -
  have "raw_uuid_of sample_migration sample_root = Inr (PStr (uuid_str 7))"
    by (simp add: raw_uuid_of_def sample_root_def mapping_get_def construct_def sample_migration_def)
  moreover have "with_uuid (PStr (uuid_str 7)) (sample_ids\<lparr>ri_uuid := None\<rparr>) = sample_ids"
    by (simp add: with_uuid_def shard_bindings_def sample_ids_def sample_binding_def migrated_platforms_def shard_path_def sample_uuid)
  moreover have "contains_str ''rule_id'' sample_text" by (simp add: sample_text_def contains_str.simps)
  moreover have "edit_rule sample_migration sample_text sample_ids = (sample_ids, Some sample_edited)"
  proof -
    have "ri_spans sample_ids = [(1, 1)]" "ri_errors sample_ids = []" by (simp_all add: sample_ids_def)
    moreover have "\<not> unsupported_breaks sample_text" by (simp add: sample_text_def)
    ultimately show ?thesis
      by (simp add: edit_rule_def sample_strip [unfolded One_nat_def] sample_migration_def expected_document_def child_at_def Let_def)
  qed
  moreover have "my_compose sample_migration sample_text = Some (Some sample_root)" by (simp add: sample_migration_def)
  moreover have "ri_removed (sample_ids\<lparr>ri_uuid := None\<rparr>) \<noteq> []" by (simp add: sample_ids_def)
  ultimately show ?thesis
    by (simp add: plan_rule_def utf8_roundtrip sample_collect)
qed


definition sample_path :: string where
  "sample_path = ''a.yaml''"

definition sample_files :: files where
  "sample_files = [(sample_path, utf8_encode sample_text)]"

lemma sample_shard: "shard_bindings sample_ids = [sample_binding]"
  by (simp add: shard_bindings_def sample_ids_def sample_binding_def migrated_platforms_def)

lemma sample_check: "check_shard sample_ids [] = (sample_ids, Some (empty_state (uuid_str 7 @ ''.json'') (uuid_str 7)))"
proof -
  have "ri_uuid sample_ids = Some (uuid_str 7)" by (simp add: sample_ids_def)
  moreover have "\<not> conflicts (empty_state (uuid_str 7 @ ''.json'') (uuid_str 7)) sample_binding"
    by (simp add: conflicts_def state_get_def empty_state_def tenants_of_def)
  ultimately show ?thesis by (simp add: check_shard_def sample_shard sample_load)
qed

lemma sample_saved: "\<exists>m'. save_bindings sample_io (Some (empty_state (uuid_str 7 @ ''.json'') (uuid_str 7))) [sample_binding] m = (Inr (), m')"
  if "mg_dir m = []"
proof -
  let ?st = "empty_state (uuid_str 7 @ ''.json'') (uuid_str 7)"
  have none: "state_get ?st ''crowdstrike'' ''Prod'' = None" by (simp add: state_get_def empty_state_def tenants_of_def)
  have "\<exists>st'. state_set ?st ''crowdstrike'' ''Prod'' (PStr ''ab12'') = Inr (''ab12'', st') \<and> st_platforms st' \<noteq> []"
    by (simp add: state_set_def tenant_key_def py_strip_def py_rstrip_def py_lstrip_def is_py_space_def
        normalise_external_id.simps state_platforms_def integer_id_platforms_def put_binding_def)
  then obtain st' where set: "state_set ?st ''crowdstrike'' ''Prod'' (PStr ''ab12'') = Inr (''ab12'', st')" "st_platforms st' \<noteq> []" by blast
  then have "rfold put_changed (?st, False) [sample_binding] = Inr (st', True)"
    by (simp add: put_changed_def sample_binding_def none)
  moreover have "\<exists>dir'. save_state True st' [] = Inr (st'\<lparr>st_exists := True\<rparr>, dir')"
    using set(2) by (simp add: save_state_def write_durable_def)
  ultimately show ?thesis using that by (auto simp: save_bindings_def sample_io_def)
qed

lemma sample_run:
  obtains m where "run_migrate_state sample_migration sample_io None sample_files [] = (Inr 0, m)"
    and "map_of (mg_files m) sample_path = Some (utf8_encode sample_edited)"
proof -
  let ?s = "start_migration sample_files []"
  let ?m = "report_unused sample_path sample_ids ?s"
  have dir: "mg_dir ?m = []" "mg_errors ?m = []" by (simp_all add: report_unused_def start_migration_def)
  obtain m1 where save: "save_bindings sample_io (Some (empty_state (uuid_str 7 @ ''.json'') (uuid_str 7))) [sample_binding] ?m = (Inr (), m1)"
    using sample_saved [OF dir(1)] by blast
  define m2 where "m2 = m1\<lparr>mg_files := AList.update sample_path (utf8_encode sample_edited) (mg_files m1),
     mg_migrated := mg_migrated m1 @ [(sample_path, [sample_binding])]\<rparr>"
  have moved: "move_ids sample_io sample_path sample_edited sample_ids (Some (empty_state (uuid_str 7 @ ''.json'') (uuid_str 7))) ?m = m2"
    by (simp add: move_ids_def andthen_def sample_shard save write_rule_def m2_def) (simp add: sample_io_def)
  have "map_of (mg_files ?s) sample_path = Some (utf8_encode sample_text)" "mg_dir ?s = []"
    by (simp_all add: start_migration_def sample_files_def)
  then have one: "migrate_file sample_migration sample_io sample_path ?s = (Inr (), m2)"
    using plan_rule_ok(2) [OF sample_migration_plan] by (simp add: migrate_file_def sample_migration_plan sample_check moved)
  have "rule_files sample_files = [sample_path]"
    by (simp add: rule_files_def sample_files_def sample_path_def ends_with_def)
  moreover have "mg_errors m2 = []" using save_bindings_fields [OF save] dir(2) by (simp add: m2_def)
  ultimately have "run_migrate_state sample_migration sample_io None sample_files [] = (Inr 0, m2)"
    by (simp add: run_migrate_state_def andthen_def one ret_def)
  moreover have "map_of (mg_files m2) sample_path = Some (utf8_encode sample_edited)" by (simp add: m2_def)
  ultimately show thesis by (rule that)
qed

lemma sample_listed: "distinct (map fst sample_files)" "sample_path \<in> set (rule_files sample_files)"
  "map_of sample_files sample_path = Some (utf8_encode sample_text)"
  by (simp_all add: sample_files_def rule_files_def sample_path_def ends_with_def)

lemma sample_differs: "utf8_encode sample_edited \<noteq> utf8_encode sample_text"
proof
  assume "utf8_encode sample_edited = utf8_encode sample_text"
  then have "sample_edited = sample_text" using utf8_roundtrip by (metis option.inject)
  then show False by (simp add: sample_edited_def sample_text_def)
qed

lemma sample_names: "names_id sample_migration sample_root ''crowdstrike'' (Some (PStr ''Prod'')) (Some (PStr ''ab12''))"
proof -
  let ?keys = "[(MScalar ''rule_id::Prod'' 1 1 13, MScalar ''ab12'' 1 1 16)]"
  let ?blocks = "[(MScalar ''crowdstrike'' 0 0 11, MMapping False 1 1 ?keys)]"
  have "mapping_get sample_root ''configurations'' = Some (MMapping False 0 1 ?blocks)"
    by (simp add: sample_root_def mapping_get_def)
  moreover have "is_legacy_external_id_key (PStr ''rule_id::Prod'')"
    "(Some (PStr ''Prod''), Some (PStr ''ab12'')) \<in> set (id_entries sample_migration ''rule_id::Prod'' (MScalar ''ab12'' 1 1 16))"
    by (simp_all add: is_legacy_external_id_key_def legacy_map_keys_def legacy_tenant_prefix_def id_entries_def sample_migration_def)
  ultimately show ?thesis
    unfolding names_id_def
    by (intro exI [of _ "MMapping False 0 1 ?blocks"] exI [of _ ?blocks] exI [of _ "MScalar ''crowdstrike'' 0 0 11"]
        exI [of _ "MMapping False 1 1 ?keys"] exI [of _ ?keys] exI [of _ "MScalar ''rule_id::Prod'' 1 1 13"]
        exI [of _ "MScalar ''ab12'' 1 1 16"] exI [of _ "''rule_id::Prod''"])
      (simp add: block_platform_def)
qed

theorem migration_never_loses_an_id_witness:
  "\<exists>m st. run_migrate_state sample_migration sample_io None sample_files [] = (Inr 0, m)
    \<and> load_state (mg_dir m) (PStr (uuid_str 7)) = Inr st \<and> state_get st ''crowdstrike'' ''Prod'' = Some ''ab12''"
proof -
  obtain m where run: "run_migrate_state sample_migration sample_io None sample_files [] = (Inr 0, m)"
    and file_text: "map_of (mg_files m) sample_path = Some (utf8_encode sample_edited)" by (rule sample_run)
  have "map_of (mg_files m) sample_path \<noteq> map_of sample_files sample_path"
    using file_text sample_listed(3) sample_differs by simp
  note kept = migration_never_loses_an_id [OF run sample_listed(1) this]
  have composed: "my_compose sample_migration text = Some (Some sample_root)" for "text" by (simp add: sample_migration_def)
  have crowdstrike: "''crowdstrike'' \<in> set migrated_platforms" by (simp add: migrated_platforms_def)
  have stored: "normalise_external_id ''crowdstrike'' (PStr ''ab12'') = Inr x \<Longrightarrow> x = ''ab12''" for x
    by (simp add: normalise_external_id.simps integer_id_platforms_def py_strip_def py_rstrip_def py_lstrip_def is_py_space_def)
  have "raw_uuid_of sample_migration sample_root = Inr (PStr (uuid_str 7))"
    by (simp add: raw_uuid_of_def sample_root_def mapping_get_def construct_def sample_migration_def)
  with kept sample_names crowdstrike stored
  have "\<exists>st. load_state (mg_dir m) (PStr (uuid_str 7)) = Inr st \<and> state_get st ''crowdstrike'' ''Prod'' = Some ''ab12''"
    by (fastforce simp: composed)
  then show ?thesis using run by blast
qed

theorem migration_keeps_recorded_ids_witness:
  "\<exists>m st. run_migrate_state sample_migration sample_io None sample_files [] = (Inr 0, m)
    \<and> load_state (mg_dir m) (PStr (uuid_str 7)) = Inr st"
proof -
  obtain m where run: "run_migrate_state sample_migration sample_io None sample_files [] = (Inr 0, m)" by (rule sample_run)
  from migration_keeps_recorded_ids [OF run sample_listed(1) sample_load] run show ?thesis by blast
qed

theorem migration_exit_zero_is_complete_witness:
  "\<exists>m. run_migrate_state sample_migration sample_io None sample_files [] = (Inr 0, m)
    \<and> map_of (mg_files m) sample_path = Some (utf8_encode sample_edited)"
proof -
  obtain m where run: "run_migrate_state sample_migration sample_io None sample_files [] = (Inr 0, m)" by (rule sample_run)
  have "plan_rule sample_migration (map_of sample_files sample_path) = Inr (sample_ids, Some sample_edited)"
    by (simp add: sample_listed(3) sample_migration_plan)
  from migration_exit_zero_is_complete [OF run sample_listed(1,2) this] run show ?thesis by blast
qed

theorem interrupted_migration_completes_witness:
  "\<exists>m m'. migrate_file sample_migration sample_io sample_path (m\<lparr>mg_files := sample_files\<rparr>) = (Inr (), m')
    \<and> recorded (mg_dir m) sample_ids sample_binding \<and> mg_dir m' = mg_dir m"
proof -
  obtain m where run: "run_migrate_state sample_migration sample_io None sample_files [] = (Inr 0, m)" by (rule sample_run)
  have plan: "plan_rule sample_migration (map_of sample_files sample_path) = Inr (sample_ids, Some sample_edited)"
    by (simp add: sample_listed(3) sample_migration_plan)
  have recorded: "\<forall>b \<in> set (shard_bindings sample_ids). recorded (mg_dir m) sample_ids b"
    using run_outcome(3) [OF run sample_listed(1) refl sample_listed(2) plan] by (auto simp: moved_iff plan)
  let ?m = "m\<lparr>mg_files := sample_files\<rparr>"
  have "\<exists>m'. migrate_file sample_migration sample_io sample_path ?m = (Inr (), m')
      \<and> mg_files m' = AList.update sample_path (utf8_encode sample_edited) (mg_files ?m)
      \<and> mg_dir m' = mg_dir ?m \<and> mg_errors m' = mg_errors ?m \<and> mg_shards_written m' = mg_shards_written ?m"
    by (rule interrupted_migration_completes [of _ ?m]) (use plan recorded in \<open>simp_all add: sample_io_def\<close>)
  then show ?thesis using recorded by (auto simp: sample_shard)
qed

theorem migration_only_removes_id_lines_witness:
  "\<exists>lines. subseq lines (keep_lines [] sample_text) \<and> sample_edited = concat lines"
  using migration_only_removes_id_lines [OF sample_migration_plan] by (auto simp: utf8_roundtrip)

end
