(* ===== verification/Writeback.thy ===== *)
theory Writeback
  imports State_Replay
begin

text \<open>
  \<open>ci/writeback.py\<close>: the script a production job runs around its deployment, which must bring the
  deployment state to the default branch although other jobs push to it. The script is the state
  machine of its steps; every other job that moves the branch is a step of its own. Git is what the
  script uses of it: commits with their parents, a push that is refused unless it is a fast forward, and
  a rebase of one commit, whose merge of two versions of one file is a parameter. Renames are not
  followed.
\<close>

section \<open>Trees and commits\<close>

text \<open>The folder of deployment states, and every other file by its path.\<close>

record Tree =
  tr_states :: dirlist
  tr_files :: "(string \<times> string) list"

datatype GitCommit = Commit (parents: "GitCommit list") (tree: Tree)

fun ancestor :: "GitCommit \<Rightarrow> GitCommit \<Rightarrow> bool" where
  "ancestor c (Commit ps t) = (c = Commit ps t \<or> list_ex (ancestor c) ps)"

definition same_entries :: "(string \<times> 'v) list \<Rightarrow> (string \<times> 'v) list \<Rightarrow> bool" where
  "same_entries d e = list_all (\<lambda>n. map_of d n = map_of e n) (map fst d @ map fst e)"

definition same_tree :: "Tree \<Rightarrow> Tree \<Rightarrow> bool" where
  "same_tree t u = (same_entries (tr_states t) (tr_states u) \<and> same_entries (tr_files t) (tr_files u))"

text \<open>\<open>git show commit:path\<close>, and the files \<open>git diff --name-only\<close> names.\<close>

definition blob :: "dirlist \<Rightarrow> string \<Rightarrow> json_file option" where
  "blob dir name = (case map_of dir name of Some (FFile content) \<Rightarrow> Some content | _ \<Rightarrow> None)"

definition changed_names :: "dirlist \<Rightarrow> dirlist \<Rightarrow> string list" where
  "changed_names d e = sort (remdups (filter (\<lambda>n. blob d n \<noteq> blob e n) (map fst d @ map fst e)))"

section \<open>Rebasing one commit\<close>

text \<open>The merge of the contents of one file that both sides changed.\<close>

record GitMerge =
  gm_json :: "json_file \<Rightarrow> json_file \<Rightarrow> json_file \<Rightarrow> json_file option"
  gm_text :: "string \<Rightarrow> string \<Rightarrow> string \<Rightarrow> string option"

definition merge_entry ::
  "('v \<Rightarrow> 'v \<Rightarrow> 'v \<Rightarrow> 'v option) \<Rightarrow> 'v option \<Rightarrow> 'v option \<Rightarrow> 'v option \<Rightarrow> 'v option option" where
  "merge_entry content base ours theirs =
     (if ours = base then Some theirs
      else if theirs = base \<or> theirs = ours then Some ours
      else (case (base, ours, theirs) of
              (Some b, Some c, Some d) \<Rightarrow> map_option Some (content b c d)
            | _ \<Rightarrow> None))"

definition merge_entries ::
  "('v \<Rightarrow> 'v \<Rightarrow> 'v \<Rightarrow> 'v option) \<Rightarrow> (string \<times> 'v) list \<Rightarrow> (string \<times> 'v) list \<Rightarrow> (string \<times> 'v) list
    \<Rightarrow> (string \<times> 'v) list option" where
  "merge_entries content base ours theirs =
     (let names = remdups (map fst base @ map fst ours @ map fst theirs);
          entry = (\<lambda>n. merge_entry content (map_of base n) (map_of ours n) (map_of theirs n))
      in if list_ex (\<lambda>n. entry n = None) names then None
         else Some (List.map_filter (\<lambda>n. map_option (Pair n) (the (entry n))) names))"

definition node_merge :: "GitMerge \<Rightarrow> fsnode \<Rightarrow> fsnode \<Rightarrow> fsnode \<Rightarrow> fsnode option" where
  "node_merge gm b c d =
     (case (b, c, d) of
        (FFile x, FFile y, FFile z) \<Rightarrow> map_option FFile (gm_json gm x y z)
      | _ \<Rightarrow> None)"

definition merge_trees :: "GitMerge \<Rightarrow> Tree \<Rightarrow> Tree \<Rightarrow> Tree \<Rightarrow> Tree option" where
  "merge_trees gm base ours theirs =
     (case (merge_entries (node_merge gm) (tr_states base) (tr_states ours) (tr_states theirs),
            merge_entries (gm_text gm) (tr_files base) (tr_files ours) (tr_files theirs)) of
        (Some states, Some other) \<Rightarrow> Some \<lparr>tr_states = states, tr_files = other\<rparr>
      | _ \<Rightarrow> None)"

text \<open>A commit that is empty on its new base is dropped.\<close>

definition on_tip :: "GitCommit \<Rightarrow> Tree \<Rightarrow> GitCommit" where
  "on_tip tip t = (if same_tree t (tree tip) then tip else Commit [tip] t)"

definition rebase_onto :: "GitMerge \<Rightarrow> GitCommit \<Rightarrow> GitCommit \<Rightarrow> GitCommit option" where
  "rebase_onto gm head tip =
     (case parents head of
        [] \<Rightarrow> None
      | p # _ \<Rightarrow> map_option (on_tip tip) (merge_trees gm (tree p) (tree head) (tree tip)))"

section \<open>Before the loop\<close>

text \<open>
  \<open>overlay_default_branch_state\<close>: the checkout reads the state of the branch, and the commit the
  write-back stands on holds it.
\<close>

definition overlay_tree :: "GitCommit \<Rightarrow> GitCommit \<Rightarrow> Tree" where
  "overlay_tree checkout fetched = (tree checkout)\<lparr>tr_states := tr_states (tree fetched)\<rparr>"

definition state_base :: "GitCommit \<Rightarrow> GitCommit \<Rightarrow> GitCommit" where
  "state_base checkout fetched =
     (if same_entries (tr_states (tree fetched)) (tr_states (tree checkout)) then checkout
      else Commit [checkout] (overlay_tree checkout fetched))"

text \<open>
  \<open>writeback_stage\<close>: every state, and the rule files git tracks that the deployment modified, when
  all of them validate.
\<close>

definition edited_rules :: "string \<Rightarrow> (string \<times> string) list \<Rightarrow> (string \<times> string) list \<Rightarrow> string list" where
  "edited_rules folder tracked working =
     filter (\<lambda>n. starts_with (folder @ ''/'') n \<and> map_of working n \<noteq> map_of tracked n) (map fst tracked)"

definition stage_rules ::
  "(string list \<Rightarrow> bool) \<Rightarrow> string \<Rightarrow> (string \<times> string) list \<Rightarrow> (string \<times> string) list
    \<Rightarrow> nat \<times> (string \<times> string) list" where
  "stage_rules validates folder tracked working =
     (let edited = edited_rules folder tracked working in
      if edited = [] then (0, tracked)
      else if validates edited
      then (0, List.map_filter (\<lambda>(n, content). if n \<in> set edited then map_option (Pair n) (map_of working n)
                                          else Some (n, content)) tracked)
      else (1, tracked))"

section \<open>The loop\<close>

datatype Phase = Pushing | Refused | Fetching | Leaving nat bool | Exited nat bool

text \<open>
  The branch of the remote; the script's \<open>HEAD\<close>, \<open>state_commit\<close>, \<open>push_attempt\<close> and
  \<open>writeback_status\<close>; what it printed and the side refs it pushed. A script on its way out knows
  its status and whether \<open>state_published\<close> is set.
\<close>

record Writeback =
  wb_tip :: GitCommit
  wb_head :: GitCommit
  wb_state_commit :: GitCommit
  wb_attempt :: nat
  wb_status :: nat
  wb_phase :: Phase
  wb_shown :: "GitCommit list"
  wb_side :: "GitCommit list"

definition push_attempts :: nat where
  "push_attempts = 5"

text \<open>The commit of the write-back, or nothing to write back.\<close>

definition start_writeback ::
  "(string list \<Rightarrow> bool) \<Rightarrow> string \<Rightarrow> GitCommit \<Rightarrow> Tree \<Rightarrow> GitCommit \<Rightarrow> Writeback" where
  "start_writeback validates folder base working tip =
     (let (status, staged) = stage_rules validates folder (tr_files (tree base)) (tr_files working);
          staged_tree = \<lparr>tr_states = tr_states working, tr_files = staged\<rparr>;
          commit = Commit [base] staged_tree
      in \<lparr>wb_tip = tip, wb_head = commit, wb_state_commit = commit, wb_attempt = 1, wb_status = status,
          wb_phase = (if same_tree staged_tree (tree base) then Exited status True else Pushing),
          wb_shown = [], wb_side = []\<rparr>)"

text \<open>\<open>opentide deploy replay-state\<close> on the branch: the states after it, or its failure.\<close>

definition replayed_tree :: "bool \<Rightarrow> GitCommit \<Rightarrow> GitCommit \<Rightarrow> Tree option" where
  "replayed_tree wr state_commit tip =
     (case parents state_commit of
        [] \<Rightarrow> None
      | p # _ \<Rightarrow>
          (let base = tr_states (tree p); ours = tr_states (tree state_commit) in
           case replay wr (blob base) (blob ours) (changed_names base ours) (tr_states (tree tip)) of
             (Inl _, _) \<Rightarrow> None
           | (Inr _, dir) \<Rightarrow> Some ((tree tip)\<lparr>tr_states := dir\<rparr>)))"

inductive script_step :: "GitMerge \<Rightarrow> bool \<Rightarrow> Writeback \<Rightarrow> Writeback \<Rightarrow> bool" for gm wr where
  push_accepted:
    "wb_phase s = Pushing \<Longrightarrow> ancestor (wb_tip s) (wb_head s) \<Longrightarrow>
     script_step gm wr s (s\<lparr>wb_tip := wb_head s, wb_phase := Leaving (wb_status s) True\<rparr>)"
| push_unanswered:
    "wb_phase s = Pushing \<Longrightarrow> ancestor (wb_tip s) (wb_head s) \<Longrightarrow>
     script_step gm wr s (s\<lparr>wb_tip := wb_head s, wb_phase := Refused\<rparr>)"
| push_refused:
    "wb_phase s = Pushing \<Longrightarrow> script_step gm wr s (s\<lparr>wb_phase := Refused\<rparr>)"
| give_up:
    "wb_phase s = Refused \<Longrightarrow> push_attempts \<le> wb_attempt s \<Longrightarrow>
     script_step gm wr s (s\<lparr>wb_phase := Leaving 1 False\<rparr>)"
| again:
    "wb_phase s = Refused \<Longrightarrow> wb_attempt s < push_attempts \<Longrightarrow>
     script_step gm wr s (s\<lparr>wb_attempt := wb_attempt s + 1, wb_phase := Fetching\<rparr>)"
| fetch_failed:
    "wb_phase s = Fetching \<Longrightarrow> 0 < e \<Longrightarrow> script_step gm wr s (s\<lparr>wb_phase := Leaving e False\<rparr>)"
| no_parent:
    "wb_phase s = Fetching \<Longrightarrow> parents (wb_head s) = [] \<Longrightarrow> 0 < e \<Longrightarrow>
     script_step gm wr s (s\<lparr>wb_phase := Leaving e False\<rparr>)"
| rebased:
    "wb_phase s = Fetching \<Longrightarrow> rebase_onto gm (wb_head s) (wb_tip s) = Some head \<Longrightarrow>
     script_step gm wr s (s\<lparr>wb_head := head, wb_phase := Pushing\<rparr>)"
| replay_failed:
    "wb_phase s = Fetching \<Longrightarrow> parents (wb_head s) \<noteq> [] \<Longrightarrow> rebase_onto gm (wb_head s) (wb_tip s) = None \<Longrightarrow>
     replayed_tree wr (wb_state_commit s) (wb_tip s) = None \<Longrightarrow>
     script_step gm wr s (s\<lparr>wb_head := wb_tip s, wb_status := 1, wb_phase := Leaving 1 False\<rparr>)"
| already_held:
    "wb_phase s = Fetching \<Longrightarrow> parents (wb_head s) \<noteq> [] \<Longrightarrow> rebase_onto gm (wb_head s) (wb_tip s) = None \<Longrightarrow>
     replayed_tree wr (wb_state_commit s) (wb_tip s) = Some t \<Longrightarrow> same_tree t (tree (wb_tip s)) \<Longrightarrow>
     script_step gm wr s (s\<lparr>wb_head := wb_tip s, wb_status := 1, wb_phase := Leaving 1 True\<rparr>)"
| replayed:
    "wb_phase s = Fetching \<Longrightarrow> parents (wb_head s) \<noteq> [] \<Longrightarrow> rebase_onto gm (wb_head s) (wb_tip s) = None \<Longrightarrow>
     replayed_tree wr (wb_state_commit s) (wb_tip s) = Some t \<Longrightarrow> \<not> same_tree t (tree (wb_tip s)) \<Longrightarrow>
     script_step gm wr s (s\<lparr>wb_head := Commit [wb_tip s] t, wb_state_commit := Commit [wb_tip s] t,
       wb_status := 1, wb_phase := Pushing\<rparr>)"
| trap_published:
    "wb_phase s = Leaving e True \<Longrightarrow> script_step gm wr s (s\<lparr>wb_phase := Exited e True\<rparr>)"
| trap_saved:
    "wb_phase s = Leaving e False \<Longrightarrow>
     script_step gm wr s (s\<lparr>wb_shown := wb_shown s @ [wb_state_commit s], wb_side := wb_side s @ [wb_state_commit s],
       wb_phase := Exited e False\<rparr>)"
| trap_shown:
    "wb_phase s = Leaving e False \<Longrightarrow>
     script_step gm wr s (s\<lparr>wb_shown := wb_shown s @ [wb_state_commit s], wb_phase := Exited e False\<rparr>)"

text \<open>
  The states a run can be in, with the numbers of steps and of pushes of the script that led there. The
  other jobs move the branch at any time, and only forward: it is protected. A fetch and the rebase that
  follows are one step, for the rebase does not look at the remote.
\<close>

definition pushes :: "Writeback \<Rightarrow> nat" where
  "pushes s = (if wb_phase s = Pushing then 1 else 0)"

inductive reached :: "GitMerge \<Rightarrow> bool \<Rightarrow> Writeback \<Rightarrow> nat \<Rightarrow> nat \<Rightarrow> Writeback \<Rightarrow> bool" for gm wr s0 where
  start: "reached gm wr s0 0 0 s0"
| own_step: "reached gm wr s0 n m s \<Longrightarrow> script_step gm wr s s' \<Longrightarrow> reached gm wr s0 (Suc n) (m + pushes s) s'"
| other_step: "reached gm wr s0 n m s \<Longrightarrow> ancestor (wb_tip s) tip \<Longrightarrow> reached gm wr s0 n m (s\<lparr>wb_tip := tip\<rparr>)"

inductive_cases script_stepE: "script_step gm wr s s'"

text \<open>\<open>deploy_then_writeback\<close> and the \<open>after_script\<close> of a job that was cancelled.\<close>

definition job_status :: "nat \<Rightarrow> nat \<Rightarrow> nat" where
  "job_status deploy_status writeback_exit = (if deploy_status \<noteq> 0 then deploy_status else writeback_exit)"

definition after_script_runs :: "bool \<Rightarrow> bool \<Rightarrow> bool" where
  "after_script_runs started_marker done_marker = (started_marker \<and> \<not> done_marker)"

section \<open>Ancestors and trees\<close>

lemma ancestor_refl [simp]: "ancestor c c"
  by (cases c) simp

lemma ancestor_parent: "p \<in> set (parents c) \<Longrightarrow> ancestor p c"
  by (cases c) (force simp: list_ex_iff)

lemma ancestor_trans: "ancestor a b \<Longrightarrow> ancestor b c \<Longrightarrow> ancestor a c"
proof (induction c rule: ancestor.induct)
  case (1 c0 ps t)
  then show ?case by (auto simp: list_ex_iff)
qed

lemma same_entries_iff: "same_entries d e \<longleftrightarrow> map_of d = map_of e"
proof
  assume same: "same_entries d e"
  show "map_of d = map_of e"
  proof
    fix n
    show "map_of d n = map_of e n"
    proof (cases "n \<in> set (map fst d @ map fst e)")
      case True
      with same show ?thesis by (auto simp: same_entries_def list_all_iff)
    next
      case False
      then have "map_of d n = None" "map_of e n = None" by (simp_all add: map_of_eq_None_iff)
      then show ?thesis by simp
    qed
  qed
qed (simp add: same_entries_def list_all_iff)

lemma changed_names_set: "n \<in> set (changed_names d e) \<longleftrightarrow> blob d n \<noteq> blob e n"
proof (cases "n \<in> set (map fst d @ map fst e)")
  case False
  then have "map_of d n = None" "map_of e n = None" by (simp_all add: map_of_eq_None_iff)
  with False show ?thesis by (simp add: changed_names_def blob_def)
qed (auto simp: changed_names_def)

lemma map_of_filtered:
  "map_of (List.map_filter (\<lambda>n. map_option (Pair n) (f n)) names) n = (if n \<in> set names then f n else None)"
  by (induction names) (auto simp: List.map_filter_simps split: option.splits)

lemma merge_entries_Some:
  assumes "merge_entries content base ours theirs = Some m"
  shows "merge_entry content (map_of base n) (map_of ours n) (map_of theirs n) = Some (map_of m n)"
proof (cases "n \<in> set (map fst base @ map fst ours @ map fst theirs)")
  case True
  let ?entry = "\<lambda>n. merge_entry content (map_of base n) (map_of ours n) (map_of theirs n)"
  have "?entry n \<noteq> None" and m: "m = List.map_filter (\<lambda>n. map_option (Pair n) (the (?entry n)))
      (remdups (map fst base @ map fst ours @ map fst theirs))"
    using assms True by (auto simp: merge_entries_def Let_def list_ex_iff split: if_splits)
  moreover have "map_of m n = the (?entry n)" unfolding m map_of_filtered using True by simp
  ultimately show ?thesis by auto
next
  case False
  then have "map_of base n = None" "map_of ours n = None" "map_of theirs n = None"
    by (simp_all add: map_of_eq_None_iff)
  moreover have "map_of m n = None"
    using assms False unfolding merge_entries_def Let_def
    by (auto simp: map_of_filtered simp del: map_of_eq_None_iff split: if_splits)
  ultimately show ?thesis by (simp add: merge_entry_def)
qed

section \<open>The bindings of a tree\<close>

text \<open>The id a folder of states records for a rule on a platform and tenant.\<close>

definition held :: "dirlist \<Rightarrow> string \<Rightarrow> string \<times> string \<Rightarrow> string option" where
  "held dir name key =
     (case tip_state dir name of Inl _ \<Rightarrow> None | Inr st \<Rightarrow> lookup_binding (st_platforms st) key)"

lemma held_cong: "map_of d n = map_of e n \<Longrightarrow> held d n k = held e n k"
  by (simp add: held_def tip_state_def)

lemma blob_state: "state_of_text (blob d n) n = tip_state d n"
  by (simp add: state_of_text_def blob_def tip_state_def split: option.splits fsnode.splits)

lemma held_blob_cong: "blob d n = blob e n \<Longrightarrow> held d n k = held e n k"
  by (simp add: held_def flip: blob_state)

lemma held_None_blob: "blob d n = None \<Longrightarrow> held d n k = None"
  by (cases k) (auto simp: held_def tip_state_def blob_def empty_state_def tenants_of_def split: option.splits fsnode.splits)

lemma held_json: "held d n k \<noteq> None \<Longrightarrow> ends_with ''.json'' n"
proof -
  assume h: "held d n k \<noteq> None"
  then obtain content where "blob d n = Some content" using held_None_blob [of d n k] by (cases "blob d n") auto
  then have "map_of d n = Some (FFile content)" by (simp add: blob_def split: option.splits fsnode.splits)
  with h obtain st where "from_file n content None = Inr st" by (auto simp: held_def tip_state_def split: sum.splits)
  then have "n = path_stem n @ ''.json''" using from_file_facts by blast
  then show ?thesis by (metis ends_with_iff)
qed

lemma held_file: "map_of d n = Some (FFile c) \<Longrightarrow> held d n k = held [(n, FFile c)] n k"
  by (rule held_cong) simp

text \<open>
  The merge takes the version of one side whole, unless both changed the file: then the result is what
  the merge of git makes of the texts, and only that can lack a change.
\<close>

definition drops :: "GitMerge \<Rightarrow> dirlist \<Rightarrow> dirlist \<Rightarrow> dirlist \<Rightarrow> string \<Rightarrow> string \<times> string \<Rightarrow> bool" where
  "drops gm base ours theirs n k \<longleftrightarrow>
     (\<exists>b c d x. map_of base n = Some (FFile b) \<and> map_of ours n = Some (FFile c) \<and> map_of theirs n = Some (FFile d)
        \<and> b \<noteq> c \<and> b \<noteq> d \<and> c \<noteq> d \<and> gm_json gm b c d = Some x
        \<and> held [(n, FFile x)] n k \<noteq> held ours n k)"

lemma held_merge:
  assumes "merge_entries (node_merge gm) base ours theirs = Some m"
    and "held base n k \<noteq> held ours n k" and "\<not> drops gm base ours theirs n k"
  shows "held m n k = held ours n k"
proof -
  have e: "merge_entry (node_merge gm) (map_of base n) (map_of ours n) (map_of theirs n) = Some (map_of m n)"
    by (rule merge_entries_Some [OF assms(1)])
  have changed: "map_of ours n \<noteq> map_of base n" using assms(2) held_cong by metis
  show ?thesis
  proof (cases "map_of theirs n = map_of base n \<or> map_of theirs n = map_of ours n")
    case True
    with e changed show ?thesis by (intro held_cong) (simp add: merge_entry_def)
  next
    case False
    with e changed obtain b c d where m: "map_of base n = Some b" "map_of ours n = Some c" "map_of theirs n = Some d"
      and "map_option Some (node_merge gm b c d) = Some (map_of m n)"
      by (auto simp: merge_entry_def split: option.splits)
    then obtain x where x: "node_merge gm b c d = Some x" "map_of m n = Some x" by (cases "node_merge gm b c d") auto
    then obtain b' c' d' x' where files: "b = FFile b'" "c = FFile c'" "d = FFile d'" "x = FFile x'"
      and g: "gm_json gm b' c' d' = Some x'"
      by (auto simp: node_merge_def split: fsnode.splits)
    have "held m n k = held [(n, FFile x')] n k" using x files by (auto intro!: held_file)
    moreover have "held [(n, FFile x')] n k = held ours n k"
      using assms(3) m files g changed False by (auto simp: drops_def)
    ultimately show ?thesis by simp
  qed
qed

section \<open>The replay of several shards\<close>

lemma tmp_not_json: "ends_with ''.json'' n \<Longrightarrow> n \<noteq> tmp_name m"
  by (auto simp: ends_with_iff tmp_name_def dest: arg_cong [of _ _ rev])

lemma replay_files_held:
  assumes "replay_files wr before after names r dir = (Inr r', dir')"
    and "distinct names" and "\<And>n. n \<in> set names \<Longrightarrow> ends_with ''.json'' n \<and> (before n \<noteq> None \<or> after n \<noteq> None)"
  shows "(\<forall>n. ends_with ''.json'' n \<and> n \<notin> set names \<longrightarrow> map_of dir' n = map_of dir n)
    \<and> (\<forall>n \<in> set names. \<exists>base ours tip tip'. state_of_text (before n) n = Inr base
          \<and> state_of_text (after n) n = Inr ours \<and> tip_state dir' n = Inr tip'
          \<and> lookup_binding (st_platforms tip') = three_way base ours tip)"
  using assms
proof (induction names arbitrary: r dir)
  case (Cons name names)
  obtain saved conflicts dir1 where one: "replay_file wr before after name dir = Inr (saved, conflicts, dir1)"
    and rest: "\<exists>r1. replay_files wr before after names r1 dir1 = (Inr r', dir')"
    using Cons.prems(1) by (auto split: sum.splits)
  have name: "ends_with ''.json'' name" "before name \<noteq> None \<or> after name \<noteq> None" using Cons.prems(3) by simp_all
  obtain base ours tip tip1 where f: "state_of_text (before name) name = Inr base"
    "state_of_text (after name) name = Inr ours" "tip_state dir1 name = Inr tip1"
    "lookup_binding (st_platforms tip1) = three_way base ours tip"
    and frame: "\<forall>n. n \<noteq> name \<and> n \<noteq> tmp_name name \<longrightarrow> map_of dir1 n = map_of dir n"
    using replay_file_Inr [OF one name(2)] by metis
  from rest obtain r1 where r1: "replay_files wr before after names r1 dir1 = (Inr r', dir')" by blast
  note IH = Cons.IH [OF r1, simplified]
  have ih: "(\<forall>n. ends_with ''.json'' n \<and> n \<notin> set names \<longrightarrow> map_of dir' n = map_of dir1 n)
    \<and> (\<forall>n \<in> set names. \<exists>base ours tip tip'. state_of_text (before n) n = Inr base
          \<and> state_of_text (after n) n = Inr ours \<and> tip_state dir' n = Inr tip'
          \<and> lookup_binding (st_platforms tip') = three_way base ours tip)"
    using Cons.IH [OF r1] Cons.prems(2,3) by simp
  have "tip_state dir' name = Inr tip1"
    using ih f(3) name(1) Cons.prems(2) by (simp add: tip_state_def)
  with f have "\<exists>base ours tip tip'. state_of_text (before name) name = Inr base
          \<and> state_of_text (after name) name = Inr ours \<and> tip_state dir' name = Inr tip'
          \<and> lookup_binding (st_platforms tip') = three_way base ours tip" by blast
  moreover have "map_of dir' n = map_of dir n" if "ends_with ''.json'' n" "n \<notin> set (name # names)" for n
    using that ih frame tmp_not_json [OF that(1), of name] by simp
  ultimately show ?case using ih by simp
qed simp

lemma held_replayed:
  assumes "replayed_tree wr c tip = Some t" and "parents c = p # ps"
    and "held (tr_states (tree p)) n k \<noteq> held (tr_states (tree c)) n k"
  shows "held (tr_states t) n k = held (tr_states (tree c)) n k"
proof -
  let ?base = "tr_states (tree p)" and ?ours = "tr_states (tree c)"
  let ?names = "filter (ends_with ''.json'') (changed_names ?base ?ours)"
  obtain r dir where run: "replay wr (blob ?base) (blob ?ours) (changed_names ?base ?ours) (tr_states (tree tip)) = (Inr r, dir)"
    and t: "tr_states t = dir"
    using assms(1,2) by (auto simp: replayed_tree_def Let_def split: prod.splits sum.splits)
  have json: "ends_with ''.json'' n"
  proof (cases "held ?base n k")
    case None
    with assms(3) show ?thesis using held_json [of ?ours n k] by simp
  next
    case (Some v)
    then show ?thesis using held_json [of ?base n k] by simp
  qed
  have mem: "n \<in> set ?names"
    using assms(3) json held_blob_cong [of ?base n ?ours k] by (auto simp: changed_names_set)
  have shards: "n' \<in> set ?names \<Longrightarrow> ends_with ''.json'' n' \<and> (blob ?base n' \<noteq> None \<or> blob ?ours n' \<noteq> None)" for n'
    by (auto simp: changed_names_set)
  have "distinct ?names" by (simp add: changed_names_def)
  note all = replay_files_held [OF run [unfolded replay_def] this shards]
  obtain base ours tip0 tip' where b: "state_of_text (blob ?base n) n = Inr base"
    "state_of_text (blob ?ours n) n = Inr ours" "tip_state dir n = Inr tip'"
    "lookup_binding (st_platforms tip') = three_way base ours tip0"
    using conjunct2 [OF all] mem by blast
  have "held ?base n k = lookup_binding (st_platforms base) k" "held ?ours n k = lookup_binding (st_platforms ours) k"
    "held dir n k = three_way base ours tip0 k"
    using b by (simp_all add: blob_state held_def)
  with assms(3) show ?thesis by (simp add: t three_way_def)
qed

section \<open>What a run keeps\<close>

text \<open>An id the branch has held, and a commit whose change is that id.\<close>

definition on_branch :: "Writeback \<Rightarrow> string \<Rightarrow> string \<times> string \<Rightarrow> string option \<Rightarrow> bool" where
  "on_branch s name key v \<longleftrightarrow> (\<exists>c. ancestor c (wb_tip s) \<and> held (tr_states (tree c)) name key = v)"

definition carries :: "GitCommit \<Rightarrow> string \<Rightarrow> string \<times> string \<Rightarrow> string option \<Rightarrow> bool" where
  "carries c name key v =
     (case parents c of
        [] \<Rightarrow> False
      | p # _ \<Rightarrow> held (tr_states (tree p)) name key \<noteq> v \<and> held (tr_states (tree c)) name key = v)"

fun in_loop :: "Phase \<Rightarrow> bool" where
  "in_loop Pushing = True"
| "in_loop Refused = True"
| "in_loop Fetching = True"
| "in_loop _ = False"

fun says_published :: "Phase \<Rightarrow> bool" where
  "says_published (Leaving e p) = p"
| "says_published (Exited e p) = p"
| "says_published _ = False"

fun trap_ran :: "Phase \<Rightarrow> bool" where
  "trap_ran (Exited e p) = (\<not> p)"
| "trap_ran _ = False"

definition id_safe :: "string \<Rightarrow> string \<times> string \<Rightarrow> string option \<Rightarrow> Writeback \<Rightarrow> bool" where
  "id_safe name key v s \<longleftrightarrow> on_branch s name key v \<or>
     (carries (wb_state_commit s) name key v \<and> (in_loop (wb_phase s) \<longrightarrow> carries (wb_head s) name key v)
      \<and> \<not> says_published (wb_phase s) \<and> (trap_ran (wb_phase s) \<longrightarrow> wb_state_commit s \<in> set (wb_shown s)))"

lemma on_branch_forward:
  "on_branch s name key v \<Longrightarrow> ancestor (wb_tip s) (wb_tip s') \<Longrightarrow> on_branch s' name key v"
  unfolding on_branch_def using ancestor_trans by blast

lemma on_branch_tip: "held (tr_states (tree (wb_tip s))) name key = v \<Longrightarrow> on_branch s name key v"
  unfolding on_branch_def by (rule exI [of _ "wb_tip s"]) simp

text \<open>Only a push moves the branch, and it does so forward.\<close>

lemma script_forward: "script_step gm wr s s' \<Longrightarrow> ancestor (wb_tip s) (wb_tip s')"
  by (induction rule: script_step.induct) auto

lemma carries_child: "carries (Commit [p] t) name key v \<longleftrightarrow> held (tr_states (tree p)) name key \<noteq> v \<and> held (tr_states t) name key = v"
  by (simp add: carries_def)

lemma same_tree_held: "same_tree t u \<Longrightarrow> held (tr_states t) name key = held (tr_states u) name key"
  by (rule held_cong) (simp add: same_tree_def same_entries_iff)

definition dropped :: "GitMerge \<Rightarrow> GitCommit \<Rightarrow> GitCommit \<Rightarrow> string \<Rightarrow> string \<times> string \<Rightarrow> bool" where
  "dropped gm head tip name key =
     (case parents head of
        [] \<Rightarrow> False
      | p # _ \<Rightarrow> drops gm (tr_states (tree p)) (tr_states (tree head)) (tr_states (tree tip)) name key)"

lemma rebase_carries:
  assumes "rebase_onto gm head tip = Some head'" and "carries head name key v"
  shows "held (tr_states (tree tip)) name key = v \<or> carries head' name key v \<or> dropped gm head tip name key"
proof -
  obtain p ps where p: "parents head = p # ps" and h: "held (tr_states (tree p)) name key \<noteq> v"
    "held (tr_states (tree head)) name key = v"
    using assms(2) by (auto simp: carries_def split: list.splits)
  obtain m where m: "merge_trees gm (tree p) (tree head) (tree tip) = Some m" and head': "head' = on_tip tip m"
    using assms(1) p by (auto simp: rebase_onto_def)
  show ?thesis
  proof (cases "dropped gm head tip name key")
    case False
    have "held (tr_states m) name key = v"
      using held_merge [of gm "tr_states (tree p)" "tr_states (tree head)" "tr_states (tree tip)" "tr_states m" name key]
        m h False p by (auto simp: merge_trees_def dropped_def split: option.splits)
    then show ?thesis
      using same_tree_held [of m "tree tip" name key] by (auto simp: head' on_tip_def carries_child)
  qed simp
qed

lemma replay_carries:
  assumes "replayed_tree wr c tip = Some t" and "carries c name key v"
  shows "held (tr_states t) name key = v"
proof -
  obtain p ps where "parents c = p # ps" "held (tr_states (tree p)) name key \<noteq> v" "held (tr_states (tree c)) name key = v"
    using assms(2) by (auto simp: carries_def split: list.splits)
  with held_replayed [OF assms(1)] show ?thesis by simp
qed

text \<open>
  The rebase of a run, on its way to a state, in which git merged two changed versions of the shard
  cleanly into a text without the binding.
\<close>

definition merged_away ::
  "GitMerge \<Rightarrow> bool \<Rightarrow> Writeback \<Rightarrow> Writeback \<Rightarrow> string \<Rightarrow> string \<times> string \<Rightarrow> string option \<Rightarrow> bool" where
  "merged_away gm wr s0 s name key v \<longleftrightarrow>
     (\<exists>n m r n' m'. reached gm wr s0 n m r \<and> reached gm wr r n' m' s \<and> wb_phase r = Fetching
        \<and> carries (wb_head r) name key v \<and> dropped gm (wb_head r) (wb_tip r) name key)"

lemma merged_away_step:
  "merged_away gm wr s0 s name key v \<Longrightarrow> script_step gm wr s s' \<Longrightarrow> merged_away gm wr s0 s' name key v"
  unfolding merged_away_def using own_step by blast

lemma merged_away_other:
  "merged_away gm wr s0 s name key v \<Longrightarrow> ancestor (wb_tip s) tip \<Longrightarrow>
   merged_away gm wr s0 (s\<lparr>wb_tip := tip\<rparr>) name key v"
  unfolding merged_away_def using other_step by blast

lemma script_id_safe:
  assumes "script_step gm wr s s'" and "id_safe name key v s"
    and "\<not> (wb_phase s = Fetching \<and> carries (wb_head s) name key v \<and> dropped gm (wb_head s) (wb_tip s) name key)"
  shows "id_safe name key v s'"
proof (cases "on_branch s name key v")
  case True
  with script_forward [OF assms(1)] show ?thesis by (auto simp: id_safe_def dest: on_branch_forward)
next
  case False
  with assms(2) have c: "carries (wb_state_commit s) name key v" "in_loop (wb_phase s) \<longrightarrow> carries (wb_head s) name key v"
    "\<not> says_published (wb_phase s)" "trap_ran (wb_phase s) \<longrightarrow> wb_state_commit s \<in> set (wb_shown s)"
    by (simp_all add: id_safe_def)
  have tip: "held (tr_states (tree (wb_tip s))) name key \<noteq> v" using False on_branch_tip by blast
  show ?thesis using assms(1)
  proof (cases rule: script_step.cases)
    case push_accepted
    then have "held (tr_states (tree (wb_head s))) name key = v"
      using c(2) by (auto simp: carries_def split: list.splits)
    then show ?thesis using push_accepted by (auto simp: id_safe_def intro!: on_branch_tip)
  next
    case push_unanswered
    then have "held (tr_states (tree (wb_head s))) name key = v"
      using c(2) by (auto simp: carries_def split: list.splits)
    then show ?thesis using push_unanswered by (auto simp: id_safe_def intro!: on_branch_tip)
  next
    case (rebased head)
    then show ?thesis using c rebase_carries [OF rebased(3), of name key v] tip assms(3) by (auto simp: id_safe_def)
  next
    case (already_held t)
    have "held (tr_states t) name key = v" by (rule replay_carries [OF already_held(5) c(1)])
    moreover have "held (tr_states t) name key = held (tr_states (tree (wb_tip s))) name key"
      by (rule same_tree_held [OF already_held(6)])
    ultimately show ?thesis using tip by simp
  next
    case (replayed t)
    have "held (tr_states t) name key = v" by (rule replay_carries [OF replayed(5) c(1)])
    with replayed tip show ?thesis by (simp add: id_safe_def carries_child)
  qed (use c in \<open>auto simp: id_safe_def\<close>)
qed

lemma reached_id_safe:
  "reached gm wr s0 n m s \<Longrightarrow> id_safe name key v s0 \<Longrightarrow>
   id_safe name key v s \<or> merged_away gm wr s0 s name key v"
proof (induction rule: reached.induct)
  case (own_step n m s s')
  then consider "merged_away gm wr s0 s name key v" | "id_safe name key v s" by blast
  then show ?case
  proof cases
    case 1
    then show ?thesis using merged_away_step own_step(2) by blast
  next
    case 2
    moreover have "merged_away gm wr s0 s' name key v"
      if "wb_phase s = Fetching" "carries (wb_head s) name key v" "dropped gm (wb_head s) (wb_tip s) name key"
      unfolding merged_away_def
      using own_step(1) reached.own_step [OF reached.start own_step(2)] that by blast
    ultimately show ?thesis using script_id_safe [OF own_step(2)] by blast
  qed
next
  case (other_step n m s tip)
  then show ?case
    using on_branch_forward [of s name key v "s\<lparr>wb_tip := tip\<rparr>"] merged_away_other [of gm wr s0 s name key v tip]
    by (auto simp: id_safe_def)
qed blast

lemma start_id_safe:
  assumes "held (tr_states (tree base)) name key \<noteq> held (tr_states working) name key"
  shows "id_safe name key (held (tr_states working) name key) (start_writeback validates folder base working tip)"
proof -
  obtain status staged where st: "stage_rules validates folder (tr_files (tree base)) (tr_files working) = (status, staged)"
    by (cases "stage_rules validates folder (tr_files (tree base)) (tr_files working)")
  have "\<not> same_tree \<lparr>tr_states = tr_states working, tr_files = staged\<rparr> (tree base)"
    using assms held_cong [of "tr_states working" name "tr_states (tree base)" key] by (auto simp: same_tree_def same_entries_iff)
  then show ?thesis
    using assms by (simp add: id_safe_def start_writeback_def st carries_child Let_def)
qed

section \<open>Properties\<close>

text \<open>
  C9: No id is lost: whatever the other jobs push in between, however often a push is refused, lost or
  conflicts and a fetch or the replay fails, when the script of a run that recorded, changed or removed a
  binding has left its loop, the default branch holds or has held that binding as the run left it, or the
  script says it is not published, and a commit whose difference is that binding is printed. The only way
  out is git's own: at a rebase of that run, another job had changed the same shard too, and git merged
  the two texts without a conflict into one that lacks the binding. In every other run, a script that says
  that the state is published has published it. The merge of two texts is a parameter, for any merge.
\<close>

theorem writeback_loses_no_id:
  assumes "reached gm wr (start_writeback validates folder base working tip) n m s"
    and "wb_phase s = Exited e published"
    and "held (tr_states (tree base)) name key \<noteq> held (tr_states working) name key"
  shows "on_branch s name key (held (tr_states working) name key)
    \<or> \<not> published \<and> (\<exists>c \<in> set (wb_shown s). carries c name key (held (tr_states working) name key))
    \<or> merged_away gm wr (start_writeback validates folder base working tip) s name key
        (held (tr_states working) name key)"
  using reached_id_safe [OF assms(1) start_id_safe [OF assms(3)]] assms(2)
  by (cases published) (auto simp: id_safe_def)

text \<open>
  The write-back never takes a commit off the default branch: every commit the branch held at any
  time is an ancestor of what it holds later, so the run of one job does not undo what another published.
\<close>

theorem writeback_only_adds:
  assumes "reached gm wr s0 n m s"
  shows "ancestor (wb_tip s0) (wb_tip s)"
  using assms
proof (induction rule: reached.induct)
  case (own_step n m s s')
  then show ?case using script_forward ancestor_trans by blast
next
  case (other_step n m s tip)
  then show ?case using ancestor_trans by simp
qed simp










definition status_told :: "Writeback \<Rightarrow> Writeback \<Rightarrow> bool" where
  "status_told s0 s \<longleftrightarrow> wb_status s0 \<le> wb_status s \<and>
     (case wb_phase s of
        Leaving e published \<Rightarrow> if published then e = wb_status s else 0 < e
      | Exited e published \<Rightarrow> if published then e = wb_status s else 0 < e
      | _ \<Rightarrow> True)"

lemma script_status_told:
  "script_step gm wr s s' \<Longrightarrow> status_told s0 s \<Longrightarrow> wb_status s0 \<le> 1 \<Longrightarrow> status_told s0 s'"
  by (induction rule: script_step.induct) (auto simp: status_told_def)

lemma reached_status_told:
  "reached gm wr s0 n m s \<Longrightarrow> wb_status s0 \<le> 1 \<Longrightarrow> status_told s0 s0 \<Longrightarrow> status_told s0 s"
proof (induction rule: reached.induct)
  case (other_step n m s tip)
  then show ?case by (auto simp: status_told_def split: Phase.splits)
qed (auto intro: script_status_told)

text \<open>
  C34: A job succeeds only when everything it did is recorded: its status is 0 only when the deployment ended
  with 0, the script published the state, and the rule files the deployment modified were validated (or it
  modified none). A deployment that fails fails the job whatever the write-back does.
\<close>

theorem job_succeeds_only_when_recorded:
  assumes "reached gm wr (start_writeback validates folder base working tip) n m s" and "wb_phase s = Exited e published"
    and "job_status deploy_status e = 0"
  shows "deploy_status = 0 \<and> published
    \<and> (let edited = edited_rules folder (tr_files (tree base)) (tr_files working) in edited = [] \<or> validates edited)"
proof -
  let ?s0 = "start_writeback validates folder base working tip"
  have status: "wb_status ?s0 = fst (stage_rules validates folder (tr_files (tree base)) (tr_files working))"
    by (simp add: start_writeback_def Let_def split: prod.splits)
  then have "wb_status ?s0 \<le> 1" by (simp add: stage_rules_def Let_def)
  moreover have "status_told ?s0 ?s0"
    by (simp add: status_told_def start_writeback_def Let_def split: prod.splits)
  ultimately have "status_told ?s0 s" by (rule reached_status_told [OF assms(1)])
  moreover have "deploy_status = 0" "e = 0" using assms(3) by (simp_all add: job_status_def split: if_splits)
  ultimately have "published" "wb_status ?s0 = 0"
    using assms(2) by (auto simp: status_told_def split: if_splits)
  with status \<open>deploy_status = 0\<close> show ?thesis by (auto simp: stage_rules_def Let_def split: if_splits)
qed

section \<open>Witnesses\<close>

text \<open>
  A run that recorded one id; another job pushes first, the push is refused, the commit is rebased and then
  accepted.
\<close>

definition empty_tree :: Tree where
  "empty_tree = \<lparr>tr_states = [], tr_files = []\<rparr>"

definition sample_base :: GitCommit where
  "sample_base = Commit [] empty_tree"

definition sample_other :: GitCommit where
  "sample_other = Commit [sample_base] \<lparr>tr_states = [], tr_files = [(''README'', ''r'')]\<rparr>"

definition sample_working :: Tree where
  "sample_working = \<lparr>tr_states = [(sample_name, FFile (sample_shard ''a1''))], tr_files = []\<rparr>"

definition keep_ours :: GitMerge where
  "keep_ours = \<lparr>gm_json = (\<lambda>_ c _. Some c), gm_text = (\<lambda>_ c _. Some c)\<rparr>"

lemma keep_ours_drops: "\<not> merged_away keep_ours wr s0 s name key v"
proof -
  have "\<not> drops keep_ours base ours theirs n k" for base ours theirs n k
    using held_file [of ours n _ k] by (auto simp: drops_def keep_ours_def)
  then show ?thesis by (auto simp: merged_away_def dropped_def split: list.splits)
qed

definition sample_start :: Writeback where
  "sample_start = start_writeback (\<lambda>_. True) ''objects/rules'' sample_base sample_working sample_base"

definition sample_rebased :: GitCommit where
  "sample_rebased = Commit [sample_other]
     \<lparr>tr_states = [(sample_name, FFile (sample_shard ''a1''))], tr_files = [(''README'', ''r'')]\<rparr>"

definition sample_final :: Writeback where
  "sample_final = sample_start\<lparr>wb_tip := sample_rebased, wb_head := sample_rebased, wb_attempt := 2,
     wb_phase := Exited 0 True\<rparr>"

lemma sample_start_fields:
  "sample_start = \<lparr>wb_tip = sample_base, wb_head = Commit [sample_base] sample_working,
     wb_state_commit = Commit [sample_base] sample_working, wb_attempt = 1, wb_status = 0, wb_phase = Pushing,
     wb_shown = [], wb_side = []\<rparr>"
  by (simp add: sample_start_def start_writeback_def stage_rules_def edited_rules_def sample_base_def empty_tree_def
      sample_working_def same_tree_def same_entries_def Let_def)

lemma sample_rebase: "rebase_onto keep_ours (Commit [sample_base] sample_working) sample_other = Some sample_rebased"
  by (simp add: rebase_onto_def sample_base_def sample_other_def empty_tree_def sample_working_def merge_trees_def
      merge_entries_def merge_entry_def Let_def List.map_filter_simps on_tip_def same_tree_def same_entries_def
      sample_rebased_def)

lemma rebased_run: "reached keep_ours True sample_start 5 2 sample_final"
proof -
  let ?s1 = "sample_start\<lparr>wb_tip := sample_other\<rparr>"
  let ?s2 = "?s1\<lparr>wb_phase := Refused\<rparr>"
  let ?s3 = "?s2\<lparr>wb_attempt := 2, wb_phase := Fetching\<rparr>"
  let ?s4 = "?s3\<lparr>wb_head := sample_rebased, wb_phase := Pushing\<rparr>"
  let ?s5 = "?s4\<lparr>wb_tip := sample_rebased, wb_phase := Leaving 0 True\<rparr>"
  have "reached keep_ours True sample_start 0 0 ?s1"
    by (rule other_step [OF reached.start]) (simp add: sample_start_fields sample_other_def)
  moreover have "script_step keep_ours True ?s1 ?s2" by (rule push_refused) (simp add: sample_start_fields)
  moreover have "script_step keep_ours True ?s2 ?s3"
    using again [of ?s2] by (simp add: sample_start_fields push_attempts_def numeral_2_eq_2)
  moreover have "script_step keep_ours True ?s3 ?s4"
    using rebased [of ?s3 keep_ours sample_rebased] by (simp add: sample_start_fields sample_rebase)
  moreover have "script_step keep_ours True ?s4 ?s5"
    using push_accepted [of ?s4] by (simp add: sample_start_fields sample_rebased_def)
  moreover have "script_step keep_ours True ?s5 sample_final"
    using trap_published [of ?s5 0] by (simp add: sample_start_fields sample_final_def)
  ultimately have "reached keep_ours True sample_start (Suc (Suc (Suc (Suc (Suc 0)))))
      (0 + pushes ?s1 + pushes ?s2 + pushes ?s3 + pushes ?s4 + pushes ?s5) sample_final"
    by (blast intro: own_step)
  then show ?thesis by (simp add: eval_nat_numeral pushes_def sample_start_fields)
qed

lemma sample_final_phase: "wb_phase sample_final = Exited 0 True"
  by (simp add: sample_final_def)

theorem writeback_loses_no_id_witness:
  "on_branch sample_final sample_name (''crowdstrike'', ''Prod'') (Some ''a1'')"
proof -
  have h: "held (tr_states sample_working) sample_name (''crowdstrike'', ''Prod'') = Some ''a1''"
    "held (tr_states (tree sample_base)) sample_name (''crowdstrike'', ''Prod'') = None"
    by (simp_all add: held_def tip_state_def sample_working_def sample_from_file sample_ours_def sample_base_def
        empty_tree_def empty_state_def tenants_of_def)
  then show ?thesis
    using writeback_loses_no_id [OF rebased_run [unfolded sample_start_def] sample_final_phase,
        of sample_name "(''crowdstrike'', ''Prod'')"] by (simp add: keep_ours_drops)
qed

theorem writeback_only_adds_witness: "ancestor (wb_tip sample_start) (wb_tip sample_final)"
  by (rule writeback_only_adds [OF rebased_run])


theorem job_succeeds_only_when_recorded_witness:
  "reached keep_ours True sample_start 5 2 sample_final \<and> job_status 0 0 = 0 \<and> wb_phase sample_final = Exited 0 True"
  using job_succeeds_only_when_recorded [OF rebased_run [unfolded sample_start_def] sample_final_phase, of 0] rebased_run
  by (simp add: job_status_def sample_final_phase)

end
